(* ===== verification/Prelude.thy ===== *)
theory Prelude
  imports Main "HOL-Library.Monad_Syntax" "HOL-Library.AList" "HOL-Library.Signed_Division"
begin

text \<open>
  Shared ground of the development.

  \<^item> Go's fixed-width integers: a value of type \<open>int32\<close> or \<open>int64\<close> is an \<open>int\<close>, and every
    arithmetic operation of the source wraps it with \<open>i32\<close> or \<open>i64\<close>; division and remainder
    truncate towards zero and panic on a zero divisor.
  \<^item> Go's panics: a function that can panic returns an \<open>option\<close>, and \<open>None\<close> is the panic. The
    message handler of the server recovers from it and answers nothing
    (\<open>_process_one_client_msg\<close>), so what the state is after a panic is not modelled.
  \<^item> Slices: \<open>go_nth\<close> is an index expression, out of range is a panic.
  \<^item> Columns: the generated classes of \<open>a_db_tables.go\<close> keep a map from an \<open>int32\<close> key to a
    record. A column is an association list; its order stands for the order in which a
    \<open>range\<close> loop of this run visits the map. Locks are left out (a handler runs alone on its
    player, see \<open>is_lock\<close>) and so are the \<open>m_changed\<close> flags that only steer saving.
\<close>

named_theorems go_defs \<open>definitions of the Go primitives, unfolded in component proofs\<close>
named_theorems col_simps \<open>how the column operations act on the map of a column\<close>

subsection \<open>Fixed-width integers\<close>

definition i32 :: "int \<Rightarrow> int" where
  "i32 x = (x + 2147483648) mod 4294967296 - 2147483648"

definition i64 :: "int \<Rightarrow> int" where
  "i64 x = (x + 9223372036854775808) mod 18446744073709551616 - 9223372036854775808"

definition in32 :: "int \<Rightarrow> bool" where
  "in32 x \<longleftrightarrow> - 2147483648 \<le> x \<and> x \<le> 2147483647"

abbreviation (input) max32 :: int where
  "max32 \<equiv> 2147483647"

lemma i32_id: "in32 x \<Longrightarrow> i32 x = x"
  unfolding i32_def in32_def by auto

lemma i32_bounds: "in32 (i32 x)"
proof -
  have "0 \<le> (x + 2147483648) mod 4294967296" "(x + 2147483648) mod 4294967296 < 4294967296"
    by (rule pos_mod_sign, simp) (rule pos_mod_bound, simp)
  then show ?thesis unfolding i32_def in32_def by linarith
qed

lemma i32_idem [simp]: "i32 (i32 x) = i32 x"
  by (rule i32_id) (rule i32_bounds)

lemma i32_range_id: "- 2147483648 \<le> x \<Longrightarrow> x \<le> 2147483647 \<Longrightarrow> i32 x = x"
  by (rule i32_id) (simp add: in32_def)

lemma i32_0 [simp]: "i32 0 = 0" and i32_1 [simp]: "i32 1 = 1"
  by (simp_all add: i32_def)

lemma i32_lower: "- 2147483648 \<le> i32 x" and i32_upper: "i32 x \<le> 2147483647"
  using i32_bounds [of x] by (auto simp: in32_def)

text \<open>Adding two non-negative values either is exact or turns negative, never small positive.\<close>

lemma i32_add_overflow:
  assumes "0 \<le> a" "in32 a" "0 \<le> b" "in32 b"
  shows "i32 (a + b) < 0 \<longleftrightarrow> max32 < a + b"
proof (cases "a + b \<le> max32")
  case True
  with assms show ?thesis by (simp add: i32_range_id in32_def)
next
  case False
  with assms have "(a + b + 2147483648) mod 4294967296 = a + b + 2147483648 - 4294967296"
    by (simp add: in32_def mod_pos_pos_trivial minus_mod_self2 [symmetric, of "a + b + 2147483648"]
             del: minus_mod_self2)
  with False assms show ?thesis by (simp add: i32_def in32_def)
qed

definition quot32 :: "int \<Rightarrow> int \<Rightarrow> int option" where
  "quot32 a b = (if b = 0 then None else Some (i32 (a sdiv b)))"

definition rem32 :: "int \<Rightarrow> int \<Rightarrow> int option" where
  "rem32 a b = (if b = 0 then None else Some (a smod b))"

declare quot32_def [go_defs] rem32_def [go_defs]

lemma sdiv_nonneg: "0 \<le> a \<Longrightarrow> 0 < b \<Longrightarrow> (a :: int) sdiv b = a div b"
  by (cases "a = 0") (simp_all add: signed_divide_int_def)

lemma smod_nonneg: "0 \<le> a \<Longrightarrow> 0 < b \<Longrightarrow> (a :: int) smod b = a mod b"
  by (cases "a = 0") (simp_all add: signed_modulo_int_def)

subsection \<open>Slices\<close>

definition go_nth :: "'a list \<Rightarrow> int \<Rightarrow> 'a option" where
  "go_nth xs i = (if 0 \<le> i \<and> i < int (length xs) then Some (xs ! nat i) else None)"

lemma go_nth_Some_iff: "go_nth xs i = Some x \<longleftrightarrow> 0 \<le> i \<and> i < int (length xs) \<and> xs ! nat i = x"
  by (auto simp: go_nth_def)

lemma go_nth_in_set: "go_nth xs i = Some x \<Longrightarrow> x \<in> set xs"
  by (auto simp: go_nth_Some_iff)

lemma go_nth_total: "0 \<le> i \<Longrightarrow> i < int (length xs) \<Longrightarrow> \<exists>x. go_nth xs i = Some x"
  by (simp add: go_nth_def)

subsection \<open>Columns\<close>

type_synonym 'v column = "(int \<times> 'v) list"

definition col_HasIndex :: "'v column \<Rightarrow> int \<Rightarrow> bool" where
  "col_HasIndex m k \<longleftrightarrow> map_of m k \<noteq> None"

definition col_Get :: "'v column \<Rightarrow> int \<Rightarrow> 'v option" where
  "col_Get m k = map_of m k"

definition col_GetAllIndex :: "'v column \<Rightarrow> int list" where
  "col_GetAllIndex m = map fst m"

definition col_Add :: "int \<Rightarrow> 'v \<Rightarrow> 'v column \<Rightarrow> bool \<times> 'v column" where
  "col_Add k v m = (if col_HasIndex m k then (False, m) else (True, AList.update k v m))"

definition col_Remove :: "int \<Rightarrow> 'v column \<Rightarrow> 'v column" where
  "col_Remove k m = AList.delete k m"

definition col_Clear :: "'v column \<Rightarrow> 'v column" where
  "col_Clear m = []"

definition col_NumAll :: "'v column \<Rightarrow> int" where
  "col_NumAll m = i32 (int (length m))"

text \<open>A field getter returns the field and whether the key exists; a setter changes nothing
  when the key does not exist.\<close>

definition col_get_field :: "('v \<Rightarrow> 'a) \<Rightarrow> 'a \<Rightarrow> 'v column \<Rightarrow> int \<Rightarrow> 'a \<times> bool" where
  "col_get_field f z m k = (case map_of m k of None \<Rightarrow> (z, False) | Some d \<Rightarrow> (f d, True))"

definition col_set_field :: "('v \<Rightarrow> 'v) \<Rightarrow> int \<Rightarrow> 'v column \<Rightarrow> bool \<times> 'v column" where
  "col_set_field u k m =
     (case map_of m k of None \<Rightarrow> (False, m) | Some d \<Rightarrow> (True, AList.update k (u d) m))"

text \<open>A column is well formed when every key occurs once, as in a Go map.\<close>

definition col_wf :: "'v column \<Rightarrow> bool" where
  "col_wf m \<longleftrightarrow> distinct (map fst m)"

lemma col_HasIndex_iff [col_simps]: "col_HasIndex m k \<longleftrightarrow> map_of m k \<noteq> None"
  by (simp add: col_HasIndex_def)

lemma col_Get_iff [col_simps]: "col_Get m k = map_of m k"
  by (simp add: col_Get_def)

lemma map_of_col_Add [col_simps]:
  "map_of (snd (col_Add k v m)) = (if map_of m k = None then (map_of m)(k \<mapsto> v) else map_of m)"
  by (auto simp: col_Add_def col_HasIndex_def update_conv')

lemma map_of_col_Remove [col_simps]: "map_of (col_Remove k m) = (map_of m)(k := None)"
  by (simp add: col_Remove_def delete_conv')

lemma map_of_col_set_field [col_simps]:
  "map_of (snd (col_set_field u k m)) =
     (case map_of m k of None \<Rightarrow> map_of m | Some d \<Rightarrow> (map_of m)(k \<mapsto> u d))"
  by (auto simp: col_set_field_def update_conv' split: option.splits)

lemma map_of_AList_update [col_simps]: "map_of (AList.update k v m) = (map_of m)(k \<mapsto> v)"
  by (rule update_conv')

lemma map_of_AList_delete [col_simps]: "map_of (AList.delete k m) = (map_of m)(k := None)"
  by (rule delete_conv')

lemma col_wf_Nil [simp, intro]: "col_wf []"
  by (simp add: col_wf_def)

lemma col_wf_update [simp, intro]: "col_wf m \<Longrightarrow> col_wf (AList.update k v m)"
  by (simp add: col_wf_def distinct_update)

lemma col_wf_delete [simp, intro]: "col_wf m \<Longrightarrow> col_wf (AList.delete k m)"
  by (simp add: col_wf_def distinct_delete)

lemma col_wf_Add [simp, intro]: "col_wf m \<Longrightarrow> col_wf (snd (col_Add k v m))"
  by (simp add: col_Add_def)

lemma col_wf_Remove [simp, intro]: "col_wf m \<Longrightarrow> col_wf (col_Remove k m)"
  by (simp add: col_Remove_def)

lemma col_wf_set_field [simp, intro]: "col_wf m \<Longrightarrow> col_wf (snd (col_set_field u k m))"
  by (simp add: col_set_field_def split: option.splits)

subsection \<open>The contract of a column\<close>

text \<open>
  What the handlers rely on when they use a column: a lookup returns what was added last, other
  keys are not disturbed, a removed key is gone. Every player component is a client.
\<close>

locale column_store =
  fixes look :: "'m \<Rightarrow> int \<Rightarrow> 'v option"
    and has :: "'m \<Rightarrow> int \<Rightarrow> bool"
    and add :: "int \<Rightarrow> 'v \<Rightarrow> 'm \<Rightarrow> bool \<times> 'm"
    and remove :: "int \<Rightarrow> 'm \<Rightarrow> 'm"
    and modify :: "('v \<Rightarrow> 'v) \<Rightarrow> int \<Rightarrow> 'm \<Rightarrow> bool \<times> 'm"
  assumes has_look: "has m k \<longleftrightarrow> look m k \<noteq> None"
    and add_ok: "fst (add k v m) \<longleftrightarrow> look m k = None"
    and look_add: "look (snd (add k v m)) j =
          (if j = k \<and> look m k = None then Some v else look m j)"
    and look_remove: "look (remove k m) j = (if j = k then None else look m j)"
    and look_modify: "look (snd (modify u k m)) j =
          (if j = k then map_option u (look m k) else look m j)"
begin

lemma add_remove: "look m k = None \<Longrightarrow> look (remove k (snd (add k v m))) j = look m j"
  by (simp add: look_remove look_add)

lemma remove_add: "look (snd (add k v (remove k m))) k = Some v"
  by (simp add: look_add look_remove)

lemma add_existing: "has m k \<Longrightarrow> look (snd (add k v m)) j = look m j"
  by (simp add: has_look look_add)

lemma modify_missing: "\<not> has m k \<Longrightarrow> look (snd (modify u k m)) j = look m j"
  by (cases "j = k") (simp_all add: has_look look_modify)

lemma has_modify: "has (snd (modify u k m)) j = has m j"
  by (simp add: has_look look_modify)

end

interpretation column: column_store col_Get col_HasIndex col_Add col_Remove col_set_field
proof unfold_locales
qed (auto simp: col_simps col_Add_def split: option.splits)

end
