(* ===== verification/Tables.thy ===== *)
theory Tables
  imports Prelude
begin

text \<open>
  The configuration the handlers read and never write: the rows of the game-data tables
  (\<open>src/tables\<close>), the global settings (\<open>GlobalConfig\<close>) and, in \<open>env\<close>, the instant at
  which a handler runs, the offset of the server's time zone and the random draws. A table is a
  map from an id to a row; reading the XML files into these records is not modelled. Field
  names are those of the Go structs behind a short prefix.
\<close>

text \<open>\<open>tables.XmlItemItem\<close>\<close>

record xml_item =
  it_CfgId :: int
  it_SaleCoin :: int
  it_MaxNumber :: int
  it_Type :: int
  it_ValidTime :: int
  it_Numbers :: "int list"
  it_Gender :: int

text \<open>\<open>tables.XmlPlayerLevelItem\<close>\<close>

record xml_player_level =
  lv_MaxExp :: int
  lv_MaxPower :: int
  lv_MaxCattery :: int
  lv_MaxFarm :: int
  lv_FosteredSlot :: int
  lv_FosterSlot :: int

text \<open>\<open>tables.XmlCharacterItem\<close>: a cat\<close>

record xml_character =
  ch_Id :: int
  ch_Color :: int
  ch_PieceId :: int
  ch_PieceNum :: int
  ch_Stone :: int
  ch_RangeMin :: int
  ch_RangeMax :: int
  ch_CoinAbilityRangeMin :: int
  ch_CoinAbilityRangeMax :: int
  ch_ExploreAbilityRangeMin :: int
  ch_ExploreAbilityRangeMax :: int
  ch_MatchAbilityRangeMin :: int
  ch_MatchAbilityRangeMax :: int
  ch_GrowthRate :: int
  ch_InitialRate :: int
  ch_SkillId :: int
  ch_UpgradeExps :: "int list"
  ch_UpStarCosts :: "int list"
  ch_UpstarCats :: "int list"
  ch_UpstarMaxLevels :: "int list"
  ch_AddCoins :: "int list"
  ch_AddExplores :: "int list"
  ch_AddMatchs :: "int list"
  ch_UpSkills :: "int list"
  ch_UpSkillCosts :: "int list"
  ch_Rarity :: int
  ch_AvatarId :: int
  ch_FeedCosts :: "int list"
  ch_CriticalChances :: "int list"
  ch_SkillScore :: int

text \<open>\<open>tables.XmlBuildingItem\<close>, \<open>tables.XmlCropItem\<close>, \<open>tables.XmlCatHouseItem\<close>,
  \<open>tables.XmlFosterItem\<close>, \<open>tables.XmlTaskItem\<close>\<close>

record xml_building =
  bd_Id :: int
  bd_Type :: int
  bd_Rarity :: int
  bd_Tag :: int
  bd_UnlockType :: int
  bd_UnlockLevel :: int
  bd_UnlockCosts :: "int list"
  bd_Charm :: int
  bd_Geography :: int
  bd_SaleCoin :: int
  bd_MapSizes :: "int list"
  bd_IfFunction :: int

record xml_crop =
  cr_Id :: int
  cr_Level :: int
  cr_Cost :: int
  cr_Output :: int
  cr_Times :: "int list"
  cr_Exp :: int

record xml_cathouse =
  chs_UnlockStar :: int
  chs_Cost :: int
  chs_CatStorage :: int
  chs_Time :: int
  chs_Color :: int
  chs_SalePrice :: int

record xml_foster =
  fo_Id :: int
  fo_Rarity :: int
  fo_FosterTime :: int
  fo_Rewards :: "int list"
  fo_FusionScores :: "int list"
  fo_FusionTypeWeights :: "int list"
  fo_BeHitScores :: "int list"

record xml_task =
  tk_Id :: int
  tk_Type :: int
  tk_EventId :: int
  tk_EventParam :: int
  tk_CompleteNum :: int
  tk_Prev :: int
  tk_Next :: int
  tk_Rewards :: "int list"

text \<open>The shops (\<open>tables.XmlShopItem\<close>, \<open>ShopData\<close>, \<open>XmlShopTypeItem\<close>), the card libraries
  (\<open>XmlDropCardItem\<close>, \<open>DropCardTypeLib\<close>, \<open>XmlExtractItem\<close>), the formulas, the stages and chapters and
  the sign-in rewards. An \<open>ItemInfo\<close> is the pair of an id and a number.\<close>

record xml_shop_item =
  sh_Id :: int
  sh_Type :: int
  sh_Number :: int
  sh_CostResourceId :: int
  sh_CostNum :: int
  sh_LimitedType :: int
  sh_LimitedNumber :: int
  sh_BagItems :: "int list"
  sh_BundleId :: string

record shop_table_data =
  sd_items :: "xml_shop_item column"
  sd_limit_num :: int

record xml_shop_type =
  sy_AutoRefreshTime :: string
  sy_RefreshDays :: int

record xml_drop_card =
  dc_DropType :: int
  dc_Weight :: int
  dc_Min :: int
  dc_Max :: int

record drop_lib =
  dl_TotalCount :: int
  dl_TotalWeight :: int
  dl_DropItems :: "xml_drop_card list"

record xml_extract =
  ex_DropItems :: "(int \<times> int) list"
  ex_CostId :: int
  ex_CostNum :: int
  ex_FirstDropIds :: "int list"

record xml_formula =
  fm_Id :: int
  fm_BuildID :: int
  fm_Rarity :: int
  fm_UnlockChapter :: int
  fm_Star :: int
  fm_Time :: int
  fm_Cost :: int
  fm_CostItems :: "(int \<times> int) list"
  fm_Exp :: int

record xml_level =
  le_Id :: int
  le_Chapter :: int
  le_NeedPower :: int
  le_FirstClearReward :: "int list"
  le_FirstAllStarReward :: "int list"
  le_CoinReward :: int
  le_ExtraReward1 :: "int list"
  le_ExtraReward2 :: "int list"
  le_NextLevel :: int

record xml_chapter =
  cp_MaxStageId :: int
  cp_UnlockStarNum :: int
  cp_UnlockTime :: int

text \<open>The map of a player: obstacles, chests and areas (\<open>XmlBlockItem\<close>, \<open>XmlMapChestItem\<close>,
  \<open>SingleBuildArea\<close>, \<open>DefaultMapBuilding\<close>, \<open>XmlAreaUnlockItem\<close>). \<open>ba_XYs\<close> are the keys of
  \<open>ArenaXYsMap\<close>; the columns are given in the order a \<open>range\<close> visits them.\<close>

record xml_block =
  bk_Id :: int
  bk_RemoveItems :: "int list"
  bk_DropIds :: "int list"
  bk_Weight :: int

record xml_map_chest =
  mc_Id :: int
  mc_Weight :: int
  mc_RemoveCost :: "int list"
  mc_Exp :: int
  mc_LastSec :: int
  mc_Rewards :: "int list"

record default_map_building =
  dm_Id :: int
  dm_Rotation :: int
  dm_Point :: "int list"

record build_area =
  ba_Index :: int
  ba_XYs :: "int list"
  ba_DefMapBuildings :: "default_map_building column"

record xml_area_unlock =
  au_FrontAreas :: "int list"
  au_UnlockLevel :: int
  au_UnlockStar :: int
  au_UnlockCost :: "int list"
  au_QuickUnlockCost :: "int list"
  au_MaxObstacle :: int

text \<open>The expeditions (\<open>ExpeditionCondition\<close>, \<open>XmlExpeditionItem\<close>, \<open>XmlExpeditionEventItem\<close>,
  \<open>ExpeditionEvent\<close>). The length of \<open>Array\<close> is \<open>Count\<close>.\<close>

record expedition_condition =
  ec_Con_Type :: int
  ec_Con_Val :: int
  ec_Ext_val :: int
  ec_Ext_vals :: "int list"
  ec_Con_Weight :: int

record xml_expedition =
  xp_Id :: int
  xp_CostTime :: int
  xp_RandWeight :: int
  xp_TaskType :: int
  xp_LimitTimeSec :: int
  xp_LvlMin :: int
  xp_LvlMax :: int
  xp_FixRewards :: "int list"
  xp_SucceedBaseRate :: int
  xp_SearchEventId :: int
  xp_EventBaseRate :: int
  xp_NeedConditionNum :: int
  xp_BuyBackCosts :: "int list"
  xp_Single :: int
  xp_TotalConWeight :: int
  xp_Conditions :: "expedition_condition list"

record xml_expedition_event =
  xe_SearchEventID :: int
  xe_ClientId :: int
  xe_SearchEventWeight :: int
  xe_DropIds :: "int list"

record expedition_events =
  ee_Array :: "xml_expedition_event list"
  ee_TotalWeight :: int

text \<open>A row of the system mails of the whole server (\<open>dbSysMailRow\<close>).\<close>

record sys_mail =
  sm_TableId :: int
  sm_SendTime :: int
  sm_ItemList :: "int list"

text \<open>The part of \<open>tables.GlobalConfig\<close> the modelled handlers read.\<close>

record global_config =
  gc_CatHouseProduceGoldMinutes :: int
  gc_SpiritGrowPointNeedMinute :: int
  gc_CropSpeedupCostDiamond :: int
  gc_CatHouseSpeedupLevelCostDiamond :: int
  gc_DailyTaskRefreshTime :: string
  gc_FormulaAddNewSlotCostDiamond :: int
  gc_FormulaSpeedupMakingBuildingCostDiamond :: int
  gc_CancelMakingFormulaReturnMaterial :: int
  gc_MaxHelpUnlockNum :: int
  gc_ChapterUnlockSecPerDiamond :: int
  gc_FriendGivePointsRefreshTime :: string
  gc_GiveFriendPointsOnce :: int
  gc_GiveFriendPointsPlayersCount :: int
  gc_FriendGivePointsPlayerNumOneDay :: int
  gc_MapBlockRefreshMinLevel :: int
  gc_MapBlockMaxNum :: int
  gc_MapBlockRefleshSec :: int
  gc_MapChestRefleshSec :: int
  gc_MailMaxCount :: int
  gc_MailTitleBytes :: int
  gc_MailContentBytes :: int
  gc_MailPlayerSendCooldown :: int
  gc_MailAttachExistDays :: int
  gc_MailNormalExistDays :: int
  gc_FriendFosterHours :: int
  gc_ExpeditionFirstTask :: int
  gc_ExpeditionTaskCount :: int
  gc_ExpeditionSPEventSec :: int
  gc_ExpeditionDayFreeChgCount :: int
  gc_ExpeditionDayChgAddCost :: int
  gc_ExpeditionDayMaxChgCost :: int
  gc_ExpeditionDayStartCount :: int
  gc_ExpeditionMultiVal :: "int list"
  gc_SpaceCatPicUnlockGold :: int

text \<open>
  The environment of one handler run. \<open>now\<close> is \<open>time.Now().Unix()\<close>, read as one instant for the
  whole run; \<open>tz\<close> is the offset in seconds of the zone \<open>Local\<close> from UTC, taken constant (no
  daylight saving); \<open>draws\<close> is the sequence of raw values of \<open>math/rand\<close>. The task manager's
  \<open>finish_tasks\<close>, \<open>daily_task_map\<close> and arrays are fields of their own, as in
  \<open>TaskTableMgr\<close>.
\<close>

record env =
  now :: int
  tz :: int
  draws :: "nat \<Rightarrow> int"
  config :: global_config
  item_map :: "int \<rightharpoonup> xml_item"
  level_map :: "int \<rightharpoonup> xml_player_level"
  level_array :: "xml_player_level list"
  max_level :: int
  cat_map :: "int \<rightharpoonup> xml_character"
  building_map :: "int \<rightharpoonup> xml_building"
  crop_map :: "int \<rightharpoonup> xml_crop"
  cathouse_map :: "int \<rightharpoonup> xml_cathouse list"
  foster_map :: "int \<rightharpoonup> xml_foster"
  handbook_has :: "int \<Rightarrow> bool"
  task_map :: "int \<rightharpoonup> xml_task"
  finish_tasks :: "int \<rightharpoonup> xml_task list"
  daily_task_map :: "xml_task column"
  daily_task_array :: "xml_task list"
  all_daily_task :: "xml_task option"
  achieve_tasks :: "xml_task list"
  shop_arr :: "shop_table_data option list"
  shop_items :: "int \<rightharpoonup> xml_shop_item"
  shop_types :: "int \<rightharpoonup> xml_shop_type"
  drop_card_map :: "int \<rightharpoonup> drop_lib"
  extract_map :: "int \<rightharpoonup> xml_extract"
  formula_map :: "int \<rightharpoonup> xml_formula"
  stage_map :: "int \<rightharpoonup> xml_level"
  chapter_levels :: "int \<rightharpoonup> xml_level list"
  chapter_map :: "int \<rightharpoonup> xml_chapter"
  init_stage_id :: int
  sign_map :: "int \<rightharpoonup> int list"
  sign_array_empty :: bool
  seven_days_map :: "int \<rightharpoonup> int list"
  block_map :: "int \<rightharpoonup> xml_block"
  block_array :: "xml_block list"
  block_TotalWeight :: int
  chest_map :: "int \<rightharpoonup> xml_map_chest"
  chest_array :: "xml_map_chest list"
  chest_TotalWeight :: int
  chest_MaxLastSec :: int
  area_map :: "int \<rightharpoonup> build_area"
  area_type :: "int \<rightharpoonup> int"
  area_id_of :: "int \<rightharpoonup> int"
  area_unlock_map :: "int \<rightharpoonup> xml_area_unlock"
  init_area_ids :: "int list"
  def_map_buildings :: "default_map_building list"
  mail_subtypes :: "int list"
  sys_mails :: "int \<rightharpoonup> sys_mail"
  sys_mail_id :: int
  foster_types :: "int \<rightharpoonup> xml_foster list"
  expedition_map :: "int \<rightharpoonup> xml_expedition"
  expedition_array :: "xml_expedition list"
  expedition_event_sets :: "int \<rightharpoonup> expedition_events"
  expedition_event_map :: "int \<rightharpoonup> xml_expedition_event"

subsection \<open>Row lookups of the character table\<close>

definition GetMaxLevel :: "xml_character \<Rightarrow> int" where
  "GetMaxLevel cat = int (length (ch_UpgradeExps cat))"

definition GetMaxStar :: "xml_character \<Rightarrow> int" where
  "GetMaxStar cat = int (length (ch_UpStarCosts cat))"

definition GetMaxSkillLevel :: "xml_character \<Rightarrow> int" where
  "GetMaxSkillLevel cat = int (length (ch_UpSkillCosts cat))"

text \<open>The shared shape of the level and star lookups: the value at a 1-based index, or -1.\<close>

definition one_based :: "int list \<Rightarrow> int \<Rightarrow> int" where
  "one_based xs k = (if k < 1 \<or> int (length xs) < k then -1 else xs ! nat (k - 1))"

definition GetLevelExp :: "xml_character \<Rightarrow> int \<Rightarrow> int" where
  "GetLevelExp cat level = one_based (ch_UpgradeExps cat) level"

definition GetStarCostCoin :: "xml_character \<Rightarrow> int \<Rightarrow> int" where
  "GetStarCostCoin cat star = one_based (ch_UpStarCosts cat) star"

definition GetUpstarCostCatNum :: "xml_character \<Rightarrow> int \<Rightarrow> int" where
  "GetUpstarCostCatNum cat star = one_based (ch_UpstarCats cat) star"

definition GetStarMaxLevel :: "xml_character \<Rightarrow> int \<Rightarrow> int" where
  "GetStarMaxLevel cat star = one_based (ch_UpstarMaxLevels cat) star"

definition GetSkillLevelCostCoin :: "xml_character \<Rightarrow> int \<Rightarrow> int" where
  "GetSkillLevelCostCoin cat skill_level = one_based (ch_UpSkillCosts cat) skill_level"

lemma one_based_inside: "1 \<le> k \<Longrightarrow> k \<le> int (length xs) \<Longrightarrow> one_based xs k \<in> set xs"
  by (simp add: one_based_def)

lemma one_based_outside: "k < 1 \<or> int (length xs) < k \<Longrightarrow> one_based xs k = -1"
  by (simp add: one_based_def)

subsection \<open>The task tables\<close>

text \<open>\<open>TASK_TYPE_*\<close> and the \<open>TASK_COMPLETE_TYPE_*\<close> the modelled handlers pass.\<close>

abbreviation (input) TASK_TYPE_DAILY :: int where "TASK_TYPE_DAILY \<equiv> 1"
abbreviation (input) TASK_TYPE_ACHIEVE :: int where "TASK_TYPE_ACHIEVE \<equiv> 2"
abbreviation (input) TASK_COMPLETE_TYPE_ALL_DAILY :: int where "TASK_COMPLETE_TYPE_ALL_DAILY \<equiv> 101"
abbreviation (input) TASK_COMPLETE_TYPE_CAT_FEED :: int where "TASK_COMPLETE_TYPE_CAT_FEED \<equiv> 106"
abbreviation (input) TASK_COMPLETE_TYPE_COLLECT_STAR_NUM :: int where
  "TASK_COMPLETE_TYPE_COLLECT_STAR_NUM \<equiv> 202"
abbreviation (input) TASK_COMPLETE_TYPE_COLLECT_SSR :: int where "TASK_COMPLETE_TYPE_COLLECT_SSR \<equiv> 205"
abbreviation (input) TASK_COMPLETE_TYPE_CAT_LEVEL_UP :: int where "TASK_COMPLETE_TYPE_CAT_LEVEL_UP \<equiv> 206"
abbreviation (input) TASK_COMPLETE_TYPE_CAT_UP_STAR :: int where "TASK_COMPLETE_TYPE_CAT_UP_STAR \<equiv> 207"
abbreviation (input) TASK_COMPLETE_TYPE_CAT_UP_SKILL_LEVEL :: int where
  "TASK_COMPLETE_TYPE_CAT_UP_SKILL_LEVEL \<equiv> 208"
abbreviation (input) TASK_COMPLETE_TYPE_CHARM_VALUE :: int where "TASK_COMPLETE_TYPE_CHARM_VALUE \<equiv> 209"

definition GetTasks :: "env \<Rightarrow> int \<Rightarrow> xml_task list" where
  "GetTasks e task_type =
     (if task_type = TASK_TYPE_DAILY then daily_task_array e
      else if task_type = TASK_TYPE_ACHIEVE then achieve_tasks e
      else [])"

subsection \<open>Random draws\<close>

text \<open>
  \<open>rand.Int31n(n)\<close> panics for \<open>n \<le> 0\<close> and otherwise returns a value in \<open>[0, n)\<close>; here the next
  raw draw reduced modulo \<open>n\<close>, so every sequence of results is reached by some \<open>draws\<close>.
\<close>

definition Int31n :: "env \<Rightarrow> nat \<Rightarrow> int \<Rightarrow> int option" where
  "Int31n e k n = (if n \<le> 0 then None else Some (draws e k mod n))"

lemma Int31n_range: "Int31n e k n = Some r \<Longrightarrow> 0 \<le> r \<and> r < n"
  by (auto simp: Int31n_def split: if_splits)

text \<open>An environment with empty tables, the starting point of the examples.\<close>

definition empty_config :: global_config where
  "empty_config = \<lparr>gc_CatHouseProduceGoldMinutes = 0, gc_SpiritGrowPointNeedMinute = 0,
     gc_CropSpeedupCostDiamond = 0, gc_CatHouseSpeedupLevelCostDiamond = 0,
     gc_DailyTaskRefreshTime = ''04:00:00'', gc_FormulaAddNewSlotCostDiamond = 0,
     gc_FormulaSpeedupMakingBuildingCostDiamond = 0, gc_CancelMakingFormulaReturnMaterial = 0,
     gc_MaxHelpUnlockNum = 0, gc_ChapterUnlockSecPerDiamond = 0,
     gc_FriendGivePointsRefreshTime = ''04:00:00'', gc_GiveFriendPointsOnce = 0,
     gc_GiveFriendPointsPlayersCount = 0, gc_FriendGivePointsPlayerNumOneDay = 0,
     gc_MapBlockRefreshMinLevel = 0, gc_MapBlockMaxNum = 0, gc_MapBlockRefleshSec = 0,
     gc_MapChestRefleshSec = 0, gc_MailMaxCount = 0, gc_MailTitleBytes = 0, gc_MailContentBytes = 0,
     gc_MailPlayerSendCooldown = 0, gc_MailAttachExistDays = 0, gc_MailNormalExistDays = 0, gc_FriendFosterHours = 0,
     gc_ExpeditionFirstTask = 0, gc_ExpeditionTaskCount = 0, gc_ExpeditionSPEventSec = 0,
     gc_ExpeditionDayFreeChgCount = 0, gc_ExpeditionDayChgAddCost = 0, gc_ExpeditionDayMaxChgCost = 0,
     gc_ExpeditionDayStartCount = 0, gc_ExpeditionMultiVal = [], gc_SpaceCatPicUnlockGold = 0\<rparr>"

definition empty_env :: env where
  "empty_env = \<lparr>now = 0, tz = 0, draws = (\<lambda>_. 0), config = empty_config,
     item_map = Map.empty, level_map = Map.empty, level_array = [], max_level = 0,
     cat_map = Map.empty, building_map = Map.empty, crop_map = Map.empty,
     cathouse_map = Map.empty, foster_map = Map.empty, handbook_has = (\<lambda>_. False),
     task_map = Map.empty, finish_tasks = Map.empty, daily_task_map = [],
     daily_task_array = [], all_daily_task = None, achieve_tasks = [],
     shop_arr = [], shop_items = Map.empty, shop_types = Map.empty, drop_card_map = Map.empty,
     extract_map = Map.empty, formula_map = Map.empty, stage_map = Map.empty, chapter_levels = Map.empty,
     chapter_map = Map.empty, init_stage_id = 0, sign_map = Map.empty, sign_array_empty = True, seven_days_map = Map.empty,
     block_map = Map.empty, block_array = [], block_TotalWeight = 0, chest_map = Map.empty, chest_array = [],
     chest_TotalWeight = 0, chest_MaxLastSec = 0, area_map = Map.empty, area_type = Map.empty,
     area_id_of = Map.empty, area_unlock_map = Map.empty, init_area_ids = [], def_map_buildings = [],
     mail_subtypes = [], sys_mails = Map.empty, sys_mail_id = 0,
     foster_types = Map.empty, expedition_map = Map.empty, expedition_array = [],
     expedition_event_sets = Map.empty, expedition_event_map = Map.empty\<rparr>"

end
