(* ===== verification/PlayerState.thy ===== *)
theory PlayerState
  imports Tables
begin

text \<open>
  The state a handler works on: the rows of the player's database record
  (\<open>a_db_tables.go\<close>), the pending change lists of \<open>ItemCatBuildingChangeInfo\<close>, the flag
  \<open>b_base_prop_chg\<close> and the trace of what leaves the player object: messages to the client
  (\<open>Player.Send\<close>), announcements (\<open>anouncement_mgr.PushNew\<close>) and remote calls to the rank
  server, in the order they are issued.
\<close>

subsection \<open>Rows of the database columns\<close>

record info_data =
  i_Gold :: int
  i_Diamond :: int
  i_TotalStars :: int
  i_Exp :: int
  i_Head :: int
  i_NextCatId :: int
  i_CharmVal :: int
  i_Zan :: int
  i_CatFood :: int
  i_Spirit :: int
  i_FriendPoints :: int
  i_SoulStone :: int
  i_CharmMedal :: int
  i_SaveLastSpiritPointTime :: int
  i_CurMaxStage :: int
  i_MaxUnlockStage :: int
  i_MaxChapter :: int
  i_CreateUnix :: int
  i_VipCardEndDay :: int
  i_DayHelpUnlockCount :: int
  i_DayHelpUnlockUpDay :: int
  i_MakingBuildingQueue :: "int list"
  i_MakedBuildingQueue :: "int list"
  i_VipLvl :: int
  i_LastLogin :: int
  i_NextBuildingId :: int
  i_LastMapBlockUpUnix :: int
  i_LastMapChestUpUnix :: int
  i_DayExpeditionCount :: int
  i_DayExpeditionUpDay :: int
  i_DayChgExpeditionCount :: int
  i_DayChgExpeditionUpDay :: int
  i_NextExpeditionId :: int

record item_data =
  ItemCfgId :: int
  ItemNum :: int
  StartTimeUnix :: int
  RemainSeconds :: int

record cat_data =
  cat_Id :: int
  cat_CfgId :: int
  cat_Exp :: int
  cat_Level :: int
  cat_Star :: int
  cat_Nick :: string
  cat_SkillLevel :: int
  cat_Locked :: int
  cat_CoinAbility :: int
  cat_ExploreAbility :: int
  cat_MatchAbility :: int
  cat_CathouseId :: int

record building_data =
  bld_Id :: int
  bld_CfgId :: int
  bld_X :: int
  bld_Y :: int
  bld_Dir :: int
  bld_CreateUnix :: int
  bld_OverUnix :: int

record cathouse_data =
  ho_BuildingId :: int
  ho_CfgId :: int
  ho_Level :: int
  ho_CatIds :: "int list"
  ho_LastGetGoldTime :: int
  ho_CurrGold :: int
  ho_LevelupStartTime :: int
  ho_IsDone :: int
  ho_ProduceGoldTime :: int

record crop_data =
  crop_BuildingId :: int
  crop_Id :: int
  crop_PlantTime :: int
  crop_BuildingTableId :: int

record task_data =
  task_Id :: int
  task_Value :: int
  task_State :: int

record shop_data =
  shop_FirstRefreshTimePoint :: int
  shop_LastestRefreshTimePoint :: int

record making_data =
  mk_FormulaId :: int
  mk_StartTime :: int

record stage_data =
  st_Stars :: int
  st_LastFinishedUnix :: int
  st_TopScore :: int
  st_PlayedCount :: int
  st_PassCount :: int

record chapter_unlock =
  cu_ChapterId :: int
  cu_PlayerIds :: "int list"
  cu_CurHelpIds :: "int list"
  cu_StartUnix :: int

record sign_data =
  sg_CurrGroup :: int
  sg_AwardIndex :: int
  sg_SignedIndex :: int
  sg_LastSignedTime :: int

record seven_days_row =
  sv_Awards :: "int list"
  sv_Days :: int

record friend_data =
  fr_FriendId :: int
  fr_FriendName :: string
  fr_Head :: int
  fr_Level :: int
  fr_VipLevel :: int
  fr_LastLogin :: int
  fr_LastGivePointsTime :: int

record friend_req_data =
  fq_PlayerId :: int
  fq_PlayerName :: string
  fq_ReqUnix :: int

record friend_point_data =
  fp_FromPlayerId :: int
  fp_GivePoints :: int
  fp_LastGiveTime :: int
  fp_IsTodayGive :: int

record friend_relative_data =
  rel_LastGiveFriendPointsTime :: int
  rel_GiveNumToday :: int
  rel_LastRefreshTime :: int

record chat_ids_data =
  cd_FriendId :: int
  cd_MessageIds :: "int list"
  cd_CurrMessageId :: int

record chat_message_data =
  cm_PlayerMessageId :: int
  cm_Message :: string
  cm_SendTime :: int
  cm_IsRead :: int

record mail_data =
  ml_Id :: int
  ml_Type :: int
  ml_Subtype :: int
  ml_Title :: string
  ml_Content :: string
  ml_SendUnix :: int
  ml_SenderId :: int
  ml_SenderName :: string
  ml_ExtraValue :: int
  ml_AttachItemIds :: "int list"
  ml_AttachItemNums :: "int list"
  ml_IsRead :: int
  ml_IsGetAttached :: int

text \<open>The foster place: the equipped card, the own cats in it, the own cats at friends (cat id to
  friend id, a column of its own) and the cats of friends. The building id of \<open>dbPlayerFosterData\<close>
  is the field \<open>p_FosterBuildingId\<close> of the player.\<close>

record foster_row =
  fs_EquippedCardId :: int
  fs_StartTime :: int

record foster_cat_data =
  fc_CatId :: int
  fc_StartTime :: int
  fc_RemainSeconds :: int

record foster_friend_cat_data =
  ff_PlayerId :: int
  ff_CatId :: int
  ff_CatTableId :: int
  ff_StartTime :: int
  ff_StartCardId :: int
  ff_PlayerName :: string
  ff_PlayerLevel :: int
  ff_PlayerHead :: int
  ff_CatLevel :: int
  ff_CatStar :: int
  ff_CatNick :: string

text \<open>An expedition task of the player.\<close>

record expedition_con =
  xc_ConType :: int
  xc_ConVals :: "int list"

record expedition_event =
  xv_EventId :: int
  xv_ClientId :: int
  xv_Sec :: int
  xv_DropIdNums :: "int list"

record expedition_data =
  xd_Id :: int
  xd_TaskId :: int
  xd_StartUnix :: int
  xd_EndUnix :: int
  xd_InCatIds :: "int list"
  xd_CurState :: int
  xd_Result :: int
  xd_TaskLeftSec :: int
  xd_TaskLeftSecLastUpUnix :: int
  xd_Conditions :: "expedition_con list"
  xd_EventIds :: "expedition_event list"
  xd_TotalSpecials :: int

record space_row =
  spc_BeFocusNum :: int
  spc_Gender :: int
  spc_FashionIds :: "int list"

subsection \<open>What is sent\<close>

record item_info =
  ii_ItemCfgId :: int
  ii_ItemNum :: int
  ii_RemainSeconds :: int

record cat_info =
  ci_CatCfgId :: int
  ci_Id :: int
  ci_Exp :: int
  ci_Level :: int
  ci_Star :: int
  ci_Nick :: string
  ci_SkillLevel :: int
  ci_Locked :: bool
  ci_CoinAbility :: int
  ci_ExploreAbility :: int
  ci_MatchAbility :: int
  ci_State :: int

record building_info =
  bi_CfgId :: int
  bi_Id :: int
  bi_X :: int
  bi_Y :: int
  bi_Dir :: int

record cathouse_info =
  hi_CatHouseId :: int
  hi_CatIds :: "int list"
  hi_Level :: int
  hi_Gold :: int
  hi_NextLevelRemainSeconds :: int
  hi_BuildingConfigId :: int
  hi_IsDone :: int
  hi_ProduceGoldRemainSeconds :: int

record task_info =
  ti_Id :: int
  ti_Value :: int
  ti_State :: int

record crop_info =
  cri_BuildingId :: int
  cri_CropId :: int
  cri_RemainSeconds :: int

text \<open>\<open>S2CStagePass\<close> with the fields \<open>ChkFinishStage\<close> and \<open>stage_pass\<close> fill; a depot building is the pair
  of its id and number.\<close>

record stage_pass_msg =
  sp_StageId :: int
  sp_Score :: int
  sp_TopScore :: int
  sp_Stars :: int
  sp_Result :: int
  sp_UseItems :: "(int \<times> int) list"
  sp_GetItems :: "item_info list"
  sp_GetCats :: "cat_info list"
  sp_GetBuildings :: "(int \<times> int) list"
  sp_GetItemsFirst :: "item_info list"
  sp_GetItems3Star :: "item_info list"
  sp_CatExtraAddCoin :: int
  sp_GetCoin :: int

record friend_info =
  fi_PlayerId :: int
  fi_Name :: string
  fi_Head :: int
  fi_Level :: int
  fi_VipLevel :: int
  fi_LastLogin :: int
  fi_Zan :: int
  fi_LeftGiveSeconds :: int
  fi_FriendPoints :: int
  fi_UnreadMessageNum :: int
  fi_IsZan :: bool

record friend_req =
  rq_PlayerId :: int
  rq_Name :: string
  rq_Level :: int
  rq_Head :: int

record points_result =
  pr_FriendId :: int
  pr_Points :: int
  pr_Error :: int
  pr_BackPoints :: int
  pr_RemainSeconds :: int

record mail_basic =
  mb_Id :: int
  mb_Type :: int
  mb_Subtype :: int
  mb_Title :: string
  mb_SenderId :: int
  mb_SenderName :: string
  mb_SendTime :: int
  mb_IsRead :: bool
  mb_IsGetAttached :: bool
  mb_HasAttached :: bool
  mb_Value :: int
  mb_LeftSecs :: int

text \<open>A cat in the foster place with its settled experience and items, a cat of a friend, a cat at a
  friend, an expedition task, a cat of a space.\<close>

record foster_cat_info =
  fci_CatId :: int
  fci_CatExp :: int
  fci_Items :: "(int \<times> int) list"
  fci_StartTime :: int

record fostered_friend_cat_info =
  ffi_CatTableId :: int
  ffi_CatLevel :: int
  ffi_CatStar :: int
  ffi_CatNick :: string
  ffi_FriendId :: int
  ffi_FriendName :: string
  ffi_FriendLevel :: int
  ffi_FriendHead :: int
  ffi_StartCardId :: int
  ffi_RemainSeconds :: int

record foster_cat_in_friend_info =
  fif_CatId :: int
  fif_FriendId :: int
  fif_FriendLevel :: int
  fif_FriendHead :: int
  fif_FriendName :: string
  fif_StartCardId :: int
  fif_RemainSeconds :: int
  fif_CatExp :: int
  fif_Items :: "(int \<times> int) option list"

record expedition_item =
  xi_Id :: int
  xi_TaskId :: int
  xi_InCatIds :: "int list"
  xi_TaskLeftSec :: int
  xi_ExpeditionLeftSec :: int
  xi_ExpeditionPassSec :: int
  xi_Result :: int
  xi_CurState :: int
  xi_Conditions :: "expedition_con list"
  xi_Events :: "(int \<times> int \<times> int list) list"

record space_cat_data =
  sc_CatId :: int
  sc_CatTableId :: int
  sc_CatName :: string
  sc_CatOuqi :: int
  sc_CoinAbility :: int
  sc_MatchAbility :: int
  sc_ExploreAbility :: int
  sc_IsUnlock :: bool

record space_info =
  si_PlayerId :: int
  si_PlayerName :: string
  si_PlayerLevel :: int
  si_PlayerHead :: int
  si_Zaned :: int
  si_Charm :: int
  si_BeFocusNum :: int
  si_Cats :: "space_cat_data list"
  si_Gender :: int
  si_FashionIds :: "int list"

record focus_player =
  fcp_PlayerId :: int
  fcp_Name :: string
  fcp_Level :: int
  fcp_Head :: int

text \<open>One constructor per protocol message, its arguments the fields the handler sets.\<close>

datatype (plugins only: size) msg =
    ItemInfoMsg item_info
  | CatInfoMsg cat_info
  | S2CItemsInfoUpdate "item_info list"
  | S2CCatsInfoUpdate "cat_info list" "int list" "cat_info list"
  | S2CBuildingsInfoUpdate "building_info list" "int list" "building_info list"
  | S2CDepotBuildingInfoUpdate "(int \<times> int) list"
  | S2CNewHandbookItemNotify int
  | S2CNewHeadNotify int
  | S2CUseItem int int
  | S2CSellItemResult int int
  | S2CComposeCatResult cat_info int int
  | S2CTaskValueNotify task_info
  | S2CTaskDataResponse int "task_info list" int
  | S2CTaskRewardResponse int
  | S2CCatFeedResult int int int bool
  | S2CPlayerCatInfoResult "int list"
  | S2CGetItemInfos "item_info list"
  | S2CGetCatInfos "cat_info list"
  | S2CCatUpgradeStarResult int int
  | S2CCatSkillLevelUpResult int int
  | S2CCatRenameNickResult int string
  | S2CCatLockResult int bool
  | S2CCatDecomposeResult "int list" int
  | S2CGetCropsResult "crop_info list"
  | S2CPlantCropResult int int int
  | S2CCropSpeedupResult int int int
  | S2CHarvestCropResult int int bool int int
  | S2CHarvestCropsResult "int list" int
  | S2CGetCatHouseInfoResult cathouse_info
  | S2CGetCatHousesInfoResult "cathouse_info list"
  | S2CCatHouseAddCatResult int int int
  | S2CCatHouseRemoveCatResult int int int
  | S2CCatHouseProduceGoldResult int
  | S2CCatHouseGetGoldResult int int
  | S2CCatHousesGetGoldResult "int list" int
  | S2CCatHouseStartLevelupResult int int
  | S2CCatHouseSpeedLevelupResult int int
  | S2CCatHouseSetDoneResult int int
  | S2CShopItemsResult int int "(int \<times> int) option list"
  | S2CBuyShopItemResult int int int int int
  | S2CDrawResult "item_info list" "cat_info list" "(int \<times> int) list" bool
  | S2CGetMakingFormulaBuildingsResult "(int \<times> int \<times> int) list" "int list"
  | S2CExchangeBuildingFormulaResult int
  | S2CGetFormulasResult "int list"
  | S2CMakeFormulaBuildingResult int
  | S2CBuyMakeBuildingSlotResult int
  | S2CSpeedupMakeBuildingResult int
  | S2CGetCompletedFormulaBuildingResult "int list"
  | S2CCancelMakingFormulaBuildingResult int "item_info list"
  | S2CStageBeginResult int
  | S2CStagePass stage_pass_msg
  | S2CGetStageInfos int int int int "(int \<times> int \<times> int) list"
  | S2CChapterUnlock int int
  | S2CRetDayHelpUnlockCount int
  | S2CRetCurHelpReqPIds "int list"
  | S2CSignDataResponse int int int int
  | S2CSignAwardResponse int "(int \<times> int) list"
  | S2CSevenDaysDataResponse "int list" int int
  | S2CSevenDaysAwardResponse int "(int \<times> int) list"
  | S2CFriendReqNotify friend_req
  | S2CAddFriendResult int
  | S2CFriendStateNotify int friend_info
  | S2CAgreeFriendResult int
  | S2CRefuseFriendResult string int
  | S2CRemoveFriendResult int
  | S2CRetFriendListResult "friend_info list" "friend_req list" int
  | S2CGiveFriendPointsResult "points_result list" int
  | S2CGetFriendPointsResult "(int \<times> int) list"
  | S2CFriendChatResult int string
  | S2CFriendGetUnreadMessageNumResult "(int \<times> int) list"
  | S2CFriendPullUnreadMessageResult int "(string \<times> int) list"
  | S2CFriendConfirmUnreadMessageResult int int
  | S2CGetBuildingInfos "building_info list"
  | S2CRemoveBlock int "item_info list" "cat_info list" "(int \<times> int) list"
  | S2COpenMapChest int int "item_info list" "cat_info list" "(int \<times> int) list"
  | S2CGetAreasInfos "int list"
  | S2CMailsNewNotify "mail_basic list"
  | S2CMailListResponse "mail_basic list"
  | S2CMailDetailResponse "(int \<times> string \<times> (int \<times> int) list) list"
  | S2CMailGetAttachedItemsResponse "int list" "(int \<times> int) list"
  | S2CMailDeleteResponse "int list"
  | S2CMailSendResponse int
  | S2CPullFosterDataResult int int int "foster_cat_info list"
  | S2CPullFosterCatsWithFriendResult "fostered_friend_cat_info list" "foster_cat_in_friend_info list" int int
  | S2CFosterCardComposeResult "int list" int
  | S2CFosterEquipCardResult int int int
  | S2CFosterUnequipCardResult int
  | S2CFosterSetCatResult int int
  | S2CFosterOutCatResult int int
  | S2CFosterSetCat2FriendResult int int
  | S2CFosterGetEmptySlotFriendsResult "friend_info list"
  | S2CGetPlayerFosterCatsResult int int int "(int \<times> int \<times> int) list" "fostered_friend_cat_info list" int
  | S2CRetAllExpedition "expedition_item list" int int
  | S2CStartExpedition int int "int list" int int "(int \<times> int \<times> int list) list"
  | S2CGetExpeditionReward int "(int \<times> int) list" "(int \<times> int) list"
  | S2CFocusDataResponse int "focus_player list"
  | S2CFocusPlayerResponse focus_player
  | S2CFocusPlayerCancelResponse int
  | S2CMyPictureDataResponse "int list"
  | S2CMyPictureSetResponse int bool
  | S2CSpaceDataResponse space_info
  | S2CSpaceSetGenderResponse int
  | S2CSpaceFashionSaveResponse "int list"
  | S2CSpaceFashionDataResponse int "int list"
  | S2CSpaceCatUnlockResponse int int bool

text \<open>
  The other effects: \<open>PushNew\<close> with its message type, the player's id, name and level and three
  parameters; the remote calls \<open>G2R_RankListProc.UpdateData\<close> and
  \<open>G2R_PlayerProc.BaseInfoUpdate\<close>, whose results the handlers only log.
\<close>

datatype (plugins only: size) effect =
    Sent msg
  | PushNew int int string int int int int
  | RankUpdate int "int list"
  | BaseInfoUpdate int string int int

abbreviation (input) ANOUNCEMENT_TYPE_GET_FOSTER_CARD :: int where "ANOUNCEMENT_TYPE_GET_FOSTER_CARD \<equiv> 1"
abbreviation (input) ANOUNCEMENT_TYPE_GET_BUILDING :: int where "ANOUNCEMENT_TYPE_GET_BUILDING \<equiv> 2"
abbreviation (input) ANOUNCEMENT_TYPE_GET_SSR_CAT :: int where "ANOUNCEMENT_TYPE_GET_SSR_CAT \<equiv> 4"
abbreviation (input) ANOUNCEMENT_TYPE_GET_FORMULA :: int where "ANOUNCEMENT_TYPE_GET_FORMULA \<equiv> 3"
abbreviation (input) ANOUNCEMENT_TYPE_CAT_FULL_LEVEL :: int where "ANOUNCEMENT_TYPE_CAT_FULL_LEVEL \<equiv> 6"

abbreviation (input) RANK_LIST_TYPE_CHARM :: int where "RANK_LIST_TYPE_CHARM \<equiv> 2"
abbreviation (input) RANK_LIST_TYPE_CAT_OUQI :: int where "RANK_LIST_TYPE_CAT_OUQI \<equiv> 3"

subsection \<open>The player\<close>

record change_info =
  items_update :: "item_info column"
  cats_add :: "cat_info column"
  cats_remove :: "int column"
  cats_update :: "cat_info column"
  buildings_add :: "building_info column"
  buildings_remove :: "int column"
  buildings_update :: "building_info column"
  depot_buildings_update :: "int column"

record player =
  p_Id :: int
  p_Name :: string
  p_Level :: int
  p_Info :: info_data
  p_Items :: "item_data column"
  p_Cats :: "cat_data column"
  p_Buildings :: "building_data column"
  p_BuildingDepots :: "int column"
  p_CatHouses :: "cathouse_data column"
  p_Crops :: "crop_data column"
  p_Tasks :: "task_data column"
  p_FinishedTasks :: "unit column"
  p_TaskLastRefresh :: int
  p_Expeditions :: "expedition_data column"
  p_NoNewbee :: int
  p_Foster :: foster_row
  p_FosterCats :: "foster_cat_data column"
  p_FosterCatOnFriends :: "int column"
  p_FosterFriendCats :: "foster_friend_cat_data column"
  p_Space :: space_row
  p_FocusPlayers :: "unit column"
  p_MyPictureDatas :: "unit column"
  p_OtherCatPictureUnlocks :: "unit column"
  p_HandbookItems :: "unit column"
  p_HeadItems :: "unit column"
  p_Zans :: "int column"
  p_ShopItems :: "int column"
  p_Shops :: "shop_data column"
  p_FirstDrawCards :: "int column"
  p_used_drop_ids :: "int column"
  p_MakingFormulaBuildings :: "making_data column"
  p_DepotBuildingFormulas :: "unit column"
  p_Stages :: "stage_data column"
  p_stage_id :: int
  p_stage_cat_id :: int
  p_stage_state :: int
  p_ChapterUnLock :: chapter_unlock
  p_new_unlock_chapter_id :: int
  p_Sign :: sign_data
  p_SevenDays :: seven_days_row
  p_Friends :: "friend_data column"
  p_FriendReqs :: "friend_req_data column"
  p_FriendPoints :: "friend_point_data column"
  p_FriendRelative :: friend_relative_data
  p_FriendChatUnreadIds :: "chat_ids_data column"
  p_FriendChatUnreadMessages :: "chat_message_data column"
  p_Areas :: "unit column"
  p_BlockNum :: int
  p_FosterBuildingId :: int
  p_map_init :: bool
  p_building_map :: "int \<rightharpoonup> int"
  p_open_pos :: "int column"
  p_areablocknum :: "int \<rightharpoonup> int"
  p_Mails :: "mail_data column"
  p_MailCurrId :: int
  p_LastSendPlayerMailTime :: int
  p_SysMailCurrId :: int
  p_new_mail_ids :: "int list option"
  p_changes :: change_info
  p_base_prop_chg :: bool
  p_ndraws :: nat
  p_effects :: "effect list"

definition empty_info :: info_data where
  "empty_info = \<lparr>i_Gold = 0, i_Diamond = 0, i_TotalStars = 0, i_Exp = 0, i_Head = 0, i_NextCatId = 0,
     i_CharmVal = 0, i_Zan = 0, i_CatFood = 0, i_Spirit = 0, i_FriendPoints = 0, i_SoulStone = 0,
     i_CharmMedal = 0, i_SaveLastSpiritPointTime = 0, i_CurMaxStage = 0, i_MaxUnlockStage = 0,
     i_MaxChapter = 0, i_CreateUnix = 0, i_VipCardEndDay = 0, i_DayHelpUnlockCount = 0, i_DayHelpUnlockUpDay = 0,
     i_MakingBuildingQueue = [], i_MakedBuildingQueue = [], i_VipLvl = 0, i_LastLogin = 0,
     i_NextBuildingId = 0, i_LastMapBlockUpUnix = 0, i_LastMapChestUpUnix = 0,
     i_DayExpeditionCount = 0, i_DayExpeditionUpDay = 0, i_DayChgExpeditionCount = 0,
     i_DayChgExpeditionUpDay = 0, i_NextExpeditionId = 0\<rparr>"

definition empty_changes :: change_info where
  "empty_changes = \<lparr>items_update = [], cats_add = [], cats_remove = [], cats_update = [],
     buildings_add = [], buildings_remove = [], buildings_update = [], depot_buildings_update = []\<rparr>"

definition empty_player :: player where
  "empty_player = \<lparr>p_Id = 1, p_Name = '''', p_Level = 1, p_Info = empty_info, p_Items = [], p_Cats = [],
     p_Buildings = [], p_BuildingDepots = [], p_CatHouses = [], p_Crops = [], p_Tasks = [],
     p_FinishedTasks = [], p_TaskLastRefresh = 0, p_Expeditions = [], p_NoNewbee = 0,
     p_Foster = \<lparr>fs_EquippedCardId = 0, fs_StartTime = 0\<rparr>, p_FosterCats = [], p_FosterCatOnFriends = [],
     p_FosterFriendCats = [], p_Space = \<lparr>spc_BeFocusNum = 0, spc_Gender = 0, spc_FashionIds = []\<rparr>,
     p_FocusPlayers = [], p_MyPictureDatas = [], p_OtherCatPictureUnlocks = [],
     p_HandbookItems = [], p_HeadItems = [], p_Zans = [], p_ShopItems = [], p_Shops = [], p_FirstDrawCards = [],
     p_used_drop_ids = [], p_MakingFormulaBuildings = [], p_DepotBuildingFormulas = [], p_Stages = [],
     p_stage_id = 0, p_stage_cat_id = 0, p_stage_state = 0,
     p_ChapterUnLock = \<lparr>cu_ChapterId = 0, cu_PlayerIds = [], cu_CurHelpIds = [], cu_StartUnix = 0\<rparr>,
     p_new_unlock_chapter_id = 0,
     p_Sign = \<lparr>sg_CurrGroup = 0, sg_AwardIndex = 0, sg_SignedIndex = 0, sg_LastSignedTime = 0\<rparr>,
     p_SevenDays = \<lparr>sv_Awards = [], sv_Days = 0\<rparr>, p_Friends = [], p_FriendReqs = [], p_FriendPoints = [],
     p_FriendRelative = \<lparr>rel_LastGiveFriendPointsTime = 0, rel_GiveNumToday = 0, rel_LastRefreshTime = 0\<rparr>, p_FriendChatUnreadIds = [],
     p_FriendChatUnreadMessages = [], p_Areas = [], p_BlockNum = 0, p_FosterBuildingId = 0,
     p_map_init = False, p_building_map = Map.empty, p_open_pos = [], p_areablocknum = Map.empty,
     p_Mails = [], p_MailCurrId = 0, p_LastSendPlayerMailTime = 0, p_SysMailCurrId = 0, p_new_mail_ids = None, p_changes = empty_changes,
     p_base_prop_chg = False, p_ndraws = 0, p_effects = []\<rparr>"

subsection \<open>Elementary steps\<close>

definition emit :: "effect \<Rightarrow> player \<Rightarrow> player" where
  "emit x p = p\<lparr>p_effects := p_effects p @ [x]\<rparr>"

definition Send_msg :: "msg \<Rightarrow> player \<Rightarrow> player" where
  "Send_msg m p = emit (Sent m) p"

definition push_new :: "int \<Rightarrow> int \<Rightarrow> int \<Rightarrow> int \<Rightarrow> player \<Rightarrow> player" where
  "push_new typ a b c p = emit (PushNew typ (p_Id p) (p_Name p) (p_Level p) a b c) p"

definition rpc_rank_list_update_data :: "int \<Rightarrow> int list \<Rightarrow> player \<Rightarrow> player" where
  "rpc_rank_list_update_data rank_type params p = emit (RankUpdate rank_type params) p"

definition rpc_player_base_info_update :: "player \<Rightarrow> player" where
  "rpc_player_base_info_update p =
     emit (BaseInfoUpdate (p_Id p) (p_Name p) (p_Level p) (i_Head (p_Info p))) p"

text \<open>The getters, setters and counters of \<open>dbPlayerInfoColumn\<close>, one shape for every field: the
  field is given by its selector and by its update function.\<close>

definition Info_Set :: "((int \<Rightarrow> int) \<Rightarrow> info_data \<Rightarrow> info_data) \<Rightarrow> int \<Rightarrow> player \<Rightarrow> player" where
  "Info_Set upd v p = p\<lparr>p_Info := upd (\<lambda>_. v) (p_Info p)\<rparr>"

definition Info_Incby :: "(info_data \<Rightarrow> int) \<Rightarrow> ((int \<Rightarrow> int) \<Rightarrow> info_data \<Rightarrow> info_data) \<Rightarrow>
    int \<Rightarrow> player \<Rightarrow> int \<times> player" where
  "Info_Incby sel upd v p =
     (let r = i32 (sel (p_Info p) + v) in (r, Info_Set upd r p))"

text \<open>Field setters of the cat, cat house, crop and task columns.\<close>

definition Cats_Set :: "int \<Rightarrow> (cat_data \<Rightarrow> cat_data) \<Rightarrow> player \<Rightarrow> player" where
  "Cats_Set k u p = p\<lparr>p_Cats := snd (col_set_field u k (p_Cats p))\<rparr>"

definition CatHouses_Set :: "int \<Rightarrow> (cathouse_data \<Rightarrow> cathouse_data) \<Rightarrow> player \<Rightarrow> player" where
  "CatHouses_Set k u p = p\<lparr>p_CatHouses := snd (col_set_field u k (p_CatHouses p))\<rparr>"

definition Tasks_Set :: "int \<Rightarrow> (task_data \<Rightarrow> task_data) \<Rightarrow> player \<Rightarrow> player" where
  "Tasks_Set k u p = p\<lparr>p_Tasks := snd (col_set_field u k (p_Tasks p))\<rparr>"

text \<open>What the emitting steps leave alone, for the component proofs.\<close>

named_theorems player_simps \<open>elementary player steps, unfolded in component proofs\<close>

declare emit_def [player_simps] Send_msg_def [player_simps] push_new_def [player_simps]
  rpc_rank_list_update_data_def [player_simps] rpc_player_base_info_update_def [player_simps]
  Info_Set_def [player_simps] Info_Incby_def [player_simps] Cats_Set_def [player_simps]
  CatHouses_Set_def [player_simps] Tasks_Set_def [player_simps] Let_def [player_simps]

subsection \<open>Frames\<close>

text \<open>
  Most steps touch only what is sent: the change lists, the property flag and the effects.
  \<open>quiet p q\<close> says that \<open>q\<close> differs from \<open>p\<close> there at most; \<open>task_only p q\<close> allows the task columns
  and the refresh time too. From either follows, field by field, what is unchanged.
\<close>

definition quiet :: "player \<Rightarrow> player \<Rightarrow> bool" where
  "quiet p q \<longleftrightarrow> (\<exists>c b x. q = p\<lparr>p_changes := c, p_base_prop_chg := b, p_effects := x\<rparr>)"

definition task_only :: "player \<Rightarrow> player \<Rightarrow> bool" where
  "task_only p q \<longleftrightarrow> (\<exists>t r c b x. q = p\<lparr>p_Tasks := t, p_TaskLastRefresh := r,
     p_changes := c, p_base_prop_chg := b, p_effects := x\<rparr>)"

lemma quiet_refl [simp, intro]: "quiet p p"
  unfolding quiet_def by (intro exI [of _ "p_changes p"] exI [of _ "p_base_prop_chg p"]
    exI [of _ "p_effects p"]) simp

lemma quiet_trans: "quiet p q \<Longrightarrow> quiet q r \<Longrightarrow> quiet p r"
  unfolding quiet_def by (elim exE, simp) blast

lemma quiet_task_only: "quiet p q \<Longrightarrow> task_only p q"
  unfolding quiet_def task_only_def
  by (elim exE, intro exI [of _ "p_Tasks p"] exI [of _ "p_TaskLastRefresh p"]) auto

lemma task_only_refl [simp, intro]: "task_only p p"
  by (rule quiet_task_only) simp

lemma task_only_trans: "task_only p q \<Longrightarrow> task_only q r \<Longrightarrow> task_only p r"
  unfolding task_only_def by (elim exE, simp) blast

lemma task_only_frame:
  assumes "task_only p q"
  shows "p_Id q = p_Id p" and "p_Name q = p_Name p" and "p_Level q = p_Level p"
    and "p_Info q = p_Info p" and "p_Items q = p_Items p" and "p_Cats q = p_Cats p"
    and "p_Buildings q = p_Buildings p" and "p_BuildingDepots q = p_BuildingDepots p"
    and "p_CatHouses q = p_CatHouses p" and "p_Crops q = p_Crops p"
    and "p_FinishedTasks q = p_FinishedTasks p" and "p_Expeditions q = p_Expeditions p"
    and "p_NoNewbee q = p_NoNewbee p" and "p_Foster q = p_Foster p"
    and "p_FosterCatOnFriends q = p_FosterCatOnFriends p" and "p_FosterFriendCats q = p_FosterFriendCats p"
    and "p_Space q = p_Space p" and "p_FocusPlayers q = p_FocusPlayers p"
    and "p_MyPictureDatas q = p_MyPictureDatas p"
    and "p_OtherCatPictureUnlocks q = p_OtherCatPictureUnlocks p"
    and "p_FosterCats q = p_FosterCats p" and "p_HandbookItems q = p_HandbookItems p"
    and "p_HeadItems q = p_HeadItems p" and "p_Zans q = p_Zans p" and "p_ShopItems q = p_ShopItems p"
    and "p_Shops q = p_Shops p" and "p_FirstDrawCards q = p_FirstDrawCards p"
    and "p_used_drop_ids q = p_used_drop_ids p" and "p_MakingFormulaBuildings q = p_MakingFormulaBuildings p"
    and "p_DepotBuildingFormulas q = p_DepotBuildingFormulas p" and "p_Stages q = p_Stages p"
    and "p_stage_id q = p_stage_id p" and "p_stage_cat_id q = p_stage_cat_id p"
    and "p_stage_state q = p_stage_state p" and "p_ChapterUnLock q = p_ChapterUnLock p"
    and "p_new_unlock_chapter_id q = p_new_unlock_chapter_id p" and "p_Sign q = p_Sign p"
    and "p_SevenDays q = p_SevenDays p" and "p_ndraws q = p_ndraws p" and "p_Friends q = p_Friends p"
    and "p_FriendReqs q = p_FriendReqs p" and "p_FriendPoints q = p_FriendPoints p"
    and "p_FriendRelative q = p_FriendRelative p" and "p_FriendChatUnreadIds q = p_FriendChatUnreadIds p"
    and "p_FriendChatUnreadMessages q = p_FriendChatUnreadMessages p" and "p_Areas q = p_Areas p"
    and "p_BlockNum q = p_BlockNum p" and "p_FosterBuildingId q = p_FosterBuildingId p"
    and "p_map_init q = p_map_init p" and "p_building_map q = p_building_map p"
    and "p_open_pos q = p_open_pos p" and "p_areablocknum q = p_areablocknum p" and "p_Mails q = p_Mails p"
    and "p_MailCurrId q = p_MailCurrId p" and "p_LastSendPlayerMailTime q = p_LastSendPlayerMailTime p"
    and "p_SysMailCurrId q = p_SysMailCurrId p" and "p_new_mail_ids q = p_new_mail_ids p"
  using assms unfolding task_only_def by (elim exE, simp)+

lemma quiet_tasks:
  assumes "quiet p q"
  shows "p_Tasks q = p_Tasks p" and "p_TaskLastRefresh q = p_TaskLastRefresh p"
  using assms unfolding quiet_def by (elim exE, simp)+

lemmas quiet_frame = task_only_frame [OF quiet_task_only] quiet_tasks

lemma quiet_emit [simp, intro]: "quiet p (emit x p)"
  unfolding quiet_def emit_def
  by (intro exI [of _ "p_changes p"] exI [of _ "p_base_prop_chg p"]) auto

lemma quiet_Send_msg [simp, intro]: "quiet p (Send_msg m p)"
  by (simp add: Send_msg_def)

lemma quiet_push_new [simp, intro]: "quiet p (push_new t a b c p)"
  by (simp add: push_new_def)

lemma quiet_rank_update [simp, intro]: "quiet p (rpc_rank_list_update_data t ps p)"
  by (simp add: rpc_rank_list_update_data_def)

lemma quiet_base_info [simp, intro]: "quiet p (rpc_player_base_info_update p)"
  by (simp add: rpc_player_base_info_update_def)

lemma quiet_flag [simp, intro]: "quiet p (p\<lparr>p_base_prop_chg := b\<rparr>)"
  unfolding quiet_def by (intro exI [of _ "p_changes p"] exI [of _ b] exI [of _ "p_effects p"]) simp

lemmas emit_frame [simp] = quiet_frame [OF quiet_emit]
lemmas Send_msg_frame [simp] = quiet_frame [OF quiet_Send_msg]
lemmas push_new_frame [simp] = quiet_frame [OF quiet_push_new]
lemmas rank_update_frame [simp] = quiet_frame [OF quiet_rank_update]
lemmas base_info_frame [simp] = quiet_frame [OF quiet_base_info]

end
