(* ===== verification/TimeFunc.thy ===== *)
theory TimeFunc
  imports Tables
begin

text \<open>
  \<open>libs/utils/time_func.go\<close> and \<open>GetRemainSeconds\<close> of \<open>game_server/utils.go\<close>: when a daily refresh
  time is reached, how long until the next one, how many refreshes lie between two instants.

  From Go's \<open>time\<close> package the code uses: the Unix seconds of an instant, the parsing of a clock time
  \<open>15:04:05\<close>, and the instant of a given clock time on the local calendar day of another instant.
  With a zone of constant offset \<open>tz\<close> the last is arithmetic on days of 86400 seconds. Seconds of
  type \<open>int64\<close> are far from their bounds and are plain integers; conversions to \<open>int32\<close> and
  \<open>int32\<close> arithmetic wrap.
\<close>

subsection \<open>The time package\<close>

definition digit_val :: "char \<Rightarrow> int option" where
  "digit_val c = (let n = (of_char c :: int) in if 48 \<le> n \<and> n \<le> 57 then Some (n - 48) else None)"

text \<open>\<open>time.getnum\<close>: two digits, or one digit where \<open>fixed\<close> is false.\<close>

fun getnum :: "string \<Rightarrow> bool \<Rightarrow> (int \<times> string) option" where
  "getnum [] fixed = None"
| "getnum [c] fixed = (case digit_val c of None \<Rightarrow> None
     | Some a \<Rightarrow> if fixed then None else Some (a, []))"
| "getnum (c # d # s) fixed = (case digit_val c of None \<Rightarrow> None
     | Some a \<Rightarrow> (case digit_val d of
         None \<Rightarrow> if fixed then None else Some (a, d # s)
       | Some b \<Rightarrow> Some (a * 10 + b, s)))"

fun skip_colon :: "string \<Rightarrow> string option" where
  "skip_colon [] = None"
| "skip_colon (c # s) = (if c = CHR '':'' then Some s else None)"

fun digits_val :: "int \<Rightarrow> string \<Rightarrow> int option" where
  "digits_val acc [] = Some acc"
| "digits_val acc (c # s) = (case digit_val c of None \<Rightarrow> None | Some d \<Rightarrow> digits_val (acc * 10 + d) s)"

text \<open>What may follow the seconds: nothing, or a fraction below one second.\<close>

fun fraction_ok :: "string \<Rightarrow> bool" where
  "fraction_ok [] = True"
| "fraction_ok (c # s) = (c = CHR ''.'' \<and> s \<noteq> [] \<and>
     (case digits_val 0 s of None \<Rightarrow> False | Some n \<Rightarrow> n < 1000000000))"

text \<open>\<open>time.ParseInLocation(TIME_LAYOUT, s, loc)\<close>: hour, minute and second.\<close>

definition ParseClock :: "string \<Rightarrow> (int \<times> int \<times> int) option" where
  "ParseClock s = do {
     (h, s) \<leftarrow> getnum s False;
     if 24 \<le> h then None else do {
       s \<leftarrow> skip_colon s;
       (m, s) \<leftarrow> getnum s True;
       if 60 \<le> m then None else do {
         s \<leftarrow> skip_colon s;
         (sec, s) \<leftarrow> getnum s True;
         if 60 \<le> sec \<or> \<not> fraction_ok s then None else Some (h, m, sec)
       }
     }
   }"

text \<open>The number of the local calendar day of an instant, and \<open>time.Date(...).Unix()\<close> for the
  clock time on that day. The parsed clock time itself is a time on 1 January of year 0.\<close>

definition local_day :: "env \<Rightarrow> int \<Rightarrow> int" where
  "local_day e t = (t + tz e) div 86400"

definition DateUnix :: "env \<Rightarrow> int \<Rightarrow> int \<times> int \<times> int \<Rightarrow> int" where
  "DateUnix e t hms = (case hms of (h, m, s) \<Rightarrow>
     local_day e t * 86400 + h * 3600 + m * 60 + s - tz e)"

definition ClockUnix :: "env \<Rightarrow> int \<times> int \<times> int \<Rightarrow> int" where
  "ClockUnix e hms = (case hms of (h, m, s) \<Rightarrow> - 62167219200 + h * 3600 + m * 60 + s - tz e)"

subsection \<open>Today's configured time\<close>

text \<open>\<open>_get_today_config_time\<close>; \<open>None\<close> stands for \<open>res = -1\<close>. Loading the location \<open>Local\<close>
  cannot fail.\<close>

definition get_today_config_time :: "env \<Rightarrow> int \<Rightarrow> string \<Rightarrow> int option" where
  "get_today_config_time e t day_time_config =
     (case ParseClock day_time_config of
        None \<Rightarrow> None
      | Some tm \<Rightarrow>
          let today_config_time = DateUnix e t tm in
          if ClockUnix e tm \<ge> today_config_time then None else Some today_config_time)"

definition CheckDayTimeArrival :: "env \<Rightarrow> int \<Rightarrow> string \<Rightarrow> bool" where
  "CheckDayTimeArrival e last_time_point day_time_string =
     (if now e \<le> last_time_point then False
      else (case get_today_config_time e (now e) day_time_string of
          None \<Rightarrow> False
        | Some last_refresh_time \<Rightarrow>
            now e \<ge> last_refresh_time \<and> last_refresh_time > last_time_point))"

definition GetRemainSeconds2NextDayTime :: "env \<Rightarrow> int \<Rightarrow> string \<Rightarrow> int" where
  "GetRemainSeconds2NextDayTime e last_time_point day_time_config =
     (if now e < last_time_point then -1
      else (case get_today_config_time e (now e) day_time_config of
          None \<Rightarrow> -1
        | Some today_tm \<Rightarrow>
            if last_time_point < today_tm then
              (if now e < today_tm then i32 (today_tm - now e) else 0)
            else i32 (today_tm + 24 * 3600 - now e)))"

datatype time_err = ErrTimeConfig | ErrTimeParam

text \<open>\<open>GetRemainSeconds2NextDaysPoint\<close>: an error of the code is \<open>Inl\<close>; a panic (a division by
  zero seconds) is \<open>None\<close>. The constant \<open>2400 * 3600\<close> is the source's.\<close>

definition GetRemainSeconds2NextDaysPoint ::
    "env \<Rightarrow> int \<Rightarrow> int \<Rightarrow> string \<Rightarrow> int \<Rightarrow> (time_err + int) option" where
  "GetRemainSeconds2NextDaysPoint e first_refresh lastest_refresh time_config days =
     (if lastest_refresh > 0 \<and> first_refresh > lastest_refresh \<or> now e < first_refresh
         \<or> now e < lastest_refresh
      then Some (Inl ErrTimeParam)
      else (case get_today_config_time e (now e) time_config of
          None \<Rightarrow> Some (Inl ErrTimeConfig)
        | Some today_tm \<Rightarrow>
            (let first_point =
               (if first_refresh \<le> 0 then
                  Some (if now e \<ge> today_tm then today_tm else today_tm - 24 * 3600)
                else (case get_today_config_time e first_refresh time_config of
                    None \<Rightarrow> None
                  | Some first_today_tm \<Rightarrow>
                      Some (if first_refresh \<ge> first_today_tm then first_today_tm
                            else first_today_tm - 2400 * 3600)))
             in case first_point of
                  None \<Rightarrow> Some (Inl ErrTimeConfig)
                | Some first_point \<Rightarrow>
                    let refresh_seconds = i32 (days * 24 * 3600) in
                    if lastest_refresh \<le> 0 then
                      Some (Inr (max 0 (first_point + refresh_seconds - now e)))
                    else if refresh_seconds = 0 then None
                    else
                      let duration = now e - first_point;
                          s = duration sdiv refresh_seconds;
                          y = duration smod refresh_seconds;
                          remain_seconds =
                            (if lastest_refresh < first_point + refresh_seconds * s then 0
                             else refresh_seconds - y)
                      in Some (Inr (max 0 remain_seconds)))))"

definition GetFirstDaysTimePoint :: "env \<Rightarrow> string \<Rightarrow> int" where
  "GetFirstDaysTimePoint e time_config =
     (case get_today_config_time e (now e) time_config of
        None \<Rightarrow> -1
      | Some today_tm \<Rightarrow>
          if now e \<ge> today_tm then i32 today_tm else i32 (i32 today_tm - 24 * 3600))"

text \<open>\<open>time.Date\<close> normalises clock values that are out of range, which the linear formula of
  \<open>DateUnix\<close> does too.\<close>

definition GetRemainSeconds4NextRefresh :: "env \<Rightarrow> int \<Rightarrow> int \<Rightarrow> int \<Rightarrow> int \<Rightarrow> int" where
  "GetRemainSeconds4NextRefresh e config_hour config_minute config_second last_save_time =
     (if i32 (now e) < last_save_time then 0
      else
        let today_refresh_time = DateUnix e (now e) (config_hour, config_minute, config_second) in
        if now e < today_refresh_time then
          (if i32 (i32 today_refresh_time - 24 * 3600) > last_save_time then 0
           else i32 (today_refresh_time - now e))
        else
          (if i32 today_refresh_time > last_save_time then 0
           else i32 (24 * 3600 - i32 (now e - today_refresh_time))))"

definition IsDayTimeRefresh :: "env \<Rightarrow> int \<Rightarrow> int \<Rightarrow> int \<Rightarrow> int \<Rightarrow> bool" where
  "IsDayTimeRefresh e config_hour config_minute config_second last_unix_time =
     (if i32 (now e) < last_unix_time then False
      else \<not> (i32 (DateUnix e (now e) (config_hour, config_minute, config_second)) < last_unix_time))"

text \<open>\<open>now_time\<close> is a parameter of the source here.\<close>

definition GetDaysNumToLastSaveTime :: "env \<Rightarrow> int \<Rightarrow> string \<Rightarrow> int \<Rightarrow> int" where
  "GetDaysNumToLastSaveTime e last_save day_time_config now_time =
     (if last_save < 0 then -1
      else
        let num = (if last_save = 0 then 1 else 0);
            last_save = (if last_save = 0 then i32 now_time else last_save)
        in if last_save > now_time then -1
           else (case get_today_config_time e last_save day_time_config of
               None \<Rightarrow> -1
             | Some last_config_time \<Rightarrow>
                 if last_save < i32 last_config_time then
                   (if now_time < last_config_time then num
                    else i32 (num + (i32 (now_time - last_config_time) sdiv (24 * 3600) + 1)))
                 else i32 (num + i32 (now_time - last_config_time) sdiv (24 * 3600))))"

text \<open>\<open>GetRemainSeconds\<close> of \<open>game_server/utils.go\<close>.\<close>

definition GetRemainSeconds :: "env \<Rightarrow> int \<Rightarrow> int \<Rightarrow> int" where
  "GetRemainSeconds e start_time duration =
     (if duration \<le> i32 (i32 (now e) - start_time) then 0
      else i32 (duration - i32 (i32 (now e) - start_time)))"

subsection \<open>The days checker\<close>

text \<open>\<open>DaysTimeChecker\<close>: fires every \<open>interval_days\<close> days at a clock time.\<close>

record days_time_checker =
  dc_time_tm :: "int \<times> int \<times> int"
  dc_interval_days :: int
  dc_next_time :: int

text \<open>The loop of \<open>_init_next_time\<close> adds the period until the instant is in the future. The
  period is an \<open>int32\<close> product, so it may be negative after a wrap, and then the loop need not
  end: \<open>None\<close> is "does not return".\<close>

partial_function (option) advance_next_time :: "int \<Rightarrow> int \<Rightarrow> int \<Rightarrow> int option" where
  "advance_next_time t period next_time =
     (if next_time > t then Some next_time else advance_next_time t period (next_time + period))"

definition init_next_time :: "env \<Rightarrow> int \<Rightarrow> days_time_checker \<Rightarrow> days_time_checker option" where
  "init_next_time e last_save c =
     (if dc_next_time c \<noteq> 0 then Some c
      else
        let last_save = (if last_save = 0 then i32 (now e) else last_save);
            last_date = DateUnix e last_save (dc_time_tm c);
            start =
              (if last_date < now e then last_date + i32 (24 * 3600 * dc_interval_days c)
               else last_date + i32 (24 * 3600 * i32 (dc_interval_days c - 1)))
        in map_option (\<lambda>t. c\<lparr>dc_next_time := t\<rparr>)
             (advance_next_time (now e) (i32 (24 * 3600 * dc_interval_days c)) start))"

definition checker_Init :: "env \<Rightarrow> int \<Rightarrow> string \<Rightarrow> int \<Rightarrow> days_time_checker \<Rightarrow>
    (bool \<times> days_time_checker) option" where
  "checker_Init e last_save time_value interval_days c =
     (case ParseClock time_value of
        None \<Rightarrow> Some (False, c)
      | Some tm \<Rightarrow>
          let c = c\<lparr>dc_time_tm := tm\<rparr> in
          if ClockUnix e tm \<ge> now e then Some (False, c)
          else if interval_days \<le> 0 then Some (False, c)
          else map_option (\<lambda>c. (True, c)) (init_next_time e last_save (c\<lparr>dc_interval_days := interval_days\<rparr>)))"

definition ToNextTimePoint :: "days_time_checker \<Rightarrow> days_time_checker" where
  "ToNextTimePoint c =
     (if dc_next_time c = 0 then c
      else c\<lparr>dc_next_time := dc_next_time c + i32 (24 * 3600 * dc_interval_days c)\<rparr>)"

definition IsArrival :: "env \<Rightarrow> days_time_checker \<Rightarrow> bool" where
  "IsArrival e c \<longleftrightarrow> \<not> (now e < dc_next_time c)"

definition RemainSecondsToNextRefresh :: "env \<Rightarrow> days_time_checker \<Rightarrow> int" where
  "RemainSecondsToNextRefresh e c = max 0 (i32 (dc_next_time c - now e))"

subsection \<open>Where today's configured time lies\<close>

lemma digit_val_range: "digit_val c = Some d \<Longrightarrow> 0 \<le> d \<and> d \<le> 9"
  by (auto simp: digit_val_def Let_def split: if_splits)

lemma getnum_nonneg: "getnum s fixed = Some (n, r) \<Longrightarrow> 0 \<le> n"
  by (induction s fixed rule: getnum.induct)
     (auto split: option.splits if_splits dest!: digit_val_range)

lemma ParseClock_range:
  assumes "ParseClock str = Some (h, m, s)"
  shows "0 \<le> h" "h < 24" "0 \<le> m" "m < 60" "0 \<le> s" "s < 60"
  using assms by (auto simp: ParseClock_def bind_eq_Some_conv split: if_splits dest: getnum_nonneg)

lemma clock_in_day:
  "ParseClock str = Some (h, m, s) \<Longrightarrow> 0 \<le> h * 3600 + m * 60 + s \<and> h * 3600 + m * 60 + s < 86400"
  using ParseClock_range [of str h m s] by linarith

lemma today_within_day:
  assumes "get_today_config_time e t cfg = Some d"
  shows "local_day e d = local_day e t"
proof -
  obtain h m s where tm: "ParseClock cfg = Some (h, m, s)" and d: "d = DateUnix e t (h, m, s)"
    using assms by (auto simp: get_today_config_time_def Let_def split: option.splits if_splits)
  have "d + tz e = local_day e t * 86400 + (h * 3600 + m * 60 + s)"
    by (simp add: d DateUnix_def)
  with clock_in_day [OF tm] show ?thesis by (simp add: local_day_def)
qed

lemma same_day_dist: "local_day e a = local_day e b \<Longrightarrow> a - b < 86400 \<and> b - a < 86400"
  unfolding local_day_def by linarith

lemma today_near_now:
  "get_today_config_time e t cfg = Some d \<Longrightarrow> d - t < 86400 \<and> t - d < 86400"
  by (rule same_day_dist) (rule today_within_day)

lemma remain_to_next_day:
  assumes "get_today_config_time e (now e) cfg = Some d" "lst \<le> now e"
  shows "GetRemainSeconds2NextDayTime e lst cfg =
    (if lst < d then (if now e < d then d - now e else 0) else d + 86400 - now e)"
  using assms today_near_now [OF assms(1)]
  by (auto simp: GetRemainSeconds2NextDayTime_def i32_range_id)

lemma remain_zero_iff_arrival:
  assumes today: "get_today_config_time e (now e) cfg = Some d" and lst: "lst < now e"
  shows "GetRemainSeconds2NextDayTime e lst cfg = 0 \<longleftrightarrow> CheckDayTimeArrival e lst cfg"
    and "0 \<le> GetRemainSeconds2NextDayTime e lst cfg"
    and "GetRemainSeconds2NextDayTime e lst cfg \<le> 86400"
  using lst today today_near_now [OF today]
  by (auto simp: remain_to_next_day CheckDayTimeArrival_def)

text \<open>After a refresh at this very instant the next one lies strictly ahead.\<close>

lemma remain_after_refresh:
  "get_today_config_time e (now e) cfg = Some d \<Longrightarrow> 0 < GetRemainSeconds2NextDayTime e (now e) cfg"
  using today_near_now [of e "now e" cfg d] by (auto simp: remain_to_next_day)

subsection \<open>The days checker returns and points ahead\<close>

lemma advance_next_time_returns:
  assumes "0 < period"
  shows "\<exists>k. advance_next_time t period next_time = Some (next_time + int k * period) \<and>
    t < next_time + int k * period \<and>
    (0 < k \<longrightarrow> next_time + int k * period \<le> t + period)"
proof (induction "nat (t + 1 - next_time)" arbitrary: next_time rule: less_induct)
  case less
  show ?case
  proof (cases "t < next_time")
    case True
    then show ?thesis by (intro exI [of _ 0]) (simp add: advance_next_time.simps)
  next
    case False
    with assms have "nat (t + 1 - (next_time + period)) < nat (t + 1 - next_time)" by simp
    from less.hyps [OF this] obtain k where k:
      "advance_next_time t period (next_time + period) = Some (next_time + period + int k * period)"
      "t < next_time + period + int k * period"
      "0 < k \<longrightarrow> next_time + period + int k * period \<le> t + period" by blast
    have eq: "next_time + int (Suc k) * period = next_time + period + int k * period"
      by (simp add: algebra_simps)
    have "next_time + int (Suc k) * period \<le> t + period"
      using k(3) False unfolding eq by (cases "k = 0") simp_all
    with k(1,2) False show ?thesis
      unfolding advance_next_time.simps [of t period next_time] eq [symmetric]
      by (intro exI [of _ "Suc k"]) (simp del: of_nat_Suc)
  qed
qed

lemma init_next_time_start:
  assumes "1 \<le> n" "n \<le> 24855"
  shows "i32 (24 * 3600 * n) = 86400 * n" "i32 (24 * 3600 * i32 (n - 1)) = 86400 * (n - 1)"
  using assms by (simp_all add: i32_range_id)

end
