(* ===== verification/ChangeInfo.thy ===== *)
theory ChangeInfo
  imports PlayerState TimeFunc
begin

text \<open>
  \<open>ItemCatBuildingChangeInfo\<close> of \<open>game_server/player_item.go\<close>: a handler records which items, cats,
  buildings and depot buildings it changed, and the \<open>send_*\<close> operations turn the record into one
  update message and clear it. The state of a cat (\<open>player_cat.go\<close>) is here because a cat's record
  carries it. A change list that is nil in Go and one that is empty behave alike and are \<open>[]\<close>.
\<close>

subsection \<open>The state of a cat\<close>

abbreviation (input) CAT_STATE_NONE :: int where "CAT_STATE_NONE \<equiv> 0"
abbreviation (input) CAT_STATE_IN_CATHOUSE :: int where "CAT_STATE_IN_CATHOUSE \<equiv> 1"
abbreviation (input) CAT_STATE_IN_EXPEDITION :: int where "CAT_STATE_IN_EXPEDITION \<equiv> 2"
abbreviation (input) CAT_STATE_IN_FOSTER :: int where "CAT_STATE_IN_FOSTER \<equiv> 3"

text \<open>\<open>dbPlayerExpeditionColumn.IfCatInExpedition\<close>\<close>

definition IfCatInExpedition :: "player \<Rightarrow> int \<Rightarrow> bool" where
  "IfCatInExpedition p in_catid =
     (if in_catid \<le> 0 then True
      else list_ex (\<lambda>(k, val). List.member (xd_InCatIds val) in_catid) (p_Expeditions p))"

definition IfCatBusy :: "player \<Rightarrow> int \<Rightarrow> bool" where
  "IfCatBusy p cat_id =
     (if IfCatInExpedition p cat_id then True
      else case col_get_field cat_CathouseId 0 (p_Cats p) cat_id of (house, ok) \<Rightarrow>
        if ok \<and> house > 0 then True
        else if col_HasIndex (p_FosterCats p) cat_id then True
        else False)"

definition GetCatState :: "player \<Rightarrow> int \<Rightarrow> int" where
  "GetCatState p cat_id =
     (if IfCatInExpedition p cat_id then CAT_STATE_IN_EXPEDITION
      else if col_HasIndex (p_FosterCats p) cat_id then CAT_STATE_IN_FOSTER
      else case col_get_field cat_CathouseId 0 (p_Cats p) cat_id of (house, ok) \<Rightarrow>
        if ok \<and> house > 0 then CAT_STATE_IN_CATHOUSE else CAT_STATE_NONE)"

text \<open>A cat is busy exactly when its state is not none.\<close>

lemma IfCatBusy_iff_state: "IfCatBusy p cat_id \<longleftrightarrow> GetCatState p cat_id \<noteq> CAT_STATE_NONE"
  by (auto simp: IfCatBusy_def GetCatState_def split: prod.splits)

subsection \<open>Recording changes\<close>

definition get_time_item_remain_seconds :: "env \<Rightarrow> item_data \<Rightarrow> int" where
  "get_time_item_remain_seconds e item =
     (if StartTimeUnix item = 0 then 0
      else
        let cost_seconds = i32 (i32 (now e) - StartTimeUnix item);
            left_seconds = i32 (RemainSeconds item - cost_seconds)
        in if left_seconds \<le> 3 then 0 else left_seconds)"

definition set_changes :: "(change_info \<Rightarrow> change_info) \<Rightarrow> player \<Rightarrow> player" where
  "set_changes f p = p\<lparr>p_changes := f (p_changes p)\<rparr>"

declare set_changes_def [player_simps]

definition zero_item_info :: item_info where
  "zero_item_info = \<lparr>ii_ItemCfgId = 0, ii_ItemNum = 0, ii_RemainSeconds = 0\<rparr>"

definition zero_cat_info :: cat_info where
  "zero_cat_info = \<lparr>ci_CatCfgId = 0, ci_Id = 0, ci_Exp = 0, ci_Level = 0, ci_Star = 0, ci_Nick = '''',
     ci_SkillLevel = 0, ci_Locked = False, ci_CoinAbility = 0, ci_ExploreAbility = 0,
     ci_MatchAbility = 0, ci_State = 0\<rparr>"

text \<open>The entry of a change list, made if it is not there (\<open>if m[k] == nil { m[k] = &T{} }\<close>).\<close>

definition entry :: "'v \<Rightarrow> 'v column \<Rightarrow> int \<Rightarrow> 'v" where
  "entry z m k = (case map_of m k of None \<Rightarrow> z | Some v \<Rightarrow> v)"

definition item_update :: "env \<Rightarrow> int \<Rightarrow> player \<Rightarrow> player" where
  "item_update e item_id p =
     (let old = (entry zero_item_info (items_update (p_changes p)) item_id)\<lparr>ii_ItemCfgId := item_id\<rparr>;
          new = (case col_Get (p_Items p) item_id of
              None \<Rightarrow> old\<lparr>ii_ItemNum := 0\<rparr>
            | Some item \<Rightarrow> old\<lparr>ii_ItemNum := ItemNum item,
                 ii_RemainSeconds := get_time_item_remain_seconds e item\<rparr>)
      in set_changes (\<lambda>c. c\<lparr>items_update := AList.update item_id new (items_update c)\<rparr>) p)"

definition cat_values_assign :: "player \<Rightarrow> cat_info \<Rightarrow> int \<Rightarrow> cat_info" where
  "cat_values_assign p dst cat_id =
     (case col_Get (p_Cats p) cat_id of
        None \<Rightarrow> dst
      | Some d \<Rightarrow>
          \<lparr>ci_CatCfgId = cat_CfgId d, ci_Id = cat_id, ci_Exp = cat_Exp d, ci_Level = cat_Level d,
           ci_Star = cat_Star d, ci_Nick = cat_Nick d, ci_SkillLevel = cat_SkillLevel d,
           ci_Locked = (cat_Locked d \<noteq> 0), ci_CoinAbility = cat_CoinAbility d,
           ci_ExploreAbility = cat_ExploreAbility d, ci_MatchAbility = cat_MatchAbility d,
           ci_State = GetCatState p cat_id\<rparr>)"

definition cat_add :: "int \<Rightarrow> player \<Rightarrow> bool \<times> player" where
  "cat_add cat_id p =
     (if \<not> col_HasIndex (p_Cats p) cat_id then (False, p)
      else (True, set_changes (\<lambda>c. c\<lparr>cats_add := AList.update cat_id
        (cat_values_assign p (entry zero_cat_info (cats_add c) cat_id) cat_id) (cats_add c)\<rparr>) p))"

definition cat_remove :: "int \<Rightarrow> player \<Rightarrow> bool \<times> player" where
  "cat_remove cat_id p =
     (if col_HasIndex (cats_remove (p_changes p)) cat_id then (False, p)
      else (True, set_changes (\<lambda>c. c\<lparr>cats_remove := AList.update cat_id cat_id (cats_remove c)\<rparr>) p))"

definition cat_update :: "int \<Rightarrow> player \<Rightarrow> bool \<times> player" where
  "cat_update cat_id p =
     (if \<not> col_HasIndex (p_Cats p) cat_id then (False, p)
      else (True, set_changes (\<lambda>c. c\<lparr>cats_update := AList.update cat_id
        ((cat_values_assign p (entry zero_cat_info (cats_update c) cat_id) cat_id)
           \<lparr>ci_State := GetCatState p cat_id\<rparr>) (cats_update c)\<rparr>) p))"

definition building_values_assign :: "building_data \<Rightarrow> building_info" where
  "building_values_assign d =
     \<lparr>bi_CfgId = bld_CfgId d, bi_Id = bld_Id d, bi_X = bld_X d, bi_Y = bld_Y d, bi_Dir = bld_Dir d\<rparr>"

definition building_add :: "int \<Rightarrow> player \<Rightarrow> bool \<times> player" where
  "building_add building_id p =
     (case col_Get (p_Buildings p) building_id of
        None \<Rightarrow> (False, p)
      | Some b \<Rightarrow> (True, set_changes (\<lambda>c. c\<lparr>buildings_add :=
          AList.update building_id (building_values_assign b) (buildings_add c)\<rparr>) p))"

definition building_remove :: "int \<Rightarrow> player \<Rightarrow> bool \<times> player" where
  "building_remove building_id p =
     (if col_HasIndex (buildings_remove (p_changes p)) building_id then (False, p)
      else (True, set_changes (\<lambda>c. c\<lparr>buildings_remove :=
        AList.update building_id building_id (buildings_remove c)\<rparr>) p))"

definition building_update :: "int \<Rightarrow> player \<Rightarrow> bool \<times> player" where
  "building_update building_id p =
     (case col_Get (p_Buildings p) building_id of
        None \<Rightarrow> (False, p)
      | Some b \<Rightarrow> (True, set_changes (\<lambda>c. c\<lparr>buildings_update :=
          AList.update building_id (building_values_assign b) (buildings_update c)\<rparr>) p))"

definition depot_building_update :: "int \<Rightarrow> player \<Rightarrow> player" where
  "depot_building_update depot_building_id p =
     set_changes (\<lambda>c. c\<lparr>depot_buildings_update := AList.update depot_building_id
       (case col_Get (p_BuildingDepots p) depot_building_id of None \<Rightarrow> 0 | Some n \<Rightarrow> n)
       (depot_buildings_update c)\<rparr>) p"

subsection \<open>Sending them\<close>

definition send_items_update :: "player \<Rightarrow> bool \<times> player" where
  "send_items_update p =
     (let items = items_update (p_changes p) in
      if items = [] then (False, p)
      else (True, set_changes (\<lambda>c. c\<lparr>items_update := []\<rparr>)
             (Send_msg (S2CItemsInfoUpdate (map snd items)) p)))"

definition send_buildings_update :: "player \<Rightarrow> bool \<times> player" where
  "send_buildings_update p =
     (let c = p_changes p in
      if buildings_add c = [] \<and> buildings_remove c = [] \<and> buildings_update c = [] then (False, p)
      else (True,
        set_changes (\<lambda>c. c\<lparr>buildings_add := [], buildings_remove := [], buildings_update := []\<rparr>)
          (Send_msg (S2CBuildingsInfoUpdate (map snd (buildings_add c)) (map fst (buildings_remove c))
             (map snd (buildings_update c))) p)))"

definition send_cats_update :: "player \<Rightarrow> bool \<times> player" where
  "send_cats_update p =
     (let c = p_changes p in
      if cats_add c = [] \<and> cats_remove c = [] \<and> cats_update c = [] then (False, p)
      else (True,
        set_changes (\<lambda>c. c\<lparr>cats_add := [], cats_remove := [], cats_update := []\<rparr>)
          (Send_msg (S2CCatsInfoUpdate (map snd (cats_add c)) (map fst (cats_remove c))
             (map snd (cats_update c))) p)))"

definition send_depot_building_update :: "player \<Rightarrow> bool \<times> player" where
  "send_depot_building_update p =
     (let d = depot_buildings_update (p_changes p) in
      if d = [] then (False, p)
      else (True, set_changes (\<lambda>c. c\<lparr>depot_buildings_update := []\<rparr>)
             (Send_msg (S2CDepotBuildingInfoUpdate d) p)))"

text \<open>The methods of \<open>Player\<close> around them.\<close>

definition SendItemsUpdate :: "player \<Rightarrow> player" where
  "SendItemsUpdate p = snd (send_items_update p)"

definition SendCatsUpdate :: "player \<Rightarrow> player" where
  "SendCatsUpdate p = snd (send_cats_update p)"

definition SendCatUpdate :: "int \<Rightarrow> player \<Rightarrow> player" where
  "SendCatUpdate cat_id p = snd (send_cats_update (snd (cat_update cat_id p)))"

definition SendCatAdd :: "int \<Rightarrow> player \<Rightarrow> player" where
  "SendCatAdd cat_id p = snd (send_cats_update (snd (cat_add cat_id p)))"

definition SendCatRemove :: "int \<Rightarrow> player \<Rightarrow> player" where
  "SendCatRemove cat_id p = snd (send_cats_update (snd (cat_remove cat_id p)))"

definition SendBuildingUpdate :: "player \<Rightarrow> player" where
  "SendBuildingUpdate p = snd (send_buildings_update p)"

definition SendDepotBuildingUpdate :: "player \<Rightarrow> player" where
  "SendDepotBuildingUpdate p = snd (send_depot_building_update p)"

subsection \<open>Recording and sending leave the database alone\<close>

lemma quiet_set_changes [simp, intro]: "quiet p (set_changes f p)"
  unfolding quiet_def set_changes_def
  by (intro exI [of _ "f (p_changes p)"] exI [of _ "p_base_prop_chg p"] exI [of _ "p_effects p"]) simp

lemma quiet_sent_then_cleared [simp, intro]: "quiet p (set_changes f (Send_msg m p))"
  by (rule quiet_trans [OF quiet_Send_msg quiet_set_changes])

lemma quiet_item_update [simp, intro]: "quiet p (item_update e i p)"
  by (simp add: item_update_def Let_def)

lemma quiet_cat_add [simp, intro]: "quiet p (snd (cat_add i p))"
  by (simp add: cat_add_def)

lemma quiet_cat_remove [simp, intro]: "quiet p (snd (cat_remove i p))"
  by (simp add: cat_remove_def)

lemma quiet_cat_update [simp, intro]: "quiet p (snd (cat_update i p))"
  by (simp add: cat_update_def)

lemma quiet_depot_building_update [simp, intro]: "quiet p (depot_building_update i p)"
  by (simp add: depot_building_update_def)

lemma quiet_send_items_update [simp, intro]: "quiet p (snd (send_items_update p))"
  by (simp add: send_items_update_def Let_def)

lemma quiet_send_cats_update [simp, intro]: "quiet p (snd (send_cats_update p))"
  by (simp add: send_cats_update_def Let_def)

lemma quiet_SendItemsUpdate [simp, intro]: "quiet p (SendItemsUpdate p)"
  by (simp add: SendItemsUpdate_def)

lemma quiet_SendCatsUpdate [simp, intro]: "quiet p (SendCatsUpdate p)"
  by (simp add: SendCatsUpdate_def)

lemma quiet_send_depot_building_update [simp, intro]: "quiet p (snd (send_depot_building_update p))"
  by (simp add: send_depot_building_update_def Let_def)

lemma quiet_SendDepotBuildingUpdate [simp, intro]: "quiet p (SendDepotBuildingUpdate p)"
  by (simp add: SendDepotBuildingUpdate_def)

lemmas set_changes_frame [simp] = quiet_frame [OF quiet_set_changes]
lemmas item_update_frame [simp] = quiet_frame [OF quiet_item_update]
lemmas cat_add_frame [simp] = quiet_frame [OF quiet_cat_add]
lemmas cat_remove_frame [simp] = quiet_frame [OF quiet_cat_remove]
lemmas cat_update_frame [simp] = quiet_frame [OF quiet_cat_update]
lemmas depot_building_update_frame [simp] = quiet_frame [OF quiet_depot_building_update]
lemmas send_items_update_frame [simp] = quiet_frame [OF quiet_send_items_update]
lemmas send_cats_update_frame [simp] = quiet_frame [OF quiet_send_cats_update]
lemmas SendItemsUpdate_frame [simp] = quiet_frame [OF quiet_SendItemsUpdate]
lemmas SendDepotBuildingUpdate_frame [simp] = quiet_frame [OF quiet_SendDepotBuildingUpdate]
lemmas SendCatsUpdate_frame [simp] = quiet_frame [OF quiet_SendCatsUpdate]

lemma GetCatState_quiet: "quiet p q \<Longrightarrow> GetCatState q cat_id = GetCatState p cat_id"
  by (simp add: GetCatState_def IfCatInExpedition_def quiet_frame)

end
