(* ===== verification/Tasks.thy ===== *)
theory Tasks
  imports ChangeInfo
begin

text \<open>
  \<open>game_server/player_task.go\<close>: daily and achievement tasks. Handlers report progress with
  \<open>TaskUpdate\<close>; a task counts up to its \<open>CompleteNum\<close>; the reward is taken once (the taking is in
  \<open>Rewards\<close>, since it pays resources). Daily tasks are reset when the configured time of day has
  passed since the last refresh.
\<close>

abbreviation (input) TASK_STATE_DOING :: int where "TASK_STATE_DOING \<equiv> 0"
abbreviation (input) TASK_STATE_COMPLETE :: int where "TASK_STATE_COMPLETE \<equiv> 1"
abbreviation (input) TASK_STATE_REWARD :: int where "TASK_STATE_REWARD \<equiv> 2"

definition new_task :: "int \<Rightarrow> int \<Rightarrow> task_data" where
  "new_task k v = \<lparr>task_Id = k, task_Value = v, task_State = 0\<rparr>"

abbreviation (input) Tasks_GetValue :: "player \<Rightarrow> int \<Rightarrow> int" where
  "Tasks_GetValue p k \<equiv> fst (col_get_field task_Value 0 (p_Tasks p) k)"

abbreviation (input) Tasks_GetState :: "player \<Rightarrow> int \<Rightarrow> int" where
  "Tasks_GetState p k \<equiv> fst (col_get_field task_State 0 (p_Tasks p) k)"

definition Tasks_Add :: "int \<Rightarrow> task_data \<Rightarrow> player \<Rightarrow> player" where
  "Tasks_Add k d p = p\<lparr>p_Tasks := snd (col_Add k d (p_Tasks p))\<rparr>"

text \<open>\<open>dbPlayerTaskColumn.IncbyValue\<close> makes a row of zeros, its \<open>Id\<close> included, when the key is
  missing.\<close>

definition Tasks_IncbyValue :: "int \<Rightarrow> int \<Rightarrow> player \<Rightarrow> int \<times> player" where
  "Tasks_IncbyValue k v p =
     (let d = entry (new_task 0 0) (p_Tasks p) k;
          r = i32 (task_Value d + v)
      in (r, p\<lparr>p_Tasks := AList.update k (d\<lparr>task_Value := r\<rparr>) (p_Tasks p)\<rparr>))"

subsection \<open>Rewards waiting\<close>

text \<open>\<open>has_reward\<close>: the \<open>range\<close> loop over the column, which also moves rows between the doing and
  the complete state and stops at the first reward.\<close>

fun has_reward_loop :: "env \<Rightarrow> int \<Rightarrow> int list \<Rightarrow> task_data column \<Rightarrow> bool \<times> task_data column" where
  "has_reward_loop e task_type [] m = (False, m)"
| "has_reward_loop e task_type (k # ks) m =
     (case map_of m k of None \<Rightarrow> has_reward_loop e task_type ks m
      | Some d \<Rightarrow>
     (case task_map e (task_Id d) of None \<Rightarrow> has_reward_loop e task_type ks m
      | Some task \<Rightarrow>
        let d' = (if task_State d = TASK_STATE_DOING then
                    (if tk_CompleteNum task \<le> task_Value d then d\<lparr>task_State := TASK_STATE_COMPLETE\<rparr>
                     else d)
                  else if task_State d = TASK_STATE_COMPLETE then
                    (if tk_CompleteNum task > task_Value d then d\<lparr>task_State := TASK_STATE_DOING\<rparr>
                     else d)
                  else d);
            m' = AList.update k d' m
        in if task_type > 0 \<and> tk_Type task \<noteq> task_type then has_reward_loop e task_type ks m'
           else if tk_Type task = TASK_TYPE_ACHIEVE \<and> tk_Prev task > 0
                   \<and> map_of m' (tk_Prev task) \<noteq> None then has_reward_loop e task_type ks m'
           else if task_State d' = TASK_STATE_COMPLETE
                   \<and> (task_type = 0 \<or> task_type = TASK_TYPE_DAILY \<or> task_type = TASK_TYPE_ACHIEVE)
             then (True, m')
           else has_reward_loop e task_type ks m'))"

definition has_reward :: "env \<Rightarrow> int \<Rightarrow> player \<Rightarrow> bool \<times> player" where
  "has_reward e task_type p =
     (case has_reward_loop e task_type (map fst (p_Tasks p)) (p_Tasks p) of
        (r, m) \<Rightarrow> (r, p\<lparr>p_Tasks := m\<rparr>))"

subsection \<open>The daily refresh\<close>

fun reset_daily_loop :: "(int \<times> xml_task) list \<Rightarrow> task_data column \<Rightarrow> task_data column" where
  "reset_daily_loop [] m = m"
| "reset_daily_loop ((k, task) # ts) m =
     reset_daily_loop ts
       (case map_of m k of
          None \<Rightarrow> AList.update k (new_task (tk_Id task) 0) m
        | Some d \<Rightarrow> AList.update k (d\<lparr>task_Value := 0, task_State := 0\<rparr>) m)"

definition ResetDailyTask :: "env \<Rightarrow> player \<Rightarrow> player" where
  "ResetDailyTask e p = p\<lparr>p_Tasks := reset_daily_loop (daily_task_map e) (p_Tasks p)\<rparr>"

definition ChkPlayerDailyTask :: "env \<Rightarrow> player \<Rightarrow> int \<times> player" where
  "ChkPlayerDailyTask e p =
     (let cfg = gc_DailyTaskRefreshTime (config e);
          remain_seconds = GetRemainSeconds2NextDayTime e (p_TaskLastRefresh p) cfg
      in if remain_seconds \<le> 0 then
           let p = ResetDailyTask e p;
               now_time = i32 (now e)
           in (GetRemainSeconds2NextDayTime e now_time cfg, p\<lparr>p_TaskLastRefresh := now_time\<rparr>)
         else (remain_seconds, p))"

definition first_gen_achieve_tasks :: "env \<Rightarrow> player \<Rightarrow> player" where
  "first_gen_achieve_tasks e p =
     (let p = (if col_NumAll (p_Tasks p) > 0 then p\<lparr>p_Tasks := col_Clear (p_Tasks p)\<rparr> else p)
      in fold (\<lambda>t. Tasks_Add (tk_Id t) (new_task (tk_Id t) 0)) (achieve_tasks e) p)"

subsection \<open>Sending the lists\<close>

text \<open>\<open>fill_task_msg\<close>: adds the tasks of the type that are neither present nor finished, and lists
  the visible ones (a task whose predecessor is still present is hidden).\<close>

definition fill_task_row :: "int \<Rightarrow> xml_task \<Rightarrow> player \<Rightarrow> task_info option \<times> player" where
  "fill_task_row task_type t p =
     (let k = tk_Id t; missing = \<not> col_HasIndex (p_Tasks p) k in
      if missing \<and> col_HasIndex (p_FinishedTasks p) k then (None, p)
      else
        let p = (if missing then Tasks_Add k (new_task k 0) p else p);
            v = Tasks_GetValue p k;
            s0 = Tasks_GetState p k;
            back = (s0 = TASK_STATE_COMPLETE \<and> v < tk_CompleteNum t);
            s = (if s0 = TASK_STATE_DOING \<and> v \<ge> tk_CompleteNum t then TASK_STATE_COMPLETE
                 else if back then TASK_STATE_DOING else s0);
            p = (if back then Tasks_Set k (\<lambda>d. d\<lparr>task_State := TASK_STATE_DOING\<rparr>) p else p)
        in if tk_Type t \<noteq> task_type then (None, p)
           else if tk_Prev t > 0 \<and> col_HasIndex (p_Tasks p) (tk_Prev t) then (None, p)
           else (Some \<lparr>ti_Id = k, ti_Value = v, ti_State = s\<rparr>, p))"

fun fill_task_loop :: "int \<Rightarrow> xml_task list \<Rightarrow> player \<Rightarrow> task_info list \<times> player" where
  "fill_task_loop task_type [] p = ([], p)"
| "fill_task_loop task_type (t # ts) p =
     (case fill_task_row task_type t p of (row, p) \<Rightarrow>
        (case fill_task_loop task_type ts p of (rows, p) \<Rightarrow>
           ((case row of None \<Rightarrow> rows | Some r \<Rightarrow> r # rows), p)))"

definition fill_task_msg :: "env \<Rightarrow> int \<Rightarrow> player \<Rightarrow> task_info list \<times> player" where
  "fill_task_msg e task_type p = fill_task_loop task_type (GetTasks e task_type) p"

text \<open>\<open>send_task\<close>: the second message reuses the response object of the first, its remaining
  seconds included.\<close>

definition send_task :: "env \<Rightarrow> int \<Rightarrow> player \<Rightarrow> player" where
  "send_task e task_type p =
     (let (remain, p) =
        (if task_type = 0 \<or> task_type = TASK_TYPE_DAILY then
           (case ChkPlayerDailyTask e p of (remain_seconds, p) \<Rightarrow>
              (case fill_task_msg e TASK_TYPE_DAILY p of (task_list, p) \<Rightarrow>
                 (remain_seconds,
                  Send_msg (S2CTaskDataResponse TASK_TYPE_DAILY task_list remain_seconds) p)))
         else (0, p))
      in if task_type = 0 \<or> task_type = TASK_TYPE_ACHIEVE then
           (case fill_task_msg e TASK_TYPE_ACHIEVE p of (task_list, p) \<Rightarrow>
              Send_msg (S2CTaskDataResponse TASK_TYPE_ACHIEVE task_list remain) p)
         else p)"

definition check_and_send_daily_task :: "env \<Rightarrow> player \<Rightarrow> player" where
  "check_and_send_daily_task e p =
     (case ChkPlayerDailyTask e p of (remain, p) \<Rightarrow>
        if remain \<le> 0 then send_task e TASK_TYPE_DAILY p else p)"

definition NotifyTaskValue :: "int \<Rightarrow> int \<Rightarrow> int \<Rightarrow> player \<Rightarrow> player" where
  "NotifyTaskValue k v s p = Send_msg (S2CTaskValueNotify \<lparr>ti_Id = k, ti_Value = v, ti_State = s\<rparr>) p"

subsection \<open>Progress\<close>

definition IsTaskComplete :: "xml_task \<Rightarrow> player \<Rightarrow> bool" where
  "IsTaskComplete task p =
     (if tk_Type task = TASK_TYPE_DAILY \<or> tk_Type task = TASK_TYPE_ACHIEVE then
        (case col_Get (p_Tasks p) (tk_Id task) of
           None \<Rightarrow> False
         | Some d \<Rightarrow> \<not> (task_Value d < tk_CompleteNum task))
      else False)"

text \<open>\<open>SingleTaskUpdate\<close> returns whether it updated, the value and the state it reports.\<close>

definition SingleTaskUpdate :: "xml_task \<Rightarrow> int \<Rightarrow> player \<Rightarrow> (bool \<times> int \<times> int) \<times> player" where
  "SingleTaskUpdate task count p =
     (let k = tk_Id task;
          report = (\<lambda>updated cur_val p. ((updated, cur_val,
             if cur_val \<ge> tk_CompleteNum task then TASK_STATE_COMPLETE else TASK_STATE_DOING), p))
      in if col_HasIndex (p_Tasks p) k then
           (if Tasks_GetState p k = TASK_STATE_REWARD then ((False, 0, 0), p)
            else if tk_CompleteNum task > Tasks_GetValue p k then
              (case Tasks_IncbyValue k count p of (cur_val, p) \<Rightarrow> report True cur_val p)
            else report False 0 p)
         else report True count (Tasks_Add k (new_task k count) p))"

definition WholeDailyTaskUpdate :: "env \<Rightarrow> xml_task \<Rightarrow> player \<Rightarrow> player" where
  "WholeDailyTaskUpdate e daily_task p =
     (case all_daily_task e of
        None \<Rightarrow> p
      | Some whole \<Rightarrow>
          if IsTaskComplete whole p then p
          else if tk_EventId daily_task \<noteq> TASK_COMPLETE_TYPE_ALL_DAILY then
            (case SingleTaskUpdate whole 1 p of ((to_send, cur_val, cur_state), p) \<Rightarrow>
               if to_send then NotifyTaskValue (tk_Id whole) cur_val cur_state p else p)
          else p)"

text \<open>One turn of the loop of \<open>TaskUpdate\<close>, the \<open>continue\<close>s as first branches.\<close>

definition task_update_one :: "env \<Rightarrow> bool \<Rightarrow> int \<Rightarrow> int \<Rightarrow> xml_task \<Rightarrow> player \<Rightarrow> player" where
  "task_update_one e if_not_less param count taskcfg p =
     (if \<not> col_HasIndex (p_Tasks p) (tk_Id taskcfg) then p
      else if IsTaskComplete taskcfg p then p
      else if tk_EventParam taskcfg > 0
              \<and> (if if_not_less then param < tk_EventParam taskcfg else param \<noteq> tk_EventParam taskcfg)
        then p
      else (case SingleTaskUpdate taskcfg count p of ((updated, cur_val, cur_state), p) \<Rightarrow>
        if updated \<and> \<not> (tk_Prev taskcfg > 0 \<and> col_HasIndex (p_Tasks p) (tk_Prev taskcfg)) then
          let p = NotifyTaskValue (tk_Id taskcfg) cur_val cur_state p in
          if tk_Type taskcfg = TASK_TYPE_DAILY \<and> cur_state = TASK_STATE_COMPLETE
          then WholeDailyTaskUpdate e taskcfg p else p
        else p))"

definition TaskUpdate :: "env \<Rightarrow> int \<Rightarrow> bool \<Rightarrow> int \<Rightarrow> int \<Rightarrow> player \<Rightarrow> player" where
  "TaskUpdate e complete_type if_not_less param count p =
     (case finish_tasks e complete_type of
        None \<Rightarrow> p
      | Some ftasks \<Rightarrow>
          if ftasks = [] then p
          else check_and_send_daily_task e
                 (fold (task_update_one e if_not_less param count) ftasks p))"

definition check_notify_next_task :: "env \<Rightarrow> xml_task \<Rightarrow> player \<Rightarrow> player" where
  "check_notify_next_task e task p =
     (if tk_Next task \<le> 0 then p
      else (case task_map e (tk_Next task) of
          None \<Rightarrow> p
        | Some next_task \<Rightarrow>
            if \<not> col_HasIndex (p_Tasks p) (tk_Next task) then p
            else
              let v = Tasks_GetValue p (tk_Next task);
                  s = Tasks_GetState p (tk_Next task);
                  s = (if tk_CompleteNum next_task \<le> v then TASK_STATE_COMPLETE else s)
              in NotifyTaskValue (tk_Next task) v s p))"

subsection \<open>What task operations leave alone\<close>

lemma task_only_Tasks [simp, intro]: "task_only p (p\<lparr>p_Tasks := t\<rparr>)"
  unfolding task_only_def
  by (intro exI [of _ t] exI [of _ "p_TaskLastRefresh p"] exI [of _ "p_changes p"]
    exI [of _ "p_base_prop_chg p"] exI [of _ "p_effects p"]) simp

lemma task_only_refresh [simp, intro]: "task_only p (p\<lparr>p_TaskLastRefresh := r\<rparr>)"
  unfolding task_only_def
  by (intro exI [of _ "p_Tasks p"] exI [of _ r] exI [of _ "p_changes p"]
    exI [of _ "p_base_prop_chg p"] exI [of _ "p_effects p"]) simp

lemma task_only_Add [simp, intro]: "task_only p (Tasks_Add k d p)"
  by (simp add: Tasks_Add_def)

lemma task_only_Set [simp, intro]: "task_only p (Tasks_Set k u p)"
  by (simp add: Tasks_Set_def)

lemma task_only_Incby [simp, intro]: "task_only p (snd (Tasks_IncbyValue k v p))"
  by (simp add: Tasks_IncbyValue_def Let_def)

lemma task_only_Reset [simp, intro]: "task_only p (ResetDailyTask e p)"
  by (simp add: ResetDailyTask_def)

lemma task_only_Chk [simp, intro]: "task_only p (snd (ChkPlayerDailyTask e p))"
  by (auto simp: ChkPlayerDailyTask_def Let_def
      intro: task_only_trans [OF task_only_Reset task_only_refresh])

lemma task_only_Notify [simp, intro]: "task_only p (NotifyTaskValue k v s p)"
  by (simp add: NotifyTaskValue_def quiet_task_only)

lemma task_only_Send [simp, intro]: "task_only p (Send_msg m p)"
  by (simp add: quiet_task_only)

lemma task_only_fill_row [simp, intro]: "task_only p (snd (fill_task_row typ t p))"
proof -
  let ?q = "if \<not> col_HasIndex (p_Tasks p) (tk_Id t) then Tasks_Add (tk_Id t) (new_task (tk_Id t) 0) p else p"
  have q: "task_only p ?q" by simp
  have qs: "task_only p (Tasks_Set k u ?q)" for k u
    by (rule task_only_trans [OF q task_only_Set])
  show ?thesis
    unfolding fill_task_row_def Let_def using q qs by (simp split: if_splits)
qed

lemma task_only_fill_loop [simp, intro]: "task_only p (snd (fill_task_loop typ ts p))"
proof (induction ts arbitrary: p)
  case (Cons t ts)
  show ?case
    using task_only_trans [OF task_only_fill_row [of p _ t] Cons.IH]
    by (simp add: case_prod_beta)
qed simp

lemma task_only_fill_msg [simp, intro]: "task_only p (snd (fill_task_msg e typ p))"
  by (simp add: fill_task_msg_def)

lemma task_only_send_task [simp, intro]: "task_only p (send_task e typ p)"
proof -
  let ?a = "snd (ChkPlayerDailyTask e p)"
  let ?b = "snd (fill_task_msg e TASK_TYPE_DAILY ?a)"
  have b: "task_only p (Send_msg m ?b)" for m
    by (rule task_only_trans [OF task_only_trans [OF task_only_Chk task_only_fill_msg] task_only_Send])
  have c: "task_only p q \<Longrightarrow> task_only p (Send_msg m (snd (fill_task_msg e t q)))" for q m t
    by (rule task_only_trans [OF _ task_only_trans [OF task_only_fill_msg task_only_Send]])
  show ?thesis
    unfolding send_task_def Let_def using b c [OF b] c [OF task_only_refl]
    by (simp add: case_prod_beta)
qed

lemma task_only_check_and_send [simp, intro]: "task_only p (check_and_send_daily_task e p)"
  using task_only_trans [OF task_only_Chk task_only_send_task, of p e]
  by (simp add: check_and_send_daily_task_def case_prod_beta)

lemma task_only_Single [simp, intro]: "task_only p (snd (SingleTaskUpdate t c p))"
  by (simp add: SingleTaskUpdate_def Let_def case_prod_beta)

lemma task_only_Whole [simp, intro]: "task_only p (WholeDailyTaskUpdate e t p)"
  using task_only_trans [OF task_only_Single task_only_Notify]
  by (simp add: WholeDailyTaskUpdate_def case_prod_beta split: option.split)

lemma task_only_one [simp, intro]: "task_only p (task_update_one e b a c t p)"
proof -
  have n: "task_only p (NotifyTaskValue k v s (snd (SingleTaskUpdate t c p)))" for k v s
    by (rule task_only_trans [OF task_only_Single task_only_Notify])
  show ?thesis
    using n task_only_trans [OF n task_only_Whole]
    by (simp add: task_update_one_def Let_def case_prod_beta)
qed

lemma task_only_fold:
  assumes "\<And>x p. task_only p (f x p)"
  shows "task_only p (fold f xs p)"
proof (induction xs arbitrary: p)
  case (Cons x xs)
  then show ?case using task_only_trans [OF assms Cons.IH] by simp
qed simp

lemma task_only_TaskUpdate [simp, intro]: "task_only p (TaskUpdate e typ b a c p)"
proof -
  have "task_only p (check_and_send_daily_task e (fold (task_update_one e b a c) ts p))" for ts
    by (rule task_only_trans [OF task_only_fold [OF task_only_one] task_only_check_and_send])
  then show ?thesis by (simp add: TaskUpdate_def split: option.split)
qed

lemma task_only_next [simp, intro]: "task_only p (check_notify_next_task e t p)"
  by (simp add: check_notify_next_task_def Let_def split: option.split)

lemmas TaskUpdate_frame [simp] = task_only_frame [OF task_only_TaskUpdate]
lemmas check_next_frame [simp] = task_only_frame [OF task_only_next]

subsection \<open>Progress never goes back\<close>

text \<open>
  How the task column may change while no daily refresh is due: rows stay, a row keeps its id and
  its state, a value only grows, and a row whose reward was taken is not touched at all.
\<close>

definition progress :: "task_data column \<Rightarrow> task_data column \<Rightarrow> bool" where
  "progress m m' \<longleftrightarrow> (\<forall>k d. map_of m k = Some d \<longrightarrow>
     (\<exists>d'. map_of m' k = Some d' \<and> task_Id d' = task_Id d \<and> task_State d' = task_State d
        \<and> (0 \<le> task_Value d \<longrightarrow> task_Value d \<le> task_Value d')
        \<and> (task_State d = TASK_STATE_REWARD \<longrightarrow> d' = d)))"

lemma progress_refl [simp, intro]: "progress m m"
  by (auto simp: progress_def)

lemma progress_trans:
  assumes "progress a b" "progress b c"
  shows "progress a c"
  unfolding progress_def
proof (intro allI impI)
  fix k d
  assume "map_of a k = Some d"
  with assms(1) obtain d1 where d1: "map_of b k = Some d1" "task_Id d1 = task_Id d"
    "task_State d1 = task_State d" "0 \<le> task_Value d \<longrightarrow> task_Value d \<le> task_Value d1"
    "task_State d = TASK_STATE_REWARD \<longrightarrow> d1 = d" unfolding progress_def by blast
  with assms(2) obtain d2 where "map_of c k = Some d2" "task_Id d2 = task_Id d1"
    "task_State d2 = task_State d1" "0 \<le> task_Value d1 \<longrightarrow> task_Value d1 \<le> task_Value d2"
    "task_State d1 = TASK_STATE_REWARD \<longrightarrow> d2 = d1" unfolding progress_def by blast
  with d1 show "\<exists>d'. map_of c k = Some d' \<and> task_Id d' = task_Id d \<and> task_State d' = task_State d
      \<and> (0 \<le> task_Value d \<longrightarrow> task_Value d \<le> task_Value d')
      \<and> (task_State d = TASK_STATE_REWARD \<longrightarrow> d' = d)"
    by auto
qed

lemma progress_keeps: "progress m m' \<Longrightarrow> map_of m k \<noteq> None \<Longrightarrow> map_of m' k \<noteq> None"
  unfolding progress_def by fastforce

lemma progress_Add: "progress (p_Tasks p) (p_Tasks (Tasks_Add k d p))"
  by (auto simp: progress_def Tasks_Add_def col_simps)

lemma progress_Incby:
  assumes "map_of (p_Tasks p) k = Some d" "task_State d \<noteq> TASK_STATE_REWARD"
    and "0 \<le> n" "task_Value d + n \<le> max32"
  shows "progress (p_Tasks p) (p_Tasks (snd (Tasks_IncbyValue k n p)))"
  using assms by (auto simp: progress_def Tasks_IncbyValue_def Let_def col_simps entry_def i32_range_id)

text \<open>A task definition leaves room for a step of \<open>n\<close>: the counter cannot wrap below the goal.\<close>

abbreviation (input) has_room :: "int \<Rightarrow> xml_task \<Rightarrow> bool" where
  "has_room n t \<equiv> 0 \<le> n \<and> tk_CompleteNum t + n \<le> max32"

lemma progress_Single:
  assumes "has_room n t"
  shows "progress (p_Tasks p) (p_Tasks (snd (SingleTaskUpdate t n p)))"
proof (cases "map_of (p_Tasks p) (tk_Id t)")
  case None
  then show ?thesis
    by (simp add: SingleTaskUpdate_def Let_def col_simps progress_Add)
next
  case (Some d)
  note inc = progress_Incby [OF Some, of n]
  from Some assms show ?thesis
    by (auto simp: SingleTaskUpdate_def Let_def col_simps col_get_field_def case_prod_beta intro!: inc)
qed

lemma Notify_Tasks [simp]: "p_Tasks (NotifyTaskValue k v s p) = p_Tasks p"
  by (simp add: NotifyTaskValue_def)

lemma progress_Whole:
  assumes "\<And>w. all_daily_task e = Some w \<Longrightarrow> has_room 1 w"
  shows "progress (p_Tasks p) (p_Tasks (WholeDailyTaskUpdate e t p))"
proof (cases "all_daily_task e")
  case (Some w)
  with assms progress_Single [of 1 w p] show ?thesis
    by (simp add: WholeDailyTaskUpdate_def case_prod_beta)
qed (simp add: WholeDailyTaskUpdate_def)

lemma progress_one:
  assumes "has_room n t" and "\<And>w. all_daily_task e = Some w \<Longrightarrow> has_room 1 w"
  shows "progress (p_Tasks p) (p_Tasks (task_update_one e b a n t p))"
proof -
  have s: "progress (p_Tasks p) (p_Tasks (NotifyTaskValue k v s (snd (SingleTaskUpdate t n p))))"
    for k v s using progress_Single [OF assms(1)] by simp
  then have "progress (p_Tasks p) (p_Tasks (WholeDailyTaskUpdate e t
      (NotifyTaskValue k v s (snd (SingleTaskUpdate t n p)))))" for k v s
    by (rule progress_trans) (rule progress_Whole [OF assms(2)])
  with s progress_Single [OF assms(1)] show ?thesis
    by (simp add: task_update_one_def Let_def case_prod_beta)
qed

lemma progress_fold:
  assumes "\<And>t q. t \<in> set ts \<Longrightarrow> progress (p_Tasks q) (p_Tasks (f t q))"
  shows "progress (p_Tasks p) (p_Tasks (fold f ts p))"
  using assms
proof (induction ts arbitrary: p)
  case (Cons t ts)
  have "progress (p_Tasks (f t p)) (p_Tasks (fold f ts (f t p)))"
    by (rule Cons.IH) (simp add: Cons.prems)
  moreover have "progress (p_Tasks p) (p_Tasks (f t p))"
    by (rule Cons.prems) simp
  ultimately show ?case using progress_trans by simp
qed simp

subsection \<open>The refresh\<close>

lemma fold_refresh [simp]: "p_TaskLastRefresh (task_update_one e b a n t p) = p_TaskLastRefresh p"
proof -
  have s: "p_TaskLastRefresh (snd (SingleTaskUpdate t n p)) = p_TaskLastRefresh p" for t n p
    by (simp add: SingleTaskUpdate_def Let_def case_prod_beta Tasks_Add_def Tasks_IncbyValue_def)
  have n: "p_TaskLastRefresh (NotifyTaskValue k v s p) = p_TaskLastRefresh p" for k v s p
    by (simp add: NotifyTaskValue_def)
  show ?thesis
    by (simp add: task_update_one_def WholeDailyTaskUpdate_def Let_def case_prod_beta s n split: option.split)
qed

lemma fold_one_refresh [simp]:
  "p_TaskLastRefresh (fold (task_update_one e b a n) ts p) = p_TaskLastRefresh p"
  by (induction ts arbitrary: p) simp_all

lemma check_and_send_not_due:
  assumes "0 < GetRemainSeconds2NextDayTime e (p_TaskLastRefresh p) (gc_DailyTaskRefreshTime (config e))"
  shows "check_and_send_daily_task e p = p"
  using assms by (simp add: check_and_send_daily_task_def ChkPlayerDailyTask_def Let_def)

lemma map_of_reset_daily:
  assumes "distinct (map fst ts)"
  shows "map_of (reset_daily_loop ts m) k = (case map_of ts k of
      None \<Rightarrow> map_of m k
    | Some t \<Rightarrow> Some (case map_of m k of None \<Rightarrow> new_task (tk_Id t) 0
                       | Some d \<Rightarrow> d\<lparr>task_Value := 0, task_State := 0\<rparr>))"
  using assms
proof (induction ts m rule: reset_daily_loop.induct)
  case (2 k' task ts m)
  have notin: "k' \<notin> set (map fst ts) \<Longrightarrow> map_of ts k' = None"
    by (simp add: map_of_eq_None_iff)
  show ?case
  proof (cases "map_of m k'")
    case None
    with 2 notin show ?thesis
      by (cases "k = k'") (simp_all add: map_of_AList_update split: option.split)
  next
    case (Some d)
    with 2 notin show ?thesis
      by (cases "k = k'") (simp_all add: map_of_AList_update split: option.split)
  qed
qed simp

text \<open>A refresh time is usable when it parses to a time of today; the server's configuration has
  it as a clock time such as \<open>04:00:00\<close>.\<close>

definition refresh_time_ok :: "env \<Rightarrow> bool" where
  "refresh_time_ok e \<longleftrightarrow>
     get_today_config_time e (now e) (gc_DailyTaskRefreshTime (config e)) \<noteq> None"

lemma Chk_remain_positive:
  assumes "refresh_time_ok e" "in32 (now e)" "p_TaskLastRefresh p \<le> now e"
  shows "0 < fst (ChkPlayerDailyTask e p)"
proof -
  from assms(1) obtain d where
    d: "get_today_config_time e (now e) (gc_DailyTaskRefreshTime (config e)) = Some d"
    by (auto simp: refresh_time_ok_def)
  from remain_after_refresh [OF d] assms(2) show ?thesis
    by (simp add: ChkPlayerDailyTask_def Let_def i32_id)
qed

section \<open>Properties\<close>

text \<open>
  Property C5. Reporting progress never takes progress away: while no daily refresh is due, a
  \<open>TaskUpdate\<close> by a non-negative count keeps every task row with its id and state, no counter
  decreases, and a task whose reward was taken is left exactly as it was. Counters cannot wrap as
  long as the goals leave room for one step below the largest \<open>int32\<close>.
\<close>

theorem TaskUpdate_progress:
  assumes "\<forall>ts t. finish_tasks e complete_type = Some ts \<and> t \<in> set ts \<longrightarrow> tk_CompleteNum t + n \<le> max32"
    and "\<forall>w. all_daily_task e = Some w \<longrightarrow> tk_CompleteNum w + 1 \<le> max32"
    and "0 \<le> n"
    and "0 < GetRemainSeconds2NextDayTime e (p_TaskLastRefresh p) (gc_DailyTaskRefreshTime (config e))"
  shows "progress (p_Tasks p) (p_Tasks (TaskUpdate e complete_type b a n p))"
proof (cases "finish_tasks e complete_type")
  case (Some ts)
  have "progress (p_Tasks p) (p_Tasks (fold (task_update_one e b a n) ts p))"
    using assms(1,2,3) Some by (intro progress_fold progress_one) auto
  with Some assms(4) show ?thesis
    by (simp add: TaskUpdate_def check_and_send_not_due)
qed (simp add: TaskUpdate_def)

definition demo_task :: xml_task where
  "demo_task = \<lparr>tk_Id = 7, tk_Type = 2, tk_EventId = 206, tk_EventParam = 0, tk_CompleteNum = 3,
     tk_Prev = 0, tk_Next = 0, tk_Rewards = [2, 50]\<rparr>"

definition demo_task_env :: env where
  "demo_task_env = empty_env\<lparr>now := 1600000000, finish_tasks := [206 \<mapsto> [demo_task]],
     task_map := [7 \<mapsto> demo_task]\<rparr>"

definition demo_task_player :: player where
  "demo_task_player = empty_player\<lparr>p_Tasks := [(7, new_task 7 1)], p_TaskLastRefresh := 1600000000\<rparr>"

lemma demo_clock: "ParseClock ''04:00:00'' = Some (4, 0, 0)"
  by code_simp

lemma demo_remain:
  "GetRemainSeconds2NextDayTime demo_task_env (p_TaskLastRefresh demo_task_player)
     (gc_DailyTaskRefreshTime (config demo_task_env)) = 56000"
  by (simp add: GetRemainSeconds2NextDayTime_def get_today_config_time_def demo_clock Let_def
      demo_task_env_def demo_task_player_def empty_env_def empty_config_def DateUnix_def
      ClockUnix_def local_day_def i32_def)

lemma TaskUpdate_progress_witness:
  "progress (p_Tasks demo_task_player) (p_Tasks (TaskUpdate demo_task_env 206 False 0 2 demo_task_player))"
  by (rule TaskUpdate_progress)
     (unfold demo_remain, simp_all add: demo_task_env_def demo_task_def empty_env_def)

lemma one_completes:
  assumes "map_of (p_Tasks p) (tk_Id t) = Some d" "task_State d \<noteq> TASK_STATE_REWARD"
    and "tk_Type t = TASK_TYPE_DAILY \<or> tk_Type t = TASK_TYPE_ACHIEVE"
    and "tk_EventParam t \<le> 0 \<or> (if b then tk_EventParam t \<le> a else a = tk_EventParam t)"
    and "has_room n t" "tk_CompleteNum t \<le> task_Value d + n" "0 \<le> task_Value d"
    and "\<And>w. all_daily_task e = Some w \<Longrightarrow> has_room 1 w"
  shows "\<exists>d'. map_of (p_Tasks (task_update_one e b a n t p)) (tk_Id t) = Some d' \<and>
    task_State d' = task_State d \<and> tk_CompleteNum t \<le> task_Value d' \<and> task_Value d \<le> task_Value d'"
proof (cases "IsTaskComplete t p")
  case True
  with assms(1,3) show ?thesis
    by (auto simp: task_update_one_def IsTaskComplete_def col_simps)
next
  case False
  with assms(1,3) have less: "task_Value d < tk_CompleteNum t"
    by (auto simp: IsTaskComplete_def col_simps)
  let ?q = "snd (SingleTaskUpdate t n p)"
  from assms less have q: "map_of (p_Tasks ?q) (tk_Id t) = Some (d\<lparr>task_Value := task_Value d + n\<rparr>)"
    by (simp add: SingleTaskUpdate_def Let_def col_simps col_get_field_def Tasks_IncbyValue_def
        entry_def i32_range_id)
  have w: "progress (p_Tasks ?q) (p_Tasks (WholeDailyTaskUpdate e t (NotifyTaskValue k v s ?q)))" for k v s
    using progress_Whole [OF assms(8), of e "NotifyTaskValue k v s ?q" t] by simp
  have "progress (p_Tasks ?q) (p_Tasks (task_update_one e b a n t p))"
    using assms(1,4) False w
    by (auto simp: task_update_one_def Let_def case_prod_beta col_simps)
  with q assms(5-7) show ?thesis unfolding progress_def by force
qed

text \<open>
  An event that supplies what is missing completes the task: if the task is present,
  its reward not taken, its parameter matches and the count closes the gap, then after
  \<open>TaskUpdate\<close> the task is complete in the sense of \<open>IsTaskComplete\<close>.
\<close>

theorem TaskUpdate_completes:
  assumes "finish_tasks e complete_type = Some ts" "t \<in> set ts"
    and "map_of (p_Tasks p) (tk_Id t) = Some d" "task_State d \<noteq> TASK_STATE_REWARD"
    and "tk_Type t = TASK_TYPE_DAILY \<or> tk_Type t = TASK_TYPE_ACHIEVE"
    and "tk_EventParam t \<le> 0 \<or> (if b then tk_EventParam t \<le> a else a = tk_EventParam t)"
    and "0 \<le> n" "0 \<le> task_Value d" "tk_CompleteNum t \<le> task_Value d + n"
    and "\<forall>t \<in> set ts. tk_CompleteNum t + n \<le> max32"
    and "\<forall>w. all_daily_task e = Some w \<longrightarrow> tk_CompleteNum w + 1 \<le> max32"
    and "0 < GetRemainSeconds2NextDayTime e (p_TaskLastRefresh p) (gc_DailyTaskRefreshTime (config e))"
  shows "IsTaskComplete t (TaskUpdate e complete_type b a n p)"
proof -
  let ?one = "task_update_one e b a n"
  have whole: "has_room 1 w" if "all_daily_task e = Some w" for w using assms(11) that by simp
  obtain us vs where ts: "ts = us @ t # vs" using assms(2) by (auto dest: split_list)
  have room: "has_room n u" if "u \<in> set ts" for u using assms(7,10) that by simp
  have pr: "progress (p_Tasks q) (p_Tasks (fold ?one xs q))" if "set xs \<subseteq> set ts" for q xs
    by (rule progress_fold, rule progress_one) (use that room whole in auto)
  obtain d1 where d1: "map_of (p_Tasks (fold ?one us p)) (tk_Id t) = Some d1"
    "task_State d1 = task_State d" "task_Value d \<le> task_Value d1"
    using pr [of us p] assms(3,8) unfolding ts progress_def by auto
  have "task_State d1 \<noteq> TASK_STATE_REWARD" "tk_CompleteNum t \<le> task_Value d1 + n" "0 \<le> task_Value d1"
    using d1(2,3) assms(4,8,9) by simp_all
  from one_completes [OF d1(1) this(1) assms(5,6) room [OF assms(2)] this(2,3) whole]
  obtain d2 where d2: "map_of (p_Tasks (?one t (fold ?one us p))) (tk_Id t) = Some d2"
    "tk_CompleteNum t \<le> task_Value d2" "task_Value d1 \<le> task_Value d2" by blast
  have "progress (p_Tasks (?one t (fold ?one us p))) (p_Tasks (fold ?one ts p))"
    using pr [of vs "?one t (fold ?one us p)"] by (auto simp: ts)
  then obtain d3 where "map_of (p_Tasks (fold ?one ts p)) (tk_Id t) = Some d3"
    "0 \<le> task_Value d2 \<longrightarrow> task_Value d2 \<le> task_Value d3"
    using d2(1) unfolding progress_def by blast
  then have "IsTaskComplete t (fold ?one ts p)"
    using d2 assms(5) \<open>0 \<le> task_Value d1\<close> by (simp add: IsTaskComplete_def col_simps)
  moreover have "ts \<noteq> []" using ts by simp
  ultimately show ?thesis
    using assms(1,12) by (simp add: TaskUpdate_def check_and_send_not_due)
qed

lemma TaskUpdate_completes_witness:
  "IsTaskComplete demo_task (TaskUpdate demo_task_env 206 False 0 2 demo_task_player)"
  by (rule TaskUpdate_completes [of _ _ "[demo_task]" _ _ "new_task 7 1"])
     (unfold demo_remain, simp_all add: demo_task_env_def demo_task_def empty_env_def
       demo_task_player_def new_task_def)

text \<open>
  The daily refresh: when it is due, every daily task of the table is back at value 0
  and state doing (made if it was missing), every other row is untouched, the refresh time is the
  present, and the seconds to the next refresh are positive.
\<close>

theorem daily_refresh:
  assumes "GetRemainSeconds2NextDayTime e (p_TaskLastRefresh p) (gc_DailyTaskRefreshTime (config e)) \<le> 0"
    and "refresh_time_ok e" "in32 (now e)"
    and "\<forall>k t. map_of (daily_task_map e) k = Some t \<longrightarrow> tk_Id t = k" "col_wf (daily_task_map e)"
    and "ChkPlayerDailyTask e p = (remain, q)"
  shows "0 < remain \<and> p_TaskLastRefresh q = now e \<and>
    (\<forall>k. if map_of (daily_task_map e) k = None then map_of (p_Tasks q) k = map_of (p_Tasks p) k
         else \<exists>d. map_of (p_Tasks q) k = Some d \<and> task_Value d = 0 \<and> task_State d = TASK_STATE_DOING)"
proof -
  from assms(2) obtain d where
    d: "get_today_config_time e (now e) (gc_DailyTaskRefreshTime (config e)) = Some d"
    by (auto simp: refresh_time_ok_def)
  have q: "q = (ResetDailyTask e p)\<lparr>p_TaskLastRefresh := now e\<rparr>"
    and r: "remain = GetRemainSeconds2NextDayTime e (now e) (gc_DailyTaskRefreshTime (config e))"
    using assms(1,3,6) by (auto simp: ChkPlayerDailyTask_def Let_def i32_id)
  have "map_of (p_Tasks q) = map_of (reset_daily_loop (daily_task_map e) (p_Tasks p))"
    by (simp add: q ResetDailyTask_def)
  then show ?thesis
    using remain_after_refresh [OF d] map_of_reset_daily [OF assms(5) [unfolded col_wf_def]] assms(4)
    by (auto simp: q r new_task_def split: option.split)
qed

definition demo_daily_env :: env where
  "demo_daily_env = demo_task_env\<lparr>daily_task_map := [(9, demo_task\<lparr>tk_Id := 9, tk_Type := 1\<rparr>)]\<rparr>"

lemma demo_daily_due:
  "GetRemainSeconds2NextDayTime demo_daily_env 1500000000 (gc_DailyTaskRefreshTime (config demo_daily_env)) = 0"
  "refresh_time_ok demo_daily_env"
  by (simp_all add: GetRemainSeconds2NextDayTime_def get_today_config_time_def demo_clock Let_def
      demo_daily_env_def demo_task_env_def empty_env_def empty_config_def DateUnix_def
      ClockUnix_def local_day_def i32_def refresh_time_ok_def)

lemma daily_refresh_witness:
  "p_TaskLastRefresh (snd (ChkPlayerDailyTask demo_daily_env
     (demo_task_player\<lparr>p_TaskLastRefresh := 1500000000\<rparr>))) = 1600000000"
  using daily_refresh [of demo_daily_env "demo_task_player\<lparr>p_TaskLastRefresh := 1500000000\<rparr>",
      OF _ demo_daily_due(2) _ _ _ surjective_pairing]
  by (simp add: demo_daily_due(1) in32_def col_wf_def)
     (simp add: demo_daily_env_def demo_task_env_def empty_env_def)

text \<open>
  The branch of \<open>check_and_send_daily_task\<close> that sends the task list is dead: with a
  usable refresh time \<open>ChkPlayerDailyTask\<close> never returns zero or less, so the call sends nothing
  even when it has just reset the tasks; the client learns of the reset only when it asks.
\<close>

theorem check_and_send_never_sends:
  assumes "refresh_time_ok e" "in32 (now e)" "p_TaskLastRefresh p \<le> now e"
  shows "p_effects (check_and_send_daily_task e p) = p_effects p"
  using Chk_remain_positive [OF assms]
  by (simp add: check_and_send_daily_task_def case_prod_beta)
     (simp add: ChkPlayerDailyTask_def Let_def ResetDailyTask_def)

lemma check_and_send_never_sends_witness:
  "p_effects (check_and_send_daily_task demo_daily_env demo_task_player) = []"
  using check_and_send_never_sends [OF demo_daily_due(2), of demo_task_player]
  by (simp add: in32_def demo_daily_env_def demo_task_env_def demo_task_player_def
      empty_env_def empty_player_def)

end
