(* ===== verification/Items.thy ===== *)
theory Items
  imports Tasks
begin

text \<open>
  \<open>game_server/player_item.go\<close> from \<open>CalcSpirit\<close> on, with the item and diamond operations of
  \<open>a_db_ext.go\<close>: the resources of a player (each an \<open>int32\<close> of \<open>dbPlayerInfoColumn\<close>), the items of
  the bag, experience, new cats, and the handlers that use, sell and compose. The arguments
  \<open>reason\<close> and \<open>mod\<close> are only logged and left out.
\<close>

abbreviation (input) ITEM_TYPE_SPIRIT :: int where "ITEM_TYPE_SPIRIT \<equiv> 8"

abbreviation (input) ITEM_RESOURCE_ID_RMB :: int where "ITEM_RESOURCE_ID_RMB \<equiv> 1"
abbreviation (input) ITEM_RESOURCE_ID_GOLD :: int where "ITEM_RESOURCE_ID_GOLD \<equiv> 2"
abbreviation (input) ITEM_RESOURCE_ID_DIAMOND :: int where "ITEM_RESOURCE_ID_DIAMOND \<equiv> 3"
abbreviation (input) ITEM_RESOURCE_ID_CAT_FOOD :: int where "ITEM_RESOURCE_ID_CAT_FOOD \<equiv> 4"
abbreviation (input) ITEM_RESOURCE_ID_SPIRIT :: int where "ITEM_RESOURCE_ID_SPIRIT \<equiv> 5"
abbreviation (input) ITEM_RESOURCE_ID_FRIEND_POINT :: int where "ITEM_RESOURCE_ID_FRIEND_POINT \<equiv> 6"
abbreviation (input) ITEM_RESOURCE_ID_CHARM_VALUE :: int where "ITEM_RESOURCE_ID_CHARM_VALUE \<equiv> 7"
abbreviation (input) ITEM_RESOURCE_ID_EXP_VALUE :: int where "ITEM_RESOURCE_ID_EXP_VALUE \<equiv> 8"
abbreviation (input) ITEM_RESOURCE_ID_SOUL_STONE :: int where "ITEM_RESOURCE_ID_SOUL_STONE \<equiv> 9"
abbreviation (input) ITEM_RESOURCE_ID_CHARM_MEDAL :: int where "ITEM_RESOURCE_ID_CHARM_MEDAL \<equiv> 10"
abbreviation (input) ITEM_RESOURCE_ID_ACTION :: int where "ITEM_RESOURCE_ID_ACTION \<equiv> 14"
abbreviation (input) E_ERR_ITEM_ACTION_NOT_ENOUGH :: int where "E_ERR_ITEM_ACTION_NOT_ENOUGH \<equiv> -101003"

subsection \<open>Spirit\<close>

text \<open>\<open>CalcSpirit\<close>: the spirit that grew since the last save is added first. It also reports the
  seconds to the next point when the caller asks; nothing is reported (\<open>None\<close>) for a level
  without a row. The remainder is by minutes, the quotient by seconds, as in the source.\<close>

definition CalcSpirit :: "env \<Rightarrow> player \<Rightarrow> ((int \<times> int option) \<times> player) option" where
  "CalcSpirit e p =
     (let curr_stamina = i_Spirit (p_Info p) in
      case level_map e (p_Level p) of
        None \<Rightarrow> Some ((curr_stamina, None), p)
      | Some cp \<Rightarrow>
          let need = gc_SpiritGrowPointNeedMinute (config e);
              used_seconds = i32 (i32 (now e) - i_SaveLastSpiritPointTime (p_Info p));
              remain = max 0 (i32 (i32 (need * 60) - used_seconds))
          in if curr_stamina < lv_MaxPower cp \<and> used_seconds > i32 (need * 60) then do {
               y \<leftarrow> rem32 used_seconds need;
               grow \<leftarrow> quot32 used_seconds (i32 (need * 60));
               let over = (i32 (curr_stamina + grow) > lv_MaxPower cp);
               let grow = (if over then i32 (lv_MaxPower cp - curr_stamina) else grow);
               let remain = (if over then 0 else remain);
               if grow > 0 then
                 (let p = snd (Info_Incby i_Spirit i_Spirit_update grow p);
                      p = Info_Set i_SaveLastSpiritPointTime_update (i32 (i32 (now e) - y)) p
                  in Some ((i_Spirit (p_Info p), Some (i32 (need * 60))), p))
               else Some ((curr_stamina, Some remain), p)
             }
             else Some ((curr_stamina, Some remain), p))"

subsection \<open>Resources\<close>

text \<open>
  The shape of \<open>AddGold\<close>, \<open>AddDiamond\<close>, \<open>AddCatFood\<close>, \<open>AddFriendPoints\<close>, \<open>AddSoulStone\<close> and
  \<open>AddCharmMedal\<close>: a negative amount is refused, a sum that wraps is capped, otherwise the field
  grows and the property flag is set. \<open>sub_plain\<close> is the shape of the \<open>Sub\<close> operations, none of
  which looks at the balance (\<open>SubCatFood\<close> and the diamond one excepted).
\<close>

definition add_capped :: "(info_data \<Rightarrow> int) \<Rightarrow> ((int \<Rightarrow> int) \<Rightarrow> info_data \<Rightarrow> info_data) \<Rightarrow>
    int \<Rightarrow> player \<Rightarrow> int \<times> player" where
  "add_capped sel upd v p =
     (if v < 0 then (sel (p_Info p), p)
      else if i32 (sel (p_Info p) + v) < 0 then (max32, Info_Set upd max32 p)
      else (case Info_Incby sel upd v p of (r, p) \<Rightarrow> (r, p\<lparr>p_base_prop_chg := True\<rparr>)))"

definition sub_plain :: "(info_data \<Rightarrow> int) \<Rightarrow> ((int \<Rightarrow> int) \<Rightarrow> info_data \<Rightarrow> info_data) \<Rightarrow>
    int \<Rightarrow> player \<Rightarrow> int \<times> player" where
  "sub_plain sel upd v p =
     (if v < 0 then (sel (p_Info p), p)
      else (case Info_Incby sel upd (i32 (- v)) p of (r, p) \<Rightarrow> (r, p\<lparr>p_base_prop_chg := True\<rparr>)))"

definition AddGold :: "int \<Rightarrow> player \<Rightarrow> int \<times> player" where
  "AddGold val p = add_capped i_Gold i_Gold_update val p"

definition SubGold :: "int \<Rightarrow> player \<Rightarrow> int \<times> player" where
  "SubGold val p = sub_plain i_Gold i_Gold_update val p"

definition AddDiamond :: "int \<Rightarrow> player \<Rightarrow> int \<times> player" where
  "AddDiamond add_val p = add_capped i_Diamond i_Diamond_update add_val p"

text \<open>\<open>dbPlayerInfoColumn.SubDiamond\<close> stops at zero; its twin \<open>SubGold\<close> has no caller.\<close>

definition Info_SubDiamond :: "int \<Rightarrow> player \<Rightarrow> int \<times> player" where
  "Info_SubDiamond v p =
     (let d = i32 (i_Diamond (p_Info p) - v);
          d = (if d < 0 then 0 else d)
      in (d, Info_Set i_Diamond_update d p))"

definition SubDiamond :: "int \<Rightarrow> player \<Rightarrow> int \<times> player" where
  "SubDiamond sub_val p =
     (if sub_val < 0 then (i_Diamond (p_Info p), p)
      else (case Info_SubDiamond sub_val p of (r, p) \<Rightarrow> (r, p\<lparr>p_base_prop_chg := True\<rparr>)))"

definition AddCharmVal :: "env \<Rightarrow> int \<Rightarrow> player \<Rightarrow> int \<times> player" where
  "AddCharmVal e add_val p =
     (if add_val < 0 then (i_CharmVal (p_Info p), p)
      else if i32 (i_CharmVal (p_Info p) + add_val) < 0 then
        (max32, Info_Set i_CharmVal_update max32 p)
      else (case Info_Incby i_CharmVal i_CharmVal_update add_val p of (cur, p) \<Rightarrow>
        let p = TaskUpdate e TASK_COMPLETE_TYPE_CHARM_VALUE False 0 cur (p\<lparr>p_base_prop_chg := True\<rparr>)
        in (cur, rpc_rank_list_update_data RANK_LIST_TYPE_CHARM [cur] p)))"

definition SubCharmVal :: "int \<Rightarrow> player \<Rightarrow> int \<times> player" where
  "SubCharmVal sub_val p =
     (if sub_val < 0 then (i_CharmVal (p_Info p), p)
      else (case sub_plain i_CharmVal i_CharmVal_update sub_val p of (cur, p) \<Rightarrow>
        (cur, rpc_rank_list_update_data RANK_LIST_TYPE_CHARM [cur] p)))"

definition AddFriendPoints :: "int \<Rightarrow> player \<Rightarrow> int \<times> player" where
  "AddFriendPoints add_val p = add_capped i_FriendPoints i_FriendPoints_update add_val p"

definition SubFriendPoints :: "int \<Rightarrow> player \<Rightarrow> int \<times> player" where
  "SubFriendPoints sub_val p = sub_plain i_FriendPoints i_FriendPoints_update sub_val p"

definition AddSpirit :: "env \<Rightarrow> int \<Rightarrow> player \<Rightarrow> (int \<times> player) option" where
  "AddSpirit e spirit p = do {
     (_, p) \<leftarrow> CalcSpirit e p;
     Some (add_capped i_Spirit i_Spirit_update spirit p)
   }"

definition SubSpirit :: "env \<Rightarrow> int \<Rightarrow> player \<Rightarrow> (int \<times> player) option" where
  "SubSpirit e spirit p = do {
     (_, p) \<leftarrow> CalcSpirit e p;
     Some (sub_plain i_Spirit i_Spirit_update spirit p)
   }"

definition AddCatFood :: "int \<Rightarrow> player \<Rightarrow> int \<times> player" where
  "AddCatFood food p = add_capped i_CatFood i_CatFood_update food p"

definition SubCatFood :: "int \<Rightarrow> player \<Rightarrow> int \<times> player" where
  "SubCatFood food p =
     (if food < 0 then (i_CatFood (p_Info p), p)
      else if food > i_CatFood (p_Info p) then (i_CatFood (p_Info p), p)
      else sub_plain i_CatFood i_CatFood_update food p)"

definition AddSoulStone :: "int \<Rightarrow> player \<Rightarrow> int \<times> player" where
  "AddSoulStone stone p = add_capped i_SoulStone i_SoulStone_update stone p"

definition SubSoulStone :: "int \<Rightarrow> player \<Rightarrow> int \<times> player" where
  "SubSoulStone stone p = sub_plain i_SoulStone i_SoulStone_update stone p"

definition AddStar :: "env \<Rightarrow> int \<Rightarrow> player \<Rightarrow> int \<times> player" where
  "AddStar e star p =
     (if star < 0 then (i_TotalStars (p_Info p), p)
      else (case Info_Incby i_TotalStars i_TotalStars_update star p of (cur, p) \<Rightarrow>
        (cur, TaskUpdate e TASK_COMPLETE_TYPE_COLLECT_STAR_NUM False 0 cur (p\<lparr>p_base_prop_chg := True\<rparr>))))"

definition SubStar :: "int \<Rightarrow> player \<Rightarrow> int \<times> player" where
  "SubStar star p = sub_plain i_TotalStars i_TotalStars_update star p"

definition AddCharmMedal :: "int \<Rightarrow> player \<Rightarrow> int \<times> player" where
  "AddCharmMedal charm_medal p = add_capped i_CharmMedal i_CharmMedal_update charm_medal p"

definition SubCharmMedal :: "int \<Rightarrow> player \<Rightarrow> int \<times> player" where
  "SubCharmMedal charm_medal p = sub_plain i_CharmMedal i_CharmMedal_update charm_medal p"

subsection \<open>Experience\<close>

text \<open>The loop of \<open>AddExp\<close>: at its head the loop index is the level reached so far. An index out
  of the level array is a panic.\<close>

function exp_loop :: "env \<Rightarrow> int \<Rightarrow> int \<Rightarrow> (int \<times> int) option" where
  "exp_loop e lvl cur_exp =
     (if lvl < max_level e then
        (case go_nth (level_array e) (lvl - 1) of
           None \<Rightarrow> None
         | Some row \<Rightarrow>
             if cur_exp \<ge> lv_MaxExp row then exp_loop e (lvl + 1) (i32 (cur_exp - lv_MaxExp row))
             else Some (lvl, cur_exp))
      else Some (lvl, cur_exp))"
  by auto
termination by (relation "measure (\<lambda>(e, lvl, _). nat (max_level e - lvl))") auto

declare exp_loop.simps [simp del]

definition AddExp :: "env \<Rightarrow> int \<Rightarrow> player \<Rightarrow> ((int \<times> int) \<times> player) option" where
  "AddExp e add_val p =
     (let old_lvl = p_Level p in
      if add_val < 0 then Some ((old_lvl, i_Exp (p_Info p)), p)
      else
        let cur_exp = i32 (i_Exp (p_Info p) + add_val) in
        if old_lvl < 1 then Some ((-1, -1), p)
        else do {
          ((cur_lvl, cur_exp), p) \<leftarrow>
            (if i32 (old_lvl + 1) \<le> max_level e then do {
               (cur_lvl, cur_exp) \<leftarrow> exp_loop e old_lvl cur_exp;
               let p = (if cur_lvl \<noteq> old_lvl then p\<lparr>p_Level := cur_lvl\<rparr> else p);
               Some ((cur_lvl, cur_exp), Info_Set i_Exp_update cur_exp p)
             }
             else Some ((old_lvl, cur_exp), p));
          let p = p\<lparr>p_base_prop_chg := True\<rparr>;
          Some ((cur_lvl, cur_exp), if cur_lvl > old_lvl then rpc_player_base_info_update p else p)
        })"

subsection \<open>Items\<close>

definition GetItemNum :: "player \<Rightarrow> int \<Rightarrow> int \<times> bool" where
  "GetItemNum p k = col_get_field ItemNum 0 (p_Items p) k"

definition get_item :: "player \<Rightarrow> int \<Rightarrow> int" where
  "get_item p item_id = (case GetItemNum p item_id of (num, ok) \<Rightarrow> if \<not> ok then 0 else num)"

definition ChkAddItemByNum :: "env \<Rightarrow> int \<Rightarrow> int \<Rightarrow> player \<Rightarrow> int \<times> player" where
  "ChkAddItemByNum e cfgid num p =
     (case item_map e cfgid of
        None \<Rightarrow> (0, p)
      | Some item \<Rightarrow>
          let timed = (\<lambda>d. d\<lparr>ItemNum := 1, StartTimeUnix := i32 (now e),
                RemainSeconds := i32 (it_ValidTime item * 3600)\<rparr>);
              d = (case map_of (p_Items p) cfgid of
                  Some d \<Rightarrow>
                    (if it_ValidTime item = 0 then
                       (let n = i32 (ItemNum d + num) in
                        d\<lparr>ItemNum := (if n > it_MaxNumber item then it_MaxNumber item else n)\<rparr>)
                     else timed d)
                | None \<Rightarrow>
                    (let d = \<lparr>ItemCfgId = cfgid, ItemNum = 0, StartTimeUnix = 0, RemainSeconds = 0\<rparr> in
                     if it_ValidTime item = 0 then
                       d\<lparr>ItemNum := (if num > it_MaxNumber item then it_MaxNumber item else num)\<rparr>
                     else timed d))
          in (ItemNum d, p\<lparr>p_Items := AList.update cfgid d (p_Items p)\<rparr>))"

definition ChkRemoveItem :: "env \<Rightarrow> int \<Rightarrow> int \<Rightarrow> player \<Rightarrow> (bool \<times> int) \<times> player" where
  "ChkRemoveItem e item_id num p =
     (case item_map e item_id of
        None \<Rightarrow> ((False, 0), p)
      | Some item \<Rightarrow>
      (case map_of (p_Items p) item_id of
        None \<Rightarrow> ((False, 0), p)
      | Some d \<Rightarrow>
          if ItemNum d > num then
            (let left = i32 (ItemNum d - num) in
             ((True, left), p\<lparr>p_Items := AList.update item_id (d\<lparr>ItemNum := left\<rparr>) (p_Items p)\<rparr>))
          else ((True, 0), p\<lparr>p_Items := AList.delete item_id (p_Items p)\<rparr>)))"

definition AddItem :: "env \<Rightarrow> int \<Rightarrow> int \<Rightarrow> bool \<Rightarrow> player \<Rightarrow> item_info option \<times> player" where
  "AddItem e itemcfgid addnum bslience p =
     (case item_map e itemcfgid of
        None \<Rightarrow> (None, p)
      | Some itemcfg \<Rightarrow>
          (case ChkAddItemByNum e itemcfgid addnum p of (new_num, p) \<Rightarrow>
             let p = item_update e itemcfgid p;
                 msg = \<lparr>ii_ItemCfgId = itemcfgid, ii_ItemNum = new_num, ii_RemainSeconds = 0\<rparr>;
                 p = (if \<not> bslience then Send_msg (ItemInfoMsg msg) p else p);
                 p = (case foster_map e itemcfgid of
                     None \<Rightarrow> p
                   | Some foster \<Rightarrow>
                       if fo_Rarity foster \<ge> 4
                       then push_new ANOUNCEMENT_TYPE_GET_FOSTER_CARD itemcfgid 0 0 p else p)
             in (Some msg, p)))"

definition RemoveItem :: "env \<Rightarrow> int \<Rightarrow> int \<Rightarrow> bool \<Rightarrow> player \<Rightarrow> item_info option \<times> player" where
  "RemoveItem e cfgid num bsilence p =
     (case item_map e cfgid of
        None \<Rightarrow> (None, p)
      | Some item \<Rightarrow>
          (case ChkRemoveItem e cfgid num p of ((ok, _), p) \<Rightarrow>
             if \<not> ok then (None, p)
             else
               let p = item_update e cfgid p;
                   msg = \<lparr>ii_ItemCfgId = cfgid, ii_ItemNum = num, ii_RemainSeconds = 0\<rparr>
               in (Some msg, if \<not> bsilence then Send_msg (ItemInfoMsg msg) p else p)))"

definition RemoveItemAll :: "env \<Rightarrow> int \<Rightarrow> bool \<Rightarrow> player \<Rightarrow> player" where
  "RemoveItemAll e item_id silence p =
     (case GetItemNum p item_id of (n, ok) \<Rightarrow>
        if \<not> ok then p
        else
          let p = item_update e item_id (p\<lparr>p_Items := col_Remove item_id (p_Items p)\<rparr>);
              msg = \<lparr>ii_ItemCfgId = item_id, ii_ItemNum = n, ii_RemainSeconds = 0\<rparr>
          in if \<not> silence then Send_msg (ItemInfoMsg msg) p else p)"

subsection \<open>Resources by id\<close>

definition GetItemResourceValue :: "env \<Rightarrow> int \<Rightarrow> player \<Rightarrow> (int \<times> player) option" where
  "GetItemResourceValue e other_id p =
     (if other_id = ITEM_RESOURCE_ID_RMB then Some (0, p)
      else if other_id = ITEM_RESOURCE_ID_GOLD then Some (i_Gold (p_Info p), p)
      else if other_id = ITEM_RESOURCE_ID_DIAMOND then Some (i_Diamond (p_Info p), p)
      else if other_id = ITEM_RESOURCE_ID_CAT_FOOD then Some (i_CatFood (p_Info p), p)
      else if other_id = ITEM_RESOURCE_ID_SPIRIT then
        map_option (\<lambda>((v, _), p). (v, p)) (CalcSpirit e p)
      else if other_id = ITEM_RESOURCE_ID_FRIEND_POINT then Some (i_FriendPoints (p_Info p), p)
      else if other_id = ITEM_RESOURCE_ID_CHARM_VALUE then Some (i_CharmVal (p_Info p), p)
      else if other_id = ITEM_RESOURCE_ID_EXP_VALUE then Some (i_Exp (p_Info p), p)
      else if other_id = ITEM_RESOURCE_ID_SOUL_STONE then Some (i_SoulStone (p_Info p), p)
      else if other_id = ITEM_RESOURCE_ID_CHARM_MEDAL then Some (i_CharmMedal (p_Info p), p)
      else Some (get_item p other_id, p))"

definition AddItemResource :: "env \<Rightarrow> int \<Rightarrow> int \<Rightarrow> player \<Rightarrow> (int \<times> player) option" where
  "AddItemResource e cid num p =
     (if cid = ITEM_RESOURCE_ID_RMB then Some (1, p)
      else if cid = ITEM_RESOURCE_ID_GOLD then Some (AddGold num p)
      else if cid = ITEM_RESOURCE_ID_DIAMOND then Some (AddDiamond num p)
      else if cid = ITEM_RESOURCE_ID_CAT_FOOD then Some (AddCatFood num p)
      else if cid = ITEM_RESOURCE_ID_CHARM_MEDAL then Some (AddCharmMedal num p)
      else if cid = ITEM_RESOURCE_ID_CHARM_VALUE then Some (AddCharmVal e num p)
      else if cid = ITEM_RESOURCE_ID_EXP_VALUE then map_option (\<lambda>(_, p). (1, p)) (AddExp e num p)
      else if cid = ITEM_RESOURCE_ID_FRIEND_POINT then Some (AddFriendPoints num p)
      else if cid = ITEM_RESOURCE_ID_SOUL_STONE then Some (AddSoulStone num p)
      else if cid = ITEM_RESOURCE_ID_SPIRIT then AddSpirit e num p
      else (case AddItem e cid num True p of
          (None, p) \<Rightarrow> Some (-1, p)
        | (Some _, p) \<Rightarrow> Some (1, p)))"

definition RemoveItemResource :: "env \<Rightarrow> int \<Rightarrow> int \<Rightarrow> player \<Rightarrow> (int \<times> player) option" where
  "RemoveItemResource e cid num p =
     (if cid = ITEM_RESOURCE_ID_RMB then Some (1, p)
      else if cid = ITEM_RESOURCE_ID_GOLD then Some (SubGold num p)
      else if cid = ITEM_RESOURCE_ID_DIAMOND then Some (SubDiamond num p)
      else if cid = ITEM_RESOURCE_ID_CAT_FOOD then Some (SubCatFood num p)
      else if cid = ITEM_RESOURCE_ID_CHARM_MEDAL then Some (SubCharmMedal num p)
      else if cid = ITEM_RESOURCE_ID_CHARM_VALUE then Some (SubCharmVal num p)
      else if cid = ITEM_RESOURCE_ID_EXP_VALUE then Some (1, p)
      else if cid = ITEM_RESOURCE_ID_FRIEND_POINT then Some (SubFriendPoints num p)
      else if cid = ITEM_RESOURCE_ID_SOUL_STONE then Some (SubSoulStone num p)
      else if cid = ITEM_RESOURCE_ID_SPIRIT then SubSpirit e num p
      else (case RemoveItem e cid num True p of
          (None, p) \<Rightarrow> Some (-1, p)
        | (Some _, p) \<Rightarrow> Some (1, p)))"

text \<open>Lists of pairs come flattened, id before amount. The loops of the checking and removing
  functions run to the length and panic on an odd one; the adding loops stop at half of it.\<close>

fun ChkResEnough :: "env \<Rightarrow> int list \<Rightarrow> player \<Rightarrow> (bool \<times> player) option" where
  "ChkResEnough e [] p = Some (True, p)"
| "ChkResEnough e [k] p = None"
| "ChkResEnough e (k # v # rs) p = do {
     (have_num, p) \<leftarrow> GetItemResourceValue e k p;
     if have_num < v then Some (False, p) else ChkResEnough e rs p
   }"

fun RemoveResources :: "env \<Rightarrow> int list \<Rightarrow> player \<Rightarrow> player option" where
  "RemoveResources e [] p = Some p"
| "RemoveResources e [k] p = None"
| "RemoveResources e (k # v # rs) p = do {
     (_, p) \<leftarrow> RemoveItemResource e k v p;
     RemoveResources e rs p
   }"

fun AddResources :: "env \<Rightarrow> int list \<Rightarrow> player \<Rightarrow> player option" where
  "AddResources e [] p = Some p"
| "AddResources e [k] p = Some p"
| "AddResources e (k # v # rs) p = do {
     (_, p) \<leftarrow> AddItemResource e k v p;
     AddResources e rs p
   }"

fun ChkItemsEnough :: "int list \<Rightarrow> player \<Rightarrow> bool option" where
  "ChkItemsEnough [] p = Some True"
| "ChkItemsEnough [k] p = None"
| "ChkItemsEnough (k # v # rs) p =
     (if fst (GetItemNum p k) < v then Some False else ChkItemsEnough rs p)"

fun RemoveItems :: "env \<Rightarrow> int list \<Rightarrow> player \<Rightarrow> player option" where
  "RemoveItems e [] p = Some p"
| "RemoveItems e [k] p = None"
| "RemoveItems e (k # v # rs) p = RemoveItems e rs (snd (RemoveItem e k v True p))"

subsection \<open>Random abilities\<close>

text \<open>\<open>rand31n_from_range\<close> of \<open>utils.go\<close>; a range whose width wraps makes \<open>rand.Int31n\<close> panic.\<close>

definition rand31n_from_range :: "env \<Rightarrow> int \<Rightarrow> int \<Rightarrow> player \<Rightarrow> ((bool \<times> int) \<times> player) option" where
  "rand31n_from_range e mn mx p =
     (if mn > mx then Some ((False, 0), p)
      else if mn = mx then Some ((True, mn), p)
      else do {
        r \<leftarrow> Int31n e (p_ndraws p) (i32 (i32 (mx - mn) + 1));
        Some ((True, i32 (r + mn)), p\<lparr>p_ndraws := Suc (p_ndraws p)\<rparr>)
      })"

text \<open>
  The conversion of an \<open>int32\<close> to \<open>float32\<close>: exact up to \<open>2 ^ 24\<close>, above it rounded to the 24
  leading bits, ties to even. \<open>GetRoundValue\<close> gets only such whole values; for the one float out
  of the range of \<open>int32\<close> the conversion back is taken as wrapping.
\<close>

definition float32_of_int :: "int \<Rightarrow> int" where
  "float32_of_int x =
     (let a = \<bar>x\<bar>;
          k = hd (filter (\<lambda>k. a < 2 ^ (24 + k)) [0..<9]);
          q = a div 2 ^ k;
          r = a mod 2 ^ k;
          up = (2 * r > 2 ^ k \<or> 2 * r = 2 ^ k \<and> odd q);
          v = (if up then q + 1 else q) * 2 ^ k
      in if x < 0 then - v else v)"

definition GetRoundValue :: "int \<Rightarrow> int" where
  "GetRoundValue f = (let v = i32 f in if 1 \<le> f - v then i32 (v + 1) else v)"

lemma float32_of_int_exact: "\<bar>x\<bar> < 16777216 \<Longrightarrow> float32_of_int x = x"
  by (auto simp: float32_of_int_def Let_def upt_rec)

lemma GetRoundValue_int32: "in32 x \<Longrightarrow> GetRoundValue x = x"
  by (simp add: GetRoundValue_def i32_id)

subsection \<open>New cats\<close>

text \<open>\<open>dbPlayerCatColumn.CalcOuqi\<close> and \<open>update_ouqi\<close> of \<open>player_cat.go\<close>, needed here.\<close>

definition CalcOuqi :: "env \<Rightarrow> player \<Rightarrow> int \<Rightarrow> int" where
  "CalcOuqi e p cat_id =
     (case map_of (p_Cats p) cat_id of
        None \<Rightarrow> 0
      | Some d \<Rightarrow>
      (case cat_map e (cat_CfgId d) of
        None \<Rightarrow> 0
      | Some cat \<Rightarrow>
          i32 (cat_CoinAbility d + cat_MatchAbility d + cat_ExploreAbility d + ch_SkillScore cat)))"

definition update_ouqi :: "env \<Rightarrow> int \<Rightarrow> player \<Rightarrow> player" where
  "update_ouqi e cat_id p =
     rpc_rank_list_update_data RANK_LIST_TYPE_CAT_OUQI [cat_id, CalcOuqi e p cat_id] p"

definition add_handbook_data :: "int \<Rightarrow> player \<Rightarrow> player" where
  "add_handbook_data item_id p =
     Send_msg (S2CNewHandbookItemNotify item_id)
       (p\<lparr>p_HandbookItems := snd (col_Add item_id () (p_HandbookItems p))\<rparr>)"

definition AddHandbookItem :: "env \<Rightarrow> int \<Rightarrow> player \<Rightarrow> player" where
  "AddHandbookItem e item_id p =
     (if \<not> handbook_has e item_id then p
      else if col_HasIndex (p_HandbookItems p) item_id then p
      else add_handbook_data item_id p)"

definition AddHead :: "int \<Rightarrow> player \<Rightarrow> player" where
  "AddHead item_id p =
     (if col_HasIndex (p_HeadItems p) item_id then p
      else Send_msg (S2CNewHeadNotify item_id)
             (p\<lparr>p_HeadItems := snd (col_Add item_id () (p_HeadItems p))\<rparr>))"

text \<open>The abilities of a new cat: a total drawn from the cat's range is split by three drawn
  weights; the inner \<open>None\<close> is one of the four early returns of nil, the outer one a panic
  (weights that sum to zero).\<close>

definition gen_abilities :: "env \<Rightarrow> xml_character \<Rightarrow> player \<Rightarrow>
    ((int \<times> int \<times> int) option \<times> player) option" where
  "gen_abilities e catcfg p = do {
     ((ok, all_ability), p) \<leftarrow> rand31n_from_range e (ch_RangeMin catcfg) (ch_RangeMax catcfg) p;
     if \<not> ok then Some (None, p) else do {
     ((ok, coin_weight), p) \<leftarrow>
        rand31n_from_range e (ch_CoinAbilityRangeMin catcfg) (ch_CoinAbilityRangeMax catcfg) p;
     if \<not> ok then Some (None, p) else do {
     ((ok, explore_weight), p) \<leftarrow>
        rand31n_from_range e (ch_ExploreAbilityRangeMin catcfg) (ch_ExploreAbilityRangeMax catcfg) p;
     if \<not> ok then Some (None, p) else do {
     ((ok, match_weight), p) \<leftarrow>
        rand31n_from_range e (ch_MatchAbilityRangeMin catcfg) (ch_MatchAbilityRangeMax catcfg) p;
     if \<not> ok then Some (None, p) else do {
     let total_weight = i32 (coin_weight + explore_weight + match_weight);
     c \<leftarrow> quot32 (i32 (all_ability * coin_weight)) total_weight;
     x \<leftarrow> quot32 (i32 (all_ability * explore_weight)) total_weight;
     let coin = GetRoundValue (float32_of_int c);
     let explore = GetRoundValue (float32_of_int x);
     Some (Some (coin, explore, i32 (all_ability - i32 (coin + explore))), p)
     }}}}
   }"

definition AddCatWithLevelStarSkill :: "env \<Rightarrow> int \<Rightarrow> int \<Rightarrow> int \<Rightarrow> int \<Rightarrow> bool \<Rightarrow> player \<Rightarrow>
    (cat_info option \<times> player) option" where
  "AddCatWithLevelStarSkill e cat_cid level star skill_level bslience p =
     (case cat_map e cat_cid of
        None \<Rightarrow> Some (None, p)
      | Some catcfg \<Rightarrow>
      (case Info_Incby i_NextCatId i_NextCatId_update 1 p of (next_cid, p) \<Rightarrow> do {
        (abilities, p) \<leftarrow> gen_abilities e catcfg p;
        (case abilities of
           None \<Rightarrow> Some (None, p)
         | Some (coin, explore, mtch) \<Rightarrow>
             let d = \<lparr>cat_Id = next_cid, cat_CfgId = cat_cid, cat_Exp = 0, cat_Level = level,
                   cat_Star = star, cat_Nick = '''', cat_SkillLevel = skill_level, cat_Locked = 0,
                   cat_CoinAbility = coin, cat_ExploreAbility = explore, cat_MatchAbility = mtch,
                   cat_CathouseId = 0\<rparr>;
                 p = p\<lparr>p_Cats := snd (col_Add next_cid d (p_Cats p))\<rparr>
             in (case cat_add next_cid p of (added, p) \<Rightarrow>
               if \<not> added then Some (None, p)
               else
                 let msg = \<lparr>ci_CatCfgId = cat_cid, ci_Id = next_cid, ci_Exp = 0, ci_Level = level,
                       ci_Star = star, ci_Nick = '''', ci_SkillLevel = skill_level, ci_Locked = False,
                       ci_CoinAbility = coin, ci_ExploreAbility = explore, ci_MatchAbility = mtch,
                       ci_State = CAT_STATE_NONE\<rparr>;
                     p = (if \<not> bslience then Send_msg (CatInfoMsg msg) p else p);
                     p = TaskUpdate e TASK_COMPLETE_TYPE_COLLECT_SSR False (ch_Rarity catcfg) 1 p;
                     p = AddHandbookItem e cat_cid p;
                     p = AddHead (ch_AvatarId catcfg) p;
                     p = update_ouqi e next_cid p;
                     p = (if ch_Rarity catcfg \<ge> 4
                          then push_new ANOUNCEMENT_TYPE_GET_SSR_CAT cat_cid 0 0 p else p)
                 in Some (Some msg, p)))
      }))"

definition AddCat :: "env \<Rightarrow> int \<Rightarrow> bool \<Rightarrow> player \<Rightarrow> (cat_info option \<times> player) option" where
  "AddCat e catcfgid bslience p = AddCatWithLevelStarSkill e catcfgid 1 1 1 bslience p"

definition SubCat :: "int \<Rightarrow> player \<Rightarrow> bool \<times> player" where
  "SubCat cat_id p = cat_remove cat_id (p\<lparr>p_Cats := col_Remove cat_id (p_Cats p)\<rparr>)"

subsection \<open>Any object by id\<close>

text \<open>\<open>AddDepotBuilding\<close> of \<open>player_building.go\<close>; the announcement test repeats a nil check.\<close>

definition AddDepotBuilding :: "env \<Rightarrow> int \<Rightarrow> int \<Rightarrow> player \<Rightarrow> bool \<times> player" where
  "AddDepotBuilding e building_config_id num p =
     (case building_map e building_config_id of
        None \<Rightarrow> (False, p)
      | Some build \<Rightarrow>
          let finish = (\<lambda>p.
                let p = depot_building_update building_config_id p;
                    p = AddHandbookItem e building_config_id p
                in (True, if bd_Rarity build \<ge> 4
                          then push_new ANOUNCEMENT_TYPE_GET_BUILDING building_config_id 0 0 p else p))
          in (case col_Get (p_BuildingDepots p) building_config_id of
                None \<Rightarrow>
                  (if num \<le> 0 then (False, p)
                   else finish (p\<lparr>p_BuildingDepots :=
                          snd (col_Add building_config_id num (p_BuildingDepots p))\<rparr>))
              | Some n \<Rightarrow>
                  (if i32 (n + num) < 0 then (False, p)
                   else finish (p\<lparr>p_BuildingDepots :=
                          AList.update building_config_id (i32 (n + num)) (p_BuildingDepots p)\<rparr>))))"

definition AddObj :: "env \<Rightarrow> int \<Rightarrow> int \<Rightarrow> bool \<Rightarrow> player \<Rightarrow> (int \<times> player) option" where
  "AddObj e objcfgid addnum bslience p = do {
     (new_num, p) \<leftarrow> AddItemResource e objcfgid addnum p;
     if new_num \<ge> 0 then Some (new_num, p)
     else if cat_map e objcfgid \<noteq> None then do {
       (cat, p) \<leftarrow> AddCat e objcfgid bslience p;
       Some (if cat \<noteq> None then 1 else 0, p)
     }
     else if building_map e objcfgid \<noteq> None then
       (let p = snd (AddDepotBuilding e objcfgid addnum p)
        in Some (fst (col_get_field id 0 (p_BuildingDepots p) objcfgid), p))
     else Some (new_num, p)
   }"

subsection \<open>Handlers\<close>

definition use_item :: "env \<Rightarrow> int \<Rightarrow> int \<Rightarrow> player \<Rightarrow> (int \<times> player) option" where
  "use_item e item_id item_count p =
     (if item_count \<le> 0 then Some (-1, p)
      else case item_map e item_id of
        None \<Rightarrow> Some (-1, p)
      | Some item \<Rightarrow>
      (case map_of (p_Items p) item_id of
        None \<Rightarrow> Some (-1, p)
      | Some d \<Rightarrow>
        if ItemNum d < item_count then Some (-1, p)
        else if it_ValidTime item > 0 \<and> get_time_item_remain_seconds e d = 0 then Some (-1, p)
        else if it_Type item = ITEM_TYPE_SPIRIT \<and> length (it_Numbers item) < 2 then Some (-1, p)
        else do {
          p \<leftarrow> (if it_Type item = ITEM_TYPE_SPIRIT then
                  map_option snd (AddItemResource e (it_Numbers item ! 0)
                    (i32 (it_Numbers item ! 1 * item_count))
                    (snd (RemoveItem e item_id item_count False p)))
                else Some p);
          Some (1, Send_msg (S2CUseItem item_id item_count) (snd (send_items_update p)))
        }))"

definition sell_item :: "env \<Rightarrow> int \<Rightarrow> int \<Rightarrow> player \<Rightarrow> int \<times> player" where
  "sell_item e item_id item_count p =
     (case item_map e item_id of
        None \<Rightarrow> (-1, p)
      | Some item \<Rightarrow>
      (case RemoveItem e item_id item_count False p of
        (None, p) \<Rightarrow> (-1, p)
      | (Some _, p) \<Rightarrow>
          let p = snd (send_items_update p);
              p = snd (AddGold (i32 (it_SaleCoin item * item_count)) p)
          in (1, Send_msg (S2CSellItemResult item_id item_count) p)))"

definition compose_cat :: "env \<Rightarrow> int \<Rightarrow> player \<Rightarrow> (int \<times> player) option" where
  "compose_cat e cat_id p =
     (case cat_map e cat_id of
        None \<Rightarrow> Some (-1, p)
      | Some cat \<Rightarrow>
      (case col_Get (p_Items p) (ch_PieceId cat) of
        None \<Rightarrow> Some (-1, p)
      | Some piece_item \<Rightarrow>
        if ItemNum piece_item < ch_PieceNum cat then Some (-1, p)
        else do {
          let p = snd (RemoveItem e (ch_PieceId cat) (ch_PieceNum cat) True p);
          (added, p) \<leftarrow> AddCat e (ch_Id cat) True p;
          (case added of
             None \<Rightarrow> Some (-1, p)
           | Some info \<Rightarrow>
               let p = snd (send_items_update p);
                   p = snd (send_cats_update p)
               in Some (1, Send_msg (S2CComposeCatResult info (ch_PieceId cat) (i32 (- ch_PieceNum cat))) p))
        }))"

text \<open>\<open>is_today_zan\<close>: same year and same day of the year, that is the same calendar day.\<close>

definition is_today_zan :: "env \<Rightarrow> int \<Rightarrow> player \<Rightarrow> bool" where
  "is_today_zan e player_id p =
     (case col_get_field id 0 (p_Zans p) player_id of (zan_time, ok) \<Rightarrow>
        if \<not> ok then False else local_day e zan_time = local_day e (now e))"

subsection \<open>The contract of a resource\<close>

text \<open>
  What every resource of the player promises its clients: earning is exact up to the cap, spending
  what is there is exact, a negative amount does nothing, and the returned number is the balance.
  Gold, diamonds, cat food, friend points, charm, soul stones and charm medals all keep it.
\<close>

locale resource_account =
  fixes bal :: "player \<Rightarrow> int"
    and earn :: "int \<Rightarrow> player \<Rightarrow> int \<times> player"
    and spend :: "int \<Rightarrow> player \<Rightarrow> int \<times> player"
  assumes earn_bal: "\<lbrakk>0 \<le> v; in32 v; 0 \<le> bal p; in32 (bal p)\<rbrakk>
        \<Longrightarrow> bal (snd (earn v p)) = min max32 (bal p + v)"
    and earn_neg: "v < 0 \<Longrightarrow> earn v p = (bal p, p)"
    and earn_ret: "fst (earn v p) = bal (snd (earn v p))"
    and spend_bal: "\<lbrakk>0 \<le> v; v \<le> bal p; in32 (bal p)\<rbrakk> \<Longrightarrow> bal (snd (spend v p)) = bal p - v"
    and spend_neg: "v < 0 \<Longrightarrow> spend v p = (bal p, p)"
begin

definition solvent :: "player \<Rightarrow> bool" where
  "solvent p \<longleftrightarrow> 0 \<le> bal p \<and> in32 (bal p)"

lemma solvent_earn: "solvent p \<Longrightarrow> in32 v \<Longrightarrow> solvent (snd (earn v p))"
  by (cases "v < 0") (auto simp: solvent_def earn_neg earn_bal in32_def)

lemma solvent_spend: "solvent p \<Longrightarrow> v \<le> bal p \<Longrightarrow> solvent (snd (spend v p))"
  by (cases "v < 0") (auto simp: solvent_def spend_neg spend_bal in32_def)

lemma spend_earn:
  assumes "solvent p" "0 \<le> v" "bal p + v \<le> max32"
  shows "bal (snd (spend v (snd (earn v p)))) = bal p"
  using assms by (simp add: solvent_def earn_bal spend_bal in32_def)

lemma earn_all:
  assumes "solvent p" "\<forall>v \<in> set vs. 0 \<le> v \<and> in32 v"
  shows "bal (fold (\<lambda>v p. snd (earn v p)) vs p) = min max32 (bal p + sum_list vs)"
  using assms
proof (induction vs arbitrary: p)
  case Nil
  then show ?case by (simp add: solvent_def in32_def)
next
  case (Cons v vs)
  have nn: "0 \<le> sum_list vs" using Cons.prems(2) by (intro sum_list_nonneg) simp
  have "bal (fold (\<lambda>v p. snd (earn v p)) vs (snd (earn v p))) =
      min max32 (bal (snd (earn v p)) + sum_list vs)"
    using Cons.prems by (intro Cons.IH solvent_earn) simp_all
  also have "bal (snd (earn v p)) = min max32 (bal p + v)"
    using Cons.prems by (simp add: earn_bal solvent_def)
  finally show ?case using nn by simp
qed

end

lemma add_capped_run:
  assumes "0 \<le> v" "in32 v" "0 \<le> sel (p_Info p)" "in32 (sel (p_Info p))"
  shows "snd (add_capped sel upd v p) =
    (if sel (p_Info p) + v \<le> max32
     then p\<lparr>p_Info := upd (\<lambda>_. sel (p_Info p) + v) (p_Info p), p_base_prop_chg := True\<rparr>
     else p\<lparr>p_Info := upd (\<lambda>_. max32) (p_Info p)\<rparr>)"
  using assms i32_add_overflow [of "sel (p_Info p)" v]
  by (auto simp: add_capped_def player_simps i32_range_id)

lemma sub_plain_run:
  assumes "0 \<le> v" "v \<le> sel (p_Info p)" "in32 (sel (p_Info p))"
  shows "sub_plain sel upd v p = (sel (p_Info p) - v,
    p\<lparr>p_Info := upd (\<lambda>_. sel (p_Info p) - v) (p_Info p), p_base_prop_chg := True\<rparr>)"
  using assms by (simp add: sub_plain_def player_simps i32_range_id in32_def)

lemma add_capped_neg: "v < 0 \<Longrightarrow> add_capped sel upd v p = (sel (p_Info p), p)"
  by (simp add: add_capped_def)

lemma sub_plain_neg: "v < 0 \<Longrightarrow> sub_plain sel upd v p = (sel (p_Info p), p)"
  by (simp add: sub_plain_def)

lemma capped_account:
  assumes "\<And>f i. sel (upd f i) = f (sel i)"
  shows "resource_account (\<lambda>p. sel (p_Info p)) (add_capped sel upd) (sub_plain sel upd)"
proof
  fix v p
  show "fst (add_capped sel upd v p) = sel (p_Info (snd (add_capped sel upd v p)))"
    using assms by (simp add: add_capped_def player_simps)
qed (simp_all add: add_capped_run sub_plain_run assms add_capped_neg sub_plain_neg)

interpretation gold: resource_account "\<lambda>p. i_Gold (p_Info p)" AddGold SubGold
  using capped_account [of i_Gold i_Gold_update] by (simp add: AddGold_def [abs_def] SubGold_def [abs_def])

interpretation friend_points: resource_account "\<lambda>p. i_FriendPoints (p_Info p)" AddFriendPoints SubFriendPoints
  using capped_account [of i_FriendPoints i_FriendPoints_update]
  by (simp add: AddFriendPoints_def [abs_def] SubFriendPoints_def [abs_def])

interpretation soul_stone: resource_account "\<lambda>p. i_SoulStone (p_Info p)" AddSoulStone SubSoulStone
  using capped_account [of i_SoulStone i_SoulStone_update]
  by (simp add: AddSoulStone_def [abs_def] SubSoulStone_def [abs_def])

interpretation charm_medal: resource_account "\<lambda>p. i_CharmMedal (p_Info p)" AddCharmMedal SubCharmMedal
  using capped_account [of i_CharmMedal i_CharmMedal_update]
  by (simp add: AddCharmMedal_def [abs_def] SubCharmMedal_def [abs_def])

lemma SubDiamond_run:
  assumes "0 \<le> v" "v \<le> i_Diamond (p_Info p)" "in32 (i_Diamond (p_Info p))"
  shows "SubDiamond v p = sub_plain i_Diamond i_Diamond_update v p"
  using assms by (simp add: SubDiamond_def Info_SubDiamond_def sub_plain_run Info_Set_def i32_range_id in32_def Let_def)

interpretation diamond: resource_account "\<lambda>p. i_Diamond (p_Info p)" AddDiamond SubDiamond
proof
  fix v p
  show "fst (AddDiamond v p) = i_Diamond (p_Info (snd (AddDiamond v p)))"
    by (simp add: AddDiamond_def add_capped_def player_simps)
next
  fix v :: int and p :: player
  assume "v < 0"
  then show "SubDiamond v p = (i_Diamond (p_Info p), p)" by (simp add: SubDiamond_def)
qed (simp_all add: AddDiamond_def add_capped_run SubDiamond_run sub_plain_run add_capped_neg)

interpretation cat_food: resource_account "\<lambda>p. i_CatFood (p_Info p)" AddCatFood SubCatFood
proof
  fix v p
  show "fst (AddCatFood v p) = i_CatFood (p_Info (snd (AddCatFood v p)))"
    by (simp add: AddCatFood_def add_capped_def player_simps)
qed (simp_all add: AddCatFood_def SubCatFood_def add_capped_run sub_plain_run add_capped_neg)

interpretation charm: resource_account "\<lambda>p. i_CharmVal (p_Info p)" "AddCharmVal e" SubCharmVal for e
proof
  fix v :: int and p :: player
  show "fst (AddCharmVal e v p) = i_CharmVal (p_Info (snd (AddCharmVal e v p)))"
    by (simp add: AddCharmVal_def Info_Incby_def Info_Set_def Let_def)
next
  fix v :: int and p :: player
  assume "0 \<le> v" "in32 v" "0 \<le> i_CharmVal (p_Info p)" "in32 (i_CharmVal (p_Info p))"
  then show "i_CharmVal (p_Info (snd (AddCharmVal e v p))) = min max32 (i_CharmVal (p_Info p) + v)"
    using i32_add_overflow [of "i_CharmVal (p_Info p)" v]
    by (auto simp: AddCharmVal_def Info_Incby_def Info_Set_def Let_def i32_range_id)
qed (auto simp: AddCharmVal_def SubCharmVal_def sub_plain_run)

subsection \<open>Paying a price\<close>

text \<open>The balance of a resource or item by its id, spirit as last saved.\<close>

definition res_val :: "player \<Rightarrow> int \<Rightarrow> int" where
  "res_val p k =
     (if k = 1 then 0
      else if k = 2 then i_Gold (p_Info p)
      else if k = 3 then i_Diamond (p_Info p)
      else if k = 4 then i_CatFood (p_Info p)
      else if k = 5 then i_Spirit (p_Info p)
      else if k = 6 then i_FriendPoints (p_Info p)
      else if k = 7 then i_CharmVal (p_Info p)
      else if k = 8 then i_Exp (p_Info p)
      else if k = 9 then i_SoulStone (p_Info p)
      else if k = 10 then i_CharmMedal (p_Info p)
      else get_item p k)"

text \<open>The ids a price may use: the plain resources (not money, spirit, experience) and the
  configured items.\<close>

definition payable :: "env \<Rightarrow> int \<Rightarrow> bool" where
  "payable e k \<longleftrightarrow> k \<noteq> 1 \<and> k \<noteq> 5 \<and> k \<noteq> 8 \<and> (k \<in> {2..10} \<or> item_map e k \<noteq> None)"

lemma res_val_frame:
  "p_Info q = p_Info p \<Longrightarrow> p_Items q = p_Items p \<Longrightarrow> res_val q k = res_val p k"
  by (simp add: res_val_def get_item_def GetItemNum_def)

lemma GetItemResourceValue_plain:
  "k \<noteq> 5 \<Longrightarrow> GetItemResourceValue e k p = Some (res_val p k, p)"
  by (simp add: GetItemResourceValue_def res_val_def)

lemma get_item_map_of: "get_item p k = (case map_of (p_Items p) k of None \<Rightarrow> 0 | Some d \<Rightarrow> ItemNum d)"
  by (simp add: get_item_def GetItemNum_def col_get_field_def split: option.split)

lemma ChkRemoveItem_exact:
  assumes "item_map e k = Some it" "0 \<le> v" "v \<le> get_item p k" "in32 (get_item p k)"
  shows "get_item (snd (ChkRemoveItem e k v p)) k = get_item p k - v"
    and "j \<noteq> k \<Longrightarrow> get_item (snd (ChkRemoveItem e k v p)) j = get_item p j"
    and "p_Info (snd (ChkRemoveItem e k v p)) = p_Info p"
  using assms
  by (auto simp: ChkRemoveItem_def get_item_map_of col_simps i32_range_id in32_def Let_def
      split: option.splits)

lemma RemoveItem_exact:
  assumes "item_map e k = Some it" "0 \<le> v" "v \<le> get_item p k" "in32 (get_item p k)"
  shows "get_item (snd (RemoveItem e k v b p)) k = get_item p k - v"
    and "j \<noteq> k \<Longrightarrow> get_item (snd (RemoveItem e k v b p)) j = get_item p j"
    and "p_Info (snd (RemoveItem e k v b p)) = p_Info p"
proof -
  obtain ok n p1 where c: "ChkRemoveItem e k v p = ((ok, n), p1)"
    by (metis prod.collapse)
  have item: "get_item (snd (RemoveItem e k v b p)) j = get_item p1 j"
    and info: "p_Info (snd (RemoveItem e k v b p)) = p_Info p1" for j
    by (simp_all add: RemoveItem_def assms(1) c Let_def get_item_map_of)
  show "get_item (snd (RemoveItem e k v b p)) k = get_item p k - v"
    and "j \<noteq> k \<Longrightarrow> get_item (snd (RemoveItem e k v b p)) j = get_item p j"
    and "p_Info (snd (RemoveItem e k v b p)) = p_Info p"
    unfolding item info using ChkRemoveItem_exact [OF assms] by (simp_all add: c)
qed

lemma RemoveItemResource_exact:
  assumes "payable e k" "0 \<le> v" "v \<le> res_val p k" "in32 (res_val p k)"
  shows "\<exists>r q. RemoveItemResource e k v p = Some (r, q) \<and> res_val q k = res_val p k - v
    \<and> (\<forall>j. j \<noteq> k \<longrightarrow> res_val q j = res_val p j)"
proof (cases "k \<in> {2..10}")
  case True
  then have "k \<in> {2, 3, 4, 6, 7, 9, 10}" using assms(1) unfolding payable_def by auto
  then consider "k = 2" | "k = 3" | "k = 4" | "k = 6" | "k = 7" | "k = 9" | "k = 10" by blast
  then show ?thesis
    using assms(2-4)
    by cases (simp_all add: RemoveItemResource_def res_val_def SubGold_def SubDiamond_run SubCatFood_def
        SubFriendPoints_def SubCharmVal_def SubSoulStone_def SubCharmMedal_def sub_plain_run
        get_item_map_of)
next
  case False
  then have k: "k \<noteq> 1" "k \<notin> {2..10}" using assms(1) by (auto simp: payable_def)
  then have rv: "res_val p k = get_item p k" for p by (auto simp: res_val_def)
  from k assms(1) obtain it where it: "item_map e k = Some it" by (auto simp: payable_def)
  let ?q = "snd (RemoveItem e k v True p)"
  have "\<exists>r. RemoveItemResource e k v p = Some (r, ?q)"
    using k by (auto simp: RemoveItemResource_def split: prod.split option.split)
  moreover note x = RemoveItem_exact [OF it, of v p] assms(2-4)
  have "res_val ?q k = res_val p k - v" using x unfolding rv by simp
  moreover have "res_val ?q j = res_val p j" if "j \<noteq> k" for j
    using x that unfolding rv by (simp add: res_val_def)
  ultimately show ?thesis by blast
qed

text \<open>The pairs of a flattened price.\<close>

fun pairs_of :: "int list \<Rightarrow> (int \<times> int) list" where
  "pairs_of (k # v # rs) = (k, v) # pairs_of rs"
| "pairs_of _ = []"

lemma ChkResEnough_True:
  assumes "ChkResEnough e rs p = Some (True, p')" "\<forall>(k, v) \<in> set (pairs_of rs). payable e k"
  shows "p' = p \<and> even (length rs) \<and> (\<forall>(k, v) \<in> set (pairs_of rs). v \<le> res_val p k)"
  using assms
  by (induction e rs p rule: ChkResEnough.induct)
     (auto simp: payable_def GetItemResourceValue_plain split: if_splits)

lemma RemoveResources_exact:
  assumes "even (length rs)" "distinct (map fst (pairs_of rs))"
    and "\<forall>(k, v) \<in> set (pairs_of rs). payable e k \<and> 0 \<le> v \<and> v \<le> res_val p k \<and> in32 (res_val p k)"
  shows "\<exists>q. RemoveResources e rs p = Some q
    \<and> (\<forall>(k, v) \<in> set (pairs_of rs). res_val q k = res_val p k - v)
    \<and> (\<forall>k. k \<notin> fst ` set (pairs_of rs) \<longrightarrow> res_val q k = res_val p k)"
  using assms
proof (induction rs arbitrary: p rule: pairs_of.induct)
  case (1 k v rs)
  obtain r p1 where p1: "RemoveItemResource e k v p = Some (r, p1)" "res_val p1 k = res_val p k - v"
    "\<And>j. j \<noteq> k \<Longrightarrow> res_val p1 j = res_val p j"
    using RemoveItemResource_exact [of e k v p] 1(4) by auto
  have rest: "k' \<noteq> k" if "(k', v') \<in> set (pairs_of rs)" for k' v'
    using that 1(3) by (force simp: image_iff)
  have "\<exists>q. RemoveResources e rs p1 = Some q
    \<and> (\<forall>(k, v) \<in> set (pairs_of rs). res_val q k = res_val p1 k - v)
    \<and> (\<forall>k. k \<notin> fst ` set (pairs_of rs) \<longrightarrow> res_val q k = res_val p1 k)"
  proof (rule 1(1))
    show "\<forall>(k, v) \<in> set (pairs_of rs). payable e k \<and> 0 \<le> v \<and> v \<le> res_val p1 k \<and> in32 (res_val p1 k)"
      using 1(4) p1(3) rest by fastforce
  qed (use 1(2,3) in simp_all)
  then obtain q where q: "RemoveResources e rs p1 = Some q"
    "\<forall>(k, v) \<in> set (pairs_of rs). res_val q k = res_val p1 k - v"
    "\<forall>k. k \<notin> fst ` set (pairs_of rs) \<longrightarrow> res_val q k = res_val p1 k" by blast
  have "k \<notin> fst ` set (pairs_of rs)" using 1(3) by simp
  with q(3) p1(2) have "res_val q k = res_val p k - v" by simp
  moreover have "res_val q k' = res_val p k' - v'" if "(k', v') \<in> set (pairs_of rs)" for k' v'
    using q(2) that p1(3) [OF rest [OF that]] by auto
  moreover have "res_val q k' = res_val p k'" if "k' \<noteq> k" "k' \<notin> fst ` set (pairs_of rs)" for k'
    using q(3) that p1(3) by simp
  ultimately show ?case using p1(1) q(1) by (intro exI [of _ q]) auto
qed auto

subsection \<open>Experience\<close>

text \<open>The experience the levels from \<open>l\<close> up to, not including, \<open>l'\<close> consume.\<close>

definition exp_between :: "env \<Rightarrow> int \<Rightarrow> int \<Rightarrow> int" where
  "exp_between e l l' = (\<Sum>i \<in> {l ..< l'}. lv_MaxExp (level_array e ! nat (i - 1)))"



lemma exp_between_refl [simp]: "exp_between e l l = 0"
  by (simp add: exp_between_def)


subsection \<open>The bag\<close>

text \<open>Every row of the bag is under its own id, configured, and holds between one and the largest
  number of that item (a timed item exactly one).\<close>

definition row_ok :: "env \<Rightarrow> int \<Rightarrow> item_data \<Rightarrow> bool" where
  "row_ok e k d \<longleftrightarrow> ItemCfgId d = k \<and> 1 \<le> ItemNum d \<and> (case item_map e k of
     None \<Rightarrow> False
   | Some it \<Rightarrow> if it_ValidTime it = 0 then ItemNum d \<le> it_MaxNumber it else ItemNum d = 1)"

definition bag_ok :: "env \<Rightarrow> player \<Rightarrow> bool" where
  "bag_ok e p \<longleftrightarrow> (\<forall>k d. map_of (p_Items p) k = Some d \<longrightarrow> row_ok e k d)"

definition items_cfg_ok :: "env \<Rightarrow> bool" where
  "items_cfg_ok e \<longleftrightarrow> (\<forall>k it. item_map e k = Some it \<longrightarrow> 1 \<le> it_MaxNumber it \<and> in32 (it_MaxNumber it))"

lemma bag_ok_frame: "p_Items q = p_Items p \<Longrightarrow> bag_ok e q = bag_ok e p"
  by (simp add: bag_ok_def)

lemma bag_ok_update: "bag_ok e p \<Longrightarrow> row_ok e k d \<Longrightarrow> bag_ok e (p\<lparr>p_Items := AList.update k d (p_Items p)\<rparr>)"
  by (simp add: bag_ok_def map_of_AList_update)

lemma bag_ok_delete: "bag_ok e p \<Longrightarrow> bag_ok e (p\<lparr>p_Items := AList.delete k (p_Items p)\<rparr>)"
  by (simp add: bag_ok_def map_of_AList_delete)

lemma bag_ok_ChkAdd:
  assumes "bag_ok e p" "items_cfg_ok e" "1 \<le> num"
    and "\<forall>it. item_map e k = Some it \<longrightarrow> it_MaxNumber it + num \<le> max32"
  shows "bag_ok e (snd (ChkAddItemByNum e k num p))"
proof (cases "item_map e k")
  case None
  with assms(1) show ?thesis by (simp add: ChkAddItemByNum_def)
next
  case (Some it)
  have cfg: "1 \<le> it_MaxNumber it" "it_MaxNumber it + num \<le> max32"
    using assms(2,4) Some by (simp_all add: items_cfg_ok_def)
  show ?thesis
  proof (cases "map_of (p_Items p) k")
    case None
    with Some cfg assms(3) show ?thesis
      by (auto simp: ChkAddItemByNum_def Let_def row_ok_def intro!: bag_ok_update [OF assms(1)])
  next
    case d: (Some d)
    then have "row_ok e k d" using assms(1) by (simp add: bag_ok_def)
    then have r: "ItemCfgId d = k" "1 \<le> ItemNum d"
      "it_ValidTime it = 0 \<Longrightarrow> i32 (ItemNum d + num) = ItemNum d + num"
      using Some cfg assms(3) by (auto simp: row_ok_def i32_range_id)
    with Some d cfg assms(3) show ?thesis
      by (auto simp: ChkAddItemByNum_def Let_def row_ok_def intro!: bag_ok_update [OF assms(1)])
  qed
qed

lemma bag_ok_ChkRemove:
  assumes "bag_ok e p" "items_cfg_ok e" "0 \<le> num" "in32 num"
  shows "bag_ok e (snd (ChkRemoveItem e k num p))"
proof (cases "map_of (p_Items p) k")
  case None
  with assms(1) show ?thesis by (simp add: ChkRemoveItem_def split: option.split)
next
  case (Some d)
  with assms(1) have r: "row_ok e k d" by (simp add: bag_ok_def)
  then obtain it where it: "item_map e k = Some it" by (auto simp: row_ok_def split: option.splits)
  have "1 \<le> it_MaxNumber it" "it_MaxNumber it \<le> max32"
    using assms(2) it by (simp_all add: items_cfg_ok_def in32_def)
  with r it assms(3) have "num < ItemNum d \<Longrightarrow> i32 (ItemNum d - num) = ItemNum d - num"
    by (intro i32_range_id) (auto simp: row_ok_def split: if_splits)
  with r it assms(3) have "num < ItemNum d \<Longrightarrow> row_ok e k (d\<lparr>ItemNum := i32 (ItemNum d - num)\<rparr>)"
    by (auto simp: row_ok_def)
  with it Some show ?thesis
    by (auto simp: ChkRemoveItem_def Let_def intro: bag_ok_update [OF assms(1)] bag_ok_delete [OF assms(1)])
qed

lemma AddItem_Items: "p_Items (snd (AddItem e k num b p)) = p_Items (snd (ChkAddItemByNum e k num p))"
  by (auto simp: AddItem_def ChkAddItemByNum_def Let_def split: option.split prod.split)

lemma RemoveItem_Items:
  "p_Items (snd (RemoveItem e k num b p)) = p_Items (snd (ChkRemoveItem e k num p))"
  by (auto simp: RemoveItem_def ChkRemoveItem_def Let_def split: option.split prod.split)

text \<open>Sequences of additions and removals.\<close>

datatype (plugins only: size) bag_op = Take int int | Put int int

fun bag_run :: "env \<Rightarrow> bag_op list \<Rightarrow> player \<Rightarrow> player" where
  "bag_run e [] p = p"
| "bag_run e (Put k n # ops) p = bag_run e ops (snd (AddItem e k n True p))"
| "bag_run e (Take k n # ops) p = bag_run e ops (snd (RemoveItem e k n True p))"

fun op_ok :: "env \<Rightarrow> bag_op \<Rightarrow> bool" where
  "op_ok e (Put k n) = (1 \<le> n \<and> (case item_map e k of None \<Rightarrow> True | Some it \<Rightarrow> it_MaxNumber it + n \<le> max32))"
| "op_ok e (Take k n) = (0 \<le> n \<and> in32 n)"

lemma bag_ok_run:
  "bag_ok e p \<Longrightarrow> items_cfg_ok e \<Longrightarrow> list_all (op_ok e) ops \<Longrightarrow> bag_ok e (bag_run e ops p)"
proof (induction e ops p rule: bag_run.induct)
  case (2 e k n ops p)
  have "bag_ok e (snd (AddItem e k n True p)) = bag_ok e (snd (ChkAddItemByNum e k n p))"
    by (rule bag_ok_frame) (rule AddItem_Items)
  with bag_ok_ChkAdd [OF 2(2,3)] 2 show ?case by (auto split: option.splits)
next
  case (3 e k n ops p)
  have "bag_ok e (snd (RemoveItem e k n True p)) = bag_ok e (snd (ChkRemoveItem e k n p))"
    by (rule bag_ok_frame) (rule RemoveItem_Items)
  with bag_ok_ChkRemove [OF 3(2,3)] 3 show ?case by simp
qed simp

subsection \<open>Selling\<close>

lemma send_items_Info [simp]: "p_Info (snd (send_items_update p)) = p_Info p"
  by simp

lemma sell_item_run:
  assumes "item_map e k = Some it" "map_of (p_Items p) k = Some d"
  shows "fst (sell_item e k n p) = 1
    \<and> map_of (p_Items (snd (sell_item e k n p))) k =
        (if ItemNum d > n then Some (d\<lparr>ItemNum := i32 (ItemNum d - n)\<rparr>) else None)
    \<and> (\<exists>p1. p_Info p1 = p_Info p \<and> i_Gold (p_Info (snd (sell_item e k n p)))
         = i_Gold (p_Info (snd (AddGold (i32 (it_SaleCoin it * n)) p1))))"
proof -
  let ?p0 = "snd (ChkRemoveItem e k n p)"
  let ?p1 = "snd (send_items_update (Send_msg (ItemInfoMsg
      \<lparr>ii_ItemCfgId = k, ii_ItemNum = n, ii_RemainSeconds = 0\<rparr>) (item_update e k ?p0)))"
  have ok: "fst (fst (ChkRemoveItem e k n p))" and i: "p_Info ?p0 = p_Info p"
    and m: "map_of (p_Items ?p0) k = (if ItemNum d > n then Some (d\<lparr>ItemNum := i32 (ItemNum d - n)\<rparr>) else None)"
    using assms by (simp_all add: ChkRemoveItem_def Let_def col_simps)
  have s: "sell_item e k n p = (1, Send_msg (S2CSellItemResult k n)
      (snd (AddGold (i32 (it_SaleCoin it * n)) ?p1)))"
    using assms(1) ok by (simp add: sell_item_def RemoveItem_def Let_def case_prod_beta)
  have g: "p_Items (snd (AddGold v p)) = p_Items p" for v p
    by (simp add: AddGold_def add_capped_def Info_Incby_def Info_Set_def Let_def)
  show ?thesis
    unfolding s using m i by (auto simp: g intro!: exI [of _ ?p1])
qed

section \<open>Properties\<close>

text \<open>
  Property C1. A price that is affordable is paid exactly. When \<open>ChkResEnough\<close> accepts a list of
  distinct payable resources and items with non-negative amounts, it has changed nothing, and
  \<open>RemoveResources\<close> then succeeds, lowers each balance by exactly its amount without going below
  zero, and leaves every other resource and item alone.
\<close>

theorem pay_exact:
  assumes "ChkResEnough e price p = Some (True, p')"
    and "distinct (map fst (pairs_of price))"
    and "\<forall>(k, v) \<in> set (pairs_of price). payable e k \<and> 0 \<le> v"
    and "\<forall>k. in32 (res_val p k)"
  shows "p' = p \<and> (\<exists>q. RemoveResources e price p = Some q
    \<and> (\<forall>(k, v) \<in> set (pairs_of price). res_val q k = res_val p k - v \<and> 0 \<le> res_val q k)
    \<and> (\<forall>k. k \<notin> fst ` set (pairs_of price) \<longrightarrow> res_val q k = res_val p k))"
proof -
  have "\<forall>(k, v) \<in> set (pairs_of price). payable e k" using assms(3) by blast
  from ChkResEnough_True [OF assms(1) this] have c: "p' = p" "even (length price)"
    "\<forall>(k, v) \<in> set (pairs_of price). v \<le> res_val p k" by simp_all
  have "\<forall>(k, v) \<in> set (pairs_of price). payable e k \<and> 0 \<le> v \<and> v \<le> res_val p k \<and> in32 (res_val p k)"
    using assms(3,4) c(3) by fastforce
  from RemoveResources_exact [OF c(2) assms(2) this] c(3) show ?thesis
    using c(1) by fastforce
qed

definition demo_item :: xml_item where
  "demo_item = \<lparr>it_CfgId = 1001, it_SaleCoin = 5, it_MaxNumber = 99, it_Type = 3, it_ValidTime = 0,
     it_Numbers = [], it_Gender = 0\<rparr>"

definition demo_item_env :: env where
  "demo_item_env = empty_env\<lparr>item_map := [1001 \<mapsto> demo_item], max_level := 3,
     level_array := [\<lparr>lv_MaxExp = 10, lv_MaxPower = 5, lv_MaxCattery = 0, lv_MaxFarm = 0, lv_FosteredSlot = 0, lv_FosterSlot = 0\<rparr>, \<lparr>lv_MaxExp = 20, lv_MaxPower = 6, lv_MaxCattery = 0, lv_MaxFarm = 0, lv_FosteredSlot = 0, lv_FosterSlot = 0\<rparr>,
       \<lparr>lv_MaxExp = 30, lv_MaxPower = 7, lv_MaxCattery = 0, lv_MaxFarm = 0, lv_FosteredSlot = 0, lv_FosterSlot = 0\<rparr>]\<rparr>"

definition demo_item_player :: player where
  "demo_item_player = empty_player\<lparr>p_Info := empty_info\<lparr>i_Gold := 100\<rparr>,
     p_Items := [(1001, \<lparr>ItemCfgId = 1001, ItemNum = 7, StartTimeUnix = 0, RemainSeconds = 0\<rparr>)]\<rparr>"

lemmas demo_item_defs = demo_item_env_def demo_item_def demo_item_player_def empty_env_def
  empty_player_def empty_info_def

lemma demo_res_val: "in32 (res_val demo_item_player k)"
  by (simp add: demo_item_defs res_val_def get_item_map_of in32_def)

lemma demo_price: "ChkResEnough demo_item_env [2, 40, 1001, 3] demo_item_player = Some (True, demo_item_player)"
  by (simp add: GetItemResourceValue_def demo_item_defs get_item_map_of)

lemma pay_exact_witness:
  "\<exists>q. RemoveResources demo_item_env [2, 40, 1001, 3] demo_item_player = Some q
     \<and> res_val q 2 = 60 \<and> res_val q 1001 = 4"
proof -
  have v: "res_val demo_item_player 2 = 100" "res_val demo_item_player 1001 = 7"
    by (simp_all add: demo_item_defs res_val_def get_item_map_of)
  have "payable demo_item_env 2" "payable demo_item_env 1001"
    by (simp_all add: payable_def demo_item_defs)
  then show ?thesis
    using pay_exact [OF demo_price] by (auto simp: demo_res_val v)
qed



text \<open>A gift so large that the sum wraps leaves a negative number, whatever the largest number is.\<close>

lemma gift_wraps:
  "bag_ok demo_item_env demo_item_player \<and> item_map demo_item_env 1001 = Some demo_item \<and>
   \<not> bag_ok demo_item_env (bag_run demo_item_env [Put 1001 max32] demo_item_player)"
proof -
  have "map_of (p_Items (bag_run demo_item_env [Put 1001 max32] demo_item_player)) 1001
      = Some \<lparr>ItemCfgId = 1001, ItemNum = - 2147483642, StartTimeUnix = 0, RemainSeconds = 0\<rparr>"
    by (simp add: AddItem_Items) (simp add: ChkAddItemByNum_def Let_def demo_item_defs i32_def)
  then have "\<not> bag_ok demo_item_env (bag_run demo_item_env [Put 1001 max32] demo_item_player)"
    by (fastforce simp: bag_ok_def row_ok_def)
  moreover have "bag_ok demo_item_env demo_item_player"
    by (auto simp: bag_ok_def row_ok_def demo_item_defs split: if_splits)
  ultimately show ?thesis by (simp add: demo_item_env_def)
qed

text \<open>
  Property C11. The bag stays well formed, in a table of items whose largest numbers are positive 32-bit
  values: after any sequence of additions of positive amounts that do not wrap together with the largest
  number of the item, and removals of non-negative amounts, every row of the bag is a configured item
  under its own id with at least one and at most the largest number of pieces (exactly one for a timed
  item).
\<close>

theorem bag_stays_ok:
  assumes "bag_ok e p" "items_cfg_ok e" "list_all (op_ok e) ops"
  shows "bag_ok e (bag_run e ops p)"
  using assms by (rule bag_ok_run)

lemma bag_stays_ok_witness:
  "bag_ok demo_item_env (bag_run demo_item_env [Put 1001 98, Take 1001 3, Put 5 1] demo_item_player)"
  by (rule bag_stays_ok)
     (auto simp: bag_ok_def row_ok_def items_cfg_ok_def demo_item_defs in32_def split: if_splits)

lemma add_capped_Items [simp]: "p_Items (snd (add_capped sel upd v p)) = p_Items p"
  by (simp add: add_capped_def player_simps)

lemma earn_others:
  assumes "k \<in> {2, 3, 4, 6, 7, 9, 10}" "j \<noteq> k"
  shows "\<exists>q. map_option snd (AddItemResource e k v p) = Some q \<and> res_val q j = res_val p j"
proof -
  from assms(1) consider "k = 2" | "k = 3" | "k = 4" | "k = 6" | "k = 7" | "k = 9" | "k = 10" by blast
  then show ?thesis using assms(2)
    by cases (simp_all add: AddItemResource_def res_val_def get_item_map_of add_capped_def Let_def
        Info_Incby_def Info_Set_def AddGold_def AddDiamond_def AddCatFood_def AddFriendPoints_def
        AddCharmVal_def AddSoulStone_def AddCharmMedal_def)
qed

text \<open>
  Property C12. Earning a resource is exact and capped: for gold, diamonds, cat food, friend points,
  charm, soul stones and charm medals, \<open>AddItemResource\<close> with a non-negative amount raises that
  balance, if it is not negative, by the amount, or to the largest \<open>int32\<close> when the sum would wrap, returns the new balance
  and changes no other resource and no item.
\<close>

theorem earn_exact:
  assumes "k \<in> {2, 3, 4, 6, 7, 9, 10}" "0 \<le> v" "in32 v" "0 \<le> res_val p k" "in32 (res_val p k)"
  shows "\<exists>q. AddItemResource e k v p = Some (min max32 (res_val p k + v), q)
    \<and> res_val q k = min max32 (res_val p k + v) \<and> (\<forall>j. j \<noteq> k \<longrightarrow> res_val q j = res_val p j)"
proof -
  have "\<exists>q. AddItemResource e k v p = Some (min max32 (res_val p k + v), q)
      \<and> res_val q k = min max32 (res_val p k + v)"
    using assms
    by (auto simp: AddItemResource_def res_val_def prod_eq_iff gold.earn_ret gold.earn_bal
        diamond.earn_ret diamond.earn_bal cat_food.earn_ret cat_food.earn_bal friend_points.earn_ret
        friend_points.earn_bal charm.earn_ret charm.earn_bal soul_stone.earn_ret soul_stone.earn_bal
        charm_medal.earn_ret charm_medal.earn_bal)
  then obtain q where q: "AddItemResource e k v p = Some (min max32 (res_val p k + v), q)"
    "res_val q k = min max32 (res_val p k + v)" by blast
  have "res_val q j = res_val p j" if "j \<noteq> k" for j
    using earn_others [OF assms(1) that, of e v p] q(1) by simp
  with q show ?thesis by blast
qed

lemma earn_exact_witness:
  "\<exists>q. AddItemResource demo_item_env 2 2147483600 demo_item_player = Some (2147483647, q)"
proof -
  have "res_val demo_item_player 2 = 100" by (simp add: res_val_def demo_item_defs)
  with earn_exact [of 2 2147483600 demo_item_player demo_item_env] show ?thesis
    by (auto simp: in32_def)
qed

text \<open>
  An honest sale: selling between one and all pieces of an item the player has lowers
  the count by exactly that number (the row goes when none is left) and credits the sale price
  times the number, up to the cap.
\<close>

theorem sell_item_exact:
  assumes "item_map e k = Some it" "map_of (p_Items p) k = Some d" "1 \<le> n" "n \<le> ItemNum d" "in32 (ItemNum d)"
    and "0 \<le> it_SaleCoin it" "it_SaleCoin it * n \<le> max32"
    and "0 \<le> i_Gold (p_Info p)" "in32 (i_Gold (p_Info p))"
  shows "fst (sell_item e k n p) = 1
    \<and> get_item (snd (sell_item e k n p)) k = ItemNum d - n
    \<and> i_Gold (p_Info (snd (sell_item e k n p))) = min max32 (i_Gold (p_Info p) + it_SaleCoin it * n)"
proof -
  have v0: "0 \<le> it_SaleCoin it * n" using assms(3,6) by simp
  with assms(7) have v: "0 \<le> it_SaleCoin it * n" "i32 (it_SaleCoin it * n) = it_SaleCoin it * n"
    "in32 (it_SaleCoin it * n)" by (simp_all add: i32_range_id in32_def del: mult_nonneg_nonneg)
  have left: "i32 (ItemNum d - n) = ItemNum d - n" using assms(3-5) by (simp add: in32_def i32_range_id)
  from sell_item_run [OF assms(1,2), of n] obtain p1 where
    r: "fst (sell_item e k n p) = 1"
      "map_of (p_Items (snd (sell_item e k n p))) k =
        (if ItemNum d > n then Some (d\<lparr>ItemNum := i32 (ItemNum d - n)\<rparr>) else None)"
      "p_Info p1 = p_Info p" "i_Gold (p_Info (snd (sell_item e k n p)))
         = i_Gold (p_Info (snd (AddGold (i32 (it_SaleCoin it * n)) p1)))" by blast
  have "i_Gold (p_Info (snd (sell_item e k n p))) = min max32 (i_Gold (p_Info p) + it_SaleCoin it * n)"
    unfolding r(4) v(2) using gold.earn_bal [OF v(1,3), of p1] r(3) assms(8,9) by simp
  with r(1,2) assms(3,4) left show ?thesis by (simp add: get_item_map_of)
qed

lemma sell_item_exact_witness:
  "i_Gold (p_Info (snd (sell_item demo_item_env 1001 3 demo_item_player))) = 115"
  using sell_item_exact [of demo_item_env 1001 demo_item demo_item_player
      "\<lparr>ItemCfgId = 1001, ItemNum = 7, StartTimeUnix = 0, RemainSeconds = 0\<rparr>" 3]
  by (simp add: demo_item_defs in32_def)

text \<open>
  What \<open>sell_item\<close> does not check. A player who asks to sell at least as many pieces
  as there are loses the row but is credited for the number asked, whatever the row held; and a
  negative number is accepted, credits nothing and raises the count. The handler passes the client's
  number through unchecked.
\<close>

theorem sell_item_unchecked:
  assumes "item_map e k = Some it" "map_of (p_Items p) k = Some d"
    and "0 \<le> i_Gold (p_Info p)" "in32 (i_Gold (p_Info p))"
  shows "(ItemNum d \<le> n \<longrightarrow> 0 \<le> it_SaleCoin it * n \<longrightarrow> it_SaleCoin it * n \<le> max32 \<longrightarrow>
      fst (sell_item e k n p) = 1 \<and> get_item (snd (sell_item e k n p)) k = 0
      \<and> i_Gold (p_Info (snd (sell_item e k n p))) = min max32 (i_Gold (p_Info p) + it_SaleCoin it * n))
    \<and> (n < 0 \<longrightarrow> 0 < it_SaleCoin it \<longrightarrow> - max32 \<le> it_SaleCoin it * n \<longrightarrow> 0 \<le> ItemNum d
      \<longrightarrow> ItemNum d - n \<le> max32 \<longrightarrow>
      fst (sell_item e k n p) = 1 \<and> get_item (snd (sell_item e k n p)) k = ItemNum d - n
      \<and> i_Gold (p_Info (snd (sell_item e k n p))) = i_Gold (p_Info p))"
proof -
  from sell_item_run [OF assms(1,2), of n] obtain p1 where
    r: "fst (sell_item e k n p) = 1"
      "map_of (p_Items (snd (sell_item e k n p))) k =
        (if ItemNum d > n then Some (d\<lparr>ItemNum := i32 (ItemNum d - n)\<rparr>) else None)"
      "p_Info p1 = p_Info p" "i_Gold (p_Info (snd (sell_item e k n p)))
         = i_Gold (p_Info (snd (AddGold (i32 (it_SaleCoin it * n)) p1)))" by blast
  have "ItemNum d \<le> n \<longrightarrow> 0 \<le> it_SaleCoin it * n \<longrightarrow> it_SaleCoin it * n \<le> max32 \<longrightarrow>
      fst (sell_item e k n p) = 1 \<and> get_item (snd (sell_item e k n p)) k = 0
      \<and> i_Gold (p_Info (snd (sell_item e k n p))) = min max32 (i_Gold (p_Info p) + it_SaleCoin it * n)"
    unfolding r(4) using gold.earn_bal [of "it_SaleCoin it * n" p1] r(1-3) assms(3,4)
    by (simp add: get_item_map_of i32_range_id in32_def)
  moreover have "n < 0 \<longrightarrow> 0 < it_SaleCoin it \<longrightarrow> - max32 \<le> it_SaleCoin it * n \<longrightarrow> 0 \<le> ItemNum d
      \<longrightarrow> ItemNum d - n \<le> max32 \<longrightarrow>
      fst (sell_item e k n p) = 1 \<and> get_item (snd (sell_item e k n p)) k = ItemNum d - n
      \<and> i_Gold (p_Info (snd (sell_item e k n p))) = i_Gold (p_Info p)"
  proof (intro impI)
    assume a: "n < 0" "0 < it_SaleCoin it" "- max32 \<le> it_SaleCoin it * n" "0 \<le> ItemNum d"
      "ItemNum d - n \<le> max32"
    have neg: "it_SaleCoin it * n < 0" using a(1,2) by (simp add: mult_pos_neg)
    then have "AddGold (i32 (it_SaleCoin it * n)) p1 = (i_Gold (p_Info p1), p1)"
      using a(3) gold.earn_neg [of "it_SaleCoin it * n" p1] by (simp add: i32_range_id)
    with r a show "fst (sell_item e k n p) = 1 \<and> get_item (snd (sell_item e k n p)) k = ItemNum d - n
      \<and> i_Gold (p_Info (snd (sell_item e k n p))) = i_Gold (p_Info p)"
      by (simp add: get_item_map_of i32_range_id)
  qed
  ultimately show ?thesis by (rule conjI)
qed

lemma sell_item_unchecked_witness:
  "i_Gold (p_Info (snd (sell_item demo_item_env 1001 1000000 demo_item_player))) = 5000100
   \<and> get_item (snd (sell_item demo_item_env 1001 (- 5) demo_item_player)) 1001 = 12"
  using sell_item_unchecked [of demo_item_env 1001 demo_item demo_item_player
      "\<lparr>ItemCfgId = 1001, ItemNum = 7, StartTimeUnix = 0, RemainSeconds = 0\<rparr>" 1000000]
    sell_item_unchecked [of demo_item_env 1001 demo_item demo_item_player
      "\<lparr>ItemCfgId = 1001, ItemNum = 7, StartTimeUnix = 0, RemainSeconds = 0\<rparr>" "- 5"]
  by (simp add: demo_item_defs in32_def)

end
