(* ===== verification/Rewards.thy ===== *)
theory Rewards
  imports Items
begin

text \<open>
  \<open>task_get_reward\<close> of \<open>game_server/player_task.go\<close>: the reward of a completed task is paid and the
  row is marked; an achievement with a successor leaves the column for the finished tasks.
\<close>

abbreviation (input) E_ERR_TASK_NOT_FOUND :: int where "E_ERR_TASK_NOT_FOUND \<equiv> -101600"
abbreviation (input) E_ERR_TASK_NOT_COMPLETE :: int where "E_ERR_TASK_NOT_COMPLETE \<equiv> -101601"
abbreviation (input) E_ERR_TASK_ALREADY_REWARDED :: int where "E_ERR_TASK_ALREADY_REWARDED \<equiv> -101603"

definition add_resources :: "env \<Rightarrow> int list \<Rightarrow> player \<Rightarrow> player option" where
  "add_resources e resources p = AddResources e resources p"

definition task_get_reward :: "env \<Rightarrow> int \<Rightarrow> player \<Rightarrow> (int \<times> player) option" where
  "task_get_reward e k p =
     (if Tasks_GetState p k = TASK_STATE_REWARD then Some (E_ERR_TASK_ALREADY_REWARDED, p)
      else case task_map e k of
        None \<Rightarrow> Some (E_ERR_TASK_NOT_FOUND, p)
      | Some task_cfg \<Rightarrow>
          let cur_val = Tasks_GetValue p k in
          if cur_val < tk_CompleteNum task_cfg then Some (E_ERR_TASK_NOT_COMPLETE, p)
          else do {
            p \<leftarrow> add_resources e (tk_Rewards task_cfg) p;
            let p = Tasks_Set k (\<lambda>d. d\<lparr>task_State := TASK_STATE_REWARD\<rparr>) p;
            let p = NotifyTaskValue k cur_val TASK_STATE_REWARD p;
            let p = Send_msg (S2CTaskRewardResponse k) p;
            let p = (if tk_Type task_cfg = TASK_TYPE_ACHIEVE \<and> tk_Next task_cfg > 0 then
                       check_notify_next_task e task_cfg
                         (p\<lparr>p_Tasks := col_Remove k (p_Tasks p),
                            p_FinishedTasks := snd (col_Add k () (p_FinishedTasks p))\<rparr>)
                     else p);
            Some (1, check_and_send_daily_task e p)
          })"

subsection \<open>A row that cannot be paid\<close>

text \<open>No reward is due for the key: the row is missing, marked, or below the goal \<open>c\<close>.\<close>

definition spent :: "int \<Rightarrow> int \<Rightarrow> player \<Rightarrow> bool" where
  "spent k c p \<longleftrightarrow> (case map_of (p_Tasks p) k of
     None \<Rightarrow> True | Some d \<Rightarrow> task_State d = TASK_STATE_REWARD \<or> task_Value d < c)"

lemma spent_frame: "p_Tasks q = p_Tasks p \<Longrightarrow> spent k c q = spent k c p"
  by (simp add: spent_def)

lemma reset_daily_cases:
  "map_of (reset_daily_loop ts m) k = map_of m k \<or>
   (\<exists>d. map_of (reset_daily_loop ts m) k = Some d \<and> task_Value d = 0)"
proof (induction ts m rule: reset_daily_loop.induct)
  case (2 k' t ts m)
  then show ?case
    by (cases "map_of m k'"; cases "k = k'") (auto simp: map_of_AList_update new_task_def)
qed simp

lemma spent_Chk: "spent k c p \<Longrightarrow> 0 < c \<Longrightarrow> spent k c (snd (ChkPlayerDailyTask e p))"
  using reset_daily_cases [of "daily_task_map e" "p_Tasks p" k]
  by (auto simp: spent_def ChkPlayerDailyTask_def ResetDailyTask_def Let_def)

lemma spent_Add: "spent k c p \<Longrightarrow> 0 < c \<Longrightarrow> spent k c (Tasks_Add j (new_task j 0) p)"
  by (simp add: spent_def Tasks_Add_def col_simps new_task_def)

lemma spent_back:
  assumes "spent k c p" "Tasks_GetState p j = TASK_STATE_COMPLETE"
  shows "spent k c (Tasks_Set j (\<lambda>d. d\<lparr>task_State := TASK_STATE_DOING\<rparr>) p)"
  using assms by (auto simp: spent_def Tasks_Set_def col_simps col_get_field_def split: option.splits)

lemma spent_fill_row:
  assumes "spent k c p" "0 < c"
  shows "spent k c (snd (fill_task_row typ t p))"
proof -
  let ?q = "if \<not> col_HasIndex (p_Tasks p) (tk_Id t) then Tasks_Add (tk_Id t) (new_task (tk_Id t) 0) p else p"
  have "spent k c ?q" using assms by (simp add: spent_Add)
  with spent_back [OF this] assms show ?thesis
    unfolding fill_task_row_def Let_def by (simp split: if_splits)
qed

lemma spent_fill_loop: "spent k c p \<Longrightarrow> 0 < c \<Longrightarrow> spent k c (snd (fill_task_loop typ ts p))"
  by (induction ts arbitrary: p) (simp_all add: case_prod_beta spent_fill_row)

lemma spent_Send: "spent k c p \<Longrightarrow> spent k c (Send_msg m p)"
  by (simp add: spent_def)

lemma spent_send_task: "spent k c p \<Longrightarrow> 0 < c \<Longrightarrow> spent k c (send_task e typ p)"
  by (simp add: send_task_def Let_def case_prod_beta fill_task_msg_def spent_Send spent_fill_loop spent_Chk)

lemma spent_check_and_send: "spent k c p \<Longrightarrow> 0 < c \<Longrightarrow> spent k c (check_and_send_daily_task e p)"
  by (simp add: check_and_send_daily_task_def case_prod_beta spent_Chk spent_send_task)

lemma spent_after_reward:
  assumes "task_map e k = Some t" "0 < tk_CompleteNum t" "task_get_reward e k p = Some (1, q)"
  shows "spent k (tk_CompleteNum t) q"
proof -
  from assms obtain p1 where "add_resources e (tk_Rewards t) p = Some p1"
    and q: "q = check_and_send_daily_task e
      (let p = Send_msg (S2CTaskRewardResponse k) (NotifyTaskValue k (Tasks_GetValue p k) TASK_STATE_REWARD
                 (Tasks_Set k (\<lambda>d. d\<lparr>task_State := TASK_STATE_REWARD\<rparr>) p1))
       in if tk_Type t = TASK_TYPE_ACHIEVE \<and> tk_Next t > 0 then
            check_notify_next_task e t
              (p\<lparr>p_Tasks := col_Remove k (p_Tasks p),
                 p_FinishedTasks := snd (col_Add k () (p_FinishedTasks p))\<rparr>)
          else p)"
    by (auto simp: task_get_reward_def Let_def bind_eq_Some_conv split: if_splits)
  have n: "p_Tasks (check_notify_next_task e t p) = p_Tasks p" for p
    by (simp add: check_notify_next_task_def Let_def split: option.split)
  show ?thesis
    unfolding q Let_def
    by (rule spent_check_and_send [OF _ assms(2)])
       (simp add: spent_def n col_simps Tasks_Set_def split: option.split)
qed

lemma spent_no_reward:
  assumes "task_map e k = Some t" "0 < tk_CompleteNum t" "spent k (tk_CompleteNum t) q"
  shows "task_get_reward e k q = Some (E_ERR_TASK_ALREADY_REWARDED, q)
    \<or> task_get_reward e k q = Some (E_ERR_TASK_NOT_COMPLETE, q)"
  using assms by (auto simp: task_get_reward_def spent_def col_get_field_def Let_def split: option.splits)

section \<open>Properties\<close>

text \<open>
  Property C3. A reward is paid at most once: after a successful \<open>task_get_reward\<close> for a task with
  a positive goal, asking again is refused with "already rewarded" or "not complete" and changes
  nothing, whether the row was marked, moved to the finished tasks or reset by a refresh meanwhile.
\<close>

theorem reward_at_most_once:
  assumes "task_map e k = Some t" "0 < tk_CompleteNum t" "task_get_reward e k p = Some (1, q)"
  shows "task_get_reward e k q = Some (E_ERR_TASK_ALREADY_REWARDED, q)
    \<or> task_get_reward e k q = Some (E_ERR_TASK_NOT_COMPLETE, q)"
  using spent_no_reward [OF assms(1,2) spent_after_reward [OF assms]] .

definition demo_done_player :: player where
  "demo_done_player = demo_task_player\<lparr>p_Tasks := [(7, new_task 7 3)]\<rparr>"

lemma demo_reward: "map_option fst (task_get_reward demo_task_env 7 demo_done_player) = Some 1"
  by (simp add: task_get_reward_def demo_done_player_def demo_task_player_def demo_task_env_def
      demo_task_def add_resources_def AddItemResource_def empty_env_def col_get_field_def new_task_def
      case_prod_beta)

lemma reward_at_most_once_witness:
  "\<exists>q. task_get_reward demo_task_env 7 demo_done_player = Some (1, q) \<and>
     (\<exists>r. task_get_reward demo_task_env 7 q = Some (r, q) \<and> r < 0)"
proof -
  from demo_reward obtain q where q: "task_get_reward demo_task_env 7 demo_done_player = Some (1, q)" by auto
  have "task_map demo_task_env 7 = Some demo_task" "0 < tk_CompleteNum demo_task"
    by (simp_all add: demo_task_env_def demo_task_def)
  from reward_at_most_once [OF this q] q show ?thesis by auto
qed

text \<open>
  Property C8. A due reward is paid and nothing else. \<open>task_get_reward\<close> succeeds exactly when the task is
  in the table, not marked as paid and completed, and its reward list can be added (adding it may panic,
  which is then the only panic). The resources, items and level afterwards are exactly those after
  adding the list, a task with a positive goal can no longer be paid, and an achievement that has a
  successor is entered among the finished tasks. In every other case the answer is the error for what is
  wrong (paid, unknown, not completed) and the player is unchanged.
\<close>

theorem reward_pays:
  "((\<exists>q. task_get_reward e k p = Some (1, q)) \<longleftrightarrow>
      (\<exists>t. task_map e k = Some t \<and> Tasks_GetState p k \<noteq> TASK_STATE_REWARD
         \<and> tk_CompleteNum t \<le> Tasks_GetValue p k \<and> AddResources e (tk_Rewards t) p \<noteq> None))
   \<and> (\<forall>t q. task_map e k = Some t \<longrightarrow> task_get_reward e k p = Some (1, q) \<longrightarrow>
      (\<exists>p1. AddResources e (tk_Rewards t) p = Some p1 \<and> p_Info q = p_Info p1 \<and> p_Items q = p_Items p1
         \<and> p_Level q = p_Level p1) \<and> (0 < tk_CompleteNum t \<longrightarrow> spent k (tk_CompleteNum t) q)
         \<and> (tk_Type t = TASK_TYPE_ACHIEVE \<and> 0 < tk_Next t \<longrightarrow> col_HasIndex (p_FinishedTasks q) k))
   \<and> (\<forall>r q. task_get_reward e k p = Some (r, q) \<longrightarrow> r \<noteq> 1 \<longrightarrow> q = p \<and>
        r = (if Tasks_GetState p k = TASK_STATE_REWARD then E_ERR_TASK_ALREADY_REWARDED
             else if task_map e k = None then E_ERR_TASK_NOT_FOUND else E_ERR_TASK_NOT_COMPLETE)
        \<and> (\<forall>t. r = E_ERR_TASK_NOT_COMPLETE \<longrightarrow> task_map e k = Some t \<longrightarrow> Tasks_GetValue p k < tk_CompleteNum t))
   \<and> (task_get_reward e k p = None \<longrightarrow>
        (\<exists>t. task_map e k = Some t \<and> tk_CompleteNum t \<le> Tasks_GetValue p k \<and> AddResources e (tk_Rewards t) p = None))"
proof -
  have pays: "(\<exists>q. task_get_reward e k p = Some (1, q)) \<longleftrightarrow>
      (\<exists>t. task_map e k = Some t \<and> Tasks_GetState p k \<noteq> TASK_STATE_REWARD
         \<and> tk_CompleteNum t \<le> Tasks_GetValue p k \<and> AddResources e (tk_Rewards t) p \<noteq> None)"
    by (auto simp: task_get_reward_def add_resources_def Let_def bind_eq_Some_conv split: if_splits option.splits)
  have s: "p_Info (Tasks_Set k u p) = p_Info p" "p_Items (Tasks_Set k u p) = p_Items p"
    "p_Level (Tasks_Set k u p) = p_Level p" for u and p :: player
    by (simp_all add: Tasks_Set_def)
  have n: "p_Info (NotifyTaskValue k v s p) = p_Info p" "p_Items (NotifyTaskValue k v s p) = p_Items p"
    "p_Level (NotifyTaskValue k v s p) = p_Level p" for v s p
    by (simp_all add: NotifyTaskValue_def)
  have effects: "(\<exists>p1. AddResources e (tk_Rewards t) p = Some p1 \<and> p_Info q = p_Info p1 \<and> p_Items q = p_Items p1
         \<and> p_Level q = p_Level p1) \<and> (0 < tk_CompleteNum t \<longrightarrow> spent k (tk_CompleteNum t) q)
         \<and> (tk_Type t = TASK_TYPE_ACHIEVE \<and> 0 < tk_Next t \<longrightarrow> col_HasIndex (p_FinishedTasks q) k)"
    if t: "task_map e k = Some t" and q: "task_get_reward e k p = Some (1, q)" for t q
  proof -
  from t q obtain p1 where p1: "AddResources e (tk_Rewards t) p = Some p1"
    by (auto simp: task_get_reward_def add_resources_def Let_def bind_eq_Some_conv split: if_splits)
  with t q have "p_Info q = p_Info p1 \<and> p_Items q = p_Items p1 \<and> p_Level q = p_Level p1
    \<and> (tk_Type t = TASK_TYPE_ACHIEVE \<and> 0 < tk_Next t \<longrightarrow> col_HasIndex (p_FinishedTasks q) k)"
    by (auto simp: task_get_reward_def add_resources_def Let_def s n col_simps
        task_only_frame [OF task_only_check_and_send] split: if_splits)
  with p1 spent_after_reward [OF t _ q]
  show ?thesis
    by blast
  qed
  have refused: "q = p \<and>
        r = (if Tasks_GetState p k = TASK_STATE_REWARD then E_ERR_TASK_ALREADY_REWARDED
             else if task_map e k = None then E_ERR_TASK_NOT_FOUND else E_ERR_TASK_NOT_COMPLETE)
        \<and> (\<forall>t. r = E_ERR_TASK_NOT_COMPLETE \<longrightarrow> task_map e k = Some t \<longrightarrow> Tasks_GetValue p k < tk_CompleteNum t)"
    if "task_get_reward e k p = Some (r, q)" "r \<noteq> 1" for r q
    using that by (auto simp: task_get_reward_def Let_def bind_eq_Some_conv split: if_splits option.splits)
  have panics: "\<exists>t. task_map e k = Some t \<and> tk_CompleteNum t \<le> Tasks_GetValue p k \<and> AddResources e (tk_Rewards t) p = None"
    if "task_get_reward e k p = None"
    using that by (auto simp: task_get_reward_def add_resources_def Let_def Option.bind_eq_None_conv
        split: if_splits option.splits)
  show ?thesis
    by (rule conjI [OF pays conjI [OF _ conjI]]) (intro allI impI, rule effects refused panics; assumption)+
qed

lemma reward_pays_witness:
  "\<exists>q. task_get_reward demo_task_env 7 demo_done_player = Some (1, q)
     \<and> i_Gold (p_Info q) = 50"
proof -
  have t: "task_map demo_task_env 7 = Some demo_task" "0 < tk_CompleteNum demo_task"
    by (simp_all add: demo_task_env_def demo_task_def)
  have d: "Tasks_GetState demo_done_player 7 \<noteq> TASK_STATE_REWARD"
    "tk_CompleteNum demo_task \<le> Tasks_GetValue demo_done_player 7"
    by (simp_all add: demo_done_player_def demo_task_def col_get_field_def new_task_def)
  have r: "AddResources demo_task_env (tk_Rewards demo_task) demo_done_player
      = Some (snd (AddGold 50 demo_done_player))"
    by (simp add: demo_task_def AddItemResource_def case_prod_beta)
  have "i_Gold (p_Info (snd (AddGold 50 demo_done_player))) = 50"
    using gold.earn_bal [of 50 demo_done_player]
    by (simp add: demo_done_player_def demo_task_player_def empty_player_def empty_info_def in32_def)
  moreover obtain q where "task_get_reward demo_task_env 7 demo_done_player = Some (1, q)"
    using reward_pays [of demo_task_env 7 demo_done_player] t d r by auto
  ultimately show ?thesis using reward_pays [of demo_task_env 7 demo_done_player] t r by auto
qed

end
