(* ===== verification/Cats.thy ===== *)
theory Cats
  imports Items
begin

text \<open>
  \<open>game_server/player_cat.go\<close>: feeding (experience and levels), raising the stars of a cat by
  consuming others, raising its skill, renaming, locking and decomposing, and the ability formulas.
  An index out of range and the use of a missing table row are panics (\<open>None\<close>).
\<close>

abbreviation (input) E_ERR_CAT_TABLE_DATA_NOT_FOUND :: int where "E_ERR_CAT_TABLE_DATA_NOT_FOUND \<equiv> -101100"
abbreviation (input) E_ERR_CAT_NOT_FOUND :: int where "E_ERR_CAT_NOT_FOUND \<equiv> -101101"
abbreviation (input) E_ERR_CAT_UPSTAR_FAILED :: int where "E_ERR_CAT_UPSTAR_FAILED \<equiv> -101106"
abbreviation (input) E_ERR_CAT_FOOD_NOT_ENOUGH :: int where "E_ERR_CAT_FOOD_NOT_ENOUGH \<equiv> -101110"
abbreviation (input) E_ERR_CAT_STAR_IS_MAX :: int where "E_ERR_CAT_STAR_IS_MAX \<equiv> -101111"
abbreviation (input) E_ERR_CAT_UPSTAR_COST_CAT_NOT_ENOUGH :: int where
  "E_ERR_CAT_UPSTAR_COST_CAT_NOT_ENOUGH \<equiv> -101112"
abbreviation (input) E_ERR_CAT_UPSTAR_COST_CAT_NOT_FOUND :: int where
  "E_ERR_CAT_UPSTAR_COST_CAT_NOT_FOUND \<equiv> -101113"
abbreviation (input) E_ERR_CAT_UPSTAR_COST_CAT_NOT_UNLOCK :: int where
  "E_ERR_CAT_UPSTAR_COST_CAT_NOT_UNLOCK \<equiv> -101114"
abbreviation (input) E_ERR_CAT_UPSTAR_COST_CAT_IS_USING :: int where
  "E_ERR_CAT_UPSTAR_COST_CAT_IS_USING \<equiv> -101115"
abbreviation (input) E_ERR_CAT_UPSTAR_COST_CAT_STAR_DIFF :: int where
  "E_ERR_CAT_UPSTAR_COST_CAT_STAR_DIFF \<equiv> -101116"
abbreviation (input) E_ERR_CAT_SKILL_LEVEL_IS_MAX :: int where "E_ERR_CAT_SKILL_LEVEL_IS_MAX \<equiv> -101117"
abbreviation (input) E_ERR_CAT_UPSKILL_COST_CAT_CANT_EMPTY :: int where
  "E_ERR_CAT_UPSKILL_COST_CAT_CANT_EMPTY \<equiv> -101118"
abbreviation (input) E_ERR_CAT_UPSKILL_COST_CAT_CANT_SELF :: int where
  "E_ERR_CAT_UPSKILL_COST_CAT_CANT_SELF \<equiv> -101119"
abbreviation (input) E_ERR_CAT_UPSKILL_COST_CAT_NOT_FOUND :: int where
  "E_ERR_CAT_UPSKILL_COST_CAT_NOT_FOUND \<equiv> -101120"
abbreviation (input) E_ERR_CAT_UPSKILL_COST_CAT_IS_USING :: int where
  "E_ERR_CAT_UPSKILL_COST_CAT_IS_USING \<equiv> -101121"
abbreviation (input) E_ERR_CAT_UPSKILL_COST_CAT_LOCKED :: int where
  "E_ERR_CAT_UPSKILL_COST_CAT_LOCKED \<equiv> -101122"
abbreviation (input) E_ERR_CAT_UPSKILL_NO_VALID_COST_CAT :: int where
  "E_ERR_CAT_UPSKILL_NO_VALID_COST_CAT \<equiv> -101123"
abbreviation (input) E_ERR_CAT_RENAME_CANT_USE_OLD :: int where "E_ERR_CAT_RENAME_CANT_USE_OLD \<equiv> -101124"
abbreviation (input) E_ERR_CAT_IS_BUSY :: int where "E_ERR_CAT_IS_BUSY \<equiv> -101125"
abbreviation (input) E_ERR_CAT_UPSTAR_LEVEL_NOT_ENOUGH :: int where
  "E_ERR_CAT_UPSTAR_LEVEL_NOT_ENOUGH \<equiv> -101126"
abbreviation (input) E_ERR_CAT_UPLEVL_NEED_UPSTAR :: int where "E_ERR_CAT_UPLEVL_NEED_UPSTAR \<equiv> -101127"
abbreviation (input) E_ERR_CAT_UPSKILL_NOT_ENOUGH_COIN :: int where
  "E_ERR_CAT_UPSKILL_NOT_ENOUGH_COIN \<equiv> -101128"

subsection \<open>Feeding\<close>

definition is_cat_level_max :: "int \<Rightarrow> xml_character \<Rightarrow> bool" where
  "is_cat_level_max next_level cat \<longleftrightarrow> int (length (ch_UpgradeExps cat)) \<le> next_level"

definition cat_level_need_exp :: "int \<Rightarrow> xml_character \<Rightarrow> int" where
  "cat_level_need_exp level cat = GetLevelExp cat level"

definition cat_level_up :: "int \<Rightarrow> xml_character \<Rightarrow> int \<Rightarrow> bool \<times> int" where
  "cat_level_up next_level cat curr_food =
     (let need_exp = GetLevelExp cat next_level in
      if need_exp < 0 then (False, 0)
      else if need_exp > curr_food then (False, 0)
      else (True, need_exp))"

definition feed_need_food :: "env \<Rightarrow> int \<Rightarrow> player \<Rightarrow> ((int \<times> int \<times> bool) \<times> player) option" where
  "feed_need_food e cat_id p =
     (case map_of (p_Cats p) cat_id of
        None \<Rightarrow> Some ((-1, -1, False), p)
      | Some d \<Rightarrow>
      (case cat_map e (cat_CfgId d) of
        None \<Rightarrow> Some ((-1, -1, False), p)
      | Some cat \<Rightarrow>
        if cat_Level d \<ge> GetStarMaxLevel cat (cat_Star d)
        then Some ((E_ERR_CAT_UPLEVL_NEED_UPSTAR, 0, False), p)
        else do {
          feed_cost \<leftarrow> go_nth (ch_FeedCosts cat) (cat_Level d - 1);
          if feed_cost > i_CatFood (p_Info p) then Some ((E_ERR_CAT_FOOD_NOT_ENOUGH, 0, False), p)
          else do {
            chance \<leftarrow> go_nth (ch_CriticalChances cat) (cat_Level d);
            r \<leftarrow> Int31n e (p_ndraws p) 10000;
            let p = p\<lparr>p_ndraws := Suc (p_ndraws p)\<rparr>;
            let is_critical = (chance > r);
            let missing = i32 (cat_level_need_exp (cat_Level d) cat - cat_Exp d);
            Some (if is_critical \<or> feed_cost > missing
                  then ((feed_cost, missing, if feed_cost \<ge> missing then False else is_critical), p)
                  else ((feed_cost, feed_cost, is_critical), p))
          }
        }))"

text \<open>The loop of \<open>feed_cat\<close> over the reached level and the spent experience; it returns them with
  the flags \<open>is_max_level\<close> and \<open>limited_bystar\<close>. A list is shorter than \<open>2 ^ 31\<close>, so the level
  does not wrap.\<close>

function feed_loop :: "xml_character \<Rightarrow> int \<Rightarrow> int \<Rightarrow> int \<Rightarrow> int \<Rightarrow> int \<times> int \<times> bool \<times> bool" where
  "feed_loop cat star_max avail curr_level total_cost_exp =
     (if is_cat_level_max curr_level cat then (curr_level, total_cost_exp, True, False)
      else if curr_level + 1 > star_max then (curr_level, total_cost_exp, False, True)
      else (case cat_level_up curr_level cat (i32 (avail - total_cost_exp)) of (ok, cost_exp) \<Rightarrow>
        if \<not> ok then (curr_level, total_cost_exp, False, False)
        else feed_loop cat star_max avail (curr_level + 1) (i32 (total_cost_exp + cost_exp))))"
  by auto
termination
  by (relation "measure (\<lambda>(cat, _, _, l, _). nat (int (length (ch_UpgradeExps cat)) - l))")
     (auto simp: is_cat_level_max_def)

declare feed_loop.simps [simp del]

text \<open>The second half of \<open>feed_cat\<close>, once a change of level or experience is certain.\<close>

definition feed_commit :: "env \<Rightarrow> int \<Rightarrow> xml_character \<Rightarrow> cat_data \<Rightarrow> int \<Rightarrow> int \<Rightarrow> int \<Rightarrow> bool \<Rightarrow>
    player \<Rightarrow> player" where
  "feed_commit e cat_id cat d curr_level curr_exp food is_max_level p =
     (let p = (if curr_level \<noteq> cat_Level d
               then Cats_Set cat_id (\<lambda>d. d\<lparr>cat_Level := curr_level\<rparr>) p else p);
          p = (if curr_exp \<noteq> cat_Exp d
               then Cats_Set cat_id (\<lambda>d. d\<lparr>cat_Exp := curr_exp\<rparr>) p else p);
          p = snd (SubCatFood food p);
          p = snd (send_cats_update (snd (cat_update cat_id p)));
          p = TaskUpdate e TASK_COMPLETE_TYPE_CAT_FEED False 0 1 p;
          p = (if cat_Level d \<noteq> curr_level
               then update_ouqi e cat_id
                      (TaskUpdate e TASK_COMPLETE_TYPE_CAT_LEVEL_UP True curr_level 1 p)
               else p)
      in if is_max_level
         then push_new ANOUNCEMENT_TYPE_CAT_FULL_LEVEL (ch_Id cat) curr_level 0 p else p)"

definition feed_cat :: "env \<Rightarrow> int \<Rightarrow> int \<Rightarrow> int \<Rightarrow> player \<Rightarrow> (int \<times> int \<times> int) \<times> player" where
  "feed_cat e cat_id food add_exp p =
     (case map_of (p_Cats p) cat_id of
        None \<Rightarrow> ((0, 0, -1), p)
      | Some d \<Rightarrow>
      (case cat_map e (cat_CfgId d) of
        None \<Rightarrow> ((0, 0, E_ERR_CAT_TABLE_DATA_NOT_FOUND), p)
      | Some cat \<Rightarrow>
        if food < 0 \<or> food > i_CatFood (p_Info p) then ((0, 0, E_ERR_CAT_FOOD_NOT_ENOUGH), p)
        else
          let old_level = cat_Level d;
              old_exp = cat_Exp d;
              (curr_level, total_cost_exp, is_max_level, limited_bystar) =
                feed_loop cat (GetStarMaxLevel cat (cat_Star d)) (i32 (old_exp + add_exp)) old_level 0;
              left = i32 (i32 (old_exp + add_exp) - total_cost_exp);
              next_level_need_exp = cat_level_need_exp curr_level cat;
              curr_exp = (if is_max_level then 0
                          else if limited_bystar \<and> left \<ge> next_level_need_exp
                            then i32 (next_level_need_exp - 1)
                          else left)
          in if curr_level = old_level \<and> curr_exp = old_exp then
               (if limited_bystar then ((0, 0, E_ERR_CAT_UPLEVL_NEED_UPSTAR), p) else ((0, 0, 0), p))
             else ((curr_level, curr_exp, 1),
               feed_commit e cat_id cat d curr_level curr_exp food is_max_level p)))"

text \<open>The handler \<open>C2SFeedCatHandler\<close> of \<open>player.go\<close> after its message is decoded.\<close>

definition C2SFeedCat :: "env \<Rightarrow> int \<Rightarrow> player \<Rightarrow> (int \<times> player) option" where
  "C2SFeedCat e cat_id p = do {
     ((need_food, add_exp, is_critical), p) \<leftarrow> feed_need_food e cat_id p;
     if need_food \<le> 0 then Some (need_food, p)
     else (case feed_cat e cat_id need_food add_exp p of ((curr_level, curr_exp, err), p) \<Rightarrow>
       if err < 0 then Some (err, p)
       else Some (1, Send_msg (S2CCatFeedResult cat_id curr_level curr_exp is_critical) p))
   }"

subsection \<open>Skill levels\<close>

text \<open>The checking loop of \<open>cat_skill_levelup\<close>: it counts a level for each consumed cat and stops
  at the largest; an id that is not positive passes unchecked. \<open>Inl\<close> is an early return.\<close>

fun skill_cost_loop :: "xml_character \<Rightarrow> player \<Rightarrow> int \<Rightarrow> int list \<Rightarrow> int \<Rightarrow> int + int" where
  "skill_cost_loop cat p cat_id [] up_level = Inr up_level"
| "skill_cost_loop cat p cat_id (c # cs) up_level =
     (if cat_id = c then Inl E_ERR_CAT_UPSKILL_COST_CAT_CANT_SELF
      else if up_level \<ge> GetMaxSkillLevel cat then Inr up_level
      else if c > 0 then
        (case map_of (p_Cats p) c of
           None \<Rightarrow> Inl E_ERR_CAT_UPSKILL_COST_CAT_NOT_FOUND
         | Some d \<Rightarrow>
             if IfCatBusy p c then Inl E_ERR_CAT_UPSKILL_COST_CAT_IS_USING
             else if cat_Locked d > 0 then Inl E_ERR_CAT_UPSKILL_COST_CAT_LOCKED
             else if \<not> List.member (ch_UpSkills cat) (cat_CfgId d)
               then Inl E_ERR_CAT_UPSKILL_NO_VALID_COST_CAT
             else skill_cost_loop cat p cat_id cs (i32 (up_level + 1)))
      else skill_cost_loop cat p cat_id cs (i32 (up_level + 1)))"

text \<open>\<open>None\<close> as the list is Go's nil.\<close>

definition skill_up_level :: "xml_character \<Rightarrow> player \<Rightarrow> int \<Rightarrow> int list option \<Rightarrow> int \<Rightarrow> int + int" where
  "skill_up_level cat p cat_id cost_cat_ids skill_level =
     (case cost_cat_ids of
        None \<Rightarrow> Inr (i32 (skill_level + 1))
      | Some ids \<Rightarrow>
          if ids = [] then Inl E_ERR_CAT_UPSKILL_COST_CAT_CANT_EMPTY
          else skill_cost_loop cat p cat_id ids skill_level)"

definition consume_cats :: "int list \<Rightarrow> player \<Rightarrow> player" where
  "consume_cats ids p = fold (\<lambda>c p. snd (SubCat c p)) ids p"

definition cat_skill_levelup :: "env \<Rightarrow> int \<Rightarrow> int list option \<Rightarrow> player \<Rightarrow> int \<times> player" where
  "cat_skill_levelup e cat_id cost_cat_ids p =
     (case map_of (p_Cats p) cat_id of
        None \<Rightarrow> (E_ERR_CAT_NOT_FOUND, p)
      | Some d \<Rightarrow>
      (case cat_map e (cat_CfgId d) of
        None \<Rightarrow> (E_ERR_CAT_TABLE_DATA_NOT_FOUND, p)
      | Some cat \<Rightarrow>
        let skill_level = cat_SkillLevel d;
            cost_coin = GetSkillLevelCostCoin cat skill_level
        in if skill_level \<ge> GetMaxSkillLevel cat then (E_ERR_CAT_SKILL_LEVEL_IS_MAX, p)
           else if cost_coin > i_Gold (p_Info p) then (E_ERR_CAT_UPSKILL_NOT_ENOUGH_COIN, p)
           else (case skill_up_level cat p cat_id cost_cat_ids skill_level of
               Inl err \<Rightarrow> (err, p)
             | Inr up_level \<Rightarrow>
                 let p = Cats_Set cat_id (\<lambda>d. d\<lparr>cat_SkillLevel := up_level\<rparr>) p;
                     p = consume_cats
                           (filter (\<lambda>c. c > 0) (case cost_cat_ids of None \<Rightarrow> [] | Some ids \<Rightarrow> ids)) p;
                     p = (if cost_coin > 0 then snd (SubGold cost_coin p) else p);
                     p = SendCatsUpdate (snd (cat_update cat_id p));
                     p = Send_msg (S2CCatSkillLevelUpResult cat_id up_level) p;
                     p = TaskUpdate e TASK_COMPLETE_TYPE_CAT_UP_SKILL_LEVEL True up_level 1 p
                 in (up_level, p))))"

text \<open>The handler refuses a nil list.\<close>

definition C2SCatSkillLevelUp :: "env \<Rightarrow> int \<Rightarrow> int list option \<Rightarrow> player \<Rightarrow> int \<times> player" where
  "C2SCatSkillLevelUp e cat_id ids p =
     (if ids = None then (-1, p) else cat_skill_levelup e cat_id ids p)"

subsection \<open>Stars\<close>

text \<open>The checking loop of \<open>cat_upstar\<close> over the cats to consume; it counts those of the same kind.\<close>

fun upstar_cost_loop :: "player \<Rightarrow> int \<Rightarrow> int \<Rightarrow> int list \<Rightarrow> int + int" where
  "upstar_cost_loop p curr_star cat_cid [] = Inr 0"
| "upstar_cost_loop p curr_star cat_cid (c # cs) =
     (case map_of (p_Cats p) c of
        None \<Rightarrow> Inl E_ERR_CAT_UPSTAR_COST_CAT_NOT_FOUND
      | Some d \<Rightarrow>
          if IfCatBusy p c then Inl E_ERR_CAT_UPSTAR_COST_CAT_IS_USING
          else if cat_Locked d > 0 then Inl E_ERR_CAT_UPSTAR_COST_CAT_NOT_UNLOCK
          else if cat_Star d \<noteq> curr_star then Inl E_ERR_CAT_UPSTAR_COST_CAT_STAR_DIFF
          else (case upstar_cost_loop p curr_star cat_cid cs of
              Inl err \<Rightarrow> Inl err
            | Inr n \<Rightarrow> Inr (if cat_CfgId d = cat_cid then n + 1 else n)))"

text \<open>The skill levels given for consumed cats of the same kind: at most \<open>n\<close>, up to the largest.\<close>

fun upstar_skill_loop :: "env \<Rightarrow> xml_character \<Rightarrow> int \<Rightarrow> nat \<Rightarrow> player \<Rightarrow> player" where
  "upstar_skill_loop e cat cat_id 0 p = p"
| "upstar_skill_loop e cat cat_id (Suc n) p =
     (if fst (col_get_field cat_SkillLevel 0 (p_Cats p) cat_id) \<ge> GetMaxSkillLevel cat then p
      else upstar_skill_loop e cat cat_id n (snd (cat_skill_levelup e cat_id None p)))"

text \<open>A missing row of the cat table is a panic: the log call reads a field of the nil row.\<close>

definition cat_upstar :: "env \<Rightarrow> int \<Rightarrow> int list \<Rightarrow> player \<Rightarrow> (int \<times> player) option" where
  "cat_upstar e cat_id cost_cat_ids p =
     (case map_of (p_Cats p) cat_id of
        None \<Rightarrow> Some (E_ERR_CAT_NOT_FOUND, p)
      | Some d \<Rightarrow>
      (case cat_map e (cat_CfgId d) of
        None \<Rightarrow> None
      | Some cat \<Rightarrow>
        let curr_star = cat_Star d in
        if curr_star \<ge> GetMaxStar cat then Some (E_ERR_CAT_STAR_IS_MAX, p)
        else do {
          need_level \<leftarrow> go_nth (ch_UpstarMaxLevels cat) (curr_star - 1);
          let need_cat_num = GetUpstarCostCatNum cat curr_star;
          let cost_coin = GetStarCostCoin cat curr_star;
          let used = take (nat need_cat_num) cost_cat_ids;
          if cat_Level d < need_level then Some (E_ERR_CAT_UPSTAR_LEVEL_NOT_ENOUGH, p)
          else if need_cat_num > 0 \<and> int (length cost_cat_ids) < need_cat_num
            then Some (E_ERR_CAT_UPSTAR_COST_CAT_NOT_ENOUGH, p)
          else if cost_coin > i_Gold (p_Info p) then Some (E_ERR_CAT_UPSTAR_FAILED, p)
          else (case upstar_cost_loop p curr_star (cat_CfgId d) used of
              Inl err \<Rightarrow> Some (err, p)
            | Inr same_num \<Rightarrow>
                let star = i32 (curr_star + 1);
                    p = Cats_Set cat_id (\<lambda>d. d\<lparr>cat_Star := star\<rparr>) p;
                    p = consume_cats used p;
                    p = snd (SubGold cost_coin p);
                    p = upstar_skill_loop e cat cat_id (nat same_num) p;
                    p = SendCatsUpdate (snd (cat_update cat_id p));
                    p = Send_msg (S2CCatUpgradeStarResult cat_id star) p;
                    p = TaskUpdate e TASK_COMPLETE_TYPE_CAT_UP_STAR False star 1 p
                in Some (1, update_ouqi e cat_id p))
        }))"

subsection \<open>Names, locks, decomposing\<close>

definition rename_cat :: "int \<Rightarrow> string \<Rightarrow> player \<Rightarrow> int \<times> player" where
  "rename_cat cat_id new_nick p =
     (case map_of (p_Cats p) cat_id of
        None \<Rightarrow> (E_ERR_CAT_NOT_FOUND, p)
      | Some d \<Rightarrow>
          if new_nick = cat_Nick d then (E_ERR_CAT_RENAME_CANT_USE_OLD, p)
          else
            let p = Cats_Set cat_id (\<lambda>d. d\<lparr>cat_Nick := new_nick\<rparr>) p;
                p = SendCatsUpdate (snd (cat_update cat_id p))
            in (1, Send_msg (S2CCatRenameNickResult cat_id new_nick) p))"

definition lock_cat :: "int \<Rightarrow> bool \<Rightarrow> player \<Rightarrow> int \<times> player" where
  "lock_cat cat_id is_lock p =
     (case map_of (p_Cats p) cat_id of
        None \<Rightarrow> (E_ERR_CAT_NOT_FOUND, p)
      | Some d \<Rightarrow>
          if (cat_Locked d \<noteq> 0) = is_lock then (E_ERR_CAT_UPSKILL_COST_CAT_LOCKED, p)
          else
            let p = Cats_Set cat_id (\<lambda>d. d\<lparr>cat_Locked := (if is_lock then 1 else 0)\<rparr>) p;
                p = snd (send_cats_update (snd (cat_update cat_id p)))
            in (1, Send_msg (S2CCatLockResult cat_id is_lock) p))"

fun decompose_loop :: "env \<Rightarrow> player \<Rightarrow> int list \<Rightarrow> int \<Rightarrow> int + int" where
  "decompose_loop e p [] add_stone = Inr add_stone"
| "decompose_loop e p (c # cs) add_stone =
     (case map_of (p_Cats p) c of
        None \<Rightarrow> Inl E_ERR_CAT_NOT_FOUND
      | Some d \<Rightarrow>
          if IfCatBusy p c then Inl E_ERR_CAT_IS_BUSY
          else (case cat_map e (cat_CfgId d) of
              None \<Rightarrow> Inl E_ERR_CAT_TABLE_DATA_NOT_FOUND
            | Some cat \<Rightarrow> decompose_loop e p cs (i32 (add_stone + ch_Stone cat))))"

definition decompose_cat :: "env \<Rightarrow> int list \<Rightarrow> player \<Rightarrow> int \<times> player" where
  "decompose_cat e cat_ids p =
     (if cat_ids = [] then (-1, p)
      else (case decompose_loop e p cat_ids 0 of
          Inl err \<Rightarrow> (err, p)
        | Inr add_stone \<Rightarrow>
            let p = SendCatsUpdate (consume_cats cat_ids p);
                p = snd (AddSoulStone add_stone p)
            in (1, Send_msg (S2CCatDecomposeResult cat_ids add_stone) p)))"

text \<open>\<open>Player.send_cats_update\<close>, distinct from the change list's operation of that name.\<close>

definition Player_send_cats_update :: "int list \<Rightarrow> player \<Rightarrow> int \<times> player" where
  "Player_send_cats_update cat_ids p =
     (if cat_ids = [] then (0, p)
      else (i32 (int (length cat_ids)),
            SendCatsUpdate (fold (\<lambda>c p. snd (cat_update c p)) cat_ids p)))"

subsection \<open>Abilities\<close>

text \<open>The common formula of the three abilities; \<open>adds\<close> is the bonus per star.\<close>

definition ability_formula :: "xml_character \<Rightarrow> int list \<Rightarrow> int \<Rightarrow> cat_data \<Rightarrow> int" where
  "ability_formula cat adds ability d =
     (let add_ouqi = (if int (length adds) \<ge> cat_Star d \<and> cat_Star d \<ge> 1
                      then adds ! nat (cat_Star d - 1) else 0)
      in i32 (i32 (i32 (i32 (ch_GrowthRate cat * cat_Level d) sdiv 100 + ability)
           + i32 (i32 (ability * ch_InitialRate cat) * i32 (cat_Level d - 1)) sdiv 100) + add_ouqi))"

definition get_cat_coin_ability :: "xml_character \<Rightarrow> cat_data \<Rightarrow> int" where
  "get_cat_coin_ability cat d = ability_formula cat (ch_AddCoins cat) (cat_CoinAbility d) d"

definition get_cat_match_ability :: "xml_character \<Rightarrow> cat_data \<Rightarrow> int" where
  "get_cat_match_ability cat d = ability_formula cat (ch_AddMatchs cat) (cat_MatchAbility d) d"

definition get_cat_explore_ability :: "xml_character \<Rightarrow> cat_data \<Rightarrow> int" where
  "get_cat_explore_ability cat d = ability_formula cat (ch_AddExplores cat) (cat_ExploreAbility d) d"

definition Player_get_cat_match_ability :: "env \<Rightarrow> player \<Rightarrow> int \<Rightarrow> int option" where
  "Player_get_cat_match_ability e p cat_id =
     (case map_of (p_Cats p) cat_id of
        None \<Rightarrow> Some 0
      | Some d \<Rightarrow> map_option (\<lambda>cat. get_cat_match_ability cat d) (cat_map e (cat_CfgId d)))"

text \<open>\<open>get_player_cat_info\<close>: \<open>owner\<close> is the player of that id on this server, if any.\<close>

definition get_player_cat_info :: "player option \<Rightarrow> int \<Rightarrow> int \<Rightarrow> player \<Rightarrow> int \<times> player" where
  "get_player_cat_info owner player_id cat_id p =
     (case owner of
        None \<Rightarrow> (1, Send_msg (S2CPlayerCatInfoResult [player_id, cat_id, 0, 0, 0, 0, 0, 0, 0]) p)
      | Some op \<Rightarrow>
      (case map_of (p_Cats op) cat_id of
        None \<Rightarrow> (E_ERR_CAT_NOT_FOUND, p)
      | Some d \<Rightarrow> (1, Send_msg (S2CPlayerCatInfoResult [player_id, cat_id, cat_Level d, cat_Exp d,
            cat_Star d, cat_SkillLevel d, cat_CoinAbility d, cat_MatchAbility d, cat_ExploreAbility d]) p)))"

subsection \<open>What consuming does\<close>

lemma SubCat_Cats: "map_of (p_Cats (snd (SubCat c p))) k = (if k = c then None else map_of (p_Cats p) k)"
  by (simp add: SubCat_def col_simps)

lemma SubCat_Info [simp]: "p_Info (snd (SubCat c p)) = p_Info p"
  by (simp add: SubCat_def)

lemma consume_Cats:
  "map_of (p_Cats (consume_cats ids p)) k = (if k \<in> set ids then None else map_of (p_Cats p) k)"
  unfolding consume_cats_def by (induction ids arbitrary: p) (auto simp: SubCat_Cats)

lemma consume_Info [simp]: "p_Info (consume_cats ids p) = p_Info p"
  unfolding consume_cats_def by (induction ids arbitrary: p) simp_all

lemma Cats_Set_Cats: "map_of (p_Cats (Cats_Set c u p)) k =
    (if k = c then map_option u (map_of (p_Cats p) c) else map_of (p_Cats p) k)"
  by (simp add: Cats_Set_def col_simps split: option.split)

lemma Cats_Set_Info [simp]: "p_Info (Cats_Set c u p) = p_Info p"
  by (simp add: Cats_Set_def)

lemma Gold_Cats [simp]: "p_Cats (snd (SubGold v p)) = p_Cats p"
  and Food_Cats [simp]: "p_Cats (snd (SubCatFood v p)) = p_Cats p"
  and Stone_Cats [simp]: "p_Cats (snd (AddSoulStone v p)) = p_Cats p"
  by (simp_all add: SubGold_def SubCatFood_def AddSoulStone_def add_capped_def sub_plain_def player_simps)

lemma ouqi_Cats [simp]: "p_Cats (update_ouqi e c p) = p_Cats p" "p_Info (update_ouqi e c p) = p_Info p"
  by (simp_all add: update_ouqi_def)

subsection \<open>The feeding loop\<close>

text \<open>The experience that takes a cat from level \<open>l\<close> to level \<open>l'\<close>.\<close>

definition cat_exp_between :: "xml_character \<Rightarrow> int \<Rightarrow> int \<Rightarrow> int" where
  "cat_exp_between cat l l' = (\<Sum>i \<in> {l ..< l'}. ch_UpgradeExps cat ! nat (i - 1))"

lemma cat_exp_between_step: "l < l' \<Longrightarrow>
  cat_exp_between cat l l' = ch_UpgradeExps cat ! nat (l - 1) + cat_exp_between cat (l + 1) l'"
proof -
  assume "l < l'"
  then have "{l ..< l'} = insert l {l + 1 ..< l'}" by auto
  then show ?thesis by (simp add: cat_exp_between_def)
qed

lemma cat_exp_between_refl [simp]: "cat_exp_between cat l l = 0"
  by (simp add: cat_exp_between_def)

definition cat_exps_ok :: "xml_character \<Rightarrow> bool" where
  "cat_exps_ok cat \<longleftrightarrow> (\<forall>x \<in> set (ch_UpgradeExps cat). 1 \<le> x \<and> in32 x)"

lemma feed_loop_spec:
  assumes "cat_exps_ok cat" "1 \<le> l" "0 \<le> t" "t \<le> avail" "in32 avail"
    and "feed_loop cat cap avail l t = (l', t', mx, lim)"
  shows "l \<le> l' \<and> l' \<le> max l cap \<and> t' = t + cat_exp_between cat l l' \<and> t' \<le> avail \<and> 0 \<le> t'
    \<and> (mx \<longleftrightarrow> int (length (ch_UpgradeExps cat)) \<le> l') \<and> (lim \<longrightarrow> cap \<le> l')
    \<and> (\<not> mx \<and> \<not> lim \<longrightarrow> avail - t' < GetLevelExp cat l')"
  using assms
proof (induction cat cap avail l t rule: feed_loop.induct)
  case (1 cat cap avail l t)
  show ?case
  proof (cases "is_cat_level_max l cat \<or> l + 1 > cap")
    case True
    then show ?thesis using 1(3-7)
      by (subst (asm) feed_loop.simps) (auto simp: is_cat_level_max_def split: if_splits)
  next
    case False
    then have len: "l < int (length (ch_UpgradeExps cat))" by (simp add: is_cat_level_max_def)
    let ?need = "ch_UpgradeExps cat ! nat (l - 1)"
    have lev: "GetLevelExp cat l = ?need" using len 1(3) by (simp add: GetLevelExp_def one_based_def)
    have "?need \<in> set (ch_UpgradeExps cat)" using len 1(3) by simp
    then have need: "1 \<le> ?need" "in32 ?need" using 1(2) by (auto simp: cat_exps_ok_def)
    have av: "i32 (avail - t) = avail - t" using 1(4-6) by (simp add: i32_range_id in32_def)
    show ?thesis
    proof (cases "?need \<le> avail - t")
      case no: False
      then show ?thesis using False 1(3-7) need lev av
        by (subst (asm) feed_loop.simps) (auto simp: cat_level_up_def Let_def is_cat_level_max_def)
    next
      case yes: True
      have up: "cat_level_up l cat (i32 (avail - t)) = (True, ?need)"
        using yes need lev av by (simp add: cat_level_up_def Let_def)
      have t: "i32 (t + ?need) = t + ?need" using yes 1(4,6) need by (simp add: i32_range_id in32_def)
      have step: "feed_loop cat cap avail (l + 1) (t + ?need) = (l', t', mx, lim)"
        using 1(7) False up t by (subst (asm) feed_loop.simps) simp
      note ih = 1(1) [OF _ _ up [symmetric], unfolded t]
      have "l + 1 \<le> l' \<and> l' \<le> max (l + 1) cap \<and> t' = t + ?need + cat_exp_between cat (l + 1) l'
        \<and> t' \<le> avail \<and> 0 \<le> t' \<and> (mx \<longleftrightarrow> int (length (ch_UpgradeExps cat)) \<le> l') \<and> (lim \<longrightarrow> cap \<le> l')
        \<and> (\<not> mx \<and> \<not> lim \<longrightarrow> avail - t' < GetLevelExp cat l')"
        by (rule ih) (use False 1(2-6) yes need step in simp_all)
      moreover from this have "t' = t + cat_exp_between cat l l'" "l \<le> l'" "l' \<le> max l cap"
        using False cat_exp_between_step [of l l' cat] by auto
      ultimately show ?thesis by blast
    qed
  qed
qed

lemma feed_commit_run:
  assumes "map_of (p_Cats p) c = Some d"
  shows "map_of (p_Cats (feed_commit e c cat d l x food b p)) =
      (map_of (p_Cats p))(c \<mapsto> d\<lparr>cat_Level := l, cat_Exp := x\<rparr>)"
    and "p_Info (feed_commit e c cat d l x food b p) = p_Info (snd (SubCatFood food p))"
proof -
  have I: "p_Info (snd (SubCatFood food (Cats_Set k u p'))) = p_Info (snd (SubCatFood food p'))" for k u p'
    by (simp add: SubCatFood_def sub_plain_def player_simps)
  have m: "map_of (p_Cats (Cats_Set k u p')) = (map_of (p_Cats p'))(k := map_option u (map_of (p_Cats p') k))"
    for k u p' by (rule ext) (simp add: Cats_Set_Cats)
  have eqs: "d\<lparr>cat_Level := cat_Level d\<rparr> = d" "d\<lparr>cat_Exp := cat_Exp d\<rparr> = d" by simp_all
  show "map_of (p_Cats (feed_commit e c cat d l x food b p)) =
      (map_of (p_Cats p))(c \<mapsto> d\<lparr>cat_Level := l, cat_Exp := x\<rparr>)"
    using assms by (auto simp: feed_commit_def Let_def m eqs fun_upd_idem)
  show "p_Info (feed_commit e c cat d l x food b p) = p_Info (snd (SubCatFood food p))"
    by (simp add: feed_commit_def Let_def I)
qed

subsection \<open>Skill levels and stars\<close>

lemma TaskUpdate_Cats: "p_Cats (TaskUpdate e t b a n p) = p_Cats p"
  by simp

lemma skill_cost_bounds:
  assumes "skill_cost_loop cat p c ids l = Inr r" "0 \<le> l" "l < GetMaxSkillLevel cat"
    and "GetMaxSkillLevel cat \<le> max32"
  shows "l \<le> r \<and> r \<le> GetMaxSkillLevel cat \<and> r \<le> l + int (length ids) \<and> (ids \<noteq> [] \<longrightarrow> l < r)"
proof -
  have "l \<le> r \<and> r \<le> GetMaxSkillLevel cat \<and> r \<le> l + int (length ids)
      \<and> (ids \<noteq> [] \<and> l < GetMaxSkillLevel cat \<longrightarrow> l < r)"
    if "skill_cost_loop cat p c ids l = Inr r" "0 \<le> l" "l \<le> GetMaxSkillLevel cat" for l
    using that
  proof (induction ids arbitrary: l)
    case (Cons a ids)
    show ?case
    proof (cases "l < GetMaxSkillLevel cat")
      case True
      have "i32 (l + 1) = l + 1" using True Cons.prems(2) assms(4) by (simp add: i32_range_id)
      with Cons.prems True have "skill_cost_loop cat p c ids (l + 1) = Inr r"
        by (simp split: if_splits option.splits)
      from Cons.IH [OF this] True Cons.prems(2) show ?thesis by simp
    next
      case False
      with Cons.prems show ?thesis by (auto split: if_splits)
    qed
  qed auto
  from this [of l] assms show ?thesis by auto
qed

lemma skill_cost_error: "skill_cost_loop cat p c ids l = Inl r \<Longrightarrow> r < 0"
  by (induction ids arbitrary: l) (auto split: if_splits option.splits)

text \<open>\<open>skill_only c p q\<close>: the cats differ at most in the skill level of \<open>c\<close>.\<close>

definition skill_only :: "int \<Rightarrow> player \<Rightarrow> player \<Rightarrow> bool" where
  "skill_only c p q \<longleftrightarrow> (\<exists>s. \<forall>k. map_of (p_Cats q) k =
     (if k = c then map_option (\<lambda>d. d\<lparr>cat_SkillLevel := s\<rparr>) (map_of (p_Cats p) c) else map_of (p_Cats p) k))"

lemma skill_only_refl [simp]: "skill_only c p p"
proof (cases "map_of (p_Cats p) c")
  case (Some d)
  have "d\<lparr>cat_SkillLevel := cat_SkillLevel d\<rparr> = d" by simp
  with Some show ?thesis unfolding skill_only_def by (intro exI [of _ "cat_SkillLevel d"]) simp
qed (simp add: skill_only_def)

lemma skill_only_trans:
  assumes "skill_only c p q" "skill_only c q r"
  shows "skill_only c p r"
proof -
  obtain s where s: "\<And>k. map_of (p_Cats q) k =
      (if k = c then map_option (\<lambda>d. d\<lparr>cat_SkillLevel := s\<rparr>) (map_of (p_Cats p) c) else map_of (p_Cats p) k)"
    using assms(1) unfolding skill_only_def by blast
  obtain t where t: "\<And>k. map_of (p_Cats r) k =
      (if k = c then map_option (\<lambda>d. d\<lparr>cat_SkillLevel := t\<rparr>) (map_of (p_Cats q) c) else map_of (p_Cats q) k)"
    using assms(2) unfolding skill_only_def by blast
  show ?thesis
    unfolding skill_only_def by (intro exI [of _ t]) (simp add: t s option.map_comp comp_def)
qed

lemma skill_only_eq: "p_Cats q = p_Cats p \<Longrightarrow> skill_only c p q"
  using skill_only_refl [of c p] unfolding skill_only_def by simp

lemma skill_only_Set: "skill_only c p (Cats_Set c (\<lambda>d. d\<lparr>cat_SkillLevel := s\<rparr>) p)"
  unfolding skill_only_def by (intro exI [of _ s]) (simp add: Cats_Set_Cats)

lemma skill_levelup_Cats: "skill_only c p (snd (cat_skill_levelup e c None p))"
  by (auto simp: cat_skill_levelup_def skill_up_level_def Let_def consume_cats_def
      intro: skill_only_trans [OF skill_only_Set skill_only_eq] split: option.split)

lemma upstar_skill_Cats: "skill_only c p (upstar_skill_loop e cat c n p)"
proof (induction n arbitrary: p)
  case (Suc n)
  show ?case using skill_only_trans [OF skill_levelup_Cats Suc] by simp
qed simp

lemma upstar_cost_ok:
  "upstar_cost_loop p s cid ids = Inr n \<Longrightarrow> k \<in> set ids \<Longrightarrow>
   \<exists>d. map_of (p_Cats p) k = Some d \<and> \<not> IfCatBusy p k \<and> cat_Locked d \<le> 0 \<and> cat_Star d = s"
  by (induction ids arbitrary: n) (auto split: option.splits if_splits sum.splits)

lemma upstar_cost_error: "upstar_cost_loop p s cid ids = Inl r \<Longrightarrow> r < 0"
  by (induction ids arbitrary: r) (auto split: option.splits if_splits sum.splits)

subsection \<open>Decomposing\<close>

definition stone_of :: "env \<Rightarrow> player \<Rightarrow> int \<Rightarrow> int" where
  "stone_of e p c = (case map_of (p_Cats p) c of None \<Rightarrow> 0
     | Some d \<Rightarrow> (case cat_map e (cat_CfgId d) of None \<Rightarrow> 0 | Some cat \<Rightarrow> ch_Stone cat))"

lemma decompose_loop_sum:
  assumes "decompose_loop e p ids a = Inr s" "\<forall>c \<in> set ids. 0 \<le> stone_of e p c" "0 \<le> a"
    and "a + sum_list (map (stone_of e p) ids) \<le> max32"
  shows "s = a + sum_list (map (stone_of e p) ids)
    \<and> (\<forall>c \<in> set ids. map_of (p_Cats p) c \<noteq> None \<and> \<not> IfCatBusy p c)"
  using assms
proof (induction ids arbitrary: a)
  case (Cons c ids)
  from Cons.prems(1) obtain d cat where d: "map_of (p_Cats p) c = Some d" "\<not> IfCatBusy p c"
    "cat_map e (cat_CfgId d) = Some cat" "decompose_loop e p ids (i32 (a + ch_Stone cat)) = Inr s"
    by (auto split: option.splits if_splits)
  have st: "stone_of e p c = ch_Stone cat" using d by (simp add: stone_of_def)
  have "0 \<le> sum_list (map (stone_of e p) ids)"
    using Cons.prems(2) by (intro sum_list_nonneg) auto
  then have "i32 (a + ch_Stone cat) = a + ch_Stone cat"
    using Cons.prems(2-4) st by (intro i32_range_id) auto
  with Cons.IH [of "a + ch_Stone cat"] Cons.prems d st show ?case by auto
qed simp

section \<open>Properties\<close>

text \<open>
  Property C4. Feeding is exact. When \<open>feed_cat\<close> reports success, the cat's level has not dropped and
  has not passed the cap of its stars, the experience consumed by the passed levels plus what is
  left never exceeds what was there plus what was added, what is left below the top level does not
  suffice for the next level, the food is paid exactly, and no other cat is touched.
\<close>

theorem feed_cat_exact:
  assumes "map_of (p_Cats p) c = Some d" "cat_map e (cat_CfgId d) = Some cat" "cat_exps_ok cat"
    and "1 \<le> cat_Level d" "0 \<le> cat_Exp d" "0 \<le> add" "cat_Exp d + add \<le> max32"
    and "in32 (i_CatFood (p_Info p))"
    and "feed_cat e c food add p = ((l, x, 1), q)"
  shows "cat_Level d \<le> l \<and> l \<le> max (cat_Level d) (GetStarMaxLevel cat (cat_Star d))
    \<and> 0 \<le> x \<and> x + cat_exp_between cat (cat_Level d) l \<le> cat_Exp d + add
    \<and> (l < int (length (ch_UpgradeExps cat)) \<longrightarrow> x < GetLevelExp cat l)
    \<and> map_of (p_Cats q) = (map_of (p_Cats p))(c \<mapsto> d\<lparr>cat_Level := l, cat_Exp := x\<rparr>)
    \<and> i_CatFood (p_Info q) = i_CatFood (p_Info p) - food"
proof -
  let ?cap = "GetStarMaxLevel cat (cat_Star d)"
  obtain l1 t mx lim where f: "feed_loop cat ?cap (cat_Exp d + add) (cat_Level d) 0 = (l1, t, mx, lim)"
    by (metis surj_pair)
  have av: "in32 (cat_Exp d + add)" "i32 (cat_Exp d + add) = cat_Exp d + add"
    using assms(5-7) by (simp_all add: in32_def i32_range_id)
  from feed_loop_spec [OF assms(3,4) _ _ av(1) f] assms(5,6)
  have s: "cat_Level d \<le> l1" "l1 \<le> max (cat_Level d) ?cap" "t = cat_exp_between cat (cat_Level d) l1"
    "t \<le> cat_Exp d + add" "0 \<le> t" "mx \<longleftrightarrow> int (length (ch_UpgradeExps cat)) \<le> l1"
    "\<not> mx \<and> \<not> lim \<longrightarrow> cat_Exp d + add - t < GetLevelExp cat l1" by auto
  have left: "i32 (cat_Exp d + add - t) = cat_Exp d + add - t"
    using s(4,5) av(1) by (simp add: i32_range_id in32_def)
  define y where "y = (if mx then 0
    else if lim \<and> cat_Exp d + add - t \<ge> GetLevelExp cat l1 then i32 (GetLevelExp cat l1 - 1)
    else cat_Exp d + add - t)"
  have need: "1 \<le> GetLevelExp cat l1 \<and> in32 (GetLevelExp cat l1)" if "\<not> mx"
    using that s(1,6) assms(3,4) one_based_inside [of l1 "ch_UpgradeExps cat"]
    by (auto simp: GetLevelExp_def cat_exps_ok_def)
  have run: "l = l1 \<and> x = y \<and> 0 \<le> food \<and> food \<le> i_CatFood (p_Info p)
      \<and> q = feed_commit e c cat d l1 y food mx p"
    using assms(9)
    by (auto simp: feed_cat_def assms(1,2) f av(2) Let_def left cat_level_need_exp_def y_def
        split: if_splits)
  have y: "0 \<le> y" "y + t \<le> cat_Exp d + add" "\<not> mx \<longrightarrow> y < GetLevelExp cat l1"
    using s(4-7) need by (auto simp: y_def i32_range_id in32_def)
  have food: "i_CatFood (p_Info (snd (SubCatFood food p))) = i_CatFood (p_Info p) - food"
    using run cat_food.spend_bal [OF _ _ assms(8)] by blast
  show ?thesis
    using run s(1-3,6) y food feed_commit_run [OF assms(1)] by auto
qed

definition demo_cat_cfg :: xml_character where
  "demo_cat_cfg = \<lparr>ch_Id = 501, ch_Color = 1, ch_PieceId = 0, ch_PieceNum = 0, ch_Stone = 4,
     ch_RangeMin = 30, ch_RangeMax = 30, ch_CoinAbilityRangeMin = 1, ch_CoinAbilityRangeMax = 1,
     ch_ExploreAbilityRangeMin = 1, ch_ExploreAbilityRangeMax = 1, ch_MatchAbilityRangeMin = 2,
     ch_MatchAbilityRangeMax = 2, ch_GrowthRate = 0, ch_InitialRate = 0, ch_SkillId = 0,
     ch_UpgradeExps = [10, 20, 30], ch_UpStarCosts = [100, 200], ch_UpstarCats = [1, 2],
     ch_UpstarMaxLevels = [2, 3], ch_AddCoins = [], ch_AddExplores = [], ch_AddMatchs = [],
     ch_UpSkills = [501], ch_UpSkillCosts = [5, 5, 5], ch_Rarity = 1, ch_AvatarId = 9,
     ch_FeedCosts = [15, 25], ch_CriticalChances = [0, 0, 0], ch_SkillScore = 0\<rparr>"

definition demo_cat :: "int \<Rightarrow> cat_data" where
  "demo_cat k = \<lparr>cat_Id = k, cat_CfgId = 501, cat_Exp = 0, cat_Level = 1, cat_Star = 1, cat_Nick = '''',
     cat_SkillLevel = 1, cat_Locked = 0, cat_CoinAbility = 7, cat_ExploreAbility = 7,
     cat_MatchAbility = 16, cat_CathouseId = 0\<rparr>"

definition demo_cat_env :: env where
  "demo_cat_env = empty_env\<lparr>cat_map := [501 \<mapsto> demo_cat_cfg]\<rparr>"

definition demo_cat_player :: player where
  "demo_cat_player = empty_player\<lparr>p_Info := empty_info\<lparr>i_Gold := 1000, i_CatFood := 100\<rparr>,
     p_Cats := [(1, demo_cat 1), (2, demo_cat 2)]\<rparr>"

lemmas demo_cat_defs = demo_cat_cfg_def demo_cat_def demo_cat_env_def demo_cat_player_def
  empty_env_def empty_player_def empty_info_def

lemma demo_feed_loop: "feed_loop demo_cat_cfg 2 15 1 0 = (2, 10, False, True)"
  by (simp add: feed_loop.simps is_cat_level_max_def cat_level_up_def GetLevelExp_def one_based_def
      demo_cat_cfg_def Let_def i32_def)

lemma demo_feed: "fst (feed_cat demo_cat_env 1 15 15 demo_cat_player) = (2, 5, 1)"
proof -
  have "GetStarMaxLevel demo_cat_cfg 1 = 2" "GetLevelExp demo_cat_cfg 2 = 20"
    by (simp_all add: GetStarMaxLevel_def GetLevelExp_def one_based_def demo_cat_cfg_def)
  moreover have "cat_map demo_cat_env 501 = Some demo_cat_cfg"
    "map_of (p_Cats demo_cat_player) 1 = Some (demo_cat 1)" "i_CatFood (p_Info demo_cat_player) = 100"
    by (simp_all add: demo_cat_env_def demo_cat_player_def)
  ultimately show ?thesis
    using demo_feed_loop by (simp add: feed_cat_def demo_cat_def Let_def i32_def cat_level_need_exp_def)
qed

lemma feed_cat_exact_witness:
  "i_CatFood (p_Info (snd (feed_cat demo_cat_env 1 15 15 demo_cat_player))) = 85"
proof -
  have "feed_cat demo_cat_env 1 15 15 demo_cat_player
      = ((2, 5, 1), snd (feed_cat demo_cat_env 1 15 15 demo_cat_player))"
    using demo_feed by (simp add: prod_eq_iff)
  from feed_cat_exact [OF _ _ _ _ _ _ _ _ this, of "demo_cat 1" demo_cat_cfg] show ?thesis
    by (simp add: demo_cat_defs cat_exps_ok_def in32_def)
qed

text \<open>
  Property C9. Raising a star. If \<open>cat_upstar\<close> answers anything but success the player is unchanged.
  On success the cat was below its largest star, the gold covered the price, the first so many ids
  given all named idle, unlocked cats of the same star, exactly those cats are gone, the cat has one
  star more unless its own id was among them (which is not checked), and no other cat changed.
\<close>

theorem cat_upstar_spec:
  assumes "cat_upstar e c ids p = Some (r, q)"
  shows "(r \<noteq> 1 \<longrightarrow> r < 0 \<and> q = p) \<and>
    (r = 1 \<longrightarrow> (\<exists>d cat used s. map_of (p_Cats p) c = Some d \<and> cat_map e (cat_CfgId d) = Some cat
      \<and> cat_Star d < GetMaxStar cat \<and> GetStarCostCoin cat (cat_Star d) \<le> i_Gold (p_Info p)
      \<and> used = take (nat (GetUpstarCostCatNum cat (cat_Star d))) ids
      \<and> GetUpstarCostCatNum cat (cat_Star d) \<le> int (length ids)
      \<and> (\<forall>k \<in> set used. \<exists>dk. map_of (p_Cats p) k = Some dk \<and> \<not> IfCatBusy p k
           \<and> cat_Locked dk \<le> 0 \<and> cat_Star dk = cat_Star d)
      \<and> (\<forall>k. map_of (p_Cats q) k = (if k \<in> set used then None
           else if k = c then Some (d\<lparr>cat_Star := i32 (cat_Star d + 1), cat_SkillLevel := s\<rparr>)
           else map_of (p_Cats p) k))))"
proof (cases "map_of (p_Cats p) c")
  case None
  with assms show ?thesis by (simp add: cat_upstar_def)
next
  case (Some d)
  with assms obtain cat where cat: "cat_map e (cat_CfgId d) = Some cat"
    by (auto simp: cat_upstar_def split: option.splits)
  let ?need = "GetUpstarCostCatNum cat (cat_Star d)"
  let ?used = "take (nat ?need) ids"
  let ?coin = "GetStarCostCoin cat (cat_Star d)"
  let ?star = "i32 (cat_Star d + 1)"
  note run = assms [unfolded cat_upstar_def Some cat option.case Let_def]
  show ?thesis
  proof (cases "\<exists>n. upstar_cost_loop p (cat_Star d) (cat_CfgId d) ?used = Inr n \<and> r = 1")
    case False
    then have "r < 0 \<and> q = p"
      using run upstar_cost_error [of p "cat_Star d" "cat_CfgId d" ?used]
      by (auto simp: bind_eq_Some_conv split: if_splits sum.splits)
    then show ?thesis by auto
  next
    case True
    then obtain n where n: "upstar_cost_loop p (cat_Star d) (cat_CfgId d) ?used = Inr n" "r = 1" by blast
    let ?p1 = "snd (SubGold ?coin (consume_cats ?used (Cats_Set c (\<lambda>d. d\<lparr>cat_Star := ?star\<rparr>) p)))"
    let ?p2 = "upstar_skill_loop e cat c (nat n) ?p1"
    from run n have g: "cat_Star d < GetMaxStar cat" "?coin \<le> i_Gold (p_Info p)" "?need \<le> int (length ids)"
      and q: "p_Cats q = p_Cats ?p2"
      by (auto simp: bind_eq_Some_conv split: if_splits)
    obtain s where s: "\<And>k. map_of (p_Cats ?p2) k =
      (if k = c then map_option (\<lambda>d. d\<lparr>cat_SkillLevel := s\<rparr>) (map_of (p_Cats ?p1) c) else map_of (p_Cats ?p1) k)"
      using upstar_skill_Cats [of c ?p1 e cat "nat n"] unfolding skill_only_def by blast
    have "map_of (p_Cats q) k = (if k \<in> set ?used then None
           else if k = c then Some (d\<lparr>cat_Star := ?star, cat_SkillLevel := s\<rparr>)
           else map_of (p_Cats p) k)" for k
      unfolding q s by (simp add: consume_Cats Cats_Set_Cats Some)
    moreover have "\<forall>k \<in> set ?used. \<exists>dk. map_of (p_Cats p) k = Some dk \<and> \<not> IfCatBusy p k
        \<and> cat_Locked dk \<le> 0 \<and> cat_Star dk = cat_Star d"
      using upstar_cost_ok [OF n(1)] by blast
    ultimately show ?thesis using Some cat g n(2) by blast
  qed
qed

definition demo_star_player :: player where
  "demo_star_player = demo_cat_player\<lparr>p_Cats := [(1, (demo_cat 1)\<lparr>cat_Level := 2\<rparr>), (2, demo_cat 2)]\<rparr>"

lemma demo_upstar: "map_option fst (cat_upstar demo_cat_env 1 [2] demo_star_player) = Some 1"
proof -
  have "\<not> IfCatBusy demo_star_player 2"
    by (simp add: IfCatBusy_def IfCatInExpedition_def col_simps col_get_field_def demo_star_player_def demo_cat_defs)
  then have "upstar_cost_loop demo_star_player 1 501 [2] = Inr 1"
    by (simp add: demo_star_player_def demo_cat_defs)
  moreover have "map_of (p_Cats demo_star_player) 1 = Some ((demo_cat 1)\<lparr>cat_Level := 2\<rparr>)"
    "i_Gold (p_Info demo_star_player) = 1000" "cat_map demo_cat_env 501 = Some demo_cat_cfg"
    by (simp_all add: demo_star_player_def demo_cat_defs)
  ultimately show ?thesis
    by (simp add: cat_upstar_def Let_def demo_cat_cfg_def demo_cat_def GetMaxStar_def go_nth_def
        GetUpstarCostCatNum_def GetStarCostCoin_def one_based_def)
qed

lemma cat_upstar_spec_witness:
  "\<exists>q. cat_upstar demo_cat_env 1 [2] demo_star_player = Some (1, q) \<and> map_of (p_Cats q) 2 = None
     \<and> map_option cat_Star (map_of (p_Cats q) 1) = Some 2"
proof -
  from demo_upstar obtain q where q: "cat_upstar demo_cat_env 1 [2] demo_star_player = Some (1, q)" by auto
  from cat_upstar_spec [OF this] obtain d cat used s where
    "map_of (p_Cats demo_star_player) 1 = Some d" "cat_map demo_cat_env (cat_CfgId d) = Some cat"
    "used = take (nat (GetUpstarCostCatNum cat (cat_Star d))) [2]"
    "\<forall>k. map_of (p_Cats q) k = (if k \<in> set used then None
           else if k = 1 then Some (d\<lparr>cat_Star := i32 (cat_Star d + 1), cat_SkillLevel := s\<rparr>)
           else map_of (p_Cats demo_star_player) k)" by auto
  with q show ?thesis
    by (auto simp: demo_star_player_def demo_cat_defs GetUpstarCostCatNum_def one_based_def i32_def)
qed

text \<open>
  What decomposing pays. A successful \<open>decompose_cat\<close> named only cats that exist and are
  idle, removes exactly those, and credits the stones of every entry of the list, so that an id given
  several times is paid several times although there is one cat; locks are not looked at.
\<close>

theorem decompose_pays:
  assumes "decompose_cat e ids p = (1, q)"
    and "\<forall>c \<in> set ids. 0 \<le> stone_of e p c" "sum_list (map (stone_of e p) ids) \<le> max32"
    and "0 \<le> i_SoulStone (p_Info p)" "in32 (i_SoulStone (p_Info p))"
  shows "(\<forall>c \<in> set ids. map_of (p_Cats p) c \<noteq> None \<and> \<not> IfCatBusy p c)
    \<and> (\<forall>k. map_of (p_Cats q) k = (if k \<in> set ids then None else map_of (p_Cats p) k))
    \<and> i_SoulStone (p_Info q) = min max32 (i_SoulStone (p_Info p) + sum_list (map (stone_of e p) ids))"
proof -
  have err: "r < 0" if "decompose_loop e p ids a = Inl r" for r a
    using that by (induction ids arbitrary: a) (auto split: option.splits if_splits)
  obtain s where s: "decompose_loop e p ids 0 = Inr s"
    and q: "q = Send_msg (S2CCatDecomposeResult ids s) (snd (AddSoulStone s (SendCatsUpdate (consume_cats ids p))))"
    using assms(1) err [of 0 1] by (auto simp: decompose_cat_def Let_def split: if_splits sum.splits)
  have sum: "0 \<le> sum_list (map (stone_of e p) ids)"
    using assms(2) by (intro sum_list_nonneg) auto
  have loop: "s = sum_list (map (stone_of e p) ids)"
    "\<forall>c \<in> set ids. map_of (p_Cats p) c \<noteq> None \<and> \<not> IfCatBusy p c"
    using decompose_loop_sum [OF s assms(2)] assms(3) by simp_all
  have "i_SoulStone (p_Info q) = min max32 (i_SoulStone (p_Info p) + s)"
    unfolding q using soul_stone.earn_bal [of s "SendCatsUpdate (consume_cats ids p)"] assms(3-5) sum
    by (simp add: loop(1) in32_def)
  with loop show ?thesis by (simp add: q consume_Cats)
qed

lemma decompose_pays_witness:
  "i_SoulStone (p_Info (snd (decompose_cat demo_cat_env [2, 2, 2] demo_cat_player))) = 12"
proof -
  have free: "\<not> IfCatBusy demo_cat_player 2"
    by (simp add: IfCatBusy_def IfCatInExpedition_def col_simps col_get_field_def demo_cat_defs)
  have st: "stone_of demo_cat_env demo_cat_player 2 = 4" by (simp add: stone_of_def demo_cat_defs)
  have "fst (decompose_cat demo_cat_env [2, 2, 2] demo_cat_player) = 1"
    using free by (simp add: decompose_cat_def Let_def demo_cat_defs i32_def)
  then have "decompose_cat demo_cat_env [2, 2, 2] demo_cat_player
      = (1, snd (decompose_cat demo_cat_env [2, 2, 2] demo_cat_player))" by (simp add: prod_eq_iff)
  from decompose_pays [OF this] st show ?thesis
    by (simp add: demo_cat_player_def empty_info_def in32_def)
qed

lemma skill_levelup_cases:
  assumes "map_of (p_Cats p) c = Some d" "cat_map e (cat_CfgId d) = Some cat"
    and "cat_skill_levelup e c (Some ids) p = (r, q)"
  shows "r < 0 \<and> q = p \<or> ids \<noteq> [] \<and> cat_SkillLevel d < GetMaxSkillLevel cat
    \<and> skill_cost_loop cat p c ids (cat_SkillLevel d) = Inr r
    \<and> (\<forall>k. map_of (p_Cats q) k = (if k \<in> set ids \<and> 0 < k then None
           else if k = c then Some (d\<lparr>cat_SkillLevel := r\<rparr>) else map_of (p_Cats p) k))"
proof (cases "skill_up_level cat p c (Some ids) (cat_SkillLevel d)")
  case (Inl err)
  have "err < 0"
    using Inl skill_cost_error [of cat p c ids] by (auto simp: skill_up_level_def split: if_splits)
  with Inl assms show ?thesis by (auto simp: cat_skill_levelup_def Let_def split: if_splits)
next
  case (Inr u)
  then have u: "ids \<noteq> []" "skill_cost_loop cat p c ids (cat_SkillLevel d) = Inr u"
    by (simp_all add: skill_up_level_def split: if_splits)
  show ?thesis
    using assms Inr u by (auto simp: cat_skill_levelup_def Let_def consume_Cats Cats_Set_Cats split: if_splits)
qed

text \<open>
  Property C13. Raising a skill with other cats. A successful \<open>cat_skill_levelup\<close> gains between one
  level and one per given id and never passes the largest level; every positive id of the list is
  consumed, also those after the largest level is reached, which no check has looked at; no other
  cat changes. A refusal changes nothing.
\<close>

theorem skill_levelup_spec:
  assumes "map_of (p_Cats p) c = Some d" "cat_map e (cat_CfgId d) = Some cat"
    and "0 \<le> cat_SkillLevel d" "GetMaxSkillLevel cat \<le> max32"
    and "cat_skill_levelup e c (Some ids) p = (r, q)"
  shows "(r \<le> 0 \<longrightarrow> q = p) \<and>
    (0 < r \<longrightarrow> cat_SkillLevel d < r \<and> r \<le> GetMaxSkillLevel cat \<and> r \<le> cat_SkillLevel d + int (length ids)
      \<and> (\<forall>k. map_of (p_Cats q) k = (if k \<in> set ids \<and> 0 < k then None
           else if k = c then Some (d\<lparr>cat_SkillLevel := r\<rparr>) else map_of (p_Cats p) k)))"
proof (cases "r < 0 \<and> q = p")
  case False
  with skill_levelup_cases [OF assms(1,2,5)] have s: "ids \<noteq> []" "cat_SkillLevel d < GetMaxSkillLevel cat"
    "skill_cost_loop cat p c ids (cat_SkillLevel d) = Inr r"
    "\<forall>k. map_of (p_Cats q) k = (if k \<in> set ids \<and> 0 < k then None
           else if k = c then Some (d\<lparr>cat_SkillLevel := r\<rparr>) else map_of (p_Cats p) k)" by blast+
  from skill_cost_bounds [OF s(3) assms(3) s(2) assms(4)] s(1,4) assms(3) show ?thesis by auto
qed simp

definition demo_skill_player :: player where
  "demo_skill_player = demo_cat_player\<lparr>p_Cats :=
     [(1, (demo_cat 1)\<lparr>cat_SkillLevel := 2\<rparr>), (2, demo_cat 2), (3, (demo_cat 3)\<lparr>cat_Locked := 1\<rparr>)]\<rparr>"

lemma skill_levelup_spec_witness:
  "map_of (p_Cats (snd (cat_skill_levelup demo_cat_env 1 (Some [2, 3]) demo_skill_player))) 3 = None"
proof -
  have free: "\<not> IfCatBusy demo_skill_player 2"
    by (simp add: IfCatBusy_def IfCatInExpedition_def col_simps col_get_field_def demo_skill_player_def demo_cat_defs)
  have row: "map_of (p_Cats demo_skill_player) 1 = Some ((demo_cat 1)\<lparr>cat_SkillLevel := 2\<rparr>)"
    "cat_map demo_cat_env 501 = Some demo_cat_cfg" "GetMaxSkillLevel demo_cat_cfg = 3"
    "GetSkillLevelCostCoin demo_cat_cfg 2 = 5" "i_Gold (p_Info demo_skill_player) = 1000"
    "cat_CfgId (demo_cat 1) = 501"
    by (simp_all add: demo_skill_player_def demo_cat_defs GetMaxSkillLevel_def GetSkillLevelCostCoin_def
        one_based_def)
  have "skill_cost_loop demo_cat_cfg demo_skill_player 1 [2, 3] 2 = Inr 3"
    using free by (simp add: demo_skill_player_def demo_cat_defs GetMaxSkillLevel_def i32_def)
  then have "fst (cat_skill_levelup demo_cat_env 1 (Some [2, 3]) demo_skill_player) = 3"
    by (simp add: cat_skill_levelup_def skill_up_level_def row Let_def)
  then have "cat_skill_levelup demo_cat_env 1 (Some [2, 3]) demo_skill_player
      = (3, snd (cat_skill_levelup demo_cat_env 1 (Some [2, 3]) demo_skill_player))" by (simp add: prod_eq_iff)
  from skill_levelup_spec [OF row(1) _ _ _ this] row show ?thesis by simp
qed

lemma rand_range:
  assumes "0 \<le> mn" "mn \<le> mx" "mx < max32"
  shows "\<exists>v q. rand31n_from_range e mn mx p = Some ((True, v), q) \<and> mn \<le> v \<and> v \<le> mx"
proof (cases "mn = mx")
  case False
  have w: "i32 (i32 (mx - mn) + 1) = mx - mn + 1" using assms by (simp add: i32_range_id)
  obtain r where r: "Int31n e (p_ndraws p) (mx - mn + 1) = Some r"
    using False assms by (auto simp: Int31n_def)
  from Int31n_range [OF this] have "0 \<le> r" "r < mx - mn + 1" by simp_all
  with r False assms w show ?thesis by (auto simp: rand31n_from_range_def i32_range_id)
qed (use assms in \<open>simp add: rand31n_from_range_def\<close>)

lemma quot32_nonneg:
  assumes "0 \<le> a" "a \<le> max32" "0 < b"
  shows "quot32 a b = Some (a div b)"
proof -
  have "a div b \<le> a" using assms zdiv_mono2 [of a 1 b] by simp
  moreover have "0 \<le> a div b" using assms by (simp add: pos_imp_zdiv_nonneg_iff)
  ultimately show ?thesis using assms by (simp add: quot32_def sdiv_nonneg i32_range_id)
qed

lemma share_round:
  assumes "0 \<le> a" "a < 16777216" "0 \<le> w" "w \<le> t" "0 < t"
  shows "GetRoundValue (float32_of_int (a * w div t)) = a * w div t" and "0 \<le> a * w div t" and "a * w div t \<le> a"
proof -
  show nn: "0 \<le> a * w div t" using assms by (simp add: pos_imp_zdiv_nonneg_iff)
  have "a * w \<le> a * t" using assms by (simp add: mult_left_mono)
  then have "a * w div t \<le> a * t div t" using assms(5) by (rule zdiv_mono1)
  then show le: "a * w div t \<le> a" using assms(5) by simp
  show "GetRoundValue (float32_of_int (a * w div t)) = a * w div t"
    using nn le assms(2) by (simp add: float32_of_int_exact GetRoundValue_int32 in32_def)
qed

text \<open>
  The abilities of a new cat add up. With ranges of positive weights and a total below
  \<open>2 ^ 24\<close> whose products stay in range, \<open>gen_abilities\<close> succeeds, the three abilities are
  non-negative, and their sum lies in the range of totals of the cat.
\<close>

theorem new_cat_abilities:
  assumes "0 \<le> ch_RangeMin cfg" "ch_RangeMin cfg \<le> ch_RangeMax cfg" "ch_RangeMax cfg < 16777216"
    and "1 \<le> ch_CoinAbilityRangeMin cfg" "ch_CoinAbilityRangeMin cfg \<le> ch_CoinAbilityRangeMax cfg"
    and "1 \<le> ch_ExploreAbilityRangeMin cfg" "ch_ExploreAbilityRangeMin cfg \<le> ch_ExploreAbilityRangeMax cfg"
    and "1 \<le> ch_MatchAbilityRangeMin cfg" "ch_MatchAbilityRangeMin cfg \<le> ch_MatchAbilityRangeMax cfg"
    and "ch_CoinAbilityRangeMax cfg \<le> 100" "ch_ExploreAbilityRangeMax cfg \<le> 100" "ch_MatchAbilityRangeMax cfg \<le> 100"
  shows "\<exists>c x m q. gen_abilities e cfg p = Some (Some (c, x, m), q) \<and> 0 \<le> c \<and> 0 \<le> x \<and> 0 \<le> m
    \<and> ch_RangeMin cfg \<le> c + x + m \<and> c + x + m \<le> ch_RangeMax cfg"
proof -
  obtain a q1 where a: "rand31n_from_range e (ch_RangeMin cfg) (ch_RangeMax cfg) p = Some ((True, a), q1)"
    "ch_RangeMin cfg \<le> a" "a \<le> ch_RangeMax cfg" using rand_range [OF assms(1,2)] assms(3) by force
  obtain cw q2 where cw: "rand31n_from_range e (ch_CoinAbilityRangeMin cfg) (ch_CoinAbilityRangeMax cfg) q1
      = Some ((True, cw), q2)" "1 \<le> cw" "cw \<le> 100"
    using rand_range [OF _ assms(5), of e q1] assms(4,10) by force
  obtain xw q3 where xw: "rand31n_from_range e (ch_ExploreAbilityRangeMin cfg) (ch_ExploreAbilityRangeMax cfg) q2
      = Some ((True, xw), q3)" "1 \<le> xw" "xw \<le> 100"
    using rand_range [OF _ assms(7), of e q2] assms(6,11) by force
  obtain mw q4 where mw: "rand31n_from_range e (ch_MatchAbilityRangeMin cfg) (ch_MatchAbilityRangeMax cfg) q3
      = Some ((True, mw), q4)" "1 \<le> mw" "mw \<le> 100"
    using rand_range [OF _ assms(9), of e q3] assms(8,12) by force
  define t where "t = cw + xw + mw"
  have t: "0 < t" "cw \<le> t" "xw \<le> t" "i32 (cw + xw + mw) = t"
    using cw(2,3) xw(2,3) mw(2,3) by (simp_all add: t_def i32_range_id)
  have a0: "0 \<le> a" "a < 16777216" using a assms(1,3) by simp_all
  have prod: "0 \<le> a * w \<and> a * w \<le> max32" if "1 \<le> w" "w \<le> 100" for w
    using mult_mono [of a 16777215 w 100] a0 that by simp
  have w0: "0 \<le> cw" "0 \<le> xw" using cw(2) xw(2) by simp_all
  note rc = share_round [OF a0 w0(1) t(2,1)] and rx = share_round [OF a0 w0(2) t(3,1)]
  let ?c = "a * cw div t" and ?x = "a * xw div t"
  have "t * ?c \<le> a * cw" "t * ?x \<le> a * xw"
    using pos_mod_sign [OF t(1), of "a * cw"] pos_mod_sign [OF t(1), of "a * xw"]
      mult_div_mod_eq [of t "a * cw"] mult_div_mod_eq [of t "a * xw"] by linarith+
  then have "t * (?c + ?x) \<le> a * (cw + xw)" by (simp add: distrib_left)
  also have "\<dots> \<le> a * t" using a0 mw(2) by (simp add: mult_left_mono t_def)
  finally have sum: "?c + ?x \<le> a" using t(1) by (simp add: mult.commute [of a t])
  have "gen_abilities e cfg p = Some (Some (?c, ?x, a - (?c + ?x)), q4)"
    using rc rx sum a0 prod [OF cw(2,3)] prod [OF xw(2,3)] t
    by (simp add: gen_abilities_def a(1) cw(1) xw(1) mw(1) quot32_nonneg i32_range_id Let_def)
  then show ?thesis using rc(2) rx(2) sum a(2,3) by (intro exI) (rule conjI, assumption, simp)
qed

lemma new_cat_abilities_witness:
  "\<exists>c x m q. gen_abilities demo_cat_env demo_cat_cfg demo_cat_player = Some (Some (c, x, m), q) \<and> c + x + m = 30"
  using new_cat_abilities [of demo_cat_cfg demo_cat_env demo_cat_player]
  by (force simp: demo_cat_cfg_def)

end
