(* ===== verification/Crops.thy ===== *)
theory Crops
  imports Items
begin

text \<open>
  \<open>game_server/player_crop.go\<close>: planting on a farm, speeding up with diamonds, harvesting for cat
  food and experience. The growing time is \<open>Times[1]\<close> of the crop's row, an index that panics
  (\<open>None\<close>) when the row has fewer entries; a plant time of 0 marks a ripe crop.
\<close>

abbreviation (input) E_ERR_CROP_TABLE_DATA_NOT_FOUND :: int where "E_ERR_CROP_TABLE_DATA_NOT_FOUND \<equiv> -101300"
abbreviation (input) E_ERR_CROP_NOT_FOUND :: int where "E_ERR_CROP_NOT_FOUND \<equiv> -101301"
abbreviation (input) E_ERR_CROP_IS_NO_UNLOCK :: int where "E_ERR_CROP_IS_NO_UNLOCK \<equiv> -101302"
abbreviation (input) E_ERR_CROP_NEED_COIN_NOT_ENOUGH :: int where "E_ERR_CROP_NEED_COIN_NOT_ENOUGH \<equiv> -101303"
abbreviation (input) E_ERR_CROP_BUILDING_NOT_FOUND :: int where "E_ERR_CROP_BUILDING_NOT_FOUND \<equiv> -101304"
abbreviation (input) E_ERR_CROP_BUILDING_IS_NOT_CROP :: int where "E_ERR_CROP_BUILDING_IS_NOT_CROP \<equiv> -101305"
abbreviation (input) E_ERR_CROP_SPEEDUP_DIAMOND_NOT_ENOUGH :: int where
  "E_ERR_CROP_SPEEDUP_DIAMOND_NOT_ENOUGH \<equiv> -101306"
abbreviation (input) E_ERR_CROP_NO_MATURITY_DONT_HARVEST :: int where
  "E_ERR_CROP_NO_MATURITY_DONT_HARVEST \<equiv> -101307"
abbreviation (input) E_ERR_CROP_ALREADY_PLANT :: int where "E_ERR_CROP_ALREADY_PLANT \<equiv> -101308"
abbreviation (input) E_ERR_CROP_ALREAY_MATURITY_NO_NEED_SPEEDUP :: int where
  "E_ERR_CROP_ALREAY_MATURITY_NO_NEED_SPEEDUP \<equiv> -101309"
abbreviation (input) PLAYER_BUILDING_TYPE_FARMLAND :: int where "PLAYER_BUILDING_TYPE_FARMLAND \<equiv> 1"

subsection \<open>The crop column\<close>

definition crop_remain :: "env \<Rightarrow> xml_crop \<Rightarrow> crop_data \<Rightarrow> int option" where
  "crop_remain e crop d = do {
     t \<leftarrow> go_nth (cr_Times crop) 1;
     Some (GetRemainSeconds e (crop_PlantTime d) t)
   }"

text \<open>\<open>GetCropInfo\<close> and its RPC twin: the crop's id and remaining seconds; the inner \<open>None\<close> is nil.\<close>

definition GetCropInfo :: "env \<Rightarrow> crop_data column \<Rightarrow> int \<Rightarrow> (int \<times> int) option option" where
  "GetCropInfo e m building_id =
     (case map_of m building_id of
        None \<Rightarrow> Some None
      | Some d \<Rightarrow>
      (case crop_map e (crop_Id d) of
        None \<Rightarrow> Some None
      | Some crop \<Rightarrow> map_option (\<lambda>r. Some (crop_Id d, r)) (crop_remain e crop d)))"

definition GetCropInfo4RPC :: "env \<Rightarrow> crop_data column \<Rightarrow> int \<Rightarrow> (int \<times> int) option option" where
  "GetCropInfo4RPC e m building_id = GetCropInfo e m building_id"

text \<open>\<open>Get4Msg\<close> lists the crops that have a table row and marks the ripe ones; \<open>Get4RPC\<close> does the
  same without the building ids.\<close>

fun Get4Msg :: "env \<Rightarrow> crop_data column \<Rightarrow> (crop_info list \<times> crop_data column) option" where
  "Get4Msg e [] = Some ([], [])"
| "Get4Msg e ((k, d) # m) =
     (case crop_map e (crop_Id d) of
        None \<Rightarrow> map_option (\<lambda>(rows, m). (rows, (k, d) # m)) (Get4Msg e m)
      | Some crop \<Rightarrow> do {
          remain_seconds \<leftarrow> crop_remain e crop d;
          (rows, m) \<leftarrow> Get4Msg e m;
          Some (\<lparr>cri_BuildingId = crop_BuildingId d, cri_CropId = crop_Id d,
                 cri_RemainSeconds = remain_seconds\<rparr> # rows,
                (k, if remain_seconds = 0 then d\<lparr>crop_PlantTime := 0\<rparr> else d) # m)
        })"

definition Get4RPC :: "env \<Rightarrow> crop_data column \<Rightarrow> ((int \<times> int) list \<times> crop_data column) option" where
  "Get4RPC e m =
     map_option (\<lambda>(rows, m). (map (\<lambda>r. (cri_CropId r, cri_RemainSeconds r)) rows, m)) (Get4Msg e m)"

text \<open>\<open>GetRemainSeconds\<close>, \<open>Speedup\<close> and \<open>Harvest\<close> of the column; the first result is an error code,
  0 or 1. \<open>Harvest\<close> deletes the row whether it is ripe or not.\<close>

definition Crops_GetRemainSeconds :: "env \<Rightarrow> int \<Rightarrow> player \<Rightarrow> (int \<times> int) option" where
  "Crops_GetRemainSeconds e farm_building_id p =
     (case map_of (p_Crops p) farm_building_id of
        None \<Rightarrow> Some (E_ERR_CROP_NOT_FOUND, 0)
      | Some d \<Rightarrow>
      (case crop_map e (crop_Id d) of
        None \<Rightarrow> Some (E_ERR_CROP_TABLE_DATA_NOT_FOUND, 0)
      | Some crop \<Rightarrow> map_option (Pair 0) (crop_remain e crop d)))"

definition Crops_Speedup :: "int \<Rightarrow> player \<Rightarrow> (int \<times> int) \<times> player" where
  "Crops_Speedup farm_building_id p =
     (case map_of (p_Crops p) farm_building_id of
        None \<Rightarrow> ((E_ERR_CROP_NOT_FOUND, 0), p)
      | Some d \<Rightarrow> ((1, crop_Id d),
          p\<lparr>p_Crops := AList.update farm_building_id (d\<lparr>crop_PlantTime := 0\<rparr>) (p_Crops p)\<rparr>))"

definition Crops_Harvest :: "env \<Rightarrow> int \<Rightarrow> player \<Rightarrow> ((int \<times> int \<times> int) \<times> player) option" where
  "Crops_Harvest e farm_building_id p =
     (case map_of (p_Crops p) farm_building_id of
        None \<Rightarrow> Some ((E_ERR_CROP_NOT_FOUND, 0, 0), p)
      | Some d \<Rightarrow>
      (case crop_map e (crop_Id d) of
        None \<Rightarrow> Some ((E_ERR_CROP_TABLE_DATA_NOT_FOUND, 0, 0), p)
      | Some crop \<Rightarrow> do {
          remain_seconds \<leftarrow> crop_remain e crop d;
          Some ((1, crop_Id d, remain_seconds),
                p\<lparr>p_Crops := AList.delete farm_building_id (p_Crops p)\<rparr>)
        }))"

subsection \<open>Handlers\<close>

definition get_crops :: "env \<Rightarrow> player \<Rightarrow> (int \<times> player) option" where
  "get_crops e p = do {
     (rows, m) \<leftarrow> Get4Msg e (p_Crops p);
     Some (1, Send_msg (S2CGetCropsResult rows) (p\<lparr>p_Crops := m\<rparr>))
   }"

definition plant_crop :: "env \<Rightarrow> int \<Rightarrow> int \<Rightarrow> player \<Rightarrow> (int \<times> player) option" where
  "plant_crop e crop_id dst_building_id p =
     (case crop_map e crop_id of
        None \<Rightarrow> Some (E_ERR_CROP_TABLE_DATA_NOT_FOUND, p)
      | Some crop \<Rightarrow>
        if cr_Level crop > p_Level p then Some (E_ERR_CROP_IS_NO_UNLOCK, p)
        else if cr_Cost crop > i_Gold (p_Info p) then Some (E_ERR_CROP_NEED_COIN_NOT_ENOUGH, p)
        else (case col_Get (p_Buildings p) dst_building_id of
            None \<Rightarrow> Some (E_ERR_CROP_BUILDING_NOT_FOUND, p)
          | Some farm \<Rightarrow>
          (case building_map e (bld_CfgId farm) of
            None \<Rightarrow> Some (E_ERR_CROP_BUILDING_IS_NOT_CROP, p)
          | Some building \<Rightarrow>
            if bd_Type building \<noteq> PLAYER_BUILDING_TYPE_FARMLAND
              then Some (E_ERR_CROP_BUILDING_IS_NOT_CROP, p)
            else if col_HasIndex (p_Crops p) dst_building_id then Some (E_ERR_CROP_ALREADY_PLANT, p)
            else
              let d = \<lparr>crop_BuildingId = dst_building_id, crop_Id = crop_id,
                    crop_PlantTime = i32 (now e), crop_BuildingTableId = bd_Id building\<rparr>;
                  p = p\<lparr>p_Crops := snd (col_Add dst_building_id d (p_Crops p))\<rparr>;
                  p = snd (SubGold (cr_Cost crop) p)
              in do {
                t \<leftarrow> go_nth (cr_Times crop) 1;
                Some (1, Send_msg (S2CPlantCropResult crop_id dst_building_id t) p)
              })))"

definition crop_diamonds :: "env \<Rightarrow> int \<Rightarrow> int option" where
  "crop_diamonds e remain_seconds =
     (let c = gc_CropSpeedupCostDiamond (config e)
      in quot32 (i32 (remain_seconds + i32 (c - 1))) c)"

definition speedup_crop :: "env \<Rightarrow> int \<Rightarrow> player \<Rightarrow> (int \<times> player) option" where
  "speedup_crop e farm_building_id p = do {
     (res, remain_seconds) \<leftarrow> Crops_GetRemainSeconds e farm_building_id p;
     if res < 0 then Some (res, p)
     else if remain_seconds = 0 then Some (E_ERR_CROP_ALREAY_MATURITY_NO_NEED_SPEEDUP, p)
     else do {
       need_diamond \<leftarrow> crop_diamonds e remain_seconds;
       if need_diamond > i_Diamond (p_Info p) then Some (E_ERR_CROP_SPEEDUP_DIAMOND_NOT_ENOUGH, p)
       else (case Crops_Speedup farm_building_id p of ((res, crop_id), p) \<Rightarrow>
         if res < 0 then Some (res, p)
         else
           let p = snd (SubDiamond need_diamond p)
           in Some (1, Send_msg (S2CCropSpeedupResult farm_building_id crop_id need_diamond) p))
     }
   }"

definition harvest_crop :: "env \<Rightarrow> int \<Rightarrow> bool \<Rightarrow> player \<Rightarrow> (int \<times> player) option" where
  "harvest_crop e farm_building_id is_speedup p = do {
     ((res, crop_id, remain_seconds), p) \<leftarrow> Crops_Harvest e farm_building_id p;
     if res < 0 then Some (res, p)
     else if remain_seconds > 0 \<and> \<not> is_speedup then Some (E_ERR_CROP_NO_MATURITY_DONT_HARVEST, p)
     else do {
       need_diamond \<leftarrow> (if remain_seconds > 0 then crop_diamonds e remain_seconds else Some 0);
       (case crop_map e crop_id of
          None \<Rightarrow> Some (-1, p)
        | Some crop \<Rightarrow> do {
            let p = snd (AddCatFood (cr_Output crop) p);
            let p = (if need_diamond > 0 then snd (SubDiamond need_diamond p) else p);
            (_, p) \<leftarrow> AddExp e (cr_Exp crop) p;
            Some (cr_Output crop, Send_msg (S2CHarvestCropResult farm_building_id (cr_Output crop)
                    is_speedup crop_id (cr_Exp crop)) p)
          })
     }
   }"

fun harvest_loop :: "env \<Rightarrow> int list \<Rightarrow> int \<Rightarrow> player \<Rightarrow> ((int + int) \<times> player) option" where
  "harvest_loop e [] cat_food p = Some (Inr cat_food, p)"
| "harvest_loop e (b # bs) cat_food p = do {
     (res, p) \<leftarrow> harvest_crop e b False p;
     if res < 0 then Some (Inl res, p) else harvest_loop e bs (i32 (cat_food + res)) p
   }"

definition harvest_crops :: "env \<Rightarrow> int list \<Rightarrow> player \<Rightarrow> (int \<times> player) option" where
  "harvest_crops e building_ids p = do {
     (r, p) \<leftarrow> harvest_loop e building_ids 0 p;
     (case r of
        Inl res \<Rightarrow> Some (res, p)
      | Inr cat_food \<Rightarrow> Some (1, Send_msg (S2CHarvestCropsResult building_ids cat_food) p))
   }"

definition remove_crop :: "int \<Rightarrow> player \<Rightarrow> int \<times> player" where
  "remove_crop building_id p =
     (if \<not> col_HasIndex (p_Crops p) building_id then (E_ERR_CROP_NOT_FOUND, p)
      else (1, p\<lparr>p_Crops := col_Remove building_id (p_Crops p)\<rparr>))"

subsection \<open>What the steps leave alone\<close>

lemma AddExp_shape:
  assumes "AddExp e v p = Some (r, q)"
  shows "\<exists>l x b ef. q = p\<lparr>p_Level := l, p_Info := (p_Info p)\<lparr>i_Exp := x\<rparr>, p_base_prop_chg := b, p_effects := ef\<rparr>"
proof -
  have same: "\<exists>l x b ef. p\<lparr>p_base_prop_chg := b'\<rparr>
      = p\<lparr>p_Level := l, p_Info := (p_Info p)\<lparr>i_Exp := x\<rparr>, p_base_prop_chg := b, p_effects := ef\<rparr>" for b'
    by (intro exI [of _ "p_Level p"] exI [of _ "i_Exp (p_Info p)"] exI [of _ b'] exI [of _ "p_effects p"]) simp
  from same [of "p_base_prop_chg p"]
  have same0: "\<exists>l x b ef. p
      = p\<lparr>p_Level := l, p_Info := (p_Info p)\<lparr>i_Exp := x\<rparr>, p_base_prop_chg := b, p_effects := ef\<rparr>" by simp
  consider (none) "v < 0 \<or> p_Level p < 1" | (top) "\<not> v < 0" "\<not> p_Level p < 1" "\<not> i32 (p_Level p + 1) \<le> max_level e"
    | (loop) "\<not> v < 0" "\<not> p_Level p < 1" "i32 (p_Level p + 1) \<le> max_level e" by blast
  then show ?thesis
  proof cases
    case none
    then have "q = p" using assms by (auto simp: AddExp_def Let_def split: if_splits)
    with same0 show ?thesis by simp
  next
    case top
    then have "q = p\<lparr>p_base_prop_chg := True\<rparr>" using assms by (simp add: AddExp_def Let_def)
    with same show ?thesis by simp
  next
    case loop
    then obtain l x where "exp_loop e (p_Level p) (i32 (i_Exp (p_Info p) + v)) = Some (l, x)"
      using assms by (cases "exp_loop e (p_Level p) (i32 (i_Exp (p_Info p) + v))") (auto simp: AddExp_def Let_def)
    with loop assms have q: "q = (let p1 = (if l \<noteq> p_Level p then p\<lparr>p_Level := l\<rparr> else p);
        p2 = p1\<lparr>p_Info := (p_Info p1)\<lparr>i_Exp := x\<rparr>, p_base_prop_chg := True\<rparr>
      in if p_Level p < l then rpc_player_base_info_update p2 else p2)"
      by (simp add: AddExp_def Let_def Info_Set_def)
    show ?thesis
      by (intro exI [of _ l] exI [of _ x] exI [of _ True] exI [of _ "p_effects q"])
         (simp add: q Let_def rpc_player_base_info_update_def emit_def)
  qed
qed

lemma AddExp_frame:
  assumes "AddExp e v p = Some (r, q)"
  shows "i_CatFood (p_Info q) = i_CatFood (p_Info p)" and "i_Diamond (p_Info q) = i_Diamond (p_Info p)"
    and "i_Gold (p_Info q) = i_Gold (p_Info p)"
    and "p_Crops q = p_Crops p" and "p_Items q = p_Items p"
  using AddExp_shape [OF assms] by (elim exE, simp)+

lemma AddCatFood_frame [simp]: "p_Crops (snd (AddCatFood v p)) = p_Crops p"
  "i_Diamond (p_Info (snd (AddCatFood v p))) = i_Diamond (p_Info p)"
  by (simp_all add: AddCatFood_def add_capped_def player_simps)

lemma SubDiamond_frame [simp]: "p_Crops (snd (SubDiamond v p)) = p_Crops p"
  "i_CatFood (p_Info (snd (SubDiamond v p))) = i_CatFood (p_Info p)"
  by (simp_all add: SubDiamond_def Info_SubDiamond_def player_simps)

lemma SubDiamond_floor:
  assumes "0 \<le> v" "in32 v" "0 \<le> i_Diamond (p_Info p)" "in32 (i_Diamond (p_Info p))"
  shows "i_Diamond (p_Info (snd (SubDiamond v p))) = max 0 (i_Diamond (p_Info p) - v)"
  using assms by (simp add: SubDiamond_def Info_SubDiamond_def player_simps i32_range_id in32_def)

text \<open>The diamond price of \<open>r\<close> seconds: one per started \<open>c\<close> seconds.\<close>

definition started :: "int \<Rightarrow> int \<Rightarrow> int" where
  "started c r = (r + (c - 1)) div c"

lemma crop_diamonds_started:
  assumes "1 \<le> gc_CropSpeedupCostDiamond (config e)" "0 \<le> r" "r + gc_CropSpeedupCostDiamond (config e) \<le> max32"
  shows "crop_diamonds e r = Some (started (gc_CropSpeedupCostDiamond (config e)) r)"
    and "0 \<le> started (gc_CropSpeedupCostDiamond (config e)) r"
    and "in32 (started (gc_CropSpeedupCostDiamond (config e)) r)"
    and "started (gc_CropSpeedupCostDiamond (config e)) 0 = 0"
proof -
  let ?c = "gc_CropSpeedupCostDiamond (config e)"
  have i: "i32 (?c - 1) = ?c - 1" "i32 (r + (?c - 1)) = r + (?c - 1)"
    using assms by (simp_all add: i32_range_id)
  show n0: "0 \<le> started ?c r" using assms by (simp add: started_def pos_imp_zdiv_nonneg_iff)
  have "started ?c r \<le> r + (?c - 1)"
    using zdiv_mono2 [of "r + (?c - 1)" 1 ?c] assms by (simp add: started_def)
  then show n32: "in32 (started ?c r)" using n0 assms by (simp add: in32_def)
  show "crop_diamonds e r = Some (started ?c r)"
    using assms i n32 by (simp add: crop_diamonds_def Let_def quot32_def sdiv_nonneg started_def i32_id)
  show "started ?c 0 = 0" using assms by (simp add: started_def div_pos_pos_trivial)
qed

lemma harvest_paid:
  assumes "map_of (p_Crops p) b = Some d" "crop_map e (crop_Id d) = Some crop"
    and "crop_remain e crop d = Some rem" "rem \<le> 0 \<or> sp"
    and "need = (if 0 < rem then crop_diamonds e rem else Some 0)" "need = Some n" "0 \<le> n" "in32 n"
    and "0 \<le> cr_Output crop" "in32 (cr_Output crop)"
    and "0 \<le> i_CatFood (p_Info p)" "in32 (i_CatFood (p_Info p))"
    and "0 \<le> i_Diamond (p_Info p)" "in32 (i_Diamond (p_Info p))"
    and "harvest_crop e b sp p = Some (r, q)"
  shows "r = cr_Output crop \<and> map_of (p_Crops q) = (map_of (p_Crops p))(b := None)
    \<and> i_CatFood (p_Info q) = min max32 (i_CatFood (p_Info p) + cr_Output crop)
    \<and> i_Diamond (p_Info q) = max 0 (i_Diamond (p_Info p) - n)"
proof -
  let ?p0 = "p\<lparr>p_Crops := AList.delete b (p_Crops p)\<rparr>"
  let ?p1 = "snd (AddCatFood (cr_Output crop) ?p0)"
  let ?p2 = "if 0 < n then snd (SubDiamond n ?p1) else ?p1"
  have h: "Crops_Harvest e b p = Some ((1, crop_Id d, rem), ?p0)"
    by (simp add: Crops_Harvest_def assms(1-3))
  have "\<not> (0 < rem \<and> \<not> sp)" using assms(4) by auto
  then obtain x q1 where x: "AddExp e (cr_Exp crop) ?p2 = Some (x, q1)" and r: "r = cr_Output crop"
    and q: "q = Send_msg (S2CHarvestCropResult b (cr_Output crop) sp (crop_Id d) (cr_Exp crop)) q1"
    using assms(15) assms(5,6) by (auto simp: harvest_crop_def h assms(2) bind_eq_Some_conv Let_def)
  have f: "i_CatFood (p_Info ?p1) = min max32 (i_CatFood (p_Info p) + cr_Output crop)"
    using cat_food.earn_bal [OF assms(9,10), of ?p0] assms(11,12) by simp
  have d: "i_Diamond (p_Info ?p2) = max 0 (i_Diamond (p_Info p) - n)"
    using SubDiamond_floor [OF assms(7,8), of ?p1] assms(7,13,14) by simp
  have "p_Crops ?p2 = AList.delete b (p_Crops p)" "i_CatFood (p_Info ?p2) = i_CatFood (p_Info ?p1)" by simp_all
  with AddExp_frame [OF x] f d show ?thesis
    by (simp add: r q delete_conv')
qed

section \<open>Properties\<close>

text \<open>
  Property C7. Harvesting a farm that has a crop. A crop that is not in the table is refused and stays.
  A crop of the table is removed in every case, for a remaining time, an output and balances that are
  not negative and a positive price unit, in 32 bits also with the remaining time: a ripe crop, or any crop with the speed-up flag, credits its output, capped at
  the largest \<open>int32\<close>; the speed-up costs a diamond per started price unit, but the balance is not
  checked, so a player with too few diamonds is only brought to zero. Without the flag an unripe crop is
  refused with "not ripe", and is lost with nothing paid.
\<close>

theorem harvest_crop_spec:
  assumes "map_of (p_Crops p) b = Some d" "harvest_crop e b sp p = Some (r, q)"
  shows "(crop_map e (crop_Id d) = None \<longrightarrow> r = E_ERR_CROP_TABLE_DATA_NOT_FOUND \<and> q = p)
    \<and> (\<forall>crop rem. crop_map e (crop_Id d) = Some crop \<longrightarrow> crop_remain e crop d = Some rem \<longrightarrow> 0 \<le> rem
      \<longrightarrow> 1 \<le> gc_CropSpeedupCostDiamond (config e) \<longrightarrow> rem + gc_CropSpeedupCostDiamond (config e) \<le> max32
      \<longrightarrow> 0 \<le> cr_Output crop \<longrightarrow> in32 (cr_Output crop)
      \<longrightarrow> 0 \<le> i_CatFood (p_Info p) \<longrightarrow> in32 (i_CatFood (p_Info p))
      \<longrightarrow> 0 \<le> i_Diamond (p_Info p) \<longrightarrow> in32 (i_Diamond (p_Info p))
      \<longrightarrow> map_of (p_Crops q) = (map_of (p_Crops p))(b := None)
        \<and> (if rem = 0 \<or> sp then r = cr_Output crop
             \<and> i_CatFood (p_Info q) = min max32 (i_CatFood (p_Info p) + cr_Output crop)
             \<and> i_Diamond (p_Info q)
                 = max 0 (i_Diamond (p_Info p) - started (gc_CropSpeedupCostDiamond (config e)) rem)
           else r = E_ERR_CROP_NO_MATURITY_DONT_HARVEST \<and> p_Info q = p_Info p))"
proof (intro conjI [of "_ \<longrightarrow> _"] allI impI)
  assume "crop_map e (crop_Id d) = None"
  with assms show "r = E_ERR_CROP_TABLE_DATA_NOT_FOUND \<and> q = p"
    by (auto simp: harvest_crop_def Crops_Harvest_def)
next
  fix crop rem
  assume c: "crop_map e (crop_Id d) = Some crop" "crop_remain e crop d = Some rem" "0 \<le> rem"
    "1 \<le> gc_CropSpeedupCostDiamond (config e)" "rem + gc_CropSpeedupCostDiamond (config e) \<le> max32"
    "0 \<le> cr_Output crop" "in32 (cr_Output crop)" "0 \<le> i_CatFood (p_Info p)" "in32 (i_CatFood (p_Info p))"
    "0 \<le> i_Diamond (p_Info p)" "in32 (i_Diamond (p_Info p))"
  show "map_of (p_Crops q) = (map_of (p_Crops p))(b := None)
        \<and> (if rem = 0 \<or> sp then r = cr_Output crop
             \<and> i_CatFood (p_Info q) = min max32 (i_CatFood (p_Info p) + cr_Output crop)
             \<and> i_Diamond (p_Info q)
                 = max 0 (i_Diamond (p_Info p) - started (gc_CropSpeedupCostDiamond (config e)) rem)
           else r = E_ERR_CROP_NO_MATURITY_DONT_HARVEST \<and> p_Info q = p_Info p)"
  proof (cases "rem = 0 \<or> sp")
    case True
    note price = crop_diamonds_started [OF c(4,3,5)]
    have need: "(if 0 < rem then crop_diamonds e rem else Some 0)
        = Some (started (gc_CropSpeedupCostDiamond (config e)) rem)"
      using c(3) price by (cases "rem = 0") simp_all
    from True have "rem \<le> 0 \<or> sp" by auto
    from harvest_paid [OF assms(1) c(1,2) this refl need price(2,3) c(6-11) assms(2)] True show ?thesis by simp
  next
    case False
    with assms c(1-3) show ?thesis by (simp add: harvest_crop_def Crops_Harvest_def delete_conv')
        (auto simp: delete_conv')
  qed
qed

definition demo_crop_env :: env where
  "demo_crop_env = empty_env\<lparr>now := 1000, config := empty_config\<lparr>gc_CropSpeedupCostDiamond := 60\<rparr>,
     crop_map := [11 \<mapsto> \<lparr>cr_Id = 11, cr_Level = 1, cr_Cost = 30, cr_Output = 50, cr_Times = [0, 600], cr_Exp = 0\<rparr>],
     building_map := [21 \<mapsto> \<lparr>bd_Id = 21, bd_Type = 1, bd_Rarity = 1, bd_Tag = 0, bd_UnlockType = 0, bd_UnlockLevel = 0, bd_UnlockCosts = [], bd_Charm = 0,
       bd_Geography = 1, bd_SaleCoin = 0, bd_MapSizes = [1, 1], bd_IfFunction = 0\<rparr>]\<rparr>"

definition demo_crop_player :: player where
  "demo_crop_player = empty_player\<lparr>p_Info := empty_info\<lparr>i_Diamond := 2, i_Gold := 100\<rparr>,
     p_Buildings := [(5, \<lparr>bld_Id = 5, bld_CfgId = 21, bld_X = 0, bld_Y = 0, bld_Dir = 0, bld_CreateUnix = 0, bld_OverUnix = 0\<rparr>)],
     p_Crops := [(3, \<lparr>crop_BuildingId = 3, crop_Id = 11, crop_PlantTime = 900, crop_BuildingTableId = 21\<rparr>)]\<rparr>"

lemmas demo_crop_defs = demo_crop_env_def demo_crop_player_def empty_env_def empty_player_def empty_info_def
  empty_config_def

lemma demo_harvest: "\<exists>q. harvest_crop demo_crop_env 3 True demo_crop_player = Some (50, q)"
  by (simp add: harvest_crop_def Crops_Harvest_def crop_remain_def GetRemainSeconds_def crop_diamonds_def
      quot32_def go_nth_def demo_crop_defs i32_def AddExp_def AddCatFood_def add_capped_def
      SubDiamond_def Info_SubDiamond_def player_simps signed_divide_int_def)

lemma harvest_crop_spec_witness:
  "\<exists>q. harvest_crop demo_crop_env 3 True demo_crop_player = Some (50, q)
     \<and> i_CatFood (p_Info q) = 50 \<and> i_Diamond (p_Info q) = 0"
proof -
  from demo_harvest obtain q where q: "harvest_crop demo_crop_env 3 True demo_crop_player = Some (50, q)" by blast
  let ?d = "\<lparr>crop_BuildingId = 3, crop_Id = 11, crop_PlantTime = 900, crop_BuildingTableId = 21\<rparr>"
  let ?crop = "\<lparr>cr_Id = 11, cr_Level = 1, cr_Cost = 30, cr_Output = 50, cr_Times = [0, 600], cr_Exp = 0\<rparr>"
  have "crop_remain demo_crop_env ?crop ?d = Some 500"
    by (simp add: crop_remain_def GetRemainSeconds_def go_nth_def demo_crop_defs i32_def)
  moreover have "map_of (p_Crops demo_crop_player) 3 = Some ?d" by (simp add: demo_crop_defs)
  moreover have "crop_map demo_crop_env (crop_Id ?d) = Some ?crop" by (simp add: demo_crop_defs)
  ultimately show ?thesis using harvest_crop_spec [of demo_crop_player 3 ?d demo_crop_env True 50 q] q
    by (simp add: demo_crop_defs in32_def started_def)
qed

text \<open>
  Planting. Success needs an unlocked crop, enough gold, an own farm building without a
  crop; it adds exactly that crop, planted now, pays exactly its cost, and touches no other crop. Any other answer is
  an error and leaves the player unchanged.
\<close>

theorem plant_crop_spec:
  assumes "plant_crop e cid b p = Some (r, q)"
    and "\<forall>crop. crop_map e cid = Some crop \<longrightarrow> 0 \<le> cr_Cost crop" "in32 (i_Gold (p_Info p))"
  shows "(r \<noteq> 1 \<longrightarrow> r < 0 \<and> q = p) \<and>
    (r = 1 \<longrightarrow> (\<exists>crop farm building. crop_map e cid = Some crop \<and> cr_Level crop \<le> p_Level p
      \<and> cr_Cost crop \<le> i_Gold (p_Info p) \<and> map_of (p_Buildings p) b = Some farm
      \<and> building_map e (bld_CfgId farm) = Some building \<and> bd_Type building = PLAYER_BUILDING_TYPE_FARMLAND
      \<and> map_of (p_Crops p) b = None
      \<and> map_of (p_Crops q) = (map_of (p_Crops p))(b \<mapsto> \<lparr>crop_BuildingId = b, crop_Id = cid,
            crop_PlantTime = i32 (now e), crop_BuildingTableId = bd_Id building\<rparr>)
      \<and> i_Gold (p_Info q) = i_Gold (p_Info p) - cr_Cost crop))"
proof -
  have c: "p_Crops (snd (SubGold v p)) = p_Crops p" for v p
    by (simp add: SubGold_def sub_plain_def player_simps)
  have g: "i_Gold (p_Info (snd (SubGold v p'))) = i_Gold (p_Info p) - v"
    if "0 \<le> v" "v \<le> i_Gold (p_Info p)" "p_Info p' = p_Info p" for v p'
    using gold.spend_bal [of v p'] that assms(3) by simp
  show ?thesis
    using assms(1,2)
    by (auto simp: plant_crop_def Let_def col_simps bind_eq_Some_conv c g split: option.splits if_splits)
qed

lemma plant_crop_spec_witness:
  "\<exists>q. plant_crop demo_crop_env 11 5 demo_crop_player = Some (1, q) \<and> i_Gold (p_Info q) = 70"
proof -
  have "map_option fst (plant_crop demo_crop_env 11 5 demo_crop_player) = Some 1"
    by (simp add: plant_crop_def demo_crop_defs col_simps go_nth_def Let_def)
  then obtain q where q: "plant_crop demo_crop_env 11 5 demo_crop_player = Some (1, q)" by auto
  from plant_crop_spec [OF this] q show ?thesis
    by (auto simp: demo_crop_defs in32_def split: if_splits)
qed

end
