(* ===== verification/CatHouse.thy ===== *)
theory CatHouse
  imports Cats
begin

unbundle bit_operations_syntax

text \<open>
  \<open>game_server/player_cathouse.go\<close>: the houses cats live in. A house has a level (raised over time
  or at once for diamonds), a flag \<open>IsDone\<close> the client sets after a level-up, the ids of its cats,
  and while \<open>ProduceGoldTime\<close> is positive it produces gold from their abilities. A cat row names
  its house in \<open>CathouseId\<close>; both sides are kept in step by the operations below.
\<close>

abbreviation (input) E_ERR_CATHOUSE_TABLE_DATA_NOT_FOUND :: int where
  "E_ERR_CATHOUSE_TABLE_DATA_NOT_FOUND \<equiv> -101400"
abbreviation (input) E_ERR_CATHOUSE_NOT_FOUND :: int where "E_ERR_CATHOUSE_NOT_FOUND \<equiv> -101401"
abbreviation (input) E_ERR_CATHOUSE_CAT_ALREADY_IN_HOUSE :: int where
  "E_ERR_CATHOUSE_CAT_ALREADY_IN_HOUSE \<equiv> -101402"
abbreviation (input) E_ERR_CATHOUSE_IS_FULL :: int where "E_ERR_CATHOUSE_IS_FULL \<equiv> -101403"
abbreviation (input) E_ERR_CATHOUSE_CAT_NOT_IN_THE_HOUSE :: int where
  "E_ERR_CATHOUSE_CAT_NOT_IN_THE_HOUSE \<equiv> -101404"
abbreviation (input) E_ERR_CATHOUSE_NOT_FOUND_CAT_IN_HOUSE :: int where
  "E_ERR_CATHOUSE_NOT_FOUND_CAT_IN_HOUSE \<equiv> -101405"
abbreviation (input) E_ERR_CATHOUSE_IS_DOING_LEVEL_UP :: int where "E_ERR_CATHOUSE_IS_DOING_LEVEL_UP \<equiv> -101406"
abbreviation (input) E_ERR_CATHOUSE_LEVEL_IS_MAX :: int where "E_ERR_CATHOUSE_LEVEL_IS_MAX \<equiv> -101407"
abbreviation (input) E_ERR_CATHOUSE_LEVELUP_COST_NOT_ENOUGH :: int where
  "E_ERR_CATHOUSE_LEVELUP_COST_NOT_ENOUGH \<equiv> -101408"
abbreviation (input) E_ERR_CATHOUSE_NOT_DOING_LEVELUP :: int where "E_ERR_CATHOUSE_NOT_DOING_LEVELUP \<equiv> -101409"
abbreviation (input) E_ERR_CATHOUSE_SPEEDUP_LEVELUP_NOT_ENOUGH_DIAMOND :: int where
  "E_ERR_CATHOUSE_SPEEDUP_LEVELUP_NOT_ENOUGH_DIAMOND \<equiv> -101410"
abbreviation (input) E_ERR_CATHOUSE_CANT_SELL :: int where "E_ERR_CATHOUSE_CANT_SELL \<equiv> -101411"
abbreviation (input) E_ERR_CATHOUSE_CAT_MUST_SAME_COLOR :: int where
  "E_ERR_CATHOUSE_CAT_MUST_SAME_COLOR \<equiv> -101412"
abbreviation (input) E_ERR_CATHOUSE_CAT_PRODUCING_GOLD :: int where
  "E_ERR_CATHOUSE_CAT_PRODUCING_GOLD \<equiv> -101413"
abbreviation (input) E_ERR_CATHOUSE_START_PRODUCE_GOLD_FAILED_NO_CAT :: int where
  "E_ERR_CATHOUSE_START_PRODUCE_GOLD_FAILED_NO_CAT \<equiv> -101414"

text \<open>A field of a house, zero when there is no such house.\<close>

abbreviation (input) house_get :: "(cathouse_data \<Rightarrow> 'a) \<Rightarrow> 'a \<Rightarrow> player \<Rightarrow> int \<Rightarrow> 'a" where
  "house_get sel z p b \<equiv> fst (col_get_field sel z (p_CatHouses p) b)"

subsection \<open>Reading\<close>

definition get_cathouse_table_data :: "env \<Rightarrow> int \<Rightarrow> int \<Rightarrow> xml_cathouse option" where
  "get_cathouse_table_data e cathouse_cid level =
     (case cathouse_map e cathouse_cid of
        None \<Rightarrow> None
      | Some cathouse \<Rightarrow>
          if level < 1 \<or> level > int (length cathouse) then None
          else Some (cathouse ! nat (level - 1)))"

text \<open>The gold of one cat per minute; the bonus of its star is an unchecked index.\<close>

definition cat_gold :: "env \<Rightarrow> player \<Rightarrow> int \<Rightarrow> int option" where
  "cat_gold e p cid =
     (case map_of (p_Cats p) cid of
        None \<Rightarrow> Some 0
      | Some d \<Rightarrow>
      (case cat_map e (cat_CfgId d) of
        None \<Rightarrow> Some 0
      | Some cat \<Rightarrow> do {
          add \<leftarrow> go_nth (ch_AddCoins cat) (i32 (cat_Star d - 1));
          Some (i32 (i32 (i32 (i32 (ch_GrowthRate cat * cat_Level d) sdiv 100 + cat_CoinAbility d)
            + i32 (i32 (cat_CoinAbility d * ch_InitialRate cat) * i32 (cat_Level d - 1)) sdiv 100) + add))
        }))"

fun cats_gold :: "env \<Rightarrow> player \<Rightarrow> int list \<Rightarrow> int \<Rightarrow> int option" where
  "cats_gold e p [] v = Some v"
| "cats_gold e p (c # cs) v = do { t \<leftarrow> cat_gold e p c; cats_gold e p cs (i32 (v + t)) }"

definition get_cathouse_curr_gold :: "env \<Rightarrow> int \<Rightarrow> player \<Rightarrow> int option" where
  "get_cathouse_curr_gold e building_id p =
     (let produce_time = house_get ho_ProduceGoldTime 0 p building_id in
      if produce_time \<le> 0 then Some 0
      else
        let lim = i32 (gc_CatHouseProduceGoldMinutes (config e) * 60);
            cost_seconds = i32 (i32 (now e) - produce_time);
            cost_seconds = (if cost_seconds > lim then lim else cost_seconds)
        in do {
          v \<leftarrow> cats_gold e p (house_get ho_CatIds [] p building_id) 0;
          Some (i32 (i32 (cost_seconds * v) sdiv 60))
        })"

subsection \<open>Levels\<close>

definition update_cathouse_level :: "env \<Rightarrow> int \<Rightarrow> player \<Rightarrow> (bool \<times> int \<times> int) \<times> player" where
  "update_cathouse_level e building_id p =
     (case map_of (p_CatHouses p) building_id of
        None \<Rightarrow> ((False, 0, 0), p)
      | Some h \<Rightarrow>
          if ho_LevelupStartTime h \<le> 0 then ((False, ho_Level h, 0), p)
          else (case get_cathouse_table_data e (ho_CfgId h) (i32 (ho_Level h + 1)) of
              None \<Rightarrow> ((False, ho_Level h, 0), p)
            | Some cathouse \<Rightarrow>
                let cost_time = i32 (i32 (now e) - ho_LevelupStartTime h) in
                if cost_time < chs_Time cathouse
                then ((False, ho_Level h, i32 (chs_Time cathouse - cost_time)), p)
                else
                  let level = i32 (ho_Level h + 1) in
                  ((True, level, 0),
                   CatHouses_Set building_id (\<lambda>h. h\<lparr>ho_LevelupStartTime := 0\<rparr>)
                     (CatHouses_Set building_id (\<lambda>h. h\<lparr>ho_Level := level\<rparr>) p))))"

definition if_cathouse_can_create :: "env \<Rightarrow> int \<Rightarrow> player \<Rightarrow> bool" where
  "if_cathouse_can_create e cathouse_cid p =
     (if building_map e cathouse_cid = None then False
      else (case get_cathouse_table_data e cathouse_cid 1 of
          None \<Rightarrow> False
        | Some cathouse \<Rightarrow> \<not> (chs_UnlockStar cathouse > i_TotalStars (p_Info p))))"

definition produce_remain :: "env \<Rightarrow> int \<Rightarrow> int" where
  "produce_remain e produce_time =
     (if produce_time \<le> 0 then -1
      else GetRemainSeconds e produce_time (i32 (gc_CatHouseProduceGoldMinutes (config e) * 60)))"

definition send_cathouse_info :: "env \<Rightarrow> int \<Rightarrow> bool \<Rightarrow> player \<Rightarrow> player option" where
  "send_cathouse_info e building_id on_update p =
     (case map_of (p_CatHouses p) building_id of
        None \<Rightarrow> Some p
      | Some h \<Rightarrow> do {
          (curr_gold, level, remain_seconds, p) \<leftarrow>
            (if on_update then do {
               g \<leftarrow> get_cathouse_curr_gold e building_id p;
               (case update_cathouse_level e building_id p of ((_, level, remain), p) \<Rightarrow>
                  Some (g, level, remain, p))
             } else Some (0, ho_Level h, 0, p));
          Some (Send_msg (S2CGetCatHouseInfoResult
            \<lparr>hi_CatHouseId = building_id, hi_CatIds = house_get ho_CatIds [] p building_id,
             hi_Level = level, hi_Gold = curr_gold, hi_NextLevelRemainSeconds = remain_seconds,
             hi_BuildingConfigId = house_get ho_CfgId 0 p building_id,
             hi_IsDone = house_get ho_IsDone 0 p building_id,
             hi_ProduceGoldRemainSeconds = produce_remain e (house_get ho_ProduceGoldTime 0 p building_id)\<rparr>) p)
        })"

definition cathouse_start_levelup :: "env \<Rightarrow> int \<Rightarrow> bool \<Rightarrow> player \<Rightarrow> (int \<times> player) option" where
  "cathouse_start_levelup e building_id send_info p =
     (case map_of (p_CatHouses p) building_id of
        None \<Rightarrow> Some (E_ERR_CATHOUSE_NOT_FOUND, p)
      | Some h \<Rightarrow>
        if ho_IsDone h = 0 then Some (-1, p)
        else if ho_LevelupStartTime h > 0 then Some (E_ERR_CATHOUSE_IS_DOING_LEVEL_UP, p)
        else (case cathouse_map e (ho_CfgId h) of
            None \<Rightarrow> Some (E_ERR_CATHOUSE_TABLE_DATA_NOT_FOUND, p)
          | Some cathouse \<Rightarrow>
            if ho_Level h \<ge> int (length cathouse) then Some (E_ERR_CATHOUSE_LEVEL_IS_MAX, p)
            else do {
              row \<leftarrow> go_nth cathouse (i32 (i32 (ho_Level h + 1) - 1));
              if i_Gold (p_Info p) < chs_Cost row then Some (E_ERR_CATHOUSE_LEVELUP_COST_NOT_ENOUGH, p)
              else do {
                let p = CatHouses_Set building_id (\<lambda>h. h\<lparr>ho_LevelupStartTime := i32 (now e)\<rparr>) p;
                let p = CatHouses_Set building_id (\<lambda>h. h\<lparr>ho_IsDone := 0\<rparr>) p;
                let p = snd (SubGold (chs_Cost row) p);
                let p = Send_msg (S2CCatHouseStartLevelupResult building_id (chs_Time row)) p;
                p \<leftarrow> (if send_info then send_cathouse_info e building_id True p else Some p);
                Some (1, p)
              }
            }))"

definition cathouse_speed_levelup :: "env \<Rightarrow> int \<Rightarrow> player \<Rightarrow> (int \<times> player) option" where
  "cathouse_speed_levelup e building_id p =
     (let start = house_get ho_LevelupStartTime 0 p building_id;
          next_level = i32 (house_get ho_Level 0 p building_id + 1)
      in if start \<le> 0 then Some (E_ERR_CATHOUSE_NOT_DOING_LEVELUP, p)
         else do {
           cathouse \<leftarrow> get_cathouse_table_data e (house_get ho_CfgId 0 p building_id) next_level;
           let remain_seconds = GetRemainSeconds e start (chs_Time cathouse);
           if remain_seconds = 0 then Some (1, p)
           else do {
             let c = gc_CatHouseSpeedupLevelCostDiamond (config e);
             cost_diamond \<leftarrow> quot32 (i32 (remain_seconds + i32 (c - 1))) c;
             if i_Diamond (p_Info p) < cost_diamond
             then Some (E_ERR_CATHOUSE_SPEEDUP_LEVELUP_NOT_ENOUGH_DIAMOND, p)
             else do {
               _ \<leftarrow> get_cathouse_curr_gold e building_id p;
               let p = CatHouses_Set building_id (\<lambda>h. h\<lparr>ho_Level := next_level\<rparr>) p;
               let p = CatHouses_Set building_id (\<lambda>h. h\<lparr>ho_LevelupStartTime := 0\<rparr>) p;
               let p = CatHouses_Set building_id (\<lambda>h. h\<lparr>ho_IsDone := 0\<rparr>) p;
               let p = snd (SubDiamond cost_diamond p);
               let p = Send_msg (S2CCatHouseSpeedLevelupResult building_id cost_diamond) p;
               p \<leftarrow> send_cathouse_info e building_id False p;
               Some (1, p)
             }
           }
         })"

definition cathouse_setdone :: "env \<Rightarrow> int \<Rightarrow> player \<Rightarrow> (int \<times> player) option" where
  "cathouse_setdone e building_id p =
     (let p = snd (update_cathouse_level e building_id p) in
      if \<not> col_HasIndex (p_CatHouses p) building_id then Some (E_ERR_CATHOUSE_NOT_FOUND, p)
      else do {
        let p = CatHouses_Set building_id (\<lambda>h. h\<lparr>ho_IsDone := 1\<rparr>) p;
        let p = Send_msg (S2CCatHouseSetDoneResult building_id 1) p;
        p \<leftarrow> send_cathouse_info e building_id False p;
        Some (1, p)
      })"

subsection \<open>Creating and removing houses\<close>

text \<open>\<open>create_cathouse\<close>: whether it returns a house. When the first level cannot be started the new
  row stays although nil is returned.\<close>

definition create_cathouse :: "env \<Rightarrow> int \<Rightarrow> player \<Rightarrow> (bool \<times> player) option" where
  "create_cathouse e building_id p =
     (case map_of (p_Buildings p) building_id of
        None \<Rightarrow> Some (False, p)
      | Some b \<Rightarrow> do {
          (ok, p) \<leftarrow>
            (if col_HasIndex (p_CatHouses p) building_id then Some (True, p)
             else do {
               let d = \<lparr>ho_BuildingId = building_id, ho_CfgId = bld_CfgId b, ho_Level = 0, ho_CatIds = [],
                     ho_LastGetGoldTime = i32 (now e), ho_CurrGold = 0, ho_LevelupStartTime = 0,
                     ho_IsDone = 1, ho_ProduceGoldTime = 0\<rparr>;
               (r, p) \<leftarrow> cathouse_start_levelup e building_id False
                   (p\<lparr>p_CatHouses := snd (col_Add building_id d (p_CatHouses p))\<rparr>);
               Some (\<not> r < 0, p)
             });
          if \<not> ok then Some (False, p)
          else do {
            p \<leftarrow> send_cathouse_info e building_id True p;
            Some (True, p)
          }
        })"

definition remove_cathouse :: "int \<Rightarrow> player \<Rightarrow> bool \<times> player" where
  "remove_cathouse building_id p =
     (if \<not> col_HasIndex (p_CatHouses p) building_id then (False, p)
      else (True, p\<lparr>p_CatHouses := col_Remove building_id (p_CatHouses p)\<rparr>))"

definition cathouse_can_remove :: "int \<Rightarrow> player \<Rightarrow> int" where
  "cathouse_can_remove building_id p =
     (case map_of (p_CatHouses p) building_id of
        None \<Rightarrow> E_ERR_CATHOUSE_NOT_FOUND
      | Some h \<Rightarrow> if ho_CatIds h \<noteq> [] then E_ERR_CATHOUSE_CANT_SELL else 1)"

definition cathouse_remove :: "env \<Rightarrow> int \<Rightarrow> bool \<Rightarrow> player \<Rightarrow> (int \<times> player) option" where
  "cathouse_remove e building_id is_sell p =
     (case map_of (p_CatHouses p) building_id of
        None \<Rightarrow> Some (E_ERR_CATHOUSE_NOT_FOUND, p)
      | Some h \<Rightarrow>
      (case get_cathouse_table_data e (ho_CfgId h) (ho_Level h) of
        None \<Rightarrow> Some (E_ERR_CATHOUSE_TABLE_DATA_NOT_FOUND, p)
      | Some cathouse \<Rightarrow> do {
          p \<leftarrow> (if is_sell then do {
                  add_gold \<leftarrow> get_cathouse_curr_gold e building_id p;
                  Some (snd (AddGold (i32 (chs_SalePrice cathouse + add_gold)) p))
                } else Some p);
          Some (1, p\<lparr>p_CatHouses := col_Remove building_id (p_CatHouses p)\<rparr>)
        }))"

subsection \<open>Cats moving in and out\<close>

definition cathouse_add_cat :: "env \<Rightarrow> int \<Rightarrow> int \<Rightarrow> player \<Rightarrow> (int \<times> player) option" where
  "cathouse_add_cat e cat_id building_id p =
     (case map_of (p_Cats p) cat_id of
        None \<Rightarrow> Some (E_ERR_CAT_NOT_FOUND, p)
      | Some d \<Rightarrow>
        if cat_CathouseId d > 0 then Some (E_ERR_CATHOUSE_CAT_ALREADY_IN_HOUSE, p)
        else (case cat_map e (cat_CfgId d) of
            None \<Rightarrow> Some (E_ERR_CAT_TABLE_DATA_NOT_FOUND, p)
          | Some cat \<Rightarrow> do {
              (ok, p) \<leftarrow> create_cathouse e building_id p;
              if \<not> ok then Some (E_ERR_CATHOUSE_NOT_FOUND, p)
              else if house_get ho_ProduceGoldTime 0 p building_id > 0
                then Some (E_ERR_CATHOUSE_CAT_PRODUCING_GOLD, p)
              else (case get_cathouse_table_data e (house_get ho_CfgId 0 p building_id)
                           (house_get ho_Level 0 p building_id) of
                  None \<Rightarrow> Some (E_ERR_CATHOUSE_TABLE_DATA_NOT_FOUND, p)
                | Some cathouse \<Rightarrow>
                    let cat_ids = house_get ho_CatIds [] p building_id in
                    if chs_CatStorage cathouse \<le> int (length cat_ids) then Some (E_ERR_CATHOUSE_IS_FULL, p)
                    else if chs_Color cathouse AND ch_Color cat = 0
                      then Some (E_ERR_CATHOUSE_CAT_MUST_SAME_COLOR, p)
                    else if cat_id \<in> set cat_ids then Some (E_ERR_CATHOUSE_CAT_ALREADY_IN_HOUSE, p)
                    else do {
                      curr_gold \<leftarrow> get_cathouse_curr_gold e building_id p;
                      let p = CatHouses_Set building_id (\<lambda>h. h\<lparr>ho_CatIds := cat_ids @ [cat_id]\<rparr>) p;
                      let p = Cats_Set cat_id (\<lambda>d. d\<lparr>cat_CathouseId := building_id\<rparr>) p;
                      let p = Send_msg (S2CCatHouseAddCatResult building_id cat_id curr_gold) p;
                      p \<leftarrow> send_cathouse_info e building_id False p;
                      Some (1, SendCatsUpdate (snd (cat_update cat_id p)))
                    })
            }))"

text \<open>The deleting loop shifts the ids after the first match one place down and drops the last.\<close>

definition cathouse_remove_cat :: "env \<Rightarrow> int \<Rightarrow> int \<Rightarrow> player \<Rightarrow> (int \<times> player) option" where
  "cathouse_remove_cat e cat_id building_id p =
     (case map_of (p_CatHouses p) building_id of
        None \<Rightarrow> Some (E_ERR_CATHOUSE_NOT_FOUND, p)
      | Some h \<Rightarrow>
        if ho_IsDone h = 0 then Some (-1, p)
        else if ho_ProduceGoldTime h > 0 then Some (E_ERR_CATHOUSE_CAT_PRODUCING_GOLD, p)
        else (case map_of (p_Cats p) cat_id of
            None \<Rightarrow> Some (E_ERR_CAT_NOT_FOUND, p)
          | Some d \<Rightarrow>
            if cat_CathouseId d \<noteq> building_id then Some (E_ERR_CATHOUSE_CAT_NOT_IN_THE_HOUSE, p)
            else if cat_id \<notin> set (ho_CatIds h) then Some (E_ERR_CATHOUSE_NOT_FOUND_CAT_IN_HOUSE, p)
            else do {
              gold \<leftarrow> get_cathouse_curr_gold e building_id p;
              let p = CatHouses_Set building_id (\<lambda>h. h\<lparr>ho_CatIds := remove1 cat_id (ho_CatIds h)\<rparr>) p;
              let p = Cats_Set cat_id (\<lambda>d. d\<lparr>cat_CathouseId := 0\<rparr>) p;
              let p = SendCatsUpdate (snd (cat_update cat_id p));
              let p = Send_msg (S2CCatHouseRemoveCatResult building_id cat_id gold) p;
              p \<leftarrow> send_cathouse_info e building_id False p;
              Some (1, p)
            }))"

subsection \<open>Gold\<close>

definition cathouse_produce_gold :: "env \<Rightarrow> int \<Rightarrow> player \<Rightarrow> (int \<times> player) option" where
  "cathouse_produce_gold e building_id p =
     (case map_of (p_CatHouses p) building_id of
        None \<Rightarrow> Some (E_ERR_CATHOUSE_NOT_FOUND, p)
      | Some h \<Rightarrow>
        if ho_IsDone h = 0 then Some (-1, p)
        else if ho_CatIds h = [] then Some (E_ERR_CATHOUSE_START_PRODUCE_GOLD_FAILED_NO_CAT, p)
        else if ho_ProduceGoldTime h > 0 then Some (-1, p)
        else do {
          (action_num, p) \<leftarrow> GetItemResourceValue e ITEM_RESOURCE_ID_ACTION p;
          if action_num < 1 then Some (E_ERR_ITEM_ACTION_NOT_ENOUGH, p)
          else do {
            let p = CatHouses_Set building_id (\<lambda>h. h\<lparr>ho_ProduceGoldTime := i32 (now e)\<rparr>) p;
            (_, p) \<leftarrow> RemoveItemResource e ITEM_RESOURCE_ID_ACTION 1 p;
            let p = Send_msg (S2CCatHouseProduceGoldResult building_id) p;
            p \<leftarrow> send_cathouse_info e building_id False p;
            Some (1, SendItemsUpdate p)
          }
        })"

definition cathouse_collect_gold :: "env \<Rightarrow> int \<Rightarrow> player \<Rightarrow> (int \<times> player) option" where
  "cathouse_collect_gold e building_id p =
     (case map_of (p_CatHouses p) building_id of
        None \<Rightarrow> Some (E_ERR_CATHOUSE_NOT_FOUND, p)
      | Some h \<Rightarrow>
        if ho_IsDone h = 0 then Some (-1, p)
        else do {
          gold \<leftarrow> get_cathouse_curr_gold e building_id p;
          let p = snd (AddGold gold p);
          let p = CatHouses_Set building_id (\<lambda>h. h\<lparr>ho_ProduceGoldTime := 0\<rparr>) p;
          let p = Send_msg (S2CCatHouseGetGoldResult building_id gold) p;
          p \<leftarrow> send_cathouse_info e building_id False p;
          Some (gold, p)
        })"

fun collect_loop :: "env \<Rightarrow> int list \<Rightarrow> int \<Rightarrow> player \<Rightarrow> ((int + int) \<times> player) option" where
  "collect_loop e [] gold p = Some (Inr gold, p)"
| "collect_loop e (b # bs) gold p = do {
     (res, p) \<leftarrow> cathouse_collect_gold e b p;
     if res < 0 then Some (Inl res, p) else collect_loop e bs (i32 (gold + res)) p
   }"

definition cathouses_collect_gold :: "env \<Rightarrow> int list \<Rightarrow> player \<Rightarrow> (int \<times> player) option" where
  "cathouses_collect_gold e building_ids p = do {
     (r, p) \<leftarrow> collect_loop e building_ids 0 p;
     (case r of
        Inl res \<Rightarrow> Some (res, p)
      | Inr gold \<Rightarrow> Some (1, Send_msg (S2CCatHousesGetGoldResult building_ids gold) p))
   }"

subsection \<open>The list of houses\<close>

text \<open>\<open>get_cathouses_info\<close>: houses without a building are dropped, ids of missing cats are removed
  from the others, and each is reported.\<close>

fun cathouses_info_loop :: "env \<Rightarrow> int list \<Rightarrow> player \<Rightarrow> (cathouse_info list \<times> player) option" where
  "cathouses_info_loop e [] p = Some ([], p)"
| "cathouses_info_loop e (k # ks) p =
     (if \<not> col_HasIndex (p_Buildings p) k then
        cathouses_info_loop e ks (p\<lparr>p_CatHouses := col_Remove k (p_CatHouses p)\<rparr>)
      else (case map_of (p_CatHouses p) k of
          None \<Rightarrow> cathouses_info_loop e ks p
        | Some h \<Rightarrow> do {
            let cat_ids = filter (col_HasIndex (p_Cats p)) (ho_CatIds h);
            let p = (if length cat_ids < length (ho_CatIds h)
                     then CatHouses_Set k (\<lambda>h. h\<lparr>ho_CatIds := cat_ids\<rparr>) p else p);
            curr_gold \<leftarrow> get_cathouse_curr_gold e k p;
            (case update_cathouse_level e k p of ((_, level, remain_seconds), p) \<Rightarrow> do {
              (rows, q) \<leftarrow> cathouses_info_loop e ks p;
              Some (\<lparr>hi_CatHouseId = k, hi_CatIds = cat_ids, hi_Level = level, hi_Gold = curr_gold,
                     hi_NextLevelRemainSeconds = remain_seconds, hi_BuildingConfigId = ho_CfgId h,
                     hi_IsDone = house_get ho_IsDone 0 p k,
                     hi_ProduceGoldRemainSeconds = produce_remain e (house_get ho_ProduceGoldTime 0 p k)\<rparr>
                    # rows, q)
            })
          }))"

definition get_cathouses_info :: "env \<Rightarrow> player \<Rightarrow> (int \<times> player) option" where
  "get_cathouses_info e p = do {
     (houses, p) \<leftarrow> cathouses_info_loop e (col_GetAllIndex (p_CatHouses p)) p;
     Some (1, Send_msg (S2CGetCatHousesInfoResult houses) p)
   }"

subsection \<open>Who lives where\<close>

text \<open>What matters for residence: the ids in each house and the house named by each cat.\<close>

definition homes :: "player \<Rightarrow> (int \<rightharpoonup> int list) \<times> (int \<rightharpoonup> int)" where
  "homes p = ((\<lambda>b. map_option ho_CatIds (map_of (p_CatHouses p) b)),
     (\<lambda>c. map_option cat_CathouseId (map_of (p_Cats p) c)))"

definition residence_ok :: "int set \<Rightarrow> (int \<rightharpoonup> int list) \<times> (int \<rightharpoonup> int) \<Rightarrow> bool" where
  "residence_ok S r \<longleftrightarrow>
     (\<forall>b ids. fst r b = Some ids \<longrightarrow> 0 < b \<and> distinct ids \<and> (\<forall>c \<in> set ids. snd r c = Some b)) \<and>
     (\<forall>c b. snd r c = Some b \<longrightarrow> 0 < b \<longrightarrow> c \<in> S \<or> (\<exists>ids. fst r b = Some ids \<and> c \<in> set ids))"

text \<open>The invariant: houses have positive ids, the ids in a house are distinct cats that name this
  house, and every cat that names a house is listed there. \<open>S\<close> are the cats that may name a house
  without being listed: those that were in a house when it was sold.\<close>

definition house_inv :: "player \<Rightarrow> bool" where
  "house_inv p \<longleftrightarrow> residence_ok {} (homes p)"

lemma homes_apply:
  "fst (homes p) b = map_option ho_CatIds (map_of (p_CatHouses p) b)"
  "snd (homes p) c = map_option cat_CathouseId (map_of (p_Cats p) c)"
  by (simp_all add: homes_def)

lemma homes_eqI:
  "p_CatHouses q = p_CatHouses p \<Longrightarrow> p_Cats q = p_Cats p \<Longrightarrow> homes q = homes p"
  by (simp add: homes_def)

lemma homes_House_Set:
  assumes "\<And>h. ho_CatIds (u h) = ho_CatIds h"
  shows "homes (CatHouses_Set b u p) = homes p"
  by (auto simp: homes_def CatHouses_Set_def col_simps assms option.map_comp comp_def split: option.split)

lemma homes_quiet: "quiet p q \<Longrightarrow> homes q = homes p"
  by (rule homes_eqI) (simp_all add: quiet_frame)

lemma homes_set_ids:
  assumes "map_of (p_CatHouses p) b = Some h"
  shows "homes (CatHouses_Set b (\<lambda>h. h\<lparr>ho_CatIds := ids\<rparr>) p) = ((fst (homes p))(b \<mapsto> ids), snd (homes p))"
  using assms by (auto simp: homes_def CatHouses_Set_def col_simps)

lemma homes_set_cat:
  assumes "map_of (p_Cats p) c = Some d"
  shows "homes (Cats_Set c (\<lambda>d. d\<lparr>cat_CathouseId := b\<rparr>) p) = (fst (homes p), (snd (homes p))(c \<mapsto> b))"
  using assms by (auto simp: homes_def Cats_Set_def col_simps)

lemma homes_Send [simp]: "homes (Send_msg m p) = homes p"
  and homes_update [simp]: "homes (SendCatsUpdate (snd (cat_update c p))) = homes p"
  by (simp_all add: homes_def)

lemma homes_gold [simp]: "homes (snd (AddGold v p)) = homes p" "homes (snd (SubGold v p)) = homes p"
  and homes_diamond [simp]: "homes (snd (SubDiamond v p)) = homes p"
  by (rule homes_eqI; simp add: AddGold_def SubGold_def SubDiamond_def Info_SubDiamond_def
      add_capped_def sub_plain_def player_simps)+

lemma homes_level: "homes (snd (update_cathouse_level e b p)) = homes p"
  by (auto simp: update_cathouse_level_def homes_House_Set Let_def split: option.split)

lemma homes_send_info: "send_cathouse_info e b u p = Some q \<Longrightarrow> homes q = homes p"
  using homes_level [of e b p]
  by (auto simp: send_cathouse_info_def bind_eq_Some_conv case_prod_beta split: option.splits if_splits)

lemma homes_start_levelup: "cathouse_start_levelup e b s p = Some (r, q) \<Longrightarrow> homes q = homes p"
  by (auto simp: cathouse_start_levelup_def bind_eq_Some_conv Let_def homes_House_Set
      dest!: homes_send_info split: option.splits if_splits)

lemma homes_speed_levelup: "cathouse_speed_levelup e b p = Some (r, q) \<Longrightarrow> homes q = homes p"
  by (auto simp: cathouse_speed_levelup_def bind_eq_Some_conv Let_def homes_House_Set
      dest!: homes_send_info split: if_splits)

lemma homes_setdone: "cathouse_setdone e b p = Some (r, q) \<Longrightarrow> homes q = homes p"
  by (auto simp: cathouse_setdone_def bind_eq_Some_conv Let_def homes_House_Set homes_level
      dest!: homes_send_info split: if_splits)

lemma homes_collect: "cathouse_collect_gold e b p = Some (r, q) \<Longrightarrow> homes q = homes p"
  by (auto simp: cathouse_collect_gold_def bind_eq_Some_conv Let_def homes_House_Set
      dest!: homes_send_info split: option.splits if_splits)

lemma homes_RemoveItem: "homes (snd (RemoveItem e k n b p)) = homes p"
  by (rule homes_eqI)
     (auto simp: RemoveItem_def ChkRemoveItem_def Let_def split: option.split prod.split)

lemma homes_produce: "cathouse_produce_gold e b p = Some (r, q) \<Longrightarrow> homes q = homes p"
proof -
  have a: "RemoveItemResource e 14 1 p = Some (x, p1) \<Longrightarrow> homes p1 = homes p" for x p p1
    using homes_RemoveItem [of e 14 1 True p]
    by (auto simp: RemoveItemResource_def split: prod.splits option.splits)
  have s: "homes (SendItemsUpdate p) = homes p" for p by (rule homes_eqI) simp_all
  show "cathouse_produce_gold e b p = Some (r, q) \<Longrightarrow> homes q = homes p"
    by (auto simp: cathouse_produce_gold_def bind_eq_Some_conv Let_def homes_House_Set s
        GetItemResourceValue_plain dest!: homes_send_info a split: option.splits if_splits)
qed

text \<open>Creating adds at most an empty house.\<close>

lemma homes_create:
  assumes "create_cathouse e b p = Some (ok, q)"
  shows "homes q = homes p \<or> fst (homes p) b = None \<and> homes q = ((fst (homes p))(b \<mapsto> []), snd (homes p))"
proof -
  have add: "homes (p\<lparr>p_CatHouses := snd (col_Add b d (p_CatHouses p))\<rparr>)
      = ((fst (homes p))(b \<mapsto> []), snd (homes p))"
    if "\<not> col_HasIndex (p_CatHouses p) b" "ho_CatIds d = []" for d
    using that by (auto simp: homes_def col_simps)
  show ?thesis
    using assms
    by (auto simp: create_cathouse_def bind_eq_Some_conv Let_def add col_HasIndex_iff [symmetric]
        dest!: homes_send_info homes_start_levelup split: option.splits if_splits)
       (auto simp: homes_def col_simps)
qed

subsection \<open>Abstract moves\<close>

text \<open>The specification of the two operations on residence alone.\<close>

definition move_in :: "int \<Rightarrow> int \<Rightarrow> (int \<rightharpoonup> int list) \<times> (int \<rightharpoonup> int) \<Rightarrow> (int \<rightharpoonup> int list) \<times> (int \<rightharpoonup> int)" where
  "move_in c b r = ((fst r)(b \<mapsto> (case fst r b of None \<Rightarrow> [] | Some ids \<Rightarrow> ids) @ [c]), (snd r)(c \<mapsto> b))"

definition move_out :: "int \<Rightarrow> int \<Rightarrow> (int \<rightharpoonup> int list) \<times> (int \<rightharpoonup> int) \<Rightarrow> (int \<rightharpoonup> int list) \<times> (int \<rightharpoonup> int)" where
  "move_out c b r = ((fst r)(b \<mapsto> remove1 c (case fst r b of None \<Rightarrow> [] | Some ids \<Rightarrow> ids)), (snd r)(c \<mapsto> 0))"

lemma residence_okI:
  assumes "\<And>b ids. f b = Some ids \<Longrightarrow> 0 < b \<and> distinct ids"
    and "\<And>b ids c. f b = Some ids \<Longrightarrow> c \<in> set ids \<Longrightarrow> g c = Some b"
    and "\<And>c b. g c = Some b \<Longrightarrow> 0 < b \<Longrightarrow> c \<notin> S \<Longrightarrow> \<exists>ids. f b = Some ids \<and> c \<in> set ids"
  shows "residence_ok S (f, g)"
  using assms unfolding residence_ok_def fst_conv snd_conv by blast

lemma residence_okD:
  assumes "residence_ok S (f, g)"
  shows "f b = Some ids \<Longrightarrow> 0 < b" and "f b = Some ids \<Longrightarrow> distinct ids"
    and "f b = Some ids \<Longrightarrow> c \<in> set ids \<Longrightarrow> g c = Some b"
    and "g c = Some b \<Longrightarrow> 0 < b \<Longrightarrow> c \<notin> S \<Longrightarrow> \<exists>ids. f b = Some ids \<and> c \<in> set ids"
  using assms unfolding residence_ok_def by auto

lemma residence_create:
  assumes "residence_ok S (f, g)" "f b = None" "0 < b"
  shows "residence_ok S (f(b \<mapsto> []), g)"
proof (rule residence_okI)
  fix c b' assume "g c = Some b'" "0 < b'" "c \<notin> S"
  with residence_okD(4) [OF assms(1)] obtain ids where "f b' = Some ids" "c \<in> set ids" by blast
  with assms(2) show "\<exists>ids. (f(b \<mapsto> [])) b' = Some ids \<and> c \<in> set ids" by (cases "b' = b") auto
qed (use assms(3) residence_okD [OF assms(1)] in \<open>auto split: if_splits\<close>)

lemma residence_move_in:
  assumes "residence_ok S (f, g)" "g c = Some z" "z \<le> 0" "0 < b"
  shows "residence_ok S (move_in c b (f, g))"
proof -
  let ?old = "case f b of None \<Rightarrow> [] | Some ids \<Rightarrow> ids"
  have free: "c \<notin> set ids" if "f b' = Some ids" for b' ids
    using residence_okD(1,3) [OF assms(1) that] assms(2,3) by fastforce
  have old: "distinct ?old" "c \<notin> set ?old" "\<And>x. x \<in> set ?old \<Longrightarrow> g x = Some b"
    using residence_okD(2,3) [OF assms(1), of b] free [of b] by (cases "f b", simp_all)+
  have "residence_ok S (f(b \<mapsto> ?old @ [c]), g(c \<mapsto> b))"
  proof (rule residence_okI)
    fix b' ids assume "(f(b \<mapsto> ?old @ [c])) b' = Some ids"
    then show "0 < b' \<and> distinct ids"
      using old assms(4) residence_okD(1,2) [OF assms(1)] by (auto split: if_splits)
  next
    fix b' ids x assume "(f(b \<mapsto> ?old @ [c])) b' = Some ids" "x \<in> set ids"
    then show "(g(c \<mapsto> b)) x = Some b'"
      using old free residence_okD(3) [OF assms(1)] by (auto split: if_splits)
  next
    fix x b' assume x: "(g(c \<mapsto> b)) x = Some b'" "0 < b'" "x \<notin> S"
    show "\<exists>ids. (f(b \<mapsto> ?old @ [c])) b' = Some ids \<and> x \<in> set ids"
    proof (cases "x = c")
      case False
      with x residence_okD(4) [OF assms(1)] obtain ids where "f b' = Some ids" "x \<in> set ids" by auto
      then show ?thesis by (cases "b' = b") auto
    qed (use x in auto)
  qed
  then show ?thesis by (simp add: move_in_def)
qed

lemma residence_move_out:
  assumes "residence_ok S (f, g)" "f b = Some ids" "c \<in> set ids"
  shows "residence_ok S (move_out c b (f, g))"
proof -
  have c: "g c = Some b" "0 < b" "distinct ids" using residence_okD [OF assms(1)] assms(2,3) by blast+
  have "residence_ok S (f(b \<mapsto> remove1 c ids), g(c \<mapsto> 0))"
  proof (rule residence_okI)
    fix b' ids' assume "(f(b \<mapsto> remove1 c ids)) b' = Some ids'"
    then show "0 < b' \<and> distinct ids'"
      using c residence_okD(1,2) [OF assms(1)] by (auto split: if_splits)
  next
    fix b' ids' x assume "(f(b \<mapsto> remove1 c ids)) b' = Some ids'" "x \<in> set ids'"
    then have "g x = Some b' \<and> x \<noteq> c"
      using c assms(2) residence_okD(3) [OF assms(1)] by (auto split: if_splits)
    then show "(g(c \<mapsto> 0)) x = Some b'" by simp
  next
    fix x b' assume x: "(g(c \<mapsto> 0)) x = Some b'" "0 < b'" "x \<notin> S"
    then have "x \<noteq> c" "g x = Some b'" by (auto split: if_splits)
    with x residence_okD(4) [OF assms(1)] obtain ids' where "f b' = Some ids'" "x \<in> set ids'" by blast
    then show "\<exists>ids'. (f(b \<mapsto> remove1 c ids)) b' = Some ids' \<and> x \<in> set ids'"
      using assms(2) c(3) \<open>x \<noteq> c\<close> by (cases "b' = b") auto
  qed
  then show ?thesis by (simp add: move_out_def assms(2))
qed

lemma residence_remove_house:
  assumes "residence_ok S (f, g)" "f b = Some ids"
  shows "residence_ok (S \<union> set ids) (f(b := None), g)"
proof (rule residence_okI)
  fix c b' assume "g c = Some b'" "0 < b'" "c \<notin> S \<union> set ids"
  with residence_okD(4) [OF assms(1), of c b'] assms(2)
  show "\<exists>ids. (f(b := None)) b' = Some ids \<and> c \<in> set ids" by (cases "b' = b") auto
qed (use residence_okD [OF assms(1)] in \<open>auto split: if_splits\<close>)

lemma residence_remove_cat:
  assumes "residence_ok S (f, g)" "g c = Some z" "z \<le> 0"
  shows "residence_ok S (f, g(c := None))"
proof (rule residence_okI)
  fix b ids x assume "f b = Some ids" "x \<in> set ids"
  with residence_okD(1,3) [OF assms(1)] assms(2,3) show "(g(c := None)) x = Some b" by fastforce
qed (use residence_okD [OF assms(1)] in \<open>auto split: if_splits\<close>)

lemma residence_new_cat:
  assumes "residence_ok S (f, g)" "g c = None"
  shows "residence_ok S (f, g(c \<mapsto> 0))"
proof (rule residence_okI)
  fix b ids x assume "f b = Some ids" "x \<in> set ids"
  with residence_okD(3) [OF assms(1)] assms(2) show "(g(c \<mapsto> 0)) x = Some b" by fastforce
qed (use residence_okD [OF assms(1)] in \<open>auto split: if_splits\<close>)

subsection \<open>The operations refine the moves\<close>

lemma add_cat_homes:
  assumes "cathouse_add_cat e c b p = Some (r, q)"
  shows "r < 0 \<and> (homes q = homes p \<or> fst (homes p) b = None \<and> homes q = ((fst (homes p))(b \<mapsto> []), snd (homes p)))
    \<or> r = 1 \<and> homes q = move_in c b (homes p)
      \<and> (\<exists>z. snd (homes p) c = Some z \<and> z \<le> 0)"
proof -
  have cats: "map_of (p_Cats p1) c = Some d \<Longrightarrow> snd (homes p1) c = Some (cat_CathouseId d)" for p1 d
    by (simp add: homes_def)
  show ?thesis
  proof (cases "map_of (p_Cats p) c = None \<or> (\<exists>d. map_of (p_Cats p) c = Some d \<and>
      (0 < cat_CathouseId d \<or> cat_map e (cat_CfgId d) = None))")
    case True
    with assms have "r < 0 \<and> q = p" by (auto simp: cathouse_add_cat_def split: option.splits if_splits)
    then show ?thesis by simp
  next
    case False
    then obtain d cat where d: "map_of (p_Cats p) c = Some d" "\<not> 0 < cat_CathouseId d"
      "cat_map e (cat_CfgId d) = Some cat" by auto
    with assms obtain ok p1 where cr: "create_cathouse e b p = Some (ok, p1)"
      by (auto simp: cathouse_add_cat_def bind_eq_Some_conv)
    from homes_create [OF cr] have h1: "homes p1 = homes p
      \<or> fst (homes p) b = None \<and> homes p1 = ((fst (homes p))(b \<mapsto> []), snd (homes p))" .
    let ?ids = "house_get ho_CatIds [] p1 b"
    let ?p2 = "Cats_Set c (\<lambda>d. d\<lparr>cat_CathouseId := b\<rparr>) (CatHouses_Set b (\<lambda>h. h\<lparr>ho_CatIds := ?ids @ [c]\<rparr>) p1)"
    show ?thesis
    proof (cases "r = 1")
      case False
      then have "r < 0 \<and> q = p1"
        using assms d cr by (auto simp: cathouse_add_cat_def Let_def bind_eq_Some_conv split: option.splits if_splits)
      with h1 show ?thesis by auto
    next
      case True
      with assms d cr obtain g p3 where i: "send_cathouse_info e b False
          (Send_msg (S2CCatHouseAddCatResult b c g) ?p2) = Some p3"
        and q: "q = SendCatsUpdate (snd (cat_update c p3))"
        and tab: "get_cathouse_table_data e (house_get ho_CfgId 0 p1 b) (house_get ho_Level 0 p1 b) \<noteq> None"
        by (auto simp: cathouse_add_cat_def Let_def bind_eq_Some_conv split: option.splits if_splits)
      have "map_of (p_CatHouses p1) b \<noteq> None"
      proof
        assume "map_of (p_CatHouses p1) b = None"
        then have "house_get ho_Level 0 p1 b = 0" by (simp add: col_get_field_def)
        with tab show False by (auto simp: get_cathouse_table_data_def split: option.splits)
      qed
      then obtain h where h: "map_of (p_CatHouses p1) b = Some h" by blast
      have c1: "snd (homes p1) c = Some (cat_CathouseId d)"
        using cats [OF d(1)] h1 by auto
      then obtain d1 where d1: "map_of (p_Cats p1) c = Some d1" by (auto simp: homes_def)
      have ids: "fst (homes p1) b = Some ?ids" using h by (simp add: homes_def col_get_field_def)
      have d1': "map_of (p_Cats (CatHouses_Set b u p1)) c = Some d1" for u
        using d1 by (simp add: CatHouses_Set_def)
      have "homes q = ((fst (homes p1))(b \<mapsto> ?ids @ [c]), (snd (homes p1))(c \<mapsto> b))"
        using homes_send_info [OF i] by (simp add: q homes_set_cat [OF d1'] homes_set_ids [OF h])
      also have "\<dots> = move_in c b (homes p)"
        using h1 ids by (auto simp: move_in_def)
      finally show ?thesis using True cats [OF d(1)] d(2) by auto
    qed
  qed
qed

lemma remove_cat_homes:
  assumes "cathouse_remove_cat e c b p = Some (r, q)"
  shows "r < 0 \<and> q = p \<or> r = 1 \<and> homes q = move_out c b (homes p)
    \<and> (\<exists>ids. fst (homes p) b = Some ids \<and> c \<in> set ids)"
proof (cases "r = 1")
  case False
  with assms show ?thesis
    by (auto simp: cathouse_remove_cat_def Let_def bind_eq_Some_conv split: option.splits if_splits)
next
  case True
  with assms obtain h d g where h: "map_of (p_CatHouses p) b = Some h" "map_of (p_Cats p) c = Some d"
    "c \<in> set (ho_CatIds h)"
    and i: "send_cathouse_info e b False (Send_msg (S2CCatHouseRemoveCatResult b c g)
      (SendCatsUpdate (snd (cat_update c (Cats_Set c (\<lambda>d. d\<lparr>cat_CathouseId := 0\<rparr>)
        (CatHouses_Set b (\<lambda>h. h\<lparr>ho_CatIds := remove1 c (ho_CatIds h)\<rparr>) p)))))) = Some q"
    by (auto simp: cathouse_remove_cat_def Let_def bind_eq_Some_conv split: option.splits if_splits)
  have d': "map_of (p_Cats (CatHouses_Set b u p)) c = Some d" for u using h(2) by (simp add: CatHouses_Set_def)
  have s: "CatHouses_Set b (\<lambda>h. h\<lparr>ho_CatIds := remove1 c (ho_CatIds h)\<rparr>) p
      = CatHouses_Set b (\<lambda>h'. h'\<lparr>ho_CatIds := remove1 c (ho_CatIds h)\<rparr>) p"
    using h(1) by (simp add: CatHouses_Set_def col_set_field_def)
  have "homes q = move_out c b (homes p)"
    using homes_send_info [OF i] h(1)
    by (simp add: s homes_set_cat [OF d'] homes_set_ids [OF h(1)] move_out_def) (simp add: homes_def)
  then show ?thesis using True h by (auto simp: homes_def)
qed

lemma remove_house_homes:
  assumes "cathouse_remove e b s p = Some (r, q)"
  shows "r < 0 \<and> q = p \<or> r = 1 \<and> homes q = ((fst (homes p))(b := None), snd (homes p))"
proof -
  have "homes (p1\<lparr>p_CatHouses := col_Remove b (p_CatHouses p1)\<rparr>) = ((fst (homes p1))(b := None), snd (homes p1))" for p1
    by (auto simp: homes_def col_simps)
  with assms show ?thesis
    by (auto simp: cathouse_remove_def bind_eq_Some_conv split: option.splits if_splits)
qed

subsection \<open>Steps of the houses\<close>

text \<open>The cats that a removal leaves without a house.\<close>

definition left_behind :: "int \<Rightarrow> int \<Rightarrow> player \<Rightarrow> int set" where
  "left_behind r b p = (if r = 1 then set (house_get ho_CatIds [] p b) else {})"

text \<open>
  Everything that moves cats or changes houses, as one step with the cats it leaves behind: the handlers
  (in any order, whether they succeed or refuse), the removal of a house by the sell handler, which does
  not ask \<open>cathouse_can_remove\<close>, and by the building handlers, which do, the consumption of an idle cat
  by the operations of \<open>Cats\<close>, a new cat under a fresh id, and anything else that leaves the houses' cats
  and the cats' houses alone.
\<close>

inductive house_step :: "env \<Rightarrow> player \<Rightarrow> int set \<Rightarrow> player \<Rightarrow> bool" where
  add: "0 < b \<Longrightarrow> cathouse_add_cat e c b p = Some (r, q) \<Longrightarrow> house_step e p {} q"
| remove: "cathouse_remove_cat e c b p = Some (r, q) \<Longrightarrow> house_step e p {} q"
| create: "0 < b \<Longrightarrow> create_cathouse e b p = Some (ok, q) \<Longrightarrow> house_step e p {} q"
| start_levelup: "cathouse_start_levelup e b s p = Some (r, q) \<Longrightarrow> house_step e p {} q"
| speed_levelup: "cathouse_speed_levelup e b p = Some (r, q) \<Longrightarrow> house_step e p {} q"
| setdone: "cathouse_setdone e b p = Some (r, q) \<Longrightarrow> house_step e p {} q"
| produce: "cathouse_produce_gold e b p = Some (r, q) \<Longrightarrow> house_step e p {} q"
| collect: "cathouse_collect_gold e b p = Some (r, q) \<Longrightarrow> house_step e p {} q"
| drop_house: "cathouse_remove e b s p = Some (r, q) \<Longrightarrow> house_step e p (left_behind r b p) q"
| consume: "map_of (p_Cats p) c = Some d \<Longrightarrow> \<not> IfCatBusy p c \<Longrightarrow> house_step e p {} (snd (SubCat c p))"
| gain: "map_of (p_Cats p) c = None \<Longrightarrow> cat_CathouseId d = 0 \<Longrightarrow>
    house_step e p {} (p\<lparr>p_Cats := snd (col_Add c d (p_Cats p))\<rparr>)"
| other: "homes q = homes p \<Longrightarrow> house_step e p {} q"

inductive_cases house_stepE: "house_step e p T q"

text \<open>A run, with all the cats it left behind.\<close>

inductive house_run :: "player \<Rightarrow> int set \<Rightarrow> player \<Rightarrow> bool" where
  start: "house_run p {} p"
| step: "house_run p S q \<Longrightarrow> house_step e q T r \<Longrightarrow> house_run p (S \<union> T) r"

lemma house_step_residence:
  assumes "house_step e p T q" "residence_ok S (homes p)"
  shows "residence_ok (S \<union> T) (homes q)"
proof -
  obtain f g where fg: "homes p = (f, g)" by (cases "homes p")
  with assms(2) have inv: "residence_ok S (f, g)" by simp
  note create = residence_create [OF inv]
  from assms(1) show ?thesis
  proof cases
    case (add b c r)
    with add_cat_homes [OF add(3)] inv create [of b] residence_move_in [OF inv _ _ add(2), of c] show ?thesis
      by (auto simp: fg)
  next
    case (remove c b r)
    with remove_cat_homes [OF remove(2)] inv residence_move_out [OF inv, of b _ c] show ?thesis
      by (auto simp: fg)
  next
    case (create b ok)
    with homes_create [OF create(3)] inv residence_create [OF inv, of b] show ?thesis
      by (auto simp: fg)
  next
    case (start_levelup b s r)
    with homes_start_levelup [OF this(2)] assms(2) show ?thesis by simp
  next
    case (speed_levelup b r)
    with homes_speed_levelup [OF this(2)] assms(2) show ?thesis by simp
  next
    case (setdone b r)
    with homes_setdone [OF this(2)] assms(2) show ?thesis by simp
  next
    case (produce b r)
    with homes_produce [OF this(2)] assms(2) show ?thesis by simp
  next
    case (collect b r)
    with homes_collect [OF this(2)] assms(2) show ?thesis by simp
  next
    case (drop_house b s r)
    show ?thesis
    proof (cases "r = 1")
      case True
      with drop_house(2) obtain h where h: "map_of (p_CatHouses p) b = Some h"
        by (auto simp: cathouse_remove_def split: option.splits)
      then have ids: "f b = Some (ho_CatIds h)" "left_behind r b p = set (ho_CatIds h)"
        using fg True by (auto simp: homes_def left_behind_def col_get_field_def)
      from remove_house_homes [OF drop_house(2)] True residence_remove_house [OF inv ids(1)] ids(2) drop_house(1)
      show ?thesis by (simp add: fg)
    next
      case False
      with remove_house_homes [OF drop_house(2)] assms(2) drop_house(1) show ?thesis
        by (auto simp: left_behind_def)
    qed
  next
    case (consume c d)
    have z: "g c = Some (cat_CathouseId d)" "cat_CathouseId d \<le> 0"
      using fg consume by (auto simp: homes_def IfCatBusy_def col_get_field_def split: if_splits)
    have "homes q = (f, g(c := None))"
      using fg consume by (auto simp: homes_def SubCat_def col_simps)
    with residence_remove_cat [OF inv z] consume(1) show ?thesis by simp
  next
    case (gain c d)
    have "g c = None" using fg gain by (auto simp: homes_def)
    moreover have "homes q = (f, g(c \<mapsto> 0))" using fg gain by (auto simp: homes_def col_simps)
    ultimately show ?thesis using residence_new_cat [OF inv] gain(1) by simp
  next
    case other
    with assms(2) show ?thesis by simp
  qed
qed

lemma house_run_residence: "house_run p S q \<Longrightarrow> house_inv p \<Longrightarrow> residence_ok S (homes q)"
  by (induction rule: house_run.induct) (auto simp: house_inv_def dest: house_step_residence)

lemma residence_house:
  assumes "residence_ok S (homes p)" "map_of (p_CatHouses p) b = Some h"
  shows "distinct (ho_CatIds h)"
    "c \<in> set (ho_CatIds h) \<Longrightarrow> \<exists>d. map_of (p_Cats p) c = Some d \<and> cat_CathouseId d = b \<and> 0 < b"
proof -
  have "residence_ok S (fst (homes p), snd (homes p))" using assms(1) by simp
  from residence_okD(1,2,3) [OF this, of b "ho_CatIds h"] assms(2)
  show "distinct (ho_CatIds h)"
    "c \<in> set (ho_CatIds h) \<Longrightarrow> \<exists>d. map_of (p_Cats p) c = Some d \<and> cat_CathouseId d = b \<and> 0 < b"
    by (auto simp: homes_def)
qed

lemma house_invD:
  assumes "house_inv p" "map_of (p_CatHouses p) b = Some h" "c \<in> set (ho_CatIds h)"
  shows "\<exists>d. map_of (p_Cats p) c = Some d \<and> cat_CathouseId d = b \<and> 0 < b"
  using residence_house(2) [OF assms(1) [unfolded house_inv_def] assms(2,3)] .

section \<open>Properties\<close>

text \<open>
  Property C2. Houses and cats stay in step, but for the cats that a sale leaves behind. From a player
  whose houses and cats agree, after any sequence of house operations on buildings with positive ids,
  at any times, successful or refused, selling houses with cats in them included, interleaved with the
  consumption of idle cats, the arrival of new ones and anything that touches neither: no house lists a
  cat twice, every listed cat exists, names the house and is busy, no cat is in two houses, and every
  cat that names a house is listed there or was in a house when that house was removed. So without such
  a removal houses and cats agree.
\<close>

theorem residence_invariant:
  assumes "house_run p S q" "house_inv p"
  shows "(\<forall>b h. map_of (p_CatHouses q) b = Some h \<longrightarrow> distinct (ho_CatIds h)
        \<and> (\<forall>c \<in> set (ho_CatIds h). IfCatBusy q c \<and> (\<exists>d. map_of (p_Cats q) c = Some d \<and> cat_CathouseId d = b)))
    \<and> (\<forall>b h b' h' c. map_of (p_CatHouses q) b = Some h \<and> map_of (p_CatHouses q) b' = Some h'
        \<and> c \<in> set (ho_CatIds h) \<and> c \<in> set (ho_CatIds h') \<longrightarrow> b = b')
    \<and> (\<forall>c d. map_of (p_Cats q) c = Some d \<and> 0 < cat_CathouseId d \<longrightarrow>
        c \<in> S \<or> (\<exists>h. map_of (p_CatHouses q) (cat_CathouseId d) = Some h \<and> c \<in> set (ho_CatIds h)))
    \<and> (S = {} \<longrightarrow> house_inv q)"
proof -
  have res: "residence_ok S (homes q)" by (rule house_run_residence [OF assms])
  have listed: "IfCatBusy q c \<and> (\<exists>d. map_of (p_Cats q) c = Some d \<and> cat_CathouseId d = b)"
    if "map_of (p_CatHouses q) b = Some h" "c \<in> set (ho_CatIds h)" for b h c
    using residence_house(2) [OF res that] by (auto simp: IfCatBusy_def col_get_field_def)
  have one: "b = b'" if "map_of (p_CatHouses q) b = Some h" "map_of (p_CatHouses q) b' = Some h'"
    "c \<in> set (ho_CatIds h)" "c \<in> set (ho_CatIds h')" for b h b' h' c
    using listed [OF that(1,3)] listed [OF that(2,4)] by auto
  have named: "c \<in> S \<or> (\<exists>h. map_of (p_CatHouses q) (cat_CathouseId d) = Some h \<and> c \<in> set (ho_CatIds h))"
    if "map_of (p_Cats q) c = Some d" "0 < cat_CathouseId d" for c d
  proof -
    have "residence_ok S (fst (homes q), snd (homes q))" using res by simp
    from residence_okD(4) [OF this, of c "cat_CathouseId d"] that show ?thesis by (auto simp: homes_def)
  qed
  have agree: "house_inv q" if "S = {}" using res that by (simp add: house_inv_def)
  show ?thesis
  proof (intro conjI allI impI ballI)
    fix b h assume "map_of (p_CatHouses q) b = Some h"
    then show "distinct (ho_CatIds h)" by (rule residence_house(1) [OF res])
  next
    fix b h c assume "map_of (p_CatHouses q) b = Some h" "c \<in> set (ho_CatIds h)"
    from listed [OF this] show "IfCatBusy q c" "\<exists>d. map_of (p_Cats q) c = Some d \<and> cat_CathouseId d = b"
      by (rule conjunct1, rule conjunct2)
  next
    fix b h b' h' c assume "map_of (p_CatHouses q) b = Some h \<and> map_of (p_CatHouses q) b' = Some h'
        \<and> c \<in> set (ho_CatIds h) \<and> c \<in> set (ho_CatIds h')"
    then show "b = b'" by (elim conjE) (rule one)
  next
    fix c d assume "map_of (p_Cats q) c = Some d \<and> 0 < cat_CathouseId d"
    then show "c \<in> S \<or> (\<exists>h. map_of (p_CatHouses q) (cat_CathouseId d) = Some h \<and> c \<in> set (ho_CatIds h))"
      by (elim conjE) (rule named)
  qed (rule agree)
qed

definition demo_house_env :: env where
  "demo_house_env = demo_cat_env\<lparr>now := 5000, config := empty_config\<lparr>gc_CatHouseProduceGoldMinutes := 10\<rparr>,
     cathouse_map := [31 \<mapsto> [\<lparr>chs_UnlockStar = 0, chs_Cost = 10, chs_CatStorage = 1, chs_Time = 60,
       chs_Color = 3, chs_SalePrice = 7\<rparr>]]\<rparr>"

definition demo_house :: cathouse_data where
  "demo_house = \<lparr>ho_BuildingId = 8, ho_CfgId = 31, ho_Level = 1, ho_CatIds = [], ho_LastGetGoldTime = 0,
     ho_CurrGold = 0, ho_LevelupStartTime = 0, ho_IsDone = 1, ho_ProduceGoldTime = 0\<rparr>"

definition demo_house_player :: player where
  "demo_house_player = demo_cat_player\<lparr>
     p_Buildings := [(8, \<lparr>bld_Id = 8, bld_CfgId = 31, bld_X = 0, bld_Y = 0, bld_Dir = 0, bld_CreateUnix = 0, bld_OverUnix = 0\<rparr>)],
     p_CatHouses := [(8, demo_house)]\<rparr>"

lemma demo_house_inv: "house_inv demo_house_player"
  by (auto simp: house_inv_def residence_ok_def homes_def demo_house_player_def demo_house_def
      demo_cat_defs split: if_splits)

lemma demo_create: "create_cathouse demo_house_env 8 demo_house_player
    = send_cathouse_info demo_house_env 8 True demo_house_player \<bind> (\<lambda>p. Some (True, p))"
  by (simp add: create_cathouse_def demo_house_player_def col_simps)

lemma demo_info: "\<exists>q. send_cathouse_info demo_house_env 8 True demo_house_player = Some q \<and>
    p_CatHouses q = p_CatHouses demo_house_player \<and> p_Cats q = p_Cats demo_house_player"
  by (simp add: send_cathouse_info_def get_cathouse_curr_gold_def update_cathouse_level_def
      demo_house_player_def demo_house_def col_get_field_def)

lemma demo_add: "\<exists>q. cathouse_add_cat demo_house_env 1 8 demo_house_player = Some (1, q)"
proof -
  obtain q where "send_cathouse_info demo_house_env 8 True demo_house_player = Some q"
    and q: "p_CatHouses q = p_CatHouses demo_house_player" "p_Cats q = p_Cats demo_house_player"
    using demo_info by blast
  then have c: "create_cathouse demo_house_env 8 demo_house_player = Some (True, q)"
    by (simp add: demo_create)
  have t: "get_cathouse_table_data demo_house_env 31 1 = Some \<lparr>chs_UnlockStar = 0, chs_Cost = 10,
      chs_CatStorage = 1, chs_Time = 60, chs_Color = 3, chs_SalePrice = 7\<rparr>"
    by (simp add: get_cathouse_table_data_def demo_house_env_def)
  have h: "map_of (p_CatHouses demo_house_player) 8 = Some demo_house" by (simp add: demo_house_player_def)
  have g: "get_cathouse_curr_gold demo_house_env 8 q = Some 0"
    by (simp add: get_cathouse_curr_gold_def q col_get_field_def h) (simp add: demo_house_def)
  have s: "\<exists>p'. send_cathouse_info e b False p = Some p'" for e b p
    by (simp add: send_cathouse_info_def split: option.split)
  have "map_of (p_Cats demo_house_player) 1 = Some (demo_cat 1)"
    "cat_map demo_house_env 501 = Some demo_cat_cfg"
    by (simp_all add: demo_house_player_def demo_house_env_def demo_cat_player_def demo_cat_env_def)
  then show ?thesis
    using s by (simp add: cathouse_add_cat_def demo_cat_def c col_get_field_def q h t g Let_def)
      (simp add: demo_house_def t demo_cat_cfg_def g Let_def col_get_field_def q h [unfolded demo_house_def]
        bind_eq_Some_conv)
qed

lemma residence_invariant_witness:
  "\<exists>q. cathouse_add_cat demo_house_env 1 8 demo_house_player = Some (1, q) \<and> house_inv q"
proof -
  from demo_add obtain q where q: "cathouse_add_cat demo_house_env 1 8 demo_house_player = Some (1, q)" by blast
  have "house_step demo_house_env demo_house_player {} q" by (rule house_step.add [OF _ q]) simp
  from house_run.step [OF house_run.start this] have "house_run demo_house_player {} q" by simp
  from residence_invariant [OF this demo_house_inv] q show ?thesis by blast
qed

text \<open>
  Property C10. Moving in respects the house. When \<open>cathouse_add_cat\<close> succeeds,
  the table row of the house's level has room for all its cats including the new one, shares a
  colour with the cat, the cat lived nowhere and now lives there, and its house lists it last; every
  refusal is an error code.
\<close>

theorem cathouse_add_cat_spec:
  assumes "cathouse_add_cat e c b p = Some (r, q)"
  shows "(r \<noteq> 1 \<longrightarrow> r < 0) \<and> (r = 1 \<longrightarrow> (\<exists>d cat row ids. map_of (p_Cats p) c = Some d \<and> cat_CathouseId d \<le> 0
    \<and> cat_map e (cat_CfgId d) = Some cat \<and> chs_Color row AND ch_Color cat \<noteq> 0
    \<and> c \<notin> set ids \<and> int (length (ids @ [c])) \<le> chs_CatStorage row
    \<and> fst (homes q) b = Some (ids @ [c]) \<and> snd (homes q) c = Some b
    \<and> (fst (homes p) b = Some ids \<or> fst (homes p) b = None \<and> ids = [])
    \<and> (\<exists>h. map_of (p_CatHouses q) b = Some h
         \<and> get_cathouse_table_data e (ho_CfgId h) (ho_Level h) = Some row)))"
proof (intro conjI impI)
  assume "r \<noteq> 1"
  with add_cat_homes [OF assms] show "r < 0" by auto
next
  assume r: "r = 1"
  with assms obtain d cat p1 row where d: "map_of (p_Cats p) c = Some d" "cat_CathouseId d \<le> 0"
    "cat_map e (cat_CfgId d) = Some cat" and cr: "create_cathouse e b p = Some (True, p1)"
    and row: "get_cathouse_table_data e (house_get ho_CfgId 0 p1 b) (house_get ho_Level 0 p1 b) = Some row"
    by (auto simp: cathouse_add_cat_def Let_def bind_eq_Some_conv split: option.splits if_splits)
  let ?ids = "house_get ho_CatIds [] p1 b"
  from assms r d cr row obtain g q1 where
    ok: "\<not> chs_CatStorage row \<le> int (length ?ids)" "chs_Color row AND ch_Color cat \<noteq> 0" "c \<notin> set ?ids"
    and i: "send_cathouse_info e b False (Send_msg (S2CCatHouseAddCatResult b c g)
      (Cats_Set c (\<lambda>d. d\<lparr>cat_CathouseId := b\<rparr>) (CatHouses_Set b (\<lambda>h. h\<lparr>ho_CatIds := ?ids @ [c]\<rparr>) p1))) = Some q1"
    and q: "q = SendCatsUpdate (snd (cat_update c q1))"
    by (auto simp: cathouse_add_cat_def Let_def bind_eq_Some_conv split: if_splits)
  have "\<exists>h. map_of (p_CatHouses p1) b = Some h"
    using row by (cases "map_of (p_CatHouses p1) b")
      (auto simp: col_get_field_def get_cathouse_table_data_def split: option.splits)
  then obtain h where h: "map_of (p_CatHouses p1) b = Some h" by blast
  have ids: "?ids = ho_CatIds h" and row': "get_cathouse_table_data e (ho_CfgId h) (ho_Level h) = Some row"
    using h row by (simp_all add: col_get_field_def)
  have q1: "p_CatHouses q = p_CatHouses (CatHouses_Set b (\<lambda>h. h\<lparr>ho_CatIds := ?ids @ [c]\<rparr>) p1)"
    using i by (auto simp: q send_cathouse_info_def Cats_Set_def split: option.splits)
  have hq: "map_of (p_CatHouses q) b = Some (h\<lparr>ho_CatIds := ?ids @ [c]\<rparr>)"
    unfolding q1 using h by (simp add: CatHouses_Set_def col_simps)
  have old: "fst (homes p) b = Some ?ids \<or> fst (homes p) b = None \<and> ?ids = []"
  proof -
    have "fst (homes p1) b = Some ?ids" using h ids by (simp add: homes_apply)
    with homes_create [OF cr] show ?thesis by auto
  qed
  have "snd (homes q) c = Some b"
    using add_cat_homes [OF assms] r by (auto simp: move_in_def)
  moreover have "fst (homes q) b = Some (?ids @ [c])" using hq by (simp add: homes_def)
  ultimately show "\<exists>d cat row ids. map_of (p_Cats p) c = Some d \<and> cat_CathouseId d \<le> 0
    \<and> cat_map e (cat_CfgId d) = Some cat \<and> chs_Color row AND ch_Color cat \<noteq> 0
    \<and> c \<notin> set ids \<and> int (length (ids @ [c])) \<le> chs_CatStorage row
    \<and> fst (homes q) b = Some (ids @ [c]) \<and> snd (homes q) c = Some b
    \<and> (fst (homes p) b = Some ids \<or> fst (homes p) b = None \<and> ids = [])
    \<and> (\<exists>h. map_of (p_CatHouses q) b = Some h
         \<and> get_cathouse_table_data e (ho_CfgId h) (ho_Level h) = Some row)"
    using d ok row' hq old
    by (intro exI [of _ d] exI [of _ cat] exI [of _ row] exI [of _ ?ids] conjI) simp_all
qed

lemma cathouse_add_cat_spec_witness:
  "\<exists>q. cathouse_add_cat demo_house_env 1 8 demo_house_player = Some (1, q) \<and> snd (homes q) 1 = Some 8"
proof -
  from demo_add obtain q where q: "cathouse_add_cat demo_house_env 1 8 demo_house_player = Some (1, q)" by blast
  from cathouse_add_cat_spec [OF this] q show ?thesis by auto
qed

text \<open>
  Selling a house with cats in it strands them. \<open>cathouse_remove\<close>, which the sell handler
  calls without \<open>cathouse_can_remove\<close>, deletes the house but leaves each of its cats naming it: from a
  player whose houses and cats agree, such a cat is afterwards busy for good, no house holds it, so
  moving it out is refused and moving it into any house is refused too.
\<close>

theorem sold_house_strands_cats:
  assumes "house_inv p" "map_of (p_CatHouses p) b = Some h" "c \<in> set (ho_CatIds h)"
    and "cathouse_remove e b True p = Some (1, q)"
  shows "IfCatBusy q c \<and> map_of (p_CatHouses q) b = None
    \<and> (\<forall>b' h'. map_of (p_CatHouses q) b' = Some h' \<longrightarrow> c \<notin> set (ho_CatIds h'))
    \<and> cathouse_add_cat e' c b' q = Some (E_ERR_CATHOUSE_CAT_ALREADY_IN_HOUSE, q)
    \<and> cathouse_remove_cat e' c b q = Some (E_ERR_CATHOUSE_NOT_FOUND, q) \<and> \<not> house_inv q"
proof -
  obtain d where d: "map_of (p_Cats p) c = Some d" "cat_CathouseId d = b" "0 < b"
    using house_invD [OF assms(1-3)] by blast
  have hq: "homes q = ((fst (homes p))(b := None), snd (homes p))"
    using remove_house_homes [OF assms(4)] by auto
  then have "snd (homes q) c = Some b" using d by (simp add: homes_def)
  then obtain dq where dq: "map_of (p_Cats q) c = Some dq" "cat_CathouseId dq = b" by (auto simp: homes_def)
  have "fst (homes q) b = None" by (simp add: hq)
  then have gone: "map_of (p_CatHouses q) b = None" by (simp add: homes_apply)
  have none: "c \<notin> set (ho_CatIds h')" if "map_of (p_CatHouses q) b' = Some h'" for b' h'
  proof
    assume c: "c \<in> set (ho_CatIds h')"
    have "b' \<noteq> b" using that gone by auto
    have "fst (homes q) b' = Some (ho_CatIds h')" using that by (simp add: homes_apply)
    with hq \<open>b' \<noteq> b\<close> have "fst (homes p) b' = Some (ho_CatIds h')" by simp
    then obtain h0 where "map_of (p_CatHouses p) b' = Some h0" "ho_CatIds h0 = ho_CatIds h'"
      by (auto simp: homes_apply)
    with house_invD [OF assms(1), of b' h0 c] c d \<open>b' \<noteq> b\<close> show False by simp
  qed
  have "\<not> house_inv q"
  proof
    assume "house_inv q"
    then have "residence_ok {} (fst (homes q), snd (homes q))" by (simp add: house_inv_def)
    from residence_okD(4) [OF this \<open>snd (homes q) c = Some b\<close> d(3)] show False
      using gone by (simp add: homes_def)
  qed
  with dq gone none d(3) show ?thesis
    by (auto simp: IfCatBusy_def col_get_field_def cathouse_add_cat_def cathouse_remove_cat_def)
qed

definition demo_full_player :: player where
  "demo_full_player = demo_house_player\<lparr>p_CatHouses := [(8, demo_house\<lparr>ho_CatIds := [1]\<rparr>)],
     p_Cats := [(1, (demo_cat 1)\<lparr>cat_CathouseId := 8\<rparr>)]\<rparr>"

lemma sold_house_strands_cats_witness:
  "\<exists>q. cathouse_remove demo_house_env 8 True demo_full_player = Some (1, q) \<and> IfCatBusy q 1 \<and> \<not> house_inv q"
proof -
  have h: "map_of (p_CatHouses demo_full_player) 8 = Some (demo_house\<lparr>ho_CatIds := [1]\<rparr>)"
    by (simp add: demo_full_player_def)
  have inv: "house_inv demo_full_player"
    by (auto simp: house_inv_def residence_ok_def homes_def demo_full_player_def demo_house_player_def
        demo_house_def demo_cat_defs split: if_splits)
  obtain row where t: "get_cathouse_table_data demo_house_env 31 1 = Some row"
    by (simp add: get_cathouse_table_data_def demo_house_env_def)
  have g: "get_cathouse_curr_gold demo_house_env 8 demo_full_player = Some 0"
    by (simp add: get_cathouse_curr_gold_def col_get_field_def h) (simp add: demo_house_def)
  have "map_option fst (cathouse_remove demo_house_env 8 True demo_full_player) = Some 1"
    by (simp add: cathouse_remove_def h g col_get_field_def) (simp add: demo_house_def t g)
  then obtain q where q: "cathouse_remove demo_house_env 8 True demo_full_player = Some (1, q)" by auto
  from sold_house_strands_cats [OF inv h _ q, of 1] q show ?thesis by auto
qed

end
