(* ===== verification/RankItem.thy ===== *)
theory RankItem
  imports Prelude "HOL-Library.Word"
begin

unbundle bit_operations_syntax

text \<open>
  The items of the ranking lists (\<open>src/src/common/rank_item.go\<close>, which the game server repeats in
  \<open>common_rank_item.go\<close>) with their comparisons, the two-id codec of \<open>src/libs/utils/common.go\<close> that
  gives the cat items their key, and the contracts of a rank item as locales: \<open>rank_order\<close> is what a
  skip list needs to stay sorted, \<open>rank_total\<close> what it needs to find an item again.
\<close>

subsection \<open>Two ids in one\<close>

definition Int64From2Int32 :: "32 word \<Rightarrow> 32 word \<Rightarrow> 64 word" where
  "Int64From2Int32 high low = (push_bit 32 (scast high) AND 0x7fffffff00000000) + scast low"

definition TwoInt32FromInt64 :: "64 word \<Rightarrow> 32 word \<times> 32 word" where
  "TwoInt32FromInt64 value =
     (ucast (signed_drop_bit 32 value AND 0xffffffff), ucast (value AND 0xffffffff))"


lemma codec_masks:
  "(0x7fffffff00000000 :: 64 word) = push_bit 32 (mask 31)" "(0xffffffff :: 64 word) = mask 32"
  by (simp_all add: push_bit_eq_mult mask_eq_exp_minus_1)

lemma non_negative_bit: "0 \<le>s (x :: 32 word) \<longleftrightarrow> \<not> bit x 31"
  using bit_last_iff [of x] by (simp add: word_sle_eq not_less)

lemma Int64From2Int32_or:
  assumes "0 \<le>s low"
  shows "Int64From2Int32 high low = ((push_bit 32 (scast high) AND 0x7fffffff00000000) OR scast low)"
  unfolding Int64From2Int32_def codec_masks
  by (rule disjunctive_add_eq_or)
     (use assms in \<open>auto simp: bit_eq_iff bit_simps non_negative_bit min_def dest: bit_imp_le_length\<close>)

lemma codec_inverse:
  assumes "0 \<le>s high" "0 \<le>s low"
  shows "TwoInt32FromInt64 (Int64From2Int32 high low) = (high, low)"
  unfolding TwoInt32FromInt64_def Int64From2Int32_or [OF assms(2)] codec_masks prod.inject
proof (intro conjI bit_word_eqI)
  fix n assume "n < LENGTH(32)"
  then consider "n < 31" | "n = 31" by fastforce
  then show "bit (ucast (signed_drop_bit 32 ((push_bit 32 (scast high) AND push_bit 32 (mask 31)) OR scast low :: 64 word)
      AND mask 32) :: 32 word) n = bit high n"
    using assms by cases (auto simp: bit_simps non_negative_bit min_def)
next
  fix n assume "n < LENGTH(32)"
  then consider "n < 31" | "n = 31" by fastforce
  then show "bit (ucast (((push_bit 32 (scast high) AND push_bit 32 (mask 31)) OR scast low :: 64 word)
      AND mask 32) :: 32 word) n = bit low n"
    using assms by cases (auto simp: bit_simps non_negative_bit min_def)
qed

text \<open>
  Two non-negative 32-bit ids survive packing into one 64-bit id and unpacking.
\<close>

theorem codec_roundtrip:
  assumes "0 \<le>s high" "0 \<le>s low"
  shows "TwoInt32FromInt64 (Int64From2Int32 high low) = (high, low)"
  using assms by (rule codec_inverse)

subsection \<open>The rank items\<close>

record PlayerInt32RankItem =
  r32_Value :: int
  r32_UpdateTime :: int
  r32_PlayerId :: int

record PlayerInt64RankItem =
  r64_Value :: int
  r64_UpdateTime :: int
  r64_PlayerId :: int

record PlayerCatOuqiRankItem =
  ouqi_PlayerId :: int
  ouqi_CatId :: int
  ouqi_Ouqi :: int
  ouqi_UpdateTime :: int

definition Int32_Less :: "PlayerInt32RankItem \<Rightarrow> PlayerInt32RankItem \<Rightarrow> bool" where
  "Int32_Less x y =
     (if r32_Value x < r32_Value y then True
      else if r32_Value x = r32_Value y then
        (if r32_UpdateTime x > r32_UpdateTime y then True
         else if r32_UpdateTime x = r32_UpdateTime y then r32_PlayerId x > r32_PlayerId y else False)
      else False)"

definition Int32_Greater :: "PlayerInt32RankItem \<Rightarrow> PlayerInt32RankItem \<Rightarrow> bool" where
  "Int32_Greater x y =
     (if r32_Value x > r32_Value y then True
      else if r32_Value x = r32_Value y then
        (if r32_UpdateTime x < r32_UpdateTime y then True
         else if r32_UpdateTime x = r32_UpdateTime y then r32_PlayerId x < r32_PlayerId y else False)
      else False)"

definition Int32_KeyEqual :: "PlayerInt32RankItem \<Rightarrow> PlayerInt32RankItem \<Rightarrow> bool" where
  "Int32_KeyEqual x y \<longleftrightarrow> r32_PlayerId x = r32_PlayerId y"

definition Int32_SetValue :: "int \<Rightarrow> int \<Rightarrow> PlayerInt32RankItem \<Rightarrow> PlayerInt32RankItem" where
  "Int32_SetValue unix v x = x\<lparr>r32_Value := v, r32_UpdateTime := i32 unix\<rparr>"

definition Int64_Less :: "PlayerInt64RankItem \<Rightarrow> PlayerInt64RankItem \<Rightarrow> bool" where
  "Int64_Less x y =
     (if r64_Value x < r64_Value y then True
      else if r64_Value x = r64_Value y then
        (if r64_UpdateTime x > r64_UpdateTime y then True
         else if r64_UpdateTime x = r64_UpdateTime y then r64_PlayerId x > r64_PlayerId y else False)
      else False)"

definition Int64_Greater :: "PlayerInt64RankItem \<Rightarrow> PlayerInt64RankItem \<Rightarrow> bool" where
  "Int64_Greater x y =
     (if r64_Value x > r64_Value y then True
      else if r64_Value x = r64_Value y then
        (if r64_UpdateTime x < r64_UpdateTime y then True
         else if r64_UpdateTime x = r64_UpdateTime y then r64_PlayerId x < r64_PlayerId y else False)
      else False)"

definition Int64_KeyEqual :: "PlayerInt64RankItem \<Rightarrow> PlayerInt64RankItem \<Rightarrow> bool" where
  "Int64_KeyEqual x y \<longleftrightarrow> r64_PlayerId x = r64_PlayerId y"

definition Ouqi_Less :: "PlayerCatOuqiRankItem \<Rightarrow> PlayerCatOuqiRankItem \<Rightarrow> bool" where
  "Ouqi_Less x y =
     (if ouqi_Ouqi x < ouqi_Ouqi y then True
      else if ouqi_Ouqi x = ouqi_Ouqi y then
        (if ouqi_UpdateTime x > ouqi_UpdateTime y then True
         else if ouqi_UpdateTime x = ouqi_UpdateTime y then
           (if ouqi_PlayerId x > ouqi_PlayerId y then True
            else if ouqi_PlayerId x = ouqi_PlayerId y then ouqi_CatId x > ouqi_CatId y else False)
         else False)
      else False)"

text \<open>The innermost test of \<open>Greater\<close> compares \<open>Ouqi\<close> once more where \<open>Less\<close> compares \<open>CatId\<close>.\<close>

definition Ouqi_Greater :: "PlayerCatOuqiRankItem \<Rightarrow> PlayerCatOuqiRankItem \<Rightarrow> bool" where
  "Ouqi_Greater x y =
     (if ouqi_Ouqi x > ouqi_Ouqi y then True
      else if ouqi_Ouqi x = ouqi_Ouqi y then
        (if ouqi_UpdateTime x < ouqi_UpdateTime y then True
         else if ouqi_UpdateTime x = ouqi_UpdateTime y then
           (if ouqi_PlayerId x < ouqi_PlayerId y then True
            else if ouqi_PlayerId x = ouqi_PlayerId y then ouqi_Ouqi x < ouqi_Ouqi y else False)
         else False)
      else False)"

definition Ouqi_KeyEqual :: "PlayerCatOuqiRankItem \<Rightarrow> PlayerCatOuqiRankItem \<Rightarrow> bool" where
  "Ouqi_KeyEqual x y \<longleftrightarrow> ouqi_PlayerId x = ouqi_PlayerId y \<and> ouqi_CatId x = ouqi_CatId y"

definition Ouqi_GetKey :: "PlayerCatOuqiRankItem \<Rightarrow> int" where
  "Ouqi_GetKey x = sint (Int64From2Int32 (word_of_int (ouqi_PlayerId x)) (word_of_int (ouqi_CatId x)))"

subsection \<open>The contract of an order\<close>

text \<open>
  A skip list stays sorted if \<open>Greater\<close> is a strict weak order: the items greater than a given one
  form a prefix. To find an item again it must also be total: two items that are not the same entry
  are comparable.
\<close>

lemma sorted_wrt_mid:
  assumes "sorted_wrt P (us @ vs)" "\<forall>z \<in> set us. P z x" "\<forall>z \<in> set vs. P x z"
  shows "sorted_wrt P (us @ x # vs)"
  using assms by (auto simp: sorted_wrt_append)

locale rank_order =
  fixes grt :: "'v \<Rightarrow> 'v \<Rightarrow> bool"
  assumes asym: "grt x y \<Longrightarrow> \<not> grt y x"
    and neg_trans: "grt x z \<Longrightarrow> grt x y \<or> grt y z"
begin

lemma irrefl: "\<not> grt x x"
  using asym by blast

lemma grt_trans: "grt x y \<Longrightarrow> grt y z \<Longrightarrow> grt x z"
  using asym [of x y] neg_trans [of y z x] by blast

text \<open>A list is in order when no later item is greater than an earlier one.\<close>

definition in_order :: "'v list \<Rightarrow> bool" where
  "in_order xs \<longleftrightarrow> sorted_wrt (\<lambda>x y. \<not> grt y x) xs"

lemma in_order_prefix:
  assumes "in_order xs" "x \<in> set (dropWhile (\<lambda>x. grt x v) xs)"
  shows "\<not> grt x v"
  using assms
proof (induction xs)
  case (Cons y ys)
  show ?case
  proof (cases "grt y v")
    case True
    with Cons show ?thesis by (simp add: in_order_def)
  next
    case False
    then have "x \<in> insert y (set ys)" using Cons.prems(2) by simp
    then have "x = y \<or> \<not> grt x y" using Cons.prems(1) by (auto simp: in_order_def)
    with False neg_trans [of x v y] show ?thesis by blast
  qed
qed simp

lemma in_order_insert:
  assumes "in_order xs"
  shows "in_order (takeWhile (\<lambda>x. grt x v) xs @ v # dropWhile (\<lambda>x. grt x v) xs)"
  unfolding in_order_def
proof (rule sorted_wrt_mid)
  show "sorted_wrt (\<lambda>x y. \<not> grt y x) (takeWhile (\<lambda>x. grt x v) xs @ dropWhile (\<lambda>x. grt x v) xs)"
    using assms by (simp add: in_order_def)
  show "\<forall>x \<in> set (takeWhile (\<lambda>x. grt x v) xs). \<not> grt v x"
    by (auto dest!: set_takeWhileD asym)
  show "\<forall>y \<in> set (dropWhile (\<lambda>x. grt x v) xs). \<not> grt y v"
    using in_order_prefix [OF assms] by blast
qed

lemma in_order_remove: "in_order (xs @ x # ys) \<Longrightarrow> in_order (xs @ ys)"
  by (auto simp: in_order_def sorted_wrt_append)

end

locale rank_total = rank_order grt for grt :: "'v \<Rightarrow> 'v \<Rightarrow> bool" +
  fixes key_equal :: "'v \<Rightarrow> 'v \<Rightarrow> bool"
  assumes total: "\<not> grt x y \<Longrightarrow> \<not> grt y x \<Longrightarrow> key_equal x y"
begin

text \<open>In an ordered list without two entries of one key, an item is the first that is not greater.\<close>

lemma found_first:
  assumes "in_order (xs @ v # ys)" "\<forall>x \<in> set xs. \<not> key_equal x v"
  shows "takeWhile (\<lambda>x. grt x v) (xs @ v # ys) = xs"
proof -
  have "grt x v" if "x \<in> set xs" for x
    using assms that total [of x v] by (auto simp: in_order_def sorted_wrt_append)
  then show ?thesis using irrefl by (simp add: takeWhile_append2)
qed

end

lemma rank_order_image: "rank_order grt \<Longrightarrow> rank_order (\<lambda>a b. grt (f a) (f b))"
  by (auto simp: rank_order_def)

lemma rank_total_image:
  "rank_total grt keq \<Longrightarrow> rank_total (\<lambda>a b. grt (f a) (f b)) (\<lambda>a b. keq (f a) (f b))"
  by (auto simp: rank_total_def rank_total_axioms_def intro: rank_order_image)

interpretation int32_item: rank_total Int32_Greater Int32_KeyEqual
  by unfold_locales (auto simp: Int32_Greater_def Int32_KeyEqual_def split: if_splits)

interpretation int64_item: rank_total Int64_Greater Int64_KeyEqual
  by unfold_locales (auto simp: Int64_Greater_def Int64_KeyEqual_def split: if_splits)

interpretation ouqi_item: rank_order Ouqi_Greater
  by unfold_locales (auto simp: Ouqi_Greater_def split: if_splits)

lemma Less_converse: "Int32_Less x y = Int32_Greater y x" "Int64_Less v w = Int64_Greater w v"
  by (auto simp: Int32_Less_def Int32_Greater_def Int64_Less_def Int64_Greater_def)

text \<open>
  The cat items are not totally ordered: \<open>Greater\<close> is strict and consistent, but two
  different cats of one player with the same value and time are not comparable by it, although
  \<open>Less\<close> orders them; between all other cats exactly one is greater.
\<close>

theorem ouqi_order_incomplete:
  "\<not> Ouqi_KeyEqual x y \<Longrightarrow>
     (\<not> Ouqi_Greater x y \<and> \<not> Ouqi_Greater y x) =
       (ouqi_PlayerId x = ouqi_PlayerId y \<and> ouqi_Ouqi x = ouqi_Ouqi y \<and> ouqi_UpdateTime x = ouqi_UpdateTime y)
     \<and> Ouqi_Less x y \<noteq> Ouqi_Less y x"
  by (auto simp: Ouqi_KeyEqual_def Ouqi_Greater_def Ouqi_Less_def)

lemma ouqi_order_incomplete_witness:
  "\<not> Ouqi_Greater \<lparr>ouqi_PlayerId = 1, ouqi_CatId = 1, ouqi_Ouqi = 50, ouqi_UpdateTime = 9\<rparr>
      \<lparr>ouqi_PlayerId = 1, ouqi_CatId = 2, ouqi_Ouqi = 50, ouqi_UpdateTime = 9\<rparr>"
  using ouqi_order_incomplete [of "\<lparr>ouqi_PlayerId = 1, ouqi_CatId = 1, ouqi_Ouqi = 50, ouqi_UpdateTime = 9\<rparr>"
      "\<lparr>ouqi_PlayerId = 1, ouqi_CatId = 2, ouqi_Ouqi = 50, ouqi_UpdateTime = 9\<rparr>"]
  by (simp add: Ouqi_KeyEqual_def)

lemma codec_roundtrip_witness:
  "0 \<le>s (70001 :: 32 word) \<and> TwoInt32FromInt64 (Int64From2Int32 70001 12) = (70001, 12)"
  using codec_roundtrip [of 70001 12] by (simp add: word_sle_eq)

end
