(* ===== verification/Skiplist.thy ===== *)
theory Skiplist
  imports RankItem
begin

text \<open>
  The skip list of \<open>src/libs/utils/skiplist.go\<close>, pointer by pointer. A node is an address, 0 is the
  head; each field of a node, and of its layers, is a function of the address (and the layer), so an
  assignment through a pointer is an update at one point. \<open>None\<close> as a pointer is nil; \<open>None\<close> as the
  result of an operation is a panic or a loop that does not end. The comparisons of the values are
  parameters (\<open>grt\<close> for \<open>Greater\<close>, \<open>keq\<close> for \<open>KeyEqual\<close>), as the interface \<open>SkiplistNode\<close> has them.
  Spans, ranks and lengths count nodes; there are never \<open>2 ^ 31\<close> of them, so they do not wrap.

  The second half relates the pointers to a plain list: \<open>repr s as\<close> says that the addresses \<open>as\<close>,
  in this order, are what every layer of \<open>s\<close> threads, with spans that count the nodes passed.
\<close>

subsection \<open>State\<close>

record 'v skiplist =
  sl_curr_layer :: nat
  sl_curr_length :: int
  sl_lengths_num :: "int list"
  sl_tail :: "nat option"
  sl_before_node :: "nat \<Rightarrow> nat option"
  sl_rank :: "nat \<Rightarrow> int"
  sl_value :: "nat \<Rightarrow> 'v option"
  sl_layers :: "nat \<Rightarrow> nat"
  sl_next :: "nat \<Rightarrow> nat \<Rightarrow> nat option"
  sl_prev :: "nat \<Rightarrow> nat \<Rightarrow> nat option"
  sl_span :: "nat \<Rightarrow> nat \<Rightarrow> int"
  sl_fresh :: nat

abbreviation (input) MAX_SKIPLIST_LAYER :: nat where "MAX_SKIPLIST_LAYER \<equiv> 32"
abbreviation (input) sl_head :: nat where "sl_head \<equiv> 0"

text \<open>Field updates at layer \<open>i\<close> of node \<open>a\<close>.\<close>

definition set_next :: "nat \<Rightarrow> nat \<Rightarrow> nat option \<Rightarrow> 'v skiplist \<Rightarrow> 'v skiplist" where
  "set_next i a x s = s\<lparr>sl_next := (sl_next s)(i := (sl_next s i)(a := x))\<rparr>"

definition set_prev :: "nat \<Rightarrow> nat \<Rightarrow> nat option \<Rightarrow> 'v skiplist \<Rightarrow> 'v skiplist" where
  "set_prev i a x s = s\<lparr>sl_prev := (sl_prev s)(i := (sl_prev s i)(a := x))\<rparr>"

definition set_span :: "nat \<Rightarrow> nat \<Rightarrow> int \<Rightarrow> 'v skiplist \<Rightarrow> 'v skiplist" where
  "set_span i a x s = s\<lparr>sl_span := (sl_span s)(i := (sl_span s i)(a := x))\<rparr>"

text \<open>A loop over layers whose body can panic.\<close>

fun each_layer :: "(nat \<Rightarrow> 's \<Rightarrow> 's option) \<Rightarrow> nat list \<Rightarrow> 's \<Rightarrow> 's option" where
  "each_layer f [] s = Some s"
| "each_layer f (i # is) s = f i s \<bind> each_layer f is"

subsection \<open>Making nodes\<close>

text \<open>\<open>random_skiplist_layer\<close> on the values \<open>rand.Int31\<close> will return; \<open>None\<close> if these do not suffice.\<close>

fun random_layer_loop :: "int list \<Rightarrow> nat \<Rightarrow> nat option" where
  "random_layer_loop [] n = None"
| "random_layer_loop (r # rs) n =
     (if (r AND 0xFFFF) mod 4 = 0 then random_layer_loop rs (n + 1) else Some n)"

definition random_skiplist_layer :: "int list \<Rightarrow> nat option" where
  "random_skiplist_layer rs = do {
     n \<leftarrow> random_layer_loop rs 1;
     Some (if n > MAX_SKIPLIST_LAYER then MAX_SKIPLIST_LAYER else n)
   }"

definition new_skiplist_node :: "nat \<Rightarrow> 'v option \<Rightarrow> 'v skiplist \<Rightarrow> nat \<times> 'v skiplist" where
  "new_skiplist_node layer v s =
     (let a = sl_fresh s
      in (a, s\<lparr>sl_value := (sl_value s)(a := v), sl_layers := (sl_layers s)(a := layer),
               sl_next := (\<lambda>i. (sl_next s i)(a := None)), sl_prev := (\<lambda>i. (sl_prev s i)(a := None)),
               sl_span := (\<lambda>i. (sl_span s i)(a := 0)), sl_fresh := a + 1\<rparr>))"

definition NewSkiplist :: "'v skiplist" where
  "NewSkiplist = snd (new_skiplist_node MAX_SKIPLIST_LAYER None
     \<lparr>sl_curr_layer = 1, sl_curr_length = 0, sl_lengths_num = replicate MAX_SKIPLIST_LAYER 0,
      sl_tail = None, sl_before_node = (\<lambda>_. None), sl_rank = (\<lambda>_. 0), sl_value = (\<lambda>_. None),
      sl_layers = (\<lambda>_. 0), sl_next = (\<lambda>_ _. None), sl_prev = (\<lambda>_ _. None), sl_span = (\<lambda>_ _. 0),
      sl_fresh = 0\<rparr>)"

subsection \<open>Walking\<close>

text \<open>The inner loop all searches share: follow layer \<open>i\<close> from \<open>node\<close> while there is a next node and
  the condition holds of it, adding the spans to \<open>r\<close>. The condition sees the next node and \<open>r\<close> with
  the span to it.\<close>

partial_function (option) walk ::
  "(nat \<Rightarrow> int \<Rightarrow> bool option) \<Rightarrow> 'v skiplist \<Rightarrow> nat \<Rightarrow> nat \<Rightarrow> int \<Rightarrow> (nat \<times> int) option" where
  "walk go s i node r =
     (case sl_next s i node of
        None \<Rightarrow> Some (node, r)
      | Some b \<Rightarrow> go b (r + sl_span s i node) \<bind> (\<lambda>c.
          if c then walk go s i b (r + sl_span s i node) else Some (node, r)))"

text \<open>\<open>next.value.Greater(v)\<close>; a nil value (only the head has one) would panic.\<close>

definition value_greater :: "('v \<Rightarrow> 'v \<Rightarrow> bool) \<Rightarrow> 'v \<Rightarrow> 'v skiplist \<Rightarrow> nat \<Rightarrow> int \<Rightarrow> bool option" where
  "value_greater grt v s b r = map_option (\<lambda>x. grt x v) (sl_value s b)"

subsection \<open>Insert\<close>

fun insert_search :: "('v \<Rightarrow> 'v \<Rightarrow> bool) \<Rightarrow> 'v \<Rightarrow> nat \<Rightarrow> nat \<Rightarrow> 'v skiplist \<Rightarrow> 'v skiplist option" where
  "insert_search grt v 0 node s = Some s"
| "insert_search grt v (Suc i) node s = do {
     let r = (if Suc i = sl_curr_layer s then 0 else sl_rank s (Suc i));
     (node, r) \<leftarrow> walk (value_greater grt v s) s i node r;
     insert_search grt v i node (s\<lparr>sl_rank := (sl_rank s)(i := r),
                                    sl_before_node := (sl_before_node s)(i := Some node)\<rparr>)
   }"

definition raise_layer :: "nat \<Rightarrow> 'v skiplist \<Rightarrow> 'v skiplist" where
  "raise_layer i s = set_span i sl_head (sl_curr_length s)
     (s\<lparr>sl_rank := (sl_rank s)(i := 0), sl_before_node := (sl_before_node s)(i := Some sl_head)\<rparr>)"

definition raise_layers :: "nat \<Rightarrow> 'v skiplist \<Rightarrow> 'v skiplist" where
  "raise_layers new_layer s =
     (if new_layer > sl_curr_layer s
      then (fold raise_layer [sl_curr_layer s..<new_layer] s)\<lparr>sl_curr_layer := new_layer\<rparr>
      else s)"

definition link_layer :: "nat \<Rightarrow> nat \<Rightarrow> 'v skiplist \<Rightarrow> 'v skiplist option" where
  "link_layer new_node i s = do {
     node \<leftarrow> sl_before_node s i;
     let s = set_next i new_node (sl_next s i node) s;
     let s = set_prev i new_node (Some node) s;
     let s = (case sl_next s i node of None \<Rightarrow> s | Some c \<Rightarrow> set_prev i c (Some new_node) s);
     let s = set_next i node (Some new_node) s;
     let s = set_span i new_node (sl_span s i node - (sl_rank s 0 - sl_rank s i)) s;
     Some (set_span i node ((sl_rank s 0 - sl_rank s i) + 1) s)
   }"

definition bump_layer :: "nat \<Rightarrow> 'v skiplist \<Rightarrow> 'v skiplist option" where
  "bump_layer i s = do { node \<leftarrow> sl_before_node s i; Some (set_span i node (sl_span s i node + 1) s) }"

definition Insert_layer :: "('v \<Rightarrow> 'v \<Rightarrow> bool) \<Rightarrow> nat \<Rightarrow> 'v \<Rightarrow> 'v skiplist \<Rightarrow> 'v skiplist option" where
  "Insert_layer grt new_layer v s = do {
     s \<leftarrow> insert_search grt v (sl_curr_layer s) sl_head s;
     let s = raise_layers new_layer s;
     let (new_node, s) = new_skiplist_node new_layer (Some v) s;
     s \<leftarrow> each_layer (link_layer new_node) [0..<new_layer] s;
     s \<leftarrow> each_layer bump_layer [new_layer..<sl_curr_layer s] s;
     let s = (if sl_next s 0 new_node = None then s\<lparr>sl_tail := Some new_node\<rparr> else s);
     Some (s\<lparr>sl_lengths_num := (sl_lengths_num s)[new_layer - 1 := sl_lengths_num s ! (new_layer - 1) + 1],
              sl_curr_length := sl_curr_length s + 1\<rparr>)
   }"

definition Insert :: "('v \<Rightarrow> 'v \<Rightarrow> bool) \<Rightarrow> int list \<Rightarrow> 'v \<Rightarrow> 'v skiplist \<Rightarrow> (nat \<times> 'v skiplist) option" where
  "Insert grt rs v s = do {
     new_layer \<leftarrow> random_skiplist_layer rs;
     s \<leftarrow> Insert_layer grt new_layer v s;
     Some (new_layer, s)
   }"

subsection \<open>Looking up\<close>

fun node_search :: "('v \<Rightarrow> 'v \<Rightarrow> bool) \<Rightarrow> 'v \<Rightarrow> nat \<Rightarrow> nat \<Rightarrow> 'v skiplist \<Rightarrow> (nat \<times> 'v skiplist) option" where
  "node_search grt v 0 n s = Some (n, s)"
| "node_search grt v (Suc i) n s = do {
     (n, _) \<leftarrow> walk (value_greater grt v s) s i n 0;
     node_search grt v i n (s\<lparr>sl_before_node := (sl_before_node s)(i := Some n)\<rparr>)
   }"

definition GetNode :: "('v \<Rightarrow> 'v \<Rightarrow> bool) \<Rightarrow> ('v \<Rightarrow> 'v \<Rightarrow> bool) \<Rightarrow> 'v \<Rightarrow> 'v skiplist \<Rightarrow>
    (nat option \<times> 'v skiplist) option" where
  "GetNode grt keq v s = do {
     (n, s) \<leftarrow> node_search grt v (sl_curr_layer s) sl_head s;
     (case sl_next s 0 n of
        None \<Rightarrow> Some (None, s)
      | Some b \<Rightarrow> do {
          x \<leftarrow> sl_value s b;
          Some (if keq x v then Some b else None, s)
        })
   }"

fun rank_search :: "int \<Rightarrow> nat \<Rightarrow> nat \<Rightarrow> int \<Rightarrow> 'v skiplist \<Rightarrow> nat option option" where
  "rank_search rank 0 n curr_rank s = Some None"
| "rank_search rank (Suc i) n curr_rank s = do {
     (n, curr_rank) \<leftarrow> walk (\<lambda>_ r. Some (r \<le> rank)) s i n curr_rank;
     if curr_rank = rank then Some (Some n) else rank_search rank i n curr_rank s
   }"

definition GetNodeByRank :: "int \<Rightarrow> 'v skiplist \<Rightarrow> nat option option" where
  "GetNodeByRank rank s = rank_search rank (sl_curr_layer s) sl_head 0 s"

definition GetByRank :: "int \<Rightarrow> 'v skiplist \<Rightarrow> 'v option option" where
  "GetByRank rank s = do {
     node \<leftarrow> GetNodeByRank rank s;
     Some (case node of None \<Rightarrow> None | Some n \<Rightarrow> sl_value s n)
   }"

fun value_search :: "('v \<Rightarrow> 'v \<Rightarrow> bool) \<Rightarrow> ('v \<Rightarrow> 'v \<Rightarrow> bool) \<Rightarrow> 'v \<Rightarrow> nat \<Rightarrow> nat \<Rightarrow> int \<Rightarrow> 'v skiplist \<Rightarrow>
    int option" where
  "value_search grt keq v 0 node rank s = Some 0"
| "value_search grt keq v (Suc i) node rank s = do {
     (node, rank) \<leftarrow> walk (value_greater grt v s) s i node rank;
     (case sl_next s i node of
        None \<Rightarrow> value_search grt keq v i node rank s
      | Some b \<Rightarrow> do {
          x \<leftarrow> sl_value s b;
          if keq x v then Some (rank + sl_span s i node) else value_search grt keq v i node rank s
        })
   }"

definition GetRank :: "('v \<Rightarrow> 'v \<Rightarrow> bool) \<Rightarrow> ('v \<Rightarrow> 'v \<Rightarrow> bool) \<Rightarrow> 'v \<Rightarrow> 'v skiplist \<Rightarrow> int option" where
  "GetRank grt keq v s = value_search grt keq v (sl_curr_layer s) sl_head 0 s"

text \<open>The copying loop of \<open>GetByRankRange\<close>: \<open>n\<close> more values go to the slice from index \<open>i\<close> on.\<close>

fun range_loop :: "nat \<Rightarrow> nat \<Rightarrow> nat \<Rightarrow> 'v option list \<Rightarrow> 'v skiplist \<Rightarrow> 'v option list" where
  "range_loop 0 i node values s = values"
| "range_loop (Suc n) i node values s =
     (case sl_next s 0 node of
        None \<Rightarrow> values
      | Some b \<Rightarrow> range_loop n (i + 1) b (values[i := sl_value s b]) s)"

definition GetByRankRange :: "int \<Rightarrow> int \<Rightarrow> 'v option list \<Rightarrow> 'v skiplist \<Rightarrow> (bool \<times> 'v option list) option" where
  "GetByRankRange rank_start rank_num values s = do {
     node \<leftarrow> GetNodeByRank rank_start s;
     (case node of
        None \<Rightarrow> Some (False, values)
      | Some n \<Rightarrow>
          if rank_num \<le> 0 \<or> int (length values) < rank_num then Some (False, values)
          else Some (True, range_loop (nat rank_num - 1) 1 n (values[0 := sl_value s n]) s))
   }"

partial_function (option) pull_loop :: "'v skiplist \<Rightarrow> nat \<Rightarrow> 'v list option" where
  "pull_loop s node =
     (case sl_next s 0 node of
        None \<Rightarrow> Some []
      | Some b \<Rightarrow> sl_value s b \<bind> (\<lambda>x. pull_loop s b \<bind> (\<lambda>xs. Some (x # xs))))"

definition PullList :: "'v skiplist \<Rightarrow> 'v list option" where
  "PullList s = pull_loop s sl_head"

definition GetLayerLength :: "int \<Rightarrow> 'v skiplist \<Rightarrow> int" where
  "GetLayerLength layer s =
     (if layer < 1 \<or> layer > int (sl_curr_layer s) then -1 else sl_lengths_num s ! nat (layer - 1))"

subsection \<open>Delete\<close>

definition unlink_layer :: "nat \<Rightarrow> nat \<Rightarrow> 'v skiplist \<Rightarrow> 'v skiplist option" where
  "unlink_layer node n s =
     (if sl_layers s node > n then
        (let s = (case sl_prev s n node of
               None \<Rightarrow> s
             | Some p \<Rightarrow> set_span n p (sl_span s n p + (sl_span s n node - 1)) (set_next n p (sl_next s n node) s))
         in Some (case sl_next s n node of None \<Rightarrow> s | Some c \<Rightarrow> set_prev n c (sl_prev s n node) s))
      else do { b \<leftarrow> sl_before_node s n; Some (set_span n b (sl_span s n b - 1) s) })"

text \<open>The three parts of \<open>DeleteNode\<close> after its loop: the tail, the largest layer, the counts.\<close>

definition delete_tail :: "nat \<Rightarrow> 'v skiplist \<Rightarrow> 'v skiplist" where
  "delete_tail node s = (if sl_tail s = Some node then s\<lparr>sl_tail := sl_prev s 0 node\<rparr> else s)"

definition delete_top_layer :: "'v skiplist \<Rightarrow> 'v skiplist" where
  "delete_top_layer s =
     (if sl_curr_layer s > 1 \<and> sl_next s (sl_curr_layer s - 1) sl_head = None
      then s\<lparr>sl_curr_layer := sl_curr_layer s - 1\<rparr> else s)"

definition delete_count :: "nat \<Rightarrow> 'v skiplist \<Rightarrow> 'v skiplist" where
  "delete_count node s =
     (let k = sl_layers s node - 1;
          s = (if sl_lengths_num s ! k > 0
               then s\<lparr>sl_lengths_num := (sl_lengths_num s)[k := sl_lengths_num s ! k - 1]\<rparr> else s)
      in if sl_curr_length s > 0 then s\<lparr>sl_curr_length := sl_curr_length s - 1\<rparr> else s)"

definition DeleteNode :: "nat \<Rightarrow> 'v skiplist \<Rightarrow> 'v skiplist option" where
  "DeleteNode node s = do {
     s \<leftarrow> each_layer (unlink_layer node) [0..<sl_curr_layer s] s;
     Some (delete_count node (delete_top_layer (delete_tail node s)))
   }"

definition Delete :: "('v \<Rightarrow> 'v \<Rightarrow> bool) \<Rightarrow> ('v \<Rightarrow> 'v \<Rightarrow> bool) \<Rightarrow> 'v \<Rightarrow> 'v skiplist \<Rightarrow>
    (bool \<times> 'v skiplist) option" where
  "Delete grt keq v s =
     (if sl_curr_length s = 0 then Some (False, s)
      else do {
        (node, s) \<leftarrow> GetNode grt keq v s;
        (case node of
           None \<Rightarrow> Some (False, s)
         | Some n \<Rightarrow> do { s \<leftarrow> DeleteNode n s; Some (True, s) })
      })"

definition DeleteByRank :: "int \<Rightarrow> 'v skiplist \<Rightarrow> (bool \<times> 'v skiplist) option" where
  "DeleteByRank rank s =
     (if sl_curr_length s = 0 then Some (False, s)
      else do {
        node \<leftarrow> GetNodeByRank rank s;
        (case node of
           None \<Rightarrow> Some (False, s)
         | Some n \<Rightarrow> do { s \<leftarrow> DeleteNode n s; Some (True, s) })
      })"

subsection \<open>One layer as a list\<close>

text \<open>
  \<open>lev h nx pv sp a d xs\<close>: from node \<open>a\<close>, with \<open>d\<close> nodes passed since \<open>a\<close>, the pointers \<open>nx\<close> and \<open>pv\<close>
  thread exactly the nodes of \<open>xs\<close> that \<open>h\<close> accepts, each span \<open>sp\<close> counts the nodes to the next such
  node (or to the end). \<open>adv\<close> is where one stands after passing \<open>xs\<close>: the last accepted node and the
  number of nodes passed since.
\<close>

fun lev :: "(nat \<Rightarrow> bool) \<Rightarrow> (nat \<Rightarrow> nat option) \<Rightarrow> (nat \<Rightarrow> nat option) \<Rightarrow> (nat \<Rightarrow> int) \<Rightarrow>
    nat \<Rightarrow> int \<Rightarrow> nat list \<Rightarrow> bool" where
  "lev h nx pv sp a d [] \<longleftrightarrow> nx a = None \<and> sp a = d"
| "lev h nx pv sp a d (x # xs) \<longleftrightarrow>
     (if h x then nx a = Some x \<and> pv x = Some a \<and> sp a = d + 1 \<and> lev h nx pv sp x 0 xs
      else lev h nx pv sp a (d + 1) xs)"

fun levp :: "(nat \<Rightarrow> bool) \<Rightarrow> (nat \<Rightarrow> nat option) \<Rightarrow> (nat \<Rightarrow> nat option) \<Rightarrow> (nat \<Rightarrow> int) \<Rightarrow>
    nat \<Rightarrow> int \<Rightarrow> nat list \<Rightarrow> bool" where
  "levp h nx pv sp a d [] \<longleftrightarrow> True"
| "levp h nx pv sp a d (x # xs) \<longleftrightarrow>
     (if h x then nx a = Some x \<and> pv x = Some a \<and> sp a = d + 1 \<and> levp h nx pv sp x 0 xs
      else levp h nx pv sp a (d + 1) xs)"

fun adv :: "(nat \<Rightarrow> bool) \<Rightarrow> nat \<Rightarrow> int \<Rightarrow> nat list \<Rightarrow> nat \<times> int" where
  "adv h a d [] = (a, d)"
| "adv h a d (x # xs) = (if h x then adv h x 0 xs else adv h a (d + 1) xs)"

lemma lev_append:
  "lev h nx pv sp a d (us @ vs) \<longleftrightarrow>
     levp h nx pv sp a d us \<and> lev h nx pv sp (fst (adv h a d us)) (snd (adv h a d us)) vs"
  by (induction us arbitrary: a d) auto

lemma adv_append: "adv h a d (us @ vs) = adv h (fst (adv h a d us)) (snd (adv h a d us)) vs"
  by (induction us arbitrary: a d) auto

lemma adv_mem: "fst (adv h a d us) = a \<or> fst (adv h a d us) \<in> set us \<and> h (fst (adv h a d us))"
  by (induction us arbitrary: a d) (auto, metis)

lemma adv_cong: "(\<And>x. x \<in> set us \<Longrightarrow> h x = h' x) \<Longrightarrow> adv h a d us = adv h' a d us"
  by (induction us arbitrary: a d) auto

lemma levp_cong:
  assumes "levp h nx pv sp a d us" "distinct (a # us)"
    and "\<And>x. x \<in> insert a (set us) \<Longrightarrow> x \<noteq> fst (adv h a d us) \<Longrightarrow> nx' x = nx x \<and> sp' x = sp x"
    and "\<And>x. x \<in> set us \<Longrightarrow> pv' x = pv x" "\<And>x. x \<in> set us \<Longrightarrow> h' x = h x"
  shows "levp h' nx' pv' sp' a d us"
  using assms
proof (induction us arbitrary: a d)
  case (Cons x xs)
  show ?case
  proof (cases "h x")
    case True
    then have "fst (adv h x 0 xs) \<noteq> a" using adv_mem [of h x 0 xs] Cons.prems(2) by auto
    with True Cons show ?thesis by auto
  qed (use Cons in auto)
qed simp

lemma lev_cong:
  assumes "lev h nx pv sp a d vs"
    and "\<And>x. x \<in> insert a (set vs) \<Longrightarrow> nx' x = nx x \<and> sp' x = sp x"
    and "\<And>x. x \<in> set vs \<Longrightarrow> pv' x = pv x" "\<And>x. x \<in> set vs \<Longrightarrow> h' x = h x"
  shows "lev h' nx' pv' sp' a d vs"
  using assms
proof (induction vs arbitrary: a d)
  case (Cons x xs)
  show ?case
  proof (cases "h x")
    case True
    with Cons.prems have "lev h' nx' pv' sp' x 0 xs" by (intro Cons.IH) auto
    with True Cons.prems show ?thesis by auto
  next
    case False
    with Cons.prems have "lev h' nx' pv' sp' a (d + 1) xs" by (intro Cons.IH) auto
    with False Cons.prems(4) show ?thesis by simp
  qed
qed simp

text \<open>The start of a layer may be moved: \<open>c\<close> takes over from \<open>a\<close> with all counts shifted by \<open>k\<close>.\<close>

lemma lev_transfer:
  assumes "lev h nx pv sp a d vs" "distinct vs" "nx' c = nx a" "sp' c = sp a + k"
    and "\<And>x. x \<in> set vs \<Longrightarrow> nx' x = nx x \<and> sp' x = sp x"
    and "\<And>x. x \<in> set vs \<Longrightarrow> pv' x = (if nx a = Some x then Some c else pv x)"
    and "\<And>x. x \<in> set vs \<Longrightarrow> h' x = h x"
  shows "lev h' nx' pv' sp' c (d + k) vs"
  using assms
proof (induction vs arbitrary: d)
  case (Cons x xs)
  show ?case
  proof (cases "h x")
    case True
    with Cons.prems(1) have nx: "nx a = Some x" and l: "lev h nx pv sp x 0 xs" by auto
    have "lev h' nx' pv' sp' x 0 xs"
      by (rule lev_cong [OF l]) (use Cons.prems nx in auto)
    with True nx Cons.prems show ?thesis by auto
  next
    case False
    with Cons.prems have "lev h' nx' pv' sp' c (d + 1 + k) xs" by (intro Cons.IH) auto
    with False Cons.prems(7) show ?thesis by (simp add: algebra_simps)
  qed
qed simp

lemma lev_prev: "lev h nx pv sp a d vs \<Longrightarrow> nx a = Some x \<Longrightarrow> pv x = Some a"
  by (induction vs arbitrary: d) (auto split: if_splits)

lemma lev_empty: "lev h nx pv sp a d xs \<Longrightarrow> nx a = None \<Longrightarrow> \<forall>x \<in> set xs. \<not> h x"
  by (induction xs arbitrary: d) (auto split: if_splits)

lemma lev_next:
  assumes "lev h nx pv sp a d vs"
  shows "nx a = None \<or> (\<exists>j < length vs. nx a = Some (vs ! j) \<and> sp a = d + 1 + int j)"
  using assms
proof (induction vs arbitrary: d)
  case (Cons x xs)
  show ?case
  proof (cases "h x")
    case True
    with Cons.prems show ?thesis by (auto intro: exI [of _ 0])
  next
    case False
    with Cons have "nx a = None \<or> (\<exists>j < length xs. nx a = Some (xs ! j) \<and> sp a = d + 2 + int j)"
      by (fastforce simp: algebra_simps)
    then show ?thesis by (fastforce intro: exI [of _ "Suc j" for j])
  qed
qed simp

text \<open>\<open>at us c d\<close>: node \<open>c\<close> is the head or stands in \<open>us\<close>, with \<open>d\<close> nodes of \<open>us\<close> after it.\<close>

definition at :: "nat list \<Rightarrow> nat \<Rightarrow> int \<Rightarrow> bool" where
  "at us c d \<longleftrightarrow> (\<exists>us1 us2. us = us1 @ us2 \<and> d = int (length us2) \<and>
     (if us1 = [] then c = 0 else last us1 = c))"

lemma at_head [intro]: "at us 0 (int (length us))"
  by (auto simp: at_def intro!: exI [of _ "[]"])

lemma adv_at: "at us (fst (adv h 0 0 us)) (snd (adv h 0 0 us))"
proof (induction us rule: rev_induct)
  case Nil
  then show ?case by (simp add: at_def)
next
  case (snoc x us)
  show ?case
  proof (cases "h x")
    case True
    have "at (us @ [x]) x 0"
      unfolding at_def by (intro exI [of _ "us @ [x]"] exI [of _ "[]"]) simp
    with True show ?thesis by (simp add: adv_append)
  next
    case False
    obtain c d where c: "adv h 0 0 us = (c, d)" by fastforce
    with snoc obtain us1 us2 where "us = us1 @ us2" "d = int (length us2)"
      "if us1 = [] then c = 0 else last us1 = c"
      by (auto simp: at_def)
    then have "at (us @ [x]) c (d + 1)"
      unfolding at_def by (intro exI [of _ us1] exI [of _ "us2 @ [x]"]) simp
    with False c show ?thesis by (simp add: adv_append)
  qed
qed

subsection \<open>Walking along a layer\<close>

abbreviation (input) on :: "'v skiplist \<Rightarrow> nat \<Rightarrow> nat \<Rightarrow> bool" where
  "on s i \<equiv> (\<lambda>a. i < sl_layers s a)"

abbreviation (input) layer_ok :: "'v skiplist \<Rightarrow> nat \<Rightarrow> nat \<Rightarrow> int \<Rightarrow> nat list \<Rightarrow> bool" where
  "layer_ok s i a d xs \<equiv> lev (on s i) (sl_next s i) (sl_prev s i) (sl_span s i) a d xs"

text \<open>\<open>cuts go p us vs\<close>: with \<open>p\<close> nodes up to the start of \<open>us\<close>, the condition of the walk holds of
  exactly the nodes of \<open>us\<close>.\<close>

definition cuts :: "(nat \<Rightarrow> int \<Rightarrow> bool option) \<Rightarrow> int \<Rightarrow> nat list \<Rightarrow> nat list \<Rightarrow> bool" where
  "cuts go p us vs \<longleftrightarrow> (\<forall>j < length us. go (us ! j) (p + 1 + int j) = Some True)
     \<and> (\<forall>j < length vs. go (vs ! j) (p + int (length us) + 1 + int j) = Some False)"

lemma cuts_Cons: "cuts go p (x # us) vs \<longleftrightarrow> go x (p + 1) = Some True \<and> cuts go (p + 1) us vs"
  by (auto simp: cuts_def nth_Cons less_Suc_eq_0_disj all_conj_distrib algebra_simps split: nat.splits)

lemma cuts_suffix: "cuts go p (us1 @ us2) vs \<Longrightarrow> cuts go (p + int (length us1)) us2 vs"
proof (induction us1 arbitrary: p)
  case (Cons x xs)
  then show ?case using Cons.IH [of "p + 1"] by (simp add: cuts_Cons add.assoc)
qed simp

lemma walk_cuts:
  assumes "layer_ok s i a d (us @ vs)" "cuts go (r + d) us vs"
  shows "walk go s i a r =
    Some (fst (adv (on s i) a d us), r + d + int (length us) - snd (adv (on s i) a d us))"
  using assms
proof (induction us arbitrary: a d r)
  case Nil
  have "walk go s i a r = Some (a, r)"
    using lev_next [OF Nil.prems(1) [unfolded append_Nil]]
  proof
    assume "\<exists>j < length vs. sl_next s i a = Some (vs ! j) \<and> sl_span s i a = d + 1 + int j"
    then obtain j where j: "j < length vs" "sl_next s i a = Some (vs ! j)" "sl_span s i a = d + 1 + int j"
      by blast
    then have "go (vs ! j) (r + sl_span s i a) = Some False"
      using Nil.prems(2) by (simp add: cuts_def algebra_simps)
    with j show ?thesis by (subst walk.simps) simp
  qed (subst walk.simps, simp)
  then show ?case by simp
next
  case (Cons x xs)
  show ?case
  proof (cases "on s i x")
    case True
    with Cons.prems have "layer_ok s i x 0 (xs @ vs)" "sl_next s i a = Some x" "sl_span s i a = d + 1"
      "go x (r + d + 1) = Some True" "cuts go (r + d + 1 + 0) xs vs"
      by (simp_all add: cuts_Cons)
    note f = this
    have "walk go s i a r = walk go s i x (r + d + 1)"
      using f by (simp add: walk.simps [of go s i a] add.assoc)
    then show ?thesis using Cons.IH [OF f(1,5)] True by simp
  next
    case False
    with Cons.prems have "layer_ok s i a (d + 1) (xs @ vs)" "cuts go (r + (d + 1)) xs vs"
      by (simp_all add: cuts_Cons add.assoc)
    from Cons.IH [OF this] False show ?thesis by (simp add: algebra_simps)
  qed
qed

text \<open>A walk that starts where a higher layer stopped ends where this layer would have stopped.\<close>

lemma walk_level:
  assumes ok: "layer_ok s i 0 0 (us @ vs)" and c: "at us c d" "c = 0 \<or> i < sl_layers s c"
    and go: "cuts go p us vs" and "0 \<notin> set us"
  shows "walk go s i c (p + int (length us) - d) =
    Some (fst (adv (on s i) 0 0 us), p + int (length us) - snd (adv (on s i) 0 0 us))"
proof -
  obtain us1 us2 where us: "us = us1 @ us2" "d = int (length us2)"
    and last: "if us1 = [] then c = 0 else last us1 = c"
    using c by (auto simp: at_def)
  have a1: "adv (on s i) 0 0 us1 = (c, 0)"
  proof (cases us1 rule: rev_cases)
    case (snoc ys y)
    with last c \<open>0 \<notin> set us\<close> us have "y = c" "i < sl_layers s c" by auto
    with snoc show ?thesis by (simp add: adv_append)
  qed (use last in simp)
  have "layer_ok s i c 0 (us2 @ vs)"
    using ok by (simp add: us lev_append a1)
  moreover have "cuts go (p + int (length us1) + 0) us2 vs"
    using cuts_suffix [of go p us1 us2 vs] go by (simp add: us)
  ultimately have "walk go s i c (p + int (length us1)) = Some (fst (adv (on s i) c 0 us2),
      p + int (length us1) + 0 + int (length us2) - snd (adv (on s i) c 0 us2))"
    by (rule walk_cuts)
  then show ?thesis by (simp add: us adv_append a1)
qed

subsection \<open>The list behind the pointers\<close>

definition repr :: "'v skiplist \<Rightarrow> nat list \<Rightarrow> bool" where
  "repr s as \<longleftrightarrow> distinct as \<and> 0 \<notin> set as \<and> 0 < sl_fresh s
     \<and> (\<forall>a \<in> set as. a < sl_fresh s \<and> 1 \<le> sl_layers s a \<and> sl_layers s a \<le> sl_curr_layer s
          \<and> sl_value s a \<noteq> None)
     \<and> 1 \<le> sl_curr_layer s \<and> sl_curr_layer s \<le> MAX_SKIPLIST_LAYER \<and> sl_value s 0 = None
     \<and> sl_curr_length s = int (length as)
     \<and> (\<forall>i < sl_curr_layer s. layer_ok s i 0 0 as)
     \<and> (\<forall>i \<ge> sl_curr_layer s. sl_next s i 0 = None)
     \<and> (as \<noteq> [] \<longrightarrow> sl_tail s = Some (last as))
     \<and> length (sl_lengths_num s) = MAX_SKIPLIST_LAYER
     \<and> (\<forall>k < MAX_SKIPLIST_LAYER. sl_lengths_num s ! k = int (count_list (map (sl_layers s) as) (k + 1)))"

definition val :: "'v skiplist \<Rightarrow> nat \<Rightarrow> 'v" where
  "val s a = the (sl_value s a)"

abbreviation (input) stop :: "'v skiplist \<Rightarrow> nat list \<Rightarrow> nat \<Rightarrow> nat" where
  "stop s us i \<equiv> fst (adv (on s i) 0 0 us)"

abbreviation (input) past :: "'v skiplist \<Rightarrow> nat list \<Rightarrow> nat \<Rightarrow> int" where
  "past s us i \<equiv> snd (adv (on s i) 0 0 us)"

lemma reprD:
  assumes "repr s as"
  shows "distinct as" "0 \<notin> set as" "0 < sl_fresh s" "1 \<le> sl_curr_layer s"
    "sl_curr_length s = int (length as)"
    and "\<And>i. i < sl_curr_layer s \<Longrightarrow> layer_ok s i 0 0 as"
    and "\<And>i. sl_curr_layer s \<le> i \<Longrightarrow> sl_next s i 0 = None"
    and "\<And>a. a \<in> set as \<Longrightarrow> a < sl_fresh s \<and> 1 \<le> sl_layers s a \<and> sl_layers s a \<le> sl_curr_layer s"
    and "\<And>a. a \<in> set as \<Longrightarrow> sl_value s a = Some (val s a)"
  using assms by (auto simp: repr_def val_def)

lemma stop_layers: "stop s us i = 0 \<or> i < sl_layers s (stop s us i)"
  using adv_mem [of "on s i" 0 0 us] by auto

lemma value_cuts:
  assumes "\<forall>a \<in> set (us @ vs). sl_value s a = Some (val s a)"
    and "\<forall>a \<in> set us. grt (val s a) v" "\<forall>a \<in> set vs. \<not> grt (val s a) v"
  shows "cuts (value_greater grt v s) p us vs"
  using assms by (auto simp: cuts_def value_greater_def)

lemma rank_cuts:
  assumes "int (length us) = min (max 0 rank) (int (length (us @ vs)))"
  shows "cuts (\<lambda>_ r. Some (r \<le> rank)) 0 us vs"
  using assms by (auto simp: cuts_def)

subsection \<open>What the searches return\<close>

lemma below_Suc: "(\<lambda>j. if j < i then f j else (g(i := f i)) j) = (\<lambda>j. if j < Suc i then f j else g j)"
  by (auto simp: fun_eq_iff less_Suc_eq)

lemma insert_search_stops:
  assumes "repr s (us @ vs)" "cuts (value_greater grt v s) 0 us vs" "m \<le> sl_curr_layer s"
    and "at us c d" "c = 0 \<or> m \<le> sl_layers s c"
    and "m = sl_curr_layer s \<Longrightarrow> d = int (length us)"
    and "m \<noteq> sl_curr_layer s \<Longrightarrow> R m = int (length us) - d"
  shows "insert_search grt v m c (s\<lparr>sl_rank := R, sl_before_node := B\<rparr>) = Some (s\<lparr>
     sl_rank := (\<lambda>i. if i < m then int (length us) - past s us i else R i),
     sl_before_node := (\<lambda>i. if i < m then Some (stop s us i) else B i)\<rparr>)"
  using assms(3-)
proof (induction m arbitrary: c d R B)
  case (Suc i)
  let ?s = "s\<lparr>sl_rank := R, sl_before_node := B\<rparr>"
  let ?r = "if Suc i = sl_curr_layer s then 0 else R (Suc i)"
  have r: "?r = int (length us) - d" using Suc.prems(4,5) by auto
  have w: "walk (value_greater grt v ?s) ?s i c (0 + int (length us) - d) =
      Some (stop ?s us i, 0 + int (length us) - past ?s us i)"
  proof (rule walk_level)
    show "layer_ok ?s i 0 0 (us @ vs)" using reprD(6) [OF assms(1), of i] Suc.prems(1) by simp
    show "cuts (value_greater grt v ?s) 0 us vs"
      using assms(2) by (simp add: cuts_def value_greater_def)
    show "0 \<notin> set us" using reprD(2) [OF assms(1)] by simp
  qed (use Suc.prems in auto)
  let ?R = "R(i := int (length us) - past s us i)" and ?B = "B(i := Some (stop s us i))"
  have "insert_search grt v i (stop s us i) (s\<lparr>sl_rank := ?R, sl_before_node := ?B\<rparr>) = Some (s\<lparr>
     sl_rank := (\<lambda>j. if j < i then int (length us) - past s us j else ?R j),
     sl_before_node := (\<lambda>j. if j < i then Some (stop s us j) else ?B j)\<rparr>)"
    by (rule Suc.IH [where d = "past s us i"])
       (use Suc.prems(1) adv_at [of us "on s i"] stop_layers [of i s us] in auto)
  then have IH: "insert_search grt v i (stop s us i) (s\<lparr>sl_rank := ?R, sl_before_node := ?B\<rparr>) = Some (s\<lparr>
     sl_rank := (\<lambda>j. if j < Suc i then int (length us) - past s us j else R j),
     sl_before_node := (\<lambda>j. if j < Suc i then Some (stop s us j) else B j)\<rparr>)"
    unfolding below_Suc [of i "\<lambda>j. int (length us) - past s us j"] below_Suc [of i "\<lambda>j. Some (stop s us j)"] .
  have "insert_search grt v (Suc i) c ?s =
      walk (value_greater grt v ?s) ?s i c ?r \<bind> (\<lambda>(node, r).
        insert_search grt v i node (?s\<lparr>sl_rank := (sl_rank ?s)(i := r),
          sl_before_node := (sl_before_node ?s)(i := Some node)\<rparr>))"
    by (simp add: Let_def)
  then show ?case using w unfolding r by (simp add: IH)
qed simp

lemma node_search_stops:
  assumes "repr s (us @ vs)" "\<forall>p. cuts (value_greater grt v s) p us vs" "m \<le> sl_curr_layer s"
    and "at us c d" "c = 0 \<or> m \<le> sl_layers s c"
  shows "\<exists>c'. node_search grt v m c (s\<lparr>sl_before_node := B\<rparr>) = Some (c', s\<lparr>
     sl_before_node := (\<lambda>i. if i < m then Some (stop s us i) else B i)\<rparr>)
     \<and> (if m = 0 then c' = c else c' = stop s us 0)"
  using assms(3-)
proof (induction m arbitrary: c d B)
  case (Suc i)
  let ?s = "s\<lparr>sl_before_node := B\<rparr>" and ?B = "B(i := Some (stop s us i))"
  have w: "walk (value_greater grt v ?s) ?s i c ((d - int (length us)) + int (length us) - d) =
      Some (stop ?s us i, (d - int (length us)) + int (length us) - past ?s us i)"
  proof (rule walk_level)
    show "layer_ok ?s i 0 0 (us @ vs)" using reprD(6) [OF assms(1), of i] Suc.prems(1) by simp
    show "cuts (value_greater grt v ?s) (d - int (length us)) us vs"
      using assms(2) by (simp add: cuts_def value_greater_def)
    show "0 \<notin> set us" using reprD(2) [OF assms(1)] by simp
  qed (use Suc.prems in auto)
  have "\<exists>c'. node_search grt v i (stop s us i) (s\<lparr>sl_before_node := ?B\<rparr>) = Some (c', s\<lparr>
     sl_before_node := (\<lambda>j. if j < i then Some (stop s us j) else ?B j)\<rparr>)
     \<and> (if i = 0 then c' = stop s us i else c' = stop s us 0)"
    by (rule Suc.IH [where d = "past s us i"])
       (use Suc.prems(1) adv_at [of us "on s i"] stop_layers [of i s us] in auto)
  then have IH: "\<exists>c'. node_search grt v i (stop s us i) (s\<lparr>sl_before_node := ?B\<rparr>) = Some (c', s\<lparr>
     sl_before_node := (\<lambda>j. if j < Suc i then Some (stop s us j) else B j)\<rparr>)
     \<and> (if i = 0 then c' = stop s us i else c' = stop s us 0)"
    unfolding below_Suc [of i "\<lambda>j. Some (stop s us j)"] .
  have "node_search grt v (Suc i) c ?s = node_search grt v i (stop s us i) (s\<lparr>sl_before_node := ?B\<rparr>)"
    using w by simp
  with IH show ?case by (cases "i = 0") auto
qed simp

lemma rank_search_stops:
  assumes "repr s (us @ vs)" "cuts (\<lambda>_ r. Some (r \<le> rank)) 0 us vs" "m \<le> sl_curr_layer s"
    and "at us c d" "c = 0 \<or> m \<le> sl_layers s c"
  shows "rank_search rank m c (int (length us) - d) s =
    Some (if int (length us) = rank \<and> 0 < m then Some (if us = [] then 0 else last us) else None)"
  using assms(3-)
proof (induction m arbitrary: c d)
  case (Suc i)
  let ?d = "past s us i"
  have w: "walk (\<lambda>_ r. Some (r \<le> rank)) s i c (0 + int (length us) - d) =
      Some (stop s us i, 0 + int (length us) - ?d)"
  proof (rule walk_level)
    show "layer_ok s i 0 0 (us @ vs)" using reprD(6) [OF assms(1), of i] Suc.prems(1) by simp
    show "0 \<notin> set us" using reprD(2) [OF assms(1)] by simp
  qed (use Suc.prems assms(2) in auto)
  have "int (length us) \<le> rank \<or> us = []"
  proof (cases us rule: rev_cases)
    case (snoc ys y)
    then show ?thesis using assms(2) by (auto simp: cuts_def dest!: spec [of _ "length ys"])
  qed simp
  have at: "at us (stop s us i) ?d" by (rule adv_at)
  then have d: "0 \<le> ?d" "?d = 0 \<Longrightarrow> stop s us i = (if us = [] then 0 else last us)"
    by (auto simp: at_def split: if_splits)
  have IH: "rank_search rank i (stop s us i) (int (length us) - ?d) s =
      Some (if int (length us) = rank \<and> 0 < i then Some (if us = [] then 0 else last us) else None)"
    by (rule Suc.IH) (use Suc.prems(1) at stop_layers [of i s us] in auto)
  have "i = 0 \<Longrightarrow> ?d = 0"
  proof -
    assume i: "i = 0"
    have "\<forall>a \<in> set us. 0 < sl_layers s a" using reprD(8) [OF assms(1)] by fastforce
    then have "snd (adv (\<lambda>a. 0 < sl_layers s a) c 0 us) = 0" for c by (induction us arbitrary: c) auto
    with i show ?thesis by simp
  qed
  show ?case
  proof (cases "int (length us) - ?d = rank")
    case True
    show ?thesis
    proof (cases "?d = 0")
      case True
      with w d(2) \<open>int (length us) - ?d = rank\<close> show ?thesis by simp
    next
      case False
      with d(1) True \<open>int (length us) \<le> rank \<or> us = []\<close> at show ?thesis by (auto simp: at_def)
    qed
  next
    case False
    with w IH \<open>i = 0 \<Longrightarrow> ?d = 0\<close> show ?thesis by auto
  qed
qed simp

lemma value_search_stops:
  assumes "repr s (us @ vs)" "cuts (value_greater grt v s) 0 us vs" "m \<le> sl_curr_layer s"
    and "at us c d" "c = 0 \<or> m \<le> sl_layers s c"
    and "\<forall>a \<in> set vs. keq (val s a) v \<longleftrightarrow> vs \<noteq> [] \<and> a = hd vs \<and> found"
  shows "value_search grt keq v m c (int (length us) - d) s =
    Some (if found \<and> 0 < m \<and> vs \<noteq> [] then int (length us) + 1 else 0)"
  using assms(3-5)
proof (induction m arbitrary: c d)
  case (Suc i)
  let ?d = "past s us i" and ?c = "stop s us i"
  have ok: "layer_ok s i 0 0 (us @ vs)" using reprD(6) [OF assms(1), of i] Suc.prems(1) by simp
  have w: "walk (value_greater grt v s) s i c (0 + int (length us) - d) =
      Some (stop s us i, 0 + int (length us) - ?d)"
  proof (rule walk_level)
    show "0 \<notin> set us" using reprD(2) [OF assms(1)] by simp
  qed (use Suc.prems assms(2) ok in auto)
  have at: "at us ?c ?d" by (rule adv_at)
  have IH: "value_search grt keq v i ?c (int (length us) - ?d) s =
      Some (if found \<and> 0 < i \<and> vs \<noteq> [] then int (length us) + 1 else 0)"
    by (rule Suc.IH) (use Suc.prems(1) at stop_layers [of i s us] in auto)
  have l: "layer_ok s i ?c ?d vs" using ok by (simp add: lev_append)
  have vals: "a \<in> set vs \<Longrightarrow> sl_value s a = Some (val s a)" for a
    using reprD(9) [OF assms(1), of a] by simp
  show ?case
  proof (cases vs)
    case Nil
    with l w IH show ?thesis by simp
  next
    case (Cons z zs)
    show ?thesis
    proof (cases "found \<and> i < sl_layers s z")
      case True
      with l Cons have "sl_next s i ?c = Some z" "sl_span s i ?c = ?d + 1" by simp_all
      with w Cons True assms(6) vals [of z] show ?thesis by simp
    next
      case False
      have nx: "sl_next s i ?c = None \<or> (\<exists>b \<in> set vs. sl_next s i ?c = Some b \<and> \<not> keq (val s b) v)"
      proof (cases "i < sl_layers s z")
        case True
        with l Cons False assms(6) show ?thesis by auto
      next
        case z: False
        with l Cons have "layer_ok s i ?c (?d + 1) zs" by simp
        from lev_next [OF this] show ?thesis
        proof
          assume "\<exists>j < length zs. sl_next s i ?c = Some (zs ! j) \<and> sl_span s i ?c = ?d + 1 + 1 + int j"
          then obtain j where "j < length zs" "sl_next s i ?c = Some (zs ! j)" by blast
          moreover have "z \<notin> set zs" using reprD(1) [OF assms(1)] Cons by simp
          ultimately show ?thesis using assms(6) Cons nth_mem [of j zs] by auto
        qed simp
      qed
      have "value_search grt keq v (Suc i) c (int (length us) - d) s =
          value_search grt keq v i ?c (int (length us) - ?d) s"
        using nx w vals by auto
      moreover have "i = 0 \<Longrightarrow> \<not> found"
        using False reprD(8) [OF assms(1), of z] Cons by auto
      ultimately show ?thesis using IH by auto
    qed
  qed
qed simp

subsection \<open>Linking and unlinking one layer\<close>

lemma lev_insert_on:
  fixes nx pv :: "nat \<Rightarrow> nat option" and sp :: "nat \<Rightarrow> int"
  assumes "lev h nx pv sp 0 0 (us @ vs)" "distinct (0 # us @ vs)" "n \<notin> set (0 # us @ vs)"
    and b: "adv h 0 0 us = (b, d)" and "h' n" "\<And>x. x \<in> set (us @ vs) \<Longrightarrow> h' x = h x"
  shows "lev h' (nx(n := nx b, b := Some n))
      (case nx b of None \<Rightarrow> pv(n := Some b) | Some c \<Rightarrow> pv(n := Some b, c := Some n))
      (sp(n := sp b - d, b := d + 1)) 0 0 (us @ n # vs)"
    (is "lev h' ?nx ?pv ?sp 0 0 _")
proof -
  have p: "levp h nx pv sp 0 0 us" and l: "lev h nx pv sp b d vs"
    using assms(1) b by (simp_all add: lev_append)
  have bn: "b \<noteq> n" and bv: "b \<notin> set vs"
    using adv_mem [of h 0 0 us] assms(2,3) b by auto
  have c: "nx b = Some c \<Longrightarrow> c \<in> set vs" for c
    using lev_next [OF l] by auto
  have "levp h' ?nx ?pv ?sp 0 0 us"
    by (rule levp_cong [OF p]) (use assms b c in \<open>auto split: option.splits\<close>)
  moreover have "lev h' ?nx ?pv ?sp n (d + - d) vs"
    by (rule lev_transfer [OF l]) (use assms bn bv c in \<open>auto split: option.splits\<close>)
  moreover have "adv h' 0 0 us = (b, d)"
    using adv_cong [of us h' h] assms(6) b by simp
  moreover have "?pv n = Some b"
    using c assms(3) by (auto split: option.splits)
  ultimately show ?thesis using bn assms(5) by (simp add: lev_append)
qed

lemma lev_insert_off:
  fixes nx pv :: "nat \<Rightarrow> nat option" and sp :: "nat \<Rightarrow> int"
  assumes "lev h nx pv sp 0 0 (us @ vs)" "distinct (0 # us @ vs)" "n \<notin> set (0 # us @ vs)"
    and b: "adv h 0 0 us = (b, d)" and "\<not> h' n" "\<And>x. x \<in> set (us @ vs) \<Longrightarrow> h' x = h x"
  shows "lev h' nx pv (sp(b := sp b + 1)) 0 0 (us @ n # vs)"
    (is "lev h' nx pv ?sp 0 0 _")
proof -
  have p: "levp h nx pv sp 0 0 us" and l: "lev h nx pv sp b d vs"
    using assms(1) b by (simp_all add: lev_append)
  have bv: "b \<notin> set vs"
    using adv_mem [of h 0 0 us] assms(2,3) b by auto
  have "levp h' nx pv ?sp 0 0 us"
    by (rule levp_cong [OF p]) (use assms b in auto)
  moreover have "lev h' nx pv ?sp b (d + 1) vs"
    by (intro lev_transfer [OF l]) (use assms bv lev_prev [OF l] in auto)
  moreover have "adv h' 0 0 us = (b, d)"
    using adv_cong [of us h' h] assms(6) b by simp
  ultimately show ?thesis using assms(5) by (simp add: lev_append)
qed

lemma lev_delete_on:
  fixes nx pv :: "nat \<Rightarrow> nat option" and sp :: "nat \<Rightarrow> int"
  assumes "lev h nx pv sp 0 0 (us @ n # vs)" "distinct (0 # us @ n # vs)"
    and b: "adv h 0 0 us = (b, d)" and "h n"
  shows "pv n = Some b \<and> lev h (nx(b := nx n))
      (case nx n of None \<Rightarrow> pv | Some c \<Rightarrow> pv(c := pv n)) (sp(b := sp b + (sp n - 1))) 0 0 (us @ vs)"
    (is "_ \<and> lev h ?nx ?pv ?sp 0 0 _")
proof -
  have p: "levp h nx pv sp 0 0 us" and l: "lev h nx pv sp n 0 vs"
    and n: "nx b = Some n" "pv n = Some b" "sp b = d + 1"
    using assms(1,4) b by (simp_all add: lev_append)
  have bn: "b \<noteq> n" and bv: "b \<notin> set vs"
    using adv_mem [of h 0 0 us] assms(2) b by auto
  have c: "nx n = Some c \<Longrightarrow> c \<in> set vs" for c
    using lev_next [OF l] by auto
  have "levp h ?nx ?pv ?sp 0 0 us"
    by (rule levp_cong [OF p]) (use assms b c in \<open>auto split: option.splits\<close>)
  moreover have "lev h ?nx ?pv ?sp b (0 + d) vs"
    by (rule lev_transfer [OF l]) (use assms bn bv n in \<open>auto split: option.splits\<close>)
  ultimately show ?thesis using b n(2) by (simp add: lev_append)
qed

lemma lev_delete_off:
  fixes nx pv :: "nat \<Rightarrow> nat option" and sp :: "nat \<Rightarrow> int"
  assumes "lev h nx pv sp 0 0 (us @ n # vs)" "distinct (0 # us @ n # vs)"
    and b: "adv h 0 0 us = (b, d)" and "\<not> h n"
  shows "lev h nx pv (sp(b := sp b - 1)) 0 0 (us @ vs)" (is "lev h nx pv ?sp 0 0 _")
proof -
  have p: "levp h nx pv sp 0 0 us" and l: "lev h nx pv sp b (d + 1) vs"
    using assms(1,4) b by (simp_all add: lev_append)
  have bv: "b \<notin> set vs"
    using adv_mem [of h 0 0 us] assms(2) b by auto
  have "levp h nx pv ?sp 0 0 us"
    by (rule levp_cong [OF p]) (use assms b in auto)
  moreover have "lev h nx pv ?sp b (d + 1 + - 1) vs"
    by (intro lev_transfer [OF l]) (use assms bv lev_prev [OF l] in auto)
  ultimately show ?thesis using b by (simp add: lev_append)
qed

subsection \<open>Loops over layers\<close>

lemma each_layer_append: "each_layer f (is @ js) s = each_layer f is s \<bind> each_layer f js"
proof (induction "is" arbitrary: s)
  case (Cons i "is")
  then show ?case by (cases "f i s") simp_all
qed simp

text \<open>A body that changes each layer on its own: when the loop comes to a layer, the layer is as it was
  at the start, and the loop changes exactly the layers it visits.\<close>

lemma each_layer_local:
  assumes "\<And>i nx pv sp. a \<le> i \<Longrightarrow> i < b \<Longrightarrow>
      nx i = sl_next s i \<Longrightarrow> pv i = sl_prev s i \<Longrightarrow> sp i = sl_span s i \<Longrightarrow>
      f i (s\<lparr>sl_next := nx, sl_prev := pv, sl_span := sp\<rparr>) = Some (s\<lparr>
        sl_next := nx(i := N i), sl_prev := pv(i := P i), sl_span := sp(i := S i)\<rparr>)"
  shows "each_layer f [a..<b] s = Some (s\<lparr>
      sl_next := (\<lambda>i. if a \<le> i \<and> i < b then N i else sl_next s i),
      sl_prev := (\<lambda>i. if a \<le> i \<and> i < b then P i else sl_prev s i),
      sl_span := (\<lambda>i. if a \<le> i \<and> i < b then S i else sl_span s i)\<rparr>)"
  using assms
proof (induction b)
  case (Suc b)
  show ?case
  proof (cases "a \<le> b")
    case True
    let ?nx = "\<lambda>i. if a \<le> i \<and> i < b then N i else sl_next s i"
      and ?pv = "\<lambda>i. if a \<le> i \<and> i < b then P i else sl_prev s i"
      and ?sp = "\<lambda>i. if a \<le> i \<and> i < b then S i else sl_span s i"
    have "each_layer f [a..<b] s = Some (s\<lparr>sl_next := ?nx, sl_prev := ?pv, sl_span := ?sp\<rparr>)"
      by (rule Suc.IH) (use Suc.prems in auto)
    moreover have "?nx(b := N b) = (\<lambda>i. if a \<le> i \<and> i < Suc b then N i else sl_next s i)"
      "?pv(b := P b) = (\<lambda>i. if a \<le> i \<and> i < Suc b then P i else sl_prev s i)"
      "?sp(b := S b) = (\<lambda>i. if a \<le> i \<and> i < Suc b then S i else sl_span s i)"
      using True by (auto simp: fun_eq_iff less_Suc_eq)
    ultimately show ?thesis
      using True Suc.prems [where i = b and nx = ?nx and pv = ?pv and sp = ?sp]
      by (simp add: each_layer_append)
  next
    case False
    then have "[a..<Suc b] = []" by simp
    then show ?thesis
      by (simp only: each_layer.simps option.inject) (intro skiplist.equality, use False in \<open>auto simp: fun_eq_iff\<close>)
  qed
qed simp

lemma raise_layers_eq:
  "raise_layers m s = s\<lparr>
     sl_rank := (\<lambda>i. if sl_curr_layer s \<le> i \<and> i < m then 0 else sl_rank s i),
     sl_before_node := (\<lambda>i. if sl_curr_layer s \<le> i \<and> i < m then Some 0 else sl_before_node s i),
     sl_span := (\<lambda>i. if sl_curr_layer s \<le> i \<and> i < m then (sl_span s i)(0 := sl_curr_length s) else sl_span s i),
     sl_curr_layer := max (sl_curr_layer s) m\<rparr>"
proof -
  have "fold raise_layer [c..<m] s = s\<lparr>
     sl_rank := (\<lambda>i. if c \<le> i \<and> i < m then 0 else sl_rank s i),
     sl_before_node := (\<lambda>i. if c \<le> i \<and> i < m then Some 0 else sl_before_node s i),
     sl_span := (\<lambda>i. if c \<le> i \<and> i < m then (sl_span s i)(0 := sl_curr_length s) else sl_span s i)\<rparr>" for c
  proof (induction m)
    case (Suc m)
    show ?case
    proof (cases "c \<le> m")
      case True
      then have "fold raise_layer [c..<Suc m] s = raise_layer m (fold raise_layer [c..<m] s)" by simp
      then show ?thesis
        unfolding Suc.IH raise_layer_def set_span_def
        by (intro skiplist.equality) (use True in \<open>auto simp: fun_eq_iff less_Suc_eq\<close>)
    next
      case False
      then show ?thesis by (intro skiplist.equality) (auto simp: fun_eq_iff)
    qed
  qed simp
  then show ?thesis
    by (intro skiplist.equality) (auto simp: raise_layers_def max_def fun_eq_iff)
qed

subsection \<open>Insert\<close>

text \<open>\<open>prepared s n m us vs\<close>: the state before the links of the new node \<open>n\<close> of \<open>m\<close> layers are set. The
  cached nodes and ranks are those at which each layer stops before \<open>vs\<close>.\<close>

definition prepared :: "'v skiplist \<Rightarrow> nat \<Rightarrow> nat \<Rightarrow> nat list \<Rightarrow> nat list \<Rightarrow> bool" where
  "prepared s n m us vs \<longleftrightarrow> distinct (0 # us @ vs) \<and> n \<notin> set (0 # us @ vs) \<and> sl_layers s n = m
     \<and> 1 \<le> m \<and> m \<le> sl_curr_layer s
     \<and> (\<forall>a \<in> set us. 1 \<le> sl_layers s a)
     \<and> (\<forall>i < sl_curr_layer s. layer_ok s i 0 0 (us @ vs)
          \<and> sl_before_node s i = Some (stop s us i) \<and> sl_rank s i = int (length us) - past s us i)"

lemma past_0: "\<forall>a \<in> set us. 1 \<le> sl_layers s a \<Longrightarrow> past s us 0 = 0"
proof -
  have "\<forall>a \<in> set us. 1 \<le> sl_layers s a \<Longrightarrow> snd (adv (on s 0) c 0 us) = 0" for c
    by (induction us arbitrary: c) (auto simp: Suc_le_eq)
  then show "\<forall>a \<in> set us. 1 \<le> sl_layers s a \<Longrightarrow> past s us 0 = 0" by simp
qed

lemma link_bump:
  assumes "prepared s n m us vs"
  shows "\<exists>s'. (each_layer (link_layer n) [0..<m] s \<bind> each_layer bump_layer [m..<sl_curr_layer s]) = Some s'
    \<and> (\<exists>nx pv sp. s' = s\<lparr>sl_next := nx, sl_prev := pv, sl_span := sp\<rparr>)
    \<and> (\<forall>i < sl_curr_layer s. layer_ok s' i 0 0 (us @ n # vs))
    \<and> (\<forall>i \<ge> sl_curr_layer s. sl_next s' i = sl_next s i)"
proof -
  note p = assms [unfolded prepared_def]
  let ?b = "stop s us" and ?d = "past s us"
  have rank: "sl_rank s 0 - sl_rank s i = ?d i" if "i < sl_curr_layer s" for i
    using p that past_0 [of us s] by auto
  have link: "each_layer (link_layer n) [0..<m] s = Some (s\<lparr>
      sl_next := (\<lambda>i. if 0 \<le> i \<and> i < m then (sl_next s i)(n := sl_next s i (?b i), ?b i := Some n) else sl_next s i),
      sl_prev := (\<lambda>i. if 0 \<le> i \<and> i < m then (case sl_next s i (?b i) of None \<Rightarrow> (sl_prev s i)(n := Some (?b i))
          | Some c \<Rightarrow> (sl_prev s i)(n := Some (?b i), c := Some n)) else sl_prev s i),
      sl_span := (\<lambda>i. if 0 \<le> i \<and> i < m then (sl_span s i)(n := sl_span s i (?b i) - ?d i, ?b i := ?d i + 1)
          else sl_span s i)\<rparr>)" (is "_ = Some ?s1")
  proof (rule each_layer_local)
    fix i nx pv sp assume "i < m" and at: "nx i = sl_next s i" "pv i = sl_prev s i" "sp i = sl_span s i"
    then have i: "i < sl_curr_layer s" using p by simp
    then have b: "sl_before_node s i = Some (?b i)" using p by simp
    show "link_layer n i (s\<lparr>sl_next := nx, sl_prev := pv, sl_span := sp\<rparr>) = Some (s\<lparr>
        sl_next := nx(i := (sl_next s i)(n := sl_next s i (?b i), ?b i := Some n)),
        sl_prev := pv(i := (case sl_next s i (?b i) of None \<Rightarrow> (sl_prev s i)(n := Some (?b i))
          | Some c \<Rightarrow> (sl_prev s i)(n := Some (?b i), c := Some n))),
        sl_span := sp(i := (sl_span s i)(n := sl_span s i (?b i) - ?d i, ?b i := ?d i + 1))\<rparr>)"
      unfolding at [symmetric]
      by (cases "nx i (?b i)")
        (simp_all add: link_layer_def set_next_def set_prev_def set_span_def b rank [OF i])
  qed
  have bump: "each_layer bump_layer [m..<sl_curr_layer s] ?s1 = Some (?s1\<lparr>
      sl_next := (\<lambda>i. if m \<le> i \<and> i < sl_curr_layer s then sl_next ?s1 i else sl_next ?s1 i),
      sl_prev := (\<lambda>i. if m \<le> i \<and> i < sl_curr_layer s then sl_prev ?s1 i else sl_prev ?s1 i),
      sl_span := (\<lambda>i. if m \<le> i \<and> i < sl_curr_layer s
          then (sl_span ?s1 i)(?b i := sl_span ?s1 i (?b i) + 1) else sl_span ?s1 i)\<rparr>)" (is "_ = Some ?s2")
  proof (rule each_layer_local)
    fix i nx pv sp assume "i < sl_curr_layer s"
      and at: "nx i = sl_next ?s1 i" "pv i = sl_prev ?s1 i" "sp i = sl_span ?s1 i"
    then have "sl_before_node s i = Some (?b i)" using p by simp
    then show "bump_layer i (?s1\<lparr>sl_next := nx, sl_prev := pv, sl_span := sp\<rparr>) = Some (?s1\<lparr>
        sl_next := nx(i := sl_next ?s1 i), sl_prev := pv(i := sl_prev ?s1 i),
        sl_span := sp(i := (sl_span ?s1 i)(?b i := sl_span ?s1 i (?b i) + 1))\<rparr>)"
      unfolding at [symmetric] by (simp add: bump_layer_def set_span_def)
  qed
  have "layer_ok ?s2 i 0 0 (us @ n # vs)" if i: "i < sl_curr_layer s" for i
  proof (cases "i < m")
    case True
    have "lev (on s i) ((sl_next s i)(n := sl_next s i (?b i), ?b i := Some n))
        (case sl_next s i (?b i) of None \<Rightarrow> (sl_prev s i)(n := Some (?b i))
          | Some c \<Rightarrow> (sl_prev s i)(n := Some (?b i), c := Some n))
        ((sl_span s i)(n := sl_span s i (?b i) - ?d i, ?b i := ?d i + 1)) 0 0 (us @ n # vs)"
      by (rule lev_insert_on) (use p i True in auto)
    with True show ?thesis by simp
  next
    case False
    have "lev (on s i) (sl_next s i) (sl_prev s i) ((sl_span s i)(?b i := sl_span s i (?b i) + 1))
        0 0 (us @ n # vs)"
      by (rule lev_insert_off [where d = "?d i"]) (use p i False in auto)
    with False i show ?thesis by simp
  qed
  moreover have "sl_next ?s2 i = sl_next s i" if "sl_curr_layer s \<le> i" for i
    using that p by simp
  ultimately show ?thesis using link bump by (intro exI [of _ ?s2]) auto
qed

lemma adv_none: "\<forall>a \<in> set us. \<not> h a \<Longrightarrow> adv h c d us = (c, d + int (length us))"
  by (induction us arbitrary: d) auto

lemma lev_none: "\<forall>a \<in> set us. \<not> h a \<Longrightarrow> lev h nx pv sp c d us \<longleftrightarrow> nx c = None \<and> sp c = d + int (length us)"
  by (induction us arbitrary: d) (auto simp: algebra_simps)

text \<open>The state of \<open>Insert_layer\<close> before its links are set.\<close>

definition insert_state :: "nat \<Rightarrow> 'v \<Rightarrow> nat list \<Rightarrow> 'v skiplist \<Rightarrow> nat \<times> 'v skiplist" where
  "insert_state m v us s = new_skiplist_node m (Some v) (raise_layers m (s\<lparr>
     sl_rank := (\<lambda>i. if i < sl_curr_layer s then int (length us) - past s us i else sl_rank s i),
     sl_before_node := (\<lambda>i. if i < sl_curr_layer s then Some (stop s us i) else sl_before_node s i)\<rparr>))"

lemma insert_prepared:
  assumes r: "repr s (us @ vs)" and m: "1 \<le> m" "m \<le> MAX_SKIPLIST_LAYER"
  shows "fst (insert_state m v us s) = sl_fresh s"
    and "prepared (snd (insert_state m v us s)) (sl_fresh s) m us vs"
proof -
  let ?s = "snd (insert_state m v us s)"
  note d = reprD [OF r]
  show "fst (insert_state m v us s) = sl_fresh s"
    by (simp add: insert_state_def new_skiplist_node_def Let_def raise_layers_eq)
  have n: "sl_fresh s \<notin> set (0 # us @ vs)" using d(3,8) by fastforce
  have layers: "sl_layers ?s = (sl_layers s)(sl_fresh s := m)"
    and nx: "sl_next ?s i = (sl_next s i)(sl_fresh s := None)"
    and pv: "sl_prev ?s i = (sl_prev s i)(sl_fresh s := None)"
    and cl: "sl_curr_layer ?s = max (sl_curr_layer s) m" for i
    by (simp_all add: insert_state_def new_skiplist_node_def Let_def raise_layers_eq)
  have adv: "adv (on ?s i) 0 0 us = adv (on s i) 0 0 us" for i
    by (rule adv_cong) (use n layers in auto)
  have high: "\<forall>a \<in> set us. \<not> i < sl_layers s a" "\<forall>a \<in> set (us @ vs). \<not> i < sl_layers ?s a"
    if "sl_curr_layer s \<le> i" for i
    using that d(8) n layers by fastforce+
  have "layer_ok ?s i 0 0 (us @ vs) \<and> sl_before_node ?s i = Some (stop ?s us i)
      \<and> sl_rank ?s i = int (length us) - past ?s us i" if i: "i < sl_curr_layer ?s" for i
  proof (cases "i < sl_curr_layer s")
    case True
    have "layer_ok ?s i 0 0 (us @ vs)"
      by (rule lev_cong [OF d(6) [OF True]])
         (use n d(3) True in \<open>auto simp: insert_state_def new_skiplist_node_def Let_def raise_layers_eq\<close>)
    with True show ?thesis unfolding adv
      by (simp add: insert_state_def new_skiplist_node_def Let_def raise_layers_eq)
  next
    case False
    then have "layer_ok ?s i 0 0 (us @ vs)"
      using i cl d(3,5,7) high(2) [of i]
      by (subst lev_none) (auto simp: insert_state_def new_skiplist_node_def Let_def raise_layers_eq)
    moreover have "i < m" using False i cl by simp
    ultimately show ?thesis unfolding adv using False adv_none [OF high(1) [of i], of 0 0]
      by (simp add: insert_state_def new_skiplist_node_def Let_def raise_layers_eq)
  qed
  with n d layers cl m show "prepared ?s (sl_fresh s) m us vs"
    by (auto simp: prepared_def)
qed

lemma insert_state_frame:
  "sl_curr_length (snd (insert_state m v us s)) = sl_curr_length s"
  "sl_lengths_num (snd (insert_state m v us s)) = sl_lengths_num s"
  "sl_tail (snd (insert_state m v us s)) = sl_tail s"
  "sl_fresh (snd (insert_state m v us s)) = sl_fresh s + 1"
  "sl_layers (snd (insert_state m v us s)) = (sl_layers s)(sl_fresh s := m)"
  "sl_value (snd (insert_state m v us s)) = (sl_value s)(sl_fresh s := Some v)"
  "sl_curr_layer (snd (insert_state m v us s)) = max (sl_curr_layer s) m"
  "sl_next (snd (insert_state m v us s)) i = (sl_next s i)(sl_fresh s := None)"
  by (simp_all add: insert_state_def new_skiplist_node_def Let_def raise_layers_eq)

lemma each_layer_link_frame: "each_layer (link_layer n) is s = Some s' \<Longrightarrow> sl_curr_layer s' = sl_curr_layer s"
proof (induction "is" arbitrary: s)
  case (Cons i "is")
  have "link_layer n i s = Some t \<Longrightarrow> sl_curr_layer t = sl_curr_layer s" for t
    by (auto simp: link_layer_def bind_eq_Some_conv Let_def set_next_def set_prev_def set_span_def
        split: option.splits)
  moreover from Cons.prems obtain t where "link_layer n i s = Some t" "each_layer (link_layer n) is t = Some s'"
    by (auto simp: bind_eq_Some_conv)
  ultimately show ?case using Cons.IH [of t] by simp
qed simp

lemma Insert_layer_repr:
  assumes r: "repr s (us @ vs)" and m: "1 \<le> m" "m \<le> MAX_SKIPLIST_LAYER"
    and g: "\<forall>a \<in> set us. grt (val s a) v" "\<forall>a \<in> set vs. \<not> grt (val s a) v"
  shows "\<exists>s'. Insert_layer grt m v s = Some s' \<and> repr s' (us @ sl_fresh s # vs)
    \<and> sl_value s' = (sl_value s)(sl_fresh s := Some v)"
proof -
  let ?n = "sl_fresh s"
  define q where "q = snd (insert_state m v us s)"
  note d = reprD [OF r]
  have "insert_search grt v (sl_curr_layer s) 0 (s\<lparr>sl_rank := sl_rank s, sl_before_node := sl_before_node s\<rparr>) = Some (s\<lparr>
     sl_rank := (\<lambda>i. if i < sl_curr_layer s then int (length us) - past s us i else sl_rank s i),
     sl_before_node := (\<lambda>i. if i < sl_curr_layer s then Some (stop s us i) else sl_before_node s i)\<rparr>)"
    by (rule insert_search_stops [OF r _ _ at_head]) (use g d(9) value_cuts [of us vs s grt v 0] in auto)
  then have search: "insert_search grt v (sl_curr_layer s) 0 s = Some (s\<lparr>
     sl_rank := (\<lambda>i. if i < sl_curr_layer s then int (length us) - past s us i else sl_rank s i),
     sl_before_node := (\<lambda>i. if i < sl_curr_layer s then Some (stop s us i) else sl_before_node s i)\<rparr>)"
    by simp
  have st: "insert_state m v us s = (?n, q)"
    using insert_prepared(1) [OF r m] by (metis prod.collapse q_def)
  note fr = insert_state_frame [of m v us s, folded q_def]
  note p = insert_prepared(2) [OF r m, of v, folded q_def]
  from link_bump [OF p] obtain s' nx pv sp where
    l: "(each_layer (link_layer ?n) [0..<m] q \<bind> each_layer bump_layer [m..<sl_curr_layer q]) = Some s'"
    and s': "s' = q\<lparr>sl_next := nx, sl_prev := pv, sl_span := sp\<rparr>"
    and ok: "\<forall>i < sl_curr_layer q. layer_ok s' i 0 0 (us @ ?n # vs)"
    and top: "\<forall>i \<ge> sl_curr_layer q. sl_next s' i = sl_next q i"
    by blast
  from l obtain s1 where l1: "each_layer (link_layer ?n) [0..<m] q = Some s1"
    and l2: "each_layer bump_layer [m..<sl_curr_layer q] s1 = Some s'"
    by (auto simp: bind_eq_Some_conv)
  have "sl_curr_layer s1 = sl_curr_layer q"
    by (rule each_layer_link_frame [OF l1])
  then have "Insert_layer grt m v s = Some
      ((if sl_next s' 0 ?n = None then s'\<lparr>sl_tail := Some ?n\<rparr> else s')\<lparr>
         sl_lengths_num := (sl_lengths_num s)[m - 1 := sl_lengths_num s ! (m - 1) + 1],
         sl_curr_length := sl_curr_length s + 1\<rparr>)" (is "_ = Some ?r")
    using search st l1 l2 by (simp add: Insert_layer_def insert_state_def [symmetric] s' fr)
  moreover have "repr ?r (us @ ?n # vs)"
  proof -
    have n: "?n \<notin> set (0 # us @ vs)" using d(3,8) by fastforce
    have L: "sl_layers s' = (sl_layers s)(?n := m)" by (simp add: s' fr)
    have low: "1 \<le> sl_layers s' a" if "a \<in> set (us @ ?n # vs)" for a
      using that d(8) m(1) by (auto simp: L)
    have "layer_ok s' 0 0 0 (us @ ?n # vs)" using ok m(1) d(4) by (simp add: fr)
    then have "layer_ok s' 0 ?n 0 vs" using low [of ?n] by (simp add: lev_append)
    then have nil: "sl_next s' 0 ?n = None \<longleftrightarrow> vs = []"
      using low by (cases vs) (auto simp: Suc_le_eq)
    have tail: "sl_tail s' = sl_tail s" "us @ vs \<noteq> [] \<Longrightarrow> sl_tail s = Some (last (us @ vs))"
      using r by (auto simp: s' fr repr_def)
    have cnt: "count_list (map (sl_layers s') (us @ ?n # vs)) (k + 1) =
        count_list (map (sl_layers s) (us @ vs)) (k + 1) + (if m = k + 1 then 1 else 0)" for k
    proof -
      have "map (sl_layers s') us = map (sl_layers s) us" "map (sl_layers s') vs = map (sl_layers s) vs"
        using n by (auto simp: L)
      moreover have "sl_layers s' ?n = m" by (simp add: L)
      ultimately show ?thesis by (simp del: map_eq_conv)
    qed
    have nums: "length (sl_lengths_num s) = MAX_SKIPLIST_LAYER"
      "\<And>k. k < MAX_SKIPLIST_LAYER \<Longrightarrow>
         sl_lengths_num s ! k = int (count_list (map (sl_layers s) (us @ vs)) (k + 1))"
      using r by (simp_all add: repr_def)
    have num: "(sl_lengths_num s)[m - 1 := sl_lengths_num s ! (m - 1) + 1] ! k =
        int (count_list (map (sl_layers s') (us @ ?n # vs)) (k + 1))" if "k < MAX_SKIPLIST_LAYER" for k
      using that m nums unfolding cnt by (auto simp: nth_list_update)
    have "distinct (us @ ?n # vs)" "0 \<notin> set (us @ ?n # vs)"
      using n d(1,2,3) by auto
    moreover have "\<forall>a \<in> set (us @ ?n # vs). a < sl_fresh ?r \<and> 1 \<le> sl_layers ?r a
        \<and> sl_layers ?r a \<le> sl_curr_layer ?r \<and> sl_value ?r a \<noteq> None"
      using d(8,9) m(1) n by (auto simp: s' fr le_max_iff_disj less_Suc_eq)
    moreover have "1 \<le> sl_curr_layer ?r" "sl_curr_layer ?r \<le> MAX_SKIPLIST_LAYER" "sl_value ?r 0 = None"
      "0 < sl_fresh ?r" "sl_curr_length ?r = int (length (us @ ?n # vs))"
      using r m d(3) by (auto simp: s' fr repr_def)
    moreover have "layer_ok ?r i 0 0 (us @ ?n # vs)" if "i < sl_curr_layer ?r" for i
      using ok that by (auto simp: s' split: if_splits)
    moreover have "sl_next ?r i 0 = None" if "sl_curr_layer ?r \<le> i" for i
      using top that d(3,7) by (auto simp: s' fr split: if_splits)
    moreover have "sl_tail ?r = Some (last (us @ ?n # vs))"
      using nil tail by (cases "vs = []") auto
    moreover have "length (sl_lengths_num ?r) = MAX_SKIPLIST_LAYER" using nums by simp
    moreover have "\<forall>k < MAX_SKIPLIST_LAYER. sl_lengths_num ?r ! k =
        int (count_list (map (sl_layers ?r) (us @ ?n # vs)) (k + 1))"
      using num by simp
    ultimately show ?thesis unfolding repr_def by blast
  qed
  moreover have "sl_value ?r = (sl_value s)(sl_fresh s := Some v)"
    by (simp add: s' fr)
  ultimately show ?thesis by blast
qed

subsection \<open>Delete\<close>

lemma unlink_all:
  assumes r: "repr s (us @ n # vs)"
    and b: "\<forall>i < sl_curr_layer s. sl_layers s n \<le> i \<longrightarrow> sl_before_node s i = Some (stop s us i)"
  shows "\<exists>s'. each_layer (unlink_layer n) [0..<sl_curr_layer s] s = Some s'
    \<and> (\<exists>nx pv sp. s' = s\<lparr>sl_next := nx, sl_prev := pv, sl_span := sp\<rparr>)
    \<and> (\<forall>i < sl_curr_layer s. layer_ok s' i 0 0 (us @ vs))
    \<and> (\<forall>i \<ge> sl_curr_layer s. sl_next s' i = sl_next s i)
    \<and> sl_prev s' 0 n = Some (stop s us 0)"
proof -
  note d = reprD [OF r]
  let ?b = "stop s us"
  let ?N = "\<lambda>i. if i < sl_layers s n then (sl_next s i)(?b i := sl_next s i n) else sl_next s i"
    and ?P = "\<lambda>i. if i < sl_layers s n
        then (case sl_next s i n of None \<Rightarrow> sl_prev s i | Some c \<Rightarrow> (sl_prev s i)(c := sl_prev s i n)) else sl_prev s i"
    and ?S = "\<lambda>i. if i < sl_layers s n then (sl_span s i)(?b i := sl_span s i (?b i) + (sl_span s i n - 1))
        else (sl_span s i)(?b i := sl_span s i (?b i) - 1)"
  have on: "sl_prev s i n = Some (?b i) \<and> lev (on s i) (?N i) (?P i) (?S i) 0 0 (us @ vs)"
    if i: "i < sl_layers s n" for i
  proof -
    have l: "i < sl_curr_layer s" using i d(8) [of n] by simp
    have "sl_prev s i n = Some (?b i) \<and> lev (on s i) ((sl_next s i)(?b i := sl_next s i n))
      (case sl_next s i n of None \<Rightarrow> sl_prev s i | Some c \<Rightarrow> (sl_prev s i)(c := sl_prev s i n))
      ((sl_span s i)(?b i := sl_span s i (?b i) + (sl_span s i n - 1))) 0 0 (us @ vs)"
      by (rule lev_delete_on [where d = "past s us i", OF d(6) [OF l]]) (use d(1,2) i in auto)
    with i show ?thesis by simp
  qed
  have off: "lev (on s i) (?N i) (?P i) (?S i) 0 0 (us @ vs)" if i: "i < sl_curr_layer s" "\<not> i < sl_layers s n" for i
  proof -
    have "lev (on s i) (sl_next s i) (sl_prev s i) ((sl_span s i)(?b i := sl_span s i (?b i) - 1)) 0 0 (us @ vs)"
      by (rule lev_delete_off [where d = "past s us i", OF d(6) [OF i(1)]]) (use d(1,2) i in auto)
    with i show ?thesis by simp
  qed
  have step: "each_layer (unlink_layer n) [0..<sl_curr_layer s] s = Some (s\<lparr>
      sl_next := (\<lambda>i. if 0 \<le> i \<and> i < sl_curr_layer s then ?N i else sl_next s i),
      sl_prev := (\<lambda>i. if 0 \<le> i \<and> i < sl_curr_layer s then ?P i else sl_prev s i),
      sl_span := (\<lambda>i. if 0 \<le> i \<and> i < sl_curr_layer s then ?S i else sl_span s i)\<rparr>)" (is "_ = Some ?s1")
  proof (rule each_layer_local)
    fix i nx pv sp assume i: "i < sl_curr_layer s"
      and at: "nx i = sl_next s i" "pv i = sl_prev s i" "sp i = sl_span s i"
    show "unlink_layer n i (s\<lparr>sl_next := nx, sl_prev := pv, sl_span := sp\<rparr>) = Some (s\<lparr>
        sl_next := nx(i := ?N i), sl_prev := pv(i := ?P i), sl_span := sp(i := ?S i)\<rparr>)"
    proof (cases "i < sl_layers s n")
      case True
      then have "pv i n = Some (?b i)" using on at by simp
      moreover have "?b i \<noteq> n" using adv_mem [of "on s i" 0 0 us] d(1,2) by auto
      ultimately show ?thesis
        unfolding at [symmetric] using True
        by (cases "nx i n") (simp_all add: unlink_layer_def set_next_def set_prev_def set_span_def)
    next
      case False
      with b i have "sl_before_node s i = Some (?b i)" by simp
      with False show ?thesis
        unfolding at [symmetric] by (simp add: unlink_layer_def set_span_def)
    qed
  qed
  have "layer_ok ?s1 i 0 0 (us @ vs)" if "i < sl_curr_layer s" for i
    using that on [of i] off [of i] by (cases "i < sl_layers s n") simp_all
  moreover have "sl_prev ?s1 0 n = Some (?b 0)"
  proof -
    have 0: "0 < sl_layers s n" "0 < sl_curr_layer s" using d(4) d(8) [of n] by auto
    have "sl_next s 0 n = Some c \<Longrightarrow> c \<noteq> n" for c
    proof -
      assume c: "sl_next s 0 n = Some c"
      have "layer_ok s 0 n 0 vs" using d(6) [OF 0(2)] 0(1) by (simp add: lev_append)
      from lev_next [OF this] c d(1) show "c \<noteq> n" by (auto simp: in_set_conv_nth)
    qed
    with on [OF 0(1)] 0 show ?thesis by (auto split: option.split)
  qed
  ultimately show ?thesis using step by (intro exI [of _ ?s1]) auto
qed

lemma DeleteNode_repr:
  assumes r: "repr s (us @ n # vs)"
    and b: "\<forall>i < sl_curr_layer s. sl_layers s n \<le> i \<longrightarrow> sl_before_node s i = Some (stop s us i)"
  shows "\<exists>s'. DeleteNode n s = Some s' \<and> repr s' (us @ vs) \<and> sl_value s' = sl_value s"
proof -
  note d = reprD [OF r]
  from unlink_all [OF r b] obtain s1 nx pv sp where
    l: "each_layer (unlink_layer n) [0..<sl_curr_layer s] s = Some s1"
    and s1: "s1 = s\<lparr>sl_next := nx, sl_prev := pv, sl_span := sp\<rparr>"
    and ok: "\<forall>i < sl_curr_layer s. layer_ok s1 i 0 0 (us @ vs)"
    and top: "\<forall>i \<ge> sl_curr_layer s. sl_next s1 i = sl_next s i"
    and prev: "sl_prev s1 0 n = Some (stop s us 0)" by blast
  let ?k = "sl_layers s n - 1"
  let ?L = "if 1 < sl_curr_layer s \<and> nx (sl_curr_layer s - 1) 0 = None then sl_curr_layer s - 1 else sl_curr_layer s"
  let ?r = "s1\<lparr>sl_tail := (if sl_tail s = Some n then Some (stop s us 0) else sl_tail s),
     sl_curr_layer := ?L, sl_lengths_num := (sl_lengths_num s)[?k := sl_lengths_num s ! ?k - 1],
     sl_curr_length := sl_curr_length s - 1\<rparr>"
  have k: "?k < MAX_SKIPLIST_LAYER" "?k + 1 = sl_layers s n"
    using d(8) [of n] r by (auto simp: repr_def)
  have nums: "length (sl_lengths_num s) = MAX_SKIPLIST_LAYER"
    "\<And>k. k < MAX_SKIPLIST_LAYER \<Longrightarrow>
       sl_lengths_num s ! k = int (count_list (map (sl_layers s) (us @ n # vs)) (k + 1))"
    using r by (simp_all add: repr_def)
  have pos: "0 < sl_lengths_num s ! ?k" "0 < sl_curr_length s"
    using nums(2) [OF k(1)] k(2) d(5) by auto
  have "delete_tail n s1 = s1\<lparr>sl_tail := (if sl_tail s = Some n then Some (stop s us 0) else sl_tail s)\<rparr>"
    using prev by (simp add: delete_tail_def s1)
  moreover have "delete_top_layer (s1\<lparr>sl_tail := t\<rparr>) = s1\<lparr>sl_tail := t, sl_curr_layer := ?L\<rparr>" for t
    by (simp add: delete_top_layer_def s1)
  moreover have "delete_count n (s1\<lparr>sl_tail := t, sl_curr_layer := c\<rparr>) = s1\<lparr>sl_tail := t, sl_curr_layer := c,
      sl_lengths_num := (sl_lengths_num s)[?k := sl_lengths_num s ! ?k - 1],
      sl_curr_length := sl_curr_length s - 1\<rparr>" for t c
    using pos by (simp add: delete_count_def s1 Let_def)
  ultimately have D: "DeleteNode n s = Some ?r"
    using l by (simp only: DeleteNode_def Option.bind.simps)
  have low: "\<forall>a \<in> set (us @ vs). 1 \<le> sl_layers s a \<and> sl_layers s a \<le> sl_curr_layer s" using d(8) by auto
  have L: "\<forall>a \<in> set (us @ vs). sl_layers s a \<le> ?L"
  proof (cases "1 < sl_curr_layer s \<and> nx (sl_curr_layer s - 1) 0 = None")
    case True
    then have "lev (on s (sl_curr_layer s - 1)) (nx (sl_curr_layer s - 1)) (pv (sl_curr_layer s - 1))
        (sp (sl_curr_layer s - 1)) 0 0 (us @ vs)" using ok [rule_format, of "sl_curr_layer s - 1"] by (simp add: s1)
    from lev_empty [OF this] True have "\<forall>x \<in> set (us @ vs). sl_layers s x \<le> sl_curr_layer s - 1"
      by (simp add: not_less)
    with True show ?thesis by simp
  qed (use low in auto)
  have "distinct (us @ vs)" "0 \<notin> set (us @ vs)" "0 < sl_fresh ?r" "sl_value ?r 0 = None"
    using r by (auto simp: s1 repr_def)
  moreover have "\<forall>a \<in> set (us @ vs). a < sl_fresh ?r \<and> 1 \<le> sl_layers ?r a \<and> sl_layers ?r a \<le> sl_curr_layer ?r
      \<and> sl_value ?r a \<noteq> None"
    using d(8,9) L by (auto simp: s1)
  moreover have "1 \<le> sl_curr_layer ?r" "sl_curr_layer ?r \<le> MAX_SKIPLIST_LAYER"
    "sl_curr_length ?r = int (length (us @ vs))"
    using r by (auto simp: repr_def)
  moreover have "layer_ok ?r i 0 0 (us @ vs)" if "i < sl_curr_layer ?r" for i
    using ok that by (auto simp: s1 split: if_splits)
  moreover have "sl_next ?r i 0 = None" if "sl_curr_layer ?r \<le> i" for i
  proof (cases "sl_curr_layer s \<le> i")
    case True
    with top d(7) show ?thesis by (simp add: s1)
  next
    case False
    with that have "i = sl_curr_layer s - 1" "nx (sl_curr_layer s - 1) 0 = None" by (auto split: if_splits)
    then show ?thesis by (simp add: s1)
  qed
  moreover have "us @ vs \<noteq> [] \<longrightarrow> sl_tail ?r = Some (last (us @ vs))"
  proof
    assume ne: "us @ vs \<noteq> []"
    have t: "sl_tail s = Some (last (us @ n # vs))" using r by (simp add: repr_def)
    show "sl_tail ?r = Some (last (us @ vs))"
    proof (cases "vs = []")
      case True
      have "\<forall>a \<in> set us. 0 < sl_layers s a" using low by (auto simp: Suc_le_eq)
      then have "us \<noteq> [] \<Longrightarrow> stop s us 0 = last us"
        by (induction us rule: rev_induct) (auto simp: adv_append)
      with True ne t show ?thesis by simp
    next
      case False
      then have "last vs \<noteq> n" using d(1) last_in_set [of vs] by auto
      with False t show ?thesis by (simp add: s1)
    qed
  qed
  moreover have "length (sl_lengths_num ?r) = MAX_SKIPLIST_LAYER" using nums by simp
  moreover have "\<forall>k < MAX_SKIPLIST_LAYER. sl_lengths_num ?r ! k = int (count_list (map (sl_layers ?r) (us @ vs)) (k + 1))"
  proof (intro allI impI)
    fix j assume "j < MAX_SKIPLIST_LAYER"
    then show "sl_lengths_num ?r ! j = int (count_list (map (sl_layers ?r) (us @ vs)) (j + 1))"
      using nums(2) [of j] nums(1) k by (cases "j = ?k") (simp_all add: s1)
  qed
  ultimately have "repr ?r (us @ vs)" unfolding repr_def by blast
  moreover have "sl_value ?r = sl_value s" by (simp add: s1)
  ultimately show ?thesis using D by blast
qed

subsection \<open>The skip list as a sorted list\<close>

lemma random_layer_bounds: "random_skiplist_layer rs = Some m \<Longrightarrow> 1 \<le> m \<and> m \<le> MAX_SKIPLIST_LAYER"
proof -
  have "random_layer_loop rs n = Some m \<Longrightarrow> n \<le> m" for rs n m
    by (induction rs n rule: random_layer_loop.induct) (auto split: if_splits)
  from this [of rs 1] show "random_skiplist_layer rs = Some m \<Longrightarrow> 1 \<le> m \<and> m \<le> MAX_SKIPLIST_LAYER"
    by (fastforce simp: random_skiplist_layer_def bind_eq_Some_conv split: if_splits)
qed

lemma repr_New: "repr NewSkiplist []"
  by (simp add: repr_def NewSkiplist_def new_skiplist_node_def Let_def)

lemma repr_before: "repr (s\<lparr>sl_before_node := B\<rparr>) as = repr s as"
  by (simp add: repr_def)

lemma value_greater_before: "value_greater grt v (s\<lparr>sl_before_node := B\<rparr>) = value_greater grt v s"
  by (simp add: value_greater_def fun_eq_iff)

lemma GetNodeByRank_repr:
  assumes "repr s as"
  shows "GetNodeByRank rank s = Some (if rank = 0 then Some 0
     else if 1 \<le> rank \<and> rank \<le> int (length as) then Some (as ! nat (rank - 1)) else None)"
proof -
  let ?k = "nat (min (max 0 rank) (int (length as)))"
  define us vs where "us = take ?k as" and "vs = drop ?k as"
  then have as: "us @ vs = as" and len: "length us = ?k" by simp_all
  have r: "repr s (us @ vs)" using assms as by simp
  have "rank_search rank (sl_curr_layer s) 0 (int (length us) - int (length us)) s =
      Some (if int (length us) = rank \<and> 0 < sl_curr_layer s then Some (if us = [] then 0 else last us) else None)"
    by (rule rank_search_stops [OF r rank_cuts _ at_head]) (use as len in auto)
  moreover have "us \<noteq> [] \<Longrightarrow> last us = as ! (length us - 1)"
    by (simp add: as [symmetric] last_conv_nth nth_append)
  moreover have "0 < sl_curr_layer s" using reprD(4) [OF assms] by simp
  ultimately show ?thesis
    using len by (auto simp: GetNodeByRank_def nat_diff_distrib)
qed

lemma GetNode_repr:
  assumes r: "repr s (us @ vs)"
    and g: "\<forall>a \<in> set us. grt (val s a) v" "\<forall>a \<in> set vs. \<not> grt (val s a) v"
  shows "GetNode grt keq v s = Some (if vs \<noteq> [] \<and> keq (val s (hd vs)) v then Some (hd vs) else None,
     s\<lparr>sl_before_node := (\<lambda>i. if i < sl_curr_layer s then Some (stop s us i) else sl_before_node s i)\<rparr>)"
proof -
  note d = reprD [OF r]
  have "\<exists>c'. node_search grt v (sl_curr_layer s) 0 (s\<lparr>sl_before_node := sl_before_node s\<rparr>) = Some (c', s\<lparr>
     sl_before_node := (\<lambda>i. if i < sl_curr_layer s then Some (stop s us i) else sl_before_node s i)\<rparr>)
     \<and> (if sl_curr_layer s = 0 then c' = 0 else c' = stop s us 0)"
    by (rule node_search_stops [OF r _ _ at_head]) (use g d(9) value_cuts [of us vs s grt v] in auto)
  then have n: "node_search grt v (sl_curr_layer s) 0 s = Some (stop s us 0, s\<lparr>
     sl_before_node := (\<lambda>i. if i < sl_curr_layer s then Some (stop s us i) else sl_before_node s i)\<rparr>)"
    using d(4) by auto
  have ok: "layer_ok s 0 0 0 (us @ vs)" using d(4,6) by simp
  have l: "layer_ok s 0 (stop s us 0) (past s us 0) vs" using ok by (simp add: lev_append)
  have x: "sl_next s 0 (stop s us 0) = (if vs = [] then None else Some (hd vs))"
  proof (cases vs)
    case (Cons z zs)
    then have "0 < sl_layers s z" using d(8) [of z] by auto
    with l Cons show ?thesis by simp
  qed (use l in simp)
  have "vs \<noteq> [] \<Longrightarrow> sl_value s (hd vs) = Some (val s (hd vs))"
    using d(9) [of "hd vs"] by simp
  with n x show ?thesis by (simp add: GetNode_def)
qed

lemma pull_repr:
  assumes "lev h (sl_next s 0) pv sp a d as" "\<forall>x \<in> set as. h x" "\<forall>x \<in> set as. sl_value s x = Some (f x)"
  shows "pull_loop s a = Some (map f as)"
  using assms
proof (induction "as" arbitrary: a d)
  case (Cons x xs)
  then show ?case by (subst pull_loop.simps) auto
qed (subst pull_loop.simps, simp)

lemma range_repr:
  assumes "lev h (sl_next s 0) pv sp a d as" "\<forall>x \<in> set as. h x" "i + n \<le> length xs"
  shows "range_loop n i a xs s = take i xs @ map (sl_value s) (take n as) @ drop (i + min n (length as)) xs"
  using assms
proof (induction n arbitrary: i a d "as" xs)
  case (Suc n)
  show ?case
  proof (cases "as")
    case (Cons x as')
    with Suc.prems have "range_loop n (i + 1) x (xs[i := sl_value s x]) s =
        take (i + 1) (xs[i := sl_value s x]) @ map (sl_value s) (take n as')
          @ drop (i + 1 + min n (length as')) (xs[i := sl_value s x])"
      by (intro Suc.IH) auto
    with Cons Suc.prems show ?thesis by (simp add: take_Suc_conv_app_nth take_update_swap list_update_append)
  qed (use Suc.prems in simp)
qed simp

definition is_list :: "('v \<Rightarrow> 'v \<Rightarrow> bool) \<Rightarrow> 'v skiplist \<Rightarrow> 'v list \<Rightarrow> bool" where
  "is_list grt s xs \<longleftrightarrow> sorted_wrt (\<lambda>x y. \<not> grt y x) xs \<and> (\<exists>as. repr s as \<and> xs = map (val s) as)"

text \<open>The split of a sorted list at the place of a value, on addresses.\<close>

lemma is_listE:
  assumes "is_list grt s xs" "rank_order grt"
  obtains us vs where "repr s (us @ vs)"
    "takeWhile (\<lambda>x. grt x v) xs = map (val s) us" "dropWhile (\<lambda>x. grt x v) xs = map (val s) vs"
    "\<forall>a \<in> set us. grt (val s a) v" "\<forall>a \<in> set vs. \<not> grt (val s a) v"
proof -
  obtain "as" where r: "repr s as" and xs: "xs = map (val s) as" and sorted: "sorted_wrt (\<lambda>x y. \<not> grt y x) xs"
    using assms by (auto simp: is_list_def)
  let ?P = "\<lambda>a. grt (val s a) v"
  have "\<not> grt x v" if "x \<in> set (dropWhile (\<lambda>x. grt x v) xs)" for x
    by (rule rank_order.in_order_prefix [OF assms(2) _ that])
      (simp only: rank_order.in_order_def [OF assms(2)] sorted)
  then have "\<forall>x \<in> val s ` set (dropWhile ?P as). \<not> grt x v"
    by (simp only: xs dropWhile_map comp_def set_map Ball_def) blast
  then have "\<forall>a \<in> set (dropWhile ?P as). \<not> grt (val s a) v" by blast
  moreover have "\<forall>a \<in> set (takeWhile ?P as). grt (val s a) v" by (blast dest: set_takeWhileD)
  moreover have "repr s (takeWhile ?P as @ dropWhile ?P as)" using r by (simp only: takeWhile_dropWhile_id)
  moreover have "takeWhile (\<lambda>x. grt x v) xs = map (val s) (takeWhile ?P as)"
    "dropWhile (\<lambda>x. grt x v) xs = map (val s) (dropWhile ?P as)"
    by (simp_all only: xs takeWhile_map dropWhile_map comp_def)
  ultimately show thesis by (intro that)
qed

lemma is_list_New: "is_list grt NewSkiplist []"
  using repr_New by (auto simp: is_list_def)

lemma is_list_cong:
  assumes "is_list grt s xs" "\<And>x y. x \<in> set xs \<Longrightarrow> y \<in> set xs \<Longrightarrow> grt' x y = grt x y"
  shows "is_list grt' s xs"
proof -
  have "sorted_wrt (\<lambda>x y. \<not> grt' y x) xs"
    by (rule sorted_wrt_mono_rel [of _ "\<lambda>x y. \<not> grt y x"]) (use assms in \<open>auto simp: is_list_def\<close>)
  with assms show ?thesis by (auto simp: is_list_def)
qed

text \<open>
  Insertion refines insertion into a sorted list. Whenever the draws end and \<open>Greater\<close> is a strict
  weak order, \<open>Insert\<close> does not panic, its loops end, and the list behind the pointers of all layers is
  afterwards the old one with the new value after exactly the values greater than it.
\<close>

lemma Insert_is_list:
  assumes "rank_order grt" "is_list grt s xs" "random_skiplist_layer rs = Some m"
  shows "\<exists>s'. Insert grt rs v s = Some (m, s')
    \<and> is_list grt s' (takeWhile (\<lambda>x. grt x v) xs @ v # dropWhile (\<lambda>x. grt x v) xs)"
proof -
  from is_listE [OF assms(2,1), of v] obtain us vs where r: "repr s (us @ vs)"
    and tw: "takeWhile (\<lambda>x. grt x v) xs = map (val s) us" "dropWhile (\<lambda>x. grt x v) xs = map (val s) vs"
    and g: "\<forall>a \<in> set us. grt (val s a) v" "\<forall>a \<in> set vs. \<not> grt (val s a) v" by blast
  from Insert_layer_repr [where grt = grt and v = v, OF r _ _ g] random_layer_bounds [OF assms(3)] obtain s' where
    s': "Insert_layer grt m v s = Some s'" "repr s' (us @ sl_fresh s # vs)"
    "sl_value s' = (sl_value s)(sl_fresh s := Some v)" by blast
  have "val s' a = val s a" if "a \<in> set (us @ vs)" for a
    using that reprD(8) [OF r, of a] s'(3) by (simp add: val_def)
  moreover have "val s' (sl_fresh s) = v" using s'(3) by (simp add: val_def)
  moreover have "sorted_wrt (\<lambda>x y. \<not> grt y x) (takeWhile (\<lambda>x. grt x v) xs @ v # dropWhile (\<lambda>x. grt x v) xs)"
    using rank_order.in_order_insert [OF assms(1), of xs v] assms(2)
    by (simp add: is_list_def rank_order.in_order_def [OF assms(1)])
  ultimately have "is_list grt s' (takeWhile (\<lambda>x. grt x v) xs @ v # dropWhile (\<lambda>x. grt x v) xs)"
    unfolding is_list_def tw using s'(2) by (intro conjI exI [of _ "us @ sl_fresh s # vs"]) auto
  with s'(1) assms(3) show ?thesis by (simp add: Insert_def)
qed

text \<open>
  Deletion refines removal from a sorted list. \<open>Delete\<close> does not panic; it looks only at the first
  value that is not greater than the given one: if that has the key, exactly it is removed, through all
  layers and spans; otherwise the answer is false and the list is the same.
\<close>

lemma Delete_is_list:
  assumes "rank_order grt" "is_list grt s xs"
  shows "\<exists>s'. case dropWhile (\<lambda>x. grt x v) xs of
      [] \<Rightarrow> Delete grt keq v s = Some (False, s') \<and> is_list grt s' xs
    | y # ys \<Rightarrow> if keq y v then Delete grt keq v s = Some (True, s') \<and> is_list grt s' (takeWhile (\<lambda>x. grt x v) xs @ ys)
        else Delete grt keq v s = Some (False, s') \<and> is_list grt s' xs"
proof -
  from is_listE [OF assms(2,1), of v] obtain us vs where r: "repr s (us @ vs)"
    and tw: "takeWhile (\<lambda>x. grt x v) xs = map (val s) us" "dropWhile (\<lambda>x. grt x v) xs = map (val s) vs"
    and g: "\<forall>a \<in> set us. grt (val s a) v" "\<forall>a \<in> set vs. \<not> grt (val s a) v" by blast
  have xs: "xs = map (val s) (us @ vs)" using takeWhile_dropWhile_id [of "\<lambda>x. grt x v" xs] tw by simp
  let ?s = "s\<lparr>sl_before_node := (\<lambda>i. if i < sl_curr_layer s then Some (stop s us i) else sl_before_node s i)\<rparr>"
  have v: "val (s\<lparr>sl_before_node := B\<rparr>) = val s" for B by (simp add: val_def fun_eq_iff)
  have same: "is_list grt ?s xs" using assms(2) by (simp add: is_list_def repr_before v)
  note get = GetNode_repr [where grt = grt and v = v and keq = keq, OF r g]
  show ?thesis
  proof (cases vs)
    case Nil
    with get same assms(2) show ?thesis unfolding tw by (auto simp: Delete_def)
  next
    case (Cons z zs)
    then have ne: "sl_curr_length s \<noteq> 0" using reprD(5) [OF r] by simp
    show ?thesis
    proof (cases "keq (val s z) v")
      case True
      have "repr ?s (us @ z # zs)" using r Cons by (simp add: repr_before)
      then have "\<exists>s'. DeleteNode z ?s = Some s' \<and> repr s' (us @ zs) \<and> sl_value s' = sl_value ?s"
        by (rule DeleteNode_repr) simp
      then obtain s' where s': "DeleteNode z ?s = Some s'" "repr s' (us @ zs)" "sl_value s' = sl_value s" by auto
      have "is_list grt s' (map (val s) us @ map (val s) zs)"
        using assms(2) s'(2,3) xs Cons
        by (auto simp: is_list_def sorted_wrt_append val_def intro!: exI [of _ "us @ zs"])
      with True ne get Cons s'(1) show ?thesis unfolding tw by (auto simp: Delete_def)
    next
      case False
      with ne get Cons same show ?thesis unfolding tw by (auto simp: Delete_def)
    qed
  qed
qed

text \<open>
  The lookups agree with the sorted list: \<open>GetByRank\<close> is indexing from 1 (nil outside),
  \<open>GetRank\<close> is one more than the number of greater values when the first other value has the key and
  no later one has, \<open>PullList\<close> returns the list and the length is its length.
\<close>

lemma lookup_is_list:
  assumes "rank_order grt" "is_list grt s xs"
  shows "GetByRank r s = Some (if 1 \<le> r \<and> r \<le> int (length xs) then Some (xs ! nat (r - 1)) else None)
    \<and> PullList s = Some xs \<and> sl_curr_length s = int (length xs)
    \<and> (\<forall>v. (\<forall>x \<in> set (tl (dropWhile (\<lambda>x. grt x v) xs)). \<not> keq x v) \<longrightarrow>
        GetRank grt keq v s = Some (case dropWhile (\<lambda>x. grt x v) xs of
          [] \<Rightarrow> 0 | y # ys \<Rightarrow> if keq y v then int (length (takeWhile (\<lambda>x. grt x v) xs)) + 1 else 0))"
proof -
  obtain "as" where r: "repr s as" and xs: "xs = map (val s) as" using assms(2) by (auto simp: is_list_def)
  note d = reprD [OF r]
  have nil: "sl_value s 0 = None" using r by (simp add: repr_def)
  have "GetByRank r s = Some (if 1 \<le> r \<and> r \<le> int (length xs) then Some (xs ! nat (r - 1)) else None)"
  proof (cases "1 \<le> r \<and> r \<le> int (length xs)")
    case True
    then have "nat (r - 1) < length as" by (simp add: xs nat_less_iff)
    with d(9) [OF nth_mem, of "nat (r - 1)"] True show ?thesis
      by (simp add: GetByRank_def GetNodeByRank_repr [OF r] xs)
  qed (use nil in \<open>auto simp: GetByRank_def GetNodeByRank_repr [OF r] xs\<close>)
  moreover have "PullList s = Some xs"
    unfolding PullList_def xs
    by (rule pull_repr [OF d(6) [of 0]]) (use d(4,8,9) in \<open>auto simp: Suc_le_eq\<close>)
  moreover have "GetRank grt keq v s = Some (case dropWhile (\<lambda>x. grt x v) xs of
      [] \<Rightarrow> 0 | y # ys \<Rightarrow> if keq y v then int (length (takeWhile (\<lambda>x. grt x v) xs)) + 1 else 0)"
    if k: "\<forall>x \<in> set (tl (dropWhile (\<lambda>x. grt x v) xs)). \<not> keq x v" for v
  proof -
    from is_listE [OF assms(2,1), of v] obtain us vs where rs: "repr s (us @ vs)"
      and tw: "takeWhile (\<lambda>x. grt x v) xs = map (val s) us" "dropWhile (\<lambda>x. grt x v) xs = map (val s) vs"
      and g: "\<forall>a \<in> set us. grt (val s a) v" "\<forall>a \<in> set vs. \<not> grt (val s a) v" by blast
    have "\<forall>a \<in> set vs. keq (val s a) v \<longleftrightarrow> vs \<noteq> [] \<and> a = hd vs \<and> keq (val s (hd vs)) v"
      using k reprD(1) [OF rs] unfolding tw(2) by (cases vs) auto
    then have "value_search grt keq v (sl_curr_layer s) 0 (int (length us) - int (length us)) s =
      Some (if keq (val s (hd vs)) v \<and> 0 < sl_curr_layer s \<and> vs \<noteq> [] then int (length us) + 1 else 0)"
      by (intro value_search_stops [OF rs value_cuts _ at_head]) (use g reprD(9) [OF rs] in simp_all)
    with d(4) show ?thesis by (cases vs) (auto simp: GetRank_def tw)
  qed
  ultimately show ?thesis using d(5) xs by simp
qed

text \<open>Sequences of operations: on the skip list, with what each answers, and on the plain list.\<close>

datatype 'v sl_op = Op_Insert "int list" 'v | Op_Delete 'v

fun run_ops :: "('v \<Rightarrow> 'v \<Rightarrow> bool) \<Rightarrow> ('v \<Rightarrow> 'v \<Rightarrow> bool) \<Rightarrow> 'v sl_op list \<Rightarrow> 'v skiplist \<Rightarrow>
    (int list \<times> 'v skiplist) option" where
  "run_ops grt keq [] s = Some ([], s)"
| "run_ops grt keq (Op_Insert rs v # ops) s = do {
     (m, s) \<leftarrow> Insert grt rs v s;
     (out, s) \<leftarrow> run_ops grt keq ops s;
     Some (int m # out, s)
   }"
| "run_ops grt keq (Op_Delete v # ops) s = do {
     (b, s) \<leftarrow> Delete grt keq v s;
     (out, s) \<leftarrow> run_ops grt keq ops s;
     Some (of_bool b # out, s)
   }"

fun list_ops :: "('v \<Rightarrow> 'v \<Rightarrow> bool) \<Rightarrow> ('v \<Rightarrow> 'v \<Rightarrow> bool) \<Rightarrow> 'v sl_op list \<Rightarrow> 'v list \<Rightarrow> int list \<times> 'v list" where
  "list_ops grt keq [] xs = ([], xs)"
| "list_ops grt keq (Op_Insert rs v # ops) xs =
     (case list_ops grt keq ops (takeWhile (\<lambda>x. grt x v) xs @ v # dropWhile (\<lambda>x. grt x v) xs) of
        (out, ys) \<Rightarrow> (int (the (random_skiplist_layer rs)) # out, ys))"
| "list_ops grt keq (Op_Delete v # ops) xs =
     (let (b, xs) = (case dropWhile (\<lambda>x. grt x v) xs of
          [] \<Rightarrow> (False, xs)
        | y # ys \<Rightarrow> if keq y v then (True, takeWhile (\<lambda>x. grt x v) xs @ ys) else (False, xs));
        (out, ys) = list_ops grt keq ops xs
      in (of_bool b # out, ys))"

definition draws_end :: "'v sl_op \<Rightarrow> bool" where
  "draws_end x \<longleftrightarrow> (case x of Op_Insert rs v \<Rightarrow> random_skiplist_layer rs \<noteq> None | Op_Delete v \<Rightarrow> True)"

lemma run_ops_is_list:
  assumes "rank_order grt" "is_list grt s xs" "list_all draws_end ops" "list_ops grt keq ops xs = (out, ys)"
  shows "\<exists>s'. run_ops grt keq ops s = Some (out, s') \<and> is_list grt s' ys"
  using assms(2-)
proof (induction ops arbitrary: s xs out)
  case (Cons x ops)
  show ?case
  proof (cases x)
    case (Op_Insert rs v)
    then obtain m where m: "random_skiplist_layer rs = Some m" using Cons.prems(2) by (auto simp: draws_end_def)
    from Insert_is_list [OF assms(1) Cons.prems(1) m] obtain s1 where s1: "Insert grt rs v s = Some (m, s1)"
      "is_list grt s1 (takeWhile (\<lambda>x. grt x v) xs @ v # dropWhile (\<lambda>x. grt x v) xs)" by blast
    from Cons.prems(3) obtain out' where "out = int m # out'"
      "list_ops grt keq ops (takeWhile (\<lambda>x. grt x v) xs @ v # dropWhile (\<lambda>x. grt x v) xs) = (out', ys)"
      by (auto simp: Op_Insert m split: prod.splits)
    with Cons.IH [OF s1(2) _ this(2)] Cons.prems(2) s1(1) show ?thesis by (auto simp: Op_Insert)
  next
    case (Op_Delete v)
    define r where "r = (case dropWhile (\<lambda>x. grt x v) xs of
        [] \<Rightarrow> (False, xs)
      | y # ys \<Rightarrow> if keq y v then (True, takeWhile (\<lambda>x. grt x v) xs @ ys) else (False, xs))"
    obtain b xs' where rb: "r = (b, xs')" by fastforce
    from Delete_is_list [where v = v and keq = keq, OF assms(1) Cons.prems(1)] obtain s1 where
      s1: "Delete grt keq v s = Some (b, s1)" "is_list grt s1 xs'"
      using rb by (auto simp: r_def split: list.splits if_splits)
    from Cons.prems(3) rb obtain out' where "out = of_bool b # out'" "list_ops grt keq ops xs' = (out', ys)"
      by (auto simp: Op_Delete r_def [symmetric] Let_def split: prod.splits)
    with Cons.IH [OF s1(2) _ this(2)] Cons.prems(2) s1(1) show ?thesis by (auto simp: Op_Delete)
  qed
qed simp

text \<open>
  Property C14. The skip list refines a sorted list. Run any sequence of insertions, with any heights the draws
  give, and deletions from the empty list, under a \<open>Greater\<close> that is a strict weak order: nothing panics,
  every loop ends, every answer is that of the plain list (an insertion puts the value after exactly the
  greater ones, a deletion removes the first value that is not greater if it has the key), and the
  pointers and spans of all layers thread exactly the plain list, which is in order.
\<close>

theorem skiplist_refines:
  assumes "rank_order grt" "list_all draws_end ops" "list_ops grt keq ops [] = (out, ys)"
  shows "\<exists>s. run_ops grt keq ops NewSkiplist = Some (out, s) \<and> is_list grt s ys"
  using run_ops_is_list [OF assms(1) is_list_New assms(2,3)] .

text \<open>
  Property C15. Ranks are positions. In a skip list that stands for the list \<open>xs\<close>, \<open>GetByRank\<close> is
  indexing from 1 and nil outside, \<open>GetRank\<close> of a value, if only the first value that is not greater can
  have its key, is its position (0 if that value has another key), \<open>PullList\<close> gives \<open>xs\<close> and the length
  is that of \<open>xs\<close>.
\<close>

theorem skiplist_ranks:
  assumes "rank_order grt" "is_list grt s xs"
    and "\<forall>x \<in> set (tl (dropWhile (\<lambda>x. grt x v) xs)). \<not> keq x v"
  shows "GetByRank r s = Some (if 1 \<le> r \<and> r \<le> int (length xs) then Some (xs ! nat (r - 1)) else None)
    \<and> GetRank grt keq v s = Some (case dropWhile (\<lambda>x. grt x v) xs of
        [] \<Rightarrow> 0 | y # ys \<Rightarrow> if keq y v then int (length (takeWhile (\<lambda>x. grt x v) xs)) + 1 else 0)
    \<and> PullList s = Some xs \<and> sl_curr_length s = int (length xs)"
  using lookup_is_list [OF assms(1,2)] assms(3) by blast

definition demo_entry :: "int \<Rightarrow> int \<Rightarrow> PlayerInt32RankItem" where
  "demo_entry k v = \<lparr>r32_Value = v, r32_UpdateTime = 1000, r32_PlayerId = k\<rparr>"

lemma skiplist_refines_witness:
  "\<exists>s. run_ops Int32_Greater Int32_KeyEqual [Op_Insert [1] (demo_entry 1 50), Op_Insert [4, 8, 3] (demo_entry 2 90),
      Op_Insert [7] (demo_entry 3 70), Op_Delete (demo_entry 1 50)] NewSkiplist = Some ([1, 3, 1, 1], s)
    \<and> is_list Int32_Greater s [demo_entry 2 90, demo_entry 3 70]"
  by (rule skiplist_refines [OF int32_item.rank_order_axioms])
    (simp_all add: draws_end_def random_skiplist_layer_def Int32_Greater_def Int32_KeyEqual_def demo_entry_def)

lemma skiplist_ranks_witness:
  "\<exists>s. run_ops Int32_Greater Int32_KeyEqual [Op_Insert [1] (demo_entry 1 50), Op_Insert [4, 8, 3] (demo_entry 2 90)]
      NewSkiplist = Some ([1, 3], s)
    \<and> GetRank Int32_Greater Int32_KeyEqual (demo_entry 1 50) s = Some 2"
proof -
  let ?ops = "[Op_Insert [1] (demo_entry 1 50), Op_Insert [4, 8, 3] (demo_entry 2 90)]"
  have "list_ops Int32_Greater Int32_KeyEqual ?ops [] = ([1, 3], [demo_entry 2 90, demo_entry 1 50])"
    by (simp add: random_skiplist_layer_def Int32_Greater_def demo_entry_def)
  moreover have "list_all draws_end ?ops" by (simp add: draws_end_def random_skiplist_layer_def)
  ultimately obtain s where s: "run_ops Int32_Greater Int32_KeyEqual ?ops NewSkiplist = Some ([1, 3], s)"
    and l: "is_list Int32_Greater s [demo_entry 2 90, demo_entry 1 50]"
    using run_ops_is_list [OF int32_item.rank_order_axioms is_list_New] by blast
  have "GetRank Int32_Greater Int32_KeyEqual (demo_entry 1 50) s = Some 2"
    using skiplist_ranks [OF int32_item.rank_order_axioms l, of "demo_entry 1 50" Int32_KeyEqual 1]
    by (simp add: Int32_Greater_def Int32_KeyEqual_def demo_entry_def)
  with s show ?thesis by blast
qed

end
