(* ===== verification/RankStore.thy ===== *)
theory RankStore
  imports Skiplist
begin

text \<open>
  The interface through which the ranking lists use the skip list: a store that holds an ordered list of
  entries under a \<open>Greater\<close>. The provider promises what an insertion, a deletion and a rank query do to
  that list; the client lemmas say what follows when every entry is its own key, as the entries of a
  ranking list are.
\<close>

locale rank_store =
  fixes holds :: "('v \<Rightarrow> 'v \<Rightarrow> bool) \<Rightarrow> 's \<Rightarrow> 'v list \<Rightarrow> bool"
    and insert_op :: "('v \<Rightarrow> 'v \<Rightarrow> bool) \<Rightarrow> int list \<Rightarrow> 'v \<Rightarrow> 's \<Rightarrow> (nat \<times> 's) option"
    and delete_op :: "('v \<Rightarrow> 'v \<Rightarrow> bool) \<Rightarrow> ('v \<Rightarrow> 'v \<Rightarrow> bool) \<Rightarrow> 'v \<Rightarrow> 's \<Rightarrow> (bool \<times> 's) option"
    and rank_op :: "('v \<Rightarrow> 'v \<Rightarrow> bool) \<Rightarrow> ('v \<Rightarrow> 'v \<Rightarrow> bool) \<Rightarrow> 'v \<Rightarrow> 's \<Rightarrow> int option"
    and draws_ok :: "int list \<Rightarrow> bool"
  assumes ordered: "holds grt s xs \<Longrightarrow> sorted_wrt (\<lambda>x y. \<not> grt y x) xs"
    and agree: "holds grt s xs \<Longrightarrow> (\<And>x y. x \<in> set xs \<Longrightarrow> y \<in> set xs \<Longrightarrow> grt' x y = grt x y) \<Longrightarrow> holds grt' s xs"
    and inserted: "rank_order grt \<Longrightarrow> holds grt s xs \<Longrightarrow> draws_ok rs \<Longrightarrow>
      \<exists>m s'. insert_op grt rs v s = Some (m, s')
        \<and> holds grt s' (takeWhile (\<lambda>x. grt x v) xs @ v # dropWhile (\<lambda>x. grt x v) xs)"
    and deleted: "rank_order grt \<Longrightarrow> holds grt s xs \<Longrightarrow> dropWhile (\<lambda>x. grt x v) xs = y # ys \<Longrightarrow> keq y v \<Longrightarrow>
      \<exists>s'. delete_op grt keq v s = Some (True, s') \<and> holds grt s' (takeWhile (\<lambda>x. grt x v) xs @ ys)"
    and not_deleted: "rank_order grt \<Longrightarrow> holds grt s xs \<Longrightarrow>
      (\<And>y ys. dropWhile (\<lambda>x. grt x v) xs = y # ys \<Longrightarrow> \<not> keq y v) \<Longrightarrow>
      \<exists>s'. delete_op grt keq v s = Some (False, s') \<and> holds grt s' xs"
    and ranked: "rank_order grt \<Longrightarrow> holds grt s xs \<Longrightarrow> dropWhile (\<lambda>x. grt x v) xs = y # ys \<Longrightarrow> keq y v \<Longrightarrow>
      (\<forall>x \<in> set ys. \<not> keq x v) \<Longrightarrow> rank_op grt keq v s = Some (int (length (takeWhile (\<lambda>x. grt x v) xs)) + 1)"
begin

text \<open>An entry of a totally ordered list without another entry of its key is found where it is.\<close>

lemma found:
  assumes "rank_total grt keq" "holds grt s xs" "v \<in> set xs" "distinct xs"
    "\<forall>x \<in> set xs. keq x v \<longrightarrow> x = v"
  obtains us vs where "xs = us @ v # vs" "takeWhile (\<lambda>x. grt x v) xs = us" "dropWhile (\<lambda>x. grt x v) xs = v # vs"
    "\<forall>x \<in> set vs. \<not> keq x v" "\<forall>x \<in> set vs. \<not> grt x v"
proof -
  have order: "rank_order grt" using assms(1) by (simp add: rank_total_def)
  obtain us vs where xs: "xs = us @ v # vs" using assms(3) by (auto simp: in_set_conv_decomp)
  then have apart: "v \<notin> set us" "v \<notin> set vs" using assms(4) by auto
  have in_order: "rank_order.in_order grt (us @ v # vs)"
    using ordered [OF assms(2)] by (simp add: rank_order.in_order_def [OF order] xs)
  have take: "takeWhile (\<lambda>x. grt x v) xs = us"
    unfolding xs by (rule rank_total.found_first [OF assms(1) in_order]) (use assms(5) xs apart in auto)
  moreover from this have drop: "dropWhile (\<lambda>x. grt x v) xs = v # vs"
    using takeWhile_dropWhile_id [of "\<lambda>x. grt x v" xs] xs by simp
  moreover have "\<not> grt x v" if "x \<in> set vs" for x
    by (rule rank_order.in_order_prefix [OF order, of xs]) (use in_order xs drop that in simp_all)
  moreover have "\<forall>x \<in> set vs. \<not> keq x v" using assms(5) xs apart by auto
  ultimately show thesis using that [OF xs] by blast
qed

lemma rank_counts_greater:
  assumes "rank_total grt keq" "holds grt s xs" "v \<in> set xs" "distinct xs"
    "\<forall>x \<in> set xs. keq x v \<longrightarrow> x = v" "keq v v"
  shows "rank_op grt keq v s = Some (1 + int (card {x \<in> set xs. grt x v}))"
proof -
  have order: "rank_order grt" using assms(1) by (simp add: rank_total_def)
  from found [OF assms(1-5)] obtain us vs where f: "xs = us @ v # vs" "takeWhile (\<lambda>x. grt x v) xs = us"
    "dropWhile (\<lambda>x. grt x v) xs = v # vs" "\<forall>x \<in> set vs. \<not> keq x v" "\<forall>x \<in> set vs. \<not> grt x v" .
  have above: "grt x v" if "x \<in> set us" for x
    using that set_takeWhileD [of x "\<lambda>x. grt x v" xs] unfolding f(2) by blast
  have "{x \<in> set xs. grt x v} = set us"
    using above f(5) rank_order.irrefl [OF order] by (auto simp: f(1))
  moreover have "distinct us" using assms(4) f(1) by simp
  ultimately show ?thesis
    using ranked [where keq = keq and grt = grt, OF order assms(2) f(3) assms(6) f(4)] f(2) by (simp add: distinct_card)
qed

lemma add_entry:
  assumes "rank_order grt" "holds grt s xs" "v \<notin> set xs" "distinct xs" "draws_ok rs"
  shows "\<exists>m s' ys. insert_op grt rs v s = Some (m, s') \<and> holds grt s' ys \<and> distinct ys \<and> set ys = insert v (set xs)"
proof -
  let ?ys = "takeWhile (\<lambda>x. grt x v) xs @ v # dropWhile (\<lambda>x. grt x v) xs"
  have sep: "distinct (takeWhile (\<lambda>x. grt x v) xs @ dropWhile (\<lambda>x. grt x v) xs)"
    using assms(4) by (simp only: takeWhile_dropWhile_id)
  have parts: "set xs = set (takeWhile (\<lambda>x. grt x v) xs) \<union> set (dropWhile (\<lambda>x. grt x v) xs)"
    by (simp only: set_append [symmetric] takeWhile_dropWhile_id)
  have "distinct ?ys" using assms(3) sep unfolding distinct_append parts by auto
  moreover have "set ?ys = insert v (set xs)" using parts by auto
  ultimately show ?thesis using inserted [OF assms(1,2,5), of v] by blast
qed

lemma remove_entry:
  assumes "rank_total grt keq" "holds grt s xs" "v \<in> set xs" "distinct xs"
    "\<forall>x \<in> set xs. keq x v \<longrightarrow> x = v" "keq v v"
  shows "\<exists>s' ys. delete_op grt keq v s = Some (True, s') \<and> holds grt s' ys \<and> distinct ys \<and> set ys = set xs - {v}"
proof -
  have order: "rank_order grt" using assms(1) by (simp add: rank_total_def)
  from found [OF assms(1-5)] obtain us vs where f: "xs = us @ v # vs" "takeWhile (\<lambda>x. grt x v) xs = us"
    "dropWhile (\<lambda>x. grt x v) xs = v # vs" .
  from deleted [where keq = keq and grt = grt, OF order assms(2) f(3) assms(6)] f(2) obtain s' where
    "delete_op grt keq v s = Some (True, s')" "holds grt s' (us @ vs)" by auto
  moreover have "distinct (us @ vs)" "set (us @ vs) = set xs - {v}" using assms(4) f(1) by auto
  ultimately show ?thesis by blast
qed

end

text \<open>The skip list provides the interface.\<close>

lemma value_search_returns:
  assumes "repr s (us @ vs)" "cuts (value_greater grt v s) 0 us vs" "m \<le> sl_curr_layer s"
    and "at us c d" "c = 0 \<or> m \<le> sl_layers s c"
  shows "\<exists>n. value_search grt keq v m c (int (length us) - d) s = Some n"
  using assms(3-5)
proof (induction m arbitrary: c d)
  case (Suc i)
  let ?d = "past s us i" and ?c = "stop s us i"
  have ok: "layer_ok s i 0 0 (us @ vs)" using reprD(6) [OF assms(1), of i] Suc.prems(1) by simp
  have w: "walk (value_greater grt v s) s i c (0 + int (length us) - d) =
      Some (stop s us i, 0 + int (length us) - ?d)"
  proof (rule walk_level)
    show "0 \<notin> set us" using reprD(2) [OF assms(1)] by simp
  qed (use Suc.prems assms(2) ok in auto)
  have "at us ?c ?d" by (rule adv_at)
  then have IH: "\<exists>n. value_search grt keq v i ?c (int (length us) - ?d) s = Some n"
    by (rule Suc.IH [rotated]) (use Suc.prems(1) stop_layers [of i s us] in auto)
  have "layer_ok s i ?c ?d vs" using ok by (simp add: lev_append)
  from lev_next [OF this] have "sl_next s i ?c = None \<or> (\<exists>b \<in> set vs. sl_next s i ?c = Some b)" by auto
  moreover have "\<forall>b \<in> set vs. sl_value s b = Some (val s b)" using reprD(9) [OF assms(1)] by simp
  ultimately show ?case using w IH by auto
qed simp

lemma GetRank_returns:
  assumes "rank_order grt" "is_list grt s xs"
  shows "\<exists>n. GetRank grt keq v s = Some n"
proof -
  from is_listE [OF assms(2,1), of v] obtain us vs where rs: "repr s (us @ vs)"
    and g: "\<forall>a \<in> set us. grt (val s a) v" "\<forall>a \<in> set vs. \<not> grt (val s a) v" by metis
  then have "\<exists>n. value_search grt keq v (sl_curr_layer s) 0 (int (length us) - int (length us)) s = Some n"
    by (intro value_search_returns [OF rs value_cuts _ at_head]) (use g reprD(9) [OF rs] in simp_all)
  then show ?thesis by (simp add: GetRank_def)
qed

lemma is_list_sorted: "is_list grt s xs \<Longrightarrow> sorted_wrt (\<lambda>x y. \<not> grt y x) xs"
  by (simp add: is_list_def)

lemma skip_ranked:
  assumes "rank_order grt" "is_list grt s xs" "dropWhile (\<lambda>x. grt x v) xs = y # ys" "keq y v"
    "\<forall>x \<in> set ys. \<not> keq x v"
  shows "GetRank grt keq v s = Some (int (length (takeWhile (\<lambda>x. grt x v) xs)) + 1)"
  using lookup_is_list [OF assms(1,2)] assms(3-5) by auto

lemma skip_deleted:
  assumes "rank_order grt" "is_list grt s xs" "dropWhile (\<lambda>x. grt x v) xs = y # ys" "keq y v"
  shows "\<exists>s'. Delete grt keq v s = Some (True, s') \<and> is_list grt s' (takeWhile (\<lambda>x. grt x v) xs @ ys)"
  using Delete_is_list [where v = v and keq = keq, OF assms(1,2)] assms(3,4) by auto

lemma skip_not_deleted:
  assumes "rank_order grt" "is_list grt s xs" "\<And>y ys. dropWhile (\<lambda>x. grt x v) xs = y # ys \<Longrightarrow> \<not> keq y v"
  shows "\<exists>s'. Delete grt keq v s = Some (False, s') \<and> is_list grt s' xs"
proof (cases "dropWhile (\<lambda>x. grt x v) xs")
  case Nil
  from Delete_is_list [where v = v and keq = keq, OF assms(1,2)] show ?thesis unfolding Nil by simp
next
  case (Cons y ys)
  from Delete_is_list [where v = v and keq = keq, OF assms(1,2)] assms(3) [OF Cons] show ?thesis
    unfolding Cons by simp
qed

interpretation skip: rank_store is_list Insert Delete GetRank "\<lambda>rs. random_skiplist_layer rs \<noteq> None"
proof unfold_locales
  fix grt :: "'a \<Rightarrow> 'a \<Rightarrow> bool" and s xs rs v
  assume "rank_order grt" "is_list grt s xs" "random_skiplist_layer rs \<noteq> None"
  then show "\<exists>m s'. Insert grt rs v s = Some (m, s')
      \<and> is_list grt s' (takeWhile (\<lambda>x. grt x v) xs @ v # dropWhile (\<lambda>x. grt x v) xs)"
    using Insert_is_list [where v = v and rs = rs and grt = grt and s = s and xs = xs] by fastforce
qed (simp_all add: is_list_sorted skip_deleted skip_ranked is_list_cong skip_not_deleted)

end
