(* ===== verification/RankingList.thy ===== *)
theory RankingList
  imports RankStore
begin

text \<open>
  The ranking lists of \<open>src/libs/utils/ranklist.go\<close> over the skip list. The skip list and the map
  \<open>key2item\<close> hold pointers to the same items; an item is an address in \<open>cr_items\<close>, so that \<open>Assign\<close> and
  \<open>SetValue\<close> change it in both. The interface value \<open>SkiplistNode\<close> is the record of its methods. The pool
  hands out, as \<open>sync.Pool\<close> may, either a new item or one that was put back: the argument \<open>pick\<close>
  says which. The locks are left out, an operation runs alone.
\<close>

subsection \<open>The interface of the items\<close>

record 'v SkiplistNode =
  sn_Greater :: "'v \<Rightarrow> 'v \<Rightarrow> bool"
  sn_KeyEqual :: "'v \<Rightarrow> 'v \<Rightarrow> bool"
  sn_GetKey :: "'v \<Rightarrow> int"
  sn_GetValue :: "'v \<Rightarrow> int"
  sn_SetValue :: "int \<Rightarrow> int \<Rightarrow> 'v \<Rightarrow> 'v"
  sn_New :: 'v

definition Int32_node :: "PlayerInt32RankItem SkiplistNode" where
  "Int32_node = \<lparr>sn_Greater = Int32_Greater, sn_KeyEqual = Int32_KeyEqual, sn_GetKey = r32_PlayerId,
     sn_GetValue = r32_Value, sn_SetValue = Int32_SetValue,
     sn_New = \<lparr>r32_Value = 0, r32_UpdateTime = 0, r32_PlayerId = 0\<rparr>\<rparr>"

definition Int64_SetValue :: "int \<Rightarrow> int \<Rightarrow> PlayerInt64RankItem \<Rightarrow> PlayerInt64RankItem" where
  "Int64_SetValue unix v x = x\<lparr>r64_Value := v, r64_UpdateTime := i32 unix\<rparr>"

definition Int64_node :: "PlayerInt64RankItem SkiplistNode" where
  "Int64_node = \<lparr>sn_Greater = Int64_Greater, sn_KeyEqual = Int64_KeyEqual, sn_GetKey = r64_PlayerId,
     sn_GetValue = r64_Value, sn_SetValue = Int64_SetValue,
     sn_New = \<lparr>r64_Value = 0, r64_UpdateTime = 0, r64_PlayerId = 0\<rparr>\<rparr>"

definition Ouqi_SetValue :: "int \<Rightarrow> int \<Rightarrow> PlayerCatOuqiRankItem \<Rightarrow> PlayerCatOuqiRankItem" where
  "Ouqi_SetValue unix v x = x\<lparr>ouqi_Ouqi := v, ouqi_UpdateTime := i32 unix\<rparr>"

definition Ouqi_node :: "PlayerCatOuqiRankItem SkiplistNode" where
  "Ouqi_node = \<lparr>sn_Greater = Ouqi_Greater, sn_KeyEqual = Ouqi_KeyEqual, sn_GetKey = Ouqi_GetKey,
     sn_GetValue = ouqi_Ouqi, sn_SetValue = Ouqi_SetValue,
     sn_New = \<lparr>ouqi_PlayerId = 0, ouqi_CatId = 0, ouqi_Ouqi = 0, ouqi_UpdateTime = 0\<rparr>\<rparr>"

subsection \<open>The state and its operations\<close>

record 'v CommonRankingList =
  cr_ranking_items :: "nat skiplist"
  cr_key2item :: "nat column"
  cr_max_rank :: int
  cr_items_pool :: "nat list"
  cr_items :: "nat \<Rightarrow> 'v"
  cr_fresh :: nat

definition NewCommonRankingList :: "'v SkiplistNode \<Rightarrow> int \<Rightarrow> 'v CommonRankingList" where
  "NewCommonRankingList I max_rank =
     \<lparr>cr_ranking_items = NewSkiplist, cr_key2item = [], cr_max_rank = max_rank, cr_items_pool = [],
      cr_items = (\<lambda>_. sn_New I), cr_fresh = 0\<rparr>"

definition item_assign :: "nat \<Rightarrow> 'v \<Rightarrow> 'v CommonRankingList \<Rightarrow> 'v CommonRankingList" where
  "item_assign a x r = r\<lparr>cr_items := (cr_items r)(a := x)\<rparr>"

definition pool_Get :: "'v SkiplistNode \<Rightarrow> nat option \<Rightarrow> 'v CommonRankingList \<Rightarrow> nat \<times> 'v CommonRankingList" where
  "pool_Get I pick r =
     (case pick of
        Some i \<Rightarrow>
          if i < length (cr_items_pool r)
          then (cr_items_pool r ! i, r\<lparr>cr_items_pool := take i (cr_items_pool r) @ drop (i + 1) (cr_items_pool r)\<rparr>)
          else (cr_fresh r, item_assign (cr_fresh r) (sn_New I) (r\<lparr>cr_fresh := cr_fresh r + 1\<rparr>))
      | None \<Rightarrow> (cr_fresh r, item_assign (cr_fresh r) (sn_New I) (r\<lparr>cr_fresh := cr_fresh r + 1\<rparr>)))"

text \<open>The comparisons the skip list sees: those of the items behind the pointers.\<close>

definition ref_Greater :: "'v SkiplistNode \<Rightarrow> 'v CommonRankingList \<Rightarrow> nat \<Rightarrow> nat \<Rightarrow> bool" where
  "ref_Greater I r a b = sn_Greater I (cr_items r a) (cr_items r b)"

definition ref_KeyEqual :: "'v SkiplistNode \<Rightarrow> 'v CommonRankingList \<Rightarrow> nat \<Rightarrow> nat \<Rightarrow> bool" where
  "ref_KeyEqual I r a b = sn_KeyEqual I (cr_items r a) (cr_items r b)"

definition Ranking_GetByRank :: "'v SkiplistNode \<Rightarrow> nat option \<Rightarrow> int \<Rightarrow> 'v CommonRankingList \<Rightarrow>
    (nat option \<times> 'v CommonRankingList) option" where
  "Ranking_GetByRank I pick rank r = do {
     item \<leftarrow> GetByRank rank (cr_ranking_items r);
     (case item of
        None \<Rightarrow> Some (None, r)
      | Some a \<Rightarrow>
          let (new_item, r) = pool_Get I pick r
          in Some (Some new_item, item_assign new_item (cr_items r a) r))
   }"

definition Ranking_GetByKey :: "'v SkiplistNode \<Rightarrow> nat option \<Rightarrow> int \<Rightarrow> 'v CommonRankingList \<Rightarrow>
    nat option \<times> 'v CommonRankingList" where
  "Ranking_GetByKey I pick key r =
     (case col_Get (cr_key2item r) key of
        None \<Rightarrow> (None, r)
      | Some a \<Rightarrow>
          let (new_item, r) = pool_Get I pick r
          in (Some new_item, item_assign new_item (cr_items r a) r))"

definition Ranking_SetValueByKey :: "'v SkiplistNode \<Rightarrow> int \<Rightarrow> int \<Rightarrow> int \<Rightarrow> 'v CommonRankingList \<Rightarrow>
    'v CommonRankingList" where
  "Ranking_SetValueByKey I unix key v r =
     (case col_Get (cr_key2item r) key of
        None \<Rightarrow> r
      | Some a \<Rightarrow> item_assign a (sn_SetValue I unix v (cr_items r a)) r)"

definition Ranking_insert :: "'v SkiplistNode \<Rightarrow> int list \<Rightarrow> int \<Rightarrow> nat \<Rightarrow> 'v CommonRankingList \<Rightarrow>
    (bool \<times> 'v CommonRankingList) option" where
  "Ranking_insert I rs key a r = do {
     (_, s) \<leftarrow> Insert (ref_Greater I r) rs a (cr_ranking_items r);
     Some (True, r\<lparr>cr_ranking_items := s, cr_key2item := AList.update key a (cr_key2item r)\<rparr>)
   }"

definition Ranking_delete :: "'v SkiplistNode \<Rightarrow> int \<Rightarrow> bool \<Rightarrow> 'v CommonRankingList \<Rightarrow>
    (bool \<times> 'v CommonRankingList) option" where
  "Ranking_delete I key is_lock r =
     (case col_Get (cr_key2item r) key of
        None \<Rightarrow> Some (False, r)
      | Some a \<Rightarrow> do {
          (ok, s) \<leftarrow> Delete (ref_Greater I r) (ref_KeyEqual I r) a (cr_ranking_items r);
          let r = r\<lparr>cr_ranking_items := s\<rparr>;
          if \<not> ok then Some (False, r)
          else Some (True, if is_lock then r\<lparr>cr_items_pool := cr_items_pool r @ [a]\<rparr> else r)
        })"

definition Ranking_Update :: "'v SkiplistNode \<Rightarrow> nat option \<Rightarrow> int list \<Rightarrow> 'v \<Rightarrow> 'v CommonRankingList \<Rightarrow>
    (bool \<times> 'v CommonRankingList) option" where
  "Ranking_Update I pick rs x r =
     (case col_Get (cr_key2item r) (sn_GetKey I x) of
        Some old_item \<Rightarrow> do {
          (ok, r) \<leftarrow> Ranking_delete I (sn_GetKey I x) False r;
          if \<not> ok then Some (False, r)
          else Ranking_insert I rs (sn_GetKey I x) old_item (item_assign old_item x r)
        }
      | None \<Rightarrow>
          let (new_item, r) = pool_Get I pick r
          in Ranking_insert I rs (sn_GetKey I x) new_item (item_assign new_item x r))"

text \<open>The copying loop of \<open>GetRangeNodes\<close>; the nodes of the caller are distinct from the items of the list.\<close>

fun copy_nodes :: "(nat \<Rightarrow> 'v) \<Rightarrow> nat \<Rightarrow> nat option list \<Rightarrow> 'v list \<Rightarrow> (int \<times> 'v list) option" where
  "copy_nodes f i [] nodes = Some (0, nodes)"
| "copy_nodes f i (None # items) nodes = copy_nodes f (i + 1) items nodes"
| "copy_nodes f i (Some a # items) nodes =
     (if i < length nodes then do {
        (num, nodes) \<leftarrow> copy_nodes f (i + 1) items (nodes[i := f a]);
        Some (num + 1, nodes)
      } else None)"

definition Ranking_GetRangeNodes :: "int \<Rightarrow> int \<Rightarrow> 'v list \<Rightarrow> 'v CommonRankingList \<Rightarrow> (int \<times> 'v list) option" where
  "Ranking_GetRangeNodes rank_start rank_num nodes r =
     (if rank_start \<le> 0 \<or> rank_start > cr_max_rank r then Some (0, nodes)
      else if rank_start > int (length (cr_key2item r)) then Some (0, nodes)
      else
        let real_num = i32 (i32 (int (length (cr_key2item r))) - rank_start + 1);
            rank_num = (if real_num < rank_num then real_num else rank_num)
        in if rank_num < 0 then None
           else do {
             (b, items) \<leftarrow> GetByRankRange rank_start rank_num (replicate (nat rank_num) None) (cr_ranking_items r);
             if \<not> b then Some (0, nodes) else copy_nodes (cr_items r) 0 items nodes
           })"

definition Ranking_GetRank :: "'v SkiplistNode \<Rightarrow> int \<Rightarrow> 'v CommonRankingList \<Rightarrow> int option" where
  "Ranking_GetRank I key r =
     (case col_Get (cr_key2item r) key of
        None \<Rightarrow> Some 0
      | Some a \<Rightarrow> GetRank (ref_Greater I r) (ref_KeyEqual I r) a (cr_ranking_items r))"

definition Ranking_GetRankAndValue :: "'v SkiplistNode \<Rightarrow> int \<Rightarrow> 'v CommonRankingList \<Rightarrow> (int \<times> int option) option" where
  "Ranking_GetRankAndValue I key r =
     (case col_Get (cr_key2item r) key of
        None \<Rightarrow> Some (0, None)
      | Some a \<Rightarrow> do {
          rank \<leftarrow> GetRank (ref_Greater I r) (ref_KeyEqual I r) a (cr_ranking_items r);
          Some (rank, Some (sn_GetValue I (cr_items r a)))
        })"

definition Ranking_GetRankRange :: "int \<Rightarrow> int \<Rightarrow> 'v CommonRankingList \<Rightarrow> int \<times> int" where
  "Ranking_GetRankRange start num r =
     (let l = i32 (int (length (cr_key2item r)))
      in if l = 0 then (0, 0)
         else if start > l then (0, 0)
         else (start, if i32 (l - start + 1) < num then i32 (l - start + 1) else num))"

definition Ranking_GetLastRankRange :: "int \<Rightarrow> 'v CommonRankingList \<Rightarrow> int \<times> int" where
  "Ranking_GetLastRankRange num r =
     (let l = i32 (int (length (cr_key2item r)))
      in if l = 0 then (0, 0)
         else let num = (if num > l then l else num) in (i32 (l - num + 1), num))"

definition Ranking_GetLastRank :: "'v CommonRankingList \<Rightarrow> int" where
  "Ranking_GetLastRank r = i32 (int (length (cr_key2item r)))"

definition Ranking_GetLength :: "'v CommonRankingList \<Rightarrow> int" where
  "Ranking_GetLength r = sl_curr_length (cr_ranking_items r)"


subsection \<open>What a ranking list holds\<close>

text \<open>
  The contract of the items of a ranking list: \<open>Greater\<close> orders them totally but for items of one key,
  and \<open>KeyEqual\<close> is equality of the keys.
\<close>

locale rank_items = rank_total "sn_Greater I" "sn_KeyEqual I" for I :: "'v SkiplistNode" +
  assumes key_equal: "sn_KeyEqual I x y \<longleftrightarrow> sn_GetKey I x = sn_GetKey I y"

interpretation int32_node: rank_items Int32_node
  by unfold_locales (auto simp: Int32_node_def Int32_KeyEqual_def Int32_Greater_def split: if_splits)

interpretation int64_node: rank_items Int64_node
  by unfold_locales (auto simp: Int64_node_def Int64_KeyEqual_def Int64_Greater_def split: if_splits)

definition ranking_ok :: "'v SkiplistNode \<Rightarrow> 'v CommonRankingList \<Rightarrow> bool" where
  "ranking_ok I r \<longleftrightarrow> col_wf (cr_key2item r)
     \<and> (\<forall>(k, a) \<in> set (cr_key2item r). sn_GetKey I (cr_items r a) = k \<and> a < cr_fresh r \<and> a \<notin> set (cr_items_pool r))
     \<and> distinct (cr_items_pool r) \<and> (\<forall>a \<in> set (cr_items_pool r). a < cr_fresh r)
     \<and> (\<exists>refs. is_list (ref_Greater I r) (cr_ranking_items r) refs \<and> distinct refs
          \<and> set refs = snd ` set (cr_key2item r))"

text \<open>The latest item of each key.\<close>

definition ranking_map :: "'v CommonRankingList \<Rightarrow> int \<Rightarrow> 'v option" where
  "ranking_map r k = map_option (cr_items r) (map_of (cr_key2item r) k)"

lemma ranking_entry:
  assumes "ranking_ok I r" "(k, a) \<in> set (cr_key2item r)"
  shows "sn_GetKey I (cr_items r a) = k" "a < cr_fresh r" "a \<notin> set (cr_items_pool r)"
    "map_of (cr_key2item r) k = Some a"
  using assms by (auto simp: ranking_ok_def col_wf_def)

lemma ranking_refsE:
  assumes "ranking_ok I r"
  obtains refs where "is_list (ref_Greater I r) (cr_ranking_items r) refs" "distinct refs"
    "set refs = snd ` set (cr_key2item r)"
  using assms by (auto simp: ranking_ok_def)

text \<open>Two entries of one key are one.\<close>

lemma ranking_inj:
  assumes "ranking_ok I r" "a \<in> snd ` set (cr_key2item r)" "b \<in> snd ` set (cr_key2item r)"
    "sn_GetKey I (cr_items r a) = sn_GetKey I (cr_items r b)"
  shows "a = b"
proof -
  obtain j k where "(j, a) \<in> set (cr_key2item r)" "(k, b) \<in> set (cr_key2item r)" using assms(2,3) by auto
  from ranking_entry [OF assms(1) this(1)] ranking_entry [OF assms(1) this(2)] assms(4) show ?thesis by simp
qed

lemma ref_order: "rank_order (sn_Greater I) \<Longrightarrow> rank_order (ref_Greater I r)"
  using rank_order_image [of "sn_Greater I" "cr_items r"]
  by (simp add: ref_Greater_def [abs_def])

lemma ref_total: "rank_total (sn_Greater I) (sn_KeyEqual I) \<Longrightarrow> rank_total (ref_Greater I r) (ref_KeyEqual I r)"
  using rank_total_image [of "sn_Greater I" "sn_KeyEqual I" "cr_items r"]
  by (simp add: ref_Greater_def [abs_def] ref_KeyEqual_def [abs_def])

lemma ranking_ok_New: "ranking_ok I (NewCommonRankingList I m)"
  by (auto simp: ranking_ok_def NewCommonRankingList_def intro: is_list_New)

lemma ranking_map_New: "ranking_map (NewCommonRankingList I m) = (\<lambda>_. None)"
  by (simp add: fun_eq_iff ranking_map_def NewCommonRankingList_def)

text \<open>What the pool hands out is not an item of the list.\<close>

lemma pool_Get_fresh:
  assumes "ranking_ok I r" "b \<in> snd ` set (cr_key2item r)"
  shows "b < cr_fresh r" "b \<notin> set (cr_items_pool r)"
  using assms ranking_entry [OF assms(1)] by auto

lemma pool_Get_all:
  assumes "ranking_ok I r" "pool_Get I pick r = (a, r1)"
  shows "cr_ranking_items r1 = cr_ranking_items r \<and> cr_key2item r1 = cr_key2item r
    \<and> (\<forall>b \<in> snd ` set (cr_key2item r). cr_items r1 b = cr_items r b)
    \<and> a \<notin> snd ` set (cr_key2item r) \<and> a < cr_fresh r1 \<and> cr_fresh r \<le> cr_fresh r1
    \<and> a \<notin> set (cr_items_pool r1) \<and> set (cr_items_pool r1) \<subseteq> set (cr_items_pool r) \<and> distinct (cr_items_pool r1)"
proof -
  note fresh = pool_Get_fresh [OF assms(1)]
  have pool: "distinct (cr_items_pool r)" "\<forall>a \<in> set (cr_items_pool r). a < cr_fresh r"
    using assms(1) by (auto simp: ranking_ok_def)
  show ?thesis
  proof (cases "\<exists>i. pick = Some i \<and> i < length (cr_items_pool r)")
    case True
    then obtain i where i: "pick = Some i" "i < length (cr_items_pool r)" by blast
    then have r1: "a = cr_items_pool r ! i"
      "r1 = r\<lparr>cr_items_pool := take i (cr_items_pool r) @ drop (i + 1) (cr_items_pool r)\<rparr>"
      using assms(2) by (auto simp: pool_Get_def)
    define us vs where uv: "us = take i (cr_items_pool r)" "vs = drop (i + 1) (cr_items_pool r)"
    have e: "cr_items_pool r = us @ a # vs" using id_take_nth_drop [OF i(2)] r1(1) uv by simp
    have "a \<notin> snd ` set (cr_key2item r)" using fresh(2) e by auto
    moreover have "a < cr_fresh r" "distinct (us @ a # vs)" using pool e by auto
    moreover have "r1 = r\<lparr>cr_items_pool := us @ vs\<rparr>" using r1(2) uv by simp
    ultimately show ?thesis using e by auto
  next
    case False
    then have r1: "a = cr_fresh r" "r1 = item_assign (cr_fresh r) (sn_New I) (r\<lparr>cr_fresh := cr_fresh r + 1\<rparr>)"
      using assms(2) by (auto simp: pool_Get_def split: option.splits if_splits)
    have "a \<notin> snd ` set (cr_key2item r)" "a \<notin> set (cr_items_pool r)" using fresh(1) [of a] pool(2) r1(1) less_irrefl [of "cr_fresh r"] by metis+
    then show ?thesis using r1 pool(1) by (force simp: item_assign_def)
  qed
qed


lemma pool_Get_ok:
  assumes "ranking_ok I r" "pool_Get I pick r = (a, r1)"
  shows "cr_ranking_items r1 = cr_ranking_items r" "cr_key2item r1 = cr_key2item r"
    "\<And>b. b \<in> snd ` set (cr_key2item r) \<Longrightarrow> cr_items r1 b = cr_items r b"
    "a \<notin> snd ` set (cr_key2item r)" "a < cr_fresh r1" "cr_fresh r \<le> cr_fresh r1"
    "a \<notin> set (cr_items_pool r1)" "set (cr_items_pool r1) \<subseteq> set (cr_items_pool r)" "distinct (cr_items_pool r1)"
  using pool_Get_all [OF assms] by blast+

text \<open>An entry that is committed: \<open>insert\<close> after its item has been assigned.\<close>

lemma update_new: "map_of m k = None \<Longrightarrow> AList.update k v m = m @ [(k, v)]"
  by (induction m) (auto split: if_splits)

lemma update_same: "map_of m k = Some v \<Longrightarrow> AList.update k v m = m"
  by (induction m) (auto split: if_splits)

lemma Update_new_entry:
  assumes "rank_order (sn_Greater I)" "ranking_ok I r" "random_skiplist_layer rs \<noteq> None"
    and new: "map_of (cr_key2item r) (sn_GetKey I x) = None"
  shows "\<exists>r'. Ranking_Update I pick rs x r = Some (True, r') \<and> ranking_ok I r'
    \<and> ranking_map r' = (ranking_map r)(sn_GetKey I x \<mapsto> x)"
proof -
  obtain a r1 where get: "pool_Get I pick r = (a, r1)" by fastforce
  note p = pool_Get_ok [OF assms(2) get]
  let ?k = "sn_GetKey I x" and ?r = "item_assign a x r1"
  from ranking_refsE [OF assms(2)] obtain refs where refs: "is_list (ref_Greater I r) (cr_ranking_items r) refs"
    "distinct refs" "set refs = snd ` set (cr_key2item r)" .
  have same: "cr_items ?r b = cr_items r b" if "b \<in> snd ` set (cr_key2item r)" for b
    using p(3) [OF that] p(4) that by (auto simp: item_assign_def)
  have order: "rank_order (ref_Greater I ?r)" using assms(1) by (rule ref_order)
  have held: "is_list (ref_Greater I ?r) (cr_ranking_items r) refs"
    by (rule skip.agree [OF refs(1)]) (simp only: ref_Greater_def refs(3) same)
  have "a \<notin> set refs" using p(4) unfolding refs(3) .
  from skip.add_entry [OF order held this refs(2) assms(3)] obtain m s ys where
    s: "Insert (ref_Greater I ?r) rs a (cr_ranking_items r) = Some (m, s)"
    "is_list (ref_Greater I ?r) s ys" "distinct ys" "set ys = insert a (snd ` set (cr_key2item r))" unfolding refs(3) by blast
  let ?r' = "?r\<lparr>cr_ranking_items := s, cr_key2item := cr_key2item r @ [(?k, a)]\<rparr>"
  have "Ranking_Update I pick rs x r = Some (True, ?r')"
    using s(1) p(1,2) new by (simp add: Ranking_Update_def get col_simps Ranking_insert_def update_new item_assign_def)
  moreover have "ref_Greater I ?r' = ref_Greater I ?r" by (simp add: fun_eq_iff ref_Greater_def)
  with s(2-4) have "\<exists>refs. is_list (ref_Greater I ?r') (cr_ranking_items ?r') refs \<and> distinct refs
      \<and> set refs = snd ` set (cr_key2item ?r')" by auto
  then have "ranking_ok I ?r'"
    unfolding ranking_ok_def
  proof (intro conjI)
    show "col_wf (cr_key2item ?r')"
      using assms(2) new by (auto simp: ranking_ok_def col_wf_def map_of_eq_None_iff)
    show "\<forall>(j, b) \<in> set (cr_key2item ?r').
        sn_GetKey I (cr_items ?r' b) = j \<and> b < cr_fresh ?r' \<and> b \<notin> set (cr_items_pool ?r')"
    proof (intro ballI, clarify)
      fix j b assume "(j, b) \<in> set (cr_key2item ?r')"
      then consider "j = ?k" "b = a" | "(j, b) \<in> set (cr_key2item r)" by auto
      then show "sn_GetKey I (cr_items ?r' b) = j \<and> b < cr_fresh ?r' \<and> b \<notin> set (cr_items_pool ?r')"
      proof cases
        case 1
        then show ?thesis using p(5,7) by (simp add: item_assign_def)
      next
        case 2
        then have "b \<in> snd ` set (cr_key2item r)" by force
        with same [OF this] ranking_entry [OF assms(2) 2] p(6,8) show ?thesis
          by (auto simp: item_assign_def)
      qed
    qed
    show "\<forall>b \<in> set (cr_items_pool ?r'). b < cr_fresh ?r'"
    proof
      fix b assume "b \<in> set (cr_items_pool ?r')"
      then have "b \<in> set (cr_items_pool r)" using p(8) by (auto simp: item_assign_def)
      then have "b < cr_fresh r" using assms(2) by (simp add: ranking_ok_def)
      with p(6) show "b < cr_fresh ?r'" by (simp add: item_assign_def)
    qed
  qed (use p(9) in \<open>simp_all add: item_assign_def\<close>)
  moreover have "ranking_map ?r' = (ranking_map r)(?k \<mapsto> x)"
  proof
    fix j
    have "cr_items ?r b = cr_items r b" if "map_of (cr_key2item r) j = Some b" for b
      using same map_of_SomeD [OF that] by force
    then show "ranking_map ?r' j = ((ranking_map r)(?k \<mapsto> x)) j"
      using new by (cases "map_of (cr_key2item r) j") (auto simp: ranking_map_def map_add_def item_assign_def)
  qed
  ultimately show ?thesis by blast
qed

text \<open>An update that has taken the old item out of the list.\<close>

lemma Update_committed:
  assumes "rank_order (sn_Greater I)" "ranking_ok I r" "random_skiplist_layer rs \<noteq> None"
    and old: "map_of (cr_key2item r) (sn_GetKey I x) = Some a"
    and gone: "Delete (ref_Greater I r) (ref_KeyEqual I r) a (cr_ranking_items r) = Some (True, s1)"
      "is_list (ref_Greater I r) s1 refs" "distinct refs" "set refs = snd ` set (cr_key2item r) - {a}"
  shows "\<exists>r'. Ranking_Update I pick rs x r = Some (True, r') \<and> ranking_ok I r'
    \<and> ranking_map r' = (ranking_map r)(sn_GetKey I x \<mapsto> x)"
proof -
  let ?k = "sn_GetKey I x" and ?r = "item_assign a x r"
  have entry: "(?k, a) \<in> set (cr_key2item r)" using old by (rule map_of_SomeD)
  then have a: "a \<in> snd ` set (cr_key2item r)" by force
  have order: "rank_order (ref_Greater I ?r)" using assms(1) by (rule ref_order)
  have "is_list (ref_Greater I ?r) s1 refs"
    by (rule skip.agree [OF gone(2)]) (simp add: ref_Greater_def item_assign_def gone(4))
  moreover have "a \<notin> set refs" using gone(4) by blast
  ultimately obtain m s2 ys where
    s: "Insert (ref_Greater I ?r) rs a s1 = Some (m, s2)" "is_list (ref_Greater I ?r) s2 ys" "distinct ys"
    "set ys = insert a (set refs)" using skip.add_entry [OF order _ _ gone(3) assms(3)] by blast
  have all: "set ys = snd ` set (cr_key2item r)" using s(4) gone(4) a by blast
  let ?r' = "?r\<lparr>cr_ranking_items := s2\<rparr>"
  have "ref_Greater I (item_assign a x (r\<lparr>cr_ranking_items := s1\<rparr>)) = ref_Greater I ?r"
    by (simp add: fun_eq_iff ref_Greater_def item_assign_def)
  with s(1) gone(1) old have "Ranking_Update I pick rs x r = Some (True, ?r')"
    by (simp add: Ranking_Update_def Ranking_delete_def Ranking_insert_def col_simps update_same item_assign_def)
  moreover have "ref_Greater I ?r' = ref_Greater I ?r" by (simp add: fun_eq_iff ref_Greater_def)
  with s(2,3) all have "\<exists>refs. is_list (ref_Greater I ?r') (cr_ranking_items ?r') refs \<and> distinct refs
      \<and> set refs = snd ` set (cr_key2item ?r')" by (auto simp: item_assign_def)
  then have "ranking_ok I ?r'"
    unfolding ranking_ok_def
  proof (intro conjI)
    show "\<forall>(j, b) \<in> set (cr_key2item ?r').
        sn_GetKey I (cr_items ?r' b) = j \<and> b < cr_fresh ?r' \<and> b \<notin> set (cr_items_pool ?r')"
      using ranking_entry [OF assms(2)] ranking_entry [OF assms(2) entry] by (auto simp: item_assign_def)
  qed (use assms(2) in \<open>auto simp: ranking_ok_def item_assign_def\<close>)
  moreover have "ranking_map ?r' = (ranking_map r)(?k \<mapsto> x)"
  proof
    fix j
    have "j = ?k" if "map_of (cr_key2item r) j = Some a"
      using ranking_entry(1) [OF assms(2) map_of_SomeD [OF that]] ranking_entry(1) [OF assms(2) entry] by simp
    then show "ranking_map ?r' j = ((ranking_map r)(?k \<mapsto> x)) j"
      using old by (cases "map_of (cr_key2item r) j") (auto simp: ranking_map_def item_assign_def)
  qed
  ultimately show ?thesis by blast
qed

lemma Update_ok:
  assumes "rank_items I" "ranking_ok I r" "random_skiplist_layer rs \<noteq> None"
  shows "\<exists>r'. Ranking_Update I pick rs x r = Some (True, r') \<and> ranking_ok I r'
    \<and> ranking_map r' = (ranking_map r)(sn_GetKey I x \<mapsto> x)"
proof (cases "map_of (cr_key2item r) (sn_GetKey I x)")
  case None
  with assms show ?thesis by (intro Update_new_entry) (simp_all add: rank_items_def rank_total_def)
next
  case (Some a)
  from ranking_refsE [OF assms(2)] obtain refs where refs: "is_list (ref_Greater I r) (cr_ranking_items r) refs"
    "distinct refs" "set refs = snd ` set (cr_key2item r)" .
  have a: "a \<in> set refs" using map_of_SomeD [OF Some] refs(3) by force
  have "ref_KeyEqual I r b a \<longleftrightarrow> sn_GetKey I (cr_items r b) = sn_GetKey I (cr_items r a)" for b
    by (simp add: ref_KeyEqual_def rank_items.key_equal [OF assms(1)])
  then have keys: "\<forall>b \<in> set refs. ref_KeyEqual I r b a \<longrightarrow> b = a" "ref_KeyEqual I r a a"
    using ranking_inj [OF assms(2)] a refs(3) by auto
  have "rank_total (ref_Greater I r) (ref_KeyEqual I r)" using assms(1) by (simp add: rank_items_def ref_total)
  from skip.remove_entry [OF this refs(1) a refs(2) keys] obtain s1 ys where
    "Delete (ref_Greater I r) (ref_KeyEqual I r) a (cr_ranking_items r) = Some (True, s1)"
    "is_list (ref_Greater I r) s1 ys" "distinct ys" "set ys = snd ` set (cr_key2item r) - {a}"
    unfolding refs(3) by blast
  with Update_committed [OF _ assms(2,3) Some] assms(1) show ?thesis by (simp add: rank_items_def rank_total_def)
qed

text \<open>
  An update under a \<open>Greater\<close> that does not separate all keys, as that of the cats, may find another entry in
  the place of the old one and fail, but it returns and keeps the list well formed.
\<close>

lemma Update_weak:
  assumes "rank_order (sn_Greater I)" "\<And>x y. sn_KeyEqual I x y \<Longrightarrow> sn_GetKey I x = sn_GetKey I y"
    "ranking_ok I r" "random_skiplist_layer rs \<noteq> None"
  shows "\<exists>ok r'. Ranking_Update I pick rs x r = Some (ok, r') \<and> ranking_ok I r'"
proof (cases "map_of (cr_key2item r) (sn_GetKey I x)")
  case None
  then show ?thesis using Update_new_entry [OF assms(1,3,4)] by blast
next
  case (Some a)
  let ?G = "ref_Greater I r" and ?K = "ref_KeyEqual I r" and ?s = "cr_ranking_items r"
  from ranking_refsE [OF assms(3)] obtain refs where refs: "is_list ?G ?s refs"
    "distinct refs" "set refs = snd ` set (cr_key2item r)" .
  have order: "rank_order ?G" using assms(1) by (rule ref_order)
  have entry: "(sn_GetKey I x, a) \<in> set (cr_key2item r)" using Some by (rule map_of_SomeD)
  show ?thesis
  proof (cases "\<exists>y ys. dropWhile (\<lambda>x. ?G x a) refs = y # ys \<and> ?K y a")
    case False
    then have "\<exists>s'. Delete ?G ?K a ?s = Some (False, s') \<and> is_list ?G s' refs"
      by (intro skip.not_deleted [OF order refs(1)]) blast
    then obtain s' where s': "Delete ?G ?K a ?s = Some (False, s')" "is_list ?G s' refs" by blast
    let ?r = "r\<lparr>cr_ranking_items := s'\<rparr>"
    have "ref_Greater I ?r = ?G" by (simp add: fun_eq_iff ref_Greater_def)
    with s'(2) refs(2,3) assms(3) have "ranking_ok I ?r" by (auto simp: ranking_ok_def)
    moreover have "Ranking_Update I pick rs x r = Some (False, ?r)"
      using s'(1) Some by (simp add: Ranking_Update_def Ranking_delete_def col_simps)
    ultimately show ?thesis by blast
  next
    case True
    then obtain y ys where y: "dropWhile (\<lambda>x. ?G x a) refs = y # ys" "?K y a" by blast
    have "refs = takeWhile (\<lambda>x. ?G x a) refs @ y # ys"
      using takeWhile_dropWhile_id [of "\<lambda>x. ?G x a" refs] y(1) by simp
    then obtain us where us: "us = takeWhile (\<lambda>x. ?G x a) refs" "refs = us @ y # ys" by blast
    have "y \<in> snd ` set (cr_key2item r)" unfolding refs(3) [symmetric] us(2) by simp
    moreover have "a \<in> snd ` set (cr_key2item r)" using entry by force
    moreover have "sn_GetKey I (cr_items r y) = sn_GetKey I (cr_items r a)"
      using assms(2) y(2) by (simp add: ref_KeyEqual_def)
    ultimately have ya: "y = a" by (rule ranking_inj [OF assms(3)])
    from skip.deleted [where keq = ?K and grt = ?G, OF order refs(1) y] obtain s1 where
      s1: "Delete ?G ?K a ?s = Some (True, s1)" "is_list ?G s1 (us @ ys)" unfolding us(1) by blast
    have "distinct (us @ ys)" "set (us @ ys) = snd ` set (cr_key2item r) - {a}"
      using refs(2,3) us(2) ya by auto
    from Update_committed [OF assms(1,3,4) Some s1 this] show ?thesis by blast
  qed
qed


lemma GetRank_ok:
  assumes "rank_items I" "ranking_ok I r"
  shows "Ranking_GetRank I k r = Some (case ranking_map r k of None \<Rightarrow> 0
    | Some x \<Rightarrow> 1 + int (card {j. \<exists>y. ranking_map r j = Some y \<and> sn_Greater I y x}))"
proof (cases "map_of (cr_key2item r) k")
  case None
  then show ?thesis by (simp add: Ranking_GetRank_def ranking_map_def col_simps)
next
  case (Some a)
  from ranking_refsE [OF assms(2)] obtain refs where refs: "is_list (ref_Greater I r) (cr_ranking_items r) refs"
    "distinct refs" "set refs = snd ` set (cr_key2item r)" .
  have entry: "(k, a) \<in> set (cr_key2item r)" using Some by (rule map_of_SomeD)
  then have a: "a \<in> set refs" using refs(3) by force
  have total: "rank_total (ref_Greater I r) (ref_KeyEqual I r)" using assms(1) by (simp add: rank_items_def ref_total)
  have "ref_KeyEqual I r b a \<longleftrightarrow> sn_GetKey I (cr_items r b) = sn_GetKey I (cr_items r a)" for b
    by (simp add: ref_KeyEqual_def rank_items.key_equal [OF assms(1)])
  then have keys: "\<forall>b \<in> set refs. ref_KeyEqual I r b a \<longrightarrow> b = a" "ref_KeyEqual I r a a"
    using ranking_inj [OF assms(2)] a refs(3) by auto
  let ?G = "{b \<in> set refs. ref_Greater I r b a}"
    and ?J = "{j. \<exists>y. ranking_map r j = Some y \<and> sn_Greater I y (cr_items r a)}"
  have "bij_betw (\<lambda>b. sn_GetKey I (cr_items r b)) ?G ?J"
  proof (rule bij_betw_imageI)
    show "inj_on (\<lambda>b. sn_GetKey I (cr_items r b)) ?G"
      using ranking_inj [OF assms(2)] refs(3) by (auto intro!: inj_onI)
    have "sn_GetKey I (cr_items r b) \<in> ?J" if "b \<in> ?G" for b
    proof -
      from that have "b \<in> snd ` set (cr_key2item r)" unfolding refs(3) by blast
      then obtain j where "(j, b) \<in> set (cr_key2item r)" by force
      from ranking_entry [OF assms(2) this] that show ?thesis by (auto simp: ranking_map_def ref_Greater_def)
    qed
    moreover have "j \<in> (\<lambda>b. sn_GetKey I (cr_items r b)) ` ?G" if "j \<in> ?J" for j
    proof -
      from that obtain y where "ranking_map r j = Some y" "sn_Greater I y (cr_items r a)" by blast
      then obtain b where b: "map_of (cr_key2item r) j = Some b" "sn_Greater I (cr_items r b) (cr_items r a)"
        unfolding ranking_map_def by blast
      from map_of_SomeD [OF b(1)] have "b \<in> set refs" unfolding refs(3) by force
      with ranking_entry(1) [OF assms(2) map_of_SomeD [OF b(1)]] b(2) show ?thesis
        by (auto simp: ref_Greater_def)
    qed
    ultimately show "(\<lambda>b. sn_GetKey I (cr_items r b)) ` ?G = ?J" by blast
  qed
  then have "card ?G = card ?J" by (rule bij_betw_same_card)
  moreover have "ranking_map r k = Some (cr_items r a)" using Some by (simp add: ranking_map_def)
  ultimately show ?thesis
    using skip.rank_counts_greater [OF total refs(1) a refs(2) keys] Some
    by (simp add: Ranking_GetRank_def col_simps)
qed

lemma GetLength_ok:
  assumes "rank_items I" "ranking_ok I r"
  shows "Ranking_GetLength r = int (card (dom (ranking_map r)))"
proof -
  from ranking_refsE [OF assms(2)] obtain refs where refs: "is_list (ref_Greater I r) (cr_ranking_items r) refs"
    "distinct refs" "set refs = snd ` set (cr_key2item r)" .
  have "dom (ranking_map r) = fst ` set (cr_key2item r)"
    by (auto simp: ranking_map_def dom_map_option_comp dom_map_of_conv_image_fst [symmetric] dom_def)
  moreover have "inj_on snd (set (cr_key2item r))"
  proof (rule inj_onI)
    fix p q assume "p \<in> set (cr_key2item r)" "q \<in> set (cr_key2item r)" "snd p = snd q"
    then have "fst p = fst q" using ranking_entry(1) [OF assms(2), of "fst p" "snd p"]
      ranking_entry(1) [OF assms(2), of "fst q" "snd q"] by (cases p; cases q) auto
    with \<open>snd p = snd q\<close> show "p = q" by (simp add: prod_eq_iff)
  qed
  moreover have "inj_on fst (set (cr_key2item r))"
    using assms(2) by (auto simp: ranking_ok_def col_wf_def distinct_map)
  ultimately have "card (dom (ranking_map r)) = length refs"
    using distinct_card [OF refs(2)] refs(3) by (simp add: card_image)
  moreover have "rank_order (ref_Greater I r)" using assms(1) by (simp add: rank_items_def rank_total_def ref_order)
  ultimately show ?thesis using lookup_is_list [OF _ refs(1)] by (simp add: Ranking_GetLength_def)
qed

subsection \<open>A history of updates\<close>

fun run_updates :: "'v SkiplistNode \<Rightarrow> (nat option \<times> int list \<times> 'v) list \<Rightarrow> 'v CommonRankingList \<Rightarrow>
    (bool list \<times> 'v CommonRankingList) option" where
  "run_updates I [] r = Some ([], r)"
| "run_updates I ((pick, rs, x) # us) r = do {
     (ok, r) \<leftarrow> Ranking_Update I pick rs x r;
     (oks, r) \<leftarrow> run_updates I us r;
     Some (ok # oks, r)
   }"

text \<open>The latest item of each key in a history.\<close>

definition latest_step :: "'v SkiplistNode \<Rightarrow> (int \<Rightarrow> 'v option) \<Rightarrow> nat option \<times> int list \<times> 'v \<Rightarrow> (int \<Rightarrow> 'v option)" where
  "latest_step I m u = m(sn_GetKey I (snd (snd u)) \<mapsto> snd (snd u))"

lemma latest_step_apply: "latest_step I m (pick, rs, x) = m(sn_GetKey I x \<mapsto> x)"
  by (simp add: latest_step_def)

definition latest :: "'v SkiplistNode \<Rightarrow> (nat option \<times> int list \<times> 'v) list \<Rightarrow> int \<Rightarrow> 'v option" where
  "latest I us = foldl (latest_step I) (\<lambda>_. None) us"

lemma run_updates_ok:
  assumes "rank_items I" "ranking_ok I r" "\<forall>(pick, rs, x) \<in> set us. random_skiplist_layer rs \<noteq> None"
  shows "\<exists>r'. run_updates I us r = Some (replicate (length us) True, r') \<and> ranking_ok I r'
    \<and> ranking_map r' = foldl (latest_step I) (ranking_map r) us"
  using assms(2,3)
proof (induction us arbitrary: r)
  case (Cons u us)
  obtain pick rs x where u: "u = (pick, rs, x)" by (cases u)
  with Cons.prems(2) have "random_skiplist_layer rs \<noteq> None" by simp
  from Update_ok [OF assms(1) Cons.prems(1) this] obtain r1 where
    r1: "Ranking_Update I pick rs x r = Some (True, r1)" "ranking_ok I r1"
    "ranking_map r1 = (ranking_map r)(sn_GetKey I x \<mapsto> x)" by blast
  from Cons.IH [OF r1(2)] Cons.prems(2) obtain r' where
    "run_updates I us r1 = Some (replicate (length us) True, r')" "ranking_ok I r'"
    "ranking_map r' = foldl (latest_step I) (ranking_map r1) us"
    unfolding list.set by blast
  with r1 show ?case by (simp add: u latest_step_apply)
qed simp

text \<open>
  Property C16. Ranks after any history of updates. For items whose \<open>Greater\<close> is total between keys, any
  sequence of updates of a new ranking list succeeds, whatever the pool hands out and whatever heights are
  drawn; afterwards the rank of a key is one more than the number of keys whose latest item is greater
  than its own latest item (0 for a key never updated), and the length is the number of keys.
\<close>

theorem ranking_history:
  assumes "rank_items I" "\<forall>(pick, rs, x) \<in> set us. random_skiplist_layer rs \<noteq> None"
  shows "\<exists>r. run_updates I us (NewCommonRankingList I m) = Some (replicate (length us) True, r)
    \<and> (\<forall>k. Ranking_GetRank I k r = Some (case latest I us k of None \<Rightarrow> 0
        | Some x \<Rightarrow> 1 + int (card {j. \<exists>y. latest I us j = Some y \<and> sn_Greater I y x})))
    \<and> Ranking_GetLength r = int (card (dom (latest I us)))"
proof -
  from run_updates_ok [OF assms(1) ranking_ok_New assms(2), of m] obtain r where
    r: "run_updates I us (NewCommonRankingList I m) = Some (replicate (length us) True, r)" "ranking_ok I r"
    and l: "ranking_map r = latest I us" unfolding ranking_map_New latest_def by blast
  show ?thesis
    using r(1) GetRank_ok [OF assms(1) r(2)] GetLength_ok [OF assms(1) r(2)] unfolding l by blast
qed

lemma ranking_history_witness:
  "\<exists>r. run_updates Int32_node [(None, [1], demo_entry 1 50), (None, [4, 3], demo_entry 2 70),
      (Some 3, [8, 5], demo_entry 1 90)] (NewCommonRankingList Int32_node 100000) = Some ([True, True, True], r)
    \<and> Ranking_GetRank Int32_node 2 r = Some 2 \<and> Ranking_GetRank Int32_node 1 r = Some 1"
proof -
  let ?us = "[(None, [1], demo_entry 1 50), (None, [4, 3], demo_entry 2 70), (Some 3, [8, 5], demo_entry 1 90)]
    :: (nat option \<times> int list \<times> PlayerInt32RankItem) list"
  have draws: "\<forall>(pick, rs, x) \<in> set ?us. random_skiplist_layer rs \<noteq> None"
    by (simp add: random_skiplist_layer_def)
  have l: "latest Int32_node ?us = [1 \<mapsto> demo_entry 1 90, 2 \<mapsto> demo_entry 2 70]"
    by (auto simp: latest_def latest_step_apply Int32_node_def demo_entry_def)
  let ?above = "\<lambda>x. {j. \<exists>y. latest Int32_node ?us j = Some y \<and> sn_Greater Int32_node y x}"
  have above: "?above (demo_entry 2 70) = {1}" "?above (demo_entry 1 90) = {}"
    unfolding l by (auto simp: Int32_node_def Int32_Greater_def demo_entry_def split: if_splits)
  have card: "int (card (?above (demo_entry 2 70))) = 1" "int (card (?above (demo_entry 1 90))) = 0"
    unfolding above by simp_all
  from ranking_history [OF int32_node.rank_items_axioms draws, of 100000] obtain r where
    r: "run_updates Int32_node ?us (NewCommonRankingList Int32_node 100000) = Some (replicate (length ?us) True, r)"
    "\<forall>k. Ranking_GetRank Int32_node k r = Some (case latest Int32_node ?us k of None \<Rightarrow> 0
        | Some x \<Rightarrow> 1 + int (card (?above x)))"
    by blast
  have lat: "latest Int32_node ?us 1 = Some (demo_entry 1 90)" "latest Int32_node ?us 2 = Some (demo_entry 2 70)"
    by (simp_all add: l)
  have "Ranking_GetRank Int32_node 2 r = Some 2" "Ranking_GetRank Int32_node 1 r = Some 1"
    unfolding r(2) [rule_format] lat option.case card by simp_all
  moreover have "replicate (length ?us) True = [True, True, True]" by simp
  ultimately show ?thesis using r(1) by metis
qed


text \<open>
  Cats that tie block each other. If two cats of one player enter the list with the same
  \<open>Ouqi\<close> in the same second, the first one can never be updated again: every later \<open>Update\<close> of it
  finds the other cat in its place, answers false and leaves the old item in the list.
\<close>

theorem tie_blocks_update:
  assumes "random_skiplist_layer rs1 \<noteq> None" "random_skiplist_layer rs2 \<noteq> None"
    and "ouqi_PlayerId x = ouqi_PlayerId y" "ouqi_Ouqi x = ouqi_Ouqi y" "ouqi_UpdateTime x = ouqi_UpdateTime y"
    and "ouqi_CatId x \<noteq> ouqi_CatId y" "Ouqi_GetKey x \<noteq> Ouqi_GetKey y"
  shows "\<exists>r. run_updates Ouqi_node [(None, rs1, x), (None, rs2, y)] (NewCommonRankingList Ouqi_node m) = Some ([True, True], r)
    \<and> (\<forall>z pick rs. Ouqi_GetKey z = Ouqi_GetKey x \<longrightarrow>
        (\<exists>r'. Ranking_Update Ouqi_node pick rs z r = Some (False, r') \<and> ranking_map r' = ranking_map r))"
proof -
  let ?I = Ouqi_node and ?r0 = "NewCommonRankingList Ouqi_node m"
  have order: "rank_order (ref_Greater ?I r)" for r
    by (rule ref_order) (simp add: Ouqi_node_def ouqi_item.rank_order_axioms)
  define r1 where "r1 = item_assign 0 x (item_assign 0 (sn_New ?I) (?r0\<lparr>cr_fresh := 1\<rparr>))"
  have "is_list (ref_Greater ?I r1) NewSkiplist []" by (rule is_list_New)
  from skip.inserted [OF order this assms(1), of 0] obtain m1 s1 where
    s1: "Insert (ref_Greater ?I r1) rs1 0 NewSkiplist = Some (m1, s1)" "is_list (ref_Greater ?I r1) s1 [0]" by auto
  define r2 where "r2 = r1\<lparr>cr_ranking_items := s1, cr_key2item := [(Ouqi_GetKey x, 0)]\<rparr>"
  have up1: "Ranking_Update ?I None rs1 x ?r0 = Some (True, r2)"
    using s1(1) unfolding r1_def r2_def
    by (simp add: Ranking_Update_def Ranking_insert_def pool_Get_def NewCommonRankingList_def col_simps
        Ouqi_node_def item_assign_def)
  define r3 where "r3 = item_assign 1 y (item_assign 1 (sn_New ?I) (r2\<lparr>cr_fresh := 2\<rparr>))"
  have items: "cr_items r3 0 = x" "cr_items r3 1 = y"
    by (simp_all add: r3_def r2_def r1_def item_assign_def)
  have less: "\<not> ref_Greater ?I r3 a b" if "a < 2" "b < 2" for a b
    using that items assms by (auto simp: less_2_cases_iff ref_Greater_def Ouqi_node_def Ouqi_Greater_def)
  have "is_list (ref_Greater ?I r3) s1 [0]"
    by (rule skip.agree [OF s1(2)]) (simp add: ref_Greater_def r3_def r2_def r1_def item_assign_def)
  from skip.inserted [OF order this assms(2), of 1] less [of 0 1] obtain m2 s2 where
    s2: "Insert (ref_Greater ?I r3) rs2 1 s1 = Some (m2, s2)" "is_list (ref_Greater ?I r3) s2 [1, 0]" by auto
  define r4 where "r4 = r3\<lparr>cr_ranking_items := s2, cr_key2item := [(Ouqi_GetKey x, 0), (Ouqi_GetKey y, 1)]\<rparr>"
  have up2: "Ranking_Update ?I None rs2 y r2 = Some (True, r4)"
    using s2(1) assms(7) unfolding r3_def r4_def r2_def
    by (simp add: Ranking_Update_def Ranking_insert_def pool_Get_def NewCommonRankingList_def col_simps
        Ouqi_node_def item_assign_def r1_def numeral_2_eq_2)
  have g: "ref_Greater ?I r4 = ref_Greater ?I r3" by (simp add: fun_eq_iff ref_Greater_def r4_def)
  have "\<not> ref_KeyEqual ?I r4 1 0"
    using items assms(6) by (simp add: ref_KeyEqual_def r4_def Ouqi_node_def Ouqi_KeyEqual_def)
  then have "\<exists>s'. Delete (ref_Greater ?I r4) (ref_KeyEqual ?I r4) 0 s2 = Some (False, s') \<and> is_list (ref_Greater ?I r4) s' [1, 0]"
    unfolding g by (intro skip.not_deleted [OF order s2(2)]) (use less [of 1 0] in auto)
  then obtain s3 where s3: "Delete (ref_Greater ?I r4) (ref_KeyEqual ?I r4) 0 s2 = Some (False, s3)" by blast
  have "Ranking_Update ?I pick rs z r4 = Some (False, r4\<lparr>cr_ranking_items := s3\<rparr>)"
    if "Ouqi_GetKey z = Ouqi_GetKey x" for z pick rs
  proof -
    have "sn_GetKey ?I z = Ouqi_GetKey x" using that by (simp add: Ouqi_node_def)
    moreover have "cr_ranking_items r4 = s2" "map_of (cr_key2item r4) (Ouqi_GetKey x) = Some 0"
      by (simp_all add: r4_def)
    ultimately show ?thesis using s3 by (simp add: Ranking_Update_def Ranking_delete_def col_simps)
  qed
  moreover have "ranking_map (r4\<lparr>cr_ranking_items := s3\<rparr>) = ranking_map r4" by (simp add: fun_eq_iff ranking_map_def)
  ultimately show ?thesis using up1 up2 by (intro exI [of _ r4]) auto
qed

lemma tie_blocks_update_witness:
  "\<exists>r. run_updates Ouqi_node [(None, [1], \<lparr>ouqi_PlayerId = 1, ouqi_CatId = 1, ouqi_Ouqi = 50, ouqi_UpdateTime = 9\<rparr>),
        (None, [3], \<lparr>ouqi_PlayerId = 1, ouqi_CatId = 2, ouqi_Ouqi = 50, ouqi_UpdateTime = 9\<rparr>)]
      (NewCommonRankingList Ouqi_node 100000) = Some ([True, True], r)
    \<and> (\<exists>r'. Ranking_Update Ouqi_node None [5] \<lparr>ouqi_PlayerId = 1, ouqi_CatId = 1, ouqi_Ouqi = 80, ouqi_UpdateTime = 12\<rparr> r
        = Some (False, r'))"
proof -
  let ?x = "\<lparr>ouqi_PlayerId = 1, ouqi_CatId = 1, ouqi_Ouqi = 50, ouqi_UpdateTime = 9\<rparr>"
    and ?y = "\<lparr>ouqi_PlayerId = 1, ouqi_CatId = 2, ouqi_Ouqi = 50, ouqi_UpdateTime = 9\<rparr>"
    and ?z = "\<lparr>ouqi_PlayerId = 1, ouqi_CatId = 1, ouqi_Ouqi = 80, ouqi_UpdateTime = 12\<rparr>"
  have draws: "random_skiplist_layer [1] \<noteq> None" "random_skiplist_layer [3] \<noteq> None"
    by (simp_all add: random_skiplist_layer_def)
  have keys: "Ouqi_GetKey ?x \<noteq> Ouqi_GetKey ?y" "Ouqi_GetKey ?z = Ouqi_GetKey ?x"
    by (simp_all add: Ouqi_GetKey_def Int64From2Int32_def)
  have "\<exists>r. run_updates Ouqi_node [(None, [1], ?x), (None, [3], ?y)] (NewCommonRankingList Ouqi_node 100000) = Some ([True, True], r)
      \<and> (\<forall>z pick rs. Ouqi_GetKey z = Ouqi_GetKey ?x \<longrightarrow>
          (\<exists>r'. Ranking_Update Ouqi_node pick rs z r = Some (False, r') \<and> ranking_map r' = ranking_map r))"
    by (rule tie_blocks_update [OF draws _ _ _ _ keys(1)]) simp_all
  with keys(2) show ?thesis by blast
qed

end
