(* ===== verification/RankServer.thy ===== *)
theory RankServer
  imports RankingList
begin

text \<open>
  The ranking part of the rank server: the list manager (\<open>src/src/rpc_server/rank_list.go\<close>), the
  procedures that update and read the lists and the player base data (\<open>rpc_processor.go\<close>, \<open>common.go\<close>,
  \<open>player_mgr.go\<close>) and the preloading of the lists from the tables (\<open>a_db_ext.go\<close>). The item type of a list
  is fixed by its index (\<open>root_rank_item\<close>): the lists are kept per item type, \<open>None\<close> is a nil pointer.
  A procedure that panics returns \<open>None\<close>; it is recovered by the procedure and what it had changed before
  is not modelled. The calls back into a game server are the argument \<open>fetch\<close>.
\<close>

subsection \<open>RankList and its manager\<close>

type_synonym draw = "nat option \<times> int list"
type_synonym 'v rank_lists = "'v CommonRankingList option list"

text \<open>The method calls itself and nothing else.\<close>

partial_function (option) RankList_DeleteItem :: "int \<Rightarrow> 'v CommonRankingList \<Rightarrow> (bool \<times> 'v CommonRankingList) option" where
  "RankList_DeleteItem key r = RankList_DeleteItem key r"

definition RankList_GetItemsByRange :: "'v SkiplistNode \<Rightarrow> int \<Rightarrow> int \<Rightarrow> int \<Rightarrow> 'v CommonRankingList \<Rightarrow>
    ('v list \<times> int \<times> int option) option" where
  "RankList_GetItemsByRange I key start_rank rank_num r =
     (let (start_rank, rank_num) = Ranking_GetRankRange start_rank rank_num r
      in if start_rank = 0 then Some ([], 0, None)
         else if rank_num < 0 then None
         else do {
           (num, nodes) \<leftarrow> Ranking_GetRangeNodes start_rank rank_num (replicate (nat rank_num) (sn_New I)) r;
           if num = 0 then Some ([], 0, None)
           else do {
             (self_rank, self_value) \<leftarrow> Ranking_GetRankAndValue I key r;
             Some (take (nat num) nodes, self_rank, self_value)
           }
         })"

definition RANK_LIST_TYPE_MAX :: nat where "RANK_LIST_TYPE_MAX = 10"

definition RankListManager_Init :: "PlayerInt32RankItem rank_lists \<times> PlayerCatOuqiRankItem rank_lists" where
  "RankListManager_Init =
     (let i = Some (NewCommonRankingList Int32_node 100000); c = Some (NewCommonRankingList Ouqi_node 100000)
      in ([None, i, i, None, i] @ replicate (RANK_LIST_TYPE_MAX - 5) None,
          [None, None, None, c, None] @ replicate (RANK_LIST_TYPE_MAX - 5) None))"

text \<open>\<open>rank_lists[rank_type]\<close> after the length test: nil beyond the end, a panic for a negative index.\<close>

definition GetRankList :: "int \<Rightarrow> 'v rank_lists \<Rightarrow> 'v CommonRankingList option option" where
  "GetRankList rank_type L = (if rank_type \<ge> int (length L) then Some None else go_nth L rank_type)"

definition Manager_GetRankByKey :: "'v SkiplistNode \<Rightarrow> int \<Rightarrow> int \<Rightarrow> 'v rank_lists \<Rightarrow> int option" where
  "Manager_GetRankByKey I rank_type key L = do {
     l \<leftarrow> GetRankList rank_type L;
     (case l of None \<Rightarrow> Some (-1) | Some r \<Rightarrow> Ranking_GetRank I key r)
   }"

definition Manager_GetItemsByRange :: "'v SkiplistNode \<Rightarrow> int \<Rightarrow> int \<Rightarrow> int \<Rightarrow> int \<Rightarrow> 'v rank_lists \<Rightarrow>
    ('v list \<times> int \<times> int option) option" where
  "Manager_GetItemsByRange I rank_type key start_rank rank_num L = do {
     l \<leftarrow> GetRankList rank_type L;
     (case l of None \<Rightarrow> Some ([], 0, None) | Some r \<Rightarrow> RankList_GetItemsByRange I key start_rank rank_num r)
   }"

definition Manager_GetLastRankRange :: "int \<Rightarrow> int \<Rightarrow> 'v rank_lists \<Rightarrow> (int \<times> int) option" where
  "Manager_GetLastRankRange rank_type rank_num L = do {
     l \<leftarrow> GetRankList rank_type L;
     Some (case l of None \<Rightarrow> (-1, -1) | Some r \<Rightarrow> Ranking_GetLastRankRange rank_num r)
   }"

definition Manager_UpdateItem :: "'v SkiplistNode \<Rightarrow> draw \<Rightarrow> int \<Rightarrow> 'v \<Rightarrow> 'v rank_lists \<Rightarrow> (bool \<times> 'v rank_lists) option" where
  "Manager_UpdateItem I d rank_type x L = do {
     l \<leftarrow> GetRankList rank_type L;
     (case l of
        None \<Rightarrow> Some (False, L)
      | Some r \<Rightarrow> do {
          (ok, r) \<leftarrow> Ranking_Update I (fst d) (snd d) x r;
          Some (ok, L[nat rank_type := Some r])
        })
   }"

definition Manager_DeleteItem :: "int \<Rightarrow> int \<Rightarrow> 'v rank_lists \<Rightarrow> (bool \<times> 'v rank_lists) option" where
  "Manager_DeleteItem rank_type key L = do {
     l \<leftarrow> GetRankList rank_type L;
     (case l of
        None \<Rightarrow> Some (False, L)
      | Some r \<Rightarrow> do {
          (ok, r) \<leftarrow> RankList_DeleteItem key r;
          Some (ok, L[nat rank_type := Some r])
        })
   }"

subsection \<open>The tables\<close>

record StageTotalScoreRow =
  sts_Score :: int
  sts_UpdateTime :: int
  sts_TopRank :: int
  sts_TopScore :: int
  sts_Stages :: "int column"

record CharmRow =
  ch_CharmValue :: int
  ch_UpdateTime :: int
  ch_TopRank :: int
  ch_TopCharm :: int

record CatOuqiData =
  co_Ouqi :: int
  co_UpdateTime :: int
  co_HistoryTopRank :: int

record BeZanedRow =
  bz_Zaned :: int
  bz_UpdateTime :: int
  bz_TopRank :: int
  bz_TopZaned :: int

record BaseInfoRow =
  bi_Name :: string
  bi_Level :: int
  bi_Head :: int

record RankState =
  rs_int32 :: "PlayerInt32RankItem rank_lists"
  rs_ouqi :: "PlayerCatOuqiRankItem rank_lists"
  rs_StageTotalScores :: "StageTotalScoreRow column"
  rs_Charms :: "CharmRow column"
  rs_CatOuqis :: "CatOuqiData column column"
  rs_BeZaneds :: "BeZanedRow column"
  rs_BaseInfos :: "BaseInfoRow column"
  rs_name2id :: "(string \<times> int) list option"

text \<open>\<open>GetRow\<close>, and \<open>AddRow\<close> of a new row when there is none.\<close>

definition row_or_new :: "'r column \<Rightarrow> int \<Rightarrow> 'r \<Rightarrow> 'r" where
  "row_or_new t pid z = (case col_Get t pid of None \<Rightarrow> z | Some row \<Rightarrow> row)"

abbreviation put_row :: "int \<Rightarrow> 'r \<Rightarrow> 'r column \<Rightarrow> 'r column" where
  "put_row pid row t \<equiv> AList.update pid row t"

definition new_StageTotalScoreRow :: StageTotalScoreRow where
  "new_StageTotalScoreRow = \<lparr>sts_Score = 0, sts_UpdateTime = 0, sts_TopRank = 0, sts_TopScore = 0, sts_Stages = []\<rparr>"

definition new_CharmRow :: CharmRow where
  "new_CharmRow = \<lparr>ch_CharmValue = 0, ch_UpdateTime = 0, ch_TopRank = 0, ch_TopCharm = 0\<rparr>"

definition new_BeZanedRow :: BeZanedRow where
  "new_BeZanedRow = \<lparr>bz_Zaned = 0, bz_UpdateTime = 0, bz_TopRank = 0, bz_TopZaned = 0\<rparr>"

definition new_BaseInfoRow :: BaseInfoRow where
  "new_BaseInfoRow = \<lparr>bi_Name = [], bi_Level = 0, bi_Head = 0\<rparr>"


subsection \<open>Updating the ranks\<close>

record RankListDataUpdate =
  up_RankType :: int
  up_PlayerId :: int
  up_RankParam :: "int list"

abbreviation (input) RANK_LIST_TYPE_STAGE_TOTAL_SCORE :: int where "RANK_LIST_TYPE_STAGE_TOTAL_SCORE \<equiv> 1"
abbreviation (input) RANK_LIST_TYPE_CHARM :: int where "RANK_LIST_TYPE_CHARM \<equiv> 2"
abbreviation (input) RANK_LIST_TYPE_CAT_OUQI :: int where "RANK_LIST_TYPE_CAT_OUQI \<equiv> 3"
abbreviation (input) RANK_LIST_TYPE_BE_ZANED :: int where "RANK_LIST_TYPE_BE_ZANED \<equiv> 4"

definition int32_item :: "int \<Rightarrow> int \<Rightarrow> int \<Rightarrow> PlayerInt32RankItem" where
  "int32_item v t pid = \<lparr>r32_Value = v, r32_UpdateTime = t, r32_PlayerId = pid\<rparr>"

definition ouqi_item_of :: "int \<Rightarrow> int \<Rightarrow> int \<Rightarrow> int \<Rightarrow> PlayerCatOuqiRankItem" where
  "ouqi_item_of pid cat ouqi t = \<lparr>ouqi_PlayerId = pid, ouqi_CatId = cat, ouqi_Ouqi = ouqi, ouqi_UpdateTime = t\<rparr>"

text \<open>Setting the score of one stage in the row: added when the stage is new.\<close>

definition set_stage_score :: "int list \<Rightarrow> int column \<Rightarrow> int column option" where
  "set_stage_score params stages =
     (if length params \<ge> 3 then do {
        stage_id \<leftarrow> go_nth params 1;
        stage_score \<leftarrow> go_nth params 2;
        Some (if \<not> col_HasIndex stages stage_id then snd (col_Add stage_id stage_score stages)
              else snd (col_set_field (\<lambda>_. stage_score) stage_id stages))
      } else Some stages)"

definition stage_total_score_update :: "draw \<Rightarrow> RankListDataUpdate \<Rightarrow> int \<Rightarrow> RankState \<Rightarrow> RankState option" where
  "stage_total_score_update d args now_time s = do {
     v \<leftarrow> go_nth (up_RankParam args) 0;
     (_, L) \<leftarrow> Manager_UpdateItem Int32_node d RANK_LIST_TYPE_STAGE_TOTAL_SCORE
        (int32_item v now_time (up_PlayerId args)) (rs_int32 s);
     let row = row_or_new (rs_StageTotalScores s) (up_PlayerId args) new_StageTotalScoreRow;
     let row = row\<lparr>sts_Score := v, sts_UpdateTime := now_time\<rparr>;
     curr_rank \<leftarrow> Manager_GetRankByKey Int32_node RANK_LIST_TYPE_STAGE_TOTAL_SCORE (up_PlayerId args) L;
     let row = (if curr_rank < sts_TopRank row then row\<lparr>sts_TopRank := curr_rank, sts_TopScore := v\<rparr> else row);
     stages \<leftarrow> set_stage_score (up_RankParam args) (sts_Stages row);
     Some (s\<lparr>rs_int32 := L,
       rs_StageTotalScores := put_row (up_PlayerId args) (row\<lparr>sts_Stages := stages\<rparr>) (rs_StageTotalScores s)\<rparr>)
   }"

definition charm_update :: "draw \<Rightarrow> RankListDataUpdate \<Rightarrow> int \<Rightarrow> RankState \<Rightarrow> RankState option" where
  "charm_update d args now_time s = do {
     v \<leftarrow> go_nth (up_RankParam args) 0;
     (_, L) \<leftarrow> Manager_UpdateItem Int32_node d RANK_LIST_TYPE_CHARM
        (int32_item v now_time (up_PlayerId args)) (rs_int32 s);
     let row = row_or_new (rs_Charms s) (up_PlayerId args) new_CharmRow;
     let row = row\<lparr>ch_CharmValue := v, ch_UpdateTime := now_time\<rparr>;
     curr_rank \<leftarrow> Manager_GetRankByKey Int32_node RANK_LIST_TYPE_CHARM (up_PlayerId args) L;
     let row = (if curr_rank < ch_TopRank row then row\<lparr>ch_TopRank := curr_rank, ch_TopCharm := v\<rparr> else row);
     Some (s\<lparr>rs_int32 := L, rs_Charms := put_row (up_PlayerId args) row (rs_Charms s)\<rparr>)
   }"

text \<open>The cats of one player: the row of a cat is added or its value and time are set.\<close>

definition set_cat_ouqi :: "int \<Rightarrow> int \<Rightarrow> int \<Rightarrow> CatOuqiData column \<Rightarrow> CatOuqiData column" where
  "set_cat_ouqi cat_id ouqi now_time cats =
     (if \<not> col_HasIndex cats cat_id
      then snd (col_Add cat_id \<lparr>co_Ouqi = ouqi, co_UpdateTime = now_time, co_HistoryTopRank = 0\<rparr> cats)
      else snd (col_set_field (\<lambda>c. c\<lparr>co_Ouqi := ouqi, co_UpdateTime := now_time\<rparr>) cat_id cats))"

definition cat_ouqi_update :: "draw \<Rightarrow> RankListDataUpdate \<Rightarrow> int \<Rightarrow> RankState \<Rightarrow> RankState option" where
  "cat_ouqi_update d args now_time s = do {
     cat_id \<leftarrow> go_nth (up_RankParam args) 0;
     ouqi \<leftarrow> go_nth (up_RankParam args) 1;
     let pid = up_PlayerId args;
     let key = Ouqi_GetKey (ouqi_item_of pid cat_id 0 0);
     if ouqi > 0 then do {
       (_, L) \<leftarrow> Manager_UpdateItem Ouqi_node d RANK_LIST_TYPE_CAT_OUQI
          (ouqi_item_of pid cat_id ouqi now_time) (rs_ouqi s);
       let cats = set_cat_ouqi cat_id ouqi now_time (row_or_new (rs_CatOuqis s) pid []);
       curr_rank \<leftarrow> Manager_GetRankByKey Ouqi_node RANK_LIST_TYPE_CAT_OUQI key L;
       let cats = (if curr_rank < fst (col_get_field co_HistoryTopRank 0 cats cat_id)
                   then snd (col_set_field (\<lambda>c. c\<lparr>co_HistoryTopRank := curr_rank\<rparr>) cat_id cats) else cats);
       Some (s\<lparr>rs_ouqi := L, rs_CatOuqis := put_row pid cats (rs_CatOuqis s)\<rparr>)
     } else do {
       (_, L) \<leftarrow> Manager_DeleteItem RANK_LIST_TYPE_CAT_OUQI key (rs_ouqi s);
       Some (s\<lparr>rs_ouqi := L,
         rs_CatOuqis := (case col_Get (rs_CatOuqis s) pid of
            None \<Rightarrow> rs_CatOuqis s
          | Some cats \<Rightarrow> put_row pid (col_Remove cat_id cats) (rs_CatOuqis s))\<rparr>)
     }
   }"

definition be_zaned_update :: "draw \<Rightarrow> RankListDataUpdate \<Rightarrow> int \<Rightarrow> RankState \<Rightarrow> RankState option" where
  "be_zaned_update d args now_time s = do {
     to_player_id \<leftarrow> go_nth (up_RankParam args) 0;
     zan \<leftarrow> (if length (up_RankParam args) \<ge> 2 then go_nth (up_RankParam args) 1 else Some 0);
     let row = (row_or_new (rs_BeZaneds s) to_player_id new_BeZanedRow)\<lparr>bz_Zaned := zan\<rparr>;
     (_, L) \<leftarrow> Manager_UpdateItem Int32_node d RANK_LIST_TYPE_BE_ZANED
        (int32_item zan now_time to_player_id) (rs_int32 s);
     curr_rank \<leftarrow> Manager_GetRankByKey Int32_node RANK_LIST_TYPE_BE_ZANED to_player_id L;
     let row = (if curr_rank < bz_TopRank row then row\<lparr>bz_TopRank := curr_rank, bz_TopZaned := zan\<rparr> else row);
     Some (s\<lparr>rs_int32 := L, rs_BeZaneds := put_row to_player_id row (rs_BeZaneds s)\<rparr>)
   }"

definition UpdateData :: "int \<Rightarrow> draw \<Rightarrow> RankListDataUpdate \<Rightarrow> RankState \<Rightarrow> RankState option" where
  "UpdateData unix d args s =
     (let now_time = i32 unix
      in if up_RankType args = RANK_LIST_TYPE_STAGE_TOTAL_SCORE then stage_total_score_update d args now_time s
         else if up_RankType args = RANK_LIST_TYPE_CHARM then charm_update d args now_time s
         else if up_RankType args = RANK_LIST_TYPE_CAT_OUQI then cat_ouqi_update d args now_time s
         else if up_RankType args = RANK_LIST_TYPE_BE_ZANED then be_zaned_update d args now_time s
         else Some s)"

subsection \<open>Loading the lists from the tables\<close>

text \<open>One update per row in the order of the table; the \<open>i\<close>-th update of the list uses the draw \<open>d i\<close>.\<close>

fun preload_rows :: "'v SkiplistNode \<Rightarrow> (nat \<Rightarrow> draw) \<Rightarrow> int \<Rightarrow> nat \<Rightarrow> 'v list \<Rightarrow> 'v rank_lists \<Rightarrow> 'v rank_lists option" where
  "preload_rows I d rank_type i [] L = Some L"
| "preload_rows I d rank_type i (x # xs) L = do {
     (_, L) \<leftarrow> Manager_UpdateItem I (d i) rank_type x L;
     preload_rows I d rank_type (i + 1) xs L
   }"

definition PlayerMgr_has :: "string \<Rightarrow> (string \<times> int) list option \<Rightarrow> bool" where
  "PlayerMgr_has name m = (case m of None \<Rightarrow> False | Some m \<Rightarrow> if map_of m name \<noteq> None then True else True)"

definition PlayerMgr_Add :: "string \<Rightarrow> int \<Rightarrow> (string \<times> int) list option \<Rightarrow> bool \<times> (string \<times> int) list option" where
  "PlayerMgr_Add name pid m =
     (let m' = (case m of None \<Rightarrow> [] | Some m \<Rightarrow> m)
      in if PlayerMgr_has name (Some m') then (False, Some m') else (True, Some (AList.update name pid m')))"

definition PlayerMgr_GetId :: "string \<Rightarrow> (string \<times> int) list option \<Rightarrow> int" where
  "PlayerMgr_GetId name m =
     (case m of None \<Rightarrow> 0 | Some m \<Rightarrow> (case map_of m name of None \<Rightarrow> 0 | Some pid \<Rightarrow> pid))"

definition on_preload :: "(nat \<Rightarrow> draw) \<Rightarrow> RankState \<Rightarrow> RankState option" where
  "on_preload d s = do {
     let (L, C) = RankListManager_Init;
     L \<leftarrow> preload_rows Int32_node d RANK_LIST_TYPE_STAGE_TOTAL_SCORE 0
            (map (\<lambda>(pid, row). int32_item (sts_Score row) (sts_UpdateTime row) pid) (rs_StageTotalScores s)) L;
     L \<leftarrow> preload_rows Int32_node d RANK_LIST_TYPE_CHARM 0
            (map (\<lambda>(pid, row). int32_item (ch_CharmValue row) (ch_UpdateTime row) pid) (rs_Charms s)) L;
     C \<leftarrow> preload_rows Ouqi_node d RANK_LIST_TYPE_CAT_OUQI 0
            (concat (map (\<lambda>(pid, cats). map (\<lambda>(cid, c). ouqi_item_of pid cid (co_Ouqi c) (co_UpdateTime c)) cats)
              (rs_CatOuqis s))) C;
     L \<leftarrow> preload_rows Int32_node d RANK_LIST_TYPE_BE_ZANED 0
            (map (\<lambda>(pid, row). int32_item (bz_Zaned row) (bz_UpdateTime row) pid) (rs_BeZaneds s)) L;
     Some (s\<lparr>rs_int32 := L, rs_ouqi := C,
       rs_name2id := fold (\<lambda>(pid, row) m. snd (PlayerMgr_Add (bi_Name row) pid m)) (rs_BaseInfos s) (rs_name2id s)\<rparr>)
   }"


subsection \<open>The base data of players\<close>

text \<open>The answer of the game server of a player: name, level and head, none when there is no connection or
  the call fails.\<close>

type_synonym fetch = "int \<Rightarrow> (string \<times> int \<times> int) option"

definition get_player_base_info :: "fetch \<Rightarrow> int \<Rightarrow> BaseInfoRow column \<Rightarrow> (string \<times> int \<times> int) \<times> BaseInfoRow column" where
  "get_player_base_info fetch player_id t =
     (let row = row_or_new t player_id new_BaseInfoRow;
          t = put_row player_id row t
      in if bi_Name row = [] \<or> bi_Level row \<le> 0 then
           (case fetch player_id of
              None \<Rightarrow> ((bi_Name row, bi_Level row, bi_Head row), t)
            | Some (name, level, head) \<Rightarrow>
                ((name, level, head), put_row player_id \<lparr>bi_Name = name, bi_Level = level, bi_Head = head\<rparr> t))
         else ((bi_Name row, bi_Level row, bi_Head row), t))"

definition BaseInfoUpdate :: "int \<Rightarrow> string \<Rightarrow> int \<Rightarrow> int \<Rightarrow> RankState \<Rightarrow> RankState" where
  "BaseInfoUpdate pid name level head s =
     (let row = row_or_new (rs_BaseInfos s) pid new_BaseInfoRow;
          row = (if name \<noteq> [] then row\<lparr>bi_Name := name\<rparr> else row);
          row = (if level > 0 then row\<lparr>bi_Level := level\<rparr> else row);
          row = (if head > 0 then row\<lparr>bi_Head := head\<rparr> else row)
      in s\<lparr>rs_BaseInfos := put_row pid row (rs_BaseInfos s)\<rparr>)"

definition base_info_msg :: "int \<Rightarrow> BaseInfoRow \<Rightarrow> int \<times> string \<times> int \<times> int" where
  "base_info_msg pid row = (pid, bi_Name row, bi_Level row, bi_Head row)"

definition GetPlayersBaseInfo :: "int list \<Rightarrow> RankState \<Rightarrow> (int \<times> string \<times> int \<times> int) list" where
  "GetPlayersBaseInfo pids s =
     concat (map (\<lambda>pid. case col_Get (rs_BaseInfos s) pid of None \<Rightarrow> [] | Some row \<Rightarrow> [base_info_msg pid row]) pids)"

record FriendStageScoreData =
  fs_Id :: int
  fs_StageScore :: int
  fs_Name :: string
  fs_Level :: int
  fs_Head :: int

text \<open>The entries carry the id of the asking player, not that of the friend.\<close>

fun GetFriendStageScore :: "fetch \<Rightarrow> int \<Rightarrow> int \<Rightarrow> int list \<Rightarrow> RankState \<Rightarrow> FriendStageScoreData list \<times> RankState" where
  "GetFriendStageScore fetch player_id stage_id [] s = ([], s)"
| "GetFriendStageScore fetch player_id stage_id (f # fs) s =
     (case col_Get (rs_StageTotalScores s) f of
        None \<Rightarrow> GetFriendStageScore fetch player_id stage_id fs s
      | Some row \<Rightarrow>
          (case col_Get (sts_Stages row) stage_id of
             None \<Rightarrow> GetFriendStageScore fetch player_id stage_id fs s
           | Some score \<Rightarrow>
               let ((name, level, head), t) = get_player_base_info fetch f (rs_BaseInfos s);
                   (out, s) = GetFriendStageScore fetch player_id stage_id fs (s\<lparr>rs_BaseInfos := t\<rparr>)
               in (\<lparr>fs_Id = player_id, fs_StageScore = score, fs_Name = name, fs_Level = level, fs_Head = head\<rparr> # out, s)))"

definition GetZan :: "int \<Rightarrow> RankState \<Rightarrow> int" where
  "GetZan player_id s = (case col_Get (rs_BeZaneds s) player_id of None \<Rightarrow> 0 | Some row \<Rightarrow> bz_Zaned row)"

text \<open>\<open>strconv.Atoi\<close>: an optional sign and decimal digits, within 64 bits.\<close>

definition Atoi :: "string \<Rightarrow> int option" where
  "Atoi xs =
     (let (neg, ds) = (case xs of c # cs \<Rightarrow> if c = CHR ''-'' then (True, cs) else if c = CHR ''+'' then (False, cs) else (False, xs)
            | [] \<Rightarrow> (False, xs));
          v = foldl (\<lambda>n c. 10 * n + (int (of_char c) - 48)) 0 ds;
          v = (if neg then - v else v)
      in if ds = [] \<or> (\<exists>c \<in> set ds. \<not> (48 \<le> (of_char c :: nat) \<and> (of_char c :: nat) \<le> 57)) \<or> i64 v \<noteq> v then None else Some v)"

text \<open>The player with the key as id, then the player with the key as name.\<close>

definition SearchFriends :: "string \<Rightarrow> RankState \<Rightarrow> (int \<times> string \<times> int \<times> int) list" where
  "SearchFriends key s =
     (let by_id = (case Atoi key of None \<Rightarrow> [] | Some n \<Rightarrow> GetPlayersBaseInfo [i32 n] s);
          n = PlayerMgr_GetId key (rs_name2id s);
          by_name = (if n > 0 then GetPlayersBaseInfo [n] s else [])
      in by_id @ by_name)"

subsection \<open>Reading the ranks\<close>

datatype RankItems = Int32Items "PlayerInt32RankItem list" | OuqiItems "PlayerCatOuqiRankItem list"

record RankListGetData =
  gd_RankType :: int
  gd_PlayerId :: int
  gd_RankParam :: int
  gd_StartRank :: int
  gd_RankNum :: int

record RankListGetDataResult =
  gr_RankItems :: RankItems
  gr_SelfRank :: int
  gr_SelfValue :: "int option"
  gr_SelfHistoryTopRank :: int
  gr_PlayerBaseInfos :: "(string \<times> int \<times> int) column"

definition self_history_top :: "RankListGetData \<Rightarrow> RankState \<Rightarrow> int" where
  "self_history_top args s =
     (let pid = gd_PlayerId args
      in if gd_RankType args = RANK_LIST_TYPE_STAGE_TOTAL_SCORE then
           (case col_Get (rs_StageTotalScores s) pid of None \<Rightarrow> 0 | Some row \<Rightarrow> sts_TopRank row)
         else if gd_RankType args = RANK_LIST_TYPE_CHARM then
           (case col_Get (rs_Charms s) pid of None \<Rightarrow> 0 | Some row \<Rightarrow> ch_TopRank row)
         else if gd_RankType args = RANK_LIST_TYPE_CAT_OUQI then
           (case col_Get (rs_CatOuqis s) pid of None \<Rightarrow> 0
            | Some cats \<Rightarrow> fst (col_get_field co_HistoryTopRank 0 cats (gd_RankParam args)))
         else if gd_RankType args = RANK_LIST_TYPE_BE_ZANED then
           (case col_Get (rs_BeZaneds s) pid of None \<Rightarrow> 0 | Some row \<Rightarrow> bz_TopRank row)
         else 0)"

fun collect_base_infos :: "fetch \<Rightarrow> int list \<Rightarrow> (string \<times> int \<times> int) column \<Rightarrow> BaseInfoRow column \<Rightarrow>
    (string \<times> int \<times> int) column \<times> BaseInfoRow column" where
  "collect_base_infos fetch [] infos t = (infos, t)"
| "collect_base_infos fetch (p # ps) infos t =
     (let (info, t) = get_player_base_info fetch p t
      in collect_base_infos fetch ps (AList.update p info infos) t)"

text \<open>The items as one slice of the interface type; the lists of the other item type are nil at an index.\<close>

definition GetRankItems :: "fetch \<Rightarrow> RankListGetData \<Rightarrow> RankState \<Rightarrow> (RankListGetDataResult \<times> RankState) option" where
  "GetRankItems fetch args s = do {
     (items, self_rank, self_value) \<leftarrow>
       (if gd_RankType args = RANK_LIST_TYPE_CAT_OUQI then do {
          (xs, r, v) \<leftarrow> Manager_GetItemsByRange Ouqi_node (gd_RankType args)
             (Ouqi_GetKey (ouqi_item_of (gd_PlayerId args) (gd_RankParam args) 0 0))
             (gd_StartRank args) (gd_RankNum args) (rs_ouqi s);
          Some (OuqiItems xs, r, v)
        } else do {
          (xs, r, v) \<leftarrow> Manager_GetItemsByRange Int32_node (gd_RankType args) (gd_PlayerId args)
             (gd_StartRank args) (gd_RankNum args) (rs_int32 s);
          Some (Int32Items xs, r, v)
        });
     let pids = (case items of Int32Items xs \<Rightarrow> map r32_PlayerId xs | OuqiItems xs \<Rightarrow> map ouqi_PlayerId xs);
     let (infos, t) = collect_base_infos fetch pids [] (rs_BaseInfos s);
     Some (\<lparr>gr_RankItems = items, gr_SelfRank = self_rank, gr_SelfValue = self_value,
             gr_SelfHistoryTopRank = self_history_top args s, gr_PlayerBaseInfos = infos\<rparr>,
           s\<lparr>rs_BaseInfos := t\<rparr>)
   }"

subsection \<open>Charges\<close>

record ChargeSave =
  cs_Channel :: int
  cs_OrderId :: string
  cs_BundleId :: string
  cs_Account :: string
  cs_PlayerId :: int
  cs_PayTime :: int
  cs_PayTimeStr :: string

text \<open>An order is saved once, in the table of its channel; any other channel is an error.\<close>

definition save_order :: "ChargeSave \<Rightarrow> (string \<times> ChargeSave) list \<Rightarrow> (string \<times> ChargeSave) list" where
  "save_order c t = (if map_of t (cs_OrderId c) = None then AList.update (cs_OrderId c) c t else t)"

definition ChargeSave_proc :: "ChargeSave \<Rightarrow> (string \<times> ChargeSave) list \<Rightarrow> (string \<times> ChargeSave) list \<Rightarrow>
    bool \<times> (string \<times> ChargeSave) list \<times> (string \<times> ChargeSave) list" where
  "ChargeSave_proc c google apple =
     (if cs_Channel c = 1 then (True, save_order c google, apple)
      else if cs_Channel c = 2 then (True, google, save_order c apple)
      else (False, google, apple))"


subsection \<open>A deletion never returns\<close>

lemma RankList_DeleteItem_diverges: "RankList_DeleteItem key r = None"
proof -
  have "\<And>y. RankList_DeleteItem key r = Some y \<Longrightarrow> False"
    by (rule RankList_DeleteItem.raw_induct [where P = "\<lambda>_ _ _. False"]) simp_all
  then show ?thesis by (cases "RankList_DeleteItem key r") auto
qed

text \<open>
  Removing a cat from the list never comes back. \<open>RankList.DeleteItem\<close> calls itself without
  end, so an update of the cat list with a value that is not positive (the request the game server sends
  when a cat is gone) has no result wherever the list exists: no rank, no table is changed.
\<close>

theorem cat_removal_diverges:
  assumes "up_RankType args = RANK_LIST_TYPE_CAT_OUQI" "up_RankParam args = cat_id # ouqi # ps" "ouqi \<le> 0"
    and "GetRankList RANK_LIST_TYPE_CAT_OUQI (rs_ouqi s) = Some (Some r)"
  shows "UpdateData unix d args s = None"
  using assms
  by (simp add: UpdateData_def cat_ouqi_update_def go_nth_def Manager_DeleteItem_def Let_def
      RankList_DeleteItem_diverges)

lemma cat_removal_diverges_witness:
  "UpdateData 1000 (None, [1]) \<lparr>up_RankType = 3, up_PlayerId = 5, up_RankParam = [7, 0]\<rparr>
     \<lparr>rs_int32 = fst RankListManager_Init, rs_ouqi = snd RankListManager_Init, rs_StageTotalScores = [],
      rs_Charms = [], rs_CatOuqis = [], rs_BeZaneds = [], rs_BaseInfos = [], rs_name2id = None\<rparr> = None"
  by (rule cat_removal_diverges [where cat_id = 7 and ouqi = 0 and ps = "[]"
      and r = "NewCommonRankingList Ouqi_node 100000"]) (simp_all add: GetRankList_def RankListManager_Init_def go_nth_def RANK_LIST_TYPE_MAX_def Let_def)

subsection \<open>The lists and the tables\<close>

text \<open>The state of a running server: the four lists exist and are well formed.\<close>

definition server_ok :: "RankState \<Rightarrow> bool" where
  "server_ok s \<longleftrightarrow> (\<exists>r1 r2 r3 r4.
     rs_int32 s = [None, Some r1, Some r2, None, Some r4] @ replicate 5 None
     \<and> rs_ouqi s = [None, None, None, Some r3, None] @ replicate 5 None
     \<and> ranking_ok Int32_node r1 \<and> ranking_ok Int32_node r2 \<and> ranking_ok Ouqi_node r3 \<and> ranking_ok Int32_node r4)"

definition stage_entries :: "StageTotalScoreRow column \<Rightarrow> int \<Rightarrow> PlayerInt32RankItem option" where
  "stage_entries t k = map_option (\<lambda>row. int32_item (sts_Score row) (sts_UpdateTime row) k) (map_of t k)"

definition charm_entries :: "CharmRow column \<Rightarrow> int \<Rightarrow> PlayerInt32RankItem option" where
  "charm_entries t k = map_option (\<lambda>row. int32_item (ch_CharmValue row) (ch_UpdateTime row) k) (map_of t k)"

text \<open>What the score and charm lists hold is what the tables say.\<close>

definition ranks_saved :: "RankState \<Rightarrow> bool" where
  "ranks_saved s \<longleftrightarrow> col_wf (rs_StageTotalScores s) \<and> col_wf (rs_Charms s) \<and> col_wf (rs_BeZaneds s)
     \<and> (\<forall>r. GetRankList RANK_LIST_TYPE_STAGE_TOTAL_SCORE (rs_int32 s) = Some (Some r) \<longrightarrow>
          ranking_map r = stage_entries (rs_StageTotalScores s))
     \<and> (\<forall>r. GetRankList RANK_LIST_TYPE_CHARM (rs_int32 s) = Some (Some r) \<longrightarrow>
          ranking_map r = charm_entries (rs_Charms s))"

definition draw_ok :: "draw \<Rightarrow> bool" where
  "draw_ok d \<longleftrightarrow> random_skiplist_layer (snd d) \<noteq> None"

lemma Int32_key [simp]: "sn_GetKey Int32_node (int32_item v t k) = k"
  by (simp add: Int32_node_def int32_item_def)

lemma GetRankList_in: "n < length L \<Longrightarrow> GetRankList (int n) L = Some (L ! n)"
  by (simp add: GetRankList_def go_nth_def)

text \<open>One update of an existing list, for the items of each kind.\<close>

lemma Manager_UpdateItem_int32:
  assumes "n < length L" "L ! n = Some r" "ranking_ok Int32_node r" "draw_ok d"
  shows "\<exists>r'. Manager_UpdateItem Int32_node d (int n) (int32_item v t k) L = Some (True, L[n := Some r'])
    \<and> ranking_ok Int32_node r' \<and> ranking_map r' = (ranking_map r)(k \<mapsto> int32_item v t k)"
  using Update_ok [OF int32_node.rank_items_axioms assms(3), of "snd d" "fst d" "int32_item v t k"] assms
  by (auto simp: Manager_UpdateItem_def GetRankList_in draw_ok_def)

lemma Ouqi_weak: "rank_order (sn_Greater Ouqi_node)"
  "sn_KeyEqual Ouqi_node x y \<Longrightarrow> sn_GetKey Ouqi_node x = sn_GetKey Ouqi_node y"
  by (simp_all add: Ouqi_node_def ouqi_item.rank_order_axioms Ouqi_KeyEqual_def Ouqi_GetKey_def)

lemma Manager_UpdateItem_ouqi:
  assumes "n < length L" "L ! n = Some r" "ranking_ok Ouqi_node r" "draw_ok d"
  shows "\<exists>ok r'. Manager_UpdateItem Ouqi_node d (int n) x L = Some (ok, L[n := Some r']) \<and> ranking_ok Ouqi_node r'"
  using Update_weak [OF Ouqi_weak assms(3), of "snd d" "fst d" x] assms
  by (auto simp: Manager_UpdateItem_def GetRankList_in draw_ok_def)

lemma Manager_GetRankByKey_int32:
  assumes "n < length L" "L ! n = Some r" "ranking_ok Int32_node r"
  shows "Manager_GetRankByKey Int32_node (int n) k L = Some (case ranking_map r k of None \<Rightarrow> 0
    | Some x \<Rightarrow> 1 + int (card {j. \<exists>y. ranking_map r j = Some y \<and> sn_Greater Int32_node y x}))"
  using GetRank_ok [OF int32_node.rank_items_axioms assms(3)] assms
  by (simp add: Manager_GetRankByKey_def GetRankList_in)

lemma server_okE:
  assumes "server_ok s"
  obtains r1 r2 r3 r4 where "rs_int32 s = [None, Some r1, Some r2, None, Some r4] @ replicate 5 None"
    "rs_ouqi s = [None, None, None, Some r3, None] @ replicate 5 None"
    "ranking_ok Int32_node r1" "ranking_ok Int32_node r2" "ranking_ok Ouqi_node r3" "ranking_ok Int32_node r4"
  using assms by (auto simp: server_ok_def)

lemma preload_int32:
  assumes "n < length L" "L ! n = Some r" "ranking_ok Int32_node r" "\<forall>i. draw_ok (d i)"
  shows "\<exists>r'. preload_rows Int32_node d (int n) i (map (\<lambda>(k, row). int32_item (f row) (g row) k) t) L = Some (L[n := Some r'])
    \<and> ranking_ok Int32_node r'
    \<and> ranking_map r' = ranking_map r ++ (\<lambda>k. map_option (\<lambda>row. int32_item (f row) (g row) k) (map_of (rev t) k))"
  using assms(1-3)
proof (induction t arbitrary: L r i)
  case Nil
  then have "L[n := Some r] = L" by (metis list_update_id)
  with Nil show ?case by (intro exI [of _ r]) (simp add: map_add_def fun_eq_iff)
next
  case (Cons p t)
  obtain k row where p: "p = (k, row)" by (cases p)
  from Manager_UpdateItem_int32 [OF Cons.prems, of "d i" "f row" "g row" k] assms(4) obtain r1 where
    r1: "Manager_UpdateItem Int32_node (d i) (int n) (int32_item (f row) (g row) k) L = Some (True, L[n := Some r1])"
    "ranking_ok Int32_node r1" "ranking_map r1 = (ranking_map r)(k \<mapsto> int32_item (f row) (g row) k)" by blast
  from Cons.IH [OF _ _ r1(2), of "L[n := Some r1]" "i + 1"] Cons.prems(1) obtain r' where
    r': "preload_rows Int32_node d (int n) (i + 1) (map (\<lambda>(k, row). int32_item (f row) (g row) k) t) (L[n := Some r1])
      = Some (L[n := Some r'])" "ranking_ok Int32_node r'"
    "ranking_map r' = ranking_map r1 ++ (\<lambda>k. map_option (\<lambda>row. int32_item (f row) (g row) k) (map_of (rev t) k))"
    by auto
  have "ranking_map r' = ranking_map r ++ (\<lambda>k. map_option (\<lambda>row. int32_item (f row) (g row) k) (map_of (rev (p # t)) k))"
    unfolding r'(3) r1(3) p by (auto simp: fun_eq_iff map_add_def split: option.splits)
  with r1(1) r'(1,2) show ?case by (auto simp: p)
qed

lemma preload_ouqi:
  assumes "n < length L" "L ! n = Some r" "ranking_ok Ouqi_node r" "\<forall>i. draw_ok (d i)"
  shows "\<exists>r'. preload_rows Ouqi_node d (int n) i xs L = Some (L[n := Some r']) \<and> ranking_ok Ouqi_node r'"
  using assms(1-3)
proof (induction xs arbitrary: L r i)
  case Nil
  then have "L[n := Some r] = L" by (metis list_update_id)
  with Nil show ?case by (intro exI [of _ r]) simp
next
  case (Cons x xs)
  from Manager_UpdateItem_ouqi [OF Cons.prems, of "d i" x] assms(4) obtain ok r1 where
    r1: "Manager_UpdateItem Ouqi_node (d i) (int n) x L = Some (ok, L[n := Some r1])" "ranking_ok Ouqi_node r1" by blast
  from Cons.IH [OF _ _ r1(2), of "L[n := Some r1]" "i + 1"] Cons.prems(1) r1(1) show ?case by auto
qed


subsection \<open>A restart restores the ranks\<close>

lemma map_of_rev_unique: "distinct (map fst t) \<Longrightarrow> map_of (rev t) = map_of t"
  by (subst map_of_inject_set) (simp_all add: rev_map [symmetric])

lemma preload_int32_new:
  assumes "n < length L" "L ! n = Some (NewCommonRankingList Int32_node m)" "\<forall>i. draw_ok (d i)" "col_wf t"
  shows "\<exists>r. preload_rows Int32_node d (int n) i (map (\<lambda>(k, row). int32_item (f row) (g row) k) t) L = Some (L[n := Some r])
    \<and> ranking_ok Int32_node r \<and> ranking_map r = (\<lambda>k. map_option (\<lambda>row. int32_item (f row) (g row) k) (map_of t k))"
proof -
  have "map_of (rev t) = map_of t"
    using assms(4) by (simp add: col_wf_def map_of_rev_unique)
  with preload_int32 [OF assms(1,2) ranking_ok_New assms(3), of i f g t] show ?thesis
    by (auto simp: ranking_map_New map_add_def fun_eq_iff split: option.splits)
qed

lemma on_preload_ok:
  assumes "\<forall>i. draw_ok (d i)" "col_wf (rs_StageTotalScores s)" "col_wf (rs_Charms s)" "col_wf (rs_BeZaneds s)"
  shows "\<exists>s'. on_preload d s = Some s' \<and> server_ok s' \<and> ranks_saved s'
    \<and> rs_StageTotalScores s' = rs_StageTotalScores s \<and> rs_Charms s' = rs_Charms s"
proof -
  let ?n = "Some (NewCommonRankingList Int32_node 100000)" and ?c = "Some (NewCommonRankingList Ouqi_node 100000)"
  have init: "RankListManager_Init = ([None, ?n, ?n, None, ?n] @ replicate 5 None, [None, None, None, ?c, None] @ replicate 5 None)"
    by (simp add: RankListManager_Init_def Let_def RANK_LIST_TYPE_MAX_def)
  from preload_int32_new [of 1 "[None, ?n, ?n, None, ?n] @ replicate 5 None" 100000 d "rs_StageTotalScores s" 0 sts_Score sts_UpdateTime]
    assms obtain r1 where
    r1: "preload_rows Int32_node d 1 0 (map (\<lambda>(k, row). int32_item (sts_Score row) (sts_UpdateTime row) k) (rs_StageTotalScores s))
      ([None, ?n, ?n, None, ?n] @ replicate 5 None) = Some ([None, Some r1, ?n, None, ?n] @ replicate 5 None)"
    "ranking_ok Int32_node r1" "ranking_map r1 = stage_entries (rs_StageTotalScores s)"
    by (auto simp: stage_entries_def [abs_def])
  from preload_int32_new [of 2 "[None, Some r1, ?n, None, ?n] @ replicate 5 None" 100000 d "rs_Charms s" 0 ch_CharmValue ch_UpdateTime]
    assms obtain r2 where
    r2: "preload_rows Int32_node d 2 0 (map (\<lambda>(k, row). int32_item (ch_CharmValue row) (ch_UpdateTime row) k) (rs_Charms s))
      ([None, Some r1, ?n, None, ?n] @ replicate 5 None) = Some ([None, Some r1, Some r2, None, ?n] @ replicate 5 None)"
    "ranking_ok Int32_node r2" "ranking_map r2 = charm_entries (rs_Charms s)"
    by (auto simp: charm_entries_def [abs_def] numeral_2_eq_2)
  let ?cats = "concat (map (\<lambda>(pid, cats). map (\<lambda>(cid, c). ouqi_item_of pid cid (co_Ouqi c) (co_UpdateTime c)) cats) (rs_CatOuqis s))"
  from preload_ouqi [of 3 "[None, None, None, ?c, None] @ replicate 5 None" _ d 0 ?cats] assms(1) ranking_ok_New obtain r3 where
    r3: "preload_rows Ouqi_node d 3 0 ?cats ([None, None, None, ?c, None] @ replicate 5 None)
      = Some ([None, None, None, Some r3, None] @ replicate 5 None)" "ranking_ok Ouqi_node r3"
    by (auto simp: numeral_3_eq_3)
  from preload_int32_new [of 4 "[None, Some r1, Some r2, None, ?n] @ replicate 5 None" 100000 d "rs_BeZaneds s" 0 bz_Zaned bz_UpdateTime]
    assms obtain r4 where
    r4: "preload_rows Int32_node d 4 0 (map (\<lambda>(k, row). int32_item (bz_Zaned row) (bz_UpdateTime row) k) (rs_BeZaneds s))
      ([None, Some r1, Some r2, None, ?n] @ replicate 5 None) = Some ([None, Some r1, Some r2, None, Some r4] @ replicate 5 None)"
    "ranking_ok Int32_node r4" by (auto simp: eval_nat_numeral)
  let ?s = "s\<lparr>rs_int32 := [None, Some r1, Some r2, None, Some r4] @ replicate 5 None,
    rs_ouqi := [None, None, None, Some r3, None] @ replicate 5 None,
    rs_name2id := fold (\<lambda>(pid, row) m. snd (PlayerMgr_Add (bi_Name row) pid m)) (rs_BaseInfos s) (rs_name2id s)\<rparr>"
  have "on_preload d s = Some ?s"
    unfolding on_preload_def init by (simp only: Let_def prod.case r1(1) r2(1) r3(1) r4(1) bind.bind_lunit)
  moreover have "server_ok ?s" using r1(2) r2(2) r3(2) r4(2) by (auto simp: server_ok_def)
  moreover have "ranks_saved ?s"
    using r1(3) r2(3) assms(2-4) by (auto simp: ranks_saved_def GetRankList_def go_nth_def numeral_2_eq_2)
  ultimately show ?thesis by (intro exI [of _ ?s]) simp
qed

lemma saved_lists:
  assumes "server_ok s" "ranks_saved s"
  obtains r1 r2 where "1 < length (rs_int32 s)" "rs_int32 s ! 1 = Some r1" "ranking_ok Int32_node r1"
    "ranking_map r1 = stage_entries (rs_StageTotalScores s)"
    "2 < length (rs_int32 s)" "rs_int32 s ! 2 = Some r2" "ranking_ok Int32_node r2"
    "ranking_map r2 = charm_entries (rs_Charms s)"
proof -
  from server_okE [OF assms(1)] obtain r1 r2 r3 r4 where
    r: "rs_int32 s = [None, Some r1, Some r2, None, Some r4] @ replicate 5 None"
    "ranking_ok Int32_node r1" "ranking_ok Int32_node r2" .
  with assms(2) have "ranking_map r1 = stage_entries (rs_StageTotalScores s)"
    "ranking_map r2 = charm_entries (rs_Charms s)"
    by (auto simp: ranks_saved_def GetRankList_def go_nth_def numeral_2_eq_2)
  with r show thesis by (intro that [of r1 r2]) (simp_all add: numeral_2_eq_2)
qed

text \<open>
  Property C18. A restart restores the ranks. Whenever the score and charm lists hold what the tables say,
  loading the lists from the tables gives a well-formed server in which every player has in both lists the
  rank he had before, whatever heights are drawn in the new lists.
\<close>

theorem restart_restores_ranks:
  assumes "server_ok s" "ranks_saved s" "\<forall>i. draw_ok (d i)"
  shows "\<exists>s'. on_preload d s = Some s' \<and> server_ok s' \<and> ranks_saved s'
    \<and> (\<forall>k. Manager_GetRankByKey Int32_node RANK_LIST_TYPE_STAGE_TOTAL_SCORE k (rs_int32 s')
          = Manager_GetRankByKey Int32_node RANK_LIST_TYPE_STAGE_TOTAL_SCORE k (rs_int32 s)
        \<and> Manager_GetRankByKey Int32_node RANK_LIST_TYPE_CHARM k (rs_int32 s')
          = Manager_GetRankByKey Int32_node RANK_LIST_TYPE_CHARM k (rs_int32 s))"
proof -
  have "col_wf (rs_StageTotalScores s)" "col_wf (rs_Charms s)" "col_wf (rs_BeZaneds s)"
    using assms(2) by (simp_all add: ranks_saved_def)
  from on_preload_ok [OF assms(3) this] obtain s' where
    s': "on_preload d s = Some s'" "server_ok s'" "ranks_saved s'"
    "rs_StageTotalScores s' = rs_StageTotalScores s" "rs_Charms s' = rs_Charms s"
    by blast
  obtain r1 r2 where r: "1 < length (rs_int32 s)" "rs_int32 s ! 1 = Some r1" "ranking_ok Int32_node r1"
    "ranking_map r1 = stage_entries (rs_StageTotalScores s)"
    "2 < length (rs_int32 s)" "rs_int32 s ! 2 = Some r2" "ranking_ok Int32_node r2"
    "ranking_map r2 = charm_entries (rs_Charms s)" by (rule saved_lists [OF assms(1,2)])
  obtain q1 q2 where q: "1 < length (rs_int32 s')" "rs_int32 s' ! 1 = Some q1" "ranking_ok Int32_node q1"
    "ranking_map q1 = stage_entries (rs_StageTotalScores s')"
    "2 < length (rs_int32 s')" "rs_int32 s' ! 2 = Some q2" "ranking_ok Int32_node q2"
    "ranking_map q2 = charm_entries (rs_Charms s')" by (rule saved_lists [OF s'(2,3)])
  have "Manager_GetRankByKey Int32_node 1 k (rs_int32 s') = Manager_GetRankByKey Int32_node 1 k (rs_int32 s)"
    "Manager_GetRankByKey Int32_node 2 k (rs_int32 s') = Manager_GetRankByKey Int32_node 2 k (rs_int32 s)" for k
    using Manager_GetRankByKey_int32 [OF r(1-3), of k] Manager_GetRankByKey_int32 [OF r(5-7), of k]
      Manager_GetRankByKey_int32 [OF q(1-3), of k] Manager_GetRankByKey_int32 [OF q(5-7), of k]
    unfolding r(4,8) q(4,8) s'(4,5) by simp_all
  with s'(1-3) show ?thesis by blast
qed

subsection \<open>Every update keeps the tables and the lists together\<close>

lemma server_ok_lists:
  assumes "server_ok s"
  shows "\<exists>r. rs_int32 s ! 1 = Some r \<and> ranking_ok Int32_node r" "\<exists>r. rs_int32 s ! 2 = Some r \<and> ranking_ok Int32_node r"
    "\<exists>r. rs_int32 s ! 4 = Some r \<and> ranking_ok Int32_node r" "\<exists>r. rs_ouqi s ! 3 = Some r \<and> ranking_ok Ouqi_node r"
    "length (rs_int32 s) = 10" "length (rs_ouqi s) = 10"
  using assms by (auto simp: server_ok_def eval_nat_numeral)

lemma server_ok_put:
  assumes "server_ok s" "ranking_ok Int32_node r"
  shows "n \<in> {1, 2, 4} \<Longrightarrow> server_ok (s\<lparr>rs_int32 := (rs_int32 s)[n := Some r]\<rparr>)"
  using assms by (auto simp: server_ok_def eval_nat_numeral)

lemma server_ok_put_ouqi:
  assumes "server_ok s" "ranking_ok Ouqi_node r"
  shows "server_ok (s\<lparr>rs_ouqi := (rs_ouqi s)[3 := Some r]\<rparr>)"
  using assms by (auto simp: server_ok_def eval_nat_numeral)

lemma server_ok_tables: "server_ok s' \<longleftrightarrow> server_ok s" if "rs_int32 s' = rs_int32 s" "rs_ouqi s' = rs_ouqi s"
  using that by (simp add: server_ok_def)

lemma ranks_saved_iff:
  assumes "server_ok s" "rs_int32 s ! 1 = Some r1" "rs_int32 s ! 2 = Some r2"
  shows "ranks_saved s \<longleftrightarrow> col_wf (rs_StageTotalScores s) \<and> col_wf (rs_Charms s) \<and> col_wf (rs_BeZaneds s)
    \<and> ranking_map r1 = stage_entries (rs_StageTotalScores s) \<and> ranking_map r2 = charm_entries (rs_Charms s)"
  using server_ok_lists(5) [OF assms(1)] assms(2,3) by (auto simp: ranks_saved_def GetRankList_def go_nth_def)

text \<open>An update of one of the three lists of numbers, and the rank the handler reads after it.\<close>

lemma int32_step:
  assumes "server_ok s" "draw_ok d" "n \<in> {1, 2, 4}"
  obtains r r' q where "rs_int32 s ! n = Some r"
    "Manager_UpdateItem Int32_node d (int n) (int32_item v t k) (rs_int32 s) = Some (True, (rs_int32 s)[n := Some r'])"
    "ranking_ok Int32_node r'" "ranking_map r' = (ranking_map r)(k \<mapsto> int32_item v t k)"
    "Manager_GetRankByKey Int32_node (int n) k ((rs_int32 s)[n := Some r']) = Some q" "1 \<le> q"
proof -
  have n: "n < length (rs_int32 s)" using server_ok_lists(5) [OF assms(1)] assms(3) by auto
  from server_ok_lists(1-3) [OF assms(1)] assms(3) obtain r where r: "rs_int32 s ! n = Some r" "ranking_ok Int32_node r"
    by blast
  from Manager_UpdateItem_int32 [OF n r assms(2), of v t k] obtain r' where r':
    "Manager_UpdateItem Int32_node d (int n) (int32_item v t k) (rs_int32 s) = Some (True, (rs_int32 s)[n := Some r'])"
    "ranking_ok Int32_node r'" "ranking_map r' = (ranking_map r)(k \<mapsto> int32_item v t k)" by blast
  have "\<exists>q. Manager_GetRankByKey Int32_node (int n) k ((rs_int32 s)[n := Some r']) = Some q \<and> 1 \<le> q"
    using Manager_GetRankByKey_int32 [of n "(rs_int32 s)[n := Some r']" r' k] n r'(2)
    unfolding r'(3) by simp
  with r(1) r' show thesis using that by blast
qed

lemma set_stage_score_returns: "\<exists>st. set_stage_score ps stages = Some st"
  by (auto simp: set_stage_score_def go_nth_def)

lemma stage_update:
  assumes "server_ok s" "draw_ok d" "up_RankParam args = v # ps"
  obtains r r' row where
    "stage_total_score_update d args t s = Some (s\<lparr>rs_int32 := (rs_int32 s)[1 := Some r'],
       rs_StageTotalScores := put_row (up_PlayerId args) row (rs_StageTotalScores s)\<rparr>)"
    "rs_int32 s ! 1 = Some r" "ranking_ok Int32_node r'"
    "ranking_map r' = (ranking_map r)(up_PlayerId args \<mapsto> int32_item v t (up_PlayerId args))"
    "sts_Score row = v" "sts_UpdateTime row = t"
    "sts_TopRank (row_or_new (rs_StageTotalScores s) (up_PlayerId args) new_StageTotalScoreRow) \<le> 1 \<Longrightarrow>
      sts_TopRank row = sts_TopRank (row_or_new (rs_StageTotalScores s) (up_PlayerId args) new_StageTotalScoreRow)"
proof -
  let ?old = "row_or_new (rs_StageTotalScores s) (up_PlayerId args) new_StageTotalScoreRow"
  from int32_step [OF assms(1,2), of 1 v t "up_PlayerId args"] obtain r r' q where r: "rs_int32 s ! 1 = Some r"
    "Manager_UpdateItem Int32_node d 1 (int32_item v t (up_PlayerId args)) (rs_int32 s) = Some (True, (rs_int32 s)[1 := Some r'])"
    "ranking_ok Int32_node r'" "ranking_map r' = (ranking_map r)(up_PlayerId args \<mapsto> int32_item v t (up_PlayerId args))"
    "Manager_GetRankByKey Int32_node 1 (up_PlayerId args) ((rs_int32 s)[1 := Some r']) = Some q" "1 \<le> q"
    by auto
  define row where "row = (let row = ?old\<lparr>sts_Score := v, sts_UpdateTime := t\<rparr>
    in if q < sts_TopRank row then row\<lparr>sts_TopRank := q, sts_TopScore := v\<rparr> else row)"
  obtain st where st: "set_stage_score (v # ps) (sts_Stages row) = Some st" using set_stage_score_returns by blast
  have "stage_total_score_update d args t s = Some (s\<lparr>rs_int32 := (rs_int32 s)[1 := Some r'],
       rs_StageTotalScores := put_row (up_PlayerId args) (row\<lparr>sts_Stages := st\<rparr>) (rs_StageTotalScores s)\<rparr>)"
    using r(2,5) st unfolding stage_total_score_update_def assms(3)
    by (simp add: go_nth_def row_def Let_def)
  with r(1,3,4,6) show thesis
    by (intro that [where r = r and r' = r' and row = "row\<lparr>sts_Stages := st\<rparr>"]) (auto simp: row_def Let_def)
qed

lemma charm_update_step:
  assumes "server_ok s" "draw_ok d" "up_RankParam args = v # ps"
  obtains r r' row where
    "charm_update d args t s = Some (s\<lparr>rs_int32 := (rs_int32 s)[2 := Some r'],
       rs_Charms := put_row (up_PlayerId args) row (rs_Charms s)\<rparr>)"
    "rs_int32 s ! 2 = Some r" "ranking_ok Int32_node r'"
    "ranking_map r' = (ranking_map r)(up_PlayerId args \<mapsto> int32_item v t (up_PlayerId args))"
    "ch_CharmValue row = v" "ch_UpdateTime row = t"
    "ch_TopRank (row_or_new (rs_Charms s) (up_PlayerId args) new_CharmRow) \<le> 1 \<Longrightarrow>
      ch_TopRank row = ch_TopRank (row_or_new (rs_Charms s) (up_PlayerId args) new_CharmRow)"
proof -
  let ?old = "row_or_new (rs_Charms s) (up_PlayerId args) new_CharmRow"
  from int32_step [OF assms(1,2), of 2 v t "up_PlayerId args"] obtain r r' q where r: "rs_int32 s ! 2 = Some r"
    "Manager_UpdateItem Int32_node d 2 (int32_item v t (up_PlayerId args)) (rs_int32 s) = Some (True, (rs_int32 s)[2 := Some r'])"
    "ranking_ok Int32_node r'" "ranking_map r' = (ranking_map r)(up_PlayerId args \<mapsto> int32_item v t (up_PlayerId args))"
    "Manager_GetRankByKey Int32_node 2 (up_PlayerId args) ((rs_int32 s)[2 := Some r']) = Some q" "1 \<le> q"
    by auto
  define row where "row = (let row = ?old\<lparr>ch_CharmValue := v, ch_UpdateTime := t\<rparr>
    in if q < ch_TopRank row then row\<lparr>ch_TopRank := q, ch_TopCharm := v\<rparr> else row)"
  have "charm_update d args t s = Some (s\<lparr>rs_int32 := (rs_int32 s)[2 := Some r'],
       rs_Charms := put_row (up_PlayerId args) row (rs_Charms s)\<rparr>)"
    using r(2,5) unfolding charm_update_def assms(3) by (simp add: go_nth_def row_def Let_def)
  with r(1,3,4,6) show thesis by (intro that [where r = r and r' = r' and row = row]) (auto simp: row_def Let_def)
qed

lemma be_zaned_step:
  assumes "server_ok s" "draw_ok d" "up_RankParam args = k # ps"
  obtains r' row where
    "be_zaned_update d args t s = Some (s\<lparr>rs_int32 := (rs_int32 s)[4 := Some r'],
       rs_BeZaneds := put_row k row (rs_BeZaneds s)\<rparr>)"
    "ranking_ok Int32_node r'"
    "bz_TopRank (row_or_new (rs_BeZaneds s) k new_BeZanedRow) \<le> 1 \<Longrightarrow>
      bz_TopRank row = bz_TopRank (row_or_new (rs_BeZaneds s) k new_BeZanedRow)"
proof -
  let ?old = "row_or_new (rs_BeZaneds s) k new_BeZanedRow"
  define v where "v = (if length (up_RankParam args) \<ge> 2 then hd ps else 0)"
  have zan: "(if length (up_RankParam args) \<ge> 2 then go_nth (up_RankParam args) 1 else Some 0) = Some v"
    using assms(3) by (cases ps) (auto simp: v_def go_nth_def)
  from int32_step [OF assms(1,2), of 4 v t k] obtain r r' q where "rs_int32 s ! 4 = Some r" and r:
    "Manager_UpdateItem Int32_node d 4 (int32_item v t k) (rs_int32 s) = Some (True, (rs_int32 s)[4 := Some r'])"
    "ranking_ok Int32_node r'" and "ranking_map r' = (ranking_map r)(k \<mapsto> int32_item v t k)" and q:
    "Manager_GetRankByKey Int32_node 4 k ((rs_int32 s)[4 := Some r']) = Some q" "1 \<le> q"
    by auto
  define row where "row = (let row = ?old\<lparr>bz_Zaned := v\<rparr>
    in if q < bz_TopRank row then row\<lparr>bz_TopRank := q, bz_TopZaned := v\<rparr> else row)"
  have "be_zaned_update d args t s = Some (s\<lparr>rs_int32 := (rs_int32 s)[4 := Some r'],
       rs_BeZaneds := put_row k row (rs_BeZaneds s)\<rparr>)"
    unfolding be_zaned_update_def zan using r(1) q(1) unfolding assms(3)
    by (simp add: go_nth_def row_def Let_def)
  with r(2) q(2) show thesis by (intro that [where r' = r' and row = row]) (auto simp: row_def Let_def)
qed

lemma GetRank_weak:
  assumes "ranking_ok Ouqi_node r"
  shows "\<exists>q. Ranking_GetRank Ouqi_node k r = Some q"
proof -
  from ranking_refsE [OF assms] obtain refs where "is_list (ref_Greater Ouqi_node r) (cr_ranking_items r) refs" .
  from GetRank_returns [OF ref_order [OF Ouqi_weak(1)] this] show ?thesis
    by (simp add: Ranking_GetRank_def split: option.splits)
qed

lemma cat_update_step:
  assumes "server_ok s" "draw_ok d" "up_RankParam args = cat_id # ouqi # ps" "0 < ouqi"
  obtains r' cats where
    "cat_ouqi_update d args t s = Some (s\<lparr>rs_ouqi := (rs_ouqi s)[3 := Some r'],
       rs_CatOuqis := put_row (up_PlayerId args) cats (rs_CatOuqis s)\<rparr>)"
    "ranking_ok Ouqi_node r'"
proof -
  from server_ok_lists(4,6) [OF assms(1)] obtain r where r: "rs_ouqi s ! 3 = Some r" "ranking_ok Ouqi_node r"
    "3 < length (rs_ouqi s)" by auto
  let ?x = "ouqi_item_of (up_PlayerId args) cat_id ouqi t"
    and ?key = "Ouqi_GetKey (ouqi_item_of (up_PlayerId args) cat_id 0 0)"
  from Manager_UpdateItem_ouqi [OF r(3,1,2) assms(2), of ?x] obtain ok r' where r':
    "Manager_UpdateItem Ouqi_node d 3 ?x (rs_ouqi s) = Some (ok, (rs_ouqi s)[3 := Some r'])" "ranking_ok Ouqi_node r'"
    by auto
  from GetRank_weak [OF r'(2)] r(3) obtain q where
    "Manager_GetRankByKey Ouqi_node 3 ?key ((rs_ouqi s)[3 := Some r']) = Some q"
    by (auto simp: Manager_GetRankByKey_def GetRankList_def go_nth_def)
  with r'(1) assms(4) have "\<exists>cats. cat_ouqi_update d args t s = Some (s\<lparr>rs_ouqi := (rs_ouqi s)[3 := Some r'],
       rs_CatOuqis := put_row (up_PlayerId args) cats (rs_CatOuqis s)\<rparr>)"
    unfolding cat_ouqi_update_def assms(3) by (simp add: go_nth_def Let_def) blast
  with r'(2) show thesis using that by blast
qed

lemma stage_entries_put:
  "stage_entries (put_row k row t) = (stage_entries t)(k \<mapsto> int32_item (sts_Score row) (sts_UpdateTime row) k)"
  by (simp add: fun_eq_iff stage_entries_def col_simps)

lemma charm_entries_put:
  "charm_entries (put_row k row t) = (charm_entries t)(k \<mapsto> int32_item (ch_CharmValue row) (ch_UpdateTime row) k)"
  by (simp add: fun_eq_iff charm_entries_def col_simps)

text \<open>The requests the server can answer: a known type or any other, with the parameters it reads.\<close>

definition update_ok :: "RankListDataUpdate \<Rightarrow> bool" where
  "update_ok args \<longleftrightarrow> up_RankParam args \<noteq> []
     \<and> (up_RankType args = RANK_LIST_TYPE_CAT_OUQI \<longrightarrow> 2 \<le> length (up_RankParam args) \<and> 0 < up_RankParam args ! 1)"

lemma put_list_saved:
  assumes "server_ok s" "ranks_saved s" "n = 4 \<or> n = 1 \<and> ranking_map r' = stage_entries t1 \<or> n = 2 \<and> ranking_map r' = charm_entries t2"
    and "n \<noteq> 1 \<Longrightarrow> t1 = rs_StageTotalScores s" "n \<noteq> 2 \<Longrightarrow> t2 = rs_Charms s" "col_wf t1" "col_wf t2" "col_wf t4"
    and "s' = s\<lparr>rs_int32 := (rs_int32 s)[n := Some r'], rs_StageTotalScores := t1, rs_Charms := t2, rs_BeZaneds := t4\<rparr>"
  shows "ranks_saved s'"
  using assms(3) unfolding assms(9)
proof (elim disjE conjE)
  assume "n = 4"
  with assms show "ranks_saved (s\<lparr>rs_int32 := (rs_int32 s)[n := Some r'], rs_StageTotalScores := t1, rs_Charms := t2, rs_BeZaneds := t4\<rparr>)"
    by (auto simp: ranks_saved_def GetRankList_def go_nth_def split: if_splits)
next
  assume n: "n = 1" "ranking_map r' = stage_entries t1"
  then show "ranks_saved (s\<lparr>rs_int32 := (rs_int32 s)[n := Some r'], rs_StageTotalScores := t1, rs_Charms := t2, rs_BeZaneds := t4\<rparr>)"
    using assms(2,4-8) server_ok_lists(5) [OF assms(1)]
    by (auto simp: ranks_saved_def GetRankList_def go_nth_def split: if_splits)
next
  assume n: "n = 2" "ranking_map r' = charm_entries t2"
  then show "ranks_saved (s\<lparr>rs_int32 := (rs_int32 s)[n := Some r'], rs_StageTotalScores := t1, rs_Charms := t2, rs_BeZaneds := t4\<rparr>)"
    using assms(2,4-8) server_ok_lists(5) [OF assms(1)]
    by (auto simp: ranks_saved_def GetRankList_def go_nth_def split: if_splits)
qed

text \<open>
  Property C17. Lists and tables stay together. Every update the server can answer succeeds, keeps all four
  lists well formed, and keeps the score and the charm list holding exactly what the tables of scores and
  charms say, so that at any time a restart would restore the ranks.
\<close>

theorem UpdateData_keeps_saved:
  assumes "server_ok s" "ranks_saved s" "draw_ok d" "update_ok args"
  shows "\<exists>s'. UpdateData unix d args s = Some s' \<and> server_ok s' \<and> ranks_saved s'"
proof -
  obtain v ps where ps: "up_RankParam args = v # ps" using assms(4) by (cases "up_RankParam args") (auto simp: update_ok_def)
  have wf: "col_wf (rs_StageTotalScores s)" "col_wf (rs_Charms s)" "col_wf (rs_BeZaneds s)"
    using assms(2) by (simp_all add: ranks_saved_def)
  let ?k = "up_PlayerId args" and ?t = "i32 unix"
  consider "up_RankType args = 1" | "up_RankType args = 2" | "up_RankType args = 3" | "up_RankType args = 4"
    | "up_RankType args \<notin> {1, 2, 3, 4}" by auto
  then show ?thesis
  proof cases
    case 1
    obtain r r' row where u: "stage_total_score_update d args ?t s = Some (s\<lparr>rs_int32 := (rs_int32 s)[1 := Some r'],
        rs_StageTotalScores := put_row ?k row (rs_StageTotalScores s)\<rparr>)"
      "rs_int32 s ! 1 = Some r" "ranking_ok Int32_node r'" "ranking_map r' = (ranking_map r)(?k \<mapsto> int32_item v ?t ?k)"
      "sts_Score row = v" "sts_UpdateTime row = ?t" by (rule stage_update [OF assms(1,3) ps, of ?t])
    have "ranking_map r = stage_entries (rs_StageTotalScores s)"
      using assms(2) u(2) server_ok_lists(5) [OF assms(1)] by (auto simp: ranks_saved_def GetRankList_def go_nth_def)
    then have "ranking_map r' = stage_entries (put_row ?k row (rs_StageTotalScores s))"
      using u(4-6) by (simp add: stage_entries_put)
    then have "ranks_saved (s\<lparr>rs_int32 := (rs_int32 s)[1 := Some r'],
        rs_StageTotalScores := put_row ?k row (rs_StageTotalScores s)\<rparr>)"
      by (intro put_list_saved [OF assms(1,2), of 1 r' _ "rs_Charms s" "rs_BeZaneds s"]) (simp_all add: wf)
    moreover have "server_ok (s\<lparr>rs_int32 := (rs_int32 s)[1 := Some r'], rs_StageTotalScores := put_row ?k row (rs_StageTotalScores s)\<rparr>)"
      using server_ok_put [OF assms(1) u(3), of 1] by (simp add: server_ok_def)
    ultimately show ?thesis using u(1) 1 by (simp add: UpdateData_def Let_def)
  next
    case 2
    obtain r r' row where u: "charm_update d args ?t s = Some (s\<lparr>rs_int32 := (rs_int32 s)[2 := Some r'],
        rs_Charms := put_row ?k row (rs_Charms s)\<rparr>)"
      "rs_int32 s ! 2 = Some r" "ranking_ok Int32_node r'" "ranking_map r' = (ranking_map r)(?k \<mapsto> int32_item v ?t ?k)"
      "ch_CharmValue row = v" "ch_UpdateTime row = ?t" by (rule charm_update_step [OF assms(1,3) ps, of ?t])
    have "ranking_map r = charm_entries (rs_Charms s)"
      using assms(2) u(2) server_ok_lists(5) [OF assms(1)] by (auto simp: ranks_saved_def GetRankList_def go_nth_def)
    then have "ranking_map r' = charm_entries (put_row ?k row (rs_Charms s))"
      using u(4-6) by (simp add: charm_entries_put)
    then have "ranks_saved (s\<lparr>rs_int32 := (rs_int32 s)[2 := Some r'], rs_Charms := put_row ?k row (rs_Charms s)\<rparr>)"
      by (intro put_list_saved [OF assms(1,2), of 2 r' "rs_StageTotalScores s" _ "rs_BeZaneds s"]) (simp_all add: wf)
    moreover have "server_ok (s\<lparr>rs_int32 := (rs_int32 s)[2 := Some r'], rs_Charms := put_row ?k row (rs_Charms s)\<rparr>)"
      using server_ok_put [OF assms(1) u(3), of 2] by (simp add: server_ok_def)
    ultimately show ?thesis using u(1) 2 by (simp add: UpdateData_def Let_def)
  next
    case 3
    with assms(4) ps obtain q qs where q: "up_RankParam args = v # q # qs" "0 < q"
      by (cases ps) (auto simp: update_ok_def)
    obtain r' cats where u: "cat_ouqi_update d args ?t s = Some (s\<lparr>rs_ouqi := (rs_ouqi s)[3 := Some r'],
        rs_CatOuqis := put_row ?k cats (rs_CatOuqis s)\<rparr>)" "ranking_ok Ouqi_node r'"
      by (rule cat_update_step [OF assms(1,3) q, of ?t])
    have "server_ok (s\<lparr>rs_ouqi := (rs_ouqi s)[3 := Some r'], rs_CatOuqis := put_row ?k cats (rs_CatOuqis s)\<rparr>)"
      using server_ok_put_ouqi [OF assms(1) u(2)] by (simp add: server_ok_def)
    with u(1) 3 assms(2) show ?thesis by (simp add: UpdateData_def Let_def ranks_saved_def)
  next
    case 4
    obtain r' row where u: "be_zaned_update d args ?t s = Some (s\<lparr>rs_int32 := (rs_int32 s)[4 := Some r'],
        rs_BeZaneds := put_row v row (rs_BeZaneds s)\<rparr>)" "ranking_ok Int32_node r'"
      by (rule be_zaned_step [OF assms(1,3) ps, of ?t])
    have "ranks_saved (s\<lparr>rs_int32 := (rs_int32 s)[4 := Some r'], rs_BeZaneds := put_row v row (rs_BeZaneds s)\<rparr>)"
      by (intro put_list_saved [OF assms(1,2), of 4 r' "rs_StageTotalScores s" "rs_Charms s"]) (simp_all add: wf)
    moreover have "server_ok (s\<lparr>rs_int32 := (rs_int32 s)[4 := Some r'], rs_BeZaneds := put_row v row (rs_BeZaneds s)\<rparr>)"
      using server_ok_put [OF assms(1) u(2), of 4] by (simp add: server_ok_def)
    ultimately show ?thesis using u(1) 4 by (simp add: UpdateData_def Let_def)
  qed (use assms(1,2) in \<open>simp add: UpdateData_def\<close>)
qed

subsection \<open>A best rank that is never recorded\<close>

definition no_top_ranks :: "RankState \<Rightarrow> bool" where
  "no_top_ranks s \<longleftrightarrow> (\<forall>k row. map_of (rs_StageTotalScores s) k = Some row \<longrightarrow> sts_TopRank row = 0)
     \<and> (\<forall>k row. map_of (rs_Charms s) k = Some row \<longrightarrow> ch_TopRank row = 0)
     \<and> (\<forall>k row. map_of (rs_BeZaneds s) k = Some row \<longrightarrow> bz_TopRank row = 0)"

lemma no_top_old:
  assumes "no_top_ranks s"
  shows "sts_TopRank (row_or_new (rs_StageTotalScores s) k new_StageTotalScoreRow) = 0"
    "ch_TopRank (row_or_new (rs_Charms s) k new_CharmRow) = 0"
    "bz_TopRank (row_or_new (rs_BeZaneds s) k new_BeZanedRow) = 0"
  using assms by (auto simp: no_top_ranks_def row_or_new_def col_simps new_StageTotalScoreRow_def
      new_CharmRow_def new_BeZanedRow_def split: option.splits)

text \<open>
  The best rank of a player is never recorded. A row starts with the best rank 0, the handlers
  replace it only by a smaller rank and every rank is at least 1: while no row has a best rank, no update
  of scores, charm or likes gives it one, and the reply to a rank query shows 0.
\<close>

theorem top_rank_never_set:
  assumes "server_ok s" "draw_ok d" "no_top_ranks s" "up_RankType args \<noteq> RANK_LIST_TYPE_CAT_OUQI" "up_RankParam args \<noteq> []"
  shows "\<exists>s'. UpdateData unix d args s = Some s' \<and> no_top_ranks s'
    \<and> (\<forall>q. gd_RankType q \<noteq> RANK_LIST_TYPE_CAT_OUQI \<longrightarrow> self_history_top q s' = 0)"
proof -
  obtain v ps where ps: "up_RankParam args = v # ps" using assms(5) by (cases "up_RankParam args") auto
  note old = no_top_old [OF assms(3)]
  let ?t = "i32 unix"
  have "\<exists>s'. UpdateData unix d args s = Some s' \<and> no_top_ranks s'"
  proof -
    consider "up_RankType args = 1" | "up_RankType args = 2" | "up_RankType args = 4"
      | "up_RankType args \<notin> {1, 2, 3, 4}" using assms(4) by auto
    then show ?thesis
    proof cases
      case 1
      show ?thesis
        by (rule stage_update [OF assms(1,2) ps, of ?t])
          (use 1 assms(3) old in \<open>auto simp: UpdateData_def Let_def no_top_ranks_def col_simps split: if_splits\<close>)
    next
      case 2
      show ?thesis
        by (rule charm_update_step [OF assms(1,2) ps, of ?t])
          (use 2 assms(3) old in \<open>auto simp: UpdateData_def Let_def no_top_ranks_def col_simps split: if_splits\<close>)
    next
      case 3
      show ?thesis
        by (rule be_zaned_step [OF assms(1,2) ps, of ?t])
          (use 3 assms(3) old in \<open>auto simp: UpdateData_def Let_def no_top_ranks_def col_simps split: if_splits\<close>)
    qed (use assms(3) in \<open>simp add: UpdateData_def\<close>)
  qed
  moreover have "self_history_top q s' = 0" if "no_top_ranks s'" "gd_RankType q \<noteq> 3" for q s'
    using that by (auto simp: self_history_top_def no_top_ranks_def Let_def col_simps split: option.splits)
  ultimately show ?thesis by blast
qed

definition demo_server :: RankState where
  "demo_server = \<lparr>rs_int32 = fst RankListManager_Init, rs_ouqi = snd RankListManager_Init, rs_StageTotalScores = [],
      rs_Charms = [], rs_CatOuqis = [], rs_BeZaneds = [], rs_BaseInfos = [], rs_name2id = None\<rparr>"

lemma demo_server_lists:
  "rs_int32 demo_server = [None, Some (NewCommonRankingList Int32_node 100000), Some (NewCommonRankingList Int32_node 100000),
     None, Some (NewCommonRankingList Int32_node 100000)] @ replicate 5 None"
  "rs_ouqi demo_server = [None, None, None, Some (NewCommonRankingList Ouqi_node 100000), None] @ replicate 5 None"
  by (simp_all add: demo_server_def RankListManager_Init_def Let_def RANK_LIST_TYPE_MAX_def)

lemma demo_server_ok: "server_ok demo_server"
  unfolding server_ok_def demo_server_lists
proof (intro exI conjI)
  let ?n = "NewCommonRankingList Int32_node 100000" and ?c = "NewCommonRankingList Ouqi_node 100000"
  show "[None, Some ?n, Some ?n, None, Some ?n] @ replicate 5 None = [None, Some ?n, Some ?n, None, Some ?n] @ replicate 5 None" ..
  show "[None, None, None, Some ?c, None] @ replicate 5 None = [None, None, None, Some ?c, None] @ replicate 5 None" ..
qed (rule ranking_ok_New)+

lemma demo_server_saved: "ranks_saved demo_server"
proof -
  have "stage_entries [] = (\<lambda>_. None)" "charm_entries [] = (\<lambda>_. None)"
    by (simp_all add: fun_eq_iff stage_entries_def charm_entries_def)
  then show ?thesis
    by (simp add: ranks_saved_def demo_server_lists GetRankList_def go_nth_def ranking_map_New)
       (simp add: demo_server_def ranking_map_New)
qed

lemma demo_draws: "draw_ok (None, [4, 9])" "draw_ok (None, [1])"
  by (simp_all add: draw_ok_def random_skiplist_layer_def)

lemma UpdateData_keeps_saved_witness:
  "\<exists>s. UpdateData 1000 (None, [4, 9]) \<lparr>up_RankType = 2, up_PlayerId = 5, up_RankParam = [70]\<rparr> demo_server = Some s
    \<and> ranks_saved s"
proof -
  have "update_ok \<lparr>up_RankType = 2, up_PlayerId = 5, up_RankParam = [70]\<rparr>" by (simp add: update_ok_def)
  from UpdateData_keeps_saved [OF demo_server_ok demo_server_saved demo_draws(1) this] show ?thesis by blast
qed

lemma restart_restores_ranks_witness:
  "\<exists>s s'. rs_Charms s = [(5, \<lparr>ch_CharmValue = 70, ch_UpdateTime = 9, ch_TopRank = 0, ch_TopCharm = 0\<rparr>)]
    \<and> on_preload (\<lambda>_. (None, [4, 9])) s = Some s'
    \<and> Manager_GetRankByKey Int32_node 2 5 (rs_int32 s') = Manager_GetRankByKey Int32_node 2 5 (rs_int32 s)"
proof -
  let ?s = "demo_server\<lparr>rs_Charms := [(5, \<lparr>ch_CharmValue = 70, ch_UpdateTime = 9, ch_TopRank = 0, ch_TopCharm = 0\<rparr>)]\<rparr>"
  have "col_wf (rs_StageTotalScores ?s)" "col_wf (rs_Charms ?s)" "col_wf (rs_BeZaneds ?s)"
    by (simp_all add: demo_server_def col_wf_def)
  moreover have "\<forall>i :: nat. draw_ok (None, [1])" "\<forall>i :: nat. draw_ok (None, [4, 9])" using demo_draws by blast+
  ultimately obtain s where s: "server_ok s" "ranks_saved s" "rs_Charms s = rs_Charms ?s"
    using on_preload_ok [of "\<lambda>_. (None, [1])" ?s] by blast
  from restart_restores_ranks [OF s(1,2), of "\<lambda>_. (None, [4, 9])"] demo_draws(1) obtain s' where
    "on_preload (\<lambda>_. (None, [4, 9])) s = Some s'"
    "Manager_GetRankByKey Int32_node 2 5 (rs_int32 s') = Manager_GetRankByKey Int32_node 2 5 (rs_int32 s)" by blast
  moreover have "rs_Charms s = [(5, \<lparr>ch_CharmValue = 70, ch_UpdateTime = 9, ch_TopRank = 0, ch_TopCharm = 0\<rparr>)]"
    using s(3) by simp
  ultimately show ?thesis by blast
qed

lemma top_rank_never_set_witness:
  "\<exists>s. UpdateData 1000 (None, [4, 9]) \<lparr>up_RankType = 2, up_PlayerId = 5, up_RankParam = [70]\<rparr> demo_server = Some s
    \<and> no_top_ranks s"
proof -
  have "no_top_ranks demo_server" by (simp add: no_top_ranks_def demo_server_def)
  from top_rank_never_set [OF demo_server_ok demo_draws(1) this,
      of "\<lparr>up_RankType = 2, up_PlayerId = 5, up_RankParam = [70]\<rparr>" 1000]
  show ?thesis by auto
qed

end
