(* ===== verification/Formula.thy ===== *)
theory Formula
  imports Items
begin

text \<open>
  \<open>game_server/player_formula.go\<close>: buildings made from formulas. The column
  \<open>MakingFormulaBuildings\<close> holds the slots, \<open>MakingBuildingQueue\<close> the slots in work in the order of
  their completion and \<open>MakedBuildingQueue\<close> the finished buildings the player has not collected.
  Nothing runs in the background: every query (\<open>get_formula_buildings\<close>) first moves forward what the
  elapsed time has completed. The abstract view is a time line of jobs, and a query is the advance
  of that time line.
\<close>

abbreviation (input) MAKING_BUILDING_DEFAULT_MAX_SLOT_ID :: int where "MAKING_BUILDING_DEFAULT_MAX_SLOT_ID \<equiv> 2"
abbreviation (input) MAKING_BUILDING_MAX_SLOT_ID :: int where "MAKING_BUILDING_MAX_SLOT_ID \<equiv> 4"
abbreviation (input) E_ERR_FORMULA_TABLE_DATA_NOT_FOUND :: int where "E_ERR_FORMULA_TABLE_DATA_NOT_FOUND \<equiv> -101200"
abbreviation (input) E_ERR_FORMULA_NOT_EXCHANGED :: int where "E_ERR_FORMULA_NOT_EXCHANGED \<equiv> -101201"
abbreviation (input) E_ERR_FORMULA_EXCHANGE_NEED_UNLOCK_CHAPTER :: int where
  "E_ERR_FORMULA_EXCHANGE_NEED_UNLOCK_CHAPTER \<equiv> -101202"
abbreviation (input) E_ERR_FORMULA_EXCHANGE_NOT_ENOUGH_STAR :: int where
  "E_ERR_FORMULA_EXCHANGE_NOT_ENOUGH_STAR \<equiv> -101203"
abbreviation (input) E_ERR_FORMULA_MAKING_NOT_ENOUGH_COIN :: int where
  "E_ERR_FORMULA_MAKING_NOT_ENOUGH_COIN \<equiv> -101204"
abbreviation (input) E_ERR_FORMULA_MAKING_NOT_ENOUGH_RESOURCE :: int where
  "E_ERR_FORMULA_MAKING_NOT_ENOUGH_RESOURCE \<equiv> -101205"
abbreviation (input) E_ERR_FORMULA_MAKING_SLOT_ID_INVALID :: int where
  "E_ERR_FORMULA_MAKING_SLOT_ID_INVALID \<equiv> -101206"
abbreviation (input) E_ERR_FORMULA_MAKING_SLOT_IS_USING :: int where "E_ERR_FORMULA_MAKING_SLOT_IS_USING \<equiv> -101207"
abbreviation (input) E_ERR_FORMULA_NOT_MAKING :: int where "E_ERR_FORMULA_NOT_MAKING \<equiv> -101209"
abbreviation (input) E_ERR_FORMULA_NO_MAKING_BUILDING :: int where "E_ERR_FORMULA_NO_MAKING_BUILDING \<equiv> -101211"
abbreviation (input) E_ERR_FORMULA_NO_SLOT_TO_MAKING :: int where "E_ERR_FORMULA_NO_SLOT_TO_MAKING \<equiv> -101213"
abbreviation (input) TASK_COMPLETE_TYPE_MAKING_FORMULA_NUM :: int where
  "TASK_COMPLETE_TYPE_MAKING_FORMULA_NUM \<equiv> 105"
abbreviation (input) TASK_COMPLETE_TYPE_MAKING_FORMULA_BUILDING_NUM :: int where
  "TASK_COMPLETE_TYPE_MAKING_FORMULA_BUILDING_NUM \<equiv> 204"

subsection \<open>Slots and queues\<close>

definition Making_Set :: "int \<Rightarrow> (making_data \<Rightarrow> making_data) \<Rightarrow> player \<Rightarrow> player" where
  "Making_Set k u p = p\<lparr>p_MakingFormulaBuildings := snd (col_set_field u k (p_MakingFormulaBuildings p))\<rparr>"

definition SetMakingBuildingQueue :: "int list \<Rightarrow> player \<Rightarrow> player" where
  "SetMakingBuildingQueue v p = p\<lparr>p_Info := p_Info p\<lparr>i_MakingBuildingQueue := v\<rparr>\<rparr>"

definition SetMakedBuildingQueue :: "int list \<Rightarrow> player \<Rightarrow> player" where
  "SetMakedBuildingQueue v p = p\<lparr>p_Info := p_Info p\<lparr>i_MakedBuildingQueue := v\<rparr>\<rparr>"

text \<open>An entry of the reply, \<open>MakingFormulaBuildingInfo\<close>: slot, formula and remaining seconds.\<close>

type_synonym making_info = "int \<times> int \<times> int"

definition make_formula_building_msg_data :: making_info where
  "make_formula_building_msg_data = (0, 0, 0)"

text \<open>\<open>slot_buildings[dn].SlotId = s\<close>, a panic when \<open>dn\<close> is out of range.\<close>

definition put_slot :: "making_info list \<Rightarrow> int \<Rightarrow> int \<Rightarrow> making_info list option" where
  "put_slot slots dn s = do { (_, fid, r) \<leftarrow> go_nth slots dn; Some (slots[nat dn := (s, fid, r)]) }"

text \<open>The slots without work are written from the end of the reply towards its front.\<close>

fun idle_loop :: "int list \<Rightarrow> int list \<Rightarrow> making_info list \<Rightarrow> int \<Rightarrow> (making_info list \<times> int) option" where
  "idle_loop making_list [] slots dn = Some (slots, dn)"
| "idle_loop making_list (k # ks) slots dn =
     (if k \<in> set making_list then idle_loop making_list ks slots dn
      else do { slots \<leftarrow> put_slot slots dn k; idle_loop making_list ks slots (dn - 1) })"

text \<open>The completed jobs: the loop over the queue from index \<open>n\<close>. It returns the index of the job still
  in work, its remaining seconds, the reply, and the finished buildings.\<close>

fun done_loop :: "env \<Rightarrow> int list \<Rightarrow> nat \<Rightarrow> int \<Rightarrow> making_info list \<Rightarrow> int \<Rightarrow> int list \<Rightarrow> player \<Rightarrow>
    ((nat \<times> int \<times> making_info list \<times> int list) \<times> player) option" where
  "done_loop e [] n used_time slots dn maked p = Some ((n, 0, slots, maked), p)"
| "done_loop e (k # ks) n used_time slots dn maked p =
     (case map_of (p_MakingFormulaBuildings p) k of
        None \<Rightarrow> done_loop e ks (Suc n) used_time slots dn maked p
      | Some d \<Rightarrow>
        if mk_FormulaId d \<le> 0 then Some ((n, 0, slots, maked), p)
        else (case formula_map e (mk_FormulaId d) of
            None \<Rightarrow> done_loop e ks (Suc n) used_time slots dn maked p
          | Some f \<Rightarrow>
            let used_time = (if n = 0 then i32 (i32 (now e) - mk_StartTime d) else used_time) in
            if used_time < fm_Time f then
              Some ((n, i32 (fm_Time f - used_time), slots, maked),
                Making_Set k (\<lambda>d. d\<lparr>mk_StartTime := i32 (i32 (now e) - used_time)\<rparr>) p)
            else do {
              let p = Making_Set k (\<lambda>d. d\<lparr>mk_FormulaId := 0\<rparr>) p;
              let p = Making_Set k (\<lambda>d. d\<lparr>mk_StartTime := 0\<rparr>) p;
              slots \<leftarrow> put_slot slots dn k;
              let p = TaskUpdate e TASK_COMPLETE_TYPE_MAKING_FORMULA_NUM False (fm_Rarity f) 1 p;
              let p = TaskUpdate e TASK_COMPLETE_TYPE_MAKING_FORMULA_BUILDING_NUM False (fm_Rarity f) 1 p;
              done_loop e ks (Suc n) (i32 (used_time - fm_Time f)) slots (dn - 1) (maked @ [fm_BuildID f]) p
            }))"

text \<open>The jobs still queued fill the front of the reply; \<open>j\<close> is the source's \<open>i - n\<close>.\<close>

fun fill_loop :: "env \<Rightarrow> int \<Rightarrow> int list \<Rightarrow> nat \<Rightarrow> making_info list \<Rightarrow> player \<Rightarrow> making_info list option" where
  "fill_loop e left_seconds [] j slots p = Some slots"
| "fill_loop e left_seconds (k # ks) j slots p =
     (case map_of (p_MakingFormulaBuildings p) k of
        None \<Rightarrow> fill_loop e left_seconds ks (Suc j) slots p
      | Some d \<Rightarrow>
        if mk_FormulaId d \<le> 0 then Some slots
        else (case formula_map e (mk_FormulaId d) of
            None \<Rightarrow> fill_loop e left_seconds ks (Suc j) slots p
          | Some f \<Rightarrow> do {
              _ \<leftarrow> go_nth slots (int j);
              fill_loop e left_seconds ks (Suc j)
                (slots[j := (k, mk_FormulaId d, (if j = 0 then left_seconds else i32 (fm_Time f * 60)))]) p
            }))"

definition init_slots :: "player \<Rightarrow> player" where
  "init_slots p =
     (if col_GetAllIndex (p_MakingFormulaBuildings p) = [] then
        SetMakingBuildingQueue []
          (p\<lparr>p_MakingFormulaBuildings :=
              fold (\<lambda>s m. snd (col_Add s \<lparr>mk_FormulaId = 0, mk_StartTime = 0\<rparr> m))
                [1 .. MAKING_BUILDING_DEFAULT_MAX_SLOT_ID] (p_MakingFormulaBuildings p)\<rparr>)
      else p)"

definition get_formula_buildings :: "env \<Rightarrow> player \<Rightarrow> ((making_info list \<times> int list) \<times> player) option" where
  "get_formula_buildings e p = do {
     let p = init_slots p;
     let formula_buildings = col_GetAllIndex (p_MakingFormulaBuildings p);
     let slots = replicate (length formula_buildings) make_formula_building_msg_data;
     let maked = i_MakedBuildingQueue (p_Info p);
     let making_list = i_MakingBuildingQueue (p_Info p);
     (slots, dn) \<leftarrow> idle_loop making_list formula_buildings slots (int (length slots) - 1);
     (slots, maked, p) \<leftarrow>
       (if making_list = [] then Some (slots, maked, p)
        else do {
          ((n, left_seconds, slots, maked), p) \<leftarrow> done_loop e making_list 0 0 slots dn maked p;
          slots \<leftarrow> fill_loop e left_seconds (drop n making_list) 0 slots p;
          Some (slots, maked, SetMakingBuildingQueue (drop n making_list) p)
        });
     Some ((slots, maked), SetMakedBuildingQueue maked p)
   }"

definition pull_formula_building :: "env \<Rightarrow> player \<Rightarrow> (int \<times> player) option" where
  "pull_formula_building e p = do {
     ((slots, maked), p) \<leftarrow> get_formula_buildings e p;
     Some (1, Send_msg (S2CGetMakingFormulaBuildingsResult slots maked) p)
   }"

subsection \<open>Formulas\<close>

definition exchange_formula :: "env \<Rightarrow> int \<Rightarrow> player \<Rightarrow> (int \<times> player) option" where
  "exchange_formula e formula_id p =
     (case formula_map e formula_id of
        None \<Rightarrow> Some (E_ERR_FORMULA_TABLE_DATA_NOT_FOUND, p)
      | Some f \<Rightarrow>
        if col_HasIndex (p_DepotBuildingFormulas p) formula_id then Some (0, p)
        else if fm_UnlockChapter f > i_MaxChapter (p_Info p)
          then Some (E_ERR_FORMULA_EXCHANGE_NEED_UNLOCK_CHAPTER, p)
        else if i_TotalStars (p_Info p) < fm_Star f then Some (E_ERR_FORMULA_EXCHANGE_NOT_ENOUGH_STAR, p)
        else do {
          let p = p\<lparr>p_DepotBuildingFormulas := snd (col_Add formula_id () (p_DepotBuildingFormulas p))\<rparr>;
          let p = snd (SubStar (fm_Star f) p);
          (_, p) \<leftarrow> AddExp e (fm_Exp f) p;
          let p = Send_msg (S2CExchangeBuildingFormulaResult formula_id) p;
          Some (1, if fm_Rarity f \<ge> 4 then push_new ANOUNCEMENT_TYPE_GET_FORMULA formula_id 0 0 p else p)
        })"

definition get_formulas :: "player \<Rightarrow> int \<times> player" where
  "get_formulas p = (1, Send_msg (S2CGetFormulasResult (col_GetAllIndex (p_DepotBuildingFormulas p))) p)"

subsection \<open>Making\<close>

fun find_empty_slot :: "making_data column \<Rightarrow> int list \<Rightarrow> int option" where
  "find_empty_slot m [] = None"
| "find_empty_slot m (k # ks) =
     (case col_Get m k of
        None \<Rightarrow> find_empty_slot m ks
      | Some d \<Rightarrow> if mk_FormulaId d = 0 then Some k else find_empty_slot m ks)"

fun chk_cost_items :: "(int \<times> int) list \<Rightarrow> player \<Rightarrow> bool" where
  "chk_cost_items [] p = True"
| "chk_cost_items ((item_id, need_num) # cs) p =
     (case GetItemNum p item_id of (num, ok) \<Rightarrow>
        if \<not> ok \<or> num < need_num then False else chk_cost_items cs p)"

fun remove_cost_items :: "env \<Rightarrow> (int \<times> int) list \<Rightarrow> player \<Rightarrow> player" where
  "remove_cost_items e [] p = p"
| "remove_cost_items e ((item_id, n) # cs) p = remove_cost_items e cs (snd (RemoveItem e item_id n True p))"

definition make_formula_building :: "env \<Rightarrow> int \<Rightarrow> player \<Rightarrow> (int \<times> player) option" where
  "make_formula_building e formula_id p = do {
     (action_num, p) \<leftarrow> GetItemResourceValue e ITEM_RESOURCE_ID_ACTION p;
     if action_num < 1 then Some (E_ERR_ITEM_ACTION_NOT_ENOUGH, p)
     else if col_GetAllIndex (p_MakingFormulaBuildings p) = [] then Some (-1, p)
     else (case find_empty_slot (p_MakingFormulaBuildings p) (col_GetAllIndex (p_MakingFormulaBuildings p)) of
         None \<Rightarrow> Some (E_ERR_FORMULA_NO_SLOT_TO_MAKING, p)
       | Some slot_id \<Rightarrow>
       (case formula_map e formula_id of
         None \<Rightarrow> Some (E_ERR_FORMULA_TABLE_DATA_NOT_FOUND, p)
       | Some f \<Rightarrow>
         if \<not> col_HasIndex (p_DepotBuildingFormulas p) formula_id then Some (E_ERR_FORMULA_NOT_EXCHANGED, p)
         else if i_Gold (p_Info p) < fm_Cost f then Some (E_ERR_FORMULA_MAKING_NOT_ENOUGH_COIN, p)
         else if \<not> chk_cost_items (fm_CostItems f) p then Some (E_ERR_FORMULA_MAKING_NOT_ENOUGH_RESOURCE, p)
         else if slot_id < 1 \<or> slot_id > MAKING_BUILDING_MAX_SLOT_ID
           then Some (E_ERR_FORMULA_MAKING_SLOT_ID_INVALID, p)
         else (case col_Get (p_MakingFormulaBuildings p) slot_id of
             None \<Rightarrow> Some (E_ERR_FORMULA_MAKING_SLOT_ID_INVALID, p)
           | Some making_building \<Rightarrow>
             if mk_FormulaId making_building > 0 then Some (E_ERR_FORMULA_MAKING_SLOT_IS_USING, p)
             else do {
               let p = Making_Set slot_id (\<lambda>d. d\<lparr>mk_FormulaId := formula_id\<rparr>) p;
               let p = Making_Set slot_id (\<lambda>d. d\<lparr>mk_StartTime := i32 (now e)\<rparr>) p;
               let p = SetMakingBuildingQueue (i_MakingBuildingQueue (p_Info p) @ [slot_id]) p;
               let p = snd (SubGold (fm_Cost f) p);
               let p = remove_cost_items e (fm_CostItems f) p;
               (_, p) \<leftarrow> RemoveItemResource e ITEM_RESOURCE_ID_ACTION 1 p;
               let p = SendItemsUpdate p;
               let p = Send_msg (S2CMakeFormulaBuildingResult formula_id) p;
               (_, p) \<leftarrow> pull_formula_building e p;
               let p = TaskUpdate e TASK_COMPLETE_TYPE_MAKING_FORMULA_NUM False 0 1 p;
               let p = TaskUpdate e TASK_COMPLETE_TYPE_MAKING_FORMULA_BUILDING_NUM False (fm_Rarity f) 1 p;
               Some (1, p)
             })))
   }"

fun find_new_slot :: "making_data column \<Rightarrow> int list \<Rightarrow> int option" where
  "find_new_slot m [] = None"
| "find_new_slot m (s # ss) = (if col_Get m s = None then Some s else find_new_slot m ss)"

definition buy_new_making_building_slot :: "env \<Rightarrow> player \<Rightarrow> (int \<times> player) option" where
  "buy_new_making_building_slot e p =
     (let cost = gc_FormulaAddNewSlotCostDiamond (config e) in
      if col_GetAllIndex (p_MakingFormulaBuildings p) = [] then Some (-1, p)
      else if i_Diamond (p_Info p) < cost then Some (E_ERR_FORMULA_MAKING_SLOT_ID_INVALID, p)
      else (case find_new_slot (p_MakingFormulaBuildings p)
                   [MAKING_BUILDING_DEFAULT_MAX_SLOT_ID + 1 .. MAKING_BUILDING_MAX_SLOT_ID] of
          None \<Rightarrow> Some (0, p)
        | Some new_slot_id \<Rightarrow> do {
            let p = p\<lparr>p_MakingFormulaBuildings := snd (col_Add new_slot_id
                       \<lparr>mk_FormulaId = 0, mk_StartTime = 0\<rparr> (p_MakingFormulaBuildings p))\<rparr>;
            let p = snd (SubDiamond cost p);
            let p = Send_msg (S2CBuyMakeBuildingSlotResult new_slot_id) p;
            (_, p) \<leftarrow> pull_formula_building e p;
            Some (1, p)
          }))"

text \<open>The reply after a speed-up: the entries move one place to the front and the slot id of the first
  goes to the last place, where the entry is the very object that moved to the place before it, so
  both places show it.\<close>

definition shift_reply :: "making_info list \<Rightarrow> making_info list" where
  "shift_reply slots =
     (let s = fst (hd slots) in
      if length slots \<le> 1 then [(s, 0, 0)]
      else let x = (s, snd (last slots)) in butlast (tl slots) @ [x, x])"

definition speedup_making_building :: "env \<Rightarrow> player \<Rightarrow> (int \<times> player) option" where
  "speedup_making_building e p = do {
     ((slots, maked), p) \<leftarrow> get_formula_buildings e p;
     if slots = [] then Some (E_ERR_FORMULA_NO_MAKING_BUILDING, p)
     else do {
       let making_list = i_MakingBuildingQueue (p_Info p);
       let (slot_id, formula_id, remain_seconds) = hd slots;
       (slots, maked, p) \<leftarrow>
         (if slot_id > 0 \<and> formula_id > 0 then do {
            let p = Making_Set slot_id (\<lambda>d. d\<lparr>mk_FormulaId := 0\<rparr>) p;
            let p = Making_Set slot_id (\<lambda>d. d\<lparr>mk_StartTime := 0\<rparr>) p;
            _ \<leftarrow> go_nth making_list 0;
            let p = SetMakingBuildingQueue (tl making_list) p;
            f \<leftarrow> formula_map e formula_id;
            let maked = maked @ [fm_BuildID f];
            let p = SetMakedBuildingQueue maked p;
            let p = TaskUpdate e TASK_COMPLETE_TYPE_MAKING_FORMULA_NUM False (fm_Rarity f) 1 p;
            let p = TaskUpdate e TASK_COMPLETE_TYPE_MAKING_FORMULA_BUILDING_NUM False (fm_Rarity f) 1 p;
            let c = gc_FormulaSpeedupMakingBuildingCostDiamond (config e);
            cost_diamond \<leftarrow> quot32 (i32 (remain_seconds + i32 (c - 1))) c;
            Some (shift_reply slots, maked, snd (SubDiamond cost_diamond p))
          } else Some (slots, maked, p));
       first \<leftarrow> go_nth making_list 0;
       let p = Send_msg (S2CSpeedupMakeBuildingResult first) p;
       let p = Send_msg (S2CGetMakingFormulaBuildingsResult slots maked) p;
       (_, p) \<leftarrow> pull_formula_building e p;
       Some (1, p)
     }
   }"

subsection \<open>Collecting and cancelling\<close>

fun add_made_buildings :: "env \<Rightarrow> int list \<Rightarrow> player \<Rightarrow> player" where
  "add_made_buildings e [] p = p"
| "add_made_buildings e (b # bs) p = add_made_buildings e bs (snd (AddDepotBuilding e b 1 p))"

definition get_completed_formula_building :: "env \<Rightarrow> player \<Rightarrow> (int \<times> player) option" where
  "get_completed_formula_building e p =
     (if col_GetAllIndex (p_MakingFormulaBuildings p) = [] then Some (E_ERR_FORMULA_NO_MAKING_BUILDING, p)
      else
        let maked = i_MakedBuildingQueue (p_Info p) in
        if maked = [] then Some (-1, p)
        else do {
          let p = SetMakedBuildingQueue [] p;
          let p = SendDepotBuildingUpdate (add_made_buildings e maked p);
          let p = Send_msg (S2CGetCompletedFormulaBuildingResult maked) p;
          (_, p) \<leftarrow> pull_formula_building e p;
          Some (1, p)
        })"

fun return_materials :: "env \<Rightarrow> (int \<times> int) list \<Rightarrow> player \<Rightarrow> item_info list \<times> player" where
  "return_materials e [] p = ([], p)"
| "return_materials e ((item_id, n) # cs) p =
     (let item_num = i32 (i32 (n * gc_CancelMakingFormulaReturnMaterial (config e)) sdiv 100);
          p = snd (AddItem e item_id item_num True p)
      in case return_materials e cs p of (ms, p) \<Rightarrow>
           (\<lparr>ii_ItemCfgId = item_id, ii_ItemNum = item_num, ii_RemainSeconds = 0\<rparr> # ms, p))"

text \<open>Only a job that is not at the head of the queue can be cancelled: the search starts at index 1.\<close>

definition cancel_making_formula_building :: "env \<Rightarrow> int \<Rightarrow> player \<Rightarrow> (int \<times> player) option" where
  "cancel_making_formula_building e slot_id p = do {
     (_, p) \<leftarrow> get_formula_buildings e p;
     (case i_MakingBuildingQueue (p_Info p) of
        k0 # k1 # ks \<Rightarrow>
          if slot_id \<notin> set (k1 # ks) then Some (E_ERR_FORMULA_MAKING_SLOT_ID_INVALID, p)
          else (case col_Get (p_MakingFormulaBuildings p) slot_id of
              None \<Rightarrow> Some (E_ERR_FORMULA_NOT_MAKING, p)
            | Some d \<Rightarrow>
              if mk_FormulaId d = 0 then Some (E_ERR_FORMULA_NOT_MAKING, p)
              else (case formula_map e (mk_FormulaId d) of
                  None \<Rightarrow> Some (E_ERR_FORMULA_TABLE_DATA_NOT_FOUND, p)
                | Some f \<Rightarrow> do {
                    let p = Making_Set slot_id (\<lambda>d. d\<lparr>mk_FormulaId := 0\<rparr>) p;
                    let p = Making_Set slot_id (\<lambda>d. d\<lparr>mk_StartTime := 0\<rparr>) p;
                    let p = SetMakingBuildingQueue (k0 # remove1 slot_id (k1 # ks)) p;
                    (case return_materials e (fm_CostItems f) p of (ms, p) \<Rightarrow> do {
                      let p = Send_msg (S2CCancelMakingFormulaBuildingResult slot_id ms) p;
                      let p = SendItemsUpdate p;
                      (_, p) \<leftarrow> pull_formula_building e p;
                      Some (1, p)
                    })
                  }))
      | _ \<Rightarrow> Some (E_ERR_FORMULA_NOT_MAKING, p))
   }"

subsection \<open>The time line\<close>

text \<open>\<open>cut ts u\<close>: how many of the jobs with times \<open>ts\<close>, done one after the other, end within \<open>u\<close> seconds.\<close>

fun cut :: "int list \<Rightarrow> int \<Rightarrow> nat" where
  "cut [] u = 0"
| "cut (t # ts) u = (if u < t then 0 else Suc (cut ts (u - t)))"

lemma cut_le: "cut ts u \<le> length ts"
  by (induction ts u rule: cut.induct) auto

lemma cut_reached: "0 \<le> u \<Longrightarrow> sum_list (take (cut ts u) ts) \<le> u"
  by (induction ts u rule: cut.induct) auto

lemma cut_maximal: "cut ts u < length ts \<Longrightarrow> u < sum_list (take (Suc (cut ts u)) ts)"
  by (induction ts u rule: cut.induct) auto

lemma cut_all: "\<forall>t \<in> set ts. 0 \<le> t \<Longrightarrow> sum_list ts \<le> u \<Longrightarrow> cut ts u = length ts"
proof (induction ts arbitrary: u)
  case (Cons t ts)
  then have "0 \<le> sum_list ts" by (intro sum_list_nonneg) simp
  with Cons show ?case by auto
qed simp

text \<open>The job of a slot: its formula.\<close>

definition job :: "env \<Rightarrow> player \<Rightarrow> int \<Rightarrow> xml_formula" where
  "job e p k = the (formula_map e (mk_FormulaId (the (map_of (p_MakingFormulaBuildings p) k))))"

definition jobs_ok :: "env \<Rightarrow> player \<Rightarrow> int list \<Rightarrow> bool" where
  "jobs_ok e p ks \<longleftrightarrow> (\<forall>k \<in> set ks. case map_of (p_MakingFormulaBuildings p) k of
     None \<Rightarrow> False
   | Some d \<Rightarrow> 0 < mk_FormulaId d \<and>
       (case formula_map e (mk_FormulaId d) of None \<Rightarrow> False | Some f \<Rightarrow> 0 \<le> fm_Time f \<and> fm_Time f \<le> max32))"

text \<open>The invariant: each slot once, the queue lists each slot in work once and all of them have a
  known formula, all other slots are free.\<close>

definition making_ok :: "env \<Rightarrow> player \<Rightarrow> bool" where
  "making_ok e p \<longleftrightarrow>
     col_wf (p_MakingFormulaBuildings p) \<and> distinct (i_MakingBuildingQueue (p_Info p)) \<and>
     jobs_ok e p (i_MakingBuildingQueue (p_Info p)) \<and>
     (\<forall>k d. map_of (p_MakingFormulaBuildings p) k = Some d \<longrightarrow> k \<notin> set (i_MakingBuildingQueue (p_Info p)) \<longrightarrow>
        mk_FormulaId d = 0)"

lemma jobs_okD:
  assumes "jobs_ok e p ks" "k \<in> set ks"
  obtains d f where "map_of (p_MakingFormulaBuildings p) k = Some d" "0 < mk_FormulaId d"
    "formula_map e (mk_FormulaId d) = Some f" "0 \<le> fm_Time f" "fm_Time f \<le> max32" "job e p k = f"
  using assms unfolding jobs_ok_def job_def by (fastforce split: option.splits)

subsection \<open>Frames\<close>

definition making_only :: "player \<Rightarrow> player \<Rightarrow> bool" where
  "making_only p q \<longleftrightarrow> (\<exists>m. task_only (p\<lparr>p_MakingFormulaBuildings := m\<rparr>) q)"

lemma task_only_making_upd:
  "task_only p q \<Longrightarrow> task_only (p\<lparr>p_MakingFormulaBuildings := m\<rparr>) (q\<lparr>p_MakingFormulaBuildings := m\<rparr>)"
  unfolding task_only_def
  by (elim exE, intro exI [of _ "p_Tasks q"] exI [of _ "p_TaskLastRefresh q"] exI [of _ "p_changes q"]
    exI [of _ "p_base_prop_chg q"] exI [of _ "p_effects q"]) (auto intro!: player.equality)

lemma making_only_refl [simp, intro]: "making_only p p"
  unfolding making_only_def by (rule exI [of _ "p_MakingFormulaBuildings p"]) simp

lemma making_only_task: "task_only p q \<Longrightarrow> making_only p q"
  unfolding making_only_def by (rule exI [of _ "p_MakingFormulaBuildings p"]) simp

lemma making_only_trans:
  assumes "making_only p q" "making_only q r"
  shows "making_only p r"
proof -
  from assms obtain m m' where "task_only (p\<lparr>p_MakingFormulaBuildings := m\<rparr>) q"
    and r: "task_only (q\<lparr>p_MakingFormulaBuildings := m'\<rparr>) r"
    by (auto simp: making_only_def)
  from task_only_making_upd [OF this(1), of m'] have
    "task_only (p\<lparr>p_MakingFormulaBuildings := m'\<rparr>) (q\<lparr>p_MakingFormulaBuildings := m'\<rparr>)" by simp
  then show ?thesis using r by (auto simp: making_only_def intro: task_only_trans)
qed

lemma making_only_Set [simp, intro]: "making_only p (Making_Set k u p)"
  unfolding making_only_def Making_Set_def by (intro exI) (rule task_only_refl)

lemma making_only_frame:
  assumes "making_only p q"
  shows "p_Info q = p_Info p" and "p_Items q = p_Items p" and "p_BuildingDepots q = p_BuildingDepots p"
    and "p_DepotBuildingFormulas q = p_DepotBuildingFormulas p" and "p_Cats q = p_Cats p"
  using assms unfolding making_only_def task_only_def by (elim exE, simp)+

lemma map_of_Making_Set:
  "map_of (p_MakingFormulaBuildings (Making_Set k u p)) s =
     (if s = k then map_option u (map_of (p_MakingFormulaBuildings p) k)
      else map_of (p_MakingFormulaBuildings p) s)"
  by (auto simp: Making_Set_def map_of_col_set_field split: option.splits)

lemma keys_update: "k \<in> set (map fst m) \<Longrightarrow> map fst (AList.update k v m) = map fst m"
  by (induction m) auto

lemma keys_Making_Set: "map fst (p_MakingFormulaBuildings (Making_Set k u p)) = map fst (p_MakingFormulaBuildings p)"
proof (cases "map_of (p_MakingFormulaBuildings p) k")
  case (Some d)
  then have "k \<in> set (map fst (p_MakingFormulaBuildings p))"
    by (metis map_of_eq_None_iff option.distinct(1) set_map)
  with Some show ?thesis by (simp add: Making_Set_def col_set_field_def keys_update)
qed (simp add: Making_Set_def col_set_field_def)

subsection \<open>The three loops\<close>

abbreviation (input) blank :: making_info where "blank \<equiv> make_formula_building_msg_data"
abbreviation (input) free :: "int \<Rightarrow> making_info" where "free \<equiv> (\<lambda>s. (s, 0, 0))"

lemma put_slot_back:
  "put_slot (replicate (Suc m) blank @ ys) (int m) s = Some (replicate m blank @ free s # ys)"
proof -
  have "replicate (Suc m) blank @ ys = replicate m blank @ blank # ys"
    by (simp add: replicate_app_Cons_same)
  moreover have "(replicate m blank @ blank # ys)[m := free s] = replicate m blank @ free s # ys"
    by (simp add: list_update_append)
  ultimately show ?thesis
    by (simp add: put_slot_def go_nth_def nth_append make_formula_building_msg_data_def)
qed

lemma idle_loop_run:
  "length (filter (\<lambda>k. k \<notin> set Q) ks) \<le> m \<Longrightarrow>
   idle_loop Q ks (replicate m blank @ ys) (int m - 1) =
     (let idle = filter (\<lambda>k. k \<notin> set Q) ks; r = m - length idle in
      Some (replicate r blank @ map free (rev idle) @ ys, int r - 1))"
proof (induction ks arbitrary: m ys)
  case (Cons k ks)
  show ?case
  proof (cases "k \<in> set Q")
    case True
    with Cons show ?thesis by simp
  next
    case False
    with Cons.prems obtain m' where m: "m = Suc m'" "length (filter (\<lambda>k. k \<notin> set Q) ks) \<le> m'"
      by (cases m) auto
    show ?thesis using False Cons.IH [OF m(2)] put_slot_back [of m' ys k]
      by (simp add: m(1) Let_def)
  qed
qed (simp add: Let_def)

text \<open>The column after a query: the first \<open>c\<close> jobs of \<open>ks\<close> have left their slots, and the next one has
  its start moved so that \<open>rest\<close> of its seconds have passed.\<close>

definition served :: "env \<Rightarrow> int list \<Rightarrow> nat \<Rightarrow> int \<Rightarrow> making_data column \<Rightarrow> making_data column \<Rightarrow> bool" where
  "served e ks c rest m m' \<longleftrightarrow> map fst m' = map fst m \<and>
     (\<forall>s. map_of m' s =
        (if s \<in> set (take c ks) then map_option (\<lambda>d. d\<lparr>mk_FormulaId := 0, mk_StartTime := 0\<rparr>) (map_of m s)
         else if c < length ks \<and> s = ks ! c then map_option (\<lambda>d. d\<lparr>mk_StartTime := now e - rest\<rparr>) (map_of m s)
         else map_of m s))"

definition clear_slot :: "int \<Rightarrow> player \<Rightarrow> player" where
  "clear_slot k p = Making_Set k (\<lambda>d. d\<lparr>mk_StartTime := 0\<rparr>) (Making_Set k (\<lambda>d. d\<lparr>mk_FormulaId := 0\<rparr>) p)"

definition count_made :: "env \<Rightarrow> xml_formula \<Rightarrow> player \<Rightarrow> player" where
  "count_made e f p = TaskUpdate e TASK_COMPLETE_TYPE_MAKING_FORMULA_BUILDING_NUM False (fm_Rarity f) 1
     (TaskUpdate e TASK_COMPLETE_TYPE_MAKING_FORMULA_NUM False (fm_Rarity f) 1 p)"

lemma done_loop_step:
  assumes "map_of (p_MakingFormulaBuildings p) k = Some d" "0 < mk_FormulaId d"
    "formula_map e (mk_FormulaId d) = Some f"
    and u: "u = (if n = 0 then i32 (i32 (now e) - mk_StartTime d) else used)"
  shows "u < fm_Time f \<Longrightarrow> done_loop e (k # ks) n used slots dn maked p =
      Some ((n, i32 (fm_Time f - u), slots, maked),
        Making_Set k (\<lambda>d. d\<lparr>mk_StartTime := i32 (i32 (now e) - u)\<rparr>) p)"
    and "\<not> u < fm_Time f \<Longrightarrow> done_loop e (k # ks) n used slots dn maked p =
      do { slots \<leftarrow> put_slot slots dn k;
           done_loop e ks (Suc n) (i32 (u - fm_Time f)) slots (dn - 1) (maked @ [fm_BuildID f])
             (count_made e f (clear_slot k p)) }"
  using assms by (simp_all add: Let_def count_made_def clear_slot_def)

lemma count_made_col [simp]: "p_MakingFormulaBuildings (count_made e f p) = p_MakingFormulaBuildings p"
  by (simp add: count_made_def)

lemma making_only_count [intro]: "making_only p (count_made e f p)"
  unfolding count_made_def by (intro making_only_task) (rule task_only_trans; rule task_only_TaskUpdate)

lemma making_only_clear [intro]: "making_only p (clear_slot k p)"
  unfolding clear_slot_def by (rule making_only_trans; rule making_only_Set)

lemma map_of_clear_slot:
  "map_of (p_MakingFormulaBuildings (clear_slot k p)) s =
     (if s = k then map_option (\<lambda>d. d\<lparr>mk_FormulaId := 0, mk_StartTime := 0\<rparr>) (map_of (p_MakingFormulaBuildings p) k)
      else map_of (p_MakingFormulaBuildings p) s)"
  by (auto simp: clear_slot_def map_of_Making_Set option.map_comp o_def)

lemma keys_clear_slot: "map fst (p_MakingFormulaBuildings (clear_slot k p)) = map fst (p_MakingFormulaBuildings p)"
  by (simp add: clear_slot_def keys_Making_Set)

lemma jobs_other:
  assumes "\<And>s. s \<in> set ks \<Longrightarrow> map_of (p_MakingFormulaBuildings q) s = map_of (p_MakingFormulaBuildings p) s"
  shows "jobs_ok e q ks = jobs_ok e p ks" and "map (g \<circ> job e q) ks = map (g \<circ> job e p) ks"
  using assms by (auto simp: jobs_ok_def job_def)

lemma done_loop_run:
  assumes "jobs_ok e p ks" "distinct ks" "length ks \<le> m" "0 \<le> u" "u \<le> max32" "0 \<le> now e" "now e \<le> max32"
    and "n = 0 \<Longrightarrow> ks \<noteq> [] \<Longrightarrow>
      i32 (i32 (now e) - mk_StartTime (the (map_of (p_MakingFormulaBuildings p) (hd ks)))) = u"
    and "n > 0 \<Longrightarrow> used = u"
    and "ts = map (fm_Time \<circ> job e p) ks" "c = cut ts u" "rest = u - sum_list (take c ts)"
  shows "\<exists>q. done_loop e ks n used (replicate m blank @ ys) (int m - 1) maked p =
      Some ((n + c, (if c < length ks then ts ! c - rest else 0),
             replicate (m - c) blank @ map free (rev (take c ks)) @ ys,
             maked @ map (fm_BuildID \<circ> job e p) (take c ks)), q) \<and>
    making_only p q \<and> served e ks c rest (p_MakingFormulaBuildings p) (p_MakingFormulaBuildings q)"
  using assms
proof (induction ks arbitrary: p n used u m ys maked ts c rest)
  case Nil
  then show ?case by (auto simp: served_def)
next
  case (Cons k ks)
  from Cons.prems(1) obtain d f where d: "map_of (p_MakingFormulaBuildings p) k = Some d" "0 < mk_FormulaId d"
    "formula_map e (mk_FormulaId d) = Some f" "0 \<le> fm_Time f" "fm_Time f \<le> max32" "job e p k = f"
    by (rule jobs_okD [of _ _ _ k]) auto
  have u: "u = (if n = 0 then i32 (i32 (now e) - mk_StartTime d) else used)"
    using Cons.prems(8,9) d(1) by auto
  show ?case
  proof (cases "u < fm_Time f")
    case True
    then have c0: "c = 0" "rest = u" "ts ! 0 = fm_Time f" using Cons.prems(10-12) d(6) by auto
    have i: "i32 (fm_Time f - u) = fm_Time f - u" "i32 (i32 (now e) - u) = now e - u"
      using Cons.prems(4-7) d(4,5) True by (auto simp: i32_range_id)
    let ?q = "Making_Set k (\<lambda>d. d\<lparr>mk_StartTime := now e - u\<rparr>) p"
    have "served e (k # ks) c rest (p_MakingFormulaBuildings p) (p_MakingFormulaBuildings ?q)"
      by (auto simp: served_def c0 keys_Making_Set map_of_Making_Set)
    then show ?thesis using done_loop_step(1) [OF d(1-3) u True, of ks] c0 i
      by (intro exI [of _ ?q]) (auto simp: making_only_Set)
  next
    case False
    from Cons.prems(3) obtain m' where m: "m = Suc m'" "length ks \<le> m'" by (cases m) auto
    let ?p = "count_made e f (clear_slot k p)"
    have kn: "k \<notin> set ks" using Cons.prems(2) by simp
    have col: "map_of (p_MakingFormulaBuildings ?p) s = map_of (p_MakingFormulaBuildings p) s" if "s \<in> set ks" for s
      using that kn by (auto simp: map_of_clear_slot)
    have ok: "jobs_ok e ?p ks" using Cons.prems(1) jobs_other(1) [OF col] by (simp add: jobs_ok_def)
    have ts': "map (fm_Time \<circ> job e ?p) ks = tl ts"
      using jobs_other(2) [OF col, of ks fm_Time] Cons.prems(10) by simp
    have bs: "map (fm_BuildID \<circ> job e ?p) (take x ks) = map (fm_BuildID \<circ> job e p) (take x ks)" for x
      by (rule jobs_other(2)) (rule col, erule in_set_takeD)
    have tl: "ts = fm_Time f # tl ts" using Cons.prems(10) d(6) by simp
    have c: "c = Suc (cut (tl ts) (u - fm_Time f))" using Cons.prems(11) False tl by (metis cut.simps(2))
    have i: "i32 (u - fm_Time f) = u - fm_Time f" using False Cons.prems(4,5) d(4) by (simp add: i32_range_id)
    have r: "rest = u - fm_Time f - sum_list (take (cut (tl ts) (u - fm_Time f)) (tl ts))"
      using Cons.prems(12) c tl by (metis diff_diff_eq sum_list.Cons take_Suc_Cons)
    have "\<exists>q. done_loop e ks (Suc n) (u - fm_Time f) (replicate m' blank @ free k # ys) (int m' - 1)
        (maked @ [fm_BuildID f]) ?p =
      Some ((Suc n + cut (tl ts) (u - fm_Time f),
             (if cut (tl ts) (u - fm_Time f) < length ks then tl ts ! cut (tl ts) (u - fm_Time f) - rest else 0),
             replicate (m' - cut (tl ts) (u - fm_Time f)) blank
               @ map free (rev (take (cut (tl ts) (u - fm_Time f)) ks)) @ free k # ys,
             (maked @ [fm_BuildID f]) @ map (fm_BuildID \<circ> job e ?p) (take (cut (tl ts) (u - fm_Time f)) ks)), q) \<and>
      making_only ?p q \<and> served e ks (cut (tl ts) (u - fm_Time f)) rest (p_MakingFormulaBuildings ?p) (p_MakingFormulaBuildings q)"
      by (rule Cons.IH [OF ok _ m(2) _ _ Cons.prems(6,7) _ _ ts' [symmetric] refl r])
        (use Cons.prems(2,4,5) False d(4) in auto)
    then obtain q where q: "done_loop e ks (Suc n) (u - fm_Time f) (replicate m' blank @ free k # ys) (int m' - 1)
        (maked @ [fm_BuildID f]) ?p =
      Some ((Suc n + cut (tl ts) (u - fm_Time f),
             (if cut (tl ts) (u - fm_Time f) < length ks then tl ts ! cut (tl ts) (u - fm_Time f) - rest else 0),
             replicate (m' - cut (tl ts) (u - fm_Time f)) blank
               @ map free (rev (take (cut (tl ts) (u - fm_Time f)) ks)) @ free k # ys,
             (maked @ [fm_BuildID f]) @ map (fm_BuildID \<circ> job e ?p) (take (cut (tl ts) (u - fm_Time f)) ks)), q)"
      "making_only ?p q"
      "served e ks (cut (tl ts) (u - fm_Time f)) rest (p_MakingFormulaBuildings ?p) (p_MakingFormulaBuildings q)"
      by blast
    have "making_only p q" using q(2) making_only_trans making_only_clear making_only_count by metis
    moreover have "served e (k # ks) c rest (p_MakingFormulaBuildings p) (p_MakingFormulaBuildings q)"
      using q(3) kn by (auto simp: served_def c keys_clear_slot map_of_clear_slot dest: in_set_takeD)
    moreover have "done_loop e (k # ks) n used (replicate m blank @ ys) (int m - 1) maked p =
      Some ((n + c, (if c < length (k # ks) then ts ! c - rest else 0),
             replicate (m - c) blank @ map free (rev (take c (k # ks))) @ ys,
             maked @ map (fm_BuildID \<circ> job e p) (take c (k # ks))), q)"
    proof -
      have "ts ! c = tl ts ! cut (tl ts) (u - fm_Time f)" by (subst tl) (simp add: c)
      then show ?thesis using done_loop_step(2) [OF d(1-3) u False, of ks] put_slot_back [of m' ys k] q(1) i
        by (simp add: m(1) c bs d(6) del: replicate_Suc)
    qed
    ultimately show ?thesis by blast
  qed
qed

subsection \<open>A query moves the time line\<close>

text \<open>The entries of the jobs still queued: the first with the seconds left, the others with the figure
  the code computes from their formulas.\<close>

definition waiting_entry :: "env \<Rightarrow> player \<Rightarrow> int \<Rightarrow> making_info" where
  "waiting_entry e p k = (k, mk_FormulaId (the (map_of (p_MakingFormulaBuildings p) k)), i32 (fm_Time (job e p k) * 60))"

fun work_entries :: "env \<Rightarrow> player \<Rightarrow> int \<Rightarrow> int list \<Rightarrow> making_info list" where
  "work_entries e p left [] = []"
| "work_entries e p left (k # ks) =
     (k, mk_FormulaId (the (map_of (p_MakingFormulaBuildings p) k)), left) # map (waiting_entry e p) ks"

lemma length_work_entries [simp]: "length (work_entries e p left ks) = length ks"
  by (cases ks) auto

lemma fill_step:
  assumes "map_of (p_MakingFormulaBuildings p) k = Some d" "0 < mk_FormulaId d"
    "formula_map e (mk_FormulaId d) = Some f" "j = length xs"
  shows "fill_loop e left (k # ks) j (xs @ blank # ys) p =
    fill_loop e left ks (Suc j) (xs @ (k, mk_FormulaId d, (if j = 0 then left else i32 (fm_Time f * 60))) # ys) p"
  using assms by (simp add: go_nth_def)

lemma fill_waiting:
  "jobs_ok e p ks \<Longrightarrow> xs \<noteq> [] \<Longrightarrow>
   fill_loop e left ks (length xs) (xs @ replicate (length ks) blank @ ys) p =
     Some (xs @ map (waiting_entry e p) ks @ ys)"
proof (induction ks arbitrary: xs)
  case (Cons k ks)
  from Cons.prems(1) obtain d f where d: "map_of (p_MakingFormulaBuildings p) k = Some d" "0 < mk_FormulaId d"
    "formula_map e (mk_FormulaId d) = Some f" "job e p k = f"
    by (rule jobs_okD [of _ _ _ k]) auto
  have "jobs_ok e p ks" using Cons.prems(1) by (simp add: jobs_ok_def)
  from Cons.IH [OF this, of "xs @ [waiting_entry e p k]"] show ?case
    using fill_step [OF d(1-3), where j = "length xs" and xs = xs and left = left and ks = ks and ys = "replicate (length ks) blank @ ys"] d Cons.prems(2)
    by (simp add: waiting_entry_def del: fill_loop.simps)
qed simp

lemma fill_run:
  assumes "jobs_ok e p ks"
  shows "fill_loop e left ks 0 (replicate (length ks) blank @ ys) p = Some (work_entries e p left ks @ ys)"
proof (cases ks)
  case (Cons k ks')
  with assms obtain d f where d: "map_of (p_MakingFormulaBuildings p) k = Some d" "0 < mk_FormulaId d"
    "formula_map e (mk_FormulaId d) = Some f" "job e p k = f"
    by (elim jobs_okD [of _ _ _ k]) auto
  have "jobs_ok e p ks'" using assms Cons by (simp add: jobs_ok_def)
  from fill_waiting [OF this, of "[(k, mk_FormulaId d, left)]" left ys] show ?thesis
    using fill_step [OF d(1-3), where j = 0 and xs = "[]" and left = left and ks = ks' and ys = "replicate (length ks') blank @ ys"] d Cons
    by (simp del: fill_loop.simps)
qed simp

text \<open>The start of the first job, and the clock condition: it lies in the past.\<close>

definition head_start :: "player \<Rightarrow> int" where
  "head_start p = (case i_MakingBuildingQueue (p_Info p) of [] \<Rightarrow> 0
     | k # ks \<Rightarrow> mk_StartTime (the (map_of (p_MakingFormulaBuildings p) k)))"

definition clock_ok :: "env \<Rightarrow> player \<Rightarrow> bool" where
  "clock_ok e p \<longleftrightarrow> 0 \<le> head_start p \<and> head_start p \<le> now e \<and> now e \<le> max32"

definition job_times :: "env \<Rightarrow> player \<Rightarrow> int list" where
  "job_times e p = map (fm_Time \<circ> job e p) (i_MakingBuildingQueue (p_Info p))"

definition job_buildings :: "env \<Rightarrow> player \<Rightarrow> int list" where
  "job_buildings e p = map (fm_BuildID \<circ> job e p) (i_MakingBuildingQueue (p_Info p))"

definition ended :: "env \<Rightarrow> player \<Rightarrow> nat" where
  "ended e p = cut (job_times e p) (now e - head_start p)"

definition idle_slots :: "player \<Rightarrow> int list" where
  "idle_slots p = filter (\<lambda>k. k \<notin> set (i_MakingBuildingQueue (p_Info p))) (map fst (p_MakingFormulaBuildings p))"

lemma served_keeps:
  assumes "served e Q c rest (p_MakingFormulaBuildings p) (p_MakingFormulaBuildings q)" "distinct Q"
    and "k \<in> set (drop c Q)"
  shows "map_of (p_MakingFormulaBuildings q) k = map_option (\<lambda>d. d\<lparr>mk_StartTime := mk_StartTime d\<rparr>)
      (map_of (p_MakingFormulaBuildings p) k) \<or>
    map_of (p_MakingFormulaBuildings q) k = map_option (\<lambda>d. d\<lparr>mk_StartTime := now e - rest\<rparr>)
      (map_of (p_MakingFormulaBuildings p) k)"
proof -
  have "k \<notin> set (take c Q)" using assms(2,3) by (metis append_take_drop_id disjoint_iff distinct_append)
  then show ?thesis using assms(1) unfolding served_def by (auto simp: option.map_ident)
qed

lemma served_jobs:
  assumes "served e Q c rest (p_MakingFormulaBuildings p) (p_MakingFormulaBuildings q)" "distinct Q"
    and "jobs_ok e p Q" "k \<in> set (drop c Q)"
  shows "job e q k = job e p k" and "jobs_ok e q [k]"
    and "mk_FormulaId (the (map_of (p_MakingFormulaBuildings q) k)) = mk_FormulaId (the (map_of (p_MakingFormulaBuildings p) k))"
proof -
  have "k \<in> set Q" using assms(4) by (rule in_set_dropD)
  with assms(3) obtain d f where "map_of (p_MakingFormulaBuildings p) k = Some d" "0 < mk_FormulaId d"
    "formula_map e (mk_FormulaId d) = Some f" "0 \<le> fm_Time f" "fm_Time f \<le> max32" "job e p k = f"
    by (rule jobs_okD)
  then show "job e q k = job e p k" and "jobs_ok e q [k]"
    and "mk_FormulaId (the (map_of (p_MakingFormulaBuildings q) k)) = mk_FormulaId (the (map_of (p_MakingFormulaBuildings p) k))"
    using served_keeps [OF assms(1,2,4)] by (auto simp: job_def jobs_ok_def)
qed

lemma work_entries_served:
  assumes "served e Q c rest (p_MakingFormulaBuildings p) (p_MakingFormulaBuildings q)" "distinct Q" "jobs_ok e p Q"
  shows "work_entries e q left (drop c Q) = work_entries e p left (drop c Q)"
  using served_jobs [OF assms] by (cases "drop c Q") (auto simp: waiting_entry_def)

lemma idle_count:
  assumes "making_ok e p"
  shows "length (p_MakingFormulaBuildings p) = length (idle_slots p) + length (i_MakingBuildingQueue (p_Info p))"
proof -
  let ?ids = "map fst (p_MakingFormulaBuildings p)" and ?Q = "i_MakingBuildingQueue (p_Info p)"
  have d: "distinct ?ids" "distinct ?Q" using assms by (auto simp: making_ok_def col_wf_def)
  have sub: "set ?Q \<subseteq> set ?ids"
  proof
    fix k assume "k \<in> set ?Q"
    moreover have "jobs_ok e p ?Q" using assms by (simp add: making_ok_def)
    ultimately obtain x where "map_of (p_MakingFormulaBuildings p) k = Some x" by (metis jobs_okD)
    then show "k \<in> set ?ids" by (metis map_of_eq_None_iff option.distinct(1) set_map)
  qed
  have "length (filter (\<lambda>k. k \<in> set ?Q) ?ids) = card (set ?Q)"
    using d sub by (subst distinct_card [symmetric]) (auto intro: arg_cong [where f = card])
  then show ?thesis using sum_length_filter_compl [of "\<lambda>k. k \<in> set ?Q" ?ids] d
    by (simp add: idle_slots_def distinct_card)
qed

definition time_left :: "env \<Rightarrow> player \<Rightarrow> int" where
  "time_left e p = (let c = ended e p; ts = job_times e p in
     if c < length ts then ts ! c - (now e - head_start p - sum_list (take c ts)) else 0)"

definition after_query :: "env \<Rightarrow> player \<Rightarrow> player" where
  "after_query e p = p\<lparr>p_Info := p_Info p
     \<lparr>i_MakingBuildingQueue := drop (ended e p) (i_MakingBuildingQueue (p_Info p)),
      i_MakedBuildingQueue := i_MakedBuildingQueue (p_Info p) @ take (ended e p) (job_buildings e p)\<rparr>\<rparr>"

lemma making_only_Info:
  assumes "making_only p q"
  shows "making_only (p\<lparr>p_Info := i\<rparr>) (q\<lparr>p_Info := i\<rparr>)"
proof -
  from assms obtain m where "task_only (p\<lparr>p_MakingFormulaBuildings := m\<rparr>) q" by (auto simp: making_only_def)
  then obtain t r c b x where "q = p\<lparr>p_MakingFormulaBuildings := m, p_Tasks := t, p_TaskLastRefresh := r,
     p_changes := c, p_base_prop_chg := b, p_effects := x\<rparr>"
    unfolding task_only_def by (elim exE)
  then have "task_only (p\<lparr>p_Info := i, p_MakingFormulaBuildings := m\<rparr>) (q\<lparr>p_Info := i\<rparr>)"
    unfolding task_only_def
    by (intro exI [of _ t] exI [of _ r] exI [of _ c] exI [of _ b] exI [of _ x]) simp
  then show ?thesis unfolding making_only_def by (rule exI)
qed

lemma query_run:
  assumes ok: "making_ok e p" and clock: "clock_ok e p" and ne: "p_MakingFormulaBuildings p \<noteq> []"
  shows "\<exists>q. get_formula_buildings e p =
      Some ((work_entries e p (time_left e p) (drop (ended e p) (i_MakingBuildingQueue (p_Info p)))
               @ map free (rev (idle_slots p @ take (ended e p) (i_MakingBuildingQueue (p_Info p)))),
             i_MakedBuildingQueue (p_Info p) @ take (ended e p) (job_buildings e p)), q) \<and>
    making_only (after_query e p) q \<and>
    served e (i_MakingBuildingQueue (p_Info p)) (ended e p)
      (now e - head_start p - sum_list (take (ended e p) (job_times e p)))
      (p_MakingFormulaBuildings p) (p_MakingFormulaBuildings q)"
proof -
  define Q where "Q = i_MakingBuildingQueue (p_Info p)"
  define made where "made = i_MakedBuildingQueue (p_Info p)"
  define ids where "ids = map fst (p_MakingFormulaBuildings p)"
  have init: "init_slots p = p" using ne by (simp add: init_slots_def col_GetAllIndex_def)
  have jobs: "jobs_ok e p Q" and dQ: "distinct Q" using ok by (auto simp: making_ok_def Q_def)
  have n: "length ids = length (idle_slots p) + length Q" using idle_count [OF ok] by (simp add: ids_def Q_def)
  have idle: "filter (\<lambda>k. k \<notin> set Q) ids = idle_slots p" by (simp add: idle_slots_def ids_def Q_def)
  have I: "idle_loop Q ids (replicate (length ids) blank) (int (length ids) - 1) =
      Some (replicate (length Q) blank @ map free (rev (idle_slots p)), int (length Q) - 1)"
    using idle_loop_run [of Q ids "length ids" "[]"] n unfolding idle by (simp add: Let_def)
  show ?thesis
  proof (cases "Q = []")
    case True
    then have e0: "ended e p = 0" by (simp add: ended_def job_times_def Q_def)
    have "SetMakedBuildingQueue made p = after_query e p"
      using True by (simp add: SetMakedBuildingQueue_def after_query_def e0 Q_def made_def)
    then show ?thesis using True I e0 unfolding get_formula_buildings_def init Let_def Q_def made_def ids_def
      by (intro exI [of _ "after_query e p"])
        (auto simp: col_GetAllIndex_def served_def after_query_def)
  next
    case False
    then obtain k ks where kks: "Q = k # ks" by (cases Q) auto
    have hs: "head_start p = mk_StartTime (the (map_of (p_MakingFormulaBuildings p) k))"
      using kks by (simp add: head_start_def Q_def)
    have u: "0 \<le> now e - head_start p" "now e - head_start p \<le> max32" "0 \<le> now e" "now e \<le> max32"
      using clock by (auto simp: clock_ok_def)
    have start: "i32 (i32 (now e) - mk_StartTime (the (map_of (p_MakingFormulaBuildings p) (hd Q)))) = now e - head_start p"
      using u by (simp add: kks hs i32_range_id)
    let ?c = "ended e p" and ?ts = "job_times e p"
    let ?rest = "now e - head_start p - sum_list (take ?c ?ts)"
    from done_loop_run [OF jobs dQ le_refl u start _ job_times_def [of e p, folded Q_def] ended_def [of e p] refl,
        where n = 0 and used = 0 and ys = "map free (rev (idle_slots p))" and maked = made]
    obtain q where q: "done_loop e Q 0 0 (replicate (length Q) blank @ map free (rev (idle_slots p)))
        (int (length Q) - 1) made p =
      Some ((?c, time_left e p,
             replicate (length Q - ?c) blank @ map free (rev (take ?c Q)) @ map free (rev (idle_slots p)),
             made @ take ?c (job_buildings e p)), q)"
      and mo: "making_only p q" and sv: "served e Q ?c ?rest (p_MakingFormulaBuildings p) (p_MakingFormulaBuildings q)"
      by (auto simp: time_left_def Let_def job_times_def job_buildings_def Q_def take_map)
    have c: "?c \<le> length Q" using cut_le [of ?ts] by (simp add: ended_def job_times_def Q_def)
    have "jobs_ok e q (drop ?c Q)"
      using served_jobs(2) [OF sv dQ jobs] by (auto simp: jobs_ok_def)
    from fill_run [OF this, of "time_left e p" "map free (rev (take ?c Q)) @ map free (rev (idle_slots p))"]
    have F: "fill_loop e (time_left e p) (drop ?c Q) 0
        (replicate (length Q - ?c) blank @ map free (rev (take ?c Q)) @ map free (rev (idle_slots p))) q =
      Some (work_entries e p (time_left e p) (drop ?c Q) @ map free (rev (take ?c Q)) @ map free (rev (idle_slots p)))"
      unfolding work_entries_served [OF sv dQ jobs] by simp
    let ?q = "SetMakedBuildingQueue (made @ take ?c (job_buildings e p)) (SetMakingBuildingQueue (drop ?c Q) q)"
    have "get_formula_buildings e p = Some ((work_entries e p (time_left e p) (drop ?c Q)
        @ map free (rev (idle_slots p @ take ?c Q)), made @ take ?c (job_buildings e p)), ?q)"
      using False I q F unfolding get_formula_buildings_def init Let_def
      by (simp add: Q_def [symmetric] made_def [symmetric] ids_def [symmetric] col_GetAllIndex_def)
    moreover have "making_only (after_query e p) ?q"
      using making_only_Info [OF mo] making_only_frame(1) [OF mo]
      by (simp add: SetMakedBuildingQueue_def SetMakingBuildingQueue_def after_query_def Q_def made_def)
    moreover have "p_MakingFormulaBuildings ?q = p_MakingFormulaBuildings q"
      by (simp add: SetMakedBuildingQueue_def SetMakingBuildingQueue_def)
    ultimately show ?thesis using sv unfolding Q_def made_def by metis
  qed
qed

subsection \<open>The abstract time line\<close>

text \<open>The abstract state: when the job at work was started, the jobs (slot, time, building) and the
  buildings that are made. \<open>advance\<close> finishes jobs one after the other until the given instant.\<close>

record timeline =
  tl_start :: int
  tl_jobs :: "(int \<times> int \<times> int) list"
  tl_made :: "int list"

fun advance_jobs :: "int \<Rightarrow> int \<Rightarrow> (int \<times> int \<times> int) list \<Rightarrow> int list \<Rightarrow> timeline" where
  "advance_jobs t s [] made = \<lparr>tl_start = 0, tl_jobs = [], tl_made = made\<rparr>"
| "advance_jobs t s ((k, d, b) # js) made =
     (if t - s < d then \<lparr>tl_start = s, tl_jobs = (k, d, b) # js, tl_made = made\<rparr>
      else advance_jobs t (s + d) js (made @ [b]))"

definition advance :: "int \<Rightarrow> timeline \<Rightarrow> timeline" where
  "advance t T = advance_jobs t (tl_start T) (tl_jobs T) (tl_made T)"

definition timeline_of :: "env \<Rightarrow> player \<Rightarrow> timeline" where
  "timeline_of e p = \<lparr>tl_start = head_start p,
     tl_jobs = map (\<lambda>k. (k, fm_Time (job e p k), fm_BuildID (job e p k))) (i_MakingBuildingQueue (p_Info p)),
     tl_made = i_MakedBuildingQueue (p_Info p)\<rparr>"

lemma advance_jobs_cut:
  "ts = map (fst \<circ> snd) js \<Longrightarrow> c = cut ts (t - s) \<Longrightarrow>
   advance_jobs t s js made =
     \<lparr>tl_start = (if c < length js then s + sum_list (take c ts) else 0), tl_jobs = drop c js,
      tl_made = made @ map (snd \<circ> snd) (take c js)\<rparr>"
proof (induction t s js made arbitrary: ts c rule: advance_jobs.induct)
  case (2 t s k d b js made)
  then show ?case by (cases "t - s < d") (simp_all add: algebra_simps)
qed simp

lemma advance_twice:
  assumes "t \<le> t'"
  shows "advance t' (advance t T) = advance t' T"
proof -
  have "advance t' (advance_jobs t s js made) = advance_jobs t' s js made" for s js made
    using assms by (induction t s js made rule: advance_jobs.induct) (auto simp: advance_def)
  then show ?thesis by (simp add: advance_def [of t T] advance_def [of t' T])
qed

lemma query_ok:
  assumes ok: "making_ok e p" and mo: "making_only (after_query e p) q"
    and sv: "served e (i_MakingBuildingQueue (p_Info p)) (ended e p) rest
      (p_MakingFormulaBuildings p) (p_MakingFormulaBuildings q)"
  shows "making_ok e q"
proof -
  define Q where "Q = i_MakingBuildingQueue (p_Info p)"
  note sv = sv [folded Q_def]
  have jobs: "jobs_ok e p Q" and dQ: "distinct Q" using ok by (auto simp: making_ok_def Q_def)
  have Q': "i_MakingBuildingQueue (p_Info q) = drop (ended e p) Q"
    using making_only_frame(1) [OF mo] by (simp add: after_query_def Q_def)
  have "mk_FormulaId d = 0"
    if "map_of (p_MakingFormulaBuildings q) k = Some d" "k \<notin> set (drop (ended e p) Q)" for k d
  proof (cases "k \<in> set (take (ended e p) Q)")
    case True
    then have "map_of (p_MakingFormulaBuildings q) k =
        map_option (\<lambda>d. d\<lparr>mk_FormulaId := 0, mk_StartTime := 0\<rparr>) (map_of (p_MakingFormulaBuildings p) k)"
      using sv by (simp add: served_def)
    with that(1) show ?thesis by auto
  next
    case False
    have "k \<notin> set Q" using False that(2) by (metis append_take_drop_id in_set_conv_decomp set_append Un_iff)
    moreover from this have "map_of (p_MakingFormulaBuildings q) k = map_of (p_MakingFormulaBuildings p) k"
      using sv False by (auto simp: served_def)
    ultimately show ?thesis using ok that(1) by (auto simp: making_ok_def Q_def)
  qed
  moreover have "jobs_ok e q (drop (ended e p) Q)"
    using served_jobs(2) [OF sv dQ jobs] by (auto simp: jobs_ok_def)
  moreover have "col_wf (p_MakingFormulaBuildings q)"
    using ok sv by (simp add: making_ok_def served_def col_wf_def)
  ultimately show ?thesis using dQ unfolding making_ok_def Q' by simp
qed

lemma query_timeline:
  assumes ok: "making_ok e p" and mo: "making_only (after_query e p) q"
    and sv: "served e (i_MakingBuildingQueue (p_Info p)) (ended e p)
      (now e - head_start p - sum_list (take (ended e p) (job_times e p)))
      (p_MakingFormulaBuildings p) (p_MakingFormulaBuildings q)"
  shows "timeline_of e q = advance (now e) (timeline_of e p)"
proof -
  define Q where "Q = i_MakingBuildingQueue (p_Info p)"
  define c where "c = ended e p"
  define rest where "rest = now e - head_start p - sum_list (take c (job_times e p))"
  note sv = sv [folded c_def, folded Q_def rest_def]
  have jobs: "jobs_ok e p Q" and dQ: "distinct Q" using ok by (auto simp: making_ok_def Q_def)
  have Q': "i_MakingBuildingQueue (p_Info q) = drop c Q"
    and m': "i_MakedBuildingQueue (p_Info q) = i_MakedBuildingQueue (p_Info p) @ take c (job_buildings e p)"
    using making_only_frame(1) [OF mo] by (simp_all add: after_query_def Q_def c_def)
  have hs: "head_start q = (if c < length Q then head_start p + sum_list (take c (job_times e p)) else 0)"
  proof (cases "c < length Q")
    case True
    then have d: "drop c Q = Q ! c # drop (Suc c) Q" by (simp add: Cons_nth_drop_Suc)
    have nt: "Q ! c \<notin> set (take c Q)" using dQ d by (metis append_take_drop_id disjoint_insert(1) distinct_append list.simps(15))
    have "Q ! c \<in> set Q" using True by simp
    with jobs obtain x where "map_of (p_MakingFormulaBuildings p) (Q ! c) = Some x" by (metis jobs_okD)
    then have "map_of (p_MakingFormulaBuildings q) (Q ! c) = Some (x\<lparr>mk_StartTime := now e - rest\<rparr>)"
      using sv nt True by (simp add: served_def)
    then show ?thesis using True Q' d by (simp add: head_start_def rest_def)
  qed (simp add: head_start_def Q')
  have "map (\<lambda>k. (k, fm_Time (job e q k), fm_BuildID (job e q k))) (drop c Q) =
      map (\<lambda>k. (k, fm_Time (job e p k), fm_BuildID (job e p k))) (drop c Q)"
    using served_jobs(1) [OF sv dQ jobs] by simp
  then have "timeline_of e q = \<lparr>tl_start = (if c < length Q then head_start p + sum_list (take c (job_times e p)) else 0),
      tl_jobs = drop c (tl_jobs (timeline_of e p)),
      tl_made = tl_made (timeline_of e p) @ take c (job_buildings e p)\<rparr>"
    by (simp add: timeline_of_def Q' m' hs drop_map Q_def [symmetric])
  moreover have "advance (now e) (timeline_of e p) = \<dots>"
    unfolding advance_def
    by (subst advance_jobs_cut [OF refl refl])
      (simp add: timeline_of_def c_def ended_def job_times_def job_buildings_def Q_def [symmetric] o_def take_map)
  ultimately show ?thesis by simp
qed

lemma advance_start: "0 \<le> tl_start T \<Longrightarrow> tl_start T \<le> t \<Longrightarrow> 0 \<le> t \<Longrightarrow> \<forall>(k, d, b) \<in> set (tl_jobs T). 0 \<le> d \<Longrightarrow>
  0 \<le> tl_start (advance t T) \<and> tl_start (advance t T) \<le> t"
proof -
  have "0 \<le> s \<Longrightarrow> s \<le> t \<Longrightarrow> 0 \<le> t \<Longrightarrow> \<forall>(k, d, b) \<in> set js. 0 \<le> d \<Longrightarrow>
    0 \<le> tl_start (advance_jobs t s js made) \<and> tl_start (advance_jobs t s js made) \<le> t" for s js made
    by (induction t s js made rule: advance_jobs.induct) auto
  then show "0 \<le> tl_start T \<Longrightarrow> tl_start T \<le> t \<Longrightarrow> 0 \<le> t \<Longrightarrow> \<forall>(k, d, b) \<in> set (tl_jobs T). 0 \<le> d \<Longrightarrow>
    0 \<le> tl_start (advance t T) \<and> tl_start (advance t T) \<le> t" by (simp add: advance_def)
qed

lemma clock_ok_query:
  assumes ok: "making_ok e p" and "clock_ok e p" and "timeline_of e q = advance (now e) (timeline_of e p)"
  shows "clock_ok e q"
proof -
  have "\<forall>(k, d, b) \<in> set (tl_jobs (timeline_of e p)). 0 \<le> d"
    using ok by (auto simp: timeline_of_def making_ok_def elim!: jobs_okD)
  from advance_start [OF _ _ _ this, of "now e"] assms(2,3) show ?thesis
    by (metis clock_ok_def order_trans timeline.select_convs(1) timeline_of_def)
qed

text \<open>An empty column is filled with the two default slots first.\<close>

lemma init_slots_ok:
  assumes "making_ok e p"
  shows "making_ok e (init_slots p)" and "timeline_of e (init_slots p) = timeline_of e p"
    and "p_MakingFormulaBuildings (init_slots p) \<noteq> []"
    and "get_formula_buildings e (init_slots p) = get_formula_buildings e p"
proof -
  have "making_ok e (init_slots p) \<and> timeline_of e (init_slots p) = timeline_of e p \<and>
     p_MakingFormulaBuildings (init_slots p) \<noteq> [] \<and> init_slots (init_slots p) = init_slots p"
  proof (cases "p_MakingFormulaBuildings p = []")
    case True
    have "i_MakingBuildingQueue (p_Info p) = []"
    proof (rule ccontr)
      assume "i_MakingBuildingQueue (p_Info p) \<noteq> []"
      then obtain k where "k \<in> set (i_MakingBuildingQueue (p_Info p))" by (cases "i_MakingBuildingQueue (p_Info p)") auto
      moreover have "jobs_ok e p (i_MakingBuildingQueue (p_Info p))" using assms by (simp add: making_ok_def)
      ultimately obtain x where "map_of (p_MakingFormulaBuildings p) k = Some x" by (metis jobs_okD)
      with True show False by simp
    qed
    moreover have "[1 .. 2] = [1, 2 :: int]" by (simp add: upto.simps)
    ultimately show ?thesis using True
      by (auto simp: init_slots_def making_ok_def col_GetAllIndex_def SetMakingBuildingQueue_def timeline_of_def
        head_start_def jobs_ok_def col_Add_def col_HasIndex_def col_wf_def split: if_splits)
  next
    case False
    then show ?thesis using assms by (simp add: init_slots_def col_GetAllIndex_def)
  qed
  then show "making_ok e (init_slots p)" and "timeline_of e (init_slots p) = timeline_of e p"
    and "p_MakingFormulaBuildings (init_slots p) \<noteq> []"
    and "get_formula_buildings e (init_slots p) = get_formula_buildings e p"
    by (auto simp: get_formula_buildings_def)
qed

lemma init_slots_frame [simp]:
  "p_Items (init_slots p) = p_Items p" "p_BuildingDepots (init_slots p) = p_BuildingDepots p"
  "p_DepotBuildingFormulas (init_slots p) = p_DepotBuildingFormulas p"
  "i_Gold (p_Info (init_slots p)) = i_Gold (p_Info p)" "i_Diamond (p_Info (init_slots p)) = i_Diamond (p_Info p)"
  by (simp_all add: init_slots_def SetMakingBuildingQueue_def)

lemma clock_ok_timeline: "timeline_of e q = timeline_of e p \<Longrightarrow> clock_ok e q = clock_ok e p"
  by (simp add: timeline_of_def clock_ok_def)

lemma query_refines:
  assumes "making_ok e p" "clock_ok e p"
  shows "\<exists>slots q. get_formula_buildings e p = Some ((slots, tl_made (advance (now e) (timeline_of e p))), q) \<and>
    timeline_of e q = advance (now e) (timeline_of e p) \<and> making_ok e q \<and> clock_ok e q \<and>
    p_MakingFormulaBuildings q \<noteq> [] \<and>
    p_Items q = p_Items p \<and> p_BuildingDepots q = p_BuildingDepots p \<and>
    i_Diamond (p_Info q) = i_Diamond (p_Info p) \<and> i_Gold (p_Info q) = i_Gold (p_Info p)"
proof -
  note i = init_slots_ok [OF assms(1)]
  have clk: "clock_ok e (init_slots p)" using clock_ok_timeline [OF i(2)] assms(2) by simp
  from query_run [OF i(1) clk i(3)] obtain slots q where
    q: "get_formula_buildings e p = Some ((slots, i_MakedBuildingQueue (p_Info (init_slots p))
          @ take (ended e (init_slots p)) (job_buildings e (init_slots p))), q)"
    and mo: "making_only (after_query e (init_slots p)) q"
    and sv: "served e (i_MakingBuildingQueue (p_Info (init_slots p))) (ended e (init_slots p))
      (now e - head_start (init_slots p) - sum_list (take (ended e (init_slots p)) (job_times e (init_slots p))))
      (p_MakingFormulaBuildings (init_slots p)) (p_MakingFormulaBuildings q)"
    unfolding i(4) by blast
  have tl: "timeline_of e q = advance (now e) (timeline_of e p)"
    using query_timeline [OF i(1) mo sv] i(2) by simp
  have "i_MakedBuildingQueue (p_Info (init_slots p)) @ take (ended e (init_slots p)) (job_buildings e (init_slots p)) =
      tl_made (timeline_of e q)"
    using making_only_frame(1) [OF mo] by (simp add: timeline_of_def after_query_def)
  moreover have "p_MakingFormulaBuildings q \<noteq> []" using sv i(3) by (auto simp: served_def)
  ultimately show ?thesis
    using q tl query_ok [OF i(1) mo sv] clock_ok_query [OF i(1) clk query_timeline [OF i(1) mo sv]]
      making_only_frame [OF mo]
    by (intro exI [of _ slots] exI [of _ q]) (simp add: after_query_def)
qed

subsection \<open>Delivery\<close>

definition depot_num :: "player \<Rightarrow> int \<Rightarrow> int" where
  "depot_num p b = (case map_of (p_BuildingDepots p) b of None \<Rightarrow> 0 | Some n \<Rightarrow> n)"

lemma AddHandbook_frame [simp]:
  "p_BuildingDepots (AddHandbookItem e k p) = p_BuildingDepots p"
  "p_MakingFormulaBuildings (AddHandbookItem e k p) = p_MakingFormulaBuildings p"
  "p_Info (AddHandbookItem e k p) = p_Info p"
  by (simp_all add: AddHandbookItem_def add_handbook_data_def Let_def)

lemma AddDepot_frame:
  "p_MakingFormulaBuildings (snd (AddDepotBuilding e b n p)) = p_MakingFormulaBuildings p"
  "p_Info (snd (AddDepotBuilding e b n p)) = p_Info p"
  by (simp_all add: AddDepotBuilding_def Let_def depot_building_update_def split: option.splits)

lemma AddDepot_one:
  assumes "building_map e b \<noteq> None" "0 \<le> depot_num p b" "depot_num p b < max32"
  shows "depot_num (snd (AddDepotBuilding e b 1 p)) c = depot_num p c + (if c = b then 1 else 0)"
  using assms
  by (auto simp: AddDepotBuilding_def Let_def depot_building_update_def depot_num_def col_simps i32_range_id
    split: option.splits)

lemma add_made_frame:
  "p_MakingFormulaBuildings (add_made_buildings e bs p) = p_MakingFormulaBuildings p"
  "p_Info (add_made_buildings e bs p) = p_Info p"
  by (induction bs arbitrary: p) (simp_all add: AddDepot_frame)

lemma add_made_count:
  "\<forall>b \<in> set bs. building_map e b \<noteq> None \<Longrightarrow>
   \<forall>b. 0 \<le> depot_num p b \<and> depot_num p b + int (count_list bs b) \<le> max32 \<Longrightarrow>
   depot_num (add_made_buildings e bs p) c = depot_num p c + int (count_list bs c)"
proof (induction bs arbitrary: p)
  case (Cons b bs)
  let ?q = "snd (AddDepotBuilding e b 1 p)"
  from Cons.prems(2) have lt: "0 \<le> depot_num p b" "depot_num p b < max32"
    using spec [OF Cons.prems(2), of b] by auto
  have one: "depot_num ?q c = depot_num p c + (if c = b then 1 else 0)" for c
    by (rule AddDepot_one) (use Cons.prems(1) lt in auto)
  have "\<forall>c. 0 \<le> depot_num ?q c \<and> depot_num ?q c + int (count_list bs c) \<le> max32"
  proof
    fix c show "0 \<le> depot_num ?q c \<and> depot_num ?q c + int (count_list bs c) \<le> max32"
      using spec [OF Cons.prems(2), of c] by (auto simp: one)
  qed
  then show ?case using Cons.IH [of ?q] Cons.prems(1) one by auto
qed simp

lemma same_making:
  assumes "p_MakingFormulaBuildings q = p_MakingFormulaBuildings p" "p_Info q = p_Info p"
  shows "timeline_of e q = timeline_of e p" "making_ok e q = making_ok e p" "clock_ok e q = clock_ok e p"
proof -
  have "head_start q = head_start p" "job e q = job e p" "jobs_ok e q = jobs_ok e p"
    using assms by (auto simp: head_start_def job_def jobs_ok_def fun_eq_iff split: list.split)
  then show "timeline_of e q = timeline_of e p" "making_ok e q = making_ok e p" "clock_ok e q = clock_ok e p"
    using assms by (simp_all add: timeline_of_def making_ok_def clock_ok_def)
qed

lemma pull_refines:
  assumes "making_ok e p" "clock_ok e p"
  shows "\<exists>q. pull_formula_building e p = Some (1, q) \<and>
    timeline_of e q = advance (now e) (timeline_of e p) \<and> making_ok e q \<and> clock_ok e q \<and>
    p_MakingFormulaBuildings q \<noteq> [] \<and> p_BuildingDepots q = p_BuildingDepots p \<and>
    i_Diamond (p_Info q) = i_Diamond (p_Info p)"
proof -
  from query_refines [OF assms] obtain slots q where
    q: "get_formula_buildings e p = Some ((slots, tl_made (advance (now e) (timeline_of e p))), q)"
      "timeline_of e q = advance (now e) (timeline_of e p)" "making_ok e q" "clock_ok e q"
      "p_MakingFormulaBuildings q \<noteq> []" "p_BuildingDepots q = p_BuildingDepots p"
      "i_Diamond (p_Info q) = i_Diamond (p_Info p)" by blast
  let ?q = "Send_msg (S2CGetMakingFormulaBuildingsResult slots (tl_made (advance (now e) (timeline_of e p)))) q"
  have "timeline_of e ?q = timeline_of e q" "making_ok e ?q = making_ok e q" "clock_ok e ?q = clock_ok e q"
    by (rule same_making; simp)+
  with q show ?thesis
    by (intro exI [of _ ?q]) (simp add: pull_formula_building_def)
qed

lemma advance_done:
  assumes "\<forall>t \<in> set (job_times e p). 0 \<le> t" "head_start p + sum_list (job_times e p) \<le> now e"
  shows "advance (now e) (timeline_of e p) =
    \<lparr>tl_start = 0, tl_jobs = [], tl_made = i_MakedBuildingQueue (p_Info p) @ job_buildings e p\<rparr>"
proof -
  have "cut (job_times e p) (now e - head_start p) = length (job_times e p)"
    by (rule cut_all) (use assms in auto)
  then show ?thesis unfolding advance_def
    by (subst advance_jobs_cut [OF refl refl])
      (simp add: timeline_of_def job_times_def job_buildings_def o_def)
qed

lemma times_nonneg: "making_ok e p \<Longrightarrow> \<forall>t \<in> set (job_times e p). 0 \<le> t"
  by (auto simp: job_times_def making_ok_def elim!: jobs_okD)

lemma no_jobs: "tl_jobs (timeline_of e p) = [] \<longleftrightarrow> i_MakingBuildingQueue (p_Info p) = []"
  by (simp add: timeline_of_def)

lemma making_ok_now [simp]: "making_ok (e\<lparr>now := t\<rparr>) p = making_ok e p"
  by (simp add: making_ok_def jobs_ok_def cong: option.case_cong)

lemma timeline_now [simp]: "timeline_of (e\<lparr>now := t\<rparr>) p = timeline_of e p"
  by (simp add: timeline_of_def job_def)

text \<open>
  Property C19. The making queue is a time line. In a well formed state, with the start of the running
  job in the past, a query never panics and is exactly the advance of the abstract time line: it ends
  the longest prefix of the queue whose times, one after the other, fit into the elapsed seconds, moves
  their buildings to the made ones in that order, restarts the next job at the instant its
  predecessor ended, and keeps the state well formed. So it does not matter when or how often the
  client asks: a query at \<open>t\<close> finds the same made buildings and leaves the same time line, whether or
  not there was a query before it.
\<close>

theorem formula_queue_timeline:
  assumes "making_ok e p" "clock_ok e p" "now e \<le> t" "t \<le> max32"
  shows "\<exists>slots q. get_formula_buildings e p = Some ((slots, tl_made (advance (now e) (timeline_of e p))), q) \<and>
    timeline_of e q = advance (now e) (timeline_of e p) \<and> making_ok e q \<and>
    p_Items q = p_Items p \<and> p_BuildingDepots q = p_BuildingDepots p \<and>
    (\<exists>slots1 slots2 made s1 s2. get_formula_buildings (e\<lparr>now := t\<rparr>) q = Some ((slots1, made), s1) \<and>
       get_formula_buildings (e\<lparr>now := t\<rparr>) p = Some ((slots2, made), s2) \<and>
       timeline_of e s1 = timeline_of e s2)"
proof -
  let ?e = "e\<lparr>now := t\<rparr>"
  from query_refines [OF assms(1,2)] obtain slots q where
    q: "get_formula_buildings e p = Some ((slots, tl_made (advance (now e) (timeline_of e p))), q)"
      "timeline_of e q = advance (now e) (timeline_of e p)" "making_ok e q" "clock_ok e q"
      "p_Items q = p_Items p" "p_BuildingDepots q = p_BuildingDepots p" by blast
  have "clock_ok ?e q" "clock_ok ?e p" using q(4) assms(2-4) by (auto simp: clock_ok_def)
  then obtain s1 s2 slots1 slots2 where
    "get_formula_buildings ?e q = Some ((slots1, tl_made (advance t (timeline_of e q))), s1)"
    "timeline_of e s1 = advance t (timeline_of e q)"
    "get_formula_buildings ?e p = Some ((slots2, tl_made (advance t (timeline_of e p))), s2)"
    "timeline_of e s2 = advance t (timeline_of e p)"
    using query_refines [of ?e q] query_refines [of ?e p] q(3) assms(1) by auto
  with q show ?thesis by (simp add: advance_twice [OF assms(3)])
qed

text \<open>Two orders of ten seconds each, the first started at 100, seen at 115.\<close>

definition demo_formula :: xml_formula where
  "demo_formula = \<lparr>fm_Id = 7, fm_BuildID = 501, fm_Rarity = 1, fm_UnlockChapter = 0, fm_Star = 0,
     fm_Time = 10, fm_Cost = 0, fm_CostItems = [], fm_Exp = 0\<rparr>"

definition demo_building :: xml_building where
  "demo_building = \<lparr>bd_Id = 501, bd_Type = 1, bd_Rarity = 1, bd_Tag = 0, bd_UnlockType = 0, bd_UnlockLevel = 0, bd_UnlockCosts = [], bd_Charm = 0,
       bd_Geography = 1, bd_SaleCoin = 0, bd_MapSizes = [1, 1], bd_IfFunction = 0\<rparr>"

definition demo_making_env :: "int \<Rightarrow> env" where
  "demo_making_env t = empty_env\<lparr>now := t, formula_map := [7 \<mapsto> demo_formula],
     building_map := [501 \<mapsto> demo_building],
     config := empty_config\<lparr>gc_FormulaSpeedupMakingBuildingCostDiamond := 5\<rparr>\<rparr>"

definition demo_making_player :: player where
  "demo_making_player = empty_player\<lparr>
     p_MakingFormulaBuildings := [(1, \<lparr>mk_FormulaId = 7, mk_StartTime = 100\<rparr>),
       (2, \<lparr>mk_FormulaId = 7, mk_StartTime = 101\<rparr>)],
     p_Info := empty_info\<lparr>i_MakingBuildingQueue := [1, 2]\<rparr>\<rparr>"

lemmas demo_making_defs = demo_making_env_def demo_making_player_def demo_formula_def demo_building_def
  empty_env_def empty_player_def empty_info_def empty_config_def

lemma demo_making_ok: "making_ok (demo_making_env t) demo_making_player"
  by (auto simp: making_ok_def jobs_ok_def col_wf_def demo_making_defs)

lemma demo_clock_ok: "100 \<le> t \<Longrightarrow> t \<le> max32 \<Longrightarrow> clock_ok (demo_making_env t) demo_making_player"
  by (simp add: clock_ok_def head_start_def demo_making_defs)

lemma demo_timeline: "timeline_of (demo_making_env t) demo_making_player =
    \<lparr>tl_start = 100, tl_jobs = [(1, 10, 501), (2, 10, 501)], tl_made = []\<rparr>"
  by (simp add: timeline_of_def head_start_def job_def demo_making_defs)

lemma formula_queue_timeline_witness:
  "\<exists>slots q. get_formula_buildings (demo_making_env 115) demo_making_player = Some ((slots, [501]), q) \<and>
     timeline_of (demo_making_env 115) q = \<lparr>tl_start = 110, tl_jobs = [(2, 10, 501)], tl_made = [501]\<rparr>"
proof -
  have n: "now (demo_making_env 115) = 115" by (simp add: demo_making_env_def)
  have a: "advance 115 \<lparr>tl_start = 100, tl_jobs = [(1, 10, 501), (2, 10, 501)], tl_made = []\<rparr> =
      \<lparr>tl_start = 110, tl_jobs = [(2, 10, 501)], tl_made = [501]\<rparr>" by (simp add: advance_def)
  show ?thesis
    using formula_queue_timeline [OF demo_making_ok [of 115] demo_clock_ok [of 115], of 130]
    unfolding n demo_timeline a by (simp add: n) blast
qed

text \<open>
  Property C20. Ordered buildings are delivered, in a formula queue that is well formed on a clock that
  has not run back. When all queued jobs have had their time, there is something made or queued, the
  table knows every such building and the depot has room for them, one query followed by one collection succeeds: the queue and the list of made
  buildings are empty, every slot is free, and the depot holds for each building exactly as many more
  as were made or queued.
\<close>

theorem orders_delivered:
  assumes "making_ok e p" "clock_ok e p"
    and elapsed: "head_start p + sum_list (job_times e p) \<le> now e"
    and some: "i_MakedBuildingQueue (p_Info p) @ job_buildings e p \<noteq> []"
    and known: "\<forall>b \<in> set (i_MakedBuildingQueue (p_Info p) @ job_buildings e p). building_map e b \<noteq> None"
    and room: "\<forall>b. 0 \<le> depot_num p b \<and>
      depot_num p b + int (count_list (i_MakedBuildingQueue (p_Info p) @ job_buildings e p) b) \<le> max32"
  shows "\<exists>q r. pull_formula_building e p = Some (1, q) \<and> get_completed_formula_building e q = Some (1, r) \<and>
    i_MakingBuildingQueue (p_Info r) = [] \<and> i_MakedBuildingQueue (p_Info r) = [] \<and>
    (\<forall>k d. map_of (p_MakingFormulaBuildings r) k = Some d \<longrightarrow> mk_FormulaId d = 0) \<and>
    (\<forall>b. depot_num r b =
       depot_num p b + int (count_list (i_MakedBuildingQueue (p_Info p) @ job_buildings e p) b))"
proof -
  let ?bs = "i_MakedBuildingQueue (p_Info p) @ job_buildings e p"
  from pull_refines [OF assms(1,2)] obtain q where
    q: "pull_formula_building e p = Some (1, q)" "timeline_of e q = advance (now e) (timeline_of e p)"
      "making_ok e q" "clock_ok e q" "p_MakingFormulaBuildings q \<noteq> []" "p_BuildingDepots q = p_BuildingDepots p"
    by blast
  have tl: "timeline_of e q = \<lparr>tl_start = 0, tl_jobs = [], tl_made = ?bs\<rparr>"
    using q(2) advance_done [OF times_nonneg [OF assms(1)] elapsed] by simp
  then have Q: "i_MakingBuildingQueue (p_Info q) = []" and M: "i_MakedBuildingQueue (p_Info q) = ?bs"
    using no_jobs [of e q] by (simp_all add: timeline_of_def)
  let ?r = "Send_msg (S2CGetCompletedFormulaBuildingResult ?bs)
      (SendDepotBuildingUpdate (add_made_buildings e ?bs (SetMakedBuildingQueue [] q)))"
  have fr: "p_MakingFormulaBuildings ?r = p_MakingFormulaBuildings q"
      "p_Info ?r = p_Info q\<lparr>i_MakedBuildingQueue := []\<rparr>"
    by (simp_all add: add_made_frame SetMakedBuildingQueue_def)
  have hr: "head_start ?r = 0" unfolding head_start_def fr by (simp add: Q)
  have ok: "making_ok e ?r" using q(3) Q unfolding making_ok_def jobs_ok_def fr by simp
  have clk: "clock_ok e ?r" using q(4) hr by (simp add: clock_ok_def)
  have tr: "timeline_of e ?r = \<lparr>tl_start = 0, tl_jobs = [], tl_made = []\<rparr>"
    unfolding timeline_of_def hr fr by (simp add: Q)
  from pull_refines [OF ok clk] obtain r where
    r: "pull_formula_building e ?r = Some (1, r)" "timeline_of e r = advance (now e) (timeline_of e ?r)"
      "making_ok e r" "p_BuildingDepots r = p_BuildingDepots ?r" by blast
  have tr': "timeline_of e r = \<lparr>tl_start = 0, tl_jobs = [], tl_made = []\<rparr>"
    unfolding r(2) tr by (simp add: advance_def)
  then have Qr: "i_MakingBuildingQueue (p_Info r) = []" "i_MakedBuildingQueue (p_Info r) = []"
    by (simp_all add: timeline_of_def)
  have "get_completed_formula_building e q = Some (1, r)"
    using q(5) some r(1) by (simp add: get_completed_formula_building_def col_GetAllIndex_def M Let_def)
  moreover have "depot_num r b = depot_num p b + int (count_list ?bs b)" for b
  proof -
    have dp: "depot_num (SetMakedBuildingQueue [] q) c = depot_num p c" for c
      using q(6) by (simp add: depot_num_def SetMakedBuildingQueue_def)
    have "depot_num r b = depot_num (add_made_buildings e ?bs (SetMakedBuildingQueue [] q)) b"
      by (simp add: depot_num_def r(4) quiet_frame [OF quiet_SendDepotBuildingUpdate])
    also have "\<dots> = depot_num p b + int (count_list ?bs b)"
      using add_made_count [OF known, of "SetMakedBuildingQueue [] q" b] room unfolding dp by blast
    finally show ?thesis .
  qed
  moreover have "\<forall>k d. map_of (p_MakingFormulaBuildings r) k = Some d \<longrightarrow> mk_FormulaId d = 0"
    using r(3) Qr by (simp add: making_ok_def)
  ultimately show ?thesis using q(1) Qr by blast
qed

lemma orders_delivered_witness:
  "\<exists>q r. pull_formula_building (demo_making_env 120) demo_making_player = Some (1, q) \<and>
     get_completed_formula_building (demo_making_env 120) q = Some (1, r) \<and>
     i_MakingBuildingQueue (p_Info r) = [] \<and> depot_num r 501 = 2"
proof -
  have b: "job_buildings (demo_making_env 120) demo_making_player = [501, 501]"
    "job_times (demo_making_env 120) demo_making_player = [10, 10]"
    by (simp_all add: job_buildings_def job_times_def job_def demo_making_defs)
  have m: "i_MakedBuildingQueue (p_Info demo_making_player) = []" "head_start demo_making_player = 100"
    "now (demo_making_env 120) = 120" "depot_num demo_making_player c = 0"
    "building_map (demo_making_env 120) 501 \<noteq> None" for c
    by (simp_all add: demo_making_defs head_start_def depot_num_def)
  have "\<exists>q r. pull_formula_building (demo_making_env 120) demo_making_player = Some (1, q) \<and>
     get_completed_formula_building (demo_making_env 120) q = Some (1, r) \<and>
     i_MakingBuildingQueue (p_Info r) = [] \<and> i_MakedBuildingQueue (p_Info r) = [] \<and>
     (\<forall>k d. map_of (p_MakingFormulaBuildings r) k = Some d \<longrightarrow> mk_FormulaId d = 0) \<and>
     (\<forall>b. depot_num r b = depot_num demo_making_player b +
       int (count_list (i_MakedBuildingQueue (p_Info demo_making_player)
         @ job_buildings (demo_making_env 120) demo_making_player) b))"
    by (rule orders_delivered [OF demo_making_ok demo_clock_ok]) (use b m in auto)
  then show ?thesis by (auto simp: b m)
qed

subsection \<open>Speeding up\<close>

text \<open>
  Two orders placed at 100 and 101, a speed-up at 105 by a player without a diamond: it answers 1, the
  balance stays 0, and the second job, which was waiting until now, is credited with the four seconds
  since it was ordered. Nothing compares the price with the balance, and the start of the next job is
  never set.
\<close>

lemma demo_making_sel:
  "now (demo_making_env t) = t" "formula_map (demo_making_env t) 7 = Some demo_formula"
  "gc_FormulaSpeedupMakingBuildingCostDiamond (config (demo_making_env t)) = 5"
  "fm_Time demo_formula = 10" "fm_BuildID demo_formula = 501"
  "p_MakingFormulaBuildings demo_making_player =
     [(1, \<lparr>mk_FormulaId = 7, mk_StartTime = 100\<rparr>), (2, \<lparr>mk_FormulaId = 7, mk_StartTime = 101\<rparr>)]"
  "i_MakingBuildingQueue (p_Info demo_making_player) = [1, 2]"
  "i_MakedBuildingQueue (p_Info demo_making_player) = []" "i_Diamond (p_Info demo_making_player) = 0"
  by (simp_all add: demo_making_defs)

lemma speedup_free_and_credited:
  "\<exists>q. speedup_making_building (demo_making_env 105) demo_making_player = Some (1, q) \<and>
     i_Diamond (p_Info q) = 0 \<and> i_MakedBuildingQueue (p_Info q) = [501] \<and>
     timeline_of (demo_making_env 105) q = \<lparr>tl_start = 101, tl_jobs = [(2, 10, 501)], tl_made = [501]\<rparr>"
proof -
  let ?e = "demo_making_env 105" and ?p = demo_making_player
  let ?q = "snd (SubDiamond 1 (count_made ?e demo_formula (SetMakedBuildingQueue [501]
      (SetMakingBuildingQueue [2] (clear_slot 1 (SetMakedBuildingQueue [] (SetMakingBuildingQueue [1, 2] ?p)))))))"
  let ?s = "Send_msg (S2CGetMakingFormulaBuildingsResult [(1, 7, 600), (1, 7, 600)] [501])
      (Send_msg (S2CSpeedupMakeBuildingResult 1) ?q)"
  have col: "p_MakingFormulaBuildings ?s = [(1, \<lparr>mk_FormulaId = 0, mk_StartTime = 0\<rparr>), (2, \<lparr>mk_FormulaId = 7, mk_StartTime = 101\<rparr>)]"
    by (simp add: SubDiamond_def Info_SubDiamond_def Let_def Info_Set_def SetMakedBuildingQueue_def
      SetMakingBuildingQueue_def clear_slot_def Making_Set_def col_set_field_def demo_making_sel)
  have info: "p_Info ?s = (p_Info ?p)\<lparr>i_MakingBuildingQueue := [2], i_MakedBuildingQueue := [501]\<rparr>"
    by (simp add: SubDiamond_def Info_SubDiamond_def Let_def Info_Set_def SetMakedBuildingQueue_def count_made_def
      SetMakingBuildingQueue_def clear_slot_def Making_Set_def demo_making_defs i32_def)
  have tl: "timeline_of ?e ?s = \<lparr>tl_start = 101, tl_jobs = [(2, 10, 501)], tl_made = [501]\<rparr>"
    unfolding timeline_of_def head_start_def job_def col info by (simp add: demo_making_sel)
  have "making_ok ?e ?s" "clock_ok ?e ?s"
    unfolding making_ok_def jobs_ok_def clock_ok_def head_start_def col info
    by (auto simp: demo_making_sel col_wf_def)
  from pull_refines [OF this] obtain q where q: "pull_formula_building ?e ?s = Some (1, q)"
    "timeline_of ?e q = advance 105 (timeline_of ?e ?s)" "i_Diamond (p_Info q) = i_Diamond (p_Info ?s)"
    unfolding demo_making_sel(1) by blast
  have "i_Diamond (p_Info q) = 0" unfolding q(3) info by (simp add: demo_making_sel)
  have query: "get_formula_buildings ?e ?p = Some (([(1, 7, 5), (2, 7, 600)], []),
      SetMakedBuildingQueue [] (SetMakingBuildingQueue [1, 2] ?p))"
    by (simp add: get_formula_buildings_def init_slots_def col_GetAllIndex_def demo_making_sel Let_def
      make_formula_building_msg_data_def go_nth_def i32_def Making_Set_def col_set_field_def)
      (simp add: demo_making_defs)
  have "speedup_making_building ?e ?p = Some (1, q)"
    unfolding speedup_making_building_def query
    using q(1) unfolding count_made_def clear_slot_def
    by (simp add: demo_making_sel shift_reply_def quot32_def i32_def Let_def
      SetMakedBuildingQueue_def SetMakingBuildingQueue_def Making_Set_def go_nth_def)
  moreover have "timeline_of ?e q = \<lparr>tl_start = 101, tl_jobs = [(2, 10, 501)], tl_made = [501]\<rparr>"
    unfolding q(2) tl by (simp add: advance_def)
  moreover from this have "i_MakedBuildingQueue (p_Info q) = [501]" by (simp add: timeline_of_def)
  ultimately show ?thesis using \<open>i_Diamond (p_Info q) = 0\<close> by blast
qed

end
