(* ===== verification/Frames.thy ===== *)
theory Frames
  imports Cats
begin

text \<open>
  What the resource operations leave alone. Adding, spending and dropping things touches the bag, the
  cats, the depot, the balances, the level and the tasks; the rows of the other systems (stages and
  chapters, sign-in, shops, draws, formulas, houses, crops, buildings) and their fields in \<open>Info\<close> (the stars among them) stay. \<open>side p\<close> collects
  them, and one lemma per operation says that it is kept.
\<close>

definition side_info :: "info_data \<Rightarrow> _" where
  "side_info i = (i_TotalStars i, i_CurMaxStage i, i_MaxUnlockStage i, i_MaxChapter i, i_CreateUnix i, i_VipCardEndDay i,
     i_DayHelpUnlockCount i, i_DayHelpUnlockUpDay i, i_MakingBuildingQueue i, i_MakedBuildingQueue i, i_VipLvl i,
     i_LastLogin i, i_NextBuildingId i, i_LastMapBlockUpUnix i, i_LastMapChestUpUnix i,
     (i_DayExpeditionCount i, i_DayExpeditionUpDay i, i_DayChgExpeditionCount i, i_DayChgExpeditionUpDay i,
       i_NextExpeditionId i))"

definition side :: "player \<Rightarrow> _" where
  "side p = (side_info (p_Info p), (p_Stages p, p_stage_id p, p_stage_cat_id p, p_stage_state p, p_ChapterUnLock p,
       p_new_unlock_chapter_id p),
     (p_Sign p, p_SevenDays p, p_ShopItems p, p_Shops p, p_FirstDrawCards p),
     (p_MakingFormulaBuildings p, p_DepotBuildingFormulas p), (p_CatHouses p, p_Crops p, p_Buildings p),
     (p_Friends p, p_FriendReqs p, p_FriendPoints p, p_FriendRelative p, p_FriendChatUnreadIds p,
       p_FriendChatUnreadMessages p),
     (p_Areas p, p_BlockNum p, p_FosterBuildingId p, p_map_init p, p_building_map p, p_open_pos p,
       p_areablocknum p),
     (p_Mails p, p_MailCurrId p, p_LastSendPlayerMailTime p, p_SysMailCurrId p, p_new_mail_ids p),
     (p_Expeditions p, p_NoNewbee p, p_Foster p, p_FosterCats p, p_FosterCatOnFriends p, p_FosterFriendCats p),
     (p_Space p, p_FocusPlayers p, p_MyPictureDatas p, p_OtherCatPictureUnlocks p))"

lemma side_frame:
  assumes "side q = side p"
  shows "p_Stages q = p_Stages p" "p_stage_id q = p_stage_id p" "p_stage_cat_id q = p_stage_cat_id p"
    "p_stage_state q = p_stage_state p" "p_ChapterUnLock q = p_ChapterUnLock p" "p_Sign q = p_Sign p"
    "p_SevenDays q = p_SevenDays p" "p_ShopItems q = p_ShopItems p" "p_Shops q = p_Shops p"
    "p_FirstDrawCards q = p_FirstDrawCards p" "p_MakingFormulaBuildings q = p_MakingFormulaBuildings p"
    "p_DepotBuildingFormulas q = p_DepotBuildingFormulas p" "p_CatHouses q = p_CatHouses p"
    "p_Crops q = p_Crops p" "p_Buildings q = p_Buildings p"
    "i_TotalStars (p_Info q) = i_TotalStars (p_Info p)" "i_CurMaxStage (p_Info q) = i_CurMaxStage (p_Info p)"
    "i_MaxUnlockStage (p_Info q) = i_MaxUnlockStage (p_Info p)" "i_MaxChapter (p_Info q) = i_MaxChapter (p_Info p)"
    "i_CreateUnix (p_Info q) = i_CreateUnix (p_Info p)" "i_VipCardEndDay (p_Info q) = i_VipCardEndDay (p_Info p)"
    "i_MakingBuildingQueue (p_Info q) = i_MakingBuildingQueue (p_Info p)"
    "i_MakedBuildingQueue (p_Info q) = i_MakedBuildingQueue (p_Info p)"
    "p_Friends q = p_Friends p" "p_FriendReqs q = p_FriendReqs p" "p_FriendPoints q = p_FriendPoints p"
    "p_FriendRelative q = p_FriendRelative p" "p_FriendChatUnreadIds q = p_FriendChatUnreadIds p"
    "p_FriendChatUnreadMessages q = p_FriendChatUnreadMessages p" "p_Areas q = p_Areas p"
    "p_BlockNum q = p_BlockNum p" "p_FosterBuildingId q = p_FosterBuildingId p" "p_map_init q = p_map_init p"
    "p_building_map q = p_building_map p" "p_open_pos q = p_open_pos p" "p_areablocknum q = p_areablocknum p"
    "p_Mails q = p_Mails p" "p_MailCurrId q = p_MailCurrId p"
    "p_LastSendPlayerMailTime q = p_LastSendPlayerMailTime p" "p_SysMailCurrId q = p_SysMailCurrId p"
    "p_new_mail_ids q = p_new_mail_ids p" "i_NextBuildingId (p_Info q) = i_NextBuildingId (p_Info p)"
    "i_LastMapBlockUpUnix (p_Info q) = i_LastMapBlockUpUnix (p_Info p)"
    "i_LastMapChestUpUnix (p_Info q) = i_LastMapChestUpUnix (p_Info p)"
    "i_DayExpeditionCount (p_Info q) = i_DayExpeditionCount (p_Info p)"
    "i_DayExpeditionUpDay (p_Info q) = i_DayExpeditionUpDay (p_Info p)"
    "i_DayChgExpeditionCount (p_Info q) = i_DayChgExpeditionCount (p_Info p)"
    "i_DayChgExpeditionUpDay (p_Info q) = i_DayChgExpeditionUpDay (p_Info p)"
    "i_NextExpeditionId (p_Info q) = i_NextExpeditionId (p_Info p)"
    "p_Expeditions q = p_Expeditions p" "p_NoNewbee q = p_NoNewbee p" "p_Foster q = p_Foster p"
    "p_FosterCats q = p_FosterCats p" "p_FosterCatOnFriends q = p_FosterCatOnFriends p"
    "p_FosterFriendCats q = p_FosterFriendCats p" "p_Space q = p_Space p"
    "p_FocusPlayers q = p_FocusPlayers p" "p_MyPictureDatas q = p_MyPictureDatas p"
    "p_OtherCatPictureUnlocks q = p_OtherCatPictureUnlocks p"
  using assms by (auto simp: side_def side_info_def)

lemma side_task_only: "task_only p q \<Longrightarrow> side q = side p"
  by (simp add: side_def task_only_frame)

lemmas side_quiet = side_task_only [OF quiet_task_only]

lemma side_updates [simp]:
  "side (p\<lparr>p_base_prop_chg := b\<rparr>) = side p" "side (p\<lparr>p_ndraws := n\<rparr>) = side p" "side (p\<lparr>p_Level := l\<rparr>) = side p"
  "side (p\<lparr>p_Items := i\<rparr>) = side p" "side (p\<lparr>p_Cats := c\<rparr>) = side p" "side (p\<lparr>p_BuildingDepots := d\<rparr>) = side p"
  "side (p\<lparr>p_HandbookItems := h\<rparr>) = side p" "side (p\<lparr>p_HeadItems := h\<rparr>) = side p"
  "side (p\<lparr>p_used_drop_ids := u\<rparr>) = side p"
  by (simp_all add: side_def)

lemma side_quiet_steps [simp]:
  "side (emit x p) = side p" "side (Send_msg m p) = side p" "side (push_new t a b c p) = side p"
  "side (rpc_rank_list_update_data rt ps p) = side p" "side (rpc_player_base_info_update p) = side p"
  "side (TaskUpdate e typ f a n p) = side p" "side (SendItemsUpdate p) = side p" "side (SendCatsUpdate p) = side p"
  "side (SendDepotBuildingUpdate p) = side p" "side (item_update e k p) = side p"
  "side (depot_building_update k p) = side p" "side (snd (cat_add k p)) = side p"
  "side (snd (cat_update k p)) = side p" "side (snd (cat_remove k p)) = side p"
  "side (snd (send_items_update p)) = side p" "side (snd (send_cats_update p)) = side p"
  by (rule side_quiet side_task_only; simp)+

lemma side_Info_Set: "(\<And>f i. side_info (upd f i) = side_info i) \<Longrightarrow> side (Info_Set upd v p) = side p"
  by (simp add: Info_Set_def side_def)

lemma side_Info_Incby: "(\<And>f i. side_info (upd f i) = side_info i) \<Longrightarrow> side (snd (Info_Incby sel upd v p)) = side p"
  by (simp add: Info_Incby_def Let_def side_Info_Set)

lemma side_info_upd [simp]:
  "side_info (i_Gold_update f i) = side_info i" "side_info (i_Diamond_update f i) = side_info i"
  "side_info (i_Exp_update f i) = side_info i"
  "side_info (i_CharmVal_update f i) = side_info i" "side_info (i_CatFood_update f i) = side_info i"
  "side_info (i_Spirit_update f i) = side_info i" "side_info (i_FriendPoints_update f i) = side_info i"
  "side_info (i_SoulStone_update f i) = side_info i" "side_info (i_CharmMedal_update f i) = side_info i"
  "side_info (i_SaveLastSpiritPointTime_update f i) = side_info i" "side_info (i_NextCatId_update f i) = side_info i"
  by (simp_all add: side_info_def)

lemma side_add_capped: "(\<And>f i. side_info (upd f i) = side_info i) \<Longrightarrow> side (snd (add_capped sel upd v p)) = side p"
  by (simp add: add_capped_def side_Info_Set side_Info_Incby split_beta)

lemma side_sub_plain: "(\<And>f i. side_info (upd f i) = side_info i) \<Longrightarrow> side (snd (sub_plain sel upd v p)) = side p"
  by (simp add: sub_plain_def side_Info_Incby split_beta)

lemma side_resources [simp]:
  "side (snd (AddGold v p)) = side p" "side (snd (SubGold v p)) = side p"
  "side (snd (AddDiamond v p)) = side p" "side (snd (SubDiamond v p)) = side p"
  "side (snd (AddCatFood v p)) = side p" "side (snd (SubCatFood v p)) = side p"
  "side (snd (AddFriendPoints v p)) = side p" "side (snd (SubFriendPoints v p)) = side p"
  "side (snd (AddSoulStone v p)) = side p" "side (snd (SubSoulStone v p)) = side p"
  "side (snd (AddCharmMedal v p)) = side p" "side (snd (SubCharmMedal v p)) = side p"
  "side (snd (AddCharmVal e v p)) = side p" "side (snd (SubCharmVal v p)) = side p"
  by (simp_all add: AddGold_def SubGold_def AddDiamond_def SubDiamond_def Info_SubDiamond_def AddCatFood_def
      SubCatFood_def AddFriendPoints_def SubFriendPoints_def AddSoulStone_def SubSoulStone_def AddCharmMedal_def
      SubCharmMedal_def AddCharmVal_def SubCharmVal_def side_add_capped side_sub_plain
      side_Info_Set side_Info_Incby Let_def split_beta)

lemma AddStar_run:
  "p_Info (snd (AddStar e v p)) = (if v < 0 then p_Info p else p_Info p\<lparr>i_TotalStars := i32 (i_TotalStars (p_Info p) + v)\<rparr>)"
  "p_Stages (snd (AddStar e v p)) = p_Stages p" "p_stage_id (snd (AddStar e v p)) = p_stage_id p"
  "p_stage_state (snd (AddStar e v p)) = p_stage_state p"
  by (simp_all add: AddStar_def Info_Incby_def Info_Set_def Let_def)

lemma side_CalcSpirit: "CalcSpirit e p = Some (r, q) \<Longrightarrow> side q = side p"
  by (auto simp: CalcSpirit_def Let_def side_Info_Set side_Info_Incby
      split: option.splits if_splits bind_splits)

lemma side_AddSpirit: "AddSpirit e v p = Some (r, q) \<Longrightarrow> side q = side p"
  using side_add_capped [of i_Spirit_update i_Spirit v]
  by (auto simp: AddSpirit_def dest!: side_CalcSpirit split: bind_splits) (metis side_info_upd(6) snd_conv)

lemma side_SubSpirit: "SubSpirit e v p = Some (r, q) \<Longrightarrow> side q = side p"
  using side_sub_plain [of i_Spirit_update i_Spirit v]
  by (auto simp: SubSpirit_def dest!: side_CalcSpirit split: bind_splits) (metis side_info_upd(6) snd_conv)

lemma side_AddExp: "AddExp e v p = Some (r, q) \<Longrightarrow> side q = side p"
  by (auto simp: AddExp_def Let_def side_Info_Set split: if_splits bind_splits)

lemma side_ChkAdd [simp]: "side (snd (ChkAddItemByNum e k n p)) = side p"
  by (simp add: ChkAddItemByNum_def Let_def split: option.split)

lemma side_ChkRemove [simp]: "side (snd (ChkRemoveItem e k n p)) = side p"
  by (simp add: ChkRemoveItem_def Let_def split: option.split)

lemma side_AddItem [simp]: "side (snd (AddItem e k n b p)) = side p"
  by (simp add: AddItem_def Let_def split_beta split: option.split)

lemma side_RemoveItem [simp]: "side (snd (RemoveItem e k n b p)) = side p"
  by (simp add: RemoveItem_def Let_def split_beta split: option.split)

lemma side_GetItemResourceValue: "GetItemResourceValue e k p = Some (r, q) \<Longrightarrow> side q = side p"
  by (auto simp: GetItemResourceValue_def dest!: side_CalcSpirit split: if_splits)

lemma side_AddItemResource: "AddItemResource e k v p = Some (r, q) \<Longrightarrow> side q = side p"
proof -
  have "side q = side p" if "(case AddItem e k v True p of (None, p) \<Rightarrow> Some (- 1, p) | (Some _, p) \<Rightarrow> Some (1, p)) = Some (r, q)"
    using that side_AddItem [of e k v True p] by (cases "AddItem e k v True p") (auto simp del: side_AddItem split: option.splits)
  moreover have "side q = side p" if "Some x = Some (r, q)" "side (snd x) = side p" for x
    using that by auto
  ultimately show "AddItemResource e k v p = Some (r, q) \<Longrightarrow> side q = side p"
    unfolding AddItemResource_def
    by (auto dest!: side_AddExp side_AddSpirit split: if_splits) (metis side_resources snd_conv)+
qed

lemma side_RemoveItemResource: "RemoveItemResource e k v p = Some (r, q) \<Longrightarrow> side q = side p"
proof -
  have "side q = side p" if "(case RemoveItem e k v True p of (None, p) \<Rightarrow> Some (- 1, p) | (Some _, p) \<Rightarrow> Some (1, p)) = Some (r, q)"
    using that side_RemoveItem [of e k v True p] by (cases "RemoveItem e k v True p") (auto simp del: side_RemoveItem split: option.splits)
  then show "RemoveItemResource e k v p = Some (r, q) \<Longrightarrow> side q = side p"
    unfolding RemoveItemResource_def
    by (auto dest!: side_SubSpirit split: if_splits) (metis side_resources snd_conv)+
qed

lemma side_ChkRes: "ChkResEnough e rs p = Some (b, q) \<Longrightarrow> side q = side p"
  by (induction e rs p rule: ChkResEnough.induct)
    (auto dest!: side_GetItemResourceValue split: bind_splits if_splits)

lemma side_RemoveResources: "RemoveResources e rs p = Some q \<Longrightarrow> side q = side p"
  by (induction e rs p rule: RemoveResources.induct) (auto dest!: side_RemoveItemResource split: bind_splits)

lemma side_AddResources: "AddResources e rs p = Some q \<Longrightarrow> side q = side p"
  by (induction e rs p rule: AddResources.induct) (auto dest!: side_AddItemResource split: bind_splits)

lemma side_handbook [simp]: "side (AddHandbookItem e k p) = side p" "side (AddHead k p) = side p"
  "side (update_ouqi e k p) = side p"
  by (simp_all add: AddHandbookItem_def add_handbook_data_def AddHead_def update_ouqi_def)

lemma side_rand: "rand31n_from_range e a b p = Some (r, q) \<Longrightarrow> side q = side p"
  by (auto simp: rand31n_from_range_def split: if_splits bind_splits)

lemma side_gen_abilities: "gen_abilities e c p = Some (r, q) \<Longrightarrow> side q = side p"
  by (auto simp: gen_abilities_def Let_def dest!: side_rand split: if_splits bind_splits)

lemma side_AddCat: "AddCat e k b p = Some (r, q) \<Longrightarrow> side q = side p"
proof -
  have add: "side x' = side x" if "cat_add c x = (b, x')" for c x b x'
    using that side_quiet_steps(12) [of c x] by simp
  have incby: "side x = side p" if "Info_Incby i_NextCatId i_NextCatId_update 1 p = (n, x)" for n x
    using that side_Info_Incby [of i_NextCatId_update i_NextCatId 1 p] by simp
  show "AddCat e k b p = Some (r, q) \<Longrightarrow> side q = side p"
    unfolding AddCat_def AddCatWithLevelStarSkill_def
    by (auto simp: Let_def dest!: side_gen_abilities add incby simp del: side_quiet_steps(12)
        split: option.splits bind_splits prod.splits if_splits)
qed

lemma side_AddDepotBuilding [simp]: "side (snd (AddDepotBuilding e k n p)) = side p"
  by (simp add: AddDepotBuilding_def Let_def split: option.split)

end
