(* ===== verification/Shop.thy ===== *)
theory Shop
  imports Frames
begin

text \<open>
  \<open>game_server/player_shop.go\<close>: the shops, their refresh at fixed points of the days and the purchase.
  The column \<open>ShopItems\<close> holds what is left of the items limited per player, \<open>Shops\<close> the first and the
  latest refresh of each shop. The order of a shop's items is the order in which a \<open>range\<close> loop of
  this run visits them.
\<close>

abbreviation (input) E_ERR_SHOP_NOT_FOUND :: int where "E_ERR_SHOP_NOT_FOUND \<equiv> -101501"
abbreviation (input) E_ERR_SHOP_LIMITED_TYPE_INVALID :: int where "E_ERR_SHOP_LIMITED_TYPE_INVALID \<equiv> -101502"
abbreviation (input) E_ERR_SHOP_DIAMOND_NOT_ENOUGH :: int where "E_ERR_SHOP_DIAMOND_NOT_ENOUGH \<equiv> -101503"
abbreviation (input) E_ERR_SHOP_COIN_NOT_ENOUGH :: int where "E_ERR_SHOP_COIN_NOT_ENOUGH \<equiv> -101504"
abbreviation (input) E_ERR_SHOP_CHARM_NOT_ENOUGH :: int where "E_ERR_SHOP_CHARM_NOT_ENOUGH \<equiv> -101505"
abbreviation (input) E_ERR_SHOP_FRIEND_POINT_NOT_ENOUGH :: int where "E_ERR_SHOP_FRIEND_POINT_NOT_ENOUGH \<equiv> -101506"
abbreviation (input) E_ERR_SHOP_SOUL_STONE_NOT_ENOUGH :: int where "E_ERR_SHOP_SOUL_STONE_NOT_ENOUGH \<equiv> -101507"
abbreviation (input) E_ERR_SHOP_CHARM_MEDAL_NOT_ENOUGH :: int where "E_ERR_SHOP_CHARM_MEDAL_NOT_ENOUGH \<equiv> -101508"
abbreviation (input) E_ERR_SHOP_PURCHASE_TYPE_INVALID :: int where "E_ERR_SHOP_PURCHASE_TYPE_INVALID \<equiv> -101509"
abbreviation (input) E_ERR_SHOP_ITEM_NOT_FOUND :: int where "E_ERR_SHOP_ITEM_NOT_FOUND \<equiv> -101511"
abbreviation (input) E_ERR_SHOP_ITEM_NOT_ENOUGH :: int where "E_ERR_SHOP_ITEM_NOT_ENOUGH \<equiv> -101512"

definition GetShop :: "env \<Rightarrow> int \<Rightarrow> shop_table_data option" where
  "GetShop e shop_id =
     (if shop_id < 1 \<or> shop_id > int (length (shop_arr e)) then None else shop_arr e ! nat (shop_id - 1))"

subsection \<open>Refreshing\<close>

fun shop_refresh_loop :: "xml_shop_item list \<Rightarrow> int column \<Rightarrow> int column" where
  "shop_refresh_loop [] m = m"
| "shop_refresh_loop (item # items) m =
     shop_refresh_loop items
       (if \<not> col_HasIndex m (sh_Id item) then snd (col_Add (sh_Id item) (sh_LimitedNumber item) m)
        else snd (col_set_field (\<lambda>_. sh_LimitedNumber item) (sh_Id item) m))"

definition shop_refresh :: "shop_table_data \<Rightarrow> player \<Rightarrow> player" where
  "shop_refresh shop_data p =
     p\<lparr>p_ShopItems := shop_refresh_loop (map snd (sd_items shop_data)) (p_ShopItems p)\<rparr>"

definition check_shop_refresh :: "env \<Rightarrow> int \<Rightarrow> shop_table_data \<Rightarrow> player \<Rightarrow> ((bool \<times> int) \<times> player) option" where
  "check_shop_refresh e shop_id shop_data p =
     (case shop_types e shop_id of
        None \<Rightarrow> Some ((False, -1), p)
      | Some shop_type \<Rightarrow>
        if sy_AutoRefreshTime shop_type = [] \<or> sy_RefreshDays shop_type = 0 then Some ((False, 0), p)
        else (case map_of (p_Shops p) shop_id of
            None \<Rightarrow> do {
              r \<leftarrow> GetRemainSeconds2NextDaysPoint e 0 0 (sy_AutoRefreshTime shop_type) (sy_RefreshDays shop_type);
              (case r of
                 Inl _ \<Rightarrow> Some ((False, -1), p)
               | Inr remain_seconds \<Rightarrow>
                   let d = \<lparr>shop_FirstRefreshTimePoint = i32 (now e), shop_LastestRefreshTimePoint = 0\<rparr>;
                       p = p\<lparr>p_Shops := snd (col_Add shop_id d (p_Shops p))\<rparr>
                   in Some ((True, remain_seconds), shop_refresh shop_data p))
            }
          | Some d \<Rightarrow> do {
              r \<leftarrow> GetRemainSeconds2NextDaysPoint e (shop_FirstRefreshTimePoint d) (shop_LastestRefreshTimePoint d)
                    (sy_AutoRefreshTime shop_type) (sy_RefreshDays shop_type);
              (case r of
                 Inl _ \<Rightarrow> Some ((False, -1), p)
               | Inr remain_seconds \<Rightarrow>
                   if remain_seconds \<le> 0 then
                     let p = shop_refresh shop_data p;
                         p = p\<lparr>p_Shops := snd (col_set_field
                               (\<lambda>d. d\<lparr>shop_LastestRefreshTimePoint := i32 (now e)\<rparr>) shop_id (p_Shops p))\<rparr>
                     in Some ((True, remain_seconds), p)
                   else Some ((False, remain_seconds), p))
            }))"

text \<open>The loop of \<open>shop_send_items\<close> writes into an array of \<open>limit_num\<close> entries, the rest of it stays nil.\<close>

definition shop_left_num :: "xml_shop_item \<Rightarrow> player \<Rightarrow> int \<times> player" where
  "shop_left_num v p =
     (if sh_LimitedType v = 1 then (0, p)
      else if sh_LimitedType v = 2 then
        (let p = (if col_Get (p_ShopItems p) (sh_Id v) = None
                  then p\<lparr>p_ShopItems := snd (col_Add (sh_Id v) (sh_LimitedNumber v) (p_ShopItems p))\<rparr> else p)
         in (the (col_Get (p_ShopItems p) (sh_Id v)), p))
      else if sh_LimitedType v \<noteq> 0 then (-1, p)
      else (0, p))"

fun shop_send_loop :: "xml_shop_item list \<Rightarrow> nat \<Rightarrow> player \<Rightarrow> (int \<times> int) option list \<times> player" where
  "shop_send_loop vs 0 p = ([], p)"
| "shop_send_loop [] (Suc n) p = (replicate (Suc n) None, p)"
| "shop_send_loop (v # vs) (Suc n) p =
     (case shop_left_num v p of (left_num, p) \<Rightarrow>
      case shop_send_loop vs n p of (rest, p) \<Rightarrow> (Some (sh_Id v, left_num) # rest, p))"

definition shop_send_items :: "int \<Rightarrow> shop_table_data \<Rightarrow> int \<Rightarrow> player \<Rightarrow> player option" where
  "shop_send_items shop_id shop remain_seconds p =
     (if sd_limit_num shop < 0 then None
      else case shop_send_loop (map snd (sd_items shop)) (nat (sd_limit_num shop)) p of (items, p) \<Rightarrow>
        Some (Send_msg (S2CShopItemsResult shop_id remain_seconds items) p))"

definition fetch_shop_limit_items :: "env \<Rightarrow> int \<Rightarrow> bool \<Rightarrow> player \<Rightarrow> (int \<times> player) option" where
  "fetch_shop_limit_items e shop_id send_msg p =
     (case GetShop e shop_id of
        None \<Rightarrow> Some (E_ERR_SHOP_NOT_FOUND, p)
      | Some shop \<Rightarrow> do {
          ((_, remain_seconds), p) \<leftarrow> check_shop_refresh e shop_id shop p;
          if remain_seconds < 0 then Some (E_ERR_SHOP_NOT_FOUND, p)
          else do {
            p \<leftarrow> (if send_msg then shop_send_items shop_id shop (i32 remain_seconds) p else Some p);
            Some (1, p)
          }
        })"

subsection \<open>Buying\<close>

definition has_suffix :: "string \<Rightarrow> string \<Rightarrow> bool" where
  "has_suffix s t \<longleftrightarrow> length t \<le> length s \<and> drop (length s - length t) s = t"

text \<open>The price check by the kind of the resource: the error, or \<open>None\<close> when the purchase may go on.\<close>

definition chk_price :: "xml_shop_item \<Rightarrow> int \<Rightarrow> player \<Rightarrow> int option" where
  "chk_price item num p =
     (let k = sh_CostResourceId item; cost = i32 (num * sh_CostNum item) in
      if k = ITEM_RESOURCE_ID_DIAMOND then
        (if i_Diamond (p_Info p) < cost then Some E_ERR_SHOP_DIAMOND_NOT_ENOUGH else None)
      else if k = ITEM_RESOURCE_ID_GOLD then
        (if i_Gold (p_Info p) < cost then Some E_ERR_SHOP_COIN_NOT_ENOUGH else None)
      else if k = ITEM_RESOURCE_ID_RMB then Some (-1)
      else if k = ITEM_RESOURCE_ID_CHARM_VALUE then
        (if i_CharmVal (p_Info p) < cost then Some E_ERR_SHOP_CHARM_NOT_ENOUGH else None)
      else if k = ITEM_RESOURCE_ID_FRIEND_POINT then
        (if i_FriendPoints (p_Info p) < cost then Some E_ERR_SHOP_FRIEND_POINT_NOT_ENOUGH else None)
      else if k = ITEM_RESOURCE_ID_SOUL_STONE then
        (if i_SoulStone (p_Info p) < cost then Some E_ERR_SHOP_SOUL_STONE_NOT_ENOUGH else None)
      else if k = ITEM_RESOURCE_ID_CHARM_MEDAL then
        (if i_CharmMedal (p_Info p) < cost then Some E_ERR_SHOP_CHARM_MEDAL_NOT_ENOUGH else None)
      else Some E_ERR_SHOP_PURCHASE_TYPE_INVALID)"

definition take_limited :: "xml_shop_item \<Rightarrow> int \<Rightarrow> player \<Rightarrow> int option \<times> player" where
  "take_limited item item_id p =
     (if sh_LimitedType item = 0 \<or> sh_LimitedType item = 1 then (None, p)
      else if sh_LimitedType item = 2 then
        (case col_Get (p_ShopItems p) item_id of
           None \<Rightarrow> (Some E_ERR_SHOP_ITEM_NOT_FOUND, p)
         | Some left_num \<Rightarrow>
             if left_num < 1 then (Some E_ERR_SHOP_ITEM_NOT_ENOUGH, p)
             else (None, p\<lparr>p_ShopItems := snd (col_set_field (\<lambda>n. i32 (n + -1)) item_id (p_ShopItems p))\<rparr>))
      else (Some E_ERR_SHOP_LIMITED_TYPE_INVALID, p))"

fun add_bag_items :: "env \<Rightarrow> int \<Rightarrow> int list \<Rightarrow> player \<Rightarrow> player option" where
  "add_bag_items e n (k # v # rs) p = do { (_, p) \<leftarrow> AddItemResource e k (i32 (n * v)) p; add_bag_items e n rs p }"
| "add_bag_items e n rs p = Some p"

definition pay_price :: "xml_shop_item \<Rightarrow> int \<Rightarrow> player \<Rightarrow> player" where
  "pay_price item num p =
     (let k = sh_CostResourceId item; cost = i32 (num * sh_CostNum item) in
      if k = ITEM_RESOURCE_ID_GOLD then snd (SubGold cost p)
      else if k = ITEM_RESOURCE_ID_DIAMOND then snd (SubDiamond cost p)
      else if k = ITEM_RESOURCE_ID_RMB then p
      else if k = ITEM_RESOURCE_ID_CHARM_VALUE then snd (SubCharmVal cost p)
      else if k = ITEM_RESOURCE_ID_FRIEND_POINT then snd (SubFriendPoints cost p)
      else if k = ITEM_RESOURCE_ID_CHARM_MEDAL then snd (SubCharmMedal cost p)
      else if k = ITEM_RESOURCE_ID_SOUL_STONE then snd (SubSoulStone cost p)
      else p)"

text \<open>The part of a purchase after the price check.\<close>

definition deliver :: "env \<Rightarrow> xml_shop_item \<Rightarrow> int \<Rightarrow> int \<Rightarrow> bool \<Rightarrow> player \<Rightarrow> (int \<times> player) option" where
  "deliver e item item_id num send_msg p =
     (case take_limited item item_id p of
        (Some err, p) \<Rightarrow> Some (err, p)
      | (None, p) \<Rightarrow> do {
          p \<leftarrow> add_bag_items e (i32 (num * sh_Number item)) (sh_BagItems item) p;
          let p = SendDepotBuildingUpdate (SendCatsUpdate (SendItemsUpdate p));
          let p = pay_price item num p;
          Some (1, if send_msg
            then Send_msg (S2CBuyShopItemResult (sh_Type item) item_id num (sh_CostResourceId item) (sh_CostNum item)) p
            else p)
        })"

definition buy_item :: "env \<Rightarrow> int \<Rightarrow> int \<Rightarrow> bool \<Rightarrow> player \<Rightarrow> (int \<times> player) option" where
  "buy_item e item_id num send_msg p =
     (if num \<le> 0 then Some (-1, p)
      else case shop_items e item_id of
        None \<Rightarrow> Some (E_ERR_SHOP_NOT_FOUND, p)
      | Some item \<Rightarrow>
      (case GetShop e (sh_Type item) of
        None \<Rightarrow> Some (E_ERR_SHOP_NOT_FOUND, p)
      | Some shop_data \<Rightarrow> do {
          ((refreshed, remain_seconds), p) \<leftarrow> check_shop_refresh e (sh_Type item) shop_data p;
          p \<leftarrow> (if refreshed then shop_send_items (sh_Type item) shop_data (i32 remain_seconds) p else Some p);
          if sh_BundleId item \<noteq> [] then
            (if has_suffix (sh_BundleId item) ''mcard'' then
               (let now_time = i32 (now e); end_time = i_VipCardEndDay (p_Info p) in
                if now_time > end_time then Some (-1, p)
                else Some (2, Info_Set i_VipCardEndDay_update (i32 (now_time + 30 * 24 * 3600)) p))
             else deliver e item item_id num send_msg p)
          else (case chk_price item num p of
              Some err \<Rightarrow> Some (err, p)
            | None \<Rightarrow> deliver e item item_id num send_msg p)
        }))"

text \<open>\<open>refresh_shop\<close> writes \<open>LeftNum\<close> into the copies that \<open>Get\<close> returns, so the column does not change.\<close>

definition refresh_shop :: "player \<Rightarrow> int \<times> player" where
  "refresh_shop p = (if col_GetAllIndex (p_ShopItems p) = [] then (0, p) else (1, p))"

subsection \<open>What a purchase costs\<close>

text \<open>The resources a shop takes, and what keeps the other balances.\<close>

abbreviation (input) coins :: "int set" where "coins \<equiv> {2, 3, 6, 7, 9, 10}"

lemma AddItem_Info [simp]: "p_Info (snd (AddItem e k n b p)) = p_Info p"
  by (simp add: AddItem_def ChkAddItemByNum_def Let_def split_beta split: option.split)

lemma CalcSpirit_coins: "CalcSpirit e p = Some (r, q) \<Longrightarrow> j \<in> coins \<Longrightarrow> res_val q j = res_val p j"
  by (auto simp: CalcSpirit_def Let_def res_val_def Info_Set_def Info_Incby_def split: option.splits if_splits bind_splits)

lemma AddSpirit_coins: "AddSpirit e v p = Some (r, q) \<Longrightarrow> j \<in> coins \<Longrightarrow> res_val q j = res_val p j"
proof -
  have cap: "res_val (snd (add_capped i_Spirit i_Spirit_update v p')) j = res_val p' j" if "j \<in> coins" for p'
    using that by (auto simp: add_capped_def res_val_def Info_Set_def Info_Incby_def Let_def)
  assume "AddSpirit e v p = Some (r, q)" "j \<in> coins"
  then obtain x p' where "CalcSpirit e p = Some (x, p')" "q = snd (add_capped i_Spirit i_Spirit_update v p')"
    by (auto simp: AddSpirit_def split: bind_splits)
  then show ?thesis using cap CalcSpirit_coins \<open>j \<in> coins\<close> by metis
qed

lemma AddExp_coins: "AddExp e v p = Some (r, q) \<Longrightarrow> j \<in> coins \<Longrightarrow> res_val q j = res_val p j"
  by (auto simp: AddExp_def Let_def res_val_def Info_Set_def split: if_splits bind_splits)

lemma AddItemResource_coins:
  assumes "AddItemResource e k v p = Some (r, q)" "j \<in> coins" "k \<noteq> j"
  shows "res_val q j = res_val p j"
proof -
  consider "k = 1" | "k \<in> {2, 3, 4, 6, 7, 9, 10}" | "k = 5" | "k = 8" | "k \<notin> {1, 2, 3, 4, 5, 6, 7, 8, 9, 10}" by auto
  then show ?thesis
  proof cases
    case 1
    then show ?thesis using assms(1) by (simp add: AddItemResource_def)
  next
    case 2
    then show ?thesis using earn_others [OF 2, of j e v p] assms by auto
  next
    case 3
    then show ?thesis using assms(1,2) by (intro AddSpirit_coins) (simp_all add: AddItemResource_def)
  next
    case 4
    then show ?thesis using assms(1,2) by (auto simp: AddItemResource_def dest: AddExp_coins)
  next
    case 5
    then have "q = snd (AddItem e k v True p)"
      using assms(1) by (auto simp: AddItemResource_def split: prod.splits option.splits)
    then show ?thesis using assms(2) AddItem_Info [of e k v True p] by (auto simp: res_val_def)
  qed
qed

lemma add_bag_coins:
  "add_bag_items e n rs p = Some q \<Longrightarrow> j \<in> coins \<Longrightarrow> j \<notin> fst ` set (pairs_of rs) \<Longrightarrow> res_val q j = res_val p j"
proof (induction e n rs p rule: add_bag_items.induct)
  case (1 e n k v rs p)
  then show ?case by (auto dest!: AddItemResource_coins [of _ k _ _ _ _ j] split: bind_splits)
qed auto

lemma shop_left_num_frame: "p_Info (snd (shop_left_num v p)) = p_Info p" "p_Items (snd (shop_left_num v p)) = p_Items p"
  by (simp_all add: shop_left_num_def Let_def)

lemma shop_send_loop_frame:
  "p_Info (snd (shop_send_loop vs n p)) = p_Info p \<and> p_Items (snd (shop_send_loop vs n p)) = p_Items p"
proof (induction vs n p rule: shop_send_loop.induct)
  case (3 v vs n p)
  obtain l x where x: "shop_left_num v p = (l, x)" by fastforce
  with 3 [OF x [symmetric]] shop_left_num_frame [of v p] show ?case
    by (simp add: split_beta)
qed simp_all

lemma shop_send_items_frame: "shop_send_items k s r p = Some q \<Longrightarrow> p_Info q = p_Info p \<and> p_Items q = p_Items p"
  using shop_send_loop_frame [of "map snd (sd_items s)" "nat (sd_limit_num s)" p]
  by (auto simp: shop_send_items_def split: if_splits prod.splits)

lemma check_shop_refresh_frame:
  "check_shop_refresh e k s p = Some (r, q) \<Longrightarrow> p_Info q = p_Info p \<and> p_Items q = p_Items p"
  by (auto simp: check_shop_refresh_def shop_refresh_def Let_def
      split: option.splits if_splits bind_splits sum.splits)

lemma chk_price_None:
  assumes "chk_price item num p = None"
  shows "sh_CostResourceId item \<in> coins \<and> i32 (num * sh_CostNum item) \<le> res_val p (sh_CostResourceId item)"
  using assms by (auto simp: chk_price_def res_val_def Let_def split: if_splits)

lemma pay_price_exact:
  assumes "sh_CostResourceId item \<in> coins" "c = i32 (num * sh_CostNum item)" "0 \<le> c"
    "c \<le> res_val p (sh_CostResourceId item)" "in32 (res_val p (sh_CostResourceId item))"
  shows "res_val (pay_price item num p) (sh_CostResourceId item) = res_val p (sh_CostResourceId item) - c"
    and "p_ShopItems (pay_price item num p) = p_ShopItems p"
  using assms
  by (auto simp: pay_price_def res_val_def SubGold_def SubDiamond_run SubDiamond_def Info_SubDiamond_def
      SubFriendPoints_def SubCharmVal_def SubSoulStone_def SubCharmMedal_def sub_plain_run sub_plain_def
      Info_Incby_def Info_Set_def Let_def i32_range_id in32_def)

lemma quiet_res_val: "quiet p q \<Longrightarrow> res_val q k = res_val p k"
  by (intro res_val_frame) (simp_all add: quiet_frame)

lemma side_add_bag: "add_bag_items e n rs p = Some q \<Longrightarrow> side q = side p"
  by (induction e n rs p rule: add_bag_items.induct) (auto dest!: side_AddItemResource split: bind_splits)

text \<open>The purchase after the price check, for an item without a bundle.\<close>

lemma deliver_run:
  assumes "deliver e item k num b p = Some (1, q)" "sh_CostResourceId item \<in> coins"
    "0 \<le> num * sh_CostNum item" "num * sh_CostNum item \<le> max32"
    "num * sh_CostNum item \<le> res_val p (sh_CostResourceId item)" "in32 (res_val p (sh_CostResourceId item))"
    "sh_CostResourceId item \<notin> fst ` set (pairs_of (sh_BagItems item))"
  shows "res_val q (sh_CostResourceId item) = res_val p (sh_CostResourceId item) - num * sh_CostNum item"
    and "sh_LimitedType item = 2 \<Longrightarrow>
      \<exists>n \<ge> 1. map_of (p_ShopItems p) k = Some n \<and> map_of (p_ShopItems q) k = Some (i32 (n - 1))"
proof -
  let ?k = "sh_CostResourceId item"
  have c: "i32 (num * sh_CostNum item) = num * sh_CostNum item" using assms(3,4) by (simp add: i32_range_id)
  obtain err p1 where t0: "take_limited item k p = (err, p1)" by fastforce
  have neg: "x < 0" if "err = Some x" for x
    using t0 that by (auto simp: take_limited_def split: if_splits option.splits)
  have t: "take_limited item k p = (None, p1)"
  proof (cases err)
    case (Some x)
    with assms(1) t0 neg [OF Some] show ?thesis by (simp add: deliver_def)
  qed (simp add: t0)
  from assms(1) t obtain p2 where
    a: "add_bag_items e (i32 (num * sh_Number item)) (sh_BagItems item) p1 = Some p2"
    and q: "quiet (pay_price item num (SendDepotBuildingUpdate (SendCatsUpdate (SendItemsUpdate p2)))) q"
    by (cases "add_bag_items e (i32 (num * sh_Number item)) (sh_BagItems item) p1")
      (auto simp: deliver_def Let_def split: if_splits)
  let ?p3 = "SendDepotBuildingUpdate (SendCatsUpdate (SendItemsUpdate p2))"
  have "quiet p2 ?p3" by (metis quiet_SendCatsUpdate quiet_SendDepotBuildingUpdate quiet_SendItemsUpdate quiet_trans)
  then have r3: "res_val ?p3 j = res_val p2 j" for j by (rule quiet_res_val)
  have "res_val p1 j = res_val p j" for j
    using t by (intro res_val_frame) (auto simp: take_limited_def split: if_splits option.splits)
  then have rp: "res_val ?p3 ?k = res_val p ?k"
    using r3 add_bag_coins [OF a assms(2,7)] by simp
  show "res_val q ?k = res_val p ?k - num * sh_CostNum item"
    using pay_price_exact(1) [of item "num * sh_CostNum item" num ?p3] assms(2-6) quiet_res_val [OF q] c rp
    by simp
  have "p_ShopItems (pay_price item num ?p3) = p_ShopItems ?p3"
    using pay_price_exact(2) [of item "num * sh_CostNum item" num ?p3] assms(2-6) c rp by simp
  then have "p_ShopItems q = p_ShopItems p1"
    using side_frame(8) [OF side_quiet [OF q]] side_frame(8) [OF side_add_bag [OF a]] by simp
  then show "\<exists>n \<ge> 1. map_of (p_ShopItems p) k = Some n \<and> map_of (p_ShopItems q) k = Some (i32 (n - 1))"
    if "sh_LimitedType item = 2"
    using t that by (auto simp: take_limited_def col_simps split: if_splits option.splits)
qed

text \<open>
  Property C23. A purchase costs its price. A bought item without a bundle id is paid in one of the six resources a
  shop takes; when the price is not negative and for the wanted number fits the integers and the goods do not contain that
  resource, the balance was at least the price and is lower by exactly the price, also when the shop
  was refreshed on the way; and when the item is limited per player there was at least one left.
\<close>

theorem buy_item_pays:
  assumes "buy_item e k num b p = Some (1, q)" "shop_items e k = Some item" "sh_BundleId item = []"
    and "0 \<le> sh_CostNum item" "num * sh_CostNum item \<le> max32"
    and "sh_CostResourceId item \<notin> fst ` set (pairs_of (sh_BagItems item))"
    and "in32 (res_val p (sh_CostResourceId item))"
  shows "sh_CostResourceId item \<in> coins \<and>
    num * sh_CostNum item \<le> res_val p (sh_CostResourceId item) \<and>
    res_val q (sh_CostResourceId item) = res_val p (sh_CostResourceId item) - num * sh_CostNum item \<and>
    (sh_LimitedType item = 2 \<longrightarrow> (\<exists>n \<ge> 1. map_of (p_ShopItems q) k = Some (i32 (n - 1))))"
proof -
  let ?k = "sh_CostResourceId item"
  have num: "0 < num" using assms(1) by (auto simp: buy_item_def split: if_splits)
  from assms(1-3) num obtain shop r p1 p2 where
    c: "check_shop_refresh e (sh_Type item) shop p = Some (r, p1)"
    and s: "(if fst r then shop_send_items (sh_Type item) shop (i32 (snd r)) p1 else Some p1) = Some p2"
    and d: "chk_price item num p2 = None" "deliver e item k num b p2 = Some (1, q)"
    by (auto simp: buy_item_def chk_price_def Let_def split: option.splits bind_splits if_splits)
  have "p_Info p2 = p_Info p" "p_Items p2 = p_Items p"
    using check_shop_refresh_frame [OF c] s by (auto dest!: shop_send_items_frame split: if_splits)
  then have rv: "res_val p2 j = res_val p j" for j by (rule res_val_frame)
  have price: "0 \<le> num * sh_CostNum item" using num assms(4) by simp
  then have i: "i32 (num * sh_CostNum item) = num * sh_CostNum item" using assms(5) by (simp add: i32_range_id)
  have coin: "?k \<in> coins" and enough: "num * sh_CostNum item \<le> res_val p2 ?k"
    using chk_price_None [OF d(1)] by (simp_all add: i)
  from deliver_run [OF d(2) coin price assms(5) enough _ assms(6)] assms(7) show ?thesis
    using coin enough unfolding rv by blast
qed

definition demo_shop_item :: xml_shop_item where
  "demo_shop_item = \<lparr>sh_Id = 11, sh_Type = 1, sh_Number = 1, sh_CostResourceId = 2, sh_CostNum = 30,
     sh_LimitedType = 2, sh_LimitedNumber = 5, sh_BagItems = [3, 4], sh_BundleId = ''''\<rparr>"

definition demo_shop_env :: env where
  "demo_shop_env = empty_env\<lparr>shop_items := [11 \<mapsto> demo_shop_item],
     shop_arr := [Some \<lparr>sd_items = [(11, demo_shop_item)], sd_limit_num = 1\<rparr>],
     shop_types := [1 \<mapsto> \<lparr>sy_AutoRefreshTime = '''', sy_RefreshDays = 0\<rparr>]\<rparr>"

definition demo_shop_player :: player where
  "demo_shop_player = empty_player\<lparr>p_Info := empty_info\<lparr>i_Gold := 100\<rparr>, p_ShopItems := [(11, 5)]\<rparr>"

lemmas demo_shop_defs = demo_shop_item_def demo_shop_env_def demo_shop_player_def empty_env_def empty_player_def
  empty_info_def

lemma demo_buy: "\<exists>q. buy_item demo_shop_env 11 2 True demo_shop_player = Some (1, q)"
  by (simp add: buy_item_def GetShop_def check_shop_refresh_def chk_price_def deliver_def take_limited_def
    AddItemResource_def col_simps demo_shop_defs Let_def i32_def split: prod.split)

lemma buy_item_pays_witness:
  "\<exists>q. buy_item demo_shop_env 11 2 True demo_shop_player = Some (1, q) \<and> res_val q 2 = 40"
proof -
  obtain q where q: "buy_item demo_shop_env 11 2 True demo_shop_player = Some (1, q)" using demo_buy by blast
  have "shop_items demo_shop_env 11 = Some demo_shop_item" by (simp add: demo_shop_env_def)
  from buy_item_pays [OF q this] q show ?thesis
    by (simp add: demo_shop_item_def demo_shop_player_def res_val_def in32_def)
qed

text \<open>The product of the price check wraps: more than forty million pieces at a price of 100 pass with
  a balance of four.\<close>

lemma price_wraps: "sh_CostResourceId item = 2 \<Longrightarrow> sh_CostNum item = 100 \<Longrightarrow> 4 \<le> i_Gold (p_Info p) \<Longrightarrow>
  chk_price item 42949673 p = None"
  by (simp add: chk_price_def i32_def)

text \<open>An item with a bundle id that is no month card is delivered without any check of its price.\<close>

lemma bundle_not_paid:
  assumes "0 < num" "shop_items e k = Some item" "GetShop e (sh_Type item) = Some shop"
    "check_shop_refresh e (sh_Type item) shop p = Some ((False, r), p1)"
    "sh_BundleId item \<noteq> []" "\<not> has_suffix (sh_BundleId item) ''mcard''"
  shows "buy_item e k num b p = deliver e item k num b p1"
  using assms by (simp add: buy_item_def)

text \<open>The month card cannot be bought by a player who has none.\<close>

lemma month_card_refused:
  assumes "buy_item e k num b p = Some (r, q)" "shop_items e k = Some item"
    "has_suffix (sh_BundleId item) ''mcard''" "sh_BundleId item \<noteq> []" "i_VipCardEndDay (p_Info p) < i32 (now e)"
  shows "r < 0"
proof -
  from assms(1,2) consider "r < 0" | shop x p1 p2 where
    "check_shop_refresh e (sh_Type item) shop p = Some (x, p1)"
    "(if fst x then shop_send_items (sh_Type item) shop (i32 (snd x)) p1 else Some p1) = Some p2"
    "(if i32 (now e) > i_VipCardEndDay (p_Info p2) then Some (- 1, p2)
      else Some (2, Info_Set i_VipCardEndDay_update (i32 (i32 (now e) + 30 * 24 * 3600)) p2)) = Some (r, q)"
    using assms(3,4) by (auto simp: buy_item_def Let_def split: option.splits bind_splits if_splits)
  then show ?thesis
  proof cases
    case 2
    then have "p_Info p2 = p_Info p"
      by (auto dest!: shop_send_items_frame check_shop_refresh_frame split: if_splits)
    with 2(3) assms(5) show ?thesis by simp
  qed
qed

end
