(* ===== verification/Draw.thy ===== *)
theory Draw
  imports Items
begin

text \<open>
  \<open>game_server/player_draw_card.go\<close>: drawing from the card libraries. A library is a list of
  entries with weights; a draw picks one by a random number below the total weight. With
  \<open>check_same\<close> the entries drawn since the request began (\<open>used_drop_ids\<close>) are passed over, by a loop that
  steps its own index back and need not end. \<open>drop_search\<close> keeps the two ways of not returning
  apart: \<open>None\<close> is a loop that never ends, \<open>Some None\<close> a panic; the functions above it have
  \<open>None\<close> for both.
\<close>

abbreviation (input) E_ERR_ITEM_NUM_NOT_ENOUGH :: int where "E_ERR_ITEM_NUM_NOT_ENOUGH \<equiv> -101002"
abbreviation (input) E_ERR_DRAW_WRONG_DRAW_TYPE :: int where "E_ERR_DRAW_WRONG_DRAW_TYPE \<equiv> -100300"

subsection \<open>One draw\<close>

text \<open>The loop over the entries from index \<open>i\<close>: the entry found, or \<open>None\<close> when the loop runs past the
  end, and the used ids, which are forgotten when there are as many as entries.\<close>

partial_function (option) drop_search ::
    "drop_lib \<Rightarrow> bool \<Rightarrow> int \<Rightarrow> int \<Rightarrow> bool \<Rightarrow> int column \<Rightarrow> (xml_drop_card option \<times> int column) option option" where
  "drop_search lib check_same i rand_val get_same used =
     (if i < dl_TotalCount lib then
        (case go_nth (dl_DropItems lib) i of
           None \<Rightarrow> Some None
         | Some tmp_item \<Rightarrow>
             if dc_Weight tmp_item > rand_val \<or> get_same then
               if check_same \<and> col_HasIndex used (dc_DropType tmp_item) then
                 drop_search lib check_same ((if i = dl_TotalCount lib - 1 then 0 else i) + 1) rand_val True
                   (if int (length used) = dl_TotalCount lib then [] else used)
               else Some (Some (Some tmp_item, used))
             else drop_search lib check_same (i + 1) (i32 (rand_val - dc_Weight tmp_item)) get_same used)
      else Some (Some (None, used)))"

type_synonym drop_result = "item_info option \<times> cat_info option \<times> (int \<times> int) option"

definition drop_reward :: "env \<Rightarrow> xml_drop_card \<Rightarrow> bool \<Rightarrow> player \<Rightarrow> (drop_result \<times> player) option" where
  "drop_reward e it badd p = do {
     ((_, num), p) \<leftarrow> rand31n_from_range e (dc_Min it) (dc_Max it) p;
     let k = dc_DropType it;
     let info = \<lparr>ii_ItemCfgId = k, ii_ItemNum = num, ii_RemainSeconds = 0\<rparr>;
     if item_map e k \<noteq> None then
       Some ((Some info, None, None), if badd then snd (AddItem e k num True p) else p)
     else if cat_map e k \<noteq> None then
       (if badd then do { (cat, p) \<leftarrow> AddCat e k True p; Some ((None, cat, None), p) }
        else Some ((None, Some \<lparr>ci_CatCfgId = k, ci_Id = 0, ci_Exp = 0, ci_Level = 0, ci_Star = 0, ci_Nick = '''',
               ci_SkillLevel = 0, ci_Locked = False, ci_CoinAbility = 0, ci_ExploreAbility = 0,
               ci_MatchAbility = 0, ci_State = 0\<rparr>, None), p))
     else if building_map e k \<noteq> None then
       Some ((None, None, Some (k, num)), if badd then snd (AddDepotBuilding e k num p) else p)
     else if badd then do {
       (r, p) \<leftarrow> AddItemResource e k num p;
       Some ((if r < 0 then None else Some info, None, None), p)
     }
     else Some ((Some info, None, None), p)
   }"

definition drop_item :: "env \<Rightarrow> drop_lib \<Rightarrow> bool \<Rightarrow> bool \<Rightarrow> player \<Rightarrow> (drop_result \<times> player) option" where
  "drop_item e lib check_same badd p = do {
     let p = (if check_same \<and> int (length (p_used_drop_ids p)) = dl_TotalCount lib
              then p\<lparr>p_used_drop_ids := []\<rparr> else p);
     rand_val \<leftarrow> Int31n e (p_ndraws p) (dl_TotalWeight lib);
     let p = p\<lparr>p_ndraws := Suc (p_ndraws p)\<rparr>;
     searched \<leftarrow> drop_search lib check_same 0 rand_val False (p_used_drop_ids p);
     (found, used) \<leftarrow> searched;
     let p = p\<lparr>p_used_drop_ids := used\<rparr>;
     (case found of
        None \<Rightarrow> Some ((None, None, None), p)
      | Some it \<Rightarrow> do {
          (r, p) \<leftarrow> drop_reward e it badd p;
          Some (r, if check_same
                   then p\<lparr>p_used_drop_ids := AList.update (dc_DropType it) (dc_Weight it) (p_used_drop_ids p)\<rparr>
                   else p)
        })
   }"

definition drop_item_by_id :: "env \<Rightarrow> int \<Rightarrow> bool \<Rightarrow> player \<Rightarrow> ((bool \<times> drop_result) \<times> player) option" where
  "drop_item_by_id e k check_same p =
     (case drop_card_map e k of
        None \<Rightarrow> Some ((False, None, None, None), p)
      | Some lib \<Rightarrow> do { (r, p) \<leftarrow> drop_item e lib check_same True p; Some ((True, r), p) })"

subsection \<open>Several draws\<close>

type_synonym drops = "item_info list \<times> cat_info list \<times> (int \<times> int) list"

fun add_drop :: "drop_result \<Rightarrow> drops \<Rightarrow> drops" where
  "add_drop (item, cat, building) (items, cats, buildings) =
     ((case item of None \<Rightarrow> items | Some x \<Rightarrow> items @ [x]),
      (case cat of None \<Rightarrow> cats | Some x \<Rightarrow> cats @ [x]),
      (case building of None \<Rightarrow> buildings | Some x \<Rightarrow> buildings @ [x]))"

text \<open>The three nested loops of \<open>DropItems\<close> as the sequence of library ids they draw from; it stops at the
  first unknown library.\<close>

definition draw_sequence :: "(int \<times> int) list \<Rightarrow> int \<Rightarrow> int list" where
  "draw_sequence items_info draw_count =
     concat (replicate (nat draw_count) (concat (map (\<lambda>(k, num). replicate (nat num) k) items_info)))"

fun draw_loop :: "env \<Rightarrow> int list \<Rightarrow> bool \<Rightarrow> drops \<Rightarrow> player \<Rightarrow> ((bool \<times> drops) \<times> player) option" where
  "draw_loop e [] badd acc p = Some ((True, acc), p)"
| "draw_loop e (k # ks) badd acc p =
     (case drop_card_map e k of
        None \<Rightarrow> Some ((False, [], [], []), p)
      | Some lib \<Rightarrow> do {
          (r, p) \<leftarrow> drop_item e lib True badd p;
          draw_loop e ks badd (add_drop r acc) p
        })"

text \<open>\<open>make\<close> with a negative capacity panics.\<close>

definition chk_capacity :: "int \<Rightarrow> unit option" where
  "chk_capacity n = (if n < 0 then None else Some ())"

definition DropItems :: "env \<Rightarrow> (int \<times> int) list \<Rightarrow> int \<Rightarrow> bool \<Rightarrow> player \<Rightarrow> ((bool \<times> drops) \<times> player) option" where
  "DropItems e items_info draw_count badd p = do {
     let total_drop_count = foldl (\<lambda>s (_, num). i32 (s + num)) 0 items_info;
     _ \<leftarrow> chk_capacity (i32 (draw_count * total_drop_count));
     let p = p\<lparr>p_used_drop_ids := []\<rparr>;
     _ \<leftarrow> Int31n e (p_ndraws p) 100;
     let p = p\<lparr>p_ndraws := Suc (p_ndraws p)\<rparr>;
     draw_loop e (draw_sequence items_info draw_count) badd ([], [], []) p
   }"

text \<open>The inner loops of \<open>DropItems2\<close>, which do not check for repetitions.\<close>

fun drop_times :: "env \<Rightarrow> drop_lib \<Rightarrow> nat \<Rightarrow> bool \<Rightarrow> drops \<Rightarrow> player \<Rightarrow> (drops \<times> player) option" where
  "drop_times e lib 0 badd acc p = Some (acc, p)"
| "drop_times e lib (Suc n) badd acc p = do {
     (r, p) \<leftarrow> drop_item e lib False badd p;
     drop_times e lib n badd (add_drop r acc) p
   }"

fun drop_pairs :: "env \<Rightarrow> int list \<Rightarrow> bool \<Rightarrow> drops \<Rightarrow> player \<Rightarrow> ((bool \<times> drops) \<times> player) option" where
  "drop_pairs e (k # num # rs) badd acc p =
     (case drop_card_map e k of
        None \<Rightarrow> Some ((False, [], [], []), p)
      | Some lib \<Rightarrow> do {
          (acc, p) \<leftarrow> drop_times e lib (nat num) badd acc p;
          drop_pairs e rs badd acc p
        })"
| "drop_pairs e rs badd acc p = Some ((True, acc), p)"

fun pair_total :: "int list \<Rightarrow> int \<Rightarrow> int" where
  "pair_total (k # num # rs) s = pair_total rs (i32 (s + num))"
| "pair_total rs s = s"

definition DropItems2 :: "env \<Rightarrow> int list \<Rightarrow> bool \<Rightarrow> player \<Rightarrow> ((bool \<times> drops) \<times> player) option" where
  "DropItems2 e items_info badd p = do {
     _ \<leftarrow> chk_capacity (pair_total items_info 0);
     drop_pairs e items_info badd ([], [], []) p
   }"

text \<open>\<open>DropItems3\<close> collects into maps, so a repeated id keeps its last message only.\<close>

type_synonym drop_maps = "item_info option column \<times> cat_info option column \<times> (int \<times> int) column"

definition drop3_one :: "env \<Rightarrow> drop_lib \<Rightarrow> drop_maps \<Rightarrow> player \<Rightarrow> (drop_maps \<times> player) option" where
  "drop3_one e lib acc p = do {
     rand_val \<leftarrow> Int31n e (p_ndraws p) (dl_TotalWeight lib);
     let p = p\<lparr>p_ndraws := Suc (p_ndraws p)\<rparr>;
     searched \<leftarrow> drop_search lib False 0 rand_val False [];
     (found, _) \<leftarrow> searched;
     (case (found, acc) of
        (None, _) \<Rightarrow> Some (acc, p)
      | (Some it, items, cats, buildings) \<Rightarrow>
          let k = dc_DropType it in
          if item_map e k \<noteq> None then do {
            ((_, num), p) \<leftarrow> rand31n_from_range e (dc_Min it) (dc_Max it) p;
            (case AddItem e k num True p of (m, p) \<Rightarrow> Some ((AList.update k m items, cats, buildings), p))
          }
          else if cat_map e k \<noteq> None then do {
            (m, p) \<leftarrow> AddCat e k True p;
            Some ((items, AList.update k m cats, buildings), p)
          }
          else if building_map e k \<noteq> None then do {
            ((_, num), p) \<leftarrow> rand31n_from_range e (dc_Min it) (dc_Max it) p;
            (case AddDepotBuilding e k num p of (ok, p) \<Rightarrow>
              Some ((items, cats, if ok then AList.update k (k, num) buildings else buildings), p))
          }
          else Some (acc, p))
   }"

fun drop3_times :: "env \<Rightarrow> drop_lib \<Rightarrow> nat \<Rightarrow> drop_maps \<Rightarrow> player \<Rightarrow> (drop_maps \<times> player) option" where
  "drop3_times e lib 0 acc p = Some (acc, p)"
| "drop3_times e lib (Suc n) acc p = do { (acc, p) \<leftarrow> drop3_one e lib acc p; drop3_times e lib n acc p }"

fun DropItems3 :: "env \<Rightarrow> int list \<Rightarrow> drop_maps \<Rightarrow> player \<Rightarrow> ((bool \<times> drop_maps) \<times> player) option" where
  "DropItems3 e (k # num # rs) acc p =
     (case drop_card_map e k of
        None \<Rightarrow> Some ((False, acc), p)
      | Some lib \<Rightarrow> do { (acc, p) \<leftarrow> drop3_times e lib (nat num) acc p; DropItems3 e rs acc p })"
| "DropItems3 e rs acc p = Some ((True, acc), p)"

subsection \<open>The handler\<close>

definition DrawCard :: "env \<Rightarrow> int \<Rightarrow> int \<Rightarrow> player \<Rightarrow> (int \<times> player) option" where
  "DrawCard e draw_type draw_count p =
     (case extract_map e draw_type of
        None \<Rightarrow> Some (-1, p)
      | Some ex \<Rightarrow>
        if ex_DropItems ex = [] then Some (-1, p)
        else do {
          (num, p) \<leftarrow> GetItemResourceValue e (ex_CostId ex) p;
          let cost = i32 (ex_CostNum ex * draw_count);
          if num < cost then Some (E_ERR_ITEM_NUM_NOT_ENOUGH, p)
          else do {
            let is_first = (\<not> col_HasIndex (p_FirstDrawCards p) draw_type \<and> ex_FirstDropIds ex \<noteq> []);
            ((b, items, cats, buildings), p) \<leftarrow>
              (if is_first then DropItems2 e (ex_FirstDropIds ex) True p
               else DropItems e (ex_DropItems ex) draw_count True p);
            if \<not> b then Some (E_ERR_DRAW_WRONG_DRAW_TYPE, p)
            else do {
              let p = (if is_first
                       then p\<lparr>p_FirstDrawCards := snd (col_Add draw_type 1 (p_FirstDrawCards p))\<rparr> else p);
              (_, p) \<leftarrow> RemoveItemResource e (ex_CostId ex) cost p;
              let p = SendDepotBuildingUpdate (SendItemsUpdate (SendCatsUpdate p));
              Some (1, Send_msg (S2CDrawResult items cats buildings is_first) p)
            }
          }
        })"

subsection \<open>When a draw returns\<close>

text \<open>A library as the table loader builds it, with positive weights.\<close>

definition lib_ok :: "drop_lib \<Rightarrow> bool" where
  "lib_ok lib \<longleftrightarrow> dl_TotalCount lib = int (length (dl_DropItems lib)) \<and>
     dl_TotalWeight lib = sum_list (map dc_Weight (dl_DropItems lib)) \<and> dl_TotalWeight lib \<le> max32 \<and>
     (\<forall>it \<in> set (dl_DropItems lib). 0 < dc_Weight it)"

text \<open>The entry a random number selects.\<close>

fun hit :: "xml_drop_card list \<Rightarrow> int \<Rightarrow> nat" where
  "hit [] r = 0"
| "hit (it # its) r = (if dc_Weight it > r then 0 else Suc (hit its (r - dc_Weight it)))"

abbreviation (input) is_used :: "drop_lib \<Rightarrow> int column \<Rightarrow> nat \<Rightarrow> bool" where
  "is_used lib used i \<equiv> col_HasIndex used (dc_DropType (dl_DropItems lib ! i))"

lemma hit_less: "0 \<le> r \<Longrightarrow> r < sum_list (map dc_Weight its) \<Longrightarrow> hit its r < length its"
  by (induction its r rule: hit.induct) auto

lemma search_skip:
  assumes "i < length (dl_DropItems lib)" "dl_TotalCount lib = int (length (dl_DropItems lib))"
    "dc_Weight (dl_DropItems lib ! i) \<le> r"
  shows "drop_search lib cs (int i) r False used =
    drop_search lib cs (int (Suc i)) (i32 (r - dc_Weight (dl_DropItems lib ! i))) False used"
  using assms by (subst drop_search.simps) (simp add: go_nth_def add.commute)

lemma search_found:
  assumes "i < length (dl_DropItems lib)" "dl_TotalCount lib = int (length (dl_DropItems lib))"
    "gs \<or> r < dc_Weight (dl_DropItems lib ! i)" "cs \<Longrightarrow> \<not> is_used lib used i"
  shows "drop_search lib cs (int i) r gs used = Some (Some (Some (dl_DropItems lib ! i), used))"
  using assms by (subst drop_search.simps) (auto simp: go_nth_def)

lemma search_pass:
  assumes "i < length (dl_DropItems lib)" "dl_TotalCount lib = int (length (dl_DropItems lib))"
    "gs \<or> r < dc_Weight (dl_DropItems lib ! i)" "is_used lib used i" "length used \<noteq> length (dl_DropItems lib)"
  shows "drop_search lib True (int i) r gs used =
    drop_search lib True (int (if Suc i = length (dl_DropItems lib) then 1 else Suc i)) r True used"
proof -
  have "(if int i = dl_TotalCount lib - 1 then 0 else int i) + 1 =
      int (if Suc i = length (dl_DropItems lib) then 1 else Suc i)" using assms(2) by auto
  then show ?thesis using assms by (subst drop_search.simps) (auto simp: go_nth_def)
qed

lemma search_to_hit:
  assumes "lib_ok lib" "0 \<le> r" "r < sum_list (map dc_Weight (drop i (dl_DropItems lib)))"
    "i \<le> length (dl_DropItems lib)"
  shows "\<exists>r'. 0 \<le> r' \<and> r' < dc_Weight (dl_DropItems lib ! (i + hit (drop i (dl_DropItems lib)) r)) \<and>
    drop_search lib cs (int i) r False used =
      drop_search lib cs (int (i + hit (drop i (dl_DropItems lib)) r)) r' False used"
  using assms(2-)
proof (induction "length (dl_DropItems lib) - i" arbitrary: i r)
  case 0
  then show ?case by simp
next
  case (Suc m)
  then have i: "i < length (dl_DropItems lib)" by simp
  then have d: "drop i (dl_DropItems lib) = dl_DropItems lib ! i # drop (Suc i) (dl_DropItems lib)"
    by (simp add: Cons_nth_drop_Suc)
  show ?case
  proof (cases "dc_Weight (dl_DropItems lib ! i) > r")
    case True
    then show ?thesis using d Suc.prems(1) by (intro exI [of _ r]) simp
  next
    case False
    let ?w = "dc_Weight (dl_DropItems lib ! i)"
    have w: "0 < ?w" using assms(1) i by (simp add: lib_ok_def)
    have nonneg: "0 \<le> x" if "x \<in> set (map dc_Weight (take i (dl_DropItems lib)))" for x
      using that assms(1) by (fastforce simp: lib_ok_def dest: in_set_takeD)
    have "sum_list (map dc_Weight (take i (dl_DropItems lib))) +
        sum_list (map dc_Weight (drop i (dl_DropItems lib))) = dl_TotalWeight lib"
      using assms(1) by (metis append_take_drop_id lib_ok_def map_append sum_list_append)
    moreover have "0 \<le> sum_list (map dc_Weight (take i (dl_DropItems lib)))"
      by (rule sum_list_nonneg) (rule nonneg)
    moreover have "dl_TotalWeight lib \<le> max32" using assms(1) by (simp add: lib_ok_def)
    ultimately have "r \<le> max32" using Suc.prems(2) by linarith
    then have r: "i32 (r - ?w) = r - ?w" using False w Suc.prems(1) by (simp add: i32_range_id)
    have "m = length (dl_DropItems lib) - Suc i" using Suc.hyps(2) by simp
    from Suc.hyps(1) [OF this, of "r - ?w"] False Suc.prems i d
    obtain r' where r': "0 \<le> r'"
      "r' < dc_Weight (dl_DropItems lib ! (Suc i + hit (drop (Suc i) (dl_DropItems lib)) (r - ?w)))"
      "drop_search lib cs (int (Suc i)) (r - ?w) False used =
       drop_search lib cs (int (Suc i + hit (drop (Suc i) (dl_DropItems lib)) (r - ?w))) r' False used"
      by auto
    have "drop_search lib cs (int i) r False used = drop_search lib cs (int (Suc i)) (r - ?w) False used"
      using search_skip [OF i, of r cs used] assms(1) False r by (simp add: lib_ok_def)
    with r' False d show ?thesis by (intro exI [of _ r']) simp
  qed
qed

text \<open>From a place where the search passes over used entries: the next free entry is found.\<close>

lemma search_next_free:
  assumes "lib_ok lib" "length used \<noteq> length (dl_DropItems lib)"
    "i \<le> j" "j < length (dl_DropItems lib)" "\<not> is_used lib used j" "\<forall>k \<in> {i..<j}. is_used lib used k"
  shows "drop_search lib True (int i) r True used = Some (Some (Some (dl_DropItems lib ! j), used))"
  using assms(3-)
proof (induction "j - i" arbitrary: i)
  case 0
  then have "i = j" by simp
  then show ?case using search_found [of j lib True r True used] assms(1) 0 by (simp add: lib_ok_def)
next
  case (Suc m)
  then have ne: "Suc i \<noteq> length (dl_DropItems lib)" and u: "is_used lib used i" by auto
  have "drop_search lib True (int i) r True used = drop_search lib True (int (Suc i)) r True used"
    using search_pass [OF _ _ disjI1 [OF TrueI] u assms(2), of r] Suc assms(1) ne by (simp add: lib_ok_def)
  also have "\<dots> = Some (Some (Some (dl_DropItems lib ! j), used))"
    by (rule Suc.hyps(1)) (use Suc in auto)
  finally show ?case .
qed

lemma search_to_end:
  assumes "lib_ok lib" "length used \<noteq> length (dl_DropItems lib)"
    "i < length (dl_DropItems lib)" "\<forall>k \<in> {i..<length (dl_DropItems lib)}. is_used lib used k"
  shows "drop_search lib True (int i) r True used = drop_search lib True 1 r True used"
  using assms(3-)
proof (induction "length (dl_DropItems lib) - i" arbitrary: i)
  case (Suc m)
  have step: "drop_search lib True (int i) r True used =
      drop_search lib True (int (if Suc i = length (dl_DropItems lib) then 1 else Suc i)) r True used"
    by (rule search_pass) (use Suc.prems assms(1,2) in \<open>auto simp: lib_ok_def\<close>)
  show ?case
  proof (cases "Suc i = length (dl_DropItems lib)")
    case False
    then have "drop_search lib True (int (Suc i)) r True used = drop_search lib True 1 r True used"
      by (intro Suc.hyps(1)) (use Suc in auto)
    with step False show ?thesis by simp
  qed (simp add: step)
qed simp

text \<open>With every entry but the first used, the search that passes over entries has no end.\<close>

lemma search_diverges:
  assumes "lib_ok lib" "length used \<noteq> length (dl_DropItems lib)"
    "\<forall>k \<in> {1..<length (dl_DropItems lib)}. is_used lib used k" "1 \<le> i" "i < int (length (dl_DropItems lib))"
  shows "drop_search lib True i r True used = None"
proof -
  let ?P = "\<lambda>lib cs i (r :: int) gs used (y :: (xml_drop_card option \<times> int column) option).
    \<not> (lib_ok lib \<and> cs \<and> length used \<noteq> length (dl_DropItems lib) \<and>
      (\<forall>k \<in> {1..<length (dl_DropItems lib)}. is_used lib used k) \<and> 1 \<le> i \<and> i < int (length (dl_DropItems lib)) \<and> gs)"
  have "?P lib cs i r gs used y" if "drop_search lib cs i r gs used = Some y" for lib cs i r gs used y
  proof (rule drop_search.raw_induct [where P = ?P, OF _ that])
    fix f :: "drop_lib \<Rightarrow> bool \<Rightarrow> int \<Rightarrow> int \<Rightarrow> bool \<Rightarrow> int column \<Rightarrow> (xml_drop_card option \<times> int column) option option"
      and lib cs i r gs used y
    assume IH: "\<And>lib cs i r gs used y. f lib cs i r gs used = Some y \<Longrightarrow> ?P lib cs i r gs used y"
      and body: "(if i < dl_TotalCount lib then
        (case go_nth (dl_DropItems lib) i of
           None \<Rightarrow> Some None
         | Some tmp_item \<Rightarrow>
             if dc_Weight tmp_item > r \<or> gs then
               if cs \<and> col_HasIndex used (dc_DropType tmp_item) then
                 f lib cs ((if i = dl_TotalCount lib - 1 then 0 else i) + 1) r True
                   (if int (length used) = dl_TotalCount lib then [] else used)
               else Some (Some (Some tmp_item, used))
             else f lib cs (i + 1) (i32 (r - dc_Weight tmp_item)) gs used)
      else Some (Some (None, used))) = Some y"
    show "?P lib cs i r gs used y"
    proof
      assume a: "lib_ok lib \<and> cs \<and> length used \<noteq> length (dl_DropItems lib) \<and>
        (\<forall>k \<in> {1..<length (dl_DropItems lib)}. is_used lib used k) \<and> 1 \<le> i \<and> i < int (length (dl_DropItems lib)) \<and> gs"
      then have "nat i \<in> {1..<length (dl_DropItems lib)}" by auto
      with a have u: "is_used lib used (nat i)" by blast
      let ?j = "(if i = dl_TotalCount lib - 1 then 0 else i) + 1"
      have "f lib True ?j r True used = Some y"
        using body a u by (simp add: go_nth_def lib_ok_def split: if_splits)
      from IH [OF this] a show False by (auto simp: lib_ok_def split: if_splits)
    qed
  qed
  from this [of lib True i r True used] show ?thesis using assms by fastforce
qed

lemma least_free:
  assumes "\<exists>k \<in> {a..<n}. \<not> P k"
  obtains j :: nat where "a \<le> j" "j < n" "\<not> P j" "\<forall>k \<in> {a..<j}. P k"
proof -
  let ?Q = "\<lambda>k. a \<le> k \<and> k < n \<and> \<not> P k"
  from assms have "\<exists>k. ?Q k" by auto
  then have "?Q (LEAST k. ?Q k)" by (rule LeastI_ex)
  moreover have "\<forall>k \<in> {a..<(LEAST k. ?Q k)}. P k"
  proof
    fix k assume k: "k \<in> {a..<(LEAST k. ?Q k)}"
    then have "\<not> ?Q k" by (intro not_less_Least) simp
    moreover have "k < n" using k \<open>?Q (LEAST k. ?Q k)\<close> by (metis atLeastLessThan_iff order.strict_trans)
    ultimately show "P k" using k by simp
  qed
  ultimately show thesis by (elim conjE) (rule that)
qed

definition stuck :: "drop_lib \<Rightarrow> int column \<Rightarrow> int \<Rightarrow> bool" where
  "stuck lib used r \<longleftrightarrow> 2 \<le> length (dl_DropItems lib) \<and>
     (\<forall>k \<in> {1..<length (dl_DropItems lib)}. is_used lib used k) \<and>
     (0 < hit (dl_DropItems lib) r \<or> is_used lib used 0)"

definition fair_result :: "drop_lib \<Rightarrow> int column \<Rightarrow> xml_drop_card option \<Rightarrow> bool" where
  "fair_result lib used x = (case x of
     None \<Rightarrow> length (dl_DropItems lib) = 1 \<and> is_used lib used 0
   | Some it \<Rightarrow> it \<in> set (dl_DropItems lib) \<and> \<not> col_HasIndex used (dc_DropType it))"

text \<open>Passing over entries from index \<open>j\<close> in a library of at least two.\<close>

lemma search_pass_over:
  assumes "lib_ok lib" "length used \<noteq> length (dl_DropItems lib)" "1 \<le> j" "j < length (dl_DropItems lib)"
  shows "if \<forall>k \<in> {1..<length (dl_DropItems lib)}. is_used lib used k
    then drop_search lib True (int j) r True used = None
    else \<exists>x. drop_search lib True (int j) r True used = Some (Some (Some x, used)) \<and>
      x \<in> set (dl_DropItems lib) \<and> \<not> col_HasIndex used (dc_DropType x)"
proof (cases "\<forall>k \<in> {1..<length (dl_DropItems lib)}. is_used lib used k")
  case True
  then have "drop_search lib True (int j) r True used = None"
    using assms by (intro search_diverges) auto
  with True show ?thesis by simp
next
  case False
  have ahead: "\<exists>x. drop_search lib True (int a) r True used = Some (Some (Some x, used)) \<and>
      x \<in> set (dl_DropItems lib) \<and> \<not> col_HasIndex used (dc_DropType x)"
    if free: "\<exists>k \<in> {a..<length (dl_DropItems lib)}. \<not> is_used lib used k" for a
  proof -
    obtain k where k: "a \<le> k" "k < length (dl_DropItems lib)" "\<not> is_used lib used k"
      "\<forall>i \<in> {a..<k}. is_used lib used i"
      by (rule least_free [OF free])
    have "dl_DropItems lib ! k \<in> set (dl_DropItems lib)" using k(2) by (rule nth_mem)
    with search_next_free [OF assms(1,2) k, of r] k(3) show ?thesis by blast
  qed
  have "\<exists>x. drop_search lib True (int j) r True used = Some (Some (Some x, used)) \<and>
      x \<in> set (dl_DropItems lib) \<and> \<not> col_HasIndex used (dc_DropType x)"
  proof (cases "\<forall>k \<in> {j..<length (dl_DropItems lib)}. is_used lib used k")
    case True
    from search_to_end [OF assms(1,2,4) True, of r] ahead [of 1] False show ?thesis by auto
  next
    case False
    then show ?thesis using ahead [of j] by blast
  qed
  then show ?thesis using False by (simp only: if_False)
qed

text \<open>
  Property C21. When a draw returns. With repetitions allowed the search always returns the entry the random
  number selects. When repetitions are to be avoided it does not return at all exactly if the library
  has at least two entries, all but the first are used, and the random number selects one of them
  or the first is used too: stepping the index back to 0 is undone by the loop's own increment, so
  the first entry is never considered again. In all other cases it returns, never panics, and gives
  an unused entry of the library (nothing, when the only entry is used).
\<close>

theorem draw_returns_iff:
  assumes "lib_ok lib" "0 \<le> r" "r < dl_TotalWeight lib" "length used \<noteq> length (dl_DropItems lib)"
  shows "drop_search lib False 0 r False used =
      Some (Some (Some (dl_DropItems lib ! hit (dl_DropItems lib) r), used)) \<and>
    (if stuck lib used r then drop_search lib True 0 r False used = None
     else \<exists>x. drop_search lib True 0 r False used = Some (Some (x, used)) \<and> fair_result lib used x)"
proof -
  let ?xs = "dl_DropItems lib" and ?h = "hit (dl_DropItems lib) r"
  have tc: "dl_TotalCount lib = int (length ?xs)" using assms(1) by (simp add: lib_ok_def)
  have r: "r < sum_list (map dc_Weight ?xs)" using assms(1,3) by (simp add: lib_ok_def)
  have h: "?h < length ?xs" by (rule hit_less [OF assms(2) r])
  have to_hit: "\<exists>r'. r' < dc_Weight (?xs ! ?h) \<and>
      drop_search lib cs 0 r False used = drop_search lib cs (int ?h) r' False used" for cs
    using search_to_hit [OF assms(1,2), of 0 cs used] r by auto
  from to_hit [of False] search_found [OF h tc, of False _ False used]
  have free: "drop_search lib False 0 r False used = Some (Some (Some (?xs ! ?h), used))" by auto
  from to_hit [of True] obtain r' where r': "r' < dc_Weight (?xs ! ?h)"
    "drop_search lib True 0 r False used = drop_search lib True (int ?h) r' False used" by blast
  have "if stuck lib used r then drop_search lib True 0 r False used = None
     else \<exists>x. drop_search lib True 0 r False used = Some (Some (x, used)) \<and> fair_result lib used x"
  proof (cases "is_used lib used ?h")
    case False
    then have "\<not> stuck lib used r" using h by (cases "?h = 0") (auto simp: stuck_def)
    moreover have "fair_result lib used (Some (?xs ! ?h))" using False h by (simp add: fair_result_def)
    ultimately show ?thesis using search_found [OF h tc, of False r' True used] r' False by auto
  next
    case True
    let ?j = "if Suc ?h = length ?xs then 1 else Suc ?h"
    have pass: "drop_search lib True 0 r False used = drop_search lib True (int ?j) r' True used"
      using search_pass [OF h tc _ True assms(4), of False r'] r' by simp
    show ?thesis
    proof (cases "length ?xs = 1")
      case True': True
      then have "drop_search lib True 0 r False used = Some (Some (None, used))"
        using pass h tc by (subst (asm) (2) drop_search.simps) auto
      moreover have "fair_result lib used None" using True True' h by (simp add: fair_result_def)
      ultimately show ?thesis using True' by (auto simp: stuck_def)
    next
      case False
      then have n: "2 \<le> length ?xs" using h by linarith
      have s: "stuck lib used r \<longleftrightarrow> (\<forall>k \<in> {1..<length ?xs}. is_used lib used k)"
        using True n unfolding stuck_def by (cases "?h = 0") auto
      have "1 \<le> ?j" "?j < length ?xs" using h n by auto
      from search_pass_over [OF assms(1,4) this, of r']
      have "if stuck lib used r then drop_search lib True 0 r False used = None
        else \<exists>x. drop_search lib True 0 r False used = Some (Some (Some x, used)) \<and> x \<in> set ?xs \<and>
          \<not> col_HasIndex used (dc_DropType x)"
        unfolding pass s .
      then show ?thesis by (fastforce simp: fair_result_def split: if_splits)
    qed
  qed
  with free show ?thesis by blast
qed

definition demo_lib :: drop_lib where
  "demo_lib = \<lparr>dl_TotalCount = 2, dl_TotalWeight = 20,
     dl_DropItems = [\<lparr>dc_DropType = 2, dc_Weight = 10, dc_Min = 1, dc_Max = 1\<rparr>,
       \<lparr>dc_DropType = 3, dc_Weight = 10, dc_Min = 1, dc_Max = 1\<rparr>]\<rparr>"

lemma demo_lib_ok: "lib_ok demo_lib"
  by (simp add: lib_ok_def demo_lib_def)

lemma draw_returns_iff_witness:
  "drop_search demo_lib True 0 12 False [(3, 10)] = None \<and>
   drop_search demo_lib False 0 12 False [(3, 10)] = Some (Some (Some (dl_DropItems demo_lib ! 1), [(3, 10)]))"
proof -
  have "stuck demo_lib [(3, 10)] 12" by (auto simp: stuck_def demo_lib_def col_HasIndex_def)
  then show ?thesis
    using draw_returns_iff [OF demo_lib_ok, of 12 "[(3, 10)]"] by (simp add: demo_lib_def)
qed

text \<open>So one request for two cards of a library of two entries can stop the handler for good: here both
  random numbers select the second entry.\<close>

text \<open>So one request for two cards of a library of two entries can stop the handler for good: here both
  random numbers select the second entry.\<close>

lemma demo_first_search: "drop_search demo_lib True 0 12 False [] =
    Some (Some (Some \<lparr>dc_DropType = 3, dc_Weight = 10, dc_Min = 1, dc_Max = 1\<rparr>, []))"
  by (subst drop_search.simps, subst drop_search.simps)
    (simp add: demo_lib_def go_nth_def i32_def col_HasIndex_def)

lemma demo_second_search: "drop_search demo_lib True 0 12 False [(3, 10)] = None"
proof -
  have "drop_search demo_lib True 0 12 False [(3, 10)] = drop_search demo_lib True 1 2 True [(3, 10)]"
    by (subst drop_search.simps, subst drop_search.simps)
      (simp add: demo_lib_def go_nth_def i32_def col_HasIndex_def)
  also have "\<dots> = None"
    by (rule search_diverges [OF demo_lib_ok]) (auto simp: demo_lib_def col_HasIndex_def)
  finally show ?thesis .
qed

definition demo_draw_env :: env where
  "demo_draw_env = empty_env\<lparr>drop_card_map := [1 \<mapsto> demo_lib], draws := (\<lambda>_. 12)\<rparr>"

lemma two_draws_hang:
  "DropItems demo_draw_env [(1, 1)] 2 True empty_player = None"
proof -
  let ?e = "demo_draw_env"
  have draw: "Int31n ?e k 100 = Some 12" "Int31n ?e k 20 = Some 12" for k by (simp_all add: Int31n_def demo_draw_env_def)
  have tabs: "item_map ?e k = None" "cat_map ?e k = None" "building_map ?e k = None"
    "drop_card_map ?e 1 = Some demo_lib" for k by (simp_all add: demo_draw_env_def empty_env_def)
  have lib: "dl_TotalWeight demo_lib = 20" "dl_TotalCount demo_lib = 2" by (simp_all add: demo_lib_def)
  have twice: "draw_sequence [(1, 1)] 2 = [1, 1]" by (simp add: draw_sequence_def numeral_2_eq_2)
  let ?p = "empty_player\<lparr>p_ndraws := 1\<rparr>"
  obtain r q where one: "drop_item ?e demo_lib True True ?p = Some (r, q)" "p_used_drop_ids q = [(3, 10)]"
    by (simp add: drop_item_def lib draw demo_first_search drop_reward_def rand31n_from_range_def tabs
      AddItemResource_def AddDiamond_def add_capped_def Info_Incby_def Info_Set_def empty_player_def empty_info_def Let_def)
  have "drop_item ?e demo_lib True True q = None"
    by (simp add: drop_item_def lib draw demo_second_search one(2) Let_def)
  then show ?thesis using one(1)
    by (simp add: DropItems_def chk_capacity_def draw twice tabs(4) i32_def empty_player_def)
qed

end
