(* ===== verification/Stage.thy ===== *)
theory Stage
  imports Draw Frames
begin

text \<open>
  \<open>game_server/player_stage.go\<close> and \<open>player_chapter.go\<close>: beginning and passing a stage, the record kept per stage,
  and the unlocking of chapters. The score and stars of a pass come from the client. The scores of
  friends come from the rank server (\<open>_get_friend_stage_score\<close>) and are not part of the reply of the model;
  the session number of a pass (\<open>StagePassMgr\<close>) is used by nothing.
\<close>

abbreviation (input) FINISHE_ALL_STAR :: int where "FINISHE_ALL_STAR \<equiv> 3"
abbreviation (input) E_ERR_STAGE_PASS_NOT_UNLOCK :: int where "E_ERR_STAGE_PASS_NOT_UNLOCK \<equiv> -101800"
abbreviation (input) E_ERR_STAGE_PASS_OVER_NEXT_STATE :: int where "E_ERR_STAGE_PASS_OVER_NEXT_STATE \<equiv> -101801"
abbreviation (input) E_ERR_STAGE_TABLE_DATA_NOT_FOUND :: int where "E_ERR_STAGE_TABLE_DATA_NOT_FOUND \<equiv> -101802"
abbreviation (input) E_ERR_STAGE_NO_MATCH_WITH_END :: int where "E_ERR_STAGE_NO_MATCH_WITH_END \<equiv> -101803"
abbreviation (input) E_ERR_STAGE_ALREADY_FINISHED :: int where "E_ERR_STAGE_ALREADY_FINISHED \<equiv> -101804"
abbreviation (input) E_ERR_CHAPTER_UNLOCK_WRONG_CHAPTER_ID :: int where
  "E_ERR_CHAPTER_UNLOCK_WRONG_CHAPTER_ID \<equiv> -101700"
abbreviation (input) E_ERR_CHAPTER_UNLOCK_LESS_STAR :: int where "E_ERR_CHAPTER_UNLOCK_LESS_STAR \<equiv> -101701"
abbreviation (input) E_ERR_CHAPTER_UNLOCK_LESS_DIAMOND :: int where "E_ERR_CHAPTER_UNLOCK_LESS_DIAMOND \<equiv> -101702"
abbreviation (input) E_ERR_CHAPTER_UNLOCK_NO_UNLOCK_CFG :: int where "E_ERR_CHAPTER_UNLOCK_NO_UNLOCK_CFG \<equiv> -101703"
abbreviation (input) E_ERR_CHAPTER_UNLOCK_NO_CUR_UNLOCK_CFG :: int where
  "E_ERR_CHAPTER_UNLOCK_NO_CUR_UNLOCK_CFG \<equiv> -101704"
abbreviation (input) E_ERR_CHAPTER_UNLOCK_NEED_PASS_STAGE :: int where
  "E_ERR_CHAPTER_UNLOCK_NEED_PASS_STAGE \<equiv> -101707"
abbreviation (input) E_ERR_CHAPTER_HELP_UNLOCK_LESS_NUM :: int where "E_ERR_CHAPTER_HELP_UNLOCK_LESS_NUM \<equiv> -101708"
abbreviation (input) TASK_COMPLETE_TYPE_PASS_NUM :: int where "TASK_COMPLETE_TYPE_PASS_NUM \<equiv> 102"
abbreviation (input) TASK_COMPLETE_TYPE_PASS_CHAPTER :: int where "TASK_COMPLETE_TYPE_PASS_CHAPTER \<equiv> 201"
abbreviation (input) RANK_LIST_TYPE_STAGE_TOTAL_SCORE :: int where "RANK_LIST_TYPE_STAGE_TOTAL_SCORE \<equiv> 1"

subsection \<open>The stage column\<close>

definition Stages_Set :: "int \<Rightarrow> (stage_data \<Rightarrow> stage_data) \<Rightarrow> player \<Rightarrow> player" where
  "Stages_Set k u p = p\<lparr>p_Stages := snd (col_set_field u k (p_Stages p))\<rparr>"

definition ChkSetTopScore :: "int \<Rightarrow> int \<Rightarrow> player \<Rightarrow> (int \<times> player) option" where
  "ChkSetTopScore k v p =
     (case map_of (p_Stages p) k of
        None \<Rightarrow> None
      | Some d \<Rightarrow> if st_TopScore d < v then Some (v, Stages_Set k (\<lambda>d. d\<lparr>st_TopScore := v\<rparr>) p)
                  else Some (st_TopScore d, p))"

definition GetTotalScore :: "player \<Rightarrow> int" where
  "GetTotalScore p = foldl (\<lambda>s (_, d). i32 (s + st_TopScore d)) 0 (p_Stages p)"

definition GetTotalTopStar :: "player \<Rightarrow> int" where
  "GetTotalTopStar p = foldl (\<lambda>s (_, d). i32 (s + st_Stars d)) 0 (p_Stages p)"

definition ChkSetCurMaxStage :: "int \<Rightarrow> player \<Rightarrow> bool \<times> player" where
  "ChkSetCurMaxStage v p =
     (if i_CurMaxStage (p_Info p) < v then (True, Info_Set i_CurMaxStage_update v p) else (False, p))"

text \<open>The counters of the column add an empty row when there is none.\<close>

definition Stages_IncbyPassCount :: "int \<Rightarrow> int \<Rightarrow> player \<Rightarrow> player" where
  "Stages_IncbyPassCount k v p =
     (let p = (if col_HasIndex (p_Stages p) k then p else p\<lparr>p_Stages := snd (col_Add k
            \<lparr>st_Stars = 0, st_LastFinishedUnix = 0, st_TopScore = 0, st_PlayedCount = 0, st_PassCount = 0\<rparr>
            (p_Stages p))\<rparr>)
      in Stages_Set k (\<lambda>d. d\<lparr>st_PassCount := i32 (st_PassCount d + v)\<rparr>) p)"

definition Stages_IncbyPlayedCount :: "int \<Rightarrow> int \<Rightarrow> player \<Rightarrow> player" where
  "Stages_IncbyPlayedCount k v p =
     (let p = (if col_HasIndex (p_Stages p) k then p else p\<lparr>p_Stages := snd (col_Add k
            \<lparr>st_Stars = 0, st_LastFinishedUnix = 0, st_TopScore = 0, st_PlayedCount = 0, st_PassCount = 0\<rparr>
            (p_Stages p))\<rparr>)
      in Stages_Set k (\<lambda>d. d\<lparr>st_PlayedCount := i32 (st_PlayedCount d + v)\<rparr>) p)"

subsection \<open>Beginning a stage\<close>

text \<open>The items taken along, each id with the number of its occurrences in the request.\<close>

fun chk_stage_items :: "env \<Rightarrow> int list \<Rightarrow> int list \<Rightarrow> player \<Rightarrow> (bool \<times> player) option" where
  "chk_stage_items e ids [] p = Some (True, p)"
| "chk_stage_items e ids (k # ks) p = do {
     (num, p) \<leftarrow> GetItemResourceValue e k p;
     if num < int (count_list ids k) then Some (False, p) else chk_stage_items e ids ks p
   }"

fun remove_stage_items :: "env \<Rightarrow> int list \<Rightarrow> player \<Rightarrow> player option" where
  "remove_stage_items e [] p = Some p"
| "remove_stage_items e (k # ks) p = do { (_, p) \<leftarrow> RemoveItemResource e k 1 p; remove_stage_items e ks p }"

definition CheckBeginStage :: "env \<Rightarrow> int \<Rightarrow> int \<Rightarrow> int list \<Rightarrow> player \<Rightarrow> (bool \<times> player) option" where
  "CheckBeginStage e stage_id cat_id item_ids p =
     (case stage_map e stage_id of
        None \<Rightarrow> Some (False, p)
      | Some level \<Rightarrow> do {
          ((spirit, _), p) \<leftarrow> CalcSpirit e p;
          if le_NeedPower level > spirit then Some (False, p)
          else do {
            (_, p) \<leftarrow> SubSpirit e (le_NeedPower level) p;
            if cat_id > 0 \<and> \<not> col_HasIndex (p_Cats p) cat_id then Some (False, p)
            else do {
              (ok, p) \<leftarrow> chk_stage_items e item_ids (remdups item_ids) p;
              if \<not> ok then Some (False, p)
              else do {
                p \<leftarrow> (if item_ids = [] then Some p
                     else do { p \<leftarrow> remove_stage_items e item_ids p; Some (SendItemsUpdate p) });
                Some (True, p\<lparr>p_stage_id := stage_id, p_stage_cat_id := cat_id, p_stage_state := 1\<rparr>)
              }
            }
          }
        })"

definition C2SStagePassBegin :: "env \<Rightarrow> int \<Rightarrow> int \<Rightarrow> int list \<Rightarrow> player \<Rightarrow> (int \<times> player) option" where
  "C2SStagePassBegin e stage_id cat_id item_ids p = do {
     (ok, p) \<leftarrow> CheckBeginStage e stage_id cat_id item_ids p;
     if \<not> ok then Some (-1, p) else Some (1, Send_msg (S2CStageBeginResult stage_id) p)
   }"

subsection \<open>Passing a stage\<close>

definition reward_infos :: "int list \<Rightarrow> item_info list" where
  "reward_infos rs = map (\<lambda>(k, n). \<lparr>ii_ItemCfgId = k, ii_ItemNum = n, ii_RemainSeconds = 0\<rparr>) (pairs_of rs)"

text \<open>The record of the stage: top score, whether it is the first pass and the first with all stars.\<close>

definition record_stage :: "env \<Rightarrow> int \<Rightarrow> int \<Rightarrow> int \<Rightarrow> player \<Rightarrow> ((int \<times> bool \<times> bool) \<times> player) option" where
  "record_stage e stageid star score p =
     (case map_of (p_Stages p) stageid of
        None \<Rightarrow>
          let d = \<lparr>st_Stars = star, st_LastFinishedUnix = i32 (now e), st_TopScore = score,
                st_PlayedCount = 0, st_PassCount = 0\<rparr>;
              p = p\<lparr>p_Stages := snd (col_Add stageid d (p_Stages p))\<rparr>;
              p = snd (AddStar e star p)
          in Some ((score, True, star \<ge> FINISHE_ALL_STAR), p)
      | Some cur_stage_db \<Rightarrow> do {
          (top_score, p) \<leftarrow> ChkSetTopScore stageid score p;
          if star > st_Stars cur_stage_db then
            let p = Stages_Set stageid (\<lambda>d. d\<lparr>st_Stars := star\<rparr>) p;
                p = snd (AddStar e (i32 (star - st_Stars cur_stage_db)) p)
            in Some ((top_score, False, st_Stars cur_stage_db < FINISHE_ALL_STAR \<and> star \<ge> FINISHE_ALL_STAR), p)
          else Some ((top_score, False, False), p)
        })"

text \<open>An extra reward: a library and a chance in percent.\<close>

definition extra_drop :: "env \<Rightarrow> int list \<Rightarrow> stage_pass_msg \<Rightarrow> player \<Rightarrow> (stage_pass_msg \<times> player) option" where
  "extra_drop e extra m p =
     (if length extra \<noteq> 2 then Some (m, p)
      else do {
        r \<leftarrow> Int31n e (p_ndraws p) 100;
        let p = p\<lparr>p_ndraws := Suc (p_ndraws p)\<rparr>;
        if r < extra ! 1 then do {
          ((b, item, cat, building), p) \<leftarrow> drop_item_by_id e (extra ! 0) False p;
          Some (if b then m\<lparr>sp_GetItems := sp_GetItems m @ (case item of None \<Rightarrow> [] | Some x \<Rightarrow> [x]),
              sp_GetCats := sp_GetCats m @ (case cat of None \<Rightarrow> [] | Some x \<Rightarrow> [x]),
              sp_GetBuildings := sp_GetBuildings m @ (case building of None \<Rightarrow> [] | Some x \<Rightarrow> [x])\<rparr> else m, p)
        } else Some (m, p)
      })"

definition chk_stage_order :: "env \<Rightarrow> int \<Rightarrow> player \<Rightarrow> int option" where
  "chk_stage_order e stageid p =
     (if stageid > i_MaxUnlockStage (p_Info p) then Some E_ERR_STAGE_PASS_NOT_UNLOCK
      else
        let cur_max_stage_id = i_CurMaxStage (p_Info p) in
        if cur_max_stage_id > 0 \<and> stageid > cur_max_stage_id then
          (case stage_map e cur_max_stage_id of
             None \<Rightarrow> Some E_ERR_STAGE_PASS_NOT_UNLOCK
           | Some cfg \<Rightarrow> if le_NextLevel cfg \<noteq> stageid then Some E_ERR_STAGE_PASS_OVER_NEXT_STATE else None)
        else None)"

definition ChkFinishStage :: "env \<Rightarrow> int \<Rightarrow> int \<Rightarrow> int \<Rightarrow> stage_pass_msg \<Rightarrow> bool \<Rightarrow> player \<Rightarrow>
    ((int \<times> stage_pass_msg) \<times> player) option" where
  "ChkFinishStage e stageid star score m bforce p =
     (if p_stage_id p \<noteq> stageid then Some ((E_ERR_STAGE_NO_MATCH_WITH_END, m), p)
      else if p_stage_state p = 0 then Some ((E_ERR_STAGE_ALREADY_FINISHED, m), p)
      else case (if bforce then None else chk_stage_order e stageid p) of
        Some err \<Rightarrow> Some ((err, m), p)
      | None \<Rightarrow>
      (case stage_map e stageid of
        None \<Rightarrow> Some ((E_ERR_STAGE_TABLE_DATA_NOT_FOUND, m), p)
      | Some stagecfg \<Rightarrow> do {
          ((top_score, bfirst, bfirst_3star), p) \<leftarrow> record_stage e stageid star score p;
          let p = (case ChkSetCurMaxStage stageid p of (higher, p) \<Rightarrow>
                     if higher then p\<lparr>p_base_prop_chg := True\<rparr> else p);
          let m = m\<lparr>sp_GetItems := [], sp_GetCats := [], sp_GetBuildings := []\<rparr>;
          (m, p) \<leftarrow> (if bfirst then do {
               p \<leftarrow> AddResources e (le_FirstClearReward stagecfg) p;
               Some (m\<lparr>sp_GetItemsFirst := reward_infos (le_FirstClearReward stagecfg)\<rparr>, p)
             } else Some (m, p));
          (m, p) \<leftarrow> (if bfirst_3star then do {
               p \<leftarrow> AddResources e (le_FirstAllStarReward stagecfg) p;
               Some (m\<lparr>sp_GetItems3Star := reward_infos (le_FirstAllStarReward stagecfg)\<rparr>, p)
             } else Some (m, p));
          ability \<leftarrow> Player_get_cat_match_ability e p (p_stage_cat_id p);
          let extra_coin = i32 (i32 (ability * le_CoinReward stagecfg) sdiv 100);
          let coin = i32 (le_CoinReward stagecfg + extra_coin);
          let p = snd (AddGold coin p);
          let m = m\<lparr>sp_CatExtraAddCoin := extra_coin, sp_GetCoin := coin, sp_GetItems := sp_GetItems m @
                [\<lparr>ii_ItemCfgId = ITEM_RESOURCE_ID_GOLD, ii_ItemNum = coin, ii_RemainSeconds = 0\<rparr>]\<rparr>;
          (m, p) \<leftarrow> extra_drop e (le_ExtraReward1 stagecfg) m p;
          (m, p) \<leftarrow> extra_drop e (le_ExtraReward2 stagecfg) m p;
          Some ((top_score, m), p\<lparr>p_stage_state := 0\<rparr>)
        }))"

definition send_stage_info :: "env \<Rightarrow> player \<Rightarrow> player" where
  "send_stage_info e p =
     (let cur_max_stage_id = i_CurMaxStage (p_Info p);
          cur_max = (if cur_max_stage_id = 0 then init_stage_id e
                     else case stage_map e cur_max_stage_id of None \<Rightarrow> 0 | Some cfg \<Rightarrow> le_NextLevel cfg);
          chapter_id = cu_ChapterId (p_ChapterUnLock p);
          left_sec = (if chapter_id > 0 then
              (case chapter_map e chapter_id of
                 None \<Rightarrow> 0
               | Some cfg \<Rightarrow> max 0 (i32 (cp_UnlockTime cfg - i32 (i32 (now e) - cu_StartUnix (p_ChapterUnLock p)))))
            else 0)
      in Send_msg (S2CGetStageInfos cur_max (i_MaxUnlockStage (p_Info p)) left_sec chapter_id
           (map (\<lambda>(k, d). (k, st_TopScore d, st_Stars d)) (p_Stages p))) p)"

fun remove_used_items :: "env \<Rightarrow> (int \<times> int) list \<Rightarrow> player \<Rightarrow> player" where
  "remove_used_items e [] p = p"
| "remove_used_items e ((k, n) # rs) p = remove_used_items e rs (snd (RemoveItem e k n True p))"

definition chapter_task :: "env \<Rightarrow> int \<Rightarrow> player \<Rightarrow> player" where
  "chapter_task e stageid p =
     (case stage_map e stageid of
        None \<Rightarrow> p
      | Some level \<Rightarrow>
      (case chapter_levels e (le_Chapter level) of
        None \<Rightarrow> p
      | Some levels \<Rightarrow>
          if \<forall>v \<in> set levels. col_HasIndex (p_Stages p) (le_Id v)
          then TaskUpdate e TASK_COMPLETE_TYPE_PASS_CHAPTER False stageid 1 p else p))"

definition empty_pass_msg :: stage_pass_msg where
  "empty_pass_msg = \<lparr>sp_StageId = 0, sp_Score = 0, sp_TopScore = 0, sp_Stars = 0, sp_Result = 0, sp_UseItems = [],
     sp_GetItems = [], sp_GetCats = [], sp_GetBuildings = [], sp_GetItemsFirst = [], sp_GetItems3Star = [],
     sp_CatExtraAddCoin = 0, sp_GetCoin = 0\<rparr>"

definition stage_pass :: "env \<Rightarrow> int \<Rightarrow> int \<Rightarrow> int \<Rightarrow> int \<Rightarrow> (int \<times> int) list \<Rightarrow> bool \<Rightarrow> player \<Rightarrow> (int \<times> player) option" where
  "stage_pass e result stageid score stars items bforce p =
     (let m = empty_pass_msg\<lparr>sp_StageId := stageid, sp_Score := score, sp_Stars := stars, sp_UseItems := items,
            sp_Result := result\<rparr>
      in if result = 0 then Some (1, Send_msg (S2CStagePass m) p)
      else do {
        ((top_score, m), p) \<leftarrow> ChkFinishStage e stageid stars score m bforce p;
        if top_score < 0 then Some (top_score, p)
        else do {
          let p = (if result > 0 then Stages_IncbyPassCount stageid 1 p else p);
          let p = Stages_IncbyPlayedCount stageid 1 p;
          let m = m\<lparr>sp_TopScore := top_score\<rparr>;
          let p = remove_used_items e items p;
          let p = TaskUpdate e TASK_COMPLETE_TYPE_PASS_NUM False 0 1 p;
          let p = chapter_task e stageid p;
          let p = SendDepotBuildingUpdate (SendCatsUpdate (SendItemsUpdate p));
          let p = Send_msg (S2CStagePass m) p;
          let p = send_stage_info e p;
          Some (1, rpc_rank_list_update_data RANK_LIST_TYPE_STAGE_TOTAL_SCORE [GetTotalScore p, stageid, score] p)
        }
      })"

subsection \<open>Chapters\<close>

definition SetNewUnlockChapter :: "env \<Rightarrow> int \<Rightarrow> player \<Rightarrow> player" where
  "SetNewUnlockChapter e chapter_id p = p\<lparr>p_ChapterUnLock :=
     \<lparr>cu_ChapterId = chapter_id, cu_PlayerIds = [], cu_CurHelpIds = [], cu_StartUnix = i32 (now e)\<rparr>\<rparr>"

definition ChapterUnLock_Reset :: "player \<Rightarrow> player" where
  "ChapterUnLock_Reset p = p\<lparr>p_ChapterUnLock :=
     \<lparr>cu_ChapterId = 0, cu_PlayerIds = [], cu_CurHelpIds = [], cu_StartUnix = 0\<rparr>\<rparr>"

text \<open>The id is cleared before it is put into the message, so the message names chapter 0.\<close>

definition ChkSendNewUnlockStage :: "player \<Rightarrow> player" where
  "ChkSendNewUnlockStage p =
     (if p_new_unlock_chapter_id p > 0 then
        let p = p\<lparr>p_new_unlock_chapter_id := 0\<rparr>
        in Send_msg (S2CChapterUnlock (p_new_unlock_chapter_id p) (i_MaxUnlockStage (p_Info p))) p
      else p)"

definition GetDayFrom1970WithCfg :: "env \<Rightarrow> int \<Rightarrow> int" where
  "GetDayFrom1970WithCfg e cfgsec = i32 ((now e + tz e - cfgsec) sdiv (24 * 3600))"

definition ChkDayHelpUnlockNum :: "env \<Rightarrow> bool \<Rightarrow> player \<Rightarrow> player" where
  "ChkDayHelpUnlockNum e bsend p =
     (let cur_unix_day = GetDayFrom1970WithCfg e 0;
          p = (if cur_unix_day \<noteq> i_DayHelpUnlockUpDay (p_Info p)
               then Info_Set i_DayHelpUnlockCount_update 0 (Info_Set i_DayHelpUnlockUpDay_update cur_unix_day p)
               else p)
      in if bsend then Send_msg (S2CRetDayHelpUnlockCount
             (i32 (gc_MaxHelpUnlockNum (config e) - i_DayHelpUnlockCount (p_Info p)))) p
         else p)"

definition HelpUnlock :: "env \<Rightarrow> player \<Rightarrow> int \<times> player" where
  "HelpUnlock e p =
     (let p = ChkDayHelpUnlockNum e False p in
      if i_DayHelpUnlockCount (p_Info p) \<ge> gc_MaxHelpUnlockNum (config e)
      then (E_ERR_CHAPTER_HELP_UNLOCK_LESS_NUM, p)
      else (0, ChkDayHelpUnlockNum e True p))"

abbreviation (input) PLAYER_CHAPTER_UNLOCK_TYPE_TIME :: int where "PLAYER_CHAPTER_UNLOCK_TYPE_TIME \<equiv> 0"
abbreviation (input) PLAYER_CHAPTER_UNLOCK_TYPE_STAR :: int where "PLAYER_CHAPTER_UNLOCK_TYPE_STAR \<equiv> 1"
abbreviation (input) PLAYER_CHAPTER_UNLOCK_TYPE_DIAMOND :: int where "PLAYER_CHAPTER_UNLOCK_TYPE_DIAMOND \<equiv> 2"
abbreviation (input) PLAYER_CHAPTER_UNLOCK_TYPE_REQFRIEND :: int where "PLAYER_CHAPTER_UNLOCK_TYPE_REQFRIEND \<equiv> 3"

text \<open>The condition of an unlock by its type: the answer that ends the request, or \<open>None\<close> to go on.\<close>

definition chk_unlock_type :: "env \<Rightarrow> int \<Rightarrow> bool \<Rightarrow> xml_chapter \<Rightarrow> player \<Rightarrow> (int option \<times> player) option" where
  "chk_unlock_type e typ b_new cfg p =
     (let passed = i32 (i32 (now e) - cu_StartUnix (p_ChapterUnLock p)) in
      if typ = PLAYER_CHAPTER_UNLOCK_TYPE_TIME then
        Some (if b_new \<or> passed < cp_UnlockTime cfg then Some 0 else None, p)
      else if typ = PLAYER_CHAPTER_UNLOCK_TYPE_STAR then
        Some (if GetTotalTopStar p < cp_UnlockStarNum cfg then Some E_ERR_CHAPTER_UNLOCK_LESS_STAR else None, p)
      else if typ = PLAYER_CHAPTER_UNLOCK_TYPE_DIAMOND then
        (let needsec = i32 (cp_UnlockTime cfg - passed); c = gc_ChapterUnlockSecPerDiamond (config e) in do {
          need_diamond \<leftarrow> quot32 (i32 (i32 (needsec + c) - 1)) c;
          Some (if i_Diamond (p_Info p) < need_diamond then (Some E_ERR_CHAPTER_UNLOCK_LESS_DIAMOND, p)
                else (None, snd (SubDiamond need_diamond p)))
        })
      else if typ = PLAYER_CHAPTER_UNLOCK_TYPE_REQFRIEND then Some (Some 0, p)
      else Some (None, p))"

definition C2SChapterUnlock :: "env \<Rightarrow> int \<Rightarrow> int \<Rightarrow> player \<Rightarrow> (int \<times> player) option" where
  "C2SChapterUnlock e chapter_id typ p =
     (case chapter_map e chapter_id of
        None \<Rightarrow> Some (E_ERR_CHAPTER_UNLOCK_NO_UNLOCK_CFG, p)
      | Some chapter_cfg \<Rightarrow>
      (case chapter_map e (i_MaxChapter (p_Info p)) of
        None \<Rightarrow> Some (E_ERR_CHAPTER_UNLOCK_NO_CUR_UNLOCK_CFG, p)
      | Some cur_max_cfg \<Rightarrow>
        if chapter_id \<noteq> i32 (i_MaxChapter (p_Info p) + 1) then Some (E_ERR_CHAPTER_UNLOCK_WRONG_CHAPTER_ID, p)
        else if col_Get (p_Stages p) (cp_MaxStageId cur_max_cfg) = None
          then Some (E_ERR_CHAPTER_UNLOCK_NEED_PASS_STAGE, p)
        else if (case chapter_map e (i32 (chapter_id - 1)) of
            None \<Rightarrow> True | Some cfg \<Rightarrow> col_Get (p_Stages p) (cp_MaxStageId cfg) = None)
          then Some (E_ERR_CHAPTER_UNLOCK_NO_CUR_UNLOCK_CFG, p)
        else do {
          let b_new = (chapter_id \<noteq> cu_ChapterId (p_ChapterUnLock p));
          let p = (if b_new then SetNewUnlockChapter e chapter_id p else p);
          (r, p) \<leftarrow> chk_unlock_type e typ b_new chapter_cfg p;
          (case r of
             Some ret \<Rightarrow> Some (ret, p)
           | None \<Rightarrow>
               let p = ChapterUnLock_Reset p;
                   p = Info_Set i_MaxUnlockStage_update (cp_MaxStageId chapter_cfg) p;
                   p = Info_Set i_MaxChapter_update chapter_id p
               in Some (1, Send_msg (S2CChapterUnlock chapter_id (cp_MaxStageId chapter_cfg)) p))
        }))"

definition C2SGetCurHelpReqPIds :: "player \<Rightarrow> int \<times> player" where
  "C2SGetCurHelpReqPIds p = (1, Send_msg (S2CRetCurHelpReqPIds (cu_PlayerIds (p_ChapterUnLock p))) p)"

subsection \<open>What a pass records\<close>

lemma side_drop_reward: "drop_reward e it badd p = Some (r, q) \<Longrightarrow> side q = side p"
  by (auto simp: drop_reward_def Let_def dest!: side_rand side_AddCat side_AddItemResource
      split: if_splits bind_splits)

lemma side_drop_item: "drop_item e lib cs badd p = Some (r, q) \<Longrightarrow> side q = side p"
  by (auto simp: drop_item_def Let_def dest!: side_drop_reward split: bind_splits option.splits if_splits)

lemma side_drop_item_by_id: "drop_item_by_id e k cs p = Some (r, q) \<Longrightarrow> side q = side p"
  by (auto simp: drop_item_by_id_def dest!: side_drop_item split: bind_splits option.splits)

lemma side_extra_drop: "extra_drop e ex m p = Some (m', q) \<Longrightarrow> side q = side p"
  by (auto simp: extra_drop_def Let_def dest!: side_drop_item_by_id split: bind_splits if_splits)

lemma side_remove_used [simp]: "side (remove_used_items e its p) = side p"
  by (induction e its p rule: remove_used_items.induct) simp_all

lemma side_chapter_task [simp]: "side (chapter_task e k p) = side p"
  by (simp add: chapter_task_def split: option.split)

lemma side_send_stage_info [simp]: "side (send_stage_info e p) = side p"
  by (simp add: send_stage_info_def Let_def)

text \<open>The row of a stage after a pass with the given result.\<close>

definition best_row :: "env \<Rightarrow> int \<Rightarrow> int \<Rightarrow> stage_data option \<Rightarrow> stage_data" where
  "best_row e score stars row = (case row of
     None \<Rightarrow> \<lparr>st_Stars = stars, st_LastFinishedUnix = i32 (now e), st_TopScore = score, st_PlayedCount = 0, st_PassCount = 0\<rparr>
   | Some d \<Rightarrow> d\<lparr>st_Stars := max (st_Stars d) stars, st_TopScore := max (st_TopScore d) score\<rparr>)"

definition star_gain :: "int \<Rightarrow> stage_data option \<Rightarrow> int" where
  "star_gain stars row = max 0 (stars - (case row of None \<Rightarrow> 0 | Some d \<Rightarrow> st_Stars d))"

lemma map_of_Stages_Set:
  "map_of (p_Stages (Stages_Set k u p)) j = (if j = k then map_option u (map_of (p_Stages p) k) else map_of (p_Stages p) j)"
  by (auto simp: Stages_Set_def map_of_col_set_field split: option.splits)

lemma Stages_Set_frame [simp]:
  "p_Info (Stages_Set k u p) = p_Info p" "p_stage_state (Stages_Set k u p) = p_stage_state p"
  "p_stage_id (Stages_Set k u p) = p_stage_id p"
  by (simp_all add: Stages_Set_def)

lemma record_stage_run:
  assumes "record_stage e k stars score p = Some ((ts, b1, b2), q)" "in32 stars"
    "\<forall>d. map_of (p_Stages p) k = Some d \<longrightarrow> 0 \<le> st_Stars d"
  shows "map_of (p_Stages q) = (map_of (p_Stages p))(k \<mapsto> best_row e score stars (map_of (p_Stages p) k)) \<and>
    ts = st_TopScore (best_row e score stars (map_of (p_Stages p) k)) \<and>
    p_stage_id q = p_stage_id p \<and> p_stage_state q = p_stage_state p \<and>
    i_CurMaxStage (p_Info q) = i_CurMaxStage (p_Info p) \<and>
    i32 (i_TotalStars (p_Info q)) = i32 (i_TotalStars (p_Info p) + star_gain stars (map_of (p_Stages p) k))"
proof (cases "map_of (p_Stages p) k")
  case None
  then show ?thesis using assms(1)
    by (auto simp: record_stage_def Let_def AddStar_run best_row_def star_gain_def col_simps max_def)
next
  case (Some d)
  have nn: "0 \<le> st_Stars d" using assms(3) Some by simp
  let ?p = "if st_TopScore d < score then Stages_Set k (\<lambda>d. d\<lparr>st_TopScore := score\<rparr>) p else p"
  have top: "ChkSetTopScore k score p = Some (max (st_TopScore d) score, ?p)"
    using Some by (simp add: ChkSetTopScore_def max_def)
  have row: "map_of (p_Stages ?p) = (map_of (p_Stages p))(k \<mapsto> d\<lparr>st_TopScore := max (st_TopScore d) score\<rparr>)"
    using Some by (auto simp: map_of_Stages_Set max_def fun_eq_iff)
  show ?thesis
  proof (cases "stars > st_Stars d")
    case True
    have i: "i32 (stars - st_Stars d) = stars - st_Stars d" using True nn assms(2) by (simp add: i32_range_id in32_def)
    have "q = snd (AddStar e (stars - st_Stars d) (Stages_Set k (\<lambda>d. d\<lparr>st_Stars := stars\<rparr>) ?p))"
      and "ts = max (st_TopScore d) score"
      using assms(1) True Some top by (auto simp: record_stage_def Let_def i split: if_splits)
    then show ?thesis using True Some row
      by (auto simp: AddStar_run map_of_Stages_Set best_row_def star_gain_def fun_eq_iff max_def split: if_splits)
  next
    case False
    have "q = ?p" "ts = max (st_TopScore d) score"
      using assms(1) False Some top by (auto simp: record_stage_def Let_def split: if_splits)
    then show ?thesis using False Some row
      by (auto simp: best_row_def star_gain_def fun_eq_iff max_def split: if_splits)
  qed
qed

definition raise_max_stage :: "int \<Rightarrow> player \<Rightarrow> player" where
  "raise_max_stage k p = (case ChkSetCurMaxStage k p of (higher, p) \<Rightarrow>
     if higher then p\<lparr>p_base_prop_chg := True\<rparr> else p)"

lemma raise_max_stage_run:
  "p_Stages (raise_max_stage k p) = p_Stages p" "p_stage_state (raise_max_stage k p) = p_stage_state p"
  "i_TotalStars (p_Info (raise_max_stage k p)) = i_TotalStars (p_Info p)"
  "i_CurMaxStage (p_Info (raise_max_stage k p)) = max (i_CurMaxStage (p_Info p)) k"
  by (simp_all add: raise_max_stage_def ChkSetCurMaxStage_def Info_Set_def max_def)

lemma side_state: "side x = side y \<Longrightarrow> side (x\<lparr>p_stage_state := s\<rparr>) = side (y\<lparr>p_stage_state := s\<rparr>)"
  by (simp add: side_def)

lemma finish_ok:
  assumes "ChkFinishStage e k stars score m bforce p = Some ((ts, m'), q)" "0 \<le> ts"
  shows "p_stage_id p = k \<and> p_stage_state p \<noteq> 0 \<and> (bforce \<or> chk_stage_order e k p = None) \<and>
    (\<exists>b1 b2 p1. record_stage e k stars score p = Some ((ts, b1, b2), p1) \<and>
       side q = side ((raise_max_stage k p1)\<lparr>p_stage_state := 0\<rparr>))"
proof -
  have order: "chk_stage_order e k p = Some err \<Longrightarrow> err < 0" for err
    by (auto simp: chk_stage_order_def Let_def split: if_splits option.splits)
  have guard: "p_stage_id p = k" "p_stage_state p \<noteq> 0" "bforce \<or> chk_stage_order e k p = None"
    using assms order by (auto simp: ChkFinishStage_def split: if_splits option.splits)
  with assms obtain cfg where cfg: "stage_map e k = Some cfg"
    by (auto simp: ChkFinishStage_def split: if_splits option.splits)
  have none: "(if bforce then None else chk_stage_order e k p) = None" using guard(3) by auto
  from assms(1) guard cfg none obtain b1 b2 p1 where
    r: "record_stage e k stars score p = Some ((ts, b1, b2), p1)"
    and rest: "side q = side ((raise_max_stage k p1)\<lparr>p_stage_state := 0\<rparr>)"
    unfolding ChkFinishStage_def raise_max_stage_def [symmetric]
    by (auto simp: Let_def dest!: side_AddResources side_extra_drop split: bind_splits if_splits)
      (blast intro: side_state)+
  then show ?thesis using guard by blast
qed

text \<open>
  Property C22. A pass records the best. When a pass with a result other than 0 is answered with success, the stage had been begun and is
  over afterwards, so the same pass is refused the next time; the row of the stage holds the larger of the old and the new
  score and stars, with one more play (and one more pass, for a positive result); no other stage's row
  changes, the highest stage is raised to this one, and the player's stars grow by exactly the improvement over
  the old stars of this stage (which are not negative), whatever is rewarded, dropped or used up on the way.
\<close>

theorem stage_pass_records:
  assumes "stage_pass e result k score stars items bforce p = Some (1, q)" "result \<noteq> 0" "in32 stars"
    "\<forall>d. map_of (p_Stages p) k = Some d \<longrightarrow> 0 \<le> st_Stars d"
  shows "p_stage_id p = k \<and> p_stage_state p \<noteq> 0 \<and> (bforce \<or> chk_stage_order e k p = None) \<and>
    (\<exists>d. map_of (p_Stages q) k = Some d \<and>
       st_Stars d = st_Stars (best_row e score stars (map_of (p_Stages p) k)) \<and>
       st_TopScore d = st_TopScore (best_row e score stars (map_of (p_Stages p) k)) \<and>
       st_PlayedCount d = i32 (st_PlayedCount (best_row e score stars (map_of (p_Stages p) k)) + 1) \<and>
       st_PassCount d = (let n = st_PassCount (best_row e score stars (map_of (p_Stages p) k))
          in if result > 0 then i32 (n + 1) else n)) \<and>
    (\<forall>j. j \<noteq> k \<longrightarrow> map_of (p_Stages q) j = map_of (p_Stages p) j) \<and>
    i_CurMaxStage (p_Info q) = max (i_CurMaxStage (p_Info p)) k \<and>
    i32 (i_TotalStars (p_Info q)) = i32 (i_TotalStars (p_Info p) + star_gain stars (map_of (p_Stages p) k)) \<and>
    stage_pass e result k score stars items bforce q = Some (E_ERR_STAGE_ALREADY_FINISHED, q)"
proof -
  let ?m = "empty_pass_msg\<lparr>sp_StageId := k, sp_Score := score, sp_Stars := stars, sp_UseItems := items,
            sp_Result := result\<rparr>"
  from assms(1,2) obtain ts m p' where
    f: "ChkFinishStage e k stars score ?m bforce p = Some ((ts, m), p')" and ts: "0 \<le> ts"
    and q: "side q = side (Stages_IncbyPlayedCount k 1 (if result > 0 then Stages_IncbyPassCount k 1 p' else p'))"
    by (auto simp: stage_pass_def Let_def split: bind_splits if_splits)
  from finish_ok [OF f ts] obtain b1 b2 p1 where
    g: "p_stage_id p = k" "p_stage_state p \<noteq> 0" "bforce \<or> chk_stage_order e k p = None"
    and r: "record_stage e k stars score p = Some ((ts, b1, b2), p1)"
    and p': "side p' = side ((raise_max_stage k p1)\<lparr>p_stage_state := 0\<rparr>)"
    by blast
  note rec = record_stage_run [OF r assms(3,4)]
  let ?row = "best_row e score stars (map_of (p_Stages p) k)"
  have st': "map_of (p_Stages p') = (map_of (p_Stages p))(k \<mapsto> ?row)"
    using side_frame(1) [OF p'] rec by (simp add: raise_max_stage_run)
  have inc: "p_stage_id (Stages_IncbyPlayedCount k 1 x) = p_stage_id x"
      "p_stage_state (Stages_IncbyPlayedCount k 1 x) = p_stage_state x" "p_Info (Stages_IncbyPlayedCount k 1 x) = p_Info x"
      "p_stage_id (Stages_IncbyPassCount k 1 x) = p_stage_id x"
      "p_stage_state (Stages_IncbyPassCount k 1 x) = p_stage_state x" "p_Info (Stages_IncbyPassCount k 1 x) = p_Info x" for x
    by (simp_all add: Stages_IncbyPlayedCount_def Stages_IncbyPassCount_def Let_def)
  have st: "map_of (p_Stages q) = (map_of (p_Stages p))(k \<mapsto>
      (if result > 0 then ?row\<lparr>st_PassCount := i32 (st_PassCount ?row + 1)\<rparr> else ?row)
        \<lparr>st_PlayedCount := i32 (st_PlayedCount ?row + 1)\<rparr>)"
    unfolding side_frame(1) [OF q]
    by (auto simp: Stages_IncbyPlayedCount_def Stages_IncbyPassCount_def Let_def col_HasIndex_def st'
      map_of_Stages_Set fun_eq_iff)
  have "p_stage_id q = k" "p_stage_state q = 0"
    using side_frame(2,4) [OF q] side_frame(2,4) [OF p'] rec g
    by (auto simp: inc raise_max_stage_def ChkSetCurMaxStage_def Info_Set_def)
  moreover have "i_CurMaxStage (p_Info q) = max (i_CurMaxStage (p_Info p)) k"
    "i32 (i_TotalStars (p_Info q)) = i32 (i_TotalStars (p_Info p) + star_gain stars (map_of (p_Stages p) k))"
    using side_frame(16,17) [OF q] side_frame(16,17) [OF p'] rec by (auto simp: inc raise_max_stage_run)
  moreover from calculation(1,2) have "stage_pass e result k score stars items bforce q = Some (E_ERR_STAGE_ALREADY_FINISHED, q)"
    using assms(2) by (simp add: stage_pass_def ChkFinishStage_def Let_def)
  ultimately show ?thesis using g st by auto
qed

definition demo_stage :: xml_level where
  "demo_stage = \<lparr>le_Id = 5, le_Chapter = 1, le_NeedPower = 0, le_FirstClearReward = [], le_FirstAllStarReward = [],
     le_CoinReward = 10, le_ExtraReward1 = [], le_ExtraReward2 = [], le_NextLevel = 6\<rparr>"

definition demo_stage_env :: env where
  "demo_stage_env = empty_env\<lparr>stage_map := [5 \<mapsto> demo_stage]\<rparr>"

definition demo_stage_player :: player where
  "demo_stage_player = empty_player\<lparr>p_stage_id := 5, p_stage_state := 1,
     p_Info := empty_info\<lparr>i_MaxUnlockStage := 8, i_TotalStars := 4\<rparr>,
     p_Stages := [(5, \<lparr>st_Stars = 1, st_LastFinishedUnix = 0, st_TopScore = 900, st_PlayedCount = 2, st_PassCount = 2\<rparr>)]\<rparr>"

lemma demo_stage_pass: "\<exists>q. stage_pass demo_stage_env 1 5 800 3 [] False demo_stage_player = Some (1, q)"
proof -
  have e: "stage_map demo_stage_env 5 = Some demo_stage" by (simp add: demo_stage_env_def)
  have p: "p_stage_id demo_stage_player = 5" "p_stage_state demo_stage_player = 1" "p_stage_cat_id demo_stage_player = 0"
    "p_Cats demo_stage_player = []" "i_MaxUnlockStage (p_Info demo_stage_player) = 8"
    "i_CurMaxStage (p_Info demo_stage_player) = 0"
    "map_of (p_Stages demo_stage_player) 5 = Some \<lparr>st_Stars = 1, st_LastFinishedUnix = 0, st_TopScore = 900,
      st_PlayedCount = 2, st_PassCount = 2\<rparr>"
    by (simp_all add: demo_stage_player_def empty_player_def empty_info_def)
  have order: "chk_stage_order demo_stage_env 5 demo_stage_player = None" by (simp add: chk_stage_order_def p)
  obtain p1 where r: "record_stage demo_stage_env 5 3 800 demo_stage_player = Some ((900, False, True), p1)"
    "p_Cats p1 = []"
    by (simp add: record_stage_def p ChkSetTopScore_def Let_def AddStar_def Info_Incby_def Info_Set_def Stages_Set_def)
  have cats: "p_Cats (raise_max_stage 5 p1) = []"
    using r(2) by (simp add: raise_max_stage_def ChkSetCurMaxStage_def Info_Set_def)
  have "\<exists>m q. ChkFinishStage demo_stage_env 5 3 800 m0 False demo_stage_player = Some ((900, m), q)" for m0
    unfolding ChkFinishStage_def raise_max_stage_def [symmetric]
    by (simp add: p e order r(1) demo_stage_def Player_get_cat_match_ability_def cats extra_drop_def Let_def)
  then obtain m q where "ChkFinishStage demo_stage_env 5 3 800
      (empty_pass_msg\<lparr>sp_StageId := 5, sp_Score := 800, sp_Stars := 3, sp_UseItems := [], sp_Result := 1\<rparr>)
      False demo_stage_player = Some ((900, m), q)" by blast
  then show ?thesis by (simp add: stage_pass_def Let_def)
qed

lemma stage_pass_records_witness:
  "\<exists>q d. stage_pass demo_stage_env 1 5 800 3 [] False demo_stage_player = Some (1, q) \<and>
     map_of (p_Stages q) 5 = Some d \<and> st_Stars d = 3 \<and> st_TopScore d = 900 \<and> st_PassCount d = 3 \<and>
     i32 (i_TotalStars (p_Info q)) = 6 \<and>
     stage_pass demo_stage_env 1 5 800 3 [] False q = Some (E_ERR_STAGE_ALREADY_FINISHED, q)"
proof -
  obtain q where q: "stage_pass demo_stage_env 1 5 800 3 [] False demo_stage_player = Some (1, q)"
    using demo_stage_pass by blast
  have row: "map_of (p_Stages demo_stage_player) 5 = Some \<lparr>st_Stars = 1, st_LastFinishedUnix = 0, st_TopScore = 900,
      st_PlayedCount = 2, st_PassCount = 2\<rparr>" "i_TotalStars (p_Info demo_stage_player) = 4"
    by (simp_all add: demo_stage_player_def)
  from stage_pass_records [OF q] show ?thesis
    using q by (fastforce simp: row best_row_def star_gain_def in32_def i32_def)
qed

subsection \<open>Unlocking a chapter\<close>

text \<open>The switch over the kind of unlock has no default: a kind it does not know goes on to the unlocking,
  with no condition on time, stars or diamonds.\<close>

lemma unknown_type_unlocks:
  assumes "chapter_map e k = Some cfg" "chapter_map e (i_MaxChapter (p_Info p)) = Some cur"
    "k = i_MaxChapter (p_Info p) + 1" "in32 k" "in32 (k - 1)"
    "col_Get (p_Stages p) (cp_MaxStageId cur) \<noteq> None" "typ \<notin> {0, 1, 2, 3}"
  shows "\<exists>q. C2SChapterUnlock e k typ p = Some (1, q) \<and> i_MaxChapter (p_Info q) = k \<and>
    i_MaxUnlockStage (p_Info q) = cp_MaxStageId cfg \<and> i_Diamond (p_Info q) = i_Diamond (p_Info p)"
proof -
  have "i32 (i_MaxChapter (p_Info p) + 1) = k" "i32 (k - 1) = i_MaxChapter (p_Info p)"
    using assms(3-5) by (simp_all add: i32_id)
  then show ?thesis using assms
    by (auto simp: C2SChapterUnlock_def chk_unlock_type_def Let_def SetNewUnlockChapter_def ChapterUnLock_Reset_def
      Info_Set_def)
qed

text \<open>The answer to \<open>ChkSendNewUnlockStage\<close> always names chapter 0.\<close>

lemma new_unlock_names_zero:
  "p_new_unlock_chapter_id p > 0 \<Longrightarrow>
   Sent (S2CChapterUnlock 0 (i_MaxUnlockStage (p_Info p))) \<in> set (p_effects (ChkSendNewUnlockStage p))"
  by (simp add: ChkSendNewUnlockStage_def Send_msg_def emit_def Let_def)

end
