(* ===== verification/Sign.thy ===== *)
theory Sign
  imports Rewards Frames
begin

text \<open>
  \<open>game_server/player_sign.go\<close> and \<open>player_seven_days.go\<close>: the daily sign-in, whose rewards are taken one after the
  other, and the rewards of the first seven days after the creation of the player, counted in local
  calendar days.
\<close>

abbreviation (input) E_ERR_SIGN_ALREADY_AWARD :: int where "E_ERR_SIGN_ALREADY_AWARD \<equiv> -102701"
abbreviation (input) E_ERR_SIGN_MUST_AWARD_IN_SEQUENCE :: int where "E_ERR_SIGN_MUST_AWARD_IN_SEQUENCE \<equiv> -102702"
abbreviation (input) E_ERR_SIGN_ALL_AWARDED :: int where "E_ERR_SIGN_ALL_AWARDED \<equiv> -102703"
abbreviation (input) E_ERR_SEVEN_DAYS_FINISHED :: int where "E_ERR_SEVEN_DAYS_FINISHED \<equiv> -102800"
abbreviation (input) E_ERR_SEVEN_DAYS_AWARDED :: int where "E_ERR_SEVEN_DAYS_AWARDED \<equiv> -102801"
abbreviation (input) SEVEN_DAYS :: int where "SEVEN_DAYS \<equiv> 7"

definition Sign_Set :: "(sign_data \<Rightarrow> sign_data) \<Rightarrow> player \<Rightarrow> player" where
  "Sign_Set u p = p\<lparr>p_Sign := u (p_Sign p)\<rparr>"

definition SevenDays_Set :: "(seven_days_row \<Rightarrow> seven_days_row) \<Rightarrow> player \<Rightarrow> player" where
  "SevenDays_Set u p = p\<lparr>p_SevenDays := u (p_SevenDays p)\<rparr>"

text \<open>The rewards of a reply: the amounts of each id added up in a map.\<close>

fun sum_rewards :: "int list \<Rightarrow> int column \<Rightarrow> int column" where
  "sum_rewards (k # v # rs) m =
     sum_rewards rs (AList.update k (i32 ((case map_of m k of None \<Rightarrow> 0 | Some n \<Rightarrow> n) + v)) m)"
| "sum_rewards rs m = m"

subsection \<open>Daily sign-in\<close>

definition Sign_has_reward :: "player \<Rightarrow> bool" where
  "Sign_has_reward p \<longleftrightarrow> sg_AwardIndex (p_Sign p) < sg_SignedIndex (p_Sign p)"

definition check_signed :: "env \<Rightarrow> player \<Rightarrow> (int \<times> player) option" where
  "check_signed e p =
     (let last_signed = sg_LastSignedTime (p_Sign p);
          stamp = Sign_Set (\<lambda>d. d\<lparr>sg_LastSignedTime := i32 (now e)\<rparr>)
      in if last_signed = 0 then
           (if sign_array_empty e then None
            else Some (1, stamp (Sign_Set (\<lambda>d. d\<lparr>sg_SignedIndex := 1\<rparr>) p)))
         else if local_day e (now e) \<noteq> local_day e last_signed then
           Some (1, stamp (Sign_Set (\<lambda>d. d\<lparr>sg_SignedIndex := i32 (sg_SignedIndex d + 1)\<rparr>) p))
         else Some (0, p))"

definition get_sign_data :: "env \<Rightarrow> player \<Rightarrow> (int \<times> player) option" where
  "get_sign_data e p = do {
     (_, p) \<leftarrow> check_signed e p;
     let d = p_Sign p;
     Some (1, Send_msg (S2CSignDataResponse (sg_CurrGroup d) (sg_AwardIndex d) (sg_SignedIndex d)
       (GetRemainSeconds2NextDayTime e (sg_LastSignedTime d) ''00:00:00'')) p)
   }"

definition sign_award :: "env \<Rightarrow> int \<Rightarrow> player \<Rightarrow> (int \<times> player) option" where
  "sign_award e k p =
     (let award_index = sg_AwardIndex (p_Sign p) in
      if award_index \<ge> k then Some (E_ERR_SIGN_ALREADY_AWARD, p)
      else if i32 (award_index + 1) \<noteq> k then Some (E_ERR_SIGN_MUST_AWARD_IN_SEQUENCE, p)
      else if award_index \<ge> sg_SignedIndex (p_Sign p) then Some (E_ERR_SIGN_ALL_AWARDED, p)
      else (case sign_map e k of
          None \<Rightarrow> Some (-1, p)
        | Some reward \<Rightarrow> do {
            p \<leftarrow> add_resources e reward p;
            let p = Sign_Set (\<lambda>d. d\<lparr>sg_AwardIndex := k\<rparr>) p;
            Some (1, Send_msg (S2CSignAwardResponse k (sum_rewards reward [])) p)
          }))"

subsection \<open>The first seven days\<close>

definition get_start_secs_for_seven_days :: "env \<Rightarrow> int \<Rightarrow> int" where
  "get_start_secs_for_seven_days e create_time = i32 (create_time - (create_time + tz e) mod 86400)"

definition SevenDays_has_reward :: "env \<Rightarrow> int \<Rightarrow> player \<Rightarrow> bool option" where
  "SevenDays_has_reward e create_time p =
     (let diff_secs = i32 (i32 (now e) - get_start_secs_for_seven_days e create_time) in
      if diff_secs \<ge> SEVEN_DAYS * 24 * 3600 then Some False
      else if sv_Awards (p_SevenDays p) = [] then Some True
      else map_option (\<lambda>a. \<not> a > 0) (go_nth (sv_Awards (p_SevenDays p)) (diff_secs sdiv (24 * 3600))))"

definition check_seven_days :: "env \<Rightarrow> bool \<Rightarrow> player \<Rightarrow> ((int \<times> int \<times> int) \<times> player) option" where
  "check_seven_days e get_remain_seconds p =
     (let now_time = i32 (now e);
          start_secs = get_start_secs_for_seven_days e (i_CreateUnix (p_Info p));
          diff_secs = i32 (now_time - start_secs)
      in if diff_secs \<ge> SEVEN_DAYS * 24 * 3600 then Some ((-1, 0, 0), p)
         else do {
           let diff_days = diff_secs sdiv (24 * 3600);
           let p = (if sv_Awards (p_SevenDays p) = []
                    then SevenDays_Set (\<lambda>d. d\<lparr>sv_Awards := replicate 7 0\<rparr>) p else p);
           let days = diff_days + 1;
           let p = SevenDays_Set (\<lambda>d. d\<lparr>sv_Days := days\<rparr>) p;
           state \<leftarrow> go_nth (sv_Awards (p_SevenDays p)) diff_days;
           Some ((days, state, if get_remain_seconds
                    then max 0 (i32 (i32 (start_secs + SEVEN_DAYS * 24 * 3600) - now_time)) else 0), p)
         })"

definition seven_days_data :: "env \<Rightarrow> player \<Rightarrow> (int \<times> player) option" where
  "seven_days_data e p = do {
     ((days, _, remain_seconds), p) \<leftarrow> check_seven_days e True p;
     Some (1, Send_msg (S2CSevenDaysDataResponse
       (if days < 0 then [] else take (nat days) (sv_Awards (p_SevenDays p)))
       (i_CreateUnix (p_Info p)) remain_seconds) p)
   }"

definition seven_days_award :: "env \<Rightarrow> player \<Rightarrow> (int \<times> player) option" where
  "seven_days_award e p = do {
     ((days, state, _), p) \<leftarrow> check_seven_days e False p;
     if days < 0 then Some (E_ERR_SEVEN_DAYS_FINISHED, p)
     else if state > 0 then Some (E_ERR_SEVEN_DAYS_AWARDED, p)
     else do {
       let p = SevenDays_Set (\<lambda>d. d\<lparr>sv_Awards := (sv_Awards d)[nat (days - 1) := 1]\<rparr>) p;
       let p = SevenDays_Set (\<lambda>d. d\<lparr>sv_Days := days - 1\<rparr>) p;
       (case seven_days_map e days of
          None \<Rightarrow> Some (-1, p)
        | Some reward \<Rightarrow> do {
            p \<leftarrow> add_resources e reward p;
            Some (1, Send_msg (S2CSevenDaysAwardResponse days (sum_rewards reward [])) p)
          })
     }
   }"

subsection \<open>Each reward once\<close>

lemma sign_award_next:
  assumes "sign_award e k p = Some (1, q)"
  shows "sg_AwardIndex (p_Sign p) < k \<and> k = i32 (sg_AwardIndex (p_Sign p) + 1) \<and>
    sg_AwardIndex (p_Sign p) < sg_SignedIndex (p_Sign p) \<and>
    p_Sign q = (p_Sign p)\<lparr>sg_AwardIndex := k\<rparr> \<and>
    sign_award e' k q = Some (E_ERR_SIGN_ALREADY_AWARD, q)"
proof -
  from assms obtain reward p1 where
    g: "sg_AwardIndex (p_Sign p) < k" "k = i32 (sg_AwardIndex (p_Sign p) + 1)"
      "sg_AwardIndex (p_Sign p) < sg_SignedIndex (p_Sign p)"
    and a: "AddResources e reward p = Some p1"
    and q: "quiet (Sign_Set (\<lambda>d. d\<lparr>sg_AwardIndex := k\<rparr>) p1) q"
    by (auto simp: sign_award_def add_resources_def Let_def split: if_splits option.splits bind_splits)
  have "p_Sign q = (p_Sign p)\<lparr>sg_AwardIndex := k\<rparr>"
    using quiet_frame [OF q] side_frame(6) [OF side_AddResources [OF a]] by (simp add: Sign_Set_def)
  with g show ?thesis by (simp add: sign_award_def)
qed

text \<open>Signing in leaves the awarded index alone and raises the signed index by at most one a call, and not
  twice on one calendar day.\<close>

lemma check_signed_once_a_day:
  assumes "check_signed e p = Some (1, q)" "local_day e' (now e') = local_day e' (now e)" "0 < now e" "now e \<le> max32"
  shows "check_signed e' q = Some (0, q) \<and> sg_AwardIndex (p_Sign q) = sg_AwardIndex (p_Sign p)"
proof -
  have "sg_LastSignedTime (p_Sign q) = now e" "sg_AwardIndex (p_Sign q) = sg_AwardIndex (p_Sign p)"
    using assms by (auto simp: check_signed_def Let_def Sign_Set_def i32_range_id split: if_splits)
  with assms(2,3) show ?thesis by (simp add: check_signed_def)
qed

lemma seven_days_award_once:
  assumes "seven_days_award e p = Some (1, q)"
  shows "\<exists>r. seven_days_award e q = Some (E_ERR_SEVEN_DAYS_AWARDED, r)"
proof -
  define start where "start = get_start_secs_for_seven_days e (i_CreateUnix (p_Info p))"
  define diff where "diff = i32 (i32 (now e) - start)"
  define aw where "aw = (if sv_Awards (p_SevenDays p) = [] then replicate 7 0 else sv_Awards (p_SevenDays p))"
  from assms have d: "diff < 604800"
    by (auto simp: seven_days_award_def check_seven_days_def Let_def diff_def start_def split: if_splits)
  from assms d obtain state reward p1 where
    st: "go_nth aw (diff sdiv 86400) = Some state"
    and a: "AddResources e reward
      (SevenDays_Set (\<lambda>d. d\<lparr>sv_Days := diff sdiv 86400\<rparr>)
        (SevenDays_Set (\<lambda>d. d\<lparr>sv_Awards := (sv_Awards d)[nat (diff sdiv 86400) := 1]\<rparr>)
          (SevenDays_Set (\<lambda>d. d\<lparr>sv_Days := diff sdiv 86400 + 1\<rparr>)
            (SevenDays_Set (\<lambda>d. d\<lparr>sv_Awards := aw\<rparr>) p)))) = Some p1"
    and q: "quiet p1 q"
    by (auto simp: seven_days_award_def check_seven_days_def Let_def diff_def [symmetric] start_def [symmetric]
        aw_def SevenDays_Set_def add_resources_def split: if_splits option.splits bind_splits)
  have i: "nat (diff sdiv 86400) < length aw" "0 \<le> diff sdiv 86400" using st by (auto simp: go_nth_Some_iff)
  have aq: "sv_Awards (p_SevenDays q) = aw[nat (diff sdiv 86400) := 1]" and ci: "i_CreateUnix (p_Info q) = i_CreateUnix (p_Info p)"
    using quiet_frame [OF q] side_frame(7,20) [OF side_AddResources [OF a]] by (simp_all add: SevenDays_Set_def)
  have "aw[nat (diff sdiv 86400) := 1] \<noteq> []" using i(1) by auto
  then show ?thesis using d i
    by (simp add: seven_days_award_def check_seven_days_def Let_def aq ci diff_def [symmetric] start_def [symmetric]
        go_nth_def SevenDays_Set_def)
qed

end
