(* ===== verification/Friends.thy ===== *)
theory Friends
  imports Frames RankItem "HOL-Library.Multiset"
begin

text \<open>
  \<open>player_friend.go\<close> with \<open>player_remote.go\<close>, \<open>rpc_common.go\<close> and the friend columns of
  \<open>a_db_ext.go\<close>: requests, agreeing, removing, gifts of friend points and the unread messages of
  friends. A friend may live on this game server or on another one, so the state is a world of two
  player managers: \<open>home\<close>, the server the handler runs on, and \<open>far\<close>, the other game servers taken
  together. What a remote call does on the far side is the code of its \<open>_response\<close> function, found
  in the dispatch table \<open>id2rpc_funcs\<close>; whether the call gets there and whether its answer gets
  back are inputs of the handler (\<open>delivery\<close>). Requests and answers of protobuf are their contents.

  The chat of one friend is shown to be a bounded queue once it is under way, friendship to be
  symmetric over both servers but for pairs broken by lost answers or missing players, and gifts to be bounded per day. Not modelled: the pool of recommended friends
  with its goroutine, and the search, whose answer comes from the rank server (\<open>RankServer\<close>).
\<close>

abbreviation (input) E_ERR_REMOTE_FUNC_CALL_ERROR :: int where "E_ERR_REMOTE_FUNC_CALL_ERROR \<equiv> - 20000"
abbreviation (input) E_ERR_FRIEND_GIVE_POINTS_FREQUENTLY :: int where "E_ERR_FRIEND_GIVE_POINTS_FREQUENTLY \<equiv> - 101902"
abbreviation (input) E_ERR_FRIEND_TOO_MANY_FRIEND_GIVE_POINTS :: int where
  "E_ERR_FRIEND_TOO_MANY_FRIEND_GIVE_POINTS \<equiv> - 101903"
abbreviation (input) E_ERR_FRIEND_NO_THE_FRIEND :: int where "E_ERR_FRIEND_NO_THE_FRIEND \<equiv> - 101906"
abbreviation (input) E_ERR_FRIEND_NO_UNREAD_MESSAGE :: int where "E_ERR_FRIEND_NO_UNREAD_MESSAGE \<equiv> - 101908"
abbreviation (input) E_ERR_FRIEND_MESSAGE_NUM_MAX :: int where "E_ERR_FRIEND_MESSAGE_NUM_MAX \<equiv> - 101909"
abbreviation (input) E_ERR_FRIEND_MESSAGE_TOO_LONG :: int where "E_ERR_FRIEND_MESSAGE_TOO_LONG \<equiv> - 101910"
abbreviation (input) E_ERR_FRIEND_REMOVE_FRIEND_FAILED :: int where "E_ERR_FRIEND_REMOVE_FRIEND_FAILED \<equiv> - 101911"
abbreviation (input) E_ERR_FRIEND_THE_PLAYER_ALREADY_FRIEND :: int where
  "E_ERR_FRIEND_THE_PLAYER_ALREADY_FRIEND \<equiv> - 101913"
abbreviation (input) E_ERR_FRIEND_THE_PLAYER_REQUESTED :: int where "E_ERR_FRIEND_THE_PLAYER_REQUESTED \<equiv> - 101914"
abbreviation (input) E_ERR_FRIEND_GIVE_POINTS_MAX_NUM_LIMIT :: int where
  "E_ERR_FRIEND_GIVE_POINTS_MAX_NUM_LIMIT \<equiv> - 101915"
abbreviation (input) TASK_COMPLETE_TYPE_GIVE_FRIEND_POINT :: int where "TASK_COMPLETE_TYPE_GIVE_FRIEND_POINT \<equiv> 108"

definition FRIEND_UNREAD_MESSAGE_MAX_NUM :: int where "FRIEND_UNREAD_MESSAGE_MAX_NUM = 200"
definition FRIEND_MESSAGE_MAX_LENGTH :: int where "FRIEND_MESSAGE_MAX_LENGTH = 200"

subsection \<open>The unread messages of one player\<close>

text \<open>The key of a stored message packs the friend's id and the message id.\<close>

definition message_key :: "int \<Rightarrow> int \<Rightarrow> int" where
  "message_key friend_id mid = sint (Int64From2Int32 (word_of_int friend_id) (word_of_int mid))"

definition CheckUnreadNumFull :: "int \<Rightarrow> player \<Rightarrow> (bool \<times> int) \<times> player" where
  "CheckUnreadNumFull friend_id p =
     (case col_Get (p_FriendChatUnreadIds p) friend_id of
        None \<Rightarrow> ((False, 1), p)
      | Some d \<Rightarrow>
          if int (length (cd_MessageIds d)) < FRIEND_UNREAD_MESSAGE_MAX_NUM then
            (let curr = (if FRIEND_UNREAD_MESSAGE_MAX_NUM \<le> cd_CurrMessageId d then 1
                         else i32 (cd_CurrMessageId d + 1))
             in ((False, curr), p\<lparr>p_FriendChatUnreadIds :=
                   AList.update friend_id (d\<lparr>cd_CurrMessageId := curr\<rparr>) (p_FriendChatUnreadIds p)\<rparr>))
          else ((True, 0), p))"

definition AddNewMessageId :: "int \<Rightarrow> int \<Rightarrow> player \<Rightarrow> int \<times> player" where
  "AddNewMessageId friend_id message_id p =
     (case col_Get (p_FriendChatUnreadIds p) friend_id of
        None \<Rightarrow> (1, p\<lparr>p_FriendChatUnreadIds := AList.update friend_id
            \<lparr>cd_FriendId = friend_id, cd_MessageIds = [message_id], cd_CurrMessageId = 0\<rparr>
            (p_FriendChatUnreadIds p)\<rparr>)
      | Some d \<Rightarrow>
          if FRIEND_UNREAD_MESSAGE_MAX_NUM \<le> int (length (cd_MessageIds d)) then (E_ERR_FRIEND_MESSAGE_NUM_MAX, p)
          else (1, p\<lparr>p_FriendChatUnreadIds := AList.update friend_id
            (d\<lparr>cd_MessageIds := cd_MessageIds d @ [message_id]\<rparr>) (p_FriendChatUnreadIds p)\<rparr>))"

definition GetUnreadMessageNum :: "player \<Rightarrow> int \<Rightarrow> int" where
  "GetUnreadMessageNum p friend_id =
     (case col_Get (p_FriendChatUnreadIds p) friend_id of None \<Rightarrow> 0
      | Some d \<Rightarrow> i32 (int (length (cd_MessageIds d))))"

text \<open>A negative number of messages is a slice out of range, a panic.\<close>

definition ConfirmUnreadIds :: "int \<Rightarrow> int \<Rightarrow> player \<Rightarrow> ((int \<times> int list) \<times> player) option" where
  "ConfirmUnreadIds friend_id unread_num p =
     (case col_Get (p_FriendChatUnreadIds p) friend_id of
        None \<Rightarrow> Some ((E_ERR_FRIEND_NO_UNREAD_MESSAGE, []), p)
      | Some d \<Rightarrow>
          if unread_num = 0 \<or> int (length (cd_MessageIds d)) \<le> unread_num then
            Some ((1, cd_MessageIds d), p\<lparr>p_FriendChatUnreadIds :=
              AList.update friend_id (d\<lparr>cd_MessageIds := []\<rparr>) (p_FriendChatUnreadIds p)\<rparr>)
          else if unread_num < 0 then None
          else Some ((1, take (nat unread_num) (cd_MessageIds d)), p\<lparr>p_FriendChatUnreadIds :=
              AList.update friend_id (d\<lparr>cd_MessageIds := drop (nat unread_num) (cd_MessageIds d)\<rparr>)
                (p_FriendChatUnreadIds p)\<rparr>))"

definition RemoveMessages :: "int \<Rightarrow> int list \<Rightarrow> player \<Rightarrow> player" where
  "RemoveMessages friend_id message_ids p =
     p\<lparr>p_FriendChatUnreadMessages :=
         fold (\<lambda>mid m. col_Remove (message_key friend_id mid) m) message_ids (p_FriendChatUnreadMessages p)\<rparr>"

definition friend_chat_add :: "env \<Rightarrow> int \<Rightarrow> string \<Rightarrow> player \<Rightarrow> int \<times> player" where
  "friend_chat_add e friend_id message p =
     (let ((is_full, next_id), p) = CheckUnreadNumFull friend_id p in
      if is_full then (E_ERR_FRIEND_MESSAGE_NUM_MAX, p)
      else
        let long_id = message_key friend_id next_id;
            (added, ms) = col_Add long_id
              \<lparr>cm_PlayerMessageId = long_id, cm_Message = message, cm_SendTime = i32 (now e), cm_IsRead = 0\<rparr>
              (p_FriendChatUnreadMessages p);
            p = p\<lparr>p_FriendChatUnreadMessages := ms\<rparr>
        in if \<not> added then (- 1, p)
           else let (res, p) = AddNewMessageId friend_id next_id p
                in if res < 0 then (res, p\<lparr>p_FriendChatUnreadMessages := col_Remove long_id (p_FriendChatUnreadMessages p)\<rparr>)
                   else (1, p))"

text \<open>The handlers of the reader. A message that is missing in the store is skipped.\<close>

definition friend_get_unread_message_num :: "int list \<Rightarrow> player \<Rightarrow> int \<times> player" where
  "friend_get_unread_message_num friend_ids p =
     (1, Send_msg (S2CFriendGetUnreadMessageNumResult
        (map (\<lambda>k. (k, if col_HasIndex (p_Friends p) k then GetUnreadMessageNum p k else E_ERR_FRIEND_NO_THE_FRIEND))
           friend_ids)) p)"

definition unread_messages :: "player \<Rightarrow> int \<Rightarrow> (string \<times> int) list" where
  "unread_messages p friend_id =
     (case col_Get (p_FriendChatUnreadIds p) friend_id of None \<Rightarrow> []
      | Some d \<Rightarrow> List.map_filter
          (\<lambda>mid. map_option (\<lambda>m. (cm_Message m, cm_SendTime m))
             (col_Get (p_FriendChatUnreadMessages p) (message_key friend_id mid)))
          (cd_MessageIds d))"

definition friend_pull_unread_message :: "int \<Rightarrow> player \<Rightarrow> int \<times> player" where
  "friend_pull_unread_message friend_id p =
     (if \<not> col_HasIndex (p_Friends p) friend_id then (E_ERR_FRIEND_NO_THE_FRIEND, p)
      else (1, Send_msg (S2CFriendPullUnreadMessageResult friend_id (unread_messages p friend_id)) p))"

definition friend_confirm_unread_message :: "int \<Rightarrow> int \<Rightarrow> player \<Rightarrow> (int \<times> player) option" where
  "friend_confirm_unread_message friend_id message_num p =
     (if \<not> col_HasIndex (p_Friends p) friend_id then Some (E_ERR_FRIEND_NO_THE_FRIEND, p)
      else do {
        ((res, remove_ids), p) \<leftarrow> ConfirmUnreadIds friend_id message_num p;
        if res < 0 then Some (res, p)
        else Some (1, Send_msg (S2CFriendConfirmUnreadMessageResult friend_id message_num)
                        (RemoveMessages friend_id remove_ids p))
      })"

subsection \<open>Friends, requests and points of one player\<close>

definition zero_friend :: "int \<Rightarrow> friend_data" where
  "zero_friend k = \<lparr>fr_FriendId = k, fr_FriendName = '''', fr_Head = 0, fr_Level = 0, fr_VipLevel = 0,
     fr_LastLogin = 0, fr_LastGivePointsTime = 0\<rparr>"

definition Friends_Add :: "friend_data \<Rightarrow> player \<Rightarrow> player" where
  "Friends_Add d p = p\<lparr>p_Friends := snd (col_Add (fr_FriendId d) d (p_Friends p))\<rparr>"

definition FriendReqs_CheckAndAdd :: "int \<Rightarrow> player \<Rightarrow> int \<times> player" where
  "FriendReqs_CheckAndAdd player_id p =
     (if col_HasIndex (p_FriendReqs p) player_id then (E_ERR_FRIEND_THE_PLAYER_REQUESTED, p)
      else (1, p\<lparr>p_FriendReqs := AList.update player_id
              \<lparr>fq_PlayerId = player_id, fq_PlayerName = '''', fq_ReqUnix = 0\<rparr> (p_FriendReqs p)\<rparr>))"

definition FriendReqs_Remove :: "int \<Rightarrow> player \<Rightarrow> player" where
  "FriendReqs_Remove k p = p\<lparr>p_FriendReqs := col_Remove k (p_FriendReqs p)\<rparr>"

definition notify_friend_add :: "friend_req \<Rightarrow> player \<Rightarrow> player" where
  "notify_friend_add r p = Send_msg (S2CFriendReqNotify r) p"

definition notify_friend_info :: "int \<Rightarrow> friend_info \<Rightarrow> player \<Rightarrow> player" where
  "notify_friend_info state info p = Send_msg (S2CFriendStateNotify state info) p"

definition format_friend_info :: "player \<Rightarrow> friend_info" where
  "format_friend_info p = \<lparr>fi_PlayerId = p_Id p, fi_Name = p_Name p, fi_Head = i_Head (p_Info p),
     fi_Level = p_Level p, fi_VipLevel = i_VipLvl (p_Info p), fi_LastLogin = i_LastLogin (p_Info p),
     fi_Zan = i_Zan (p_Info p), fi_LeftGiveSeconds = 0, fi_FriendPoints = 0, fi_UnreadMessageNum = 0,
     fi_IsZan = False\<rparr>"

definition get_friend_extra_info :: "env \<Rightarrow> player \<Rightarrow> int \<Rightarrow> friend_info \<Rightarrow> friend_info" where
  "get_friend_extra_info e p friend_id info =
     (let (last_save, _) = col_get_field fr_LastGivePointsTime 0 (p_Friends p) friend_id in
      info\<lparr>fi_LeftGiveSeconds := GetRemainSeconds2NextDayTime e last_save (gc_FriendGivePointsRefreshTime (config e)),
        fi_FriendPoints := fst (col_get_field fp_GivePoints 0 (p_FriendPoints p) friend_id),
        fi_UnreadMessageNum := GetUnreadMessageNum p friend_id,
        fi_IsZan := col_HasIndex (p_Zans p) friend_id\<rparr>)"

definition get_friend_info :: "env \<Rightarrow> player \<Rightarrow> player \<Rightarrow> friend_info" where
  "get_friend_info e p friend = get_friend_extra_info e p (p_Id friend) (format_friend_info friend)"

definition refuse_add_friend :: "int \<Rightarrow> player \<Rightarrow> int \<times> player" where
  "refuse_add_friend player_id p =
     (case col_Get (p_FriendReqs p) player_id of
        None \<Rightarrow> (- 1, p)
      | Some r \<Rightarrow> (1, Send_msg (S2CRefuseFriendResult (fq_PlayerName r) player_id) (FriendReqs_Remove player_id p)))"

definition remove_friend_data :: "int \<Rightarrow> player \<Rightarrow> player" where
  "remove_friend_data friend_id p =
     (let p = p\<lparr>p_Friends := col_Remove friend_id (p_Friends p)\<rparr>;
          p = (case col_Get (p_FriendChatUnreadIds p) friend_id of None \<Rightarrow> p
               | Some d \<Rightarrow> (RemoveMessages friend_id (cd_MessageIds d) p)
                   \<lparr>p_FriendChatUnreadIds := col_Remove friend_id (p_FriendChatUnreadIds p)\<rparr>)
      in Send_msg (S2CRemoveFriendResult friend_id) p)"

definition FriendPoints_Set :: "int \<Rightarrow> (friend_point_data \<Rightarrow> friend_point_data) \<Rightarrow> player \<Rightarrow> player" where
  "FriendPoints_Set k u p = p\<lparr>p_FriendPoints := snd (col_set_field u k (p_FriendPoints p))\<rparr>"

definition refresh_friend_give_points :: "int \<Rightarrow> player \<Rightarrow> player" where
  "refresh_friend_give_points friend_id p = FriendPoints_Set friend_id (\<lambda>d. d\<lparr>fp_IsTodayGive := 0\<rparr>) p"

text \<open>The three results are the error, the time of the gift and the seconds until the next one.\<close>

definition store_friend_points :: "env \<Rightarrow> int \<Rightarrow> player \<Rightarrow> (int \<times> int \<times> int) \<times> player" where
  "store_friend_points e friend_id p =
     (let cfg = gc_FriendGivePointsRefreshTime (config e);
          once = gc_GiveFriendPointsOnce (config e);
          (last_save, found) = col_get_field fp_LastGiveTime 0 (p_FriendPoints p) friend_id;
          remain_seconds = GetRemainSeconds2NextDayTime e last_save cfg
      in if 0 < remain_seconds then ((E_ERR_FRIEND_GIVE_POINTS_FREQUENTLY, last_save, remain_seconds), p)
         else
           let t = i32 (now e);
               p = (if \<not> found then
                      p\<lparr>p_FriendPoints := snd (col_Add friend_id
                          \<lparr>fp_FromPlayerId = friend_id, fp_GivePoints = once, fp_LastGiveTime = t, fp_IsTodayGive = 0\<rparr>
                          (p_FriendPoints p))\<rparr>
                    else FriendPoints_Set friend_id (\<lambda>d. d\<lparr>fp_GivePoints := once, fp_LastGiveTime := t\<rparr>) p)
           in ((0, t, GetRemainSeconds2NextDayTime e t cfg), p))"

subsection \<open>Remote calls\<close>

type_synonym players = "int \<rightharpoonup> player"

record world =
  home :: players
  far :: players

definition upd_player :: "int \<Rightarrow> (player \<Rightarrow> player) \<Rightarrow> players \<Rightarrow> players" where
  "upd_player k f ps = ps(k := map_option f (ps k))"

definition home_upd :: "int \<Rightarrow> (player \<Rightarrow> player) \<Rightarrow> world \<Rightarrow> world" where
  "home_upd k f w = w\<lparr>home := upd_player k f (home w)\<rparr>"

text \<open>The fate of a call: done and answered, not delivered, or done with its answer lost.\<close>

datatype delivery = Delivered | Unreachable | ReplyLost

datatype g2g_req =
    G2GFriendAskRequest friend_req
  | G2GFriendAgreeRequest friend_info
  | G2GFriendRemoveRequest
  | G2GFriendGivePointsRequest
  | G2GFriendChatRequest string

datatype g2g_resp =
    G2GFriendAskResponse
  | G2GFriendAgreeResponse
  | G2GFriendRemoveResponse
  | G2GFriendGivePointsResponse int int
  | G2GFriendChatResponse

type_synonym rpc_result = "(g2g_resp option \<times> int) \<times> players"

definition remote_add_friend_by_id_response :: "int \<Rightarrow> int \<Rightarrow> friend_req \<Rightarrow> players \<Rightarrow> rpc_result" where
  "remote_add_friend_by_id_response from_id to_id req ps =
     (case ps to_id of
        None \<Rightarrow> ((None, 0), ps)
      | Some to_player \<Rightarrow>
          let (err_code, to_player) = FriendReqs_CheckAndAdd from_id to_player;
              to_player = notify_friend_add req to_player
          in ((if 0 \<le> err_code then Some G2GFriendAskResponse else None, err_code), ps(to_id \<mapsto> to_player)))"

definition remote_agree_add_friend_response :: "int \<Rightarrow> int \<Rightarrow> friend_info \<Rightarrow> players \<Rightarrow> rpc_result" where
  "remote_agree_add_friend_response from_id to_id info ps =
     (case ps to_id of
        None \<Rightarrow> ((None, 0), ps)
      | Some to_player \<Rightarrow>
          let to_player = (if col_HasIndex (p_Friends to_player) from_id then to_player
                           else Friends_Add (zero_friend from_id) to_player);
              to_player = notify_friend_info 1 (info\<lparr>fi_Zan := 0\<rparr>) to_player
          in ((Some G2GFriendAgreeResponse, 0), ps(to_id \<mapsto> to_player)))"

definition remote_remove_friend_response :: "int \<Rightarrow> int \<Rightarrow> players \<Rightarrow> rpc_result" where
  "remote_remove_friend_response from_id to_id ps =
     (case ps to_id of
        None \<Rightarrow> ((None, 0), ps)
      | Some to_player \<Rightarrow> ((Some G2GFriendRemoveResponse, 0), ps(to_id \<mapsto> remove_friend_data from_id to_player)))"

definition remote_give_friend_points_response :: "env \<Rightarrow> int \<Rightarrow> int \<Rightarrow> players \<Rightarrow> rpc_result" where
  "remote_give_friend_points_response e from_id to_id ps =
     (case ps to_id of
        None \<Rightarrow> ((None, 0), ps)
      | Some to_player \<Rightarrow>
          let ((err_code, last_save, remain_seconds), to_player) = store_friend_points e from_id to_player
          in ((Some (G2GFriendGivePointsResponse last_save remain_seconds), err_code), ps(to_id \<mapsto> to_player)))"

text \<open>The dispatch table. It has no entry for the chat, whose handler
  (\<open>remote_friend_chat_response\<close>) therefore never runs.\<close>

definition id2rpc_funcs :: "env \<Rightarrow> g2g_req \<Rightarrow> (int \<Rightarrow> int \<Rightarrow> players \<Rightarrow> rpc_result) option" where
  "id2rpc_funcs e req =
     (case req of
        G2GFriendAskRequest r \<Rightarrow> Some (\<lambda>from_id to_id. remote_add_friend_by_id_response from_id to_id r)
      | G2GFriendAgreeRequest info \<Rightarrow> Some (\<lambda>from_id to_id. remote_agree_add_friend_response from_id to_id info)
      | G2GFriendRemoveRequest \<Rightarrow> Some remote_remove_friend_response
      | G2GFriendGivePointsRequest \<Rightarrow> Some (remote_give_friend_points_response e)
      | G2GFriendChatRequest _ \<Rightarrow> None)"

definition G2G_Get :: "env \<Rightarrow> int \<Rightarrow> int \<Rightarrow> g2g_req \<Rightarrow> players \<Rightarrow> rpc_result option" where
  "G2G_Get e from_id to_id req ps =
     (case id2rpc_funcs e req of None \<Rightarrow> None | Some handler \<Rightarrow> Some (handler from_id to_id ps))"

definition RpcCommonGet :: "env \<Rightarrow> delivery \<Rightarrow> int \<Rightarrow> int \<Rightarrow> g2g_req \<Rightarrow> players \<Rightarrow> rpc_result" where
  "RpcCommonGet e dl from_id to_id req ps =
     (if dl = Unreachable then ((None, E_ERR_REMOTE_FUNC_CALL_ERROR), ps)
      else case G2G_Get e from_id to_id req ps of
          None \<Rightarrow> ((None, E_ERR_REMOTE_FUNC_CALL_ERROR), ps)
        | Some (r, ps) \<Rightarrow> (if dl = ReplyLost then ((None, E_ERR_REMOTE_FUNC_CALL_ERROR), ps) else (r, ps)))"

text \<open>The first result is what the caller's response holds; \<open>None\<close> is a response left zero.\<close>

definition RemoteGetUsePB :: "env \<Rightarrow> delivery \<Rightarrow> int \<Rightarrow> int \<Rightarrow> g2g_req \<Rightarrow> players \<Rightarrow> rpc_result" where
  "RemoteGetUsePB e dl from_id to_id req ps =
     (let ((data, err_code), ps) = RpcCommonGet e dl from_id to_id req ps
      in if err_code < 0 then ((None, err_code), ps) else ((data, 1), ps))"

definition remote_add_friend_by_id :: "env \<Rightarrow> delivery \<Rightarrow> int \<Rightarrow> int \<Rightarrow> players \<Rightarrow> rpc_result" where
  "remote_add_friend_by_id e dl from_id to_id ps = RemoteGetUsePB e dl from_id to_id
     (G2GFriendAskRequest \<lparr>rq_PlayerId = 0, rq_Name = '''', rq_Level = 0, rq_Head = 0\<rparr>) ps"

definition remote_agree_add_friend :: "env \<Rightarrow> delivery \<Rightarrow> player \<Rightarrow> int \<Rightarrow> int \<Rightarrow> players \<Rightarrow> rpc_result" where
  "remote_agree_add_friend e dl p from_id to_id ps =
     RemoteGetUsePB e dl from_id to_id (G2GFriendAgreeRequest ((format_friend_info p)\<lparr>fi_PlayerId := from_id\<rparr>)) ps"

definition remote_remove_friend :: "env \<Rightarrow> delivery \<Rightarrow> int \<Rightarrow> int \<Rightarrow> players \<Rightarrow> rpc_result" where
  "remote_remove_friend e dl from_id to_id ps = RemoteGetUsePB e dl from_id to_id G2GFriendRemoveRequest ps"

definition remote_give_friend_points :: "env \<Rightarrow> delivery \<Rightarrow> int \<Rightarrow> int \<Rightarrow> players \<Rightarrow> rpc_result" where
  "remote_give_friend_points e dl from_id to_id ps = RemoteGetUsePB e dl from_id to_id G2GFriendGivePointsRequest ps"

definition remote_friend_chat :: "env \<Rightarrow> delivery \<Rightarrow> int \<Rightarrow> int \<Rightarrow> string \<Rightarrow> players \<Rightarrow> rpc_result" where
  "remote_friend_chat e dl from_id to_id message ps = RemoteGetUsePB e dl from_id to_id (G2GFriendChatRequest '''') ps"

subsection \<open>The handlers that reach another player\<close>

text \<open>The handlers run for the player \<open>me\<close> of this server; \<open>None\<close> says there is no such player.\<close>

definition add_friend_by_id :: "env \<Rightarrow> delivery \<Rightarrow> int \<Rightarrow> int \<Rightarrow> world \<Rightarrow> (int \<times> world) option" where
  "add_friend_by_id e dl me k w = do {
     p \<leftarrow> home w me;
     if k = me then Some (- 1, w)
     else if col_HasIndex (p_Friends p) k then Some (E_ERR_FRIEND_THE_PLAYER_ALREADY_FRIEND, w)
     else (case home w k of
         Some add_player \<Rightarrow>
           (let (res, add_player) = FriendReqs_CheckAndAdd me add_player
            in if res < 0 then Some (res, w)
               else let add_player = notify_friend_add \<lparr>rq_PlayerId = me, rq_Name = p_Name p, rq_Level = p_Level p,
                          rq_Head = i_Head (p_Info p)\<rparr> add_player
                    in Some (1, home_upd me (Send_msg (S2CAddFriendResult k)) (w\<lparr>home := (home w)(k \<mapsto> add_player)\<rparr>)))
       | None \<Rightarrow>
           (let ((_, err_code), ps) = remote_add_friend_by_id e dl me k (far w); w = w\<lparr>far := ps\<rparr>
            in if err_code < 0 then Some (err_code, w)
               else Some (1, home_upd me (Send_msg (S2CAddFriendResult k)) w)))
   }"

definition agree_add_friend :: "env \<Rightarrow> delivery \<Rightarrow> int \<Rightarrow> int \<Rightarrow> world \<Rightarrow> (int \<times> world) option" where
  "agree_add_friend e dl me k w = do {
     p \<leftarrow> home w me;
     if col_HasIndex (p_Friends p) k then Some (E_ERR_FRIEND_THE_PLAYER_ALREADY_FRIEND, w)
     else
       let accept = (\<lambda>data w. home_upd me (\<lambda>q. Send_msg (S2CAgreeFriendResult k)
                       (FriendReqs_Remove k (Friends_Add data q))) w)
       in (case home w k of
           None \<Rightarrow>
             (let ((_, err_code), ps) = remote_agree_add_friend e dl p me k (far w); w = w\<lparr>far := ps\<rparr>
              in if err_code < 0 then Some (err_code, w) else Some (1, accept (zero_friend k) w))
         | Some agree_player \<Rightarrow>
             (let w = home_upd k (Friends_Add (zero_friend me)) w;
                  w = accept ((zero_friend k)\<lparr>fr_LastLogin := i_LastLogin (p_Info agree_player)\<rparr>) w
              in do {
                this \<leftarrow> home w me;
                Some (1, home_upd k (\<lambda>q. notify_friend_info 1 (get_friend_info e q this) q) w)
              }))
   }"

definition remove_friend :: "env \<Rightarrow> delivery \<Rightarrow> int \<Rightarrow> int \<Rightarrow> world \<Rightarrow> (int \<times> world) option" where
  "remove_friend e dl me k w = do {
     p \<leftarrow> home w me;
     if \<not> col_HasIndex (p_Friends p) k then Some (- 1, w)
     else
       let finish = (\<lambda>w. home_upd me (\<lambda>q. Send_msg (S2CRemoveFriendResult k) (remove_friend_data k q)) w)
       in (case home w k of
           None \<Rightarrow>
             (let ((_, err_code), ps) = remote_remove_friend e dl me k (far w); w = w\<lparr>far := ps\<rparr>
              in if err_code < 0 then Some (E_ERR_FRIEND_REMOVE_FRIEND_FAILED, w) else Some (1, finish w))
         | Some _ \<Rightarrow> Some (1, finish (home_upd k (remove_friend_data me) w)))
   }"

definition friend_chat :: "env \<Rightarrow> delivery \<Rightarrow> int \<Rightarrow> int \<Rightarrow> string \<Rightarrow> world \<Rightarrow> (int \<times> world) option" where
  "friend_chat e dl me k message w = do {
     p \<leftarrow> home w me;
     if \<not> col_HasIndex (p_Friends p) k then Some (E_ERR_FRIEND_NO_THE_FRIEND, w)
     else if FRIEND_MESSAGE_MAX_LENGTH < int (length message) then Some (E_ERR_FRIEND_MESSAGE_TOO_LONG, w)
     else
       let answer = home_upd me (Send_msg (S2CFriendChatResult k message))
       in (case home w k of
           Some friend \<Rightarrow>
             (let (res, friend) = friend_chat_add e me message friend; w = w\<lparr>home := (home w)(k \<mapsto> friend)\<rparr>
              in if res < 0 then Some (res, w) else Some (1, answer w))
         | None \<Rightarrow>
             (let ((_, err_code), ps) = remote_friend_chat e dl me k message (far w); w = w\<lparr>far := ps\<rparr>
              in if err_code < 0 then Some (err_code, w) else Some (1, answer w)))
   }"

subsection \<open>Splitting ids into local and remote ones\<close>

text \<open>\<open>SplitLocalAndRemotePlayers\<close> partitions a slice in place with two indices, as quicksort does.\<close>

function scan_down :: "(int \<Rightarrow> bool) \<Rightarrow> int list \<Rightarrow> int \<Rightarrow> int \<Rightarrow> int \<times> bool" where
  "scan_down is_local ids i j =
     (if j \<le> i then if is_local (ids ! nat i) then (i, True) else scan_down is_local ids (i - 1) j
      else (i, False))"
  by pat_completeness auto
termination by (relation "measure (\<lambda>(_, _, i, j). nat (i - j + 1))") auto

function scan_up :: "(int \<Rightarrow> bool) \<Rightarrow> int list \<Rightarrow> int \<Rightarrow> int \<Rightarrow> int" where
  "scan_up is_local ids i j =
     (if j \<le> i then if \<not> is_local (ids ! nat j) then j else scan_up is_local ids i (j + 1) else j)"
  by pat_completeness auto
termination by (relation "measure (\<lambda>(_, _, i, j). nat (i - j + 1))") auto

declare scan_down.simps [simp del] scan_up.simps [simp del]

definition swap_at :: "int list \<Rightarrow> int \<Rightarrow> int \<Rightarrow> int list" where
  "swap_at ids i j = ids[nat i := ids ! nat j, nat j := ids ! nat i]"

text \<open>The guards \<open>0 \<le> j\<close> and \<open>i < int (length ids)\<close> hold in every round of the code.\<close>

function split_loop :: "(int \<Rightarrow> bool) \<Rightarrow> int list \<Rightarrow> int \<Rightarrow> int \<Rightarrow> bool \<Rightarrow> int list \<times> int" where
  "split_loop is_local ids i j found_local =
     (if 0 \<le> j \<and> j \<le> i \<and> i < int (length ids) then
        (let (i, found) = scan_down is_local ids i j; j = scan_up is_local ids i j
         in split_loop is_local (if j < i then swap_at ids i j else ids) i j (found_local \<or> found))
      else (ids, if found_local then i else - 1))"
  by pat_completeness auto

lemma scan_down_result:
  "scan_down l ids i j = (i', f) \<Longrightarrow> i' \<le> i \<and> (j \<le> i + 1 \<longrightarrow> j - 1 \<le> i') \<and>
     (f \<longrightarrow> j \<le> i' \<and> l (ids ! nat i')) \<and> (\<not> f \<longrightarrow> i' < j) \<and> (\<forall>m. i' < m \<longrightarrow> m \<le> i \<longrightarrow> \<not> l (ids ! nat m))"
proof (induction l ids i j rule: scan_down.induct)
  case (1 l ids i j)
  show ?case
  proof (cases "j \<le> i \<and> \<not> l (ids ! nat i)")
    case True
    with "1.prems" have "scan_down l ids (i - 1) j = (i', f)" by (subst (asm) scan_down.simps) simp
    from "1.IH" [OF _ _ this] True have IH: "i' \<le> i - 1 \<and> (j \<le> i - 1 + 1 \<longrightarrow> j - 1 \<le> i') \<and>
     (f \<longrightarrow> j \<le> i' \<and> l (ids ! nat i')) \<and> (\<not> f \<longrightarrow> i' < j) \<and> (\<forall>m. i' < m \<longrightarrow> m \<le> i - 1 \<longrightarrow> \<not> l (ids ! nat m))" by simp
    have "\<not> l (ids ! nat m)" if "i' < m" "m \<le> i" for m using IH True that by (cases "m = i") auto
    with IH True show ?thesis by auto
  next
    case False
    with "1.prems" show ?thesis by (subst (asm) scan_down.simps) (auto split: if_splits)
  qed
qed

lemma scan_up_result:
  "j \<le> i + 1 \<Longrightarrow> j \<le> scan_up l ids i j \<and> scan_up l ids i j \<le> i + 1 \<and>
     (scan_up l ids i j \<le> i \<longrightarrow> \<not> l (ids ! nat (scan_up l ids i j))) \<and>
     (\<forall>m. j \<le> m \<longrightarrow> m < scan_up l ids i j \<longrightarrow> l (ids ! nat m))"
proof (induction l ids i j rule: scan_up.induct)
  case (1 l ids i j)
  show ?case
  proof (cases "j \<le> i \<and> l (ids ! nat j)")
    case True
    then have eq: "scan_up l ids i j = scan_up l ids i (j + 1)" by (subst scan_up.simps) simp
    from "1.IH" True have IH: "j + 1 \<le> scan_up l ids i (j + 1) \<and> scan_up l ids i (j + 1) \<le> i + 1 \<and>
     (scan_up l ids i (j + 1) \<le> i \<longrightarrow> \<not> l (ids ! nat (scan_up l ids i (j + 1)))) \<and>
     (\<forall>m. j + 1 \<le> m \<longrightarrow> m < scan_up l ids i (j + 1) \<longrightarrow> l (ids ! nat m))" by simp
    have "l (ids ! nat m)" if "j \<le> m" "m < scan_up l ids i (j + 1)" for m using IH True that by (cases "m = j") auto
    with IH True show ?thesis unfolding eq by auto
  next
    case False
    with "1.prems" show ?thesis by (subst (1 2 3 4 5) scan_up.simps) auto
  qed
qed

termination split_loop
proof (relation "measure (\<lambda>(l, ids, i, j, f). 2 * nat (i - j + 1) + (if l (ids ! nat i) then 1 else 0))", goal_cases)
  case 1 show ?case by simp
next
  case (2 l ids i j f x i' f' j')
  then have sd: "scan_down l ids i j = (i', f')" and su: "j' = scan_up l ids i' j" by simp_all
  from scan_down_result [OF sd] 2(1) have d: "i' \<le> i" "j - 1 \<le> i'" "f' \<Longrightarrow> l (ids ! nat i')" "\<not> f' \<Longrightarrow> i' < j"
    by auto
  from scan_up_result [of j i' l ids] d(2) su have u: "j \<le> j'" "j' \<le> i' + 1" "j' \<le> i' \<Longrightarrow> \<not> l (ids ! nat j')" by auto
  show ?case
  proof (cases "i' < i \<or> j < j'")
    case True
    then have "nat (i' - j' + 1) < nat (i - j + 1)" using d(1,2) u(1,2) 2(1) by linarith
    then show ?thesis by (simp; linarith)
  next
    case False
    then have eq: "i' = i" "j' = j" using d(1) u(1) by auto
    then have li: "l (ids ! nat i)" using d(3,4) 2(1) by (cases f') auto
    have nj: "\<not> l (ids ! nat j)" using u(3) eq 2(1) by simp
    then have "j < i" using li eq 2(1) by (cases "i = j") auto
    moreover from \<open>j < i\<close> 2(1) have "nat i \<noteq> nat j" "nat i < length ids" by linarith+
    ultimately have "swap_at ids i j ! nat i = ids ! nat j" by (simp add: swap_at_def)
    with eq li nj \<open>j < i\<close> show ?thesis by simp
  qed
qed

declare split_loop.simps [simp del]

definition SplitLocalAndRemotePlayers :: "players \<Rightarrow> int list \<Rightarrow> int list \<times> int" where
  "SplitLocalAndRemotePlayers ps ids =
     (if ids = [] then (ids, - 1) else split_loop (\<lambda>k. ps k \<noteq> None) ids (int (length ids) - 1) 0 False)"

lemma mset_swap_at:
  assumes "0 \<le> i" "i < int (length ids)" "0 \<le> j" "j < int (length ids)"
  shows "mset (swap_at ids i j) = mset ids"
  using assms unfolding swap_at_def by (intro mset_swap) auto

lemma split_loop_result:
  assumes "split_loop l ids i j f = (ids', r)" "0 \<le> j" "j \<le> i + 1" "i < int (length ids)"
    "\<forall>m. 0 \<le> m \<longrightarrow> m < j \<longrightarrow> l (ids ! nat m)" "\<forall>m. i < m \<longrightarrow> m < int (length ids) \<longrightarrow> \<not> l (ids ! nat m)"
    "\<not> f \<longrightarrow> j = 0"
  shows "mset ids' = mset ids \<and> - 1 \<le> r \<and> r < int (length ids) \<and>
    (\<forall>m. 0 \<le> m \<longrightarrow> m \<le> r \<longrightarrow> l (ids' ! nat m)) \<and> (\<forall>m. r < m \<longrightarrow> m < int (length ids) \<longrightarrow> \<not> l (ids' ! nat m))"
  using assms
proof (induction l ids i j f rule: split_loop.induct)
  case (1 l ids i j f)
  show ?case
  proof (cases "j \<le> i")
    case False
    with "1.prems" have "ids' = ids" "r = j - 1" by (auto simp: split_loop.simps [of l ids i j f] split: if_splits)
    with "1.prems" False show ?thesis by auto
  next
    case True
    obtain i' f' where sd: "scan_down l ids i j = (i', f')" by fastforce
    define j' where "j' = scan_up l ids i' j"
    from scan_down_result [OF sd] True have d: "i' \<le> i" "j - 1 \<le> i'" "f' \<Longrightarrow> l (ids ! nat i')" "\<not> f' \<Longrightarrow> i' < j"
      "f' \<Longrightarrow> j \<le> i'" "\<forall>m. i' < m \<longrightarrow> m \<le> i \<longrightarrow> \<not> l (ids ! nat m)" by auto
    from scan_up_result [of j i' l ids] d(2) have u: "j \<le> j'" "j' \<le> i' + 1" "j' \<le> i' \<Longrightarrow> \<not> l (ids ! nat j')"
      "\<forall>m. j \<le> m \<longrightarrow> m < j' \<longrightarrow> l (ids ! nat m)" by (auto simp: j'_def)
    define ids2 where "ids2 = (if j' < i' then swap_at ids i' j' else ids)"
    have len: "length ids2 = length ids" by (simp add: ids2_def swap_at_def)
    have ms: "mset ids2 = mset ids" using "1.prems"(2-4) d(1) u(1,2) by (auto simp: ids2_def mset_swap_at)
    have same: "ids2 ! nat m = ids ! nat m" if "0 \<le> m" "m < j' \<or> i' < m" for m
    proof (cases "j' < i'")
      case True
      then have "nat m \<noteq> nat i'" "nat m \<noteq> nat j'" using that "1.prems"(2) u(1) by linarith+
      with True show ?thesis by (simp add: ids2_def swap_at_def)
    qed (simp add: ids2_def)
    from "1.prems"(1) True "1.prems"(2,4) have run: "split_loop l ids2 i' j' (f \<or> f') = (ids', r)"
      by (subst (asm) split_loop.simps) (auto simp: sd Let_def ids2_def j'_def split: if_splits)
    have "\<not> (f \<or> f') \<longrightarrow> j' = 0" using "1.prems"(7) d(2,4) u(1,2) by auto
    moreover have "l (ids2 ! nat m)" if "0 \<le> m" "m < j'" for m
      using same [of m] that "1.prems"(5) u(4) by (cases "m < j") auto
    moreover have "\<not> l (ids2 ! nat m)" if "i' < m" "m < int (length ids)" for m
      using same [of m] that "1.prems"(2,6) d(2,6) by (cases "i < m") auto
    ultimately have "mset ids' = mset ids2 \<and> - 1 \<le> r \<and> r < int (length ids2) \<and>
      (\<forall>m. 0 \<le> m \<longrightarrow> m \<le> r \<longrightarrow> l (ids' ! nat m)) \<and> (\<forall>m. r < m \<longrightarrow> m < int (length ids2) \<longrightarrow> \<not> l (ids' ! nat m))"
      using "1.IH" [of "(i', f')" i' f' j'] run "1.prems"(2,4) d(1) u(1,2) True
      by (simp add: sd len flip: j'_def ids2_def)
    then show ?thesis by (simp add: ms len)
  qed
qed

text \<open>The result: the same ids, the local ones first, and the index of the last local one.\<close>

lemma split_players:
  assumes "SplitLocalAndRemotePlayers ps ids = (ids', r)"
  shows "mset ids' = mset ids" "- 1 \<le> r" "r < int (length ids')" "\<forall>k\<in>set (take (nat (r + 1)) ids'). ps k \<noteq> None"
    "\<forall>k\<in>set (drop (nat (r + 1)) ids'). ps k = None"
proof -
  have *: "mset ids' = mset ids \<and> - 1 \<le> r \<and> r < int (length ids') \<and> (\<forall>m. 0 \<le> m \<longrightarrow> m \<le> r \<longrightarrow> ps (ids' ! nat m) \<noteq> None) \<and>
    (\<forall>m. r < m \<longrightarrow> m < int (length ids') \<longrightarrow> ps (ids' ! nat m) = None)"
  proof (cases "ids = []")
    case True
    with assms show ?thesis by (auto simp: SplitLocalAndRemotePlayers_def)
  next
    case False
    with assms have "split_loop (\<lambda>k. ps k \<noteq> None) ids (int (length ids) - 1) 0 False = (ids', r)"
      by (simp add: SplitLocalAndRemotePlayers_def)
    from split_loop_result [OF this] have "mset ids' = mset ids \<and> - 1 \<le> r \<and> r < int (length ids) \<and>
      (\<forall>m. 0 \<le> m \<longrightarrow> m \<le> r \<longrightarrow> ps (ids' ! nat m) \<noteq> None) \<and>
      (\<forall>m. r < m \<longrightarrow> m < int (length ids) \<longrightarrow> \<not> ps (ids' ! nat m) \<noteq> None)" by simp
    moreover from this have "length ids' = length ids" by (metis size_mset)
    ultimately show ?thesis by simp
  qed
  then show "mset ids' = mset ids" "- 1 \<le> r" "r < int (length ids')" by blast+
  show "\<forall>k\<in>set (take (nat (r + 1)) ids'). ps k \<noteq> None"
    using * by (auto simp: in_set_conv_nth) (metis int_nat_eq nat_int of_nat_0_le_iff zless_nat_eq_int_zless zless_iff_Suc_zadd add.commute zle_add1_eq_le of_nat_less_iff)
  show "\<forall>k\<in>set (drop (nat (r + 1)) ids'). ps k = None"
  proof
    fix k assume "k \<in> set (drop (nat (r + 1)) ids')"
    then obtain n where n: "n < length ids' - nat (r + 1)" "k = ids' ! (nat (r + 1) + n)" by (auto simp: in_set_conv_nth)
    moreover from * n have "r < int (nat (r + 1) + n)" "int (nat (r + 1) + n) < int (length ids')" by linarith+
    ultimately show "ps k = None" using * by (metis nat_int)
  qed
qed

subsection \<open>Gifts of friend points and the friend list\<close>

text \<open>What the other servers do with the calls of one handler: the fate of a call by its target,
  of the grouped call, which ids belong to a known server, and the answer of the rank server to
  \<open>rpc_get_players_base_info\<close>.\<close>

record network =
  net_call :: "int \<Rightarrow> delivery"
  net_multi :: delivery
  net_serves :: "int \<Rightarrow> bool"
  net_base_infos :: "int list \<Rightarrow> friend_req list option"

text \<open>The loop over the local friends stops one short of the last, and the branch for the remote
  ones asks for an index beyond the slice, so it is never taken (\<open>split_players\<close>).\<close>

definition check_friends_give_points_refresh :: "env \<Rightarrow> int \<Rightarrow> world \<Rightarrow> (int \<times> world) option" where
  "check_friends_give_points_refresh e me w = do {
     p \<leftarrow> home w me;
     let friends = col_GetAllIndex (p_Friends p);
         remain_seconds = GetRemainSeconds2NextDayTime e (rel_LastRefreshTime (p_FriendRelative p))
           (gc_FriendGivePointsRefreshTime (config e))
     in if friends = [] then Some (0, w)
        else if 0 < remain_seconds then Some (remain_seconds, w)
        else
          let (friends, idx) = SplitLocalAndRemotePlayers (home w) friends;
              w = fold (\<lambda>k. home_upd k (refresh_friend_give_points me)) (take (nat idx) friends) w;
              w = home_upd me (\<lambda>p. p\<lparr>p_FriendRelative :=
                    (p_FriendRelative p)\<lparr>rel_LastRefreshTime := i32 (now e), rel_GiveNumToday := 0\<rparr>\<rparr>) w
          in Some (remain_seconds, w)
   }"

definition get_friends_info :: "env \<Rightarrow> players \<Rightarrow> player \<Rightarrow> int list \<Rightarrow> friend_info list" where
  "get_friends_info e ps p friend_ids = List.map_filter (\<lambda>k. map_option (get_friend_info e p) (ps k)) friend_ids"

definition get_friends_req_info :: "players \<Rightarrow> int list \<Rightarrow> friend_req list" where
  "get_friends_req_info ps friend_ids = List.map_filter
     (\<lambda>k. map_option (\<lambda>f. \<lparr>rq_PlayerId = k, rq_Name = p_Name f, rq_Level = p_Level f, rq_Head = i_Head (p_Info f)\<rparr>)
            (ps k)) friend_ids"

definition remote_friends_info_response :: "players \<Rightarrow> int list \<Rightarrow> friend_info list" where
  "remote_friends_info_response ps to_ids = List.map_filter (\<lambda>k. map_option format_friend_info (ps k)) to_ids"

definition remote_friends_info :: "network \<Rightarrow> int list \<Rightarrow> players \<Rightarrow> friend_info list \<times> int" where
  "remote_friends_info nt to_ids ps =
     (let to_ids = filter (net_serves nt) to_ids
      in if to_ids = [] \<or> net_multi nt \<noteq> Delivered then ([], - 1)
         else (remote_friends_info_response ps to_ids, 1))"

definition get_friend_list :: "env \<Rightarrow> network \<Rightarrow> int \<Rightarrow> world \<Rightarrow> (int \<times> world) option" where
  "get_friend_list e nt me w = do {
     (_, w) \<leftarrow> check_friends_give_points_refresh e me w;
     p \<leftarrow> home w me;
     let (friend_ids, idx) = SplitLocalAndRemotePlayers (home w) (col_GetAllIndex (p_Friends p));
         (infos, err_code) = remote_friends_info nt (drop (nat (idx + 1)) friend_ids) (far w);
         friend_list =
           (if 0 \<le> idx then get_friends_info e (home w) p friend_ids else []) @
           (if idx < int (length friend_ids) - 1 \<and> 0 \<le> err_code
            then map (\<lambda>fi. get_friend_extra_info e p (fi_PlayerId fi) fi) infos else []);
         (req_ids, ridx) = SplitLocalAndRemotePlayers (home w) (col_GetAllIndex (p_FriendReqs p));
         req_list =
           (if 0 \<le> ridx then get_friends_req_info (home w) req_ids else []) @
           (if ridx < int (length req_ids) - 1
            then (case net_base_infos nt (drop (nat (ridx + 1)) req_ids) of None \<Rightarrow> [] | Some rs \<Rightarrow> rs) else [])
     in Some (1, home_upd me (Send_msg (S2CRetFriendListResult friend_list req_list
          (i32 (gc_FriendGivePointsPlayerNumOneDay (config e) - rel_GiveNumToday (p_FriendRelative p))))) w)
   }"

text \<open>One friend of the list \<open>give_friend_points\<close> goes through: the error, the time of the gift, the
  seconds left, and the world after the receiver has stored the points.\<close>

definition give_one :: "env \<Rightarrow> network \<Rightarrow> int \<Rightarrow> int \<Rightarrow> world \<Rightarrow> (int \<times> int \<times> int) \<times> world" where
  "give_one e nt me k w =
     (case home w k of
        Some friend \<Rightarrow>
          (let (r, friend) = store_friend_points e me friend in (r, w\<lparr>home := (home w)(k \<mapsto> friend)\<rparr>))
      | None \<Rightarrow>
          (let ((resp, err_code), ps) = remote_give_friend_points e (net_call nt k) me k (far w)
           in (case resp of Some (G2GFriendGivePointsResponse last_save remain_seconds) \<Rightarrow>
                   ((err_code, last_save, remain_seconds), w\<lparr>far := ps\<rparr>)
               | _ \<Rightarrow> ((err_code, 0, 0), w\<lparr>far := ps\<rparr>))))"

definition credit_gift :: "env \<Rightarrow> int \<Rightarrow> int \<Rightarrow> player \<Rightarrow> player" where
  "credit_gift e k last_save p =
     (let p = p\<lparr>p_FriendRelative := (p_FriendRelative p)
            \<lparr>rel_GiveNumToday := i32 (rel_GiveNumToday (p_FriendRelative p) + 1)\<rparr>\<rparr>;
          p = snd (AddFriendPoints (gc_GiveFriendPointsOnce (config e)) p)
      in p\<lparr>p_Friends := snd (col_set_field (\<lambda>d. d\<lparr>fr_LastGivePointsTime := last_save\<rparr>) k (p_Friends p))\<rparr>)"

definition gift_result :: "env \<Rightarrow> int \<Rightarrow> int \<times> int \<times> int \<Rightarrow> points_result" where
  "gift_result e k r =
     (case r of (err_code, _, remain_seconds) \<Rightarrow>
        let points = (if 0 \<le> err_code then gc_GiveFriendPointsOnce (config e) else 0)
        in \<lparr>pr_FriendId = k, pr_Points = points, pr_Error = err_code, pr_BackPoints = points,
            pr_RemainSeconds = remain_seconds\<rparr>)"

fun give_loop :: "env \<Rightarrow> network \<Rightarrow> int \<Rightarrow> int list \<Rightarrow> int \<Rightarrow> points_result list \<Rightarrow> world \<Rightarrow>
    (points_result list \<times> world) option" where
  "give_loop e nt me [] today_num rs w = Some (rs, w)"
| "give_loop e nt me (k # ks) today_num rs w = do {
     p \<leftarrow> home w me;
     if k = me \<or> \<not> col_HasIndex (p_Friends p) k then give_loop e nt me ks today_num rs w
     else if gc_FriendGivePointsPlayerNumOneDay (config e) \<le> today_num then Some (rs, w)
     else
       let ((err_code, last_save, remain_seconds), w) = give_one e nt me k w;
           rs = rs @ [gift_result e k (err_code, last_save, remain_seconds)]
       in if err_code < 0 then give_loop e nt me ks today_num rs w
          else
            let w = home_upd me (credit_gift e k last_save) w
            in do {
              q \<leftarrow> home w me;
              give_loop e nt me ks (rel_GiveNumToday (p_FriendRelative q)) rs w
            }
   }"

definition give_friend_points :: "env \<Rightarrow> network \<Rightarrow> int \<Rightarrow> int list \<Rightarrow> world \<Rightarrow> (int \<times> world) option" where
  "give_friend_points e nt me friend_list w = do {
     (_, w) \<leftarrow> check_friends_give_points_refresh e me w;
     p \<leftarrow> home w me;
     let today_num = rel_GiveNumToday (p_FriendRelative p);
         max_num = gc_FriendGivePointsPlayerNumOneDay (config e)
     in if gc_GiveFriendPointsPlayersCount (config e) < int (length friend_list) then
          Some (E_ERR_FRIEND_TOO_MANY_FRIEND_GIVE_POINTS, w)
        else if max_num \<le> today_num then Some (E_ERR_FRIEND_GIVE_POINTS_MAX_NUM_LIMIT, w)
        else do {
          (rs, w) \<leftarrow> give_loop e nt me friend_list today_num [] w;
          q \<leftarrow> home w me;
          Some (1, home_upd me (\<lambda>q. TaskUpdate e TASK_COMPLETE_TYPE_GIVE_FRIEND_POINT False 0 (int (length rs))
            (Send_msg (S2CGiveFriendPointsResult rs (i32 (max_num - rel_GiveNumToday (p_FriendRelative q)))) q)) w)
        }
   }"

fun get_points_loop :: "int list \<Rightarrow> player \<Rightarrow> (int \<times> int) list \<times> player" where
  "get_points_loop [] p = ([], p)"
| "get_points_loop (k # ks) p =
     (let (points, found) = col_get_field fp_GivePoints 0 (p_FriendPoints p) k;
          p = (if found \<and> 0 < points
               then FriendPoints_Set k (\<lambda>d. d\<lparr>fp_GivePoints := 0\<rparr>) (snd (AddFriendPoints points p)) else p);
          (rs, p) = get_points_loop ks p
      in ((k, points) # rs, p))"

definition get_friend_points :: "env \<Rightarrow> int \<Rightarrow> int list \<Rightarrow> world \<Rightarrow> (int \<times> world) option" where
  "get_friend_points e me friend_list w = do {
     (_, w) \<leftarrow> check_friends_give_points_refresh e me w;
     Some (1, home_upd me (\<lambda>p. let (rs, p) = get_points_loop friend_list p
                                in Send_msg (S2CGetFriendPointsResult rs) p) w)
   }"

end
