(* ===== verification/FriendWorld.thy ===== *)
theory FriendWorld
  imports Friends
begin

text \<open>
  What holds of friends over both servers. One step of the world is one handler of
  \<open>player_friend.go\<close>, run on either server, with whatever fate a remote call has. Friendship stays
  symmetric but for the pairs of a remote agreement or removal whose answer was lost, or of a remote
  agreement with a player who does not exist; the rows stay well typed; the unread messages of a friend
  are a queue.
\<close>

named_theorems friend_frames \<open>what the friend steps leave alone\<close>

subsection \<open>Who is whose friend\<close>

definition friend_ids :: "player \<Rightarrow> int set" where
  "friend_ids p = dom (map_of (p_Friends p))"

definition links :: "players \<Rightarrow> int \<Rightarrow> int set option" where
  "links ps k = map_option friend_ids (ps k)"

definition world_links :: "world \<Rightarrow> int \<Rightarrow> int set option" where
  "world_links w k = (case links (home w) k of Some s \<Rightarrow> Some s | None \<Rightarrow> links (far w) k)"

text \<open>Both sides of a pair change: \<open>g b\<close> is what happens to the set of \<open>a\<close>, and the other way round.\<close>

definition pair_upd :: "(int \<Rightarrow> int set \<Rightarrow> int set) \<Rightarrow> int \<Rightarrow> int \<Rightarrow> (int \<Rightarrow> int set option) \<Rightarrow> int \<Rightarrow> int set option" where
  "pair_upd g a b L = (\<lambda>x. map_option (\<lambda>s. (if x = a then g b else id) ((if x = b then g a else id) s)) (L x))"

abbreviation connect :: "int \<Rightarrow> int \<Rightarrow> (int \<Rightarrow> int set option) \<Rightarrow> int \<Rightarrow> int set option" where
  "connect \<equiv> pair_upd insert"

abbreviation disconnect :: "int \<Rightarrow> int \<Rightarrow> (int \<Rightarrow> int set option) \<Rightarrow> int \<Rightarrow> int set option" where
  "disconnect \<equiv> pair_upd (\<lambda>b s. s - {b})"

definition linked :: "(int \<Rightarrow> int set option) \<Rightarrow> int \<Rightarrow> int \<Rightarrow> bool" where
  "linked L a b \<longleftrightarrow> (\<exists>s. L a = Some s \<and> b \<in> s)"

definition symmetric :: "(int \<Rightarrow> int set option) \<Rightarrow> bool" where
  "symmetric L \<longleftrightarrow> (\<forall>a b. linked L a b \<longrightarrow> linked L b a)"

text \<open>Symmetric but for the pairs in \<open>S\<close>.\<close>

definition symmetric_but :: "(int \<times> int) set \<Rightarrow> (int \<Rightarrow> int set option) \<Rightarrow> bool" where
  "symmetric_but S L \<longleftrightarrow> (\<forall>a b. linked L a b \<longrightarrow> (a, b) \<notin> S \<longrightarrow> linked L b a)"

definition separate :: "world \<Rightarrow> bool" where
  "separate w \<longleftrightarrow> (\<forall>k. home w k = None \<or> far w k = None)"

lemma linked_connect: "linked (connect a b L) x y \<longleftrightarrow>
    L x \<noteq> None \<and> (linked L x y \<or> x = a \<and> y = b \<or> x = b \<and> y = a)"
  by (auto simp: linked_def pair_upd_def)

lemma linked_disconnect: "linked (disconnect a b L) x y \<longleftrightarrow>
    linked L x y \<and> \<not> (x = a \<and> y = b) \<and> \<not> (x = b \<and> y = a)"
  by (auto simp: linked_def pair_upd_def)

lemma linked_known: "linked L a b \<Longrightarrow> L a \<noteq> None"
  by (auto simp: linked_def)

lemma symmetric_but_connect: "symmetric_but S L \<Longrightarrow> L a \<noteq> None \<Longrightarrow> L b \<noteq> None \<Longrightarrow> symmetric_but S (connect a b L)"
  unfolding symmetric_but_def linked_connect
proof (intro allI impI)
  fix x y assume a: "\<forall>a b. linked L a b \<longrightarrow> (a, b) \<notin> S \<longrightarrow> linked L b a" "L a \<noteq> None" "L b \<noteq> None"
    "L x \<noteq> None \<and> (linked L x y \<or> x = a \<and> y = b \<or> x = b \<and> y = a)" "(x, y) \<notin> S"
  show "L y \<noteq> None \<and> (linked L y x \<or> y = a \<and> x = b \<or> y = b \<and> x = a)"
  proof (cases "linked L x y")
    case True
    then have "linked L y x" using a(1,5) by simp
    with linked_known [OF this] show ?thesis by simp
  qed (use a in auto)
qed

lemma symmetric_but_disconnect: "symmetric_but S L \<Longrightarrow> symmetric_but S (disconnect a b L)"
  unfolding symmetric_but_def linked_disconnect
proof (intro allI impI)
  fix x y assume s: "\<forall>a b. linked L a b \<longrightarrow> (a, b) \<notin> S \<longrightarrow> linked L b a" "(x, y) \<notin> S"
    and c: "linked L x y \<and> \<not> (x = a \<and> y = b) \<and> \<not> (x = b \<and> y = a)"
  from s c have "linked L y x" by simp
  with c show "linked L y x \<and> \<not> (y = a \<and> x = b) \<and> \<not> (y = b \<and> x = a)" by auto
qed

text \<open>Only the links of one pair have changed.\<close>

definition pair_only :: "int \<Rightarrow> int \<Rightarrow> (int \<Rightarrow> int set option) \<Rightarrow> (int \<Rightarrow> int set option) \<Rightarrow> bool" where
  "pair_only a b L M \<longleftrightarrow> (\<forall>x y. (x, y) \<notin> {(a, b), (b, a)} \<longrightarrow> linked M x y = linked L x y)"

lemma pair_only_refl [simp]: "pair_only a b L L"
  by (simp add: pair_only_def)

lemma pair_only_connect: "pair_only a b L (connect a b L)" and pair_only_disconnect: "pair_only a b L (disconnect a b L)"
  using linked_known [of L] by (auto simp: pair_only_def linked_connect linked_disconnect)

lemma symmetric_but_pair:
  "symmetric_but S L \<Longrightarrow> pair_only a b L M \<Longrightarrow> symmetric_but (S \<union> {(a, b), (b, a)}) M"
  unfolding symmetric_but_def pair_only_def
proof (intro allI impI)
  fix x y assume s: "\<forall>a b. linked L a b \<longrightarrow> (a, b) \<notin> S \<longrightarrow> linked L b a" "linked M x y"
    and c: "\<forall>x y. (x, y) \<notin> {(a, b), (b, a)} \<longrightarrow> linked M x y = linked L x y" "(x, y) \<notin> S \<union> {(a, b), (b, a)}"
  from c(2) have n: "(x, y) \<notin> {(a, b), (b, a)}" "(y, x) \<notin> {(a, b), (b, a)}" "(x, y) \<notin> S" by auto
  from c(1) n(1) s(2) have "linked L x y" by simp
  with s(1) n(3) have "linked L y x" by simp
  with c(1) n(2) show "linked M y x" by simp
qed

subsection \<open>What the steps of one player do to the friends\<close>

lemma friend_ids_Add: "friend_ids (Friends_Add d p) = insert (fr_FriendId d) (friend_ids p)"
  by (auto simp: friend_ids_def Friends_Add_def col_simps split: if_splits)

lemma RemoveMessages_frame [simp]:
  "p_Friends (RemoveMessages f mids p) = p_Friends p" "p_FriendReqs (RemoveMessages f mids p) = p_FriendReqs p"
  "p_FriendPoints (RemoveMessages f mids p) = p_FriendPoints p" "p_FriendChatUnreadIds (RemoveMessages f mids p) = p_FriendChatUnreadIds p"
  by (simp_all add: RemoveMessages_def)

lemma friend_ids_remove: "friend_ids (remove_friend_data k p) = friend_ids p - {k}"
  by (auto simp: friend_ids_def remove_friend_data_def Let_def col_simps split: option.splits)

lemma friend_ids_set_field: "friend_ids (p\<lparr>p_Friends := snd (col_set_field u k (p_Friends p))\<rparr>) = friend_ids p"
  by (auto simp: friend_ids_def col_simps split: option.splits)

lemma has_friend: "col_HasIndex (p_Friends p) k \<longleftrightarrow> k \<in> friend_ids p"
  by (auto simp: friend_ids_def col_simps)

lemma friend_ids_cong: "p_Friends q = p_Friends p \<Longrightarrow> friend_ids q = friend_ids p"
  by (simp add: friend_ids_def)

lemma Friends_add_points: "p_Friends (snd (AddFriendPoints v p)) = p_Friends p"
  by (rule side_frame) simp

lemma friend_ids_frame [simp]:
  "friend_ids (Send_msg m p) = friend_ids p" "friend_ids (TaskUpdate e ty b pa n p) = friend_ids p"
  "friend_ids (notify_friend_add r p) = friend_ids p" "friend_ids (notify_friend_info st i p) = friend_ids p"
  "friend_ids (snd (FriendReqs_CheckAndAdd k p)) = friend_ids p" "friend_ids (FriendReqs_Remove k p) = friend_ids p"
  "friend_ids (snd (refuse_add_friend k p)) = friend_ids p" "friend_ids (refresh_friend_give_points k p) = friend_ids p"
  "friend_ids (snd (store_friend_points e k p)) = friend_ids p"
  "friend_ids (snd (friend_chat_add e k txt p)) = friend_ids p" "friend_ids (RemoveMessages f mids p) = friend_ids p"
  "friend_ids (p\<lparr>p_FriendRelative := rel\<rparr>) = friend_ids p"
  by (auto simp: notify_friend_add_def notify_friend_info_def FriendReqs_CheckAndAdd_def FriendReqs_Remove_def
      refuse_add_friend_def refresh_friend_give_points_def FriendPoints_Set_def store_friend_points_def Let_def
      friend_chat_add_def CheckUnreadNumFull_def AddNewMessageId_def split_beta task_only_frame [OF task_only_TaskUpdate]
      intro!: friend_ids_cong split: option.splits)


lemma friend_ids_credit [simp]: "friend_ids (credit_gift e k t p) = friend_ids p"
  by (auto simp: friend_ids_def credit_gift_def Let_def col_simps Friends_add_points split: option.splits)

subsection \<open>Steps of the world on the links\<close>

lemma links_upd: "(\<And>p. friend_ids (f p) = friend_ids p) \<Longrightarrow> links (upd_player k f ps) = links ps"
  by (auto simp: links_def upd_player_def option.map_comp comp_def intro!: ext)

lemma links_put: "ps k = Some p \<Longrightarrow> friend_ids q = friend_ids p \<Longrightarrow> links (ps(k \<mapsto> q)) = links ps"
  by (auto simp: links_def intro!: ext)

lemma links_home_upd [simp]:
  "(\<And>p. friend_ids (f p) = friend_ids p) \<Longrightarrow> links (home (home_upd k f w)) = links (home w)"
  by (simp add: home_upd_def links_upd)

lemma far_home_upd [simp]: "far (home_upd k f w) = far w"
  by (simp add: home_upd_def)

lemma home_home_upd: "home (home_upd k f w) = upd_player k f (home w)"
  by (simp add: home_upd_def)

lemma links_known: "links ps k \<noteq> None \<longleftrightarrow> ps k \<noteq> None"
  by (simp add: links_def)

lemma world_links_cong: "links (home v) = links (home w) \<Longrightarrow> links (far v) = links (far w) \<Longrightarrow> world_links v = world_links w"
  by (rule ext) (simp add: world_links_def cong: option.case_cong)

lemma ask_links: "links (snd (remote_add_friend_by_id_response a b r ps)) = links ps"
  by (auto simp: remote_add_friend_by_id_response_def Let_def split_beta links_put split: option.splits)

lemma agree_links: "links (snd (remote_agree_add_friend_response a b i ps)) =
    (links ps)(b := map_option (insert a) (links ps b))"
  by (auto simp: remote_agree_add_friend_response_def Let_def links_def friend_ids_Add zero_friend_def
      has_friend fun_eq_iff split: option.splits)

lemma remove_links: "links (snd (remote_remove_friend_response a b ps)) =
    (links ps)(b := map_option (\<lambda>s. s - {a}) (links ps b))"
  by (auto simp: remote_remove_friend_response_def links_def friend_ids_remove fun_eq_iff split: option.splits)

lemma give_links: "links (snd (remote_give_friend_points_response e a b ps)) = links ps"
proof (cases "ps b")
  case (Some p)
  then show ?thesis
    using friend_ids_frame(9) [of e a p]
    by (auto simp: remote_give_friend_points_response_def links_put simp del: friend_ids_frame(9) split: prod.splits)
qed (simp add: remote_give_friend_points_response_def)

text \<open>What a remote call does to the other server, and its error code.\<close>

lemma RemoteGet_snd: "snd (RemoteGetUsePB e dl a b req ps) =
    (case id2rpc_funcs e req of None \<Rightarrow> ps | Some h \<Rightarrow> if dl = Unreachable then ps else snd (h a b ps))"
  by (simp add: RemoteGetUsePB_def RpcCommonGet_def G2G_Get_def Let_def split_beta split: option.splits)

lemma RemoteGet_err: "snd (fst (RemoteGetUsePB e dl a b req ps)) =
    (case id2rpc_funcs e req of None \<Rightarrow> E_ERR_REMOTE_FUNC_CALL_ERROR
     | Some h \<Rightarrow> if dl \<noteq> Delivered then E_ERR_REMOTE_FUNC_CALL_ERROR
                 else if snd (fst (h a b ps)) < 0 then snd (fst (h a b ps)) else 1)"
  by (cases dl) (simp_all add: RemoteGetUsePB_def RpcCommonGet_def G2G_Get_def Let_def split_beta split: option.splits)

definition same_links :: "world \<Rightarrow> world \<Rightarrow> bool" where
  "same_links w v \<longleftrightarrow> links (home v) = links (home w) \<and> links (far v) = links (far w)"

definition same_players :: "world \<Rightarrow> world \<Rightarrow> bool" where
  "same_players w v \<longleftrightarrow> dom (home v) = dom (home w) \<and> dom (far v) = dom (far w)"

lemma dom_links: "dom (links ps) = dom ps"
  by (auto simp: links_def)

lemma same_links_players: "same_links w v \<Longrightarrow> same_players w v"
  by (metis dom_links same_links_def same_players_def)

lemma same_links_world: "same_links w v \<Longrightarrow> world_links v = world_links w"
  by (rule world_links_cong) (simp_all add: same_links_def)

lemma same_links_refl [simp]: "same_links w w"
  by (simp add: same_links_def)

lemma same_links_trans: "same_links u v \<Longrightarrow> same_links v w \<Longrightarrow> same_links u w"
  by (simp add: same_links_def)

lemma same_links_far: "links ps = links (far w) \<Longrightarrow> same_links w (w\<lparr>far := ps\<rparr>)"
  by (simp add: same_links_def)

lemma same_links_home: "(\<And>p. friend_ids (f p) = friend_ids p) \<Longrightarrow> same_links w (home_upd k f w)"
  by (simp add: same_links_def)

lemma same_links_put: "home w k = Some p \<Longrightarrow> friend_ids q = friend_ids p \<Longrightarrow> same_links w (w\<lparr>home := (home w)(k \<mapsto> q)\<rparr>)"
  by (simp add: same_links_def links_put)

lemma home_put_upd: "home_upd k f w = (case home w k of None \<Rightarrow> w | Some p \<Rightarrow> w\<lparr>home := (home w)(k \<mapsto> f p)\<rparr>)"
  by (cases "home w k") (auto simp: home_upd_def upd_player_def fun_upd_idem)

lemma links_upd_map:
  "links (upd_player k f ps) = (links ps)(k := map_option (\<lambda>p. friend_ids (f p)) (ps k))"
  by (auto simp: links_def upd_player_def option.map_comp comp_def intro!: ext)

text \<open>A call that leaves the links alone, and the two calls that change them.\<close>

lemma ask_far: "links (snd (remote_add_friend_by_id e dl a b ps)) = links ps"
  by (simp add: remote_add_friend_by_id_def RemoteGet_snd id2rpc_funcs_def ask_links)

lemma give_far: "links (snd (remote_give_friend_points e dl a b ps)) = links ps"
  by (simp add: remote_give_friend_points_def RemoteGet_snd id2rpc_funcs_def give_links)

lemma chat_far: "links (snd (remote_friend_chat e dl a b m ps)) = links ps"
  by (simp add: remote_friend_chat_def RemoteGet_snd id2rpc_funcs_def)

lemma agree_err [simp]: "snd (fst (remote_agree_add_friend_response a b i ps)) = 0"
  by (simp add: remote_agree_add_friend_response_def Let_def split: option.split)

lemma remove_err [simp]: "snd (fst (remote_remove_friend_response a b ps)) = 0"
  by (simp add: remote_remove_friend_response_def split: option.split)

lemma agree_far:
  "links (snd (remote_agree_add_friend e dl p a b ps)) =
     (if dl = Unreachable then links ps else (links ps)(b := map_option (insert a) (links ps b)))"
  "snd (fst (remote_agree_add_friend e dl p a b ps)) = (if dl = Delivered then 1 else - 20000)"
  by (simp_all add: remote_agree_add_friend_def RemoteGet_snd RemoteGet_err id2rpc_funcs_def agree_links)

lemma remove_far:
  "links (snd (remote_remove_friend e dl a b ps)) =
     (if dl = Unreachable then links ps else (links ps)(b := map_option (\<lambda>s. s - {a}) (links ps b)))"
  "snd (fst (remote_remove_friend e dl a b ps)) = (if dl = Delivered then 1 else - 20000)"
  by (simp_all add: remote_remove_friend_def RemoteGet_snd RemoteGet_err id2rpc_funcs_def remove_links)

lemma ask_world: "add_friend_by_id e dl me k w = Some (r, w') \<Longrightarrow> same_links w w'"
  by (auto simp: add_friend_by_id_def Let_def split_beta same_links_def links_put ask_far
      split: if_splits option.splits bind_splits)

lemma chat_world: "friend_chat e dl me k m w = Some (r, w') \<Longrightarrow> same_links w w'"
  by (auto simp: friend_chat_def Let_def split_beta same_links_def links_put chat_far
      split: if_splits option.splits bind_splits)

lemma same_links_fold:
  "(\<And>k w. same_links w (f k w)) \<Longrightarrow> same_links w (fold f ks w)"
  by (induction ks arbitrary: w) (auto intro: same_links_trans)

lemma refresh_world: "check_friends_give_points_refresh e me w = Some (r, w') \<Longrightarrow> same_links w w'"
  by (auto simp: check_friends_give_points_refresh_def Let_def split_beta
      intro!: same_links_fold same_links_home same_links_trans [OF _ same_links_home]
      split: if_splits bind_splits)

lemma give_one_world: "same_links w (snd (give_one e nt me k w))"
  by (auto simp: give_one_def split_beta links_put same_links_def give_far split: option.splits g2g_resp.splits)

lemma credit_world: "same_links w v \<Longrightarrow> same_links w (home_upd me (credit_gift e k t) v)"
  by (erule same_links_trans) (simp add: same_links_home)

lemma give_loop_world: "give_loop e nt me ks n rs w = Some (rs', w') \<Longrightarrow> same_links w w'"
proof (induction ks arbitrary: n rs w)
  case (Cons k ks)
  note one = give_one_world [of w e nt me k]
  from Cons.prems show ?case
    by (auto simp: Let_def split_beta split: if_splits bind_splits
        intro: Cons.IH same_links_trans [OF one Cons.IH] same_links_trans [OF credit_world [OF one] Cons.IH])
qed simp

lemma home_upd_world: "same_links w v \<Longrightarrow> (\<And>p. friend_ids (f p) = friend_ids p) \<Longrightarrow> same_links w (home_upd k f v)"
  by (erule same_links_trans) (simp add: same_links_home)

lemma give_world: "give_friend_points e nt me ks w = Some (r, w') \<Longrightarrow> same_links w w'"
  by (auto simp: give_friend_points_def Let_def dest!: refresh_world give_loop_world
      split: if_splits bind_splits intro!: home_upd_world) (blast intro: same_links_trans)

lemma friend_ids_points_loop: "friend_ids (snd (get_points_loop ks p)) = friend_ids p"
proof (induction ks p rule: get_points_loop.induct)
  case (2 k ks p)
  have "friend_ids (FriendPoints_Set k u (snd (AddFriendPoints v p))) = friend_ids p" for u v
    by (rule friend_ids_cong) (simp add: FriendPoints_Set_def Friends_add_points)
  with 2 show ?case by (auto simp: Let_def split_beta)
qed simp

lemma points_world: "get_friend_points e me ks w = Some (r, w') \<Longrightarrow> same_links w w'"
  by (auto simp: get_friend_points_def Let_def split_beta friend_ids_points_loop dest!: refresh_world
      split: bind_splits intro!: home_upd_world)

lemma list_world: "get_friend_list e nt me w = Some (r, w') \<Longrightarrow> same_links w w'"
  by (auto simp: get_friend_list_def Let_def split_beta dest!: refresh_world
      split: bind_splits intro!: home_upd_world)

text \<open>The two handlers that change friendship.\<close>

lemma links_home_with:
  "(\<And>p. friend_ids (f p) = g (friend_ids p)) \<Longrightarrow>
     links (home (home_upd k f w)) = (links (home w))(k := map_option g (links (home w) k))"
  by (auto simp: home_upd_def links_upd_map links_def option.map_comp comp_def intro!: ext)

lemma pair_far:
  assumes "home w a \<noteq> None" "home w b = None"
    "links (home w') = (links (home w))(a := map_option (g b) (links (home w) a))"
    "links (far w') = (links (far w))(b := map_option (g a) (links (far w) b))"
  shows "same_players w w' \<and> world_links w' = pair_upd g a b (world_links w)"
proof
  have "dom (links (home w')) = dom (links (home w))" "dom (links (far w')) = dom (links (far w))"
    unfolding assms(3,4) by (auto split: if_splits)
  then show "same_players w w'" by (simp add: same_players_def dom_links)
  have "links (home w) b = None" "links (home w) a \<noteq> None" using assms(1,2) by (auto simp: links_def)
  then show "world_links w' = pair_upd g a b (world_links w)"
    by (intro ext) (auto simp: world_links_def pair_upd_def assms(3,4) id_def option.map_ident split: option.split)
qed

lemma pair_home:
  assumes "separate w" "home w a \<noteq> None" "home w b \<noteq> None" "far w' = far w"
    "links (home w') = (let L = (links (home w))(b := map_option (g a) (links (home w) b))
       in L(a := map_option (g b) (L a)))"
  shows "same_players w w' \<and> world_links w' = pair_upd g a b (world_links w)"
proof
  have "dom (links (home w')) = dom (links (home w))" unfolding assms(5) Let_def by (auto split: if_splits)
  then show "same_players w w'" by (simp add: same_players_def dom_links assms(4))
  have "links (home w) a \<noteq> None" "links (home w) b \<noteq> None" "links (far w) a = None" "links (far w) b = None"
    using assms(1-3) unfolding separate_def links_def by (metis option.map_disc_iff)+
  then show "world_links w' = pair_upd g a b (world_links w)"
    by (intro ext) (auto simp: world_links_def pair_upd_def assms(4,5) Let_def id_def option.map_ident split: option.split)
qed

lemma agree_world:
  assumes "agree_add_friend e dl me k w = Some (r, w')" "dl \<noteq> ReplyLost" "separate w"
  shows "same_links w w' \<or> same_players w w' \<and> world_links w' = connect me k (world_links w)"
proof -
  obtain p where p: "home w me = Some p" using assms(1) by (auto simp: agree_add_friend_def split: bind_splits)
  let ?R = "remote_agree_add_friend e dl p me k (far w)"
  note far = agree_far [of e dl p me k "far w"]
  consider "col_HasIndex (p_Friends p) k" | "\<not> col_HasIndex (p_Friends p) k" "home w k = None" "dl = Unreachable"
    | "\<not> col_HasIndex (p_Friends p) k" "home w k = None" "dl = Delivered"
    | ap where "\<not> col_HasIndex (p_Friends p) k" "home w k = Some ap" using assms(2) by (cases dl) auto
  then show ?thesis
  proof cases
    case 3
    with assms(1) p have w': "w' = home_upd me (\<lambda>q. Send_msg (S2CAgreeFriendResult k)
        (FriendReqs_Remove k (Friends_Add (zero_friend k) q))) (w\<lparr>far := snd ?R\<rparr>)"
      using far by (auto simp: agree_add_friend_def Let_def split_beta)
    show ?thesis
      by (intro disjI2 pair_far) (simp_all add: w' p 3 agree_far links_home_with [where g = "insert k"] friend_ids_Add zero_friend_def)
  next
    case 4
    with assms(1) p obtain g this where w': "w' = home_upd k (\<lambda>q. notify_friend_info 1 (g q this) q)
        (home_upd me (\<lambda>q. Send_msg (S2CAgreeFriendResult k) (FriendReqs_Remove k (Friends_Add
           ((zero_friend k)\<lparr>fr_LastLogin := i_LastLogin (p_Info ap)\<rparr>) q))) (home_upd k (Friends_Add (zero_friend me)) w))"
      by (auto simp: agree_add_friend_def Let_def split: bind_splits)
    show ?thesis
      by (intro disjI2 pair_home [OF assms(3)])
        (simp_all add: w' p 4 Let_def links_home_with [where g = "insert k"] links_home_with [where g = "insert me"]
          friend_ids_Add zero_friend_def)
  qed (use assms(1) p far in \<open>auto simp: agree_add_friend_def Let_def split_beta same_links_def\<close>)
qed

lemma remove_world:
  assumes "remove_friend e dl me k w = Some (r, w')" "dl \<noteq> ReplyLost" "separate w"
  shows "same_links w w' \<or> same_players w w' \<and> world_links w' = disconnect me k (world_links w)"
proof -
  obtain p where p: "home w me = Some p" using assms(1) by (auto simp: remove_friend_def split: bind_splits)
  let ?R = "remote_remove_friend e dl me k (far w)"
  note far = remove_far [of e dl me k "far w"]
  consider "\<not> col_HasIndex (p_Friends p) k" | "col_HasIndex (p_Friends p) k" "home w k = None" "dl = Unreachable"
    | "col_HasIndex (p_Friends p) k" "home w k = None" "dl = Delivered"
    | ap where "col_HasIndex (p_Friends p) k" "home w k = Some ap" using assms(2) by (cases dl) auto
  then show ?thesis
  proof cases
    case 3
    with assms(1) p have w': "w' = home_upd me (\<lambda>q. Send_msg (S2CRemoveFriendResult k) (remove_friend_data k q))
        (w\<lparr>far := snd ?R\<rparr>)"
      using far by (auto simp: remove_friend_def Let_def split_beta)
    show ?thesis
      by (intro disjI2 pair_far) (simp_all add: w' p 3 remove_far links_home_with [where g = "\<lambda>s. s - {k}"] friend_ids_remove)
  next
    case 4
    with assms(1) p have w': "w' = home_upd me (\<lambda>q. Send_msg (S2CRemoveFriendResult k) (remove_friend_data k q))
        (home_upd k (remove_friend_data me) w)"
      by (auto simp: remove_friend_def Let_def)
    show ?thesis
      by (intro disjI2 pair_home [OF assms(3)])
        (simp_all add: w' p 4 Let_def links_home_with [where g = "\<lambda>s. s - {k}"] links_home_with [where g = "\<lambda>s. s - {me}"]
          friend_ids_remove)
  qed (use assms(1) p far in \<open>auto simp: remove_friend_def Let_def split_beta same_links_def\<close>)
qed


text \<open>When the answer is lost, only the other server has done its part.\<close>

lemma far_pair:
  assumes "separate w" "links (far v) = (links (far w))(k := map_option g (links (far w) k))"
    and "home v = home w" "\<And>s. g s - {me} = s - {me}"
  shows "pair_only me k (world_links w) (world_links v) \<and> same_players w v"
proof
  have "dom (links (far v)) = dom (links (far w))" unfolding assms(2) by (auto split: if_splits)
  then show "same_players w v" by (simp add: same_players_def dom_links assms(3))
  have g: "y \<in> g s \<longleftrightarrow> y \<in> s" if "y \<noteq> me" for y s using assms(4) [of s] that by blast
  show "pair_only me k (world_links w) (world_links v)"
    unfolding pair_only_def
  proof (intro allI impI)
    fix x y assume xy: "(x, y) \<notin> {(me, k), (k, me)}"
    show "linked (world_links v) x y = linked (world_links w) x y"
    proof (cases "x = k")
      case True
      with xy g have "y \<noteq> me" by simp
      with g True show ?thesis
        by (auto simp: linked_def world_links_def assms(2,3) split: option.splits)
    qed (simp add: linked_def world_links_def assms(2,3) cong: option.case_cong)
  qed
qed

lemma agree_lost:
  assumes "agree_add_friend e ReplyLost me k w = Some (r, w')" "home w k = None" "separate w"
  shows "pair_only me k (world_links w) (world_links w') \<and> same_players w w'"
proof -
  obtain p where p: "home w me = Some p" using assms(1) by (auto simp: agree_add_friend_def split: bind_splits)
  let ?R = "remote_agree_add_friend e ReplyLost p me k (far w)"
  note far = agree_far [of e ReplyLost p me k "far w"]
  from assms(1,2) p far have "w' = w \<or> w' = w\<lparr>far := snd ?R\<rparr>"
    by (auto simp: agree_add_friend_def Let_def split_beta split: if_splits)
  moreover have "pair_only me k (world_links w) (world_links (w\<lparr>far := snd ?R\<rparr>)) \<and> same_players w (w\<lparr>far := snd ?R\<rparr>)"
    by (rule far_pair [OF assms(3), where g = "insert me"]) (simp_all add: agree_far)
  ultimately show ?thesis by (elim disjE) (simp_all add: same_players_def)
qed

lemma remove_lost:
  assumes "remove_friend e ReplyLost me k w = Some (r, w')" "home w k = None" "separate w"
  shows "pair_only me k (world_links w) (world_links w') \<and> same_players w w'"
proof -
  obtain p where p: "home w me = Some p" using assms(1) by (auto simp: remove_friend_def split: bind_splits)
  let ?R = "remote_remove_friend e ReplyLost me k (far w)"
  note far = remove_far [of e ReplyLost me k "far w"]
  from assms(1,2) p far have "w' = w \<or> w' = w\<lparr>far := snd ?R\<rparr>"
    by (auto simp: remove_friend_def Let_def split_beta split: if_splits)
  moreover have "pair_only me k (world_links w) (world_links (w\<lparr>far := snd ?R\<rparr>)) \<and> same_players w (w\<lparr>far := snd ?R\<rparr>)"
    by (rule far_pair [OF assms(3), where g = "\<lambda>s. s - {me}"]) (auto simp add: remove_far)
  ultimately show ?thesis by (elim disjE) (simp_all add: same_players_def)
qed

text \<open>A call to a player of this server does not go over the network.\<close>

lemma local_delivery:
  assumes "home w k = Some q"
  shows "agree_add_friend e dl me k w = agree_add_friend e Delivered me k w"
    "remove_friend e dl me k w = remove_friend e Delivered me k w"
  using assms by (auto simp: agree_add_friend_def remove_friend_def Let_def intro!: bind_option_cong)

subsection \<open>The steps, and symmetry\<close>

text \<open>The pairs that a remote call can leave one-sided: an agreement or a removal whose answer is lost,
  and an agreement with a player who is on neither server.\<close>

definition both_ways :: "int \<Rightarrow> int \<Rightarrow> (int \<times> int) set" where
  "both_ways a b = {(a, b), (b, a)}"

definition agree_breaks :: "delivery \<Rightarrow> int \<Rightarrow> int \<Rightarrow> world \<Rightarrow> (int \<times> int) set" where
  "agree_breaks dl me k w =
     (if home w k = None \<and> (dl = ReplyLost \<or> dl = Delivered \<and> far w k = None) then both_ways me k else {})"

definition remove_breaks :: "delivery \<Rightarrow> int \<Rightarrow> int \<Rightarrow> world \<Rightarrow> (int \<times> int) set" where
  "remove_breaks dl me k w = (if home w k = None \<and> dl = ReplyLost then both_ways me k else {})"

text \<open>
  One handler run on this server, with any fate of its remote calls and any other player, or the change
  of the point of view to the other server; and the pairs it may leave one-sided.
\<close>

inductive friend_step :: "world \<Rightarrow> (int \<times> int) set \<Rightarrow> world \<Rightarrow> bool" where
  ask: "add_friend_by_id e dl me k w = Some (r, w') \<Longrightarrow> friend_step w {} w'"
| agree: "agree_add_friend e dl me k w = Some (r, w') \<Longrightarrow> friend_step w (agree_breaks dl me k w) w'"
| refuse: "friend_step w {} (home_upd me (\<lambda>p. snd (refuse_add_friend k p)) w)"
| remove: "remove_friend e dl me k w = Some (r, w') \<Longrightarrow> friend_step w (remove_breaks dl me k w) w'"
| give: "give_friend_points e nt me ks w = Some (r, w') \<Longrightarrow> friend_step w {} w'"
| points: "get_friend_points e me ks w = Some (r, w') \<Longrightarrow> friend_step w {} w'"
| friend_list: "get_friend_list e nt me w = Some (r, w') \<Longrightarrow> friend_step w {} w'"
| chat: "friend_chat e dl me k m w = Some (r, w') \<Longrightarrow> friend_step w {} w'"
| unread_num: "friend_step w {} (home_upd me (\<lambda>p. snd (friend_get_unread_message_num ks p)) w)"
| pull: "friend_step w {} (home_upd me (\<lambda>p. snd (friend_pull_unread_message k p)) w)"
| confirm: "home w me = Some p \<Longrightarrow> friend_confirm_unread_message k n p = Some (r, q) \<Longrightarrow>
    friend_step w {} (w\<lparr>home := (home w)(me \<mapsto> q)\<rparr>)"
| other_server: "friend_step w {} \<lparr>home = far w, far = home w\<rparr>"

text \<open>A run, with all the pairs it may have left one-sided.\<close>

inductive friend_run :: "world \<Rightarrow> (int \<times> int) set \<Rightarrow> world \<Rightarrow> bool" where
  start: "friend_run w {} w"
| step: "friend_run u S v \<Longrightarrow> friend_step v T w \<Longrightarrow> friend_run u (S \<union> T) w"

lemma friend_ids_confirm: "friend_confirm_unread_message k n p = Some (r, q) \<Longrightarrow> friend_ids q = friend_ids p"
  by (auto simp: friend_confirm_unread_message_def ConfirmUnreadIds_def friend_ids_def
      split: if_splits option.splits bind_splits)

lemma friend_ids_reads [simp]:
  "friend_ids (snd (friend_get_unread_message_num ks p)) = friend_ids p"
  "friend_ids (snd (friend_pull_unread_message k p)) = friend_ids p"
  by (simp_all add: friend_get_unread_message_num_def friend_pull_unread_message_def)

lemma separate_players: "same_players w w' \<Longrightarrow> separate w \<longleftrightarrow> separate w'"
  unfolding separate_def same_players_def by (metis domIff)

lemma world_links_player: "home w k \<noteq> None \<Longrightarrow> world_links w k \<noteq> None"
  by (auto simp: world_links_def links_def split: option.split)

lemma world_links_swap: "separate w \<Longrightarrow> world_links \<lparr>home = far w, far = home w\<rparr> = world_links w"
proof (rule ext)
  fix k assume "separate w"
  then have "home w k = None \<or> far w k = None" by (simp add: separate_def)
  then show "world_links \<lparr>home = far w, far = home w\<rparr> k = world_links w k"
    by (auto simp: world_links_def links_def split: option.split)
qed

lemma separate_swap: "separate \<lparr>home = far w, far = home w\<rparr> = separate w"
  unfolding separate_def by (metis world.select_convs)

lemma agree_symmetric:
  assumes "agree_add_friend e dl me k w = Some (r, w')" "separate w" "symmetric_but S (world_links w)"
  shows "same_players w w' \<and> symmetric_but (S \<union> agree_breaks dl me k w) (world_links w')"
proof (cases "home w k = None \<and> dl = ReplyLost")
  case True
  with agree_lost [of e me k w r w'] symmetric_but_pair [OF assms(3), of me k "world_links w'"] assms(1,2) show ?thesis
    by (simp add: agree_breaks_def both_ways_def)
next
  case False
  obtain dl' where dl': "agree_add_friend e dl' me k w = Some (r, w')" "dl' \<noteq> ReplyLost"
    "home w k = None \<Longrightarrow> dl' = dl"
    using assms(1) False local_delivery(1) [of w k _ e dl me] by (cases "home w k") auto
  from assms(1) have me: "home w me \<noteq> None" by (auto simp: agree_add_friend_def split: bind_splits)
  from agree_world [OF dl'(1,2) assms(2)] show ?thesis
  proof
    assume "same_links w w'"
    then have "symmetric_but S (world_links w')" "same_players w w'"
      using assms(3) by (simp_all add: same_links_world same_links_players)
    then show ?thesis by (auto simp: symmetric_but_def)
  next
    assume c: "same_players w w' \<and> world_links w' = connect me k (world_links w)"
    show ?thesis
    proof (cases "world_links w k = None")
      case True
      then have none: "home w k = None" "far w k = None"
        by (auto simp: world_links_def links_def split: option.splits)
      show ?thesis
      proof (cases "dl = Delivered")
        case True
        with none c symmetric_but_pair [OF assms(3) pair_only_connect, of me k] show ?thesis
          by (simp add: agree_breaks_def both_ways_def)
      next
        case False
        with none dl' have "dl = Unreachable" by (cases dl) auto
        with none assms(1) have "same_links w w'"
          by (auto simp: agree_add_friend_def Let_def split_beta same_links_def agree_far split: if_splits bind_splits)
        with assms(3) show ?thesis
          by (auto simp: same_links_world same_links_players symmetric_but_def)
      qed
    next
      case False
      with c symmetric_but_connect [OF assms(3) world_links_player [OF me] False] show ?thesis
        by (auto simp: symmetric_but_def)
    qed
  qed
qed

lemma remove_symmetric:
  assumes "remove_friend e dl me k w = Some (r, w')" "separate w" "symmetric_but S (world_links w)"
  shows "same_players w w' \<and> symmetric_but (S \<union> remove_breaks dl me k w) (world_links w')"
proof (cases "home w k = None \<and> dl = ReplyLost")
  case True
  with remove_lost [of e me k w r w'] symmetric_but_pair [OF assms(3), of me k "world_links w'"] assms(1,2) show ?thesis
    by (simp add: remove_breaks_def both_ways_def)
next
  case False
  obtain dl' where dl': "remove_friend e dl' me k w = Some (r, w')" "dl' \<noteq> ReplyLost"
    using assms(1) False local_delivery(2) [of w k _ e dl me] by (cases "home w k") auto
  from remove_world [OF dl' assms(2)] symmetric_but_disconnect [OF assms(3), of me k] assms(3)
  have "same_players w w' \<and> symmetric_but S (world_links w')"
    using same_links_players same_links_world by metis
  then show ?thesis by (auto simp: symmetric_but_def)
qed

lemma friend_step_symmetric:
  assumes "friend_step w T w'" "separate w" "symmetric_but S (world_links w)"
  shows "separate w' \<and> symmetric_but (S \<union> T) (world_links w')"
  using assms(1)
proof cases
  case (agree e dl me k r)
  with agree_symmetric [OF agree(2) assms(2,3)] separate_players assms(2) show ?thesis by blast
next
  case (remove e dl me k r)
  with remove_symmetric [OF remove(2) assms(2,3)] separate_players assms(2) show ?thesis by blast
next
  case other_server
  with assms(2,3) show ?thesis by (simp add: world_links_swap separate_swap)
qed (use assms(2,3) separate_players same_links_players same_links_world in
    \<open>metis ask_world give_world points_world list_world chat_world same_links_home same_links_put
       friend_ids_frame friend_ids_reads friend_ids_confirm sup_bot_right\<close>)+

lemma friend_run_symmetric:
  "friend_run w S w' \<Longrightarrow> separate w \<Longrightarrow> symmetric (world_links w) \<Longrightarrow>
     separate w' \<and> symmetric_but S (world_links w')"
  by (induction rule: friend_run.induct) (auto simp: symmetric_def symmetric_but_def dest: friend_step_symmetric)

text \<open>
  Property C24. Friendship is symmetric over two servers with different players, but for pairs that the
  network or a missing player broke. From a state in which it is, after any sequence of the friend
  handlers, run on either server for any players and with any fate of their remote calls, whenever one
  player lists another as a friend, the other exists and lists the first, unless the pair agreed or
  parted over the network and the answer was lost, or one agreed with a player on neither server. So
  without such a call friendship is symmetric.
\<close>

theorem friendship_symmetric:
  assumes "friend_run w S w'" "separate w" "symmetric (world_links w)"
  shows "(\<forall>a b. linked (world_links w') a b \<longrightarrow> (a, b) \<in> S \<or> world_links w' b \<noteq> None \<and> linked (world_links w') b a)
    \<and> (S = {} \<longrightarrow> symmetric (world_links w'))"
proof -
  have "symmetric_but S (world_links w')" using friend_run_symmetric [OF assms] by simp
  then show ?thesis
    using linked_known [of "world_links w'"] unfolding symmetric_def symmetric_but_def by blast
qed

definition demo_pair :: world where
  "demo_pair = \<lparr>home = [1 \<mapsto> empty_player], far = [2 \<mapsto> empty_player\<lparr>p_Id := 2\<rparr>]\<rparr>"

lemmas demo_agree_simps = demo_pair_def agree_add_friend_def remote_agree_add_friend_def RemoteGetUsePB_def
  RpcCommonGet_def G2G_Get_def id2rpc_funcs_def remote_agree_add_friend_response_def col_HasIndex_def empty_player_def
  home_upd_def upd_player_def Send_msg_def emit_def FriendReqs_Remove_def col_Remove_def Friends_Add_def col_Add_def
  zero_friend_def notify_friend_info_def linked_def world_links_def links_def friend_ids_def

lemma demo_pair_separate: "separate demo_pair" and demo_pair_symmetric: "symmetric (world_links demo_pair)"
  by (auto simp: separate_def symmetric_def demo_pair_def linked_def world_links_def links_def friend_ids_def
      empty_player_def split: option.splits)

lemma friendship_symmetric_witness:
  "\<exists>w'. agree_add_friend empty_env Delivered 1 2 demo_pair = Some (1, w') \<and> linked (world_links w') 1 2 \<and>
     linked (world_links w') 2 1 \<and> symmetric (world_links w')"
proof -
  obtain w' where w': "agree_add_friend empty_env Delivered 1 2 demo_pair = Some (1, w')" "linked (world_links w') 1 2"
    by (simp add: demo_agree_simps)
  have "friend_step demo_pair (agree_breaks Delivered 1 2 demo_pair) w'" by (rule friend_step.agree [OF w'(1)])
  from friend_run.step [OF friend_run.start this] have "friend_run demo_pair {} w'"
    by (simp add: agree_breaks_def demo_pair_def)
  from friendship_symmetric [OF this demo_pair_separate demo_pair_symmetric] w' show ?thesis by blast
qed

text \<open>With the answer lost, the one who agrees gets an error and no friend, the other has a friend.\<close>

lemma lost_reply_one_sided:
  "\<exists>w'. agree_add_friend empty_env ReplyLost 1 2 demo_pair = Some (- 20000, w') \<and> linked (world_links w') 2 1 \<and>
     \<not> linked (world_links w') 1 2"
  by (simp add: demo_agree_simps)

text \<open>A message to a friend on another server always ends with an error and is never stored.\<close>

lemma remote_chat_fails:
  assumes "friend_chat e dl me k m w = Some (r, w')" "home w k = None"
  shows "r < 0 \<and> w' = w"
  using assms
  by (auto simp: friend_chat_def remote_friend_chat_def RemoteGetUsePB_def RpcCommonGet_def G2G_Get_def
      id2rpc_funcs_def Let_def split: if_splits bind_splits)

end
