(* ===== verification/FriendChat.thy ===== *)
theory FriendChat
  imports Friends
begin

text \<open>
  The unread messages one friend has left, as a queue. The code keeps them in two columns: the
  message ids in order with a running id that wraps at 200, and the messages under a key that packs
  the friend's id with the message id. \<open>conversation\<close> is what they mean, \<open>q_write\<close> and \<open>q_confirm\<close> what
  the operations do to it; the property is that the code does the same on every history.
\<close>

subsection \<open>Keys\<close>

lemma word_of_int_32: "0 \<le> x \<Longrightarrow> x \<le> max32 \<Longrightarrow> sint (word_of_int x :: 32 word) = x"
  by (simp add: sint_sbintrunc' signed_take_bit_int_eq_self)

lemma message_key_eq:
  assumes "0 \<le> f" "f \<le> max32" "0 \<le> a" "a \<le> max32" "0 \<le> g" "g \<le> max32" "0 \<le> b" "b \<le> max32"
  shows "message_key f a = message_key g b \<longleftrightarrow> f = g \<and> a = b"
proof
  assume "message_key f a = message_key g b"
  then have "Int64From2Int32 (word_of_int f) (word_of_int a) = Int64From2Int32 (word_of_int g) (word_of_int b)"
    unfolding message_key_def by (rule signed_word_eqI)
  moreover have "TwoInt32FromInt64 (Int64From2Int32 (word_of_int x) (word_of_int y)) = (word_of_int x, word_of_int y)"
    if "0 \<le> x" "x \<le> max32" "0 \<le> y" "y \<le> max32" for x y
    using that by (intro codec_inverse) (simp_all add: word_sle_eq word_of_int_32)
  ultimately have "(word_of_int f :: 32 word) = word_of_int g" "(word_of_int a :: 32 word) = word_of_int b"
    using assms by (metis prod.inject)+
  then show "f = g \<and> a = b" using assms by (metis word_of_int_32)
qed simp

subsection \<open>The ids of a conversation\<close>

definition run_ids :: "int \<Rightarrow> nat \<Rightarrow> int list" where
  "run_ids c n = map (\<lambda>i. (c - int n + int i) mod 200 + 1) [0..<n]"

definition conv_ok :: "chat_ids_data \<Rightarrow> bool" where
  "conv_ok d \<longleftrightarrow> cd_CurrMessageId d = 0 \<and> (cd_MessageIds d = [] \<or> cd_MessageIds d = [1]) \<or>
     1 \<le> cd_CurrMessageId d \<and> cd_CurrMessageId d \<le> 200 \<and> length (cd_MessageIds d) \<le> 200 \<and>
     cd_MessageIds d = run_ids (cd_CurrMessageId d) (length (cd_MessageIds d))"

lemma length_run_ids [simp]: "length (run_ids c n) = n"
  by (simp add: run_ids_def)

lemma run_ids_range: "x \<in> set (run_ids c n) \<Longrightarrow> 1 \<le> x \<and> x \<le> 200"
  by (auto simp: run_ids_def intro: pos_mod_bound [THEN zless_imp_add1_zle] simp flip: add1_zle_eq)

lemma mod_200_distinct: "0 < k \<Longrightarrow> k < 200 \<Longrightarrow> (x - k) mod 200 \<noteq> x mod (200 :: int)"
  by (auto simp: mod_eq_dvd_iff dest: zdvd_imp_le)

lemma run_ids_distinct:
  assumes "n \<le> 200"
  shows "distinct (run_ids c n)"
  unfolding run_ids_def distinct_map
proof (intro conjI inj_onI)
  fix i j assume ij: "i \<in> set [0..<n]" "j \<in> set [0..<n]"
    and eq: "(c - int n + int i) mod 200 + 1 = (c - int n + int j) mod 200 + 1"
  show "i = j"
  proof (rule ccontr)
    assume "i \<noteq> j"
    then consider "i < j" | "j < i" by linarith
    then show False
    proof cases
      case 1
      have "c - int n + int i = (c - int n + int j) - (int j - int i)" by simp
      with 1 ij assms eq show False using mod_200_distinct [of "int j - int i" "c - int n + int j"] by auto
    next
      case 2
      have "c - int n + int j = (c - int n + int i) - (int i - int j)" by simp
      with 2 ij assms eq show False using mod_200_distinct [of "int i - int j" "c - int n + int i"] by auto
    qed
  qed
qed simp

text \<open>The id after the running one.\<close>

definition next_id :: "int \<Rightarrow> int" where
  "next_id c = (if 200 \<le> c then 1 else c + 1)"

lemma next_id_mod: "0 \<le> c \<Longrightarrow> c \<le> 200 \<Longrightarrow> next_id c = c mod 200 + 1"
  by (auto simp: next_id_def)

lemma next_id_fresh:
  assumes "1 \<le> c" "c \<le> 200" "n < 200"
  shows "next_id c \<notin> set (run_ids c n)"
proof
  assume "next_id c \<in> set (run_ids c n)"
  then obtain i where "i < n" "(c - int n + int i) mod 200 = c mod 200"
    using assms by (auto simp: run_ids_def next_id_mod)
  moreover have "c - int n + int i = c - (int n - int i)" by simp
  ultimately show False using assms(3) mod_200_distinct [of "int n - int i" c] by auto
qed

lemma run_ids_append:
  assumes "1 \<le> c" "c \<le> 200"
  shows "run_ids c n @ [next_id c] = run_ids (next_id c) (Suc n)"
proof -
  have "(next_id c - int (Suc n) + int i) mod 200 = (c - int n + int i) mod 200" for i
    using assms by (auto simp: next_id_def mod_eq_dvd_iff)
  then show ?thesis using assms by (simp add: run_ids_def next_id_mod)
qed

lemma run_ids_drop: "m \<le> n \<Longrightarrow> drop m (run_ids c n) = run_ids c (n - m)"
  by (rule nth_equalityI) (auto simp: run_ids_def of_nat_diff algebra_simps)


subsection \<open>The queue a conversation is\<close>

text \<open>Before the first message, after it, and from the second one on. The first message gets the id 1
  and leaves the running id at 0, so the second is given the id 1 again: while the first is unread
  the second is refused.\<close>

datatype phase = NoMessage | FirstMessage | Running

type_synonym conv = "(string \<times> int) list \<times> phase"

definition q_write :: "string \<times> int \<Rightarrow> conv \<Rightarrow> int \<times> conv" where
  "q_write m c =
     (case c of (queue, phase) \<Rightarrow>
        if 200 \<le> length queue then (E_ERR_FRIEND_MESSAGE_NUM_MAX, c)
        else case phase of
            NoMessage \<Rightarrow> (1, (queue @ [m], FirstMessage))
          | FirstMessage \<Rightarrow> (if queue = [] then (1, ([m], Running)) else (- 1, (queue, Running)))
          | Running \<Rightarrow> (1, (queue @ [m], Running)))"

definition q_confirm :: "int \<Rightarrow> conv \<Rightarrow> int \<times> conv" where
  "q_confirm n c =
     (case c of (queue, phase) \<Rightarrow>
        if phase = NoMessage then (E_ERR_FRIEND_NO_UNREAD_MESSAGE, c)
        else (1, (if n = 0 then [] else drop (nat n) queue, phase)))"

definition conversation :: "player \<Rightarrow> int \<Rightarrow> conv" where
  "conversation p f = (unread_messages p f,
     case map_of (p_FriendChatUnreadIds p) f of None \<Rightarrow> NoMessage
     | Some d \<Rightarrow> if cd_CurrMessageId d = 0 then FirstMessage else Running)"

text \<open>What holds of the two columns between the operations.\<close>

definition inbox_ok :: "player \<Rightarrow> bool" where
  "inbox_ok p \<longleftrightarrow>
     (\<forall>f d. map_of (p_FriendChatUnreadIds p) f = Some d \<longrightarrow> 0 \<le> f \<and> f \<le> max32 \<and> conv_ok d) \<and>
     (\<forall>key. map_of (p_FriendChatUnreadMessages p) key \<noteq> None \<longleftrightarrow>
        (\<exists>f d mid. map_of (p_FriendChatUnreadIds p) f = Some d \<and> mid \<in> set (cd_MessageIds d) \<and>
           key = message_key f mid))"

lemma conv_ok_ids:
  assumes "conv_ok d"
  shows "distinct (cd_MessageIds d)" "length (cd_MessageIds d) \<le> 200" "x \<in> set (cd_MessageIds d) \<Longrightarrow> 1 \<le> x \<and> x \<le> 200"
proof -
  from assms consider "cd_MessageIds d = []" | "cd_MessageIds d = [1]"
    | "length (cd_MessageIds d) \<le> 200" "cd_MessageIds d = run_ids (cd_CurrMessageId d) (length (cd_MessageIds d))"
    by (auto simp: conv_ok_def)
  then have "distinct (cd_MessageIds d) \<and> length (cd_MessageIds d) \<le> 200 \<and> (\<forall>x\<in>set (cd_MessageIds d). 1 \<le> x \<and> x \<le> 200)"
  proof cases
    case 3
    then show ?thesis by (metis run_ids_distinct run_ids_range)
  qed simp_all
  then show "distinct (cd_MessageIds d)" "length (cd_MessageIds d) \<le> 200" "x \<in> set (cd_MessageIds d) \<Longrightarrow> 1 \<le> x \<and> x \<le> 200"
    by blast+
qed

lemma inbox_okD:
  assumes "inbox_ok p" "map_of (p_FriendChatUnreadIds p) f = Some d"
  shows "0 \<le> f" "f \<le> max32" "conv_ok d" "mid \<in> set (cd_MessageIds d) \<Longrightarrow> 0 \<le> mid \<and> mid \<le> max32"
  using assms conv_ok_ids(3) [of d mid] by (auto simp: inbox_ok_def)

lemma inbox_messages:
  assumes "inbox_ok p"
  shows "map_of (p_FriendChatUnreadMessages p) key \<noteq> None \<longleftrightarrow>
    (\<exists>f d mid. map_of (p_FriendChatUnreadIds p) f = Some d \<and> mid \<in> set (cd_MessageIds d) \<and>
       key = message_key f mid)"
  using assms unfolding inbox_ok_def by blast

lemma inbox_stored:
  assumes "inbox_ok p" "0 \<le> f" "f \<le> max32" "1 \<le> mid" "mid \<le> 200"
  shows "map_of (p_FriendChatUnreadMessages p) (message_key f mid) \<noteq> None \<longleftrightarrow>
    (\<exists>d. map_of (p_FriendChatUnreadIds p) f = Some d \<and> mid \<in> set (cd_MessageIds d))"
proof -
  have "g = f \<and> m = mid" if "message_key f mid = message_key g m" "map_of (p_FriendChatUnreadIds p) g = Some d"
    "m \<in> set (cd_MessageIds d)" for g d m
    using inbox_okD [OF assms(1) that(2)] that(1,3) assms message_key_eq [of f mid g m] by fastforce
  then show ?thesis using assms(1) unfolding inbox_ok_def by metis
qed

text \<open>One conversation changes and its messages with it.\<close>

lemma inbox_change:
  assumes ok: "inbox_ok p" and f: "0 \<le> f" "f \<le> max32" and d: "conv_ok d"
    and ids: "map_of (p_FriendChatUnreadIds q) = (map_of (p_FriendChatUnreadIds p))(f \<mapsto> d)"
    and own: "\<And>mid. 1 \<le> mid \<Longrightarrow> mid \<le> 200 \<Longrightarrow>
      map_of (p_FriendChatUnreadMessages q) (message_key f mid) \<noteq> None \<longleftrightarrow> mid \<in> set (cd_MessageIds d)"
    and others: "\<And>key. (\<And>mid. 1 \<le> mid \<Longrightarrow> mid \<le> 200 \<Longrightarrow> key \<noteq> message_key f mid) \<Longrightarrow>
      map_of (p_FriendChatUnreadMessages q) key = map_of (p_FriendChatUnreadMessages p) key"
  shows "inbox_ok q"
  unfolding inbox_ok_def
proof (intro conjI allI impI)
  fix g x assume "map_of (p_FriendChatUnreadIds q) g = Some x"
  then show "0 \<le> g" "g \<le> max32" "conv_ok x" using ids f d inbox_okD [OF ok] by (auto split: if_splits)
next
  fix key
  have mids: "1 \<le> mid \<and> mid \<le> 200" if "mid \<in> set (cd_MessageIds d)" for mid using conv_ok_ids(3) [OF d that] .
  show "map_of (p_FriendChatUnreadMessages q) key \<noteq> None \<longleftrightarrow> (\<exists>g x mid. map_of (p_FriendChatUnreadIds q) g = Some x \<and>
      mid \<in> set (cd_MessageIds x) \<and> key = message_key g mid)" (is "?L \<longleftrightarrow> ?R")
  proof (cases "\<exists>mid. 1 \<le> mid \<and> mid \<le> 200 \<and> key = message_key f mid")
    case True
    then obtain mid where mid: "1 \<le> mid" "mid \<le> 200" "key = message_key f mid" by blast
    have "?R \<longleftrightarrow> mid \<in> set (cd_MessageIds d)"
    proof
      assume ?R
      then obtain g x m where g: "map_of (p_FriendChatUnreadIds q) g = Some x" "m \<in> set (cd_MessageIds x)"
        "message_key f mid = message_key g m" using mid(3) by metis
      have "0 \<le> g \<and> g \<le> max32 \<and> 0 \<le> m \<and> m \<le> max32"
        using g(1,2) ids f mids [of m] inbox_okD(1,2) [OF ok, of g x] inbox_okD(4) [OF ok, of g x m] by (cases "g = f") fastforce+
      with g(3) f mid have "g = f" "m = mid" using message_key_eq [of f mid g m] by auto
      with g ids show "mid \<in> set (cd_MessageIds d)" by simp
    next
      assume "mid \<in> set (cd_MessageIds d)"
      then show ?R using mid(3) ids by auto
    qed
    with own [OF mid(1,2)] mid(3) show ?thesis by simp
  next
    case False
    have "?R \<longleftrightarrow> (\<exists>g x mid. map_of (p_FriendChatUnreadIds p) g = Some x \<and> mid \<in> set (cd_MessageIds x) \<and>
        key = message_key g mid)"
    proof -
      have "mid \<in> set (cd_MessageIds x) \<Longrightarrow> key \<noteq> message_key f mid" if "map_of (p_FriendChatUnreadIds p) f = Some x \<or> x = d" for x mid
        using that False conv_ok_ids(3) [of x mid] inbox_okD(3) [OF ok, of f x] d by blast
      then show ?thesis unfolding ids by (metis fun_upd_apply option.inject)
    qed
    moreover have "map_of (p_FriendChatUnreadMessages q) key = map_of (p_FriendChatUnreadMessages p) key"
      using False by (intro others) blast
    ultimately show ?thesis using inbox_messages [OF ok, of key] by simp
  qed
qed

lemma map_filter_cong: "(\<And>x. x \<in> set xs \<Longrightarrow> f x = g x) \<Longrightarrow> List.map_filter f xs = List.map_filter g xs"
  by (induction xs) (auto simp: List.map_filter_simps cong: option.case_cong)

lemma conversation_other:
  assumes ok: "inbox_ok p" and f: "0 \<le> f" "f \<le> max32" and g: "g \<noteq> f"
    and ids: "map_of (p_FriendChatUnreadIds q) g = map_of (p_FriendChatUnreadIds p) g"
    and others: "\<And>key. (\<And>mid. 1 \<le> mid \<Longrightarrow> mid \<le> 200 \<Longrightarrow> key \<noteq> message_key f mid) \<Longrightarrow>
      map_of (p_FriendChatUnreadMessages q) key = map_of (p_FriendChatUnreadMessages p) key"
  shows "conversation q g = conversation p g"
proof (cases "map_of (p_FriendChatUnreadIds p) g")
  case (Some x)
  have "map_of (p_FriendChatUnreadMessages q) (message_key g m) = map_of (p_FriendChatUnreadMessages p) (message_key g m)"
    if "m \<in> set (cd_MessageIds x)" for m
  proof (rule others)
    fix mid :: int assume mid: "1 \<le> mid" "mid \<le> 200"
    with inbox_okD(1,2) [OF ok Some] inbox_okD(4) [OF ok Some that] f g
    show "message_key g m \<noteq> message_key f mid" using message_key_eq [of g m f mid] by auto
  qed
  with Some ids show ?thesis by (auto simp: conversation_def unread_messages_def col_simps intro!: map_filter_cong)
qed (simp add: conversation_def unread_messages_def col_simps ids)


subsection \<open>The operations follow the queue\<close>

lemma map_filter_append: "List.map_filter f (xs @ ys) = List.map_filter f xs @ List.map_filter f ys"
  by (induction xs) (auto simp: List.map_filter_simps split: option.split)

lemma map_filter_total:
  "(\<And>x. x \<in> set xs \<Longrightarrow> f x \<noteq> None) \<Longrightarrow> length (List.map_filter f xs) = length xs \<and>
     drop n (List.map_filter f xs) = List.map_filter f (drop n xs)"
proof (induction xs arbitrary: n)
  case (Cons x xs)
  then show ?case by (cases n) (auto simp: List.map_filter_simps split: option.split)
qed (simp add: List.map_filter_simps)

lemma stored_messages:
  assumes "inbox_ok p" "map_of (p_FriendChatUnreadIds p) f = Some d" "mid \<in> set (cd_MessageIds d)"
  shows "map_of (p_FriendChatUnreadMessages p) (message_key f mid) \<noteq> None"
  using assms unfolding inbox_ok_def by metis

lemma length_unread:
  assumes "inbox_ok p" "map_of (p_FriendChatUnreadIds p) f = Some d"
  shows "length (unread_messages p f) = length (cd_MessageIds d)"
    and "drop n (unread_messages p f) = List.map_filter (\<lambda>mid. map_option (\<lambda>m. (cm_Message m, cm_SendTime m))
             (map_of (p_FriendChatUnreadMessages p) (message_key f mid))) (drop n (cd_MessageIds d))"
  using map_filter_total [of "cd_MessageIds d" "\<lambda>mid. map_option (\<lambda>m. (cm_Message m, cm_SendTime m))
     (map_of (p_FriendChatUnreadMessages p) (message_key f mid))"] stored_messages [OF assms] assms(2)
  by (auto simp: unread_messages_def col_simps)

text \<open>A message stored under the next id, its conversation grown by that id.\<close>

lemma chat_stored:
  fixes m :: chat_message_data
  assumes ok: "inbox_ok p" and f: "0 \<le> f" "f \<le> max32" and mid: "1 \<le> mid" "mid \<le> 200"
    and ids: "map_of (p_FriendChatUnreadIds q) = (map_of (p_FriendChatUnreadIds p))(f \<mapsto> d)"
    and msgs: "map_of (p_FriendChatUnreadMessages q) = (map_of (p_FriendChatUnreadMessages p))(message_key f mid \<mapsto> m)"
    and old: "old = (case map_of (p_FriendChatUnreadIds p) f of None \<Rightarrow> [] | Some x \<Rightarrow> cd_MessageIds x)"
    and d: "conv_ok d" "cd_MessageIds d = old @ [mid]"
  shows "inbox_ok q" "unread_messages q f = unread_messages p f @ [(cm_Message m, cm_SendTime m)]"
    "g \<noteq> f \<Longrightarrow> conversation q g = conversation p g"
proof -
  have key: "message_key f x = message_key f mid \<longleftrightarrow> x = mid" if "0 \<le> x" "x \<le> max32" for x
    using message_key_eq [of f x f mid] f mid that by auto
  have others: "map_of (p_FriendChatUnreadMessages q) k = map_of (p_FriendChatUnreadMessages p) k"
    if "\<And>mid. 1 \<le> mid \<Longrightarrow> mid \<le> 200 \<Longrightarrow> k \<noteq> message_key f mid" for k
    using that [OF mid] by (simp add: msgs)
  show "inbox_ok q"
  proof (rule inbox_change [OF ok f d(1) ids])
    fix x :: int assume x: "1 \<le> x" "x \<le> 200"
    then show "map_of (p_FriendChatUnreadMessages q) (message_key f x) \<noteq> None \<longleftrightarrow> x \<in> set (cd_MessageIds d)"
      using inbox_stored [OF ok f x] key [of x] by (auto simp: msgs d old split: option.splits)
  qed (rule others)
  show "g \<noteq> f \<Longrightarrow> conversation q g = conversation p g"
    by (rule conversation_other [OF ok f _ _ others]) (simp_all add: ids)
  have "x \<noteq> mid \<and> 0 \<le> x \<and> x \<le> max32" if "x \<in> set old" for x
    using conv_ok_ids(1) [OF d(1)] conv_ok_ids(3) [OF d(1), of x] that by (auto simp: d(2))
  then have "map_of (p_FriendChatUnreadMessages q) (message_key f x) = map_of (p_FriendChatUnreadMessages p) (message_key f x)"
    if "x \<in> set old" for x using that key by (auto simp: msgs)
  moreover have "unread_messages p f = List.map_filter (\<lambda>mid. map_option (\<lambda>m. (cm_Message m, cm_SendTime m))
     (map_of (p_FriendChatUnreadMessages p) (message_key f mid))) old"
    by (auto simp: unread_messages_def col_simps old List.map_filter_simps split: option.split)
  moreover have "unread_messages q f = List.map_filter (\<lambda>mid. map_option (\<lambda>m. (cm_Message m, cm_SendTime m))
     (map_of (p_FriendChatUnreadMessages q) (message_key f mid))) (old @ [mid])"
    by (simp add: unread_messages_def col_simps ids d(2))
  ultimately show "unread_messages q f = unread_messages p f @ [(cm_Message m, cm_SendTime m)]"
    by (simp add: map_filter_append List.map_filter_simps msgs cong: map_filter_cong)
qed


lemma next_id_i32: "0 \<le> c \<Longrightarrow> c \<le> 200 \<Longrightarrow> (if FRIEND_UNREAD_MESSAGE_MAX_NUM \<le> c then 1 else i32 (c + 1)) = next_id c"
  by (simp add: next_id_def FRIEND_UNREAD_MESSAGE_MAX_NUM_def i32_range_id)

lemma next_id_range: "0 \<le> c \<Longrightarrow> 1 \<le> next_id c \<and> next_id c \<le> 200"
  by (simp add: next_id_def)

lemma conv_ok_next:
  assumes "conv_ok d" "length (cd_MessageIds d) < 200"
  shows "next_id (cd_CurrMessageId d) \<in> set (cd_MessageIds d) \<longleftrightarrow> cd_CurrMessageId d = 0 \<and> cd_MessageIds d \<noteq> []"
    and "next_id (cd_CurrMessageId d) \<notin> set (cd_MessageIds d) \<Longrightarrow>
      conv_ok (d\<lparr>cd_CurrMessageId := next_id (cd_CurrMessageId d),
        cd_MessageIds := cd_MessageIds d @ [next_id (cd_CurrMessageId d)]\<rparr>)"
    and "next_id (cd_CurrMessageId d) \<in> set (cd_MessageIds d) \<Longrightarrow> conv_ok (d\<lparr>cd_CurrMessageId := next_id (cd_CurrMessageId d)\<rparr>)"
    and "0 \<le> cd_CurrMessageId d" "cd_CurrMessageId d \<le> 200"
proof -
  let ?c = "cd_CurrMessageId d" and ?ids = "cd_MessageIds d"
  consider "?c = 0" "?ids = []" | "?c = 0" "?ids = [1]"
    | "1 \<le> ?c" "?c \<le> 200" "?ids = run_ids ?c (length ?ids)"
    using assms(1) by (auto simp: conv_ok_def)
  then have "(next_id ?c \<in> set ?ids \<longleftrightarrow> ?c = 0 \<and> ?ids \<noteq> []) \<and>
    (next_id ?c \<notin> set ?ids \<longrightarrow> conv_ok (d\<lparr>cd_CurrMessageId := next_id ?c, cd_MessageIds := ?ids @ [next_id ?c]\<rparr>)) \<and>
    (next_id ?c \<in> set ?ids \<longrightarrow> conv_ok (d\<lparr>cd_CurrMessageId := next_id ?c\<rparr>)) \<and> 0 \<le> ?c \<and> ?c \<le> 200"
  proof cases
    case 3
    from next_id_fresh [OF 3(1,2) assms(2)] have "next_id ?c \<notin> set ?ids" using 3(3) by metis
    moreover have "?ids @ [next_id ?c] = run_ids (next_id ?c) (Suc (length ?ids))"
      using run_ids_append [OF 3(1,2), of "length ?ids"] 3(3) by simp
    ultimately show ?thesis using 3(1,2) assms(2) next_id_range [of ?c] by (auto simp: conv_ok_def)
  qed (auto simp: conv_ok_def next_id_def run_ids_def)
  then show "next_id ?c \<in> set ?ids \<longleftrightarrow> ?c = 0 \<and> ?ids \<noteq> []"
    "next_id ?c \<notin> set ?ids \<Longrightarrow> conv_ok (d\<lparr>cd_CurrMessageId := next_id ?c, cd_MessageIds := ?ids @ [next_id ?c]\<rparr>)"
    "next_id ?c \<in> set ?ids \<Longrightarrow> conv_ok (d\<lparr>cd_CurrMessageId := next_id ?c\<rparr>)" "0 \<le> ?c" "?c \<le> 200" by blast+
qed

lemma chat_write:
  assumes ok: "inbox_ok p" and f: "0 \<le> f" "f \<le> max32" and run: "friend_chat_add e f m p = (r, q)"
  shows "inbox_ok q" "q_write (m, i32 (now e)) (conversation p f) = (r, conversation q f)"
    "g \<noteq> f \<Longrightarrow> conversation q g = conversation p g" "p_Friends q = p_Friends p"
proof -
  let ?m = "\<lambda>k. \<lparr>cm_PlayerMessageId = k, cm_Message = m, cm_SendTime = i32 (now e), cm_IsRead = 0\<rparr>"
  have "inbox_ok q \<and> q_write (m, i32 (now e)) (conversation p f) = (r, conversation q f) \<and>
    (\<forall>g. g \<noteq> f \<longrightarrow> conversation q g = conversation p g) \<and> p_Friends q = p_Friends p"
  proof (cases "map_of (p_FriendChatUnreadIds p) f")
    case None
    let ?d = "\<lparr>cd_FriendId = f, cd_MessageIds = [1], cd_CurrMessageId = 0\<rparr>"
    let ?k = "message_key f 1"
    have "map_of (p_FriendChatUnreadMessages p) ?k = None" using inbox_stored [OF ok f, of 1] None by auto
    with run None have q: "r = 1" "q = p\<lparr>p_FriendChatUnreadMessages := AList.update ?k (?m ?k) (p_FriendChatUnreadMessages p),
        p_FriendChatUnreadIds := AList.update f ?d (p_FriendChatUnreadIds p)\<rparr>"
      by (auto simp: friend_chat_add_def CheckUnreadNumFull_def AddNewMessageId_def Let_def col_simps col_Add_def)
    note st = chat_stored [OF ok f, of 1 q ?d "?m ?k" "[]"]
    have "inbox_ok q" "unread_messages q f = unread_messages p f @ [(m, i32 (now e))]"
      "\<forall>g. g \<noteq> f \<longrightarrow> conversation q g = conversation p g"
      using st None by (auto simp: q col_simps conv_ok_def)
    moreover have "unread_messages p f = []" by (simp add: unread_messages_def col_simps None)
    ultimately show ?thesis using None by (simp add: q_write_def conversation_def q col_simps)
  next
    case (Some d)
    note conv = inbox_okD(3) [OF ok Some] and len = length_unread(1) [OF ok Some]
    show ?thesis
    proof (cases "length (cd_MessageIds d) < 200")
      case False
      with run Some have "r = E_ERR_FRIEND_MESSAGE_NUM_MAX" "q = p"
        by (auto simp: friend_chat_add_def CheckUnreadNumFull_def FRIEND_UNREAD_MESSAGE_MAX_NUM_def col_simps)
      with False ok show ?thesis by (simp add: q_write_def conversation_def len)
    next
      case True
      let ?c = "next_id (cd_CurrMessageId d)"
      let ?k = "message_key f ?c"
      note nxt = conv_ok_next [OF conv True]
      let ?d = "d\<lparr>cd_CurrMessageId := ?c\<rparr>"
      have check: "CheckUnreadNumFull f p = ((False, ?c), p\<lparr>p_FriendChatUnreadIds := AList.update f ?d (p_FriendChatUnreadIds p)\<rparr>)"
        using True Some next_id_i32 [OF nxt(4,5)]
        by (simp add: CheckUnreadNumFull_def col_simps Let_def FRIEND_UNREAD_MESSAGE_MAX_NUM_def)
      have stored: "map_of (p_FriendChatUnreadMessages p) ?k \<noteq> None \<longleftrightarrow> ?c \<in> set (cd_MessageIds d)"
        using inbox_stored [OF ok f] next_id_range [OF nxt(4)] Some by auto
      have c0: "?c \<noteq> 0" using next_id_range [OF nxt(4)] by simp
      show ?thesis
      proof (cases "?c \<in> set (cd_MessageIds d)")
        case in_use: True
        with run check stored have q: "r = - 1" "q = p\<lparr>p_FriendChatUnreadIds := AList.update f ?d (p_FriendChatUnreadIds p)\<rparr>"
          by (auto simp: friend_chat_add_def Let_def col_Add_def col_simps)
        have own: "map_of (p_FriendChatUnreadMessages q) (message_key f mid) \<noteq> None \<longleftrightarrow> mid \<in> set (cd_MessageIds ?d)"
          if "1 \<le> mid" "mid \<le> 200" for mid using inbox_stored [OF ok f that] Some by (simp add: q)
        have "inbox_ok q"
          by (rule inbox_change [OF ok f nxt(3) [OF in_use] _ own]) (simp_all add: q col_simps)
        moreover have "\<forall>g. g \<noteq> f \<longrightarrow> conversation q g = conversation p g"
          using conversation_other [OF ok f, of _ q] by (simp add: q col_simps)
        moreover have "unread_messages q f = unread_messages p f" by (simp add: unread_messages_def q col_simps Some)
        moreover have "unread_messages p f \<noteq> []" using nxt(1) in_use len by auto
        ultimately show ?thesis using nxt(1) in_use True c0
          by (auto simp: q_write_def conversation_def q col_simps Some len)
      next
        case free: False
        let ?e = "?d\<lparr>cd_MessageIds := cd_MessageIds d @ [?c]\<rparr>"
        from free run check stored True have q: "r = 1"
          "map_of (p_FriendChatUnreadIds q) = (map_of (p_FriendChatUnreadIds p))(f \<mapsto> ?e)"
          "map_of (p_FriendChatUnreadMessages q) = (map_of (p_FriendChatUnreadMessages p))(?k \<mapsto> ?m ?k)"
          "p_Friends q = p_Friends p"
          by (auto simp: friend_chat_add_def Let_def col_Add_def col_simps AddNewMessageId_def
              FRIEND_UNREAD_MESSAGE_MAX_NUM_def)
        have "conv_ok ?e" using nxt(2) [OF free] by simp
        note st = chat_stored [OF ok f conjunct1 [OF next_id_range] conjunct2 [OF next_id_range] q(2,3) _ this, OF nxt(4,4)]
        have "inbox_ok q" "unread_messages q f = unread_messages p f @ [(m, i32 (now e))]"
          "\<forall>g. g \<noteq> f \<longrightarrow> conversation q g = conversation p g"
          using st [of "cd_MessageIds d"] Some by auto
        then show ?thesis using free nxt(1) True len c0
          by (auto simp: q_write_def conversation_def q Some)
      qed
    qed
  qed
  then show "inbox_ok q" "q_write (m, i32 (now e)) (conversation p f) = (r, conversation q f)"
    "g \<noteq> f \<Longrightarrow> conversation q g = conversation p g" "p_Friends q = p_Friends p" by blast+
qed


lemma conv_ok_drop: "conv_ok d \<Longrightarrow> conv_ok (d\<lparr>cd_MessageIds := drop k (cd_MessageIds d)\<rparr>)"
proof -
  assume "conv_ok d"
  then consider "cd_CurrMessageId d = 0" "cd_MessageIds d = [] \<or> cd_MessageIds d = [1]"
    | "1 \<le> cd_CurrMessageId d" "cd_CurrMessageId d \<le> 200" "length (cd_MessageIds d) \<le> 200"
      "cd_MessageIds d = run_ids (cd_CurrMessageId d) (length (cd_MessageIds d))"
    unfolding conv_ok_def by blast
  then show ?thesis
  proof cases
    case 1
    then show ?thesis by (cases k) (auto simp: conv_ok_def)
  next
    case 2
    have "drop k (cd_MessageIds d) = run_ids (cd_CurrMessageId d) (length (drop k (cd_MessageIds d)))"
    proof (cases "k \<le> length (cd_MessageIds d)")
      case True
      from run_ids_drop [OF this, of "cd_CurrMessageId d"] 2(4) show ?thesis by simp
    qed (simp add: run_ids_def)
    with 2 show ?thesis by (simp add: conv_ok_def)
  qed
qed

lemma map_of_RemoveMessages:
  "map_of (p_FriendChatUnreadMessages (RemoveMessages f mids p)) key =
     (if key \<in> message_key f ` set mids then None else map_of (p_FriendChatUnreadMessages p) key)"
proof -
  have "map_of (fold (\<lambda>mid m. col_Remove (message_key f mid) m) mids ms) key =
     (if key \<in> message_key f ` set mids then None else map_of ms key)" for ms :: "(int \<times> chat_message_data) list"
    by (induction mids arbitrary: ms) (auto simp: col_simps)
  then show ?thesis by (simp add: RemoveMessages_def)
qed

lemma set_drop_distinct: "distinct xs \<Longrightarrow> x \<in> set (drop k xs) \<longleftrightarrow> x \<in> set xs \<and> x \<notin> set (take k xs)"
  using set_take_disj_set_drop_if_distinct [of xs k k] set_append [of "take k xs" "drop k xs"] by auto

text \<open>The first \<open>k\<close> messages of a conversation removed.\<close>

lemma chat_removed:
  assumes ok: "inbox_ok p" and f: "0 \<le> f" "f \<le> max32" and d: "map_of (p_FriendChatUnreadIds p) f = Some d"
    and ids: "map_of (p_FriendChatUnreadIds q) =
      (map_of (p_FriendChatUnreadIds p))(f \<mapsto> d\<lparr>cd_MessageIds := drop k (cd_MessageIds d)\<rparr>)"
    and msgs: "\<And>key. map_of (p_FriendChatUnreadMessages q) key =
      (if key \<in> message_key f ` set (take k (cd_MessageIds d)) then None else map_of (p_FriendChatUnreadMessages p) key)"
  shows "inbox_ok q" "unread_messages q f = drop k (unread_messages p f)"
    "g \<noteq> f \<Longrightarrow> conversation q g = conversation p g"
proof -
  note conv = inbox_okD(3) [OF ok d]
  note range = conv_ok_ids(3) [OF conv] and dist = set_drop_distinct [OF conv_ok_ids(1) [OF conv], of _ k]
  have key: "message_key f x \<in> message_key f ` set (take k (cd_MessageIds d)) \<longleftrightarrow> x \<in> set (take k (cd_MessageIds d))"
    if "1 \<le> x" "x \<le> 200" for x
  proof
    assume "message_key f x \<in> message_key f ` set (take k (cd_MessageIds d))"
    then obtain y where y: "y \<in> set (take k (cd_MessageIds d))" "message_key f x = message_key f y" by blast
    with message_key_eq [of f x f y] f that range [OF in_set_takeD [OF y(1)]] show "x \<in> set (take k (cd_MessageIds d))"
      by simp
  qed simp
  have others: "map_of (p_FriendChatUnreadMessages q) k' = map_of (p_FriendChatUnreadMessages p) k'"
    if "\<And>mid. 1 \<le> mid \<Longrightarrow> mid \<le> 200 \<Longrightarrow> k' \<noteq> message_key f mid" for k'
    using that range by (auto simp: msgs dest!: in_set_takeD)
  show "inbox_ok q"
  proof (rule inbox_change [OF ok f conv_ok_drop [OF conv] ids])
    fix x :: int assume x: "1 \<le> x" "x \<le> 200"
    then show "map_of (p_FriendChatUnreadMessages q) (message_key f x) \<noteq> None \<longleftrightarrow>
        x \<in> set (cd_MessageIds (d\<lparr>cd_MessageIds := drop k (cd_MessageIds d)\<rparr>))"
      using inbox_stored [OF ok f x] key [OF x] d dist [of x] by (auto simp: msgs)
  qed (rule others)
  show "g \<noteq> f \<Longrightarrow> conversation q g = conversation p g"
    by (rule conversation_other [OF ok f _ _ others]) (simp_all add: ids)
  have "map_of (p_FriendChatUnreadMessages q) (message_key f x) = map_of (p_FriendChatUnreadMessages p) (message_key f x)"
    if "x \<in> set (drop k (cd_MessageIds d))" for x
    using that dist [of x] range [of x] key [of x] by (auto simp: msgs)
  then show "unread_messages q f = drop k (unread_messages p f)"
    unfolding length_unread(2) [OF ok d] by (auto simp: unread_messages_def col_simps ids intro!: map_filter_cong)
qed

lemma chat_confirm:
  assumes ok: "inbox_ok p" and f: "0 \<le> f" "f \<le> max32" and n: "0 \<le> n" and friend: "col_HasIndex (p_Friends p) f"
    and run: "friend_confirm_unread_message f n p = Some (r, q)"
  shows "inbox_ok q" "q_confirm n (conversation p f) = (r, conversation q f)"
    "g \<noteq> f \<Longrightarrow> conversation q g = conversation p g" "p_Friends q = p_Friends p"
proof -
  have "inbox_ok q \<and> q_confirm n (conversation p f) = (r, conversation q f) \<and>
    (\<forall>g. g \<noteq> f \<longrightarrow> conversation q g = conversation p g) \<and> p_Friends q = p_Friends p"
  proof (cases "map_of (p_FriendChatUnreadIds p) f")
    case None
    with run friend have "r = E_ERR_FRIEND_NO_UNREAD_MESSAGE" "q = p"
      by (auto simp: friend_confirm_unread_message_def ConfirmUnreadIds_def col_simps)
    with ok None show ?thesis by (simp add: q_confirm_def conversation_def)
  next
    case (Some d)
    define k where "k = (if n = 0 \<or> int (length (cd_MessageIds d)) \<le> n then length (cd_MessageIds d) else nat n)"
    from run friend Some n have q: "r = 1" "p_FriendChatUnreadIds q =
        AList.update f (d\<lparr>cd_MessageIds := drop k (cd_MessageIds d)\<rparr>) (p_FriendChatUnreadIds p)"
      "p_FriendChatUnreadMessages q = p_FriendChatUnreadMessages (RemoveMessages f (take k (cd_MessageIds d)) p)"
      "p_Friends q = p_Friends p"
      by (auto simp: friend_confirm_unread_message_def ConfirmUnreadIds_def col_simps k_def RemoveMessages_def
          split: if_splits)
    note st = chat_removed [OF ok f Some, of q k]
    have "inbox_ok q" "unread_messages q f = drop k (unread_messages p f)"
      "\<forall>g. g \<noteq> f \<longrightarrow> conversation q g = conversation p g"
      using st by (auto simp: q col_simps map_of_RemoveMessages)
    moreover have "drop k (unread_messages p f) = (if n = 0 then [] else drop (nat n) (unread_messages p f))"
      using length_unread(1) [OF ok Some] n by (auto simp: k_def)
    ultimately show ?thesis by (simp add: q_confirm_def conversation_def q col_simps Some)
  qed
  then show "inbox_ok q" "q_confirm n (conversation p f) = (r, conversation q f)"
    "g \<noteq> f \<Longrightarrow> conversation q g = conversation p g" "p_Friends q = p_Friends p" by blast+
qed



subsection \<open>Histories\<close>

text \<open>What happens to one conversation: the friend writes (\<open>friend_chat_add\<close>, at the time of the
  clock), the reader confirms. The same history on the queue.\<close>

datatype chat_op = Write env string | Confirm int

fun chat_run :: "int \<Rightarrow> chat_op list \<Rightarrow> player \<Rightarrow> (int list \<times> player) option" where
  "chat_run f [] p = Some ([], p)"
| "chat_run f (Write e m # ops) p =
     (let (r, p) = friend_chat_add e f m p in map_option (\<lambda>(rs, p). (r # rs, p)) (chat_run f ops p))"
| "chat_run f (Confirm n # ops) p =
     (case friend_confirm_unread_message f n p of None \<Rightarrow> None
      | Some (r, p) \<Rightarrow> map_option (\<lambda>(rs, p). (r # rs, p)) (chat_run f ops p))"

fun queue_run :: "chat_op list \<Rightarrow> conv \<Rightarrow> int list \<times> conv" where
  "queue_run [] c = ([], c)"
| "queue_run (Write e m # ops) c =
     (let (r, c) = q_write (m, i32 (now e)) c; (rs, c) = queue_run ops c in (r # rs, c))"
| "queue_run (Confirm n # ops) c =
     (let (r, c) = q_confirm n c; (rs, c) = queue_run ops c in (r # rs, c))"

lemma confirm_defined: "0 \<le> n \<Longrightarrow> \<exists>r q. friend_confirm_unread_message f n p = Some (r, q)"
  by (auto simp: friend_confirm_unread_message_def ConfirmUnreadIds_def split: option.splits)

lemma chat_run_conversation:
  assumes "inbox_ok p" "0 \<le> f" "f \<le> max32" "col_HasIndex (p_Friends p) f"
    and "\<forall>n. Confirm n \<in> set ops \<longrightarrow> 0 \<le> n"
  shows "\<exists>rs q. chat_run f ops p = Some (rs, q) \<and> queue_run ops (conversation p f) = (rs, conversation q f) \<and>
    (\<forall>g. g \<noteq> f \<longrightarrow> conversation q g = conversation p g)"
  using assms
proof (induction f ops p rule: chat_run.induct)
  case (2 f e m ops p)
  obtain r q where run: "friend_chat_add e f m p = (r, q)" by fastforce
  note step = chat_write [OF "2.prems"(1-3) run]
  from "2.IH" [of "(r, q)" r q] run step "2.prems" obtain rs q' where
    "chat_run f ops q = Some (rs, q')" "queue_run ops (conversation q f) = (rs, conversation q' f)"
    "\<forall>g. g \<noteq> f \<longrightarrow> conversation q' g = conversation q g" by auto
  with run step show ?case by simp
next
  case (3 f n ops p)
  from confirm_defined [of n f p] "3.prems"(5) obtain r q where
    run: "friend_confirm_unread_message f n p = Some (r, q)" by auto
  from "3.prems"(5) have n: "0 \<le> n" by simp
  note step = chat_confirm [OF "3.prems"(1-3) n "3.prems"(4) run]
  from "3.IH" [of "(r, q)" r q] run step "3.prems" obtain rs q' where
    "chat_run f ops q = Some (rs, q')" "queue_run ops (conversation q f) = (rs, conversation q' f)"
    "\<forall>g. g \<noteq> f \<longrightarrow> conversation q' g = conversation q g" by auto
  with run step show ?case by simp
qed simp


text \<open>The bounded queue: 200 messages, a full queue refuses, a confirmation of 0 takes all.\<close>

fun bounded_run :: "chat_op list \<Rightarrow> (string \<times> int) list \<Rightarrow> int list \<times> (string \<times> int) list" where
  "bounded_run [] qs = ([], qs)"
| "bounded_run (Write e m # ops) qs =
     (if length qs < 200 then (let (rs, qs) = bounded_run ops (qs @ [(m, i32 (now e))]) in (1 # rs, qs))
      else (let (rs, qs) = bounded_run ops qs in (E_ERR_FRIEND_MESSAGE_NUM_MAX # rs, qs)))"
| "bounded_run (Confirm n # ops) qs =
     (let (rs, qs) = bounded_run ops (if n = 0 then [] else drop (nat n) qs) in (1 # rs, qs))"

definition under_way :: "player \<Rightarrow> int \<Rightarrow> bool" where
  "under_way p f \<longleftrightarrow> (\<exists>d. map_of (p_FriendChatUnreadIds p) f = Some d \<and> cd_CurrMessageId d \<noteq> 0)"

lemma under_way_iff: "under_way p f \<longleftrightarrow> conversation p f = (unread_messages p f, Running)"
  by (auto simp: under_way_def conversation_def split: option.splits)

lemma queue_run_running: "queue_run ops (qs, Running) = (let (rs, qs) = bounded_run ops qs in (rs, (qs, Running)))"
  by (induction ops qs rule: bounded_run.induct) (auto simp: q_write_def q_confirm_def Let_def split_beta)

text \<open>
  Property C25. The unread messages of a friend are a bounded queue once the conversation is under way,
  that is, when its running message id is no longer zero. For a friend of the reader with an id that is
  not negative, in columns that agree (as every friend handler keeps them), on any history of the friend
  writing and the reader confirming any numbers that are not negative (0 is all), the two columns (ids
  that wrap at 200, messages under packed keys) give the same answers and in the end the same messages,
  with the times they were written at, as a queue that refuses a message when it holds 200; every
  operation returns and no other conversation changes. A new conversation takes its first message and
  refuses the second, which puts it under way.
\<close>

theorem chat_is_queue:
  assumes "inbox_ok p" "0 \<le> f" "f \<le> max32" "col_HasIndex (p_Friends p) f"
  shows "(under_way p f \<longrightarrow> (\<forall>n. Confirm n \<in> set ops \<longrightarrow> 0 \<le> n) \<longrightarrow>
      (\<exists>rs q. chat_run f ops p = Some (rs, q) \<and> bounded_run ops (unread_messages p f) = (rs, unread_messages q f)
        \<and> under_way q f \<and> (\<forall>g. g \<noteq> f \<longrightarrow> unread_messages q g = unread_messages p g)))
    \<and> (map_of (p_FriendChatUnreadIds p) f = None \<longrightarrow>
      (\<exists>q. chat_run f [Write e m, Write e' m'] p = Some ([1, - 1], q)
        \<and> unread_messages q f = [(m, i32 (now e))] \<and> under_way q f))"
proof (intro conjI impI)
  assume run: "under_way p f" and n: "\<forall>n. Confirm n \<in> set ops \<longrightarrow> 0 \<le> n"
  from chat_run_conversation [OF assms n] obtain rs q where
    q: "chat_run f ops p = Some (rs, q)" "queue_run ops (conversation p f) = (rs, conversation q f)"
    "\<And>g. g \<noteq> f \<Longrightarrow> conversation q g = conversation p g" by blast
  from q(2) run have "bounded_run ops (unread_messages p f) = (rs, unread_messages q f) \<and> under_way q f"
    by (auto simp: under_way_iff queue_run_running split_beta conversation_def prod_eq_iff)
  moreover have "unread_messages q g = unread_messages p g" if "g \<noteq> f" for g
    using q(3) [OF that] by (simp add: conversation_def)
  ultimately show "\<exists>rs q. chat_run f ops p = Some (rs, q) \<and> bounded_run ops (unread_messages p f) = (rs, unread_messages q f)
        \<and> under_way q f \<and> (\<forall>g. g \<noteq> f \<longrightarrow> unread_messages q g = unread_messages p g)"
    using q(1) by blast
next
  assume none: "map_of (p_FriendChatUnreadIds p) f = None"
  then have "conversation p f = ([], NoMessage)" by (simp add: conversation_def unread_messages_def col_simps)
  with chat_run_conversation [OF assms, of "[Write e m, Write e' m']"] obtain q where
    "chat_run f [Write e m, Write e' m'] p = Some ([1, - 1], q)"
    "conversation q f = ([(m, i32 (now e))], Running)"
    by (auto simp: q_write_def)
  then show "\<exists>q. chat_run f [Write e m, Write e' m'] p = Some ([1, - 1], q)
        \<and> unread_messages q f = [(m, i32 (now e))] \<and> under_way q f"
    by (auto simp: under_way_iff conversation_def)
qed

definition demo_reader :: player where
  "demo_reader = empty_player\<lparr>p_Friends := [(7, zero_friend 7)],
     p_FriendChatUnreadIds := [(7, \<lparr>cd_FriendId = 7, cd_MessageIds = [], cd_CurrMessageId = 200\<rparr>)]\<rparr>"

lemma demo_reader_inbox: "inbox_ok demo_reader"
  by (auto simp: inbox_ok_def demo_reader_def empty_player_def conv_ok_def run_ids_def split: if_splits)

text \<open>A conversation whose running id is about to wrap: three messages, of which two are confirmed.\<close>

lemma chat_is_queue_witness:
  "\<exists>q. chat_run 7 [Write empty_env ''a'', Write empty_env ''b'', Confirm 2, Write empty_env ''c''] demo_reader =
     Some ([1, 1, 1, 1], q) \<and> unread_messages q 7 = [(''c'', i32 (now empty_env))]"
proof -
  let ?ops = "[Write empty_env ''a'', Write empty_env ''b'', Confirm 2, Write empty_env ''c'']"
  have way: "under_way demo_reader 7" by (simp add: under_way_def demo_reader_def)
  have none: "unread_messages demo_reader 7 = []"
    by (simp add: unread_messages_def demo_reader_def col_simps)
  have friend: "col_HasIndex (p_Friends demo_reader) 7" by (simp add: demo_reader_def col_simps)
  have n: "\<forall>n. Confirm n \<in> set ?ops \<longrightarrow> 0 \<le> n" by simp
  have "bounded_run ?ops [] = ([1, 1, 1, 1], [(''c'', i32 (now empty_env))])" by simp
  moreover obtain rs q where "chat_run 7 ?ops demo_reader = Some (rs, q)"
    "bounded_run ?ops [] = (rs, unread_messages q 7)"
    using chat_is_queue [OF demo_reader_inbox _ _ friend, THEN conjunct1, rule_format, OF _ _ way, of ?ops] n none by auto
  ultimately show ?thesis by (metis prod.inject)
qed

end
