(* ===== verification/FriendRows.thy ===== *)
theory FriendRows
  imports FriendWorld FriendChat
begin

text \<open>
  The types the friend columns do not show: a row is stored under the id it carries, a column has
  each key once, and the unread messages fit together (\<open>inbox_ok\<close>), for every player of both
  servers. Every handler keeps this.
\<close>

subsection \<open>Keyed columns\<close>

definition keyed :: "('v \<Rightarrow> int) \<Rightarrow> 'v column \<Rightarrow> bool" where
  "keyed key m \<longleftrightarrow> col_wf m \<and> (\<forall>k d. map_of m k = Some d \<longrightarrow> key d = k)"

lemma keyed_Nil [simp]: "keyed key []"
  by (simp add: keyed_def)

lemma keyed_update [intro!]: "keyed key m \<Longrightarrow> key d = k \<Longrightarrow> keyed key (AList.update k d m)"
  by (auto simp: keyed_def col_simps)

lemma keyed_Add [intro!]: "keyed key m \<Longrightarrow> key d = k \<Longrightarrow> keyed key (snd (col_Add k d m))"
  by (auto simp: col_Add_def)

lemma keyed_Remove [intro!]: "keyed key m \<Longrightarrow> keyed key (col_Remove k m)"
  by (auto simp: keyed_def col_simps)

lemma keyed_set_field [intro!]:
  assumes "keyed key m" "\<And>d. key (u d) = key d"
  shows "keyed key (snd (col_set_field u k m))"
  using assms by (auto simp: keyed_def col_simps split: option.splits)

lemma keyed_lookup: "keyed key m \<Longrightarrow> map_of m k = Some d \<Longrightarrow> key d = k"
  by (simp add: keyed_def)

subsection \<open>The friend columns of a player\<close>

definition friend_cols :: "player \<Rightarrow> _" where
  "friend_cols p = (p_Friends p, p_FriendReqs p, p_FriendPoints p, p_FriendChatUnreadIds p, p_FriendChatUnreadMessages p)"

definition rows_typed :: "player \<Rightarrow> bool" where
  "rows_typed p \<longleftrightarrow> keyed fr_FriendId (p_Friends p) \<and> keyed fq_PlayerId (p_FriendReqs p) \<and>
     keyed fp_FromPlayerId (p_FriendPoints p) \<and> keyed cd_FriendId (p_FriendChatUnreadIds p) \<and>
     keyed cm_PlayerMessageId (p_FriendChatUnreadMessages p) \<and> inbox_ok p"

lemma rows_cong: "friend_cols q = friend_cols p \<Longrightarrow> rows_typed q = rows_typed p"
  by (simp add: rows_typed_def friend_cols_def inbox_ok_def)

lemma rows_parts:
  assumes "rows_typed p" "p_FriendChatUnreadIds q = p_FriendChatUnreadIds p"
    "p_FriendChatUnreadMessages q = p_FriendChatUnreadMessages p"
    "keyed fr_FriendId (p_Friends p) \<Longrightarrow> keyed fr_FriendId (p_Friends q)"
    "keyed fq_PlayerId (p_FriendReqs p) \<Longrightarrow> keyed fq_PlayerId (p_FriendReqs q)"
    "keyed fp_FromPlayerId (p_FriendPoints p) \<Longrightarrow> keyed fp_FromPlayerId (p_FriendPoints q)"
  shows "rows_typed q"
proof -
  have "inbox_ok q = inbox_ok p" by (simp add: inbox_ok_def assms(2,3))
  with assms show ?thesis by (simp add: rows_typed_def)
qed

lemma rows_side:
  assumes "side q = side p"
  shows "rows_typed q = rows_typed p"
  by (rule rows_cong) (simp add: friend_cols_def side_frame [OF assms])

lemma rows_quiet [simp]:
  "rows_typed (Send_msg m p) = rows_typed p" "rows_typed (TaskUpdate e ty b pa n p) = rows_typed p"
  "rows_typed (notify_friend_add r p) = rows_typed p" "rows_typed (notify_friend_info st i p) = rows_typed p"
  "rows_typed (snd (AddFriendPoints v p)) = rows_typed p" "rows_typed (p\<lparr>p_FriendRelative := rel\<rparr>) = rows_typed p"
  by (rule rows_side, simp add: notify_friend_add_def notify_friend_info_def)+
    (rule rows_cong, simp add: friend_cols_def)

lemma rows_Friends_Add [intro!]: "rows_typed p \<Longrightarrow> rows_typed (Friends_Add d p)"
  by (erule rows_parts) (auto simp: Friends_Add_def)

lemma rows_Friends_set [intro!]:
  "rows_typed p \<Longrightarrow> (\<And>d. fr_FriendId (u d) = fr_FriendId d) \<Longrightarrow>
     rows_typed (p\<lparr>p_Friends := snd (col_set_field u k (p_Friends p))\<rparr>)"
  by (erule rows_parts) auto

lemma rows_Reqs [intro!]:
  "rows_typed p \<Longrightarrow> rows_typed (FriendReqs_Remove k p)" "rows_typed p \<Longrightarrow> rows_typed (snd (FriendReqs_CheckAndAdd k p))"
  by (erule rows_parts; auto simp: FriendReqs_Remove_def FriendReqs_CheckAndAdd_def)+

lemma rows_refuse [intro!]: "rows_typed p \<Longrightarrow> rows_typed (snd (refuse_add_friend k p))"
  by (auto simp: refuse_add_friend_def split: option.split)

lemma rows_Points_set [intro!]:
  "rows_typed p \<Longrightarrow> (\<And>d. fp_FromPlayerId (u d) = fp_FromPlayerId d) \<Longrightarrow> rows_typed (FriendPoints_Set k u p)"
  by (erule rows_parts) (auto simp: FriendPoints_Set_def)

lemma rows_refresh [intro!]: "rows_typed p \<Longrightarrow> rows_typed (refresh_friend_give_points k p)"
  by (auto simp: refresh_friend_give_points_def)

lemma rows_Points_add [intro!]:
  "rows_typed p \<Longrightarrow> fp_FromPlayerId d = k \<Longrightarrow> rows_typed (p\<lparr>p_FriendPoints := snd (col_Add k d (p_FriendPoints p))\<rparr>)"
  by (erule rows_parts) auto

lemma rows_store [intro!]: "rows_typed p \<Longrightarrow> rows_typed (snd (store_friend_points e k p))"
  by (auto simp: store_friend_points_def Let_def split_beta)

lemma rows_credit [intro!]: "rows_typed p \<Longrightarrow> rows_typed (credit_gift e k t p)"
  unfolding credit_gift_def Let_def by (rule rows_Friends_set) simp_all

lemma rows_points_loop [intro!]: "rows_typed p \<Longrightarrow> rows_typed (snd (get_points_loop ks p))"
proof (induction ks arbitrary: p)
  case (Cons k ks)
  have "rows_typed (FriendPoints_Set k (\<lambda>d. d\<lparr>fp_GivePoints := 0\<rparr>) (snd (AddFriendPoints v p)))" for v
    using Cons.prems by (intro rows_Points_set) simp_all
  with Cons show ?case by (simp add: Let_def split_beta)
qed simp

lemma rows_reads [intro!]:
  "rows_typed p \<Longrightarrow> rows_typed (snd (friend_get_unread_message_num ks p))"
  "rows_typed p \<Longrightarrow> rows_typed (snd (friend_pull_unread_message k p))"
  by (simp_all add: friend_get_unread_message_num_def friend_pull_unread_message_def)

text \<open>Chat: the columns stay keyed, and \<open>inbox_ok\<close> is kept by the lemmas on the queue.\<close>

lemma rows_chat:
  assumes "rows_typed p" "0 \<le> f" "f \<le> max32"
  shows "rows_typed (snd (friend_chat_add e f m p))"
proof -
  have "inbox_ok (snd (friend_chat_add e f m p))"
    using chat_write(1) [OF _ assms(2,3), of p e m] assms(1) by (cases "friend_chat_add e f m p") (auto simp: rows_typed_def)
  moreover have "keyed cd_FriendId (p_FriendChatUnreadIds p)" "keyed cm_PlayerMessageId (p_FriendChatUnreadMessages p)"
    "keyed fr_FriendId (p_Friends p)" "keyed fq_PlayerId (p_FriendReqs p)" "keyed fp_FromPlayerId (p_FriendPoints p)"
    using assms(1) by (auto simp: rows_typed_def)
  ultimately show ?thesis
    by (auto simp: rows_typed_def friend_chat_add_def CheckUnreadNumFull_def AddNewMessageId_def Let_def col_simps
        col_Add_def dest: keyed_lookup split: option.splits if_splits)
qed

lemma keyed_fold_remove: "keyed key m \<Longrightarrow> keyed key (fold (\<lambda>x. col_Remove (g x)) xs m)"
  by (induction xs arbitrary: m) auto

lemma keyed_RemoveMessages [intro!]:
  "keyed cm_PlayerMessageId (p_FriendChatUnreadMessages p) \<Longrightarrow>
     keyed cm_PlayerMessageId (p_FriendChatUnreadMessages (RemoveMessages f mids p))"
  by (simp add: RemoveMessages_def keyed_fold_remove)

lemma inbox_forget:
  assumes "inbox_ok p" "map_of (p_FriendChatUnreadIds p) f = Some d" "cd_MessageIds d = []"
  shows "inbox_ok (p\<lparr>p_FriendChatUnreadIds := col_Remove f (p_FriendChatUnreadIds p)\<rparr>)"
  unfolding inbox_ok_def
proof (intro conjI allI impI)
  fix key
  have "map_of (p_FriendChatUnreadMessages p) key \<noteq> None \<longleftrightarrow> (\<exists>g x mid. map_of (p_FriendChatUnreadIds p) g = Some x \<and>
      mid \<in> set (cd_MessageIds x) \<and> key = message_key g mid)" using inbox_messages [OF assms(1)] .
  also have "\<dots> \<longleftrightarrow> (\<exists>g x mid. ((map_of (p_FriendChatUnreadIds p))(f := None)) g = Some x \<and>
      mid \<in> set (cd_MessageIds x) \<and> key = message_key g mid)"
    using assms(2,3) by (metis empty_iff empty_set fun_upd_apply option.distinct(1) option.inject)
  finally show "map_of (p_FriendChatUnreadMessages (p\<lparr>p_FriendChatUnreadIds := col_Remove f (p_FriendChatUnreadIds p)\<rparr>)) key \<noteq> None \<longleftrightarrow>
    (\<exists>g x mid. map_of (p_FriendChatUnreadIds (p\<lparr>p_FriendChatUnreadIds := col_Remove f (p_FriendChatUnreadIds p)\<rparr>)) g = Some x \<and>
      mid \<in> set (cd_MessageIds x) \<and> key = message_key g mid)" by (simp add: col_simps)
qed (use assms(1) in \<open>auto simp: col_simps inbox_ok_def split: if_splits\<close>)

lemma rows_remove [intro!]: "rows_typed p \<Longrightarrow> rows_typed (remove_friend_data k p)"
proof -
  assume ok: "rows_typed p"
  show "rows_typed (remove_friend_data k p)"
  proof (cases "map_of (p_FriendChatUnreadIds p) k")
    case None
    have "rows_typed (p\<lparr>p_Friends := col_Remove k (p_Friends p)\<rparr>)"
      using ok by (rule rows_parts) (use ok in \<open>auto simp: rows_typed_def\<close>)
    with None show ?thesis by (simp add: remove_friend_data_def col_simps)
  next
    case (Some d)
    let ?all = "length (cd_MessageIds d)"
    let ?p = "p\<lparr>p_Friends := col_Remove k (p_Friends p)\<rparr>"
    let ?q = "(RemoveMessages k (cd_MessageIds d) ?p)\<lparr>p_FriendChatUnreadIds :=
      AList.update k (d\<lparr>cd_MessageIds := []\<rparr>) (p_FriendChatUnreadIds p)\<rparr>"
    let ?r = "(RemoveMessages k (cd_MessageIds d) ?p)\<lparr>p_FriendChatUnreadIds := col_Remove k (p_FriendChatUnreadIds p)\<rparr>"
    from ok have inbox: "inbox_ok p" by (simp add: rows_typed_def)
    have msgs: "p_FriendChatUnreadMessages ?q = p_FriendChatUnreadMessages (RemoveMessages k (cd_MessageIds d) p)"
      by (simp add: RemoveMessages_def)
    have "inbox_ok ?q"
    proof (rule chat_removed(1) [OF inbox inbox_okD(1,2) [OF inbox Some] Some, of _ ?all])
      show "map_of (p_FriendChatUnreadMessages ?q) key = (if key \<in> message_key k ` set (take ?all (cd_MessageIds d))
          then None else map_of (p_FriendChatUnreadMessages p) key)" for key
        unfolding msgs by (simp add: map_of_RemoveMessages)
    qed (simp add: col_simps)
    moreover have "col_Remove k (AList.update k x m) = col_Remove k m" for x :: chat_ids_data and m
      by (simp add: col_Remove_def AList.delete_update_same)
    ultimately have "inbox_ok ?r"
      using inbox_forget [of ?q k "d\<lparr>cd_MessageIds := []\<rparr>"] by (simp add: col_simps)
    moreover have "keyed cm_PlayerMessageId (p_FriendChatUnreadMessages ?r)"
      using ok keyed_RemoveMessages [of ?p] by (simp add: rows_typed_def)
    ultimately have "rows_typed ?r" using ok by (auto simp: rows_typed_def)
    with Some show ?thesis by (simp add: remove_friend_data_def col_simps)
  qed
qed

lemma rows_confirm:
  assumes "rows_typed p" "friend_confirm_unread_message f n p = Some (r, q)"
  shows "rows_typed q"
proof (cases "map_of (p_FriendChatUnreadIds p) f")
  case None
  with assms show ?thesis by (auto simp: friend_confirm_unread_message_def ConfirmUnreadIds_def col_simps split: if_splits)
next
  case (Some d)
  from assms(1) have ok: "inbox_ok p" "keyed cd_FriendId (p_FriendChatUnreadIds p)" "keyed cm_PlayerMessageId (p_FriendChatUnreadMessages p)"
    by (auto simp: rows_typed_def)
  show ?thesis
  proof (cases "col_HasIndex (p_Friends p) f")
    case True
    with assms(2) Some have "0 \<le> n"
      by (auto simp: friend_confirm_unread_message_def ConfirmUnreadIds_def col_simps split: if_splits)
    then have "inbox_ok q"
      using chat_confirm(1) [OF ok(1) inbox_okD(1,2) [OF ok(1) Some] _ True assms(2)] by blast
    with assms True ok keyed_lookup [OF ok(2) Some] Some show ?thesis
      by (auto simp: rows_typed_def friend_confirm_unread_message_def ConfirmUnreadIds_def col_simps
          RemoveMessages_def keyed_fold_remove split: if_splits)
  qed (use assms in \<open>auto simp: friend_confirm_unread_message_def\<close>)
qed



subsection \<open>The players of both servers\<close>

definition players_typed :: "players \<Rightarrow> bool" where
  "players_typed ps \<longleftrightarrow> (\<forall>k p. ps k = Some p \<longrightarrow> 0 \<le> k \<and> k \<le> max32 \<and> rows_typed p)"

definition world_typed :: "world \<Rightarrow> bool" where
  "world_typed w \<longleftrightarrow> players_typed (home w) \<and> players_typed (far w)"

lemma typed_player: "players_typed ps \<Longrightarrow> ps k = Some p \<Longrightarrow> rows_typed p \<and> 0 \<le> k \<and> k \<le> max32"
  by (simp add: players_typed_def)

lemma typed_put [intro]: "players_typed ps \<Longrightarrow> ps k = Some p \<Longrightarrow> rows_typed q \<Longrightarrow> players_typed (ps(k \<mapsto> q))"
  by (auto simp: players_typed_def)

lemma typed_upd [intro!]:
  assumes "players_typed ps" "\<And>p. ps k = Some p \<Longrightarrow> rows_typed p \<Longrightarrow> rows_typed (f p)"
  shows "players_typed (upd_player k f ps)"
  using assms by (auto simp: players_typed_def upd_player_def)

lemma world_home [intro!]:
  "world_typed w \<Longrightarrow> (\<And>p. rows_typed p \<Longrightarrow> rows_typed (f p)) \<Longrightarrow> world_typed (home_upd k f w)"
  by (auto simp: world_typed_def home_upd_def)

lemma world_put [intro]:
  "world_typed w \<Longrightarrow> home w k = Some p \<Longrightarrow> rows_typed q \<Longrightarrow> world_typed (w\<lparr>home := (home w)(k \<mapsto> q)\<rparr>)"
  by (auto simp: world_typed_def)

lemma world_far [intro!]: "world_typed w \<Longrightarrow> players_typed ps \<Longrightarrow> world_typed (w\<lparr>far := ps\<rparr>)"
  by (simp add: world_typed_def)

lemma typed_responses:
  assumes "players_typed ps"
  shows "players_typed (snd (remote_add_friend_by_id_response a b r ps))"
    "players_typed (snd (remote_agree_add_friend_response a b i ps))"
    "players_typed (snd (remote_remove_friend_response a b ps))"
    "players_typed (snd (remote_give_friend_points_response e a b ps))"
  using assms typed_player [OF assms, of b]
  by (auto simp: remote_add_friend_by_id_response_def remote_agree_add_friend_response_def
      remote_remove_friend_response_def remote_give_friend_points_response_def Let_def split_beta split: option.split)

lemma typed_RemoteGet:
  assumes "players_typed ps"
  shows "players_typed (snd (RemoteGetUsePB e dl a b req ps))"
  unfolding RemoteGet_snd using assms typed_responses [OF assms]
  by (cases req) (auto simp: id2rpc_funcs_def)

lemma typed_remote:
  assumes "players_typed ps"
  shows "players_typed (snd (remote_add_friend_by_id e dl a b ps))" "players_typed (snd (remote_agree_add_friend e dl p a b ps))"
    "players_typed (snd (remote_remove_friend e dl a b ps))" "players_typed (snd (remote_give_friend_points e dl a b ps))"
    "players_typed (snd (remote_friend_chat e dl a b m ps))"
  by (simp_all add: remote_add_friend_by_id_def remote_agree_add_friend_def remote_remove_friend_def
      remote_give_friend_points_def remote_friend_chat_def typed_RemoteGet assms)

lemma world_remote:
  assumes "world_typed w"
  shows "players_typed (snd (remote_add_friend_by_id e dl a b (far w)))"
    "players_typed (snd (remote_agree_add_friend e dl p a b (far w)))"
    "players_typed (snd (remote_remove_friend e dl a b (far w)))" "players_typed (snd (remote_give_friend_points e dl a b (far w)))"
    "players_typed (snd (remote_friend_chat e dl a b m (far w)))"
  using assms by (simp_all add: world_typed_def typed_remote)

lemma world_player: "world_typed w \<Longrightarrow> home w k = Some p \<Longrightarrow> rows_typed p \<and> 0 \<le> k \<and> k \<le> max32"
  using typed_player [of "home w" k p] by (simp add: world_typed_def)

lemma typed_ask: "add_friend_by_id e dl me k w = Some (r, w') \<Longrightarrow> world_typed w \<Longrightarrow> world_typed w'"
  by (auto simp: add_friend_by_id_def Let_def split_beta world_remote dest: world_player intro!: world_put
      split: if_splits option.splits bind_splits)

lemma typed_chat: 
  assumes "friend_chat e dl me k m w = Some (r, w')" "world_typed w"
  shows "world_typed w'"
  using assms
  by (auto simp: friend_chat_def Let_def split_beta world_remote intro: rows_chat dest: world_player
      split: if_splits option.splits bind_splits)

lemma typed_agree: "agree_add_friend e dl me k w = Some (r, w') \<Longrightarrow> world_typed w \<Longrightarrow> world_typed w'"
  by (auto simp: agree_add_friend_def Let_def split_beta world_remote
      split: if_splits option.splits bind_splits)

lemma typed_remove: "remove_friend e dl me k w = Some (r, w') \<Longrightarrow> world_typed w \<Longrightarrow> world_typed w'"
  by (auto simp: remove_friend_def Let_def split_beta world_remote
      split: if_splits option.splits bind_splits)

lemma typed_fold: "(\<And>k w. world_typed w \<Longrightarrow> world_typed (f k w)) \<Longrightarrow> world_typed w \<Longrightarrow> world_typed (fold f ks w)"
  by (induction ks arbitrary: w) auto

lemma typed_refresh: "check_friends_give_points_refresh e me w = Some (r, w') \<Longrightarrow> world_typed w \<Longrightarrow> world_typed w'"
  by (auto simp: check_friends_give_points_refresh_def Let_def split_beta intro!: typed_fold
      split: if_splits bind_splits)

lemma typed_give_one: "world_typed w \<Longrightarrow> world_typed (snd (give_one e nt me k w))"
  by (auto simp: give_one_def split_beta world_remote dest: world_player split: option.splits g2g_resp.splits)

lemma typed_give_loop: "give_loop e nt me ks n rs w = Some (rs', w') \<Longrightarrow> world_typed w \<Longrightarrow> world_typed w'"
proof (induction ks arbitrary: n rs w)
  case (Cons k ks)
  note one = typed_give_one [OF Cons.prems(2), of e nt me k]
  from Cons.prems show ?case
    by (auto simp: Let_def split_beta split: if_splits bind_splits intro: one Cons.IH Cons.IH [OF _ world_home])
qed simp

lemma typed_give: "give_friend_points e nt me ks w = Some (r, w') \<Longrightarrow> world_typed w \<Longrightarrow> world_typed w'"
  by (auto simp: give_friend_points_def Let_def dest!: typed_refresh typed_give_loop
      split: if_splits bind_splits)

lemma typed_points: "get_friend_points e me ks w = Some (r, w') \<Longrightarrow> world_typed w \<Longrightarrow> world_typed w'"
  by (auto simp: get_friend_points_def Let_def split_beta dest!: typed_refresh split: bind_splits)

lemma typed_list: "get_friend_list e nt me w = Some (r, w') \<Longrightarrow> world_typed w \<Longrightarrow> world_typed w'"
  by (auto simp: get_friend_list_def Let_def split_beta dest!: typed_refresh split: bind_splits)

lemma friend_step_typed:
  assumes "friend_step w T w'" "world_typed w"
  shows "world_typed w'"
  using assms(1)
proof cases
  case (confirm me p k n r q)
  then show ?thesis using rows_confirm world_player [OF assms(2)] assms(2) by blast
next
  case other_server
  with assms(2) show ?thesis by (simp add: world_typed_def)
qed (use assms(2) in \<open>auto intro: typed_ask typed_agree typed_remove typed_give typed_points typed_list typed_chat\<close>)

text \<open>
  Property C26. The friend columns keep their type on both servers: after any sequence of the friend
  handlers, run on either server for any players and with any fate of their remote calls, lost answers
  and missing players included, in every player's friends, requests, points, unread ids and unread
  messages each key occurs once and each row is stored under the id it carries, every listed unread id
  has its message, every stored message is listed, and the ids of a conversation are distinct, at most
  200 and the ones before the running id.
\<close>

theorem friend_rows_typed:
  assumes "friend_run w S w'" "world_typed w"
  shows "world_typed w'"
  using assms by (induction rule: friend_run.induct) (auto dest: friend_step_typed)

lemma friend_rows_typed_witness:
  "\<exists>w'. agree_add_friend empty_env Delivered 1 2 demo_pair = Some (1, w') \<and> linked (world_links w') 1 2 \<and> world_typed w'"
proof -
  obtain w' where w': "agree_add_friend empty_env Delivered 1 2 demo_pair = Some (1, w')" "linked (world_links w') 1 2"
    by (simp add: demo_agree_simps)
  from friend_run.step [OF friend_run.start friend_step.agree [OF w'(1)]]
  have "friend_run demo_pair ({} \<union> agree_breaks Delivered 1 2 demo_pair) w'" .
  moreover have "world_typed demo_pair"
    by (simp add: world_typed_def players_typed_def demo_pair_def empty_player_def rows_typed_def inbox_ok_def)
  ultimately show ?thesis using friend_rows_typed [of demo_pair _ w'] w' by blast
qed

end
