(* ===== verification/Building.thy ===== *)
theory Building
  imports Draw Stage CatHouse Crops Frames
begin

unbundle bit_operations_syntax

text \<open>
  \<open>player_building.go\<close> and \<open>player_area.go\<close> with the building part of \<open>a_db_ext.go\<close> and the random
  choices of \<open>table_block.go\<close> and \<open>table_mapchest.go\<close>: the map of a player. The rows of \<open>Buildings\<close>
  say where a building stands; \<open>cur_building_map\<close> (\<open>p_building_map\<close>) says for a grid cell which
  building covers it, \<open>cur_open_pos_map\<close> (\<open>p_open_pos\<close>) which cells are open, and
  \<open>cur_areablocknum_map\<close> (\<open>p_areablocknum\<close>) how many blocks an area holds. The three maps are not
  saved; \<open>ChkUpdateMyBuildingAreas\<close> computes them when they are first needed (\<open>p_map_init\<close>). A size
  list that is too short is a panic. Not modelled: visiting another player's map, which only reads.
\<close>

abbreviation (input) PLAYER_BUILDING_TAG_1 :: int where "PLAYER_BUILDING_TAG_1 \<equiv> 1"
abbreviation (input) PLAYER_BUILDING_UNLOCK_TYPE_P_LVL :: int where "PLAYER_BUILDING_UNLOCK_TYPE_P_LVL \<equiv> 1"
abbreviation (input) PLAYER_BUILDING_UNLOCK_TYPE_VIP_LVL :: int where "PLAYER_BUILDING_UNLOCK_TYPE_VIP_LVL \<equiv> 2"
abbreviation (input) PLAYER_BUILDING_TYPE_CAT_HOME :: int where "PLAYER_BUILDING_TYPE_CAT_HOME \<equiv> 2"
abbreviation (input) PLAYER_BUILDING_TYPE_FOSTER :: int where "PLAYER_BUILDING_TYPE_FOSTER \<equiv> 11"
abbreviation (input) BUILDING_DIR_BIG_X_DIR :: int where "BUILDING_DIR_BIG_X_DIR \<equiv> 0"
abbreviation (input) BUILDING_DIR_BIG_Y_DIR :: int where "BUILDING_DIR_BIG_Y_DIR \<equiv> 1"

abbreviation (input) E_ERR_BUILDING_NOT_FIND_ITEM :: int where "E_ERR_BUILDING_NOT_FIND_ITEM \<equiv> - 100200"
abbreviation (input) E_ERR_BUILDING_POS_FORBIDEN :: int where "E_ERR_BUILDING_POS_FORBIDEN \<equiv> - 100201"
abbreviation (input) E_ERR_BUILDING_NOT_EXIST :: int where "E_ERR_BUILDING_NOT_EXIST \<equiv> - 100202"
abbreviation (input) E_ERR_BUILDING_NOT_CFG :: int where "E_ERR_BUILDING_NOT_CFG \<equiv> - 100203"
abbreviation (input) E_ERR_BUILDING_NOT_FOR_SELL :: int where "E_ERR_BUILDING_NOT_FOR_SELL \<equiv> - 100204"
abbreviation (input) E_ERR_BUILDING_NO_ENOUGH_COIN :: int where "E_ERR_BUILDING_NO_ENOUGH_COIN \<equiv> - 100206"
abbreviation (input) E_ERR_BUILDING_NO_DEPOT_BUILDING :: int where "E_ERR_BUILDING_NO_DEPOT_BUILDING \<equiv> - 100207"
abbreviation (input) E_ERR_BUILDING_REMOVE_LESS_ITEM :: int where "E_ERR_BUILDING_REMOVE_LESS_ITEM \<equiv> - 100208"
abbreviation (input) E_ERR_BUILDING_OPEN_MAP_CHEST_LESS_RES :: int where
  "E_ERR_BUILDING_OPEN_MAP_CHEST_LESS_RES \<equiv> - 100209"
abbreviation (input) E_ERR_BUILDING_SET_CANNOT_BUY :: int where "E_ERR_BUILDING_SET_CANNOT_BUY \<equiv> - 100210"
abbreviation (input) E_ERR_BUILDING_BUYSET_LESS_P_LVL :: int where "E_ERR_BUILDING_BUYSET_LESS_P_LVL \<equiv> - 100211"
abbreviation (input) E_ERR_BUILDING_BUYSET_LESS_VIP_LVL :: int where "E_ERR_BUILDING_BUYSET_LESS_VIP_LVL \<equiv> - 100212"
abbreviation (input) E_ERR_BUILDING_SET_MAX_COUNT :: int where "E_ERR_BUILDING_SET_MAX_COUNT \<equiv> - 100214"
abbreviation (input) E_ERR_BUILDING_AREA_TYPE_NOT_MATCH :: int where "E_ERR_BUILDING_AREA_TYPE_NOT_MATCH \<equiv> - 100216"
abbreviation (input) E_ERR_BUILDING_AREA_TYPE_NO_POS :: int where "E_ERR_BUILDING_AREA_TYPE_NO_POS \<equiv> - 100217"
abbreviation (input) E_ERR_BUILDING_AREA_ALERADY_UNLOCKED :: int where
  "E_ERR_BUILDING_AREA_ALERADY_UNLOCKED \<equiv> - 100500"
abbreviation (input) E_ERR_BUILDING_AREA_NO_CFG :: int where "E_ERR_BUILDING_AREA_NO_CFG \<equiv> - 100501"
abbreviation (input) E_ERR_BUILDING_AREA_LESS_UNLOCK_RES :: int where "E_ERR_BUILDING_AREA_LESS_UNLOCK_RES \<equiv> - 100503"
abbreviation (input) E_ERR_BUILDING_AREA_LESS_UNLOCK_LVL :: int where "E_ERR_BUILDING_AREA_LESS_UNLOCK_LVL \<equiv> - 100504"
abbreviation (input) E_ERR_BUILDING_AREA_LESS_UNLOCK_STAR :: int where
  "E_ERR_BUILDING_AREA_LESS_UNLOCK_STAR \<equiv> - 100505"
abbreviation (input) E_ERR_BUILDING_AREA_CANNOT_QUICK_UNLOCK :: int where
  "E_ERR_BUILDING_AREA_CANNOT_QUICK_UNLOCK \<equiv> - 100506"
abbreviation (input) E_ERR_BUILDING_AREA_NEED_PRE :: int where "E_ERR_BUILDING_AREA_NEED_PRE \<equiv> - 100507"

subsection \<open>Cells\<close>

text \<open>A cell is coded in one \<open>int32\<close>, x in the high half and y in the low half.\<close>

definition arena_xy :: "int \<Rightarrow> int \<Rightarrow> int" where
  "arena_xy x y = i32 (x * 65536) OR (y AND 65535)"

definition xy_x :: "int \<Rightarrow> int" where
  "xy_x xy = xy div 65536"

definition xy_y :: "int \<Rightarrow> int" where
  "xy_y xy = (let y = xy AND 65535 in if 32768 \<le> y then y - 65536 else y)"

definition rect :: "int \<Rightarrow> int \<Rightarrow> int \<Rightarrow> int \<Rightarrow> int list" where
  "rect x y width height =
     concat (map (\<lambda>tx. map (\<lambda>ty. arena_xy (i32 (x + tx)) (i32 (y + ty))) [0..height - 1]) [0..width - 1])"

definition map_size :: "xml_building \<Rightarrow> int \<Rightarrow> (int \<times> int) option" where
  "map_size b dir = do {
     a \<leftarrow> go_nth (bd_MapSizes b) 0;
     c \<leftarrow> go_nth (bd_MapSizes b) 1;
     Some (if dir = BUILDING_DIR_BIG_X_DIR then (a, c) else (c, a))
   }"

definition set_area_building :: "int \<Rightarrow> int \<Rightarrow> int \<Rightarrow> int \<Rightarrow> int \<Rightarrow> player \<Rightarrow> player" where
  "set_area_building x y width height building_id p =
     p\<lparr>p_building_map := fold (\<lambda>xy m. m(xy \<mapsto> building_id)) (rect x y width height) (p_building_map p)\<rparr>"

definition remove_area_building :: "int \<Rightarrow> int \<Rightarrow> int \<Rightarrow> int \<Rightarrow> player \<Rightarrow> player" where
  "remove_area_building x y width height p =
     p\<lparr>p_building_map := fold (\<lambda>xy m. m(xy := None)) (rect x y width height) (p_building_map p)\<rparr>"

definition RemoveAreaBuilding :: "int \<Rightarrow> int \<Rightarrow> int \<Rightarrow> int \<Rightarrow> int \<Rightarrow> player \<Rightarrow> player" where
  "RemoveAreaBuilding building_id x y width height p =
     (let p = remove_area_building x y width height p
      in p\<lparr>p_Buildings := col_Remove building_id (p_Buildings p)\<rparr>)"

definition get0 :: "(int \<rightharpoonup> int) \<Rightarrow> int \<Rightarrow> int" where
  "get0 m k = (case m k of None \<Rightarrow> 0 | Some v \<Rightarrow> v)"

text \<open>The check of the cells of a rectangle, in the order of the loops.\<close>

fun check_cells :: "env \<Rightarrow> int \<Rightarrow> int \<Rightarrow> int list \<Rightarrow> player \<Rightarrow> int" where
  "check_cells e extra_id area_type_bits [] p = 0"
| "check_cells e extra_id area_type_bits (xy # cells) p =
     (let cur = get0 (p_building_map p) xy in
      if get0 (area_type e) xy AND area_type_bits \<le> 0 then E_ERR_BUILDING_AREA_TYPE_NOT_MATCH
      else if 0 < cur \<and> cur \<noteq> extra_id then E_ERR_BUILDING_POS_FORBIDEN
      else if map_of (p_open_pos p) xy \<noteq> Some 1 then E_ERR_BUILDING_AREA_TYPE_NO_POS
      else check_cells e extra_id area_type_bits cells p)"

definition if_pos_can_set_building :: "env \<Rightarrow> int \<Rightarrow> int \<Rightarrow> int \<Rightarrow> int \<Rightarrow> int \<Rightarrow> int \<Rightarrow> player \<Rightarrow> int" where
  "if_pos_can_set_building e x y width height extra_id area_type_bits p =
     check_cells e extra_id area_type_bits (rect x y width height) p"

subsection \<open>Computing the maps\<close>

definition block_counted :: "env \<Rightarrow> int \<Rightarrow> (int \<rightharpoonup> int) \<Rightarrow> int \<rightharpoonup> int" where
  "block_counted e xy nums =
     (let area_id = get0 (area_id_of e) xy
      in if 0 < area_id then nums(area_id \<mapsto> i32 (get0 nums area_id + 1)) else nums)"

fun GetAllBuildingPos :: "env \<Rightarrow> building_data list \<Rightarrow> (int \<rightharpoonup> int) \<Rightarrow> (int \<rightharpoonup> int) \<Rightarrow>
    ((int \<rightharpoonup> int) \<times> (int \<rightharpoonup> int)) option" where
  "GetAllBuildingPos e [] pos nums = Some (pos, nums)"
| "GetAllBuildingPos e (d # ds) pos nums =
     (case building_map e (bld_CfgId d) of
        None \<Rightarrow> GetAllBuildingPos e ds pos nums
      | Some cfg \<Rightarrow> do {
          (width, height) \<leftarrow> map_size cfg (bld_Dir d);
          let nums = (if block_map e (bld_CfgId d) \<noteq> None
                      then block_counted e (arena_xy (bld_X d) (bld_Y d)) nums else nums);
          GetAllBuildingPos e ds
            (fold (\<lambda>xy m. m(xy \<mapsto> bld_Id d)) (rect (bld_X d) (bld_Y d) width height) pos) nums
        })"

definition open_cells :: "int list \<Rightarrow> int column \<Rightarrow> int column" where
  "open_cells cells m = fold (\<lambda>xy m. AList.update xy 1 m) cells m"

definition ChkUpdateMyBuildingAreas :: "env \<Rightarrow> player \<Rightarrow> player option" where
  "ChkUpdateMyBuildingAreas e p =
     (if p_map_init p then Some p
      else do {
        (pos, nums) \<leftarrow> GetAllBuildingPos e (map snd (p_Buildings p)) Map.empty Map.empty;
        let cells = concat (map (\<lambda>k. case area_map e k of None \<Rightarrow> [] | Some area \<Rightarrow> ba_XYs area)
                        (col_GetAllIndex (p_Areas p)));
        Some (p\<lparr>p_map_init := True, p_building_map := pos, p_areablocknum := nums,
                p_open_pos := open_cells cells (p_open_pos p)\<rparr>)
      })"

definition GetCountByType :: "env \<Rightarrow> int \<Rightarrow> player \<Rightarrow> int" where
  "GetCountByType e b_type p =
     foldl (\<lambda>n (_, d). case building_map e (bld_CfgId d) of None \<Rightarrow> n
             | Some cfg \<Rightarrow> if bd_Type cfg = b_type then i32 (n + 1) else n) 0 (p_Buildings p)"

subsection \<open>Placing and moving\<close>

text \<open>A new row, standing upright, and its cells.\<close>

definition place_building :: "env \<Rightarrow> xml_building \<Rightarrow> int \<Rightarrow> int \<Rightarrow> int \<Rightarrow> player \<Rightarrow> (building_data \<times> player) option" where
  "place_building e cfg cfgid x y p = do {
     let (k, p) = Info_Incby i_NextBuildingId i_NextBuildingId_update 1 p;
     let d = \<lparr>bld_Id = k, bld_CfgId = cfgid, bld_X = x, bld_Y = y, bld_Dir = BUILDING_DIR_BIG_X_DIR,
           bld_CreateUnix = i32 (now e), bld_OverUnix = 0\<rparr>;
     let p = p\<lparr>p_Buildings := snd (col_Add k d (p_Buildings p))\<rparr>;
     (width, height) \<leftarrow> map_size cfg BUILDING_DIR_BIG_X_DIR;
     Some (d, set_area_building x y width height k p)
   }"

definition SetMapBuilding :: "env \<Rightarrow> int \<Rightarrow> int \<Rightarrow> int \<Rightarrow> int \<Rightarrow> player \<Rightarrow> (int \<times> player) option" where
  "SetMapBuilding e cfgid pos_x pos_y dir p =
     (case building_map e cfgid of
        None \<Rightarrow> Some (0, p)
      | Some cfg \<Rightarrow> do {
          (width, height) \<leftarrow> map_size cfg dir;
          let iret = if_pos_can_set_building e pos_x pos_y width height 0 (bd_Geography cfg) p;
          if 0 \<le> iret then do {
            (d, p) \<leftarrow> place_building e cfg cfgid pos_x pos_y p;
            Some (bld_Id d, p)
          } else Some (iret, p)
        })"

definition IfXYAreaBlockFull :: "env \<Rightarrow> int \<Rightarrow> player \<Rightarrow> bool" where
  "IfXYAreaBlockFull e area_xy p =
     (let area_id = get0 (area_id_of e) area_xy in
      if area_id < 0 then True
      else case area_unlock_map e area_id of
          None \<Rightarrow> True
        | Some cfg \<Rightarrow> au_MaxObstacle cfg \<le> get0 (p_areablocknum p) area_id)"

fun try_positions :: "env \<Rightarrow> xml_building \<Rightarrow> int \<Rightarrow> int list \<Rightarrow> player \<Rightarrow>
    (building_data option \<times> player) option" where
  "try_positions e cfg cfgid [] p = Some (None, p)"
| "try_positions e cfg cfgid (xy # xys) p =
     (if IfXYAreaBlockFull e xy p then try_positions e cfg cfgid xys p
      else do {
        (width, height) \<leftarrow> map_size cfg BUILDING_DIR_BIG_X_DIR;
        if 0 \<le> if_pos_can_set_building e (xy_x xy) (xy_y xy) width height 0 (bd_Geography cfg) p then do {
          (d, p) \<leftarrow> place_building e cfg cfgid (xy_x xy) (xy_y xy) p;
          Some (Some d, p)
        }
        else try_positions e cfg cfgid xys p
      })"

definition TrySetMapBuildingDefDir :: "env \<Rightarrow> int \<Rightarrow> player \<Rightarrow> (building_data option \<times> player) option" where
  "TrySetMapBuildingDefDir e cfgid p =
     (case building_map e cfgid of
        None \<Rightarrow> Some (None, p)
      | Some cfg \<Rightarrow> try_positions e cfg cfgid (col_GetAllIndex (p_open_pos p)) p)"

definition Buildings_Set :: "int \<Rightarrow> (building_data \<Rightarrow> building_data) \<Rightarrow> player \<Rightarrow> player" where
  "Buildings_Set k u p = p\<lparr>p_Buildings := snd (col_set_field u k (p_Buildings p))\<rparr>"

definition RelocateMapBuilding :: "env \<Rightarrow> xml_building \<Rightarrow> int \<Rightarrow> int \<times> int \<Rightarrow> int \<times> int \<Rightarrow> int \<times> int \<Rightarrow> int \<times> int \<Rightarrow>
    int \<Rightarrow> player \<Rightarrow> int \<times> player" where
  "RelocateMapBuilding e cfg building_id old_xy old_size new_xy new_size new_dir p =
     (let (old_x, old_y) = old_xy; (old_w, old_h) = old_size;
          (new_x, new_y) = new_xy; (new_w, new_h) = new_size;
          iret = if_pos_can_set_building e new_x new_y new_w new_h building_id (bd_Geography cfg) p
      in if iret < 0 then (iret, p)
         else
           let p = remove_area_building old_x old_y old_w old_h p;
               p = set_area_building new_x new_y new_w new_h building_id p;
               p = Buildings_Set building_id (\<lambda>d. d\<lparr>bld_X := new_x\<rparr>) p;
               p = Buildings_Set building_id (\<lambda>d. d\<lparr>bld_Y := new_y\<rparr>) p;
               p = Buildings_Set building_id (\<lambda>d. d\<lparr>bld_Dir := new_dir\<rparr>) p
           in (bd_Id cfg, p))"

definition MoveMapBuilding :: "env \<Rightarrow> int \<Rightarrow> int \<Rightarrow> int \<Rightarrow> int \<Rightarrow> player \<Rightarrow> (int \<times> player) option" where
  "MoveMapBuilding e building_id x y dir p =
     (case col_Get (p_Buildings p) building_id of
        None \<Rightarrow> Some (E_ERR_BUILDING_NOT_EXIST, p)
      | Some d \<Rightarrow>
        (case building_map e (bld_CfgId d) of
          None \<Rightarrow> Some (E_ERR_BUILDING_NOT_CFG, p)
        | Some cfg \<Rightarrow> do {
            old_size \<leftarrow> map_size cfg (bld_Dir d);
            new_size \<leftarrow> map_size cfg dir;
            let (iret, p) = RelocateMapBuilding e cfg (bld_Id d) (bld_X d, bld_Y d) old_size (x, y) new_size dir p;
            if iret < 0 then Some (iret, p) else Some (bld_CfgId d, p)
          }))"

definition ChgMapBuildingDir :: "env \<Rightarrow> int \<Rightarrow> player \<Rightarrow> (int \<times> player) option" where
  "ChgMapBuildingDir e building_id p =
     (case col_Get (p_Buildings p) building_id of
        None \<Rightarrow> Some (E_ERR_BUILDING_NOT_EXIST, p)
      | Some d \<Rightarrow>
        (case building_map e (bld_CfgId d) of
          None \<Rightarrow> Some (E_ERR_BUILDING_NOT_CFG, p)
        | Some cfg \<Rightarrow> do {
            (width, height) \<leftarrow> map_size cfg (bld_Dir d);
            let new_dir = (if bld_Dir d = BUILDING_DIR_BIG_X_DIR then BUILDING_DIR_BIG_Y_DIR else BUILDING_DIR_BIG_X_DIR);
            let (iret, p) = RelocateMapBuilding e cfg (bld_Id d) (bld_X d, bld_Y d) (width, height)
                (bld_X d, bld_Y d) (height, width) new_dir p;
            if iret < 0 then Some (iret, p) else Some (bld_CfgId d, p)
          }))"


subsection \<open>Blocks and chests\<close>

definition block_uncounted :: "env \<Rightarrow> int \<Rightarrow> player \<Rightarrow> player" where
  "block_uncounted e xy p =
     (let area_id = get0 (area_id_of e) xy
      in if 0 < area_id \<and> 0 < get0 (p_areablocknum p) area_id
         then p\<lparr>p_areablocknum := (p_areablocknum p)(area_id \<mapsto> get0 (p_areablocknum p) area_id - 1)\<rparr>
         else p)"

definition ReomveMapBlock :: "env \<Rightarrow> int \<Rightarrow> player \<Rightarrow> ((int \<times> drops option) \<times> player) option" where
  "ReomveMapBlock e block_id p =
     (case col_Get (p_Buildings p) block_id of
        None \<Rightarrow> Some ((E_ERR_BUILDING_NOT_EXIST, None), p)
      | Some d \<Rightarrow>
        (case building_map e (bld_CfgId d) of
          None \<Rightarrow> Some ((E_ERR_BUILDING_NOT_CFG, None), p)
        | Some cfg \<Rightarrow>
          (case block_map e (bld_CfgId d) of
            None \<Rightarrow> Some ((E_ERR_BUILDING_NOT_CFG, None), p)
          | Some block \<Rightarrow> do {
              enough \<leftarrow> ChkItemsEnough (bk_RemoveItems block) p;
              if \<not> enough then Some ((E_ERR_BUILDING_REMOVE_LESS_ITEM, None), p)
              else do {
                p \<leftarrow> RemoveItems e (bk_RemoveItems block) p;
                (width, height) \<leftarrow> map_size cfg (bld_Dir d);
                p \<leftarrow> ChkUpdateMyBuildingAreas e (block_uncounted e (arena_xy (bld_X d) (bld_Y d)) p);
                let p = RemoveAreaBuilding (bld_Id d) (bld_X d) (bld_Y d) width height p;
                ((bret, ds), p) \<leftarrow> DropItems2 e (bk_DropIds block) True p;
                Some ((bld_CfgId d, if bret then Some ds else None), p)
              }
            })))"

text \<open>A failed drop is dereferenced as nil.\<close>

definition open_chest_result :: "env \<Rightarrow> int \<Rightarrow> player \<Rightarrow> (drops option \<times> player) option" where
  "open_chest_result e chest_cfg_id p =
     (case chest_map e chest_cfg_id of
        None \<Rightarrow> Some (None, p)
      | Some chest \<Rightarrow> do {
          (_, p) \<leftarrow> AddExp e (mc_Exp chest) p;
          ((bret, ds), p) \<leftarrow> DropItems2 e (mc_Rewards chest) True p;
          if \<not> bret then None
          else Some (Some ds, SendDepotBuildingUpdate (SendCatsUpdate (SendItemsUpdate p)))
        })"

definition open_chest_cost :: "env \<Rightarrow> int \<Rightarrow> player \<Rightarrow> (int \<times> player) option" where
  "open_chest_cost e chest_cfg_id p =
     (case chest_map e chest_cfg_id of
        None \<Rightarrow> Some (E_ERR_BUILDING_NOT_CFG, p)
      | Some chest \<Rightarrow> do {
          (enough, p) \<leftarrow> ChkResEnough e (mc_RemoveCost chest) p;
          if \<not> enough then Some (E_ERR_BUILDING_OPEN_MAP_CHEST_LESS_RES, p)
          else do { p \<leftarrow> RemoveResources e (mc_RemoveCost chest) p; Some (1, p) }
        })"

definition return_chest_cost :: "env \<Rightarrow> int \<Rightarrow> player \<Rightarrow> (int \<times> player) option" where
  "return_chest_cost e chest_cfg_id p =
     (case chest_map e chest_cfg_id of
        None \<Rightarrow> Some (E_ERR_BUILDING_NOT_CFG, p)
      | Some chest \<Rightarrow> do { p \<leftarrow> AddResources e (mc_RemoveCost chest) p; Some (1, p) })"

definition return_chest_cost_by_id :: "env \<Rightarrow> int \<Rightarrow> player \<Rightarrow> (int \<times> player) option" where
  "return_chest_cost_by_id e chest_id p =
     (case col_Get (p_Buildings p) chest_id of
        None \<Rightarrow> Some (- 1, p)
      | Some d \<Rightarrow> return_chest_cost e (bld_CfgId d) p)"

text \<open>A missing result is a nil pointer whose id is set afterwards.\<close>

definition OpenMapChest :: "env \<Rightarrow> int \<Rightarrow> bool \<Rightarrow> player \<Rightarrow> ((int \<times> drops option) \<times> player) option" where
  "OpenMapChest e chest_id is_add p =
     (case col_Get (p_Buildings p) chest_id of
        None \<Rightarrow> Some ((E_ERR_BUILDING_NOT_EXIST, None), p)
      | Some d \<Rightarrow>
        (case building_map e (bld_CfgId d) of
          None \<Rightarrow> Some ((E_ERR_BUILDING_NOT_CFG, None), p)
        | Some cfg \<Rightarrow> do {
            (res, p) \<leftarrow> (if is_add then open_chest_cost e (bld_CfgId d) p else Some (0, p));
            if res < 0 then Some ((res, None), p)
            else do {
              (width, height) \<leftarrow> map_size cfg (bld_Dir d);
              p \<leftarrow> ChkUpdateMyBuildingAreas e p;
              let p = RemoveAreaBuilding chest_id (bld_X d) (bld_Y d) width height p;
              if \<not> is_add then do {
                (_, p) \<leftarrow> return_chest_cost e (bld_CfgId d) p;
                Some ((bld_CfgId d, None), p)
              } else do {
                (ds, p) \<leftarrow> open_chest_result e (bld_CfgId d) p;
                (case ds of None \<Rightarrow> None | Some ds \<Rightarrow> Some ((bld_CfgId d, Some ds), p))
              }
            }
          }))"

definition GetBackMapBuilding :: "env \<Rightarrow> int \<Rightarrow> player \<Rightarrow> (int \<times> player) option" where
  "GetBackMapBuilding e building_id p =
     (case col_Get (p_Buildings p) building_id of
        None \<Rightarrow> Some (E_ERR_BUILDING_NOT_EXIST, p)
      | Some d \<Rightarrow>
        (case building_map e (bld_CfgId d) of
          None \<Rightarrow> Some (E_ERR_BUILDING_NOT_CFG, p)
        | Some cfg \<Rightarrow>
            if bd_Type cfg = PLAYER_BUILDING_TYPE_CAT_HOME \<and> cathouse_can_remove building_id p < 0
            then Some (cathouse_can_remove building_id p, p)
            else do {
              (width, height) \<leftarrow> map_size cfg (bld_Dir d);
              let p = RemoveAreaBuilding building_id (bld_X d) (bld_Y d) width height p;
              let p = snd (building_remove building_id p);
              let p = snd (AddDepotBuilding e (bld_CfgId d) 1 p);
              let p = depot_building_update (bld_CfgId d) p;
              p \<leftarrow> (if bd_Type cfg = PLAYER_BUILDING_TYPE_CAT_HOME
                    then do { (_, p) \<leftarrow> cathouse_remove e building_id False p; Some p }
                    else if bd_Type cfg = PLAYER_BUILDING_TYPE_FARMLAND then Some (snd (remove_crop building_id p))
                    else Some p);
              let p = (if 0 < bd_Charm cfg then snd (SubCharmVal (bd_Charm cfg) p) else p);
              Some (bld_CfgId d, p)
            }))"

fun pick_weight :: "('a \<Rightarrow> int) \<Rightarrow> int \<Rightarrow> 'a list \<Rightarrow> 'a option" where
  "pick_weight weight r [] = None"
| "pick_weight weight r (x # xs) = (if r < weight x then Some x else pick_weight weight (i32 (r - weight x)) xs)"

definition RandBlock :: "env \<Rightarrow> player \<Rightarrow> (xml_block option \<times> player) option" where
  "RandBlock e p = do {
     r \<leftarrow> Int31n e (p_ndraws p) (block_TotalWeight e);
     Some (pick_weight bk_Weight r (block_array e), p\<lparr>p_ndraws := Suc (p_ndraws p)\<rparr>)
   }"

definition RandMapChest :: "env \<Rightarrow> player \<Rightarrow> (xml_map_chest option \<times> player) option" where
  "RandMapChest e p = do {
     r \<leftarrow> Int31n e (p_ndraws p) (chest_TotalWeight e);
     Some (pick_weight mc_Weight r (chest_array e), p\<lparr>p_ndraws := Suc (p_ndraws p)\<rparr>)
   }"

text \<open>One turn of the refresh of blocks: the number of new blocks and the player.\<close>

definition block_turn :: "env \<Rightarrow> int \<Rightarrow> player \<Rightarrow> (int \<times> player) option" where
  "block_turn e tmp_unix p = do {
     (block, p) \<leftarrow> RandBlock e p;
     (case block of
        None \<Rightarrow> Some (0, p)
      | Some block \<Rightarrow> do {
          (new, p) \<leftarrow> TrySetMapBuildingDefDir e (bk_Id block) p;
          (case new of
             None \<Rightarrow> Some (0, p)
           | Some d \<Rightarrow>
               let p = snd (building_add (bld_Id d) p);
                   p = Info_Set i_LastMapBlockUpUnix_update (i32 (tmp_unix + gc_MapBlockRefleshSec (config e))) p;
                   p = p\<lparr>p_areablocknum := block_counted e (arena_xy (bld_X d) (bld_Y d)) (p_areablocknum p)\<rparr>
               in Some (1, p\<lparr>p_BlockNum := i32 (p_BlockNum p + 1)\<rparr>))
        })
   }"

definition chest_turn :: "env \<Rightarrow> int \<Rightarrow> int \<Rightarrow> player \<Rightarrow> (int \<times> player) option" where
  "chest_turn e cur_unix tmp_unix p =
     (if chest_MaxLastSec e < i32 (cur_unix - tmp_unix) then Some (0, p)
      else do {
        (chest, p) \<leftarrow> RandMapChest e p;
        (case chest of
           None \<Rightarrow> Some (0, p)
         | Some chest \<Rightarrow>
             if mc_LastSec chest < i32 (cur_unix - tmp_unix) then Some (0, p)
             else do {
               (new, p) \<leftarrow> TrySetMapBuildingDefDir e (mc_Id chest) p;
               (case new of
                  None \<Rightarrow> Some (0, p)
                | Some d \<Rightarrow>
                    let p = Buildings_Set (bld_Id d) (\<lambda>d. d\<lparr>bld_OverUnix := i32 (tmp_unix + mc_LastSec chest)\<rparr>) p;
                        p = snd (building_add (bld_Id d) p);
                        p = Info_Set i_LastMapChestUpUnix_update (i32 (tmp_unix + gc_MapChestRefleshSec (config e))) p
                    in Some (1, p\<lparr>p_BlockNum := i32 (p_BlockNum p + 1)\<rparr>))
             })
      })"

text \<open>The loop over the missed refreshes; a period that is not positive never lets it end.\<close>

partial_function (option) refresh_loop ::
    "(int \<Rightarrow> player \<Rightarrow> (int \<times> player) option) \<Rightarrow> int \<Rightarrow> int \<Rightarrow> int \<Rightarrow> int \<Rightarrow> player \<Rightarrow> (int \<times> player) option" where
  "refresh_loop turn period cur_unix tmp_unix count p =
     (if i32 (tmp_unix + period) < cur_unix
      then Option.bind (turn tmp_unix p)
        (\<lambda>(n, p). refresh_loop turn period cur_unix (i32 (tmp_unix + period)) (i32 (count + n)) p)
      else Some (count, p))"

definition ChkMapBlock :: "env \<Rightarrow> player \<Rightarrow> (int \<times> player) option" where
  "ChkMapBlock e p =
     (if p_Level p < gc_MapBlockRefreshMinLevel (config e) then Some (0, p)
      else if gc_MapBlockMaxNum (config e) \<le> p_BlockNum p then Some (0, p)
      else
        let cur_unix = i32 (now e); last_up_unix = i_LastMapBlockUpUnix (p_Info p)
        in if last_up_unix \<le> 0 then Some (0, Info_Set i_LastMapBlockUpUnix_update cur_unix p)
           else do {
             p \<leftarrow> ChkUpdateMyBuildingAreas e p;
             refresh_loop (block_turn e) (gc_MapBlockRefleshSec (config e)) cur_unix last_up_unix 0 p
           })"

definition ChkMapChest :: "env \<Rightarrow> player \<Rightarrow> (int \<times> player) option" where
  "ChkMapChest e p =
     (if p_Level p < gc_MapBlockRefreshMinLevel (config e) then Some (0, p)
      else if gc_MapBlockMaxNum (config e) \<le> p_BlockNum p then Some (0, p)
      else
        let cur_unix = i32 (now e); last_up_unix = i_LastMapChestUpUnix (p_Info p)
        in if last_up_unix \<le> 0 then Some (0, Info_Set i_LastMapChestUpUnix_update cur_unix p)
           else do {
             p \<leftarrow> ChkUpdateMyBuildingAreas e p;
             refresh_loop (chest_turn e cur_unix) (gc_MapChestRefleshSec (config e)) cur_unix last_up_unix 0 p
           })"

fun check_and_fill_buildings_msg :: "env \<Rightarrow> int list \<Rightarrow> player \<Rightarrow> (building_info list \<times> player) option" where
  "check_and_fill_buildings_msg e [] p = Some ([], p)"
| "check_and_fill_buildings_msg e (k # ks) p =
     (case col_Get (p_Buildings p) k of
        None \<Rightarrow> check_and_fill_buildings_msg e ks p
      | Some d \<Rightarrow>
        (case building_map e (bld_CfgId d) of
          None \<Rightarrow> check_and_fill_buildings_msg e ks p
        | Some cfg \<Rightarrow>
            if bd_Type cfg = PLAYER_BUILDING_TYPE_CAT_HOME \<and> \<not> col_HasIndex (p_CatHouses p) k then do {
              (width, height) \<leftarrow> map_size cfg (bld_Dir d);
              check_and_fill_buildings_msg e ks (RemoveAreaBuilding k (bld_X d) (bld_Y d) width height p)
            } else do {
              (bs, p) \<leftarrow> check_and_fill_buildings_msg e ks p;
              Some (\<lparr>bi_CfgId = bld_CfgId d, bi_Id = k, bi_X = bld_X d, bi_Y = bld_Y d, bi_Dir = bld_Dir d\<rparr> # bs, p)
            }))"


subsection \<open>Areas\<close>

fun areas_open :: "int list \<Rightarrow> player \<Rightarrow> bool" where
  "areas_open [] p = True"
| "areas_open (k # ks) p = (col_HasIndex (p_Areas p) k \<and> areas_open ks p)"

text \<open>The default buildings of an area; those that do not fit are skipped.\<close>

fun set_def_buildings :: "env \<Rightarrow> int \<Rightarrow> default_map_building list \<Rightarrow> int list \<Rightarrow> player \<Rightarrow> (int list \<times> player) option" where
  "set_def_buildings e area_id [] ids p = Some (ids, p)"
| "set_def_buildings e area_id (b # bs) ids p = do {
     x \<leftarrow> go_nth (dm_Point b) 0;
     y \<leftarrow> go_nth (dm_Point b) 1;
     (k, p) \<leftarrow> SetMapBuilding e (dm_Id b) x y (dm_Rotation b) p;
     if 0 < k then
       let p = (if block_map e (dm_Id b) \<noteq> None
                then p\<lparr>p_areablocknum := (p_areablocknum p)(area_id \<mapsto> i32 (get0 (p_areablocknum p) area_id + 1))\<rparr>
                else p)
       in set_def_buildings e area_id bs (ids @ [k]) p
     else set_def_buildings e area_id bs ids p
   }"

text \<open>The price of an area: the error code, 0 when it is paid. An area without an unlock row is a nil
  pointer.\<close>

definition pay_area :: "env \<Rightarrow> xml_area_unlock \<Rightarrow> int \<Rightarrow> player \<Rightarrow> (int \<times> player) option" where
  "pay_area e cfg ifquick p =
     (let pay = (\<lambda>cost p. do {
            (enough, p) \<leftarrow> ChkResEnough e cost p;
            if \<not> enough then Some (E_ERR_BUILDING_AREA_LESS_UNLOCK_RES, p)
            else do { p \<leftarrow> RemoveResources e cost p; Some (0, p) }
          })
      in if ifquick \<noteq> 1 then
           if p_Level p < au_UnlockLevel cfg then Some (E_ERR_BUILDING_AREA_LESS_UNLOCK_LVL, p)
           else if GetTotalTopStar p < au_UnlockStar cfg then Some (E_ERR_BUILDING_AREA_LESS_UNLOCK_STAR, p)
           else pay (au_UnlockCost cfg) p
         else if length (au_QuickUnlockCost cfg) \<noteq> 2 then Some (E_ERR_BUILDING_AREA_CANNOT_QUICK_UNLOCK, p)
         else pay (au_QuickUnlockCost cfg) p)"

definition UnlockArea :: "env \<Rightarrow> int \<Rightarrow> int \<Rightarrow> player \<Rightarrow> ((int \<times> int list) \<times> player) option" where
  "UnlockArea e area_id ifquick p = do {
     p \<leftarrow> ChkUpdateMyBuildingAreas e p;
     if col_HasIndex (p_Areas p) area_id then Some ((E_ERR_BUILDING_AREA_ALERADY_UNLOCKED, []), p)
     else (case area_map e area_id of
         None \<Rightarrow> Some ((E_ERR_BUILDING_AREA_NO_CFG, []), p)
       | Some area \<Rightarrow>
         (case area_unlock_map e area_id of
           None \<Rightarrow> None
         | Some cfg \<Rightarrow>
             if \<not> areas_open (au_FrontAreas cfg) p then Some ((E_ERR_BUILDING_AREA_NEED_PRE, []), p)
             else do {
               (r, p) \<leftarrow> pay_area e cfg ifquick p;
               if r < 0 then Some ((r, []), p)
               else
                 let p = p\<lparr>p_open_pos := open_cells (ba_XYs area) (p_open_pos p)\<rparr>;
                     p = p\<lparr>p_Areas := snd (col_Add area_id () (p_Areas p))\<rparr>
                 in do {
                   (ids, p) \<leftarrow> set_def_buildings e area_id (map snd (ba_DefMapBuildings area)) [] p;
                   Some ((1, ids), p)
                 }
             }))
   }"

fun InitPlayerArea_loop :: "env \<Rightarrow> int list \<Rightarrow> player \<Rightarrow> player option" where
  "InitPlayerArea_loop e [] p = Some p"
| "InitPlayerArea_loop e (k # ks) p = do { (_, p) \<leftarrow> UnlockArea e k 0 p; InitPlayerArea_loop e ks p }"

definition InitPlayerArea :: "env \<Rightarrow> player \<Rightarrow> player option" where
  "InitPlayerArea e p = do { p \<leftarrow> ChkUpdateMyBuildingAreas e p; InitPlayerArea_loop e (init_area_ids e) p }"

text \<open>The rows of a new player, written without any check.\<close>

fun OnPlayerAreaCreate_loop :: "default_map_building list \<Rightarrow> player \<Rightarrow> player option" where
  "OnPlayerAreaCreate_loop [] p = Some p"
| "OnPlayerAreaCreate_loop (b # bs) p = do {
     x \<leftarrow> go_nth (dm_Point b) 0;
     y \<leftarrow> go_nth (dm_Point b) 1;
     let (k, p) = Info_Incby i_NextBuildingId i_NextBuildingId_update 1 p;
     OnPlayerAreaCreate_loop bs (p\<lparr>p_Buildings := snd (col_Add k \<lparr>bld_Id = k, bld_CfgId = dm_Id b, bld_X = x,
       bld_Y = y, bld_Dir = dm_Rotation b, bld_CreateUnix = 0, bld_OverUnix = 0\<rparr> (p_Buildings p))\<rparr>)
   }"

definition OnPlayerAreaCreate :: "env \<Rightarrow> player \<Rightarrow> player option" where
  "OnPlayerAreaCreate e p = OnPlayerAreaCreate_loop (def_map_buildings e) p"

subsection \<open>The handlers\<close>

definition C2SGetBuildingInfos :: "env \<Rightarrow> player \<Rightarrow> (int \<times> player) option" where
  "C2SGetBuildingInfos e p = do {
     (bs, p) \<leftarrow> check_and_fill_buildings_msg e (col_GetAllIndex (p_Buildings p)) p;
     let p = Send_msg (S2CGetBuildingInfos bs) p;
     (n, p) \<leftarrow> ChkMapBlock e p;
     let p = (if 0 < n then SendBuildingUpdate p else p);
     (n, p) \<leftarrow> ChkMapChest e p;
     Some (1, if 0 < n then SendBuildingUpdate p else p)
   }"

definition building_count_max :: "env \<Rightarrow> xml_building \<Rightarrow> int \<Rightarrow> int" where
  "building_count_max e cfg level =
     (if bd_IfFunction cfg = 1 then
        if bd_Type cfg = PLAYER_BUILDING_TYPE_CAT_HOME
        then (case level_map e level of None \<Rightarrow> 1 | Some l \<Rightarrow> lv_MaxCattery l)
        else if bd_Type cfg = PLAYER_BUILDING_TYPE_FARMLAND
        then (case level_map e level of None \<Rightarrow> 1 | Some l \<Rightarrow> lv_MaxFarm l)
        else 1
      else 9999)"

text \<open>The conditions before a building is placed: an error code, or 0.\<close>

definition chk_set_building :: "env \<Rightarrow> xml_building \<Rightarrow> int \<Rightarrow> bool \<Rightarrow> player \<Rightarrow> (int \<times> player) option" where
  "chk_set_building e cfg cfgid buy p =
     (if building_count_max e cfg (p_Level p) \<le> GetCountByType e (bd_Type cfg) p
      then Some (E_ERR_BUILDING_SET_MAX_COUNT, p)
      else if bd_UnlockType cfg = PLAYER_BUILDING_UNLOCK_TYPE_P_LVL \<and> p_Level p < bd_UnlockLevel cfg
      then Some (E_ERR_BUILDING_BUYSET_LESS_P_LVL, p)
      else if bd_UnlockType cfg = PLAYER_BUILDING_UNLOCK_TYPE_VIP_LVL \<and> i_VipLvl (p_Info p) < bd_UnlockLevel cfg
      then Some (E_ERR_BUILDING_BUYSET_LESS_VIP_LVL, p)
      else if buy then
        if bd_Tag cfg \<noteq> PLAYER_BUILDING_TAG_1 then Some (E_ERR_BUILDING_SET_CANNOT_BUY, p)
        else do {
          (enough, p) \<leftarrow> ChkResEnough e (bd_UnlockCosts cfg) p;
          Some (if enough then 0 else E_ERR_BUILDING_NO_ENOUGH_COIN, p)
        }
      else (case col_Get (p_BuildingDepots p) cfgid of
          None \<Rightarrow> Some (E_ERR_BUILDING_NO_DEPOT_BUILDING, p)
        | Some n \<Rightarrow> Some (if n \<le> 0 then E_ERR_BUILDING_NO_DEPOT_BUILDING else 0, p)))"

definition RemoveDepotBuilding :: "int \<Rightarrow> int \<Rightarrow> player \<Rightarrow> bool \<times> player" where
  "RemoveDepotBuilding building_config_id num p =
     (case col_Get (p_BuildingDepots p) building_config_id of
        None \<Rightarrow> (False, p)
      | Some n \<Rightarrow>
          if n < num then (False, p)
          else
            let p = (if n = num then p\<lparr>p_BuildingDepots := col_Remove building_config_id (p_BuildingDepots p)\<rparr>
                     else p\<lparr>p_BuildingDepots :=
                       AList.update building_config_id (i32 (n + i32 (- num))) (p_BuildingDepots p)\<rparr>)
            in (True, depot_building_update building_config_id p))"

definition C2SSetBuilding :: "env \<Rightarrow> int \<Rightarrow> int \<Rightarrow> int \<Rightarrow> int \<Rightarrow> int \<Rightarrow> player \<Rightarrow> (int \<times> player) option" where
  "C2SSetBuilding e cfgid x y dir if_buy p =
     (case building_map e cfgid of
        None \<Rightarrow> Some (E_ERR_BUILDING_NOT_FIND_ITEM, p)
      | Some cfg \<Rightarrow> do {
          (r, p) \<leftarrow> chk_set_building e cfg cfgid (if_buy = 1) p;
          if r < 0 then Some (r, p)
          else do {
            p \<leftarrow> ChkUpdateMyBuildingAreas e p;
            (new_id, p) \<leftarrow> SetMapBuilding e cfgid x y dir p;
            if new_id \<le> 0 then Some (new_id, p)
            else do {
              p \<leftarrow> (if if_buy = 1 then RemoveResources e (bd_UnlockCosts cfg) p
                    else Some (snd (RemoveDepotBuilding cfgid 1 p)));
              let p = snd (building_add new_id p);
              let p = SendDepotBuildingUpdate (SendItemsUpdate (SendBuildingUpdate p));
              p \<leftarrow> (if bd_Type cfg = PLAYER_BUILDING_TYPE_CAT_HOME
                    then do { (_, p) \<leftarrow> create_cathouse e new_id p; Some p }
                    else if bd_Type cfg = PLAYER_BUILDING_TYPE_FOSTER then Some (p\<lparr>p_FosterBuildingId := new_id\<rparr>)
                    else Some p);
              Some (1, if 0 < bd_Charm cfg then snd (AddCharmVal e (bd_Charm cfg) p) else p)
            }
          }
        })"

definition C2SGetBackBuilding :: "env \<Rightarrow> int \<Rightarrow> player \<Rightarrow> (int \<times> player) option" where
  "C2SGetBackBuilding e building_id p = do {
     (iret, p) \<leftarrow> GetBackMapBuilding e building_id p;
     Some (if iret \<le> 0 then (iret, p) else (1, SendDepotBuildingUpdate (SendBuildingUpdate p)))
   }"

definition C2SSellBuilding :: "env \<Rightarrow> int \<Rightarrow> player \<Rightarrow> (int \<times> player) option" where
  "C2SSellBuilding e building_id p =
     (case col_Get (p_Buildings p) building_id of
        None \<Rightarrow> Some (E_ERR_BUILDING_NOT_EXIST, p)
      | Some d \<Rightarrow>
        (case building_map e (bld_CfgId d) of
          None \<Rightarrow> Some (E_ERR_BUILDING_NOT_CFG, p)
        | Some cfg \<Rightarrow>
            let home = (bd_Type cfg = PLAYER_BUILDING_TYPE_CAT_HOME);
                farm = (bd_Type cfg = PLAYER_BUILDING_TYPE_FARMLAND)
            in if home \<and> cathouse_can_remove building_id p < 0 then Some (cathouse_can_remove building_id p, p)
               else if \<not> home \<and> farm then Some (E_ERR_BUILDING_NOT_FOR_SELL, p)
               else if \<not> home \<and> bd_SaleCoin cfg \<le> 0 then Some (E_ERR_BUILDING_NOT_FOR_SELL, p)
               else do {
                 (width, height) \<leftarrow> map_size cfg (bld_Dir d);
                 p \<leftarrow> ChkUpdateMyBuildingAreas e p;
                 let p = RemoveAreaBuilding building_id (bld_X d) (bld_Y d) width height p;
                 p \<leftarrow> (if home then do { (_, p) \<leftarrow> cathouse_remove e building_id True p; Some p }
                       else if farm then Some (snd (AddGold (bd_SaleCoin cfg) (snd (remove_crop building_id p))))
                       else Some p);
                 let p = SendBuildingUpdate (snd (building_remove building_id p));
                 Some (1, if 0 < bd_Charm cfg then snd (SubCharmVal (bd_Charm cfg) p) else p)
               }))"

text \<open>A failed drop is a nil answer whose items are read.\<close>

definition C2SRemoveBlock :: "env \<Rightarrow> int \<Rightarrow> player \<Rightarrow> (int \<times> player) option" where
  "C2SRemoveBlock e block_id p = do {
     ((iret, res), p) \<leftarrow> ReomveMapBlock e block_id p;
     if iret \<le> 0 then Some (iret, p)
     else
       let p = SendBuildingUpdate (snd (building_remove block_id p))
       in (case res of
             None \<Rightarrow> None
           | Some (items, cats, depots) \<Rightarrow>
               let p = fold (\<lambda>it. item_update e (ii_ItemCfgId it)) items p
               in Some (1, Send_msg (S2CRemoveBlock block_id items cats depots) (SendItemsUpdate p)))
   }"

text \<open>The branch of a friend's chest is left out: the id of a friend is 0 here.\<close>

definition C2SOpenMapChest :: "env \<Rightarrow> int \<Rightarrow> player \<Rightarrow> (int \<times> player) option" where
  "C2SOpenMapChest e chest_id p = do {
     ((iret, res), p) \<leftarrow> OpenMapChest e chest_id True p;
     if iret \<le> 0 then Some (iret, p)
     else
       let p = SendBuildingUpdate (snd (building_remove chest_id p))
       in Some (1, case res of None \<Rightarrow> p
            | Some (items, cats, depots) \<Rightarrow> Send_msg (S2COpenMapChest chest_id 0 items cats depots) p)
   }"

definition C2SMoveBuilding :: "env \<Rightarrow> int \<Rightarrow> int \<Rightarrow> int \<Rightarrow> int \<Rightarrow> player \<Rightarrow> (int \<times> player) option" where
  "C2SMoveBuilding e building_id x y dir p = do {
     p \<leftarrow> ChkUpdateMyBuildingAreas e p;
     (iret, p) \<leftarrow> MoveMapBuilding e building_id x y dir p;
     Some (if iret \<le> 0 then (iret, p) else (1, SendBuildingUpdate (snd (building_update building_id p))))
   }"

definition C2SChgBuildingDir :: "env \<Rightarrow> int \<Rightarrow> player \<Rightarrow> (int \<times> player) option" where
  "C2SChgBuildingDir e building_id p = do {
     (iret, p) \<leftarrow> ChgMapBuildingDir e building_id p;
     Some (if iret \<le> 0 then (iret, p) else (1, SendBuildingUpdate (snd (building_update building_id p))))
   }"

definition C2SUnlockArea :: "env \<Rightarrow> int \<Rightarrow> int \<Rightarrow> player \<Rightarrow> (int \<times> player) option" where
  "C2SUnlockArea e area_id if_quick p = do {
     ((ret, ids), p) \<leftarrow> UnlockArea e area_id if_quick p;
     if ret \<noteq> 1 then Some (- 1, p)
     else
       let p = fold (\<lambda>k p. snd (building_add k p)) ids p;
           p = (if ids \<noteq> [] then SendBuildingUpdate p else p)
       in Some (1, Send_msg (S2CGetAreasInfos [area_id]) p)
   }"

definition C2SGetAreasInfos :: "player \<Rightarrow> int \<times> player" where
  "C2SGetAreasInfos p = (1, Send_msg (S2CGetAreasInfos (col_GetAllIndex (p_Areas p))) p)"

end
