(* ===== verification/BuildingMap.thy ===== *)
theory BuildingMap
  imports Building
begin

text \<open>
  What holds of a map: two buildings never cover one cell, and the occupancy map agrees with the
  rows. It rests on cells only, so no bound on coordinates is needed. Two things can break it and
  are excluded by the steps: a building set with its sides exchanged, which the code checks lying
  and places upright, and a counter of building ids that has wrapped.
\<close>

subsection \<open>Frames\<close>

definition map_view :: "player \<Rightarrow> _" where
  "map_view p = (p_Buildings p, p_map_init p, p_building_map p, p_open_pos p, i_NextBuildingId (p_Info p))"

lemma view_side:
  assumes "side q = side p"
  shows "map_view q = map_view p"
  by (simp add: map_view_def side_frame [OF assms])

lemma side_RemoveItems: "RemoveItems e rs p = Some q \<Longrightarrow> side q = side p"
  by (induction e rs p rule: RemoveItems.induct) auto

lemma side_drop_times: "drop_times e lib n b acc p = Some (r, q) \<Longrightarrow> side q = side p"
  by (induction n arbitrary: acc p) (auto dest!: side_drop_item split: bind_splits)

lemma side_drop_pairs: "drop_pairs e rs b acc p = Some (r, q) \<Longrightarrow> side q = side p"
proof (induction e rs b acc p rule: drop_pairs.induct)
  case (1 e k num rs b acc p)
  show ?case
  proof (cases "drop_card_map e k")
    case (Some lib)
    with "1.prems" obtain acc' p' where run: "drop_times e lib (nat num) b acc p = Some (acc', p')"
      "drop_pairs e rs b acc' p' = Some (r, q)" by (auto split: bind_splits)
    from "1.IH" [OF Some run(1) refl run(2)] side_drop_times [OF run(1)] show ?thesis by simp
  qed (use "1.prems" in simp)
qed simp_all

lemma side_DropItems2: "DropItems2 e rs b p = Some (r, q) \<Longrightarrow> side q = side p"
  by (auto simp: DropItems2_def dest!: side_drop_pairs split: bind_splits)

lemma side_building_steps [simp]:
  "side (snd (building_add k p)) = side p" "side (snd (building_remove k p)) = side p"
  "side (snd (building_update k p)) = side p" "side (SendBuildingUpdate p) = side p"
  "side (SendDepotBuildingUpdate p) = side p"
  by (simp_all add: side_def building_add_def building_remove_def building_update_def SendBuildingUpdate_def
      SendDepotBuildingUpdate_def send_buildings_update_def send_depot_building_update_def set_changes_def Let_def
      Send_msg_def emit_def split: option.split)

lemma side_RemoveDepotBuilding [simp]: "side (snd (RemoveDepotBuilding k n p)) = side p"
  by (simp add: RemoveDepotBuilding_def Let_def split: option.split)

lemma view_updates [simp]:
  "map_view (p\<lparr>p_BlockNum := n\<rparr>) = map_view p" "map_view (p\<lparr>p_areablocknum := m\<rparr>) = map_view p"
  "map_view (p\<lparr>p_FosterBuildingId := k\<rparr>) = map_view p" "map_view (p\<lparr>p_Areas := a\<rparr>) = map_view p"
  "map_view (p\<lparr>p_CatHouses := h\<rparr>) = map_view p" "map_view (p\<lparr>p_Crops := c\<rparr>) = map_view p"
  "map_view (p\<lparr>p_ndraws := d\<rparr>) = map_view p" "map_view (Send_msg x p) = map_view p"
  "map_view (Info_Set i_LastMapBlockUpUnix_update v p) = map_view p"
  "map_view (Info_Set i_LastMapChestUpUnix_update v p) = map_view p"
  by (simp_all add: map_view_def Info_Set_def)

lemma view_sides [simp]:
  "map_view (snd (building_add k p)) = map_view p" "map_view (snd (building_remove k p)) = map_view p"
  "map_view (snd (building_update k p)) = map_view p" "map_view (SendBuildingUpdate p) = map_view p"
  "map_view (SendDepotBuildingUpdate p) = map_view p" "map_view (SendItemsUpdate p) = map_view p"
  "map_view (SendCatsUpdate p) = map_view p" "map_view (snd (RemoveDepotBuilding c n p)) = map_view p"
  "map_view (snd (AddDepotBuilding e c n p)) = map_view p" "map_view (depot_building_update c p) = map_view p"
  "map_view (snd (AddCharmVal e v p)) = map_view p" "map_view (snd (SubCharmVal v p)) = map_view p"
  "map_view (snd (AddGold v p)) = map_view p" "map_view (snd (SubGold v p)) = map_view p" "map_view (item_update e c p) = map_view p"
  by (rule view_side; simp)+

lemma view_crop [simp]: "map_view (snd (remove_crop k p)) = map_view p"
  by (simp add: remove_crop_def)

lemma view_cathouse: "cathouse_remove e k b p = Some (r, q) \<Longrightarrow> map_view q = map_view p"
  by (auto simp: cathouse_remove_def split: option.splits bind_splits if_splits)

lemma view_CatHouses_Set [simp]: "map_view (CatHouses_Set k u p) = map_view p"
  by (simp add: CatHouses_Set_def)

lemma view_update_level: "map_view (snd (update_cathouse_level e k p)) = map_view p"
  by (auto simp: update_cathouse_level_def Let_def split: option.splits)

lemma view_send_cathouse: "send_cathouse_info e k b p = Some q \<Longrightarrow> map_view q = map_view p"
  using view_update_level [of e k p]
  by (auto simp: send_cathouse_info_def split_beta split: option.splits bind_splits if_splits)

lemma view_start_levelup: "cathouse_start_levelup e k b p = Some (r, q) \<Longrightarrow> map_view q = map_view p"
  by (auto simp: cathouse_start_levelup_def Let_def dest!: view_send_cathouse
      split: option.splits bind_splits if_splits)

lemma view_create: "create_cathouse e k p = Some (r, q) \<Longrightarrow> map_view q = map_view p"
  by (auto simp: create_cathouse_def Let_def dest!: view_start_levelup view_send_cathouse
      split: option.splits bind_splits if_splits)


subsection \<open>The cells of a building\<close>

definition cells_of :: "env \<Rightarrow> building_data \<Rightarrow> int set" where
  "cells_of e d =
     (case building_map e (bld_CfgId d) of None \<Rightarrow> {}
      | Some cfg \<Rightarrow> (case map_size cfg (bld_Dir d) of None \<Rightarrow> {}
          | Some (width, height) \<Rightarrow> set (rect (bld_X d) (bld_Y d) width height)))"

definition covers :: "env \<Rightarrow> building_data column \<Rightarrow> int \<Rightarrow> int \<Rightarrow> bool" where
  "covers e m k xy \<longleftrightarrow> (\<exists>d. map_of m k = Some d \<and> xy \<in> cells_of e d)"

definition bld_rows_ok :: "building_data column \<Rightarrow> int \<Rightarrow> bool" where
  "bld_rows_ok m last_id \<longleftrightarrow> col_wf m \<and> 0 \<le> last_id \<and> last_id \<le> max32 \<and>
     (\<forall>k d. map_of m k = Some d \<longrightarrow> bld_Id d = k \<and> 0 < k \<and> k \<le> last_id)"

definition disjoint_cells :: "env \<Rightarrow> building_data column \<Rightarrow> bool" where
  "disjoint_cells e m \<longleftrightarrow> (\<forall>k j xy. covers e m k xy \<longrightarrow> covers e m j xy \<longrightarrow> k = j)"

definition map_ok :: "env \<Rightarrow> player \<Rightarrow> bool" where
  "map_ok e p \<longleftrightarrow> bld_rows_ok (p_Buildings p) (i_NextBuildingId (p_Info p)) \<and> disjoint_cells e (p_Buildings p) \<and>
     (if p_map_init p then \<forall>xy k. p_building_map p xy = Some k \<longleftrightarrow> covers e (p_Buildings p) k xy
      else p_open_pos p = [])"

lemma map_ok_view: "map_view q = map_view p \<Longrightarrow> map_ok e q = map_ok e p"
  by (simp add: map_ok_def map_view_def)

lemma map_okD:
  assumes "map_ok e p"
  shows "bld_rows_ok (p_Buildings p) (i_NextBuildingId (p_Info p))" "disjoint_cells e (p_Buildings p)"
    "p_map_init p \<Longrightarrow> p_building_map p xy = Some k \<longleftrightarrow> covers e (p_Buildings p) k xy"
    "\<not> p_map_init p \<Longrightarrow> p_open_pos p = []"
  using assms by (auto simp: map_ok_def)

lemma fold_set_cells: "fold (\<lambda>xy m. m(xy \<mapsto> k)) cells m = (\<lambda>xy. if xy \<in> set cells then Some k else m xy)"
  by (induction cells arbitrary: m) (auto simp: fun_eq_iff)

lemma fold_remove_cells: "fold (\<lambda>xy m. m(xy := None)) cells m = (\<lambda>xy. if xy \<in> set cells then None else m xy)"
  by (induction cells arbitrary: m) (auto simp: fun_eq_iff)

lemma check_cells_ok:
  "0 \<le> check_cells e extra bits cells p \<Longrightarrow> xy \<in> set cells \<Longrightarrow>
     map_of (p_open_pos p) xy = Some 1 \<and> (\<forall>k. p_building_map p xy = Some k \<longrightarrow> 0 < k \<longrightarrow> k = extra)"
  by (induction cells) (auto simp: Let_def get0_def split: if_splits option.splits)

lemma covers_update:
  "covers e (AList.update k d m) j xy \<longleftrightarrow> (if j = k then xy \<in> cells_of e d else covers e m j xy)"
  by (auto simp: covers_def col_simps)

lemma covers_delete: "covers e (col_Remove k m) j xy \<longleftrightarrow> j \<noteq> k \<and> covers e m j xy"
  by (auto simp: covers_def col_simps)

lemma bld_rows_update: "bld_rows_ok m last_id \<Longrightarrow> map_of m k = Some d \<Longrightarrow> bld_Id d' = k \<Longrightarrow> bld_rows_ok (AList.update k d' m) last_id"
  by (auto simp: bld_rows_ok_def col_simps)

lemma bld_rows_remove: "bld_rows_ok m last_id \<Longrightarrow> bld_rows_ok (col_Remove k m) last_id"
  by (auto simp: bld_rows_ok_def col_simps)

subsection \<open>The map is computed from the rows\<close>

lemma all_pos:
  "GetAllBuildingPos e ds pos nums = Some (pos', nums') \<Longrightarrow>
     (\<forall>xy. pos' xy = (case find (\<lambda>d. xy \<in> cells_of e d) (rev ds) of None \<Rightarrow> pos xy | Some d \<Rightarrow> Some (bld_Id d)))"
proof (induction e ds pos nums rule: GetAllBuildingPos.induct)
  case (2 e d ds pos nums)
  have find_snoc: "find P (xs @ [y]) = (case find P xs of None \<Rightarrow> if P y then Some y else None | Some x \<Rightarrow> Some x)"
    for P :: "building_data \<Rightarrow> bool" and xs y by (induction xs) auto
  show ?case
  proof (cases "building_map e (bld_CfgId d)")
    case None
    with 2 show ?thesis by (auto simp: find_snoc cells_of_def split: option.split)
  next
    case (Some cfg)
    with "2.prems" obtain w h nums2 where ms: "map_size cfg (bld_Dir d) = Some (w, h)" and
      run: "GetAllBuildingPos e ds (fold (\<lambda>xy m. m(xy \<mapsto> bld_Id d)) (rect (bld_X d) (bld_Y d) w h) pos) nums2 = Some (pos', nums')"
      by (auto simp: Let_def split: bind_splits)
    from "2.IH"(2) [OF Some ms refl refl] run Some ms "2.prems" show ?thesis
      by (auto simp: find_snoc cells_of_def fold_set_cells Let_def split: option.split)
  qed
qed simp

lemma find_mem: "find P xs = Some x \<Longrightarrow> x \<in> set xs \<and> P x"
  by (induction xs) (auto split: if_splits)

lemma pos_covers:
  assumes "GetAllBuildingPos e (map snd m) Map.empty nums = Some (pos, nums')" "bld_rows_ok m last_id" "disjoint_cells e m"
  shows "pos xy = Some k \<longleftrightarrow> covers e m k xy"
proof -
  have mem: "d \<in> set (map snd m) \<longleftrightarrow> map_of m (bld_Id d) = Some d" for d
  proof
    assume "d \<in> set (map snd m)"
    then obtain j where "(j, d) \<in> set m" by auto
    then have "map_of m j = Some d" using assms(2) by (simp add: bld_rows_ok_def col_wf_def)
    moreover from this have "bld_Id d = j" using assms(2) by (simp add: bld_rows_ok_def)
    ultimately show "map_of m (bld_Id d) = Some d" by simp
  qed (force dest: map_of_SomeD)
  let ?f = "find (\<lambda>d. xy \<in> cells_of e d) (rev (map snd m))"
  have pos: "pos xy = map_option bld_Id ?f" using all_pos [OF assms(1)] by (auto split: option.split)
  show ?thesis
  proof
    assume "pos xy = Some k"
    with pos obtain d where "?f = Some d" "bld_Id d = k" by (cases ?f) auto
    then have "d \<in> set (map snd m)" "xy \<in> cells_of e d" using find_mem by force+
    with mem \<open>bld_Id d = k\<close> show "covers e m k xy" by (auto simp: covers_def)
  next
    assume cov: "covers e m k xy"
    then obtain d where d: "map_of m k = Some d" "xy \<in> cells_of e d" by (auto simp: covers_def)
    then have "d \<in> set (map snd m)" using map_of_SomeD by force
    with d have "?f \<noteq> None" by (auto simp: find_None_iff)
    then obtain d' where d': "?f = Some d'" by auto
    then have "d' \<in> set (map snd m)" "xy \<in> cells_of e d'" using find_mem by force+
    with mem have "covers e m (bld_Id d') xy" by (auto simp: covers_def)
    with assms(3) cov have "bld_Id d' = k" by (auto simp: disjoint_cells_def)
    with pos d' show "pos xy = Some k" by simp
  qed
qed

lemma ChkUpdate_ok:
  assumes "map_ok e p" "ChkUpdateMyBuildingAreas e p = Some q"
  shows "map_ok e q" "p_map_init q" "p_Buildings q = p_Buildings p" "i_NextBuildingId (p_Info q) = i_NextBuildingId (p_Info p)"
proof -
  have "map_ok e q \<and> p_map_init q \<and> p_Buildings q = p_Buildings p \<and> p_Info q = p_Info p"
  proof (cases "p_map_init p")
    case False
    with assms(2) obtain pos nums where run: "GetAllBuildingPos e (map snd (p_Buildings p)) Map.empty Map.empty = Some (pos, nums)"
      and q: "p_map_init q" "p_Buildings q = p_Buildings p" "p_building_map q = pos" "p_Info q = p_Info p"
      by (auto simp: ChkUpdateMyBuildingAreas_def split: bind_splits)
    with pos_covers [OF run map_okD(1,2) [OF assms(1)]] map_okD(1,2) [OF assms(1)] show ?thesis
      by (simp add: map_ok_def)
  qed (use assms in \<open>simp add: ChkUpdateMyBuildingAreas_def\<close>)
  then show "map_ok e q" "p_map_init q" "p_Buildings q = p_Buildings p"
    "i_NextBuildingId (p_Info q) = i_NextBuildingId (p_Info p)" by simp_all
qed


subsection \<open>Placing\<close>

definition grows :: "player \<Rightarrow> player \<Rightarrow> bool" where
  "grows p q \<longleftrightarrow> dom (map_of (p_Buildings p)) \<subseteq> dom (map_of (p_Buildings q))"

text \<open>The counter of ids has not wrapped: every id is positive.\<close>

definition ids_positive :: "player \<Rightarrow> bool" where
  "ids_positive p \<longleftrightarrow> (\<forall>k\<in>dom (map_of (p_Buildings p)). 0 < k)"

lemma grows_refl [simp]: "grows p p"
  by (simp add: grows_def)

lemma grows_trans [trans]: "grows p q \<Longrightarrow> grows q r \<Longrightarrow> grows p r"
  by (auto simp: grows_def)

lemma grows_positive: "grows p q \<Longrightarrow> ids_positive q \<Longrightarrow> ids_positive p"
  by (auto simp: grows_def ids_positive_def)

lemma view_grows: "map_view q = map_view p \<Longrightarrow> grows p q"
  by (simp add: map_view_def grows_def)

lemma view_positive: "map_view q = map_view p \<Longrightarrow> ids_positive q = ids_positive p"
  by (simp add: map_view_def ids_positive_def)

lemma place_run:
  assumes "place_building e cfg cfgid x y p = Some (d, q)"
  obtains k w h where "map_size cfg 0 = Some (w, h)" "k = i32 (i_NextBuildingId (p_Info p) + 1)"
    "d = \<lparr>bld_Id = k, bld_CfgId = cfgid, bld_X = x, bld_Y = y, bld_Dir = 0, bld_CreateUnix = i32 (now e), bld_OverUnix = 0\<rparr>"
    "p_Buildings q = snd (col_Add k d (p_Buildings p))" "i_NextBuildingId (p_Info q) = k" "p_map_init q = p_map_init p"
    "p_open_pos q = p_open_pos p"
    "p_building_map q = fold (\<lambda>xy m. m(xy \<mapsto> k)) (rect x y w h) (p_building_map p)"
  using assms
  by (auto simp: place_building_def Info_Incby_def Info_Set_def Let_def set_area_building_def split: bind_splits)

lemma place_grows: "place_building e cfg cfgid x y p = Some (d, q) \<Longrightarrow> grows p q"
  by (erule place_run) (auto simp: grows_def col_simps)

lemma place_id: "place_building e cfg cfgid x y p = Some (d, q) \<Longrightarrow> ids_positive q \<Longrightarrow> 0 < bld_Id d"
  by (erule place_run) (auto simp: ids_positive_def col_simps dom_def split: if_splits)

lemma place_ok:
  assumes ok: "map_ok e p" and run: "place_building e cfg cfgid x y p = Some (d, q)" and cfg: "building_map e cfgid = Some cfg"
    and size: "map_size cfg 0 = Some (w, h)" and chk: "0 \<le> if_pos_can_set_building e x y w h 0 bits p"
    and pos: "ids_positive q"
  shows "map_ok e q"
proof -
  note rows = map_okD(1) [OF ok] and dis = map_okD(2) [OF ok] and maps = map_okD(3) [OF ok] and closed = map_okD(4) [OF ok]
  from run obtain k w' h' where size': "map_size cfg 0 = Some (w', h')" and k: "k = i32 (i_NextBuildingId (p_Info p) + 1)" and
    d: "d = \<lparr>bld_Id = k, bld_CfgId = cfgid, bld_X = x, bld_Y = y, bld_Dir = 0, bld_CreateUnix = i32 (now e), bld_OverUnix = 0\<rparr>" and
    q: "p_Buildings q = snd (col_Add k d (p_Buildings p))" "i_NextBuildingId (p_Info q) = k" "p_map_init q = p_map_init p"
    "p_open_pos q = p_open_pos p"
    "p_building_map q = fold (\<lambda>xy m. m(xy \<mapsto> k)) (rect x y w' h') (p_building_map p)" by (rule place_run)
  have qm: "p_building_map q = (\<lambda>xy. if xy \<in> set (rect x y w h) then Some k else p_building_map p xy)"
    using size size' by (simp add: q(5) fold_set_cells)
  have "0 < k" using place_id [OF run pos] d by simp
  moreover have "0 \<le> i_NextBuildingId (p_Info p)" "i_NextBuildingId (p_Info p) \<le> max32"
    using rows by (auto simp: bld_rows_ok_def)
  ultimately have knext: "k = i_NextBuildingId (p_Info p) + 1" "k \<le> max32"
    using k by (cases "i_NextBuildingId (p_Info p) = max32"; simp add: i32_range_id i32_def)+
  then have fresh: "map_of (p_Buildings p) k = None"
    using rows knext(1) by (cases "map_of (p_Buildings p) k") (fastforce simp: bld_rows_ok_def)+
  then have qB: "p_Buildings q = AList.update k d (p_Buildings p)" by (simp add: q(1) col_Add_def col_simps)
  have cells: "cells_of e d = set (rect x y w h)" using cfg size by (simp add: cells_of_def d)
  have chk: "map_of (p_open_pos p) xy = Some 1 \<and> (\<forall>k. p_building_map p xy = Some k \<longrightarrow> \<not> 0 < k)" if "xy \<in> cells_of e d" for xy
    using check_cells_ok [OF chk [unfolded if_pos_can_set_building_def], of xy] that cells by auto
  have free: "\<not> covers e (p_Buildings p) j xy" if "xy \<in> cells_of e d" for j xy
  proof
    assume cov: "covers e (p_Buildings p) j xy"
    then have "0 < j" using rows by (auto simp: bld_rows_ok_def covers_def)
    with chk [OF that] cov maps closed show False by (cases "p_map_init p") auto
  qed
  show ?thesis
    unfolding map_ok_def
  proof (intro conjI)
    show "bld_rows_ok (p_Buildings q) (i_NextBuildingId (p_Info q))"
      using rows knext \<open>0 < k\<close> by (auto simp: bld_rows_ok_def qB q(2) col_simps d split: if_splits) fastforce
    show "disjoint_cells e (p_Buildings q)"
      using dis free unfolding disjoint_cells_def qB covers_update by metis
    show "if p_map_init q then \<forall>xy j. p_building_map q xy = Some j \<longleftrightarrow> covers e (p_Buildings q) j xy else p_open_pos q = []"
    proof (cases "p_map_init p")
      case True
      have "covers e (p_Buildings p) k xy \<longleftrightarrow> False" for xy using fresh by (simp add: covers_def)
      with True free maps cells show ?thesis by (auto simp: q(3) qm qB covers_update)
    qed (use closed q(3,4) in simp)
  qed
qed

text \<open>The building fits the same cells in both directions, or is set in the upright one.\<close>

definition upright :: "env \<Rightarrow> int \<Rightarrow> int \<Rightarrow> bool" where
  "upright e cfgid dir \<longleftrightarrow> (\<forall>cfg. building_map e cfgid = Some cfg \<longrightarrow> map_size cfg dir = map_size cfg BUILDING_DIR_BIG_X_DIR)"

lemma SetMap_run:
  assumes "SetMapBuilding e cfgid x y dir p = Some (r, q)"
  obtains (kept) "q = p" | (placed) cfg w h d where "building_map e cfgid = Some cfg" "map_size cfg dir = Some (w, h)"
    "0 \<le> if_pos_can_set_building e x y w h 0 (bd_Geography cfg) p" "place_building e cfg cfgid x y p = Some (d, q)"
  using assms by (auto simp: SetMapBuilding_def Let_def split: option.splits bind_splits if_splits)

lemma SetMap_grows: "SetMapBuilding e cfgid x y dir p = Some (r, q) \<Longrightarrow> grows p q"
  by (erule SetMap_run) (auto dest: place_grows)

lemma SetMap_ok:
  assumes "map_ok e p" "SetMapBuilding e cfgid x y dir p = Some (r, q)" "upright e cfgid dir" "ids_positive q"
  shows "map_ok e q"
  using assms(2)
proof (cases rule: SetMap_run)
  case (placed cfg w h d)
  with assms(3) have "map_size cfg 0 = Some (w, h)" by (simp add: upright_def)
  from place_ok [OF assms(1) placed(4,1) this placed(3) assms(4)] show ?thesis .
qed (use assms(1) in simp)

lemma try_grows: "try_positions e cfg cfgid xys p = Some (r, q) \<Longrightarrow> grows p q"
  by (induction e cfg cfgid xys p rule: try_positions.induct) (auto dest: place_grows split: if_splits bind_splits)

lemma try_ok:
  assumes "try_positions e cfg cfgid xys p = Some (r, q)" "map_ok e p" "building_map e cfgid = Some cfg" "ids_positive q"
  shows "map_ok e q"
  using assms
proof (induction e cfg cfgid xys p rule: try_positions.induct)
  case (2 e cfg cfgid xy xys p)
  show ?case
  proof (cases "IfXYAreaBlockFull e xy p")
    case False
    with "2.prems" obtain w h where size: "map_size cfg 0 = Some (w, h)" by (auto split: bind_splits)
    show ?thesis
    proof (cases "0 \<le> if_pos_can_set_building e (xy_x xy) (xy_y xy) w h 0 (bd_Geography cfg) p")
      case True
      with "2.prems" False size obtain d where "place_building e cfg cfgid (xy_x xy) (xy_y xy) p = Some (d, q)"
        by (auto split: bind_splits)
      from place_ok [OF _ this _ size True] "2.prems" show ?thesis by simp
    qed (use "2.prems" "2.IH" False size in simp)
  qed (use "2.prems" "2.IH" in simp)
qed simp_all

lemma TrySet_grows: "TrySetMapBuildingDefDir e cfgid p = Some (r, q) \<Longrightarrow> grows p q"
  by (auto simp: TrySetMapBuildingDefDir_def dest: try_grows split: option.splits)

lemma TrySet_ok: "TrySetMapBuildingDefDir e cfgid p = Some (r, q) \<Longrightarrow> map_ok e p \<Longrightarrow> ids_positive q \<Longrightarrow> map_ok e q"
  by (auto simp: TrySetMapBuildingDefDir_def dest: try_ok split: option.splits)

subsection \<open>Moving and removing\<close>

lemma Remove_ok:
  assumes ok: "map_ok e p" and d: "map_of (p_Buildings p) k = Some d" and cfg: "building_map e (bld_CfgId d) = Some cfg"
    and size: "map_size cfg (bld_Dir d) = Some (w, h)"
  shows "map_ok e (RemoveAreaBuilding k (bld_X d) (bld_Y d) w h p)"
proof -
  note rows = map_okD(1) [OF ok] and dis = map_okD(2) [OF ok] and maps = map_okD(3) [OF ok] and closed = map_okD(4) [OF ok]
  have cells: "cells_of e d = set (rect (bld_X d) (bld_Y d) w h)" by (simp add: cells_of_def cfg size)
  have own: "covers e (p_Buildings p) k xy \<longleftrightarrow> xy \<in> cells_of e d" for xy by (simp add: covers_def d)
  have "disjoint_cells e (col_Remove k (p_Buildings p))" using dis by (auto simp: disjoint_cells_def covers_delete)
  moreover have "(if xy \<in> cells_of e d then None else p_building_map p xy) = Some j \<longleftrightarrow>
      j \<noteq> k \<and> covers e (p_Buildings p) j xy" if "p_map_init p" for xy j
    using maps [OF that, of xy j] own [of xy] dis unfolding disjoint_cells_def by auto
  ultimately show ?thesis
    using bld_rows_remove [OF rows, of k] closed
    by (simp add: map_ok_def RemoveAreaBuilding_def remove_area_building_def Let_def fold_remove_cells covers_delete cells)
qed

lemma Relocate_ok:
  assumes ok: "map_ok e p" and d: "map_of (p_Buildings p) k = Some d" and cfg: "building_map e (bld_CfgId d) = Some cfg"
    and old: "map_size cfg (bld_Dir d) = Some old_size" and new: "map_size cfg new_dir = Some new_size"
    and run: "RelocateMapBuilding e cfg k (bld_X d, bld_Y d) old_size (x, y) new_size new_dir p = (r, q)"
  shows "map_ok e q"
proof -
  note rows = map_okD(1) [OF ok] and dis = map_okD(2) [OF ok] and maps = map_okD(3) [OF ok] and closed = map_okD(4) [OF ok]
  obtain ow oh nw nh where sizes: "old_size = (ow, oh)" "new_size = (nw, nh)" by (cases old_size; cases new_size)
  let ?d = "d\<lparr>bld_X := x, bld_Y := y, bld_Dir := new_dir\<rparr>"
  show ?thesis
  proof (cases "if_pos_can_set_building e x y nw nh k (bd_Geography cfg) p < 0")
    case True
    with run ok show ?thesis by (auto simp: RelocateMapBuilding_def sizes)
  next
    case False
    have q: "p_Buildings q = AList.update k (d\<lparr>bld_X := x, bld_Y := y, bld_Dir := new_dir\<rparr>)
          (AList.update k (d\<lparr>bld_X := x, bld_Y := y\<rparr>) (AList.update k (d\<lparr>bld_X := x\<rparr>) (p_Buildings p)))"
      "p_building_map q = (\<lambda>xy. if xy \<in> set (rect x y nw nh) then Some k
         else if xy \<in> set (rect (bld_X d) (bld_Y d) ow oh) then None else p_building_map p xy)"
      "p_map_init q = p_map_init p" "p_open_pos q = p_open_pos p" "p_Info q = p_Info p"
      using run False d by (auto simp: RelocateMapBuilding_def sizes Let_def Buildings_Set_def set_area_building_def
          remove_area_building_def fold_set_cells fold_remove_cells col_set_field_def col_simps)
    have cov: "covers e (p_Buildings q) j xy \<longleftrightarrow> (if j = k then xy \<in> cells_of e ?d else covers e (p_Buildings p) j xy)" for j xy
      by (simp add: q(1) covers_update)
    have cells: "cells_of e d = set (rect (bld_X d) (bld_Y d) ow oh)" "cells_of e ?d = set (rect x y nw nh)"
      using cfg old new by (simp_all add: cells_of_def sizes)
    have own: "covers e (p_Buildings p) k xy \<longleftrightarrow> xy \<in> cells_of e d" for xy by (simp add: covers_def d)
    have free: "covers e (p_Buildings p) j xy \<Longrightarrow> j = k" if "xy \<in> cells_of e ?d" for j xy
    proof -
      assume c: "covers e (p_Buildings p) j xy"
      from check_cells_ok [of e k "bd_Geography cfg" "rect x y nw nh" p xy] False that cells(2)
      have chk: "map_of (p_open_pos p) xy = Some 1" "\<And>j. p_building_map p xy = Some j \<Longrightarrow> 0 < j \<Longrightarrow> j = k"
        by (auto simp: if_pos_can_set_building_def)
      have "0 < j" using c rows by (auto simp: bld_rows_ok_def covers_def)
      with chk c maps closed show "j = k" by (cases "p_map_init p") auto
    qed
    have "bld_rows_ok (p_Buildings q) (i_NextBuildingId (p_Info q))"
      using rows d unfolding q(1,5) by (auto simp: bld_rows_ok_def col_simps)
    moreover have "disjoint_cells e (p_Buildings q)"
      using dis free unfolding disjoint_cells_def cov by metis
    moreover have "p_building_map q xy = Some j \<longleftrightarrow> covers e (p_Buildings q) j xy" if "p_map_init p" for xy j
      using maps [OF that, of xy j] own [of xy] free [of xy j] dis cells
      unfolding disjoint_cells_def cov q(2) by (auto split: if_splits)
    ultimately show ?thesis using closed by (simp add: map_ok_def q(3,4))
  qed
qed

lemma row_id: "map_ok e p \<Longrightarrow> map_of (p_Buildings p) k = Some d \<Longrightarrow> bld_Id d = k"
  using map_okD(1) by (auto simp: bld_rows_ok_def)

lemma Move_ok: "MoveMapBuilding e k x y dir p = Some (r, q) \<Longrightarrow> map_ok e p \<Longrightarrow> map_ok e q"
  by (auto simp: MoveMapBuilding_def col_simps row_id split_beta Let_def
      dest: Relocate_ok Relocate_ok [OF _ _ _ _ _ prod.collapse [symmetric]] split: option.splits bind_splits if_splits)

lemma ChgDir_ok: "ChgMapBuildingDir e k p = Some (r, q) \<Longrightarrow> map_ok e p \<Longrightarrow> map_ok e q"
proof -
  assume run: "ChgMapBuildingDir e k p = Some (r, q)" and ok: "map_ok e p"
  show "map_ok e q"
  proof (cases "map_of (p_Buildings p) k")
    case (Some d)
    show ?thesis
    proof (cases "building_map e (bld_CfgId d)")
      case cfg: (Some cfg)
      let ?new = "if bld_Dir d = 0 then 1 else 0"
      from run Some cfg obtain w h where size: "map_size cfg (bld_Dir d) = Some (w, h)"
        by (auto simp: ChgMapBuildingDir_def col_simps split: bind_splits)
      then have "map_size cfg ?new = Some (h, w)" by (auto simp: map_size_def split: bind_splits if_splits)
      from Relocate_ok [OF ok Some cfg size this] run Some cfg size row_id [OF ok Some] show ?thesis
        by (auto simp: ChgMapBuildingDir_def col_simps Let_def split_beta prod_eq_iff split: if_splits)
    qed (use run ok Some in \<open>simp add: ChgMapBuildingDir_def col_simps\<close>)
  qed (use run ok in \<open>simp add: ChgMapBuildingDir_def col_simps\<close>)
qed


subsection \<open>The refresh of blocks and chests\<close>

lemma Buildings_Set_cells:
  assumes "\<And>d. bld_Id (u d) = bld_Id d \<and> cells_of e (u d) = cells_of e d"
  shows "map_ok e (Buildings_Set k u p) = map_ok e p" "ids_positive (Buildings_Set k u p) = ids_positive p"
    "grows (Buildings_Set k u p) q = grows p q" "grows q (Buildings_Set k u p) = grows q p"
proof -
  let ?m = "snd (col_set_field u k (p_Buildings p))"
  have "covers e ?m j xy = covers e (p_Buildings p) j xy" for j xy
    using assms by (auto simp: covers_def col_simps split: option.splits)
  moreover have dom: "dom (map_of ?m) = dom (map_of (p_Buildings p))" by (auto simp: col_simps split: option.splits if_splits)
  moreover have "(\<forall>j d. map_of ?m j = Some d \<longrightarrow> bld_Id d = j \<and> 0 < j \<and> j \<le> n) \<longleftrightarrow>
      (\<forall>j d. map_of (p_Buildings p) j = Some d \<longrightarrow> bld_Id d = j \<and> 0 < j \<and> j \<le> n)" for n
    using assms by (auto simp: col_simps split: option.splits if_splits)
  moreover have "col_wf ?m = col_wf (p_Buildings p)"
    by (auto simp: col_set_field_def col_wf_def distinct_update update_keys split: option.split) 
  ultimately show "map_ok e (Buildings_Set k u p) = map_ok e p" "ids_positive (Buildings_Set k u p) = ids_positive p"
    "grows (Buildings_Set k u p) q = grows p q" "grows q (Buildings_Set k u p) = grows q p"
    by (simp_all add: map_ok_def bld_rows_ok_def disjoint_cells_def ids_positive_def grows_def Buildings_Set_def)
qed

lemma OverUnix_cells: "bld_Id (d\<lparr>bld_OverUnix := t\<rparr>) = bld_Id d \<and> cells_of e (d\<lparr>bld_OverUnix := t\<rparr>) = cells_of e d"
  by (simp add: cells_of_def cong: option.case_cong)

lemmas OverUnix_Set = Buildings_Set_cells [OF OverUnix_cells]

definition safe_turn :: "env \<Rightarrow> player \<Rightarrow> player \<Rightarrow> bool" where
  "safe_turn e p q \<longleftrightarrow> grows p q \<and> (map_ok e p \<longrightarrow> ids_positive q \<longrightarrow> map_ok e q)"

lemma safe_view:
  assumes "map_view q = map_view p"
  shows "safe_turn e p q"
  by (simp add: safe_turn_def view_grows [OF assms] map_ok_view [OF assms])

lemma safe_trans: "safe_turn e p q \<Longrightarrow> safe_turn e q r \<Longrightarrow> safe_turn e p r"
  by (auto simp: safe_turn_def intro: grows_trans dest: grows_positive)

lemma safe_TrySet: "TrySetMapBuildingDefDir e k p = Some (r, q) \<Longrightarrow> safe_turn e p q"
  unfolding safe_turn_def using TrySet_grows TrySet_ok by blast

lemma safe_after: "safe_turn e p q \<Longrightarrow> map_view r = map_view q \<Longrightarrow> safe_turn e p r"
  by (rule safe_trans) (auto intro: safe_view)

lemma safe_before: "map_view p' = map_view p \<Longrightarrow> safe_turn e p' q \<Longrightarrow> safe_turn e p q"
  by (rule safe_trans [OF safe_view])

lemma safe_OverUnix: "safe_turn e p q \<Longrightarrow> safe_turn e p (Buildings_Set k (\<lambda>d. d\<lparr>bld_OverUnix := t\<rparr>) q)"
  by (simp add: safe_turn_def OverUnix_Set)

lemma safe_try_draw: "TrySetMapBuildingDefDir e k (p\<lparr>p_ndraws := n\<rparr>) = Some (r, q) \<Longrightarrow> safe_turn e p q"
  by (rule safe_before [OF _ safe_TrySet]) simp_all

lemma safe_block_turn: "block_turn e u p = Some (n, q) \<Longrightarrow> safe_turn e p q"
  by (auto simp: block_turn_def RandBlock_def Let_def safe_view dest!: safe_try_draw
      split: bind_splits option.splits) (erule safe_after, simp)

lemma safe_chest_turn: "chest_turn e c u p = Some (n, q) \<Longrightarrow> safe_turn e p q"
  by (auto simp: chest_turn_def RandMapChest_def Let_def safe_view dest!: safe_try_draw
      split: bind_splits option.splits if_splits) (erule safe_after [OF safe_OverUnix], simp)

lemma safe_refresh:
  assumes turn: "\<And>u p n q. turn u p = Some (n, q) \<Longrightarrow> safe_turn e p q"
    and run: "refresh_loop turn period c u n p = Some (m, q)"
  shows "safe_turn e p q"
proof -
  let ?P = "\<lambda>turn' (period :: int) (c :: int) (u :: int) (n :: int) p y. turn' = turn \<longrightarrow> safe_turn e p (snd (y :: int \<times> player))"
  have "?P turn period c u n p (m, q)"
  proof (rule refresh_loop.raw_induct [where P = ?P, OF _ run])
    fix f :: "(int \<Rightarrow> player \<Rightarrow> (int \<times> player) option) \<Rightarrow> int \<Rightarrow> int \<Rightarrow> int \<Rightarrow> int \<Rightarrow> player \<Rightarrow> (int \<times> player) option"
      and turn' period c u n p y
    assume IH: "\<And>turn' period c u n p y. f turn' period c u n p = Some y \<Longrightarrow> ?P turn' period c u n p y"
      and body: "(if i32 (u + period) < c
        then turn' u p \<bind> (\<lambda>(k, p). f turn' period c (i32 (u + period)) (i32 (n + k)) p) else Some (n, p)) = Some y"
    show "?P turn' period c u n p y"
    proof (cases "i32 (u + period) < c")
      case True
      with body obtain k p' where "turn' u p = Some (k, p')" "f turn' period c (i32 (u + period)) (i32 (n + k)) p' = Some y"
        by (auto split: bind_splits)
      with IH turn safe_trans show ?thesis by blast
    qed (use body in \<open>auto simp: safe_view\<close>)
  qed
  then show ?thesis by simp
qed


subsection \<open>The handlers\<close>

lemma safe_update: "ChkUpdateMyBuildingAreas e p = Some q \<Longrightarrow> safe_turn e p q"
  by (auto simp: safe_turn_def ChkUpdate_ok(1) ChkUpdateMyBuildingAreas_def grows_def split: if_splits bind_splits)

lemma safe_keep: "grows p q \<Longrightarrow> (map_ok e p \<Longrightarrow> map_ok e q) \<Longrightarrow> safe_turn e p q"
  by (simp add: safe_turn_def)

lemma safe_ChkMapBlock: "ChkMapBlock e p = Some (n, q) \<Longrightarrow> safe_turn e p q"
  by (auto simp: ChkMapBlock_def Let_def safe_view split: if_splits bind_splits
      intro: safe_trans [OF safe_update safe_refresh [OF safe_block_turn]])

lemma safe_ChkMapChest: "ChkMapChest e p = Some (n, q) \<Longrightarrow> safe_turn e p q"
  by (auto simp: ChkMapChest_def Let_def safe_view split: if_splits bind_splits
      intro: safe_trans [OF safe_update safe_refresh [OF safe_chest_turn]])

lemma fill_ok: "check_and_fill_buildings_msg e ks p = Some (bs, q) \<Longrightarrow> map_ok e p \<Longrightarrow> map_ok e q"
proof (induction ks arbitrary: p bs)
  case (Cons k ks)
  show ?case
  proof (cases "map_of (p_Buildings p) k")
    case (Some d)
    show ?thesis
    proof (cases "building_map e (bld_CfgId d)")
      case cfg: (Some cfg)
      show ?thesis
      proof (cases "bd_Type cfg = 2 \<and> \<not> col_HasIndex (p_CatHouses p) k")
        case True
        with Cons.prems Some cfg obtain w h where size: "map_size cfg (bld_Dir d) = Some (w, h)"
          and run: "check_and_fill_buildings_msg e ks (RemoveAreaBuilding k (bld_X d) (bld_Y d) w h p) = Some (bs, q)"
          by (auto simp: col_simps split: bind_splits)
        from Cons.IH [OF run Remove_ok [OF Cons.prems(2) Some cfg size]] show ?thesis .
      next
        case False
        with Cons.prems Some cfg obtain bs' where "check_and_fill_buildings_msg e ks p = Some (bs', q)"
          by (auto simp: col_simps split: bind_splits)
        with Cons.IH Cons.prems(2) show ?thesis by blast
      qed
    qed (use Cons Some in \<open>simp add: col_simps\<close>)
  qed (use Cons in \<open>simp add: col_simps\<close>)
qed simp

lemma get_infos_ok:
  assumes "C2SGetBuildingInfos e p = Some (r, q)" "map_ok e p" "ids_positive q"
  shows "map_ok e q"
proof -
  from assms(1) obtain bs p1 n p2 m p3 where fill: "check_and_fill_buildings_msg e (col_GetAllIndex (p_Buildings p)) p = Some (bs, p1)"
    and block: "ChkMapBlock e (Send_msg (S2CGetBuildingInfos bs) p1) = Some (n, p2)"
    and chest: "ChkMapChest e (if 0 < n then SendBuildingUpdate p2 else p2) = Some (m, p3)"
    and q: "q = (if 0 < m then SendBuildingUpdate p3 else p3)"
    by (auto simp: C2SGetBuildingInfos_def Let_def split: bind_splits)
  have "safe_turn e p1 p2" by (rule safe_before [OF _ safe_ChkMapBlock [OF block]]) simp
  moreover have "safe_turn e p2 p3" by (rule safe_before [OF _ safe_ChkMapChest [OF chest]]) simp
  moreover have "safe_turn e p3 q" by (rule safe_view) (simp add: q)
  ultimately have "safe_turn e p1 q" by (blast intro: safe_trans)
  with fill_ok [OF fill assms(2)] assms(3) show ?thesis by (simp add: safe_turn_def)
qed

lemma safe_SetMap:
  assumes "SetMapBuilding e cfgid x y dir p = Some (r, q)" "upright e cfgid dir"
  shows "safe_turn e p q"
  using SetMap_grows SetMap_ok assms by (simp add: safe_turn_def)

lemma depots_Set [simp]: "p_BuildingDepots (Info_Set upd v p) = p_BuildingDepots p"
  by (simp add: Info_Set_def)

lemma depots_resources [simp]:
  "p_BuildingDepots (snd (SubGold v p)) = p_BuildingDepots p" "p_BuildingDepots (snd (AddCharmVal e v p)) = p_BuildingDepots p"
  by (simp_all add: SubGold_def AddCharmVal_def sub_plain_def add_capped_def Info_Incby_def Let_def split_beta
      task_only_frame [OF task_only_TaskUpdate])

lemma quiet_buildings [simp]: "quiet p (snd (building_add k p))" "quiet p (SendBuildingUpdate p)"
  by (simp_all add: building_add_def SendBuildingUpdate_def send_buildings_update_def Let_def split: option.split)

lemmas depots_sends [simp] = quiet_frame(8) [OF quiet_buildings(1)] quiet_frame(8) [OF quiet_buildings(2)]

lemma depots_house: "create_cathouse e k p = Some (r, q) \<Longrightarrow> p_BuildingDepots q = p_BuildingDepots p"
proof -
  have upd: "p_BuildingDepots (snd (update_cathouse_level e k p)) = p_BuildingDepots p" for p
    by (auto simp: update_cathouse_level_def CatHouses_Set_def Let_def split: option.splits)
  have info: "p_BuildingDepots p' = p_BuildingDepots p" if "send_cathouse_info e k b p = Some p'" for b p p'
    using that upd [of p] by (auto simp: send_cathouse_info_def split_beta split: option.splits bind_splits if_splits)
  have start: "p_BuildingDepots p' = p_BuildingDepots p" if "cathouse_start_levelup e k b p = Some (r', p')" for b p p' r'
    using that by (auto simp: cathouse_start_levelup_def Let_def CatHouses_Set_def dest!: info
        split: option.splits bind_splits if_splits)
  show "create_cathouse e k p = Some (r, q) \<Longrightarrow> p_BuildingDepots q = p_BuildingDepots p"
    by (auto simp: create_cathouse_def Let_def dest!: info start split: option.splits bind_splits if_splits)
qed

lemma create_house_frame:
  "create_cathouse e k p = Some (r, q) \<Longrightarrow> map_view q = map_view p \<and> p_BuildingDepots q = p_BuildingDepots p"
  using view_create depots_house by blast

text \<open>The four ways through the handler.\<close>

lemma set_building_run:
  assumes "C2SSetBuilding e cfgid x y dir buy p = Some (r, q)"
  obtains (unknown) "building_map e cfgid = None" "r = E_ERR_BUILDING_NOT_FIND_ITEM" "q = p"
    | (refused) cfg where "building_map e cfgid = Some cfg" "chk_set_building e cfg cfgid (buy = 1) p = Some (r, q)" "r < 0"
    | (no_place) cfg r1 p1 p2 where "building_map e cfgid = Some cfg" "chk_set_building e cfg cfgid (buy = 1) p = Some (r1, p1)"
        "\<not> r1 < 0" "ChkUpdateMyBuildingAreas e p1 = Some p2" "SetMapBuilding e cfgid x y dir p2 = Some (r, q)" "r \<le> 0"
    | (set) cfg r1 p1 p2 k p3 p4 where "building_map e cfgid = Some cfg" "chk_set_building e cfg cfgid (buy = 1) p = Some (r1, p1)"
        "\<not> r1 < 0" "ChkUpdateMyBuildingAreas e p1 = Some p2" "SetMapBuilding e cfgid x y dir p2 = Some (k, p3)" "0 < k"
        "(if buy = 1 then RemoveResources e (bd_UnlockCosts cfg) p3 else Some (snd (RemoveDepotBuilding cfgid 1 p3))) = Some p4"
        "map_view q = map_view p4" "p_BuildingDepots q = p_BuildingDepots p4" "r = 1"
proof (cases "building_map e cfgid")
  case None
  with assms unknown show thesis by (simp add: C2SSetBuilding_def)
next
  case (Some cfg)
  with assms obtain r1 p1 where c: "chk_set_building e cfg cfgid (buy = 1) p = Some (r1, p1)"
    by (auto simp: C2SSetBuilding_def split: bind_splits)
  show thesis
  proof (cases "r1 < 0")
    case True
    with assms Some c refused show thesis by (auto simp: C2SSetBuilding_def)
  next
    case False
    with assms Some c obtain p2 k p3 where u: "ChkUpdateMyBuildingAreas e p1 = Some p2"
      and s: "SetMapBuilding e cfgid x y dir p2 = Some (k, p3)" by (auto simp: C2SSetBuilding_def split: bind_splits)
    show thesis
    proof (cases "k \<le> 0")
      case True
      with assms Some c u s False no_place show thesis by (auto simp: C2SSetBuilding_def)
    next
      case pos: False
      with assms Some c u s False obtain p4 where
        pay: "(if buy = 1 then RemoveResources e (bd_UnlockCosts cfg) p3 else Some (snd (RemoveDepotBuilding cfgid 1 p3))) = Some p4"
        by (auto simp: C2SSetBuilding_def split: bind_splits)
      with assms Some c u s False pos have "map_view q = map_view p4" "p_BuildingDepots q = p_BuildingDepots p4" "r = 1"
        by (auto simp: C2SSetBuilding_def Let_def dest!: create_house_frame split: bind_splits if_splits)
      with set [OF Some c False u s _ pay] pos show thesis by simp
    qed
  qed
qed

lemma view_chk_set: "chk_set_building e cfg cfgid b p = Some (r, q) \<Longrightarrow> map_view q = map_view p"
  by (auto simp: chk_set_building_def dest!: side_ChkRes view_side split: if_splits bind_splits option.splits)

lemma view_pay_set:
  "(if b then RemoveResources e rs p else Some (snd (RemoveDepotBuilding c n p))) = Some q \<Longrightarrow> map_view q = map_view p"
  by (auto dest!: side_RemoveResources view_side split: if_splits)

lemma set_building_ok:
  assumes "C2SSetBuilding e cfgid x y dir buy p = Some (r, q)" "upright e cfgid dir" "map_ok e p" "ids_positive q"
  shows "map_ok e q"
proof -
  have "safe_turn e p q"
    using assms(1)
  proof (cases rule: set_building_run)
    case (refused cfg)
    then show ?thesis using safe_view view_chk_set by blast
  next
    case (no_place cfg r1 p1 p2)
    then show ?thesis using safe_view view_chk_set safe_update safe_SetMap assms(2) safe_trans by meson
  next
    case (set cfg r1 p1 p2 k p3 p4)
    have "map_view q = map_view p3" using set(8) view_pay_set [OF set(7)] by simp
    with set show ?thesis using safe_view view_chk_set safe_update safe_SetMap assms(2) safe_trans by meson
  qed (simp add: safe_view)
  with assms(3,4) show ?thesis by (simp add: safe_turn_def)
qed

lemma get_back_ok: "C2SGetBackBuilding e k p = Some (r, q) \<Longrightarrow> map_ok e p \<Longrightarrow> map_ok e q"
proof -
  assume run: "C2SGetBackBuilding e k p = Some (r, q)" and ok: "map_ok e p"
  have "map_ok e q'" if run: "GetBackMapBuilding e k p = Some (r', q')" for r' q'
  proof (cases "map_of (p_Buildings p) k")
    case (Some d)
    show ?thesis
    proof (cases "building_map e (bld_CfgId d)")
      case cfg: (Some cfg)
      show ?thesis
      proof (cases "bd_Type cfg = 2 \<and> cathouse_can_remove k p < 0")
        case False
        with run Some cfg obtain w h where size: "map_size cfg (bld_Dir d) = Some (w, h)"
          and view: "map_view q' = map_view (RemoveAreaBuilding k (bld_X d) (bld_Y d) w h p)"
          by (auto simp: GetBackMapBuilding_def col_simps Let_def dest!: view_cathouse split: bind_splits if_splits)
        from map_ok_view [OF view] Remove_ok [OF ok Some cfg size] show ?thesis by simp
      qed (use run Some cfg ok in \<open>auto simp: GetBackMapBuilding_def col_simps\<close>)
    qed (use run Some ok in \<open>simp add: GetBackMapBuilding_def col_simps\<close>)
  qed (use run ok in \<open>simp add: GetBackMapBuilding_def col_simps\<close>)
  with run show ?thesis
    by (auto simp: C2SGetBackBuilding_def split: bind_splits if_splits) (metis map_ok_view view_sides(4,5))
qed

text \<open>The maps are computed before the cells of a removed building are cleared.\<close>

lemma Update_Remove_ok:
  assumes "map_ok e p" "ChkUpdateMyBuildingAreas e p = Some p1" "map_of (p_Buildings p) k = Some d"
    "building_map e (bld_CfgId d) = Some cfg" "map_size cfg (bld_Dir d) = Some (w, h)"
  shows "map_ok e (RemoveAreaBuilding k (bld_X d) (bld_Y d) w h p1)"
  using ChkUpdate_ok [OF assms(1,2)] assms(3-5) by (intro Remove_ok) simp_all

lemma sell_building_ok: "C2SSellBuilding e k p = Some (r, q) \<Longrightarrow> map_ok e p \<Longrightarrow> map_ok e q"
proof -
  assume run: "C2SSellBuilding e k p = Some (r, q)" and ok: "map_ok e p"
  show "map_ok e q"
  proof (cases "map_of (p_Buildings p) k")
    case (Some d)
    show ?thesis
    proof (cases "building_map e (bld_CfgId d)")
      case cfg: (Some cfg)
      show ?thesis
      proof (cases "q = p")
        case False
        with run Some cfg obtain w h p1 where size: "map_size cfg (bld_Dir d) = Some (w, h)"
          and up: "ChkUpdateMyBuildingAreas e p = Some p1"
          and view: "map_view q = map_view (RemoveAreaBuilding k (bld_X d) (bld_Y d) w h p1)"
          by (auto simp: C2SSellBuilding_def col_simps Let_def dest!: view_cathouse split: bind_splits if_splits)
        from map_ok_view [OF view] Update_Remove_ok [OF ok up Some cfg size] show ?thesis by simp
      qed (use ok in simp)
    qed (use run Some ok in \<open>simp add: C2SSellBuilding_def col_simps\<close>)
  qed (use run ok in \<open>simp add: C2SSellBuilding_def col_simps\<close>)
qed

lemma map_ok_side: "side q = side p \<Longrightarrow> map_ok e q = map_ok e p"
  by (rule map_ok_view [OF view_side])

lemma view_uncounted [simp]: "map_view (block_uncounted e xy p) = map_view p"
  by (simp add: block_uncounted_def Let_def)

lemma Remove_block_ok: "ReomveMapBlock e k p = Some (r, q) \<Longrightarrow> map_ok e p \<Longrightarrow> map_ok e q"
proof -
  assume run: "ReomveMapBlock e k p = Some (r, q)" and ok: "map_ok e p"
  show "map_ok e q"
  proof (cases "map_of (p_Buildings p) k")
    case (Some d)
    show ?thesis
    proof (cases "q = p")
      case False
      with run Some obtain cfg block where cb: "building_map e (bld_CfgId d) = Some cfg" "block_map e (bld_CfgId d) = Some block"
        by (auto simp: ReomveMapBlock_def col_simps split: option.splits)
      with run Some False obtain p1 w h p3 bret ds where c: "building_map e (bld_CfgId d) = Some cfg"
        "RemoveItems e (bk_RemoveItems block) p = Some p1" "map_size cfg (bld_Dir d) = Some (w, h)"
        "ChkUpdateMyBuildingAreas e (block_uncounted e (arena_xy (bld_X d) (bld_Y d)) p1) = Some p3"
        "DropItems2 e (bk_DropIds block) True (RemoveAreaBuilding (bld_Id d) (bld_X d) (bld_Y d) w h p3) = Some ((bret, ds), q)"
        by (auto simp: ReomveMapBlock_def col_simps Let_def split: bind_splits if_splits)
      let ?p2 = "block_uncounted e (arena_xy (bld_X d) (bld_Y d)) p1"
      have v: "map_view ?p2 = map_view p" using view_side [OF side_RemoveItems [OF c(2)]] by simp
      then have "map_of (p_Buildings ?p2) k = Some d" using Some by (simp add: map_view_def)
      from Update_Remove_ok [OF _ c(4) this c(1,3)] map_ok_view [OF v] ok row_id [OF ok Some]
        map_ok_side [OF side_DropItems2 [OF c(5)]] show ?thesis by simp
    qed (use ok in simp)
  qed (use run ok in \<open>simp add: ReomveMapBlock_def col_simps\<close>)
qed

lemma fold_item_view: "map_view (fold (\<lambda>it. item_update e (ii_ItemCfgId it)) items p) = map_view p"
  by (induction items arbitrary: p) simp_all

lemma remove_block_ok: "C2SRemoveBlock e k p = Some (r, q) \<Longrightarrow> map_ok e p \<Longrightarrow> map_ok e q"
proof -
  assume run: "C2SRemoveBlock e k p = Some (r, q)" and ok: "map_ok e p"
  then obtain r' p1 where "ReomveMapBlock e k p = Some (r', p1)" "map_view q = map_view p1"
    by (auto simp: C2SRemoveBlock_def Let_def fold_item_view split: bind_splits if_splits option.splits)
  with Remove_block_ok [OF _ ok] map_ok_view show ?thesis by blast
qed

lemma OpenMapChest_ok: "OpenMapChest e k b p = Some (r, q) \<Longrightarrow> map_ok e p \<Longrightarrow> map_ok e q"
proof -
  assume run: "OpenMapChest e k b p = Some (r, q)" and ok: "map_ok e p"
  have cost: "side p' = side p" if "(if b then open_chest_cost e c p else Some (0, p)) = Some (n, p')" for c n p'
    using that by (auto simp: open_chest_cost_def dest!: side_ChkRes side_RemoveResources split: if_splits option.splits bind_splits)
  have refund: "side p' = side p" if "return_chest_cost e c p = Some (n, p')" for c n p p'
    using that by (auto simp: return_chest_cost_def dest!: side_AddResources split: option.splits bind_splits)
  have got: "side p' = side p" if "open_chest_result e c p = Some (n, p')" for c n p p'
    using that by (auto simp: open_chest_result_def dest!: side_AddExp side_DropItems2
        split: option.splits bind_splits if_splits)
  show "map_ok e q"
  proof (cases "map_of (p_Buildings p) k")
    case (Some d)
    show ?thesis
    proof (cases "building_map e (bld_CfgId d)")
      case cfg: (Some cfg)
      with run Some obtain n p1 where c: "(if b then open_chest_cost e (bld_CfgId d) p else Some (0, p)) = Some (n, p1)"
        by (auto simp: OpenMapChest_def col_simps split: bind_splits)
      note v = view_side [OF cost [OF c]]
      show ?thesis
      proof (cases "n < 0")
        case False
        with run Some cfg c obtain w h p2 where size: "map_size cfg (bld_Dir d) = Some (w, h)"
          and up: "ChkUpdateMyBuildingAreas e p1 = Some p2"
          and s: "side q = side (RemoveAreaBuilding k (bld_X d) (bld_Y d) w h p2)"
          by (auto simp: OpenMapChest_def col_simps Let_def dest!: refund got split: bind_splits if_splits option.splits)
        have "map_of (p_Buildings p1) k = Some d" using Some v by (simp add: map_view_def)
        from Update_Remove_ok [OF _ up this cfg size] map_ok_view [OF v] ok map_ok_side [OF s] show ?thesis by simp
      qed (use run Some cfg c map_ok_view [OF v] ok in \<open>auto simp: OpenMapChest_def col_simps\<close>)
    qed (use run Some ok in \<open>simp add: OpenMapChest_def col_simps\<close>)
  qed (use run ok in \<open>simp add: OpenMapChest_def col_simps\<close>)
qed

lemma open_chest_ok: "C2SOpenMapChest e k p = Some (r, q) \<Longrightarrow> map_ok e p \<Longrightarrow> map_ok e q"
proof -
  assume run: "C2SOpenMapChest e k p = Some (r, q)" and ok: "map_ok e p"
  then obtain r' p1 where "OpenMapChest e k True p = Some (r', p1)" "map_view q = map_view p1"
    by (auto simp: C2SOpenMapChest_def Let_def split: bind_splits if_splits option.splits)
  with OpenMapChest_ok [OF _ ok] map_ok_view show ?thesis by blast
qed


subsection \<open>Areas\<close>

lemma safe_set_def:
  assumes "set_def_buildings e k bs ids p = Some (r, q)" "\<forall>b\<in>set bs. upright e (dm_Id b) (dm_Rotation b)"
  shows "safe_turn e p q"
  using assms
proof (induction bs arbitrary: ids p)
  case (Cons b bs)
  from Cons.prems(1) obtain x y n p1 where xy: "go_nth (dm_Point b) 0 = Some x" "go_nth (dm_Point b) 1 = Some y"
    and s: "SetMapBuilding e (dm_Id b) x y (dm_Rotation b) p = Some (n, p1)"
    by (auto split: bind_splits)
  have v: "safe_turn e p p1" using Cons.prems(2) by (intro safe_SetMap [OF s]) simp
  from Cons.prems s xy obtain ids' p2 where "set_def_buildings e k bs ids' p2 = Some (r, q)" "map_view p2 = map_view p1"
    by (auto simp: Let_def split: bind_splits if_splits)
  with Cons.IH Cons.prems(2) safe_trans [OF safe_after [OF v]] show ?case by simp
qed (simp add: safe_view)

definition area_upright :: "env \<Rightarrow> int \<Rightarrow> bool" where
  "area_upright e k \<longleftrightarrow> (\<forall>area. area_map e k = Some area \<longrightarrow>
     (\<forall>b\<in>set (map snd (ba_DefMapBuildings area)). upright e (dm_Id b) (dm_Rotation b)))"

lemma side_pay_area: "pay_area e cfg f p = Some (r, q) \<Longrightarrow> side q = side p"
  by (auto simp: pay_area_def Let_def dest!: side_ChkRes side_RemoveResources split: if_splits bind_splits)

lemma safe_open:
  assumes "p_map_init p" "map_view q = map_view (p\<lparr>p_open_pos := cells\<rparr>)"
  shows "safe_turn e p q"
  using assms(1) map_ok_view [OF assms(2)] view_grows [OF assms(2)]
  by (simp add: safe_turn_def grows_def map_ok_def)

lemma safe_UnlockArea:
  assumes "UnlockArea e k f p = Some (r, q)" "area_upright e k" "map_ok e p"
  shows "safe_turn e p q"
proof -
  from assms(1) obtain p1 where up: "ChkUpdateMyBuildingAreas e p = Some p1" by (auto simp: UnlockArea_def split: bind_splits)
  note v1 = safe_update [OF up]
  show ?thesis
  proof (cases "q = p1")
    case False
    with assms(1) up obtain area cfg where a: "area_map e k = Some area" "area_unlock_map e k = Some cfg"
      by (auto simp: UnlockArea_def split: if_splits option.splits)
    with assms(1) up False obtain n p2 where pay: "pay_area e cfg f p1 = Some (n, p2)"
      by (auto simp: UnlockArea_def split: if_splits bind_splits)
    note v2 = view_side [OF side_pay_area [OF pay]]
    show ?thesis
    proof (cases "n < 0")
      case True
      with assms(1) up False a pay have "q = p2" by (auto simp: UnlockArea_def split: if_splits)
      with safe_after [OF v1 v2] show ?thesis by simp
    next
      case False': False
      let ?p3 = "p2\<lparr>p_open_pos := open_cells (ba_XYs area) (p_open_pos p2), p_Areas := snd (col_Add k () (p_Areas p2))\<rparr>"
      from assms(1) up False a pay False' obtain ids where
        set: "set_def_buildings e k (map snd (ba_DefMapBuildings area)) [] ?p3 = Some (ids, q)"
        by (auto simp: UnlockArea_def Let_def split: if_splits bind_splits)
      have "safe_turn e p2 ?p3"
        using ChkUpdate_ok(2) [OF assms(3) up] v2 by (intro safe_open) (simp_all add: map_view_def)
      moreover have "safe_turn e ?p3 q" using a assms(2) by (intro safe_set_def [OF set]) (auto simp: area_upright_def)
      ultimately show ?thesis using safe_after [OF v1 v2] by (blast intro: safe_trans)
    qed
  qed (use v1 in simp)
qed

lemma unlock_ok:
  assumes "C2SUnlockArea e k f p = Some (r, q)" "area_upright e k" "map_ok e p" "ids_positive q"
  shows "map_ok e q"
proof -
  have "map_view (fold (\<lambda>k p. snd (building_add k p)) ids p) = map_view p" for ids p
    by (induction ids arbitrary: p) simp_all
  with assms(1) obtain r' p1 where "UnlockArea e k f p = Some (r', p1)" "map_view q = map_view p1"
    by (auto simp: C2SUnlockArea_def Let_def split: bind_splits if_splits)
  with safe_after [OF safe_UnlockArea [OF _ assms(2,3)]] assms(3,4) show ?thesis by (auto simp: safe_turn_def)
qed

subsection \<open>Steps of a map\<close>

text \<open>
  One message of the client about the map, a new login (the maps are not saved), or a step of
  another system, which leaves the map alone. The tables are fixed, the clock and the random draws
  are those of the step.
\<close>

inductive map_step :: "(int \<rightharpoonup> xml_building) \<Rightarrow> player \<Rightarrow> player \<Rightarrow> bool" for tab where
  set_building: "building_map e = tab \<Longrightarrow> C2SSetBuilding e cfgid x y dir buy p = Some (r, q) \<Longrightarrow> upright e cfgid dir \<Longrightarrow>
    map_step tab p q"
| get_infos: "building_map e = tab \<Longrightarrow> C2SGetBuildingInfos e p = Some (r, q) \<Longrightarrow> map_step tab p q"
| get_back: "building_map e = tab \<Longrightarrow> C2SGetBackBuilding e k p = Some (r, q) \<Longrightarrow> map_step tab p q"
| sell: "building_map e = tab \<Longrightarrow> C2SSellBuilding e k p = Some (r, q) \<Longrightarrow> map_step tab p q"
| remove_block: "building_map e = tab \<Longrightarrow> C2SRemoveBlock e k p = Some (r, q) \<Longrightarrow> map_step tab p q"
| open_chest: "building_map e = tab \<Longrightarrow> C2SOpenMapChest e k p = Some (r, q) \<Longrightarrow> map_step tab p q"
| move: "building_map e = tab \<Longrightarrow> C2SMoveBuilding e k x y dir p = Some (r, q) \<Longrightarrow> map_step tab p q"
| turn_building: "building_map e = tab \<Longrightarrow> C2SChgBuildingDir e k p = Some (r, q) \<Longrightarrow> map_step tab p q"
| unlock: "building_map e = tab \<Longrightarrow> C2SUnlockArea e k f p = Some (r, q) \<Longrightarrow> area_upright e k \<Longrightarrow> map_step tab p q"
| login: "map_step tab p (p\<lparr>p_map_init := False, p_building_map := Map.empty, p_open_pos := [], p_areablocknum := Map.empty\<rparr>)"
| others: "map_view q = map_view p \<Longrightarrow> map_step tab p q"

lemma map_ok_tab: "building_map e = building_map e' \<Longrightarrow> map_ok e p = map_ok e' p"
  by (simp add: map_ok_def disjoint_cells_def covers_def cells_of_def)

lemma move_ok: "C2SMoveBuilding e k x y dir p = Some (r, q) \<Longrightarrow> map_ok e p \<Longrightarrow> map_ok e q"
proof -
  assume run: "C2SMoveBuilding e k x y dir p = Some (r, q)" and ok: "map_ok e p"
  then obtain p1 r2 p2 where "ChkUpdateMyBuildingAreas e p = Some p1" "MoveMapBuilding e k x y dir p1 = Some (r2, p2)"
    "map_view q = map_view p2" by (auto simp: C2SMoveBuilding_def split: bind_splits if_splits)
  with Move_ok ChkUpdate_ok(1) [OF ok] map_ok_view show ?thesis by blast
qed

lemma turn_ok: "C2SChgBuildingDir e k p = Some (r, q) \<Longrightarrow> map_ok e p \<Longrightarrow> map_ok e q"
proof -
  assume run: "C2SChgBuildingDir e k p = Some (r, q)" and ok: "map_ok e p"
  then obtain r2 p2 where "ChgMapBuildingDir e k p = Some (r2, p2)" "map_view q = map_view p2"
    by (auto simp: C2SChgBuildingDir_def split: bind_splits if_splits)
  with ChgDir_ok [OF _ ok] map_ok_view show ?thesis by blast
qed

lemma map_step_ok:
  assumes step: "map_step (building_map e) p q" and ok: "map_ok e p" and pos: "ids_positive q"
  shows "map_ok e q"
  using step
proof cases
  case (set_building e')
  from set_building_ok [OF set_building(2,3) _ pos] map_ok_tab [OF set_building(1)] ok show ?thesis by blast
next
  case (get_infos e')
  from get_infos_ok [OF get_infos(2) _ pos] map_ok_tab [OF get_infos(1)] ok show ?thesis by blast
next
  case (get_back e')
  from get_back_ok [OF get_back(2)] map_ok_tab [OF get_back(1)] ok show ?thesis by blast
next
  case (sell e')
  from sell_building_ok [OF sell(2)] map_ok_tab [OF sell(1)] ok show ?thesis by blast
next
  case (remove_block e')
  from remove_block_ok [OF remove_block(2)] map_ok_tab [OF remove_block(1)] ok show ?thesis by blast
next
  case (open_chest e')
  from open_chest_ok [OF open_chest(2)] map_ok_tab [OF open_chest(1)] ok show ?thesis by blast
next
  case (move e')
  from move_ok [OF move(2)] map_ok_tab [OF move(1)] ok show ?thesis by blast
next
  case (turn_building e')
  from turn_ok [OF turn_building(2)] map_ok_tab [OF turn_building(1)] ok show ?thesis by blast
next
  case (unlock e')
  from unlock_ok [OF unlock(2,3) _ pos] map_ok_tab [OF unlock(1)] ok show ?thesis by blast
next
  case login
  with ok show ?thesis by (simp add: map_ok_def)
next
  case others
  from map_ok_view [OF others] ok show ?thesis by simp
qed

text \<open>
  Property C27. Buildings never overlap: starting from a map on which they do not, after any sequence
  of map messages, logins and steps of other systems, no cell is covered by two buildings, and once
  the occupancy map has been computed it names for each cell exactly the building that covers it. The
  buildings set fit the same cells in the direction asked for and in the upright one, and the counter
  of building ids does not wrap.
\<close>

theorem buildings_never_overlap:
  assumes "(\<lambda>p q. map_step (building_map e) p q \<and> ids_positive q)\<^sup>*\<^sup>* p q" "map_ok e p"
  shows "(covers e (p_Buildings q) k xy \<and> covers e (p_Buildings q) j xy \<longrightarrow> k = j) \<and>
    (p_map_init q \<longrightarrow> (p_building_map q xy = Some k \<longleftrightarrow> covers e (p_Buildings q) k xy))"
proof -
  from assms have "map_ok e q" by (induction rule: rtranclp_induct) (auto intro: map_step_ok)
  from map_okD(2,3) [OF this] show ?thesis by (auto simp: disjoint_cells_def)
qed




subsection \<open>What setting a building does\<close>

lemma next_building_id_fresh:
  assumes "bld_rows_ok m last_id" "0 < i32 (last_id + 1)"
  shows "i32 (last_id + 1) = last_id + 1" "map_of m (last_id + 1) = None"
proof -
  have "0 \<le> last_id" "last_id \<le> max32" using assms(1) by (auto simp: bld_rows_ok_def)
  with assms(2) show "i32 (last_id + 1) = last_id + 1"
    by (cases "last_id = max32"; simp add: i32_range_id i32_def)
  show "map_of m (last_id + 1) = None"
    using assms(1) by (cases "map_of m (last_id + 1)") (fastforce simp: bld_rows_ok_def)+
qed

lemma check_from_depot:
  "chk_set_building e cfg cfgid False p = Some (r, q) \<Longrightarrow>
     q = p \<and> r \<le> 0 \<and> (\<not> r < 0 \<longrightarrow> (\<exists>n > 0. map_of (p_BuildingDepots p) cfgid = Some n))"
  by (auto simp: chk_set_building_def col_simps split: if_splits option.splits)

lemma check_nonpositive: "chk_set_building e cfg cfgid b p = Some (r, q) \<Longrightarrow> r \<le> 0"
  by (auto simp: chk_set_building_def split: if_splits option.splits bind_splits)

lemma depots_ChkUpdate: "ChkUpdateMyBuildingAreas e p = Some q \<Longrightarrow> p_BuildingDepots q = p_BuildingDepots p"
  by (auto simp: ChkUpdateMyBuildingAreas_def split: bind_splits if_splits)

lemma depots_SetMap: "SetMapBuilding e cfgid x y dir p = Some (k, q) \<Longrightarrow> p_BuildingDepots q = p_BuildingDepots p"
  by (auto simp: SetMapBuilding_def place_building_def set_area_building_def Info_Incby_def Info_Set_def Let_def
      split: option.splits bind_splits if_splits)

lemma SetMap_cases:
  assumes "SetMapBuilding e cfgid x y dir p = Some (r, q)" "building_map e cfgid = Some cfg"
  obtains (refused) "q = p" "r < 0" |
    (placed) w h d where "map_size cfg dir = Some (w, h)" "0 \<le> if_pos_can_set_building e x y w h 0 (bd_Geography cfg) p"
      "place_building e cfg cfgid x y p = Some (d, q)" "r = bld_Id d"
  using assms by (auto simp: SetMapBuilding_def Let_def split: option.splits bind_splits if_splits)

text \<open>The row of a building that was just set.\<close>

definition new_building :: "env \<Rightarrow> int \<Rightarrow> int \<Rightarrow> int \<Rightarrow> int \<Rightarrow> building_data" where
  "new_building e k cfgid x y =
     \<lparr>bld_Id = k, bld_CfgId = cfgid, bld_X = x, bld_Y = y, bld_Dir = 0, bld_CreateUnix = i32 (now e), bld_OverUnix = 0\<rparr>"

lemma SetMap_placed:
  assumes run: "SetMapBuilding e cfgid x y dir p = Some (r, q)" and cfg: "building_map e cfgid = Some cfg"
    and ok: "map_ok e p" and init: "p_map_init p" and r: "0 < r"
  shows "r = i_NextBuildingId (p_Info p) + 1" "p_Buildings q = AList.update r (new_building e r cfgid x y) (p_Buildings p)"
    "\<exists>w h. map_size cfg dir = Some (w, h) \<and>
       (\<forall>xy \<in> set (rect x y w h). map_of (p_open_pos p) xy = Some 1 \<and> (\<forall>k. \<not> covers e (p_Buildings p) k xy))"
proof -
  obtain w h d where size: "map_size cfg dir = Some (w, h)" and chk: "0 \<le> if_pos_can_set_building e x y w h 0 (bd_Geography cfg) p"
    and place: "place_building e cfg cfgid x y p = Some (d, q)" and rd: "r = bld_Id d"
    using SetMap_cases [OF run cfg] r by (metis not_less_iff_gr_or_eq)
  from place obtain k where d: "d = new_building e k cfgid x y" and k: "k = i32 (i_NextBuildingId (p_Info p) + 1)"
    and q: "p_Buildings q = snd (col_Add k d (p_Buildings p))" by (rule place_run) (simp add: new_building_def)
  have rk: "r = k" using rd d by (simp add: new_building_def)
  note fresh = next_building_id_fresh [OF map_okD(1) [OF ok], folded k] and rows = map_okD(1) [OF ok]
  show "r = i_NextBuildingId (p_Info p) + 1" using fresh(1) r rk by simp
  show "p_Buildings q = AList.update r (new_building e r cfgid x y) (p_Buildings p)"
    using q fresh r rk d by (simp add: col_Add_def col_HasIndex_def)
  have "map_of (p_open_pos p) xy = Some 1 \<and> (\<forall>j. \<not> covers e (p_Buildings p) j xy)" if xy: "xy \<in> set (rect x y w h)" for xy
  proof -
    from chk xy have c: "map_of (p_open_pos p) xy = Some 1" "p_building_map p xy = Some j \<Longrightarrow> \<not> 0 < j" for j
      using check_cells_ok by (fastforce simp: if_pos_can_set_building_def)+
    have "0 < j" if "covers e (p_Buildings p) j xy" for j
      using that rows by (auto simp: covers_def bld_rows_ok_def)
    with c map_okD(3) [OF ok init] show ?thesis by blast
  qed
  with size show "\<exists>w h. map_size cfg dir = Some (w, h) \<and>
       (\<forall>xy \<in> set (rect x y w h). map_of (p_open_pos p) xy = Some 1 \<and> (\<forall>k. \<not> covers e (p_Buildings p) k xy))" by blast
qed

lemma i32_minus1: "i32 (- 1) = - 1"
  by (simp add: i32_range_id)

lemma depot_taken:
  "map_of (p_BuildingDepots p) k = Some n \<Longrightarrow> 0 < n \<Longrightarrow>
     map_of (p_BuildingDepots (snd (RemoveDepotBuilding k 1 p))) = (map_of (p_BuildingDepots p))(k := if n = 1 then None else Some (i32 (n - 1)))"
  by (auto simp: RemoveDepotBuilding_def col_simps Let_def depot_building_update_def i32_minus1)

lemma set_building_rows:
  assumes run: "C2SSetBuilding e cfgid x y dir buy p = Some (1, q)" and ok: "map_ok e p"
  obtains cfg w h k where "building_map e cfgid = Some cfg" "map_size cfg dir = Some (w, h)" "k = i_NextBuildingId (p_Info p) + 1"
    "p_Buildings q = AList.update k (new_building e k cfgid x y) (p_Buildings p)"
    "\<forall>xy \<in> set (rect x y w h). \<forall>j. \<not> covers e (p_Buildings p) j xy"
    "buy \<noteq> 1 \<longrightarrow> (\<exists>n > 0. map_of (p_BuildingDepots p) cfgid = Some n \<and>
       map_of (p_BuildingDepots q) = (map_of (p_BuildingDepots p))(cfgid := if n = 1 then None else Some (i32 (n - 1))))"
  using run
proof (cases rule: set_building_run)
  case (set cfg r1 p1 p2 k p3 p4)
  note init = ChkUpdate_ok [OF _ set(4)] and view1 = view_chk_set [OF set(2)]
  have ok1: "map_ok e p1" using map_ok_view [OF view1] ok by simp
  have view: "p_Buildings p2 = p_Buildings p" "i_NextBuildingId (p_Info p2) = i_NextBuildingId (p_Info p)"
    using init(3,4) [OF ok1] view1 by (simp_all add: map_view_def)
  have rows: "p_Buildings q = p_Buildings p3" using set(8) view_pay_set [OF set(7)] by (simp add: map_view_def)
  note placed = SetMap_placed [OF set(5,1) init(1,2) [OF ok1] set(6)]
  have "\<exists>n > 0. map_of (p_BuildingDepots p) cfgid = Some n \<and>
       map_of (p_BuildingDepots q) = (map_of (p_BuildingDepots p))(cfgid := if n = 1 then None else Some (i32 (n - 1)))" if "buy \<noteq> 1"
  proof -
    have p1: "p1 = p" and "\<exists>n > 0. map_of (p_BuildingDepots p) cfgid = Some n"
      using check_from_depot set(2,3) that by auto
    then obtain n where "0 < n" "map_of (p_BuildingDepots p) cfgid = Some n" by blast
    moreover have "p_BuildingDepots p3 = p_BuildingDepots p"
      using depots_ChkUpdate [OF set(4)] depots_SetMap [OF set(5)] p1 by simp
    ultimately show ?thesis using depot_taken [of p3 cfgid n] set(7,9) that by auto
  qed
  moreover obtain w h where "map_size cfg dir = Some (w, h)" "\<forall>xy \<in> set (rect x y w h). \<forall>j. \<not> covers e (p_Buildings p) j xy"
    using placed(3) view(1) by auto
  ultimately show thesis using that [OF set(1)] placed(1,2) view rows by simp
qed simp_all

text \<open>
  Property C28. Setting a building on a well formed map: no two buildings cover a cell, the occupancy
  map names for each cell exactly the building that covers it (or is not computed yet, with no place
  opened), the rows bear their own positive ids, none above the counter of ids, and the counter is
  below its maximum. (The map messages keep a map so as long as every building set fits the same
  cells upright; one set sideways can break it.) The answer 1 then means that the building has a new
  row with the next id, standing upright at the asked place, that no cell of the asked rectangle was
  covered by a building before, and that a building taken from the depot is there once less. Any
  other answer is not positive and leaves the buildings alone, and the depot too unless the building
  was to be bought.
\<close>

theorem set_building_spec:
  assumes "C2SSetBuilding e cfgid x y dir buy p = Some (r, q)" "map_ok e p" "i_NextBuildingId (p_Info p) < max32"
  shows "if r = 1
    then \<exists>cfg w h k. building_map e cfgid = Some cfg \<and> map_size cfg dir = Some (w, h) \<and> k = i_NextBuildingId (p_Info p) + 1 \<and>
      p_Buildings q = AList.update k (new_building e k cfgid x y) (p_Buildings p) \<and>
      (\<forall>xy \<in> set (rect x y w h). \<forall>j. \<not> covers e (p_Buildings p) j xy) \<and>
      (buy \<noteq> 1 \<longrightarrow> (\<exists>n > 0. map_of (p_BuildingDepots p) cfgid = Some n \<and>
         map_of (p_BuildingDepots q) = (map_of (p_BuildingDepots p))(cfgid := if n = 1 then None else Some (i32 (n - 1)))))
    else r \<le> 0 \<and> p_Buildings q = p_Buildings p \<and> (buy \<noteq> 1 \<longrightarrow> p_BuildingDepots q = p_BuildingDepots p)"
proof (cases "r = 1")
  case True
  show ?thesis unfolding if_P [OF True] by (rule set_building_rows [OF assms(1) [unfolded True] assms(2)]) (intro exI conjI; assumption)
next
  case False
  from assms(1) have "r \<le> 0 \<and> p_Buildings q = p_Buildings p \<and> (buy \<noteq> 1 \<longrightarrow> p_BuildingDepots q = p_BuildingDepots p)"
  proof (cases rule: set_building_run)
    case (refused cfg)
    then show ?thesis using view_chk_set [OF refused(2)] by (auto simp: map_view_def dest: check_from_depot)
  next
    case (no_place cfg r1 p1 p2)
    note view1 = view_chk_set [OF no_place(2)]
    have "map_ok e p1" using map_ok_view [OF view1] assms(2) by simp
    from ChkUpdate_ok(3) [OF this no_place(4)] view1 have "p_Buildings p2 = p_Buildings p" by (simp add: map_view_def)
    moreover have "p_BuildingDepots p2 = p_BuildingDepots p" if "buy \<noteq> 1"
      using depots_ChkUpdate [OF no_place(4)] no_place(2) that by (auto dest: check_from_depot)
    moreover have "q = p2"
    proof (cases rule: SetMap_cases [OF no_place(5,1)])
      case (2 w h d)
      from 2(3) have "bld_Id d = i32 (i_NextBuildingId (p_Info p2) + 1)" by (rule place_run) simp
      moreover have "i_NextBuildingId (p_Info p2) = i_NextBuildingId (p_Info p)"
        using ChkUpdate_ok(4) [OF \<open>map_ok e p1\<close> no_place(4)] view1 by (simp add: map_view_def)
      moreover have "0 \<le> i_NextBuildingId (p_Info p)" using map_okD(1) [OF assms(2)] by (simp add: bld_rows_ok_def)
      ultimately show ?thesis using 2(4) no_place(6) assms(3) by (simp add: i32_range_id)
    qed
    ultimately show ?thesis using no_place(6) by simp
  qed (use False in simp_all)
  with False show ?thesis by simp
qed

subsection \<open>An example\<close>

definition demo_tower :: xml_building where
  "demo_tower = \<lparr>bd_Id = 7, bd_Type = 3, bd_Rarity = 1, bd_Tag = 0, bd_UnlockType = 0, bd_UnlockLevel = 0, bd_UnlockCosts = [],
     bd_Charm = 0, bd_Geography = 1, bd_SaleCoin = 5, bd_MapSizes = [1, 1], bd_IfFunction = 0\<rparr>"

definition demo_map_env :: env where
  "demo_map_env = empty_env\<lparr>building_map := [7 \<mapsto> demo_tower], area_type := [0 \<mapsto> 1]\<rparr>"

definition demo_map_player :: player where
  "demo_map_player = empty_player\<lparr>p_BuildingDepots := [(7, 2)], p_map_init := True, p_open_pos := [(0, 1)]\<rparr>"

lemmas demo_map_defs = demo_map_env_def demo_map_player_def empty_env_def empty_player_def empty_info_def

lemma demo_map_ok: "map_ok demo_map_env demo_map_player"
  by (auto simp: map_ok_def bld_rows_ok_def disjoint_cells_def covers_def demo_map_defs)

lemma demo_rect: "rect 0 0 1 1 = [0]"
  by (simp add: rect_def arena_xy_def)

lemma demo_SetMap: "SetMapBuilding demo_map_env 7 0 0 0 demo_map_player =
    Some (1, demo_map_player\<lparr>p_Info := (p_Info demo_map_player)\<lparr>i_NextBuildingId := 1\<rparr>,
      p_Buildings := [(1, new_building demo_map_env 1 7 0 0)], p_building_map := [0 \<mapsto> 1]\<rparr>)"
  by (simp add: SetMapBuilding_def place_building_def map_size_def go_nth_def if_pos_can_set_building_def demo_rect get0_def
      Info_Incby_def Info_Set_def Let_def col_Add_def col_HasIndex_def set_area_building_def new_building_def
      demo_tower_def demo_map_defs)

lemma demo_set: "\<exists>q. C2SSetBuilding demo_map_env 7 0 0 0 0 demo_map_player = Some (1, q)"
proof -
  have tab: "building_map demo_map_env 7 = Some demo_tower" by (simp add: demo_map_env_def)
  have chk: "chk_set_building demo_map_env demo_tower 7 False demo_map_player = Some (0, demo_map_player)"
    by (simp add: chk_set_building_def building_count_max_def demo_tower_def GetCountByType_def demo_map_defs col_simps)
  have up: "ChkUpdateMyBuildingAreas demo_map_env demo_map_player = Some demo_map_player"
    by (simp add: ChkUpdateMyBuildingAreas_def demo_map_player_def)
  show ?thesis
    by (simp add: C2SSetBuilding_def tab chk up demo_SetMap Let_def) (simp add: demo_tower_def)
qed

lemma buildings_never_overlap_witness:
  "\<exists>q. C2SSetBuilding demo_map_env 7 0 0 0 0 demo_map_player = Some (1, q) \<and>
    (covers demo_map_env (p_Buildings q) 1 0 \<and> covers demo_map_env (p_Buildings q) 2 0 \<longrightarrow> (1::int) = 2) \<and>
    (p_map_init q \<longrightarrow> (p_building_map q 0 = Some 1 \<longleftrightarrow> covers demo_map_env (p_Buildings q) 1 0))"
proof -
  obtain q where q: "C2SSetBuilding demo_map_env 7 0 0 0 0 demo_map_player = Some (1, q)" using demo_set by blast
  have "upright demo_map_env 7 0" by (simp add: upright_def)
  with q have "map_step (building_map demo_map_env) demo_map_player q" by (blast intro: map_step.set_building)
  moreover have "ids_positive q"
    by (rule set_building_rows [OF q demo_map_ok]) (simp add: ids_positive_def demo_map_defs)
  ultimately have "(\<lambda>p q. map_step (building_map demo_map_env) p q \<and> ids_positive q)\<^sup>*\<^sup>* demo_map_player q" by blast
  from buildings_never_overlap [OF this demo_map_ok, of 1 0 2] q show ?thesis by blast
qed

lemma set_building_spec_witness:
  "\<exists>q. C2SSetBuilding demo_map_env 7 0 0 0 0 demo_map_player = Some (1, q) \<and>
     p_Buildings q = [(1, new_building demo_map_env 1 7 0 0)] \<and> map_of (p_BuildingDepots q) 7 = Some 1"
proof -
  obtain q where q: "C2SSetBuilding demo_map_env 7 0 0 0 0 demo_map_player = Some (1, q)" using demo_set by blast
  have p: "p_Buildings demo_map_player = []" "i_NextBuildingId (p_Info demo_map_player) = 0" "p_BuildingDepots demo_map_player = [(7, 2)]"
    by (simp_all add: demo_map_defs)
  from set_building_spec [OF q demo_map_ok] q p show ?thesis by auto
qed

text \<open>
  Selling never pays: the gold of a sale is only added for a farmland, which is refused before. For a
  cat house the gold inside is collected, the price is not paid either.
\<close>

lemma sell_building_unpaid:
  assumes "C2SSellBuilding e k p = Some (r, q)" "map_of (p_Buildings p) k = Some d" "building_map e (bld_CfgId d) = Some cfg"
    "bd_Type cfg \<noteq> PLAYER_BUILDING_TYPE_CAT_HOME"
  shows "i_Gold (p_Info q) = i_Gold (p_Info p)"
proof -
  have "p_Info p2 = p_Info p" if "ChkUpdateMyBuildingAreas e p = Some p2" for p2
    using that by (auto simp: ChkUpdateMyBuildingAreas_def split: bind_splits if_splits)
  with assms show ?thesis
    by (auto simp: C2SSellBuilding_def col_simps Let_def RemoveAreaBuilding_def remove_area_building_def SubCharmVal_def sub_plain_def
        building_remove_def SendBuildingUpdate_def send_buildings_update_def Info_Incby_def Info_Set_def
        split: bind_splits if_splits option.splits)
qed

text \<open>
  A building that is not square and is set sideways is checked on the sideways rectangle and then
  stands upright, possibly over another one: this is why the invariant asks for \<open>upright\<close>.
\<close>

definition demo_wall :: xml_building where
  "demo_wall = demo_tower\<lparr>bd_Id := 8, bd_MapSizes := [1, 2]\<rparr>"

definition demo_side_env :: env where
  "demo_side_env = demo_map_env\<lparr>building_map := [7 \<mapsto> demo_tower, 8 \<mapsto> demo_wall], area_type := [0 \<mapsto> 1, 65536 \<mapsto> 1]\<rparr>"

definition demo_side_player :: player where
  "demo_side_player = demo_map_player\<lparr>p_Info := (p_Info demo_map_player)\<lparr>i_NextBuildingId := 1\<rparr>,
     p_Buildings := [(1, new_building demo_map_env 1 7 0 1)], p_building_map := [1 \<mapsto> 1], p_open_pos := [(0, 1), (65536, 1)]\<rparr>"

lemma sideways_rects: "rect 0 1 1 1 = [1]" "rect 0 0 2 1 = [0, 65536]" "rect 0 0 1 2 = [0, 1]"
  by (simp_all add: rect_def arena_xy_def upto.simps i32_range_id)

lemma sideways_overlaps:
  "\<exists>q. SetMapBuilding demo_side_env 8 0 0 1 demo_side_player = Some (2, q) \<and> covers demo_side_env (p_Buildings demo_side_player) 1 1 \<and>
     covers demo_side_env (p_Buildings q) 1 1 \<and> covers demo_side_env (p_Buildings q) 2 1"
  by (simp add: SetMapBuilding_def place_building_def map_size_def go_nth_def if_pos_can_set_building_def sideways_rects get0_def
      Info_Incby_def Info_Set_def Let_def col_Add_def col_HasIndex_def set_area_building_def new_building_def i32_range_id
      covers_def cells_of_def demo_side_env_def demo_side_player_def demo_wall_def demo_tower_def demo_map_defs)

subsection \<open>The refresh returns\<close>

lemma refresh_loop_Some:
  assumes "\<And>t p. \<exists>n q. turn t p = Some (n, q)" "0 < period" "in32 tmp" "cur + period \<le> max32" "tmp \<le> cur"
  shows "\<exists>n q. refresh_loop turn period cur tmp count p = Some (n, q)"
  using assms(3-5)
proof (induction "nat (cur - tmp)" arbitrary: tmp count p rule: less_induct)
  case less
  have exact: "i32 (tmp + period) = tmp + period" using less.prems assms(2) by (intro i32_id) (simp add: in32_def)
  obtain n q where t: "turn tmp p = Some (n, q)" using assms(1) by blast
  show ?case
  proof (cases "tmp + period < cur")
    case True
    then have "nat (cur - (tmp + period)) < nat (cur - tmp)" using assms(2) by simp
    from less.hyps [OF this] less.prems True i32_bounds [of "tmp + period"] t show ?thesis
      by (subst refresh_loop.simps) (simp add: exact)
  qed (subst refresh_loop.simps, simp add: exact)
qed

lemma refresh_loop_forever:
  assumes "tmp < cur" "in32 tmp"
  shows "refresh_loop turn 0 cur tmp count p = None"
proof -
  have "\<not> (refresh_loop turn 0 cur tmp count p = Some r)" for r
  proof
    let ?P = "\<lambda>(turn :: int \<Rightarrow> player \<Rightarrow> (int \<times> player) option) (period :: int) (c :: int) (t :: int) (n :: int) (q :: player) (r :: int \<times> player). period = 0 \<longrightarrow> t < c \<longrightarrow> in32 t \<longrightarrow> False"
    assume run: "refresh_loop turn 0 cur tmp count p = Some r"
    have "?P turn 0 cur tmp count p r"
    proof (rule refresh_loop.raw_induct [where P = ?P, OF _ run])
      fix f :: "(int \<Rightarrow> player \<Rightarrow> (int \<times> player) option) \<Rightarrow> int \<Rightarrow> int \<Rightarrow> int \<Rightarrow> int \<Rightarrow> player \<Rightarrow> (int \<times> player) option"
        and turn' period c u n p y
      assume IH: "\<And>turn' period c u n p y. f turn' period c u n p = Some y \<Longrightarrow> ?P turn' period c u n p y"
        and body: "(if i32 (u + period) < c
          then turn' u p \<bind> (\<lambda>(k, p). f turn' period c (i32 (u + period)) (i32 (n + k)) p) else Some (n, p)) = Some y"
      show "?P turn' period c u n p y"
      proof (intro impI)
        assume p0: "period = 0" and lt: "u < c" and u: "in32 u"
        with body obtain k p' where "f turn' period c u (i32 (n + k)) p' = Some y"
          by (auto simp: i32_id split: bind_splits)
        from IH [OF this] p0 lt u show False by blast
      qed
    qed
    with assms show False by simp
  qed
  then show ?thesis by (cases "refresh_loop turn 0 cur tmp count p") auto
qed

definition sizes_given :: "env \<Rightarrow> bool" where
  "sizes_given e \<longleftrightarrow> (\<forall>k cfg. building_map e k = Some cfg \<longrightarrow> 2 \<le> length (bd_MapSizes cfg))"

lemma map_size_Some: "2 \<le> length (bd_MapSizes cfg) \<Longrightarrow> \<exists>w h. map_size cfg dir = Some (w, h)"
  by (cases "bd_MapSizes cfg"; cases "tl (bd_MapSizes cfg)") (auto simp: map_size_def go_nth_def)

lemma place_Some: "2 \<le> length (bd_MapSizes cfg) \<Longrightarrow> \<exists>d q. place_building e cfg cfgid x y p = Some (d, q)"
  using map_size_Some [of cfg 0] by (auto simp: place_building_def Let_def split_beta)

lemma try_Some: "2 \<le> length (bd_MapSizes cfg) \<Longrightarrow> \<exists>d q. try_positions e cfg cfgid xys p = Some (d, q)"
proof (induction xys)
  case (Cons xy xys)
  then show ?case
    using map_size_Some [OF Cons.prems, of 0] place_Some [OF Cons.prems, of e cfgid "xy_x xy" "xy_y xy" p]
    by (auto simp: Let_def)
qed simp

lemma TrySet_Some: "sizes_given e \<Longrightarrow> \<exists>d q. TrySetMapBuildingDefDir e k p = Some (d, q)"
  using try_Some by (auto simp: TrySetMapBuildingDefDir_def sizes_given_def split: option.splits)

lemma block_turn_Some:
  assumes "sizes_given e" "0 < block_TotalWeight e"
  shows "\<exists>n q. block_turn e t p = Some (n, q)"
proof -
  let ?p = "p\<lparr>p_ndraws := Suc (p_ndraws p)\<rparr>"
  obtain b where b: "RandBlock e p = Some (b, ?p)" using assms(2) by (simp add: RandBlock_def Int31n_def)
  show ?thesis
  proof (cases b)
    case (Some block)
    obtain d q where "TrySetMapBuildingDefDir e (bk_Id block) ?p = Some (d, q)" using TrySet_Some [OF assms(1)] by blast
    with b Some show ?thesis by (cases d) (simp_all add: block_turn_def Let_def)
  qed (simp add: block_turn_def b)
qed

lemma AllPos_Some: "sizes_given e \<Longrightarrow> \<exists>pos' nums'. GetAllBuildingPos e ds pos nums = Some (pos', nums')"
proof (induction ds arbitrary: pos nums)
  case (Cons d ds)
  show ?case
  proof (cases "building_map e (bld_CfgId d)")
    case (Some cfg)
    with Cons.prems obtain w h where "map_size cfg (bld_Dir d) = Some (w, h)" using map_size_Some by (metis sizes_given_def)
    with Some Cons.IH [OF Cons.prems] show ?thesis by (simp add: Let_def)
  qed (use Cons in simp)
qed simp

lemma ChkUpdate_Some:
  assumes "sizes_given e"
  shows "\<exists>q. ChkUpdateMyBuildingAreas e p = Some q"
proof -
  obtain pos nums where "GetAllBuildingPos e (map snd (p_Buildings p)) Map.empty Map.empty = Some (pos, nums)"
    using AllPos_Some [OF assms] by blast
  then show ?thesis by (simp add: ChkUpdateMyBuildingAreas_def Let_def)
qed

text \<open>
  Property C29. The refresh of blocks ends. When every building has a size, the weights of the blocks
  have a positive sum, the last refresh is not in the future and the clock is not within a period of
  the end of its range, \<open>ChkMapBlock\<close> returns if the configured period is positive. With the period 0
  it never returns once a refresh is due.
\<close>

theorem block_refresh_returns:
  assumes "sizes_given e" "0 < block_TotalWeight e" "i_LastMapBlockUpUnix (p_Info p) \<le> i32 (now e)"
    "i32 (now e) + gc_MapBlockRefleshSec (config e) \<le> max32"
  shows "(0 < gc_MapBlockRefleshSec (config e) \<longrightarrow> (\<exists>n q. ChkMapBlock e p = Some (n, q))) \<and>
    (gc_MapBlockRefleshSec (config e) = 0 \<and> gc_MapBlockRefreshMinLevel (config e) \<le> p_Level p \<and>
      p_BlockNum p < gc_MapBlockMaxNum (config e) \<and> 0 < i_LastMapBlockUpUnix (p_Info p) \<and>
      i_LastMapBlockUpUnix (p_Info p) < i32 (now e) \<longrightarrow> ChkMapBlock e p = None)"
proof -
  obtain p' where u: "ChkUpdateMyBuildingAreas e p = Some p'" using ChkUpdate_Some [OF assms(1)] by blast
  let ?t = "i_LastMapBlockUpUnix (p_Info p)"
  have range: "in32 ?t" if "0 < ?t" using that assms(3) i32_bounds [of "now e"] by (simp add: in32_def)
  note turn = block_turn_Some [OF assms(1,2)]
  show ?thesis
    using refresh_loop_Some [OF turn _ range assms(4,3)] refresh_loop_forever [OF _ range] u
    by (fastforce simp: ChkMapBlock_def Let_def)
qed

definition demo_block_env :: env where
  "demo_block_env = demo_map_env\<lparr>now := 1000, block_TotalWeight := 1,
     config := empty_config\<lparr>gc_MapBlockRefleshSec := 60, gc_MapBlockMaxNum := 5\<rparr>\<rparr>"

definition demo_block_player :: player where
  "demo_block_player = demo_map_player\<lparr>p_Info := (p_Info demo_map_player)\<lparr>i_LastMapBlockUpUnix := 1\<rparr>\<rparr>"

lemma block_refresh_returns_witness:
  "(\<exists>n q. ChkMapBlock demo_block_env demo_block_player = Some (n, q)) \<and>
   ChkMapBlock (demo_block_env\<lparr>config := empty_config\<lparr>gc_MapBlockMaxNum := 5\<rparr>\<rparr>) demo_block_player = None"
proof -
  let ?e = "demo_block_env\<lparr>config := empty_config\<lparr>gc_MapBlockMaxNum := 5\<rparr>\<rparr>"
  have e: "sizes_given demo_block_env" "sizes_given ?e"
    by (auto simp: sizes_given_def demo_block_env_def demo_tower_def demo_map_defs)
  note defs = demo_block_env_def demo_block_player_def demo_map_defs empty_config_def i32_range_id
  show ?thesis
    using block_refresh_returns [OF e(1), of demo_block_player] block_refresh_returns [OF e(2), of demo_block_player]
    by (simp add: defs)
qed

end
