(* ===== verification/Mail.thy ===== *)
theory Mail
  imports Friends
begin

text \<open>
  \<open>player_mail.go\<close>: the mail box of a player, sending with attachments, the list, the details, the
  claim of attachments, deletion, and the mails of the whole server, which every player fetches for
  himself. The players of this server are the map \<open>players\<close>; the sender is the id of one of them, or
  none for a mail of the system. A nil slice of ids is the empty list, as protobuf decodes it. Not
  modelled: guild mails, whose branch is commented out and answers 0, and the locks.
\<close>

abbreviation (input) MAIL_TYPE_SYSTEM :: int where "MAIL_TYPE_SYSTEM \<equiv> 1"
abbreviation (input) MAIL_TYPE_PLAYER :: int where "MAIL_TYPE_PLAYER \<equiv> 2"
abbreviation (input) MAIL_TYPE_GUILD :: int where "MAIL_TYPE_GUILD \<equiv> 3"
abbreviation (input) E_ERR_PLAYER_MAIL_NOT_FOUND :: int where "E_ERR_PLAYER_MAIL_NOT_FOUND \<equiv> - 100601"
abbreviation (input) E_ERR_PLAYER_MAIL_NO_ATTACHED_ITEM :: int where "E_ERR_PLAYER_MAIL_NO_ATTACHED_ITEM \<equiv> - 100602"
abbreviation (input) E_ERR_PLAYER_MAIL_SEND_FAILED :: int where "E_ERR_PLAYER_MAIL_SEND_FAILED \<equiv> - 100603"
abbreviation (input) E_ERR_PLAYER_MAIL_RECEIVER_NOT_FOUND :: int where "E_ERR_PLAYER_MAIL_RECEIVER_NOT_FOUND \<equiv> - 100604"
abbreviation (input) E_ERR_PLAYER_MAIL_PLAYER_IS_COOLDOWN :: int where "E_ERR_PLAYER_MAIL_PLAYER_IS_COOLDOWN \<equiv> - 100605"
abbreviation (input) E_ERR_PLAYER_MAIL_TITLE_TOO_LONG :: int where "E_ERR_PLAYER_MAIL_TITLE_TOO_LONG \<equiv> - 100606"
abbreviation (input) E_ERR_PLAYER_MAIL_CONTENT_TOO_LONG :: int where "E_ERR_PLAYER_MAIL_CONTENT_TOO_LONG \<equiv> - 100607"
abbreviation (input) E_ERR_PLAYER_MAIL_SUBTYPE_UNKNOWN :: int where "E_ERR_PLAYER_MAIL_SUBTYPE_UNKNOWN \<equiv> - 100608"

definition i8 :: "int \<Rightarrow> int" where
  "i8 x = (x + 128) mod 256 - 128"

subsection \<open>The mail box\<close>

definition mail_basic_of :: "env \<Rightarrow> mail_data \<Rightarrow> mail_basic" where
  "mail_basic_of e v =
     \<lparr>mb_Id = ml_Id v, mb_Type = ml_Type v, mb_Subtype = ml_Subtype v, mb_Title = ml_Title v,
      mb_SenderId = ml_SenderId v, mb_SenderName = ml_SenderName v, mb_SendTime = ml_SendUnix v,
      mb_IsRead = (0 < ml_IsRead v), mb_IsGetAttached = (0 < ml_IsGetAttached v),
      mb_HasAttached = (ml_AttachItemIds v \<noteq> []), mb_Value = ml_ExtraValue v,
      mb_LeftSecs = GetRemainSeconds e (ml_SendUnix v) (i32 (gc_MailAttachExistDays (config e) * 24 * 3600))\<rparr>"

text \<open>A mail with attachments and one without have their own days to live.\<close>

definition mail_expired :: "env \<Rightarrow> mail_data \<Rightarrow> bool" where
  "mail_expired e v =
     (let days = (if ml_AttachItemIds v \<noteq> [] then gc_MailAttachExistDays (config e) else gc_MailNormalExistDays (config e))
      in i32 (days * 24 * 3600) \<le> i32 (i32 (now e) - ml_SendUnix v))"

definition Mails_GetMailList :: "env \<Rightarrow> player \<Rightarrow> mail_basic list \<times> player" where
  "Mails_GetMailList e p =
     (let mails = filter (\<lambda>v. \<not> mail_expired e v) (map snd (p_Mails p));
          to_delete_mail = map ml_Id (filter (mail_expired e) (map snd (p_Mails p)))
      in (map (mail_basic_of e) mails, p\<lparr>p_Mails := fold AList.delete to_delete_mail (p_Mails p)\<rparr>))"

definition GetMailListByIds :: "env \<Rightarrow> int list \<Rightarrow> player \<Rightarrow> mail_basic list" where
  "GetMailListByIds e mail_ids p = map (mail_basic_of e) (List.map_filter (col_Get (p_Mails p)) mail_ids)"

definition get_items_info_from :: "int list \<Rightarrow> int list \<Rightarrow> (int \<times> int) list" where
  "get_items_info_from item_ids item_nums = zip item_ids item_nums"

definition Mails_GetMailDetail :: "int \<Rightarrow> player \<Rightarrow> (int \<times> int) list \<times> string" where
  "Mails_GetMailDetail mail_id p =
     (case col_Get (p_Mails p) mail_id of
        None \<Rightarrow> ([], '''')
      | Some d \<Rightarrow> (get_items_info_from (ml_AttachItemIds d) (ml_AttachItemNums d), ml_Content d))"

definition HasUnreadMail :: "env \<Rightarrow> player \<Rightarrow> bool" where
  "HasUnreadMail e p =
     list_ex (\<lambda>v. i32 (i32 (now e) - ml_SendUnix v) < i32 (gc_MailAttachExistDays (config e) * 24 * 3600) \<and> ml_IsRead v \<le> 0)
       (map snd (p_Mails p))"

fun first_mail :: "int list \<Rightarrow> int \<Rightarrow> int" where
  "first_mail [] first_id = first_id"
| "first_mail (k # ks) first_id = first_mail ks (if k < first_id \<or> first_id = 0 then k else first_id)"

definition new_mail :: "env \<Rightarrow> int \<Rightarrow> int \<Rightarrow> int \<Rightarrow> string \<Rightarrow> string \<Rightarrow> string \<Rightarrow> int \<Rightarrow> player \<Rightarrow> int \<times> player" where
  "new_mail e typ subtype sender_id sender_name title content extra_value p =
     (let p = (if gc_MailMaxCount (config e) \<le> col_NumAll (p_Mails p)
               then let first_id = first_mail (col_GetAllIndex (p_Mails p)) 0
                    in if 0 < first_id then p\<lparr>p_Mails := col_Remove first_id (p_Mails p)\<rparr> else p
               else p);
          new_id = i32 (p_MailCurrId p + 1);
          p = p\<lparr>p_MailCurrId := new_id\<rparr>;
          d = \<lparr>ml_Id = new_id, ml_Type = i8 typ, ml_Subtype = subtype, ml_Title = title, ml_Content = content,
               ml_SendUnix = i32 (now e), ml_SenderId = sender_id, ml_SenderName = sender_name,
               ml_ExtraValue = extra_value, ml_AttachItemIds = [], ml_AttachItemNums = [], ml_IsRead = 0, ml_IsGetAttached = 0\<rparr>
      in (new_id, p\<lparr>p_Mails := snd (col_Add new_id d (p_Mails p))\<rparr>))"

definition Mails_Set :: "int \<Rightarrow> (mail_data \<Rightarrow> mail_data) \<Rightarrow> player \<Rightarrow> player" where
  "Mails_Set k u p = p\<lparr>p_Mails := snd (col_set_field u k (p_Mails p))\<rparr>"

definition attach_mail_item :: "int \<Rightarrow> int \<Rightarrow> int \<Rightarrow> player \<Rightarrow> int \<times> player" where
  "attach_mail_item mail_id item_id item_num p =
     (case col_Get (p_Mails p) mail_id of
        None \<Rightarrow> (E_ERR_PLAYER_MAIL_NOT_FOUND, p)
      | Some d \<Rightarrow>
          let p = Mails_Set mail_id (\<lambda>m. m\<lparr>ml_AttachItemIds := ml_AttachItemIds d @ [item_id]\<rparr>) p;
              p = Mails_Set mail_id (\<lambda>m. m\<lparr>ml_AttachItemNums := ml_AttachItemNums d @ [item_num]\<rparr>) p
          in (1, p))"

definition delete_mail :: "int \<Rightarrow> player \<Rightarrow> int \<times> player" where
  "delete_mail mail_id p =
     (if \<not> col_HasIndex (p_Mails p) mail_id then (E_ERR_PLAYER_MAIL_NOT_FOUND, p)
      else (1, p\<lparr>p_Mails := col_Remove mail_id (p_Mails p)\<rparr>))"

definition cache_new_mail :: "int \<Rightarrow> player \<Rightarrow> player" where
  "cache_new_mail mail_id p =
     p\<lparr>p_new_mail_ids := (case p_new_mail_ids p of None \<Rightarrow> Some [mail_id] | Some ks \<Rightarrow> Some (ks @ [mail_id]))\<rparr>"

definition clear_cache_new_mails :: "player \<Rightarrow> player" where
  "clear_cache_new_mails p = p\<lparr>p_new_mail_ids := None\<rparr>"

definition get_and_clear_cache_new_mails :: "env \<Rightarrow> player \<Rightarrow> mail_basic list \<times> player" where
  "get_and_clear_cache_new_mails e p =
     (case p_new_mail_ids p of
        None \<Rightarrow> ([], p)
      | Some ks \<Rightarrow> (GetMailListByIds e ks p, p\<lparr>p_new_mail_ids := None\<rparr>))"

definition SetSysMailSendTime :: "int \<Rightarrow> int \<Rightarrow> player \<Rightarrow> bool \<times> player" where
  "SetSysMailSendTime mail_id send_time p =
     (if \<not> col_HasIndex (p_Mails p) mail_id then (False, p)
      else (True, Mails_Set mail_id (\<lambda>m. m\<lparr>ml_SendUnix := send_time\<rparr>) p))"

subsection \<open>Sending\<close>

definition mail_has_subtype :: "env \<Rightarrow> int \<Rightarrow> int" where
  "mail_has_subtype e mail_subtype =
     (if mail_subtype \<in> set (mail_subtypes e) then 1 else E_ERR_PLAYER_MAIL_SUBTYPE_UNKNOWN)"

text \<open>The attachments: each is compared with what the sender owns and written to the new mail.\<close>

fun attach_items :: "int option \<Rightarrow> int \<Rightarrow> int \<Rightarrow> int list \<Rightarrow> players \<Rightarrow> (int \<times> players) option" where
  "attach_items sender receiver_id mail_id (k # n # items) ps = do {
     enough \<leftarrow> (case sender of None \<Rightarrow> Some True | Some s \<Rightarrow> do { p \<leftarrow> ps s; Some (n \<le> get_item p k) });
     if \<not> enough then Some (E_ERR_PLAYER_MAIL_SEND_FAILED, ps)
     else do {
       receiver \<leftarrow> ps receiver_id;
       let (res, receiver) = attach_mail_item mail_id k n receiver;
       let ps = ps(receiver_id \<mapsto> receiver);
       if res < 0 then Some (res, ps) else attach_items sender receiver_id mail_id items ps
     }
   }"
| "attach_items sender receiver_id mail_id items ps = Some (1, ps)"

fun take_attached :: "env \<Rightarrow> int list \<Rightarrow> player \<Rightarrow> player option" where
  "take_attached e (k # n # items) p = do { (_, p) \<leftarrow> AddItemResource e k (i32 (- n)) p; take_attached e items p }"
| "take_attached e items p = Some p"

text \<open>The conditions that depend on the kind of the mail.\<close>

definition chk_mail_type :: "env \<Rightarrow> int option \<Rightarrow> int \<Rightarrow> int \<Rightarrow> players \<Rightarrow> int option" where
  "chk_mail_type e sender mail_type mail_subtype ps =
     (if mail_type = MAIL_TYPE_PLAYER then
        (case sender of None \<Rightarrow> Some (- 1)
         | Some s \<Rightarrow> do {
             p \<leftarrow> ps s;
             Some (if i32 (i32 (now e) - p_LastSendPlayerMailTime p) < gc_MailPlayerSendCooldown (config e)
                   then E_ERR_PLAYER_MAIL_PLAYER_IS_COOLDOWN else 1)
           })
      else if mail_type = MAIL_TYPE_SYSTEM then Some (mail_has_subtype e mail_subtype)
      else Some 1)"

definition RealSendMail :: "env \<Rightarrow> int option \<Rightarrow> int \<Rightarrow> int \<Rightarrow> int \<Rightarrow> string \<Rightarrow> string \<Rightarrow> int list \<Rightarrow> int \<Rightarrow> players \<Rightarrow>
    (int \<times> players) option" where
  "RealSendMail e sender receiver_id mail_type mail_subtype title content items extra_value ps =
     (if gc_MailTitleBytes (config e) < i32 (int (length title)) then Some (E_ERR_PLAYER_MAIL_TITLE_TOO_LONG, ps)
      else if gc_MailContentBytes (config e) < i32 (int (length content)) then Some (E_ERR_PLAYER_MAIL_CONTENT_TOO_LONG, ps)
      else do {
        res \<leftarrow> chk_mail_type e sender mail_type mail_subtype ps;
        if res < 0 then Some (res, ps)
        else (case ps receiver_id of
            None \<Rightarrow> Some (E_ERR_PLAYER_MAIL_RECEIVER_NOT_FOUND, ps)
          | Some receiver \<Rightarrow> do {
              (sender_id, sender_name) \<leftarrow> (case sender of None \<Rightarrow> Some (0, '''')
                 | Some s \<Rightarrow> do { p \<leftarrow> ps s; Some (p_Id p, p_Name p) });
              let (mail_id, receiver) = new_mail e mail_type mail_subtype sender_id sender_name title content extra_value receiver;
              let ps = ps(receiver_id \<mapsto> receiver);
              if mail_id \<le> 0 then Some (E_ERR_PLAYER_MAIL_SEND_FAILED, ps)
              else do {
                (res, ps) \<leftarrow> attach_items sender receiver_id mail_id items ps;
                if res < 0 then Some (res, ps)
                else do {
                  ps \<leftarrow> (case sender of None \<Rightarrow> Some ps
                     | Some s \<Rightarrow> do { p \<leftarrow> ps s; p \<leftarrow> take_attached e items p; Some (ps(s \<mapsto> p)) });
                  let ps = upd_player receiver_id (cache_new_mail mail_id) ps;
                  Some (mail_id, (case sender of None \<Rightarrow> ps
                     | Some s \<Rightarrow> if mail_type = MAIL_TYPE_PLAYER
                                 then upd_player s (\<lambda>p. p\<lparr>p_LastSendPlayerMailTime := i32 (now e)\<rparr>) ps else ps))
                }
              }
            })
      })"

text \<open>The extra value is not handed on.\<close>

definition SendMail :: "env \<Rightarrow> int option \<Rightarrow> int \<Rightarrow> int \<Rightarrow> int \<Rightarrow> string \<Rightarrow> string \<Rightarrow> (int \<times> int) list \<Rightarrow> int \<Rightarrow> players \<Rightarrow>
    (int \<times> players) option" where
  "SendMail e sender receiver_id mail_type mail_subtype title content attached_items extra_value ps =
     (let items = concat (map (\<lambda>(k, n). [k, n]) attached_items)
      in if mail_type = MAIL_TYPE_GUILD then Some (0, ps)
         else RealSendMail e sender receiver_id mail_type mail_subtype title content items 0 ps)"

definition C2SMailSend :: "env \<Rightarrow> int \<Rightarrow> int \<Rightarrow> int \<Rightarrow> int \<Rightarrow> string \<Rightarrow> string \<Rightarrow> (int \<times> int) list \<Rightarrow> players \<Rightarrow>
    (int \<times> players) option" where
  "C2SMailSend e me receiver_id mail_type mail_subtype title content attached_items ps = do {
     (mail_id, ps) \<leftarrow> SendMail e (Some me) receiver_id mail_type mail_subtype title content attached_items 0 ps;
     Some (mail_id, if 0 < mail_id then upd_player me (Send_msg (S2CMailSendResponse mail_id)) ps else ps)
   }"

subsection \<open>The mails of the server\<close>

fun sys_mail_loop :: "env \<Rightarrow> int \<Rightarrow> int list \<Rightarrow> players \<Rightarrow> players option" where
  "sys_mail_loop e me [] ps = Some ps"
| "sys_mail_loop e me (k # ks) ps =
     (case sys_mails e k of
        None \<Rightarrow> sys_mail_loop e me ks ps
      | Some mail \<Rightarrow> do {
          p \<leftarrow> ps me;
          if i_CreateUnix (p_Info p) \<le> sm_SendTime mail then do {
            (mid, ps) \<leftarrow> RealSendMail e None me MAIL_TYPE_SYSTEM (sm_TableId mail) '''' '''' (sm_ItemList mail) 0 ps;
            sys_mail_loop e me ks (upd_player me (\<lambda>p. snd (SetSysMailSendTime mid (sm_SendTime mail) p)) ps)
          }
          else sys_mail_loop e me ks ps
        })"

definition CheckSystemMail :: "env \<Rightarrow> int \<Rightarrow> players \<Rightarrow> players option" where
  "CheckSystemMail e me ps = do {
     p \<leftarrow> ps me;
     if p_SysMailCurrId p < sys_mail_id e then do {
       ps \<leftarrow> sys_mail_loop e me [p_SysMailCurrId p..sys_mail_id e] ps;
       Some (upd_player me (\<lambda>p. p\<lparr>p_SysMailCurrId := sys_mail_id e\<rparr>) ps)
     }
     else Some ps
   }"

subsection \<open>Reading\<close>

definition CheckNewMail :: "env \<Rightarrow> player \<Rightarrow> int \<times> player" where
  "CheckNewMail e p =
     (case get_and_clear_cache_new_mails e p of
        (mails, p) \<Rightarrow> (1, if mails = [] then p else Send_msg (S2CMailsNewNotify mails) p))"

definition GetMailList :: "env \<Rightarrow> player \<Rightarrow> int \<times> player" where
  "GetMailList e p =
     (case Mails_GetMailList e (clear_cache_new_mails p) of (basic, p) \<Rightarrow> (1, Send_msg (S2CMailListResponse basic) p))"

fun mail_details :: "int list \<Rightarrow> (int \<times> string \<times> (int \<times> int) list) list \<Rightarrow> player \<Rightarrow>
    (int \<times> (int \<times> string \<times> (int \<times> int) list) list) \<times> player" where
  "mail_details [] details p = ((1, details), p)"
| "mail_details (k # ks) details p =
     (if \<not> col_HasIndex (p_Mails p) k then ((E_ERR_PLAYER_MAIL_NOT_FOUND, details), p)
      else let p = Mails_Set k (\<lambda>m. m\<lparr>ml_IsRead := 1\<rparr>) p;
               (attached_items, content) = Mails_GetMailDetail k p
           in mail_details ks (details @ [(k, content, attached_items)]) p)"

definition GetMailDetail :: "int list \<Rightarrow> player \<Rightarrow> int \<times> player" where
  "GetMailDetail mail_ids p =
     (if mail_ids = [] then (- 1, p)
      else case mail_details mail_ids [] p of
          ((res, details), p) \<Rightarrow> if res < 0 then (res, p) else (1, Send_msg (S2CMailDetailResponse details) p))"

text \<open>The attachments of one mail; ids that are no items are skipped but still reported.\<close>

fun claim_items :: "env \<Rightarrow> (int \<times> int) list \<Rightarrow> int column \<Rightarrow> player \<Rightarrow> (int column \<times> player) option" where
  "claim_items e [] acc p = Some (acc, p)"
| "claim_items e ((k, n) # items) acc p = do {
     p \<leftarrow> (if item_map e k \<noteq> None then do { (_, p) \<leftarrow> AddItemResource e k n p; Some p } else Some p);
     let v = (case map_of acc k of None \<Rightarrow> n | Some v \<Rightarrow> if v = 0 then n else i32 (v + n));
     claim_items e items (AList.update k v acc) p
   }"

fun claim_mails :: "env \<Rightarrow> int list \<Rightarrow> int column \<Rightarrow> player \<Rightarrow> ((int \<times> int column) \<times> player) option" where
  "claim_mails e [] acc p = Some ((1, acc), p)"
| "claim_mails e (k # ks) acc p =
     (case col_Get (p_Mails p) k of
        None \<Rightarrow> Some ((E_ERR_PLAYER_MAIL_NOT_FOUND, acc), p)
      | Some d \<Rightarrow>
          let items = get_items_info_from (ml_AttachItemIds d) (ml_AttachItemNums d)
          in if items = [] then Some ((E_ERR_PLAYER_MAIL_NO_ATTACHED_ITEM, acc), p)
             else do {
               (acc, p) \<leftarrow> claim_items e items acc p;
               let p = Mails_Set k (\<lambda>m. m\<lparr>ml_IsGetAttached := 1\<rparr>) p;
               claim_mails e ks acc (Mails_Set k (\<lambda>m. m\<lparr>ml_IsRead := 1\<rparr>) p)
             })"

definition GetMailAttachedItems :: "env \<Rightarrow> int list \<Rightarrow> player \<Rightarrow> (int \<times> player) option" where
  "GetMailAttachedItems e mail_ids p =
     (if mail_ids = [] then Some (- 1, p)
      else do {
        ((res, attached_items), p) \<leftarrow> claim_mails e mail_ids [] p;
        if res < 0 then Some (res, p)
        else Some (1, SendBuildingUpdate (SendCatsUpdate (SendItemsUpdate
               (Send_msg (S2CMailGetAttachedItemsResponse mail_ids attached_items) p))))
      })"

fun delete_mails :: "int list \<Rightarrow> player \<Rightarrow> int \<times> player" where
  "delete_mails [] p = (1, p)"
| "delete_mails (k # ks) p =
     (if \<not> col_HasIndex (p_Mails p) k then (E_ERR_PLAYER_MAIL_NOT_FOUND, p)
      else delete_mails ks (p\<lparr>p_Mails := col_Remove k (p_Mails p)\<rparr>))"

definition DeleteMails :: "int list \<Rightarrow> player \<Rightarrow> int \<times> player" where
  "DeleteMails mail_ids p =
     (if mail_ids = [] then (- 1, p)
      else case delete_mails mail_ids p of
          (res, p) \<Rightarrow> if res < 0 then (res, p) else (1, Send_msg (S2CMailDeleteResponse mail_ids) p))"

end
