(* ===== verification/MailBox.thy ===== *)
theory MailBox
  imports Mail "HOL-Library.Sublist"
begin

text \<open>
  The mail boxes of the players of a server under every mail operation: a box holds at most
  \<open>MailMaxCount\<close> mails, keyed by their own ids, and what a mail that was sent holds. A mail that
  could not be sent for its attachments stays in the box with those that were written.
\<close>

subsection \<open>Making room\<close>

lemma first_mail_least:
  "\<forall>k \<in> set ks. 0 < k \<Longrightarrow> 0 \<le> a \<Longrightarrow>
     first_mail ks a = (if ks = [] then a else if a = 0 then Min (set ks) else min a (Min (set ks)))"
proof (induction ks arbitrary: a)
  case (Cons k ks)
  then have "0 < Min (set ks)" if "ks \<noteq> []" using that by simp
  with Cons.prems Cons.IH [of k] Cons.IH [of a] show ?case by (auto simp: min_def)
qed simp

text \<open>A box: its mails are keyed by their ids, which are those given out so far.\<close>

definition mails_ok :: "mail_data column \<Rightarrow> int \<Rightarrow> bool" where
  "mails_ok m curr_id \<longleftrightarrow> col_wf m \<and> 0 \<le> curr_id \<and> curr_id \<le> max32 \<and>
     (\<forall>k d. map_of m k = Some d \<longrightarrow> ml_Id d = k \<and> 0 < k \<and> k \<le> curr_id \<and>
        length (ml_AttachItemIds d) = length (ml_AttachItemNums d))"

definition box_ok :: "int \<Rightarrow> player \<Rightarrow> bool" where
  "box_ok mx p \<longleftrightarrow> mails_ok (p_Mails p) (p_MailCurrId p) \<and> int (length (p_Mails p)) \<le> mx"

lemma mails_okD:
  assumes "mails_ok m c"
  shows "col_wf m" "0 \<le> c" "c \<le> max32" "map_of m k = Some d \<Longrightarrow> ml_Id d = k"
    "map_of m k = Some d \<Longrightarrow> 0 < k \<and> k \<le> c"
    "map_of m k = Some d \<Longrightarrow> length (ml_AttachItemIds d) = length (ml_AttachItemNums d)"
  using assms by (auto simp: mails_ok_def)

lemma mails_ok_Remove: "mails_ok m c \<Longrightarrow> mails_ok (col_Remove k m) c"
  by (auto simp: mails_ok_def col_simps split: if_splits)

lemma mails_ok_Add:
  "mails_ok m c \<Longrightarrow> c < max32 \<Longrightarrow> ml_Id d = c + 1 \<Longrightarrow> length (ml_AttachItemIds d) = length (ml_AttachItemNums d) \<Longrightarrow>
     mails_ok (AList.update (c + 1) d m) (c + 1)"
  by (auto simp: mails_ok_def col_simps split: if_splits) fastforce

lemma mails_ok_set:
  "mails_ok m c \<Longrightarrow> (\<And>d. map_of m k = Some d \<Longrightarrow> ml_Id (u d) = ml_Id d \<and> length (ml_AttachItemIds (u d)) = length (ml_AttachItemNums (u d))) \<Longrightarrow>
     mails_ok (snd (col_set_field u k m)) c"
  by (auto simp: mails_ok_def col_simps split: if_splits option.splits)

lemma col_length: "col_wf m \<Longrightarrow> length m = card (dom (map_of m))"
  by (simp add: col_wf_def dom_map_of_conv_image_fst distinct_card [of "map fst m", simplified])

text \<open>A full box loses its oldest mail, the one with the least id.\<close>

definition room_made :: "int \<Rightarrow> mail_data column \<Rightarrow> int \<rightharpoonup> mail_data" where
  "room_made mx m = (if mx \<le> int (length m) then (map_of m)(Min (dom (map_of m)) := None) else map_of m)"

lemma room_made_run:
  assumes "mails_ok (p_Mails p) c" "int (length (p_Mails p)) \<le> max32"
  shows "\<exists>m. (if mx \<le> col_NumAll (p_Mails p)
        then let first_id = first_mail (col_GetAllIndex (p_Mails p)) 0
             in if 0 < first_id then p\<lparr>p_Mails := col_Remove first_id (p_Mails p)\<rparr> else p
        else p) = p\<lparr>p_Mails := m\<rparr> \<and> mails_ok m c \<and> map_of m = room_made mx (p_Mails p) \<and>
      (1 \<le> mx \<and> int (length (p_Mails p)) \<le> mx \<longrightarrow> int (length m) < mx)"
proof -
  let ?m = "p_Mails p"
  have num: "col_NumAll ?m = int (length ?m)" using assms(2) by (simp add: col_NumAll_def i32_range_id)
  have keys: "set (col_GetAllIndex ?m) = dom (map_of ?m)" by (simp add: col_GetAllIndex_def dom_map_of_conv_image_fst)
  have pos: "\<forall>k \<in> set (col_GetAllIndex ?m). 0 < k" using mails_okD(5) [OF assms(1)] by (auto simp: keys)
  show ?thesis
  proof (cases "mx \<le> int (length ?m)")
    case True
    show ?thesis
    proof (cases "?m = []")
      case False
      then have ne: "col_GetAllIndex ?m \<noteq> []" by (simp add: col_GetAllIndex_def)
      have least: "first_mail (col_GetAllIndex ?m) 0 = Min (dom (map_of ?m))"
        using first_mail_least [OF pos, of 0] ne by (simp add: keys)
      have mem: "Min (dom (map_of ?m)) \<in> dom (map_of ?m)"
        using ne keys by (intro Min_in) (auto simp: finite_dom_map_of)
      with pos have "0 < Min (dom (map_of ?m))" by (simp add: keys)
      moreover have "int (length (col_Remove (Min (dom (map_of ?m))) ?m)) < mx" if "int (length ?m) \<le> mx"
      proof -
        have "Suc (length (col_Remove (Min (dom (map_of ?m))) ?m)) = length ?m"
          using mem col_length [OF mails_okD(1) [OF assms(1)]] col_length [OF mails_okD(1) [OF mails_ok_Remove [OF assms(1)]]]
          by (simp add: col_simps card_Suc_Diff1 finite_dom_map_of del: card_Diff_insert card_Diff_singleton)
        with that show ?thesis by simp
      qed
      ultimately show ?thesis using True mails_ok_Remove [OF assms(1)]
        by (intro exI [of _ "col_Remove (Min (dom (map_of ?m))) ?m"]) (simp add: num least room_made_def col_simps)
    next
      case nil: True
      have "\<not> 1 \<le> mx" using True nil by simp
      with True assms(1) nil show ?thesis
        by (intro exI [of _ ?m]) (simp only: num, simp add: room_made_def col_GetAllIndex_def)
    qed
  next
    case False
    with assms(1) show ?thesis by (intro exI [of _ ?m]) (simp add: num room_made_def)
  qed
qed

subsection \<open>A new mail\<close>

definition fresh_mail :: "env \<Rightarrow> int \<Rightarrow> int \<Rightarrow> int \<Rightarrow> int \<Rightarrow> string \<Rightarrow> string \<Rightarrow> string \<Rightarrow> int \<Rightarrow> mail_data" where
  "fresh_mail e k typ subtype sender_id sender_name title content extra_value =
     \<lparr>ml_Id = k, ml_Type = i8 typ, ml_Subtype = subtype, ml_Title = title, ml_Content = content,
      ml_SendUnix = i32 (now e), ml_SenderId = sender_id, ml_SenderName = sender_name,
      ml_ExtraValue = extra_value, ml_AttachItemIds = [], ml_AttachItemNums = [], ml_IsRead = 0, ml_IsGetAttached = 0\<rparr>"

lemma new_mail_run:
  assumes "box_ok (gc_MailMaxCount (config e)) p" "p_MailCurrId p < max32" "1 \<le> gc_MailMaxCount (config e)" "gc_MailMaxCount (config e) \<le> max32"
    and run: "new_mail e typ subtype sid sname title content extra p = (k, q)"
  shows "k = p_MailCurrId p + 1" "box_ok (gc_MailMaxCount (config e)) q" "p_MailCurrId q = k"
    "map_of (p_Mails q) = (room_made (gc_MailMaxCount (config e)) (p_Mails p))(k \<mapsto> fresh_mail e k typ subtype sid sname title content extra)"
    "q = p\<lparr>p_MailCurrId := k, p_Mails := p_Mails q\<rparr>"
proof -
  let ?mx = "gc_MailMaxCount (config e)"
  have ok: "mails_ok (p_Mails p) (p_MailCurrId p)" "int (length (p_Mails p)) \<le> ?mx" using assms(1) by (simp_all add: box_ok_def)
  then obtain m where room: "(if ?mx \<le> col_NumAll (p_Mails p)
        then let first_id = first_mail (col_GetAllIndex (p_Mails p)) 0
             in if 0 < first_id then p\<lparr>p_Mails := col_Remove first_id (p_Mails p)\<rparr> else p
        else p) = p\<lparr>p_Mails := m\<rparr>" and m: "mails_ok m (p_MailCurrId p)" "map_of m = room_made ?mx (p_Mails p)" "int (length m) < ?mx"
    using room_made_run [OF ok(1), of ?mx] assms(3,4) by auto
  have exact: "i32 (p_MailCurrId p + 1) = p_MailCurrId p + 1"
    using mails_okD(2) [OF ok(1)] assms(2) by (simp add: i32_range_id)
  have fresh: "map_of m (p_MailCurrId p + 1) = None"
    using mails_okD(5) [OF m(1)] by (cases "map_of m (p_MailCurrId p + 1)") fastforce+
  let ?d = "fresh_mail e (p_MailCurrId p + 1) typ subtype sid sname title content extra"
  have k: "k = p_MailCurrId p + 1" and q: "q = p\<lparr>p_MailCurrId := k, p_Mails := AList.update k ?d m\<rparr>"
    using run fresh by (auto simp: new_mail_def room Let_def exact fresh_mail_def col_Add_def col_HasIndex_def)
  show "k = p_MailCurrId p + 1" "p_MailCurrId q = k" "q = p\<lparr>p_MailCurrId := k, p_Mails := p_Mails q\<rparr>" using k q by simp_all
  show "map_of (p_Mails q) = (room_made ?mx (p_Mails p))(k \<mapsto> fresh_mail e k typ subtype sid sname title content extra)"
    using q k m(2) by (simp add: col_simps)
  have "mails_ok (AList.update k ?d m) k" using mails_ok_Add [OF m(1) assms(2)] k by (simp add: fresh_mail_def)
  moreover from this have "length (AList.update k ?d m) = Suc (length m)"
    using fresh col_length [OF mails_okD(1) [OF m(1)]] by (simp add: col_length [OF mails_okD(1)] col_simps k domIff finite_dom_map_of)
  ultimately show "box_ok ?mx q" using q m(3) by (simp add: box_ok_def)
qed

subsection \<open>Attachments\<close>

definition attached :: "(int \<times> int) list \<Rightarrow> mail_data \<Rightarrow> mail_data" where
  "attached xs d = d\<lparr>ml_AttachItemIds := ml_AttachItemIds d @ map fst xs, ml_AttachItemNums := ml_AttachItemNums d @ map snd xs\<rparr>"

lemma attached_simps [simp]:
  "attached [] d = d" "attached ys (attached xs d) = attached (xs @ ys) d" "ml_Id (attached xs d) = ml_Id d"
  by (simp_all add: attached_def)

lemma get_item_mails [simp]: "get_item (p\<lparr>p_Mails := m\<rparr>) k = get_item p k"
  by (simp add: get_item_def GetItemNum_def)

lemma attach_mail_item_run:
  assumes "map_of (p_Mails p) k = Some d" "box_ok mx p"
  obtains m where "attach_mail_item k a n p = (1, p\<lparr>p_Mails := m\<rparr>)"
    "map_of m = (map_of (p_Mails p))(k \<mapsto> attached [(a, n)] d)" "box_ok mx (p\<lparr>p_Mails := m\<rparr>)"
proof -
  let ?m = "AList.update k (attached [(a, n)] d) (p_Mails p)"
  have ok: "mails_ok (p_Mails p) (p_MailCurrId p)" using assms(2) by (simp add: box_ok_def)
  have upd: "AList.update k d2 (AList.update k d1 m) = AList.update k d2 m" for d1 d2 :: mail_data and m
    by (induction m) auto
  have "attach_mail_item k a n p = (1, p\<lparr>p_Mails := ?m\<rparr>)"
    using assms(1) by (simp add: attach_mail_item_def Mails_Set_def col_set_field_def col_simps upd attached_def)
  moreover have "mails_ok ?m (p_MailCurrId p)"
    using mails_ok_set [OF ok, of k "\<lambda>_. attached [(a, n)] d"] assms(1) mails_okD(6) [OF ok assms(1)]
    by (simp add: col_set_field_def attached_def)
  moreover from this have "length ?m = length (p_Mails p)"
    using assms(1) by (simp add: col_length [OF mails_okD(1)] col_length [OF mails_okD(1) [OF ok]] col_simps insert_absorb domI)
  ultimately show thesis using that [of ?m] assms(2) by (simp add: col_simps box_ok_def)
qed

definition affordable :: "int option \<Rightarrow> players \<Rightarrow> (int \<times> int) list \<Rightarrow> bool" where
  "affordable sender ps xs \<longleftrightarrow>
     (\<forall>s. sender = Some s \<longrightarrow> (\<forall>(a, n) \<in> set xs. \<exists>p. ps s = Some p \<and> n \<le> get_item p a))"

lemma affordable_bag:
  "ps rid = Some p \<Longrightarrow> (\<And>a. get_item q a = get_item p a) \<Longrightarrow> affordable sender (ps(rid \<mapsto> q)) xs = affordable sender ps xs"
  by (cases sender) (simp_all add: affordable_def)

text \<open>The first attachment the sender does not own, after \<open>xs\<close>.\<close>

definition stops_after :: "int option \<Rightarrow> players \<Rightarrow> (int \<times> int) list \<Rightarrow> (int \<times> int) list \<Rightarrow> bool" where
  "stops_after sender ps pairs xs \<longleftrightarrow> (\<exists>x ys. pairs = xs @ x # ys \<and> \<not> affordable sender ps [x])"

lemma stops_after_simps [simp]:
  "stops_after sender ps (x # pairs) [] \<longleftrightarrow> \<not> affordable sender ps [x]"
  "stops_after sender ps (x # pairs) (x # xs) \<longleftrightarrow> stops_after sender ps pairs xs"
  by (simp_all add: stops_after_def)

lemma stops_after_bag:
  "ps rid = Some p \<Longrightarrow> (\<And>a. get_item q a = get_item p a) \<Longrightarrow> stops_after sender (ps(rid \<mapsto> q)) pairs xs = stops_after sender ps pairs xs"
  by (simp add: stops_after_def affordable_bag)

lemma attach_nothing:
  "ps rid = Some p \<Longrightarrow> map_of (p_Mails p) k = Some d \<Longrightarrow> box_ok mx p \<Longrightarrow>
     \<exists>m. ps = ps(rid \<mapsto> p\<lparr>p_Mails := m\<rparr>) \<and> map_of m = (map_of (p_Mails p))(k \<mapsto> d) \<and> box_ok mx (p\<lparr>p_Mails := m\<rparr>)"
  by (intro exI [of _ "p_Mails p"]) (simp add: fun_upd_idem)

lemma attach_items_run:
  assumes "attach_items sender rid k items ps = Some (res, qs)" "ps rid = Some p" "map_of (p_Mails p) k = Some d" "box_ok mx p"
  shows "\<exists>xs m. qs = ps(rid \<mapsto> p\<lparr>p_Mails := m\<rparr>) \<and> map_of m = (map_of (p_Mails p))(k \<mapsto> attached xs d) \<and>
    box_ok mx (p\<lparr>p_Mails := m\<rparr>) \<and> prefix xs (pairs_of items) \<and> affordable sender ps xs \<and>
    (res = 1 \<and> xs = pairs_of items \<or> res = E_ERR_PLAYER_MAIL_SEND_FAILED \<and> stops_after sender ps (pairs_of items) xs)"
  using assms
proof (induction sender rid k items ps arbitrary: p d rule: attach_items.induct)
  case (1 sender rid k a n items ps)
  from 1(2) obtain enough where en: "(case sender of None \<Rightarrow> Some True | Some s \<Rightarrow> do { p \<leftarrow> ps s; Some (n \<le> get_item p a) }) = Some enough"
    by (auto split: bind_splits)
  show ?case
  proof (cases enough)
    case False
    with en obtain s where "sender = Some s" "\<And>q. ps s = Some q \<Longrightarrow> \<not> n \<le> get_item q a"
      by (cases sender) (auto split: bind_splits)
    then have "\<not> affordable sender ps [(a, n)]" by (auto simp: affordable_def)
    with False 1(2-5) en show ?thesis
      by (intro exI [of _ "[] :: (int \<times> int) list"] exI [of _ "p_Mails p"]) (auto simp: fun_upd_idem affordable_def [of _ _ "[]"])
  next
    case True
    obtain m where at: "attach_mail_item k a n p = (1, p\<lparr>p_Mails := m\<rparr>)"
      and m: "map_of m = (map_of (p_Mails p))(k \<mapsto> attached [(a, n)] d)" "box_ok mx (p\<lparr>p_Mails := m\<rparr>)"
      using attach_mail_item_run [OF 1(4,5)] by blast
    let ?ps = "ps(rid \<mapsto> p\<lparr>p_Mails := m\<rparr>)"
    have run: "attach_items sender rid k items ?ps = Some (res, qs)" using 1(2,3) en True at by simp
    have aff: "affordable sender ps [(a, n)]"
      using en True by (auto simp: affordable_def split: bind_splits)
    have "\<exists>xs m'. qs = ?ps(rid \<mapsto> p\<lparr>p_Mails := m\<rparr>\<lparr>p_Mails := m'\<rparr>) \<and>
      map_of m' = (map_of (p_Mails (p\<lparr>p_Mails := m\<rparr>)))(k \<mapsto> attached xs (attached [(a, n)] d)) \<and>
      box_ok mx (p\<lparr>p_Mails := m\<rparr>\<lparr>p_Mails := m'\<rparr>) \<and> prefix xs (pairs_of items) \<and> affordable sender ?ps xs \<and>
      (res = 1 \<and> xs = pairs_of items \<or> res = E_ERR_PLAYER_MAIL_SEND_FAILED \<and> stops_after sender ?ps (pairs_of items) xs)"
      by (rule 1(1) [OF en _ 1(3) refl at [symmetric] refl _ run]) (use True m in simp_all)
    then obtain xs m' where ih: "qs = ?ps(rid \<mapsto> p\<lparr>p_Mails := m\<rparr>\<lparr>p_Mails := m'\<rparr>)"
      "map_of m' = (map_of (p_Mails (p\<lparr>p_Mails := m\<rparr>)))(k \<mapsto> attached xs (attached [(a, n)] d))"
      "box_ok mx (p\<lparr>p_Mails := m\<rparr>\<lparr>p_Mails := m'\<rparr>)" "prefix xs (pairs_of items)" "affordable sender ?ps xs"
      "res = 1 \<and> xs = pairs_of items \<or> res = E_ERR_PLAYER_MAIL_SEND_FAILED \<and> stops_after sender ?ps (pairs_of items) xs" by blast
    have bag: "get_item (p\<lparr>p_Mails := m\<rparr>) b = get_item p b" for b by simp
    have "affordable sender ps xs" using ih(5) by (simp only: affordable_bag [of ps rid p "p\<lparr>p_Mails := m\<rparr>" sender xs, OF 1(3) bag])
    with aff have "affordable sender ps ((a, n) # xs)" by (auto simp: affordable_def)
    with ih m(1) stops_after_bag [of ps rid p "p\<lparr>p_Mails := m\<rparr>" sender "pairs_of items" xs, OF 1(3) bag] show ?thesis by (intro exI [of _ "(a, n) # xs"] exI [of _ "m' :: mail_data column"]) auto
  qed
qed (auto simp: affordable_def intro: attach_nothing)

lemma side_take_attached: "take_attached e items p = Some q \<Longrightarrow> side q = side p"
  by (induction e items p rule: take_attached.induct) (auto dest!: side_AddItemResource split: bind_splits)

subsection \<open>Sending\<close>

definition box :: "player \<Rightarrow> mail_data column \<times> int" where
  "box p = (p_Mails p, p_MailCurrId p)"

definition boxes_kept :: "int set \<Rightarrow> players \<Rightarrow> players \<Rightarrow> bool" where
  "boxes_kept js ps qs \<longleftrightarrow> (\<forall>j \<in> js. map_option box (qs j) = map_option box (ps j))"

lemma boxes_kept_refl [simp]: "boxes_kept js ps ps"
  by (simp add: boxes_kept_def)

lemma box_box_ok: "box q = box p \<Longrightarrow> box_ok mx q = box_ok mx p"
  by (simp add: box_def box_ok_def)

lemma box_side:
  assumes "side q = side p"
  shows "box q = box p" "p_new_mail_ids q = p_new_mail_ids p"
  by (simp_all add: box_def side_frame [OF assms])

lemma box_updates [simp]:
  "box (cache_new_mail k p) = box p" "box (p\<lparr>p_LastSendPlayerMailTime := t\<rparr>) = box p"
  "box (p\<lparr>p_SysMailCurrId := i\<rparr>) = box p"
  by (simp_all add: box_def cache_new_mail_def)

lemma boxes_upd: "(\<And>p. box (f p) = box p) \<Longrightarrow> map_option box (upd_player k f ps j) = map_option box (ps j)"
  by (cases "ps k") (auto simp: upd_player_def)

lemma pay_attached:
  assumes "(case sender of None \<Rightarrow> Some ps | Some s \<Rightarrow> do { p \<leftarrow> ps s; p \<leftarrow> take_attached e items p; Some (ps(s \<mapsto> p)) }) = Some qs"
  shows "map_option side (qs j) = map_option side (ps j)"
proof (cases sender)
  case (Some s)
  with assms obtain p q where "ps s = Some p" "take_attached e items p = Some q" "qs = ps(s \<mapsto> q)" by (auto split: bind_splits)
  with side_take_attached [of e items p q] show ?thesis by simp
qed (use assms in simp)

lemma side_option:
  "map_option side (qs j) = map_option side (ps j) \<Longrightarrow> map_option box (qs j) = map_option box (ps j)"
  "map_option side (qs j) = map_option side (ps j) \<Longrightarrow> map_option p_new_mail_ids (qs j) = map_option p_new_mail_ids (ps j)"
  by (cases "ps j"; cases "qs j"; simp; erule box_side)+

definition after_sending :: "env \<Rightarrow> int option \<Rightarrow> int \<Rightarrow> int \<Rightarrow> int \<Rightarrow> players \<Rightarrow> players" where
  "after_sending e sender mail_type receiver_id mail_id ps =
     (let ps = upd_player receiver_id (cache_new_mail mail_id) ps
      in case sender of None \<Rightarrow> ps
       | Some s \<Rightarrow> if mail_type = MAIL_TYPE_PLAYER
                   then upd_player s (\<lambda>p. p\<lparr>p_LastSendPlayerMailTime := i32 (now e)\<rparr>) ps else ps)"

lemma after_sending_box [simp]:
  "map_option box (after_sending e sender typ rid k ps j) = map_option box (ps j)"
  by (simp add: after_sending_def Let_def boxes_upd split: option.split)

lemma after_sending_cache:
  "ps rid = Some p \<Longrightarrow> map_option p_new_mail_ids (after_sending e sender typ rid k ps rid) = Some (p_new_mail_ids (cache_new_mail k p))"
  by (auto simp: after_sending_def Let_def upd_player_def split: option.split)

definition sender_data :: "int option \<Rightarrow> players \<Rightarrow> (int \<times> string) option" where
  "sender_data sender ps = (case sender of None \<Rightarrow> Some (0, '''') | Some s \<Rightarrow> do { p \<leftarrow> ps s; Some (p_Id p, p_Name p) })"

lemma RealSendMail_cases:
  assumes run: "RealSendMail e sender k typ subtype title content items extra ps = Some (r, qs)" and p: "ps k = Some p"
    and ok: "box_ok (gc_MailMaxCount (config e)) p" "p_MailCurrId p < max32" "1 \<le> gc_MailMaxCount (config e)" "gc_MailMaxCount (config e) \<le> max32"
  obtains (refused) "r < 0" "qs = ps"
    | (written) xs m ps2 sid sname where "sender_data sender ps = Some (sid, sname)" "prefix xs (pairs_of items)" "affordable sender ps xs"
        "box_ok (gc_MailMaxCount (config e)) (p\<lparr>p_MailCurrId := p_MailCurrId p + 1, p_Mails := m\<rparr>)"
        "map_of m = (room_made (gc_MailMaxCount (config e)) (p_Mails p))(p_MailCurrId p + 1 \<mapsto>
           attached xs (fresh_mail e (p_MailCurrId p + 1) typ subtype sid sname title content extra))"
        "\<And>j. map_option side (ps2 j) = map_option side ((ps(k \<mapsto> p\<lparr>p_MailCurrId := p_MailCurrId p + 1, p_Mails := m\<rparr>)) j)"
        "r = E_ERR_PLAYER_MAIL_SEND_FAILED \<and> stops_after sender ps (pairs_of items) xs \<and> qs = ps2 \<or>
         r = p_MailCurrId p + 1 \<and> xs = pairs_of items \<and> qs = after_sending e sender typ k r ps2"
proof (cases "r < 0 \<and> qs = ps")
  case False
  with run p obtain sid sname where sd: "sender_data sender ps = Some (sid, sname)"
    by (auto simp: RealSendMail_def sender_data_def split: if_splits bind_splits)
  obtain k' p1 where new: "new_mail e typ subtype sid sname title content extra p = (k', p1)" by fastforce
  note n = new_mail_run [OF ok new]
  have k': "k' = p_MailCurrId p + 1" "0 < k'" using n(1) ok(1) by (auto simp: box_ok_def mails_ok_def)
  from False run p sd new k' obtain res ps1 where at: "attach_items sender k k' items (ps(k \<mapsto> p1)) = Some (res, ps1)"
    and rest: "if res < 0 then r = res \<and> qs = ps1
      else \<exists>ps2. (case sender of None \<Rightarrow> Some ps1
                     | Some s \<Rightarrow> do { p \<leftarrow> ps1 s; p \<leftarrow> take_attached e items p; Some (ps1(s \<mapsto> p)) }) = Some ps2 \<and>
          r = k' \<and> qs = after_sending e sender typ k k' ps2"
    by (auto simp: RealSendMail_def sender_data_def [symmetric] after_sending_def Let_def split: if_splits bind_splits)
  let ?d = "fresh_mail e k' typ subtype sid sname title content extra"
  have "map_of (p_Mails p1) k' = Some ?d" using n(4) by simp
  from attach_items_run [OF at _ this n(2)] obtain xs m where ps1: "ps1 = ps(k \<mapsto> p1\<lparr>p_Mails := m\<rparr>)"
    and m: "map_of m = (map_of (p_Mails p1))(k' \<mapsto> attached xs ?d)" "box_ok (gc_MailMaxCount (config e)) (p1\<lparr>p_Mails := m\<rparr>)"
      "prefix xs (pairs_of items)" "affordable sender (ps(k \<mapsto> p1)) xs"
    and stop: "res = 1 \<and> xs = pairs_of items \<or>
      res = E_ERR_PLAYER_MAIL_SEND_FAILED \<and> stops_after sender (ps(k \<mapsto> p1)) (pairs_of items) xs" by auto
  have p1: "p1\<lparr>p_Mails := m\<rparr> = p\<lparr>p_MailCurrId := k', p_Mails := m\<rparr>" by (subst n(5)) simp
  have bag: "get_item p1 a = get_item p a" for a by (subst n(5)) (simp add: get_item_def GetItemNum_def)
  have aff: "affordable sender ps xs" using m(4) by (simp only: affordable_bag [of ps k p p1 sender xs, OF p bag])
  have res: "res = 1 \<and> xs = pairs_of items \<or> res = E_ERR_PLAYER_MAIL_SEND_FAILED \<and> stops_after sender ps (pairs_of items) xs"
    using stop by (simp only: stops_after_bag [of ps k p p1 sender "pairs_of items" xs, OF p bag])
  have "\<exists>ps2. (\<forall>j. map_option side (ps2 j) = map_option side (ps1 j)) \<and>
    (r = E_ERR_PLAYER_MAIL_SEND_FAILED \<and> stops_after sender ps (pairs_of items) xs \<and> qs = ps2 \<or> r = k' \<and> xs = pairs_of items \<and> qs = after_sending e sender typ k r ps2)"
  proof (cases "res < 0")
    case True
    with res rest show ?thesis by (intro exI [of _ ps1]) simp
  next
    case paid: False
    with rest obtain ps2 where pay: "(case sender of None \<Rightarrow> Some ps1
        | Some s \<Rightarrow> do { p \<leftarrow> ps1 s; p \<leftarrow> take_attached e items p; Some (ps1(s \<mapsto> p)) }) = Some ps2"
      and "r = k'" "qs = after_sending e sender typ k k' ps2" by auto
    with pay_attached [OF pay] res paid show ?thesis by (intro exI [of _ ps2]) simp
  qed
  then obtain ps2 where "\<And>j. map_option side (ps2 j) = map_option side (ps1 j)"
    and "r = E_ERR_PLAYER_MAIL_SEND_FAILED \<and> stops_after sender ps (pairs_of items) xs \<and> qs = ps2 \<or> r = k' \<and> xs = pairs_of items \<and> qs = after_sending e sender typ k r ps2"
    by blast
  with sd m(1-3) aff n(4) k'(1) p1 ps1 show thesis by (intro written [of sid sname xs m ps2]) simp_all
qed (use refused in blast)

text \<open>
  Property C30. What sending a mail to a player the server has does, when his box is well formed (its
  ids are positive and not above the counter, no more mails than the limit), the counter can still
  grow and the limit is between 1 and the largest 32 bit number. A positive answer is the next id of
  the receiver: his box has the new mail with exactly the given attachments, of each of which a
  sending player owned enough (each looked at on its own), the oldest mail has gone if the box was
  full, and the mail is announced. Otherwise nothing has changed, or the answer is the failure of a
  sending and one of the attachments, the first such, is more than the sender owns: then the mail
  is in the box all the same, with exactly the attachments before that one. The other boxes are
  untouched.
\<close>

theorem send_mail_spec:
  assumes "RealSendMail e sender k typ subtype title content items extra ps = Some (r, qs)" "ps k = Some p"
    and "box_ok (gc_MailMaxCount (config e)) p" "p_MailCurrId p < max32" "1 \<le> gc_MailMaxCount (config e)" "gc_MailMaxCount (config e) \<le> max32"
  shows "(if 0 < r then r = p_MailCurrId p + 1 \<and> affordable sender ps (pairs_of items) \<and>
        (\<exists>q sid sname. qs k = Some q \<and> sender_data sender ps = Some (sid, sname) \<and>
          map_of (p_Mails q) = (room_made (gc_MailMaxCount (config e)) (p_Mails p))(r \<mapsto>
            attached (pairs_of items) (fresh_mail e r typ subtype sid sname title content extra)) \<and>
          p_new_mail_ids q = p_new_mail_ids (cache_new_mail r p))
      else qs = ps \<or> r = E_ERR_PLAYER_MAIL_SEND_FAILED \<and>
        (\<exists>q xs sid sname. qs k = Some q \<and> sender_data sender ps = Some (sid, sname) \<and>
          stops_after sender ps (pairs_of items) xs \<and> affordable sender ps xs \<and> map_of (p_Mails q) =
          (room_made (gc_MailMaxCount (config e)) (p_Mails p))(p_MailCurrId p + 1 \<mapsto>
            attached xs (fresh_mail e (p_MailCurrId p + 1) typ subtype sid sname title content extra)))) \<and>
    (\<forall>j. j \<noteq> k \<longrightarrow> map_option box (qs j) = map_option box (ps j))"
proof (rule RealSendMail_cases [OF assms])
  fix xs m ps2 sid sname
  let ?p = "p\<lparr>p_MailCurrId := p_MailCurrId p + 1, p_Mails := m\<rparr>"
  assume w: "sender_data sender ps = Some (sid, sname)" "prefix xs (pairs_of items)" "affordable sender ps xs"
    "box_ok (gc_MailMaxCount (config e)) ?p"
    "map_of m = (room_made (gc_MailMaxCount (config e)) (p_Mails p))(p_MailCurrId p + 1 \<mapsto>
       attached xs (fresh_mail e (p_MailCurrId p + 1) typ subtype sid sname title content extra))"
    "\<And>j. map_option side (ps2 j) = map_option side ((ps(k \<mapsto> ?p)) j)"
    "r = E_ERR_PLAYER_MAIL_SEND_FAILED \<and> stops_after sender ps (pairs_of items) xs \<and> qs = ps2 \<or> r = p_MailCurrId p + 1 \<and> xs = pairs_of items \<and> qs = after_sending e sender typ k r ps2"
  have others: "map_option box (ps2 j) = map_option box (ps j)" if "j \<noteq> k" for j
    using side_option(1) [of ps2 j "ps(k \<mapsto> ?p)", OF w(6)] that by simp
  obtain q2 where q2: "ps2 k = Some q2" "side q2 = side ?p" using w(6) [of k] by auto
  have m2: "p_Mails q2 = m" "p_new_mail_ids q2 = p_new_mail_ids p" using side_frame [OF q2(2)] by simp_all
  from w(7) show ?thesis
  proof (elim disjE conjE)
    assume "r = E_ERR_PLAYER_MAIL_SEND_FAILED" "stops_after sender ps (pairs_of items) xs" "qs = ps2"
    with others q2(1) m2(1) w(1,3,5) show ?thesis by auto
  next
    assume r: "r = p_MailCurrId p + 1" and xs: "xs = pairs_of items" and qs: "qs = after_sending e sender typ k r ps2"
    have pos: "0 < r" using r assms(3) by (simp add: box_ok_def mails_ok_def)
    have b: "map_option box (qs j) = map_option box (ps2 j)" for j using qs by simp
    from b[of k] q2(1) m2(1) obtain q where q: "qs k = Some q" "p_Mails q = m" by (auto simp: box_def)
    have "p_new_mail_ids q = p_new_mail_ids (cache_new_mail r p)"
      using after_sending_cache [of ps2 k q2 e sender "typ" r, OF q2(1)] q(1) qs m2(2) by (simp add: cache_new_mail_def)
    with pos r xs q w(1,3,5) b others show ?thesis by auto
  qed
qed simp

subsection \<open>All boxes\<close>

definition boxes_ok :: "int \<Rightarrow> players \<Rightarrow> bool" where
  "boxes_ok mx ps \<longleftrightarrow> (\<forall>k p. ps k = Some p \<longrightarrow> box_ok mx p)"

text \<open>The next \<open>n\<close> ids of a player are below the end of their range.\<close>

definition ids_left :: "int \<Rightarrow> int \<Rightarrow> players \<Rightarrow> bool" where
  "ids_left n k ps \<longleftrightarrow> (\<forall>p. ps k = Some p \<longrightarrow> p_MailCurrId p + n \<le> max32)"

lemma boxes_ok_box:
  assumes "\<And>j. map_option box (qs j) = map_option box (ps j)"
  shows "boxes_ok mx qs = boxes_ok mx ps" "ids_left n k qs = ids_left n k ps"
proof -
  have "(\<forall>q. qs j = Some q \<longrightarrow> P (box q)) = (\<forall>p. ps j = Some p \<longrightarrow> P (box p))" for P j
    using assms [of j] by (cases "ps j"; cases "qs j") auto
  from this [of _ "\<lambda>(m, c). mails_ok m c \<and> int (length m) \<le> mx"] this [of k "\<lambda>(m, c). c + n \<le> max32"]
  show "boxes_ok mx qs = boxes_ok mx ps" "ids_left n k qs = ids_left n k ps"
    by (simp_all add: boxes_ok_def box_ok_def box_def ids_left_def)
qed

lemma RealSendMail_nobody:
  assumes "RealSendMail e sender k typ subtype title content items extra ps = Some (r, qs)" "ps k = None"
  shows "qs = ps \<and> r < 0"
  using assms by (auto simp: RealSendMail_def split: if_splits bind_splits)

lemma RealSendMail_boxes:
  assumes run: "RealSendMail e sender k typ subtype title content items extra ps = Some (r, qs)"
    and ok: "boxes_ok mx ps" "ids_left 1 k ps" and mx: "gc_MailMaxCount (config e) = mx" "1 \<le> mx" "mx \<le> max32"
  shows "boxes_ok mx qs \<and> (ids_left (n + 1) k ps \<longrightarrow> ids_left n k qs) \<and> dom qs = dom ps"
proof (cases "ps k")
  case None
  with RealSendMail_nobody [OF run] ok show ?thesis by (simp add: ids_left_def)
next
  case (Some p)
  have p: "box_ok (gc_MailMaxCount (config e)) p" "p_MailCurrId p < max32" "1 \<le> gc_MailMaxCount (config e)" "gc_MailMaxCount (config e) \<le> max32"
    using ok Some mx by (auto simp: boxes_ok_def ids_left_def)
  from run Some p show ?thesis
  proof (cases rule: RealSendMail_cases)
    case refused
    with ok(1) show ?thesis by (auto simp: ids_left_def)
  next
    case (written xs m ps2 sid sname)
    let ?ps = "ps(k \<mapsto> p\<lparr>p_MailCurrId := p_MailCurrId p + 1, p_Mails := m\<rparr>)"
    have b2: "map_option box (ps2 j) = map_option box (?ps j)" for j
      using side_option(1) [of ps2 j ?ps, OF written(6)] .
    have "map_option box (qs j) = map_option box (ps2 j)" for j using written(7) by (elim disjE conjE) simp_all
    with b2 have bq: "map_option box (qs j) = map_option box (?ps j)" for j by simp
    have "qs j = None \<longleftrightarrow> ?ps j = None" for j using bq [of j] by (metis option.map_disc_iff)
    then have "dom qs = dom ?ps" by (simp add: dom_def del: fun_upd_apply)
    moreover have "boxes_ok mx ?ps" using ok(1) written(4) mx(1) by (simp add: boxes_ok_def)
    moreover have "ids_left (n + 1) k ps \<longrightarrow> ids_left n k ?ps" using Some by (simp add: ids_left_def)
    moreover note boxes_ok_box [of qs ?ps, OF bq]
    moreover have "dom ?ps = dom ps" using Some by auto
    ultimately show ?thesis by simp
  qed
qed

lemma length_col_set: "col_wf m \<Longrightarrow> length (snd (col_set_field u k m)) = length m"
  using col_length [of m] col_length [of "AList.update k (u (the (map_of m k))) m"]
  by (cases "map_of m k") (simp_all add: col_set_field_def col_simps insert_absorb domI)

lemma box_Set:
  assumes "box_ok mx p"
    and "\<And>d. ml_Id (u d) = ml_Id d \<and> ml_AttachItemIds (u d) = ml_AttachItemIds d \<and> ml_AttachItemNums (u d) = ml_AttachItemNums d"
  shows "box_ok mx (Mails_Set k u p)" "p_MailCurrId (Mails_Set k u p) = p_MailCurrId p"
proof -
  have ok: "mails_ok (p_Mails p) (p_MailCurrId p)" using assms(1) by (simp add: box_ok_def)
  have "mails_ok (snd (col_set_field u k (p_Mails p))) (p_MailCurrId p)"
    by (rule mails_ok_set [OF ok]) (simp add: assms(2) mails_okD(6) [OF ok])
  with assms(1) length_col_set [OF mails_okD(1) [OF ok]] show "box_ok mx (Mails_Set k u p)"
    by (simp add: box_ok_def Mails_Set_def)
qed (simp add: Mails_Set_def)

lemma box_Remove: "box_ok mx p \<Longrightarrow> box_ok mx (p\<lparr>p_Mails := AList.delete k (p_Mails p)\<rparr>)"
  using mails_ok_Remove [of "p_Mails p" _ k] length_delete_le [of k "p_Mails p"] by (simp add: box_ok_def col_Remove_def)

lemma box_fold_delete: "box_ok mx p \<Longrightarrow> box_ok mx (p\<lparr>p_Mails := fold AList.delete ks (p_Mails p)\<rparr>)"
proof (induction ks arbitrary: p)
  case (Cons k ks)
  from Cons.IH [OF box_Remove [OF Cons.prems, of k]] show ?case by simp
qed simp

lemma box_SetSysMail:
  assumes "box_ok mx p"
  shows "box_ok mx (snd (SetSysMailSendTime k t p))" "p_MailCurrId (snd (SetSysMailSendTime k t p)) = p_MailCurrId p"
  using box_Set [OF assms, of "\<lambda>m. m\<lparr>ml_SendUnix := t\<rparr>" k] assms by (simp_all add: SetSysMailSendTime_def)

lemma box_details: "mail_details ks ds p = (r, q) \<Longrightarrow> box_ok mx p \<Longrightarrow> box_ok mx q \<and> p_MailCurrId q = p_MailCurrId p"
proof (induction ks ds p arbitrary: r q rule: mail_details.induct)
  case (2 k ks ds p)
  have "box_ok mx (Mails_Set k (\<lambda>m. m\<lparr>ml_IsRead := 1\<rparr>) p)" by (rule box_Set(1) [OF 2(3)]) simp
  with 2 show ?case by (auto simp: Let_def Mails_Set_def split: if_splits prod.splits)
qed simp

lemma side_claim_items: "claim_items e xs acc p = Some (acc', q) \<Longrightarrow> side q = side p"
  by (induction e xs acc p arbitrary: acc' q rule: claim_items.induct)
    (auto simp: Let_def dest!: side_AddItemResource split: bind_splits if_splits)

lemma box_claim: "claim_mails e ks acc p = Some (r, q) \<Longrightarrow> box_ok mx p \<Longrightarrow> box_ok mx q \<and> p_MailCurrId q = p_MailCurrId p"
proof (induction e ks acc p arbitrary: r q rule: claim_mails.induct)
  case (2 e k ks acc p)
  show ?case
  proof (cases "col_Get (p_Mails p) k")
    case (Some d)
    show ?thesis
    proof (cases "get_items_info_from (ml_AttachItemIds d) (ml_AttachItemNums d) = []")
      case False
      with 2(2) Some obtain acc1 p1 where c: "claim_items e (get_items_info_from (ml_AttachItemIds d) (ml_AttachItemNums d)) acc p = Some (acc1, p1)"
        and run: "claim_mails e ks acc1 (Mails_Set k (\<lambda>m. m\<lparr>ml_IsRead := 1\<rparr>) (Mails_Set k (\<lambda>m. m\<lparr>ml_IsGetAttached := 1\<rparr>) p1)) = Some (r, q)"
        by (auto simp: Let_def split: bind_splits)
      have b1: "box p1 = box p" using box_side(1) [OF side_claim_items [OF c]] .
      then have "box_ok mx p1" using box_box_ok 2(3) by blast
      then have ok: "box_ok mx (Mails_Set k (\<lambda>m. m\<lparr>ml_IsRead := 1\<rparr>) (Mails_Set k (\<lambda>m. m\<lparr>ml_IsGetAttached := 1\<rparr>) p1))"
        by (intro box_Set) simp_all
      from 2(1) [OF Some refl False c refl refl run ok] b1 show ?thesis
        by (simp add: Mails_Set_def box_def)
    qed (use 2 Some in auto)
  qed (use 2 in auto)
qed auto

lemma box_delete: "delete_mails ks p = (r, q) \<Longrightarrow> box_ok mx p \<Longrightarrow> box_ok mx q \<and> p_MailCurrId q = p_MailCurrId p"
proof (induction ks p arbitrary: r q rule: delete_mails.induct)
  case (2 k ks p)
  with box_Remove [OF 2(3), of k] show ?case by (auto simp: col_Remove_def split: if_splits)
qed simp

subsection \<open>The mails of the server\<close>

lemma boxes_upd_ok:
  assumes "boxes_ok mx ps" "\<And>p. box_ok mx p \<Longrightarrow> box_ok mx (f p) \<and> p_MailCurrId (f p) = p_MailCurrId p"
  shows "boxes_ok mx (upd_player k f ps)" "ids_left n j (upd_player k f ps) = ids_left n j ps"
  using assms by (auto simp: boxes_ok_def ids_left_def upd_player_def)

lemma sys_mail_loop_boxes:
  assumes "sys_mail_loop e me ks ps = Some qs" "boxes_ok mx ps" "ids_left (int (length ks)) me ps"
    and mx: "gc_MailMaxCount (config e) = mx" "1 \<le> mx" "mx \<le> max32"
  shows "boxes_ok mx qs"
  using assms(1-3)
proof (induction ks arbitrary: ps)
  case (Cons k ks)
  have later: "ids_left (int (length ks)) me ps" using Cons.prems(3) by (auto simp: ids_left_def)
  show ?case
  proof (cases "sys_mails e k")
    case (Some mail)
    with Cons.prems(1) obtain p where p: "ps me = Some p" by (auto split: bind_splits)
    show ?thesis
    proof (cases "i_CreateUnix (p_Info p) \<le> sm_SendTime mail")
      case True
      with Cons.prems(1) Some p obtain mid ps1
        where send: "RealSendMail e None me MAIL_TYPE_SYSTEM (sm_TableId mail) '''' '''' (sm_ItemList mail) 0 ps = Some (mid, ps1)"
          and run: "sys_mail_loop e me ks (upd_player me (\<lambda>p. snd (SetSysMailSendTime mid (sm_SendTime mail) p)) ps1) = Some qs"
        by (auto split: bind_splits)
      have "ids_left 1 me ps" using Cons.prems(3) by (auto simp: ids_left_def)
      with RealSendMail_boxes [OF send Cons.prems(2) _ mx, of "int (length ks)"] Cons.prems(3)
      have ps1: "boxes_ok mx ps1" "ids_left (int (length ks)) me ps1" by (simp_all add: add.commute)
      from boxes_upd_ok [OF ps1(1), of "\<lambda>p. snd (SetSysMailSendTime mid (sm_SendTime mail) p)"] box_SetSysMail Cons.IH [OF run] ps1(2)
      show ?thesis by blast
    qed (use Cons Some p later in simp)
  qed (use Cons later in simp)
qed simp

lemma CheckSystemMail_boxes:
  assumes "CheckSystemMail e me ps = Some qs" "boxes_ok mx ps" "ps me = Some p"
    and "ids_left (sys_mail_id e - p_SysMailCurrId p + 1) me ps \<or> sys_mail_id e \<le> p_SysMailCurrId p"
    and mx: "gc_MailMaxCount (config e) = mx" "1 \<le> mx" "mx \<le> max32"
  shows "boxes_ok mx qs"
proof (cases "p_SysMailCurrId p < sys_mail_id e")
  case True
  with assms(1,3) obtain ps1 where loop: "sys_mail_loop e me [p_SysMailCurrId p..sys_mail_id e] ps = Some ps1"
    and qs: "qs = upd_player me (\<lambda>p. p\<lparr>p_SysMailCurrId := sys_mail_id e\<rparr>) ps1"
    by (auto simp: CheckSystemMail_def split: bind_splits)
  have "boxes_ok mx ps1" using sys_mail_loop_boxes [OF loop assms(2) _ mx] assms(4) True by simp
  moreover have "map_option box (qs j) = map_option box (ps1 j)" for j using qs by (simp add: boxes_upd)
  ultimately show ?thesis using boxes_ok_box(1) by blast
qed (use assms in \<open>auto simp: CheckSystemMail_def\<close>)

text \<open>What happens to the boxes of a server, with the limit \<open>mx\<close>: mails of players and of the system,
  the fetching of the server's mails, and what a player does with his own.\<close>

inductive mail_step :: "int \<Rightarrow> players \<Rightarrow> players \<Rightarrow> bool" for mx where
  send: "gc_MailMaxCount (config e) = mx \<Longrightarrow> C2SMailSend e me k kind subtype title content xs ps = Some (r, qs) \<Longrightarrow>
    ids_left 1 k ps \<Longrightarrow> mail_step mx ps qs"
| reward: "gc_MailMaxCount (config e) = mx \<Longrightarrow> RealSendMail e None k kind subtype title content items extra ps = Some (r, qs) \<Longrightarrow>
    ids_left 1 k ps \<Longrightarrow> mail_step mx ps qs"
| server_mails: "gc_MailMaxCount (config e) = mx \<Longrightarrow> CheckSystemMail e me ps = Some qs \<Longrightarrow> ps me = Some p \<Longrightarrow>
    ids_left (sys_mail_id e - p_SysMailCurrId p + 1) me ps \<or> sys_mail_id e \<le> p_SysMailCurrId p \<Longrightarrow> mail_step mx ps qs"
| mail_list: "ps me = Some p \<Longrightarrow> GetMailList e p = (r, q) \<Longrightarrow> mail_step mx ps (ps(me \<mapsto> q))"
| new_notify: "ps me = Some p \<Longrightarrow> CheckNewMail e p = (r, q) \<Longrightarrow> mail_step mx ps (ps(me \<mapsto> q))"
| detail: "ps me = Some p \<Longrightarrow> GetMailDetail ks p = (r, q) \<Longrightarrow> mail_step mx ps (ps(me \<mapsto> q))"
| claim: "ps me = Some p \<Longrightarrow> GetMailAttachedItems e ks p = Some (r, q) \<Longrightarrow> mail_step mx ps (ps(me \<mapsto> q))"
| delete: "ps me = Some p \<Longrightarrow> DeleteMails ks p = (r, q) \<Longrightarrow> mail_step mx ps (ps(me \<mapsto> q))"
| others: "(\<And>j. map_option box (qs j) = map_option box (ps j)) \<Longrightarrow> mail_step mx ps qs"

lemma boxes_put: "boxes_ok mx ps \<Longrightarrow> box_ok mx q \<Longrightarrow> boxes_ok mx (ps(me \<mapsto> q))"
  by (simp add: boxes_ok_def)

lemma box_Send [simp]: "box (Send_msg m p) = box p" "box (SendItemsUpdate p) = box p" "box (SendCatsUpdate p) = box p"
  by (rule box_side(1); simp)+

lemma box_SendBuilding [simp]: "box (SendBuildingUpdate p) = box p"
  by (simp add: SendBuildingUpdate_def send_buildings_update_def Let_def box_def)

lemma box_ok_Send [simp]: "box_ok mx (Send_msg m p) = box_ok mx p"
  by (rule box_box_ok) simp

lemma C2SMailSend_boxes:
  assumes "C2SMailSend e me k kind subtype title content xs ps = Some (r, qs)" "boxes_ok mx ps" "ids_left 1 k ps"
    and mx: "gc_MailMaxCount (config e) = mx" "1 \<le> mx" "mx \<le> max32"
  shows "boxes_ok mx qs"
proof -
  from assms(1) obtain ps1 where send: "SendMail e (Some me) k kind subtype title content xs 0 ps = Some (r, ps1)"
    and qs: "qs = (if 0 < r then upd_player me (Send_msg (S2CMailSendResponse r)) ps1 else ps1)"
    by (auto simp: C2SMailSend_def split: bind_splits)
  have "boxes_ok mx ps1"
    using send RealSendMail_boxes [OF _ assms(2,3) mx] assms(2) by (auto simp: SendMail_def Let_def split: if_splits)
  moreover have "map_option box (qs j) = map_option box (ps1 j)" for j using qs by (simp add: boxes_upd)
  ultimately show ?thesis using boxes_ok_box(1) by blast
qed

lemma mail_step_boxes:
  assumes "mail_step mx ps qs" "boxes_ok mx ps" "1 \<le> mx" "mx \<le> max32"
  shows "boxes_ok mx qs"
  using assms(1)
proof cases
  case (send e me k kind subtype title content xs r)
  show ?thesis by (rule C2SMailSend_boxes [OF send(2) assms(2) send(3,1) assms(3,4)])
next
  case (reward e k kind subtype title content items extra r)
  from RealSendMail_boxes [OF reward(2) assms(2) reward(3,1) assms(3,4)] show ?thesis by blast
next
  case (server_mails e me p)
  show ?thesis by (rule CheckSystemMail_boxes [OF server_mails(2) assms(2) server_mails(3,4,1) assms(3,4)])
next
  case (mail_list me p e r q)
  have "box_ok mx p" using assms(2) mail_list by (simp add: boxes_ok_def)
  then have "box_ok mx (clear_cache_new_mails p)" by (simp add: box_ok_def clear_cache_new_mails_def)
  from box_fold_delete [OF this] mail_list(3) have "box_ok mx q"
    by (auto simp: GetMailList_def Mails_GetMailList_def Let_def)
  with mail_list assms(2) show ?thesis by (simp add: boxes_put)
next
  case (new_notify me p e r q)
  have "box_ok mx p" using assms(2) new_notify by (simp add: boxes_ok_def)
  then have "box_ok mx q"
    using new_notify(3) by (auto simp: CheckNewMail_def get_and_clear_cache_new_mails_def box_ok_def [of _ "_\<lparr>p_new_mail_ids := _\<rparr>"]
        split: option.splits if_splits) (auto simp: box_ok_def)
  with new_notify assms(2) show ?thesis by (simp add: boxes_put)
next
  case (detail me p ks r q)
  have "box_ok mx p" using assms(2) detail by (simp add: boxes_ok_def)
  then have "box_ok mx q"
    using detail(3) box_details by (fastforce simp: GetMailDetail_def split: if_splits prod.splits)
  with detail assms(2) show ?thesis by (simp add: boxes_put)
next
  case (claim me p e ks r q)
  have ok: "box_ok mx p" using assms(2) claim by (simp add: boxes_ok_def)
  have "box_ok mx q"
  proof (cases "ks = []")
    case False
    with claim(3) obtain res acc p1 where "claim_mails e ks [] p = Some ((res, acc), p1)" "box q = box p1"
      by (auto simp: GetMailAttachedItems_def split: bind_splits if_splits)
    with box_claim ok box_box_ok show ?thesis by blast
  qed (use claim ok in \<open>simp add: GetMailAttachedItems_def\<close>)
  with claim assms(2) show ?thesis by (simp add: boxes_put)
next
  case (delete me p ks r q)
  have "box_ok mx p" using assms(2) delete by (simp add: boxes_ok_def)
  then have "box_ok mx q"
    using delete(3) box_delete by (fastforce simp: DeleteMails_def split: if_splits prod.splits)
  with delete assms(2) show ?thesis by (simp add: boxes_put)
next
  case others
  from boxes_ok_box(1) [OF others] assms(2) show ?thesis by simp
qed

text \<open>
  Property C31. Mail boxes are bounded. With a limit of \<open>mx\<close> mails that all the steps use, boxes that hold
  at most \<open>mx\<close> mails do so after any sequence of mails sent, fetched, read, claimed and deleted; every
  mail is kept under its own id, an id already given out, and has a number for each attached item. The
  ids do not run out.
\<close>

theorem mail_boxes_bounded:
  assumes "(mail_step mx)\<^sup>*\<^sup>* ps qs" "boxes_ok mx ps" "1 \<le> mx" "mx \<le> max32" "qs k = Some q"
  shows "int (length (p_Mails q)) \<le> mx \<and> distinct (map fst (p_Mails q)) \<and>
    (\<forall>j d. map_of (p_Mails q) j = Some d \<longrightarrow> ml_Id d = j \<and> 0 < j \<and> j \<le> p_MailCurrId q \<and>
      length (ml_AttachItemIds d) = length (ml_AttachItemNums d))"
proof -
  from assms(1,2) have "boxes_ok mx qs" by (induction rule: rtranclp_induct) (use mail_step_boxes assms(3,4) in blast)+
  with assms(5) show ?thesis by (auto simp: boxes_ok_def box_ok_def mails_ok_def col_wf_def)
qed

subsection \<open>Examples\<close>

definition demo_mail_env :: env where
  "demo_mail_env = empty_env\<lparr>now := 1000, item_map := [2 \<mapsto> demo_item, 50 \<mapsto> demo_item], mail_subtypes := [1105],
     config := empty_config\<lparr>gc_MailMaxCount := 2, gc_MailTitleBytes := 10, gc_MailContentBytes := 10\<rparr>,
     sys_mails := [1 \<mapsto> \<lparr>sm_TableId = 1105, sm_SendTime = 500, sm_ItemList = [2, 10]\<rparr>,
       2 \<mapsto> \<lparr>sm_TableId = 1105, sm_SendTime = 600, sm_ItemList = [2, 20]\<rparr>], sys_mail_id := 2\<rparr>"

definition demo_rich :: player where
  "demo_rich = empty_player\<lparr>p_Items := [(50, \<lparr>ItemCfgId = 50, ItemNum = 5, StartTimeUnix = 0, RemainSeconds = 0\<rparr>)]\<rparr>"

definition demo_mail_players :: players where
  "demo_mail_players = [1 \<mapsto> demo_rich, 2 \<mapsto> empty_player]"

lemma demo_mail_sel:
  "config demo_mail_env = empty_config\<lparr>gc_MailMaxCount := 2, gc_MailTitleBytes := 10, gc_MailContentBytes := 10\<rparr>"
  "now demo_mail_env = 1000" "mail_subtypes demo_mail_env = [1105]" "sys_mail_id demo_mail_env = 2"
  "sys_mails demo_mail_env = [1 \<mapsto> \<lparr>sm_TableId = 1105, sm_SendTime = 500, sm_ItemList = [2, 10]\<rparr>,
       2 \<mapsto> \<lparr>sm_TableId = 1105, sm_SendTime = 600, sm_ItemList = [2, 20]\<rparr>]"
  "item_map demo_mail_env = [2 \<mapsto> demo_item, 50 \<mapsto> demo_item]"
  by (simp_all add: demo_mail_env_def)

lemma demo_config: "gc_MailMaxCount (config demo_mail_env) = 2" "gc_MailTitleBytes (config demo_mail_env) = 10"
  "gc_MailContentBytes (config demo_mail_env) = 10" "gc_MailPlayerSendCooldown (config demo_mail_env) = 0"
  by (simp_all add: demo_mail_sel empty_config_def)

lemma empty_player_sel: "p_Mails empty_player = []" "p_MailCurrId empty_player = 0" "p_new_mail_ids empty_player = None"
  "p_SysMailCurrId empty_player = 0" "p_Items empty_player = []" "p_Info empty_player = empty_info" "p_LastSendPlayerMailTime empty_player = 0"
  by (simp_all add: empty_player_def)

lemmas demo_mail_defs = demo_mail_sel(2-) demo_config empty_player_sel new_mail_def Let_def col_simps attach_mail_item_def Mails_Set_def
  col_set_field_def col_Add_def col_NumAll_def col_GetAllIndex_def i32_range_id mail_has_subtype_def chk_mail_type_def

lemma demo_system_mail:
  "\<exists>qs. RealSendMail demo_mail_env None 2 MAIL_TYPE_SYSTEM 1105 '''' '''' [2, 10] 0 demo_mail_players = Some (1, qs)"
  by (simp add: RealSendMail_def demo_mail_players_def demo_mail_defs)

lemma send_mail_spec_witness:
  "\<exists>qs q d. RealSendMail demo_mail_env None 2 MAIL_TYPE_SYSTEM 1105 '''' '''' [2, 10] 0 demo_mail_players = Some (1, qs) \<and> qs 2 = Some q \<and>
     map_of (p_Mails q) 1 = Some d \<and> ml_AttachItemIds d = [2] \<and> ml_AttachItemNums d = [10] \<and> p_new_mail_ids q = Some [1]"
proof -
  obtain qs where run: "RealSendMail demo_mail_env None 2 MAIL_TYPE_SYSTEM 1105 '''' '''' [2, 10] 0 demo_mail_players = Some (1, qs)"
    using demo_system_mail by blast
  have p: "demo_mail_players 2 = Some empty_player" by (simp add: demo_mail_players_def)
  have box: "box_ok (gc_MailMaxCount (config demo_mail_env)) empty_player"
    by (simp add: box_ok_def mails_ok_def empty_player_sel demo_config col_wf_def)
  from send_mail_spec [OF run p box] run show ?thesis
    by (auto simp: empty_player_sel demo_config attached_def fresh_mail_def cache_new_mail_def)
qed

lemma mail_boxes_bounded_witness:
  "\<exists>qs q. RealSendMail demo_mail_env None 2 MAIL_TYPE_SYSTEM 1105 '''' '''' [2, 10] 0 demo_mail_players = Some (1, qs) \<and> qs 2 = Some q \<and>
     int (length (p_Mails q)) \<le> 2"
proof -
  obtain qs where run: "RealSendMail demo_mail_env None 2 MAIL_TYPE_SYSTEM 1105 '''' '''' [2, 10] 0 demo_mail_players = Some (1, qs)"
    using demo_system_mail by blast
  have ok: "boxes_ok 2 demo_mail_players"
    by (auto simp: boxes_ok_def box_ok_def mails_ok_def demo_mail_players_def demo_rich_def empty_player_sel col_wf_def split: if_splits)
  have left: "ids_left 1 2 demo_mail_players" by (simp add: ids_left_def demo_mail_players_def empty_player_sel)
  have step: "mail_step 2 demo_mail_players qs" by (rule mail_step.reward [OF _ run left]) (simp add: demo_config)
  have "2 \<in> dom qs" using RealSendMail_boxes [OF run ok left demo_config(1)] by (simp add: demo_mail_players_def)
  then obtain q where q: "qs 2 = Some q" by blast
  from step have "(mail_step 2)\<^sup>*\<^sup>* demo_mail_players qs" by blast
  from mail_boxes_bounded [OF this ok _ _ q] run q show ?thesis by auto
qed

subsection \<open>What the mails do not guard\<close>

text \<open>Claiming leaves the attachments where they are and never looks at the claimed flag: every mail that
  was claimed can be claimed again.\<close>

definition gifts :: "player \<Rightarrow> int \<rightharpoonup> (int list \<times> int list)" where
  "gifts p k = map_option (\<lambda>d. (ml_AttachItemIds d, ml_AttachItemNums d)) (map_of (p_Mails p) k)"

lemma gifts_Set:
  "(\<And>d. ml_AttachItemIds (u d) = ml_AttachItemIds d \<and> ml_AttachItemNums (u d) = ml_AttachItemNums d) \<Longrightarrow> gifts (Mails_Set k u p) = gifts p"
  by (rule ext) (auto simp: gifts_def Mails_Set_def col_simps split: option.split)

lemma gifts_claim: "claim_mails e ks acc p = Some (r, q) \<Longrightarrow> gifts q = gifts p"
proof (induction e ks acc p arbitrary: r q rule: claim_mails.induct)
  case (2 e k ks acc p)
  show ?case
  proof (cases "q = p")
    case False
    with 2(2) obtain d acc1 p1 where d: "col_Get (p_Mails p) k = Some d"
      and ne: "get_items_info_from (ml_AttachItemIds d) (ml_AttachItemNums d) \<noteq> []"
      and c: "claim_items e (get_items_info_from (ml_AttachItemIds d) (ml_AttachItemNums d)) acc p = Some (acc1, p1)"
      and run: "claim_mails e ks acc1 (Mails_Set k (\<lambda>m. m\<lparr>ml_IsRead := 1\<rparr>) (Mails_Set k (\<lambda>m. m\<lparr>ml_IsGetAttached := 1\<rparr>) p1)) = Some (r, q)"
      by (auto simp: Let_def split: bind_splits option.splits if_splits)
    have "gifts p1 = gifts p" using side_frame(37) [OF side_claim_items [OF c]] by (simp add: gifts_def fun_eq_iff)
    with 2(1) [OF d refl ne c refl refl run] show ?thesis by (simp add: gifts_Set)
  qed simp
qed simp

lemma claimed_is_claimable:
  assumes "GetMailAttachedItems e ks p = Some (r, q)"
  shows "gifts q = gifts p"
proof (cases "ks = []")
  case False
  with assms obtain res acc p1 where "claim_mails e ks [] p = Some ((res, acc), p1)" "box q = box p1"
    by (auto simp: GetMailAttachedItems_def split: bind_splits if_splits)
  with gifts_claim show ?thesis by (fastforce simp: gifts_def box_def fun_eq_iff)
qed (use assms in \<open>simp add: GetMailAttachedItems_def\<close>)

text \<open>A negative number of an item passes the check of what the sender owns; the item is then added
  to his bag.\<close>

lemma demo_take:
  "\<exists>q. take_attached demo_mail_env [50, - 4] demo_rich = Some q \<and> get_item q 50 = 9 \<and> p_Mails q = []"
  by (simp add: AddItemResource_def AddItem_def ChkAddItemByNum_def demo_mail_sel demo_rich_def demo_item_def empty_player_sel
      i32_range_id get_item_def GetItemNum_def col_get_field_def item_update_def Let_def split: option.split)

lemma negative_attachment_adds:
  "\<exists>qs q. C2SMailSend demo_mail_env 1 2 MAIL_TYPE_PLAYER 0 '''' '''' [(50, - 4)] demo_mail_players = Some (1, qs) \<and>
     qs 1 = Some q \<and> get_item demo_rich 50 = 5 \<and> get_item q 50 = 9"
proof -
  obtain q where q: "take_attached demo_mail_env [50, - 4] demo_rich = Some q" "get_item q 50 = 9" using demo_take by blast
  have own: "get_item demo_rich 50 = 5" by (simp add: get_item_def GetItemNum_def col_get_field_def demo_rich_def)
  have last: "p_LastSendPlayerMailTime demo_rich = 0" by (simp add: demo_rich_def empty_player_sel)
  have bag: "get_item (p\<lparr>p_LastSendPlayerMailTime := t\<rparr>) k = get_item p k" "get_item (Send_msg m p) k = get_item p k" for p t m k
    by (simp_all add: get_item_def GetItemNum_def Send_msg_def emit_def)
  show ?thesis
    by (simp add: C2SMailSend_def SendMail_def RealSendMail_def demo_mail_players_def demo_mail_defs own last q bag upd_player_def
        cache_new_mail_def del: take_attached.simps)
qed

text \<open>The first mail of the server is fetched again when there is a second one.\<close>

lemma server_mail_fetched_again:
  "\<exists>qs q. CheckSystemMail demo_mail_env 2 (demo_mail_players(2 \<mapsto> empty_player\<lparr>p_SysMailCurrId := 1\<rparr>)) = Some qs \<and>
     qs 2 = Some q \<and> map_option ml_AttachItemNums (map_of (p_Mails q) 1) = Some [10] \<and>
     map_option ml_AttachItemNums (map_of (p_Mails q) 2) = Some [20]"
proof -
  have ids: "[1..2] = [1, 2::int]" by (simp add: upto.simps)
  have created: "i_CreateUnix empty_info = 0" by (simp add: empty_info_def)
  show ?thesis
    by (simp add: CheckSystemMail_def RealSendMail_def demo_mail_players_def demo_mail_defs ids created upd_player_def
        cache_new_mail_def SetSysMailSendTime_def)
qed

end
