(* ===== verification/MsgList.thy ===== *)
theory MsgList
  imports Prelude
begin

text \<open>
  The message lists of \<open>game_server/chat.go\<close> and \<open>game_server/anouncement.go\<close>, over the item pool of
  \<open>libs/utils/simple_item_pool.go\<close>. \<open>ChatMgr\<close> and \<open>AnouncementMgr\<close> are the same code on two
  item types; the model has one list with a type parameter for what an item carries, and
  \<open>Chat\<close> instantiates it twice.

  Items are reached through pointers and reused, and a reader keeps a pointer to the last item it
  was shown, so the items live in an explicit heap: \<open>ml_nodes\<close> maps an address to the item, \<open>nil\<close>
  is \<open>None\<close>. \<open>None\<close> as the result of an operation is a panic, or a loop along the \<open>next\<close>
  pointers that never ends.
\<close>

subsection \<open>The item pool\<close>

record item_pool =
  pl_items :: "nat list"
  pl_can_use_start :: int
  pl_can_use_num :: int

text \<open>\<open>Init\<close>: the factory makes \<open>max_num\<close> new items, at the addresses \<open>0, 1, ...\<close>; a negative
  length panics.\<close>

definition pool_Init :: "int \<Rightarrow> item_pool option" where
  "pool_Init max_num =
     (if max_num < 0 then None
      else Some \<lparr> pl_items = [0..<nat max_num], pl_can_use_start = 0, pl_can_use_num = max_num \<rparr>)"

definition pool_GetFree :: "item_pool \<Rightarrow> (nat option \<times> item_pool) option" where
  "pool_GetFree p =
     (if pl_can_use_start p < 0 then Some (None, p)
      else do {
        item \<leftarrow> go_nth (pl_items p) (pl_can_use_start p);
        let start = i32 (pl_can_use_start p + 1);
        let start = (if start \<ge> i32 (int (length (pl_items p))) then -1 else start);
        Some (Some item, p\<lparr>pl_can_use_start := start\<rparr>)
      })"

definition pool_Recycle :: "nat \<Rightarrow> item_pool \<Rightarrow> (bool \<times> item_pool) option" where
  "pool_Recycle item p =
     (if pl_can_use_start p = 0 then Some (False, p)
      else
        let start = (if pl_can_use_start p < 0 then i32 (i32 (int (length (pl_items p))) - 1)
                     else i32 (pl_can_use_start p - 1))
        in do {
          _ \<leftarrow> go_nth (pl_items p) start;
          Some (True, p\<lparr>pl_can_use_start := start, pl_items := (pl_items p)[nat start := item]\<rparr>)
        })"

definition pool_HasFree :: "item_pool \<Rightarrow> bool" where
  "pool_HasFree p \<longleftrightarrow> pl_can_use_start p \<ge> 0"

subsection \<open>The contract of the pool\<close>

text \<open>
  What the lists rely on: the free items form a stack, an item given back is the next one handed
  out, and the pool refuses an item only when it is full.
\<close>

locale free_items =
  fixes good :: "nat \<Rightarrow> 'pool \<Rightarrow> bool"
    and free :: "'pool \<Rightarrow> nat list"
    and take_item :: "'pool \<Rightarrow> (nat option \<times> 'pool) option"
    and give_item :: "nat \<Rightarrow> 'pool \<Rightarrow> (bool \<times> 'pool) option"
    and has_free :: "'pool \<Rightarrow> bool"
  assumes has_iff: "good n p \<Longrightarrow> has_free p \<longleftrightarrow> free p \<noteq> []"
    and take_free: "good n p \<Longrightarrow> free p = a # r \<Longrightarrow>
          \<exists>q. take_item p = Some (Some a, q) \<and> good n q \<and> free q = r"
    and give_room: "good n p \<Longrightarrow> length (free p) < n \<Longrightarrow>
          \<exists>q. give_item a p = Some (True, q) \<and> good n q \<and> free q = a # free p"
begin

lemma give_then_take:
  assumes "good n p" "length (free p) < n"
  shows "\<exists>q r. give_item a p = Some (True, q) \<and> take_item q = Some (Some a, r)
    \<and> good n r \<and> free r = free p"
proof -
  from give_room [OF assms] obtain q where q: "give_item a p = Some (True, q)" "good n q"
    "free q = a # free p" by blast
  from take_free [OF q(2,3)] q(1) show ?thesis by blast
qed

lemma take_some: "good n p \<Longrightarrow> has_free p \<Longrightarrow>
    \<exists>a q. take_item p = Some (Some a, q) \<and> good n q \<and> free p = a # free q"
  using has_iff take_free by (metis list.exhaust)

end

definition pool_free :: "item_pool \<Rightarrow> nat list" where
  "pool_free p = (if pl_can_use_start p < 0 then [] else drop (nat (pl_can_use_start p)) (pl_items p))"

definition pool_good :: "nat \<Rightarrow> item_pool \<Rightarrow> bool" where
  "pool_good n p \<longleftrightarrow> length (pl_items p) = n \<and> 0 < n \<and> int n \<le> max32
     \<and> - 1 \<le> pl_can_use_start p \<and> pl_can_use_start p < int n"

lemma pool_takes:
  assumes good: "pool_good n p" and free: "pool_free p = a # r"
  shows "\<exists>q. pool_GetFree p = Some (Some a, q) \<and> pool_good n q \<and> pool_free q = r"
proof -
  define s where "s = nat (pl_can_use_start p)"
  from free have start: "pl_can_use_start p = int s" "drop s (pl_items p) = a # r"
    by (auto simp: pool_free_def s_def split: if_splits)
  then have s: "s < length (pl_items p)" "pl_items p ! s = a" "drop (Suc s) (pl_items p) = r"
    by (metis drop_all list.distinct(1) not_le_imp_less,
        metis drop_all hd_drop_conv_nth list.distinct(1) list.sel(1) not_le_imp_less,
        metis drop_Suc list.sel(3) tl_drop)
  have len: "length (pl_items p) = n" "int n \<le> max32" using good by (auto simp: pool_good_def)
  then have i: "i32 (int s + 1) = int s + 1" "i32 (int (length (pl_items p))) = int n"
    using s(1) by (auto intro!: i32_range_id)
  show ?thesis
  proof (cases "int s + 1 \<ge> int n")
    case True
    then have "r = []" using s len by auto
    with True s i start len show ?thesis
      by (auto simp: pool_GetFree_def go_nth_def pool_good_def pool_free_def Let_def)
  next
    case False
    then have "nat (int s + 1) = Suc s" by simp
    with False s i start len show ?thesis
      by (auto simp: pool_GetFree_def go_nth_def pool_good_def pool_free_def Let_def)
  qed
qed

lemma pool_gives:
  assumes good: "pool_good n p" and room: "length (pool_free p) < n"
  shows "\<exists>q. pool_Recycle a p = Some (True, q) \<and> pool_good n q \<and> pool_free q = a # pool_free p"
proof -
  have len: "length (pl_items p) = n" "int n \<le> max32" "0 < n"
    "- 1 \<le> pl_can_use_start p" "pl_can_use_start p < int n"
    using good by (auto simp: pool_good_def)
  then have i: "i32 (int n) = int n" "i32 (int n - 1) = int n - 1" "i32 (pl_can_use_start p - 1) = pl_can_use_start p - 1"
    by (auto intro!: i32_range_id)
  show ?thesis
  proof (cases "pl_can_use_start p < 0")
    case True
    define k where "k = n - 1"
    have k: "int n - 1 = int k" "k < n" "n = Suc k" using len by (auto simp: k_def)
    have "drop k ((pl_items p)[k := a]) = [a]"
      using k len by (simp add: drop_update_swap Cons_nth_drop_Suc [symmetric])
    with True i len k show ?thesis
      by (auto simp: pool_Recycle_def go_nth_def pool_good_def pool_free_def Let_def)
  next
    case False
    then have nz: "pl_can_use_start p \<noteq> 0" using room len by (auto simp: pool_free_def)
    define k where "k = nat (pl_can_use_start p - 1)"
    have k: "pl_can_use_start p - 1 = int k" "pl_can_use_start p = int (Suc k)" "Suc k < n"
      using False nz len by (auto simp: k_def)
    have "drop k ((pl_items p)[k := a]) = a # drop (Suc k) (pl_items p)" "nat (1 + int k) = Suc k"
      using k len by (simp_all add: drop_update_swap Cons_nth_drop_Suc [symmetric])
    with i len k show ?thesis
      by (auto simp: pool_Recycle_def go_nth_def pool_good_def pool_free_def Let_def)
  qed
qed

interpretation pool: free_items pool_good pool_free pool_GetFree pool_Recycle pool_HasFree
proof unfold_locales
  fix n p
  assume "pool_good n p"
  then show "pool_HasFree p \<longleftrightarrow> pool_free p \<noteq> []"
    by (auto simp: pool_HasFree_def pool_free_def pool_good_def)
qed (rule pool_takes pool_gives; assumption)+

lemma pool_Init_good:
  assumes "0 < n" "n \<le> max32"
  shows "\<exists>p. pool_Init n = Some p \<and> pool_good (nat n) p \<and> pool_free p = [0..<nat n]"
  using assms by (auto simp: pool_Init_def pool_good_def pool_free_def)

subsection \<open>The lists\<close>

text \<open>An item: when it was sent, what it carries, and its neighbours.\<close>

record 'b msg_node =
  mn_send_time :: int
  mn_body :: 'b
  mn_prev :: "nat option"
  mn_next :: "nat option"

text \<open>The factory is not needed after \<open>Init\<close>, and the lock is left out: a list is used by one
  handler at a time.\<close>

record 'b msg_list =
  ml_msg_num :: int
  ml_head :: "nat option"
  ml_tail :: "nat option"
  ml_pool :: item_pool
  ml_nodes :: "nat \<Rightarrow> 'b msg_node"

text \<open>\<open>Init\<close>: \<open>z\<close> is the zero value of the carried fields.\<close>

definition list_Init :: "'b \<Rightarrow> int \<Rightarrow> 'b msg_list option" where
  "list_Init z max_num = do {
     p \<leftarrow> pool_Init max_num;
     Some \<lparr> ml_msg_num = 0, ml_head = None, ml_tail = None, ml_pool = p,
       ml_nodes = (\<lambda>_. \<lparr> mn_send_time = 0, mn_body = z, mn_prev = None, mn_next = None \<rparr>) \<rparr>
   }"

definition link_next :: "nat \<Rightarrow> nat option \<Rightarrow> 'b msg_list \<Rightarrow> 'b msg_list" where
  "link_next a v m = m\<lparr>ml_nodes := (ml_nodes m)(a := (ml_nodes m a)\<lparr>mn_next := v\<rparr>)\<rparr>"

definition link_prev :: "nat \<Rightarrow> nat option \<Rightarrow> 'b msg_list \<Rightarrow> 'b msg_list" where
  "link_prev a v m = m\<lparr>ml_nodes := (ml_nodes m)(a := (ml_nodes m a)\<lparr>mn_prev := v\<rparr>)\<rparr>"

definition expired :: "int \<Rightarrow> int \<Rightarrow> int \<Rightarrow> bool" where
  "expired now_time exist_time send_time \<longleftrightarrow> i32 (now_time - send_time) \<ge> i32 (exist_time * 60)"

text \<open>The body of the loop of \<open>recycle_old\<close> for an item that has expired. A full pool refuses the
  item, which the code ignores.\<close>

definition recycle_item :: "nat \<Rightarrow> 'b msg_list \<Rightarrow> 'b msg_list option" where
  "recycle_item a m =
     (let m = (if ml_head m = Some a then m\<lparr>ml_head := mn_next (ml_nodes m a)\<rparr> else m);
          m = (if ml_tail m = Some a then m\<lparr>ml_tail := None\<rparr> else m)
      in do {
        (_, p) \<leftarrow> pool_Recycle a (ml_pool m);
        let m = m\<lparr>ml_pool := p\<rparr>;
        let m = (case mn_prev (ml_nodes m a) of None \<Rightarrow> m | Some b \<Rightarrow> link_next b (mn_next (ml_nodes m a)) m);
        Some (case mn_next (ml_nodes m a) of None \<Rightarrow> m | Some b \<Rightarrow> link_prev b (mn_prev (ml_nodes m a)) m)
      })"

partial_function (option) recycle_loop ::
    "int \<Rightarrow> int \<Rightarrow> nat option \<Rightarrow> 'b msg_list \<Rightarrow> 'b msg_list option" where
  "recycle_loop now_time exist_time msg m = (case msg of
     None \<Rightarrow> Some m
   | Some a \<Rightarrow> do {
       m \<leftarrow> (if expired now_time exist_time (mn_send_time (ml_nodes m a)) then recycle_item a m else Some m);
       recycle_loop now_time exist_time (mn_next (ml_nodes m a)) m
     })"

definition recycle_old :: "int \<Rightarrow> int \<Rightarrow> 'b msg_list \<Rightarrow> 'b msg_list option" where
  "recycle_old now_time exist_time m = recycle_loop now_time exist_time (ml_head m) m"

text \<open>\<open>push_chat_msg\<close> and \<open>PushNew\<close>. When no item is free the oldest one is taken back; a list
  without a first item panics there.\<close>

definition make_room :: "'b msg_list \<Rightarrow> (bool \<times> 'b msg_list) option" where
  "make_room m =
     (if pool_HasFree (ml_pool m) then Some (True, m)
      else do {
        a \<leftarrow> ml_head m;
        (ok, p) \<leftarrow> pool_Recycle a (ml_pool m);
        let m = m\<lparr>ml_pool := p\<rparr>;
        if \<not> ok then Some (False, m)
        else
          let n = mn_next (ml_nodes m a); m = m\<lparr>ml_head := n\<rparr> in
          Some (True, case n of None \<Rightarrow> m | Some b \<Rightarrow> link_prev b None m)
      })"

definition link_item :: "int \<Rightarrow> 'b \<Rightarrow> nat \<Rightarrow> 'b msg_list \<Rightarrow> 'b msg_list" where
  "link_item now_time body a m =
     (let m = m\<lparr>ml_nodes := (ml_nodes m)(a :=
            \<lparr> mn_send_time = now_time, mn_body = body, mn_prev = ml_tail m, mn_next = None \<rparr>)\<rparr>;
          m = (if ml_head m = None then m\<lparr>ml_head := Some a\<rparr> else m);
          m = (case ml_tail m of None \<Rightarrow> m | Some t \<Rightarrow> link_next t (Some a) m)
      in m\<lparr>ml_tail := Some a, ml_msg_num := i32 (ml_msg_num m + 1)\<rparr>)"

definition push_msg :: "int \<Rightarrow> int \<Rightarrow> 'b \<Rightarrow> 'b msg_list \<Rightarrow> (bool \<times> 'b msg_list) option" where
  "push_msg now_time exist_time body m = do {
     m \<leftarrow> recycle_old now_time exist_time m;
     (ok, m) \<leftarrow> make_room m;
     if \<not> ok then Some (False, m)
     else do {
       (it, p) \<leftarrow> pool_GetFree (ml_pool m);
       let m = m\<lparr>ml_pool := p\<rparr>;
       case it of
         None \<Rightarrow> Some (False, m)
       | Some a \<Rightarrow> Some (True, link_item now_time body a m)
     }
   }"

subsection \<open>Reading\<close>

text \<open>A reader keeps the last item it was shown and the time that item was sent
  (\<open>PlayerChatData\<close>, \<open>PlayerAnouncementData\<close>).\<close>

record reader =
  rd_curr_msg :: "nat option"
  rd_curr_send_time :: int

definition get_curr_msg :: "reader \<Rightarrow> 'b msg_list \<Rightarrow> nat option" where
  "get_curr_msg r m = (case rd_curr_msg r of
     None \<Rightarrow> ml_head m
   | Some a \<Rightarrow>
       if mn_send_time (ml_nodes m a) \<noteq> rd_curr_send_time r then ml_head m
       else mn_next (ml_nodes m a))"

partial_function (option) new_msg_loop ::
    "int \<Rightarrow> int \<Rightarrow> 'b msg_list \<Rightarrow> nat option \<Rightarrow> bool option" where
  "new_msg_loop now_time exist_time m msg = (case msg of
     None \<Rightarrow> Some False
   | Some a \<Rightarrow>
       if i32 (now_time - mn_send_time (ml_nodes m a)) < i32 (exist_time * 60) then Some True
       else new_msg_loop now_time exist_time m (mn_next (ml_nodes m a)))"

definition has_new_msg :: "int \<Rightarrow> int \<Rightarrow> reader \<Rightarrow> 'b msg_list \<Rightarrow> bool option" where
  "has_new_msg now_time exist_time r m = new_msg_loop now_time exist_time m (get_curr_msg r m)"

text \<open>The loop of \<open>pull_chat\<close> and \<open>GetSome\<close>: \<open>n\<close> rounds, a round spent on an expired item gives
  nothing.\<close>

fun show_loop :: "int \<Rightarrow> int \<Rightarrow> 'b msg_list \<Rightarrow> nat \<Rightarrow> nat option \<Rightarrow> reader \<Rightarrow> (int \<times> 'b) list \<times> reader" where
  "show_loop now_time exist_time m 0 msg r = ([], r)"
| "show_loop now_time exist_time m (Suc n) None r = ([], r)"
| "show_loop now_time exist_time m (Suc n) (Some a) r =
     (let d = ml_nodes m a in
      if expired now_time exist_time (mn_send_time d)
      then show_loop now_time exist_time m n (mn_next d) r
      else
        let (items, r) = show_loop now_time exist_time m n (mn_next d)
              (r\<lparr>rd_curr_msg := Some a, rd_curr_send_time := mn_send_time d\<rparr>)
        in ((mn_send_time d, mn_body d) # items, r))"

definition pull_msgs :: "int \<Rightarrow> int \<Rightarrow> int \<Rightarrow> 'b msg_list \<Rightarrow> reader \<Rightarrow> (int \<times> 'b) list \<times> reader" where
  "pull_msgs now_time exist_time num m r =
     (if ml_msg_num m \<le> 0 then ([], r)
      else show_loop now_time exist_time m (nat (min num (ml_msg_num m))) (get_curr_msg r m) r)"

end
