(* ===== verification/MsgQueue.thy ===== *)
theory MsgQueue
  imports MsgList
begin

text \<open>
  The message list is a bounded queue: on a clock that does not run back, with room for at least
  two items, a push drops the expired items and, when the list is full, the oldest one, and puts
  the new item at the end; it always returns. A reader whose last item is still in the list gets
  what follows it, in order. Without these conditions it is not: see the last subsection.
\<close>

subsection \<open>Chains of items\<close>

definition first_of :: "nat list \<Rightarrow> nat option" where
  "first_of as = (case as of [] \<Rightarrow> None | a # _ \<Rightarrow> Some a)"

definition last_of :: "nat list \<Rightarrow> nat option" where
  "last_of as = (if as = [] then None else Some (last as))"

fun item_chain :: "(nat \<Rightarrow> 'b msg_node) \<Rightarrow> nat option \<Rightarrow> nat list \<Rightarrow> bool" where
  "item_chain N p [] = True"
| "item_chain N p (a # as) \<longleftrightarrow> mn_prev (N a) = p \<and> mn_next (N a) = first_of as \<and> item_chain N (Some a) as"

lemma first_of_simps [simp]: "first_of [] = None" "first_of (a # as) = Some a"
  by (simp_all add: first_of_def)

lemma first_of_append: "first_of (as @ bs) = (if as = [] then first_of bs else first_of as)"
  by (cases as) simp_all

lemma last_of_simps [simp]: "last_of [] = None" "last_of [a] = Some a" "last_of (as @ [a]) = Some a"
    "last_of (a # b # as) = last_of (b # as)"
  by (simp_all add: last_of_def)

lemma linked_other: "a \<notin> set as \<Longrightarrow> item_chain (N(a := d)) p as = item_chain N p as"
  by (induction as arbitrary: p) auto

lemma linked_snoc: "item_chain N p (as @ [a]) \<longleftrightarrow>
    item_chain (N(last as := (N (last as))\<lparr>mn_next := None\<rparr>)) p as
    \<and> (as \<noteq> [] \<longrightarrow> mn_next (N (last as)) = Some a)
    \<and> mn_prev (N a) = (if as = [] then p else Some (last as)) \<and> mn_next (N a) = None"
  if "distinct (as @ [a])"
  using that
proof (induction as arbitrary: p)
  case Nil then show ?case by simp
next
  case (Cons b as)
  show ?case
  proof (cases as)
    case Nil
    with Cons.prems show ?thesis by auto
  next
    case (Cons c cs)
    have "last as \<in> set as" using Cons by simp
    with Cons.prems have "b \<noteq> last as" by auto
    with Cons.IH [of "Some b"] Cons.prems Cons show ?thesis
      by (auto simp: first_of_append)
  qed
qed

text \<open>The items of a chain, as a reader sees them.\<close>

definition seen :: "(nat \<Rightarrow> 'b msg_node) \<Rightarrow> nat \<Rightarrow> int \<times> 'b" where
  "seen N a = (mn_send_time (N a), mn_body (N a))"

lemma map_seen_cong: "(\<And>a. a \<in> set as \<Longrightarrow> seen N' a = seen N a) \<Longrightarrow> map (seen N') as = map (seen N) as"
  by simp

lemma seen_links [simp]:
  "seen (ml_nodes (link_next b v m)) a = seen (ml_nodes m) a"
  "seen (ml_nodes (link_prev b v m)) a = seen (ml_nodes m) a"
  by (auto simp: seen_def link_next_def link_prev_def)

subsection \<open>Well-formed lists\<close>

definition list_ok :: "nat \<Rightarrow> 'b msg_list \<Rightarrow> nat list \<Rightarrow> bool" where
  "list_ok n m as \<longleftrightarrow> pool_good n (ml_pool m) \<and> distinct (as @ pool_free (ml_pool m))
     \<and> length as + length (pool_free (ml_pool m)) = n
     \<and> ml_head m = first_of as \<and> ml_tail m = last_of as \<and> item_chain (ml_nodes m) None as"

definition contents :: "'b msg_list \<Rightarrow> nat list \<Rightarrow> (int \<times> 'b) list" where
  "contents m as = map (seen (ml_nodes m)) as"

lemma list_okD:
  assumes "list_ok n m as"
  shows "pool_good n (ml_pool m)" "distinct as" "distinct (pool_free (ml_pool m))"
    "set as \<inter> set (pool_free (ml_pool m)) = {}"
    "length as + length (pool_free (ml_pool m)) = n"
    "ml_head m = first_of as" "ml_tail m = last_of as" "item_chain (ml_nodes m) None as"
  using assms by (auto simp: list_ok_def)

lemma list_ok_empty:
  assumes "0 < n" "n \<le> max32"
  shows "\<exists>m. list_Init z n = Some m \<and> list_ok (nat n) m [] \<and> contents m [] = [] \<and> ml_msg_num m = 0"
proof -
  from pool_Init_good [OF assms] obtain p where
    "pool_Init n = Some p" "pool_good (nat n) p" "pool_free p = [0..<nat n]" by blast
  then show ?thesis by (simp add: list_Init_def list_ok_def contents_def)
qed

text \<open>Taking the first item off a chain.\<close>

lemma linked_tail:
  assumes "item_chain N None (a # b # as)" "distinct (a # b # as)"
  shows "item_chain (N(b := (N b)\<lparr>mn_prev := None\<rparr>)) None (b # as)"
  using assms by (simp add: linked_other)

lemma drop_first:
  assumes ok: "list_ok n m (a # as)"
  shows "\<exists>k. recycle_item a m = Some k \<and> list_ok n k as \<and> contents k as = contents m as
    \<and> mn_next (ml_nodes k a) = first_of as \<and> ml_msg_num k = ml_msg_num m"
proof -
  note d = list_okD [OF ok]
  have "length (pool_free (ml_pool m)) < n" using d(5) by simp
  from pool.give_room [OF d(1) this] obtain q where
    q: "pool_Recycle a (ml_pool m) = Some (True, q)" "pool_good n q"
      "pool_free q = a # pool_free (ml_pool m)" by blast
  show ?thesis
  proof (cases as)
    case Nil
    with d q show ?thesis
      by (auto simp: recycle_item_def list_ok_def contents_def Let_def)
  next
    case (Cons b bs)
    have "a \<noteq> last (b # bs)" using d(2) Cons by (metis distinct.simps(2) last_in_set list.distinct(1))
    with Cons d(7) have t: "ml_tail m \<noteq> Some a" by (simp add: last_of_def)
    have N: "item_chain ((ml_nodes m)(b := (ml_nodes m b)\<lparr>mn_prev := None\<rparr>)) None (b # bs)"
      using linked_tail d(2,8) Cons by blast
    from d(8) Cons have h: "mn_prev (ml_nodes m a) = None" "mn_next (ml_nodes m a) = Some b" by simp_all
    have ab: "a \<noteq> b" using d(2) Cons by simp
    show ?thesis
      using d q t h ab Cons N
      by (auto simp: recycle_item_def list_ok_def contents_def Let_def link_prev_def seen_def
          simp del: item_chain.simps)
  qed
qed

lemma recycle_step:
  "recycle_loop t e None m = Some m"
  "expired t e (mn_send_time (ml_nodes m a)) \<Longrightarrow> recycle_loop t e (Some a) m =
     Option.bind (recycle_item a m) (\<lambda>m. recycle_loop t e (mn_next (ml_nodes m a)) m)"
  "\<not> expired t e (mn_send_time (ml_nodes m a)) \<Longrightarrow> recycle_loop t e (Some a) m =
     recycle_loop t e (mn_next (ml_nodes m a)) m"
  by (subst recycle_loop.simps, simp)+

lemma recycle_live:
  assumes "item_chain (ml_nodes m) p as" "\<forall>a\<in>set as. \<not> expired t e (mn_send_time (ml_nodes m a))"
  shows "recycle_loop t e (first_of as) m = Some m"
  using assms by (induction as arbitrary: p) (auto simp: recycle_step)

text \<open>The expired items are a prefix; \<open>recycle_old\<close> takes exactly them off.\<close>

definition old_item :: "int \<Rightarrow> int \<Rightarrow> int \<times> 'b \<Rightarrow> bool" where
  "old_item t e x = expired t e (fst x)"

lemma old_seen: "old_item t e (seen N a) = expired t e (mn_send_time (N a))"
  by (simp add: old_item_def seen_def)

lemma contents_Cons: "contents m (a # as) = seen (ml_nodes m) a # contents m as"
  by (simp add: contents_def)

lemma recycle_prefix:
  assumes "list_ok n m (es @ as)" "\<forall>x\<in>set (contents m es). old_item t e x"
    "\<forall>x\<in>set (contents m as). \<not> old_item t e x"
  shows "\<exists>k. recycle_loop t e (first_of (es @ as)) m = Some k \<and> list_ok n k as
    \<and> contents k as = contents m as \<and> ml_msg_num k = ml_msg_num m"
  using assms
proof (induction es arbitrary: m)
  case Nil
  have "recycle_loop t e (first_of as) m = Some m"
    using Nil by (intro recycle_live [of _ None]) (auto simp: list_ok_def contents_def old_seen)
  with Nil show ?case by auto
next
  case (Cons a es)
  from drop_first [of n m a "es @ as"] Cons.prems(1) obtain k where
    k: "recycle_item a m = Some k" "list_ok n k (es @ as)" "contents k (es @ as) = contents m (es @ as)"
      "mn_next (ml_nodes k a) = first_of (es @ as)" "ml_msg_num k = ml_msg_num m" by auto
  then have ca: "contents k es = contents m es" "contents k as = contents m as"
    by (auto simp: contents_def)
  from Cons.IH [OF k(2)] Cons.prems ca obtain j where
    j: "recycle_loop t e (first_of (es @ as)) k = Some j" "list_ok n j as"
      "contents j as = contents k as" "ml_msg_num j = ml_msg_num k"
    by (auto simp: contents_Cons)
  have "expired t e (mn_send_time (ml_nodes m a))"
    using Cons.prems(2) by (simp add: contents_Cons old_seen)
  with k j ca show ?case by (auto simp: recycle_step)
qed


subsection \<open>A push\<close>

lemma make_room_ok:
  assumes ok: "list_ok n m as" and two: "2 \<le> n"
  shows "\<exists>k j. make_room m = Some (True, k) \<and> list_ok n k (drop j as) \<and> j = (if length as = n then 1 else 0)
    \<and> contents k (drop j as) = contents m (drop j as) \<and> pool_HasFree (ml_pool k) \<and> ml_msg_num k = ml_msg_num m"
proof (cases "pool_HasFree (ml_pool m)")
  case True
  with pool.has_iff [OF list_okD(1) [OF ok]] list_okD(5) [OF ok] have "length as \<noteq> n" by auto
  with True ok show ?thesis by (auto simp: make_room_def)
next
  case False
  note d = list_okD [OF ok]
  from False pool.has_iff [OF d(1)] have free: "pool_free (ml_pool m) = []" by simp
  with d(5) two obtain a b bs where as: "as = a # b # bs" "length as = n"
    by (cases as; cases "tl as") auto
  from pool.give_room [OF d(1), of a] free two obtain q where
    q: "pool_Recycle a (ml_pool m) = Some (True, q)" "pool_good n q" "pool_free q = [a]" by auto
  have N: "item_chain ((ml_nodes m)(b := (ml_nodes m b)\<lparr>mn_prev := None\<rparr>)) None (b # bs)"
    using linked_tail d(2,8) as by blast
  have h: "mn_next (ml_nodes m a) = Some b" using d(8) as by simp
  have hf: "pool_HasFree q" using pool.has_iff [OF q(2)] q(3) by simp
  show ?thesis
    using False d as q h N hf
    by (auto simp: make_room_def list_ok_def contents_def link_prev_def seen_def Let_def
        simp del: item_chain.simps)
qed

lemma link_item_ok:
  assumes ok: "list_ok n m as" and free: "pool_HasFree (ml_pool m)"
  shows "\<exists>a p. pool_GetFree (ml_pool m) = Some (Some a, p)
    \<and> list_ok n (link_item t b a (m\<lparr>ml_pool := p\<rparr>)) (as @ [a])
    \<and> contents (link_item t b a (m\<lparr>ml_pool := p\<rparr>)) (as @ [a]) = contents m as @ [(t, b)]
    \<and> ml_msg_num (link_item t b a (m\<lparr>ml_pool := p\<rparr>)) = i32 (ml_msg_num m + 1)"
proof -
  note d = list_okD [OF ok]
  from pool.take_some [OF d(1) free] obtain a p where
    p: "pool_GetFree (ml_pool m) = Some (Some a, p)" "pool_good n p"
      "pool_free (ml_pool m) = a # pool_free p" by blast
  let ?k = "link_item t b a (m\<lparr>ml_pool := p\<rparr>)"
  from d(4) p(3) have a: "a \<notin> set as" by auto
  have dist: "distinct (as @ [a])" using d(2) a by simp
  have nodes: "ml_nodes ?k = (if as = [] then ml_nodes m else
        (ml_nodes m)(last as := (ml_nodes m (last as))\<lparr>mn_next := Some a\<rparr>))
      (a := \<lparr> mn_send_time = t, mn_body = b, mn_prev = last_of as, mn_next = None \<rparr>)"
    using d(7) a by (cases "as = []")
      (auto simp: link_item_def last_of_def link_next_def Let_def fun_upd_twist)
  have ends: "ml_head ?k = first_of (as @ [a])" "ml_tail ?k = last_of (as @ [a])" "ml_pool ?k = p"
      "ml_msg_num ?k = i32 (ml_msg_num m + 1)"
    using d(6,7) by (cases as; auto simp: link_item_def last_of_def link_next_def first_of_append Let_def
        split: option.splits list.splits)+
  have cut: "item_chain (N(last as := (N (last as))\<lparr>mn_next := None\<rparr>)) q as" if "item_chain N q as" for N :: "nat \<Rightarrow> 'a msg_node" and q
    using that d(2)
  proof (induction as arbitrary: q)
    case (Cons c cs)
    then show ?case by (cases cs) auto
  qed simp
  have chain: "item_chain (ml_nodes ?k) None (as @ [a])"
  proof (cases "as = []")
    case True
    then show ?thesis by (simp add: nodes)
  next
    case False
    then have l: "last as \<in> set as" by simp
    with a have la: "last as \<noteq> a" by auto
    have e: "item_chain ((ml_nodes ?k)(last as := (ml_nodes ?k (last as))\<lparr>mn_next := None\<rparr>)) None as
        = item_chain ((ml_nodes m)(last as := (ml_nodes m (last as))\<lparr>mn_next := None\<rparr>)) None as"
      using False la a
      by (simp add: nodes fun_upd_twist [of a "last as"] linked_other)
    show ?thesis
      unfolding linked_snoc [OF dist] e using cut [OF d(8)] False la
      by (simp add: nodes last_of_def)
  qed
  have keep: "contents ?k as = contents m as"
    unfolding contents_def by (rule map_seen_cong) (use a in \<open>auto simp: nodes seen_def\<close>)
  have fin: "contents ?k (as @ [a]) = contents m as @ [(t, b)]"
    using keep by (simp add: contents_def nodes) (simp add: seen_def)
  have "list_ok n ?k (as @ [a])"
    using d p a ends chain by (auto simp: list_ok_def)
  with p(1) fin ends(4) show ?thesis by (intro exI [of _ a] exI [of _ p]) simp
qed

text \<open>The queue a list stands for, and what a push does to it.\<close>

definition push_queue :: "nat \<Rightarrow> int \<Rightarrow> int \<Rightarrow> 'b \<Rightarrow> (int \<times> 'b) list \<Rightarrow> (int \<times> 'b) list" where
  "push_queue n t e b q =
     (let live = dropWhile (old_item t e) q
      in (if length live = n then tl live else live) @ [(t, b)])"

text \<open>The clock: the items were sent in order and none in the future, and nothing overflows.\<close>

definition on_time :: "int \<Rightarrow> int \<Rightarrow> (int \<times> 'b) list \<Rightarrow> bool" where
  "on_time t e q \<longleftrightarrow> sorted (map fst q) \<and> (\<forall>x\<in>set q. 0 \<le> fst x \<and> fst x \<le> t)
     \<and> t \<le> max32 \<and> 0 < e \<and> e * 60 \<le> max32"

lemma old_item_iff: "on_time t e q \<Longrightarrow> x \<in> set q \<Longrightarrow> old_item t e x \<longleftrightarrow> fst x \<le> t - e * 60"
  by (auto simp: on_time_def old_item_def expired_def i32_range_id)

lemma on_time_drop: "on_time t e q \<Longrightarrow> on_time t e (drop j q)"
  by (auto simp: on_time_def drop_map [symmetric] sorted_wrt_drop dest: in_set_dropD)

lemma old_prefix:
  assumes "on_time t e q"
  shows "\<forall>x\<in>set (dropWhile (old_item t e) q). \<not> old_item t e x"
  using assms
proof (induction q)
  case (Cons x q)
  show ?case
  proof (cases "old_item t e x")
    case True
    have "on_time t e q" using Cons.prems by (simp add: on_time_def)
    then have "\<forall>y\<in>set (dropWhile (old_item t e) q). \<not> old_item t e y" by (rule Cons.IH)
    with True show ?thesis by (metis dropWhile.simps(2))
  next
    case False
    have "\<not> old_item t e y" if "y \<in> set q" for y
    proof -
      from Cons.prems that have "fst x \<le> fst y" by (simp add: on_time_def)
      with False that old_item_iff [OF Cons.prems, of x] old_item_iff [OF Cons.prems, of y]
      show ?thesis by simp
    qed
    with False show ?thesis by simp
  qed
qed simp

lemma recycle_old_ok:
  assumes ok: "list_ok n m as" and time: "on_time t e (contents m as)"
  shows "\<exists>k j. recycle_old t e m = Some k \<and> list_ok n k (drop j as) \<and> j \<le> length as
    \<and> contents k (drop j as) = dropWhile (old_item t e) (contents m as)
    \<and> drop j (contents m as) = dropWhile (old_item t e) (contents m as)
    \<and> ml_msg_num k = ml_msg_num m"
proof -
  define j where "j = length (takeWhile (old_item t e) (contents m as))"
  have j: "j \<le> length as" using length_takeWhile_le [of "old_item t e" "contents m as"]
    by (simp add: j_def contents_def)
  have es: "contents m (take j as) = takeWhile (old_item t e) (contents m as)"
    by (simp add: contents_def take_map [symmetric] j_def takeWhile_eq_take [symmetric])
  have ys: "contents m (drop j as) = dropWhile (old_item t e) (contents m as)"
    by (simp add: contents_def drop_map [symmetric] j_def dropWhile_eq_drop [symmetric])
  have "\<forall>x\<in>set (contents m (take j as)). old_item t e x"
    unfolding es by (auto dest: set_takeWhileD)
  moreover have "\<forall>x\<in>set (contents m (drop j as)). \<not> old_item t e x"
    unfolding ys by (rule old_prefix [OF time])
  ultimately obtain k where "recycle_loop t e (first_of as) m = Some k" "list_ok n k (drop j as)"
      "contents k (drop j as) = contents m (drop j as)" "ml_msg_num k = ml_msg_num m"
    using recycle_prefix [of n m "take j as" "drop j as" t e] ok by auto
  with ys j list_okD(6) [OF ok] show ?thesis
    by (auto simp: recycle_old_def contents_def drop_map)
qed


text \<open>One push, with the addresses: what is left of the list, and the new item.\<close>

lemma push_msg_ok:
  assumes ok: "list_ok n m as" and two: "2 \<le> n" and time: "on_time t e (contents m as)"
  shows "\<exists>k j a. push_msg t e b m = Some (True, k) \<and> j \<le> length as \<and> list_ok n k (drop j as @ [a])
    \<and> contents k (drop j as @ [a]) = drop j (contents m as) @ [(t, b)]
    \<and> push_queue n t e b (contents m as) = drop j (contents m as) @ [(t, b)]
    \<and> ml_msg_num k = i32 (ml_msg_num m + 1)"
proof -
  from recycle_old_ok [OF ok time] obtain k1 j1 where
    r: "recycle_old t e m = Some k1" "list_ok n k1 (drop j1 as)" "j1 \<le> length as"
      "contents k1 (drop j1 as) = dropWhile (old_item t e) (contents m as)"
      "drop j1 (contents m as) = dropWhile (old_item t e) (contents m as)"
      "ml_msg_num k1 = ml_msg_num m" by blast
  define i where "i = (if length (drop j1 as) = n then 1 else 0 :: nat)"
  from make_room_ok [OF r(2) two] obtain k2 where
    k2: "make_room k1 = Some (True, k2)" "list_ok n k2 (drop i (drop j1 as))"
      "contents k2 (drop i (drop j1 as)) = contents k1 (drop i (drop j1 as))"
      "pool_HasFree (ml_pool k2)" "ml_msg_num k2 = ml_msg_num k1"
    unfolding i_def by blast
  from link_item_ok [OF k2(2,4), of t b] obtain a p where
    l: "pool_GetFree (ml_pool k2) = Some (Some a, p)"
      "list_ok n (link_item t b a (k2\<lparr>ml_pool := p\<rparr>)) (drop i (drop j1 as) @ [a])"
      "contents (link_item t b a (k2\<lparr>ml_pool := p\<rparr>)) (drop i (drop j1 as) @ [a])
        = contents k2 (drop i (drop j1 as)) @ [(t, b)]"
      "ml_msg_num (link_item t b a (k2\<lparr>ml_pool := p\<rparr>)) = i32 (ml_msg_num k2 + 1)" by blast
  have run: "push_msg t e b m = Some (True, link_item t b a (k2\<lparr>ml_pool := p\<rparr>))"
    using r(1) k2(1) l(1) by (simp add: push_msg_def)
  have len: "length (dropWhile (old_item t e) (contents m as)) = length (drop j1 as)"
    using r(4) by (metis contents_def length_map)
  have c1: "contents k1 (drop i (drop j1 as)) = drop i (dropWhile (old_item t e) (contents m as))"
    using r(4) by (metis contents_def drop_map)
  then have c2: "contents k2 (drop i (drop j1 as)) = drop (i + j1) (contents m as)"
    using k2(3) r(5) by (metis drop_drop)
  have q: "push_queue n t e b (contents m as) = drop (i + j1) (contents m as) @ [(t, b)]"
  proof -
    have "push_queue n t e b (contents m as) = drop i (dropWhile (old_item t e) (contents m as)) @ [(t, b)]"
      by (simp add: push_queue_def Let_def len i_def drop_Suc)
    with r(5) show ?thesis by (metis drop_drop)
  qed
  have le: "i + j1 \<le> length as"
    using two r(3) by (auto simp: i_def)
  have "drop i (drop j1 as) = drop (i + j1) as" by simp
  with run l c2 q le k2(5) r(6) show ?thesis
    by (intro exI [of _ "link_item t b a (k2\<lparr>ml_pool := p\<rparr>)"] exI [of _ "i + j1"] exI [of _ a])
      (simp del: drop_drop)
qed

subsection \<open>Runs of pushes\<close>

fun push_all :: "int \<Rightarrow> (int \<times> 'b) list \<Rightarrow> 'b msg_list \<Rightarrow> 'b msg_list option" where
  "push_all e [] m = Some m"
| "push_all e ((t, b) # evs) m = do {
     (ok, m) \<leftarrow> push_msg t e b m;
     if ok then push_all e evs m else None
   }"

fun queue_all :: "nat \<Rightarrow> int \<Rightarrow> (int \<times> 'b) list \<Rightarrow> (int \<times> 'b) list \<Rightarrow> (int \<times> 'b) list" where
  "queue_all n e [] q = q"
| "queue_all n e ((t, b) # evs) q = queue_all n e evs (push_queue n t e b q)"

text \<open>A run on a clock that does not run back.\<close>

definition sent_in_order :: "int \<Rightarrow> (int \<times> 'b) list \<Rightarrow> bool" where
  "sent_in_order e q \<longleftrightarrow> sorted (map fst q) \<and> (\<forall>x\<in>set q. 0 \<le> fst x \<and> fst x \<le> max32)
     \<and> 0 < e \<and> e * 60 \<le> max32"

lemma in_order_drop: "sent_in_order e (q @ evs) \<Longrightarrow> sent_in_order e (drop j q @ evs)"
  unfolding sent_in_order_def map_append sorted_append drop_map [symmetric] set_append
  by (auto simp: sorted_wrt_drop dest!: in_set_dropD simp del: drop_map)
    (fastforce simp: drop_map dest!: in_set_dropD)

lemma in_order_time: "sent_in_order e (q @ (t, b) # evs) \<Longrightarrow> on_time t e q"
  by (auto simp: sent_in_order_def on_time_def sorted_append)

lemma push_all_ok:
  assumes "list_ok n m as" "2 \<le> n" "sent_in_order e (contents m as @ evs)"
  shows "\<exists>k j new. push_all e evs m = Some k \<and> length new = length evs \<and> list_ok n k (drop j (as @ new))
    \<and> contents k (drop j (as @ new)) = drop j (contents m as @ evs)
    \<and> queue_all n e evs (contents m as) = drop j (contents m as @ evs)
    \<and> j \<le> length (as @ new)
    \<and> (0 \<le> ml_msg_num m \<longrightarrow> ml_msg_num m + int (length evs) \<le> max32 \<longrightarrow>
        ml_msg_num k = ml_msg_num m + int (length evs))"
  using assms
proof (induction evs arbitrary: m as)
  case Nil
  then show ?case by (intro exI [of _ m] exI [of _ 0] exI [of _ "[]"]) simp
next
  case (Cons x evs)
  obtain t b where x: "x = (t, b)" by fastforce
  from push_msg_ok [OF Cons.prems(1,2) in_order_time] Cons.prems(3) obtain k j a where
    k: "push_msg t e b m = Some (True, k)" "j \<le> length as" "list_ok n k (drop j as @ [a])"
      "contents k (drop j as @ [a]) = drop j (contents m as) @ [(t, b)]"
      "push_queue n t e b (contents m as) = drop j (contents m as) @ [(t, b)]"
      "ml_msg_num k = i32 (ml_msg_num m + 1)"
    unfolding x by blast
  have len: "length (contents m as) = length as" by (simp add: contents_def)
  have "sent_in_order e (contents k (drop j as @ [a]) @ evs)"
    using in_order_drop [OF Cons.prems(3), of j] k(4) by (simp add: x)
  from Cons.IH [OF k(3) Cons.prems(2) this] obtain l i new where
    l: "push_all e evs k = Some l" "length new = length evs" "list_ok n l (drop i ((drop j as @ [a]) @ new))"
      "contents l (drop i ((drop j as @ [a]) @ new)) = drop i (contents k (drop j as @ [a]) @ evs)"
      "queue_all n e evs (contents k (drop j as @ [a])) = drop i (contents k (drop j as @ [a]) @ evs)"
      "i \<le> length ((drop j as @ [a]) @ new)"
      "0 \<le> ml_msg_num k \<longrightarrow> ml_msg_num k + int (length evs) \<le> max32 \<longrightarrow>
        ml_msg_num l = ml_msg_num k + int (length evs)" by blast
  have addr: "drop i ((drop j as @ [a]) @ new) = drop (i + j) (as @ a # new)"
    using k(2) by (simp add: drop_drop [symmetric] del: drop_drop)
  have cont: "drop i (contents k (drop j as @ [a]) @ evs) = drop (i + j) (contents m as @ x # evs)"
    using k(2,4) len by (simp add: x drop_drop [symmetric] del: drop_drop)
  have num: "0 \<le> ml_msg_num m \<longrightarrow> ml_msg_num m + int (length (x # evs)) \<le> max32 \<longrightarrow>
      ml_msg_num l = ml_msg_num m + int (length (x # evs))"
    using l(7) k(6) by (auto simp: i32_range_id)
  show ?case
    using k l addr cont num len
    by (intro exI [of _ l] exI [of _ "i + j"] exI [of _ "a # new"]) (auto simp: x)
qed

subsection \<open>A pull\<close>

lemma pull_linked:
  assumes "item_chain (ml_nodes m) p as"
  shows "fst (show_loop t e m n (first_of as) r) =
      filter (\<lambda>x. \<not> old_item t e x) (take n (contents m as))"
  using assms
proof (induction as arbitrary: n p r)
  case Nil
  then show ?case by (cases n) (simp_all add: contents_def)
next
  case (Cons a as)
  then show ?case
    by (cases n) (auto simp: contents_Cons old_item_def Let_def split_beta seen_def)
qed

lemma pull_reader:
  assumes "item_chain (ml_nodes m) p as"
  shows "snd (show_loop t e m n (first_of as) r) =
    (case filter (\<lambda>a. \<not> expired t e (mn_send_time (ml_nodes m a))) (take n as) of [] \<Rightarrow> r
     | b # bs \<Rightarrow> r\<lparr>rd_curr_msg := Some (last (b # bs)),
         rd_curr_send_time := mn_send_time (ml_nodes m (last (b # bs)))\<rparr>)"
  using assms
proof (induction as arbitrary: n p r)
  case Nil
  then show ?case by (cases n) simp_all
next
  case (Cons a as)
  then show ?case
    by (cases n) (auto simp: Let_def split_beta split: list.splits)
qed

text \<open>A reader that has seen the list up to an item that is still there.\<close>

definition read_upto :: "'b msg_list \<Rightarrow> nat list \<Rightarrow> reader \<Rightarrow> bool" where
  "read_upto m as r \<longleftrightarrow>
     (if as = [] then rd_curr_msg r = None
      else rd_curr_msg r = Some (last as) \<and> rd_curr_send_time r = mn_send_time (ml_nodes m (last as)))"

lemma linked_append:
  "item_chain N p (as @ bs) \<Longrightarrow> item_chain N (if as = [] then p else Some (last as)) bs
     \<and> (as \<noteq> [] \<longrightarrow> mn_next (N (last as)) = first_of bs)"
  by (induction as arbitrary: p) (auto simp: first_of_append split: if_splits)

lemma get_curr_unread:
  assumes "list_ok n m (as @ bs)" "read_upto m as r"
  shows "get_curr_msg r m = first_of bs"
  using assms linked_append [OF list_okD(8) [OF assms(1)]]
  by (auto simp: get_curr_msg_def read_upto_def list_ok_def first_of_append split: if_splits)

lemma pull_unread:
  assumes ok: "list_ok n m (as @ bs)" and r: "read_upto m as r"
  shows "fst (pull_msgs t e num m r) =
    filter (\<lambda>x. \<not> old_item t e x) (take (nat (min num (ml_msg_num m))) (contents m bs))"
proof (cases "ml_msg_num m \<le> 0")
  case True
  then show ?thesis by (simp add: pull_msgs_def)
next
  case False
  from linked_append [OF list_okD(8) [OF ok]]
  have "item_chain (ml_nodes m) (if as = [] then None else Some (last as)) bs" by blast
  from pull_linked [OF this] False get_curr_unread [OF ok r]
  show ?thesis by (simp add: pull_msgs_def)
qed


subsection \<open>What the lists guarantee\<close>

text \<open>
  Property C32. The list is a bounded queue. From \<open>Init\<close> with room for \<open>N\<close> messages, at least two,
  every run of fewer than 2^31 pushes on a clock that does not run back returns, and a reader that has seen
  nothing is then shown exactly the unexpired messages among the first \<open>num\<close> of the queue that
  drops the expired messages and, when it is full, the oldest one before it takes the next. The
  queue never holds more than \<open>N\<close> messages.
\<close>

theorem message_list_is_queue:
  assumes "2 \<le> N" "N \<le> max32" "sent_in_order e evs" "int (length evs) \<le> max32"
  shows "\<exists>m k. list_Init z N = Some m \<and> push_all e evs m = Some k
    \<and> length (queue_all (nat N) e evs []) \<le> nat N
    \<and> (\<forall>t num r. rd_curr_msg r = None \<longrightarrow> fst (pull_msgs t e num k r) =
        filter (\<lambda>x. \<not> old_item t e x)
          (take (nat (min num (int (length evs)))) (queue_all (nat N) e evs [])))"
proof -
  from list_ok_empty [of N z] assms obtain m where
    m: "list_Init z N = Some m" "list_ok (nat N) m []" "contents m [] = []" "ml_msg_num m = 0" by auto
  have "2 \<le> nat N" using assms by simp
  from push_all_ok [OF m(2) this, of e evs] assms m obtain k j new where
    k: "push_all e evs m = Some k" "list_ok (nat N) k (drop j new)" "contents k (drop j new) = drop j evs"
      "queue_all (nat N) e evs [] = drop j evs" "ml_msg_num k = int (length evs)" by auto
  have "length (drop j evs) = length (drop j new)" using k(3) by (metis contents_def length_map)
  with list_okD(5) [OF k(2)] k(4) have len: "length (queue_all (nat N) e evs []) \<le> nat N" by simp
  have "fst (pull_msgs t e num k r) = filter (\<lambda>x. \<not> old_item t e x)
      (take (nat (min num (int (length evs)))) (queue_all (nat N) e evs []))"
    if "rd_curr_msg r = None" for t num r
    using pull_unread [of "nat N" k "[]" "drop j new" r t e num] that k
    by (simp add: read_upto_def)
  with m(1) k(1) len show ?thesis by blast
qed

lemma message_list_is_queue_witness:
  "\<exists>m k. list_Init (0 :: int) 2 = Some m \<and> push_all 1 [(5, 7), (6, 8), (9, 3)] m = Some k
    \<and> fst (pull_msgs 10 1 50 k \<lparr> rd_curr_msg = None, rd_curr_send_time = 0 \<rparr>) = [(6, 8), (9, 3)]"
proof -
  have "sent_in_order 1 [(5, 7 :: int), (6, 8), (9, 3)]" by (simp add: sent_in_order_def)
  from message_list_is_queue [OF _ _ this, of 2 0] obtain m k where
    mk: "list_Init (0 :: int) 2 = Some m" "push_all 1 [(5, 7), (6, 8), (9, 3)] m = Some k"
      "\<forall>t num r. rd_curr_msg r = None \<longrightarrow> fst (pull_msgs t 1 num k r) =
        filter (\<lambda>x. \<not> old_item t 1 x)
          (take (nat (min num 3)) (queue_all 2 1 [(5, 7), (6, 8), (9, 3)] []))" by auto
  have i: "i32 1 = 1" "i32 4 = 4" "i32 5 = 5" "i32 3 = 3" "i32 60 = 60" by (simp_all add: i32_def)
  have "queue_all 2 1 [(5, 7 :: int), (6, 8), (9, 3)] [] = [(6, 8), (9, 3)]"
    by (simp add: push_queue_def old_item_def expired_def i)
  then show ?thesis
    using mk(1,2) mk(3) [rule_format, of "\<lparr> rd_curr_msg = None, rd_curr_send_time = 0 \<rparr>" 10 50]
    by (intro exI [of _ m] exI [of _ k]) (simp add: old_item_def expired_def i)
qed

text \<open>
  Property C33. In a list that is well formed, with room for at least two messages and fewer than 2^31
  of them pushed so far, a reader that is not overtaken misses nothing and sees nothing twice: if the last
  message it was shown is still in the list, then after any run of pushes that leaves more messages
  in the list than the reader has still to see, its next pull shows what it had not seen and then
  what was pushed, in order: the unexpired ones among the first \<open>num\<close>.
\<close>

theorem reader_gets_messages_in_order:
  assumes ok: "list_ok n m (xs @ ys)" and two: "2 \<le> n" and time: "sent_in_order e (contents m (xs @ ys) @ evs)"
    and r: "read_upto m xs r" "xs \<noteq> []"
    and num: "0 \<le> ml_msg_num m" "ml_msg_num m + int (length evs) \<le> max32"
    and left: "length ys + length evs < length (queue_all n e evs (contents m (xs @ ys)))"
  shows "\<exists>k. push_all e evs m = Some k
    \<and> fst (pull_msgs t e num k r) = filter (\<lambda>x. \<not> old_item t e x)
        (take (nat (min num (ml_msg_num m + int (length evs)))) (contents m ys @ evs))"
proof -
  from push_all_ok [OF ok two time] num obtain k j new where
    k: "push_all e evs m = Some k" "length new = length evs" "list_ok n k (drop j ((xs @ ys) @ new))"
      "contents k (drop j ((xs @ ys) @ new)) = drop j (contents m (xs @ ys) @ evs)"
      "queue_all n e evs (contents m (xs @ ys)) = drop j (contents m (xs @ ys) @ evs)"
      "ml_msg_num k = ml_msg_num m + int (length evs)" by blast
  have len: "length (contents l as) = length as" for l :: "'a msg_list" and as by (simp add: contents_def)
  from left k(5) have j: "j < length xs" by (auto simp: len)
  have split: "drop j ((xs @ ys) @ new) = drop j xs @ (ys @ new)" using j by simp
  have parts: "contents k (drop j xs) @ contents k (ys @ new) = drop j (contents m xs) @ (contents m ys @ evs)"
    using k(4) j unfolding split by (simp add: contents_def)
  have "length (contents k (drop j xs)) = length (drop j (contents m xs))" by (simp add: len)
  from append_eq_append_conv [OF disjI1, OF this] parts
  have here: "contents k (drop j xs) = drop j (contents m xs)" "contents k (ys @ new) = contents m ys @ evs"
    by blast+
  have ne: "drop j xs \<noteq> []" using j by simp
  from here(1) have "last (contents k (drop j xs)) = last (contents m xs)"
    using j by (simp add: len)
  then have "seen (ml_nodes k) (last xs) = seen (ml_nodes m) (last xs)"
    using ne r(2) by (simp add: contents_def last_map)
  then have "read_upto k (drop j xs) r"
    using r ne j by (simp add: read_upto_def seen_def)
  from pull_unread [of n k "drop j xs" "ys @ new" r t e num] k(3,6) this here(2) k(1) show ?thesis
    unfolding split by auto
qed

lemma reader_gets_messages_in_order_witness:
  "\<exists>(m :: int msg_list) r k. rd_curr_msg r \<noteq> None \<and> push_all 1 [(6, 8)] m = Some k
    \<and> fst (pull_msgs 7 1 50 k r) = [(6, 8)]"
proof -
  have i: "i32 1 = 1" "i32 60 = 60" by (simp_all add: i32_def)
  from list_ok_empty [of 3 0] obtain m0 :: "int msg_list" where
    m0: "list_ok 3 m0 []" "contents m0 [] = []" "ml_msg_num m0 = 0" by auto
  have q: "queue_all 3 1 [(5, 7)] [] = [(5, 7 :: int)]" by (simp add: push_queue_def)
  have "sent_in_order 1 (contents m0 [] @ [(5, 7)])" by (simp add: sent_in_order_def m0)
  from push_all_ok [OF m0(1) _ this] m0 obtain m j new where
    m: "length new = 1" "list_ok 3 m (drop j new)" "contents m (drop j new) = drop j [(5, 7 :: int)]"
      "[(5 :: int, 7 :: int)] = drop j [(5, 7)]" "ml_msg_num m = 1"
    using q by (simp del: queue_all.simps push_all.simps) metis
  from m(4) have "j = 0" by (cases j) simp_all
  with m(1,2,3) obtain a where a: "list_ok 3 m ([a] @ [])" "contents m ([a] @ []) = [(5, 7)]"
    by (auto simp: length_Suc_conv)
  let ?r = "\<lparr> rd_curr_msg = Some a, rd_curr_send_time = 5 \<rparr>"
  have r: "read_upto m [a] ?r" using a(2) by (simp add: read_upto_def contents_def seen_def)
  have o: "sent_in_order 1 (contents m ([a] @ []) @ [(6, 8)])" unfolding a(2) by (simp add: sent_in_order_def)
  have l: "length [] + length [(6, 8)] < length (queue_all 3 1 [(6, 8 :: int)] (contents m ([a] @ [])))"
    unfolding a(2) by (simp add: push_queue_def old_item_def expired_def i)
  from reader_gets_messages_in_order [OF a(1) _ o r _ _ _ l, of 7 50] m(5) obtain k where
    "push_all 1 [(6, 8)] m = Some k" "fst (pull_msgs 7 1 50 k ?r) = [(6, 8)]"
    by (auto simp: contents_def old_item_def expired_def i simp del: push_all.simps)
  then have "rd_curr_msg ?r \<noteq> None \<and> push_all 1 [(6, 8)] m = Some k
    \<and> fst (pull_msgs 7 1 50 k ?r) = [(6, 8)]" by simp
  then show ?thesis by blast
qed

subsection \<open>Where the lists fail\<close>

text \<open>The zero values: a reader that has seen nothing.\<close>

definition new_reader :: reader where
  "new_reader = \<lparr> rd_curr_msg = None, rd_curr_send_time = 0 \<rparr>"

text \<open>With a maximum of 0, which is what a channel without configuration gets, the first push panics.\<close>

lemma no_room_panics: "list_Init z 0 = Some m \<Longrightarrow> push_msg t e b m = None"
  by (auto simp: list_Init_def pool_Init_def push_msg_def recycle_old_def recycle_step make_room_def
      pool_HasFree_def pool_GetFree_def go_nth_def)

text \<open>An item that is its own successor keeps \<open>recycle_old\<close> in its loop.\<close>

lemma recycle_cycle:
  assumes "mn_next (ml_nodes m a) = Some a" "\<not> expired t e (mn_send_time (ml_nodes m a))"
  shows "recycle_loop t e (Some a) m = None"
proof -
  have "\<not> (recycle_loop t e (Some a) m = Some r)" for r
  proof
    let ?P = "\<lambda>(t' :: int) (e' :: int) x (m' :: 'a msg_list) (r :: 'a msg_list).
      t' = t \<longrightarrow> e' = e \<longrightarrow> x = Some a \<longrightarrow> m' = m \<longrightarrow> False"
    assume run: "recycle_loop t e (Some a) m = Some r"
    have "?P t e (Some a) m r"
    proof (rule recycle_loop.raw_induct [where P = ?P, OF _ run])
      fix f :: "int \<Rightarrow> int \<Rightarrow> nat option \<Rightarrow> 'a msg_list \<Rightarrow> 'a msg_list option" and t' e' x m' y
      assume IH: "\<And>t' e' x m' y. f t' e' x m' = Some y \<Longrightarrow> ?P t' e' x m' y"
        and body: "(case x of None \<Rightarrow> Some m' | Some a \<Rightarrow>
            (if expired t' e' (mn_send_time (ml_nodes m' a)) then recycle_item a m' else Some m')
              \<bind> (\<lambda>m. f t' e' (mn_next (ml_nodes m a)) m)) = Some y"
      show "?P t' e' x m' y"
      proof (intro impI)
        assume "t' = t" "e' = e" "x = Some a" "m' = m"
        with body assms have "f t e (Some a) m = Some y" by simp
        from IH [OF this] show False by simp
      qed
    qed
    then show False by simp
  qed
  then show ?thesis by (cases "recycle_loop t e (Some a) m") auto
qed

text \<open>With a maximum of 1 the second push links the only item to itself, and the third never
  returns.\<close>

lemma single_item_hangs:
  assumes "\<not> expired t e t"
  shows "\<exists>m k. list_Init z 1 = Some m \<and> push_all e [(t, b), (t, c)] m = Some k \<and> push_msg t e d k = None"
proof -
  have i: "i32 1 = 1" by simp
  note defs = list_Init_def pool_Init_def push_msg_def recycle_old_def recycle_step make_room_def
    pool_HasFree_def pool_GetFree_def pool_Recycle_def go_nth_def link_item_def link_next_def link_prev_def Let_def
  obtain m where m: "list_Init z 1 = Some m" by (simp add: defs)
  obtain k1 where k1: "push_msg t e b m = Some (True, k1)" "ml_head k1 = Some 0" "ml_tail k1 = Some 0"
      "ml_pool k1 = \<lparr> pl_items = [0], pl_can_use_start = -1, pl_can_use_num = 1 \<rparr>"
      "mn_next (ml_nodes k1 0) = None" "mn_send_time (ml_nodes k1 0) = t"
    using m by (auto simp: defs)
  obtain k where k: "push_msg t e c k1 = Some (True, k)" "ml_head k = Some 0"
      "mn_next (ml_nodes k 0) = Some 0" "mn_send_time (ml_nodes k 0) = t"
    using k1(2-) assms by (auto simp: defs)
  have "push_msg t e d k = None"
    using recycle_cycle [of k 0 t e] k(2-) assms by (simp add: push_msg_def recycle_old_def)
  with m k1(1) k(1) show ?thesis by auto
qed

text \<open>
  A reader whose last message has expired is not sent to the start of the list while its item is
  unused: it follows the old link into an item that has been used again. Here the reader sees
  message 1; 2 and 3 are sent, all three expire, 4 and 5 are sent: it is shown 5, and 4 never.
\<close>

definition overtaken_reader :: "(int \<times> int) list option" where
  "overtaken_reader = do {
     m \<leftarrow> list_Init 0 3;
     m \<leftarrow> push_all 1 [(10, 1)] m;
     let r = snd (pull_msgs 10 1 50 m new_reader);
     m \<leftarrow> push_all 1 [(11, 2), (11, 3), (100, 4), (101, 5)] m;
     Some (fst (pull_msgs 101 1 50 m r))
   }"

lemma reader_skips_message: "overtaken_reader = Some [(101, 5)]"
proof -
  have i: "i32 60 = 60" "i32 1 = 1" "i32 2 = 2" "i32 3 = 3" "i32 0 = 0" "i32 4 = 4" "i32 5 = 5"
    "i32 90 = 90" "i32 89 = 89" "i32 (-1) = -1"
    by (simp_all add: i32_def)
  note defs = list_Init_def pool_Init_def push_msg_def recycle_old_def recycle_step make_room_def
    pool_HasFree_def pool_GetFree_def pool_Recycle_def go_nth_def link_item_def link_next_def link_prev_def
    recycle_item_def expired_def Let_def i
  show ?thesis
    by (simp add: overtaken_reader_def new_reader_def pull_msgs_def get_curr_msg_def defs upt_rec
        eval_nat_numeral)
qed

end
