(* ===== verification/Chat.thy ===== *)
theory Chat
  imports MsgQueue
begin

text \<open>
  The chat channels and the announcements of the game server: \<open>game_server/chat.go\<close>,
  \<open>player_chat.go\<close>, \<open>anouncement.go\<close>, and the announcement of the GM service
  (\<open>G2G_Proc.Anouncement\<close> of \<open>rpc_gm_proc.go\<close>). The lists are those of \<open>MsgList\<close>. The handlers
  run on the part of the player they use: the row of the player, the column \<open>Chats\<close>, the readers
  of the two channels and of the announcements. \<open>time.Now\<close> is read once per handler, as
  \<open>now_time\<close>, an \<open>int32\<close>. Contents are byte strings.
\<close>

abbreviation (input) E_ERR_CHAT_SEND_MSG_COOLING_DOWN :: int where "E_ERR_CHAT_SEND_MSG_COOLING_DOWN \<equiv> - 102350"
abbreviation (input) E_ERR_CHAT_SEND_MSG_BYTES_TOO_LONG :: int where "E_ERR_CHAT_SEND_MSG_BYTES_TOO_LONG \<equiv> - 102351"
abbreviation (input) E_ERR_CHAT_CANT_SEND_WITH_NO_FREE :: int where "E_ERR_CHAT_CANT_SEND_WITH_NO_FREE \<equiv> - 102352"
abbreviation (input) E_ERR_CHAT_CHANNEL_CANT_GET :: int where "E_ERR_CHAT_CHANNEL_CANT_GET \<equiv> - 102354"

abbreviation (input) CHAT_CHANNEL_WORLD :: int where "CHAT_CHANNEL_WORLD \<equiv> 1"
abbreviation (input) CHAT_CHANNEL_GUILD :: int where "CHAT_CHANNEL_GUILD \<equiv> 2"
abbreviation (input) CHAT_CHANNEL_RECRUIT :: int where "CHAT_CHANNEL_RECRUIT \<equiv> 3"
abbreviation (input) CHAT_CHANNEL_SYSTEM :: int where "CHAT_CHANNEL_SYSTEM \<equiv> 4"

subsection \<open>Configuration\<close>

record chat_config =
  MaxMsgNum :: int
  PullMaxMsgNum :: int
  PullMsgCooldown :: int
  MsgMaxBytes :: int
  MsgExistTime :: int
  SendMsgCooldown :: int

text \<open>The fields of \<open>GlobalConfig\<close> used here, and \<open>DisableTestCommand\<close> of the server's own
  configuration.\<close>

record chat_global =
  WorldChatData :: chat_config
  GuildChatData :: chat_config
  RecruitChatData :: chat_config
  SystemChatData :: chat_config
  AnouncementMaxNum :: int
  AnouncementSendCooldown :: int
  AnouncementSendMaxNum :: int
  AnouncementExistTime :: int
  DisableTestCommand :: bool

definition get_chat_config_data :: "chat_global \<Rightarrow> int \<Rightarrow> chat_config option" where
  "get_chat_config_data g channel =
     (if channel = CHAT_CHANNEL_WORLD then Some (WorldChatData g)
      else if channel = CHAT_CHANNEL_GUILD then Some (GuildChatData g)
      else if channel = CHAT_CHANNEL_RECRUIT then Some (RecruitChatData g)
      else if channel = CHAT_CHANNEL_SYSTEM then Some (SystemChatData g)
      else None)"

definition get_chat_max_msg_num :: "chat_global \<Rightarrow> int \<Rightarrow> int" where
  "get_chat_max_msg_num g channel =
     (case get_chat_config_data g channel of None \<Rightarrow> 150 | Some c \<Rightarrow> MaxMsgNum c)"

definition get_chat_pull_msg_cooldown :: "chat_global \<Rightarrow> int \<Rightarrow> int" where
  "get_chat_pull_msg_cooldown g channel =
     (case get_chat_config_data g channel of None \<Rightarrow> 30 | Some c \<Rightarrow> PullMsgCooldown c)"

definition get_chat_pull_max_msg_num :: "chat_global \<Rightarrow> int \<Rightarrow> int" where
  "get_chat_pull_max_msg_num g channel =
     (case get_chat_config_data g channel of None \<Rightarrow> 10 | Some c \<Rightarrow> PullMaxMsgNum c)"

definition get_chat_msg_max_bytes :: "chat_global \<Rightarrow> int \<Rightarrow> int" where
  "get_chat_msg_max_bytes g channel =
     (case get_chat_config_data g channel of None \<Rightarrow> 200 | Some c \<Rightarrow> MsgMaxBytes c)"

definition get_chat_msg_exist_minutes :: "chat_global \<Rightarrow> int \<Rightarrow> int" where
  "get_chat_msg_exist_minutes g channel =
     (case get_chat_config_data g channel of None \<Rightarrow> 60 | Some c \<Rightarrow> MsgExistTime c)"

definition get_chat_send_msg_cooldown :: "chat_global \<Rightarrow> int \<Rightarrow> int" where
  "get_chat_send_msg_cooldown g channel =
     (case get_chat_config_data g channel of None \<Rightarrow> 5 | Some c \<Rightarrow> SendMsgCooldown c)"

subsection \<open>Items, lists and the player\<close>

text \<open>What a \<open>ChatItem\<close> and an \<open>AnouncementItem\<close> carry besides the time and the links.\<close>

record chat_item =
  ci_send_player_id :: int
  ci_send_player_name :: string
  ci_send_player_level :: int
  ci_send_player_head :: int
  ci_content :: string
  ci_extra_value :: int

record anouncement_item =
  an_msg_type :: int
  an_player_id :: int
  an_player_name :: string
  an_player_level :: int
  an_param1 :: int
  an_param2 :: int
  an_param3 :: int
  an_text :: string

text \<open>The three managers of the server: \<open>world_chat_mgr\<close>, \<open>system_chat_mgr\<close>, \<open>anouncement_mgr\<close>.\<close>

record chat_mgrs =
  world_chat_mgr :: "chat_item msg_list"
  system_chat_mgr :: "chat_item msg_list"
  anouncement_mgr :: "anouncement_item msg_list"

record chat_data =
  ch_Channel :: int
  ch_LastChatTime :: int
  ch_LastPullTime :: int
  ch_LastMsgIndex :: int

text \<open>The fields of an announcement the client gets: one parameter, under the name its type
  gives it.\<close>

datatype anouncement_detail =
    FosterCardTableId int | BuildingTableId int | FormulaTableId int | SSRCatTableId int
  | RankStage int int | CatFullLevelTableId int | TextContent string | NoDetail

text \<open>Type, player, name, level, time and the detail.\<close>

datatype anouncement_info = AnouncementInfo int int string int int anouncement_detail

datatype chat_message =
    S2CChatResponse int string
  | S2CChatMsgPullResponse int "(int \<times> chat_item) list"
  | S2CAnouncementNotify "anouncement_info list"

record chat_player =
  cp_Id :: int
  cp_Level :: int
  cp_Name :: string
  cp_Head :: int
  cp_Chats :: "chat_data column"
  cp_world_chat_data :: reader
  cp_system_chat_data :: reader
  cp_anouncement_data :: reader
  cp_LastSendTime :: int
  cp_sent :: "chat_message list"

definition chat_Send :: "chat_message \<Rightarrow> chat_player \<Rightarrow> chat_player" where
  "chat_Send msg p = p\<lparr>cp_sent := cp_sent p @ [msg]\<rparr>"

definition empty_chat_item :: chat_item where
  "empty_chat_item = \<lparr> ci_send_player_id = 0, ci_send_player_name = [], ci_send_player_level = 0,
     ci_send_player_head = 0, ci_content = [], ci_extra_value = 0 \<rparr>"

definition empty_anouncement_item :: anouncement_item where
  "empty_anouncement_item = \<lparr> an_msg_type = 0, an_player_id = 0, an_player_name = [],
     an_player_level = 0, an_param1 = 0, an_param2 = 0, an_param3 = 0, an_text = [] \<rparr>"

definition ChatMgr_Init :: "chat_global \<Rightarrow> int \<Rightarrow> chat_item msg_list option" where
  "ChatMgr_Init g channel = list_Init empty_chat_item (get_chat_max_msg_num g channel)"

definition AnouncementMgr_Init :: "chat_global \<Rightarrow> anouncement_item msg_list option" where
  "AnouncementMgr_Init g = list_Init empty_anouncement_item (AnouncementMaxNum g)"

text \<open>The three \<open>Init\<close> calls of \<open>GameServer.Init\<close>.\<close>

definition init_mgrs :: "chat_global \<Rightarrow> chat_mgrs option" where
  "init_mgrs g = do {
     w \<leftarrow> ChatMgr_Init g CHAT_CHANNEL_WORLD;
     s \<leftarrow> ChatMgr_Init g CHAT_CHANNEL_SYSTEM;
     a \<leftarrow> AnouncementMgr_Init g;
     Some \<lparr> world_chat_mgr = w, system_chat_mgr = s, anouncement_mgr = a \<rparr>
   }"

text \<open>\<open>get_chat_mgr\<close> and \<open>get_chat_data\<close> return pointers; the second half of each pair writes
  through it.\<close>

definition get_chat_mgr :: "int \<Rightarrow> chat_mgrs \<Rightarrow> chat_item msg_list option" where
  "get_chat_mgr channel ms =
     (if channel = CHAT_CHANNEL_WORLD then Some (world_chat_mgr ms)
      else if channel = CHAT_CHANNEL_SYSTEM then Some (system_chat_mgr ms)
      else None)"

definition put_chat_mgr :: "int \<Rightarrow> chat_item msg_list \<Rightarrow> chat_mgrs \<Rightarrow> chat_mgrs" where
  "put_chat_mgr channel m ms =
     (if channel = CHAT_CHANNEL_WORLD then ms\<lparr>world_chat_mgr := m\<rparr> else ms\<lparr>system_chat_mgr := m\<rparr>)"

definition get_chat_data :: "int \<Rightarrow> chat_player \<Rightarrow> reader option" where
  "get_chat_data channel p =
     (if channel = CHAT_CHANNEL_WORLD then Some (cp_world_chat_data p)
      else if channel = CHAT_CHANNEL_SYSTEM then Some (cp_system_chat_data p)
      else None)"

definition put_chat_data :: "int \<Rightarrow> reader \<Rightarrow> chat_player \<Rightarrow> chat_player" where
  "put_chat_data channel r p =
     (if channel = CHAT_CHANNEL_WORLD then p\<lparr>cp_world_chat_data := r\<rparr>
      else p\<lparr>cp_system_chat_data := r\<rparr>)"

subsection \<open>The managers\<close>

definition push_chat_msg ::
    "chat_global \<Rightarrow> int \<Rightarrow> int \<Rightarrow> string \<Rightarrow> int \<Rightarrow> int \<Rightarrow> int \<Rightarrow> string \<Rightarrow> int \<Rightarrow>
     chat_item msg_list \<Rightarrow> (bool \<times> chat_item msg_list) option" where
  "push_chat_msg g now_time channel content extra_value player_id player_level player_name player_head m =
     push_msg now_time (get_chat_msg_exist_minutes g channel)
       \<lparr> ci_send_player_id = player_id, ci_send_player_name = player_name,
         ci_send_player_level = player_level, ci_send_player_head = player_head,
         ci_content = content, ci_extra_value = extra_value \<rparr> m"

definition chat_has_new_msg :: "chat_global \<Rightarrow> int \<Rightarrow> int \<Rightarrow> chat_item msg_list \<Rightarrow> chat_player \<Rightarrow> bool option" where
  "chat_has_new_msg g now_time channel m p = (case get_chat_data channel p of
     None \<Rightarrow> Some False
   | Some r \<Rightarrow> has_new_msg now_time (get_chat_msg_exist_minutes g channel) r m)"

definition mgr_pull_chat ::
    "chat_global \<Rightarrow> int \<Rightarrow> int \<Rightarrow> chat_item msg_list \<Rightarrow> chat_player \<Rightarrow> (int \<times> chat_item) list \<times> chat_player" where
  "mgr_pull_chat g now_time channel m p = (case get_chat_data channel p of
     None \<Rightarrow> ([], p)
   | Some r \<Rightarrow>
       let (items, r) = pull_msgs now_time (get_chat_msg_exist_minutes g channel) 50 m r
       in (items, put_chat_data channel r p))"

text \<open>\<open>G2G_Proc.Anouncement\<close>: the answer is the result of the push; a panic is recovered and
  nothing is answered.\<close>

definition G2G_Anouncement ::
    "chat_global \<Rightarrow> int \<Rightarrow> string \<Rightarrow> int \<Rightarrow> chat_mgrs \<Rightarrow> (bool \<times> chat_mgrs) option" where
  "G2G_Anouncement g now_time content remain_seconds ms = do {
     (ok, m) \<leftarrow> push_chat_msg g now_time CHAT_CHANNEL_SYSTEM content remain_seconds 0 0 [] 0 (system_chat_mgr ms);
     Some (ok, ms\<lparr>system_chat_mgr := m\<rparr>)
   }"

subsection \<open>The handlers of a player\<close>

definition chat ::
    "chat_global \<Rightarrow> int \<Rightarrow> int \<Rightarrow> string \<Rightarrow> int \<Rightarrow> chat_player \<Rightarrow> chat_mgrs \<Rightarrow>
     (int \<times> chat_player \<times> chat_mgrs) option" where
  "chat g now_time channel content evalue p ms =
     (if DisableTestCommand g \<and> channel = CHAT_CHANNEL_SYSTEM then Some (-1, p, ms)
      else (case get_chat_mgr channel ms of
        None \<Rightarrow> Some (E_ERR_CHAT_CHANNEL_CANT_GET, p, ms)
      | Some chat_mgr \<Rightarrow>
          let last_chat_time = fst (col_get_field ch_LastChatTime 0 (cp_Chats p) channel)
          in if i32 (now_time - last_chat_time) < get_chat_send_msg_cooldown g channel
             then Some (E_ERR_CHAT_SEND_MSG_COOLING_DOWN, p, ms)
             else if i32 (int (length content)) > get_chat_msg_max_bytes g channel
             then Some (E_ERR_CHAT_SEND_MSG_BYTES_TOO_LONG, p, ms)
             else
               let (lvl, name, extra_value) =
                 (if channel = CHAT_CHANNEL_RECRUIT then (0, [], 0)
                  else if channel = CHAT_CHANNEL_SYSTEM then (0, [], evalue)
                  else (cp_Level p, cp_Name p, 0))
               in do {
                 (ok, m) \<leftarrow> push_chat_msg g now_time channel content extra_value (cp_Id p) lvl name (cp_Head p) chat_mgr;
                 let ms = put_chat_mgr channel m ms;
                 if \<not> ok then Some (E_ERR_CHAT_CANT_SEND_WITH_NO_FREE, p, ms)
                 else
                   let cs = (if \<not> col_HasIndex (cp_Chats p) channel
                             then snd (col_Add channel \<lparr> ch_Channel = channel, ch_LastChatTime = now_time,
                                    ch_LastPullTime = 0, ch_LastMsgIndex = 0 \<rparr> (cp_Chats p))
                             else snd (col_set_field (\<lambda>d. d\<lparr>ch_LastChatTime := now_time\<rparr>) channel (cp_Chats p)))
                   in Some (1, chat_Send (S2CChatResponse channel content) (p\<lparr>cp_Chats := cs\<rparr>), ms)
               }))"

definition pull_and_send ::
    "chat_global \<Rightarrow> chat_item msg_list \<Rightarrow> int \<Rightarrow> int \<Rightarrow> bool \<Rightarrow> chat_player \<Rightarrow> int \<times> chat_player" where
  "pull_and_send g chat_mgr channel now_time empty_is_send p =
     (let (msgs, p) = mgr_pull_chat g now_time channel chat_mgr p
      in if \<not> empty_is_send \<and> msgs = [] then (0, p)
         else
           let cs = (if \<not> col_HasIndex (cp_Chats p) channel
                     then snd (col_Add channel \<lparr> ch_Channel = channel, ch_LastChatTime = 0,
                            ch_LastPullTime = now_time, ch_LastMsgIndex = 0 \<rparr> (cp_Chats p))
                     else snd (col_set_field (\<lambda>d. d\<lparr>ch_LastPullTime := now_time\<rparr>) channel (cp_Chats p)))
           in (1, chat_Send (S2CChatMsgPullResponse channel msgs) (p\<lparr>cp_Chats := cs\<rparr>)))"

definition pull_chat :: "chat_global \<Rightarrow> int \<Rightarrow> int \<Rightarrow> chat_mgrs \<Rightarrow> chat_player \<Rightarrow> int \<times> chat_player" where
  "pull_chat g now_time channel ms p = (case get_chat_mgr channel ms of
     None \<Rightarrow> (E_ERR_CHAT_CHANNEL_CANT_GET, p)
   | Some chat_mgr \<Rightarrow>
       if get_chat_pull_msg_cooldown g channel < 0 then (E_ERR_CHAT_CHANNEL_CANT_GET, p)
       else if i32 (now_time - fst (col_get_field ch_LastPullTime 0 (cp_Chats p) channel))
           < get_chat_pull_msg_cooldown g channel then (0, p)
       else pull_and_send g chat_mgr channel now_time True p)"

definition has_new_chat_msg :: "chat_global \<Rightarrow> int \<Rightarrow> int \<Rightarrow> chat_mgrs \<Rightarrow> chat_player \<Rightarrow> bool option" where
  "has_new_chat_msg g now_time channel ms p = (case get_chat_mgr channel ms of
     None \<Rightarrow> Some False
   | Some chat_mgr \<Rightarrow> chat_has_new_msg g now_time channel chat_mgr p)"

definition check_pull_channel :: "chat_global \<Rightarrow> int \<Rightarrow> chat_mgrs \<Rightarrow> int \<Rightarrow> chat_player \<Rightarrow> chat_player" where
  "check_pull_channel g now_time ms c p = (case get_chat_mgr c ms of
     None \<Rightarrow> p
   | Some chat_mgr \<Rightarrow>
       if get_chat_pull_msg_cooldown g c < 0 then p
       else if i32 (now_time - fst (col_get_field ch_LastPullTime 0 (cp_Chats p) c))
           < get_chat_pull_msg_cooldown g c then p
       else snd (pull_and_send g chat_mgr c now_time False p))"

definition check_and_pull_chat :: "chat_global \<Rightarrow> int \<Rightarrow> chat_mgrs \<Rightarrow> chat_player \<Rightarrow> chat_player" where
  "check_and_pull_chat g now_time ms p =
     fold (check_pull_channel g now_time ms) [CHAT_CHANNEL_WORLD, CHAT_CHANNEL_SYSTEM] p"

definition C2SChat ::
    "chat_global \<Rightarrow> int \<Rightarrow> int \<Rightarrow> string \<Rightarrow> chat_player \<Rightarrow> chat_mgrs \<Rightarrow> (int \<times> chat_player \<times> chat_mgrs) option" where
  "C2SChat g now_time channel content p ms = chat g now_time channel content 0 p ms"

definition C2SChatPullMsg :: "chat_global \<Rightarrow> int \<Rightarrow> int \<Rightarrow> chat_mgrs \<Rightarrow> chat_player \<Rightarrow> int \<times> chat_player" where
  "C2SChatPullMsg g now_time channel ms p =
     (let p = (if channel = CHAT_CHANNEL_WORLD
               then snd (pull_chat g now_time CHAT_CHANNEL_SYSTEM ms p) else p)
      in pull_chat g now_time channel ms p)"

subsection \<open>Announcements\<close>

text \<open>\<open>PushNew\<close>; the branch for \<open>is_broadcast\<close> calls nothing.\<close>

definition PushNew_mgr ::
    "chat_global \<Rightarrow> int \<Rightarrow> int \<Rightarrow> int \<Rightarrow> string \<Rightarrow> int \<Rightarrow> int \<Rightarrow> int \<Rightarrow> int \<Rightarrow> string \<Rightarrow>
     anouncement_item msg_list \<Rightarrow> (bool \<times> anouncement_item msg_list) option" where
  "PushNew_mgr g now_time msg_type player_id player_name player_level param1 param2 param3 text m =
     push_msg now_time (AnouncementExistTime g)
       \<lparr> an_msg_type = msg_type, an_player_id = player_id, an_player_name = player_name,
         an_player_level = player_level, an_param1 = param1, an_param2 = param2,
         an_param3 = param3, an_text = text \<rparr> m"

definition anouncement_detail_of :: "anouncement_item \<Rightarrow> anouncement_detail" where
  "anouncement_detail_of a =
     (if an_msg_type a = 1 then FosterCardTableId (an_param1 a)
      else if an_msg_type a = 2 then BuildingTableId (an_param1 a)
      else if an_msg_type a = 3 then FormulaTableId (an_param1 a)
      else if an_msg_type a = 4 then SSRCatTableId (an_param1 a)
      else if an_msg_type a = 5 then RankStage (an_param1 a) (an_param2 a)
      else if an_msg_type a = 6 then CatFullLevelTableId (an_param1 a)
      else if an_msg_type a = 7 then TextContent (an_text a)
      else NoDetail)"

definition anouncement_info_of :: "int \<times> anouncement_item \<Rightarrow> anouncement_info" where
  "anouncement_info_of x = (case x of (send_time, a) \<Rightarrow>
     AnouncementInfo (an_msg_type a) (an_player_id a) (an_player_name a) (an_player_level a) send_time
       (anouncement_detail_of a))"

definition GetSome ::
    "chat_global \<Rightarrow> int \<Rightarrow> int \<Rightarrow> anouncement_item msg_list \<Rightarrow> chat_player \<Rightarrow>
     anouncement_info list \<times> chat_player" where
  "GetSome g now_time num m p =
     (let (items, r) = pull_msgs now_time (AnouncementExistTime g) num m (cp_anouncement_data p)
      in (map anouncement_info_of items, p\<lparr>cp_anouncement_data := r\<rparr>))"

definition CheckAndAnouncement :: "chat_global \<Rightarrow> int \<Rightarrow> chat_mgrs \<Rightarrow> chat_player \<Rightarrow> int \<times> chat_player" where
  "CheckAndAnouncement g now_time ms p =
     (if i32 (now_time - cp_LastSendTime p) < AnouncementSendCooldown g then (-1, p)
      else
        let (items, p) = GetSome g now_time (AnouncementSendMaxNum g) (anouncement_mgr ms) p
        in (1, if items \<noteq> [] then chat_Send (S2CAnouncementNotify items) (p\<lparr>cp_LastSendTime := now_time\<rparr>) else p))"

subsection \<open>What a player can count on\<close>

text \<open>The row of a channel after a handler has stamped it.\<close>

lemma chat_time_stamped:
  "fst (col_get_field ch_LastChatTime 0
     (if \<not> col_HasIndex cs c then snd (col_Add c \<lparr> ch_Channel = c, ch_LastChatTime = t,
          ch_LastPullTime = 0, ch_LastMsgIndex = 0 \<rparr> cs)
      else snd (col_set_field (\<lambda>d. d\<lparr>ch_LastChatTime := t\<rparr>) c cs)) c) = t"
  by (auto simp: col_get_field_def col_simps split: option.splits)

lemma chat_success:
  assumes "chat g t c content ev p ms = Some (1, q, ms')"
  shows "get_chat_send_msg_cooldown g c \<le> i32 (t - fst (col_get_field ch_LastChatTime 0 (cp_Chats p) c))"
    and "i32 (int (length content)) \<le> get_chat_msg_max_bytes g c"
    and "fst (col_get_field ch_LastChatTime 0 (cp_Chats q) c) = t"
    and "cp_sent q = cp_sent p @ [S2CChatResponse c content]"
    and "c = CHAT_CHANNEL_WORLD \<or> c = CHAT_CHANNEL_SYSTEM"
    and "DisableTestCommand g \<Longrightarrow> c = CHAT_CHANNEL_WORLD"
  using assms chat_time_stamped [of "cp_Chats p" c t]
  by (auto simp: chat_def chat_Send_def get_chat_mgr_def Let_def split: if_splits option.splits bind_splits)

text \<open>
  Property C34. Posting in the world channel never hangs or panics while the list is well formed.
  A player who is cooling down or whose message is too long gets the error and nothing changes;
  otherwise the channel's queue takes the message under the player's id, name, level and head, the
  player gets one response, and no second message of the player is accepted before the cooldown
  has passed.
\<close>

theorem world_chat_spec:
  assumes ok: "list_ok n (world_chat_mgr ms) as" "2 \<le> n"
    and time: "on_time t (MsgExistTime (WorldChatData g)) (contents (world_chat_mgr ms) as)"
  shows "\<exists>r q ms'. chat g t CHAT_CHANNEL_WORLD content ev p ms = Some (r, q, ms')
    \<and> (if i32 (t - fst (col_get_field ch_LastChatTime 0 (cp_Chats p) CHAT_CHANNEL_WORLD))
           < SendMsgCooldown (WorldChatData g)
       then r = E_ERR_CHAT_SEND_MSG_COOLING_DOWN \<and> q = p \<and> ms' = ms
       else if i32 (int (length content)) > MsgMaxBytes (WorldChatData g)
       then r = E_ERR_CHAT_SEND_MSG_BYTES_TOO_LONG \<and> q = p \<and> ms' = ms
       else r = 1 \<and> cp_sent q = cp_sent p @ [S2CChatResponse CHAT_CHANNEL_WORLD content]
         \<and> system_chat_mgr ms' = system_chat_mgr ms \<and> anouncement_mgr ms' = anouncement_mgr ms
         \<and> (\<exists>bs. list_ok n (world_chat_mgr ms') bs
              \<and> contents (world_chat_mgr ms') bs = push_queue n t (MsgExistTime (WorldChatData g))
                  \<lparr> ci_send_player_id = cp_Id p, ci_send_player_name = cp_Name p,
                    ci_send_player_level = cp_Level p, ci_send_player_head = cp_Head p,
                    ci_content = content, ci_extra_value = 0 \<rparr>
                  (contents (world_chat_mgr ms) as))
         \<and> (\<forall>u content' ev' ms''. i32 (u - t) < SendMsgCooldown (WorldChatData g) \<longrightarrow>
              chat g u CHAT_CHANNEL_WORLD content' ev' q ms'' = Some (E_ERR_CHAT_SEND_MSG_COOLING_DOWN, q, ms'')))"
proof -
  let ?item = "\<lparr> ci_send_player_id = cp_Id p, ci_send_player_name = cp_Name p,
    ci_send_player_level = cp_Level p, ci_send_player_head = cp_Head p,
    ci_content = content, ci_extra_value = 0 \<rparr>"
  have cfg: "get_chat_send_msg_cooldown g CHAT_CHANNEL_WORLD = SendMsgCooldown (WorldChatData g)"
    "get_chat_msg_max_bytes g CHAT_CHANNEL_WORLD = MsgMaxBytes (WorldChatData g)"
    "get_chat_msg_exist_minutes g CHAT_CHANNEL_WORLD = MsgExistTime (WorldChatData g)"
    by (simp_all add: get_chat_send_msg_cooldown_def get_chat_msg_max_bytes_def
        get_chat_msg_exist_minutes_def get_chat_config_data_def)
  from push_msg_ok [OF ok time, of ?item] obtain m j a where
    m: "push_msg t (MsgExistTime (WorldChatData g)) ?item (world_chat_mgr ms) = Some (True, m)"
      "list_ok n m (drop j as @ [a])"
      "contents m (drop j as @ [a]) = push_queue n t (MsgExistTime (WorldChatData g)) ?item (contents (world_chat_mgr ms) as)"
    by metis
  have cool: "chat g u CHAT_CHANNEL_WORLD content' ev' q ms'' = Some (E_ERR_CHAT_SEND_MSG_COOLING_DOWN, q, ms'')"
    if "fst (col_get_field ch_LastChatTime 0 (cp_Chats q) CHAT_CHANNEL_WORLD) = t"
      "i32 (u - t) < SendMsgCooldown (WorldChatData g)" for u content' ev' q ms''
    using that cfg(1) by (simp add: chat_def get_chat_mgr_def Let_def)
  show ?thesis
    using m cfg chat_time_stamped [of "cp_Chats p" CHAT_CHANNEL_WORLD t]
    by (simp add: chat_def get_chat_mgr_def put_chat_mgr_def push_chat_msg_def chat_Send_def Let_def)
      (auto intro!: exI [of _ "drop j as @ [a]"] cool)
qed

definition demo_global :: chat_global where
  "demo_global = \<lparr>
     WorldChatData = \<lparr> MaxMsgNum = 200, PullMaxMsgNum = 50, PullMsgCooldown = 3, MsgMaxBytes = 200,
       MsgExistTime = 100, SendMsgCooldown = 10 \<rparr>,
     GuildChatData = \<lparr> MaxMsgNum = 0, PullMaxMsgNum = 0, PullMsgCooldown = 0, MsgMaxBytes = 0,
       MsgExistTime = 0, SendMsgCooldown = 0 \<rparr>,
     RecruitChatData = \<lparr> MaxMsgNum = 0, PullMaxMsgNum = 0, PullMsgCooldown = 0, MsgMaxBytes = 0,
       MsgExistTime = 0, SendMsgCooldown = 0 \<rparr>,
     SystemChatData = \<lparr> MaxMsgNum = 0, PullMaxMsgNum = 0, PullMsgCooldown = 0, MsgMaxBytes = 0,
       MsgExistTime = 0, SendMsgCooldown = 0 \<rparr>,
     AnouncementMaxNum = 1000, AnouncementSendCooldown = 15, AnouncementSendMaxNum = 10,
     AnouncementExistTime = 10, DisableTestCommand = False \<rparr>"

definition demo_chatter :: chat_player where
  "demo_chatter = \<lparr> cp_Id = 9, cp_Level = 3, cp_Name = ''Ann'', cp_Head = 1, cp_Chats = [],
     cp_world_chat_data = new_reader, cp_system_chat_data = new_reader,
     cp_anouncement_data = new_reader, cp_LastSendTime = 0, cp_sent = [] \<rparr>"

text \<open>The shipped \<open>global.json\<close>: the numbers of \<open>demo_global\<close>. It has no \<open>SystemChatData\<close>, so the
  system channel has room for 0 messages and a GM announcement panics.\<close>

lemma demo_mgrs: "\<exists>ms. init_mgrs demo_global = Some ms \<and> list_ok 200 (world_chat_mgr ms) []
    \<and> contents (world_chat_mgr ms) [] = []"
proof -
  from list_ok_empty [of 200 empty_chat_item] obtain w where
    w: "ChatMgr_Init demo_global CHAT_CHANNEL_WORLD = Some w" "list_ok 200 w []" "contents w [] = []"
    by (auto simp: ChatMgr_Init_def get_chat_max_msg_num_def get_chat_config_data_def demo_global_def)
  from list_ok_empty [of 1000 empty_anouncement_item] obtain a where
    a: "AnouncementMgr_Init demo_global = Some a"
    by (auto simp: AnouncementMgr_Init_def demo_global_def)
  obtain s where "ChatMgr_Init demo_global CHAT_CHANNEL_SYSTEM = Some s"
    by (simp add: ChatMgr_Init_def get_chat_max_msg_num_def get_chat_config_data_def demo_global_def
        list_Init_def pool_Init_def)
  with w a show ?thesis by (simp add: init_mgrs_def)
qed

lemma world_chat_spec_witness:
  "\<exists>ms q ms'. init_mgrs demo_global = Some ms
    \<and> chat demo_global 50 CHAT_CHANNEL_WORLD ''hello'' 0 demo_chatter ms = Some (1, q, ms')
    \<and> chat demo_global 55 CHAT_CHANNEL_WORLD ''again'' 0 q ms'
        = Some (E_ERR_CHAT_SEND_MSG_COOLING_DOWN, q, ms')"
proof -
  have i: "i32 50 = 50" "i32 5 = 5" by (simp_all add: i32_def)
  from demo_mgrs obtain ms where
    ms: "init_mgrs demo_global = Some ms" "list_ok 200 (world_chat_mgr ms) []"
      "contents (world_chat_mgr ms) [] = []" by blast
  have t: "on_time 50 (MsgExistTime (WorldChatData demo_global)) (contents (world_chat_mgr ms) [])"
    unfolding ms(3) by (simp add: on_time_def demo_global_def)
  have c: "SendMsgCooldown (WorldChatData demo_global) = 10" "MsgMaxBytes (WorldChatData demo_global) = 200"
    "cp_Chats demo_chatter = []" by (simp_all add: demo_global_def demo_chatter_def)
  from world_chat_spec [OF ms(2) _ t, of "''hello''" 0 demo_chatter] obtain q ms' where
    q: "chat demo_global 50 CHAT_CHANNEL_WORLD ''hello'' 0 demo_chatter ms = Some (1, q, ms')"
      "\<forall>u content' ev' ms''. i32 (u - 50) < 10 \<longrightarrow>
         chat demo_global u CHAT_CHANNEL_WORLD content' ev' q ms'' = Some (E_ERR_CHAT_SEND_MSG_COOLING_DOWN, q, ms'')"
    by (auto simp: c col_get_field_def i)
  from q(2) [rule_format, of 55 "''again''" 0 ms'] have
    "chat demo_global 55 CHAT_CHANNEL_WORLD ''again'' 0 q ms' = Some (E_ERR_CHAT_SEND_MSG_COOLING_DOWN, q, ms')"
    by (simp add: i)
  with ms(1) q(1) show ?thesis by blast
qed

lemma gm_announcement_panics:
  assumes "init_mgrs g = Some ms" "MaxMsgNum (SystemChatData g) = 0"
  shows "G2G_Anouncement g t content s ms = None"
proof -
  have "ChatMgr_Init g CHAT_CHANNEL_SYSTEM = list_Init empty_chat_item 0"
    using assms(2) by (simp add: ChatMgr_Init_def get_chat_max_msg_num_def get_chat_config_data_def)
  with assms(1) have "list_Init empty_chat_item 0 = Some (system_chat_mgr ms)"
    by (auto simp: init_mgrs_def split: bind_splits)
  from no_room_panics [OF this] show ?thesis by (simp add: G2G_Anouncement_def push_chat_msg_def)
qed

lemma shipped_announcements_panic:
  "\<exists>ms. init_mgrs demo_global = Some ms \<and> (\<forall>t content s. G2G_Anouncement demo_global t content s ms = None)"
  using demo_mgrs gm_announcement_panics [of demo_global] by (fastforce simp: demo_global_def)

text \<open>The configured number of messages per pull is never read: the pull shows up to 50.\<close>

lemma pull_ignores_configured_number:
  "mgr_pull_chat (g\<lparr>WorldChatData := (WorldChatData g)\<lparr>PullMaxMsgNum := k\<rparr>\<rparr>) t c m p = mgr_pull_chat g t c m p"
proof -
  have e: "get_chat_msg_exist_minutes (g\<lparr>WorldChatData := (WorldChatData g)\<lparr>PullMaxMsgNum := k\<rparr>\<rparr>) c
      = get_chat_msg_exist_minutes g c"
    by (simp add: get_chat_msg_exist_minutes_def get_chat_config_data_def)
  show ?thesis by (simp only: mgr_pull_chat_def e)
qed

end
