(* ===== verification/Foster.thy ===== *)
theory Foster
  imports Friends Cats Frames
begin

text \<open>
  The foster place (\<open>game_server/player_foster.go\<close>). A player equips a foster card and puts cats into
  his foster place, where they earn the card's rewards over time; cats can also be put into the
  foster place of a friend. The handlers with friends run over the players of this server
  (\<open>player_mgr\<close>); the calls to other servers are commented out in the source, and so are they here.
  A Go map that is built in a handler is a column, whose order stands for the order in which
  \<open>range\<close> visits it.
\<close>

abbreviation (input) E_ERR_FOSTER_COMPOSE_NOT_ENOUGH_CARD :: int where "E_ERR_FOSTER_COMPOSE_NOT_ENOUGH_CARD \<equiv> - 102100"
abbreviation (input) E_ERR_FOSTER_COMPOSE_CARD_INVALID :: int where "E_ERR_FOSTER_COMPOSE_CARD_INVALID \<equiv> - 102101"
abbreviation (input) E_ERR_FOSTER_COMPOSE_TYPE_INVALID :: int where "E_ERR_FOSTER_COMPOSE_TYPE_INVALID \<equiv> - 102102"
abbreviation (input) E_ERR_FOSTER_NOT_ENOUGH_SPACE_TO_SET_CAT :: int where "E_ERR_FOSTER_NOT_ENOUGH_SPACE_TO_SET_CAT \<equiv> - 102104"
abbreviation (input) E_ERR_FOSTER_NO_SUCH_CAT_IN_FOSTER :: int where "E_ERR_FOSTER_NO_SUCH_CAT_IN_FOSTER \<equiv> - 102105"
abbreviation (input) E_ERR_FOSTER_FRIEND_NO_SPACE_TO_FOSTER :: int where "E_ERR_FOSTER_FRIEND_NO_SPACE_TO_FOSTER \<equiv> - 102107"
abbreviation (input) E_ERR_FOSTER_ALREADY_CAT_IN_THE_FRIEND :: int where "E_ERR_FOSTER_ALREADY_CAT_IN_THE_FRIEND \<equiv> - 102108"
abbreviation (input) E_ERR_FOSTER_EQUIP_NEW_CARD_MUST_UNEQUIP_OLD :: int where "E_ERR_FOSTER_EQUIP_NEW_CARD_MUST_UNEQUIP_OLD \<equiv> - 102109"
abbreviation (input) E_ERR_FOSTER_UNEQUIP_NO_EQUIP_CARD :: int where "E_ERR_FOSTER_UNEQUIP_NO_EQUIP_CARD \<equiv> - 102110"
abbreviation (input) E_ERR_FOSTER_MAX_FRIEND_NUM_TO_FOSTER :: int where "E_ERR_FOSTER_MAX_FRIEND_NUM_TO_FOSTER \<equiv> - 102114"
abbreviation (input) TASK_COMPLETE_TYPE_GET_EXP_BY_FOSTER :: int where "TASK_COMPLETE_TYPE_GET_EXP_BY_FOSTER \<equiv> 107"
abbreviation (input) E_ERR_ITEM_TABLE_DATA_NOT_FOUND :: int where "E_ERR_ITEM_TABLE_DATA_NOT_FOUND \<equiv> - 101000"
abbreviation (input) E_ERR_CARD_ITEM_NUM_NOT_ENOUGH :: int where "E_ERR_CARD_ITEM_NUM_NOT_ENOUGH \<equiv> - 101002"
abbreviation (input) ITEM_RESOURCE_ID_CAT_EXP :: int where "ITEM_RESOURCE_ID_CAT_EXP \<equiv> 13"
abbreviation (input) FOSTER_CAT_MAX_NUM :: int where "FOSTER_CAT_MAX_NUM \<equiv> 6"
abbreviation (input) COMPOSE_FOSTER_CARD_NUM :: int where "COMPOSE_FOSTER_CARD_NUM \<equiv> 3"

subsection \<open>Settling\<close>

definition foster_build_self_cats_msg ::
    "int list \<Rightarrow> int list option \<Rightarrow> int column list option \<Rightarrow> foster_cat_info list" where
  "foster_build_self_cats_msg cat_ids cat_exps cat_items =
     map (\<lambda>i. \<lparr>fci_CatId = cat_ids ! i,
          fci_CatExp = (case cat_exps of None \<Rightarrow> 0 | Some xs \<Rightarrow> xs ! i),
          fci_Items = (case cat_items of None \<Rightarrow> [] | Some xs \<Rightarrow> xs ! i),
          fci_StartTime = 0\<rparr>) [0..<length cat_ids]"

definition get_foster_card_remain_seconds :: "env \<Rightarrow> int \<Rightarrow> int \<Rightarrow> int" where
  "get_foster_card_remain_seconds e card_id card_start_time = (case foster_map e card_id of
     None \<Rightarrow> 0
   | Some foster_card \<Rightarrow> GetRemainSeconds e card_start_time (fo_FosterTime foster_card))"

definition GetCardRemainSeconds :: "env \<Rightarrow> player \<Rightarrow> int" where
  "GetCardRemainSeconds e p =
     get_foster_card_remain_seconds e (fs_EquippedCardId (p_Foster p)) (fs_StartTime (p_Foster p))"

definition CheckAndAddCat :: "env \<Rightarrow> int \<Rightarrow> player \<Rightarrow> int \<times> player" where
  "CheckAndAddCat e cat_id p =
     (if int (length (p_FosterCats p)) \<ge> FOSTER_CAT_MAX_NUM then (E_ERR_FOSTER_NOT_ENOUGH_SPACE_TO_SET_CAT, p)
      else (1, p\<lparr>p_FosterCats := AList.update cat_id
          \<lparr>fc_CatId = cat_id, fc_StartTime = i32 (now e), fc_RemainSeconds = 0\<rparr> (p_FosterCats p)\<rparr>))"

text \<open>
  \<open>dbPlayerFosterCatColumn.Settlement\<close>. The results are made while the loop goes: the slices of
  experience and items appear with the first reward of their kind, one entry for every cat.
  Experience is assigned, items are added up. A cat with a start in the future is skipped without
  counting: the next cat takes its place in \<open>cat_ids\<close>.
\<close>

type_synonym settled = "int list \<times> int list option \<times> int column list option"

fun settle_rewards :: "xml_foster \<Rightarrow> int \<Rightarrow> nat \<Rightarrow> int list \<Rightarrow> settled \<Rightarrow> settled option" where
  "settle_rewards crd use_time i (k # n # rewards) (cat_ids, cat_exps, cat_items) = do {
     num \<leftarrow> quot32 (i32 (n * use_time)) (fo_FosterTime crd);
     settle_rewards crd use_time i rewards
       (if k = ITEM_RESOURCE_ID_CAT_EXP then
          (cat_ids, Some ((case cat_exps of None \<Rightarrow> replicate (length cat_ids) 0 | Some xs \<Rightarrow> xs)[i := num]), cat_items)
        else
          let xs = (case cat_items of None \<Rightarrow> replicate (length cat_ids) [] | Some xs \<Rightarrow> xs)
          in (cat_ids, cat_exps, Some (xs[i := AList.update k (i32 (fst (col_get_field (\<lambda>x. x) 0 (xs ! i) k) + num)) (xs ! i)])))
   }"
| "settle_rewards crd use_time i rewards r = Some r"

definition foster_use_time :: "env \<Rightarrow> xml_foster \<Rightarrow> int \<Rightarrow> int \<Rightarrow> int" where
  "foster_use_time e crd card_start_time start_time =
     (let use_time = (if card_start_time > start_time then i32 (i32 (now e) - card_start_time)
                      else i32 (i32 (now e) - start_time))
      in if use_time > fo_FosterTime crd then fo_FosterTime crd else use_time)"

fun settle_cats :: "env \<Rightarrow> bool \<Rightarrow> int \<Rightarrow> xml_foster option \<Rightarrow> foster_cat_data column \<Rightarrow> nat \<Rightarrow> settled \<Rightarrow>
    (foster_cat_data column \<times> settled) option" where
  "settle_cats e is_settle card_start_time crd [] i r = Some ([], r)"
| "settle_cats e is_settle card_start_time crd ((k, v) # cats) i (cat_ids, cat_exps, cat_items) =
     (let r = (cat_ids[i := k], cat_exps, cat_items)
      in case crd of
        None \<Rightarrow> do {
          (cats, r) \<leftarrow> settle_cats e is_settle card_start_time crd cats (Suc i) r;
          Some ((k, v) # cats, r)
        }
      | Some c \<Rightarrow>
          let use_time = foster_use_time e c card_start_time (fc_StartTime v)
          in if (if card_start_time > fc_StartTime v then i32 (i32 (now e) - card_start_time)
                 else i32 (i32 (now e) - fc_StartTime v)) < 0
             then do {
               (cats, r) \<leftarrow> settle_cats e is_settle card_start_time crd cats i r;
               Some ((k, v) # cats, r)
             }
             else do {
               r \<leftarrow> settle_rewards c use_time i (fo_Rewards c) r;
               (cats, r) \<leftarrow> settle_cats e is_settle card_start_time crd cats (Suc i) r;
               Some ((k, if is_settle then v\<lparr>fc_StartTime := i32 (now e)\<rparr> else v) # cats, r)
             })"

definition FosterCats_Settlement :: "env \<Rightarrow> bool \<Rightarrow> int \<Rightarrow> xml_foster option \<Rightarrow> player \<Rightarrow> (settled \<times> player) option" where
  "FosterCats_Settlement e is_settle card_start_time crd p = do {
     (cats, r) \<leftarrow> settle_cats e is_settle card_start_time crd (p_FosterCats p) 0
       (replicate (length (p_FosterCats p)) 0, None, None);
     Some (r, p\<lparr>p_FosterCats := cats\<rparr>)
   }"

text \<open>\<open>dbPlayerFosterFriendCatColumn.Settlement\<close>. Its loop counts to the length of the rewards and
  reads the places \<open>2*i\<close> and \<open>2*i+1\<close>.\<close>

fun friend_rewards :: "int list \<Rightarrow> nat list \<Rightarrow> int \<times> int column option \<Rightarrow> (int \<times> int column option) option" where
  "friend_rewards rewards [] r = Some r"
| "friend_rewards rewards (i # is) (cat_exp, items) = do {
     k \<leftarrow> go_nth rewards (2 * int i);
     num \<leftarrow> go_nth rewards (2 * int i + 1);
     friend_rewards rewards is
       (if k = ITEM_RESOURCE_ID_CAT_EXP then (i32 (cat_exp + num), items)
        else (cat_exp, Some (AList.update k num (case items of None \<Rightarrow> [] | Some m \<Rightarrow> m))))
   }"

definition FosterFriendCats_Settlement :: "env \<Rightarrow> int \<Rightarrow> player \<Rightarrow> (int \<times> int \<times> int column option) option" where
  "FosterFriendCats_Settlement e friend_id p = (case map_of (p_FosterFriendCats p) friend_id of
     None \<Rightarrow> Some (-1, 0, None)
   | Some d \<Rightarrow> (case foster_map e (ff_StartCardId d) of
       None \<Rightarrow> Some (-1, 0, None)
     | Some crd \<Rightarrow>
         let used_time = i32 (i32 (now e) - ff_StartTime d);
             foster_time = i32 (gc_FriendFosterHours (config e) * 3600)
         in if used_time \<ge> foster_time then do {
              (cat_exp, items) \<leftarrow> friend_rewards (fo_Rewards crd) [0..<length (fo_Rewards crd)] (0, None);
              Some (0, cat_exp, items)
            }
            else Some (i32 (foster_time - used_time), 0, None)))"

definition CheckAndAddFriendCat ::
    "env \<Rightarrow> int \<Rightarrow> int \<Rightarrow> string \<Rightarrow> int \<Rightarrow> int \<Rightarrow> int \<Rightarrow> int \<Rightarrow> int \<Rightarrow> int \<Rightarrow> xml_foster option \<Rightarrow> player \<Rightarrow> int \<times> player" where
  "CheckAndAddFriendCat e friend_id friend_level friend_name friend_head cat_id cat_table_id cat_level cat_star
       foster_friend_num crd p =
     (if i32 (int (length (p_FosterFriendCats p))) \<ge> foster_friend_num then (E_ERR_FOSTER_FRIEND_NO_SPACE_TO_FOSTER, p)
      else if map_of (p_FosterFriendCats p) friend_id \<noteq> None then (E_ERR_FOSTER_ALREADY_CAT_IN_THE_FRIEND, p)
      else (1, p\<lparr>p_FosterFriendCats := AList.update friend_id
          \<lparr>ff_PlayerId = friend_id, ff_CatId = cat_id, ff_CatTableId = cat_table_id, ff_StartTime = i32 (now e),
           ff_StartCardId = (case crd of None \<Rightarrow> 0 | Some c \<Rightarrow> fo_Id c), ff_PlayerName = friend_name,
           ff_PlayerLevel = friend_level, ff_PlayerHead = friend_head, ff_CatLevel = cat_level,
           ff_CatStar = cat_star, ff_CatNick = []\<rparr> (p_FosterFriendCats p)\<rparr>))"

definition fostered_slot_num_for_friend :: "env \<Rightarrow> player \<Rightarrow> int" where
  "fostered_slot_num_for_friend e p = (case level_map e (p_Level p) of None \<Rightarrow> 0 | Some l \<Rightarrow> lv_FosteredSlot l)"

definition foster_slot_num_to_friend :: "env \<Rightarrow> player \<Rightarrow> int" where
  "foster_slot_num_to_friend e p = (case level_map e (p_Level p) of None \<Rightarrow> 0 | Some l \<Rightarrow> lv_FosterSlot l)"

definition send_foster_self_data :: "env \<Rightarrow> foster_cat_info list \<Rightarrow> player \<Rightarrow> player" where
  "send_foster_self_data e self_cats p = Send_msg (S2CPullFosterDataResult (p_FosterBuildingId p)
     (fs_EquippedCardId (p_Foster p)) (GetCardRemainSeconds e p) self_cats) p"

subsection \<open>The own cats\<close>

definition clear_card :: "player \<Rightarrow> player" where
  "clear_card p = p\<lparr>p_Foster := \<lparr>fs_EquippedCardId = 0, fs_StartTime = 0\<rparr>\<rparr>"

fun feed_settled :: "env \<Rightarrow> (int \<times> int) list \<Rightarrow> player \<Rightarrow> player" where
  "feed_settled e [] p = p"
| "feed_settled e ((cat_id, cat_exp) # xs) p = feed_settled e xs (snd (feed_cat e cat_id 0 cat_exp p))"

fun add_settled :: "env \<Rightarrow> (int \<times> int) list \<Rightarrow> player \<Rightarrow> player option" where
  "add_settled e [] p = Some p"
| "add_settled e ((k, v) # xs) p = do { (_, p) \<leftarrow> AddItemResource e k v p; add_settled e xs p }"

definition foster_settlement_self_cats ::
    "env \<Rightarrow> bool \<Rightarrow> bool \<Rightarrow> bool \<Rightarrow> player \<Rightarrow> ((foster_cat_info list \<times> (int \<times> int) list) \<times> player) option" where
  "foster_settlement_self_cats e is_settle get_cats_msg get_rewards_msg p =
     (let p = (if GetCardRemainSeconds e p \<le> 0 then clear_card p else p);
          crd = foster_map e (fs_EquippedCardId (p_Foster p))
      in do {
        ((cat_ids, cat_exps, cat_items), p) \<leftarrow> FosterCats_Settlement e is_settle (fs_StartTime (p_Foster p)) crd p;
        if cat_ids = [] then Some (([], []), p)
        else do {
          let p = (case cat_exps of
              Some xs \<Rightarrow> if is_settle
                then TaskUpdate e TASK_COMPLETE_TYPE_GET_EXP_BY_FOSTER False 0 1 (feed_settled e (zip cat_ids xs) p) else p
            | None \<Rightarrow> p);
          p \<leftarrow> (case cat_items of
              Some xs \<Rightarrow> if is_settle then map_option SendItemsUpdate (add_settled e (concat xs) p) else Some p
            | None \<Rightarrow> Some p);
          let rewards = (case cat_items of Some xs \<Rightarrow> if get_rewards_msg then concat xs else [] | None \<Rightarrow> []);
          let self_cats = (if get_cats_msg
            then map (\<lambda>c. c\<lparr>fci_StartTime := fst (col_get_field fc_StartTime 0 (p_FosterCats p) (fci_CatId c))\<rparr>)
                   (foster_build_self_cats_msg cat_ids cat_exps cat_items)
            else []);
          Some ((self_cats, rewards), p)
        }
      })"

definition foster_data_pull :: "env \<Rightarrow> bool \<Rightarrow> player \<Rightarrow> (int \<times> player) option" where
  "foster_data_pull e is_settle p = do {
     ((self_cats, _), p) \<leftarrow> foster_settlement_self_cats e is_settle True False p;
     Some (1, send_foster_self_data e self_cats p)
   }"

definition foster_equip_card :: "env \<Rightarrow> int \<Rightarrow> int \<Rightarrow> player \<Rightarrow> int \<times> player" where
  "foster_equip_card e building_id card_id p =
     (if fs_EquippedCardId (p_Foster p) > 0 then (E_ERR_FOSTER_EQUIP_NEW_CARD_MUST_UNEQUIP_OLD, p)
      else if item_map e card_id = None then (E_ERR_ITEM_TABLE_DATA_NOT_FOUND, p)
      else case GetItemNum p card_id of (num, ok) \<Rightarrow>
        if \<not> ok \<or> num < 1 then (E_ERR_CARD_ITEM_NUM_NOT_ENOUGH, p)
        else (1, Send_msg (S2CFosterEquipCardResult building_id card_id
               (get_foster_card_remain_seconds e card_id (i32 (now e))))
             (p\<lparr>p_Foster := \<lparr>fs_EquippedCardId = card_id, fs_StartTime = i32 (now e)\<rparr>\<rparr>)))"

definition foster_unequip_card :: "env \<Rightarrow> int \<Rightarrow> player \<Rightarrow> (int \<times> player) option" where
  "foster_unequip_card e building_id p =
     (if fs_EquippedCardId (p_Foster p) \<le> 0 then Some (E_ERR_FOSTER_UNEQUIP_NO_EQUIP_CARD, p)
      else do {
        ((self_cats, _), p) \<leftarrow> foster_settlement_self_cats e True True False p;
        let p = Send_msg (S2CFosterUnequipCardResult building_id) (clear_card p);
        Some (1, send_foster_self_data e self_cats p)
      })"

definition foster_set_cat :: "env \<Rightarrow> int \<Rightarrow> int \<Rightarrow> player \<Rightarrow> (int \<times> player) option" where
  "foster_set_cat e building_id cat_id p =
     (if IfCatBusy p cat_id then Some (E_ERR_CAT_IS_BUSY, p)
      else case CheckAndAddCat e cat_id p of (res, p) \<Rightarrow>
        if res < 0 then Some (res, p)
        else do {
          let p = Send_msg (S2CFosterSetCatResult building_id cat_id) (SendCatUpdate cat_id p);
          (_, p) \<leftarrow> foster_data_pull e False p;
          Some (1, p)
        })"

definition foster_out_cat :: "env \<Rightarrow> int \<Rightarrow> int \<Rightarrow> player \<Rightarrow> (int \<times> player) option" where
  "foster_out_cat e building_id cat_id p =
     (if \<not> col_HasIndex (p_FosterCats p) cat_id then Some (E_ERR_FOSTER_NO_SUCH_CAT_IN_FOSTER, p)
      else do {
        let p = SendCatUpdate cat_id (p\<lparr>p_FosterCats := col_Remove cat_id (p_FosterCats p)\<rparr>);
        (_, p) \<leftarrow> foster_data_pull e False (Send_msg (S2CFosterOutCatResult building_id cat_id) p);
        Some (1, p)
      })"

subsection \<open>Composing cards\<close>

text \<open>\<open>rand.Seed\<close> with the time and the id of the player restarts the sequence of draws, which is
  arbitrary here anyway.\<close>

definition draw31n :: "env \<Rightarrow> int \<Rightarrow> player \<Rightarrow> (int \<times> player) option" where
  "draw31n e n p = do { r \<leftarrow> Int31n e (p_ndraws p) n; Some (r, p\<lparr>p_ndraws := Suc (p_ndraws p)\<rparr>) }"

text \<open>The sum of the weights of a list of values and weights, and the choice of one.\<close>

fun weight_sum :: "int list \<Rightarrow> int" where
  "weight_sum (v # w # xs) = i32 (w + weight_sum xs)"
| "weight_sum xs = 0"

fun pick_pair :: "int list \<Rightarrow> int \<Rightarrow> (int \<times> int) option" where
  "pick_pair (v # w # xs) r = (if w > r then Some (v, w) else pick_pair xs (i32 (r - w)))"
| "pick_pair xs r = None"

fun pick_type :: "(int \<times> int) list \<Rightarrow> int \<Rightarrow> int" where
  "pick_type [] rw = 0"
| "pick_type ((t, w) # xs) rw = (if rw < w then t else pick_type xs (i32 (rw - w)))"

text \<open>One card: its type with the weight, and its score; \<open>Inl\<close> is the early return.\<close>

fun compose_cards :: "env \<Rightarrow> int list \<Rightarrow> player \<Rightarrow> ((int + (int \<times> int \<times> int) list) \<times> player) option" where
  "compose_cards e [] p = Some (Inr [], p)"
| "compose_cards e (c # cs) p = (case foster_map e c of
     None \<Rightarrow> Some (Inl E_ERR_FOSTER_COMPOSE_CARD_INVALID, p)
   | Some f \<Rightarrow> do {
       (rw, p) \<leftarrow> draw31n e (weight_sum (fo_FusionTypeWeights f)) p;
       let (t, w) = (case pick_pair (fo_FusionTypeWeights f) rw of None \<Rightarrow> (0, 0) | Some x \<Rightarrow> x);
       (rg, p) \<leftarrow> draw31n e (weight_sum (fo_FusionScores f)) p;
       let s = (case pick_pair (fo_FusionScores f) rg of None \<Rightarrow> 0 | Some (v, _) \<Rightarrow> v);
       (r, p) \<leftarrow> compose_cards e cs p;
       Some (case r of Inl err \<Rightarrow> Inl err | Inr xs \<Rightarrow> Inr ((t, w, s) # xs), p)
     })"

fun hit_card :: "xml_foster list \<Rightarrow> int \<Rightarrow> int option" where
  "hit_card [] score = Some 0"
| "hit_card (c # cs) score = do {
     lo \<leftarrow> go_nth (fo_BeHitScores c) 0;
     if score \<ge> lo then do {
       hi \<leftarrow> go_nth (fo_BeHitScores c) 1;
       if score \<le> hi then Some (fo_Id c) else hit_card cs score
     }
     else hit_card cs score
   }"

definition compose_foster_card :: "env \<Rightarrow> int list \<Rightarrow> player \<Rightarrow> (int \<times> player) option" where
  "compose_foster_card e card_ids p =
     (if int (length card_ids) < COMPOSE_FOSTER_CARD_NUM then Some (E_ERR_FOSTER_COMPOSE_NOT_ENOUGH_CARD, p)
      else if list_ex (\<lambda>c. item_map e c = None) card_ids then Some (E_ERR_ITEM_TABLE_DATA_NOT_FOUND, p)
      else if list_ex (\<lambda>k. case GetItemNum p k of (num, ok) \<Rightarrow> \<not> ok \<or> num < i32 (int (count_list card_ids k))) card_ids
      then Some (E_ERR_FOSTER_COMPOSE_NOT_ENOUGH_CARD, p)
      else do {
        (r, p) \<leftarrow> compose_cards e card_ids p;
        case r of
          Inl err \<Rightarrow> Some (err, p)
        | Inr picks \<Rightarrow> do {
            (rw, p) \<leftarrow> draw31n e (fold (\<lambda>(_, w, _) a. i32 (a + w)) picks 0) p;
            let the_type = pick_type (map (\<lambda>(t, w, _). (t, w)) picks) rw;
            let the_score = fold (\<lambda>(_, _, s) a. i32 (a + s)) picks 0;
            case foster_types e the_type of
              None \<Rightarrow> Some (E_ERR_FOSTER_COMPOSE_TYPE_INVALID, p)
            | Some titems \<Rightarrow> do {
                dest_card \<leftarrow> hit_card titems the_score;
                if dest_card = 0 then Some (-1, p)
                else
                  let p = fold (\<lambda>c p. snd (RemoveItem e c 1 True p)) card_ids p;
                      p = SendItemsUpdate (snd (AddItem e dest_card 1 True p))
                  in Some (1, Send_msg (S2CFosterCardComposeResult card_ids dest_card) p)
              }
          }
      })"

subsection \<open>Friends\<close>

definition settlement_from_friend_foster :: "env \<Rightarrow> int \<Rightarrow> int \<Rightarrow> int column option \<Rightarrow> player \<Rightarrow> player option" where
  "settlement_from_friend_foster e cat_id cat_exp items p =
     (let p = (if cat_exp > 0 then snd (feed_cat e cat_id 0 cat_exp p) else p)
      in case items of None \<Rightarrow> Some p | Some m \<Rightarrow> add_settled e m p)"

definition foster_build_friends_cats_msg :: "int \<Rightarrow> int \<Rightarrow> player \<Rightarrow> fostered_friend_cat_info" where
  "foster_build_friends_cats_msg friend_id remain_seconds p =
     \<lparr>ffi_CatTableId = fst (col_get_field ff_CatTableId 0 (p_FosterFriendCats p) friend_id),
      ffi_CatLevel = fst (col_get_field ff_CatLevel 0 (p_FosterFriendCats p) friend_id),
      ffi_CatStar = fst (col_get_field ff_CatStar 0 (p_FosterFriendCats p) friend_id),
      ffi_CatNick = fst (col_get_field ff_CatNick [] (p_FosterFriendCats p) friend_id),
      ffi_FriendId = friend_id,
      ffi_FriendName = fst (col_get_field ff_PlayerName [] (p_FosterFriendCats p) friend_id),
      ffi_FriendLevel = fst (col_get_field ff_PlayerLevel 0 (p_FosterFriendCats p) friend_id),
      ffi_FriendHead = fst (col_get_field ff_PlayerHead 0 (p_FosterFriendCats p) friend_id),
      ffi_StartCardId = fst (col_get_field ff_StartCardId 0 (p_FosterFriendCats p) friend_id),
      ffi_RemainSeconds = remain_seconds\<rparr>"

text \<open>\<open>known k\<close> is whether \<open>GetPlayerById k\<close> finds a player. What a friend's cat has earned is given
  to \<open>this\<close>, the owner of the foster place.\<close>

fun settle_friends :: "env \<Rightarrow> (int \<Rightarrow> bool) \<Rightarrow> int list \<Rightarrow> player \<Rightarrow> (fostered_friend_cat_info list \<times> player) option" where
  "settle_friends e known [] p = Some ([], p)"
| "settle_friends e known (fid # fids) p = do {
     let cat_id = fst (col_get_field ff_CatId 0 (p_FosterFriendCats p) fid);
     (remain_seconds, cat_exp, items) \<leftarrow> FosterFriendCats_Settlement e fid p;
     if remain_seconds < 0 then settle_friends e known fids p
     else if remain_seconds \<le> 0 then do {
       p \<leftarrow> (if known fid then map_option SendItemsUpdate (settlement_from_friend_foster e cat_id cat_exp items p)
             else Some p);
       settle_friends e known fids (p\<lparr>p_FosterFriendCats := col_Remove fid (p_FosterFriendCats p)\<rparr>)
     }
     else do {
       let d = foster_build_friends_cats_msg fid remain_seconds p;
       (ds, p) \<leftarrow> settle_friends e known fids p;
       Some (d # ds, p)
     }
   }"

definition foster_settlement_friends_cat ::
    "env \<Rightarrow> (int \<Rightarrow> bool) \<Rightarrow> player \<Rightarrow> (fostered_friend_cat_info list \<times> player) option" where
  "foster_settlement_friends_cat e known p = settle_friends e known (col_GetAllIndex (p_FosterFriendCats p)) p"

text \<open>The answer about a cat at a friend. The items of the answer are all written to its first place.\<close>

definition first_place_items :: "int column \<Rightarrow> (int \<times> int) option list" where
  "first_place_items items = (case rev items of [] \<Rightarrow> []
     | x # _ \<Rightarrow> Some x # replicate (length items - 1) None)"

fun pull_from_friends :: "env \<Rightarrow> int \<Rightarrow> int column \<Rightarrow> players \<Rightarrow> (foster_cat_in_friend_info list \<times> players) option" where
  "pull_from_friends e my_id [] ps = Some ([], ps)"
| "pull_from_friends e my_id ((cat_id, friend_id) # cats) ps = do {
     (d, ps) \<leftarrow> (case ps friend_id of
         None \<Rightarrow> Some (\<lparr>fif_CatId = cat_id, fif_FriendId = friend_id, fif_FriendLevel = 0, fif_FriendHead = 0,
             fif_FriendName = [], fif_StartCardId = 0, fif_RemainSeconds = 0, fif_CatExp = 0, fif_Items = []\<rparr>, ps)
       | Some friend \<Rightarrow> do {
           (remain_seconds, cat_exp, items) \<leftarrow> FosterFriendCats_Settlement e my_id friend;
           let ps' = (if remain_seconds \<le> 0
             then ps(friend_id \<mapsto> friend\<lparr>p_FosterFriendCats := col_Remove my_id (p_FosterFriendCats friend)\<rparr>) else ps);
           Some (\<lparr>fif_CatId = cat_id, fif_FriendId = friend_id, fif_FriendLevel = p_Level friend,
             fif_FriendHead = i_Head (p_Info friend), fif_FriendName = p_Name friend,
             fif_StartCardId = fst (col_get_field ff_StartCardId 0 (p_FosterFriendCats friend) my_id),
             fif_RemainSeconds = remain_seconds, fif_CatExp = cat_exp,
             fif_Items = (case items of None \<Rightarrow> [] | Some m \<Rightarrow> first_place_items m)\<rparr>, ps')
         });
     (ds, ps) \<leftarrow> pull_from_friends e my_id cats ps;
     Some (d # ds, ps)
   }"

definition foster_pull_cats_from_friend :: "env \<Rightarrow> int \<Rightarrow> players \<Rightarrow> (foster_cat_in_friend_info list \<times> players) option" where
  "foster_pull_cats_from_friend e my_id ps = do {
     p \<leftarrow> ps my_id;
     pull_from_friends e my_id (p_FosterCatOnFriends p) ps
   }"

definition foster_data_pull_with_friend :: "env \<Rightarrow> int \<Rightarrow> players \<Rightarrow> (int \<times> players) option" where
  "foster_data_pull_with_friend e my_id ps = do {
     p \<leftarrow> ps my_id;
     (friend_cats, p) \<leftarrow> foster_settlement_friends_cat e (\<lambda>k. ps k \<noteq> None) p;
     (cats_in_friend, ps) \<leftarrow> foster_pull_cats_from_friend e my_id (ps(my_id \<mapsto> p));
     Some (1, upd_player my_id (\<lambda>p. Send_msg (S2CPullFosterCatsWithFriendResult friend_cats cats_in_friend
       (foster_slot_num_to_friend e p) (fostered_slot_num_for_friend e p)) p) ps)
   }"

definition add_friend_cat_in_foster ::
    "env \<Rightarrow> int \<Rightarrow> int \<Rightarrow> string \<Rightarrow> int \<Rightarrow> int \<Rightarrow> int \<Rightarrow> int \<Rightarrow> int \<Rightarrow> player \<Rightarrow> int \<times> player" where
  "add_friend_cat_in_foster e friend_id friend_level friend_name friend_head cat_id cat_table_id cat_level cat_star p =
     CheckAndAddFriendCat e friend_id friend_level friend_name friend_head cat_id cat_table_id cat_level cat_star
       (fostered_slot_num_for_friend e p) (foster_map e (fs_EquippedCardId (p_Foster p))) p"

definition foster_set_cat_friend :: "env \<Rightarrow> int \<Rightarrow> int \<Rightarrow> int \<Rightarrow> players \<Rightarrow> (int \<times> players) option" where
  "foster_set_cat_friend e my_id friend_id cat_id ps = do {
     p \<leftarrow> ps my_id;
     if foster_slot_num_to_friend e p \<le> col_NumAll (p_FosterCatOnFriends p)
     then Some (E_ERR_FOSTER_MAX_FRIEND_NUM_TO_FOSTER, ps)
     else if \<not> col_HasIndex (p_Cats p) cat_id then Some (E_ERR_CAT_NOT_FOUND, ps)
     else if IfCatBusy p cat_id then Some (E_ERR_CAT_IS_BUSY, ps)
     else if col_HasIndex (p_FosterCatOnFriends p) friend_id then Some (E_ERR_FOSTER_ALREADY_CAT_IN_THE_FRIEND, ps)
     else do {
       (res, ps) \<leftarrow> (case ps friend_id of
           None \<Rightarrow> Some (1, ps)
         | Some friend \<Rightarrow> do {
             (_, friend) \<leftarrow> foster_settlement_friends_cat e (\<lambda>k. ps k \<noteq> None) friend;
             let ps = ps(friend_id \<mapsto> friend);
             p \<leftarrow> ps my_id;
             let (res, friend) = add_friend_cat_in_foster e my_id (p_Level p) (p_Name p) (i_Head (p_Info p)) cat_id
               (fst (col_get_field cat_CfgId 0 (p_Cats p) cat_id)) (fst (col_get_field cat_Level 0 (p_Cats p) cat_id))
               (fst (col_get_field cat_Star 0 (p_Cats p) cat_id)) friend;
             Some (res, ps(friend_id \<mapsto> friend))
           });
       if res < 0 then Some (res, ps)
       else Some (1, upd_player my_id (\<lambda>p.
         let p = p\<lparr>p_FosterCatOnFriends := snd (col_Add cat_id friend_id (p_FosterCatOnFriends p))\<rparr>
         in Send_msg (S2CFosterSetCat2FriendResult friend_id cat_id) (SendCatUpdate cat_id p)) ps)
     }
   }"

definition foster_has_empty_slot_for_friend :: "env \<Rightarrow> int \<Rightarrow> player \<Rightarrow> bool" where
  "foster_has_empty_slot_for_friend e friend_id p =
     (if col_HasIndex (p_FosterFriendCats p) friend_id then False
      else if col_NumAll (p_FosterFriendCats p) \<ge> fostered_slot_num_for_friend e p then False
      else True)"

definition GetFriendInfoMsg :: "int \<Rightarrow> player \<Rightarrow> friend_info option" where
  "GetFriendInfoMsg friend_id p = map_option (\<lambda>d. \<lparr>fi_PlayerId = fr_FriendId d,
     fi_Name = fr_FriendName d, fi_Head = fr_Head d, fi_Level = fr_Level d, fi_VipLevel = fr_VipLevel d,
     fi_LastLogin = fr_LastLogin d, fi_Zan = 0, fi_LeftGiveSeconds = 0, fi_FriendPoints = 0,
     fi_UnreadMessageNum = 0, fi_IsZan = False\<rparr>) (map_of (p_Friends p) friend_id)"

definition foster_get_empty_slot_friends :: "env \<Rightarrow> players \<Rightarrow> player \<Rightarrow> int \<times> player" where
  "foster_get_empty_slot_friends e ps p =
     (let friends = List.map_filter (\<lambda>k. case ps k of
          None \<Rightarrow> None
        | Some friend \<Rightarrow> if \<not> foster_has_empty_slot_for_friend e (p_Id p) friend then None
                         else GetFriendInfoMsg k p) (col_GetAllIndex (p_Friends p))
      in (1, Send_msg (S2CFosterGetEmptySlotFriendsResult friends) p))"

definition foster_read_cats :: "player \<Rightarrow> (int \<times> int \<times> int) list" where
  "foster_read_cats p = List.map_filter (\<lambda>k. map_option (\<lambda>d. (cat_CfgId d, cat_Level d, cat_Star d)) (map_of (p_Cats p) k))
     (col_GetAllIndex (p_FosterCats p))"

definition foster_get_cat_id_from_friend :: "int \<Rightarrow> player \<Rightarrow> int" where
  "foster_get_cat_id_from_friend friend_id p =
     (case filter (\<lambda>(_, fid). fid = friend_id) (p_FosterCatOnFriends p) of [] \<Rightarrow> 0 | (cat_id, _) # _ \<Rightarrow> cat_id)"

definition get_player_foster_cats :: "env \<Rightarrow> int \<Rightarrow> int \<Rightarrow> players \<Rightarrow> (int \<times> players) option" where
  "get_player_foster_cats e my_id player_id ps =
     (if player_id = my_id then Some (-1, ps)
      else do {
        (msg, ps) \<leftarrow> (case ps player_id of
            None \<Rightarrow> Some (S2CGetPlayerFosterCatsResult player_id 0 0 [] [] 0, ps)
          | Some player \<Rightarrow> do {
              let card_id = fs_EquippedCardId (p_Foster player);
              let remain_seconds = GetCardRemainSeconds e player;
              let cats = foster_read_cats player;
              (friend_cats, player) \<leftarrow> foster_settlement_friends_cat e (\<lambda>k. ps k \<noteq> None) player;
              Some (S2CGetPlayerFosterCatsResult player_id card_id remain_seconds cats friend_cats
                (fostered_slot_num_for_friend e player), ps(player_id \<mapsto> player))
            });
        Some (1, upd_player my_id (Send_msg msg) ps)
      })"

end
