(* ===== verification/Expedition.thy ===== *)
theory Expedition
  imports Foster Stage
begin

unbundle bit_operations_syntax

text \<open>
  Expeditions (\<open>game_server/player_expedition.go\<close>, \<open>tables/table_expedition.go\<close> and the column
  operations of \<open>a_db_ext.go\<close>). A player has a list of tasks with random conditions; he sends cats on
  a task, which takes a time, succeeds or fails and meets random events, and collects the rewards.
\<close>

abbreviation (input) PLAYER_EXPEDITION_CON_CAT_LVL :: int where "PLAYER_EXPEDITION_CON_CAT_LVL \<equiv> 1"
abbreviation (input) PLAYER_EXPEDITION_CON_CAT_QUA :: int where "PLAYER_EXPEDITION_CON_CAT_QUA \<equiv> 2"
abbreviation (input) PLAYER_EXPEDITION_CON_CAT_STAR :: int where "PLAYER_EXPEDITION_CON_CAT_STAR \<equiv> 3"
abbreviation (input) PLAYER_EXPEDITION_CON_CAT_COLOR :: int where "PLAYER_EXPEDITION_CON_CAT_COLOR \<equiv> 4"
abbreviation (input) PLAYER_EXPEDITION_CON_CAT_NUM :: int where "PLAYER_EXPEDITION_CON_CAT_NUM \<equiv> 5"
abbreviation (input) PLAYER_EXPEDITION_TYPE_TIMELIMIT :: int where "PLAYER_EXPEDITION_TYPE_TIMELIMIT \<equiv> 2"
abbreviation (input) PLAYER_EXPEDITION_STATE_INIT :: int where "PLAYER_EXPEDITION_STATE_INIT \<equiv> 0"
abbreviation (input) PLAYER_EXPEDITION_STATE_DOING :: int where "PLAYER_EXPEDITION_STATE_DOING \<equiv> 1"
abbreviation (input) PLAYER_EXPEDITION_STATE_SUCCEED :: int where "PLAYER_EXPEDITION_STATE_SUCCEED \<equiv> 2"
abbreviation (input) PLAYER_EXPEDITION_STATE_FAILED :: int where "PLAYER_EXPEDITION_STATE_FAILED \<equiv> 3"
abbreviation (input) PLAYER_EXPEDITION_RESULT_FAILED :: int where "PLAYER_EXPEDITION_RESULT_FAILED \<equiv> 0"
abbreviation (input) PLAYER_EXPEDITION_RESULT_SUCCEED :: int where "PLAYER_EXPEDITION_RESULT_SUCCEED \<equiv> 1"
abbreviation (input) E_ERR_EXPEDITION_NO_TASK :: int where "E_ERR_EXPEDITION_NO_TASK \<equiv> - 100400"
abbreviation (input) E_ERR_EXPEDITION_LESS_CAT :: int where "E_ERR_EXPEDITION_LESS_CAT \<equiv> - 100401"
abbreviation (input) E_ERR_EXPEDITION_CAT_WORKING :: int where "E_ERR_EXPEDITION_CAT_WORKING \<equiv> - 100402"
abbreviation (input) E_ERR_EXPEDITION_TASK_DOING :: int where "E_ERR_EXPEDITION_TASK_DOING \<equiv> - 100403"
abbreviation (input) E_ERR_EXPEDITION_LESS_LEVEL :: int where "E_ERR_EXPEDITION_LESS_LEVEL \<equiv> - 100404"
abbreviation (input) E_ERR_EXPEDITION_LESS_QUA :: int where "E_ERR_EXPEDITION_LESS_QUA \<equiv> - 100405"
abbreviation (input) E_ERR_EXPEDITION_LESS_STAR :: int where "E_ERR_EXPEDITION_LESS_STAR \<equiv> - 100406"
abbreviation (input) E_ERR_EXPEDITION_WRONG_COLOR :: int where "E_ERR_EXPEDITION_WRONG_COLOR \<equiv> - 100407"
abbreviation (input) E_ERR_EXPEDITION_NOT_CAT_CFG :: int where "E_ERR_EXPEDITION_NOT_CAT_CFG \<equiv> - 100408"
abbreviation (input) E_ERR_EXPEDITION_CANT_RM_LIMIT_TASK :: int where "E_ERR_EXPEDITION_CANT_RM_LIMIT_TASK \<equiv> - 100409"
abbreviation (input) E_ERR_EXPEDITION_NOT_TASK_CFG :: int where "E_ERR_EXPEDITION_NOT_TASK_CFG \<equiv> - 100410"
abbreviation (input) E_ERR_EXPEDITION_LESS_DIAMOND :: int where "E_ERR_EXPEDITION_LESS_DIAMOND \<equiv> - 100411"
abbreviation (input) E_ERR_EXPEDITION_STOP_NOT_DOING :: int where "E_ERR_EXPEDITION_STOP_NOT_DOING \<equiv> - 100412"
abbreviation (input) E_ERR_EXPEDITION_WRONG_STATE :: int where "E_ERR_EXPEDITION_WRONG_STATE \<equiv> - 100413"
abbreviation (input) E_ERR_EXPEDITION_LESS_RES :: int where "E_ERR_EXPEDITION_LESS_RES \<equiv> - 100414"
abbreviation (input) E_ERR_EXPEDITION_START_LESS_COUNT :: int where "E_ERR_EXPEDITION_START_LESS_COUNT \<equiv> - 100415"
abbreviation (input) TASK_COMPLETE_TYPE_EXPLORE_NUM :: int where "TASK_COMPLETE_TYPE_EXPLORE_NUM \<equiv> 104"
abbreviation (input) TASK_COMPLETE_TYPE_EXPLORE_TASK_NUM :: int where "TASK_COMPLETE_TYPE_EXPLORE_TASK_NUM \<equiv> 203"

subsection \<open>The table\<close>

definition exp_open :: "int list \<Rightarrow> int \<Rightarrow> xml_expedition \<Rightarrow> bool" where
  "exp_open cur_ids p_lvl val \<longleftrightarrow>
     \<not> (xp_LvlMin val > p_lvl \<or> xp_LvlMax val < p_lvl) \<and> \<not> (xp_Single val = 1 \<and> List.member cur_ids (xp_Id val))"

fun pick_task :: "int list \<Rightarrow> int \<Rightarrow> xml_expedition list \<Rightarrow> int \<Rightarrow> xml_expedition option" where
  "pick_task cur_ids p_lvl [] rand_val = None"
| "pick_task cur_ids p_lvl (val # vals) rand_val =
     (if \<not> exp_open cur_ids p_lvl val then pick_task cur_ids p_lvl vals rand_val
      else if rand_val < xp_RandWeight val then Some val
      else pick_task cur_ids p_lvl vals (i32 (rand_val - xp_RandWeight val)))"

fun rand_tasks :: "env \<Rightarrow> int \<Rightarrow> nat \<Rightarrow> int \<Rightarrow> int list \<Rightarrow> player \<Rightarrow> (xml_expedition list \<times> player) option" where
  "rand_tasks e p_lvl 0 total_weight cur_ids p = Some ([], p)"
| "rand_tasks e p_lvl (Suc n) total_weight cur_ids p =
     (if total_weight \<le> 0 then Some ([], p)
      else do {
        (rand_val, p) \<leftarrow> draw31n e total_weight p;
        case pick_task cur_ids p_lvl (expedition_array e) rand_val of
          None \<Rightarrow> rand_tasks e p_lvl n total_weight cur_ids p
        | Some val \<Rightarrow> do {
            (vals, p) \<leftarrow> rand_tasks e p_lvl n (i32 (total_weight - xp_RandWeight val)) (xp_Id val # cur_ids) p;
            Some (val # vals, p)
          }
      })"

definition RandNWithExistIds :: "env \<Rightarrow> int list \<Rightarrow> int \<Rightarrow> int \<Rightarrow> player \<Rightarrow> (xml_expedition list \<times> player) option" where
  "RandNWithExistIds e cur_ids p_lvl need_n p =
     (if need_n < 1 then Some ([], p)
      else
        let total_weight = fold (\<lambda>val a. if exp_open cur_ids p_lvl val then i32 (a + xp_RandWeight val) else a)
              (expedition_array e) 0
        in if total_weight \<le> 0 then Some ([], p)
           else rand_tasks e p_lvl (nat need_n) total_weight cur_ids p)"

fun pick_event :: "xml_expedition_event list \<Rightarrow> int \<Rightarrow> xml_expedition_event option" where
  "pick_event [] rand_val = None"
| "pick_event (x # xs) rand_val =
     (if rand_val < xe_SearchEventWeight x then Some x else pick_event xs (i32 (rand_val - xe_SearchEventWeight x)))"

definition RandEvent :: "env \<Rightarrow> int \<Rightarrow> player \<Rightarrow> (xml_expedition_event option \<times> player) option" where
  "RandEvent e eventid p = (case expedition_event_sets e eventid of
     None \<Rightarrow> Some (None, p)
   | Some event_cfg \<Rightarrow> do {
       (rand_val, p) \<leftarrow> draw31n e (ee_TotalWeight event_cfg) p;
       Some (pick_event (ee_Array event_cfg) rand_val, p)
     })"

subsection \<open>The column\<close>

definition Expeditions_Set :: "int \<Rightarrow> (expedition_data \<Rightarrow> expedition_data) \<Rightarrow> player \<Rightarrow> player" where
  "Expeditions_Set k u p = p\<lparr>p_Expeditions := snd (col_set_field u k (p_Expeditions p))\<rparr>"

definition exp_ended :: "int \<Rightarrow> expedition_data \<Rightarrow> expedition_data" where
  "exp_ended cur_unix val =
     (if xd_CurState val = PLAYER_EXPEDITION_STATE_DOING \<and> cur_unix > xd_EndUnix val
      then val\<lparr>xd_CurState := if xd_Result val > 0 then PLAYER_EXPEDITION_STATE_SUCCEED else PLAYER_EXPEDITION_STATE_FAILED\<rparr>
      else val)"

text \<open>The loop of \<open>CheckUpdateExpedition\<close>: the rows, the ids to delete, the tasks there are and their number.\<close>

fun update_rows :: "env \<Rightarrow> int \<Rightarrow> expedition_data column \<Rightarrow> expedition_data column \<times> int list \<times> int list \<times> int" where
  "update_rows e cur_unix [] = ([], [], [], 0)"
| "update_rows e cur_unix ((k, val) # rows) =
     (case update_rows e cur_unix rows of (rows, del, ids, n) \<Rightarrow>
        case expedition_map e (xd_TaskId val) of
          None \<Rightarrow> ((k, val) # rows, del, ids, n)
        | Some task_cfg \<Rightarrow>
            let val = exp_ended cur_unix val;
                pass_sec = i32 (cur_unix - xd_TaskLeftSecLastUpUnix val)
            in if xp_TaskType task_cfg = PLAYER_EXPEDITION_TYPE_TIMELIMIT \<and> xd_CurState val = PLAYER_EXPEDITION_STATE_INIT
               then if pass_sec \<ge> xd_TaskLeftSec val then ((k, val) # rows, xd_Id val # del, ids, n)
                    else ((k, val\<lparr>xd_TaskLeftSec := i32 (xd_TaskLeftSec val - pass_sec),
                             xd_TaskLeftSecLastUpUnix := cur_unix\<rparr>) # rows, del, xd_TaskId val # ids, i32 (n + 1))
               else ((k, val) # rows, del, xd_TaskId val # ids, i32 (n + 1)))"

definition Expeditions_CheckUpdate :: "env \<Rightarrow> player \<Rightarrow> (int list \<times> int) \<times> player" where
  "Expeditions_CheckUpdate e p = (case update_rows e (i32 (now e)) (p_Expeditions p) of (rows, del, ids, n) \<Rightarrow>
     ((ids, n), p\<lparr>p_Expeditions := fold col_Remove del rows\<rparr>))"

definition expedition_msg :: "int \<Rightarrow> xml_expedition \<Rightarrow> expedition_data \<Rightarrow> expedition_item" where
  "expedition_msg cur_unix task_cfg val =
     \<lparr>xi_Id = xd_Id val, xi_TaskId = xd_TaskId val, xi_InCatIds = xd_InCatIds val,
      xi_TaskLeftSec = (if xp_TaskType task_cfg = PLAYER_EXPEDITION_TYPE_TIMELIMIT then xd_TaskLeftSec val else 0),
      xi_ExpeditionLeftSec = (if xd_EndUnix val > cur_unix then i32 (xd_EndUnix val - cur_unix) else 0),
      xi_ExpeditionPassSec = i32 (cur_unix - xd_StartUnix val), xi_Result = xd_Result val,
      xi_CurState = xd_CurState val, xi_Conditions = xd_Conditions val,
      xi_Events = map (\<lambda>ev. (xv_ClientId ev, xv_Sec ev, xv_DropIdNums ev)) (xd_EventIds val)\<rparr>"

definition FillAllClientMsg :: "env \<Rightarrow> player \<Rightarrow> expedition_item list" where
  "FillAllClientMsg e p = List.map_filter (\<lambda>(k, val).
     map_option (\<lambda>task_cfg. expedition_msg (i32 (now e)) task_cfg val) (expedition_map e (xd_TaskId val))) (p_Expeditions p)"

definition Expeditions_Stop :: "env \<Rightarrow> int \<Rightarrow> player \<Rightarrow> player" where
  "Expeditions_Stop e taskid = Expeditions_Set taskid (\<lambda>d. d\<lparr>xd_CurState := PLAYER_EXPEDITION_STATE_INIT,
     xd_TaskLeftSecLastUpUnix := i32 (now e), xd_InCatIds := []\<rparr>)"

definition ChkGetNextExpeditionId :: "player \<Rightarrow> int \<times> player" where
  "ChkGetNextExpeditionId p =
     (let n = i32 (i_NextExpeditionId (p_Info p) + 1); n = (if n \<le> 0 then 1 else n)
      in (n, Info_Set i_NextExpeditionId_update n p))"


subsection \<open>The abilities of the cats and the counts of a day\<close>

definition GetCatExpeditionVal :: "env \<Rightarrow> player \<Rightarrow> int \<Rightarrow> int option" where
  "GetCatExpeditionVal e p catid = (case map_of (p_Cats p) catid of
     None \<Rightarrow> Some 0
   | Some cur_cat \<Rightarrow> (case cat_map e (cat_CfgId cur_cat) of
       None \<Rightarrow> Some 0
     | Some cat_cfg \<Rightarrow> do {
         add \<leftarrow> go_nth (ch_AddExplores cat_cfg) (i32 (cat_Star cur_cat - 1));
         Some (i32 (i32 (i32 (i32 (ch_GrowthRate cat_cfg * cat_Level cur_cat) sdiv 100 + cat_ExploreAbility cur_cat)
           + i32 (i32 (cat_ExploreAbility cur_cat * ch_InitialRate cat_cfg) * i32 (cat_Level cur_cat - 1)) sdiv 100) + add))
       }))"

fun total_val :: "env \<Rightarrow> player \<Rightarrow> int list \<Rightarrow> int \<Rightarrow> int option" where
  "total_val e p [] t = Some t"
| "total_val e p (c # cs) t = do { v \<leftarrow> GetCatExpeditionVal e p c; total_val e p cs (i32 (t + v)) }"

definition GetAviTotalCatExpditionVal :: "env \<Rightarrow> player \<Rightarrow> int list \<Rightarrow> (int \<times> int) option" where
  "GetAviTotalCatExpditionVal e p catids =
     (if length catids < 1 then Some (0, 0)
      else do {
        tot \<leftarrow> total_val e p catids 0;
        avi \<leftarrow> quot32 tot (i32 (int (length catids)));
        Some (avi, tot)
      })"

definition GetTodayExpeditionCount :: "env \<Rightarrow> player \<Rightarrow> int \<times> player" where
  "GetTodayExpeditionCount e p =
     (let cur_unix_day = GetDayFrom1970WithCfg e 0
      in if i_DayExpeditionUpDay (p_Info p) \<noteq> cur_unix_day
         then (0, Info_Set i_DayExpeditionUpDay_update cur_unix_day (Info_Set i_DayExpeditionCount_update 0 p))
         else (i_DayExpeditionCount (p_Info p), p))"

definition ChkDayExpeditionChgCount :: "env \<Rightarrow> player \<Rightarrow> (int \<times> int) \<times> player" where
  "ChkDayExpeditionChgCount e p =
     (let cur_unix_day = GetDayFrom1970WithCfg e 0
      in if i_DayChgExpeditionUpDay (p_Info p) \<noteq> cur_unix_day
         then ((0, 0), Info_Set i_DayChgExpeditionUpDay_update cur_unix_day (Info_Set i_DayChgExpeditionCount_update 0 p))
         else
           let cur_count = i_DayChgExpeditionCount (p_Info p);
               cur_cost = (if cur_count \<ge> gc_ExpeditionDayFreeChgCount (config e)
                 then min (i32 (i32 (i32 (cur_count + 1) - gc_ExpeditionDayFreeChgCount (config e))
                     * gc_ExpeditionDayChgAddCost (config e))) (gc_ExpeditionDayMaxChgCost (config e))
                 else 0)
           in ((cur_count, cur_cost), p))"

subsection \<open>New tasks\<close>

text \<open>The choice by weight of a place that is not used yet, as the condition and the colour loops make it.\<close>

fun pick_free :: "int list \<Rightarrow> nat \<Rightarrow> nat list \<Rightarrow> int \<Rightarrow> nat option" where
  "pick_free [] idx used rand_val = None"
| "pick_free (w # ws) idx used rand_val =
     (if List.member used idx then pick_free ws (Suc idx) used rand_val
      else if rand_val < w then Some idx
      else pick_free ws (Suc idx) used (i32 (rand_val - w)))"

fun color_loop :: "env \<Rightarrow> int list \<Rightarrow> nat \<Rightarrow> int \<Rightarrow> nat list \<Rightarrow> player \<Rightarrow> (int list \<times> player) option" where
  "color_loop e ws 0 tot used p = Some ([], p)"
| "color_loop e ws (Suc n) tot used p =
     (if tot \<le> 0 then Some ([], p)
      else do {
        (rand_val, p) \<leftarrow> draw31n e tot p;
        case pick_free ws 0 used rand_val of
          None \<Rightarrow> color_loop e ws n tot used p
        | Some idx \<Rightarrow> do {
            (vals, p) \<leftarrow> color_loop e ws n (i32 (tot - ws ! idx)) (idx # used) p;
            Some (i32 (2 ^ idx) # vals, p)
          }
      })"

definition make_con :: "env \<Rightarrow> expedition_condition \<Rightarrow> player \<Rightarrow> (expedition_con \<times> player) option" where
  "make_con e tmp_con p =
     (if ec_Con_Type tmp_con = PLAYER_EXPEDITION_CON_CAT_COLOR then
        if ec_Con_Val tmp_con < 0 then None
        else do {
          (vals, p) \<leftarrow> color_loop e (ec_Ext_vals tmp_con) (nat (ec_Con_Val tmp_con)) (ec_Ext_val tmp_con) [] p;
          Some (\<lparr>xc_ConType = ec_Con_Type tmp_con, xc_ConVals = vals\<rparr>, p)
        }
      else Some (\<lparr>xc_ConType = ec_Con_Type tmp_con, xc_ConVals = [ec_Con_Val tmp_con]\<rparr>, p))"

definition no_con :: expedition_con where
  "no_con = \<lparr>xc_ConType = 0, xc_ConVals = []\<rparr>"

fun con_loop :: "env \<Rightarrow> expedition_condition list \<Rightarrow> nat \<Rightarrow> int \<Rightarrow> nat list \<Rightarrow> player \<Rightarrow>
    (expedition_con list \<times> player) option" where
  "con_loop e cons 0 tot used p = Some ([], p)"
| "con_loop e cons (Suc n) tot used p =
     (if tot \<le> 0 then Some (replicate (Suc n) no_con, p)
      else do {
        (rand_val, p) \<leftarrow> draw31n e tot p;
        case pick_free (map ec_Con_Weight cons) 0 used rand_val of
          None \<Rightarrow> do { (ds, p) \<leftarrow> con_loop e cons n tot used p; Some (no_con # ds, p) }
        | Some idx \<Rightarrow> do {
            (d, p) \<leftarrow> make_con e (cons ! idx) p;
            (ds, p) \<leftarrow> con_loop e cons n (i32 (tot - ec_Con_Weight (cons ! idx))) (idx # used) p;
            Some (d # ds, p)
          }
      })"

definition new_expedition :: "env \<Rightarrow> int \<Rightarrow> xml_expedition \<Rightarrow> player \<Rightarrow> player option" where
  "new_expedition e cur_unix task p =
     (if xp_NeedConditionNum task < 0 then None
      else do {
        (cons, p) \<leftarrow> con_loop e (xp_Conditions task) (nat (xp_NeedConditionNum task)) (xp_TotalConWeight task) [] p;
        let limited = (xp_TaskType task = PLAYER_EXPEDITION_TYPE_TIMELIMIT);
        let (k, p) = ChkGetNextExpeditionId p;
        Some (p\<lparr>p_Expeditions := snd (col_Add k
          \<lparr>xd_Id = k, xd_TaskId = xp_Id task, xd_StartUnix = cur_unix, xd_EndUnix = 0, xd_InCatIds = [], xd_CurState = 0,
           xd_Result = 0, xd_TaskLeftSec = (if limited then xp_LimitTimeSec task else 0),
           xd_TaskLeftSecLastUpUnix = (if limited then cur_unix else 0), xd_Conditions = cons, xd_EventIds = [],
           xd_TotalSpecials = 0\<rparr> (p_Expeditions p))\<rparr>)
      })"

fun new_expeditions :: "env \<Rightarrow> int \<Rightarrow> xml_expedition list \<Rightarrow> player \<Rightarrow> player option" where
  "new_expeditions e cur_unix [] p = Some p"
| "new_expeditions e cur_unix (task # tasks) p = do {
     p \<leftarrow> new_expedition e cur_unix task p;
     new_expeditions e cur_unix tasks p
   }"

definition CheckUpdateExpedition :: "env \<Rightarrow> player \<Rightarrow> player option" where
  "CheckUpdateExpedition e p = (case Expeditions_CheckUpdate e p of ((cur_ids, cur_count), p) \<Rightarrow>
     if cur_count < gc_ExpeditionTaskCount (config e) then do {
       let first_task = (if p_NoNewbee p \<le> 0 \<and> col_NumAll (p_Expeditions p) \<le> 0
         then expedition_map e (gc_ExpeditionFirstTask (config e)) else None);
       let (cur_count, p) = (if first_task \<noteq> None then (i32 (cur_count + 1), p\<lparr>p_NoNewbee := 1\<rparr>) else (cur_count, p));
       (new_tasks, p) \<leftarrow> RandNWithExistIds e cur_ids (p_Level p) (i32 (gc_ExpeditionTaskCount (config e) - cur_count)) p;
       new_expeditions e (i32 (now e)) (new_tasks @ (case first_task of None \<Rightarrow> [] | Some t \<Rightarrow> [t])) p
     }
     else Some p)"


definition send_expeditions :: "int \<Rightarrow> int \<Rightarrow> env \<Rightarrow> player \<Rightarrow> player" where
  "send_expeditions chg_count chg_cost e p = Send_msg (S2CRetAllExpedition (FillAllClientMsg e p) chg_count chg_cost) p"

definition C2SGetAllExpedition :: "env \<Rightarrow> player \<Rightarrow> (int \<times> player) option" where
  "C2SGetAllExpedition e p = do {
     p \<leftarrow> CheckUpdateExpedition e p;
     let tasks = FillAllClientMsg e p;
     if tasks = [] then Some (0, p)
     else (case ChkDayExpeditionChgCount e p of ((cur_count, cur_cost), p) \<Rightarrow>
       Some (1, Send_msg (S2CRetAllExpedition tasks
         (max 0 (i32 (gc_ExpeditionDayFreeChgCount (config e) - cur_count))) cur_cost) p))
   }"

subsection \<open>Starting\<close>

text \<open>The cats of the request with their rows of the table, or the error.\<close>

fun chk_cats :: "env \<Rightarrow> player \<Rightarrow> int list \<Rightarrow> int + (cat_data \<times> xml_character) list" where
  "chk_cats e p [] = Inr []"
| "chk_cats e p (cat_id # cats) = (case map_of (p_Cats p) cat_id of
     None \<Rightarrow> Inl E_ERR_EXPEDITION_LESS_CAT
   | Some cat_db \<Rightarrow> (case cat_map e (cat_CfgId cat_db) of
       None \<Rightarrow> Inl E_ERR_EXPEDITION_NOT_CAT_CFG
     | Some cat_cfg \<Rightarrow>
         if IfCatBusy p cat_id then Inl E_ERR_EXPEDITION_CAT_WORKING
         else (case chk_cats e p cats of Inl err \<Rightarrow> Inl err | Inr xs \<Rightarrow> Inr ((cat_db, cat_cfg) # xs))))"

definition color_count :: "int \<Rightarrow> int list \<Rightarrow> int" where
  "color_count color vals = fold (\<lambda>v a. i32 (a + (color AND v))) vals 0"

definition chk_con :: "(cat_data \<times> xml_character) list \<Rightarrow> expedition_con \<Rightarrow> int option" where
  "chk_con cats con =
     (let vals = xc_ConVals con; typ = xc_ConType con; low = (\<lambda>x. vals = [] \<or> x < hd vals)
      in if typ = PLAYER_EXPEDITION_CON_CAT_LVL then
           if list_ex (\<lambda>(d, _). low (cat_Level d)) cats then Some E_ERR_EXPEDITION_LESS_LEVEL else None
         else if typ = PLAYER_EXPEDITION_CON_CAT_QUA then
           if list_ex (\<lambda>(_, c). low (ch_Rarity c)) cats then Some E_ERR_EXPEDITION_LESS_QUA else None
         else if typ = PLAYER_EXPEDITION_CON_CAT_STAR then
           if list_ex (\<lambda>(d, _). low (cat_Star d)) cats then Some E_ERR_EXPEDITION_LESS_STAR else None
         else if typ = PLAYER_EXPEDITION_CON_CAT_COLOR then
           if list_ex (\<lambda>(_, c). color_count (ch_Color c) vals < 1) cats then Some E_ERR_EXPEDITION_WRONG_COLOR else None
         else if typ = PLAYER_EXPEDITION_CON_CAT_NUM then
           if low (i32 (int (length cats))) then Some E_ERR_EXPEDITION_LESS_CAT else None
         else None)"

fun chk_cons :: "(cat_data \<times> xml_character) list \<Rightarrow> expedition_con list \<Rightarrow> int option" where
  "chk_cons cats [] = None"
| "chk_cons cats (con # cons) = (case chk_con cats con of Some err \<Rightarrow> Some err | None \<Rightarrow> chk_cons cats cons)"

text \<open>The drops of an event: the first triple of the table, once for every triple.\<close>

fun event_drops :: "env \<Rightarrow> int list \<Rightarrow> nat \<Rightarrow> player \<Rightarrow> (int list \<times> player) option" where
  "event_drops e ds 0 p = Some ([], p)"
| "event_drops e ds (Suc n) p = do {
     d0 \<leftarrow> go_nth ds 0;
     d1 \<leftarrow> go_nth ds 1;
     d2 \<leftarrow> go_nth ds 2;
     let dif_val = i32 (d2 - d1);
     (num, p) \<leftarrow> (if dif_val > 0 then do { (r, p) \<leftarrow> draw31n e dif_val p; Some (i32 (i32 (d1 + r) + 1), p) } else Some (d1, p));
     (xs, p) \<leftarrow> event_drops e ds n p;
     Some (d0 # num # xs, p)
   }"

text \<open>One turn at \<open>cur_sec\<close>: the event there, if any, and the new blessing.\<close>

definition event_turn :: "env \<Rightarrow> xml_expedition \<Rightarrow> int \<Rightarrow> int \<Rightarrow> int \<Rightarrow> player \<Rightarrow>
    ((expedition_event option \<times> int) \<times> player) option" where
  "event_turn e task_cfg event_rate bless cur_sec p = do {
     (rand_val, p) \<leftarrow> draw31n e 10000 p;
     if \<not> (bless \<ge> 10000 \<or> rand_val \<le> event_rate) then Some ((None, i32 (bless + event_rate)), p)
     else do {
       (cfg, p) \<leftarrow> RandEvent e (xp_SearchEventId task_cfg) p;
       case cfg of
         None \<Rightarrow> Some ((None, 0), p)
       | Some c \<Rightarrow> do {
           (drops, p) \<leftarrow> event_drops e (xe_DropIds c) (length (xe_DropIds c) div 3) p;
           Some ((Some \<lparr>xv_EventId = xe_SearchEventID c, xv_ClientId = xe_ClientId c, xv_Sec = cur_sec,
             xv_DropIdNums = drops\<rparr>, 0), p)
         }
     }
   }"

partial_function (option) event_loop :: "(int \<Rightarrow> int \<Rightarrow> player \<Rightarrow> ((expedition_event option \<times> int) \<times> player) option) \<Rightarrow>
    int \<Rightarrow> int \<Rightarrow> int \<Rightarrow> int \<Rightarrow> expedition_event column \<Rightarrow> player \<Rightarrow> (expedition_event column \<times> player) option" where
  "event_loop turn tmp_sec cost_time cur_sec bless event_map p =
     (if cur_sec < cost_time
      then Option.bind (turn bless cur_sec p) (\<lambda>((ev, bless), p).
        event_loop turn tmp_sec cost_time (i32 (cur_sec + tmp_sec)) bless
          (case ev of None \<Rightarrow> event_map | Some x \<Rightarrow> AList.update cur_sec x event_map) p)
      else Some (event_map, p))"

text \<open>\<open>ord\<close> is the order in which \<open>range\<close> visits the map of the events.\<close>

definition begin_expedition :: "env \<Rightarrow> (expedition_event list \<Rightarrow> expedition_event list) \<Rightarrow> int \<Rightarrow> xml_expedition \<Rightarrow> int list \<Rightarrow>
    player \<Rightarrow> (int \<times> player) option" where
  "begin_expedition e ord task_id task_cfg catids p = do {
     let p = Expeditions_Set task_id (\<lambda>d. d\<lparr>xd_StartUnix := i32 (now e), xd_EndUnix := i32 (i32 (now e) + xp_CostTime task_cfg),
       xd_InCatIds := catids, xd_CurState := PLAYER_EXPEDITION_STATE_DOING\<rparr>) p;
     (expe_avi, expe_total) \<leftarrow> GetAviTotalCatExpditionVal e p catids;
     (r, p) \<leftarrow> draw31n e 10000 p;
     let succeed = (r < i32 (expe_avi * xp_SucceedBaseRate task_cfg));
     let p = (if succeed then Expeditions_Set task_id (\<lambda>d. d\<lparr>xd_Result := 1\<rparr>) p else p);
     let tmp_sec = gc_ExpeditionSPEventSec (config e);
     (event_map, p) \<leftarrow> event_loop (event_turn e task_cfg (i32 (expe_total * xp_EventBaseRate task_cfg)))
       tmp_sec (xp_CostTime task_cfg) tmp_sec 0 [] p;
     let events = ord (map snd event_map);
     let p = Expeditions_Set task_id (\<lambda>d. d\<lparr>xd_EventIds := events, xd_TotalSpecials := 0\<rparr>) p;
     (_, p) \<leftarrow> RemoveItemResource e ITEM_RESOURCE_ID_ACTION 1 p;
     let p = Send_msg (S2CStartExpedition task_id (if succeed then 1 else 0) catids (xp_CostTime task_cfg)
       PLAYER_EXPEDITION_STATE_DOING (map (\<lambda>ev. (xv_ClientId ev, xv_Sec ev, xv_DropIdNums ev)) events)) p;
     Some (1, SendItemsUpdate (snd (Player_send_cats_update catids p)))
   }"

definition C2SStartExpedition :: "env \<Rightarrow> (expedition_event list \<Rightarrow> expedition_event list) \<Rightarrow> int \<Rightarrow> int list \<Rightarrow>
    player \<Rightarrow> (int \<times> player) option" where
  "C2SStartExpedition e ord task_id catids p = (case map_of (p_Expeditions p) task_id of
     None \<Rightarrow> Some (E_ERR_EXPEDITION_NO_TASK, p)
   | Some task_db \<Rightarrow> (case expedition_map e (xd_TaskId task_db) of
       None \<Rightarrow> Some (E_ERR_EXPEDITION_NO_TASK, p)
     | Some task_cfg \<Rightarrow>
         if xd_CurState task_db = PLAYER_EXPEDITION_STATE_SUCCEED \<or> xd_CurState task_db = PLAYER_EXPEDITION_STATE_DOING
         then Some (E_ERR_EXPEDITION_TASK_DOING, p)
         else (case GetTodayExpeditionCount e p of (cnt, p) \<Rightarrow>
           if cnt \<ge> gc_ExpeditionDayStartCount (config e) then Some (E_ERR_EXPEDITION_START_LESS_COUNT, p)
           else do {
             (action_item_num, p) \<leftarrow> GetItemResourceValue e ITEM_RESOURCE_ID_ACTION p;
             if action_item_num < 1 then Some (E_ERR_ITEM_ACTION_NOT_ENOUGH, p)
             else if catids = [] then Some (E_ERR_EXPEDITION_LESS_CAT, p)
             else (case chk_cats e p catids of
               Inl err \<Rightarrow> Some (err, p)
             | Inr cats \<Rightarrow> (case chk_cons cats (xd_Conditions task_db) of
                 Some err \<Rightarrow> Some (err, p)
               | None \<Rightarrow> begin_expedition e ord task_id task_cfg catids p))
           })))"

subsection \<open>Changing and stopping a task\<close>

definition C2SChgExpedition :: "env \<Rightarrow> int \<Rightarrow> player \<Rightarrow> (int \<times> player) option" where
  "C2SChgExpedition e unique_id p = (case map_of (p_Expeditions p) unique_id of
     None \<Rightarrow> Some (E_ERR_EXPEDITION_NO_TASK, p)
   | Some task_db \<Rightarrow> (case expedition_map e (xd_TaskId task_db) of
       None \<Rightarrow> Some (E_ERR_EXPEDITION_NO_TASK, p)
     | Some task_cfg \<Rightarrow>
         if xp_TaskType task_cfg = PLAYER_EXPEDITION_TYPE_TIMELIMIT then Some (E_ERR_EXPEDITION_CANT_RM_LIMIT_TASK, p)
         else
           let p = Info_Set i_DayChgExpeditionUpDay_update (GetDayFrom1970WithCfg e 0)
                 (Info_Set i_DayChgExpeditionCount_update (i32 (i_DayChgExpeditionCount (p_Info p) + 1)) p)
           in (case ChkDayExpeditionChgCount e p of ((cur_count, cur_cost), p) \<Rightarrow>
             if cur_cost > i_Diamond (p_Info p) then Some (E_ERR_EXPEDITION_LESS_DIAMOND, p)
             else do {
               let p = snd (SubDiamond cur_cost p);
               let cats_id = fst (col_get_field xd_InCatIds [] (p_Expeditions p) unique_id);
               let p = snd (Player_send_cats_update cats_id (p\<lparr>p_Expeditions := col_Remove unique_id (p_Expeditions p)\<rparr>));
               p \<leftarrow> CheckUpdateExpedition e p;
               if FillAllClientMsg e p = [] then Some (0, p)
               else Some (1, send_expeditions (max 0 (i32 (gc_ExpeditionDayFreeChgCount (config e) - cur_count))) cur_cost e p)
             })))"

definition C2SStopExpedition :: "env \<Rightarrow> int \<Rightarrow> player \<Rightarrow> (int \<times> player) option" where
  "C2SStopExpedition e unique_id p = (case map_of (p_Expeditions p) unique_id of
     None \<Rightarrow> Some (E_ERR_EXPEDITION_NO_TASK, p)
   | Some task_db \<Rightarrow>
       if xd_CurState task_db \<noteq> PLAYER_EXPEDITION_STATE_DOING then Some (E_ERR_EXPEDITION_STOP_NOT_DOING, p)
       else do {
         let p = snd (Player_send_cats_update (xd_InCatIds task_db) (Expeditions_Stop e unique_id p));
         p \<leftarrow> CheckUpdateExpedition e p;
         let tasks = FillAllClientMsg e p;
         case ChkDayExpeditionChgCount e p of ((cur_count, cur_cost), p) \<Rightarrow>
           if tasks = [] then Some (0, p)
           else Some (1, Send_msg (S2CRetAllExpedition tasks cur_count cur_cost) p)
       })"

subsection \<open>Rewards\<close>

definition reward_percent :: "env \<Rightarrow> expedition_data \<Rightarrow> int option" where
  "reward_percent e task_db =
     (let max_cfg_len = i32 (int (length (gc_ExpeditionMultiVal (config e))));
          cat_num = max 1 (min (i32 (int (length (xd_InCatIds task_db)))) max_cfg_len)
      in go_nth (gc_ExpeditionMultiVal (config e)) (cat_num - 1))"

definition give_fixed :: "env \<Rightarrow> int \<Rightarrow> int \<Rightarrow> player \<Rightarrow> player option" where
  "give_fixed e obj_id obj_num p =
     (if item_map e obj_id \<noteq> None then Some (snd (AddItem e obj_id obj_num True p))
      else if building_map e obj_id \<noteq> None then Some (snd (AddDepotBuilding e obj_id obj_num p))
      else if cat_map e obj_id \<noteq> None then map_option snd (AddCat e obj_id True p)
      else map_option snd (AddItemResource e obj_id obj_num p))"

fun fix_rewards :: "env \<Rightarrow> (int \<Rightarrow> int) \<Rightarrow> int list \<Rightarrow> player \<Rightarrow> ((int \<times> int) list \<times> player) option" where
  "fix_rewards e amount (obj_id # n # rewards) p = do {
     p \<leftarrow> give_fixed e obj_id (amount n) p;
     (xs, p) \<leftarrow> fix_rewards e amount rewards p;
     Some ((obj_id, amount n) # xs, p)
   }"
| "fix_rewards e amount rewards p = Some ([], p)"

fun give_pairs :: "env \<Rightarrow> int list \<Rightarrow> player \<Rightarrow> ((int \<times> int) list \<times> player) option" where
  "give_pairs e (obj_id # obj_num # xs) p = do {
     (_, p) \<leftarrow> AddObj e obj_id obj_num True p;
     (ys, p) \<leftarrow> give_pairs e xs p;
     Some ((obj_id, obj_num) # ys, p)
   }"
| "give_pairs e xs p = Some ([], p)"

fun event_rewards :: "env \<Rightarrow> expedition_event list \<Rightarrow> player \<Rightarrow> ((int \<times> int) list \<times> player) option" where
  "event_rewards e [] p = Some ([], p)"
| "event_rewards e (ev # evs) p =
     (if expedition_event_map e (xv_EventId ev) = None then event_rewards e evs p
      else do {
        (xs, p) \<leftarrow> give_pairs e (xv_DropIdNums ev) p;
        (ys, p) \<leftarrow> event_rewards e evs p;
        Some (xs @ ys, p)
      })"

text \<open>The end of both reward handlers.\<close>

definition finish_expedition :: "env \<Rightarrow> int \<Rightarrow> (int \<times> int) list \<Rightarrow> (int \<times> int) list \<Rightarrow> player \<Rightarrow> (int \<times> player) option" where
  "finish_expedition e unique_id rewards specials p = do {
     let p = SendBuildingUpdate (SendCatsUpdate (SendItemsUpdate (Send_msg (S2CGetExpeditionReward unique_id rewards specials) p)));
     let cats_id = fst (col_get_field xd_InCatIds [] (p_Expeditions p) unique_id);
     let p = snd (Player_send_cats_update cats_id (p\<lparr>p_Expeditions := col_Remove unique_id (p_Expeditions p)\<rparr>));
     p \<leftarrow> CheckUpdateExpedition e p;
     Some (1, TaskUpdate e TASK_COMPLETE_TYPE_EXPLORE_TASK_NUM False 0 1
       (TaskUpdate e TASK_COMPLETE_TYPE_EXPLORE_NUM False 0 1 (send_expeditions 0 0 e p)))
   }"

definition C2SGetExpeditionReward :: "env \<Rightarrow> int \<Rightarrow> player \<Rightarrow> (int \<times> player) option" where
  "C2SGetExpeditionReward e unique_id p = do {
     p \<leftarrow> CheckUpdateExpedition e p;
     case map_of (p_Expeditions p) unique_id of
       None \<Rightarrow> Some (E_ERR_EXPEDITION_NO_TASK, p)
     | Some task_db \<Rightarrow> (case expedition_map e (xd_TaskId task_db) of
         None \<Rightarrow> Some (E_ERR_EXPEDITION_NOT_TASK_CFG, p)
       | Some task_cfg \<Rightarrow> do {
           percent \<leftarrow> reward_percent e task_db;
           (rewards, p) \<leftarrow> fix_rewards e (\<lambda>n. i32 (n * percent) sdiv
             (if xd_Result task_db = PLAYER_EXPEDITION_RESULT_FAILED then 200 else 100)) (xp_FixRewards task_cfg) p;
           (specials, p) \<leftarrow> (if xd_Result task_db = PLAYER_EXPEDITION_RESULT_SUCCEED
             then event_rewards e (xd_EventIds task_db) p else Some ([], p));
           finish_expedition e unique_id rewards specials p
         })
   }"

text \<open>
  In \<open>C2SChgExpeditionResultHandler\<close> the loop over the drops of an event uses the index of the loop
  over the events, which so goes on from where the drops end.
\<close>

partial_function (option) event_rewards_shared :: "env \<Rightarrow> expedition_event list \<Rightarrow> int \<Rightarrow> (int \<times> int) list \<Rightarrow> player \<Rightarrow>
    ((int \<times> int) list \<times> player) option" where
  "event_rewards_shared e events idx specials p =
     (if idx < int (length events) then
        let ev = events ! nat idx
        in if expedition_event_map e (xv_EventId ev) = None then event_rewards_shared e events (idx + 1) specials p
           else Option.bind (give_pairs e (xv_DropIdNums ev) p) (\<lambda>(xs, p).
             event_rewards_shared e events (2 * (int (length (xv_DropIdNums ev)) div 2) + 1) (specials @ xs) p)
      else Some (specials, p))"

definition C2SChgExpeditionResult :: "env \<Rightarrow> int \<Rightarrow> player \<Rightarrow> (int \<times> player) option" where
  "C2SChgExpeditionResult e unique_id p = (case map_of (p_Expeditions p) unique_id of
     None \<Rightarrow> Some (E_ERR_EXPEDITION_NO_TASK, p)
   | Some task_db \<Rightarrow> (case expedition_map e (xd_TaskId task_db) of
       None \<Rightarrow> Some (E_ERR_EXPEDITION_NOT_TASK_CFG, p)
     | Some task_cfg \<Rightarrow>
         if xd_CurState task_db \<noteq> PLAYER_EXPEDITION_STATE_FAILED then Some (E_ERR_EXPEDITION_WRONG_STATE, p)
         else do {
           (enough, p) \<leftarrow> ChkResEnough e (xp_BuyBackCosts task_cfg) p;
           if \<not> enough then Some (E_ERR_EXPEDITION_LESS_RES, p)
           else do {
             p \<leftarrow> CheckUpdateExpedition e p;
             percent \<leftarrow> reward_percent e task_db;
             (rewards, p) \<leftarrow> fix_rewards e (\<lambda>n. if xd_Result task_db = PLAYER_EXPEDITION_RESULT_FAILED
               then i32 (n * percent) sdiv 200 else n) (xp_FixRewards task_cfg) p;
             (specials, p) \<leftarrow> (if xd_Result task_db = PLAYER_EXPEDITION_RESULT_SUCCEED
               then event_rewards_shared e (xd_EventIds task_db) 0 [] p else Some ([], p));
             finish_expedition e unique_id rewards specials p
           }
         }))"

end
