(* ===== verification/FosterPay.thy ===== *)
theory FosterPay
  imports Foster
begin

text \<open>
  What the foster place guarantees: a settlement pays every cat exactly its share of the card's
  rewards; the handlers keep at most six cats in the place, each under its own id. And what it does
  not: see the last subsection.
\<close>

subsection \<open>The share of a cat\<close>

fun reward_pairs :: "int list \<Rightarrow> (int \<times> int) list" where
  "reward_pairs (k # n # xs) = (k, n) # reward_pairs xs"
| "reward_pairs xs = []"

definition share :: "xml_foster \<Rightarrow> int \<Rightarrow> int \<Rightarrow> int" where
  "share c t n = n * t div fo_FosterTime c"

definition exp_reward :: "xml_foster \<Rightarrow> int option" where
  "exp_reward c = map_of (reward_pairs (fo_Rewards c)) ITEM_RESOURCE_ID_CAT_EXP"

definition item_rewards :: "xml_foster \<Rightarrow> (int \<times> int) list" where
  "item_rewards c = filter (\<lambda>(k, n). k \<noteq> ITEM_RESOURCE_ID_CAT_EXP) (reward_pairs (fo_Rewards c))"

text \<open>A card of the table: a positive time, every reward named once, and no overflow.\<close>

definition card_ok :: "xml_foster \<Rightarrow> bool" where
  "card_ok c \<longleftrightarrow> 0 < fo_FosterTime c \<and> distinct (map fst (reward_pairs (fo_Rewards c)))
     \<and> (\<forall>(k, n)\<in>set (reward_pairs (fo_Rewards c)). 0 \<le> n \<and> n * fo_FosterTime c \<le> max32)"

lemma share_computed:
  assumes "0 < fo_FosterTime c" "0 \<le> n" "n * fo_FosterTime c \<le> max32" "0 \<le> t" "t \<le> fo_FosterTime c"
  shows "quot32 (i32 (n * t)) (fo_FosterTime c) = Some (share c t n)" "i32 (share c t n) = share c t n"
proof -
  have nt: "0 \<le> n * t" "n * t \<le> max32"
    using assms mult_left_mono [OF assms(5) assms(2)] by auto
  then have "i32 (n * t) = n * t" by (intro i32_range_id) auto
  moreover have sh: "0 \<le> share c t n" "share c t n \<le> n * t"
    using nt assms(1) by (auto simp: share_def pos_imp_zdiv_nonneg_iff intro: int_div_less_self order_trans [OF zdiv_mono2 [of _ 1]])
  then show *: "i32 (share c t n) = share c t n" using nt by (intro i32_range_id) auto
  ultimately show "quot32 (i32 (n * t)) (fo_FosterTime c) = Some (share c t n)"
    using assms(1) nt(1) * by (simp add: quot32_def sdiv_nonneg share_def)
qed

text \<open>One cat: its entry of the two slices.\<close>

definition put_exp :: "nat \<Rightarrow> nat \<Rightarrow> int \<Rightarrow> int list option \<Rightarrow> int list" where
  "put_exp len i v exps = (case exps of None \<Rightarrow> replicate len 0 | Some xs \<Rightarrow> xs)[i := v]"

definition items_at :: "nat \<Rightarrow> int column list option \<Rightarrow> int column list" where
  "items_at len its = (case its of None \<Rightarrow> replicate len [] | Some xs \<Rightarrow> xs)"

lemma update_append: "k \<notin> fst ` set al \<Longrightarrow> AList.update k v al = al @ [(k, v)]"
  by (induction al) auto

lemma settle_rewards_pairs:
  assumes "\<forall>(k, n)\<in>set (reward_pairs rs). 0 \<le> n \<and> n * fo_FosterTime c \<le> max32"
    and "distinct (map fst (reward_pairs rs))" "0 < fo_FosterTime c" "0 \<le> t" "t \<le> fo_FosterTime c"
    and "i < length ids" "i < length (items_at (length ids) its)"
    and "\<forall>k\<in>fst ` set (reward_pairs rs). k \<notin> fst ` set (items_at (length ids) its ! i)"
  shows "settle_rewards c t i rs (ids, exps, its) = Some (ids,
    (case map_of (reward_pairs rs) ITEM_RESOURCE_ID_CAT_EXP of None \<Rightarrow> exps
     | Some n \<Rightarrow> Some (put_exp (length ids) i (share c t n) exps)),
    (if filter (\<lambda>(k, n). k \<noteq> ITEM_RESOURCE_ID_CAT_EXP) (reward_pairs rs) = [] then its
     else Some ((items_at (length ids) its)[i := items_at (length ids) its ! i
       @ map (\<lambda>(k, n). (k, share c t n)) (filter (\<lambda>(k, n). k \<noteq> ITEM_RESOURCE_ID_CAT_EXP) (reward_pairs rs))])))"
  using assms
proof (induction rs arbitrary: exps its rule: reward_pairs.induct)
  case (1 k n rs)
  from 1 have sh: "quot32 (i32 (n * t)) (fo_FosterTime c) = Some (share c t n)" "i32 (share c t n) = share c t n"
    by (auto intro: share_computed)
  show ?case
  proof (cases "k = ITEM_RESOURCE_ID_CAT_EXP")
    case True
    have "map_of (reward_pairs rs) 13 = None"
      using 1(3) True by (auto simp: map_of_eq_None_iff)
    with 1 sh True show ?thesis by (simp add: put_exp_def)
  next
    case False
    let ?xs = "items_at (length ids) its"
    have new: "fst (col_get_field (\<lambda>x. x) 0 (?xs ! i) k) = 0"
      using 1(9) by (auto simp: col_get_field_def map_of_eq_None_iff split: option.splits)
        (metis (mono_tags, opaque_lifting) fst_conv image_eqI map_of_SomeD)
    have upd: "AList.update k (share c t n) (?xs ! i) = ?xs ! i @ [(k, share c t n)]"
      using 1(9) by (intro update_append) auto
    let ?its = "Some (?xs[i := ?xs ! i @ [(k, share c t n)]])"
    have at: "items_at (length ids) ?its = ?xs[i := ?xs ! i @ [(k, share c t n)]]" by (simp add: items_at_def)
    have "\<forall>j\<in>fst ` set (reward_pairs rs). j \<notin> fst ` set (items_at (length ids) ?its ! i)"
      using 1(3,8,9) by (auto simp: at)
    with 1(1) [of ?its exps] 1(2-8) False have "settle_rewards c t i rs (ids, exps, ?its) = Some (ids,
      (case map_of (reward_pairs rs) ITEM_RESOURCE_ID_CAT_EXP of None \<Rightarrow> exps
       | Some n \<Rightarrow> Some (put_exp (length ids) i (share c t n) exps)),
      (if filter (\<lambda>(k, n). k \<noteq> ITEM_RESOURCE_ID_CAT_EXP) (reward_pairs rs) = [] then ?its
       else Some ((items_at (length ids) ?its)[i := items_at (length ids) ?its ! i
         @ map (\<lambda>(k, n). (k, share c t n)) (filter (\<lambda>(k, n). k \<noteq> ITEM_RESOURCE_ID_CAT_EXP) (reward_pairs rs))])))"
      by (simp add: at)
    with sh False new upd 1(8) show ?thesis
      by (simp add: Let_def at) (simp add: items_at_def)
  qed
qed simp_all


subsection \<open>A settlement\<close>

text \<open>The instants: nothing starts in the future.\<close>

definition started_by :: "env \<Rightarrow> int \<Rightarrow> foster_cat_data column \<Rightarrow> bool" where
  "started_by e card_start cats \<longleftrightarrow> 0 \<le> card_start \<and> card_start \<le> i32 (now e)
     \<and> (\<forall>(k, v)\<in>set cats. 0 \<le> fc_StartTime v \<and> fc_StartTime v \<le> i32 (now e))"

definition foster_time :: "env \<Rightarrow> xml_foster \<Rightarrow> int \<Rightarrow> foster_cat_data \<Rightarrow> int" where
  "foster_time e c card_start v =
     min (fo_FosterTime c) (i32 (now e) - max card_start (fc_StartTime v))"

lemma foster_use_time_exact:
  assumes "0 \<le> card_start" "card_start \<le> i32 (now e)" "0 \<le> fc_StartTime v" "fc_StartTime v \<le> i32 (now e)"
  shows "foster_use_time e c card_start (fc_StartTime v) = foster_time e c card_start v"
    and "\<not> (if card_start > fc_StartTime v then i32 (i32 (now e) - card_start)
             else i32 (i32 (now e) - fc_StartTime v)) < 0"
proof -
  have "i32 (now e) \<le> max32" using i32_upper [of "now e"] by simp
  then have i: "i32 (i32 (now e) - card_start) = i32 (now e) - card_start"
    "i32 (i32 (now e) - fc_StartTime v) = i32 (now e) - fc_StartTime v"
    using assms by (auto intro!: i32_range_id)
  then show "foster_use_time e c card_start (fc_StartTime v) = foster_time e c card_start v"
    by (simp add: foster_use_time_def foster_time_def Let_def min_def max_def)
  show "\<not> (if card_start > fc_StartTime v then i32 (i32 (now e) - card_start)
      else i32 (i32 (now e) - fc_StartTime v)) < 0"
    using i assms by simp
qed

definition exps_at :: "nat \<Rightarrow> int list option \<Rightarrow> int list" where
  "exps_at len exps = (case exps of None \<Rightarrow> replicate len 0 | Some xs \<Rightarrow> xs)"

definition stamp :: "env \<Rightarrow> bool \<Rightarrow> foster_cat_data column \<Rightarrow> foster_cat_data column" where
  "stamp e is_settle cats = map (\<lambda>(k, v). (k, if is_settle then v\<lparr>fc_StartTime := i32 (now e)\<rparr> else v)) cats"

definition exp_shares :: "env \<Rightarrow> xml_foster \<Rightarrow> int \<Rightarrow> int \<Rightarrow> foster_cat_data column \<Rightarrow> int list" where
  "exp_shares e c card_start r cats = map (\<lambda>(k, v). share c (foster_time e c card_start v) r) cats"

definition item_shares :: "env \<Rightarrow> xml_foster \<Rightarrow> int \<Rightarrow> foster_cat_data column \<Rightarrow> int column list" where
  "item_shares e c card_start cats =
     map (\<lambda>(k, v). map (\<lambda>(j, n). (j, share c (foster_time e c card_start v) n)) (item_rewards c)) cats"

lemma settle_cats_exact:
  assumes c: "card_ok c" and t: "started_by e card_start cats"
    and len: "length ids = i + length cats" "length (exps_at (length ids) exps) = length ids"
      "length (items_at (length ids) its) = length ids"
    and fresh: "\<forall>j\<ge>i. j < length ids \<longrightarrow> items_at (length ids) its ! j = []"
  shows "settle_cats e is_settle card_start (Some c) cats i (ids, exps, its) = Some (stamp e is_settle cats,
     take i ids @ map fst cats,
     (case exp_reward c of None \<Rightarrow> exps
      | Some r \<Rightarrow> if cats = [] then exps
          else Some (take i (exps_at (length ids) exps) @ exp_shares e c card_start r cats)),
     (if item_rewards c = [] \<or> cats = [] then its
      else Some (take i (items_at (length ids) its) @ item_shares e c card_start cats)))"
  using t len fresh
proof (induction cats arbitrary: i ids exps its)
  case Nil
  then show ?case by (simp add: stamp_def split: option.splits)
next
  case (Cons x cats)
  obtain k v where x: "x = (k, v)" by fastforce
  let ?n = "length ids" and ?t = "foster_time e c card_start v"
  let ?ids = "ids[i := k]"
  let ?exps = "case exp_reward c of None \<Rightarrow> exps | Some r \<Rightarrow> Some (put_exp ?n i (share c ?t r) exps)"
  let ?xs = "items_at ?n its"
  let ?its = "if item_rewards c = [] then its
    else Some (?xs[i := map (\<lambda>(j, n). (j, share c ?t n)) (item_rewards c)])"
  have pos: "0 < fo_FosterTime c" using c by (simp add: card_ok_def)
  from Cons.prems(1) have s: "0 \<le> card_start" "card_start \<le> i32 (now e)" "0 \<le> fc_StartTime v"
    "fc_StartTime v \<le> i32 (now e)" by (auto simp: started_by_def x)
  then have ft: "0 \<le> ?t" "?t \<le> fo_FosterTime c" using pos by (auto simp: foster_time_def)
  have i: "i < ?n" using Cons.prems(2) by simp
  have "settle_rewards c ?t i (fo_Rewards c) (?ids, exps, its) = Some (?ids, ?exps, ?its)"
    using settle_rewards_pairs [of "fo_Rewards c" c ?t i ?ids its exps] c pos ft i Cons.prems(4,5)
    by (simp add: card_ok_def exp_reward_def item_rewards_def split: option.split)
  moreover have ?case if rest: "settle_cats e is_settle card_start (Some c) cats (Suc i) (?ids, ?exps, ?its) =
      Some (stamp e is_settle cats, take (Suc i) ?ids @ map fst cats,
        (case exp_reward c of None \<Rightarrow> ?exps
         | Some r \<Rightarrow> if cats = [] then ?exps
             else Some (take (Suc i) (exps_at ?n ?exps) @ exp_shares e c card_start r cats)),
        (if item_rewards c = [] \<or> cats = [] then ?its
         else Some (take (Suc i) (items_at ?n ?its) @ item_shares e c card_start cats)))"
      and step: "settle_rewards c ?t i (fo_Rewards c) (?ids, exps, its) = Some (?ids, ?exps, ?its)"
  proof -
    have take: "take (Suc i) ?ids = take i ids @ [k]" using i by (simp add: take_Suc_conv_app_nth)
    have e1: "Some (put_exp ?n i w exps) = Some (take i (exps_at ?n exps) @ w # exp_shares e c card_start r cats)"
      if "cats = []" for w r
      using that Cons.prems(2,3) by (simp add: put_exp_def exps_at_def exp_shares_def list_update_append
          upd_conv_take_nth_drop)
    have e2: "take (Suc i) (exps_at ?n (Some (put_exp ?n i w exps))) = take i (exps_at ?n exps) @ [w]" for w
      using i Cons.prems(3) by (simp add: put_exp_def exps_at_def take_Suc_conv_app_nth)
    have i1: "?xs[i := w] = take i ?xs @ [w]" if "cats = []" for w
      using that Cons.prems(2,4) by (simp add: upd_conv_take_nth_drop)
    have i2: "take (Suc i) (items_at ?n (Some (?xs[i := w]))) = take i ?xs @ [w]" for w
      using i Cons.prems(4) by (simp add: items_at_def take_Suc_conv_app_nth)
    note ut = foster_use_time_exact [OF s]
    have one: "settle_cats e is_settle card_start (Some c) ((k, v) # cats) i (ids, exps, its) =
        Option.bind (settle_cats e is_settle card_start (Some c) cats (Suc i) (?ids, ?exps, ?its))
          (\<lambda>(cats, r). Some ((k, if is_settle then v\<lparr>fc_StartTime := i32 (now e)\<rparr> else v) # cats, r))"
      unfolding settle_cats.simps Let_def option.case if_not_P [OF ut(2)] ut(1) step by simp
    have its: "(if item_rewards c = [] \<or> cats = [] then ?its
        else Some (take (Suc i) (items_at ?n ?its) @ item_shares e c card_start cats)) =
      (if item_rewards c = [] then its
       else Some (take i ?xs @ item_shares e c card_start ((k, v) # cats)))"
      using i1 i2 by (simp add: item_shares_def)
    have exps: "(case exp_reward c of None \<Rightarrow> ?exps
        | Some r \<Rightarrow> if cats = [] then ?exps
            else Some (take (Suc i) (exps_at ?n ?exps) @ exp_shares e c card_start r cats)) =
      (case exp_reward c of None \<Rightarrow> exps
       | Some r \<Rightarrow> Some (take i (exps_at ?n exps) @ exp_shares e c card_start r ((k, v) # cats)))"
      using e1 e2 by (simp add: exp_shares_def split: option.split)
    show ?thesis
      unfolding x one rest bind.bind_lunit prod.case its exps take by (simp add: stamp_def split: option.split)
  qed
  moreover have "settle_cats e is_settle card_start (Some c) cats (Suc i) (?ids, ?exps, ?its) =
      Some (stamp e is_settle cats, take (Suc i) ?ids @ map fst cats,
        (case exp_reward c of None \<Rightarrow> ?exps
         | Some r \<Rightarrow> if cats = [] then ?exps
             else Some (take (Suc i) (exps_at ?n ?exps) @ exp_shares e c card_start r cats)),
        (if item_rewards c = [] \<or> cats = [] then ?its
         else Some (take (Suc i) (items_at ?n ?its) @ item_shares e c card_start cats)))"
  proof -
    have n: "length ?ids = ?n" by simp
    have a1: "started_by e card_start cats" using Cons.prems(1) by (simp add: started_by_def)
    have a2: "length ?ids = Suc i + length cats" using Cons.prems(2) by simp
    have a3: "length (exps_at (length ?ids) ?exps) = length ?ids"
      unfolding n using Cons.prems(3) by (simp add: exps_at_def put_exp_def split: option.splits)
    have a4: "length (items_at (length ?ids) ?its) = length ?ids"
      unfolding n using Cons.prems(4) by (simp add: items_at_def)
    have a5: "\<forall>j\<ge>Suc i. j < length ?ids \<longrightarrow> items_at (length ?ids) ?its ! j = []"
      unfolding n using Cons.prems(5) by (simp add: items_at_def)
    from Cons.IH [OF a1 a2 a3 a4 a5] show ?thesis unfolding n .
  qed
  ultimately show ?case by blast
qed


text \<open>
  The settlement of the column: every cat gets, of every reward of the card, the part its time in the
  place is of the card's time, rounded down, counted from when both the cat and the card were there
  and at most the card's time.
\<close>

lemma column_settlement:
  assumes "card_ok c" "started_by e card_start (p_FosterCats p)" "p_FosterCats p \<noteq> []"
  shows "FosterCats_Settlement e is_settle card_start (Some c) p = Some
    ((map fst (p_FosterCats p),
      map_option (\<lambda>r. map (\<lambda>(k, v). r * foster_time e c card_start v div fo_FosterTime c) (p_FosterCats p)) (exp_reward c),
      if item_rewards c = [] then None
      else Some (map (\<lambda>(k, v). map (\<lambda>(j, n). (j, n * foster_time e c card_start v div fo_FosterTime c)) (item_rewards c))
        (p_FosterCats p))),
     p\<lparr>p_FosterCats := if is_settle
       then map (\<lambda>(k, v). (k, v\<lparr>fc_StartTime := i32 (now e)\<rparr>)) (p_FosterCats p) else p_FosterCats p\<rparr>)"
proof -
  let ?ids = "replicate (length (p_FosterCats p)) (0 :: int)"
  have "settle_cats e is_settle card_start (Some c) (p_FosterCats p) 0 (?ids, None, None) =
      Some (stamp e is_settle (p_FosterCats p), take 0 ?ids @ map fst (p_FosterCats p),
        (case exp_reward c of None \<Rightarrow> None
         | Some r \<Rightarrow> if p_FosterCats p = [] then None
             else Some (take 0 (exps_at (length ?ids) None) @ exp_shares e c card_start r (p_FosterCats p))),
        (if item_rewards c = [] \<or> p_FosterCats p = [] then None
         else Some (take 0 (items_at (length ?ids) None) @ item_shares e c card_start (p_FosterCats p))))"
    by (rule settle_cats_exact [OF assms(1,2)]) (simp_all add: exps_at_def items_at_def)
  moreover have "stamp e False cats = cats" for cats by (simp add: stamp_def case_prod_unfold)
  ultimately show ?thesis
    using assms(3) by (cases "exp_reward c")
      (auto simp: FosterCats_Settlement_def stamp_def exp_shares_def item_shares_def share_def)
qed

text \<open>Settling in between never pays more than settling once.\<close>

lemma share_split: "0 < fo_FosterTime c \<Longrightarrow> share c a n + share c b n \<le> share c (a + b) n"
proof -
  assume pos: "0 < fo_FosterTime c"
  have "(share c a n + share c b n) * fo_FosterTime c \<le> n * a + n * b"
    using pos unfolding share_def distrib_right
    by (intro add_mono) (simp_all add: minus_mod_eq_div_mult [symmetric])
  with pos show ?thesis
    by (simp add: share_def distrib_left [symmetric]) (metis mult.commute zdiv_mono1 nonzero_mult_div_cancel_right less_irrefl)
qed

subsection \<open>What the own cats are paid\<close>

text \<open>A card that has run out is cleared before the settlement: what the cats earned with it is lost.\<close>

lemma settle_cats_no_card:
  "length ids = i + length cats \<Longrightarrow>
     settle_cats e s t None cats i (ids, exps, its) = Some (cats, (take i ids @ map fst cats, exps, its))"
proof (induction cats arbitrary: i ids)
  case (Cons x cats)
  obtain k v where x: "x = (k, v)" by fastforce
  from Cons.prems have i: "i < length ids" by simp
  from Cons.IH [of "ids[i := k]" "Suc i"] Cons.prems
  have "settle_cats e s t None cats (Suc i) (ids[i := k], exps, its) =
      Some (cats, (take (Suc i) (ids[i := k]) @ map fst cats, exps, its))" by simp
  moreover have "take (Suc i) (ids[i := k]) = take i ids @ [k]" using i by (simp add: take_Suc_conv_app_nth)
  ultimately show ?case by (simp add: x)
qed simp

lemma expired_card_pays_nothing:
  assumes "GetCardRemainSeconds e p \<le> 0" "foster_map e 0 = None"
  shows "\<exists>cs. foster_settlement_self_cats e is_settle get_msg get_rewards p = Some ((cs, []), clear_card p)"
proof -
  have "FosterCats_Settlement e is_settle 0 None (clear_card p) =
      Some ((map fst (p_FosterCats p), None, None), clear_card p)"
    by (simp add: FosterCats_Settlement_def settle_cats_no_card clear_card_def)
  with assms show ?thesis
    by (simp add: foster_settlement_self_cats_def clear_card_def Let_def)
qed

definition share_since :: "env \<Rightarrow> xml_foster \<Rightarrow> int \<Rightarrow> foster_cat_data \<Rightarrow> int \<Rightarrow> int" where
  "share_since e c card_start v n = n * (i32 (now e) - max card_start (fc_StartTime v)) div fo_FosterTime c"

text \<open>What the cats of \<open>p\<close> have earned: the experience of each and its items.\<close>

definition exp_earned :: "env \<Rightarrow> xml_foster \<Rightarrow> player \<Rightarrow> (int \<times> int) list option" where
  "exp_earned e c p = map_option (\<lambda>n. map (\<lambda>(k, v). (k, share_since e c (fs_StartTime (p_Foster p)) v n)) (p_FosterCats p)) (exp_reward c)"

definition items_earned :: "env \<Rightarrow> xml_foster \<Rightarrow> player \<Rightarrow> (int \<times> int) list" where
  "items_earned e c p = concat (map (\<lambda>(k, v). map (\<lambda>(j, n). (j, share_since e c (fs_StartTime (p_Foster p)) v n)) (item_rewards c))
     (p_FosterCats p))"

text \<open>The payment: every cat is fed, the items go to the owner, every cat starts anew.\<close>

definition paid :: "env \<Rightarrow> xml_foster \<Rightarrow> player \<Rightarrow> player option" where
  "paid e c p =
     (let p1 = p\<lparr>p_FosterCats := map (\<lambda>(k, v). (k, v\<lparr>fc_StartTime := i32 (now e)\<rparr>)) (p_FosterCats p)\<rparr>;
          p2 = (case exp_earned e c p of None \<Rightarrow> p1
                | Some xs \<Rightarrow> TaskUpdate e TASK_COMPLETE_TYPE_GET_EXP_BY_FOSTER False 0 1 (feed_settled e xs p1))
      in if item_rewards c = [] then Some p2 else map_option SendItemsUpdate (add_settled e (items_earned e c p) p2))"

text \<open>While the card runs no cat has been in the place for longer than the card's time.\<close>

lemma running_time:
  assumes "0 < GetCardRemainSeconds e p" "foster_map e (fs_EquippedCardId (p_Foster p)) = Some c"
    "started_by e (fs_StartTime (p_Foster p)) (p_FosterCats p)" "(k, v) \<in> set (p_FosterCats p)"
  shows "foster_time e c (fs_StartTime (p_Foster p)) v = i32 (now e) - max (fs_StartTime (p_Foster p)) (fc_StartTime v)"
proof -
  have "i32 (i32 (now e) - fs_StartTime (p_Foster p)) = i32 (now e) - fs_StartTime (p_Foster p)"
    using assms(3) i32_upper [of "now e"] by (intro i32_range_id) (auto simp: started_by_def)
  with assms(1,2) have "i32 (now e) - fs_StartTime (p_Foster p) < fo_FosterTime c"
    by (auto simp: GetCardRemainSeconds_def get_foster_card_remain_seconds_def GetRemainSeconds_def Let_def split: if_splits)
  then show ?thesis by (auto simp: foster_time_def)
qed

text \<open>
  Property C35. What the foster place pays for the player's own cats (at least one is there, neither
  the card nor a cat was put there in the future; the table has no card 0, and the row of the equipped
  card has a positive time, names every reward once, and no reward times the time leaves 32 bits).
  Once the card has run out nothing is paid: the card is cleared and that is all. While it runs, a query
  changes nothing, and a settlement pays for every cat, of every reward of the card, the part that the
  cat's time is of the card's time, rounded down, counted from when both the cat and the card were
  there: experience is fed to the cat, the other rewards go to the owner. Then every cat's time starts
  anew. The rewards reported are the ones that go to the owner.
\<close>

theorem foster_settlement_exact:
  assumes "foster_map e 0 = None" "foster_map e (fs_EquippedCardId (p_Foster p)) = Some c" "card_ok c"
    and "started_by e (fs_StartTime (p_Foster p)) (p_FosterCats p)" "p_FosterCats p \<noteq> []"
  shows "\<exists>cs. foster_settlement_self_cats e is_settle get_msg get_rewards p =
    (if GetCardRemainSeconds e p \<le> 0 then Some ((cs (clear_card p), []), clear_card p)
     else map_option (\<lambda>q. ((cs q, if get_rewards then items_earned e c p else []), q)) (if is_settle then paid e c p else Some p))"
proof (cases "GetCardRemainSeconds e p \<le> 0")
  case True
  with expired_card_pays_nothing [OF True assms(1), of is_settle get_msg get_rewards] show ?thesis by auto
next
  case False
  let ?t = "fs_StartTime (p_Foster p)" and ?cats = "p_FosterCats p"
  have time: "n * foster_time e c ?t v div fo_FosterTime c = share_since e c ?t v n" if "(k, v) \<in> set ?cats" for k v n
    using running_time [OF _ assms(2,4) that] False by (simp add: share_since_def)
  have st: "FosterCats_Settlement e is_settle ?t (Some c) p = Some ((map fst ?cats, map_option (map snd) (exp_earned e c p),
      if item_rewards c = [] then None
      else Some (map (\<lambda>(k, v). map (\<lambda>(j, n). (j, share_since e c ?t v n)) (item_rewards c)) ?cats)),
    if is_settle then p\<lparr>p_FosterCats := map (\<lambda>(k, v). (k, v\<lparr>fc_StartTime := i32 (now e)\<rparr>)) ?cats\<rparr> else p)"
    unfolding column_settlement [OF assms(3-5)] by (auto simp: exp_earned_def time option.map_comp comp_def case_prod_unfold intro!: map_option_cong)
  have zip: "zip (map fst ?cats) (map snd xs) = xs" if "exp_earned e c p = Some xs" for xs
  proof -
    have "map fst xs = map fst ?cats" using that by (auto simp: exp_earned_def case_prod_unfold comp_def)
    then show ?thesis by (metis zip_map_fst_snd)
  qed
  have ne: "map fst ?cats \<noteq> []" using assms(5) by simp
  define its where "its = (if item_rewards c = [] then None
    else Some (map (\<lambda>(k, v). map (\<lambda>(j, n). (j, share_since e c ?t v n)) (item_rewards c)) ?cats))"
  define cs where "cs q = (if get_msg then map (\<lambda>x. x\<lparr>fci_StartTime := fst (col_get_field fc_StartTime 0 (p_FosterCats q) (fci_CatId x))\<rparr>)
    (foster_build_self_cats_msg (map fst ?cats) (map_option (map snd) (exp_earned e c p)) its) else [])" for q :: player
  have none: "items_earned e c p = []" if "item_rewards c = []"
    using that by (simp add: items_earned_def case_prod_unfold)
  have some: "its = (if item_rewards c = [] then None else Some xs) \<and> concat xs = items_earned e c p"
    if "xs = map (\<lambda>(k, v). map (\<lambda>(j, n). (j, share_since e c ?t v n)) (item_rewards c)) ?cats" for xs
    using that by (simp add: its_def items_earned_def)
  obtain xs where xs: "its = (if item_rewards c = [] then None else Some xs)" "concat xs = items_earned e c p"
    using some by blast
  show ?thesis
    unfolding foster_settlement_self_cats_def Let_def if_not_P [OF False] assms(2) st its_def [symmetric] bind.bind_lunit prod.case if_not_P [OF ne]
    by (intro exI [of _ cs], cases "exp_earned e c p"; cases is_settle)
      (auto simp: paid_def zip xs none cs_def map_option_case Let_def split: option.split)
qed

definition demo_card :: xml_foster where
  "demo_card = \<lparr>fo_Id = 40, fo_Rarity = 1, fo_FosterTime = 100, fo_Rewards = [13, 50, 2, 30],
     fo_FusionScores = [], fo_FusionTypeWeights = [], fo_BeHitScores = []\<rparr>"

definition demo_foster :: player where
  "demo_foster = empty_player\<lparr>p_Foster := \<lparr>fs_EquippedCardId = 40, fs_StartTime = 1010\<rparr>,
     p_FosterCats := [(7, \<lparr>fc_CatId = 7, fc_StartTime = 1000, fc_RemainSeconds = 0\<rparr>),
       (8, \<lparr>fc_CatId = 8, fc_StartTime = 1040, fc_RemainSeconds = 0\<rparr>)]\<rparr>"

definition demo_foster_env :: "int \<Rightarrow> env" where
  "demo_foster_env t = empty_env\<lparr>now := t, foster_map := [40 \<mapsto> demo_card]\<rparr>"

lemma foster_settlement_exact_witness:
  "(\<exists>cs. foster_settlement_self_cats (demo_foster_env 1060) False True True demo_foster = Some ((cs, [(2, 15), (2, 6)]), demo_foster))
   \<and> (\<exists>cs. foster_settlement_self_cats (demo_foster_env 1200) True True True demo_foster = Some ((cs, []), clear_card demo_foster))"
proof -
  have i: "i32 1060 = 1060" "i32 1200 = 1200" "i32 50 = 50" "i32 190 = 190" by (simp_all add: i32_def)
  have c: "card_ok demo_card" by (simp add: card_ok_def demo_card_def)
  have f: "foster_map (demo_foster_env t) 0 = None" "foster_map (demo_foster_env t) (fs_EquippedCardId (p_Foster demo_foster)) = Some demo_card" for t
    by (simp_all add: demo_foster_env_def demo_foster_def empty_env_def)
  have s: "started_by (demo_foster_env t) (fs_StartTime (p_Foster demo_foster)) (p_FosterCats demo_foster)" if "t \<in> {1060, 1200}" for t
    using that by (auto simp: started_by_def demo_foster_def demo_foster_env_def i)
  have ne: "p_FosterCats demo_foster \<noteq> []" by (simp add: demo_foster_def)
  have g: "0 < GetCardRemainSeconds (demo_foster_env 1060) demo_foster" "GetCardRemainSeconds (demo_foster_env 1200) demo_foster \<le> 0"
    by (simp_all add: GetCardRemainSeconds_def get_foster_card_remain_seconds_def GetRemainSeconds_def demo_foster_def demo_foster_env_def demo_card_def i)
  have it: "items_earned (demo_foster_env 1060) demo_card demo_foster = [(2, 15), (2, 6)]"
    by (simp add: items_earned_def item_rewards_def share_since_def demo_foster_def demo_foster_env_def demo_card_def i)
  from foster_settlement_exact [OF f c s ne, of 1060 False True True] g(1) it
    foster_settlement_exact [OF f c s ne, of 1200 True True True] g(2)
  show ?thesis by (auto simp: not_le)
qed

subsection \<open>The cats in the place\<close>

lemma side_feed_cat [simp]: "side (snd (feed_cat e k food x p)) = side p"
proof -
  have "side (snd (send_cats_update q)) = side q" for q by (intro side_quiet) simp
  moreover have "side (snd (cat_update k q)) = side q" for q by (intro side_quiet) simp
  ultimately show ?thesis
    by (simp add: feed_cat_def feed_commit_def Let_def split_beta Cats_Set_def split: option.split)
qed

lemma side_feed_settled [simp]: "side (feed_settled e xs p) = side p"
  by (induction e xs p rule: feed_settled.induct) simp_all

lemma side_add_settled: "add_settled e xs p = Some q \<Longrightarrow> side q = side p"
  by (induction e xs p rule: add_settled.induct) (auto dest!: side_AddItemResource split: bind_splits)

lemma settle_cats_rows:
  "settle_cats e s t c cats i r = Some (cats', r') \<Longrightarrow>
     map (\<lambda>(k, v). (k, fc_CatId v)) cats' = map (\<lambda>(k, v). (k, fc_CatId v)) cats"
proof (induction cats arbitrary: i r cats' r')
  case (Cons x cats)
  obtain k v where x: "x = (k, v)" by fastforce
  obtain ids exps its where r: "r = (ids, exps, its)" by (metis prod_cases3)
  from Cons.prems obtain i' r1 cs w where
    "settle_cats e s t c cats i' r1 = Some (cs, r')" "cats' = (k, w) # cs" "fc_CatId w = fc_CatId v"
    unfolding x r settle_cats.simps Let_def
    by (auto split: option.splits if_split_asm bind_splits prod.splits)
  with Cons.IH show ?case by (simp add: x)
qed simp

definition foster_ok :: "player \<Rightarrow> bool" where
  "foster_ok p \<longleftrightarrow> distinct (map fst (p_FosterCats p)) \<and> length (p_FosterCats p) \<le> 6
     \<and> (\<forall>(k, v)\<in>set (p_FosterCats p). fc_CatId v = k \<and> 0 < k)"

lemma foster_ok_rows:
  assumes "map (\<lambda>(k, v). (k, fc_CatId v)) (p_FosterCats q) = map (\<lambda>(k, v). (k, fc_CatId v)) (p_FosterCats p)"
  shows "foster_ok q \<longleftrightarrow> foster_ok p"
proof -
  let ?f = "\<lambda>(k :: int, v). (k, fc_CatId v)"
  have a: "foster_ok x \<longleftrightarrow> distinct (map fst (map ?f (p_FosterCats x))) \<and> length (map ?f (p_FosterCats x)) \<le> 6
      \<and> (\<forall>(k, c)\<in>set (map ?f (p_FosterCats x)). c = k \<and> 0 < k)" for x
  proof -
    have x1: "map fst (map ?f xs) = map fst xs" for xs :: "(int \<times> foster_cat_data) list" by (induction xs) auto
    have x2: "(\<forall>(k, c)\<in>set (map ?f xs). c = k \<and> 0 < k) \<longleftrightarrow> (\<forall>(k, v)\<in>set xs. fc_CatId v = k \<and> 0 < k)"
      for xs by auto
    show ?thesis unfolding foster_ok_def length_map x1 x2 ..
  qed
  show ?thesis unfolding a [of q] a [of p] assms by simp
qed

lemma foster_ok_side:
  assumes "side q = side p" shows "foster_ok q \<longleftrightarrow> foster_ok p"
  unfolding foster_ok_def side_frame(53) [OF assms] ..

lemma self_cats_ok:
  assumes "foster_settlement_self_cats e s a b p = Some (r, q)"
  shows "foster_ok q \<longleftrightarrow> foster_ok p"
proof -
  let ?p = "if GetCardRemainSeconds e p \<le> 0 then clear_card p else p"
  have p: "foster_ok ?p \<longleftrightarrow> foster_ok p" by (simp add: foster_ok_def clear_card_def)
  obtain ids exps its p' where
    st: "FosterCats_Settlement e s (fs_StartTime (p_Foster ?p)) (foster_map e (fs_EquippedCardId (p_Foster ?p))) ?p
        = Some ((ids, exps, its), p')"
    using assms unfolding foster_settlement_self_cats_def Let_def by (auto simp only: bind_eq_Some_conv)
  have q: "side q = side p'"
    using assms unfolding foster_settlement_self_cats_def Let_def st
    by (auto dest!: side_add_settled split: bind_splits if_splits option.splits)
  from st have "foster_ok p' \<longleftrightarrow> foster_ok ?p"
    by (intro foster_ok_rows) (auto simp: FosterCats_Settlement_def dest: settle_cats_rows split: bind_splits)
  with foster_ok_side [OF q] p show ?thesis by blast
qed

lemma foster_pull_ok:
  assumes "foster_data_pull e s p = Some (r, q)" shows "foster_ok q \<longleftrightarrow> foster_ok p"
proof -
  from assms obtain cs rw p' where a: "foster_settlement_self_cats e s True False p = Some ((cs, rw), p')"
    "q = send_foster_self_data e cs p'"
    by (auto simp: foster_data_pull_def split: bind_splits)
  have "foster_ok q \<longleftrightarrow> foster_ok p'" unfolding a(2) send_foster_self_data_def by (simp add: foster_ok_def)
  with self_cats_ok [OF a(1)] show ?thesis by simp
qed


lemma side_draw31n: "draw31n e n p = Some (r, q) \<Longrightarrow> side q = side p"
  by (auto simp: draw31n_def split: bind_splits)

lemma side_compose_cards: "compose_cards e cs p = Some (r, q) \<Longrightarrow> side q = side p"
proof (induction e cs p arbitrary: r q rule: compose_cards.induct)
  case (2 e c cs p)
  show ?case
  proof (cases "foster_map e c")
    case None with 2(2) show ?thesis by simp
  next
    case (Some f)
    from 2(2) Some obtain rw p1 rg p2 r3 p3 where
      d: "draw31n e (weight_sum (fo_FusionTypeWeights f)) p = Some (rw, p1)"
        "draw31n e (weight_sum (fo_FusionScores f)) p1 = Some (rg, p2)"
        "compose_cards e cs p2 = Some (r3, p3)" "q = p3"
      by (auto simp: Let_def split_beta split: bind_splits)
    have "side p3 = side p2" by (rule 2(1) [OF Some d(1) refl refl prod.collapse d(2) refl refl d(3)])
    with side_draw31n [OF d(1)] side_draw31n [OF d(2)] show ?thesis by (simp add: d(4))
  qed
qed simp

lemma side_remove_cards [simp]: "side (fold (\<lambda>c p. snd (RemoveItem e c 1 True p)) cs p) = side p"
proof (induction cs arbitrary: p)
  case (Cons c cs)
  have "side (fold (\<lambda>c p. snd (RemoveItem e c 1 True p)) (c # cs) p) = side (snd (RemoveItem e c 1 True p))"
    unfolding fold_simps by (rule Cons.IH)
  also have "\<dots> = side p" by (rule side_RemoveItem)
  finally show ?case .
qed simp

lemma side_SendCatUpdate [simp]: "side (SendCatUpdate k p) = side p"
  by (simp add: SendCatUpdate_def)

lemma side_compose_foster_card:
  assumes "compose_foster_card e cs p = Some (r, q)" shows "side q = side p"
proof (cases "r = E_ERR_FOSTER_COMPOSE_NOT_ENOUGH_CARD \<and> q = p \<or> r = E_ERR_ITEM_TABLE_DATA_NOT_FOUND \<and> q = p")
  case False
  with assms obtain c p1 where c: "compose_cards e cs p = Some (c, p1)"
    by (auto simp: compose_foster_card_def split: if_split_asm bind_splits)
  from c have s1: "side p1 = side p" by (rule side_compose_cards)
  show ?thesis
  proof (cases c)
    case (Inl err)
    with assms c s1 show ?thesis by (auto simp: compose_foster_card_def split: if_split_asm)
  next
    case (Inr picks)
    from assms False obtain rw p2 where d: "draw31n e (fold (\<lambda>(_, w, _) a. i32 (a + w)) picks 0) p1 = Some (rw, p2)"
      by (auto simp: compose_foster_card_def c Inr split: if_split_asm bind_splits)
    have "side q = side p2"
      using assms False unfolding compose_foster_card_def c Inr
      by (auto simp: d Let_def split: if_split_asm bind_splits option.split_asm)
    with side_draw31n [OF d] s1 show ?thesis by simp
  qed
qed (auto)

lemma foster_set_cat_ok:
  assumes "foster_set_cat e b k p = Some (r, q)" "foster_ok p" shows "foster_ok q"
proof (cases "IfCatBusy p k \<or> int (length (p_FosterCats p)) \<ge> 6")
  case True
  with assms show ?thesis by (auto simp: foster_set_cat_def CheckAndAddCat_def split: if_splits)
next
  case False
  then have k: "0 < k" "k \<notin> fst ` set (p_FosterCats p)" "length (p_FosterCats p) < 6"
    by (auto simp: IfCatBusy_def IfCatInExpedition_def col_HasIndex_def map_of_eq_None_iff split: if_splits prod.splits)
  let ?p = "p\<lparr>p_FosterCats := p_FosterCats p @ [(k, \<lparr>fc_CatId = k, fc_StartTime = i32 (now e), fc_RemainSeconds = 0\<rparr>)]\<rparr>"
  from assms(1) False obtain r' where
    "foster_data_pull e False (Send_msg (S2CFosterSetCatResult b k) (SendCatUpdate k ?p)) = Some (r', q)"
    by (auto simp: foster_set_cat_def CheckAndAddCat_def update_append [OF k(2)] split: bind_splits)
  then have "foster_ok q \<longleftrightarrow> foster_ok (Send_msg (S2CFosterSetCatResult b k) (SendCatUpdate k ?p))"
    by (rule foster_pull_ok)
  also have "\<dots> \<longleftrightarrow> foster_ok ?p" by (rule foster_ok_side) simp
  also have "\<dots>" using assms(2) k by (auto simp: foster_ok_def)
  finally show ?thesis .
qed

lemma foster_out_cat_ok:
  assumes "foster_out_cat e b k p = Some (r, q)" "foster_ok p" shows "foster_ok q"
proof (cases "col_HasIndex (p_FosterCats p) k")
  case False
  with assms show ?thesis by (auto simp: foster_out_cat_def)
next
  case True
  let ?p = "p\<lparr>p_FosterCats := col_Remove k (p_FosterCats p)\<rparr>"
  from assms(1) True obtain r' where
    "foster_data_pull e False (Send_msg (S2CFosterOutCatResult b k) (SendCatUpdate k ?p)) = Some (r', q)"
    by (auto simp: foster_out_cat_def split: bind_splits)
  then have "foster_ok q \<longleftrightarrow> foster_ok (Send_msg (S2CFosterOutCatResult b k) (SendCatUpdate k ?p))"
    by (rule foster_pull_ok)
  also have "\<dots> \<longleftrightarrow> foster_ok ?p" by (rule foster_ok_side) simp
  also have "\<dots>" using assms(2)
    by (auto simp: foster_ok_def col_Remove_def AList.delete_eq distinct_map inj_on_def intro: le_trans [OF length_filter_le])
  finally show ?thesis .
qed

lemma foster_unequip_ok:
  assumes "foster_unequip_card e b p = Some (r, q)" shows "foster_ok q \<longleftrightarrow> foster_ok p"
proof (cases "fs_EquippedCardId (p_Foster p) \<le> 0")
  case True
  with assms show ?thesis by (simp add: foster_unequip_card_def)
next
  case False
  with assms obtain cs rw p' where a: "foster_settlement_self_cats e True True False p = Some ((cs, rw), p')"
    "q = send_foster_self_data e cs (Send_msg (S2CFosterUnequipCardResult b) (clear_card p'))"
    by (auto simp: foster_unequip_card_def Let_def split: bind_splits)
  have "foster_ok q \<longleftrightarrow> foster_ok p'" unfolding a(2) send_foster_self_data_def by (simp add: foster_ok_def clear_card_def)
  with self_cats_ok [OF a(1)] show ?thesis by simp
qed

lemma foster_equip_ok: "foster_ok (snd (foster_equip_card e b c p)) \<longleftrightarrow> foster_ok p"
  by (simp add: foster_equip_card_def foster_ok_def split_beta)


text \<open>The steps of a player that concern his foster place; the last rule is every other step.\<close>

inductive foster_step :: "player \<Rightarrow> player \<Rightarrow> bool" where
  pull: "foster_data_pull e s p = Some (r, q) \<Longrightarrow> foster_step p q"
| equip: "foster_equip_card e b c p = (r, q) \<Longrightarrow> foster_step p q"
| unequip: "foster_unequip_card e b p = Some (r, q) \<Longrightarrow> foster_step p q"
| set: "foster_set_cat e b k p = Some (r, q) \<Longrightarrow> foster_step p q"
| out: "foster_out_cat e b k p = Some (r, q) \<Longrightarrow> foster_step p q"
| compose: "compose_foster_card e cs p = Some (r, q) \<Longrightarrow> foster_step p q"
| rest: "p_FosterCats q = p_FosterCats p \<Longrightarrow> foster_step p q"

lemma foster_step_ok: "foster_step p q \<Longrightarrow> foster_ok p \<Longrightarrow> foster_ok q"
proof (induction rule: foster_step.induct)
  case (equip e b c p r q)
  then show ?case using foster_equip_ok [of e b c p] by simp
next
  case (compose e cs p r q)
  then show ?case using foster_ok_side [OF side_compose_foster_card] by blast
next
  case (rest q p)
  then show ?case by (simp add: foster_ok_def)
qed (blast intro: foster_set_cat_ok foster_out_cat_ok dest: foster_pull_ok foster_unequip_ok)+

text \<open>
  Property C36. The foster place never holds more than six cats, each cat once and under its own id,
  whatever cards are equipped, taken off and composed and whatever cats come and go.
\<close>

theorem foster_at_most_six:
  assumes "foster_step\<^sup>*\<^sup>* p q" "p_FosterCats p = []"
  shows "length (p_FosterCats q) \<le> 6 \<and> distinct (map fst (p_FosterCats q))
    \<and> (\<forall>(k, v)\<in>set (p_FosterCats q). fc_CatId v = k \<and> 0 < k)"
proof -
  have "foster_ok p" using assms(2) by (simp add: foster_ok_def)
  with assms(1) have "foster_ok q" by (induction rule: rtranclp_induct) (blast intro: foster_step_ok)+
  then show ?thesis by (simp add: foster_ok_def)
qed

definition demo_settled :: "player option" where
  "demo_settled = map_option snd (foster_set_cat (empty_env\<lparr>now := 1000\<rparr>) 1 7 empty_player)"

lemma foster_at_most_six_witness:
  "\<exists>q. demo_settled = Some q \<and> map fst (p_FosterCats q) = [7] \<and> length (p_FosterCats q) \<le> 6
     \<and> distinct (map fst (p_FosterCats q)) \<and> (\<forall>(k, v)\<in>set (p_FosterCats q). fc_CatId v = k \<and> 0 < k)"
proof -
  have "\<exists>r q. foster_set_cat (empty_env\<lparr>now := 1000\<rparr>) 1 7 empty_player = Some (r, q) \<and> map fst (p_FosterCats q) = [7]"
    by (simp add: foster_set_cat_def IfCatBusy_def IfCatInExpedition_def CheckAndAddCat_def foster_data_pull_def
        foster_settlement_self_cats_def FosterCats_Settlement_def GetCardRemainSeconds_def
        get_foster_card_remain_seconds_def clear_card_def send_foster_self_data_def SendCatUpdate_def
        empty_player_def empty_env_def col_get_field_def col_HasIndex_def)
  then obtain r q where q: "foster_set_cat (empty_env\<lparr>now := 1000\<rparr>) 1 7 empty_player = Some (r, q)"
    "map fst (p_FosterCats q) = [7]" by auto
  have "foster_step\<^sup>*\<^sup>* empty_player q" by (blast intro: foster_step.set [OF q(1)])
  from foster_at_most_six [OF this] q show ?thesis by (simp add: demo_settled_def empty_player_def)
qed

subsection \<open>What the foster place does not guarantee\<close>

text \<open>Equipping a card does not take it from the bag.\<close>

lemma equip_keeps_card: "p_Items (snd (foster_equip_card e b c p)) = p_Items p"
  by (simp add: foster_equip_card_def Send_msg_def emit_def split_beta)

text \<open>A cat is put into the place even when the player has no cat of that id.\<close>

lemma set_unknown_cat:
  assumes "0 < k" "p_Cats p = []" "p_FosterCats p = []" "p_Expeditions p = []"
  shows "\<not> IfCatBusy p k \<and> p_FosterCats (snd (CheckAndAddCat e k p)) \<noteq> []"
  using assms by (simp add: IfCatBusy_def IfCatInExpedition_def CheckAndAddCat_def col_get_field_def col_HasIndex_def)

text \<open>
  The settlement of a friend's cat counts its loop to the length of the rewards and reads two places
  for each: with any reward at all it runs out of range.
\<close>

lemma friend_rewards_out_of_range:
  "\<exists>i\<in>set is. length rewards \<le> 2 * i + 1 \<Longrightarrow> friend_rewards rewards is r = None"
proof (induction "is" arbitrary: r)
  case (Cons i "is")
  obtain x its where r: "r = (x, its)" by fastforce
  show ?case
  proof (cases "length rewards \<le> 2 * i + 1")
    case True
    then have "go_nth rewards (2 * int i + 1) = None" by (simp add: go_nth_def)
    then show ?thesis by (simp add: r split: bind_splits)
  next
    case False
    with Cons have "friend_rewards rewards is r = None" for r by simp
    then show ?thesis by (simp add: r split: bind_splits)
  qed
qed simp

lemma due_friend_cat_panics:
  assumes "map_of (p_FosterFriendCats p) fid = Some d" "foster_map e (ff_StartCardId d) = Some c"
    "fo_Rewards c \<noteq> []" "i32 (gc_FriendFosterHours (config e) * 3600) \<le> i32 (i32 (now e) - ff_StartTime d)"
  shows "FosterFriendCats_Settlement e fid p = None"
proof -
  have "\<exists>i\<in>set [0..<length (fo_Rewards c)]. length (fo_Rewards c) \<le> 2 * i + 1"
    using assms(3) by (intro bexI [of _ "length (fo_Rewards c) - 1"]) (cases "fo_Rewards c"; auto)+
  from friend_rewards_out_of_range [OF this] assms show ?thesis
    by (simp add: FosterFriendCats_Settlement_def Let_def)
qed

lemma side_settlement_from_friend:
  assumes "settlement_from_friend_foster e k x its p = Some q" shows "side q = side p"
proof -
  let ?p = "if x > 0 then snd (feed_cat e k 0 x p) else p"
  have "side ?p = side p" by simp
  moreover have "side q = side ?p"
    using assms by (auto simp: settlement_from_friend_foster_def Let_def dest: side_add_settled split: option.splits)
  ultimately show ?thesis by simp
qed

lemma settle_friends_panics:
  assumes "fid \<in> set fids" "map_of (p_FosterFriendCats p) fid = Some d"
    "foster_map e (ff_StartCardId d) = Some c" "fo_Rewards c \<noteq> []"
    "i32 (gc_FriendFosterHours (config e) * 3600) \<le> i32 (i32 (now e) - ff_StartTime d)"
  shows "settle_friends e known fids p = None"
  using assms(1,2)
proof (induction fids arbitrary: p)
  case (Cons x fids)
  show ?case
  proof (cases "x = fid")
    case True
    with due_friend_cat_panics [OF Cons.prems(2) assms(3-5)] show ?thesis by simp
  next
    case False
    with Cons.prems have fid: "fid \<in> set fids" by simp
    note IH = Cons.IH [OF this]
    show ?thesis
    proof (rule ccontr)
      assume "settle_friends e known (x # fids) p \<noteq> None"
      then obtain ds q where run: "settle_friends e known (x # fids) p = Some (ds, q)" by auto
      then obtain r xp its where st: "FosterFriendCats_Settlement e x p = Some (r, xp, its)"
        by (auto split: bind_splits)
      show False
      proof (cases "r = 0")
        case True
        with run st obtain p' where p': "(if known x then map_option SendItemsUpdate
              (settlement_from_friend_foster e (fst (col_get_field ff_CatId 0 (p_FosterFriendCats p) x)) xp its p)
            else Some p) = Some p'"
          and rest: "settle_friends e known fids (p'\<lparr>p_FosterFriendCats := col_Remove x (p_FosterFriendCats p')\<rparr>) = Some (ds, q)"
          by (auto simp: Let_def split: bind_splits)
        from p' have "side p' = side p"
          by (auto dest: side_settlement_from_friend split: if_split_asm)
        then have "p_FosterFriendCats p' = p_FosterFriendCats p" by (rule side_frame)
        with IH [of "p'\<lparr>p_FosterFriendCats := col_Remove x (p_FosterFriendCats p')\<rparr>"] rest Cons.prems(2) False
        show False by (simp add: col_Remove_def map_of_delete)
      next
        case nz: False
        with run st IH [OF Cons.prems(2)] show False by (auto simp: Let_def split: if_split_asm bind_splits)
      qed
    qed
  qed
qed simp

text \<open>
  A cat in the foster place of a friend is never paid: once its time is over and its card
  has any reward, the settlement of the place where it is runs out of range: the handler panics, with
  whatever other cats there are, and the row stays.
\<close>

theorem friend_settlement_panics:
  assumes "map_of (p_FosterFriendCats p) fid = Some d" "foster_map e (ff_StartCardId d) = Some c"
    "fo_Rewards c \<noteq> []" "i32 (gc_FriendFosterHours (config e) * 3600) \<le> i32 (i32 (now e) - ff_StartTime d)"
  shows "foster_settlement_friends_cat e known p = None"
proof -
  have "fid \<in> set (col_GetAllIndex (p_FosterFriendCats p))"
    using assms(1) by (auto simp: col_GetAllIndex_def dest!: map_of_SomeD intro: rev_image_eqI)
  from settle_friends_panics [OF this assms] show ?thesis by (simp add: foster_settlement_friends_cat_def)
qed

definition demo_friend_row :: foster_friend_cat_data where
  "demo_friend_row = \<lparr>ff_PlayerId = 5, ff_CatId = 3, ff_CatTableId = 1, ff_StartTime = 0, ff_StartCardId = 40,
     ff_PlayerName = [], ff_PlayerLevel = 1, ff_PlayerHead = 0, ff_CatLevel = 1, ff_CatStar = 1, ff_CatNick = []\<rparr>"

lemma friend_settlement_panics_witness:
  "foster_settlement_friends_cat (empty_env\<lparr>now := 100000, foster_map := [40 \<mapsto> demo_card],
      config := config empty_env\<lparr>gc_FriendFosterHours := 10\<rparr>\<rparr>) (\<lambda>_. True)
    (empty_player\<lparr>p_FosterFriendCats := [(5, demo_friend_row)]\<rparr>) = None"
  by (rule friend_settlement_panics [where fid = 5 and d = demo_friend_row and c = demo_card])
    (simp_all add: demo_friend_row_def demo_card_def i32_def)

end
