(* ===== verification/ExpeditionRun.thy ===== *)
theory ExpeditionRun
  imports Expedition FosterPay
begin

text \<open>
  What expeditions guarantee: the states and results of the tasks, that no cat is on two expeditions or
  on one and in the foster place, what a start pays and that its loop over the events ends. And what
  they do not: see the last subsection.
\<close>

subsection \<open>Draws\<close>

text \<open>The random parts of the handlers change nothing but the position in the sequence of draws.\<close>

definition drawn :: "player \<Rightarrow> player \<Rightarrow> bool" where
  "drawn p q \<longleftrightarrow> (\<exists>n. q = p\<lparr>p_ndraws := n\<rparr>)"

lemma drawn_refl [simp, intro]: "drawn p p"
  unfolding drawn_def by (intro exI [of _ "p_ndraws p"]) simp

lemma drawn_trans: "drawn p q \<Longrightarrow> drawn q r \<Longrightarrow> drawn p r"
  by (auto simp: drawn_def)

lemma drawn_frame:
  assumes "drawn p q"
  shows "p_Expeditions q = p_Expeditions p" "p_FosterCats q = p_FosterCats p" "p_Cats q = p_Cats p"
    "side q = side p" "p_Items q = p_Items p" "p_Info q = p_Info p"
  using assms by (auto simp: drawn_def)

lemma drawn_draw31n: "draw31n e n p = Some (r, q) \<Longrightarrow> drawn p q"
  by (auto simp: draw31n_def drawn_def split: bind_splits)

lemma drawn_rand_tasks: "rand_tasks e l n w ids p = Some (r, q) \<Longrightarrow> drawn p q"
proof (induction n arbitrary: w ids p r)
  case (Suc n)
  show ?case
  proof (cases "w \<le> 0")
    case True with Suc.prems show ?thesis by simp
  next
    case False
    with Suc.prems obtain x p1 where d: "draw31n e w p = Some (x, p1)" by (auto split: bind_splits)
    with Suc.prems False obtain w' ids' r' where "rand_tasks e l n w' ids' p1 = Some (r', q)"
      by (auto split: bind_splits option.splits)
    from drawn_trans [OF drawn_draw31n [OF d] Suc.IH [OF this]] show ?thesis .
  qed
qed simp

lemma drawn_RandN: "RandNWithExistIds e ids l n p = Some (r, q) \<Longrightarrow> drawn p q"
  by (auto simp: RandNWithExistIds_def Let_def dest: drawn_rand_tasks split: if_splits)

lemma drawn_color_loop: "color_loop e ws n w used p = Some (r, q) \<Longrightarrow> drawn p q"
proof (induction n arbitrary: w used p r)
  case (Suc n)
  show ?case
  proof (cases "w \<le> 0")
    case True with Suc.prems show ?thesis by simp
  next
    case False
    with Suc.prems obtain x p1 where d: "draw31n e w p = Some (x, p1)" by (auto split: bind_splits)
    with Suc.prems False obtain w' used' r' where "color_loop e ws n w' used' p1 = Some (r', q)"
      by (auto split: bind_splits option.splits)
    from drawn_trans [OF drawn_draw31n [OF d] Suc.IH [OF this]] show ?thesis .
  qed
qed simp

lemma drawn_make_con: "make_con e c p = Some (r, q) \<Longrightarrow> drawn p q"
  by (auto simp: make_con_def dest: drawn_color_loop split: if_splits bind_splits)

lemma drawn_con_loop: "con_loop e cs n w used p = Some (r, q) \<Longrightarrow> drawn p q"
proof (induction n arbitrary: w used p r)
  case (Suc n)
  show ?case
  proof (cases "w \<le> 0")
    case True with Suc.prems show ?thesis by simp
  next
    case False
    with Suc.prems obtain x p1 where d: "draw31n e w p = Some (x, p1)" by (auto split: bind_splits)
    show ?thesis
    proof (cases "pick_free (map ec_Con_Weight cs) 0 used x")
      case None
      with Suc.prems False d obtain r' where "con_loop e cs n w used p1 = Some (r', q)"
        by (auto split: bind_splits)
      from drawn_trans [OF drawn_draw31n [OF d] Suc.IH [OF this]] show ?thesis .
    next
      case (Some i)
      with Suc.prems False d obtain y p2 w' used' r' where m: "make_con e (cs ! i) p1 = Some (y, p2)"
        and "con_loop e cs n w' used' p2 = Some (r', q)" by (auto split: bind_splits)
      from drawn_trans [OF drawn_trans [OF drawn_draw31n [OF d] drawn_make_con [OF m]] Suc.IH [OF this(2)]]
      show ?thesis .
    qed
  qed
qed simp

subsection \<open>Crews\<close>

text \<open>Which cat is on which expedition; most steps only take cats off.\<close>

definition crew :: "player \<Rightarrow> (int \<times> int) set" where
  "crew p = {(k, c). \<exists>v. (k, v) \<in> set (p_Expeditions p) \<and> c \<in> set (xd_InCatIds v)}"

definition row_typed :: "expedition_data \<Rightarrow> bool" where
  "row_typed v \<longleftrightarrow> xd_CurState v \<in> {0, 1, 2, 3} \<and> xd_Result v \<in> {0, 1}
     \<and> (xd_CurState v = PLAYER_EXPEDITION_STATE_FAILED \<longrightarrow> xd_Result v = 0)
     \<and> (xd_CurState v = PLAYER_EXPEDITION_STATE_SUCCEED \<longrightarrow> xd_Result v = 1)"

definition exp_typed :: "player \<Rightarrow> bool" where
  "exp_typed p \<longleftrightarrow> (\<forall>(k, v)\<in>set (p_Expeditions p). row_typed v)"

definition exp_fewer :: "player \<Rightarrow> player \<Rightarrow> bool" where
  "exp_fewer p q \<longleftrightarrow> crew q \<subseteq> crew p \<and> map fst (p_FosterCats q) = map fst (p_FosterCats p) \<and> (exp_typed p \<longrightarrow> exp_typed q)"

lemma exp_fewer_refl [simp, intro]: "exp_fewer p p"
  by (simp add: exp_fewer_def)

lemma exp_fewer_trans: "exp_fewer p q \<Longrightarrow> exp_fewer q r \<Longrightarrow> exp_fewer p r"
  by (auto simp: exp_fewer_def)

lemma exp_fewer_same: "p_Expeditions q = p_Expeditions p \<Longrightarrow> p_FosterCats q = p_FosterCats p \<Longrightarrow> exp_fewer p q"
  by (simp add: exp_fewer_def crew_def exp_typed_def)

lemma exp_fewer_side: "side q = side p \<Longrightarrow> exp_fewer p q"
  by (rule exp_fewer_same) (rule side_frame, assumption)+

lemma exp_fewer_drawn: "drawn p q \<Longrightarrow> exp_fewer p q"
  by (rule exp_fewer_side) (rule drawn_frame)

lemma exp_fewer_rows:
  assumes "p_FosterCats q = p_FosterCats p"
    and "\<And>k w. (k, w) \<in> set (p_Expeditions q) \<Longrightarrow> (xd_InCatIds w = [] \<or> (\<exists>v. (k, v) \<in> set (p_Expeditions p) \<and> xd_InCatIds w = xd_InCatIds v))
      \<and> (exp_typed p \<longrightarrow> row_typed w)"
  shows "exp_fewer p q"
  using assms by (fastforce simp: exp_fewer_def crew_def exp_typed_def)

lemma exp_ended_row [simp]: "xd_InCatIds (exp_ended t v) = xd_InCatIds v" "row_typed v \<Longrightarrow> row_typed (exp_ended t v)"
  by (auto simp: exp_ended_def row_typed_def)

lemma row_typed_left [simp]:
  "row_typed (v\<lparr>xd_TaskLeftSec := a, xd_TaskLeftSecLastUpUnix := b\<rparr>) = row_typed v"
  by (simp add: row_typed_def)

lemma update_rows_spec:
  "update_rows e t rows = (rows', del, ids, n) \<Longrightarrow> (k, w) \<in> set rows' \<Longrightarrow>
     \<exists>v. (k, v) \<in> set rows \<and> xd_InCatIds w = xd_InCatIds v \<and> (row_typed v \<longrightarrow> row_typed w)"
proof (induction rows arbitrary: rows' del ids n)
  case (Cons x rows)
  obtain k0 v0 where x: "x = (k0, v0)" by fastforce
  obtain rs d i m where u: "update_rows e t rows = (rs, d, i, m)" by (metis prod_cases4)
  obtain w0 where w0: "rows' = (k0, w0) # rs" "xd_InCatIds w0 = xd_InCatIds v0 \<and> (row_typed v0 \<longrightarrow> row_typed w0)"
    using Cons.prems(1) unfolding x update_rows.simps u prod.case Let_def
    by (cases "expedition_map e (xd_TaskId v0)") (auto split: if_split_asm)
  show ?case
  proof (cases "(k, w) \<in> set rs")
    case True
    from Cons.IH [OF u this] obtain v where "(k, v) \<in> set rows"
      "xd_InCatIds w = xd_InCatIds v \<and> (row_typed v \<longrightarrow> row_typed w)" by blast
    then show ?thesis by (intro exI [of _ v]) (simp add: x)
  next
    case False
    with Cons.prems(2) w0(1) have "k = k0" "w = w0" by auto
    with w0(2) show ?thesis by (intro exI [of _ v0]) (simp add: x)
  qed
qed simp

lemma set_col_Remove: "set (col_Remove k m) = {x \<in> set m. fst x \<noteq> k}"
  by (auto simp: col_Remove_def AList.delete_eq)

lemma set_fold_Remove: "set (fold col_Remove ks m) \<subseteq> set m"
proof (induction ks arbitrary: m)
  case (Cons k ks)
  from Cons.IH [of "col_Remove k m"] show ?case by (auto simp: set_col_Remove)
qed simp

lemma exp_fewer_col_update: "exp_fewer p (snd (Expeditions_CheckUpdate e p))"
proof -
  obtain rows del ids n where u: "update_rows e (i32 (now e)) (p_Expeditions p) = (rows, del, ids, n)"
    by (metis prod_cases4)
  show ?thesis
    using set_fold_Remove [of del rows] update_rows_spec [OF u]
    by (intro exp_fewer_rows) (fastforce simp: Expeditions_CheckUpdate_def u exp_typed_def)+
qed

lemma AList_update_in: "(j, w) \<in> set (AList.update k v m) \<Longrightarrow> j = k \<and> w = v \<or> (j, w) \<in> set m"
  by (induction m) (auto split: if_splits)

lemma exp_fewer_new:
  assumes "new_expedition e t task p = Some q" shows "exp_fewer p q"
proof -
  from assms obtain cons p1 where c: "con_loop e (xp_Conditions task) (nat (xp_NeedConditionNum task))
      (xp_TotalConWeight task) [] p = Some (cons, p1)"
    by (auto simp: new_expedition_def split: if_splits bind_splits)
  obtain k p2 where k: "ChkGetNextExpeditionId p1 = (k, p2)" by fastforce
  then have p2: "p_Expeditions p2 = p_Expeditions p1" "p_FosterCats p2 = p_FosterCats p1"
    by (auto simp: ChkGetNextExpeditionId_def Let_def Info_Set_def)
  from assms c k obtain d where q: "q = p2\<lparr>p_Expeditions := snd (col_Add k d (p_Expeditions p2))\<rparr>"
    and d: "xd_InCatIds d = []" "row_typed d"
    by (auto simp: new_expedition_def Let_def row_typed_def split: if_split_asm)
  have "exp_fewer p1 q"
    using p2 d by (intro exp_fewer_rows) (auto simp: q col_Add_def exp_typed_def dest: AList_update_in split: if_splits)
  with exp_fewer_drawn [OF drawn_con_loop [OF c]] show ?thesis by (rule exp_fewer_trans)
qed

lemma exp_fewer_news: "new_expeditions e t tasks p = Some q \<Longrightarrow> exp_fewer p q"
  by (induction tasks arbitrary: p) (auto intro: exp_fewer_trans exp_fewer_new split: bind_splits)

lemma exp_fewer_update:
  assumes "CheckUpdateExpedition e p = Some q" shows "exp_fewer p q"
proof -
  obtain ids n p1 where u: "Expeditions_CheckUpdate e p = ((ids, n), p1)" by (metis prod.collapse)
  with exp_fewer_col_update [of p e] have f1: "exp_fewer p p1" by simp
  show ?thesis
  proof (cases "n < gc_ExpeditionTaskCount (config e)")
    case False
    with assms u f1 show ?thesis by (simp add: CheckUpdateExpedition_def)
  next
    case True
    with assms u obtain p2 tasks p3 tasks' m l where
      p2: "p2 = p1 \<or> p2 = p1\<lparr>p_NoNewbee := 1\<rparr>" and r: "RandNWithExistIds e ids l m p2 = Some (tasks, p3)"
      and new: "new_expeditions e (i32 (now e)) tasks' p3 = Some q"
      by (auto simp: CheckUpdateExpedition_def Let_def split: bind_splits if_splits) blast+
    from p2 have "exp_fewer p1 p2" by (intro exp_fewer_same) auto
    with f1 exp_fewer_drawn [OF drawn_RandN [OF r]] exp_fewer_news [OF new] show ?thesis
      by (blast intro: exp_fewer_trans)
  qed
qed

lemma side_send_cats [simp]: "side (snd (Player_send_cats_update ids p)) = side p"
proof -
  have "side (fold (\<lambda>c p. snd (cat_update c p)) ids p) = side p"
  proof (induction ids arbitrary: p)
    case (Cons c ids)
    have "side (fold (\<lambda>c p. snd (cat_update c p)) (c # ids) p) = side (snd (cat_update c p))"
      unfolding fold_simps by (rule Cons.IH)
    then show ?case by simp
  qed simp
  then show ?thesis by (simp add: Player_send_cats_update_def)
qed

lemma send_cats_items: "p_Items (snd (Player_send_cats_update ids p)) = p_Items p"
proof -
  have "p_Items (fold (\<lambda>c p. snd (cat_update c p)) ids p) = p_Items p"
  proof (induction ids arbitrary: p)
    case (Cons c ids)
    have "p_Items (fold (\<lambda>c p. snd (cat_update c p)) (c # ids) p) = p_Items (snd (cat_update c p))"
      unfolding fold_simps by (rule Cons.IH)
    then show ?case by simp
  qed simp
  then show ?thesis by (simp add: Player_send_cats_update_def)
qed

lemma exp_fewer_Remove: "exp_fewer p (p\<lparr>p_Expeditions := col_Remove k (p_Expeditions p)\<rparr>)"
  by (rule exp_fewer_rows) (auto simp: set_col_Remove exp_typed_def)

lemma exp_fewer_Set:
  assumes "\<And>v. xd_InCatIds (u v) = xd_InCatIds v \<or> xd_InCatIds (u v) = []" "\<And>v. row_typed v \<Longrightarrow> row_typed (u v)"
  shows "exp_fewer p (Expeditions_Set k u p)"
proof (rule exp_fewer_rows)
  fix j w assume "(j, w) \<in> set (p_Expeditions (Expeditions_Set k u p))"
  then consider "(j, w) \<in> set (p_Expeditions p)"
    | v where "(j, v) \<in> set (p_Expeditions p)" "w = u v"
    by (auto simp: Expeditions_Set_def col_set_field_def dest!: AList_update_in dest: map_of_SomeD split: option.splits)
  then show "(xd_InCatIds w = [] \<or> (\<exists>v. (j, v) \<in> set (p_Expeditions p) \<and> xd_InCatIds w = xd_InCatIds v))
      \<and> (exp_typed p \<longrightarrow> row_typed w)"
    using assms by cases (fastforce simp: exp_typed_def)+
qed (simp add: Expeditions_Set_def)


lemma side_SubDiamond_frame: "exp_fewer p (snd (SubDiamond v p))"
  by (rule exp_fewer_side) simp

lemma exp_fewer_counts:
  "exp_fewer p (snd (ChkDayExpeditionChgCount e p))" "exp_fewer p (snd (GetTodayExpeditionCount e p))"
  by (rule exp_fewer_same; simp add: ChkDayExpeditionChgCount_def GetTodayExpeditionCount_def Let_def Info_Set_def)+

lemma exp_fewer_all:
  assumes "C2SGetAllExpedition e p = Some (r, q)" shows "exp_fewer p q"
proof -
  from assms obtain p1 where u: "CheckUpdateExpedition e p = Some p1"
    by (auto simp: C2SGetAllExpedition_def split: bind_splits)
  obtain c p2 where c: "ChkDayExpeditionChgCount e p1 = (c, p2)" by fastforce
  from exp_fewer_counts(1) [of p1 e] c have "exp_fewer p1 p2" by simp
  moreover have "q = p1 \<or> (\<exists>m. q = Send_msg m p2)"
    using assms u c by (auto simp: C2SGetAllExpedition_def Let_def split: if_splits prod.splits)
  moreover have "exp_fewer p2 (Send_msg m p2)" for m by (rule exp_fewer_side) simp
  ultimately show ?thesis using exp_fewer_update [OF u] by (auto intro: exp_fewer_trans)
qed

lemma exp_fewer_chg:
  assumes "C2SChgExpedition e k p = Some (r, q)" shows "exp_fewer p q"
proof (cases "q = p")
  case False
  let ?p = "Info_Set i_DayChgExpeditionUpDay_update (GetDayFrom1970WithCfg e 0)
      (Info_Set i_DayChgExpeditionCount_update (i32 (i_DayChgExpeditionCount (p_Info p) + 1)) p)"
  obtain n c p1 where c: "ChkDayExpeditionChgCount e ?p = ((n, c), p1)" by (metis prod.collapse)
  have "exp_fewer p ?p" by (rule exp_fewer_same) (simp_all add: Info_Set_def)
  with exp_fewer_counts(1) [of ?p e] c have p1: "exp_fewer p p1" by (auto intro: exp_fewer_trans)
  let ?p2 = "snd (SubDiamond c p1)"
  let ?p3 = "snd (Player_send_cats_update (fst (col_get_field xd_InCatIds [] (p_Expeditions ?p2) k))
      (?p2\<lparr>p_Expeditions := col_Remove k (p_Expeditions ?p2)\<rparr>))"
  have p3: "exp_fewer p1 ?p3"
    by (rule exp_fewer_trans [OF side_SubDiamond_frame exp_fewer_trans [OF exp_fewer_Remove exp_fewer_side]]) simp
  consider "q = p1" | p4 where "CheckUpdateExpedition e ?p3 = Some p4" "q = p4 \<or> (\<exists>a b. q = send_expeditions a b e p4)"
    using assms False c unfolding C2SChgExpedition_def Let_def
    by (auto split: option.splits if_splits bind_splits)
  then show ?thesis
  proof cases
    case 1 with p1 show ?thesis by simp
  next
    case (2 p4)
    have "exp_fewer p4 q"
      using 2(2) by (auto simp: send_expeditions_def intro: exp_fewer_side)
    with p1 p3 exp_fewer_update [OF 2(1)] show ?thesis by (blast intro: exp_fewer_trans)
  qed
qed simp

lemma exp_fewer_stop:
  assumes "C2SStopExpedition e k p = Some (r, q)" shows "exp_fewer p q"
proof (cases "q = p")
  case False
  from assms False obtain d where d: "map_of (p_Expeditions p) k = Some d"
    by (auto simp: C2SStopExpedition_def split: option.splits)
  let ?p1 = "snd (Player_send_cats_update (xd_InCatIds d) (Expeditions_Stop e k p))"
  have p1: "exp_fewer p ?p1"
    by (rule exp_fewer_trans [OF _ exp_fewer_side])
      (auto simp: Expeditions_Stop_def row_typed_def intro!: exp_fewer_Set)
  from assms False d obtain p2 where u: "CheckUpdateExpedition e ?p1 = Some p2"
    by (auto simp: C2SStopExpedition_def split: if_splits bind_splits)
  obtain c p3 where c: "ChkDayExpeditionChgCount e p2 = (c, p3)" by fastforce
  have "q = p3 \<or> (\<exists>m. q = Send_msg m p3)"
    using assms False d u c by (auto simp: C2SStopExpedition_def Let_def split: if_splits prod.splits)
  moreover have "exp_fewer p3 (Send_msg m p3)" for m by (rule exp_fewer_side) simp
  moreover from exp_fewer_counts(1) [of p2 e] c have "exp_fewer p2 p3" by simp
  ultimately show ?thesis using p1 exp_fewer_update [OF u] by (auto intro: exp_fewer_trans)
qed simp


lemma side_AddObj:
  assumes "AddObj e k n b p = Some (r, q)" shows "side q = side p"
proof -
  from assms obtain v p1 where a: "AddItemResource e k n p = Some (v, p1)" by (auto simp: AddObj_def split: bind_splits)
  have "side q = side p1"
    using assms a by (auto simp: AddObj_def Let_def dest: side_AddCat split: if_splits bind_splits)
  with side_AddItemResource [OF a] show ?thesis by simp
qed

lemma side_give_fixed: "give_fixed e k n p = Some q \<Longrightarrow> side q = side p"
  by (auto simp: give_fixed_def dest: side_AddCat side_AddItemResource split: if_splits)

lemma side_fix_rewards: "fix_rewards e f rs p = Some (xs, q) \<Longrightarrow> side q = side p"
proof (induction e f rs p arbitrary: xs rule: fix_rewards.induct)
  case (1 e f k n rs p)
  from 1(2) obtain p1 ys where g: "give_fixed e k (f n) p = Some p1" "fix_rewards e f rs p1 = Some (ys, q)"
    by (auto split: bind_splits)
  from 1(1) [OF this] side_give_fixed [OF g(1)] show ?case by simp
qed simp_all

lemma side_give_pairs: "give_pairs e rs p = Some (xs, q) \<Longrightarrow> side q = side p"
proof (induction e rs p arbitrary: xs rule: give_pairs.induct)
  case (1 e k n rs p)
  from 1(2) obtain v p1 ys where g: "AddObj e k n True p = Some (v, p1)" "give_pairs e rs p1 = Some (ys, q)"
    by (auto split: bind_splits)
  from 1(1) [OF g(1) refl g(2)] side_AddObj [OF g(1)] show ?case by simp
qed simp_all

lemma side_event_rewards: "event_rewards e evs p = Some (xs, q) \<Longrightarrow> side q = side p"
proof (induction evs arbitrary: p xs)
  case (Cons ev evs)
  show ?case
  proof (cases "expedition_event_map e (xv_EventId ev) = None")
    case True
    with Cons show ?thesis by simp
  next
    case False
    with Cons.prems obtain ys zs p1 where
      "give_pairs e (xv_DropIdNums ev) p = Some (ys, p1)" "event_rewards e evs p1 = Some (zs, q)"
      by (auto split: bind_splits)
    with Cons.IH side_give_pairs show ?thesis by metis
  qed
qed simp

lemma side_SendBuildingUpdate [simp]: "side (SendBuildingUpdate p) = side p"
  by (rule side_quiet) (simp add: SendBuildingUpdate_def send_buildings_update_def Let_def)

lemma exp_fewer_finish:
  assumes "finish_expedition e k rs ss p = Some (r, q)" shows "exp_fewer p q"
proof -
  let ?p1 = "SendBuildingUpdate (SendCatsUpdate (SendItemsUpdate (Send_msg (S2CGetExpeditionReward k rs ss) p)))"
  let ?p2 = "snd (Player_send_cats_update (fst (col_get_field xd_InCatIds [] (p_Expeditions ?p1) k))
    (?p1\<lparr>p_Expeditions := col_Remove k (p_Expeditions ?p1)\<rparr>))"
  have "exp_fewer p ?p1" by (rule exp_fewer_side) simp
  moreover have "exp_fewer ?p1 ?p2" by (rule exp_fewer_trans [OF exp_fewer_Remove exp_fewer_side]) simp
  moreover from assms obtain p3 where u: "CheckUpdateExpedition e ?p2 = Some p3"
    and q: "q = TaskUpdate e TASK_COMPLETE_TYPE_EXPLORE_TASK_NUM False 0 1
      (TaskUpdate e TASK_COMPLETE_TYPE_EXPLORE_NUM False 0 1 (send_expeditions 0 0 e p3))"
    unfolding finish_expedition_def Let_def by (auto split: bind_splits)
  moreover have "exp_fewer p3 q" unfolding q send_expeditions_def by (rule exp_fewer_side) simp
  ultimately show ?thesis using exp_fewer_update [OF u] by (blast intro: exp_fewer_trans)
qed

lemma exp_fewer_reward:
  assumes "C2SGetExpeditionReward e k p = Some (r, q)" shows "exp_fewer p q"
proof -
  from assms obtain p1 where u: "CheckUpdateExpedition e p = Some p1"
    by (auto simp: C2SGetExpeditionReward_def split: bind_splits)
  show ?thesis
  proof (cases "q = p1")
    case True with exp_fewer_update [OF u] show ?thesis by simp
  next
    case False
    with assms u obtain d c where d: "map_of (p_Expeditions p1) k = Some d" "expedition_map e (xd_TaskId d) = Some c"
      by (auto simp: C2SGetExpeditionReward_def split: option.splits)
    with assms u False obtain f rs p2 where f: "fix_rewards e f (xp_FixRewards c) p1 = Some (rs, p2)"
      and run: "Option.bind (if xd_Result d = 1 then event_rewards e (xd_EventIds d) p2 else Some ([], p2))
        (\<lambda>(ss, p3). finish_expedition e k rs ss p3) = Some (r, q)"
      by (auto simp: C2SGetExpeditionReward_def bind_eq_Some_conv simp del: bind.bind_lunit)
    from run obtain ss p3 where s: "p3 = p2 \<or> event_rewards e (xd_EventIds d) p2 = Some (ss, p3)"
      and fin: "finish_expedition e k rs ss p3 = Some (r, q)" by (auto split: if_splits bind_splits)
    from s side_event_rewards have "side p3 = side p2" by blast
    with side_fix_rewards [OF f] have "exp_fewer p1 p3" by (intro exp_fewer_side) simp
    with exp_fewer_update [OF u] exp_fewer_finish [OF fin] show ?thesis by (blast intro: exp_fewer_trans)
  qed
qed

lemma exp_typedD: "exp_typed p \<Longrightarrow> map_of (p_Expeditions p) k = Some d \<Longrightarrow> row_typed d"
  by (auto simp: exp_typed_def dest: map_of_SomeD)

text \<open>The event rewards of a failed task: none, so the loop with the shared index never runs.\<close>

lemma buy_back_refused:
  assumes "map_of (p_Expeditions p) k = Some d" "xd_CurState d \<noteq> PLAYER_EXPEDITION_STATE_FAILED"
  shows "C2SChgExpeditionResult e k p =
    Some (if expedition_map e (xd_TaskId d) = None then E_ERR_EXPEDITION_NOT_TASK_CFG else E_ERR_EXPEDITION_WRONG_STATE, p)"
  using assms by (auto simp: C2SChgExpeditionResult_def split: option.split)

lemma buy_back_failed:
  assumes "map_of (p_Expeditions p) k = Some d" "xd_CurState d = PLAYER_EXPEDITION_STATE_FAILED" "xd_Result d = PLAYER_EXPEDITION_RESULT_FAILED"
    and "expedition_map e (xd_TaskId d) = Some c" "ChkResEnough e (xp_BuyBackCosts c) p = Some (enough, p1)"
  shows "C2SChgExpeditionResult e k p = (if \<not> enough then Some (E_ERR_EXPEDITION_LESS_RES, p1)
    else do {
      p2 \<leftarrow> CheckUpdateExpedition e p1;
      percent \<leftarrow> reward_percent e d;
      (rewards, p3) \<leftarrow> fix_rewards e (\<lambda>n. i32 (n * percent) sdiv 200) (xp_FixRewards c) p2;
      finish_expedition e k rewards [] p3
    })"
  using assms by (simp add: C2SChgExpeditionResult_def)

lemma ChgExpeditionResult_cases:
  assumes "C2SChgExpeditionResult e k p = Some (r, q)" "exp_typed p"
  shows "q = p \<or> (\<exists>p1. side p1 = side p \<and> (q = p1
    \<or> (\<exists>p2 f rs1 rs p3. CheckUpdateExpedition e p1 = Some p2 \<and> fix_rewards e f rs1 p2 = Some (rs, p3)
        \<and> finish_expedition e k rs [] p3 = Some (r, q))))"
proof (cases "q = p")
  case False
  with assms(1) obtain d c where d: "map_of (p_Expeditions p) k = Some d" "expedition_map e (xd_TaskId d) = Some c"
    "xd_CurState d = PLAYER_EXPEDITION_STATE_FAILED"
    by (auto simp: C2SChgExpeditionResult_def split: option.splits if_splits)
  with exp_typedD [OF assms(2)] have res: "xd_Result d = 0" by (auto simp: row_typed_def)
  from assms(1) False d obtain ok p1 where ck: "ChkResEnough e (xp_BuyBackCosts c) p = Some (ok, p1)"
    by (auto simp: C2SChgExpeditionResult_def split: bind_splits)
  from ck have s: "side p1 = side p" by (rule side_ChkRes)
  show ?thesis
    using assms(1) False d res ck s
    by (auto simp: C2SChgExpeditionResult_def split: bind_splits if_splits)
qed simp


subsection \<open>Starting\<close>

lemma drawn_RandEvent: "RandEvent e k p = Some (r, q) \<Longrightarrow> drawn p q"
  by (auto simp: RandEvent_def dest: drawn_draw31n split: option.splits bind_splits)

lemma drawn_event_drops: "event_drops e ds n p = Some (r, q) \<Longrightarrow> drawn p q"
proof (induction n arbitrary: p r)
  case (Suc n)
  from Suc.prems obtain x p1 y where
    "drawn p p1" "event_drops e ds n p1 = Some (y, q)"
    by (auto simp: Let_def split: bind_splits if_splits) (meson drawn_refl drawn_draw31n)+
  with Suc.IH show ?case by (blast intro: drawn_trans)
qed simp

lemma drawn_event_turn:
  assumes "event_turn e c r b s p = Some (x, q)" shows "drawn p q"
proof -
  from assms obtain v p1 where d: "draw31n e 10000 p = Some (v, p1)" by (auto simp: event_turn_def split: bind_splits)
  show ?thesis
  proof (cases "b \<ge> 10000 \<or> v \<le> r")
    case False
    with assms d show ?thesis by (auto simp: event_turn_def dest: drawn_draw31n split: if_splits)
  next
    case True
    with assms d obtain cfg p2 where ev: "RandEvent e (xp_SearchEventId c) p1 = Some (cfg, p2)"
      by (auto simp: event_turn_def split: bind_splits)
    have "drawn p2 q"
      using assms d ev True by (auto simp: event_turn_def dest: drawn_event_drops split: option.splits bind_splits if_splits)
    with drawn_draw31n [OF d] drawn_RandEvent [OF ev] show ?thesis by (blast intro: drawn_trans)
  qed
qed

lemma drawn_event_loop:
  assumes turn: "\<And>b s p x q. turn b s p = Some (x, q) \<Longrightarrow> drawn p q"
    and run: "event_loop turn t c s b m p = Some (m', q)"
  shows "drawn p q"
proof -
  let ?P = "\<lambda>turn' (t :: int) (c :: int) (s :: int) (b :: int) (m :: expedition_event column) p y.
    turn' = turn \<longrightarrow> drawn p (snd (y :: expedition_event column \<times> player))"
  have "?P turn t c s b m p (m', q)"
  proof (rule event_loop.raw_induct [where P = ?P, OF _ run])
    fix f and turn' :: "int \<Rightarrow> int \<Rightarrow> player \<Rightarrow> ((expedition_event option \<times> int) \<times> player) option" and t c s b m p y
    assume IH: "\<And>turn' t c s b m p y. f turn' t c s b m p = Some y \<Longrightarrow> ?P turn' t c s b m p y"
      and body: "(if s < c then turn' b s p \<bind> (\<lambda>((ev, b), p). f turn' t c (i32 (s + t)) b
          (case ev of None \<Rightarrow> m | Some x \<Rightarrow> AList.update s x m) p) else Some (m, p)) = Some y"
    show "?P turn' t c s b m p y"
    proof (cases "s < c")
      case True
      with body obtain ev b' p' where "turn' b s p = Some ((ev, b'), p')"
        "f turn' t c (i32 (s + t)) b' (case ev of None \<Rightarrow> m | Some x \<Rightarrow> AList.update s x m) p' = Some y"
        by (auto split: bind_splits)
      with IH turn drawn_trans show ?thesis by blast
    qed (use body in auto)
  qed
  then show ?thesis by simp
qed

lemma chk_cats_free:
  "chk_cats e p cs = Inr xs \<Longrightarrow> c \<in> set cs \<Longrightarrow> \<not> IfCatBusy p c \<and> map_of (p_Cats p) c \<noteq> None"
  by (induction cs arbitrary: xs) (auto split: option.splits if_splits sum.splits)

definition exp_view :: "player \<Rightarrow> _" where
  "exp_view p = (p_Expeditions p, p_FosterCats p)"

lemma exp_view_side: "side q = side p \<Longrightarrow> exp_view q = exp_view p"
  unfolding exp_view_def by (rule arg_cong2 [where f = Pair]) (rule side_frame, assumption)+

text \<open>What \<open>begin_expedition\<close> writes: the row of the task, with the cats of the request.\<close>

lemma Expeditions_Set_twice:
  "Expeditions_Set k g (Expeditions_Set k f p) = Expeditions_Set k (\<lambda>d. g (f d)) p"
  by (auto simp: Expeditions_Set_def col_set_field_def update_conv' split: option.split)

lemma exp_view_Set:
  "exp_view q = exp_view p \<Longrightarrow> exp_view (Expeditions_Set k u q) = exp_view (Expeditions_Set k u p)"
  by (simp add: exp_view_def Expeditions_Set_def)

lemma begin_expedition_view:
  assumes "begin_expedition e ord k c cats p = Some (r, q)"
  shows "\<exists>u. (\<forall>d. xd_InCatIds (u d) = cats \<and> xd_CurState (u d) = PLAYER_EXPEDITION_STATE_DOING
      \<and> xd_Result (u d) \<in> {xd_Result d, 1} \<and> xd_EndUnix (u d) = i32 (i32 (now e) + xp_CostTime c))
    \<and> exp_view q = exp_view (Expeditions_Set k u p) \<and> r = 1
    \<and> (\<exists>p5 y p6. p_Items p5 = p_Items p \<and> RemoveItemResource e ITEM_RESOURCE_ID_ACTION 1 p5 = Some (y, p6)
        \<and> p_Items q = p_Items p6)"
proof -
  define f1 where "f1 = (\<lambda>d :: expedition_data. d\<lparr>xd_StartUnix := i32 (now e), xd_EndUnix := i32 (i32 (now e) + xp_CostTime c),
    xd_InCatIds := cats, xd_CurState := PLAYER_EXPEDITION_STATE_DOING\<rparr>)"
  note run = assms [unfolded begin_expedition_def Let_def, folded f1_def]
  from run obtain a t x p2 where av: "GetAviTotalCatExpditionVal e (Expeditions_Set k f1 p) cats = Some (a, t)"
    and d: "draw31n e 10000 (Expeditions_Set k f1 p) = Some (x, p2)"
    by (auto split: bind_splits)
  define win where "win \<longleftrightarrow> x < i32 (a * xp_SucceedBaseRate c)"
  define f2 where "f2 = (\<lambda>d :: expedition_data. if win then d\<lparr>xd_Result := 1\<rparr> else d)"
  define p3 where "p3 = (if win then Expeditions_Set k (\<lambda>d. d\<lparr>xd_Result := 1\<rparr>) p2 else p2)"
  note run = run [unfolded av d bind.bind_lunit prod.case, folded win_def, folded p3_def]
  from run obtain m p4 where l: "event_loop (event_turn e c (i32 (t * xp_EventBaseRate c)))
      (gc_ExpeditionSPEventSec (config e)) (xp_CostTime c) (gc_ExpeditionSPEventSec (config e)) 0 [] p3 = Some (m, p4)"
    by (auto split: bind_splits)
  define f3 where "f3 = (\<lambda>d :: expedition_data. d\<lparr>xd_EventIds := ord (map snd m), xd_TotalSpecials := 0\<rparr>)"
  note run = run [unfolded l bind.bind_lunit prod.case, folded f3_def]
  from run obtain y p5 ms where rm: "RemoveItemResource e ITEM_RESOURCE_ID_ACTION 1 (Expeditions_Set k f3 p4) = Some (y, p5)"
    and q: "q = SendItemsUpdate (snd (Player_send_cats_update cats (Send_msg ms p5)))" "r = 1"
    by (auto split: bind_splits)
  have s2: "exp_view p3 = exp_view (Expeditions_Set k f2 p2)"
    by (auto simp: p3_def f2_def exp_view_def Expeditions_Set_def col_set_field_def split: option.split)
       (metis AList.update_triv map_of_SomeD)
  have "exp_view p2 = exp_view (Expeditions_Set k f1 p)"
    by (rule exp_view_side [OF drawn_frame(4) [OF drawn_draw31n [OF d]]])
  from exp_view_Set [OF this, of k f2] s2
  have "exp_view p3 = exp_view (Expeditions_Set k f2 (Expeditions_Set k f1 p))" by (rule trans [rotated])
  with exp_view_side [OF drawn_frame(4) [OF drawn_event_loop [OF drawn_event_turn l]]]
  have v4: "exp_view p4 = exp_view (Expeditions_Set k f2 (Expeditions_Set k f1 p))" by (rule trans)
  have it: "p_Items (Expeditions_Set k f3 p4) = p_Items p" "p_Items q = p_Items p5"
    using drawn_frame(5) [OF drawn_draw31n [OF d]] drawn_frame(5) [OF drawn_event_loop [OF drawn_event_turn l]]
    by (simp_all add: Expeditions_Set_def p3_def q(1) send_cats_items)
  have "exp_view q = exp_view p5" unfolding q(1) by (rule exp_view_side) simp
  also have "\<dots> = exp_view (Expeditions_Set k f3 p4)" by (rule exp_view_side [OF side_RemoveItemResource [OF rm]])
  also have "\<dots> = exp_view (Expeditions_Set k f3 (Expeditions_Set k f2 (Expeditions_Set k f1 p)))"
    by (rule exp_view_Set [OF v4])
  also have "\<dots> = exp_view (Expeditions_Set k (\<lambda>d. f3 (f2 (f1 d))) p)" by (simp only: Expeditions_Set_twice)
  finally show ?thesis
    using it rm q(2) by (intro exI [of _ "\<lambda>d. f3 (f2 (f1 d))"]) (auto simp: f1_def f2_def f3_def)
qed


lemma chk_cats_neg: "chk_cats e p cs = Inl err \<Longrightarrow> err < 0"
  by (induction cs) (auto split: option.splits if_splits sum.splits)

lemma chk_cons_neg: "chk_cons xs cs = Some err \<Longrightarrow> err < 0"
  by (induction cs) (auto simp: chk_con_def Let_def split: option.splits if_splits)


text \<open>A start that does not begin the expedition leaves tasks, foster place and cats as they are.\<close>

lemma start_expedition_cases:
  assumes "C2SStartExpedition e ord k cats p = Some (r, q)"
  shows "(\<exists>d. map_of (p_Expeditions p) k = Some d \<and> xd_CurState d \<noteq> PLAYER_EXPEDITION_STATE_SUCCEED
       \<and> xd_CurState d \<noteq> PLAYER_EXPEDITION_STATE_DOING
       \<and> (\<exists>c p1 xs. expedition_map e (xd_TaskId d) = Some c \<and> exp_view p1 = exp_view p \<and> cats \<noteq> []
           \<and> p_Cats p1 = p_Cats p \<and> p_Items p1 = p_Items p \<and> 1 \<le> get_item p 14
           \<and> chk_cats e p1 cats = Inr xs \<and> chk_cons xs (xd_Conditions d) = None
           \<and> begin_expedition e ord k c cats p1 = Some (r, q)))
    \<or> r < 0 \<and> exp_view q = exp_view p"
proof (cases "map_of (p_Expeditions p) k")
  case None
  with assms show ?thesis by (auto simp: C2SStartExpedition_def)
next
  case (Some d)
  show ?thesis
  proof (cases "expedition_map e (xd_TaskId d) = None \<or> xd_CurState d = PLAYER_EXPEDITION_STATE_SUCCEED
      \<or> xd_CurState d = PLAYER_EXPEDITION_STATE_DOING")
    case True
    with Some assms show ?thesis by (auto simp: C2SStartExpedition_def split: option.splits)
  next
    case False
    then obtain c where c: "expedition_map e (xd_TaskId d) = Some c" by auto
    obtain n p1 where g: "GetTodayExpeditionCount e p = (n, p1)" by fastforce
    then have v1: "exp_view p1 = exp_view p" "p_Cats p1 = p_Cats p" "p_Items p1 = p_Items p"
      by (auto simp: GetTodayExpeditionCount_def Let_def Info_Set_def exp_view_def split: if_splits)
    show ?thesis
    proof (cases "n \<ge> gc_ExpeditionDayStartCount (config e)")
      case True
      with Some False c g v1 assms show ?thesis by (auto simp: C2SStartExpedition_def)
    next
      case nfull: False
      have ac: "GetItemResourceValue e ITEM_RESOURCE_ID_ACTION p1 = Some (get_item p 14, p1)"
        using v1(3) by (simp add: GetItemResourceValue_def get_item_map_of)
      show ?thesis
        using Some False c g nfull ac assms v1
        by (auto simp: C2SStartExpedition_def split: if_split_asm sum.split_asm option.split_asm)
           (simp_all add: chk_cats_neg chk_cons_neg)
    qed
  qed
qed


subsection \<open>No cat in two places\<close>

definition one_place :: "player \<Rightarrow> bool" where
  "one_place p \<longleftrightarrow> (\<forall>k k' c. (k, c) \<in> crew p \<and> (k', c) \<in> crew p \<longrightarrow> k = k')
     \<and> (\<forall>k c. (k, c) \<in> crew p \<longrightarrow> c \<notin> fst ` set (p_FosterCats p))"

lemma one_placeD:
  assumes "one_place p" "(k, c) \<in> crew p"
  shows "(k', c) \<in> crew p \<Longrightarrow> k = k'" "c \<notin> fst ` set (p_FosterCats p)"
proof -
  show "k = k'" if "(k', c) \<in> crew p" using assms(1) [unfolded one_place_def, THEN conjunct1] assms(2) that by meson
  show "c \<notin> fst ` set (p_FosterCats p)" using assms(1) [unfolded one_place_def, THEN conjunct2] assms(2) by meson
qed

lemma one_placeI:
  assumes "\<And>k k' c. (k, c) \<in> crew p \<Longrightarrow> (k', c) \<in> crew p \<Longrightarrow> k = k'"
    and "\<And>k c. (k, c) \<in> crew p \<Longrightarrow> c \<notin> fst ` set (p_FosterCats p)"
  shows "one_place p"
  unfolding one_place_def using assms by (intro conjI allI impI) (elim conjE, assumption+)+

lemma one_place_mono:
  assumes "one_place p" "crew q \<subseteq> crew p" "fst ` set (p_FosterCats q) \<subseteq> fst ` set (p_FosterCats p)"
  shows "one_place q"
proof (rule one_placeI)
  fix k k' c assume "(k, c) \<in> crew q" "(k', c) \<in> crew q"
  with assms(2) show "k = k'" using one_placeD(1) [OF assms(1)] by (meson subsetD)
next
  fix k c assume "(k, c) \<in> crew q"
  with assms(2,3) show "c \<notin> fst ` set (p_FosterCats q)" using one_placeD(2) [OF assms(1)] by (meson subsetD)
qed

definition exp_ok :: "player \<Rightarrow> bool" where
  "exp_ok p \<longleftrightarrow> exp_typed p \<and> one_place p"

lemma exp_fewer_ok: "exp_fewer p q \<Longrightarrow> exp_ok p \<Longrightarrow> exp_ok q"
proof -
  assume f: "exp_fewer p q" and ok: "exp_ok p"
  from f have "fst ` set (p_FosterCats q) \<subseteq> fst ` set (p_FosterCats p)" "crew q \<subseteq> crew p"
    by (auto simp: exp_fewer_def simp flip: set_map)
  with ok have "one_place q" by (auto simp: exp_ok_def intro: one_place_mono)
  moreover from f ok have "exp_typed q" by (simp add: exp_ok_def exp_fewer_def)
  ultimately show "exp_ok q" by (simp add: exp_ok_def)
qed

lemma exp_view_fewer: "exp_view q = exp_view p \<Longrightarrow> exp_fewer p q"
  by (rule exp_fewer_same) (simp_all add: exp_view_def)

lemma idle_cat:
  assumes "\<not> IfCatBusy p c"
  shows "(k, c) \<notin> crew p" "c \<notin> fst ` set (p_FosterCats p)"
proof -
  from assms have "\<not> IfCatInExpedition p c" "\<not> col_HasIndex (p_FosterCats p) c"
    by (auto simp: IfCatBusy_def split: if_splits prod.splits)
  then show "(k, c) \<notin> crew p" "c \<notin> fst ` set (p_FosterCats p)"
    by (auto simp: IfCatInExpedition_def crew_def list_ex_iff col_HasIndex_def map_of_eq_None_iff
        split: if_splits)
qed

lemma exp_ok_start:
  assumes "C2SStartExpedition e ord k cats p = Some (r, q)" "exp_ok p" shows "exp_ok q"
  using start_expedition_cases [OF assms(1)]
proof
  assume "r < 0 \<and> exp_view q = exp_view p"
  with exp_view_fewer exp_fewer_ok assms(2) show ?thesis by blast
next
  assume "\<exists>d. map_of (p_Expeditions p) k = Some d \<and> xd_CurState d \<noteq> PLAYER_EXPEDITION_STATE_SUCCEED
       \<and> xd_CurState d \<noteq> PLAYER_EXPEDITION_STATE_DOING
       \<and> (\<exists>c p1 xs. expedition_map e (xd_TaskId d) = Some c \<and> exp_view p1 = exp_view p \<and> cats \<noteq> []
           \<and> p_Cats p1 = p_Cats p \<and> p_Items p1 = p_Items p \<and> 1 \<le> get_item p 14
           \<and> chk_cats e p1 cats = Inr xs \<and> chk_cons xs (xd_Conditions d) = None
           \<and> begin_expedition e ord k c cats p1 = Some (r, q))"
  then obtain d c p1 xs where d: "map_of (p_Expeditions p) k = Some d" and v: "exp_view p1 = exp_view p"
    and ck: "chk_cats e p1 cats = Inr xs" and b: "begin_expedition e ord k c cats p1 = Some (r, q)" by blast
  from begin_expedition_view [OF b] obtain u where u: "\<And>d. xd_InCatIds (u d) = cats"
      "\<And>d. xd_CurState (u d) = PLAYER_EXPEDITION_STATE_DOING" "\<And>d. xd_Result (u d) \<in> {xd_Result d, 1}"
    and q: "exp_view q = exp_view (Expeditions_Set k u p1)" by blast
  have rows: "(j, w) \<in> set (p_Expeditions q) \<Longrightarrow> j = k \<and> w = u d \<or> (j, w) \<in> set (p_Expeditions p)" for j w
    using q v d by (auto simp: exp_view_def Expeditions_Set_def col_set_field_def dest!: AList_update_in)
  have fos: "p_FosterCats q = p_FosterCats p" using q v by (simp add: exp_view_def Expeditions_Set_def)
  have cr: "(j, x) \<in> crew q \<Longrightarrow> j = k \<and> x \<in> set cats \<or> (j, x) \<in> crew p" for j x
    using rows u(1) by (fastforce simp: crew_def)
  have idle: "(j, x) \<notin> crew p" "x \<notin> fst ` set (p_FosterCats p)" if "x \<in> set cats" for j x
    using idle_cat [of p1 x] chk_cats_free [OF ck that] v by (auto simp: exp_view_def crew_def)
  have t: "exp_typed p" "one_place p" using assms(2) by (simp_all add: exp_ok_def)
  from exp_typedD [OF t(1) d] u(2) [of d] u(3) [of d] have "row_typed (u d)" by (auto simp: row_typed_def)
  with rows t(1) have "exp_typed q" unfolding exp_typed_def by blast
  moreover have "one_place q"
  proof (rule one_placeI)
    fix j j' x assume "(j, x) \<in> crew q" "(j', x) \<in> crew q"
    then have "j = k \<and> x \<in> set cats \<or> (j, x) \<in> crew p" "j' = k \<and> x \<in> set cats \<or> (j', x) \<in> crew p"
      using cr by simp_all
    then show "j = j'" using idle(1) [of x] one_placeD(1) [OF t(2)] by (cases "x \<in> set cats") auto
  next
    fix j x assume "(j, x) \<in> crew q"
    then have "x \<in> set cats \<or> (j, x) \<in> crew p" using cr by auto
    then show "x \<notin> fst ` set (p_FosterCats q)" unfolding fos using idle(2) [of x] one_placeD(2) [OF t(2)] by blast
  qed
  ultimately show ?thesis by (simp add: exp_ok_def)
qed

lemma exp_ok_result:
  assumes "C2SChgExpeditionResult e k p = Some (r, q)" "exp_ok p" shows "exp_ok q"
proof -
  from assms(2) have "exp_typed p" by (simp add: exp_ok_def)
  from ChgExpeditionResult_cases [OF assms(1) this] have "exp_fewer p q"
  proof (elim disjE exE conjE)
    fix p1 p2 f rs1 rs p3
    assume "side p1 = side p" and u: "CheckUpdateExpedition e p1 = Some p2"
      and f: "fix_rewards e f rs1 p2 = Some (rs, p3)" and fin: "finish_expedition e k rs [] p3 = Some (r, q)"
    with exp_fewer_side exp_fewer_update [OF u] exp_fewer_side [OF side_fix_rewards [OF f]] exp_fewer_finish [OF fin]
    show ?thesis by (blast intro: exp_fewer_trans)
  qed (auto intro: exp_fewer_side)
  from exp_fewer_ok [OF this assms(2)] show ?thesis .
qed

text \<open>The foster place keeps the tasks as they are; a settlement keeps its cats.\<close>

lemma self_cats_view:
  assumes "foster_settlement_self_cats e s a b p = Some (r, q)" shows "exp_fewer p q"
proof -
  let ?p = "if GetCardRemainSeconds e p \<le> 0 then clear_card p else p"
  obtain ids exps its p' where
    st: "FosterCats_Settlement e s (fs_StartTime (p_Foster ?p)) (foster_map e (fs_EquippedCardId (p_Foster ?p))) ?p
        = Some ((ids, exps, its), p')"
    using assms unfolding foster_settlement_self_cats_def Let_def by (auto simp only: bind_eq_Some_conv)
  have q: "side q = side p'"
    using assms unfolding foster_settlement_self_cats_def Let_def st
    by (auto dest!: side_add_settled split: bind_splits if_splits option.splits)
  from st obtain cs r' where cs: "settle_cats e s (fs_StartTime (p_Foster ?p))
      (foster_map e (fs_EquippedCardId (p_Foster ?p))) (p_FosterCats ?p) 0
      (replicate (length (p_FosterCats ?p)) 0, None, None) = Some (cs, r')" and p': "p' = ?p\<lparr>p_FosterCats := cs\<rparr>"
    by (auto simp: FosterCats_Settlement_def split: bind_splits)
  have f: "map fst xs = map fst (map (\<lambda>(k, v). (k, fc_CatId v)) xs)" for xs :: "(int \<times> foster_cat_data) list"
    by (simp add: case_prod_unfold comp_def)
  have "map fst cs = map fst (p_FosterCats ?p)" unfolding f settle_cats_rows [OF cs] ..
  then have "exp_fewer p p'"
    by (simp add: exp_fewer_def p' crew_def exp_typed_def clear_card_def)
  from exp_fewer_trans [OF this exp_fewer_side [OF q]] show ?thesis .
qed

lemma foster_pull_view:
  assumes "foster_data_pull e s p = Some (r, q)" shows "exp_fewer p q"
proof -
  from assms obtain cs rw p' where a: "foster_settlement_self_cats e s True False p = Some ((cs, rw), p')"
    "q = send_foster_self_data e cs p'"
    by (auto simp: foster_data_pull_def split: bind_splits)
  have "exp_fewer p' q" unfolding a(2) send_foster_self_data_def by (rule exp_fewer_side) simp
  from exp_fewer_trans [OF self_cats_view [OF a(1)] this] show ?thesis .
qed


lemma exp_ok_set_cat:
  assumes "foster_set_cat e b k p = Some (r, q)" "exp_ok p" shows "exp_ok q"
proof (cases "IfCatBusy p k \<or> int (length (p_FosterCats p)) \<ge> 6")
  case True
  with assms show ?thesis by (auto simp: foster_set_cat_def CheckAndAddCat_def split: if_splits)
next
  case False
  then have k: "(j, k) \<notin> crew p" "k \<notin> fst ` set (p_FosterCats p)" for j using idle_cat by blast+
  let ?p = "p\<lparr>p_FosterCats := p_FosterCats p @ [(k, \<lparr>fc_CatId = k, fc_StartTime = i32 (now e), fc_RemainSeconds = 0\<rparr>)]\<rparr>"
  let ?q = "Send_msg (S2CFosterSetCatResult b k) (SendCatUpdate k ?p)"
  from assms(1) False obtain r' where pull: "foster_data_pull e False ?q = Some (r', q)"
    by (auto simp: foster_set_cat_def CheckAndAddCat_def update_append [OF k(2)] split: bind_splits)
  have "exp_ok ?p" using assms(2) k(1) by (auto simp: exp_ok_def exp_typed_def one_place_def crew_def)
  moreover have "exp_fewer ?p ?q" by (rule exp_fewer_side) simp
  ultimately show ?thesis using exp_fewer_ok [OF foster_pull_view [OF pull]] exp_fewer_ok by blast
qed

lemma exp_ok_out_cat:
  assumes "foster_out_cat e b k p = Some (r, q)" "exp_ok p" shows "exp_ok q"
proof (cases "col_HasIndex (p_FosterCats p) k")
  case False
  with assms show ?thesis by (auto simp: foster_out_cat_def)
next
  case True
  let ?p = "p\<lparr>p_FosterCats := col_Remove k (p_FosterCats p)\<rparr>"
  let ?q = "Send_msg (S2CFosterOutCatResult b k) (SendCatUpdate k ?p)"
  from assms(1) True obtain r' where pull: "foster_data_pull e False ?q = Some (r', q)"
    by (auto simp: foster_out_cat_def split: bind_splits)
  have "crew ?p = crew p" "exp_typed ?p = exp_typed p"
    "fst ` set (p_FosterCats ?p) \<subseteq> fst ` set (p_FosterCats p)"
    by (auto simp: crew_def exp_typed_def set_col_Remove)
  with assms(2) one_place_mono [of p ?p] have "exp_ok ?p" by (simp add: exp_ok_def)
  moreover have "exp_fewer ?p ?q" by (rule exp_fewer_side) simp
  ultimately show ?thesis using exp_fewer_ok [OF foster_pull_view [OF pull]] exp_fewer_ok by blast
qed

lemma exp_fewer_unequip:
  assumes "foster_unequip_card e b p = Some (r, q)" shows "exp_fewer p q"
proof (cases "fs_EquippedCardId (p_Foster p) \<le> 0")
  case True
  with assms show ?thesis by (simp add: foster_unequip_card_def)
next
  case False
  with assms obtain cs rw p' where a: "foster_settlement_self_cats e True True False p = Some ((cs, rw), p')"
    "q = send_foster_self_data e cs (Send_msg (S2CFosterUnequipCardResult b) (clear_card p'))"
    by (auto simp: foster_unequip_card_def Let_def split: bind_splits)
  have "exp_fewer p' q" unfolding a(2) send_foster_self_data_def
    by (rule exp_fewer_same) (simp_all add: clear_card_def Send_msg_def emit_def)
  from exp_fewer_trans [OF self_cats_view [OF a(1)] this] show ?thesis .
qed

text \<open>
  The steps that concern expeditions and the foster place; the last rule is every other step, such as
  the handlers of the houses.
\<close>

inductive exp_step :: "player \<Rightarrow> player \<Rightarrow> bool" where
  login: "CheckUpdateExpedition e p = Some q \<Longrightarrow> exp_step p q"
| all: "C2SGetAllExpedition e p = Some (r, q) \<Longrightarrow> exp_step p q"
| start: "C2SStartExpedition e ord k cats p = Some (r, q) \<Longrightarrow> exp_step p q"
| chg: "C2SChgExpedition e k p = Some (r, q) \<Longrightarrow> exp_step p q"
| stop: "C2SStopExpedition e k p = Some (r, q) \<Longrightarrow> exp_step p q"
| reward: "C2SGetExpeditionReward e k p = Some (r, q) \<Longrightarrow> exp_step p q"
| result: "C2SChgExpeditionResult e k p = Some (r, q) \<Longrightarrow> exp_step p q"
| pull: "foster_data_pull e s p = Some (r, q) \<Longrightarrow> exp_step p q"
| unequip: "foster_unequip_card e b p = Some (r, q) \<Longrightarrow> exp_step p q"
| set_cat: "foster_set_cat e b k p = Some (r, q) \<Longrightarrow> exp_step p q"
| out_cat: "foster_out_cat e b k p = Some (r, q) \<Longrightarrow> exp_step p q"
| rest: "p_Expeditions q = p_Expeditions p \<Longrightarrow> p_FosterCats q = p_FosterCats p \<Longrightarrow> exp_step p q"

lemma exp_step_ok: "exp_step p q \<Longrightarrow> exp_ok p \<Longrightarrow> exp_ok q"
  by (induction rule: exp_step.induct)
    (blast intro: exp_ok_start exp_ok_result exp_ok_set_cat exp_ok_out_cat
      exp_fewer_ok [OF exp_fewer_update] exp_fewer_ok [OF exp_fewer_all] exp_fewer_ok [OF exp_fewer_chg]
      exp_fewer_ok [OF exp_fewer_stop] exp_fewer_ok [OF exp_fewer_reward] exp_fewer_ok [OF foster_pull_view]
      exp_fewer_ok [OF exp_fewer_unequip] exp_fewer_ok [OF exp_fewer_same])+

lemma exp_reach_ok:
  assumes "exp_step\<^sup>*\<^sup>* p q" "p_Expeditions p = []" shows "exp_ok q"
proof -
  have "exp_ok p" using assms(2) by (simp add: exp_ok_def exp_typed_def one_place_def crew_def)
  with assms(1) show ?thesis by (induction rule: rtranclp_induct) (blast intro: exp_step_ok)+
qed

text \<open>
  Property C38. No cat is in two places. From a player without expeditions, whatever expedition and
  foster handlers run in any order, a cat that is on an expedition is on no other one and not in the
  foster place, and it counts as busy.
\<close>

theorem cat_in_one_place:
  assumes "exp_step\<^sup>*\<^sup>* p q" "p_Expeditions p = []"
    and "(k, d) \<in> set (p_Expeditions q)" "c \<in> set (xd_InCatIds d)"
  shows "(\<forall>k' d'. (k', d') \<in> set (p_Expeditions q) \<and> c \<in> set (xd_InCatIds d') \<longrightarrow> k' = k)
    \<and> \<not> col_HasIndex (p_FosterCats q) c \<and> IfCatBusy q c"
proof -
  from exp_reach_ok [OF assms(1,2)] have ok: "one_place q" by (simp add: exp_ok_def)
  from assms(3,4) have c: "(k, c) \<in> crew q" by (auto simp: crew_def)
  have "\<not> col_HasIndex (p_FosterCats q) c"
    using one_placeD(2) [OF ok c] by (simp add: col_HasIndex_def map_of_eq_None_iff)
  moreover have "IfCatBusy q c"
    using assms(3,4) by (auto simp: IfCatBusy_def IfCatInExpedition_def list_ex_iff)
  moreover have "\<forall>k' d'. (k', d') \<in> set (p_Expeditions q) \<and> c \<in> set (xd_InCatIds d') \<longrightarrow> k' = k"
    using one_placeD(1) [OF ok c] by (auto simp: crew_def)
  ultimately show ?thesis by blast
qed

text \<open>
  Property C39. Starting from a player without expeditions, whatever expedition and foster handlers run
  in any order, the rows of the tasks are well formed: a task is new, under way, succeeded or failed,
  its result is 0 or 1, and the state of an ended task agrees with its result. So buying the result of
  a task is refused without any change unless the task has failed, and then, when its costs are
  there, it pays the half reward of a failure and ends the task, and nothing else: no costs are taken,
  no event rewards are paid, and the loop with the shared index never runs.
\<close>

theorem expedition_rows_typed:
  assumes "exp_step\<^sup>*\<^sup>* p q" "p_Expeditions p = []" "map_of (p_Expeditions q) k = Some d"
  shows "xd_CurState d \<in> {PLAYER_EXPEDITION_STATE_INIT, PLAYER_EXPEDITION_STATE_DOING,
      PLAYER_EXPEDITION_STATE_SUCCEED, PLAYER_EXPEDITION_STATE_FAILED}
    \<and> xd_Result d \<in> {PLAYER_EXPEDITION_RESULT_FAILED, PLAYER_EXPEDITION_RESULT_SUCCEED}
    \<and> (xd_CurState d = PLAYER_EXPEDITION_STATE_FAILED \<longrightarrow> xd_Result d = PLAYER_EXPEDITION_RESULT_FAILED)
    \<and> (xd_CurState d = PLAYER_EXPEDITION_STATE_SUCCEED \<longrightarrow> xd_Result d = PLAYER_EXPEDITION_RESULT_SUCCEED)
    \<and> (xd_CurState d \<noteq> PLAYER_EXPEDITION_STATE_FAILED \<longrightarrow> C2SChgExpeditionResult e k q =
        Some (if expedition_map e (xd_TaskId d) = None then E_ERR_EXPEDITION_NOT_TASK_CFG else E_ERR_EXPEDITION_WRONG_STATE, q))
    \<and> (\<forall>c enough q1. xd_CurState d = PLAYER_EXPEDITION_STATE_FAILED \<and> expedition_map e (xd_TaskId d) = Some c
        \<and> ChkResEnough e (xp_BuyBackCosts c) q = Some (enough, q1)
      \<longrightarrow> C2SChgExpeditionResult e k q = (if \<not> enough then Some (E_ERR_EXPEDITION_LESS_RES, q1)
        else do {
          q2 \<leftarrow> CheckUpdateExpedition e q1;
          percent \<leftarrow> reward_percent e d;
          (rewards, q3) \<leftarrow> fix_rewards e (\<lambda>n. i32 (n * percent) sdiv 200) (xp_FixRewards c) q2;
          finish_expedition e k rewards [] q3
        }))"
proof -
  from exp_reach_ok [OF assms(1,2)] have "exp_typed q" by (simp add: exp_ok_def)
  from exp_typedD [OF this assms(3)] have d: "row_typed d" .
  then have "xd_CurState d = PLAYER_EXPEDITION_STATE_FAILED \<Longrightarrow> xd_Result d = PLAYER_EXPEDITION_RESULT_FAILED"
    by (simp add: row_typed_def)
  note buy_back_failed [OF assms(3) _ this] buy_back_refused [OF assms(3)]
  with d show ?thesis by (simp add: row_typed_def)
qed


subsection \<open>What a start does\<close>

text \<open>What a condition asks of the cats, stated on its own.\<close>

definition con_met :: "(cat_data \<times> xml_character) list \<Rightarrow> expedition_con \<Rightarrow> bool" where
  "con_met cats con \<longleftrightarrow>
     (xc_ConType con = PLAYER_EXPEDITION_CON_CAT_LVL \<longrightarrow> (\<forall>(d, c)\<in>set cats. hd (xc_ConVals con) \<le> cat_Level d))
     \<and> (xc_ConType con = PLAYER_EXPEDITION_CON_CAT_QUA \<longrightarrow> (\<forall>(d, c)\<in>set cats. hd (xc_ConVals con) \<le> ch_Rarity c))
     \<and> (xc_ConType con = PLAYER_EXPEDITION_CON_CAT_STAR \<longrightarrow> (\<forall>(d, c)\<in>set cats. hd (xc_ConVals con) \<le> cat_Star d))
     \<and> (xc_ConType con = PLAYER_EXPEDITION_CON_CAT_COLOR \<longrightarrow> (\<forall>(d, c)\<in>set cats. 1 \<le> color_count (ch_Color c) (xc_ConVals con)))
     \<and> (xc_ConType con = PLAYER_EXPEDITION_CON_CAT_NUM \<longrightarrow> hd (xc_ConVals con) \<le> i32 (int (length cats)))"

lemma chk_cons_met: "chk_cons cats cons = None \<Longrightarrow> con \<in> set cons \<Longrightarrow> con_met cats con"
proof (induction cons)
  case (Cons x xs)
  from Cons.prems(1) have x: "chk_con cats x = None" "chk_cons cats xs = None" by (auto split: option.splits)
  from x(1) have "con_met cats x"
    by (fastforce simp: chk_con_def con_met_def Let_def list_ex_iff split: if_split_asm)
  with Cons x(2) show ?case by auto
qed simp

definition the_cats :: "env \<Rightarrow> player \<Rightarrow> int list \<Rightarrow> (cat_data \<times> xml_character) list" where
  "the_cats e p cats = map (\<lambda>c. (the (map_of (p_Cats p) c), the (cat_map e (cat_CfgId (the (map_of (p_Cats p) c)))))) cats"

lemma chk_cats_the: "chk_cats e p cats = Inr xs \<Longrightarrow> xs = the_cats e p cats"
  by (induction cats arbitrary: xs) (auto simp: the_cats_def split: option.splits if_splits sum.splits)

lemma IfCatBusy_view:
  "exp_view q = exp_view p \<Longrightarrow> p_Cats q = p_Cats p \<Longrightarrow> IfCatBusy q c \<longleftrightarrow> IfCatBusy p c"
  by (simp add: IfCatBusy_def IfCatInExpedition_def exp_view_def)

text \<open>
  Property C37. Starting an expedition, where the table of items knows the points of
  action. A start that is refused changes no task. One that succeeds had a
  task that was not under way, at least one cat, every cat there and idle and every condition of the
  task met; it takes one point of action, puts exactly the requested cats on that task, which is then
  under way until its time has passed, leaves the other tasks alone, and the cats are busy.
\<close>

theorem start_expedition_spec:
  assumes "C2SStartExpedition e ord k cats p = Some (r, q)"
    and "item_map e ITEM_RESOURCE_ID_ACTION = Some it" "in32 (get_item p ITEM_RESOURCE_ID_ACTION)"
  shows "if r = 1 then
      (\<exists>d c d'. map_of (p_Expeditions p) k = Some d \<and> expedition_map e (xd_TaskId d) = Some c
        \<and> xd_CurState d \<noteq> PLAYER_EXPEDITION_STATE_DOING \<and> xd_CurState d \<noteq> PLAYER_EXPEDITION_STATE_SUCCEED
        \<and> cats \<noteq> [] \<and> (\<forall>x\<in>set cats. map_of (p_Cats p) x \<noteq> None \<and> \<not> IfCatBusy p x \<and> IfCatBusy q x)
        \<and> (\<forall>con\<in>set (xd_Conditions d). con_met (the_cats e p cats) con)
        \<and> get_item q ITEM_RESOURCE_ID_ACTION = get_item p ITEM_RESOURCE_ID_ACTION - 1
        \<and> map_of (p_Expeditions q) = (map_of (p_Expeditions p))(k \<mapsto> d')
        \<and> xd_InCatIds d' = cats \<and> xd_CurState d' = PLAYER_EXPEDITION_STATE_DOING
        \<and> xd_EndUnix d' = i32 (i32 (now e) + xp_CostTime c))
    else r < 0 \<and> p_Expeditions q = p_Expeditions p \<and> p_FosterCats q = p_FosterCats p"
  using start_expedition_cases [OF assms(1)]
proof
  assume "r < 0 \<and> exp_view q = exp_view p"
  then show ?thesis by (simp add: exp_view_def)
next
  assume "\<exists>d. map_of (p_Expeditions p) k = Some d \<and> xd_CurState d \<noteq> PLAYER_EXPEDITION_STATE_SUCCEED
       \<and> xd_CurState d \<noteq> PLAYER_EXPEDITION_STATE_DOING
       \<and> (\<exists>c p1 xs. expedition_map e (xd_TaskId d) = Some c \<and> exp_view p1 = exp_view p \<and> cats \<noteq> []
           \<and> p_Cats p1 = p_Cats p \<and> p_Items p1 = p_Items p \<and> 1 \<le> get_item p 14
           \<and> chk_cats e p1 cats = Inr xs \<and> chk_cons xs (xd_Conditions d) = None
           \<and> begin_expedition e ord k c cats p1 = Some (r, q))"
  then obtain d c p1 xs where d: "map_of (p_Expeditions p) k = Some d" "expedition_map e (xd_TaskId d) = Some c"
      "xd_CurState d \<noteq> PLAYER_EXPEDITION_STATE_SUCCEED" "xd_CurState d \<noteq> PLAYER_EXPEDITION_STATE_DOING"
    and p1: "exp_view p1 = exp_view p" "p_Cats p1 = p_Cats p" "p_Items p1 = p_Items p" and act: "1 \<le> get_item p 14"
    and cats: "cats \<noteq> []" "chk_cats e p1 cats = Inr xs" "chk_cons xs (xd_Conditions d) = None"
    and b: "begin_expedition e ord k c cats p1 = Some (r, q)" by blast
  from begin_expedition_view [OF b] obtain u p5 y p6 where u: "xd_InCatIds (u d) = cats"
      "xd_CurState (u d) = PLAYER_EXPEDITION_STATE_DOING" "xd_EndUnix (u d) = i32 (i32 (now e) + xp_CostTime c)"
    and q: "exp_view q = exp_view (Expeditions_Set k u p1)" "r = 1"
    and pay: "p_Items p5 = p_Items p1" "RemoveItemResource e 14 1 p5 = Some (y, p6)" "p_Items q = p_Items p6"
    by blast
  have rows: "map_of (p_Expeditions q) = (map_of (p_Expeditions p))(k \<mapsto> u d)"
    using q(1) p1(1) d(1) by (simp add: exp_view_def Expeditions_Set_def map_of_col_set_field)
  from rows have "(k, u d) \<in> set (p_Expeditions q)" by (simp add: map_of_SomeD)
  then have busy: "x \<in> set cats \<Longrightarrow> IfCatBusy q x" for x
    using u(1) by (auto simp: IfCatBusy_def IfCatInExpedition_def list_ex_iff)
  have idle: "x \<in> set cats \<Longrightarrow> map_of (p_Cats p) x \<noteq> None \<and> \<not> IfCatBusy p x" for x
    using chk_cats_free [OF cats(2)] IfCatBusy_view [OF p1(1,2)] p1(2) by simp
  have met: "con \<in> set (xd_Conditions d) \<Longrightarrow> con_met (the_cats e p cats) con" for con
    using chk_cons_met [OF cats(3)] chk_cats_the [OF cats(2)] p1(2) by (simp add: the_cats_def)
  have "p6 = snd (RemoveItem e 14 1 True p5)"
    using pay(2) by (auto simp: RemoveItemResource_def split: prod.splits option.splits)
  moreover have g5: "get_item p5 14 = get_item p 14" using pay(1) p1(3) by (simp add: get_item_map_of)
  ultimately have "get_item q 14 = get_item p 14 - 1"
    using RemoveItem_exact(1) [of e 14 it 1 p5 True] assms(2,3) act pay(3) by (simp add: get_item_map_of)
  with d u rows busy idle met cats(1) q(2) show ?thesis by auto
qed


subsection \<open>A start returns\<close>

lemma event_loop_ends:
  assumes turn: "\<And>b s p. turn b s p \<noteq> None" and t: "0 < t" "c + t \<le> max32"
    and s: "0 < s" "t dvd s" "distinct (map fst m)" "\<forall>j\<in>fst ` set m. 0 < j \<and> j < c \<and> t dvd j"
  shows "\<exists>m' q. event_loop turn t c s b m p = Some (m', q) \<and> distinct (map fst m')
    \<and> (\<forall>j\<in>fst ` set m'. 0 < j \<and> j < c \<and> t dvd j)"
  using s
proof (induction "nat (c - s)" arbitrary: s b m p rule: less_induct)
  case less
  show ?case
  proof (cases "s < c")
    case False
    then have "event_loop turn t c s b m p = Some (m, p)" by (subst event_loop.simps) simp
    with less.prems show ?thesis by blast
  next
    case True
    obtain ev b' p' where tr: "turn b s p = Some ((ev, b'), p')" using turn [of b s p] by auto
    let ?m = "case ev of None \<Rightarrow> m | Some x \<Rightarrow> AList.update s x m"
    have i: "i32 (s + t) = s + t" using True t less.prems(1) by (intro i32_range_id) auto
    have "event_loop turn t c s b m p = event_loop turn t c (s + t) b' ?m p'"
      by (subst event_loop.simps) (simp add: True tr i)
    moreover have "distinct (map fst ?m)" using less.prems(3) by (simp add: distinct_update split: option.split)
    moreover have "\<forall>j\<in>fst ` set ?m. 0 < j \<and> j < c \<and> t dvd j"
      using less.prems True by (auto split: option.split dest!: AList_update_in)
    moreover have "nat (c - (s + t)) < nat (c - s)" using True t(1) by simp
    ultimately show ?thesis using less.hyps [of "s + t" ?m b' p'] less.prems(1,2) t(1) by simp
  qed
qed

text \<open>A table of events whose draws are possible and whose drops come in triples.\<close>

definition events_ok :: "env \<Rightarrow> bool" where
  "events_ok e \<longleftrightarrow> (\<forall>x\<in>ran (expedition_event_sets e). 0 < ee_TotalWeight x
     \<and> (\<forall>v\<in>set (ee_Array x). length (xe_DropIds v) mod 3 = 0))"

lemma draw31n_pos: "0 < n \<Longrightarrow> \<exists>r q. draw31n e n p = Some (r, q)"
  by (simp add: draw31n_def Int31n_def)

lemma event_drops_total: "3 \<le> length ds \<or> n = 0 \<Longrightarrow> event_drops e ds n p \<noteq> None"
proof (induction n arbitrary: p)
  case (Suc n)
  then have l: "3 \<le> length ds" by simp
  then have g: "go_nth ds 0 = Some (ds ! 0)" "go_nth ds 1 = Some (ds ! 1)" "go_nth ds 2 = Some (ds ! 2)"
    using l by (auto simp: go_nth_def)
  have f: "\<exists>xs q. event_drops e ds n p = Some (xs, q)" for p using Suc.IH [of p] l by auto
  show ?case
  proof (cases "0 < i32 (ds ! 2 - ds ! 1)")
    case True
    with draw31n_pos [OF this, of e p] obtain r q where "draw31n e (i32 (ds ! 2 - ds ! 1)) p = Some (r, q)" by blast
    with True show ?thesis using f [of q] by (auto simp: g Let_def)
  next
    case False
    then show ?thesis using f [of p] by (auto simp: g Let_def)
  qed
qed simp

lemma pick_event_in: "pick_event xs r = Some x \<Longrightarrow> x \<in> set xs"
  by (induction xs arbitrary: r) (auto split: if_splits)

lemma event_turn_total:
  assumes "events_ok e" shows "event_turn e c rate b s p \<noteq> None"
proof -
  obtain v p1 where d: "draw31n e 10000 p = Some (v, p1)" using draw31n_pos [of 10000 e p] by auto
  show ?thesis
  proof (cases "expedition_event_sets e (xp_SearchEventId c)")
    case None
    then show ?thesis by (simp add: event_turn_def d RandEvent_def)
  next
    case (Some ev)
    then have ok: "0 < ee_TotalWeight ev" "\<forall>v\<in>set (ee_Array ev). length (xe_DropIds v) mod 3 = 0"
      using assms by (auto simp: events_ok_def ran_def)
    from draw31n_pos [OF ok(1), of e p1] obtain w p2 where w: "draw31n e (ee_TotalWeight ev) p1 = Some (w, p2)" by auto
    have "event_drops e (xe_DropIds x) (length (xe_DropIds x) div 3) p2 \<noteq> None"
      if "pick_event (ee_Array ev) w = Some x" for x
      using ok(2) pick_event_in [OF that] by (intro event_drops_total) auto
    then show ?thesis by (auto simp: event_turn_def d RandEvent_def Some w split: option.split)
  qed
qed

lemma total_val_total: "\<forall>c\<in>set cs. GetCatExpeditionVal e p c \<noteq> None \<Longrightarrow> total_val e p cs t \<noteq> None"
  by (induction cs arbitrary: t) auto

lemma RemoveItemResource_action: "RemoveItemResource e ITEM_RESOURCE_ID_ACTION n p \<noteq> None"
  by (auto simp: RemoveItemResource_def split: prod.split option.split)

text \<open>
  The ability of a cat takes the entry of its star from a list of the table: a star without an entry
  panics. No check of the handler looks at it.
\<close>

definition star_in_table :: "env \<Rightarrow> player \<Rightarrow> int \<Rightarrow> bool" where
  "star_in_table e p x \<longleftrightarrow> (\<forall>d c. map_of (p_Cats p) x = Some d \<and> cat_map e (cat_CfgId d) = Some c \<longrightarrow>
     0 \<le> i32 (cat_Star d - 1) \<and> i32 (cat_Star d - 1) < int (length (ch_AddExplores c)))"

lemma star_in_table_val: "GetCatExpeditionVal e p x \<noteq> None \<longleftrightarrow> star_in_table e p x"
  by (auto simp: GetCatExpeditionVal_def star_in_table_def go_nth_def split: option.split bind_splits)

lemma total_val_none: "x \<in> set cs \<Longrightarrow> GetCatExpeditionVal e p x = None \<Longrightarrow> total_val e p cs t = None"
proof (induction cs arbitrary: t)
  case (Cons c cs)
  then show ?case by (cases "GetCatExpeditionVal e p c") auto
qed simp

text \<open>
  Property C40. When a start returns. Let there be at least one cat (the checks of the handler ask for
  it) and fewer than 2^31, let the period of the events be positive, the time of the task leave room for one more period
  in 32 bits and the table of events be well formed. Then beginning the expedition ends with success if
  the star of every requested cat has an entry in the list of the table, which no check of the
  handler asks for, and panics if one has not. Its loop over the seconds ends in any case, and the events it makes lie at
  different multiples of the period before the end.
\<close>

theorem begin_expedition_returns:
  assumes "events_ok e" "0 < gc_ExpeditionSPEventSec (config e)"
    and "xp_CostTime c + gc_ExpeditionSPEventSec (config e) \<le> max32"
    and "cats \<noteq> []" "int (length cats) \<le> max32"
  shows "(if \<forall>x\<in>set cats. star_in_table e p x then \<exists>q. begin_expedition e ord k c cats p = Some (1, q)
      else begin_expedition e ord k c cats p = None)
    \<and> (\<forall>rate b p. \<exists>m q. event_loop (event_turn e c rate) (gc_ExpeditionSPEventSec (config e)) (xp_CostTime c)
          (gc_ExpeditionSPEventSec (config e)) b [] p = Some (m, q) \<and> distinct (map fst m)
        \<and> (\<forall>s\<in>fst ` set m. 0 < s \<and> s < xp_CostTime c \<and> gc_ExpeditionSPEventSec (config e) dvd s))"
proof -
  let ?t = "gc_ExpeditionSPEventSec (config e)"
  have loop: "\<exists>m q. event_loop (event_turn e c rate) ?t (xp_CostTime c) ?t b [] p = Some (m, q) \<and> distinct (map fst m)
      \<and> (\<forall>s\<in>fst ` set m. 0 < s \<and> s < xp_CostTime c \<and> ?t dvd s)" for rate b p
    by (rule event_loop_ends) (use assms(2,3) event_turn_total [OF assms(1)] in auto)
  define p1 where "p1 = Expeditions_Set k (\<lambda>d. d\<lparr>xd_StartUnix := i32 (now e), xd_EndUnix := i32 (i32 (now e) + xp_CostTime c),
    xd_InCatIds := cats, xd_CurState := PLAYER_EXPEDITION_STATE_DOING\<rparr>) p"
  have val: "GetCatExpeditionVal e p1 x \<noteq> None \<longleftrightarrow> star_in_table e p x" for x
    unfolding star_in_table_val by (simp add: star_in_table_def p1_def Expeditions_Set_def)
  have panics: "begin_expedition e ord k c cats p = None" if "x \<in> set cats" "\<not> star_in_table e p x" for x
  proof -
    have "total_val e p1 cats 0 = None" using total_val_none [OF that(1)] that(2) val by blast
    with assms(4) have "GetAviTotalCatExpditionVal e p1 cats = None"
      by (simp add: GetAviTotalCatExpditionVal_def Suc_le_eq)
    then show ?thesis unfolding begin_expedition_def Let_def p1_def [symmetric] by simp
  qed
  have returns: "\<exists>q. begin_expedition e ord k c cats p = Some (1, q)" if stars: "\<forall>x\<in>set cats. star_in_table e p x"
  proof -
  have "\<forall>x\<in>set cats. GetCatExpeditionVal e p1 x \<noteq> None" using stars val by simp
  from total_val_total [OF this, of 0] obtain t where t: "total_val e p1 cats 0 = Some t" by auto
  have "i32 (int (length cats)) = int (length cats)" using assms(5) by (intro i32_range_id) auto
  with assms(4) t have av: "GetAviTotalCatExpditionVal e p1 cats = Some (i32 (t sdiv int (length cats)), t)"
    by (simp add: GetAviTotalCatExpditionVal_def quot32_def Suc_le_eq)
  obtain v p2 where d: "draw31n e 10000 p1 = Some (v, p2)" using draw31n_pos [of 10000 e p1] by auto
  have "\<exists>q. begin_expedition e ord k c cats p = Some (1, q)"
  proof -
    have bind: "\<exists>q. Option.bind x f = Some (1, q)" if "x \<noteq> None" "\<And>y. x = Some y \<Longrightarrow> \<exists>q. f y = Some (1, q)"
      for x :: "'a option" and f :: "'a \<Rightarrow> (int \<times> player) option" using that by (cases x) auto
    show ?thesis
      unfolding begin_expedition_def Let_def p1_def [symmetric] av d bind.bind_lunit prod.case
    proof (rule bind)
      fix p3
      show "event_loop (event_turn e c rate) ?t (xp_CostTime c) ?t 0 [] p3 \<noteq> None" for rate
        using loop [of rate 0 p3] by auto
    qed (use RemoveItemResource_action in \<open>auto simp: split_beta bind_eq_Some_conv\<close>)
  qed
  then show ?thesis .
  qed
  show ?thesis using loop returns panics by auto
qed


subsection \<open>Examples\<close>

definition demo_trip :: xml_expedition where
  "demo_trip = \<lparr>xp_Id = 9, xp_CostTime = 50, xp_RandWeight = 1, xp_TaskType = 1, xp_LimitTimeSec = 0, xp_LvlMin = 1,
     xp_LvlMax = 9, xp_FixRewards = [2, 100], xp_SucceedBaseRate = 0, xp_SearchEventId = 0, xp_EventBaseRate = 0,
     xp_NeedConditionNum = 0, xp_BuyBackCosts = [], xp_Single = 1, xp_TotalConWeight = 0, xp_Conditions = []\<rparr>"

definition demo_trip_env :: env where
  "demo_trip_env = empty_env\<lparr>cat_map := [501 \<mapsto> demo_cat_cfg\<lparr>ch_AddExplores := [0]\<rparr>],
     expedition_map := [9 \<mapsto> demo_trip], item_map := [14 \<mapsto> demo_item],
     config := empty_config\<lparr>gc_ExpeditionTaskCount := 1, gc_ExpeditionFirstTask := 9, gc_ExpeditionDayStartCount := 5,
       gc_ExpeditionSPEventSec := 100, gc_ExpeditionMultiVal := [100]\<rparr>\<rparr>"

definition demo_trip_player :: player where
  "demo_trip_player = empty_player\<lparr>p_Cats := [(1, demo_cat 1)],
     p_Items := [(14, \<lparr>ItemCfgId = 14, ItemNum = 3, StartTimeUnix = 0, RemainSeconds = 0\<rparr>)]\<rparr>"

definition demo_task_row :: expedition_data where
  "demo_task_row = \<lparr>xd_Id = 1, xd_TaskId = 9, xd_StartUnix = 0, xd_EndUnix = 0, xd_InCatIds = [], xd_CurState = 0,
     xd_Result = 0, xd_TaskLeftSec = 0, xd_TaskLeftSecLastUpUnix = 0, xd_Conditions = [], xd_EventIds = [],
     xd_TotalSpecials = 0\<rparr>"

definition demo_tour_player :: player where
  "demo_tour_player = demo_trip_player\<lparr>p_NoNewbee := 1, p_Info := empty_info\<lparr>i_NextExpeditionId := 1\<rparr>,
     p_Expeditions := [(1, demo_task_row)]\<rparr>"

lemmas demo_trip_defs = demo_trip_def demo_trip_env_def demo_trip_player_def demo_task_row_def demo_tour_player_def
  demo_cat_def empty_env_def empty_config_def empty_player_def empty_info_def

lemma demo_trip_login: "CheckUpdateExpedition demo_trip_env demo_trip_player = Some demo_tour_player"
  by (simp add: CheckUpdateExpedition_def Expeditions_CheckUpdate_def RandNWithExistIds_def new_expedition_def
      ChkGetNextExpeditionId_def Info_Set_def col_Add_def col_HasIndex_def col_NumAll_def i32_def demo_trip_defs Let_def)


text \<open>The demo start succeeds: its checks pass, and beginning returns.\<close>

lemma demo_trip_begin:
  assumes "p_Cats p = p_Cats demo_tour_player"
  shows "\<exists>q. begin_expedition demo_trip_env (\<lambda>evs. evs) 1 demo_trip [1] p = Some (1, q)"
proof -
  let ?p1 = "Expeditions_Set 1 (\<lambda>d. d\<lparr>xd_StartUnix := 0, xd_EndUnix := 50, xd_InCatIds := [1], xd_CurState := 1\<rparr>) p"
  have c: "p_Cats ?p1 = p_Cats demo_tour_player" using assms by (simp add: Expeditions_Set_def)
  have av: "GetAviTotalCatExpditionVal demo_trip_env ?p1 [1] = Some (7, 7)"
    by (simp add: GetAviTotalCatExpditionVal_def GetCatExpeditionVal_def c quot32_def i32_def go_nth_def demo_trip_defs
        demo_cat_cfg_def)
  obtain v p2 where d: "draw31n demo_trip_env 10000 ?p1 = Some (v, p2)" using draw31n_pos [of 10000 demo_trip_env ?p1] by auto
  have l: "event_loop f 100 50 100 0 [] p' = Some ([], p')" for f p' by (subst event_loop.simps) simp
  have k: "xp_CostTime demo_trip = 50" "gc_ExpeditionSPEventSec (config demo_trip_env) = 100" "now demo_trip_env = 0"
    by (simp_all add: demo_trip_def demo_trip_env_def empty_env_def)
  have i: "i32 0 = 0" "i32 50 = 50" by (simp_all add: i32_def)
  have rm: "\<exists>y q. RemoveItemResource demo_trip_env 14 1 p' = Some (y, q)" for p'
    using RemoveItemResource_action [of demo_trip_env 1 p'] by auto
  show ?thesis
    unfolding begin_expedition_def Let_def k add_0 i av d bind.bind_lunit prod.case l list.map
    using rm by (auto simp: bind_eq_Some_conv split_beta)
qed

lemma demo_trip_start: "\<exists>q. C2SStartExpedition demo_trip_env (\<lambda>evs. evs) 1 [1] demo_tour_player = Some (1, q)"
proof -
  obtain p1 where g: "GetTodayExpeditionCount demo_trip_env demo_tour_player = (0, p1)"
    and c: "p_Cats p1 = p_Cats demo_tour_player" "p_Items p1 = p_Items demo_tour_player"
      "p_Expeditions p1 = p_Expeditions demo_tour_player" "p_FosterCats p1 = p_FosterCats demo_tour_player"
    by (simp add: GetTodayExpeditionCount_def Let_def Info_Set_def demo_trip_defs GetDayFrom1970WithCfg_def i32_def)
  have a: "GetItemResourceValue demo_trip_env 14 p1 = Some (3, p1)"
    by (simp add: GetItemResourceValue_def get_item_map_of c) (simp add: demo_trip_defs)
  have "\<not> IfCatBusy demo_tour_player 1"
    by (simp add: IfCatBusy_def IfCatInExpedition_def col_get_field_def col_HasIndex_def demo_trip_defs)
  moreover have "exp_view p1 = exp_view demo_tour_player" by (simp add: exp_view_def c)
  ultimately have busy: "\<not> IfCatBusy p1 1" using IfCatBusy_view [OF _ c(1)] by blast
  have "map_of (p_Cats demo_tour_player) 1 = Some (demo_cat 1)" "cat_map demo_trip_env (cat_CfgId (demo_cat 1)) \<noteq> None"
    by (simp_all add: demo_trip_defs)
  with busy have ck: "\<exists>xs. chk_cats demo_trip_env p1 [1] = Inr xs" by (auto simp: c)
  have row: "map_of (p_Expeditions demo_tour_player) 1 = Some demo_task_row"
    "expedition_map demo_trip_env 9 = Some demo_trip"
    by (simp_all add: demo_tour_player_def demo_trip_env_def)
  have r: "xd_TaskId demo_task_row = 9" "xd_CurState demo_task_row = 0" "xd_Conditions demo_task_row = []"
    "gc_ExpeditionDayStartCount (config demo_trip_env) = 5"
    by (simp_all add: demo_task_row_def demo_trip_env_def)
  from ck demo_trip_begin [OF c(1)] show ?thesis
    by (auto simp: C2SStartExpedition_def row r g a simp del: chk_cats.simps)
qed

lemma start_expedition_spec_witness:
  "\<exists>q d'. C2SStartExpedition demo_trip_env (\<lambda>evs. evs) 1 [1] demo_tour_player = Some (1, q)
    \<and> get_item q ITEM_RESOURCE_ID_ACTION = 2 \<and> IfCatBusy q 1
    \<and> map_of (p_Expeditions q) 1 = Some d' \<and> xd_InCatIds d' = [1] \<and> xd_CurState d' = PLAYER_EXPEDITION_STATE_DOING"
proof -
  obtain q where q: "C2SStartExpedition demo_trip_env (\<lambda>evs. evs) 1 [1] demo_tour_player = Some (1, q)"
    using demo_trip_start by blast
  have "item_map demo_trip_env 14 = Some demo_item" "get_item demo_tour_player 14 = 3"
    by (simp_all add: get_item_map_of) (simp_all add: demo_trip_defs)
  with start_expedition_spec [OF q, of demo_item] show ?thesis using q by (auto simp: in32_def)
qed

lemma demo_trip_reach:
  "\<exists>q d. exp_step\<^sup>*\<^sup>* demo_trip_player q \<and> (1, d) \<in> set (p_Expeditions q) \<and> map_of (p_Expeditions q) 1 = Some d
     \<and> 1 \<in> set (xd_InCatIds d) \<and> xd_CurState d = PLAYER_EXPEDITION_STATE_DOING"
proof -
  obtain q where q: "C2SStartExpedition demo_trip_env (\<lambda>evs. evs) 1 [1] demo_tour_player = Some (1, q)"
    using demo_trip_start by blast
  from start_expedition_cases [OF q] obtain c p1 where v: "exp_view p1 = exp_view demo_tour_player"
    and b: "begin_expedition demo_trip_env (\<lambda>evs. evs) 1 c [1] p1 = Some (1, q)" by auto
  from begin_expedition_view [OF b] obtain u where u: "xd_InCatIds (u demo_task_row) = [1]"
      "xd_CurState (u demo_task_row) = PLAYER_EXPEDITION_STATE_DOING"
    and w: "exp_view q = exp_view (Expeditions_Set 1 u p1)" by blast
  from w v have "p_Expeditions q = [(1, u demo_task_row)]"
    by (simp add: exp_view_def Expeditions_Set_def col_set_field_def demo_tour_player_def)
  moreover have "exp_step\<^sup>*\<^sup>* demo_trip_player q"
    using exp_step.login [OF demo_trip_login] exp_step.start [OF q] by (meson rtranclp.simps)
  ultimately show ?thesis using u by (intro exI [of _ q] exI [of _ "u demo_task_row"]) simp
qed

lemma cat_in_one_place_witness:
  "\<exists>q d. exp_step\<^sup>*\<^sup>* demo_trip_player q \<and> (1, d) \<in> set (p_Expeditions q) \<and> 1 \<in> set (xd_InCatIds d)
     \<and> \<not> col_HasIndex (p_FosterCats q) 1 \<and> IfCatBusy q 1"
proof -
  obtain q d where q: "exp_step\<^sup>*\<^sup>* demo_trip_player q" "(1, d) \<in> set (p_Expeditions q)" "1 \<in> set (xd_InCatIds d)"
    using demo_trip_reach by blast
  have "p_Expeditions demo_trip_player = []" by (simp add: demo_trip_player_def empty_player_def)
  from cat_in_one_place [OF q(1) this q(2,3)] q show ?thesis by blast
qed

lemma expedition_rows_typed_witness:
  "\<exists>q d r. exp_step\<^sup>*\<^sup>* demo_trip_player q \<and> map_of (p_Expeditions q) 1 = Some d
     \<and> xd_CurState d = PLAYER_EXPEDITION_STATE_DOING \<and> xd_Result d \<in> {0, 1}
     \<and> r < 0 \<and> C2SChgExpeditionResult demo_trip_env 1 q = Some (r, q)"
proof -
  obtain q d where q: "exp_step\<^sup>*\<^sup>* demo_trip_player q" "map_of (p_Expeditions q) 1 = Some d"
    "xd_CurState d = PLAYER_EXPEDITION_STATE_DOING"
    using demo_trip_reach by blast
  have "p_Expeditions demo_trip_player = []" by (simp add: demo_trip_player_def empty_player_def)
  note t = expedition_rows_typed [OF q(1) this q(2), of demo_trip_env]
  let ?r = "if expedition_map demo_trip_env (xd_TaskId d) = None then E_ERR_EXPEDITION_NOT_TASK_CFG else E_ERR_EXPEDITION_WRONG_STATE"
  have "C2SChgExpeditionResult demo_trip_env 1 q = Some (?r, q)" using t q(3) by simp
  moreover have "xd_Result d \<in> {0, 1}" using t by (simp only: simp_thms)
  moreover have "?r < 0" by simp
  ultimately show ?thesis using q by blast
qed

lemma begin_expedition_returns_witness:
  "\<exists>q. begin_expedition demo_trip_env (\<lambda>evs. evs) 1 demo_trip [1] demo_tour_player = Some (1, q)"
proof -
  have "events_ok demo_trip_env" "xp_CostTime demo_trip + gc_ExpeditionSPEventSec (config demo_trip_env) \<le> max32"
    "0 < gc_ExpeditionSPEventSec (config demo_trip_env)"
    by (simp_all add: events_ok_def demo_trip_defs)
  moreover have "star_in_table demo_trip_env demo_tour_player 1"
    by (simp add: star_in_table_def demo_trip_defs demo_cat_cfg_def i32_def)
  ultimately show ?thesis
    using begin_expedition_returns [of demo_trip_env demo_trip "[1]" demo_tour_player "\<lambda>evs. evs" 1] by simp
qed

subsection \<open>What expeditions do not guarantee\<close>

text \<open>The same cat can be named several times in a request, and counts several times.\<close>

lemma cat_counts_twice:
  assumes "chk_cats e p [c] = Inr [x]"
  shows "chk_cats e p [c, c] = Inr [x, x]"
  using assms by (auto split: option.splits if_splits)

text \<open>Stopping an expedition keeps its result: once the draw of a start was lucky, every later start of
  the task succeeds; and no reward handler asks whether the expedition is over.\<close>

lemma stop_keeps_result:
  "map_of (p_Expeditions p) k = Some d \<Longrightarrow>
     \<exists>d'. map_of (p_Expeditions (Expeditions_Stop e k p)) k = Some d' \<and> xd_Result d' = xd_Result d \<and> xd_CurState d' = 0"
  by (simp add: Expeditions_Stop_def Expeditions_Set_def map_of_col_set_field)


lemma reward_ignores_state:
  assumes "CheckUpdateExpedition e p = Some p1" "map_of (p_Expeditions p1) k = Some d"
    and "expedition_map e (xd_TaskId d) = Some c" "reward_percent e d = Some percent" "xd_Result d = 0"
    and "fix_rewards e (\<lambda>n. i32 (n * percent) sdiv 200) (xp_FixRewards c) p1 = Some (rs, p2)"
  shows "C2SGetExpeditionReward e k p = finish_expedition e k rs [] p2"
  using assms by (simp add: C2SGetExpeditionReward_def)

end
