(* ===== verification/Spec2Isabelle.thy ===== *)
theory Spec2Isabelle
  imports Rewards Cats Crops CatHouse RankServer Formula Shop Stage Sign FriendRows BuildingMap MailBox Chat ExpeditionRun
begin

text \<open>
  A model of a mobile game's servers, \<open>mm_server\<close>.

  \<^bold>\<open>The program.\<close> A game server (\<open>src/game_server\<close>) keeps the state of its players in rows of a
  database (\<open>a_db_tables.go\<close>, generated) and serves their client messages: each message has a
  handler that checks its conditions, changes the rows and sends messages back. A rank server
  (\<open>src/rpc_server\<close>) holds what is shared between game servers: ranking lists of all players, kept
  in skip lists (\<open>libs/utils/skiplist.go\<close>, \<open>ranklist.go\<close>). What the handlers charge and pay is
  read from configuration tables (\<open>src/tables\<close>).

  \<^bold>\<open>How the model is built.\<close> A handler is a function from the environment (\<open>env\<close>: the tables, the
  clock, the random draws) and the player (\<open>player\<close>) to its return code and the new player. Sent
  messages, announcements and remote calls are appended to \<open>p_effects\<close> in the order they are made.
  An \<open>int32\<close> is an \<open>int\<close> and every operation of the source wraps it with \<open>i32\<close>. A handler that can
  panic (index out of range, nil pointer, division by zero) returns an option, and \<open>None\<close> is the
  panic; the server recovers from it and answers nothing, so no theorem speaks of the state after
  a panic. Loops over slices are structural recursions; loops that search are given by their
  measure, or, where they may never end, by a partial function whose value then is \<open>None\<close>. A
  database column is an association list whose order stands for the order in which \<open>range\<close> visits
  the Go map in that run: the theorems hold for every order.

  \<^bold>\<open>The theories.\<close>

  \<^item> \<open>Prelude\<close>: wrapping integers, slices, columns (\<open>a_db_tables.go\<close>) and the contract
    \<open>column_store\<close> of a column, interpreted on the association lists.
  \<^item> \<open>Tables\<close>: rows and accessors of the tables and the environment (\<open>src/tables/*.go\<close>).
  \<^item> \<open>PlayerState\<close>: the rows of a player, the messages, the record \<open>player\<close>, and the frames \<open>quiet\<close>
    and \<open>task_only\<close> that say what a step leaves alone.
  \<^item> \<open>TimeFunc\<close>: daily refresh points and the days checker (\<open>time_func.go\<close>, \<open>utils.go\<close>).
  \<^item> \<open>ChangeInfo\<close>: the pending change lists and their messages (\<open>player_item.go\<close>).
  \<^item> \<open>Tasks\<close>, \<open>Rewards\<close>: daily and achievement tasks and their rewards (\<open>player_task.go\<close>). Lemmas:
    a step never takes progress back or reopens a paid task, a reward is paid once.
  \<^item> \<open>Items\<close>: resources, bag, experience, prices (\<open>player_item.go\<close>). Lemmas: each resource
    operation moves exactly the amount it names or is capped; prices are paid exactly.
  \<^item> \<open>Cats\<close>, \<open>Crops\<close>, \<open>CatHouse\<close>: \<open>player_cat.go\<close>, \<open>player_crop.go\<close>, \<open>player_cathouse.go\<close>.
    \<open>CatHouse\<close> proves an invariant over all sequences of house operations, the sale of a house
    with cats in it included (\<open>house_run\<close> collects the cats it leaves behind): the cats a house lists
    are the cats that name the house, no cat twice, but for the ones left behind.
  \<^item> \<open>Formula\<close>: the making queue (\<open>player_formula.go\<close>). The slots in front of the clock are refined
    to a list of completion times (\<open>timeline\<close>); asking at any times in any order only moves finished
    work to the completed list, and an order is delivered when its time has passed.
  \<^item> \<open>Draw\<close>: drop tables and drawing (\<open>player_draw_card.go\<close>). The search for an entry may run
    forever; \<open>drop_search\<close> is the partial function, and the property says exactly when it ends.
  \<^item> \<open>Frames\<close>: the view \<open>side\<close> of a player that resource operations do not touch, with one lemma
    per operation; \<open>Shop\<close>, \<open>Stage\<close> and \<open>Sign\<close> (\<open>player_shop.go\<close>, \<open>player_stage.go\<close>,
    \<open>player_chapter.go\<close>, \<open>player_sign.go\<close>, \<open>player_seven_days.go\<close>) are its clients.
  \<^item> \<open>Friends\<close>: friends, requests, gifts and messages (\<open>player_friend.go\<close>, \<open>player_remote.go\<close>,
    \<open>rpc_common.go\<close>). The state is a world of two player managers, this server and the others, and
    the fate of a remote call is an input of its handler. \<open>FriendWorld\<close>: the step relation of the
    friend handlers with every fate, labelled with the pairs a lost answer or a missing player breaks
    (\<open>friend_run\<close> collects them): friendship is symmetric but for those pairs. \<open>FriendChat\<close>: the
    unread messages of a conversation under way are a bounded queue; the second message of a new one
    is refused. \<open>FriendRows\<close>: the type of the friend columns, over the same step relation.
  \<^item> \<open>Building\<close>: the map of a player (\<open>player_building.go\<close>, \<open>player_area.go\<close>): cells, placing and
    moving, blocks and chests with their refresh, areas. The refresh loop is a partial function.
    \<open>BuildingMap\<close>: a step relation of the map handlers, under which no cell is covered twice and the
    occupancy map agrees with the rows; setting a building; the refresh ends.
  \<^item> \<open>Mail\<close>: the mail boxes (\<open>player_mail.go\<close>) over the players of a server. \<open>MailBox\<close>: a box is bounded
    under a step relation of the mail operations; what a sent mail holds and when sending fails; and what is not guarded.
  \<^item> \<open>MsgList\<close>: the item pool with its contract \<open>free_items\<close> and the linked lists of messages over a
    heap of items (\<open>simple_item_pool.go\<close>, \<open>chat.go\<close>, \<open>anouncement.go\<close>). \<open>MsgQueue\<close>: with room for two a
    list refines a bounded queue and its readers get the messages in order; and where it does not.
    \<open>Chat\<close>: the handlers of the chat channels and announcements (\<open>player_chat.go\<close>).
  \<^item> \<open>Foster\<close>: the foster place (\<open>player_foster.go\<close>), where cats earn the rewards of a card, at home and
    at friends. \<open>FosterPay\<close>: a settlement pays exactly the shares while the card runs and nothing
    afterwards, the place holds at most six cats, and what is not guarded.
  \<^item> \<open>Expedition\<close>: expeditions (\<open>player_expedition.go\<close>, \<open>a_db_ext.go\<close>, \<open>table_expedition.go\<close>); the loop
    over the seconds of a task is a partial function. \<open>ExpeditionRun\<close>: what a start does and when it
    returns, and a step relation of the expedition and foster handlers under which no cat is in two
    places and the rows of the tasks are well formed, so that buying a failed result pays half.
  \<^item> \<open>RankItem\<close>, \<open>Skiplist\<close>, \<open>RankStore\<close>, \<open>RankingList\<close>: the items of a ranking, the skip list with
    its nodes, layers and spans as a heap of nodes and its refinement to a sorted list, the contract
    \<open>rank_store\<close> through which a ranking list uses it, and the ranking list, whose history is
    shown equal to a sorted association list.
  \<^item> \<open>RankServer\<close>: the procedures of the rank server, what it saves and how it starts again.

  \<^bold>\<open>Bounds.\<close> No fuel is used to cut a computation short: recursion is structural or has a measure.
  The skip list has 32 layers as in the source; its searches stop because spans are positive.
  Where a theorem needs that a sum stays in 32 bits, the bound is a hypothesis with a witness.

  \<^bold>\<open>Not modelled.\<close> Loading and saving of rows (SQL, protobuf), parsing of the tables, network
  connections, sessions, login, timers, logging, HTTP and payment verification, and generated
  code: they carry no logic of the game. Locks are left out, a handler runs alone on its players.
  Of the game, the parts listed as not modelled in the manifest are left for later.
\<close>

end
